(* ===== verification/Prelude.thy ===== *)
theory Prelude
  imports Main "HOL-Library.Multiset" "HOL-Library.Char_ord" "HOL-Library.List_Lexorder"
begin

text \<open>
  Shared vocabulary of the development: the C++ containers and algorithms the sources use
  (\<^verbatim>\<open>std::ranges::find\<close>, \<^verbatim>\<open>erase\<close> of one found element, \<^verbatim>\<open>std::map\<close> iterated in key order),
  text helpers for \<^verbatim>\<open>std::format\<close> lines, and the lemmas on them every component uses.
  Byte strings are \<^typ>\<open>string\<close>; \<^theory_text>\<open>Char_ord\<close> and \<^theory_text>\<open>List_Lexorder\<close> give them the byte-wise
  lexicographic order of \<^verbatim>\<open>std::string\<close>.
\<close>

named_theorems voltmod_simps
named_theorems voltmod_intros

section \<open>Sequences\<close>

text \<open>\<open>v.erase(find_if(v, P))\<close>: the first element that satisfies \<open>P\<close> goes, or nothing.\<close>

fun erase_first :: "('a \<Rightarrow> bool) \<Rightarrow> 'a list \<Rightarrow> 'a list" where
  "erase_first P [] = []"
| "erase_first P (x # xs) = (if P x then xs else x # erase_first P xs)"

text \<open>Writing through the iterator of \<open>find_if(v, P)\<close>.\<close>

fun update_first :: "('a \<Rightarrow> bool) \<Rightarrow> ('a \<Rightarrow> 'a) \<Rightarrow> 'a list \<Rightarrow> 'a list" where
  "update_first P f [] = []"
| "update_first P f (x # xs) = (if P x then f x # xs else x # update_first P f xs)"

lemma length_update_first [simp]: "length (update_first P f xs) = length xs"
  by (induction xs) auto

lemma set_erase_first_subset: "set (erase_first P xs) \<subseteq> set xs"
  by (induction xs) auto

lemma erase_first_id [simp]: "(\<And>x. x \<in> set xs \<Longrightarrow> \<not> P x) \<Longrightarrow> erase_first P xs = xs"
  by (induction xs) auto

lemma find_SomeD: "List.find P xs = Some x \<Longrightarrow> x \<in> set xs \<and> P x"
  by (induction xs) (auto split: if_splits)

lemma find_None_iff_all: "List.find P xs = None \<longleftrightarrow> (\<forall>x\<in>set xs. \<not> P x)"
  by (auto simp: find_None_iff)

lemma find_append: "List.find P (xs @ ys) = (case List.find P xs of None \<Rightarrow> List.find P ys | Some x \<Rightarrow> Some x)"
  by (induction xs) auto

lemma erase_first_distinct:
  assumes "distinct (map k xs)"
  shows "erase_first (\<lambda>x. k x = a) xs = filter (\<lambda>x. k x \<noteq> a) xs"
  using assms
proof (induction xs)
  case (Cons x xs)
  from Cons.prems have "\<forall>y\<in>set xs. k y \<noteq> k x" by (auto simp: image_iff)
  with Cons show ?case by (auto simp: filter_id_conv)
qed simp

lemma update_first_distinct:
  assumes "distinct (map k xs)"
  shows "update_first (\<lambda>x. k x = a) f xs = map (\<lambda>x. if k x = a then f x else x) xs"
  using assms
proof (induction xs)
  case (Cons x xs)
  from Cons.prems have "\<forall>y\<in>set xs. k y \<noteq> k x" by (auto simp: image_iff)
  then have "k x = a \<Longrightarrow> map (\<lambda>x. if k x = a then f x else x) xs = xs"
    by (intro map_idI) auto
  with Cons show ?case by simp
qed simp

lemma unique_by_filter:
  assumes "length (filter P xs) < 2" "x \<in> set xs" "y \<in> set xs" "P x" "P y"
  shows "x = y"
proof -
  have "x \<in> set (filter P xs)" "y \<in> set (filter P xs)" using assms by auto
  with assms(1) show ?thesis
    by (cases "filter P xs") (auto simp: length_Suc_conv less_Suc_eq numeral_2_eq_2)
qed

lemma count_list_key: "count_list (map k xs) a = length (filter (\<lambda>x. a = k x) xs)"
  by (simp add: count_list_eq_length_filter filter_map o_def)

lemma distinct_map_filter_key: "distinct (map k xs) \<Longrightarrow> distinct (map k (filter P xs))"
  by (simp add: distinct_map_filter)

lemma map_update_first_key:
  "(\<And>x. k (f x) = k x) \<Longrightarrow> map k (update_first P f xs) = map k xs"
  by (induction xs) auto

section \<open>Ordered maps\<close>

text \<open>
  \<^verbatim>\<open>std::map<K, V>\<close> as an association list in ascending key order: iteration is the list itself,
  \<^verbatim>\<open>find\<close> is \<^const>\<open>map_of\<close>.
\<close>

type_synonym ('k, 'v) omap = "('k \<times> 'v) list"

definition omap_ok :: "('k::linorder, 'v) omap \<Rightarrow> bool" where
  "omap_ok m \<longleftrightarrow> sorted_wrt (<) (map fst m)"

fun omap_assign :: "'k::linorder \<Rightarrow> 'v \<Rightarrow> ('k, 'v) omap \<Rightarrow> ('k, 'v) omap" where
  "omap_assign k v [] = [(k, v)]"
| "omap_assign k v ((k', v') # m) =
     (if k < k' then (k, v) # (k', v') # m
      else if k = k' then (k, v) # m
      else (k', v') # omap_assign k v m)"

definition omap_contains :: "('k, 'v) omap \<Rightarrow> 'k \<Rightarrow> bool" where
  "omap_contains m k \<longleftrightarrow> map_of m k \<noteq> None"

text \<open>\<^verbatim>\<open>emplace\<close> leaves a present key alone.\<close>

definition omap_emplace :: "'k::linorder \<Rightarrow> 'v \<Rightarrow> ('k, 'v) omap \<Rightarrow> ('k, 'v) omap" where
  "omap_emplace k v m = (if omap_contains m k then m else omap_assign k v m)"

definition omap_erase :: "'k \<Rightarrow> ('k, 'v) omap \<Rightarrow> ('k, 'v) omap" where
  "omap_erase k m = filter (\<lambda>(k', _). k' \<noteq> k) m"

lemma omap_contains_iff: "omap_contains m k \<longleftrightarrow> k \<in> fst ` set m"
  by (simp add: omap_contains_def map_of_eq_None_iff)

lemma fst_set_omap_assign [simp]: "fst ` set (omap_assign k v m) = insert k (fst ` set m)"
  by (induction k v m rule: omap_assign.induct) auto

lemma omap_ok_Nil [simp]: "omap_ok []"
  by (simp add: omap_ok_def)

lemma omap_ok_assign [simp]: "omap_ok m \<Longrightarrow> omap_ok (omap_assign k v m)"
proof (induction k v m rule: omap_assign.induct)
  case (2 k v k' v' m)
  have *: "set (map fst (omap_assign k v m)) = insert k (set (map fst m))"
    using fst_set_omap_assign[of k v m] by simp
  show ?case
    using 2 * by (auto simp: omap_ok_def)
qed (simp add: omap_ok_def)

lemma map_of_omap_assign [simp]:
  "omap_ok m \<Longrightarrow> map_of (omap_assign k v m) = (map_of m)(k \<mapsto> v)"
proof (induction k v m rule: omap_assign.induct)
  case (2 k v k' v' m)
  then show ?case by (auto simp: omap_ok_def fun_eq_iff)
qed simp

lemma omap_ok_erase [simp]: "omap_ok m \<Longrightarrow> omap_ok (omap_erase k m)"
  by (simp add: omap_ok_def omap_erase_def sorted_wrt_map sorted_wrt_filter)

lemma map_of_omap_erase [simp]: "map_of (omap_erase k m) = (map_of m)(k := None)"
  by (induction m) (auto simp: omap_erase_def fun_eq_iff)

lemma omap_ok_emplace [simp]: "omap_ok m \<Longrightarrow> omap_ok (omap_emplace k v m)"
  by (simp add: omap_emplace_def)

lemma keys_omap_emplace [simp]: "fst ` set (omap_emplace k v m) = insert k (fst ` set m)"
  by (auto simp: omap_emplace_def omap_contains_iff)

lemma omap_ok_distinct: "omap_ok m \<Longrightarrow> distinct (map fst m)"
  by (simp add: omap_ok_def strict_sorted_iff)

lemma omap_ok_sorted: "omap_ok m \<Longrightarrow> sorted (map fst m)"
  by (simp add: omap_ok_def strict_sorted_iff)

lemma omap_ok_value: "omap_ok m \<Longrightarrow> (k, v) \<in> set m \<Longrightarrow> map_of m k = Some v"
  by (rule map_of_is_SomeI) (rule omap_ok_distinct)

lemma set_omap_erase: "set (omap_erase k m) = {kv \<in> set m. fst kv \<noteq> k}"
  by (auto simp: omap_erase_def)

lemma sort_key_sorted: "sorted (map k xs) \<Longrightarrow> sort_key k xs = xs"
  by (induction xs) (auto intro: insort_is_Cons)

lemma set_omap_assign_absent: "k \<notin> fst ` set m \<Longrightarrow> set (omap_assign k v m) = insert (k, v) (set m)"
  by (induction k v m rule: omap_assign.induct) auto

lemma set_omap_assign: "omap_ok m \<Longrightarrow> set (omap_assign k v m) = insert (k, v) {kv \<in> set m. fst kv \<noteq> k}"
proof (induction k v m rule: omap_assign.induct)
  case (2 k v k' v' m)
  then show ?case by (auto simp: omap_ok_def)
qed simp

lemma mset_omap_assign: "k \<notin> fst ` set m \<Longrightarrow> mset (omap_assign k v m) = add_mset (k, v) (mset m)"
  by (induction k v m rule: omap_assign.induct) auto

text \<open>
  The dictionary contract behind every \<^verbatim>\<open>std::map\<close> and \<^verbatim>\<open>std::unordered_map\<close> of the program:
  what a lookup returns after an insertion or an erasure. Clients reason from these laws.
\<close>

locale dictionary =
  fixes lookup :: "'m \<Rightarrow> 'k \<Rightarrow> 'v option"
    and assign :: "'k \<Rightarrow> 'v \<Rightarrow> 'm \<Rightarrow> 'm"
    and erase :: "'k \<Rightarrow> 'm \<Rightarrow> 'm"
    and invar :: "'m \<Rightarrow> bool"
  assumes lookup_assign: "invar m \<Longrightarrow> lookup (assign k v m) = (lookup m)(k \<mapsto> v)"
    and lookup_erase: "invar m \<Longrightarrow> lookup (erase k m) = (lookup m)(k := None)"
    and invar_assign: "invar m \<Longrightarrow> invar (assign k v m)"
    and invar_erase: "invar m \<Longrightarrow> invar (erase k m)"
begin

lemma fold_assign:
  "invar m \<Longrightarrow> invar (fold (\<lambda>(k, v). assign k v) kvs m) \<and>
     lookup (fold (\<lambda>(k, v). assign k v) kvs m) = lookup m ++ map_of (rev kvs)"
proof (induction kvs arbitrary: m)
  case (Cons kv kvs)
  then show ?case
    by (cases kv) (simp add: invar_assign lookup_assign fun_eq_iff map_add_def split: option.split)
qed simp

lemma erase_assign: "invar m \<Longrightarrow> lookup (erase k (assign k v m)) = (lookup m)(k := None)"
  by (simp add: invar_assign lookup_assign lookup_erase)

end

interpretation omap: dictionary map_of omap_assign omap_erase omap_ok
  by unfold_locales simp_all

section \<open>Text\<close>

definition quoted :: "string \<Rightarrow> string" where
  "quoted s = [CHR 0x27] @ s @ [CHR 0x27]"

end
