(* ===== verification/Dispatch.thy ===== *)
theory Dispatch
  imports Prelude "HOL-Library.Sublist"
begin

text \<open>
  The loop both callback stores of the program share: visit the entries that were there when the
  dispatch began, in order, skip the ones that are marked removed or filtered out when their turn
  comes, and stop early if a callback says so. A callback may do anything to the store, so the loop
  is a function over the store's state; the locale \<open>reentrant_store\<close> says what a callback cannot do
  (shorten or reorder the entries, revive a removed one), and what the loop then guarantees.
\<close>

fun walk :: "('s \<Rightarrow> nat \<Rightarrow> bool) \<Rightarrow> (nat \<Rightarrow> 's \<Rightarrow> bool \<times> 's) \<Rightarrow> nat \<Rightarrow> nat \<Rightarrow> 's
     \<Rightarrow> bool \<times> 's \<times> nat list" where
  "walk runs visit i 0 s = (False, s, [])"
| "walk runs visit i (Suc n) s =
     (if runs s i
      then case visit i s of
             (True, s') \<Rightarrow> (True, s', [i])
           | (False, s') \<Rightarrow> (case walk runs visit (Suc i) n s' of (st, s'', rs) \<Rightarrow> (st, s'', i # rs))
      else walk runs visit (Suc i) n s)"

text \<open>The three results: whether a callback stopped it, the state after, the positions that ran.\<close>

definition walk_state :: "bool \<times> 's \<times> nat list \<Rightarrow> 's" where
  "walk_state r = fst (snd r)"

definition walk_ran :: "bool \<times> 's \<times> nat list \<Rightarrow> nat list" where
  "walk_ran r = snd (snd r)"

lemma walk_simps [simp]:
  "walk_state (st, s, rs) = s" "walk_ran (st, s, rs) = rs"
  by (simp_all add: walk_state_def walk_ran_def)

lemma walk_Suc:
  "walk_state (walk runs visit i (Suc n) s) =
     (if runs s i then if fst (visit i s) then snd (visit i s)
                       else walk_state (walk runs visit (Suc i) n (snd (visit i s)))
      else walk_state (walk runs visit (Suc i) n s))"
  "walk_ran (walk runs visit i (Suc n) s) =
     (if runs s i then i # (if fst (visit i s) then []
                            else walk_ran (walk runs visit (Suc i) n (snd (visit i s))))
      else walk_ran (walk runs visit (Suc i) n s))"
  "fst (walk runs visit i (Suc n) s) =
     (if runs s i then fst (visit i s) \<or> fst (walk runs visit (Suc i) n (snd (visit i s)))
      else fst (walk runs visit (Suc i) n s))"
  by (auto split: prod.splits bool.splits)

lemma walk_0 [simp]:
  "walk_state (walk runs visit i 0 s) = s" "walk_ran (walk runs visit i 0 s) = []"
  "\<not> fst (walk runs visit i 0 s)"
  by simp_all

declare walk.simps [simp del]

lemma walk_ran_range: "set (walk_ran (walk runs visit i n s)) \<subseteq> {i..<i + n}"
proof (induction n arbitrary: i s)
  case (Suc n)
  have "set (walk_ran (walk runs visit (Suc i) n s)) \<subseteq> {i..<i + Suc n}" for s
    using Suc.IH[of "Suc i" s] by force
  then show ?case by (auto simp: walk_Suc)
qed simp

lemma walk_ran_ascending: "sorted_wrt (<) (walk_ran (walk runs visit i n s))"
proof (induction n arbitrary: i s)
  case (Suc n)
  then show ?case
    using walk_ran_range[of runs visit "Suc i" n "snd (visit i s)"] by (force simp: walk_Suc)
qed simp

lemma walk_quiet:
  assumes "\<And>i s. visit i s = (False, s)"
  shows "walk runs visit i n s = (False, s, filter (runs s) [i..<i + n])"
proof (induction n arbitrary: i)
  case (Suc n)
  have "[i..<i + Suc n] = i # [Suc i..<Suc i + n]" by (simp add: upt_rec)
  with Suc show ?case by (simp add: walk.simps assms del: upt_Suc)
qed (simp add: walk.simps)

text \<open>
  The turn of position \<open>j\<close>: the state then (of which whatever the visits before it keep is known),
  whether it runs, and the rest of the loop.
\<close>

lemma walk_turn:
  assumes "i \<le> j" "j < i + n" "P s" "\<And>k t. k < j \<Longrightarrow> P t \<Longrightarrow> P (snd (visit k t))"
    and no_stop: "\<And>k t. \<not> fst (visit k t)"
  shows "\<exists>t m. P t \<and> (j \<in> set (walk_ran (walk runs visit i n s)) \<longleftrightarrow> runs t j) \<and>
    walk_state (walk runs visit i n s) =
      walk_state (walk runs visit (Suc j) m (if runs t j then snd (visit j t) else t))"
  using assms(1-3)
proof (induction n arbitrary: i s)
  case (Suc n)
  have after: "j \<notin> set (walk_ran (walk runs visit (Suc j) n u))" for u
    using walk_ran_range[of runs visit "Suc j" n u] by force
  show ?case
  proof (cases "i = j")
    case True
    then show ?thesis
      using Suc.prems(3) after no_stop by (intro exI[of _ s] exI[of _ n]) (simp add: walk_Suc)
  next
    case False
    then have "Suc i \<le> j" "j < Suc i + n" "P (if runs s i then snd (visit i s) else s)"
      using Suc.prems assms(4) by auto
    from Suc.IH[OF this] False show ?thesis using no_stop by (auto simp: walk_Suc split: if_splits)
  qed
qed simp

text \<open>Picking ascending positions keeps an order.\<close>

lemma sorted_positions:
  "sorted_wrt P xs \<Longrightarrow> sorted_wrt (<) is \<Longrightarrow> set is \<subseteq> {..<length xs} \<Longrightarrow> sorted_wrt P (map (\<lambda>i. xs ! i) is)"
  by (induction "is") (auto dest: sorted_wrt_nth_less)

locale reentrant_store =
  fixes ids :: "'s \<Rightarrow> nat list"
    and alive :: "'s \<Rightarrow> nat \<Rightarrow> bool"
    and busy :: "'s \<Rightarrow> bool"
    and effect :: "'s \<Rightarrow> 's \<Rightarrow> bool"
  assumes effect_refl: "effect s s"
    and effect_trans: "effect s t \<Longrightarrow> effect t u \<Longrightarrow> effect s u"
    and effect_busy: "effect s t \<Longrightarrow> busy s \<Longrightarrow> busy t"
    and effect_ids: "effect s t \<Longrightarrow> busy s \<Longrightarrow> prefix (ids s) (ids t)"
    and effect_dead: "effect s t \<Longrightarrow> busy s \<Longrightarrow> i < length (ids s) \<Longrightarrow> alive t i \<Longrightarrow> alive s i"
begin

definition well_behaved :: "(nat \<Rightarrow> 's \<Rightarrow> bool \<times> 's) \<Rightarrow> bool" where
  "well_behaved visit \<longleftrightarrow> (\<forall>i s. effect s (snd (visit i s)))"

lemma walk_effect: "well_behaved visit \<Longrightarrow> effect s (walk_state (walk runs visit i n s))"
proof (induction n arbitrary: i s)
  case (Suc n)
  then have "effect s (snd (visit i s))" by (simp add: well_behaved_def)
  with Suc show ?case by (auto simp: walk_Suc intro: effect_trans)
qed (simp add: effect_refl)

lemma effect_length: "effect s t \<Longrightarrow> busy s \<Longrightarrow> length (ids s) \<le> length (ids t)"
  by (simp add: effect_ids prefix_length_le)

lemma walk_ran_alive:
  assumes "well_behaved visit" "busy s" "i + n \<le> length (ids s)"
    and "\<And>s i. runs s i \<Longrightarrow> alive s i" "j \<in> set (walk_ran (walk runs visit i n s))"
  shows "alive s j"
  using assms
proof (induction n arbitrary: i s)
  case (Suc n)
  let ?s' = "snd (visit i s)"
  have step: "effect s ?s'" using Suc.prems(1) by (simp add: well_behaved_def)
  from Suc.prems(5) consider "j = i" "runs s i"
    | "runs s i" "j \<in> set (walk_ran (walk runs visit (Suc i) n ?s'))"
    | "j \<in> set (walk_ran (walk runs visit (Suc i) n s))"
    by (auto simp: walk_Suc split: if_splits)
  then show ?case
  proof cases
    case 2
    then have "alive ?s' j"
      using Suc.prems(1-4) effect_busy[OF step] effect_length[OF step]
      by (intro Suc.IH[of ?s' "Suc i"]) auto
    moreover have "j < length (ids s)"
      using walk_ran_range[of runs visit "Suc i" n ?s'] 2 Suc.prems(3) by fastforce
    ultimately show ?thesis using effect_dead[OF step] Suc.prems(2) by blast
  next
    case 3
    then show ?thesis using Suc.prems Suc.IH[of s "Suc i"] by auto
  qed (use Suc.prems(4) in auto)
qed simp

lemma walk_complete:
  assumes "well_behaved visit" "busy s" "i + n \<le> length (ids s)"
    and "\<not> fst (walk alive visit i n s)"
    and "i \<le> j" "j < i + n" "alive (walk_state (walk alive visit i n s)) j"
  shows "j \<in> set (walk_ran (walk alive visit i n s))"
  using assms
proof (induction n arbitrary: i s)
  case (Suc n)
  let ?s' = "snd (visit i s)"
  have step: "effect s ?s'" using Suc.prems(1) by (simp add: well_behaved_def)
  show ?case
  proof (cases "alive s i")
    case True
    then show ?thesis
      using Suc.prems effect_busy[OF step] effect_length[OF step] Suc.IH[of ?s' "Suc i"]
      by (cases "j = i") (auto simp: walk_Suc)
  next
    case False
    have "effect s (walk_state (walk alive visit i (Suc n) s))" by (rule walk_effect) fact
    then have "j \<noteq> i" using False Suc.prems(2,3,7) effect_dead by fastforce
    with False Suc.prems Suc.IH[of s "Suc i"] show ?thesis by (simp add: walk_Suc)
  qed
qed simp

end

end
