(* ===== verification/CallbackList.thy ===== *)
theory CallbackList
  imports Dispatch
begin

text \<open>
  One host event's callbacks. Source: \<^verbatim>\<open>src/Host/Plugins/CallbackList.hpp\<close>. A callback and its context
  pointer are one value. The pass itself is \<open>cl_Walk\<close>, over any state that holds the list: the callbacks
  of a host event act on the whole host.
\<close>

section \<open>State and operations\<close>

record 'f cl_Entry =
  ce_Token :: nat
  ce_Order :: nat
  ce_Call :: 'f
  ce_Removed :: bool

record 'f CallbackList =
  cl_entries :: "'f cl_Entry list"
  cl_pending :: "'f cl_Entry list"
  cl_depth :: nat

definition cl_init :: "'f CallbackList" where
  "cl_init = \<lparr>cl_entries = [], cl_pending = [], cl_depth = 0\<rparr>"

definition cl_Insert :: "'f cl_Entry list \<Rightarrow> 'f cl_Entry \<Rightarrow> 'f cl_Entry list" where
  "cl_Insert entries entry =
     takeWhile (\<lambda>held. \<not> ce_Order held > ce_Order entry) entries @ [entry] @
     dropWhile (\<lambda>held. \<not> ce_Order held > ce_Order entry) entries"

definition cl_ApplyPending :: "'f CallbackList \<Rightarrow> 'f CallbackList" where
  "cl_ApplyPending l =
     l\<lparr>cl_entries := foldl cl_Insert (filter (\<lambda>e. \<not> ce_Removed e) (cl_entries l)) (cl_pending l),
       cl_pending := []\<rparr>"

definition cl_Add :: "nat \<Rightarrow> nat \<Rightarrow> 'f \<Rightarrow> 'f CallbackList \<Rightarrow> 'f CallbackList" where
  "cl_Add token order callback l =
     (let entry = \<lparr>ce_Token = token, ce_Order = order, ce_Call = callback, ce_Removed = False\<rparr>
      in if cl_depth l > 0 then l\<lparr>cl_pending := cl_pending l @ [entry]\<rparr>
         else l\<lparr>cl_entries := cl_Insert (cl_entries l) entry\<rparr>)"

definition cl_Empty :: "'f CallbackList \<Rightarrow> bool" where
  "cl_Empty l \<longleftrightarrow> cl_pending l = [] \<and> list_all ce_Removed (cl_entries l)"

definition cl_Remove :: "nat \<Rightarrow> 'f CallbackList \<Rightarrow> bool \<times> 'f CallbackList" where
  "cl_Remove token l =
     (if list_ex (\<lambda>e. ce_Token e = token \<and> \<not> ce_Removed e) (cl_entries l)
      then let l' = l\<lparr>cl_entries := update_first (\<lambda>e. ce_Token e = token \<and> \<not> ce_Removed e)
                                      (\<lambda>e. e\<lparr>ce_Removed := True\<rparr>) (cl_entries l)\<rparr>
           in (True, if cl_depth l = 0 then cl_ApplyPending l' else l')
      else if \<not> list_ex (\<lambda>e. ce_Token e = token) (cl_pending l) then (False, l)
      else (True, l\<lparr>cl_pending := erase_first (\<lambda>e. ce_Token e = token) (cl_pending l)\<rparr>))"

text \<open>Raising and lowering the depth around a pass.\<close>

definition cl_begin :: "'f CallbackList \<Rightarrow> 'f CallbackList" where
  "cl_begin l = l\<lparr>cl_depth := cl_depth l + 1\<rparr>"

definition cl_end :: "'f CallbackList \<Rightarrow> 'f CallbackList" where
  "cl_end l = (let l' = l\<lparr>cl_depth := cl_depth l - 1\<rparr>
     in if cl_depth l' = 0 then cl_ApplyPending l' else l')"

definition cl_runs :: "('s \<Rightarrow> 'f CallbackList) \<Rightarrow> 's \<Rightarrow> nat \<Rightarrow> bool" where
  "cl_runs get s i \<longleftrightarrow> \<not> ce_Removed (cl_entries (get s) ! i)"

definition cl_Walk ::
  "('s \<Rightarrow> 'f CallbackList) \<Rightarrow> (('f CallbackList \<Rightarrow> 'f CallbackList) \<Rightarrow> 's \<Rightarrow> 's)
     \<Rightarrow> ('f cl_Entry \<Rightarrow> 's \<Rightarrow> bool \<times> 's) \<Rightarrow> 's \<Rightarrow> bool \<times> 's \<times> nat list" where
  "cl_Walk get upd visit s =
     (let count = length (cl_entries (get s))
      in case walk (cl_runs get) (\<lambda>i s. visit (cl_entries (get s) ! i) s) 0 count (upd cl_begin s) of
           (stopped, s', rs) \<Rightarrow> (stopped, upd cl_end s', map (\<lambda>i. ce_Token (cl_entries (get s) ! i)) rs))"

definition cl_Dispatch ::
  "('s \<Rightarrow> 'f CallbackList) \<Rightarrow> (('f CallbackList \<Rightarrow> 'f CallbackList) \<Rightarrow> 's \<Rightarrow> 's)
     \<Rightarrow> ('f \<Rightarrow> 's \<Rightarrow> bool \<times> 's) \<Rightarrow> 's \<Rightarrow> bool \<times> 's \<times> nat list" where
  "cl_Dispatch get upd visit s = cl_Walk get upd (\<lambda>e. visit (ce_Call e)) s"

definition cl_DispatchTo ::
  "('s \<Rightarrow> 'f CallbackList) \<Rightarrow> (('f CallbackList \<Rightarrow> 'f CallbackList) \<Rightarrow> 's \<Rightarrow> 's)
     \<Rightarrow> nat \<Rightarrow> ('f \<Rightarrow> 's \<Rightarrow> 's) \<Rightarrow> 's \<Rightarrow> 's" where
  "cl_DispatchTo get upd order visit s =
     fst (snd (cl_Walk get upd (\<lambda>e s. (False, if ce_Order e = order then visit (ce_Call e) s else s)) s))"

section \<open>The invariant\<close>

text \<open>Ordered by load position, then by subscription; what waits aside is newer than what is stored.\<close>

definition before :: "'f cl_Entry \<Rightarrow> 'f cl_Entry \<Rightarrow> bool" where
  "before a b \<longleftrightarrow> ce_Order a < ce_Order b \<or> ce_Order a = ce_Order b \<and> ce_Token a < ce_Token b"

definition cl_ok :: "'f CallbackList \<Rightarrow> bool" where
  "cl_ok l \<longleftrightarrow> sorted_wrt before (cl_entries l) \<and> distinct (map ce_Token (cl_entries l)) \<and>
     sorted_wrt (<) (map ce_Token (cl_pending l)) \<and>
     (\<forall>p \<in> set (cl_pending l). \<not> ce_Removed p \<and> (\<forall>e \<in> set (cl_entries l). ce_Token e < ce_Token p)) \<and>
     (cl_depth l = 0 \<longrightarrow> cl_pending l = [] \<and> (\<forall>e \<in> set (cl_entries l). \<not> ce_Removed e))"

text \<open>The entries that are subscribed, waiting ones included, and the tokens in use.\<close>

definition cl_live :: "'f CallbackList \<Rightarrow> 'f cl_Entry set" where
  "cl_live l = {e \<in> set (cl_entries l). \<not> ce_Removed e} \<union> set (cl_pending l)"

definition cl_below :: "nat \<Rightarrow> 'f CallbackList \<Rightarrow> bool" where
  "cl_below n l \<longleftrightarrow> (\<forall>e \<in> set (cl_entries l) \<union> set (cl_pending l). ce_Token e < n)"

lemma set_Insert [simp]: "set (cl_Insert es e) = insert e (set es)"
proof -
  have "set es = set (takeWhile (\<lambda>held. \<not> ce_Order held > ce_Order e) es) \<union>
      set (dropWhile (\<lambda>held. \<not> ce_Order held > ce_Order e) es)"
    by (metis set_append takeWhile_dropWhile_id)
  then show ?thesis by (auto simp: cl_Insert_def)
qed

lemma sorted_Insert:
  assumes "sorted_wrt before es" "\<forall>h \<in> set es. ce_Token h < ce_Token e"
  shows "sorted_wrt before (cl_Insert es e)"
  using assms
proof (induction es)
  case (Cons h es)
  show ?case
  proof (cases "ce_Order h > ce_Order e")
    case True
    with Cons.prems show ?thesis by (auto simp: cl_Insert_def before_def)
  next
    case False
    have "cl_Insert (h # es) e = h # cl_Insert es e" using False by (simp add: cl_Insert_def)
    then show ?thesis using Cons False by (auto simp: before_def)
  qed
qed (simp add: cl_Insert_def)

lemma distinct_Insert:
  "distinct (map ce_Token es) \<Longrightarrow> \<forall>h \<in> set es. ce_Token h \<noteq> ce_Token e \<Longrightarrow> distinct (map ce_Token (cl_Insert es e))"
proof (induction es)
  case (Cons h es)
  have "ce_Token h \<notin> ce_Token ` set (cl_Insert es e)" using Cons.prems by auto
  with Cons show ?case
    by (cases "ce_Order h > ce_Order e") (auto simp: cl_Insert_def)
qed (simp add: cl_Insert_def)

lemma fold_Insert:
  assumes "sorted_wrt before es" "distinct (map ce_Token es)" "sorted_wrt (<) (map ce_Token ps)"
    "\<forall>p \<in> set ps. \<forall>e \<in> set es. ce_Token e < ce_Token p"
  shows "sorted_wrt before (foldl cl_Insert es ps) \<and> distinct (map ce_Token (foldl cl_Insert es ps)) \<and>
    set (foldl cl_Insert es ps) = set es \<union> set ps"
  using assms
proof (induction ps arbitrary: es)
  case (Cons p ps)
  have "sorted_wrt before (cl_Insert es p)" using Cons.prems by (intro sorted_Insert) auto
  moreover have "distinct (map ce_Token (cl_Insert es p))" using Cons.prems by (intro distinct_Insert) auto
  ultimately have "sorted_wrt before (foldl cl_Insert (cl_Insert es p) ps) \<and>
      distinct (map ce_Token (foldl cl_Insert (cl_Insert es p) ps)) \<and>
      set (foldl cl_Insert (cl_Insert es p) ps) = set (cl_Insert es p) \<union> set ps"
    using Cons.prems by (intro Cons.IH) auto
  then show ?case by auto
qed simp

lemma cl_ok_init [simp]: "cl_ok cl_init" "cl_below n cl_init" "cl_live cl_init = {}"
  by (simp_all add: cl_ok_def cl_init_def cl_below_def cl_live_def)

lemma ApplyPending_facts:
  assumes "sorted_wrt before (cl_entries l)" "distinct (map ce_Token (cl_entries l))"
    "sorted_wrt (<) (map ce_Token (cl_pending l))"
    "\<forall>p \<in> set (cl_pending l). \<not> ce_Removed p \<and> (\<forall>e \<in> set (cl_entries l). ce_Token e < ce_Token p)"
  shows "cl_ok (cl_ApplyPending l)" "cl_live (cl_ApplyPending l) = cl_live l"
    "cl_below n l \<Longrightarrow> cl_below n (cl_ApplyPending l)" "cl_depth (cl_ApplyPending l) = cl_depth l"
proof -
  have "sorted_wrt before (filter (\<lambda>e. \<not> ce_Removed e) (cl_entries l))"
    "distinct (map ce_Token (filter (\<lambda>e. \<not> ce_Removed e) (cl_entries l)))"
    using assms by (simp_all add: sorted_wrt_filter distinct_map_filter)
  note fold = fold_Insert[OF this assms(3)]
  show "cl_ok (cl_ApplyPending l)" "cl_live (cl_ApplyPending l) = cl_live l"
    "cl_below n l \<Longrightarrow> cl_below n (cl_ApplyPending l)" "cl_depth (cl_ApplyPending l) = cl_depth l"
    using fold assms(4) by (auto simp: cl_ApplyPending_def cl_ok_def cl_live_def cl_below_def)
qed

lemma cl_Add_facts:
  assumes "cl_ok l" "cl_below token l"
  shows "cl_ok (cl_Add token order f l)" "cl_below (Suc token) (cl_Add token order f l)"
    "cl_live (cl_Add token order f l) =
      insert \<lparr>ce_Token = token, ce_Order = order, ce_Call = f, ce_Removed = False\<rparr> (cl_live l)"
proof -
  let ?e = "\<lparr>ce_Token = token, ce_Order = order, ce_Call = f, ce_Removed = False\<rparr>"
  have less: "\<forall>h \<in> set (cl_entries l). ce_Token h < ce_Token ?e" using assms by (simp add: cl_below_def)
  have "sorted_wrt before (cl_Insert (cl_entries l) ?e)" "distinct (map ce_Token (cl_Insert (cl_entries l) ?e))"
    using assms less sorted_Insert[of "cl_entries l" ?e] distinct_Insert[of "cl_entries l" ?e] by (auto simp: cl_ok_def)
  then show "cl_ok (cl_Add token order f l)"
    using assms by (auto simp: cl_Add_def cl_ok_def cl_below_def Let_def sorted_wrt_append)
  show "cl_below (Suc token) (cl_Add token order f l)"
    using assms by (auto simp: cl_Add_def cl_below_def Let_def less_Suc_eq)
  show "cl_live (cl_Add token order f l) = insert ?e (cl_live l)"
    by (auto simp: cl_Add_def cl_live_def Let_def)
qed


lemma update_first_keyed:
  assumes "distinct (map k xs)" "\<And>x. P x \<Longrightarrow> k x = a"
  shows "update_first P f xs = map (\<lambda>x. if P x then f x else x) xs"
  using assms
proof (induction xs)
  case (Cons x xs)
  have "map (\<lambda>x. if P x then f x else x) xs = xs" if "P x"
    using that Cons.prems by (intro map_idI) (auto simp: image_iff)
  with Cons show ?case by simp
qed simp

definition mark_entry :: "nat \<Rightarrow> 'f cl_Entry \<Rightarrow> 'f cl_Entry" where
  "mark_entry token e = (if ce_Token e = token \<and> \<not> ce_Removed e then e\<lparr>ce_Removed := True\<rparr> else e)"

definition marked :: "nat \<Rightarrow> 'f CallbackList \<Rightarrow> 'f CallbackList" where
  "marked token l = l\<lparr>cl_entries := map (mark_entry token) (cl_entries l)\<rparr>"

lemma mark_entry_fields [simp]:
  "ce_Token (mark_entry token e) = ce_Token e" "ce_Order (mark_entry token e) = ce_Order e"
  "ce_Removed (mark_entry token e) \<longleftrightarrow> ce_Token e = token \<or> ce_Removed e"
  "ce_Token e \<noteq> token \<Longrightarrow> mark_entry token e = e"
  by (auto simp: mark_entry_def)

lemma map_mark_entry [simp]:
  "map (ce_Token \<circ> mark_entry token) es = map ce_Token es"
  "sorted_wrt before (map (mark_entry token) es) = sorted_wrt before es"
  by (simp_all add: o_def sorted_wrt_map before_def[abs_def])

lemma marked_simps [simp]:
  "cl_pending (marked token l) = cl_pending l" "cl_depth (marked token l) = cl_depth l"
  "cl_entries (marked token l) = map (mark_entry token) (cl_entries l)" "cl_below n (marked token l) = cl_below n l"
  by (simp_all add: marked_def cl_below_def ball_Un)

lemma cl_Remove_alt:
  assumes "cl_ok l"
  shows "cl_Remove token l =
    (if \<exists>e \<in> set (cl_entries l). ce_Token e = token \<and> \<not> ce_Removed e
     then (True, if cl_depth l = 0 then cl_ApplyPending (marked token l) else marked token l)
     else if token \<notin> ce_Token ` set (cl_pending l) then (False, l)
     else (True, l\<lparr>cl_pending := filter (\<lambda>e. ce_Token e \<noteq> token) (cl_pending l)\<rparr>))"
proof -
  have "distinct (map ce_Token (cl_entries l))" "distinct (map ce_Token (cl_pending l))"
    using assms by (auto simp: cl_ok_def strict_sorted_iff)
  then have "update_first (\<lambda>e. ce_Token e = token \<and> \<not> ce_Removed e) (\<lambda>e. e\<lparr>ce_Removed := True\<rparr>) (cl_entries l) =
      map (mark_entry token) (cl_entries l)"
    "erase_first (\<lambda>e. ce_Token e = token) (cl_pending l) = filter (\<lambda>e. ce_Token e \<noteq> token) (cl_pending l)"
    using update_first_keyed[of ce_Token "cl_entries l" "\<lambda>e. ce_Token e = token \<and> \<not> ce_Removed e" token]
    by (auto simp: erase_first_distinct mark_entry_def[abs_def])
  then show ?thesis by (auto simp: cl_Remove_def list_ex_iff image_iff marked_def)
qed

lemma marked_live:
  assumes "cl_ok l" "\<exists>e \<in> set (cl_entries l). ce_Token e = token \<and> \<not> ce_Removed e"
  shows "cl_live (marked token l) = {e \<in> cl_live l. ce_Token e \<noteq> token}"
proof -
  have "ce_Token p \<noteq> token" if "p \<in> set (cl_pending l)" for p
  proof -
    obtain e where "e \<in> set (cl_entries l)" "ce_Token e = token" using assms(2) by blast
    with assms(1) that show ?thesis by (force simp: cl_ok_def)
  qed
  then show ?thesis by (auto simp: cl_live_def image_iff) (metis mark_entry_fields(4))
qed

lemma marked_inv:
  assumes "cl_ok l"
  shows "sorted_wrt before (cl_entries (marked token l)) \<and> distinct (map ce_Token (cl_entries (marked token l))) \<and>
    sorted_wrt (<) (map ce_Token (cl_pending (marked token l))) \<and>
    (\<forall>p \<in> set (cl_pending (marked token l)). \<not> ce_Removed p \<and> (\<forall>e \<in> set (cl_entries (marked token l)). ce_Token e < ce_Token p))"
  using assms by (auto simp: cl_ok_def)

lemma cl_Remove_facts:
  assumes ok: "cl_ok l"
  shows "cl_ok (snd (cl_Remove token l))" "cl_below n l \<Longrightarrow> cl_below n (snd (cl_Remove token l))"
    "cl_live (snd (cl_Remove token l)) = {e \<in> cl_live l. ce_Token e \<noteq> token}"
    "fst (cl_Remove token l) \<longleftrightarrow> token \<in> ce_Token ` cl_live l"
    "cl_depth (snd (cl_Remove token l)) = cl_depth l"
proof -
  consider (here) "\<exists>e \<in> set (cl_entries l). ce_Token e = token \<and> \<not> ce_Removed e"
    | (nowhere) "\<not> (\<exists>e \<in> set (cl_entries l). ce_Token e = token \<and> \<not> ce_Removed e)" "token \<notin> ce_Token ` set (cl_pending l)"
    | (waiting) "\<not> (\<exists>e \<in> set (cl_entries l). ce_Token e = token \<and> \<not> ce_Removed e)" "token \<in> ce_Token ` set (cl_pending l)"
    by blast
  then have "cl_ok (snd (cl_Remove token l)) \<and> (cl_below n l \<longrightarrow> cl_below n (snd (cl_Remove token l))) \<and>
    cl_live (snd (cl_Remove token l)) = {e \<in> cl_live l. ce_Token e \<noteq> token} \<and>
    (fst (cl_Remove token l) \<longleftrightarrow> token \<in> ce_Token ` cl_live l) \<and> cl_depth (snd (cl_Remove token l)) = cl_depth l"
  proof cases
    case here
    note inv = marked_inv[OF ok, of token]
    have "cl_ok (marked token l)" if "cl_depth l \<noteq> 0" using inv that by (auto simp: cl_ok_def)
    moreover have "token \<in> ce_Token ` cl_live l" using here by (auto simp: cl_live_def)
    ultimately show ?thesis
      using here ApplyPending_facts(1,2,4)[of "marked token l"] ApplyPending_facts(3)[of "marked token l" n] inv marked_live[OF ok here]
      by (simp add: cl_Remove_alt[OF ok])
  next
    case nowhere
    then show ?thesis using ok by (auto simp: cl_Remove_alt[OF ok] cl_live_def image_iff)
  next
    case waiting
    moreover have "sorted_wrt (<) (map ce_Token (filter (\<lambda>e. ce_Token e \<noteq> token) (cl_pending l)))"
      using ok by (simp add: cl_ok_def sorted_wrt_map sorted_wrt_filter)
    ultimately show ?thesis
      using ok by (auto simp: cl_Remove_alt[OF ok] cl_live_def cl_below_def) (auto simp: cl_ok_def)
  qed
  then show "cl_ok (snd (cl_Remove token l))" "cl_below n l \<Longrightarrow> cl_below n (snd (cl_Remove token l))"
    "cl_live (snd (cl_Remove token l)) = {e \<in> cl_live l. ce_Token e \<noteq> token}"
    "fst (cl_Remove token l) \<longleftrightarrow> token \<in> ce_Token ` cl_live l"
    "cl_depth (snd (cl_Remove token l)) = cl_depth l"
    by auto
qed

lemma cl_begin_facts:
  assumes "cl_ok l"
  shows "cl_ok (cl_begin l)" "cl_below n (cl_begin l) = cl_below n l" "cl_live (cl_begin l) = cl_live l"
    "cl_depth (cl_begin l) = Suc (cl_depth l)"
  using assms by (auto simp: cl_begin_def cl_ok_def cl_below_def cl_live_def)

lemma cl_end_facts:
  assumes "cl_ok l" "0 < cl_depth l"
  shows "cl_ok (cl_end l)" "cl_below n l \<Longrightarrow> cl_below n (cl_end l)" "cl_live (cl_end l) = cl_live l"
    "cl_depth (cl_end l) = cl_depth l - 1"
proof -
  define l' where "l' = l\<lparr>cl_depth := cl_depth l - 1\<rparr>"
  have inv: "sorted_wrt before (cl_entries l')" "distinct (map ce_Token (cl_entries l'))"
    "sorted_wrt (<) (map ce_Token (cl_pending l'))"
    "\<forall>p \<in> set (cl_pending l'). \<not> ce_Removed p \<and> (\<forall>e \<in> set (cl_entries l'). ce_Token e < ce_Token p)"
    using assms by (simp_all add: cl_ok_def l'_def)
  have same: "cl_live l' = cl_live l" "cl_below n l' = cl_below n l" by (simp_all add: cl_live_def cl_below_def l'_def)
  have lower: "cl_ok l'" if "cl_depth l \<noteq> 1" using inv that assms(2) by (simp add: cl_ok_def l'_def)
  have "cl_end l = (if cl_depth l = 1 then cl_ApplyPending l' else l')" using assms(2) by (simp add: cl_end_def Let_def l'_def)
  then show "cl_ok (cl_end l)" "cl_below n l \<Longrightarrow> cl_below n (cl_end l)" "cl_live (cl_end l) = cl_live l"
    "cl_depth (cl_end l) = cl_depth l - 1"
    using ApplyPending_facts(1,2,4)[OF inv] ApplyPending_facts(3)[OF inv, of n] lower same by (auto simp: l'_def)
qed

section \<open>What a pass keeps\<close>

definition cl_kept :: "'f CallbackList \<Rightarrow> 'f CallbackList \<Rightarrow> bool" where
  "cl_kept l m \<longleftrightarrow> map ce_Token (cl_entries m) = map ce_Token (cl_entries l) \<and>
     (\<forall>i < length (cl_entries l). ce_Removed (cl_entries l ! i) \<longrightarrow> ce_Removed (cl_entries m ! i))"

lemma cl_kept_refl [simp]: "cl_kept l l"
  by (simp add: cl_kept_def)

lemma cl_kept_trans: "cl_kept l m \<Longrightarrow> cl_kept m n \<Longrightarrow> cl_kept l n"
  unfolding cl_kept_def by (metis length_map)

lemma cl_kept_ops:
  assumes "cl_ok l" "0 < cl_depth l"
  shows "cl_kept l (cl_Add token order f l)" "cl_kept l (snd (cl_Remove token l))" "cl_kept l (cl_begin l)"
    "1 < cl_depth l \<Longrightarrow> cl_kept l (cl_end l)"
  using assms
  by (auto simp: cl_kept_def cl_Add_def cl_Remove_alt Let_def o_def cl_begin_def cl_end_def)

end
