(* ===== verification/OwnedNames.thy ===== *)
theory OwnedNames
  imports Prelude
begin

text \<open>
  The two tables of names plugins hold: console commands and published interfaces. Sources:
  \<^verbatim>\<open>src/Host/Plugins/{CommandNames,PublishedInterfaces}.{hpp,cpp}\<close>. An owner is the opaque pointer of the
  source as a natural number, 0 for \<^verbatim>\<open>nullptr\<close>; an implementation is an optional value, \<open>None\<close> for a
  null pointer. Both tables promise the contract \<open>owned_names\<close>: a name has one owner, nobody else can
  take it, and dropping an owner frees exactly its names.
\<close>

section \<open>Command names\<close>

record CommandEntry =
  cn_Name :: string
  cn_Owner :: nat
  cn_OwnerName :: string

type_synonym CommandNames = "CommandEntry list"

definition cn_Register :: "nat \<Rightarrow> string \<Rightarrow> string \<Rightarrow> CommandNames \<Rightarrow> bool \<times> CommandNames" where
  "cn_Register owner ownerName name entries =
     (if name = [] then (False, entries)
      else case List.find (\<lambda>e. cn_Name e = name) entries of
             Some found \<Rightarrow> (cn_Owner found = owner, entries)
           | None \<Rightarrow> (True, entries @ [\<lparr>cn_Name = name, cn_Owner = owner, cn_OwnerName = ownerName\<rparr>]))"

definition cn_Reserve :: "string \<Rightarrow> CommandNames \<Rightarrow> CommandNames" where
  "cn_Reserve name entries =
     (if name \<noteq> [] \<and> List.find (\<lambda>e. cn_Name e = name) entries = None
      then entries @ [\<lparr>cn_Name = name, cn_Owner = 0, cn_OwnerName = ''the host''\<rparr>] else entries)"

definition cn_OwnerOf :: "CommandNames \<Rightarrow> string \<Rightarrow> string" where
  "cn_OwnerOf entries name =
     (case List.find (\<lambda>e. cn_Name e = name) entries of Some found \<Rightarrow> cn_OwnerName found | None \<Rightarrow> [])"

definition cn_RemoveAll :: "nat \<Rightarrow> CommandNames \<Rightarrow> CommandNames" where
  "cn_RemoveAll owner entries = filter (\<lambda>e. cn_Owner e \<noteq> owner) entries"

section \<open>Published interfaces\<close>

record 'i Service =
  sv_Name :: string
  sv_Implementation :: 'i
  sv_Owner :: nat

type_synonym 'i PublishedInterfaces = "'i Service list"

definition pi_Publish :: "nat \<Rightarrow> string \<Rightarrow> 'i option \<Rightarrow> 'i PublishedInterfaces \<Rightarrow> 'i PublishedInterfaces" where
  "pi_Publish owner name implementation services =
     (case implementation of
        None \<Rightarrow> services
      | Some i \<Rightarrow>
          if name = [] then services
          else case List.find (\<lambda>s. sv_Name s = name) services of
                 None \<Rightarrow> services @ [\<lparr>sv_Name = name, sv_Implementation = i, sv_Owner = owner\<rparr>]
               | Some held \<Rightarrow>
                   if sv_Owner held = owner
                   then update_first (\<lambda>s. sv_Name s = name) (\<lambda>s. s\<lparr>sv_Implementation := i\<rparr>) services
                   else services)"

definition pi_Unpublish :: "nat \<Rightarrow> string \<Rightarrow> 'i PublishedInterfaces \<Rightarrow> 'i PublishedInterfaces" where
  "pi_Unpublish owner name services =
     (case List.find (\<lambda>s. sv_Name s = name) services of
        None \<Rightarrow> services
      | Some held \<Rightarrow> if sv_Owner held \<noteq> owner then services else erase_first (\<lambda>s. sv_Name s = name) services)"

definition pi_Find :: "'i PublishedInterfaces \<Rightarrow> string \<Rightarrow> 'i option" where
  "pi_Find services name = map_option sv_Implementation (List.find (\<lambda>s. sv_Name s = name) services)"

definition pi_RemoveAll :: "nat \<Rightarrow> 'i PublishedInterfaces \<Rightarrow> string list \<times> 'i PublishedInterfaces" where
  "pi_RemoveAll owner services =
     (map sv_Name (filter (\<lambda>s. sv_Owner s = owner) services), filter (\<lambda>s. sv_Owner s \<noteq> owner) services)"

section \<open>The contract\<close>

locale owned_names =
  fixes owner_of :: "'s \<Rightarrow> string \<Rightarrow> nat option"
    and claim :: "nat \<Rightarrow> string \<Rightarrow> 's \<Rightarrow> 's"
    and release_all :: "nat \<Rightarrow> 's \<Rightarrow> 's"
    and invar :: "'s \<Rightarrow> bool"
  assumes owner_claim: "invar s \<Longrightarrow> n \<noteq> [] \<Longrightarrow>
      owner_of (claim o1 n s) = (case owner_of s n of None \<Rightarrow> (owner_of s)(n \<mapsto> o1) | Some _ \<Rightarrow> owner_of s)"
    and owner_release: "invar s \<Longrightarrow> owner_of (release_all o1 s) n = (if owner_of s n = Some o1 then None else owner_of s n)"
    and invar_claim: "invar s \<Longrightarrow> invar (claim o1 n s)"
    and invar_release: "invar s \<Longrightarrow> invar (release_all o1 s)"
begin

text \<open>What one owner does: claims and, perhaps, its going away.\<close>

definition acts :: "nat \<Rightarrow> string list \<Rightarrow> bool \<Rightarrow> 's \<Rightarrow> 's" where
  "acts o1 names leaves s = (let s' = fold (claim o1) names s in if leaves then release_all o1 s' else s')"

lemma claims_keep: "invar s \<Longrightarrow> [] \<notin> set names \<Longrightarrow> owner_of s n = Some o2 \<Longrightarrow>
    invar (fold (claim o1) names s) \<and> owner_of (fold (claim o1) names s) n = Some o2"
proof (induction names arbitrary: s)
  case (Cons m names)
  have "owner_of (claim o1 m s) n = Some o2"
    using Cons.prems owner_claim[of s m o1] by (cases "m = n") (auto split: option.splits)
  then show ?case using Cons invar_claim by auto
qed simp

lemma not_stolen:
  "invar s \<Longrightarrow> owner_of s n = Some o2 \<Longrightarrow>
     \<forall>(o1, names, leaves) \<in> set others. o1 \<noteq> o2 \<and> [] \<notin> set names \<Longrightarrow>
     owner_of (fold (\<lambda>(o1, names, leaves). acts o1 names leaves) others s) n = Some o2"
proof (induction others arbitrary: s)
  case (Cons x others)
  obtain o1 names leaves where x: "x = (o1, names, leaves)" by (cases x) auto
  have "invar (acts o1 names leaves s) \<and> owner_of (acts o1 names leaves s) n = Some o2"
    using claims_keep[of s names n o2 o1] Cons.prems
    by (auto simp: x acts_def Let_def invar_release owner_release)
  then show ?case using Cons by (simp add: x)
qed simp

lemma release_exact: "invar s \<Longrightarrow> owner_of (release_all o1 s) n \<noteq> Some o1"
  by (simp add: owner_release)

end

definition cn_owner :: "CommandNames \<Rightarrow> string \<Rightarrow> nat option" where
  "cn_owner entries name = map_option cn_Owner (List.find (\<lambda>e. cn_Name e = name) entries)"

definition pi_owner :: "'i PublishedInterfaces \<Rightarrow> string \<Rightarrow> nat option" where
  "pi_owner services name = map_option sv_Owner (List.find (\<lambda>s. sv_Name s = name) services)"

lemma find_filter_other:
  assumes "distinct (map k xs)"
  shows "List.find (\<lambda>x. k x = n) (filter P xs) =
    (case List.find (\<lambda>x. k x = n) xs of None \<Rightarrow> None | Some x \<Rightarrow> if P x then Some x else None)"
  using assms
proof (induction xs)
  case (Cons x xs)
  have "List.find (\<lambda>x. k x = n) (filter P xs) = None" if "k x = n"
    using Cons.prems that by (auto simp: find_None_iff_all image_iff)
  with Cons show ?case by auto
qed simp

lemma find_update_first:
  "(\<And>x. k (f x) = k x) \<Longrightarrow> List.find (\<lambda>x. k x = n) (update_first (\<lambda>x. k x = m) f xs) =
     (case List.find (\<lambda>x. k x = n) xs of None \<Rightarrow> None | Some x \<Rightarrow> Some (if n = m then f x else x))"
  by (induction xs) (auto split: option.split)

interpretation commands: owned_names cn_owner "\<lambda>owner name entries. snd (cn_Register owner ownerName name entries)"
  cn_RemoveAll "\<lambda>entries. distinct (map cn_Name entries)" for ownerName
proof (unfold_locales, goal_cases)
  case (1 s n o1)
  then show ?case
    by (auto simp: cn_owner_def cn_Register_def fun_eq_iff find_append split: option.split)
next
  case (2 s o1 n)
  then show ?case
    using find_filter_other[of cn_Name s n] by (auto simp: cn_owner_def cn_RemoveAll_def split: option.split)
next
  case (3 s o1 n)
  then show ?case by (auto simp: cn_Register_def find_None_iff_all split: option.split)
next
  case (4 s o1)
  then show ?case by (simp add: cn_RemoveAll_def distinct_map_filter)
qed

interpretation services: owned_names pi_owner "\<lambda>owner name services. pi_Publish owner name (Some implementation) services"
  "\<lambda>owner services. snd (pi_RemoveAll owner services)" "\<lambda>services. distinct (map sv_Name services)" for implementation
proof (unfold_locales, goal_cases)
  case (1 s n o1)
  then show ?case
    by (auto simp: pi_owner_def pi_Publish_def fun_eq_iff find_append find_update_first split: option.split)
next
  case (2 s o1 n)
  then show ?case
    using find_filter_other[of sv_Name s n] by (auto simp: pi_owner_def pi_RemoveAll_def split: option.split)
next
  case (3 s o1 n)
  then show ?case
    by (auto simp: pi_Publish_def find_None_iff_all map_update_first_key split: option.split)
next
  case (4 s o1)
  then show ?case by (simp add: pi_RemoveAll_def distinct_map_filter)
qed

section \<open>Properties\<close>



end
