(* ===== verification/Strings.thy ===== *)
theory Strings
  imports Prelude
begin

text \<open>
  The text utilities of Core: numbers and durations read from text, trimming, joining, token
  substitution, HTML and console escaping, UTF-8-safe truncation.
  Sources: \<^verbatim>\<open>src/Core/Text/Strings.cpp\<close>, \<^verbatim>\<open>include/VoltMod/Core/Text/Strings.hpp\<close>.
  \<^verbatim>\<open>std::from_chars\<close>, \<^verbatim>\<open>std::to_string\<close>, \<^verbatim>\<open>std::isspace\<close>, \<^verbatim>\<open>std::tolower\<close> (in the "C" locale) and
  \<^verbatim>\<open>std::string::find\<close> are modelled where they are used; a \<^verbatim>\<open>char\<close> is one byte.
\<close>

section \<open>Characters and the standard conversions\<close>

abbreviation byte_of :: "char \<Rightarrow> nat" where
  "byte_of c \<equiv> of_char c"

definition is_space :: "char \<Rightarrow> bool" where
  "is_space c \<longleftrightarrow> byte_of c = 32 \<or> (9 \<le> byte_of c \<and> byte_of c \<le> 13)"

definition is_digit :: "char \<Rightarrow> bool" where
  "is_digit c \<longleftrightarrow> 48 \<le> byte_of c \<and> byte_of c \<le> 57"

definition to_lower :: "char \<Rightarrow> char" where
  "to_lower c = (if 65 \<le> byte_of c \<and> byte_of c \<le> 90 then char_of (byte_of c + 32) else c)"

definition digit_char :: "nat \<Rightarrow> char" where
  "digit_char d = char_of (48 + d)"

definition digit_value :: "char \<Rightarrow> nat" where
  "digit_value c = byte_of c - 48"

definition digits_value :: "string \<Rightarrow> nat" where
  "digits_value s = foldl (\<lambda>acc c. acc * 10 + digit_value c) 0 s"

text \<open>\<^verbatim>\<open>std::to_string\<close> / \<^verbatim>\<open>std::format("{}", n)\<close> on a non-negative number.\<close>

fun to_string :: "nat \<Rightarrow> string" where
  "to_string n = (if n < 10 then [digit_char n] else to_string (n div 10) @ [digit_char (n mod 10)])"

declare to_string.simps [simp del]

definition to_string_int :: "int \<Rightarrow> string" where
  "to_string_int i = (if i < 0 then CHR ''-'' # to_string (nat (- i)) else to_string (nat i))"

text \<open>
  \<^verbatim>\<open>std::from_chars\<close> in base ten: the longest run of digits; no digit is \<^verbatim>\<open>invalid_argument\<close>, a value
  past the type's maximum is \<^verbatim>\<open>result_out_of_range\<close>, and both are \<^term>\<open>None\<close> here because every caller
  treats them alike. The rest of the text is where \<^verbatim>\<open>ptr\<close> points. Only the signed version takes a
  minus sign.
\<close>

definition from_chars_unsigned :: "nat \<Rightarrow> string \<Rightarrow> (nat \<times> string) option" where
  "from_chars_unsigned max_value text =
     (let digits = takeWhile is_digit text; v = digits_value digits
      in if digits = [] \<or> max_value < v then None else Some (v, dropWhile is_digit text))"

definition from_chars_signed :: "nat \<Rightarrow> string \<Rightarrow> (int \<times> string) option" where
  "from_chars_signed max_value text =
     (case text of
        CHR ''-'' # rest \<Rightarrow>
          map_option (\<lambda>(v, r). (- int v, r)) (from_chars_unsigned (max_value + 1) rest)
      | _ \<Rightarrow> map_option (\<lambda>(v, r). (int v, r)) (from_chars_unsigned max_value text))"

definition uint64_max :: nat where "uint64_max = 18446744073709551615"
definition uint32_max :: nat where "uint32_max = 4294967295"
definition int64_max :: nat where "int64_max = 9223372036854775807"
definition int_max :: nat where "int_max = 2147483647"

definition ParseInt64 :: "string \<Rightarrow> int option" where
  "ParseInt64 text = (case from_chars_signed int64_max text of Some (v, []) \<Rightarrow> Some v | _ \<Rightarrow> None)"

definition ParseUInt64 :: "string \<Rightarrow> nat option" where
  "ParseUInt64 text = (case from_chars_unsigned uint64_max text of Some (v, []) \<Rightarrow> Some v | _ \<Rightarrow> None)"

section \<open>Durations\<close>

text \<open>The two trimming loops of \<^verbatim>\<open>ParseDuration\<close>, and \<^verbatim>\<open>Strings::Trim\<close>.\<close>

definition Trim :: "string \<Rightarrow> string" where
  "Trim s = rev (dropWhile is_space (rev (dropWhile is_space s)))"

definition ToLower :: "string \<Rightarrow> string" where
  "ToLower s = map to_lower s"

definition duration_unit :: "char \<Rightarrow> int option" where
  "duration_unit c =
     (if c = CHR ''s'' then Some 1
      else if c = CHR ''m'' then Some 60
      else if c = CHR ''h'' then Some 3600
      else if c = CHR ''d'' then Some 86400
      else if c = CHR ''w'' then Some 604800
      else None)"

definition ParseDuration :: "string \<Rightarrow> int" where
  "ParseDuration input =
     (let text = Trim input in
      if text = [] then -1 else
      let lower = ToLower text in
      if lower = ''0'' \<or> lower = ''perm'' \<or> lower = ''permanent'' then 0 else
      let suffix = last lower in
      case (if is_digit suffix then Some (1, lower)
            else map_option (\<lambda>u. (u, butlast lower)) (duration_unit suffix)) of
        None \<Rightarrow> -1
      | Some (multiplier, number) \<Rightarrow>
          (case from_chars_signed int_max number of
             Some (v, []) \<Rightarrow>
               if v < 0 then -1
               else if int int_max < v * multiplier then -1
               else v * multiplier
           | _ \<Rightarrow> -1))"

section \<open>Joining, searching and substitution\<close>

fun Join :: "string list \<Rightarrow> string \<Rightarrow> string" where
  "Join [] delimiter = []"
| "Join (part # parts) delimiter = foldl (\<lambda>result p. result @ delimiter @ p) part parts"

definition JoinNonEmpty :: "string list \<Rightarrow> string \<Rightarrow> string" where
  "JoinNonEmpty parts delimiter =
     foldl (\<lambda>result part. if part = [] then result
                          else if result \<noteq> [] then result @ delimiter @ part
                          else part) [] parts"

definition StartsWith :: "string \<Rightarrow> string \<Rightarrow> bool" where
  "StartsWith str pre \<longleftrightarrow> take (length pre) str = pre"

text \<open>\<^verbatim>\<open>std::string::find\<close>: the first index at which \<open>sub\<close> occurs.\<close>

fun find_sub :: "string \<Rightarrow> string \<Rightarrow> nat option" where
  "find_sub sub s =
     (if StartsWith s sub then Some 0
      else case s of [] \<Rightarrow> None | _ # rest \<Rightarrow> map_option Suc (find_sub sub rest))"

declare find_sub.simps [simp del]

definition ContainsIgnoreCase :: "string \<Rightarrow> string \<Rightarrow> bool" where
  "ContainsIgnoreCase str sub \<longleftrightarrow> find_sub (ToLower sub) (ToLower str) \<noteq> None"

text \<open>
  The loop of \<^verbatim>\<open>ReplaceAll\<close>, on the part of the text at and after \<open>pos\<close>: what lies before \<open>pos\<close> is
  never searched again.
\<close>

function replace_loop :: "string \<Rightarrow> string \<Rightarrow> string \<Rightarrow> string" where
  "replace_loop frm to rest =
     (if frm = [] then rest
      else case find_sub frm rest of
             None \<Rightarrow> rest
           | Some i \<Rightarrow> take i rest @ to @ replace_loop frm to (drop (i + length frm) rest))"
  by pat_completeness auto

lemma StartsWith_length: "StartsWith s pre \<Longrightarrow> length pre \<le> length s"
  by (metis StartsWith_def length_take min.cobounded1)

lemma find_sub_Cons:
  "find_sub sub (c # s) = (if StartsWith (c # s) sub then Some 0 else map_option Suc (find_sub sub s))"
  by (subst find_sub.simps) simp

lemma find_sub_Nil: "find_sub sub [] = (if sub = [] then Some 0 else None)"
  by (subst find_sub.simps) (simp add: StartsWith_def)

lemma find_sub_Some:
  "find_sub sub s = Some i \<Longrightarrow> i + length sub \<le> length s \<and> StartsWith (drop i s) sub"
proof (induction s arbitrary: i)
  case Nil
  then show ?case by (auto simp: find_sub_Nil StartsWith_def split: if_splits)
next
  case (Cons c s)
  show ?case
  proof (cases "StartsWith (c # s) sub")
    case True
    with Cons.prems StartsWith_length[OF True] show ?thesis by (simp add: find_sub_Cons)
  next
    case False
    with Cons.prems obtain j where "find_sub sub s = Some j" "i = Suc j"
      by (auto simp: find_sub_Cons)
    with Cons.IH show ?thesis by simp
  qed
qed

termination replace_loop
proof (relation "measure (\<lambda>(frm, to, rest). length rest)", goal_cases)
  case (2 frm to rest i)
  then show ?case using find_sub_Some[of frm rest i] by (cases frm) auto
qed simp

declare replace_loop.simps [simp del]

definition ReplaceAll :: "string \<Rightarrow> string \<Rightarrow> string \<Rightarrow> string" where
  "ReplaceAll str frm to = (if frm = [] then str else replace_loop frm to str)"

type_synonym tokens = "(string, string) omap"

definition SubstituteTokens :: "string \<Rightarrow> tokens \<Rightarrow> string" where
  "SubstituteTokens text tokens =
     foldl (\<lambda>t (key, value). ReplaceAll t (''{'' @ key @ ''}'') value) text tokens"

section \<open>Escaping and truncation\<close>

definition escape_char :: "char \<Rightarrow> string" where
  "escape_char c =
     (if c = CHR ''&'' then ''&amp;''
      else if c = CHR ''<'' then ''&lt;''
      else if c = CHR ''>'' then ''&gt;''
      else if c = CHR 0x22 then ''&quot;''
      else if c = CHR 0x27 then ''&#39;''
      else [c])"

definition EscapeHtml :: "string \<Rightarrow> string" where
  "EscapeHtml text = concat (map escape_char text)"

definition quote_char :: "char \<Rightarrow> string" where
  "quote_char c = (if c = CHR 0x22 \<or> c = CHR 0x5C then [CHR 0x5C, c] else [c])"

definition QuoteConsoleArg :: "string \<Rightarrow> string" where
  "QuoteConsoleArg value = [CHR 0x22] @ concat (map quote_char value) @ [CHR 0x22]"

text \<open>A UTF-8 continuation byte: \<^verbatim>\<open>(c & 0xC0) == 0x80\<close>.\<close>

definition is_continuation :: "char \<Rightarrow> bool" where
  "is_continuation c \<longleftrightarrow> byte_of c div 64 = 2"

fun back_up :: "string \<Rightarrow> nat \<Rightarrow> nat" where
  "back_up text 0 = 0"
| "back_up text (Suc e) = (if is_continuation (text ! Suc e) then back_up text e else Suc e)"

definition TruncateUtf8 :: "string \<Rightarrow> nat \<Rightarrow> string \<Rightarrow> string" where
  "TruncateUtf8 text maxBytes ellipsis =
     (if length text \<le> maxBytes then text
      else take (back_up text maxBytes) text @ ellipsis)"

definition IsNumeric :: "string \<Rightarrow> bool" where
  "IsNumeric str \<longleftrightarrow> str \<noteq> [] \<and> list_all is_digit str"

text \<open>The caller's buffer is its bytes, \<^term>\<open>None\<close> for a null pointer; its length is \<open>size\<close>.\<close>

definition CopyToBuffer :: "string option \<Rightarrow> string \<Rightarrow> string option" where
  "CopyToBuffer buffer text =
     (case buffer of
        None \<Rightarrow> None
      | Some bytes \<Rightarrow>
          if bytes = [] then Some bytes
          else let len = min (length bytes - 1) (length text)
               in Some ((take len text @ drop len bytes)[len := CHR 0x00]))"

definition DisplayNameOr :: "int \<Rightarrow> string \<Rightarrow> nat \<Rightarrow> string" where
  "DisplayNameOr player_id name maxBytes =
     (if name = [] then to_string_int player_id else EscapeHtml (TruncateUtf8 name maxBytes ''...''))"

section \<open>Decimal numbers\<close>

lemma byte_of_digit_char: "d < 10 \<Longrightarrow> byte_of (digit_char d) = 48 + d"
  by (simp add: digit_char_def of_char_of)

lemma is_digit_digit_char [simp]: "d < 10 \<Longrightarrow> is_digit (digit_char d)"
  by (simp add: is_digit_def byte_of_digit_char)

lemma digit_value_digit_char [simp]: "d < 10 \<Longrightarrow> digit_value (digit_char d) = d"
  by (simp add: digit_value_def byte_of_digit_char)

lemma digits_value_snoc [simp]: "digits_value (s @ [c]) = digits_value s * 10 + digit_value c"
  by (simp add: digits_value_def)

lemma to_string_digits: "list_all is_digit (to_string n)"
  by (induction n rule: to_string.induct) (subst to_string.simps, simp)

lemma to_string_nonempty [simp]: "to_string n \<noteq> []"
  by (subst to_string.simps) simp

lemma digits_value_to_string [simp]: "digits_value (to_string n) = n"
  by (induction n rule: to_string.induct)
    (subst to_string.simps, simp add: digits_value_def[of "[_]"])

lemma takeWhile_digits: "list_all is_digit s \<Longrightarrow> takeWhile is_digit s = s \<and> dropWhile is_digit s = []"
  by (simp add: list_all_iff)

lemma takeWhile_digits_append:
  "list_all is_digit s \<Longrightarrow> rest = [] \<or> \<not> is_digit (hd rest) \<Longrightarrow>
     takeWhile is_digit (s @ rest) = s \<and> dropWhile is_digit (s @ rest) = rest"
  by (cases rest) (auto simp: list_all_iff takeWhile_append dropWhile_append)

lemma from_chars_unsigned_to_string:
  "rest = [] \<or> \<not> is_digit (hd rest) \<Longrightarrow>
     from_chars_unsigned max_value (to_string n @ rest) =
       (if n \<le> max_value then Some (n, rest) else None)"
  using takeWhile_digits_append[OF to_string_digits, of rest n]
  by (simp add: from_chars_unsigned_def Let_def)

lemma from_chars_unsigned_bound:
  "from_chars_unsigned max_value text = Some (v, rest) \<Longrightarrow> v \<le> max_value"
  by (auto simp: from_chars_unsigned_def Let_def split: if_splits)

lemma from_chars_unsigned_whole:
  "from_chars_unsigned max_value text = Some (v, []) \<Longrightarrow> text \<noteq> [] \<and> list_all is_digit text"
  by (auto simp: from_chars_unsigned_def Let_def list_all_iff dropWhile_eq_Nil_conv split: if_splits)

text \<open>\<^verbatim>\<open>from_chars\<close> into an unsigned type, accepted only when it consumed the whole text.\<close>

definition parse_whole :: "nat \<Rightarrow> string \<Rightarrow> nat option" where
  "parse_whole max_value text =
     (case from_chars_unsigned max_value text of Some (v, []) \<Rightarrow> Some v | _ \<Rightarrow> None)"

lemma parse_whole_Some:
  "parse_whole max_value text = Some v \<longleftrightarrow> from_chars_unsigned max_value text = Some (v, [])"
  by (auto simp: parse_whole_def split: option.splits prod.splits list.splits)

lemma ParseUInt64_parse_whole: "ParseUInt64 = parse_whole uint64_max"
  by (simp add: fun_eq_iff ParseUInt64_def parse_whole_def)

text \<open>
  What the clients of printed numbers (workshop addon lists, SteamIDs) rely on: reading back what was
  printed gives the number, and only runs of digits within the limit are read.
\<close>

locale decimal_codec =
  fixes print :: "nat \<Rightarrow> string" and parse :: "string \<Rightarrow> nat option" and limit :: nat
  assumes parse_print: "n \<le> limit \<Longrightarrow> parse (print n) = Some n"
    and parse_limit: "parse s = Some n \<Longrightarrow> n \<le> limit"
    and parse_digits: "parse s = Some n \<Longrightarrow> s \<noteq> [] \<and> list_all is_digit s"
begin

lemma print_inj: "m \<le> limit \<Longrightarrow> n \<le> limit \<Longrightarrow> print m = print n \<longleftrightarrow> m = n"
  by (metis option.inject parse_print)

lemma print_nonempty: "n \<le> limit \<Longrightarrow> print n \<noteq> []"
  using parse_digits parse_print by blast

lemma print_no: "n \<le> limit \<Longrightarrow> \<not> is_digit c \<Longrightarrow> c \<notin> set (print n)"
  using parse_digits[OF parse_print, of n] by (auto simp: list_all_iff)

lemma parse_Nil: "parse [] = None"
  using parse_digits[of "[]"] by (cases "parse []") auto

end

interpretation whole: decimal_codec to_string "parse_whole max_value" max_value for max_value
proof (unfold_locales, goal_cases)
  case (1 n)
  then show ?case using from_chars_unsigned_to_string[of "[]" max_value n] by (simp add: parse_whole_Some)
qed (auto simp: parse_whole_Some dest: from_chars_unsigned_bound from_chars_unsigned_whole)

interpretation u64: decimal_codec to_string ParseUInt64 uint64_max
  unfolding ParseUInt64_parse_whole by unfold_locales (fact whole.parse_print whole.parse_limit whole.parse_digits)+

lemma ParseUInt64_Some:
  assumes "ParseUInt64 s = Some v"
  shows "IsNumeric s \<and> v = digits_value s \<and> v \<le> uint64_max"
proof -
  have "IsNumeric s" using u64.parse_digits[OF assms] by (simp add: IsNumeric_def)
  then have "from_chars_unsigned uint64_max s = (if uint64_max < digits_value s then None else Some (digits_value s, []))"
    by (simp add: from_chars_unsigned_def IsNumeric_def takeWhile_digits)
  with assms \<open>IsNumeric s\<close> show ?thesis
    by (simp add: ParseUInt64_parse_whole parse_whole_Some split: if_splits)
qed

section \<open>Properties\<close>

text \<open>
  \<^verbatim>\<open>ParseUInt64\<close> accepts exactly the non-empty runs of digits whose value fits 64 bits: printing a
  64-bit number and parsing it gives it back, and everything it accepts is such a run with a value
  in range.
\<close>

theorem ParseUInt64_roundtrip:
  "(\<forall>n \<le> uint64_max. ParseUInt64 (to_string n) = Some n) \<and>
   (ParseUInt64 text = Some v \<longrightarrow> IsNumeric text \<and> v = digits_value text \<and> v \<le> uint64_max)"
  using u64.parse_print ParseUInt64_Some[of "text" v] by blast

theorem ParseUInt64_roundtrip_witness:
  "ParseUInt64 (to_string 18446744073709551615) = Some 18446744073709551615 \<and> IsNumeric ''3070212801''"
proof -
  have "ParseUInt64 ''3070212801'' = Some 3070212801"
    by (simp add: ParseUInt64_def from_chars_unsigned_def is_digit_def digits_value_def digit_value_def
        uint64_max_def)
  moreover have "(18446744073709551615 :: nat) \<le> uint64_max" by (simp add: uint64_max_def)
  ultimately show ?thesis using ParseUInt64_roundtrip[of "''3070212801''" 3070212801] by blast
qed

lemma Trim_padded:
  assumes "list_all is_space pre" "list_all is_space post" "s \<noteq> []"
    and "\<not> is_space (hd s)" "\<not> is_space (last s)"
  shows "Trim (pre @ s @ post) = s"
proof -
  obtain a as where s: "s = a # as" using assms(3) by (cases s) auto
  obtain bs b where s': "s = bs @ [b]" using assms(3) by (cases s rule: rev_cases) auto
  have "dropWhile is_space (pre @ s @ post) = s @ post"
    using assms(1,4) by (simp add: list_all_iff s)
  moreover have "dropWhile is_space (rev post @ rev s) = rev s"
    using assms(2,5) by (subst dropWhile_append2) (simp_all add: list_all_iff s')
  ultimately show ?thesis by (simp add: Trim_def)
qed

lemma digit_not_space: "is_digit c \<Longrightarrow> \<not> is_space c"
  by (auto simp: is_digit_def is_space_def)

lemma to_lower_digit: "is_digit c \<Longrightarrow> to_lower c = c"
  by (auto simp: is_digit_def to_lower_def)

lemma ToLower_to_string: "map to_lower (to_string n) = to_string n"
  using to_string_digits[of n] by (auto simp: list_all_iff to_lower_digit intro: map_idI)

lemma duration_unit_pos: "duration_unit c = Some u \<Longrightarrow> 1 \<le> u"
  by (auto simp: duration_unit_def split: if_splits)

lemma duration_unit_letter: "duration_unit (to_lower c) = Some u \<Longrightarrow> \<not> is_space c \<and> \<not> is_digit (to_lower c)"
proof -
  have "\<not> is_digit x" if "duration_unit x = Some u" for x
    using that by (auto simp: duration_unit_def is_digit_def split: if_splits)
  moreover have "is_space c \<Longrightarrow> to_lower c = c" by (auto simp: is_space_def to_lower_def)
  moreover have "\<not> is_space x" if "duration_unit x = Some u" for x
    using that by (auto simp: duration_unit_def is_space_def split: if_splits)
  ultimately show "duration_unit (to_lower c) = Some u \<Longrightarrow> ?thesis" by metis
qed

lemma from_chars_signed_to_string:
  "rest = [] \<or> \<not> is_digit (hd rest) \<Longrightarrow>
     from_chars_signed max_value (to_string n @ rest) =
       (if n \<le> max_value then Some (int n, rest) else None)"
proof -
  assume rest: "rest = [] \<or> \<not> is_digit (hd rest)"
  obtain c cs where c: "to_string n = c # cs" using to_string_nonempty by (cases "to_string n") auto
  then have "c \<noteq> CHR ''-''" using to_string_digits[of n] by (auto simp: is_digit_def)
  then have "from_chars_signed max_value (to_string n @ rest) =
      map_option (\<lambda>(v, r). (int v, r)) (from_chars_unsigned max_value (to_string n @ rest))"
    by (simp add: from_chars_signed_def c split: char.splits bool.splits)
  then show ?thesis using from_chars_unsigned_to_string[OF rest] by simp
qed

text \<open>
  \<^verbatim>\<open>ParseDuration\<close> reads a number followed by a unit letter of either case, with white space
  around it, as that many units in seconds whenever the product fits an \<^verbatim>\<open>int\<close>, and answers -1
  when it does not, including numbers that do not fit an \<^verbatim>\<open>int\<close> themselves.
\<close>

theorem ParseDuration_reads_unit:
  assumes "duration_unit (to_lower c) = Some u"
    and "list_all is_space pre" and "list_all is_space post"
  shows "ParseDuration (pre @ to_string n @ [c] @ post) =
    (if int n * u \<le> int int_max then int n * u else -1)"
proof -
  obtain d ds where d: "to_string n = d # ds" using to_string_nonempty by (cases "to_string n") auto
  then have digit: "is_digit d" using to_string_digits[of n] by simp
  have trim: "Trim (pre @ (to_string n @ [c]) @ post) = to_string n @ [c]"
    using assms(2,3) duration_unit_letter[OF assms(1)] digit
    by (intro Trim_padded) (simp_all add: d digit_not_space)
  have lower: "ToLower (to_string n @ [c]) = to_string n @ [to_lower c]"
    by (simp add: ToLower_def ToLower_to_string)
  have not_word: "to_string n \<noteq> ''per''" "to_string n \<noteq> ''permanen''"
    using digit by (auto simp: d is_digit_def)
  have "from_chars_signed int_max (to_string n) = (if n \<le> int_max then Some (int n, []) else None)"
    using from_chars_signed_to_string[of "[]" int_max n] by simp
  moreover have "int n \<le> int n * u" using duration_unit_pos[OF assms(1)] by (simp add: mult_le_cancel_left1)
  ultimately show ?thesis
    using duration_unit_letter[OF assms(1)] assms(1) not_word trim lower
    by (simp add: ParseDuration_def Let_def)
qed

theorem ParseDuration_reads_unit_witness:
  "ParseDuration ('' '' @ to_string 2 @ ''H'' @ '' '') = 7200"
proof -
  have "duration_unit (to_lower (CHR ''H'')) = Some 3600" by code_simp
  from ParseDuration_reads_unit[OF this, of "'' ''" "'' ''" 2] show ?thesis
    by (simp add: is_space_def int_max_def)
qed

lemma ParseDuration_number_range:
  fixes r :: "(int \<times> string) option" and u :: int
  assumes "1 \<le> u"
  defines "out \<equiv> (case r of Some (v, []) \<Rightarrow>
      if v < 0 then -1 else if int int_max < v * u then -1 else v * u | _ \<Rightarrow> -1)"
  shows "out = -1 \<or> 0 \<le> out \<and> out \<le> int int_max"
  using assms by (auto split: option.splits prod.splits list.splits)

lemma ParseDuration_in_int:
  "ParseDuration s = -1 \<or> 0 \<le> ParseDuration s \<and> ParseDuration s \<le> int int_max"
proof -
  let ?lower = "ToLower (Trim s)"
  define chosen where "chosen = (if is_digit (last ?lower) then Some (1, ?lower)
    else map_option (\<lambda>u. (u, butlast ?lower)) (duration_unit (last ?lower)))"
  show ?thesis
  proof (cases "Trim s = [] \<or> ?lower = ''0'' \<or> ?lower = ''perm'' \<or> ?lower = ''permanent''")
    case True
    then show ?thesis by (auto simp: ParseDuration_def Let_def)
  next
    case False
    show ?thesis
    proof (cases chosen)
      case None
      with False show ?thesis by (simp add: ParseDuration_def Let_def flip: chosen_def)
    next
      case (Some p)
      then obtain u number where p: "chosen = Some (u, number)" by (cases p) auto
      have "1 \<le> u" using p by (auto simp: chosen_def dest: duration_unit_pos split: if_splits)
      from ParseDuration_number_range[OF this, of "from_chars_signed int_max number"] False p
      show ?thesis by (simp add: ParseDuration_def Let_def flip: chosen_def)
    qed
  qed
qed

text \<open>
  \<^verbatim>\<open>ParseDuration\<close> never returns anything but -1, 0 (permanent) or a positive number of seconds
  that fits an \<^verbatim>\<open>int\<close>: the 64-bit product is checked before the cast.
\<close>

theorem ParseDuration_range:
  "ParseDuration s = -1 \<or> 0 \<le> ParseDuration s \<and> ParseDuration s \<le> 2147483647"
  using ParseDuration_in_int[of s] by (simp add: int_max_def)

lemma escape_char_prefix: "escape_char c @ x = escape_char d @ y \<Longrightarrow> c = d \<and> x = y"
  by (auto simp: escape_char_def split: if_splits)

lemma EscapeHtml_inj: "EscapeHtml s = EscapeHtml t \<Longrightarrow> s = t"
proof (induction s arbitrary: t)
  case Nil
  have "escape_char c \<noteq> []" for c by (simp add: escape_char_def)
  with Nil show ?case by (cases t) (auto simp: EscapeHtml_def)
next
  case (Cons c s)
  have ne: "escape_char c \<noteq> []" by (simp add: escape_char_def)
  with Cons.prems obtain d t' where t: "t = d # t'" by (cases t) (auto simp: EscapeHtml_def)
  with Cons.prems have "escape_char c @ EscapeHtml s = escape_char d @ EscapeHtml t'"
    by (simp add: EscapeHtml_def)
  with Cons.IH t show ?case by (auto dest: escape_char_prefix)
qed

text \<open>
  text escaped by \<^verbatim>\<open>EscapeHtml\<close> holds no angle bracket and no quote, so a player-controlled name
  cannot open or close a tag or an attribute, and no two texts escape to the same markup.
\<close>

theorem EscapeHtml_safe:
  "CHR ''<'' \<notin> set (EscapeHtml s) \<and> CHR ''>'' \<notin> set (EscapeHtml s) \<and>
   CHR 0x22 \<notin> set (EscapeHtml s) \<and> CHR 0x27 \<notin> set (EscapeHtml s) \<and>
   (EscapeHtml s = EscapeHtml t \<longleftrightarrow> s = t)"
  by (auto simp: EscapeHtml_def escape_char_def dest: EscapeHtml_inj[unfolded EscapeHtml_def] split: if_splits)

lemma back_up_le: "back_up s e \<le> e"
  by (induction e) auto

lemma back_up_boundary:
  "back_up s e = 0 \<or> \<not> is_continuation (s ! back_up s e)"
  "back_up s e < k \<Longrightarrow> k \<le> e \<Longrightarrow> is_continuation (s ! k)"
  by (induction e) (auto simp: le_Suc_eq split: if_splits)

text \<open>
  \<^verbatim>\<open>TruncateUtf8\<close> returns a text that fits unchanged; a longer one is cut to a prefix of at most
  \<open>maxBytes\<close> bytes followed by the ellipsis, the cut is at the latest position not past \<open>maxBytes\<close>
  where a UTF-8 sequence starts, so no sequence is split.
\<close>

theorem TruncateUtf8_boundary:
  "(length s \<le> maxBytes \<longrightarrow> TruncateUtf8 s maxBytes ell = s) \<and>
   (maxBytes < length s \<longrightarrow>
      (\<exists>cut \<le> maxBytes. TruncateUtf8 s maxBytes ell = take cut s @ ell \<and>
         (cut = 0 \<or> \<not> is_continuation (s ! cut)) \<and>
         (\<forall>k. cut < k \<and> k \<le> maxBytes \<longrightarrow> is_continuation (s ! k))))"
  using back_up_le[of s maxBytes] back_up_boundary[of s maxBytes]
  by (auto simp: TruncateUtf8_def intro!: exI[of _ "back_up s maxBytes"])

theorem TruncateUtf8_boundary_witness:
  "\<exists>cut \<le> 2. TruncateUtf8 [CHR ''a'', CHR 0xD0, CHR 0x90] 2 ''...'' =
       take cut [CHR ''a'', CHR 0xD0, CHR 0x90] @ ''...'' \<and>
     (cut = 0 \<or> \<not> is_continuation ([CHR ''a'', CHR 0xD0, CHR 0x90] ! cut))"
  using TruncateUtf8_boundary[of "[CHR ''a'', CHR 0xD0, CHR 0x90]" 2 "''...''"] by auto

lemma CopyToBuffer_terminated:
  assumes "buf \<noteq> []"
  shows "\<exists>bytes. CopyToBuffer (Some buf) s = Some bytes \<and> length bytes = length buf \<and>
    bytes ! min (length buf - 1) (length s) = CHR 0x00 \<and>
    take (min (length buf - 1) (length s)) bytes = take (length buf - 1) s"
  using assms by (cases buf) (auto simp: CopyToBuffer_def Let_def nth_list_update min_def)

end
