(* ===== verification/DownloadQueue.thy ===== *)
theory DownloadQueue
  imports Complex_Main Strings "HOL-Library.Multiset"
begin

text \<open>
  Which workshop addons each client still owes and what to send it next, and the comma-separated
  addon lists of the join messages. Source: \<^verbatim>\<open>src/Host/Workshop/DownloadQueue.{hpp,cpp}\<close>. Addon ids are
  natural numbers (64-bit in the source; the round-trip theorem names that bound), the times are
  rationals: the source compares and subtracts doubles, whose rounding is not modelled.
\<close>

section \<open>Addon lists\<close>

abbreviation comma :: char where "comma \<equiv> CHR '',''"

text \<open>\<^verbatim>\<open>field.find(',')\<close>, or the length for \<^verbatim>\<open>npos\<close>.\<close>

definition find_comma :: "string \<Rightarrow> nat" where
  "find_comma field = length (takeWhile (\<lambda>c. c \<noteq> comma) field)"

function SplitAddonList :: "string \<Rightarrow> string list" where
  "SplitAddonList field =
     (if field = [] then []
      else let pos = find_comma field
           in take pos field #
              (if pos = length field then []
               else let rest = drop (Suc pos) field
                    in if rest = [] then [[]] else SplitAddonList rest))"
  by auto
termination by (relation "measure length") auto

declare SplitAddonList.simps [simp del]

definition ParseAddonList :: "string \<Rightarrow> nat list" where
  "ParseAddonList field =
     concat (map (\<lambda>e. case ParseUInt64 e of Some i \<Rightarrow> if i \<noteq> 0 then [i] else [] | None \<Rightarrow> [])
       (SplitAddonList field))"

fun append_ids :: "nat list \<Rightarrow> nat list \<Rightarrow> string \<Rightarrow> nat list \<Rightarrow> nat list \<times> string" where
  "append_ids named [] field appended = (appended, field)"
| "append_ids named (i # ids) field appended =
     (if i = 0 \<or> i \<in> set named \<or> i \<in> set appended then append_ids named ids field appended
      else append_ids named ids ((if field \<noteq> [] then field @ [comma] else field) @ to_string i) (appended @ [i]))"

definition AppendToAddonList :: "string \<Rightarrow> nat list \<Rightarrow> nat list \<times> string" where
  "AppendToAddonList field ids = append_ids (ParseAddonList field) ids field []"

fun erase_entries :: "nat list \<Rightarrow> string list \<Rightarrow> string list" where
  "erase_entries [] entries = entries"
| "erase_entries (i # ids) entries = erase_entries ids (erase_first (\<lambda>e. ParseUInt64 e = Some i) entries)"

definition RemoveFromAddonList :: "string \<Rightarrow> nat list \<Rightarrow> string" where
  "RemoveFromAddonList field ids = Join (erase_entries ids (SplitAddonList field)) [comma]"

section \<open>The queue\<close>

datatype AddonAction = Unchanged | Send | TrimToFirst | Kick | KeepMounted

record AddonDecision =
  ad_Action :: AddonAction
  ad_Id :: nat
  ad_Remaining :: nat

definition no_decision :: AddonDecision where
  "no_decision = \<lparr>ad_Action = Unchanged, ad_Id = 0, ad_Remaining = 0\<rparr>"

record Requirement =
  rq_Id :: nat
  rq_Holders :: int

record DownloadClient =
  dc_Downloaded :: "nat list"
  dc_Sending :: nat
  dc_SentAt :: rat
  dc_Attempts :: int
  dc_LeftAt :: rat

definition new_client :: DownloadClient where
  "new_client = \<lparr>dc_Downloaded = [], dc_Sending = 0, dc_SentAt = 0, dc_Attempts = 0, dc_LeftAt = 0\<rparr>"

record DownloadQueue =
  dq_required :: "Requirement list"
  dq_clients :: "int \<rightharpoonup> DownloadClient"

definition dq_init :: DownloadQueue where
  "dq_init = \<lparr>dq_required = [], dq_clients = Map.empty\<rparr>"

definition dq_Add :: "nat \<Rightarrow> DownloadQueue \<Rightarrow> bool \<times> DownloadQueue" where
  "dq_Add i q =
     (if i = 0 then (False, q)
      else if List.find (\<lambda>r. rq_Id r = i) (dq_required q) \<noteq> None
      then (True, q\<lparr>dq_required := update_first (\<lambda>r. rq_Id r = i) (\<lambda>r. r\<lparr>rq_Holders := rq_Holders r + 1\<rparr>) (dq_required q)\<rparr>)
      else (True, q\<lparr>dq_required := dq_required q @ [\<lparr>rq_Id = i, rq_Holders = 1\<rparr>]\<rparr>))"

definition dq_Remove :: "nat \<Rightarrow> DownloadQueue \<Rightarrow> DownloadQueue" where
  "dq_Remove i q =
     (case List.find (\<lambda>r. rq_Id r = i) (dq_required q) of
        None \<Rightarrow> q
      | Some r \<Rightarrow>
          if rq_Holders r - 1 \<le> 0 then q\<lparr>dq_required := erase_first (\<lambda>r. rq_Id r = i) (dq_required q)\<rparr>
          else q\<lparr>dq_required := update_first (\<lambda>r. rq_Id r = i) (\<lambda>r. r\<lparr>rq_Holders := rq_Holders r - 1\<rparr>) (dq_required q)\<rparr>)"

definition dq_Empty :: "DownloadQueue \<Rightarrow> bool" where
  "dq_Empty q \<longleftrightarrow> dq_required q = []"

definition dq_Required :: "DownloadQueue \<Rightarrow> nat list" where
  "dq_Required q = map rq_Id (dq_required q)"

definition dq_FindClient :: "DownloadQueue \<Rightarrow> int \<Rightarrow> DownloadClient option" where
  "dq_FindClient q steamId = dq_clients q steamId"

definition dq_MissingFor :: "DownloadQueue \<Rightarrow> int \<Rightarrow> nat list" where
  "dq_MissingFor q steamId =
     (case dq_FindClient q steamId of
        None \<Rightarrow> dq_Required q
      | Some client \<Rightarrow> filter (\<lambda>i. i \<notin> set (dc_Downloaded client)) (dq_Required q))"

definition dq_ClientMountList :: "DownloadQueue \<Rightarrow> int \<Rightarrow> nat list" where
  "dq_ClientMountList q steamId =
     (case dq_FindClient q steamId of
        None \<Rightarrow> []
      | Some client \<Rightarrow>
          filter (\<lambda>i. \<not> (i \<noteq> dc_Sending client \<and> i \<notin> set (dc_Downloaded client))) (dq_Required q))"

definition dq_HasMissing :: "DownloadQueue \<Rightarrow> int \<Rightarrow> bool" where
  "dq_HasMissing q steamId =
     (case dq_FindClient q steamId of
        None \<Rightarrow> dq_required q \<noteq> []
      | Some client \<Rightarrow> list_ex (\<lambda>r. rq_Id r \<notin> set (dc_Downloaded client)) (dq_required q))"

text \<open>\<^verbatim>\<open>_clients[steamId]\<close>: a client not seen before starts empty.\<close>

definition client_at :: "DownloadQueue \<Rightarrow> int \<Rightarrow> DownloadClient" where
  "client_at q steamId = (case dq_clients q steamId of None \<Rightarrow> new_client | Some c \<Rightarrow> c)"

definition put_client :: "int \<Rightarrow> DownloadClient \<Rightarrow> DownloadQueue \<Rightarrow> DownloadQueue" where
  "put_client steamId c q = q\<lparr>dq_clients := (dq_clients q)(steamId \<mapsto> c)\<rparr>"

definition dq_NextToSend :: "int \<Rightarrow> rat \<Rightarrow> int \<Rightarrow> DownloadQueue \<Rightarrow> AddonDecision \<times> DownloadQueue" where
  "dq_NextToSend steamId now maxAttempts q =
     (case dq_MissingFor q steamId of
        [] \<Rightarrow> (no_decision, q)
      | nxt # rest \<Rightarrow>
          let client = client_at q steamId;
              attempts = (if dc_Sending client = nxt then dc_Attempts client + 1 else 1);
              client' = client\<lparr>dc_Attempts := attempts\<rparr>
          in if attempts > maxAttempts
             then (\<lparr>ad_Action = Kick, ad_Id = nxt, ad_Remaining = 0\<rparr>, put_client steamId client' q)
             else (\<lparr>ad_Action = Send, ad_Id = nxt, ad_Remaining = length rest\<rparr>,
                   put_client steamId (client'\<lparr>dc_Sending := nxt, dc_SentAt := now\<rparr>) q))"

definition dq_MarkSending :: "int \<Rightarrow> nat \<Rightarrow> rat \<Rightarrow> DownloadQueue \<Rightarrow> DownloadQueue" where
  "dq_MarkSending steamId i now q =
     (if i = 0 then q
      else put_client steamId ((client_at q steamId)\<lparr>dc_Sending := i, dc_SentAt := now, dc_Attempts := 0\<rparr>) q)"

definition dq_DecideJoinMessage ::
  "int \<Rightarrow> bool \<Rightarrow> string \<Rightarrow> rat \<Rightarrow> int \<Rightarrow> DownloadQueue \<Rightarrow> AddonDecision \<times> DownloadQueue" where
  "dq_DecideJoinMessage steamId reconnect addons now maxAttempts q =
     (if \<not> reconnect then dq_NextToSend steamId now maxAttempts q
      else case ParseAddonList addons of
             [] \<Rightarrow> (case dq_ClientMountList q steamId of
                      [] \<Rightarrow> (no_decision, q)
                    | i # _ \<Rightarrow> (\<lparr>ad_Action = KeepMounted, ad_Id = i, ad_Remaining = 0\<rparr>, q))
           | i # rest \<Rightarrow>
               let q' = dq_MarkSending steamId i now q
               in if rest = [] then (no_decision, q')
                  else (\<lparr>ad_Action = TrimToFirst, ad_Id = i, ad_Remaining = length rest\<rparr>, q'))"

definition dq_ClientReconnected :: "int \<Rightarrow> rat \<Rightarrow> rat \<Rightarrow> DownloadQueue \<Rightarrow> DownloadQueue" where
  "dq_ClientReconnected steamId now timeoutSec q =
     (case dq_clients q steamId of
        None \<Rightarrow> q
      | Some c \<Rightarrow>
          let client = c\<lparr>dc_LeftAt := 0\<rparr>
          in if dc_Sending client = 0 then put_client steamId client q
             else let client' = (if now - dc_SentAt client \<le> timeoutSec
                    then client\<lparr>dc_Downloaded := (if dc_Sending client \<in> set (dc_Downloaded client)
                                                  then dc_Downloaded client
                                                  else dc_Downloaded client @ [dc_Sending client]),
                                dc_Attempts := 0\<rparr>
                    else client)
                  in put_client steamId (client'\<lparr>dc_Sending := 0\<rparr>) q)"

definition dq_ClientLeft :: "int \<Rightarrow> rat \<Rightarrow> rat \<Rightarrow> DownloadQueue \<Rightarrow> DownloadQueue" where
  "dq_ClientLeft steamId now forgetAfterSec q =
     (let clients = (case dq_clients q steamId of
                       None \<Rightarrow> dq_clients q
                     | Some c \<Rightarrow> (dq_clients q)(steamId \<mapsto> c\<lparr>dc_LeftAt := now\<rparr>))
      in q\<lparr>dq_clients := (\<lambda>k. case clients k of
             None \<Rightarrow> None
           | Some c \<Rightarrow> if dc_LeftAt c > 0 \<and> now - dc_LeftAt c > forgetAfterSec then None else Some c)\<rparr>)"

definition dq_ClearProgress :: "DownloadQueue \<Rightarrow> DownloadQueue" where
  "dq_ClearProgress q = q\<lparr>dq_clients := Map.empty\<rparr>"

section \<open>Round trip of the lists\<close>

lemma find_comma_le: "find_comma f \<le> length f"
  by (simp add: find_comma_def length_takeWhile_le)

lemma find_comma_append:
  "find_comma (f @ g) = (if find_comma f = length f then length f + find_comma g else find_comma f)"
  by (induction f) (auto simp: find_comma_def)

lemma find_comma_none: "comma \<notin> set e \<Longrightarrow> find_comma e = length e"
  by (induction e) (auto simp: find_comma_def)

lemma find_comma_split: "find_comma f < length f \<Longrightarrow> f = take (find_comma f) f @ comma # drop (Suc (find_comma f)) f"
proof -
  assume lt: "find_comma f < length f"
  then have "f ! find_comma f = comma"
    using nth_length_takeWhile[of "\<lambda>c. c \<noteq> comma" f] by (simp add: find_comma_def)
  with id_take_nth_drop[OF lt] show ?thesis by simp
qed

lemma Split_Nil [simp]: "SplitAddonList [] = []"
  by (simp add: SplitAddonList.simps)

lemma Split_single: "e \<noteq> [] \<Longrightarrow> comma \<notin> set e \<Longrightarrow> SplitAddonList e = [e]"
  by (subst SplitAddonList.simps) (simp add: find_comma_none)

lemma Split_nonempty: "f \<noteq> [] \<Longrightarrow> SplitAddonList f \<noteq> []"
  by (subst SplitAddonList.simps) (simp add: Let_def)

lemma Split_append:
  assumes "f \<noteq> []" "comma \<notin> set e" "e \<noteq> []"
  shows "SplitAddonList (f @ comma # e) = SplitAddonList f @ [e]"
  using assms(1)
proof (induction f rule: SplitAddonList.induct)
  case (1 field)
  show ?case
  proof (cases "find_comma field = length field")
    case True
    then have "find_comma (field @ comma # e) = length field"
      by (simp add: find_comma_append) (simp add: find_comma_def)
    then show ?thesis
      using 1(2) True assms(2,3) by (subst (1 2) SplitAddonList.simps) (simp add: Let_def Split_single)
  next
    case False
    then have at: "find_comma (field @ comma # e) = find_comma field" "find_comma field < length field"
      using find_comma_le[of field] by (auto simp: find_comma_append)
    show ?thesis
    proof (cases "drop (Suc (find_comma field)) field = []")
      case True
      then have "length field = Suc (find_comma field)" using at(2) by simp
      then show ?thesis
        using 1(2) at False assms(2,3)
        by (subst (1 2) SplitAddonList.simps) (simp add: Let_def, subst SplitAddonList.simps, simp add: find_comma_def Let_def Split_single)
    next
      case rest: False
      then show ?thesis
        using 1(1)[OF 1(2) refl False refl rest rest] 1(2) at False
        by (subst (1 2) SplitAddonList.simps) (simp add: Let_def)
    qed
  qed
qed


lemma foldl_join: "foldl (\<lambda>result p. result @ d @ p) (a @ b) ps = a @ foldl (\<lambda>result p. result @ d @ p) b ps"
proof (induction ps arbitrary: b)
  case (Cons p ps)
  from Cons[of "b @ d @ p"] show ?case by simp
qed simp

lemma Join_Cons: "ps \<noteq> [] \<Longrightarrow> Join (p # ps) d = p @ d @ Join ps d"
proof (cases ps)
  case (Cons q qs)
  then show ?thesis using foldl_join[of d "p @ d" q qs] by simp
qed simp

lemma Split_unfold:
  "find_comma f < length f \<Longrightarrow> SplitAddonList f = take (find_comma f) f #
     (if drop (Suc (find_comma f)) f = [] then [[]] else SplitAddonList (drop (Suc (find_comma f)) f))"
  by (subst SplitAddonList.simps) (auto simp: Let_def)

lemma Join_Split: "Join (SplitAddonList f) [comma] = f"
proof (induction f rule: SplitAddonList.induct)
  case (1 field)
  show ?case
  proof (cases "field = [] \<or> find_comma field = length field")
    case True
    then show ?thesis by (subst SplitAddonList.simps) auto
  next
    case False
    then have lt: "find_comma field < length field" using find_comma_le[of field] by auto
    define rest where "rest = drop (Suc (find_comma field)) field"
    have "Join (if rest = [] then [[]] else SplitAddonList rest) [comma] = rest"
      using 1[OF _ refl _ rest_def] False by auto
    then have "Join (SplitAddonList field) [comma] = take (find_comma field) field @ [comma] @ rest"
      unfolding Split_unfold[OF lt] rest_def[symmetric] by (subst Join_Cons) (auto simp: Split_nonempty)
    then show ?thesis using find_comma_split[OF lt] by (simp add: rest_def)
  qed
qed

lemma to_string_no_comma: "comma \<notin> set (to_string n)"
  using to_string_digits[of n] by (auto simp: list_all_iff is_digit_def)

lemma append_ids_Split:
  "append_ids named ids field appended = (appended', field') \<Longrightarrow>
     \<exists>added. appended' = appended @ added \<and> SplitAddonList field' = SplitAddonList field @ map to_string added \<and>
       set added = set ids - {0} - set named - set appended \<and> distinct added"
proof (induction named ids field appended rule: append_ids.induct)
  case (2 named i ids field appended)
  show ?case
  proof (cases "i = 0 \<or> i \<in> set named \<or> i \<in> set appended")
    case True
    then obtain added where "appended' = appended @ added" "SplitAddonList field' = SplitAddonList field @ map to_string added"
      "set added = set ids - {0} - set named - set appended" "distinct added"
      using 2 by auto
    with True show ?thesis by (intro exI[of _ added]) auto
  next
    case False
    let ?f = "(if field \<noteq> [] then field @ [comma] else field) @ to_string i"
    have split: "SplitAddonList ?f = SplitAddonList field @ [to_string i]"
      using Split_append[of field "to_string i"] Split_single[of "to_string i"] to_string_no_comma by simp
    obtain added where added: "appended' = (appended @ [i]) @ added" "SplitAddonList field' = SplitAddonList ?f @ map to_string added"
      "set added = set ids - {0} - set named - set (appended @ [i])" "distinct added"
      using 2(2) 2(3) False by auto
    with False split show ?thesis by (intro exI[of _ "i # added"]) auto
  qed
qed auto

lemma ParseAddonList_iff: "i \<in> set (ParseAddonList field) \<longleftrightarrow> i \<noteq> 0 \<and> Some i \<in> ParseUInt64 ` set (SplitAddonList field)"
  by (force simp: ParseAddonList_def split: option.splits if_splits)

lemma erase_entries_appended:
  "\<forall>i \<in> set added. i \<le> uint64_max \<and> Some i \<notin> ParseUInt64 ` set xs \<Longrightarrow>
     erase_entries added (xs @ map to_string added) = xs"
proof (induction added)
  case (Cons i added)
  have "erase_first (\<lambda>e. ParseUInt64 e = Some i) (xs @ ys) = xs @ erase_first (\<lambda>e. ParseUInt64 e = Some i) ys"
    if "Some i \<notin> ParseUInt64 ` set xs" for xs ys
    using that by (induction xs) auto
  then have "erase_first (\<lambda>e. ParseUInt64 e = Some i) (xs @ map to_string (i # added)) = xs @ map to_string added"
    using Cons.prems by (simp add: u64.parse_print)
  then show ?case using Cons by simp
qed simp

lemma addon_list_restored:
  assumes "\<forall>i \<in> set ids. i \<le> uint64_max"
  shows "RemoveFromAddonList (snd (AppendToAddonList field ids)) (fst (AppendToAddonList field ids)) = field \<and>
    set (fst (AppendToAddonList field ids)) = set ids - {0} - set (ParseAddonList field) \<and>
    distinct (fst (AppendToAddonList field ids))"
proof -
  obtain added field' where app: "AppendToAddonList field ids = (added, field')" by fastforce
  then have added: "SplitAddonList field' = SplitAddonList field @ map to_string added" "distinct added"
    "set added = set ids - {0} - set (ParseAddonList field)"
    using append_ids_Split[of "ParseAddonList field" ids field "[]" added field'] by (auto simp: AppendToAddonList_def)
  then have "\<forall>i \<in> set added. i \<le> uint64_max \<and> Some i \<notin> ParseUInt64 ` set (SplitAddonList field)"
    using assms by (auto simp: ParseAddonList_iff)
  then have "erase_entries added (SplitAddonList field') = SplitAddonList field"
    unfolding added(1) by (rule erase_entries_appended)
  with added app show ?thesis by (simp add: RemoveFromAddonList_def Join_Split)
qed

section \<open>Reference counting\<close>

text \<open>Abstractly the requirements are a multiset of addon ids, one occurrence per holder.\<close>

definition dq_ok :: "DownloadQueue \<Rightarrow> bool" where
  "dq_ok q \<longleftrightarrow> distinct (dq_Required q) \<and> (\<forall>r \<in> set (dq_required q). 0 < rq_Holders r \<and> rq_Id r \<noteq> 0)"

definition holders :: "DownloadQueue \<Rightarrow> nat multiset" where
  "holders q = (\<Sum>r \<leftarrow> dq_required q. replicate_mset (nat (rq_Holders r)) (rq_Id r))"

lemma set_holders: "dq_ok q \<Longrightarrow> set_mset (holders q) = set (dq_Required q)"
  by (force simp: dq_ok_def holders_def dq_Required_def set_mset_sum_list)

lemma holders_update:
  assumes "\<forall>r \<in> set rs. 0 < rq_Holders r" "List.find (\<lambda>r. rq_Id r = i) rs \<noteq> None"
  shows "(\<Sum>r \<leftarrow> update_first (\<lambda>r. rq_Id r = i) (\<lambda>r. r\<lparr>rq_Holders := rq_Holders r + 1\<rparr>) rs.
       replicate_mset (nat (rq_Holders r)) (rq_Id r)) =
     add_mset i (\<Sum>r \<leftarrow> rs. replicate_mset (nat (rq_Holders r)) (rq_Id r))"
  using assms by (induction rs) (auto simp: nat_add_distrib split: if_splits)

lemma holders_member:
  "\<forall>r \<in> set rs. 0 < rq_Holders r \<Longrightarrow> r \<in> set rs \<Longrightarrow>
     rq_Id r \<in># (\<Sum>r \<leftarrow> rs. replicate_mset (nat (rq_Holders r)) (rq_Id r))"
  by (induction rs) auto

lemma holders_remove:
  assumes "\<forall>r \<in> set rs. 0 < rq_Holders r" "List.find (\<lambda>r. rq_Id r = i) rs = Some r"
  shows "(\<Sum>r \<leftarrow> (if rq_Holders r - 1 \<le> 0 then erase_first (\<lambda>r. rq_Id r = i) rs
                 else update_first (\<lambda>r. rq_Id r = i) (\<lambda>r. r\<lparr>rq_Holders := rq_Holders r - 1\<rparr>) rs).
       replicate_mset (nat (rq_Holders r)) (rq_Id r)) =
     (\<Sum>r \<leftarrow> rs. replicate_mset (nat (rq_Holders r)) (rq_Id r)) - {#i#}"
  using assms
proof (induction rs)
  case (Cons a rs)
  show ?case
  proof (cases "rq_Id a = i")
    case True
    moreover from this have "a = r" using Cons.prems by simp
    moreover have "nat (rq_Holders r) = Suc (nat (rq_Holders r - 1))" using Cons.prems \<open>a = r\<close> by (simp add: nat_diff_distrib)
    ultimately show ?thesis using Cons.prems by auto
  next
    case False
    then have "List.find (\<lambda>r. rq_Id r = i) rs = Some r" using Cons.prems by simp
    moreover from find_SomeD[OF this] have "i \<in># (\<Sum>r \<leftarrow> rs. replicate_mset (nat (rq_Holders r)) (rq_Id r))"
      using holders_member[of rs r] Cons.prems by auto
    ultimately show ?thesis
      using Cons False diff_union_single_conv by (auto split: if_splits)
  qed
qed simp

lemma dq_Add_holders: "dq_ok q \<Longrightarrow> i \<noteq> 0 \<Longrightarrow> holders (snd (dq_Add i q)) = add_mset i (holders q)"
  using holders_update[of "dq_required q" i] by (auto simp: dq_Add_def holders_def dq_ok_def)

lemma dq_Remove_holders:
  assumes "dq_ok q" shows "holders (dq_Remove i q) = holders q - {#i#}"
proof (cases "List.find (\<lambda>r. rq_Id r = i) (dq_required q)")
  case None
  then have "i \<notin># holders q" using set_holders[OF assms] by (auto simp: find_None_iff_all dq_Required_def)
  with None show ?thesis by (simp add: dq_Remove_def diff_single_trivial)
next
  case (Some r)
  with holders_remove[OF _ Some] assms show ?thesis by (simp add: dq_Remove_def holders_def dq_ok_def split: if_splits)
qed

lemma dq_ok_Add: "dq_ok q \<Longrightarrow> dq_ok (snd (dq_Add i q))"
proof -
  assume ok: "dq_ok q"
  have "map rq_Id (update_first (\<lambda>r. rq_Id r = i) (\<lambda>r. r\<lparr>rq_Holders := rq_Holders r + 1\<rparr>) (dq_required q)) = dq_Required q"
    by (simp add: map_update_first_key dq_Required_def)
  moreover have "\<forall>r \<in> set (update_first (\<lambda>r. rq_Id r = i) (\<lambda>r. r\<lparr>rq_Holders := rq_Holders r + 1\<rparr>) (dq_required q)). 0 < rq_Holders r \<and> rq_Id r \<noteq> 0"
    using ok by (subst update_first_distinct) (auto simp: dq_ok_def dq_Required_def)
  ultimately show ?thesis
    using ok by (auto simp: dq_Add_def dq_ok_def dq_Required_def find_None_iff_all)
qed

lemma dq_ok_Remove: "dq_ok q \<Longrightarrow> dq_ok (dq_Remove i q)"
proof -
  assume ok: "dq_ok q"
  then have d: "distinct (map rq_Id (dq_required q))" by (simp add: dq_ok_def dq_Required_def)
  show ?thesis
  proof (cases "List.find (\<lambda>r. rq_Id r = i) (dq_required q)")
    case (Some r)
    then have "r \<in> set (dq_required q)" "rq_Id r = i" using find_SomeD[OF Some] by auto
    then have uniq: "r' = r" if "r' \<in> set (dq_required q)" "rq_Id r' = i" for r'
      using d that by (metis inj_on_eq_iff distinct_map)
    have "\<forall>r' \<in> set (update_first (\<lambda>r. rq_Id r = i) (\<lambda>r. r\<lparr>rq_Holders := rq_Holders r - 1\<rparr>) (dq_required q)).
        0 < rq_Holders r' \<and> rq_Id r' \<noteq> 0" if "\<not> rq_Holders r - 1 \<le> 0"
    proof -
      have "0 < rq_Holders r' - 1" if "r' \<in> set (dq_required q)" "rq_Id r' = i" for r'
        using \<open>\<not> rq_Holders r - 1 \<le> 0\<close> uniq[OF that] by simp
      then show ?thesis using ok by (subst update_first_distinct[OF d]) (auto simp: dq_ok_def)
    qed
    moreover have "dq_ok (q\<lparr>dq_required := erase_first (\<lambda>r. rq_Id r = i) (dq_required q)\<rparr>)"
      using ok by (auto simp: dq_ok_def dq_Required_def erase_first_distinct distinct_map_filter_key)
    ultimately show ?thesis
      using ok Some by (auto simp: dq_Remove_def dq_ok_def dq_Required_def map_update_first_key)
  qed (simp add: dq_Remove_def ok)
qed


section \<open>Serving a client\<close>

text \<open>One join message answered and followed by the client's reconnect, and a run of offers without one.\<close>

definition download_round :: "int \<Rightarrow> int \<Rightarrow> rat \<Rightarrow> rat \<Rightarrow> rat \<Rightarrow> DownloadQueue \<Rightarrow> DownloadQueue" where
  "download_round steamId maxAttempts timeoutSec delay now q =
     dq_ClientReconnected steamId (now + delay) timeoutSec (snd (dq_NextToSend steamId now maxAttempts q))"

fun offers :: "int \<Rightarrow> int \<Rightarrow> rat list \<Rightarrow> DownloadQueue \<Rightarrow> AddonAction list" where
  "offers steamId maxAttempts [] q = []"
| "offers steamId maxAttempts (now # moments) q =
     (case dq_NextToSend steamId now maxAttempts q of
        (decision, q') \<Rightarrow> ad_Action decision # offers steamId maxAttempts moments q')"

lemma put_client_simps [simp]:
  "dq_required (put_client steamId c q) = dq_required q" "dq_Required (put_client steamId c q) = dq_Required q"
  "dq_clients (put_client steamId c q) steamId = Some c" "client_at (put_client steamId c q) steamId = c"
  "dq_FindClient (put_client steamId c q) steamId = Some c"
  "put_client steamId c' (put_client steamId c q) = put_client steamId c' q"
  by (simp_all add: put_client_def dq_Required_def client_at_def dq_FindClient_def)

lemma MissingFor_at: "dq_MissingFor q steamId = filter (\<lambda>i. i \<notin> set (dc_Downloaded (client_at q steamId))) (dq_Required q)"
  by (auto simp: dq_MissingFor_def dq_FindClient_def client_at_def new_client_def split: option.split)

lemma HasMissing_iff: "dq_HasMissing q steamId \<longleftrightarrow> dq_MissingFor q steamId \<noteq> []"
  by (auto simp: dq_HasMissing_def dq_MissingFor_def dq_FindClient_def dq_Required_def filter_empty_conv list_ex_iff
      split: option.split)

lemma Missing_ok: "dq_ok q \<Longrightarrow> distinct (dq_MissingFor q steamId) \<and> 0 \<notin> set (dq_MissingFor q steamId)"
  by (auto simp: MissingFor_at dq_ok_def dq_Required_def)

lemma filter_without_head: "distinct xs \<Longrightarrow> filter P xs = a # rest \<Longrightarrow> filter (\<lambda>i. i \<noteq> a \<and> P i) xs = rest"
proof -
  assume "distinct xs" "filter P xs = a # rest"
  moreover from this have "a \<notin> set rest" by (metis distinct.simps(2) distinct_filter)
  ultimately have "filter (\<lambda>i. i \<noteq> a) (filter P xs) = rest" by (auto simp: filter_id_conv)
  then show ?thesis by (simp add: conj_commute cong: filter_cong)
qed

lemma download_round_step:
  assumes ok: "dq_ok q" and idle: "dc_Sending (client_at q steamId) = 0"
    and pos: "1 \<le> maxAttempts" and in_time: "delay \<le> timeoutSec"
    and q'_def: "q' = download_round steamId maxAttempts timeoutSec delay now q"
  shows "dq_ok q' \<and> dc_Sending (client_at q' steamId) = 0 \<and> dq_MissingFor q' steamId = drop 1 (dq_MissingFor q steamId)"
proof (cases "dq_MissingFor q steamId")
  case Nil
  then have "q' = dq_ClientReconnected steamId (now + delay) timeoutSec q"
    by (simp add: q'_def download_round_def dq_NextToSend_def)
  then show ?thesis
    using ok idle Nil
    by (auto simp: dq_ClientReconnected_def client_at_def dq_ok_def MissingFor_at Let_def split: option.splits)
next
  case (Cons nxt rest)
  then have "nxt \<in> set (dq_MissingFor q steamId)" by simp
  then have nxt: "nxt \<noteq> 0" "nxt \<notin> set (dc_Downloaded (client_at q steamId))"
    using Missing_ok[OF ok, of steamId] by (metis, simp add: MissingFor_at)
  define c where "c = (client_at q steamId)\<lparr>dc_SentAt := now, dc_LeftAt := 0,
    dc_Downloaded := dc_Downloaded (client_at q steamId) @ [nxt], dc_Attempts := 0, dc_Sending := 0\<rparr>"
  have "q' = put_client steamId c q"
    using Cons nxt idle pos in_time
    by (simp add: q'_def download_round_def dq_NextToSend_def dq_ClientReconnected_def Let_def c_def)
  moreover have "dq_MissingFor (put_client steamId c q) steamId = rest"
    using filter_without_head[of "dq_Required q" "\<lambda>i. i \<notin> set (dc_Downloaded (client_at q steamId))" nxt rest] Cons ok
    by (simp add: MissingFor_at c_def dq_ok_def)
  ultimately show ?thesis using ok Cons by (simp add: dq_ok_def c_def)
qed

lemma download_rounds:
  "dq_ok q \<Longrightarrow> dc_Sending (client_at q steamId) = 0 \<Longrightarrow> 1 \<le> maxAttempts \<Longrightarrow> delay \<le> timeoutSec \<Longrightarrow>
     dq_MissingFor (fold (download_round steamId maxAttempts timeoutSec delay) moments q) steamId =
       drop (length moments) (dq_MissingFor q steamId)"
proof (induction moments arbitrary: q)
  case (Cons now moments)
  have "dq_MissingFor (fold (download_round steamId maxAttempts timeoutSec delay) moments
      (download_round steamId maxAttempts timeoutSec delay now q)) steamId =
    drop (length moments) (drop 1 (dq_MissingFor q steamId))"
    using Cons.IH[of "download_round steamId maxAttempts timeoutSec delay now q"]
      download_round_step[OF Cons.prems refl, of now] Cons.prems by auto
  then show ?case by (simp add: drop_drop)
qed simp

text \<open>Offers without a reconnect: the attempts are counted, the missing list stays.\<close>

lemma NextToSend_again:
  assumes "dq_MissingFor q steamId = nxt # rest"
    and "dc_Sending (client_at q steamId) = nxt \<and> dc_Attempts (client_at q steamId) = n
         \<or> n = 0 \<and> dc_Sending (client_at q steamId) \<noteq> nxt"
    and "dq_NextToSend steamId now maxAttempts q = (d, q')"
  shows "ad_Action d = (if n < maxAttempts then Send else Kick)" "dq_MissingFor q' steamId = nxt # rest"
    "0 \<le> maxAttempts - 1 - n \<or> dc_Sending (client_at q steamId) = nxt \<Longrightarrow>
      dc_Sending (client_at q' steamId) = nxt \<and> dc_Attempts (client_at q' steamId) = n + 1"
  using assms by (auto simp: dq_NextToSend_def Let_def MissingFor_at split: if_splits)

lemma offers_counted:
  "dq_MissingFor q steamId = nxt # rest \<Longrightarrow> 1 \<le> maxAttempts \<Longrightarrow>
     dc_Sending (client_at q steamId) = nxt \<and> dc_Attempts (client_at q steamId) = int n
       \<or> n = 0 \<and> dc_Sending (client_at q steamId) \<noteq> nxt \<Longrightarrow>
     offers steamId maxAttempts moments q =
       map (\<lambda>k. if int k < maxAttempts then Send else Kick) [n..<n + length moments]"
proof (induction moments arbitrary: q n)
  case (Cons now moments)
  obtain d q' where step: "dq_NextToSend steamId now maxAttempts q = (d, q')" by fastforce
  note again = NextToSend_again[OF Cons.prems(1) _ step, of "int n"]
  have "offers steamId maxAttempts moments q' =
      map (\<lambda>k. if int k < maxAttempts then Send else Kick) [Suc n..<Suc n + length moments]"
    using Cons.prems again by (intro Cons.IH) auto
  then show ?case using step again(1) Cons.prems by (auto simp: upt_rec)
qed simp

section \<open>Properties\<close>

text \<open>
  whatever the addon field of a message holds, appending a client's addons and removing the ones
  reported as appended gives the field back byte for byte, and what is appended is what was asked for
  less 0 and the ids already named.
\<close>

theorem AddonList_roundtrip:
  assumes "\<forall>i \<in> set ids. i \<le> uint64_max"
  shows "RemoveFromAddonList (snd (AppendToAddonList field ids)) (fst (AppendToAddonList field ids)) = field \<and>
    set (fst (AppendToAddonList field ids)) = set ids - {0} - set (ParseAddonList field) \<and>
    distinct (fst (AppendToAddonList field ids))"
  using assms by (rule addon_list_restored)

theorem AddonList_roundtrip_witness:
  "AppendToAddonList ''7,,x'' [7, 12, 0, 12, 3] = ([12, 3], ''7,,x,12,3'') \<and>
   RemoveFromAddonList ''7,,x,12,3'' [12, 3] = ''7,,x''"
proof -
  have app: "AppendToAddonList ''7,,x'' [7, 12, 0, 12, 3] = ([12, 3], ''7,,x,12,3'')"
    by (simp add: AppendToAddonList_def ParseAddonList_def SplitAddonList.simps find_comma_def ParseUInt64_def
        from_chars_unsigned_def is_digit_def digits_value_def digit_value_def uint64_max_def to_string.simps digit_char_def)
      code_simp
  have "\<forall>i \<in> set [7, 12, 0, 12, 3]. i \<le> uint64_max" by (simp add: uint64_max_def)
  from AddonList_roundtrip[OF this, of "''7,,x''"] app show ?thesis by simp
qed

text \<open>
  the requirement list is a reference count. Abstractly it is the multiset of addon ids, one
  occurrence per holder: adding a non-zero id adds an occurrence, removing takes one away, an id is
  required exactly while an occurrence is left, and both operations keep the list well formed.
\<close>

theorem DownloadQueue_refcount:
  assumes "dq_ok q"
  shows "holders (snd (dq_Add i q)) = (if i = 0 then holders q else add_mset i (holders q)) \<and>
    (fst (dq_Add i q) \<longleftrightarrow> i \<noteq> 0) \<and> holders (dq_Remove i q) = holders q - {#i#} \<and>
    set (dq_Required q) = set_mset (holders q) \<and> dq_ok (snd (dq_Add i q)) \<and> dq_ok (dq_Remove i q)"
  using assms by (simp add: dq_Add_holders dq_Remove_holders set_holders dq_ok_Add dq_ok_Remove) (simp add: dq_Add_def)

definition example_queue :: DownloadQueue where
  "example_queue = snd (dq_Add 9 (snd (dq_Add 8 (snd (dq_Add 9 dq_init)))))"

lemma example_queue_ok: "dq_ok example_queue"
  unfolding example_queue_def by (intro dq_ok_Add) (simp add: dq_ok_def dq_init_def dq_Required_def)

theorem DownloadQueue_refcount_witness:
  "dq_ok example_queue \<and> set (dq_Required (dq_Remove 9 example_queue)) = {8, 9} \<and>
   holders (dq_Remove 9 example_queue) = holders example_queue - {#9#}"
proof -
  have "dq_Required (dq_Remove 9 example_queue) = [9, 8]" by code_simp
  then have "set (dq_Required (dq_Remove 9 example_queue)) = {8, 9}" by auto
  with DownloadQueue_refcount[OF example_queue_ok, of 9] example_queue_ok show ?thesis by blast
qed

text \<open>
  C6: an idle client that reconnects in time after every offer gets its missing addons one per
  reconnect in order, so that after as many reconnects as addons are missing it misses none; a client
  that never reconnects is offered the first one exactly \<open>maxAttempts\<close> times and kicked on every offer
  after that.
\<close>

theorem DownloadQueue_serves_or_kicks:
  assumes "dq_ok q" "dc_Sending (client_at q steamId) = 0" "1 \<le> maxAttempts" "delay \<le> timeoutSec"
  shows "dq_MissingFor (fold (download_round steamId maxAttempts timeoutSec delay) moments q) steamId =
      drop (length moments) (dq_MissingFor q steamId) \<and>
    (length (dq_MissingFor q steamId) \<le> length moments \<longrightarrow>
      \<not> dq_HasMissing (fold (download_round steamId maxAttempts timeoutSec delay) moments q) steamId) \<and>
    (dq_HasMissing q steamId \<longrightarrow>
      offers steamId maxAttempts moments q =
        map (\<lambda>k. if int k < maxAttempts then Send else Kick) [0..<length moments])"
proof -
  have "offers steamId maxAttempts moments q = map (\<lambda>k. if int k < maxAttempts then Send else Kick) [0..<length moments]"
    if missing: "dq_HasMissing q steamId"
  proof -
    obtain nxt rest where nxt: "dq_MissingFor q steamId = nxt # rest"
      using missing by (cases "dq_MissingFor q steamId") (auto simp: HasMissing_iff)
    then have "nxt \<noteq> 0" using Missing_ok[OF assms(1), of steamId] by auto
    then show ?thesis using offers_counted[OF nxt assms(3), of 0 moments] assms(2) by simp
  qed
  with download_rounds[OF assms, of moments] show ?thesis by (simp add: HasMissing_iff)
qed

theorem DownloadQueue_serves_or_kicks_witness:
  "dq_MissingFor example_queue 5 = [9, 8] \<and>
   \<not> dq_HasMissing (fold (download_round 5 3 30 10) [0, 20] example_queue) 5 \<and>
   offers 5 3 [0, 1, 2, 3] example_queue = [Send, Send, Send, Kick]"
proof -
  have missing: "dq_MissingFor example_queue 5 = [9, 8]" and idle: "dc_Sending (client_at example_queue 5) = 0"
    by code_simp+
  then have "dq_HasMissing example_queue 5" by (simp add: HasMissing_iff)
  with DownloadQueue_serves_or_kicks[OF example_queue_ok idle, of 3 10 30 "[0, 20]"]
    DownloadQueue_serves_or_kicks[OF example_queue_ok idle, of 3 10 30 "[0, 1, 2, 3]"] missing
  show ?thesis by (simp add: upt_rec)
qed

end
