(* ===== verification/SteamId.thy ===== *)
theory SteamId
  imports Strings "HOL-Library.Word"
begin

text \<open>
  SteamID conversions. Source: \<^verbatim>\<open>src/Core/Slots/SteamId.cpp\<close>. Account ids are 32-bit words, so the
  arithmetic on them wraps as \<^verbatim>\<open>uint32_t\<close> does; a 64-bit id is an \<^typ>\<open>int\<close>.
\<close>

type_synonym account_id = "32 word"

definition SteamId64Base :: int where "SteamId64Base = 76561197960265728"

definition GetAccountId :: "int \<Rightarrow> account_id" where
  "GetAccountId steamId64 = word_of_int (steamId64 - SteamId64Base)"

definition IsValid :: "int \<Rightarrow> bool" where
  "IsValid steamId64 \<longleftrightarrow> SteamId64Base \<le> steamId64 \<and> steamId64 < SteamId64Base + 0x100000000"

definition ToSteamId3 :: "int \<Rightarrow> string" where
  "ToSteamId3 steamId64 = ''[U:1:'' @ to_string (unat (GetAccountId steamId64)) @ '']''"

definition ToSteamId :: "int \<Rightarrow> string" where
  "ToSteamId steamId64 =
     (let accountId = GetAccountId steamId64;
          authServer = accountId mod 2;
          accountNum = accountId div 2
      in ''STEAM_0:'' @ to_string (unat authServer) @ '':'' @ to_string (unat accountNum))"

definition FromSteamId3 :: "string \<Rightarrow> int option" where
  "FromSteamId3 steamId3 =
     (let pre = ''[U:1:'' in
      if \<not> StartsWith steamId3 pre \<or> length steamId3 \<le> length pre + 1 \<or> last steamId3 \<noteq> CHR '']''
      then None
      else map_option (\<lambda>accountId. SteamId64Base + int accountId)
             (parse_whole uint32_max (butlast (drop (length pre) steamId3))))"

definition FromSteamId :: "string \<Rightarrow> int option" where
  "FromSteamId steamId =
     (let pre = ''STEAM_'' in
      if \<not> StartsWith steamId pre \<or> length steamId < length pre + 4 then None
      else
        let universe = steamId ! length pre; auth = steamId ! (length pre + 2) in
        if universe < CHR ''0'' \<or> CHR ''5'' < universe \<or> auth < CHR ''0'' \<or> CHR ''1'' < auth \<or>
           steamId ! (length pre + 1) \<noteq> CHR '':'' \<or> steamId ! (length pre + 3) \<noteq> CHR '':''
        then None
        else map_option
               (\<lambda>accountNum.
                  let accountId = (of_nat accountNum * 2 + of_nat (digit_value auth) :: account_id)
                  in SteamId64Base + uint accountId)
               (parse_whole uint32_max (drop (length pre + 4) steamId)))"

section \<open>Lemmas\<close>

lemma uint32_max_word: "unat (w :: account_id) \<le> uint32_max"
  using unsigned_less[of w, where ?'a = nat] by (simp add: uint32_max_def)

lemma uint_account: "uint (word_of_int i :: account_id) = i mod 2 ^ 32"
  by (simp add: uint_word_of_int)

lemma GetAccountId_inverse: "IsValid s \<Longrightarrow> SteamId64Base + uint (GetAccountId s) = s"
  unfolding GetAccountId_def uint_account IsValid_def by (simp add: mod_pos_pos_trivial)

lemma FromSteamId3_text:
  "n \<le> uint32_max \<Longrightarrow> FromSteamId3 (''[U:1:'' @ to_string n @ '']'') = Some (SteamId64Base + int n)"
  using whole.parse_print[of n uint32_max]
  by (simp add: FromSteamId3_def StartsWith_def butlast_append)

lemma FromSteamId_text:
  assumes "u \<le> 5" "a \<le> 1" "n \<le> uint32_max"
  shows "FromSteamId (''STEAM_'' @ [digit_char u, CHR '':'', digit_char a, CHR '':''] @ to_string n) =
    Some (SteamId64Base + (2 * int n + int a) mod 2 ^ 32)"
proof -
  have "(of_nat n * 2 + of_nat a :: account_id) = word_of_int (2 * int n + int a)"
    by (simp add: mult.commute)
  then have "uint (of_nat n * 2 + of_nat a :: account_id) = (2 * int n + int a) mod 2 ^ 32"
    by (simp only: uint_account)
  then show ?thesis
    using assms whole.parse_print[of n uint32_max]
    by (simp add: FromSteamId_def StartsWith_def less_char_def byte_of_digit_char)
qed

lemma digit_char_mod2: "to_string (unat (w mod 2 :: account_id)) = [digit_char (unat w mod 2)]"
  by (subst to_string.simps) (simp add: unat_mod_distrib)

section \<open>Properties\<close>

text \<open>
  for every valid SteamID, printing it as SteamID3 or SteamID2 and reading the text back gives
  the same SteamID.
\<close>

theorem SteamId_roundtrip:
  assumes "IsValid steamId64"
  shows "FromSteamId3 (ToSteamId3 steamId64) = Some steamId64 \<and>
         FromSteamId (ToSteamId steamId64) = Some steamId64"
proof
  let ?w = "GetAccountId steamId64"
  show "FromSteamId3 (ToSteamId3 steamId64) = Some steamId64"
    using FromSteamId3_text[OF uint32_max_word, of ?w] GetAccountId_inverse[OF assms]
    by (simp add: ToSteamId3_def)
  have half: "unat (?w div 2) = unat ?w div 2" by (simp add: unat_div_distrib)
  have "2 * int (unat ?w div 2) + int (unat ?w mod 2) = int (unat ?w)"
    by (simp only: zdiv_int zmod_int of_nat_numeral mult_div_mod_eq)
  moreover have "int (unat ?w) < 2 ^ 32" using unsigned_less[of ?w, where ?'a = int] by simp
  ultimately have "(2 * int (unat ?w div 2) + int (unat ?w mod 2)) mod 2 ^ 32 = int (unat ?w)"
    by (simp only: mod_pos_pos_trivial of_nat_0_le_iff)
  moreover have "FromSteamId (''STEAM_'' @ [digit_char 0, CHR '':'', digit_char (unat ?w mod 2), CHR '':''] @
      to_string (unat ?w div 2)) =
      Some (SteamId64Base + (2 * int (unat ?w div 2) + int (unat ?w mod 2)) mod 2 ^ 32)"
    using uint32_max_word[of ?w] by (intro FromSteamId_text) auto
  moreover have "digit_char 0 = CHR ''0''" by code_simp
  ultimately show "FromSteamId (ToSteamId steamId64) = Some steamId64"
    using GetAccountId_inverse[OF assms] by (simp add: ToSteamId_def Let_def digit_char_mod2 half)
qed

theorem SteamId_roundtrip_witness:
  "FromSteamId (ToSteamId 76561197960287930) = Some 76561197960287930"
  using SteamId_roundtrip[of 76561197960287930] by (simp add: IsValid_def SteamId64Base_def)

text \<open>
  whatever text they are given, \<^verbatim>\<open>FromSteamId3\<close> and \<^verbatim>\<open>FromSteamId\<close> answer only with ids that
  \<^verbatim>\<open>IsValid\<close> accepts.
\<close>

theorem FromSteamId_valid:
  "FromSteamId3 s = Some steamId64 \<or> FromSteamId s = Some steamId64 \<Longrightarrow> IsValid steamId64"
proof (elim disjE)
  assume "FromSteamId3 s = Some steamId64"
  then obtain n where n: "parse_whole uint32_max (butlast (drop (length ''[U:1:'') s)) = Some n"
    "steamId64 = SteamId64Base + int n"
    by (auto simp: FromSteamId3_def Let_def split: if_splits)
  from whole.parse_limit[OF n(1)] n(2) show "IsValid steamId64"
    by (simp add: IsValid_def uint32_max_def)
next
  assume "FromSteamId s = Some steamId64"
  then obtain w :: account_id where "steamId64 = SteamId64Base + uint w"
    by (auto simp: FromSteamId_def Let_def split: if_splits)
  moreover have "0 \<le> uint w" "uint w < 2 ^ 32" using uint_bounded[of w] by auto
  ultimately show "IsValid steamId64" by (simp add: IsValid_def)
qed

theorem FromSteamId_valid_witness: "IsValid 76561197960287930"
  using FromSteamId_valid[of "''[U:1:'' @ to_string 22202 @ '']''" 76561197960287930] FromSteamId3_text[of 22202]
  by (simp add: uint32_max_def SteamId64Base_def)

text \<open>
  C3: \<^verbatim>\<open>FromSteamId\<close> accepts any 32-bit account number, but doubles it in 32 bits: the account it
  answers is \<open>(2 * number + auth) mod 2 ^ 32\<close>, so numbers of \<open>2 ^ 31\<close> and more name the
  account of a smaller number instead of being rejected.
\<close>

theorem FromSteamId_wraps:
  assumes "u \<le> 5" and "a \<le> 1" and "n \<le> 4294967295"
  shows "FromSteamId (''STEAM_'' @ [digit_char u, CHR '':'', digit_char a, CHR '':''] @ to_string n) =
    Some (SteamId64Base + (2 * int n + int a) mod 2 ^ 32)"
  using assms by (intro FromSteamId_text) (simp_all add: uint32_max_def)

theorem FromSteamId_wraps_witness:
  "FromSteamId (''STEAM_'' @ [digit_char 0, CHR '':'', digit_char 0, CHR '':''] @ to_string 2147483648) =
    Some SteamId64Base"
  using FromSteamId_wraps[of 0 0 2147483648] by simp

end
