(* ===== verification/Slots.thy ===== *)
theory Slots
  imports Prelude
begin

text \<open>
  Player slots, per-slot stores and the languages of the players. Sources:
  \<^verbatim>\<open>include/VoltMod/Core/Slots/{Slot,PerSlot}.hpp\<close>, \<^verbatim>\<open>src/Host/Plugins/LanguageTable.hpp\<close>. A store is a
  function of the slot; the source keeps an array of \<^verbatim>\<open>MaxPlayers\<close> values and asserts the index.
\<close>

definition MaxPlayers :: int where "MaxPlayers = 64"

definition IsValidSlot :: "int \<Rightarrow> bool" where
  "IsValidSlot slot \<longleftrightarrow> slot \<ge> 0 \<and> slot < MaxPlayers"

type_synonym 'a PerSlot = "int \<Rightarrow> 'a"

definition PerSlot_Reset :: "'a \<Rightarrow> int \<Rightarrow> 'a PerSlot \<Rightarrow> 'a PerSlot" where
  "PerSlot_Reset blank slot p = (if IsValidSlot slot then p(slot := blank) else p)"

definition PerSlot_ResetAll :: "'a \<Rightarrow> 'a PerSlot \<Rightarrow> 'a PerSlot" where
  "PerSlot_ResetAll blank p = (\<lambda>_. blank)"

definition Language :: "string PerSlot \<Rightarrow> int \<Rightarrow> string" where
  "Language table slot = (if IsValidSlot slot then table slot else [])"

definition SetLanguage :: "int \<Rightarrow> string \<Rightarrow> string PerSlot \<Rightarrow> string PerSlot" where
  "SetLanguage slot lang table = (if IsValidSlot slot then table(slot := lang) else table)"

definition LanguageTable_Reset :: "int \<Rightarrow> string PerSlot \<Rightarrow> string PerSlot" where
  "LanguageTable_Reset slot table = PerSlot_Reset [] slot table"

text \<open>The slots a loop over all players visits, in order.\<close>

definition all_slots :: "int list" where
  "all_slots = map int [0..<nat MaxPlayers]"

lemma set_all_slots [simp]: "set all_slots = {slot. IsValidSlot slot}"
proof -
  have "slot \<in> int ` {0..<nat MaxPlayers}" if "IsValidSlot slot" for slot
    using that by (intro image_eqI[of _ _ "nat slot"]) (auto simp: IsValidSlot_def)
  then show ?thesis by (auto simp: all_slots_def IsValidSlot_def MaxPlayers_def)
qed

lemma distinct_all_slots [simp]: "distinct all_slots"
  by (simp add: all_slots_def distinct_map)

end
