(* ===== verification/Result.thy ===== *)
theory Result
  imports Prelude
begin

text \<open>
  Core results: \<^verbatim>\<open>Error\<close>, its named constructors, and \<^verbatim>\<open>Result<T>\<close>/\<^verbatim>\<open>Status\<close> as sums
  (\<open>Inl\<close> is the error). Source: \<^verbatim>\<open>include/VoltMod/Core/Result.hpp\<close>.
\<close>

text \<open>The levels of a log line (\<^verbatim>\<open>include/VoltMod/Core/Log.hpp\<close>).\<close>

datatype LogLevel = Info | Warn | LogError

datatype ErrorCode = NotFound | NotReady | Invalid | Denied | Immune | Unsupported | Engine | Failed

record Error =
  err_Code :: ErrorCode
  err_Detail :: string
  err_Key :: string
  err_Text :: string

type_synonym 'a result = "Error + 'a"
type_synonym status = "Error + unit"

definition Error_NotFound :: "string \<Rightarrow> Error" where
  "Error_NotFound detail = \<lparr>err_Code = NotFound, err_Detail = detail, err_Key = [], err_Text = []\<rparr>"

definition Error_NotReady :: "string \<Rightarrow> Error" where
  "Error_NotReady detail = \<lparr>err_Code = NotReady, err_Detail = detail, err_Key = [], err_Text = []\<rparr>"

definition Error_Invalid :: "string \<Rightarrow> Error" where
  "Error_Invalid detail = \<lparr>err_Code = Invalid, err_Detail = detail, err_Key = [], err_Text = []\<rparr>"

definition Error_Denied :: "string \<Rightarrow> Error" where
  "Error_Denied key =
     \<lparr>err_Code = Denied, err_Detail = ''permission denied'', err_Key = key, err_Text = []\<rparr>"

definition Error_Immune :: "string \<Rightarrow> Error" where
  "Error_Immune key =
     \<lparr>err_Code = Immune, err_Detail = ''target is immune'', err_Key = key, err_Text = []\<rparr>"

definition Error_Unsupported :: "string \<Rightarrow> Error" where
  "Error_Unsupported detail = \<lparr>err_Code = Unsupported, err_Detail = detail, err_Key = [], err_Text = []\<rparr>"

definition Error_Engine :: "string \<Rightarrow> Error" where
  "Error_Engine detail = \<lparr>err_Code = Engine, err_Detail = detail, err_Key = [], err_Text = []\<rparr>"

definition Error_Failed :: "string \<Rightarrow> Error" where
  "Error_Failed detail = \<lparr>err_Code = Failed, err_Detail = detail, err_Key = [], err_Text = []\<rparr>"

lemmas Error_defs = Error_NotFound_def Error_NotReady_def Error_Invalid_def Error_Denied_def
  Error_Immune_def Error_Unsupported_def Error_Engine_def Error_Failed_def

end
