(* ===== verification/WorkshopDownloads.thy ===== *)
theory WorkshopDownloads
  imports DownloadQueue SteamId Slots Result
begin

text \<open>
  The download service behind every plugin: hooks that exist while an addon is required, the rewriting
  of the join message, the addon list of the connection reply and the deferred kicks. Source:
  \<^verbatim>\<open>src/Host/Workshop/WorkshopDownloads.{hpp,cpp}\<close>. The engine is an argument: \<open>install_env\<close> for what an
  install finds, the SteamID and slot read from a client, the server's addon list (none when its offset
  is stale), the SteamID in a slot when a kick runs.
\<close>

section \<open>State and operations\<close>

definition DownloadTimeoutSeconds :: rat where "DownloadTimeoutSeconds = 30"
definition MaxDownloadAttempts :: int where "MaxDownloadAttempts = 3"
definition ForgetAfterSeconds :: rat where "ForgetAfterSeconds = 12 * 60 * 60"

record KickRequest =
  kick_Slot :: int
  kick_SteamId :: int

record WorkshopDownloads =
  wd_queue :: DownloadQueue
  wd_kicks :: "KickRequest list"
  wd_addedToReply :: "nat list"
  wd_joinMessageHook :: bool
  wd_connectionReplyHook :: bool

definition wd_init :: WorkshopDownloads where
  "wd_init = \<lparr>wd_queue = dq_init, wd_kicks = [], wd_addedToReply = [],
     wd_joinMessageHook = False, wd_connectionReplyHook = False\<rparr>"

record install_env =
  ie_dedicated :: bool
  ie_offsets :: bool
  ie_join :: "unit result"
  ie_reply :: "unit result"

definition wd_Install :: "install_env \<Rightarrow> WorkshopDownloads \<Rightarrow> status \<times> WorkshopDownloads" where
  "wd_Install env w =
     (if wd_joinMessageHook w then (Inr (), w)
      else if \<not> ie_dedicated env then (Inl (Error_Unsupported ''addon downloads need a dedicated server''), w)
      else if \<not> ie_offsets env
      then (Inl (Error_Unsupported ''the client SteamID or server addons offset did not bind''), w)
      else case ie_join env of
             Inl e \<Rightarrow> (Inl (Error_Unsupported (err_Detail e)), w)
           | Inr _ \<Rightarrow> (case ie_reply env of
               Inl e \<Rightarrow> (Inl (Error_Unsupported (err_Detail e)), w)
             | Inr _ \<Rightarrow> (Inr (), w\<lparr>wd_joinMessageHook := True, wd_connectionReplyHook := True\<rparr>)))"

definition wd_RemoveHooksIfUnused :: "WorkshopDownloads \<Rightarrow> WorkshopDownloads" where
  "wd_RemoveHooksIfUnused w =
     (if \<not> dq_Empty (wd_queue w) then w
      else w\<lparr>wd_kicks := [], wd_joinMessageHook := False, wd_connectionReplyHook := False,
             wd_addedToReply := [], wd_queue := dq_ClearProgress (wd_queue w)\<rparr>)"

definition wd_Add :: "install_env \<Rightarrow> nat \<Rightarrow> WorkshopDownloads \<Rightarrow> bool \<times> WorkshopDownloads" where
  "wd_Add env addonId w =
     (if addonId = 0 then (False, w)
      else case wd_Install env w of
             (Inl _, w') \<Rightarrow> (False, w')
           | (Inr _, w') \<Rightarrow> (case dq_Add addonId (wd_queue w') of (ok, q) \<Rightarrow> (ok, w'\<lparr>wd_queue := q\<rparr>)))"

definition wd_Remove :: "nat \<Rightarrow> WorkshopDownloads \<Rightarrow> WorkshopDownloads" where
  "wd_Remove addonId w = wd_RemoveHooksIfUnused (w\<lparr>wd_queue := dq_Remove addonId (wd_queue w)\<rparr>)"

text \<open>\<open>xuid\<close> is \<^verbatim>\<open>GetClientXUID\<close>, absent without an engine.\<close>

definition wd_IsReady :: "(int \<Rightarrow> int) option \<Rightarrow> int \<Rightarrow> WorkshopDownloads \<Rightarrow> bool" where
  "wd_IsReady xuid slot w =
     (if dq_Empty (wd_queue w) \<or> \<not> IsValidSlot slot then True
      else case xuid of None \<Rightarrow> True | Some f \<Rightarrow> \<not> dq_HasMissing (wd_queue w) (f slot))"

definition wd_OnClientConnected :: "rat \<Rightarrow> int \<Rightarrow> WorkshopDownloads \<Rightarrow> WorkshopDownloads" where
  "wd_OnClientConnected now steamId w =
     (if dq_Empty (wd_queue w) then w
      else w\<lparr>wd_queue := dq_ClientReconnected steamId now DownloadTimeoutSeconds (wd_queue w)\<rparr>)"

definition wd_OnClientDisconnected :: "rat \<Rightarrow> int \<Rightarrow> WorkshopDownloads \<Rightarrow> WorkshopDownloads" where
  "wd_OnClientDisconnected now steamId w =
     (if dq_Empty (wd_queue w) then w
      else w\<lparr>wd_queue := dq_ClientLeft steamId now ForgetAfterSeconds (wd_queue w)\<rparr>)"

text \<open>The slots disconnected, and the service with its kicks taken.\<close>

definition wd_OnFrame :: "(int \<Rightarrow> int) \<Rightarrow> WorkshopDownloads \<Rightarrow> int list \<times> WorkshopDownloads" where
  "wd_OnFrame xuid w =
     (map kick_Slot (filter (\<lambda>k. xuid (kick_Slot k) = kick_SteamId k) (wd_kicks w)), w\<lparr>wd_kicks := []\<rparr>)"

text \<open>\<open>listed\<close> is the server's own list, \<open>None\<close> when \<^verbatim>\<open>AddonList\<close> finds its offset stale.\<close>

definition wd_AddToReply :: "int \<Rightarrow> string option \<Rightarrow> WorkshopDownloads \<Rightarrow> string option \<times> WorkshopDownloads" where
  "wd_AddToReply steamId listed w =
     (if \<not> IsValid steamId then (listed, w)
      else let mountList = dq_ClientMountList (wd_queue w) steamId
           in if mountList = [] then (listed, w)
              else case listed of
                     None \<Rightarrow> (None, w)
                   | Some field \<Rightarrow>
                       (case AppendToAddonList field mountList of (appended, field') \<Rightarrow>
                          (if appended = [] then Some field else Some field', w\<lparr>wd_addedToReply := appended\<rparr>)))"

definition wd_RestoreReply :: "string option \<Rightarrow> WorkshopDownloads \<Rightarrow> string option \<times> WorkshopDownloads" where
  "wd_RestoreReply listed w =
     (if wd_addedToReply w = [] then (listed, w)
      else case listed of
             None \<Rightarrow> (None, w\<lparr>wd_addedToReply := []\<rparr>)
           | Some field \<Rightarrow> (Some (RemoveFromAddonList field (wd_addedToReply w)), w\<lparr>wd_addedToReply := []\<rparr>))"

text \<open>The sign-on message: whether its state is \<^verbatim>\<open>SIGNONSTATE_CHANGELEVEL\<close>, and its addon field.\<close>

record SignonState =
  sm_changelevel :: bool
  sm_addons :: string

definition wd_OnJoinMessage ::
  "rat \<Rightarrow> int \<Rightarrow> int \<Rightarrow> SignonState \<Rightarrow> WorkshopDownloads \<Rightarrow> SignonState \<times> WorkshopDownloads" where
  "wd_OnJoinMessage now steamId slot message w =
     (if \<not> IsValid steamId then (message, w)
      else case dq_DecideJoinMessage steamId (sm_changelevel message) (sm_addons message) now MaxDownloadAttempts (wd_queue w) of
             (decision, q) \<Rightarrow>
               let w' = w\<lparr>wd_queue := q\<rparr>
               in (case ad_Action decision of
                     Unchanged \<Rightarrow> (message, w')
                   | TrimToFirst \<Rightarrow> (message\<lparr>sm_addons := to_string (ad_Id decision)\<rparr>, w')
                   | KeepMounted \<Rightarrow> (message\<lparr>sm_addons := to_string (ad_Id decision)\<rparr>, w')
                   | Kick \<Rightarrow>
                       (message, if IsValidSlot slot
                                 then w'\<lparr>wd_kicks := wd_kicks w' @ [\<lparr>kick_Slot = slot, kick_SteamId = steamId\<rparr>]\<rparr>
                                 else w')
                   | Send \<Rightarrow>
                       (message\<lparr>sm_addons := to_string (ad_Id decision), sm_changelevel := True\<rparr>, w')))"

text \<open>The service's life. The two hooks are the only callers of the operations that carry their name.\<close>

inductive wd_step :: "WorkshopDownloads \<Rightarrow> WorkshopDownloads \<Rightarrow> bool" where
  step_Add: "wd_step w (snd (wd_Add env addonId w))"
| step_Remove: "wd_step w (wd_Remove addonId w)"
| step_Connected: "wd_step w (wd_OnClientConnected now steamId w)"
| step_Disconnected: "wd_step w (wd_OnClientDisconnected now steamId w)"
| step_Frame: "wd_step w (snd (wd_OnFrame xuid w))"
| step_Join: "wd_joinMessageHook w \<Longrightarrow> wd_step w (snd (wd_OnJoinMessage now steamId slot message w))"
| step_AddToReply: "wd_connectionReplyHook w \<Longrightarrow> wd_step w (snd (wd_AddToReply steamId listed w))"
| step_Restore: "wd_connectionReplyHook w \<Longrightarrow> wd_step w (snd (wd_RestoreReply listed w))"

section \<open>The invariant\<close>

definition wd_ok :: "WorkshopDownloads \<Rightarrow> bool" where
  "wd_ok w \<longleftrightarrow> dq_ok (wd_queue w) \<and>
     (wd_joinMessageHook w \<longleftrightarrow> \<not> dq_Empty (wd_queue w)) \<and>
     wd_connectionReplyHook w = wd_joinMessageHook w \<and>
     (dq_Empty (wd_queue w) \<longrightarrow> wd_kicks w = [] \<and> wd_addedToReply w = [] \<and> dq_clients (wd_queue w) = Map.empty)"

text \<open>The operations on clients leave the requirements alone.\<close>

lemma required_put [simp]: "dq_required (q\<lparr>dq_clients := f\<rparr>) = dq_required q"
  by simp

lemma required_client_ops [simp]:
  "dq_required (dq_ClientReconnected steamId now t q) = dq_required q"
  "dq_required (dq_ClientLeft steamId now t q) = dq_required q"
  "dq_required (dq_ClearProgress q) = dq_required q"
  "dq_required (dq_MarkSending steamId i now q) = dq_required q"
  "dq_required (snd (dq_NextToSend steamId now m q)) = dq_required q"
  by (auto simp: dq_ClientReconnected_def dq_ClientLeft_def dq_ClearProgress_def dq_MarkSending_def dq_NextToSend_def
      Let_def split: option.split list.split)

lemma required_Decide [simp]:
  "dq_required (snd (dq_DecideJoinMessage steamId reconnect addons now m q)) = dq_required q"
  by (auto simp: dq_DecideJoinMessage_def Let_def split: list.split)

lemma same_required:
  "dq_required q' = dq_required q \<Longrightarrow> dq_ok q' = dq_ok q" "dq_required q' = dq_required q \<Longrightarrow> dq_Empty q' = dq_Empty q"
  by (simp_all add: dq_ok_def dq_Required_def dq_Empty_def)

lemma ClearProgress_clients [simp]: "dq_clients (dq_ClearProgress q) = Map.empty"
  by (simp add: dq_ClearProgress_def)

lemma dq_Add_not_Empty: "i \<noteq> 0 \<Longrightarrow> \<not> dq_Empty (snd (dq_Add i q))"
  by (cases "dq_required q") (auto simp: dq_Add_def dq_Empty_def)

lemma wd_ok_Add: "wd_ok w \<Longrightarrow> wd_ok (snd (wd_Add env i w))"
proof -
  assume ok: "wd_ok w"
  obtain b q where add: "dq_Add i (wd_queue w) = (b, q)" by fastforce
  have q: "dq_ok q" "i \<noteq> 0 \<Longrightarrow> \<not> dq_Empty q"
    using ok dq_ok_Add[of "wd_queue w" i] dq_Add_not_Empty[of i "wd_queue w"] by (auto simp: wd_ok_def add)
  show ?thesis
    using ok q add by (auto simp: wd_Add_def wd_Install_def wd_ok_def split: sum.split)
qed

lemma wd_ok_Remove: "wd_ok w \<Longrightarrow> wd_ok (wd_Remove i w)"
proof -
  assume ok: "wd_ok w"
  define q where "q = dq_Remove i (wd_queue w)"
  have "dq_ok q" using ok dq_ok_Remove by (simp add: q_def wd_ok_def)
  moreover have "\<not> dq_Empty q \<Longrightarrow> \<not> dq_Empty (wd_queue w)"
    by (auto simp: q_def dq_Remove_def dq_Empty_def)
  ultimately show ?thesis
    using ok same_required[of "dq_ClearProgress q" q]
    by (auto simp: wd_Remove_def q_def[symmetric] wd_RemoveHooksIfUnused_def wd_ok_def)
qed

lemma wd_ok_OnJoinMessage:
  assumes ok: "wd_ok w" and hook: "wd_joinMessageHook w"
  shows "wd_ok (snd (wd_OnJoinMessage now steamId slot message w))"
proof -
  obtain d q where decide: "dq_DecideJoinMessage steamId (sm_changelevel message) (sm_addons message) now
      MaxDownloadAttempts (wd_queue w) = (d, q)" by fastforce
  then have "dq_required q = dq_required (wd_queue w)" by (metis required_Decide snd_conv)
  note same = same_required[OF this]
  show ?thesis
    using ok hook same decide by (cases "ad_Action d") (auto simp: wd_OnJoinMessage_def Let_def wd_ok_def)
qed

lemma wd_step_ok: "wd_step w w' \<Longrightarrow> wd_ok w \<Longrightarrow> wd_ok w'"
proof (induction rule: wd_step.induct)
  case (step_Connected w now steamId)
  then show ?case
    using same_required[of "dq_ClientReconnected steamId now DownloadTimeoutSeconds (wd_queue w)" "wd_queue w"]
    by (auto simp: wd_OnClientConnected_def wd_ok_def)
next
  case (step_Disconnected w now steamId)
  then show ?case
    using same_required[of "dq_ClientLeft steamId now ForgetAfterSeconds (wd_queue w)" "wd_queue w"]
    by (auto simp: wd_OnClientDisconnected_def wd_ok_def)
next
  case (step_AddToReply w steamId listed)
  then show ?case by (auto simp: wd_AddToReply_def wd_ok_def Let_def split: option.split prod.split)
next
  case (step_Restore w listed)
  then show ?case by (auto simp: wd_RestoreReply_def wd_ok_def split: option.split)
qed (auto simp: wd_ok_Add wd_ok_Remove wd_ok_OnJoinMessage, auto simp: wd_OnFrame_def wd_ok_def)

lemma wd_ok_init: "wd_ok wd_init"
  by (simp add: wd_ok_def wd_init_def dq_ok_def dq_init_def dq_Required_def dq_Empty_def)

lemma wd_reachable_ok: "wd_step\<^sup>*\<^sup>* wd_init w \<Longrightarrow> wd_ok w"
  by (induction rule: rtranclp_induct) (auto simp: wd_ok_init wd_step_ok)

section \<open>Properties\<close>

text \<open>
  in every state the service reaches, the two hooks are installed exactly while some addon is
  required; once none is, no kick, no reply entry and no client progress is left; and the reply that
  was extended for one client is restored to what the server had, byte for byte.
\<close>

theorem WorkshopDownloads_hooks:
  assumes "wd_step\<^sup>*\<^sup>* wd_init w" and "\<forall>i \<in> set (dq_Required (wd_queue w)). i \<le> uint64_max"
    and "wd_addedToReply w = []"
  shows "(wd_joinMessageHook w \<longleftrightarrow> dq_Required (wd_queue w) \<noteq> []) \<and>
    wd_connectionReplyHook w = wd_joinMessageHook w \<and>
    (dq_Required (wd_queue w) = [] \<longrightarrow> wd_kicks w = [] \<and> dq_clients (wd_queue w) = Map.empty) \<and>
    fst (wd_RestoreReply (fst (wd_AddToReply steamId listed w)) (snd (wd_AddToReply steamId listed w))) = listed"
proof -
  have ok: "wd_ok w" by (rule wd_reachable_ok[OF assms(1)])
  have "set (dq_ClientMountList (wd_queue w) steamId) \<subseteq> set (dq_Required (wd_queue w))"
    by (auto simp: dq_ClientMountList_def split: option.splits)
  then have "\<forall>i \<in> set (dq_ClientMountList (wd_queue w) steamId). i \<le> uint64_max" using assms(2) by blast
  note restored = addon_list_restored[OF this]
  have "fst (wd_RestoreReply (fst (wd_AddToReply steamId listed w)) (snd (wd_AddToReply steamId listed w))) = listed"
  proof (cases listed)
    case (Some field)
    obtain appended field' where "AppendToAddonList field (dq_ClientMountList (wd_queue w) steamId) = (appended, field')"
      by fastforce
    with Some restored[of field] assms(3) show ?thesis
      by (simp add: wd_AddToReply_def wd_RestoreReply_def Let_def)
  qed (simp add: wd_AddToReply_def wd_RestoreReply_def Let_def assms(3))
  then show ?thesis using ok by (auto simp: wd_ok_def dq_Empty_def dq_Required_def)
qed

definition working_env :: install_env where
  "working_env = \<lparr>ie_dedicated = True, ie_offsets = True, ie_join = Inr (), ie_reply = Inr ()\<rparr>"

definition example_service :: WorkshopDownloads where
  "example_service = snd (wd_OnJoinMessage 0 76561197960265729 4 \<lparr>sm_changelevel = False, sm_addons = []\<rparr>
     (snd (wd_Add working_env 12 wd_init)))"

theorem WorkshopDownloads_hooks_witness:
  "wd_step\<^sup>*\<^sup>* wd_init example_service \<and> wd_joinMessageHook example_service \<and>
   dq_Required (wd_queue example_service) = [12] \<and>
   fst (wd_RestoreReply (fst (wd_AddToReply 76561197960265729 (Some ''7'') example_service))
     (snd (wd_AddToReply 76561197960265729 (Some ''7'') example_service))) = Some ''7''"
proof -
  have add: "wd_joinMessageHook (snd (wd_Add working_env 12 wd_init))"
    by (simp add: wd_Add_def wd_Install_def working_env_def wd_init_def dq_Add_def dq_init_def)
  have "wd_step\<^sup>*\<^sup>* wd_init (snd (wd_Add working_env 12 wd_init))"
    using step_Add by blast
  then have reach: "wd_step\<^sup>*\<^sup>* wd_init example_service"
    unfolding example_service_def using step_Join[OF add] by (rule rtranclp.rtrancl_into_rtrancl)
  have req: "dq_Required (wd_queue example_service) = [12]" "wd_addedToReply example_service = []"
    by (simp_all add: example_service_def wd_OnJoinMessage_def IsValid_def SteamId64Base_def wd_Add_def wd_Install_def
        working_env_def wd_init_def dq_Add_def dq_init_def dq_DecideJoinMessage_def dq_NextToSend_def dq_MissingFor_def
        dq_FindClient_def dq_Required_def client_at_def new_client_def MaxDownloadAttempts_def Let_def)
  then have "\<forall>i \<in> set (dq_Required (wd_queue example_service)). i \<le> uint64_max" by (simp add: uint64_max_def)
  from WorkshopDownloads_hooks[OF reach this req(2)] reach req(1) show ?thesis by (metis list.distinct(1))
qed

end
