(* ===== verification/Worklist.thy ===== *)
theory Worklist
  imports Prelude
begin

text \<open>
  The contract of the worklist loops of the host (dependency refusal, dependents of a plugin):
  a loop that takes the last item off a list, marks what depends on it and puts what was newly
  marked back. Inside the locale: such a loop stops and marks exactly what the items reach.
\<close>

locale worklist =
  fixes marks :: "'s \<Rightarrow> 'n set"
    and visit :: "'n \<Rightarrow> 's \<times> 'n list \<Rightarrow> 's \<times> 'n list"
    and run :: "'s \<Rightarrow> 'n list \<Rightarrow> 's"
    and dependents :: "'n \<Rightarrow> 'n set"
    and universe :: "'n set"
  assumes run_Nil: "run s [] = s"
    and run_snoc: "run s (w @ [g]) = run (fst (visit g (s, w))) (snd (visit g (s, w)))"
    and visit_marks: "marks (fst (visit g (s, w))) = marks s \<union> dependents g"
    and visit_work: "set (snd (visit g (s, w))) = set w \<union> (dependents g - marks s)"
    and visit_count: "card (universe - marks (fst (visit g (s, w)))) + length (snd (visit g (s, w)))
                      \<le> card (universe - marks s) + length w"
begin

definition edges :: "('n \<times> 'n) set" where
  "edges = {(g, n). n \<in> dependents g}"

lemma run_closed:
  assumes "\<And>x. x \<in> marks s \<Longrightarrow> x \<notin> set w \<Longrightarrow> dependents x \<subseteq> marks s"
  shows "marks s \<subseteq> marks (run s w) \<and>
         (\<forall>x \<in> marks (run s w) \<union> set w. dependents x \<subseteq> marks (run s w)) \<and>
         marks (run s w) \<subseteq> marks s \<union> edges\<^sup>+ `` set w"
  using assms
proof (induction "card (universe - marks s) + length w" arbitrary: s w rule: less_induct)
  case less
  show ?case
  proof (cases w rule: rev_cases)
    case Nil
    with less.prems show ?thesis by (auto simp: run_Nil)
  next
    case (snoc w0 g)
    define s' w' where "s' = fst (visit g (s, w0))" and "w' = snd (visit g (s, w0))"
    note new = visit_marks[of g s w0, folded s'_def] visit_work[of g s w0, folded w'_def]
    have run: "run s w = run s' w'" by (simp add: snoc run_snoc s'_def w'_def)
    have "card (universe - marks s') + length w' < card (universe - marks s) + length w"
      using visit_count[of g s w0] by (simp add: snoc s'_def w'_def)
    moreover have "dependents x \<subseteq> marks s'" if "x \<in> marks s'" "x \<notin> set w'" for x
      using that less.prems[of x] by (auto simp: new snoc)
    ultimately have IH: "marks s' \<subseteq> marks (run s' w')"
      "\<forall>x \<in> marks (run s' w') \<union> set w'. dependents x \<subseteq> marks (run s' w')"
      "marks (run s' w') \<subseteq> marks s' \<union> edges\<^sup>+ `` set w'"
      using less.hyps[of s' w'] by blast+
    have "marks s' \<union> edges\<^sup>+ `` set w' \<subseteq> marks s \<union> edges\<^sup>+ `` set w"
      by (auto simp: new snoc edges_def intro: trancl_into_trancl2)
    moreover have "marks s \<subseteq> marks (run s' w')" using IH(1) new(1) by blast
    moreover have "\<forall>x \<in> marks (run s' w') \<union> set w. dependents x \<subseteq> marks (run s' w')"
      using IH(1,2) new by (auto simp: snoc)
    ultimately show ?thesis using IH(3) unfolding run by blast
  qed
qed

theorem run_marks:
  assumes "\<And>x. x \<in> marks s \<Longrightarrow> x \<notin> set w \<Longrightarrow> dependents x \<subseteq> marks s"
  shows "marks (run s w) = marks s \<union> edges\<^sup>+ `` set w"
proof
  have closed: "\<forall>x \<in> marks (run s w) \<union> set w. dependents x \<subseteq> marks (run s w)"
    and keep: "marks s \<subseteq> marks (run s w)"
    using run_closed[OF assms] by blast+
  have "n \<in> marks (run s w)" if "(g, n) \<in> edges\<^sup>+" "g \<in> set w" for g n
    using that by (induction rule: trancl_induct) (use closed in \<open>auto simp: edges_def\<close>)
  with keep show "marks s \<union> edges\<^sup>+ `` set w \<subseteq> marks (run s w)" by auto
qed (use run_closed[OF assms] in blast)

end

end
