(* ===== verification/PluginDependencies.thy ===== *)
theory PluginDependencies
  imports Result Worklist
begin

text \<open>
  Which installed plugins the host loads, and what a loaded plugin drags with it on a reload.
  Sources: \<^verbatim>\<open>src/Host/Plugins/PluginDependencies.{hpp,cpp}\<close> and the manifest record of
  \<^verbatim>\<open>src/Host/Plugins/InstalledPlugins.hpp\<close>. Both loops of the source are worklists; the locale
  \<open>worklist\<close> proves once that such a loop computes the reachable set, and is interpreted on each.
\<close>

section \<open>Data\<close>

record PluginManifest =
  mf_Name :: string
  mf_Version :: string
  mf_LogTag :: string
  mf_Description :: string
  mf_Author :: string
  mf_Website :: string
  mf_License :: string
  mf_LogLevel :: LogLevel
  mf_Dependencies :: "string list"
  mf_OptionalDependencies :: "string list"

record RefusedPlugin =
  rp_Name :: string
  rp_Reason :: Error

record LoadList =
  ll_ToLoad :: "string list"
  ll_Refused :: "RefusedPlugin list"

type_synonym plugins_by_name = "(string, PluginManifest) omap"
type_synonym refusals_by_name = "(string, Error) omap"

section \<open>Operations\<close>

text \<open>The lambda \<^verbatim>\<open>refuse\<close>: a name already refused keeps its reason and is not spread again.\<close>

definition refuse ::
  "string \<Rightarrow> Error \<Rightarrow> refusals_by_name \<times> string list \<Rightarrow> refusals_by_name \<times> string list" where
  "refuse name reason st = (case st of (refused, spreading) \<Rightarrow>
     if omap_contains refused name then (refused, spreading)
     else (omap_emplace name reason refused, spreading @ [name]))"

definition not_installed_error :: "string \<Rightarrow> Error" where
  "not_installed_error dep =
     Error_NotFound (''requires '' @ quoted dep @ '', which is not installed'')"

definition host_refused_error :: "string \<Rightarrow> Error" where
  "host_refused_error dep =
     Error_NotReady (''requires '' @ quoted dep @ '', which the host refused'')"

text \<open>The first loop: the first dependency that is not installed refuses the plugin.\<close>

fun refuse_missing ::
  "plugins_by_name \<Rightarrow> plugins_by_name \<Rightarrow> refusals_by_name \<times> string list
     \<Rightarrow> refusals_by_name \<times> string list" where
  "refuse_missing plugins [] st = st"
| "refuse_missing plugins ((name, manifest) # rest) st =
     refuse_missing plugins rest
       (case List.find (\<lambda>dep. \<not> omap_contains plugins dep) (mf_Dependencies manifest) of
          None \<Rightarrow> st
        | Some dep \<Rightarrow> refuse name (not_installed_error dep) st)"

text \<open>The body of the second loop: everything that requires the refused \<open>gone\<close>.\<close>

fun refuse_dependents ::
  "string \<Rightarrow> plugins_by_name \<Rightarrow> refusals_by_name \<times> string list
     \<Rightarrow> refusals_by_name \<times> string list" where
  "refuse_dependents gone [] st = st"
| "refuse_dependents gone ((name, manifest) # rest) st =
     refuse_dependents gone rest
       (if \<not> omap_contains (fst st) name \<and> gone \<in> set (mf_Dependencies manifest)
        then refuse name (host_refused_error gone) st else st)"

lemma card_insert_diff_count:
  "finite A \<Longrightarrow> x \<in> A \<Longrightarrow> x \<notin> B \<Longrightarrow> Suc (card (A - insert x B)) = card (A - B)"
  by (metis Diff_iff Diff_insert card_Suc_Diff1 finite_Diff)

lemma refuse_dependents_count:
  "card (fst ` set plugins - fst ` set (fst (refuse_dependents gone ps st)))
     + length (snd (refuse_dependents gone ps st))
   \<le> card (fst ` set plugins - fst ` set (fst st)) + length (snd st)"
  if "set ps \<subseteq> set plugins"
  using that
proof (induction gone ps st rule: refuse_dependents.induct)
  case (2 gone name manifest rest st)
  obtain refused spreading where st: "st = (refused, spreading)" by (cases st)
  have "name \<in> fst ` set plugins" using 2(2) by force
  then have "card (fst ` set plugins - fst ` set (fst (if \<not> omap_contains (fst st) name \<and>
        gone \<in> set (mf_Dependencies manifest) then refuse name (host_refused_error gone) st else st)))
      + length (snd (if \<not> omap_contains (fst st) name \<and>
        gone \<in> set (mf_Dependencies manifest) then refuse name (host_refused_error gone) st else st))
      \<le> card (fst ` set plugins - fst ` set (fst st)) + length (snd st)"
    using card_insert_diff_count[of "fst ` set plugins" name "fst ` set refused"]
    by (auto simp: st refuse_def omap_contains_iff)
  with 2 show ?case by fastforce
qed simp

text \<open>The second loop: \<open>gone\<close> is taken from the back of \<open>spreading\<close> until nothing is left.\<close>

function spread_refusals ::
  "plugins_by_name \<Rightarrow> refusals_by_name \<Rightarrow> string list \<Rightarrow> refusals_by_name" where
  "spread_refusals plugins refused spreading =
     (if spreading = [] then refused
      else case refuse_dependents (last spreading) plugins (refused, butlast spreading) of
             (refused', spreading') \<Rightarrow> spread_refusals plugins refused' spreading')"
  by pat_completeness auto
termination
proof (relation "measure (\<lambda>(plugins, refused, spreading).
    card (fst ` set plugins - fst ` set refused) + length spreading)", goal_cases)
  case (2 plugins refused spreading)
  then show ?case
    using refuse_dependents_count[of plugins plugins "last spreading" "(refused, butlast spreading)"]
    by (cases spreading rule: rev_cases) (simp_all add: case_prod_beta)
qed simp

declare spread_refusals.simps [simp del]

definition RefuseUnsatisfied :: "plugins_by_name \<Rightarrow> refusals_by_name \<Rightarrow> refusals_by_name" where
  "RefuseUnsatisfied plugins refused =
     (case refuse_missing plugins plugins (refused, map fst refused) of
        (refused', spreading) \<Rightarrow> spread_refusals plugins refused' spreading)"

definition installed_twice_error :: Error where
  "installed_twice_error =
     Error_Invalid ''installed more than once; each plugin directory needs its own plugin name''"

text \<open>The loop of \<^verbatim>\<open>Resolve\<close> that indexes the manifests: the first of a name wins, a second refuses it.\<close>

fun index_manifests ::
  "PluginManifest list \<Rightarrow> plugins_by_name \<times> refusals_by_name \<Rightarrow> plugins_by_name \<times> refusals_by_name"
where
  "index_manifests [] st = st"
| "index_manifests (manifest # rest) (plugins, refused) =
     index_manifests rest
       (if omap_contains plugins (mf_Name manifest)
        then (plugins, omap_emplace (mf_Name manifest) installed_twice_error refused)
        else (omap_emplace (mf_Name manifest) manifest plugins, refused))"

definition Resolve :: "PluginManifest list \<Rightarrow> LoadList" where
  "Resolve installed =
     (let (plugins, refused0) = index_manifests installed ([], []);
          refused = RefuseUnsatisfied plugins refused0
      in \<lparr>ll_ToLoad = map fst (filter (\<lambda>(name, _). \<not> omap_contains refused name) plugins),
          ll_Refused = map (\<lambda>(name, reason). \<lparr>rp_Name = name, rp_Reason = reason\<rparr>) refused\<rparr>)"

text \<open>
  The loop of \<^verbatim>\<open>RequiredDependents\<close>: a loaded plugin other than \<open>plugin\<close> that requires \<open>needed\<close>
  joins the set once.
\<close>

type_synonym string_set = "(string, unit) omap"

fun add_dependents ::
  "string \<Rightarrow> string \<Rightarrow> PluginManifest list \<Rightarrow> string_set \<times> string list \<Rightarrow> string_set \<times> string list" where
  "add_dependents plugin needed [] st = st"
| "add_dependents plugin needed (manifest # rest) (dependents, spreading) =
     add_dependents plugin needed rest
       (if mf_Name manifest \<noteq> plugin \<and> \<not> omap_contains dependents (mf_Name manifest) \<and>
           needed \<in> set (mf_Dependencies manifest)
        then (omap_emplace (mf_Name manifest) () dependents, spreading @ [mf_Name manifest])
        else (dependents, spreading))"

lemma add_dependents_count:
  "card (mf_Name ` set loaded - fst ` set (fst (add_dependents plugin needed ms st)))
     + length (snd (add_dependents plugin needed ms st))
   \<le> card (mf_Name ` set loaded - fst ` set (fst st)) + length (snd st)"
  if "set ms \<subseteq> set loaded"
  using that
proof (induction plugin needed ms st rule: add_dependents.induct)
  case (2 plugin needed manifest rest dependents spreading)
  let ?new = "mf_Name manifest \<noteq> plugin \<and> \<not> omap_contains dependents (mf_Name manifest) \<and>
    needed \<in> set (mf_Dependencies manifest)"
  show ?case
  proof (cases ?new)
    case True
    then have "Suc (card (mf_Name ` set loaded - insert (mf_Name manifest) (fst ` set dependents))) =
        card (mf_Name ` set loaded - fst ` set dependents)"
      using 2(2) by (intro card_insert_diff_count) (auto simp: omap_contains_iff)
    with True 2 show ?thesis by simp
  next
    case False
    with 2 show ?thesis by (simp only: add_dependents.simps if_False) simp
  qed
qed simp

function collect_dependents ::
  "string \<Rightarrow> PluginManifest list \<Rightarrow> string_set \<Rightarrow> string list \<Rightarrow> string_set" where
  "collect_dependents plugin loaded dependents spreading =
     (if spreading = [] then dependents
      else case add_dependents plugin (last spreading) loaded (dependents, butlast spreading) of
             (dependents', spreading') \<Rightarrow> collect_dependents plugin loaded dependents' spreading')"
  by pat_completeness auto
termination
proof (relation "measure (\<lambda>(plugin, loaded, dependents, spreading).
    card (mf_Name ` set loaded - fst ` set dependents) + length spreading)", goal_cases)
  case (2 plugin loaded dependents spreading)
  then show ?case
    using add_dependents_count[of loaded loaded plugin "last spreading" "(dependents, butlast spreading)"]
    by (cases spreading rule: rev_cases) (simp_all add: case_prod_beta)
qed simp

declare collect_dependents.simps [simp del]

definition RequiredDependents :: "string \<Rightarrow> PluginManifest list \<Rightarrow> string list" where
  "RequiredDependents plugin loaded = map fst (collect_dependents plugin loaded [] [plugin])"

section \<open>The loops compute reachable sets\<close>

definition direct_dependents :: "plugins_by_name \<Rightarrow> string \<Rightarrow> string set" where
  "direct_dependents plugins gone =
     {name. \<exists>manifest. (name, manifest) \<in> set plugins \<and> gone \<in> set (mf_Dependencies manifest)}"

lemma refuse_keys [simp]: "fst ` set (fst (refuse name reason st)) = insert name (fst ` set (fst st))"
  by (auto simp: refuse_def omap_contains_iff split: prod.splits)

lemma refuse_ok [simp]: "omap_ok (fst st) \<Longrightarrow> omap_ok (fst (refuse name reason st))"
  by (auto simp: refuse_def split: prod.splits)

lemma refuse_work:
  "set (snd (refuse name reason st)) =
     set (snd st) \<union> (if name \<in> fst ` set (fst st) then {} else {name})"
  by (auto simp: refuse_def omap_contains_iff split: prod.splits)

lemma refuse_dependents_keys:
  "fst ` set (fst (refuse_dependents gone ps st)) = fst ` set (fst st) \<union> direct_dependents ps gone"
  by (induction gone ps st rule: refuse_dependents.induct)
    (auto simp: direct_dependents_def omap_contains_iff)

lemma refuse_dependents_work:
  "set (snd (refuse_dependents gone ps st)) =
     set (snd st) \<union> (direct_dependents ps gone - fst ` set (fst st))"
  by (induction gone ps st rule: refuse_dependents.induct)
    (auto simp: direct_dependents_def omap_contains_iff refuse_work split: if_splits)

lemma refuse_dependents_ok: "omap_ok (fst st) \<Longrightarrow> omap_ok (fst (refuse_dependents gone ps st))"
  by (induction gone ps st rule: refuse_dependents.induct) simp_all

lemma spread_refusals_Nil: "spread_refusals plugins refused [] = refused"
  by (simp add: spread_refusals.simps)

lemma spread_refusals_snoc:
  "spread_refusals plugins refused (w @ [g]) =
     spread_refusals plugins (fst (refuse_dependents g plugins (refused, w)))
       (snd (refuse_dependents g plugins (refused, w)))"
  by (subst spread_refusals.simps) (simp add: case_prod_beta)

interpretation spread: worklist "\<lambda>refused. fst ` set refused" "\<lambda>g. refuse_dependents g plugins"
  "spread_refusals plugins" "direct_dependents plugins" "fst ` set plugins" for plugins
  using refuse_dependents_count[OF subset_refl, where st = "(s, w)" for s w]
  by unfold_locales
    (simp_all add: spread_refusals_Nil spread_refusals_snoc refuse_dependents_keys refuse_dependents_work)

lemma spread_refusals_ok: "omap_ok refused \<Longrightarrow> omap_ok (spread_refusals plugins refused w)"
proof (induction plugins refused w rule: spread_refusals.induct)
  case (1 plugins refused w)
  then show ?case
    using refuse_dependents_ok[of "(refused, butlast w)" "last w" plugins]
    by (subst spread_refusals.simps) (auto split: prod.splits)
qed

definition loaded_dependents :: "string \<Rightarrow> PluginManifest list \<Rightarrow> string \<Rightarrow> string set" where
  "loaded_dependents plugin loaded needed =
     {mf_Name m |m. m \<in> set loaded \<and> mf_Name m \<noteq> plugin \<and> needed \<in> set (mf_Dependencies m)}"

lemma add_dependents_keys:
  "fst ` set (fst (add_dependents plugin needed ms st)) =
     fst ` set (fst st) \<union> loaded_dependents plugin ms needed"
  by (induction plugin needed ms st rule: add_dependents.induct)
    (auto simp: loaded_dependents_def omap_contains_iff)

lemma add_dependents_work:
  "set (snd (add_dependents plugin needed ms st)) =
     set (snd st) \<union> (loaded_dependents plugin ms needed - fst ` set (fst st))"
  by (induction plugin needed ms st rule: add_dependents.induct)
    (auto simp: loaded_dependents_def omap_contains_iff split: if_splits)

lemma add_dependents_ok: "omap_ok (fst st) \<Longrightarrow> omap_ok (fst (add_dependents plugin needed ms st))"
  by (induction plugin needed ms st rule: add_dependents.induct) simp_all

lemma collect_dependents_Nil: "collect_dependents plugin loaded ds [] = ds"
  by (simp add: collect_dependents.simps)

lemma collect_dependents_snoc:
  "collect_dependents plugin loaded ds (w @ [g]) =
     collect_dependents plugin loaded (fst (add_dependents plugin g loaded (ds, w)))
       (snd (add_dependents plugin g loaded (ds, w)))"
  by (subst collect_dependents.simps) (simp add: case_prod_beta)

interpretation collect: worklist "\<lambda>ds. fst ` set ds" "\<lambda>g. add_dependents plugin g loaded"
  "collect_dependents plugin loaded" "loaded_dependents plugin loaded" "mf_Name ` set loaded"
  for plugin loaded
  using add_dependents_count[OF subset_refl, where st = "(s, w)" for s w]
  by unfold_locales
    (simp_all add: collect_dependents_Nil collect_dependents_snoc add_dependents_keys add_dependents_work)

lemma collect_dependents_ok: "omap_ok ds \<Longrightarrow> omap_ok (collect_dependents plugin loaded ds w)"
proof (induction plugin loaded ds w rule: collect_dependents.induct)
  case (1 plugin loaded ds w)
  then show ?case
    using add_dependents_ok[of "(ds, butlast w)" plugin "last w" loaded]
    by (subst collect_dependents.simps) (auto split: prod.splits)
qed

section \<open>What must be refused\<close>

text \<open>
  The abstract verdict, stated on the manifests alone: a name installed twice, a plugin with a
  required dependency that is not installed, and whatever requires a refused plugin.
\<close>

inductive must_refuse :: "PluginManifest list \<Rightarrow> string \<Rightarrow> bool" for installed where
  twice: "2 \<le> count_list (map mf_Name installed) n \<Longrightarrow> must_refuse installed n"
| missing: "m \<in> set installed \<Longrightarrow> d \<in> set (mf_Dependencies m) \<Longrightarrow> d \<notin> mf_Name ` set installed
     \<Longrightarrow> must_refuse installed (mf_Name m)"
| depends: "m \<in> set installed \<Longrightarrow> d \<in> set (mf_Dependencies m) \<Longrightarrow> must_refuse installed d
     \<Longrightarrow> must_refuse installed (mf_Name m)"

lemma index_manifests_ok:
  "omap_ok (fst st) \<Longrightarrow> omap_ok (snd st) \<Longrightarrow>
     omap_ok (fst (index_manifests ms st)) \<and> omap_ok (snd (index_manifests ms st))"
  by (induction ms st rule: index_manifests.induct) auto

lemma index_manifests_keys:
  "fst ` set (fst (index_manifests ms st)) = fst ` set (fst st) \<union> mf_Name ` set ms"
  by (induction ms st rule: index_manifests.induct) (auto simp: omap_contains_iff)

lemma count_list_ge_1: "1 \<le> count_list xs n \<longleftrightarrow> n \<in> set xs"
  by (metis One_nat_def Suc_le_eq count_list_0_iff not_gr_zero)

lemma index_manifests_refused:
  "fst ` set (snd (index_manifests ms st)) = fst ` set (snd st) \<union>
     {n. n \<in> mf_Name ` set ms \<and> n \<in> fst ` set (fst st) \<or> 2 \<le> count_list (map mf_Name ms) n}"
proof (induction ms st rule: index_manifests.induct)
  case (2 m rest plugins refused)
  have two: "2 \<le> count_list (map mf_Name (m # rest)) n \<longleftrightarrow>
      n = mf_Name m \<and> n \<in> mf_Name ` set rest \<or> 2 \<le> count_list (map mf_Name rest) n" for n
    using count_list_ge_1[of "map mf_Name rest" n] by (cases "n = mf_Name m") auto
  show ?case
  proof (cases "omap_contains plugins (mf_Name m)")
    case True
    with 2 have "fst ` set (snd (index_manifests (m # rest) (plugins, refused))) =
        insert (mf_Name m) (fst ` set refused) \<union> {n. n \<in> mf_Name ` set rest \<and>
          n \<in> fst ` set plugins \<or> 2 \<le> count_list (map mf_Name rest) n}" by simp
    with True two show ?thesis by (auto simp: omap_contains_iff simp del: count_list.simps)
  next
    case False
    with 2 have "fst ` set (snd (index_manifests (m # rest) (plugins, refused))) =
        fst ` set refused \<union> {n. n \<in> mf_Name ` set rest \<and>
          n \<in> insert (mf_Name m) (fst ` set plugins) \<or> 2 \<le> count_list (map mf_Name rest) n}" by simp
    with False two show ?thesis
      unfolding omap_contains_iff by (simp del: count_list.simps) blast
  qed
qed simp

lemma set_omap_assign_subset: "set (omap_assign k v m) \<subseteq> insert (k, v) (set m)"
  by (induction k v m rule: omap_assign.induct) auto

lemma set_omap_emplace_subset: "set (omap_emplace k v m) \<subseteq> insert (k, v) (set m)"
  using set_omap_assign_subset[of k v m] by (auto simp: omap_emplace_def)

lemma index_manifests_manifest:
  "(n, m) \<in> set (fst (index_manifests ms st)) \<Longrightarrow>
     (n, m) \<in> set (fst st) \<or> m \<in> set ms \<and> n = mf_Name m"
proof (induction ms st rule: index_manifests.induct)
  case (2 a rest plugins refused)
  then show ?case
    using set_omap_emplace_subset[of "mf_Name a" a plugins] by (auto split: if_splits)
qed simp

lemma index_manifests_unique:
  assumes "m \<in> set ms" "count_list (map mf_Name ms) (mf_Name m) < 2"
  shows "(mf_Name m, m) \<in> set (fst (index_manifests ms ([], [])))"
proof -
  have "mf_Name m \<in> fst ` set (fst (index_manifests ms ([], [])))"
    using assms(1) by (simp add: index_manifests_keys)
  then obtain m' where m': "(mf_Name m, m') \<in> set (fst (index_manifests ms ([], [])))" by auto
  then have "m' \<in> set ms" "mf_Name m = mf_Name m'"
    using index_manifests_manifest[of "mf_Name m" m' ms "([], [])"] by simp_all
  moreover have "length (filter (\<lambda>x. mf_Name m = mf_Name x) ms) < 2"
    using assms(2) by (simp only: count_list_key)
  ultimately have "m' = m"
    using assms(1) by (intro unique_by_filter[of "\<lambda>x. mf_Name m = mf_Name x" ms]) simp_all
  with m' show ?thesis by simp
qed

lemma refuse_missing_keys:
  "fst ` set (fst (refuse_missing plugins ps st)) = fst ` set (fst st) \<union>
     {n. \<exists>m. (n, m) \<in> set ps \<and> (\<exists>d \<in> set (mf_Dependencies m). d \<notin> fst ` set plugins)}"
proof (induction plugins ps st rule: refuse_missing.induct)
  case (2 plugins name manifest rest st)
  show ?case
  proof (cases "List.find (\<lambda>dep. \<not> omap_contains plugins dep) (mf_Dependencies manifest)")
    case None
    then have "\<forall>d\<in>set (mf_Dependencies manifest). d \<in> fst ` set plugins"
      by (simp add: find_None_iff_all omap_contains_iff)
    with None 2 show ?thesis by auto
  next
    case (Some dep)
    then have "dep \<in> set (mf_Dependencies manifest)" "dep \<notin> fst ` set plugins"
      using find_SomeD[OF Some] by (simp_all add: omap_contains_iff)
    with Some 2 show ?thesis by auto
  qed
qed simp

lemma refuse_work_keys:
  "set (snd st) = fst ` set (fst st) \<Longrightarrow>
     set (snd (refuse name reason st)) = fst ` set (fst (refuse name reason st))"
  by (simp add: refuse_work insert_absorb)

lemma refuse_missing_work:
  "set (snd st) = fst ` set (fst st) \<Longrightarrow>
     set (snd (refuse_missing plugins ps st)) = fst ` set (fst (refuse_missing plugins ps st))"
proof (induction plugins ps st rule: refuse_missing.induct)
  case (2 plugins name manifest rest st)
  then show ?case
    using refuse_work_keys[of st] by (simp split: option.split)
qed simp

lemma refuse_missing_ok: "omap_ok (fst st) \<Longrightarrow> omap_ok (fst (refuse_missing plugins ps st))"
  by (induction plugins ps st rule: refuse_missing.induct) (auto split: option.splits)

lemma RefuseUnsatisfied_ok: "omap_ok refused \<Longrightarrow> omap_ok (RefuseUnsatisfied plugins refused)"
  using refuse_missing_ok[of "(refused, map fst refused)" plugins plugins]
  by (auto simp: RefuseUnsatisfied_def spread_refusals_ok split: prod.splits)

lemma RefuseUnsatisfied_keys:
  fixes plugins :: plugins_by_name and refused :: refusals_by_name
  defines "start \<equiv> fst ` set refused \<union>
     {n. \<exists>m. (n, m) \<in> set plugins \<and> (\<exists>d \<in> set (mf_Dependencies m). d \<notin> fst ` set plugins)}"
  shows "fst ` set (RefuseUnsatisfied plugins refused) = start \<union> (spread.edges plugins)\<^sup>+ `` start"
proof -
  define st where "st = refuse_missing plugins plugins (refused, map fst refused)"
  have keys: "fst ` set (fst st) = start"
    by (simp add: st_def start_def refuse_missing_keys)
  have work: "set (snd st) = start"
    using refuse_missing_work[of "(refused, map fst refused)" plugins plugins]
    by (simp add: keys[symmetric] st_def)
  have "fst ` set (spread_refusals plugins (fst st) (snd st)) =
      fst ` set (fst st) \<union> (spread.edges plugins)\<^sup>+ `` set (snd st)"
    by (rule spread.run_marks) (simp add: keys work)
  then show ?thesis
    by (simp add: RefuseUnsatisfied_def keys work case_prod_beta flip: st_def)
qed

lemma trancl_Image_step: "d \<in> A \<union> r\<^sup>+ `` A \<Longrightarrow> (d, n) \<in> r \<Longrightarrow> n \<in> r\<^sup>+ `` A"
  by (auto intro: trancl_into_trancl)

lemma Resolve_refused_iff:
  defines "idx \<equiv> \<lambda>installed. index_manifests installed ([], [])"
  shows "n \<in> fst ` set (RefuseUnsatisfied (fst (idx installed)) (snd (idx installed)))
    \<longleftrightarrow> must_refuse installed n"
proof -
  let ?plugins = "fst (idx installed)"
  define start where "start = fst ` set (snd (idx installed)) \<union>
     {n. \<exists>m. (n, m) \<in> set ?plugins \<and> (\<exists>d \<in> set (mf_Dependencies m). d \<notin> fst ` set ?plugins)}"
  let ?R = "start \<union> (spread.edges ?plugins)\<^sup>+ `` start"
  have names: "fst ` set ?plugins = mf_Name ` set installed"
    by (simp add: idx_def index_manifests_keys)
  have dup: "fst ` set (snd (idx installed)) = {n. 2 \<le> count_list (map mf_Name installed) n}"
    by (simp add: idx_def index_manifests_refused)
  have man: "m \<in> set installed \<and> n = mf_Name m" if "(n, m) \<in> set ?plugins" for n m
    using that index_manifests_manifest[of n m installed "([], [])"] by (simp add: idx_def)
  have uniq: "(mf_Name m, m) \<in> set ?plugins \<or> mf_Name m \<in> start" if "m \<in> set installed" for m
    using that index_manifests_unique[of m installed] dup by (auto simp: idx_def start_def)
  have start_refuse: "must_refuse installed n" if "n \<in> start" for n
    using that names man by (auto simp: start_def dup intro: must_refuse.intros)
  have "must_refuse installed n" if "(g, n) \<in> (spread.edges ?plugins)\<^sup>+" "must_refuse installed g" for g n
    using that by (induction rule: trancl_induct)
      (auto simp: spread.edges_def direct_dependents_def dest!: man intro: must_refuse.depends)
  with start_refuse have "n \<in> ?R \<Longrightarrow> must_refuse installed n" by auto
  moreover have "n \<in> ?R" if "must_refuse installed n"
    using that
  proof (induction rule: must_refuse.induct)
    case (twice n)
    then show ?case by (auto simp: start_def dup)
  next
    case (missing m d)
    with names uniq[OF missing(1)] show ?case by (auto simp: start_def)
  next
    case (depends m d)
    have "n \<in> ?R" if "(d, n) \<in> spread.edges ?plugins" for n
      using trancl_Image_step[OF depends.IH that] by blast
    moreover have "(d, mf_Name m) \<in> spread.edges ?plugins" if "(mf_Name m, m) \<in> set ?plugins"
      using that depends(2) by (auto simp: spread.edges_def direct_dependents_def)
    ultimately show ?case using uniq[OF depends(1)] by blast
  qed
  ultimately show ?thesis
    unfolding RefuseUnsatisfied_keys start_def[symmetric] by blast
qed

lemma sorted_fst_filter: "omap_ok m \<Longrightarrow> sorted (map fst (filter P m)) \<and> distinct (map fst (filter P m))"
  by (simp add: omap_ok_def strict_sorted_iff sorted_filter distinct_map_filter)

lemma Resolve_ok:
  defines "idx \<equiv> \<lambda>installed. index_manifests installed ([], [])"
  shows "omap_ok (fst (idx installed))"
    and "omap_ok (RefuseUnsatisfied (fst (idx installed)) (snd (idx installed)))"
  using index_manifests_ok[of "([], [])" installed] by (simp_all add: idx_def RefuseUnsatisfied_ok)

lemma Resolve_unfold:
  "ll_ToLoad (Resolve installed) =
     map fst (filter (\<lambda>(name, _). \<not> must_refuse installed name) (fst (index_manifests installed ([], []))))"
  "map rp_Name (ll_Refused (Resolve installed)) =
     map fst (RefuseUnsatisfied (fst (index_manifests installed ([], [])))
       (snd (index_manifests installed ([], []))))"
  by (auto simp: Resolve_def omap_contains_iff Resolve_refused_iff case_prod_beta)

lemma set_Resolve_ToLoad:
  "set (ll_ToLoad (Resolve installed)) = {n \<in> mf_Name ` set installed. \<not> must_refuse installed n}"
proof -
  have "fst ` {x \<in> A. \<not> must_refuse installed (fst x)} = {n \<in> fst ` A. \<not> must_refuse installed n}"
    for A :: "(string \<times> PluginManifest) set" by auto
  with index_manifests_keys[of installed "([], [])"] show ?thesis
    by (simp add: Resolve_unfold case_prod_beta)
qed

lemma set_Resolve_Refused:
  "set (map rp_Name (ll_Refused (Resolve installed))) = {n. must_refuse installed n}"
  by (simp only: Resolve_unfold set_map) (auto simp: Resolve_refused_iff simp flip: Resolve_refused_iff)

section \<open>Properties\<close>

text \<open>
  C1: \<^verbatim>\<open>PluginDependencies::Resolve\<close> refuses exactly the plugins that must be refused (installed
  twice, a missing required dependency, or a refused one, transitively), loads exactly the other
  installed plugins, and lists both groups alphabetically without repetition.
\<close>

theorem Resolve_verdict:
  "set (map rp_Name (ll_Refused (Resolve installed))) = {n. must_refuse installed n} \<and>
   set (ll_ToLoad (Resolve installed)) = {n \<in> mf_Name ` set installed. \<not> must_refuse installed n} \<and>
   sorted (map rp_Name (ll_Refused (Resolve installed))) \<and>
   distinct (map rp_Name (ll_Refused (Resolve installed))) \<and>
   sorted (ll_ToLoad (Resolve installed)) \<and> distinct (ll_ToLoad (Resolve installed))"
proof (intro conjI)
  show "sorted (map rp_Name (ll_Refused (Resolve installed)))"
    "distinct (map rp_Name (ll_Refused (Resolve installed)))"
    by (simp_all only: Resolve_unfold omap_ok_sorted omap_ok_distinct Resolve_ok)
  show "sorted (ll_ToLoad (Resolve installed))" "distinct (ll_ToLoad (Resolve installed))"
    using sorted_fst_filter[OF Resolve_ok(1)] by (simp_all only: Resolve_unfold)
qed (fact set_Resolve_Refused set_Resolve_ToLoad)+

text \<open>
  every required dependency of a plugin that \<^verbatim>\<open>Resolve\<close> lets load is itself let load, so the
  load list is closed under required dependencies.
\<close>

theorem Resolve_dependencies_load:
  assumes "m \<in> set installed" and "mf_Name m \<in> set (ll_ToLoad (Resolve installed))"
    and "d \<in> set (mf_Dependencies m)"
  shows "d \<in> set (ll_ToLoad (Resolve installed))"
  using assms by (auto simp: set_Resolve_ToLoad intro: must_refuse.intros)

definition example_manifest :: "string \<Rightarrow> string list \<Rightarrow> PluginManifest" where
  "example_manifest name deps =
     \<lparr>mf_Name = name, mf_Version = ''1.0.0'', mf_LogTag = name, mf_Description = [], mf_Author = [],
      mf_Website = [], mf_License = [], mf_LogLevel = Info, mf_Dependencies = deps,
      mf_OptionalDependencies = []\<rparr>"

definition example_installed :: "PluginManifest list" where
  "example_installed = [example_manifest ''anticheat'' [''admin''], example_manifest ''admin'' [],
     example_manifest ''reports'' [''missing'']]"

theorem Resolve_dependencies_load_witness:
  "''admin'' \<in> set (ll_ToLoad (Resolve example_installed))"
proof (rule Resolve_dependencies_load[of "example_manifest ''anticheat'' [''admin'']"])
  show "mf_Name (example_manifest ''anticheat'' [''admin'']) \<in> set (ll_ToLoad (Resolve example_installed))"
    by code_simp
qed (simp_all add: example_installed_def example_manifest_def)

text \<open>\<open>requires loaded\<close> relates a loaded plugin's name to each required dependency it declares.\<close>

definition requires :: "PluginManifest list \<Rightarrow> (string \<times> string) set" where
  "requires loaded = {(mf_Name m, d) |m d. m \<in> set loaded \<and> d \<in> set (mf_Dependencies m)}"

lemma collect_edges_requires:
  "(g, n) \<in> (collect.edges plugin loaded)\<^sup>+ \<Longrightarrow> n \<noteq> plugin \<and> (n, g) \<in> (requires loaded)\<^sup>+"
proof (induction rule: trancl_induct)
  case (base n)
  then show ?case by (auto simp: collect.edges_def loaded_dependents_def requires_def)
next
  case (step y n)
  then have "(n, y) \<in> requires loaded" "n \<noteq> plugin"
    by (auto simp: collect.edges_def loaded_dependents_def requires_def)
  with step.IH show ?case by (meson trancl_into_trancl2)
qed

lemma requires_collect_edges:
  "(n, plugin) \<in> (requires loaded)\<^sup>+ \<Longrightarrow> n \<noteq> plugin \<Longrightarrow> (plugin, n) \<in> (collect.edges plugin loaded)\<^sup>+"
proof (induction rule: converse_trancl_induct)
  case (base n)
  then have "(plugin, n) \<in> collect.edges plugin loaded"
    by (force simp: collect.edges_def loaded_dependents_def requires_def)
  then show ?case ..
next
  case (step n y)
  then have "(y, n) \<in> collect.edges plugin loaded"
    by (force simp: collect.edges_def loaded_dependents_def requires_def)
  with step.IH show ?case by (cases "y = plugin") (auto intro: trancl_into_trancl)
qed

lemma set_RequiredDependents:
  "set (RequiredDependents plugin loaded) = {n. n \<noteq> plugin \<and> (n, plugin) \<in> (requires loaded)\<^sup>+}"
proof -
  let ?ds = "collect_dependents plugin loaded [] [plugin]"
  have "fst ` set ?ds = fst ` set ([] :: string_set) \<union> (collect.edges plugin loaded)\<^sup>+ `` set [plugin]"
    by (rule collect.run_marks) simp
  then have "fst ` set ?ds = {n. n \<noteq> plugin \<and> (n, plugin) \<in> (requires loaded)\<^sup>+}"
    by (auto dest: collect_edges_requires intro: requires_collect_edges)
  then show ?thesis by (simp add: RequiredDependents_def)
qed

text \<open>
  \<^verbatim>\<open>RequiredDependents(plugin, loaded)\<close> is, alphabetically and without repetition, exactly the
  other plugins that require \<open>plugin\<close> directly or through a chain of required dependencies of the
  loaded manifests.
\<close>

theorem RequiredDependents_transitive:
  "set (RequiredDependents plugin loaded) = {n. n \<noteq> plugin \<and> (n, plugin) \<in> (requires loaded)\<^sup>+} \<and>
   sorted (RequiredDependents plugin loaded) \<and> distinct (RequiredDependents plugin loaded)"
  using set_RequiredDependents omap_ok_sorted omap_ok_distinct collect_dependents_ok[of "[]" plugin loaded "[plugin]"]
  by (auto simp: RequiredDependents_def)

section \<open>Refusal reasons\<close>

definition honest_reason ::
  "PluginManifest list \<Rightarrow> string set \<Rightarrow> string \<Rightarrow> Error \<Rightarrow> bool" where
  "honest_reason installed refused n reason \<longleftrightarrow>
     reason = installed_twice_error \<and> 2 \<le> count_list (map mf_Name installed) n \<or>
     (\<exists>m d. m \<in> set installed \<and> mf_Name m = n \<and> d \<in> set (mf_Dependencies m) \<and>
        (d \<notin> mf_Name ` set installed \<and> reason = not_installed_error d \<or>
         d \<in> refused \<and> reason = host_refused_error d))"

lemma honest_reason_mono:
  "honest_reason installed A n reason \<Longrightarrow> A \<subseteq> B \<Longrightarrow> honest_reason installed B n reason"
  by (auto simp: honest_reason_def)

definition honest :: "PluginManifest list \<Rightarrow> refusals_by_name \<Rightarrow> bool" where
  "honest installed refused \<longleftrightarrow>
     (\<forall>(n, reason) \<in> set refused. honest_reason installed (fst ` set refused) n reason)"

lemma honest_refuse:
  assumes "honest installed (fst st)"
    and "honest_reason installed (fst ` set (fst st)) name reason"
  shows "honest installed (fst (refuse name reason st))"
proof -
  have "set (fst (refuse name reason st)) \<subseteq> insert (name, reason) (set (fst st))"
    using set_omap_emplace_subset[of name reason "fst st"] by (auto simp: refuse_def split: prod.splits)
  moreover have "fst ` set (fst st) \<subseteq> fst ` set (fst (refuse name reason st))" by auto
  ultimately have "honest_reason installed (fst ` set (fst (refuse name reason st))) n r"
    if "(n, r) \<in> set (fst (refuse name reason st))" for n r
    using that assms honest_reason_mono[of installed "fst ` set (fst st)"]
    unfolding honest_def by blast
  then show ?thesis unfolding honest_def by blast
qed

lemma honest_not_installed:
  "m \<in> set installed \<Longrightarrow> d \<in> set (mf_Dependencies m) \<Longrightarrow> d \<notin> mf_Name ` set installed \<Longrightarrow>
     honest_reason installed A (mf_Name m) (not_installed_error d)"
  unfolding honest_reason_def by blast

lemma honest_host_refused:
  "m \<in> set installed \<Longrightarrow> d \<in> set (mf_Dependencies m) \<Longrightarrow> d \<in> A \<Longrightarrow>
     honest_reason installed A (mf_Name m) (host_refused_error d)"
  unfolding honest_reason_def by blast

lemma honest_refuse_dependents:
  assumes "honest installed (fst st)" and "gone \<in> fst ` set (fst st)"
    and "set ps \<subseteq> (\<lambda>m. (mf_Name m, m)) ` set installed"
  shows "honest installed (fst (refuse_dependents gone ps st))"
  using assms
proof (induction gone ps st rule: refuse_dependents.induct)
  case (2 gone name manifest rest st)
  have "honest installed (fst (refuse name (host_refused_error gone) st))"
    if "gone \<in> set (mf_Dependencies manifest)"
  proof (rule honest_refuse[OF 2(2)])
    have "manifest \<in> set installed" "mf_Name manifest = name"
      using 2(4) by auto
    then show "honest_reason installed (fst ` set (fst st)) name (host_refused_error gone)"
      using honest_host_refused that 2(3) by metis
  qed
  then have "honest installed (fst (if \<not> omap_contains (fst st) name \<and>
      gone \<in> set (mf_Dependencies manifest) then refuse name (host_refused_error gone) st else st))"
    using 2(2) by simp
  from 2(1)[OF this] show ?case using 2(3,4) by simp
qed simp

lemma honest_refuse_missing:
  assumes "honest installed (fst st)" and "fst ` set plugins = mf_Name ` set installed"
    and "set ps \<subseteq> (\<lambda>m. (mf_Name m, m)) ` set installed"
  shows "honest installed (fst (refuse_missing plugins ps st))"
  using assms
proof (induction plugins ps st rule: refuse_missing.induct)
  case (2 plugins name manifest rest st)
  have "honest installed (fst (refuse name (not_installed_error dep) st))"
    if "List.find (\<lambda>dep. \<not> omap_contains plugins dep) (mf_Dependencies manifest) = Some dep" for dep
  proof (rule honest_refuse[OF 2(2)])
    have "manifest \<in> set installed" "mf_Name manifest = name"
      using 2(4) by auto
    moreover have "dep \<in> set (mf_Dependencies manifest)" "dep \<notin> mf_Name ` set installed"
      using find_SomeD[OF that] by (auto simp: omap_contains_iff 2(3))
    ultimately show "honest_reason installed (fst ` set (fst st)) name (not_installed_error dep)"
      using honest_not_installed by metis
  qed
  then have "honest installed (fst (case List.find (\<lambda>dep. \<not> omap_contains plugins dep)
      (mf_Dependencies manifest) of None \<Rightarrow> st | Some dep \<Rightarrow> refuse name (not_installed_error dep) st))"
    using 2(2) by (simp split: option.split)
  from 2(1)[OF this 2(3)] show ?case using 2(4) by simp
qed simp

lemma honest_spread:
  assumes "honest installed refused" and "set w \<subseteq> fst ` set refused"
    and "set plugins \<subseteq> (\<lambda>m. (mf_Name m, m)) ` set installed"
  shows "honest installed (spread_refusals plugins refused w)"
  using assms
proof (induction plugins refused w rule: spread_refusals.induct)
  case (1 plugins refused w)
  show ?case
  proof (cases w rule: rev_cases)
    case Nil
    with 1 show ?thesis by (simp add: spread_refusals_Nil)
  next
    case (snoc w0 g)
    let ?st = "refuse_dependents g plugins (refused, w0)"
    have "honest installed (fst ?st)"
      using 1(2,3) 1(4) by (intro honest_refuse_dependents) (auto simp: snoc)
    moreover have "set (snd ?st) \<subseteq> fst ` set (fst ?st)"
      using 1(3) by (auto simp: snoc refuse_dependents_keys refuse_dependents_work)
    ultimately show ?thesis
      using 1(1)[of "fst ?st" "snd ?st"] 1(4) by (simp add: snoc spread_refusals_snoc)
  qed
qed

lemma honest_index:
  "honest installed (snd (index_manifests installed ([], [])))"
proof -
  have "reason = installed_twice_error" if "(n, reason) \<in> set (snd (index_manifests ms st))"
    "\<And>n reason. (n, reason) \<in> set (snd st) \<Longrightarrow> reason = installed_twice_error" for n reason ms st
    using that
  proof (induction ms st rule: index_manifests.induct)
    case (2 m rest plugins refused)
    then show ?case
      using set_omap_emplace_subset[of "mf_Name m" installed_twice_error refused]
      by (auto split: if_splits)
  qed auto
  from this[of _ _ installed "([], [])"]
  have "reason = installed_twice_error" if "(n, reason) \<in> set (snd (index_manifests installed ([], [])))"
    for n reason using that by simp
  moreover have "2 \<le> count_list (map mf_Name installed) n"
    if "(n, reason) \<in> set (snd (index_manifests installed ([], [])))" for n reason
    using index_manifests_refused[of installed "([], [])"] imageI[OF that, of fst] by simp
  ultimately show ?thesis
    unfolding honest_def honest_reason_def by blast
qed

text \<open>
  the reason \<^verbatim>\<open>Resolve\<close> gives for a refusal is true: "installed more than once" only for a name
  with two manifests, "requires X, which is not installed" only for a declared dependency X that no
  manifest provides, and "requires X, which the host refused" only for a declared dependency X that
  is itself on the refused list.
\<close>

theorem Resolve_reasons_honest:
  "\<forall>r \<in> set (ll_Refused (Resolve installed)).
     honest_reason installed (set (map rp_Name (ll_Refused (Resolve installed)))) (rp_Name r) (rp_Reason r)"
proof -
  let ?idx = "index_manifests installed ([], [])"
  define st where "st = refuse_missing (fst ?idx) (fst ?idx) (snd ?idx, map fst (snd ?idx))"
  have man: "set (fst ?idx) \<subseteq> (\<lambda>m. (mf_Name m, m)) ` set installed"
    using index_manifests_manifest[of _ _ installed "([], [])"] by fastforce
  have "honest installed (fst st)"
    unfolding st_def using honest_index man index_manifests_keys[of installed "([], [])"]
    by (intro honest_refuse_missing) simp_all
  moreover have "set (snd st) \<subseteq> fst ` set (fst st)"
    unfolding st_def by (subst refuse_missing_work) simp_all
  ultimately have "honest installed (spread_refusals (fst ?idx) (fst st) (snd st))"
    using man by (intro honest_spread) auto
  then have "honest installed (RefuseUnsatisfied (fst ?idx) (snd ?idx))"
    by (simp add: RefuseUnsatisfied_def st_def case_prod_beta)
  then show ?thesis
    by (auto simp: Resolve_def Let_def honest_def case_prod_beta image_image)
qed

definition example_refusal :: RefusedPlugin where
  "example_refusal = \<lparr>rp_Name = ''reports'', rp_Reason = not_installed_error ''missing''\<rparr>"

theorem Resolve_reasons_honest_witness:
  "example_refusal \<in> set (ll_Refused (Resolve example_installed)) \<and>
   honest_reason example_installed (set (map rp_Name (ll_Refused (Resolve example_installed))))
     (rp_Name example_refusal) (rp_Reason example_refusal)"
proof -
  have h: "example_refusal \<in> set (ll_Refused (Resolve example_installed))" by code_simp
  then show ?thesis using Resolve_reasons_honest[of example_installed] by blast
qed

end
