(* ===== verification/PluginHost.thy ===== *)
theory PluginHost
  imports CallbackList OwnedNames WorkshopDownloads PluginDependencies
begin

text \<open>
  The host state behind every plugin, one plugin's view of it, and the registry that raises engine
  events. Sources: \<^verbatim>\<open>src/Host/Plugins/{PluginContext,PluginRegistry}.{hpp,cpp}\<close>. The thirteen callback
  lists of \<^verbatim>\<open>SharedState\<close> are one function of \<open>HostEvent\<close>. A plugin's view is named by its load position
  \<^verbatim>\<open>_order\<close>, which never repeats: it stands for the pointer \<^verbatim>\<open>this\<close> that owns commands and services, and
  0 for the host. What a callback does is a function \<open>call\<close> of the event's arguments; engine pointers
  among the arguments are left out. Plain accessors of the view are field selectors here.
\<close>

section \<open>State\<close>

instantiation LogLevel :: linorder
begin

fun level_rank :: "LogLevel \<Rightarrow> nat" where
  "level_rank Info = 0"
| "level_rank Warn = 1"
| "level_rank LogError = 2"

definition less_eq_LogLevel :: "LogLevel \<Rightarrow> LogLevel \<Rightarrow> bool" where
  "less_eq_LogLevel a b \<longleftrightarrow> level_rank a \<le> level_rank b"

definition less_LogLevel :: "LogLevel \<Rightarrow> LogLevel \<Rightarrow> bool" where
  "less_LogLevel a b \<longleftrightarrow> level_rank a < level_rank b"

instance
proof
  fix a b :: LogLevel
  show "a \<le> b \<Longrightarrow> b \<le> a \<Longrightarrow> a = b"
    by (cases a; cases b) (simp_all add: less_eq_LogLevel_def)
qed (auto simp: less_eq_LogLevel_def less_LogLevel_def)

end

datatype HostEvent = Frame | ServerStartup | ClientConnecting | ClientConnected | ClientDisconnected
  | ClientFullyConnected | ClientSettingsChanged | ConsoleCommand | CheckTransmit
  | BuildGameSessionManifest | PlayerCommand | PlayerCommandDone | ButtonPress

datatype EventArgs = NoArgs | MapArgs string | ClientArgs int int string string | SlotArgs int
  | CommandArgs string string int | ButtonArgs int string

record ConnectedClient =
  cc_SteamId :: int
  cc_Name :: string
  cc_Address :: string
  cc_FullyConnected :: bool

record PluginContext =
  pc_name :: string
  pc_logTag :: string
  pc_version :: string
  pc_minLevel :: LogLevel
  pc_order :: nat
  pc_subscriptions :: "(nat \<times> HostEvent) list"
  pc_addons :: "nat list"

record LeakReport =
  lk_Subscriptions :: "string list"
  lk_Services :: "string list"
  lk_Addons :: "nat list"

record ('f, 'i) host =
  h_Addons :: "WorkshopDownloads option"
  h_SchemaLayoutStamp :: nat
  h_SchemaVerified :: bool
  h_NextToken :: nat
  h_NextOrder :: nat
  h_CurrentMap :: string
  h_Clients :: "ConnectedClient option PerSlot"
  h_lists :: "HostEvent \<Rightarrow> 'f CallbackList"
  h_Services :: "'i PublishedInterfaces"
  h_Commands :: CommandNames
  h_Languages :: "string PerSlot"
  h_plugins :: "PluginContext list"

definition host_init :: "WorkshopDownloads option \<Rightarrow> ('f, 'i) host" where
  "host_init addons = \<lparr>h_Addons = addons, h_SchemaLayoutStamp = 0, h_SchemaVerified = False,
     h_NextToken = 1, h_NextOrder = 1, h_CurrentMap = [], h_Clients = (\<lambda>_. None), h_lists = (\<lambda>_. cl_init),
     h_Services = [], h_Commands = [], h_Languages = (\<lambda>_. []), h_plugins = []\<rparr>"

type_synonym ('f, 'i) callbacks = "EventArgs \<Rightarrow> 'f \<Rightarrow> ('f, 'i) host \<Rightarrow> bool \<times> ('f, 'i) host"

section \<open>One plugin's view\<close>

definition FindContext :: "nat \<Rightarrow> ('f, 'i) host \<Rightarrow> PluginContext option" where
  "FindContext p h = List.find (\<lambda>c. pc_order c = p) (h_plugins h)"

definition upd_context :: "nat \<Rightarrow> (PluginContext \<Rightarrow> PluginContext) \<Rightarrow> ('f, 'i) host \<Rightarrow> ('f, 'i) host" where
  "upd_context p f h = h\<lparr>h_plugins := update_first (\<lambda>c. pc_order c = p) f (h_plugins h)\<rparr>"

definition upd_list :: "HostEvent \<Rightarrow> ('f CallbackList \<Rightarrow> 'f CallbackList) \<Rightarrow> ('f, 'i) host \<Rightarrow> ('f, 'i) host" where
  "upd_list ev f h = h\<lparr>h_lists := (h_lists h)(ev := f (h_lists h ev))\<rparr>"

definition ctx_SetMinLogLevel :: "nat \<Rightarrow> LogLevel \<Rightarrow> ('f, 'i) host \<Rightarrow> ('f, 'i) host" where
  "ctx_SetMinLogLevel p level h = upd_context p (\<lambda>c. c\<lparr>pc_minLevel := level\<rparr>) h"

definition ctx_RegisterCommand :: "nat \<Rightarrow> string \<Rightarrow> ('f, 'i) host \<Rightarrow> bool \<times> ('f, 'i) host" where
  "ctx_RegisterCommand p name h =
     (case FindContext p h of
        None \<Rightarrow> (False, h)
      | Some c \<Rightarrow> (case cn_Register p (pc_name c) name (h_Commands h) of
          (taken, entries) \<Rightarrow> (taken, h\<lparr>h_Commands := entries\<rparr>)))"

definition ctx_IsCommandRegistered :: "string \<Rightarrow> ('f, 'i) host \<Rightarrow> bool" where
  "ctx_IsCommandRegistered name h \<longleftrightarrow> cn_OwnerOf (h_Commands h) name \<noteq> []"

definition ctx_AddAddon :: "install_env \<Rightarrow> nat \<Rightarrow> nat \<Rightarrow> ('f, 'i) host \<Rightarrow> bool \<times> ('f, 'i) host" where
  "ctx_AddAddon env p addonId h =
     (case h_Addons h of
        None \<Rightarrow> (False, h)
      | Some w \<Rightarrow> (case wd_Add env addonId w of
          (False, w') \<Rightarrow> (False, h\<lparr>h_Addons := Some w'\<rparr>)
        | (True, w') \<Rightarrow> (True, upd_context p (\<lambda>c. c\<lparr>pc_addons := pc_addons c @ [addonId]\<rparr>) (h\<lparr>h_Addons := Some w'\<rparr>))))"

definition ctx_RemoveAddon :: "nat \<Rightarrow> nat \<Rightarrow> ('f, 'i) host \<Rightarrow> ('f, 'i) host" where
  "ctx_RemoveAddon p addonId h =
     (case FindContext p h of
        None \<Rightarrow> h
      | Some c \<Rightarrow>
          if addonId \<in> set (pc_addons c)
          then (upd_context p (\<lambda>c. c\<lparr>pc_addons := erase_first (\<lambda>i. i = addonId) (pc_addons c)\<rparr>) h)
                 \<lparr>h_Addons := map_option (wd_Remove addonId) (h_Addons h)\<rparr>
          else h)"

definition ctx_IsReady :: "(int \<Rightarrow> int) option \<Rightarrow> int \<Rightarrow> ('f, 'i) host \<Rightarrow> bool" where
  "ctx_IsReady xuid slot h = (case h_Addons h of None \<Rightarrow> True | Some w \<Rightarrow> wd_IsReady xuid slot w)"

text \<open>The line emitted, if the level passes.\<close>

definition ctx_WriteLog :: "PluginContext \<Rightarrow> LogLevel \<Rightarrow> string \<Rightarrow> (LogLevel \<times> string) option" where
  "ctx_WriteLog c wanted txt =
     (if wanted < pc_minLevel c then None else Some (wanted, ''['' @ pc_logTag c @ ''] '' @ txt))"

definition event_name :: "HostEvent \<Rightarrow> string" where
  "event_name ev = (case ev of
     Frame \<Rightarrow> ''frame'' | ServerStartup \<Rightarrow> ''server_startup'' | ClientConnecting \<Rightarrow> ''client_connecting''
   | ClientConnected \<Rightarrow> ''client_connected'' | ClientDisconnected \<Rightarrow> ''client_disconnected''
   | ClientFullyConnected \<Rightarrow> ''client_fully_connected'' | ClientSettingsChanged \<Rightarrow> ''client_settings_changed''
   | ConsoleCommand \<Rightarrow> ''console_command'' | CheckTransmit \<Rightarrow> ''check_transmit''
   | BuildGameSessionManifest \<Rightarrow> ''build_game_session_manifest'' | PlayerCommand \<Rightarrow> ''player_command''
   | PlayerCommandDone \<Rightarrow> ''player_command_done'' | ButtonPress \<Rightarrow> ''button_press'')"

definition ctx_Subscribe :: "nat \<Rightarrow> HostEvent \<Rightarrow> 'f option \<Rightarrow> ('f, 'i) host \<Rightarrow> nat \<times> ('f, 'i) host" where
  "ctx_Subscribe p ev callback h =
     (case callback of
        None \<Rightarrow> (0, h)
      | Some f \<Rightarrow>
          let token = h_NextToken h;
              h1 = upd_list ev (cl_Add token p f) (h\<lparr>h_NextToken := token + 1\<rparr>)
          in (token, upd_context p (\<lambda>c. c\<lparr>pc_subscriptions := pc_subscriptions c @ [(token, ev)]\<rparr>) h1))"

definition OnFrame :: "nat \<Rightarrow> 'f option \<Rightarrow> ('f, 'i) host \<Rightarrow> nat \<times> ('f, 'i) host" where
  "OnFrame p callback = ctx_Subscribe p Frame callback"

definition OnServerStartup :: "nat \<Rightarrow> 'f option \<Rightarrow> ('f, 'i) host \<Rightarrow> nat \<times> ('f, 'i) host" where
  "OnServerStartup p callback = ctx_Subscribe p ServerStartup callback"

definition OnClientConnecting :: "nat \<Rightarrow> 'f option \<Rightarrow> ('f, 'i) host \<Rightarrow> nat \<times> ('f, 'i) host" where
  "OnClientConnecting p callback = ctx_Subscribe p ClientConnecting callback"

definition OnClientConnected :: "nat \<Rightarrow> 'f option \<Rightarrow> ('f, 'i) host \<Rightarrow> nat \<times> ('f, 'i) host" where
  "OnClientConnected p callback = ctx_Subscribe p ClientConnected callback"

definition OnClientDisconnected :: "nat \<Rightarrow> 'f option \<Rightarrow> ('f, 'i) host \<Rightarrow> nat \<times> ('f, 'i) host" where
  "OnClientDisconnected p callback = ctx_Subscribe p ClientDisconnected callback"

definition OnClientFullyConnected :: "nat \<Rightarrow> 'f option \<Rightarrow> ('f, 'i) host \<Rightarrow> nat \<times> ('f, 'i) host" where
  "OnClientFullyConnected p callback = ctx_Subscribe p ClientFullyConnected callback"

definition OnClientSettingsChanged :: "nat \<Rightarrow> 'f option \<Rightarrow> ('f, 'i) host \<Rightarrow> nat \<times> ('f, 'i) host" where
  "OnClientSettingsChanged p callback = ctx_Subscribe p ClientSettingsChanged callback"

definition OnConsoleCommand :: "nat \<Rightarrow> 'f option \<Rightarrow> ('f, 'i) host \<Rightarrow> nat \<times> ('f, 'i) host" where
  "OnConsoleCommand p callback = ctx_Subscribe p ConsoleCommand callback"

definition OnCheckTransmit :: "nat \<Rightarrow> 'f option \<Rightarrow> ('f, 'i) host \<Rightarrow> nat \<times> ('f, 'i) host" where
  "OnCheckTransmit p callback = ctx_Subscribe p CheckTransmit callback"

definition OnBuildGameSessionManifest :: "nat \<Rightarrow> 'f option \<Rightarrow> ('f, 'i) host \<Rightarrow> nat \<times> ('f, 'i) host" where
  "OnBuildGameSessionManifest p callback = ctx_Subscribe p BuildGameSessionManifest callback"

definition OnPlayerCommand :: "nat \<Rightarrow> 'f option \<Rightarrow> ('f, 'i) host \<Rightarrow> nat \<times> ('f, 'i) host" where
  "OnPlayerCommand p callback = ctx_Subscribe p PlayerCommand callback"

definition OnPlayerCommandDone :: "nat \<Rightarrow> 'f option \<Rightarrow> ('f, 'i) host \<Rightarrow> nat \<times> ('f, 'i) host" where
  "OnPlayerCommandDone p callback = ctx_Subscribe p PlayerCommandDone callback"

definition OnButtonPress :: "nat \<Rightarrow> 'f option \<Rightarrow> ('f, 'i) host \<Rightarrow> nat \<times> ('f, 'i) host" where
  "OnButtonPress p callback = ctx_Subscribe p ButtonPress callback"

definition ctx_Publish :: "nat \<Rightarrow> string \<Rightarrow> 'i option \<Rightarrow> ('f, 'i) host \<Rightarrow> ('f, 'i) host" where
  "ctx_Publish p name implementation h = h\<lparr>h_Services := pi_Publish p name implementation (h_Services h)\<rparr>"

definition ctx_Unpublish :: "nat \<Rightarrow> string \<Rightarrow> ('f, 'i) host \<Rightarrow> ('f, 'i) host" where
  "ctx_Unpublish p name h = h\<lparr>h_Services := pi_Unpublish p name (h_Services h)\<rparr>"

definition ctx_Find :: "string \<Rightarrow> ('f, 'i) host \<Rightarrow> 'i option" where
  "ctx_Find name h = pi_Find (h_Services h) name"

definition ctx_SetLanguage :: "int \<Rightarrow> string \<Rightarrow> ('f, 'i) host \<Rightarrow> ('f, 'i) host" where
  "ctx_SetLanguage slot lang h = h\<lparr>h_Languages := SetLanguage slot lang (h_Languages h)\<rparr>"

definition ctx_Unsubscribe :: "nat \<Rightarrow> nat \<Rightarrow> ('f, 'i) host \<Rightarrow> ('f, 'i) host" where
  "ctx_Unsubscribe p token h =
     (case FindContext p h of
        None \<Rightarrow> h
      | Some c \<Rightarrow> (case List.find (\<lambda>held. fst held = token) (pc_subscriptions c) of
          None \<Rightarrow> h
        | Some held \<Rightarrow>
            upd_context p (\<lambda>c. c\<lparr>pc_subscriptions := erase_first (\<lambda>held. fst held = token) (pc_subscriptions c)\<rparr>)
              (upd_list (snd held) (\<lambda>l. snd (cl_Remove token l)) h)))"

fun drop_subscriptions :: "(nat \<times> HostEvent) list \<Rightarrow> ('f, 'i) host \<Rightarrow> ('f, 'i) host" where
  "drop_subscriptions [] h = h"
| "drop_subscriptions ((token, ev) # rest) h =
     drop_subscriptions rest (upd_list ev (\<lambda>l. snd (cl_Remove token l)) h)"

definition ctx_RemoveAll :: "nat \<Rightarrow> ('f, 'i) host \<Rightarrow> LeakReport \<times> ('f, 'i) host" where
  "ctx_RemoveAll p h =
     (case FindContext p h of
        None \<Rightarrow> (\<lparr>lk_Subscriptions = [], lk_Services = [], lk_Addons = []\<rparr>, h)
      | Some c \<Rightarrow>
          let h1 = upd_context p (\<lambda>c. c\<lparr>pc_subscriptions := []\<rparr>) (drop_subscriptions (pc_subscriptions c) h);
              (names, services) = pi_RemoveAll p (h_Services h1);
              h2 = (upd_context p (\<lambda>c. c\<lparr>pc_addons := []\<rparr>) (h1\<lparr>h_Services := services\<rparr>))
                     \<lparr>h_Addons := map_option (fold wd_Remove (pc_addons c)) (h_Addons h1)\<rparr>;
              h3 = h2\<lparr>h_Commands := cn_RemoveAll p (h_Commands h2)\<rparr>
          in (\<lparr>lk_Subscriptions = map (event_name \<circ> snd) (pc_subscriptions c), lk_Services = names,
               lk_Addons = pc_addons c\<rparr>, h3))"

section \<open>Passes over a list\<close>

text \<open>A pass may carry a value beside the host: the refusal text of \<^verbatim>\<open>RaiseClientConnecting\<close>.\<close>

definition host_get :: "HostEvent \<Rightarrow> ('f, 'i) host \<times> 'b \<Rightarrow> 'f CallbackList" where
  "host_get ev s = h_lists (fst s) ev"

definition host_upd :: "HostEvent \<Rightarrow> ('f CallbackList \<Rightarrow> 'f CallbackList) \<Rightarrow> ('f, 'i) host \<times> 'b \<Rightarrow> ('f, 'i) host \<times> 'b" where
  "host_upd ev f s = (upd_list ev f (fst s), snd s)"

definition raise :: "HostEvent \<Rightarrow> ('f \<Rightarrow> ('f, 'i) host \<Rightarrow> bool \<times> ('f, 'i) host) \<Rightarrow> ('f, 'i) host
    \<Rightarrow> bool \<times> ('f, 'i) host \<times> nat list" where
  "raise ev call h =
     (case cl_Dispatch (host_get ev) (host_upd ev) (\<lambda>f s. case call f (fst s) of (stop, h') \<Rightarrow> (stop, h', ())) (h, ()) of
        (stopped, (h', _), rs) \<Rightarrow> (stopped, h', rs))"

text \<open>The visitors that return false whatever the callback did.\<close>

definition raise_all :: "HostEvent \<Rightarrow> EventArgs \<Rightarrow> ('f, 'i) callbacks \<Rightarrow> ('f, 'i) host \<Rightarrow> ('f, 'i) host" where
  "raise_all ev args call h = fst (snd (raise ev (\<lambda>f h. (False, snd (call args f h))) h))"

definition raise_to :: "HostEvent \<Rightarrow> nat \<Rightarrow> EventArgs \<Rightarrow> ('f, 'i) callbacks \<Rightarrow> ('f, 'i) host \<Rightarrow> ('f, 'i) host" where
  "raise_to ev p args call h =
     fst (cl_DispatchTo (host_get ev) (host_upd ev) p (\<lambda>f s. (snd (call args f (fst s)), ())) (h, ()))"

definition replay_slot :: "nat \<Rightarrow> ('f, 'i) callbacks \<Rightarrow> int \<Rightarrow> ('f, 'i) host \<Rightarrow> ('f, 'i) host" where
  "replay_slot p call slot h =
     (case h_Clients h slot of
        None \<Rightarrow> h
      | Some client \<Rightarrow>
          let h' = raise_to ClientConnected p (ClientArgs slot (cc_SteamId client) (cc_Name client) (cc_Address client)) call h
          in (case h_Clients h' slot of
                Some client' \<Rightarrow> if cc_FullyConnected client' then raise_to ClientFullyConnected p (SlotArgs slot) call h' else h'
              | None \<Rightarrow> h'))"

definition ctx_ReplayMissedEvents :: "nat \<Rightarrow> ('f, 'i) callbacks \<Rightarrow> ('f, 'i) host \<Rightarrow> ('f, 'i) host" where
  "ctx_ReplayMissedEvents p call h =
     (if h_CurrentMap h = [] then h
      else fold (replay_slot p call) all_slots (raise_to ServerStartup p (MapArgs (h_CurrentMap h)) call h))"

definition disconnect_slot :: "nat \<Rightarrow> ('f, 'i) callbacks \<Rightarrow> int \<Rightarrow> ('f, 'i) host \<Rightarrow> ('f, 'i) host" where
  "disconnect_slot p call slot h =
     (if h_Clients h slot \<noteq> None then raise_to ClientDisconnected p (SlotArgs slot) call h else h)"

definition ctx_DisconnectClients :: "nat \<Rightarrow> ('f, 'i) callbacks \<Rightarrow> ('f, 'i) host \<Rightarrow> ('f, 'i) host" where
  "ctx_DisconnectClients p call h = fold (disconnect_slot p call) all_slots h"

section \<open>The registry\<close>

definition FindPlugin :: "string \<Rightarrow> ('f, 'i) host \<Rightarrow> PluginContext option" where
  "FindPlugin name h = List.find (\<lambda>c. pc_name c = name) (h_plugins h)"

definition AddPlugin :: "string \<Rightarrow> string \<Rightarrow> string \<Rightarrow> ('f, 'i) host \<Rightarrow> nat option \<times> ('f, 'i) host" where
  "AddPlugin name logTag version h =
     (if name = [] \<or> FindPlugin name h \<noteq> None then (None, h)
      else let c = \<lparr>pc_name = name, pc_logTag = (if logTag = [] then name else logTag), pc_version = version,
                    pc_minLevel = Info, pc_order = h_NextOrder h, pc_subscriptions = [], pc_addons = []\<rparr>
           in (Some (h_NextOrder h), h\<lparr>h_NextOrder := h_NextOrder h + 1, h_plugins := h_plugins h @ [c]\<rparr>))"

definition RemovePlugin :: "string \<Rightarrow> ('f, 'i) host \<Rightarrow> LeakReport \<times> ('f, 'i) host" where
  "RemovePlugin name h =
     (case FindPlugin name h of
        None \<Rightarrow> (\<lparr>lk_Subscriptions = [], lk_Services = [], lk_Addons = []\<rparr>, h)
      | Some c \<Rightarrow> (case ctx_RemoveAll (pc_order c) h of
          (leaks, h') \<Rightarrow> (leaks, h'\<lparr>h_plugins := erase_first (\<lambda>c. pc_name c = name) (h_plugins h')\<rparr>)))"

definition IsConnected :: "int \<Rightarrow> ('f, 'i) host \<Rightarrow> bool" where
  "IsConnected slot h \<longleftrightarrow> IsValidSlot slot \<and> h_Clients h slot \<noteq> None"

definition SetSchemaLayout :: "nat \<Rightarrow> bool \<Rightarrow> ('f, 'i) host \<Rightarrow> ('f, 'i) host" where
  "SetSchemaLayout stamp verified h = h\<lparr>h_SchemaLayoutStamp := stamp, h_SchemaVerified := verified\<rparr>"

definition RaiseFrame :: "('f, 'i) callbacks \<Rightarrow> ('f, 'i) host \<Rightarrow> ('f, 'i) host" where
  "RaiseFrame call h = raise_all Frame NoArgs call h"

definition RaiseServerStartup :: "string \<Rightarrow> ('f, 'i) callbacks \<Rightarrow> ('f, 'i) host \<Rightarrow> ('f, 'i) host" where
  "RaiseServerStartup mapName call h = raise_all ServerStartup (MapArgs mapName) call (h\<lparr>h_CurrentMap := mapName\<rparr>)"

text \<open>
  \<open>ask\<close> is what a callback does with the host and the 256-byte reason buffer, whose text ends at its
  first zero byte; the host cuts it at 255 bytes.
\<close>

definition RaiseClientConnecting ::
  "('f \<Rightarrow> ('f, 'i) host \<times> string \<Rightarrow> bool \<times> ('f, 'i) host \<times> string) \<Rightarrow> ('f, 'i) host \<Rightarrow> string \<times> ('f, 'i) host" where
  "RaiseClientConnecting ask h =
     (case cl_Dispatch (host_get ClientConnecting) (host_upd ClientConnecting) ask (h, []) of
        (refused, (h', reason), _) \<Rightarrow>
          (if \<not> refused then [] else if reason \<noteq> [] then take 255 reason else ''Refused by the server.'', h'))"

definition RaiseClientConnected :: "int \<Rightarrow> int \<Rightarrow> string \<Rightarrow> string \<Rightarrow> ('f, 'i) callbacks \<Rightarrow> ('f, 'i) host \<Rightarrow> ('f, 'i) host" where
  "RaiseClientConnected slot steamId name address call h =
     (let h1 = h\<lparr>h_Languages := LanguageTable_Reset slot (h_Languages h)\<rparr>;
          h2 = (if IsValidSlot slot
                then h1\<lparr>h_Clients := (h_Clients h1)(slot := Some \<lparr>cc_SteamId = steamId, cc_Name = name,
                       cc_Address = address, cc_FullyConnected = False\<rparr>)\<rparr>
                else h1)
      in raise_all ClientConnected (ClientArgs slot steamId name address) call h2)"

definition RaiseClientDisconnected :: "int \<Rightarrow> ('f, 'i) callbacks \<Rightarrow> ('f, 'i) host \<Rightarrow> ('f, 'i) host" where
  "RaiseClientDisconnected slot call h =
     (let h1 = raise_all ClientDisconnected (SlotArgs slot) call h
      in h1\<lparr>h_Languages := LanguageTable_Reset slot (h_Languages h1), h_Clients := PerSlot_Reset None slot (h_Clients h1)\<rparr>)"

definition RaiseClientFullyConnected :: "int \<Rightarrow> ('f, 'i) callbacks \<Rightarrow> ('f, 'i) host \<Rightarrow> ('f, 'i) host" where
  "RaiseClientFullyConnected slot call h =
     (let h1 = (if IsValidSlot slot
                then h\<lparr>h_Clients := (h_Clients h)(slot := map_option (\<lambda>c. c\<lparr>cc_FullyConnected := True\<rparr>) (h_Clients h slot))\<rparr>
                else h)
      in raise_all ClientFullyConnected (SlotArgs slot) call h1)"

definition RaiseClientSettingsChanged :: "int \<Rightarrow> ('f, 'i) callbacks \<Rightarrow> ('f, 'i) host \<Rightarrow> ('f, 'i) host" where
  "RaiseClientSettingsChanged slot call h = raise_all ClientSettingsChanged (SlotArgs slot) call h"

definition RaiseConsoleCommand :: "string \<Rightarrow> string \<Rightarrow> int \<Rightarrow> ('f, 'i) callbacks \<Rightarrow> ('f, 'i) host \<Rightarrow> bool \<times> ('f, 'i) host" where
  "RaiseConsoleCommand name arguments slot call h =
     (case raise ConsoleCommand (call (CommandArgs name arguments slot)) h of (answered, h', _) \<Rightarrow> (answered, h'))"

definition RaiseCheckTransmit :: "('f, 'i) callbacks \<Rightarrow> ('f, 'i) host \<Rightarrow> ('f, 'i) host" where
  "RaiseCheckTransmit call h = raise_all CheckTransmit NoArgs call h"

definition RaiseBuildGameSessionManifest :: "('f, 'i) callbacks \<Rightarrow> ('f, 'i) host \<Rightarrow> ('f, 'i) host" where
  "RaiseBuildGameSessionManifest call h = raise_all BuildGameSessionManifest NoArgs call h"

definition HasCommandListeners :: "('f, 'i) host \<Rightarrow> bool" where
  "HasCommandListeners h \<longleftrightarrow> \<not> cl_Empty (h_lists h PlayerCommand) \<or> \<not> cl_Empty (h_lists h PlayerCommandDone)"

definition RaisePlayerCommand :: "int \<Rightarrow> ('f, 'i) callbacks \<Rightarrow> ('f, 'i) host \<Rightarrow> ('f, 'i) host" where
  "RaisePlayerCommand slot call h = raise_all PlayerCommand (SlotArgs slot) call h"

definition RaisePlayerCommandDone :: "int \<Rightarrow> ('f, 'i) callbacks \<Rightarrow> ('f, 'i) host \<Rightarrow> ('f, 'i) host" where
  "RaisePlayerCommandDone slot call h = raise_all PlayerCommandDone (SlotArgs slot) call h"

definition RaiseButtonPress :: "int \<Rightarrow> string \<Rightarrow> ('f, 'i) callbacks \<Rightarrow> ('f, 'i) host \<Rightarrow> ('f, 'i) host" where
  "RaiseButtonPress slot buttonId call h = raise_all ButtonPress (ButtonArgs slot buttonId) call h"

definition RegisterHostCommand :: "string \<Rightarrow> ('f, 'i) host \<Rightarrow> ('f, 'i) host" where
  "RegisterHostCommand name h = h\<lparr>h_Commands := cn_Reserve name (h_Commands h)\<rparr>"

end
