(* ===== verification/HostInvariant.thy ===== *)
theory HostInvariant
  imports PluginHost
begin

text \<open>
  What holds of the host state whatever the plugins do: every live subscription, service, command name
  and addon has a loaded plugin as its owner. \<open>host_api\<close> is what plugin code can do from inside a
  callback; the registry's own operations are on top of it.
\<close>

section \<open>What plugin code can do\<close>

definition holds_context :: "nat \<Rightarrow> ('f, 'i) host \<Rightarrow> bool" where
  "holds_context p h \<longleftrightarrow> p \<in> pc_order ` set (h_plugins h)"

inductive host_api :: "('f, 'i) host \<Rightarrow> ('f, 'i) host \<Rightarrow> bool" where
  host_refl: "host_api h h"
| host_Subscribe: "host_api h s \<Longrightarrow> holds_context p s \<Longrightarrow> host_api h (snd (ctx_Subscribe p ev callback s))"
| host_Unsubscribe: "host_api h s \<Longrightarrow> host_api h (ctx_Unsubscribe p token s)"
| host_Publish: "host_api h s \<Longrightarrow> holds_context p s \<Longrightarrow> host_api h (ctx_Publish p name implementation s)"
| host_Unpublish: "host_api h s \<Longrightarrow> host_api h (ctx_Unpublish p name s)"
| host_Register: "host_api h s \<Longrightarrow> host_api h (snd (ctx_RegisterCommand p name s))"
| host_AddAddon: "host_api h s \<Longrightarrow> holds_context p s \<Longrightarrow> host_api h (snd (ctx_AddAddon env p addonId s))"
| host_RemoveAddon: "host_api h s \<Longrightarrow> host_api h (ctx_RemoveAddon p addonId s)"
| host_engine: "host_api h s \<Longrightarrow>
    host_api h (s\<lparr>h_Clients := clients, h_CurrentMap := map_name, h_Languages := languages\<rparr>)"
| host_pass: "host_api h s \<Longrightarrow> host_api (upd_list ev cl_begin s) t \<Longrightarrow> host_api h (upd_list ev cl_end t)"

section \<open>The invariant\<close>

definition lists_ok :: "('f, 'i) host \<Rightarrow> bool" where
  "lists_ok h \<longleftrightarrow> (\<forall>ev. cl_ok (h_lists h ev) \<and> cl_below (h_NextToken h) (h_lists h ev))"

definition subs_owned :: "('f, 'i) host \<Rightarrow> bool" where
  "subs_owned h \<longleftrightarrow> (\<forall>ev. \<forall>e \<in> cl_live (h_lists h ev).
     \<exists>c \<in> set (h_plugins h). pc_order c = ce_Order e \<and> (ce_Token e, ev) \<in> set (pc_subscriptions c))"

definition subs_exact :: "('f, 'i) host \<Rightarrow> bool" where
  "subs_exact h \<longleftrightarrow> (\<forall>c \<in> set (h_plugins h). \<forall>(token, ev) \<in> set (pc_subscriptions c).
     token < h_NextToken h \<and> (\<forall>e \<in> cl_live (h_lists h ev). ce_Token e = token \<longrightarrow> ce_Order e = pc_order c))"

definition plugins_ok :: "('f, 'i) host \<Rightarrow> bool" where
  "plugins_ok h \<longleftrightarrow> distinct (map pc_name (h_plugins h)) \<and> distinct (map pc_order (h_plugins h)) \<and>
     0 < h_NextOrder h \<and> (\<forall>c \<in> set (h_plugins h). pc_name c \<noteq> [] \<and> 0 < pc_order c \<and> pc_order c < h_NextOrder h)"

definition tables_ok :: "('f, 'i) host \<Rightarrow> bool" where
  "tables_ok h \<longleftrightarrow> distinct (map cn_Name (h_Commands h)) \<and> distinct (map sv_Name (h_Services h)) \<and>
     cn_Owner ` set (h_Commands h) \<subseteq> insert 0 (pc_order ` set (h_plugins h)) \<and>
     sv_Owner ` set (h_Services h) \<subseteq> pc_order ` set (h_plugins h)"

definition held_addons :: "('f, 'i) host \<Rightarrow> nat multiset" where
  "held_addons h = (\<Sum>c \<leftarrow> h_plugins h. mset (pc_addons c))"

definition addons_ok :: "('f, 'i) host \<Rightarrow> bool" where
  "addons_ok h \<longleftrightarrow> (case h_Addons h of None \<Rightarrow> held_addons h = {#}
     | Some w \<Rightarrow> wd_ok w \<and> holders (wd_queue w) = held_addons h)"

definition host_ok :: "('f, 'i) host \<Rightarrow> bool" where
  "host_ok h \<longleftrightarrow> lists_ok h \<and> subs_owned h \<and> subs_exact h \<and> plugins_ok h \<and> tables_ok h \<and> addons_ok h"

subsection \<open>Updating one view\<close>

lemma plugins_upd:
  "plugins_ok h \<Longrightarrow> h_plugins (upd_context p f h) = map (\<lambda>c. if pc_order c = p then f c else c) (h_plugins h)"
  by (simp add: upd_context_def plugins_ok_def update_first_distinct)

lemma upd_context_fields [simp]:
  "h_lists (upd_context p f h) = h_lists h" "h_NextToken (upd_context p f h) = h_NextToken h"
  "h_NextOrder (upd_context p f h) = h_NextOrder h" "h_Services (upd_context p f h) = h_Services h"
  "h_Commands (upd_context p f h) = h_Commands h" "h_Addons (upd_context p f h) = h_Addons h"
  "h_Clients (upd_context p f h) = h_Clients h" "h_CurrentMap (upd_context p f h) = h_CurrentMap h"
  by (simp_all add: upd_context_def)

lemma upd_list_fields [simp]:
  "h_plugins (upd_list ev g h) = h_plugins h" "h_NextToken (upd_list ev g h) = h_NextToken h"
  "h_NextOrder (upd_list ev g h) = h_NextOrder h" "h_Services (upd_list ev g h) = h_Services h"
  "h_Commands (upd_list ev g h) = h_Commands h" "h_Addons (upd_list ev g h) = h_Addons h"
  "h_Clients (upd_list ev g h) = h_Clients h" "h_CurrentMap (upd_list ev g h) = h_CurrentMap h"
  "h_lists (upd_list ev g h) ev' = (if ev' = ev then g (h_lists h ev) else h_lists h ev')"
  by (simp_all add: upd_list_def)

lemma map_key_keep:
  "(\<And>c. k (f c) = k c) \<Longrightarrow> map k (map (\<lambda>c. if b c then f c else c) xs) = map k xs"
  by simp

lemma sum_list_update_one:
  fixes g :: "'a \<Rightarrow> 'b multiset"
  assumes "distinct (map k xs)" "c \<in> set xs"
  shows "(\<Sum>x \<leftarrow> map (\<lambda>x. if k x = k c then f x else x) xs. g x) + g c = (\<Sum>x \<leftarrow> xs. g x) + g (f c)"
  using assms
proof (induction xs)
  case (Cons x xs)
  have rest: "map (\<lambda>y. if k y = k c then f y else y) xs = xs" if "x = c"
    using Cons.prems(1) that by (intro map_idI) (auto simp: image_iff)
  show ?case
  proof (cases "x = c")
    case True
    then show ?thesis by (simp only: list.map rest[OF True] sum_list.Cons) (simp add: True)
  next
    case False
    then have "c \<in> set xs" "k x \<noteq> k c" using Cons.prems by (auto simp: image_iff)
    with Cons show ?thesis by (simp add: ac_simps)
  qed
qed simp

text \<open>Views keep their name and position in every update.\<close>

lemma upd_context_keeps:
  assumes "plugins_ok h" "\<And>c. pc_name (f c) = pc_name c" "\<And>c. pc_order (f c) = pc_order c"
  shows "plugins_ok (upd_context p f h)" "pc_order ` set (h_plugins (upd_context p f h)) = pc_order ` set (h_plugins h)"
    "tables_ok (upd_context p f h) = tables_ok h" "lists_ok (upd_context p f h) = lists_ok h"
proof -
  have map: "map pc_name (h_plugins (upd_context p f h)) = map pc_name (h_plugins h)"
    "map pc_order (h_plugins (upd_context p f h)) = map pc_order (h_plugins h)"
    using assms by (simp_all add: plugins_upd o_def if_distrib cong: if_cong)
  from arg_cong[OF this(2), of set]
  show orders: "pc_order ` set (h_plugins (upd_context p f h)) = pc_order ` set (h_plugins h)" by simp
  have "\<forall>c \<in> set (h_plugins (upd_context p f h)). pc_name c \<noteq> [] \<and> 0 < pc_order c \<and> pc_order c < h_NextOrder h"
    unfolding plugins_upd[OF assms(1)] using assms by (auto simp: plugins_ok_def)
  then show "plugins_ok (upd_context p f h)" using assms(1) by (simp add: plugins_ok_def map)
  show "tables_ok (upd_context p f h) = tables_ok h" using orders by (simp add: tables_ok_def)
  show "lists_ok (upd_context p f h) = lists_ok h" by (simp add: lists_ok_def)
qed

lemma FindContext_Some:
  "FindContext p h = Some c \<Longrightarrow> c \<in> set (h_plugins h) \<and> pc_order c = p"
  unfolding FindContext_def by (drule find_SomeD) simp

lemma FindContext_unique: "plugins_ok h \<Longrightarrow> c \<in> set (h_plugins h) \<Longrightarrow> FindContext (pc_order c) h = Some c"
proof -
  assume ok: "plugins_ok h" and c: "c \<in> set (h_plugins h)"
  then obtain c' where c': "FindContext (pc_order c) h = Some c'"
    by (cases "FindContext (pc_order c) h") (auto simp: FindContext_def find_None_iff_all)
  then have "c' = c" using FindContext_Some[OF c'] ok c by (auto simp: plugins_ok_def distinct_map inj_on_eq_iff)
  with c' show ?thesis by simp
qed

lemma subs_owned_mono:
  assumes "subs_owned h" "\<And>ev. cl_live (h_lists h' ev) \<subseteq> cl_live (h_lists h ev)"
    and "\<And>c. c \<in> set (h_plugins h) \<Longrightarrow>
      \<exists>c' \<in> set (h_plugins h'). pc_order c' = pc_order c \<and> set (pc_subscriptions c) \<subseteq> set (pc_subscriptions c')"
  shows "subs_owned h'"
  unfolding subs_owned_def
proof (intro allI ballI)
  fix ev e assume "e \<in> cl_live (h_lists h' ev)"
  then obtain c where "c \<in> set (h_plugins h)" "pc_order c = ce_Order e" "(ce_Token e, ev) \<in> set (pc_subscriptions c)"
    using assms(1,2) unfolding subs_owned_def by blast
  with assms(3)[of c] show "\<exists>c \<in> set (h_plugins h'). pc_order c = ce_Order e \<and> (ce_Token e, ev) \<in> set (pc_subscriptions c)"
    by force
qed


lemma subs_exact_mono:
  assumes "subs_exact h" "h_NextToken h \<le> h_NextToken h'" "\<And>ev. cl_live (h_lists h' ev) \<subseteq> cl_live (h_lists h ev)"
    and "\<And>c'. c' \<in> set (h_plugins h') \<Longrightarrow> pc_subscriptions c' \<noteq> [] \<Longrightarrow>
      \<exists>c \<in> set (h_plugins h). pc_order c' = pc_order c \<and> set (pc_subscriptions c') \<subseteq> set (pc_subscriptions c)"
  shows "subs_exact h'"
  unfolding subs_exact_def
proof (intro ballI, clarify)
  fix c' token ev assume c': "c' \<in> set (h_plugins h')" "(token, ev) \<in> set (pc_subscriptions c')"
  with assms(4)[OF c'(1)] obtain c where c: "c \<in> set (h_plugins h)" "pc_order c' = pc_order c" "(token, ev) \<in> set (pc_subscriptions c)"
    by force
  with assms(1) have "token < h_NextToken h \<and> (\<forall>e \<in> cl_live (h_lists h ev). ce_Token e = token \<longrightarrow> ce_Order e = pc_order c)"
    unfolding subs_exact_def by blast
  with assms(2) assms(3)[of ev] c(2) show "token < h_NextToken h' \<and> (\<forall>e \<in> cl_live (h_lists h' ev). ce_Token e = token \<longrightarrow> ce_Order e = pc_order c')"
    by auto
qed

lemma subs_exact_other [simp]:
  "subs_exact (h\<lparr>h_Services := svs\<rparr>) = subs_exact h" "subs_exact (h\<lparr>h_Commands := cs\<rparr>) = subs_exact h"
  "subs_exact (h\<lparr>h_Clients := clients, h_CurrentMap := m, h_Languages := ls\<rparr>) = subs_exact h"
  "subs_exact (h\<lparr>h_Addons := a\<rparr>) = subs_exact h"
  by (simp_all add: subs_exact_def)

lemma upd_context_from:
  "plugins_ok h \<Longrightarrow> c' \<in> set (h_plugins (upd_context p f h)) \<Longrightarrow>
     \<exists>c \<in> set (h_plugins h). c' = (if pc_order c = p then f c else c)"
  by (auto simp: plugins_upd)

lemma subs_exact_upd:
  assumes "plugins_ok h" "subs_exact h" "\<And>c. pc_order (f c) = pc_order c" "\<And>c. set (pc_subscriptions (f c)) \<subseteq> set (pc_subscriptions c)"
  shows "subs_exact (upd_context p f h)"
  using assms(2)
proof (rule subs_exact_mono)
  fix c' assume "c' \<in> set (h_plugins (upd_context p f h))"
  from upd_context_from[OF assms(1) this] assms(3,4)
  show "\<exists>c \<in> set (h_plugins h). pc_order c' = pc_order c \<and> set (pc_subscriptions c') \<subseteq> set (pc_subscriptions c)"
    by (auto split: if_splits)
qed simp_all

lemma subs_exact_list:
  "subs_exact h \<Longrightarrow> (\<And>l. cl_live (g l) \<subseteq> cl_live l \<or> l \<noteq> h_lists h ev) \<Longrightarrow> subs_exact (upd_list ev g h)"
  by (rule subs_exact_mono[of h]) auto

lemma upd_context_mem:
  "plugins_ok h \<Longrightarrow> c \<in> set (h_plugins h) \<Longrightarrow> (if pc_order c = p then f c else c) \<in> set (h_plugins (upd_context p f h))"
  by (auto simp: plugins_upd)

lemma held_addons_upd:
  assumes "plugins_ok h" "c \<in> set (h_plugins h)"
  shows "held_addons (upd_context (pc_order c) f h) + mset (pc_addons c) = held_addons h + mset (pc_addons (f c))"
  using sum_list_update_one[of pc_order "h_plugins h" c "\<lambda>c. mset (pc_addons c)" f] assms
  by (simp add: held_addons_def plugins_upd plugins_ok_def)

lemma held_addons_same:
  "plugins_ok h \<Longrightarrow> (\<And>c. pc_addons (f c) = pc_addons c) \<Longrightarrow> held_addons (upd_context p f h) = held_addons h"
  by (simp add: held_addons_def plugins_upd o_def if_distrib cong: if_cong)

lemma addons_ok_cong: "h_Addons h' = h_Addons h \<Longrightarrow> held_addons h' = held_addons h \<Longrightarrow> addons_ok h' = addons_ok h"
  by (simp add: addons_ok_def split: option.split)

lemma addons_ok_other [simp]:
  "addons_ok (upd_list ev g h) = addons_ok h" "addons_ok (h\<lparr>h_NextToken := n\<rparr>) = addons_ok h"
  "addons_ok (h\<lparr>h_Services := svs\<rparr>) = addons_ok h" "addons_ok (h\<lparr>h_Commands := cs\<rparr>) = addons_ok h"
  "addons_ok (h\<lparr>h_Clients := clients, h_CurrentMap := m, h_Languages := ls\<rparr>) = addons_ok h"
  by (rule addons_ok_cong; simp add: held_addons_def)+

lemma tables_ok_other [simp]:
  "tables_ok (upd_list ev g h) = tables_ok h" "tables_ok (h\<lparr>h_NextToken := n\<rparr>) = tables_ok h"
  "tables_ok (h\<lparr>h_Clients := clients, h_CurrentMap := m, h_Languages := ls\<rparr>) = tables_ok h"
  "tables_ok (h\<lparr>h_Addons := a\<rparr>) = tables_ok h"
  by (simp_all add: tables_ok_def)

lemma plugins_ok_other [simp]:
  "plugins_ok (upd_list ev g h) = plugins_ok h" "plugins_ok (h\<lparr>h_NextToken := n\<rparr>) = plugins_ok h"
  "plugins_ok (h\<lparr>h_Services := svs\<rparr>) = plugins_ok h" "plugins_ok (h\<lparr>h_Commands := cs\<rparr>) = plugins_ok h"
  "plugins_ok (h\<lparr>h_Clients := clients, h_CurrentMap := m, h_Languages := ls\<rparr>) = plugins_ok h"
  "plugins_ok (h\<lparr>h_Addons := a\<rparr>) = plugins_ok h"
  by (simp_all add: plugins_ok_def)

lemma lists_ok_other [simp]:
  "lists_ok (h\<lparr>h_Services := svs\<rparr>) = lists_ok h" "lists_ok (h\<lparr>h_Commands := cs\<rparr>) = lists_ok h"
  "lists_ok (h\<lparr>h_Clients := clients, h_CurrentMap := m, h_Languages := ls\<rparr>) = lists_ok h"
  "lists_ok (h\<lparr>h_Addons := a\<rparr>) = lists_ok h"
  by (simp_all add: lists_ok_def)

lemma subs_owned_other [simp]:
  "subs_owned (h\<lparr>h_Services := svs\<rparr>) = subs_owned h" "subs_owned (h\<lparr>h_Commands := cs\<rparr>) = subs_owned h"
  "subs_owned (h\<lparr>h_Clients := clients, h_CurrentMap := m, h_Languages := ls\<rparr>) = subs_owned h"
  "subs_owned (h\<lparr>h_Addons := a\<rparr>) = subs_owned h"
  by (simp_all add: subs_owned_def)

lemma cl_below_Suc: "cl_below n l \<Longrightarrow> cl_below (Suc n) l"
  unfolding cl_below_def by (meson less_SucI)

subsection \<open>The operations of a view\<close>

lemma host_ok_Subscribe:
  assumes ok: "host_ok h" and p: "holds_context p h"
  shows "host_ok (snd (ctx_Subscribe p ev callback h))"
proof (cases callback)
  case (Some f)
  let ?sub = "\<lambda>c. c\<lparr>pc_subscriptions := pc_subscriptions c @ [(h_NextToken h, ev)]\<rparr>"
  define h1 where "h1 = upd_list ev (cl_Add (h_NextToken h) p f) (h\<lparr>h_NextToken := h_NextToken h + 1\<rparr>)"
  have plug: "plugins_ok h1" "h_plugins h1 = h_plugins h"
    using ok by (auto simp: h1_def host_ok_def plugins_ok_def)
  have add: "cl_ok (h_lists h ev)" "cl_below (h_NextToken h) (h_lists h ev)"
    using ok by (auto simp: host_ok_def lists_ok_def)
  note add = cl_Add_facts[OF add, of p f]
  have lists: "lists_ok h1"
    using ok add by (auto simp: h1_def lists_ok_def host_ok_def cl_below_Suc)
  have "subs_owned (upd_context p ?sub h1)"
    unfolding subs_owned_def
  proof (intro allI ballI)
    fix ev' e assume "e \<in> cl_live (h_lists (upd_context p ?sub h1) ev')"
    then consider "e \<in> cl_live (h_lists h ev')" | "ev' = ev" "ce_Token e = h_NextToken h" "ce_Order e = p"
      using add by (auto simp: h1_def split: if_splits)
    then show "\<exists>c \<in> set (h_plugins (upd_context p ?sub h1)). pc_order c = ce_Order e \<and> (ce_Token e, ev') \<in> set (pc_subscriptions c)"
    proof cases
      case 1
      then obtain c where "c \<in> set (h_plugins h)" "pc_order c = ce_Order e" "(ce_Token e, ev') \<in> set (pc_subscriptions c)"
        using ok by (auto simp: host_ok_def subs_owned_def)
      with upd_context_mem[OF plug(1), of c p ?sub] show ?thesis
        by (intro bexI[of _ "if pc_order c = p then ?sub c else c"]) (auto simp: plug(2))
    next
      case 2
      then obtain c where "c \<in> set (h_plugins h)" "pc_order c = p" using p by (auto simp: holds_context_def)
      with 2 upd_context_mem[OF plug(1), of c p ?sub] show ?thesis
        by (intro bexI[of _ "?sub c"]) (auto simp: plug(2))
    qed
  qed
  moreover have "tables_ok h1" "addons_ok h1"
    using ok by (simp_all add: h1_def host_ok_def)
  moreover have "addons_ok (upd_context p ?sub h1) = addons_ok h1"
    using held_addons_same[OF plug(1), of ?sub p] by (intro addons_ok_cong) auto
  moreover have "subs_exact (upd_context p ?sub h1)"
    unfolding subs_exact_def
  proof (intro ballI, clarify)
    fix c' token ev' assume c': "c' \<in> set (h_plugins (upd_context p ?sub h1))" "(token, ev') \<in> set (pc_subscriptions c')"
    obtain c where c: "c \<in> set (h_plugins h)" "c' = (if pc_order c = p then ?sub c else c)"
      using upd_context_from[OF plug(1) c'(1)] plug(2) by auto
    have exact: "token < h_NextToken h \<and> (\<forall>e \<in> cl_live (h_lists h ev'). ce_Token e = token \<longrightarrow> ce_Order e = pc_order c)"
      if "(token, ev') \<in> set (pc_subscriptions c)"
      using ok c(1) that unfolding host_ok_def subs_exact_def by blast
    have below: "\<forall>e \<in> cl_live (h_lists h ev'). ce_Token e < h_NextToken h"
      using ok by (auto simp: host_ok_def lists_ok_def cl_below_def cl_live_def)
    have order: "pc_order c' = pc_order c" using c(2) by simp
    consider "(token, ev') \<in> set (pc_subscriptions c)" | "token = h_NextToken h" "ev' = ev" "pc_order c = p"
      using c'(2) c(2) by (auto split: if_splits)
    then show "token < h_NextToken (upd_context p ?sub h1) \<and>
        (\<forall>e \<in> cl_live (h_lists (upd_context p ?sub h1) ev'). ce_Token e = token \<longrightarrow> ce_Order e = pc_order c')"
    proof cases
      case 1
      from exact[OF this] show ?thesis using add(3) by (simp add: h1_def order)
    next
      case 2
      then show ?thesis using add(3) below by (auto simp: h1_def order)
    qed
  qed
  moreover have "snd (ctx_Subscribe p ev callback h) = upd_context p ?sub h1"
    by (simp add: ctx_Subscribe_def Some Let_def h1_def)
  ultimately show ?thesis
    using upd_context_keeps[OF plug(1), of ?sub p] lists by (simp add: host_ok_def)
qed (simp add: ctx_Subscribe_def ok)

lemma Remove_lists:
  assumes "lists_ok h"
  shows "lists_ok (upd_list ev (\<lambda>l. snd (cl_Remove token l)) h)"
    "cl_live (h_lists (upd_list ev (\<lambda>l. snd (cl_Remove token l)) h) ev') =
      (if ev' = ev then {e \<in> cl_live (h_lists h ev). ce_Token e \<noteq> token} else cl_live (h_lists h ev'))"
  using assms by (auto simp: lists_ok_def cl_Remove_facts)

lemma host_ok_Unsubscribe:
  assumes ok: "host_ok h"
  shows "host_ok (ctx_Unsubscribe p token h)"
proof (cases "FindContext p h")
  case (Some c)
  show ?thesis
  proof (cases "List.find (\<lambda>held. fst held = token) (pc_subscriptions c)")
    case held: (Some held)
    let ?drop = "\<lambda>c. c\<lparr>pc_subscriptions := erase_first (\<lambda>held. fst held = token) (pc_subscriptions c)\<rparr>"
    define h1 where "h1 = upd_list (snd held) (\<lambda>l. snd (cl_Remove token l)) h"
    have c: "c \<in> set (h_plugins h)" "pc_order c = p" using FindContext_Some[OF Some] by auto
    have plug: "plugins_ok h1" "h_plugins h1 = h_plugins h" using ok by (auto simp: h1_def host_ok_def plugins_ok_def)
    have lists: "lists_ok h1" using ok by (simp add: h1_def host_ok_def Remove_lists(1))
    have erased: "s \<in> set (erase_first (\<lambda>held. fst held = token) subs)"
      if "s \<in> set subs" "s \<noteq> the (List.find (\<lambda>held. fst held = token) subs)" for s subs
      using that by (induction subs) (auto split: if_splits)
    have "subs_owned (upd_context p ?drop h1)"
      unfolding subs_owned_def
    proof (intro allI ballI)
      fix ev e assume "e \<in> cl_live (h_lists (upd_context p ?drop h1) ev)"
      then have e: "e \<in> cl_live (h_lists h ev)" "ev = snd held \<Longrightarrow> ce_Token e \<noteq> token"
        using ok Remove_lists(2)[of h "snd held" token ev] by (auto simp: h1_def host_ok_def split: if_splits)
      then obtain c' where c': "c' \<in> set (h_plugins h)" "pc_order c' = ce_Order e" "(ce_Token e, ev) \<in> set (pc_subscriptions c')"
        using ok by (auto simp: host_ok_def subs_owned_def)
      have "(ce_Token e, ev) \<in> set (pc_subscriptions (if pc_order c' = p then ?drop c' else c'))"
      proof (cases "pc_order c' = p")
        case True
        then have "c' = c" using c c'(1) ok by (auto simp: host_ok_def plugins_ok_def distinct_map inj_on_eq_iff)
        moreover have "(ce_Token e, ev) \<noteq> held" using e(2) find_SomeD[OF held] by auto
        ultimately show ?thesis using c'(3) held True erased[of "(ce_Token e, ev)" "pc_subscriptions c"] by simp
      qed (use c' in simp)
      then show "\<exists>c \<in> set (h_plugins (upd_context p ?drop h1)). pc_order c = ce_Order e \<and> (ce_Token e, ev) \<in> set (pc_subscriptions c)"
        using upd_context_mem[OF plug(1), of c' p ?drop] c' plug(2)
        by (intro bexI[of _ "if pc_order c' = p then ?drop c' else c'"]) auto
    qed
    moreover have "tables_ok h1" "addons_ok h1"
      using ok by (simp_all add: h1_def host_ok_def)
    moreover have "addons_ok (upd_context p ?drop h1) = addons_ok h1"
      using held_addons_same[OF plug(1), of ?drop p] by (intro addons_ok_cong) auto
    moreover have "subs_exact h1"
      unfolding h1_def
    proof (rule subs_exact_mono)
      show "subs_exact h" using ok by (simp add: host_ok_def)
      show "cl_live (h_lists (upd_list (snd held) (\<lambda>l. snd (cl_Remove token l)) h) ev) \<subseteq> cl_live (h_lists h ev)" for ev
        using Remove_lists(2)[of h "snd held" token ev] ok by (auto simp: host_ok_def)
    qed auto
    then have "subs_exact (upd_context p ?drop h1)"
      by (intro subs_exact_upd[OF plug(1)]) (simp_all add: set_erase_first_subset)
    ultimately show ?thesis
      using upd_context_keeps[OF plug(1), of ?drop p] lists
      by (simp add: ctx_Unsubscribe_def Some held h1_def[symmetric] host_ok_def)
  qed (simp add: ctx_Unsubscribe_def Some ok)
qed (simp add: ctx_Unsubscribe_def ok)


lemma pi_Publish_owner:
  assumes "distinct (map sv_Name svs)"
  shows "distinct (map sv_Name (pi_Publish p name implementation svs)) \<and>
     sv_Owner ` set (pi_Publish p name implementation svs) \<subseteq> insert p (sv_Owner ` set svs)"
proof
  show "distinct (map sv_Name (pi_Publish p name implementation svs))"
    using assms by (auto simp: pi_Publish_def map_update_first_key find_None_iff_all split: option.split)
  show "sv_Owner ` set (pi_Publish p name implementation svs) \<subseteq> insert p (sv_Owner ` set svs)"
    using assms by (auto simp: pi_Publish_def update_first_distinct split: option.split)
qed

lemma pi_Unpublish_owner:
  "distinct (map sv_Name svs) \<Longrightarrow> distinct (map sv_Name (pi_Unpublish p name svs)) \<and>
     sv_Owner ` set (pi_Unpublish p name svs) \<subseteq> sv_Owner ` set svs"
  by (auto simp: pi_Unpublish_def erase_first_distinct distinct_map_filter_key split: option.split)

lemma cn_Register_owner:
  "distinct (map cn_Name cns) \<Longrightarrow> distinct (map cn_Name (snd (cn_Register p ownerName name cns))) \<and>
     cn_Owner ` set (snd (cn_Register p ownerName name cns)) \<subseteq> insert p (cn_Owner ` set cns)"
  by (auto simp: cn_Register_def find_None_iff_all split: option.split)

lemma host_ok_Publish:
  assumes "host_ok h" "holds_context p h" shows "host_ok (ctx_Publish p name implementation h)"
proof -
  have "distinct (map sv_Name (h_Services h))" using assms(1) by (simp add: host_ok_def tables_ok_def)
  from pi_Publish_owner[OF this, of p name implementation] have
    "distinct (map sv_Name (pi_Publish p name implementation (h_Services h)))"
    "sv_Owner ` set (pi_Publish p name implementation (h_Services h)) \<subseteq> insert p (sv_Owner ` set (h_Services h))"
    by simp_all
  moreover have "insert p (sv_Owner ` set (h_Services h)) \<subseteq> pc_order ` set (h_plugins h)"
    using assms by (simp add: host_ok_def tables_ok_def holds_context_def)
  ultimately have
    "distinct (map sv_Name (pi_Publish p name implementation (h_Services h)))"
    "sv_Owner ` set (pi_Publish p name implementation (h_Services h)) \<subseteq> pc_order ` set (h_plugins h)"
    by (simp_all only: subset_trans)
  with assms show ?thesis by (simp add: ctx_Publish_def host_ok_def tables_ok_def)
qed

lemma host_ok_Unpublish:
  assumes "host_ok h" shows "host_ok (ctx_Unpublish q name h)"
proof -
  have "distinct (map sv_Name (h_Services h))" using assms(1) by (simp add: host_ok_def tables_ok_def)
  from pi_Unpublish_owner[OF this, of q name] have
    "distinct (map sv_Name (pi_Unpublish q name (h_Services h)))"
    "sv_Owner ` set (pi_Unpublish q name (h_Services h)) \<subseteq> sv_Owner ` set (h_Services h)"
    by simp_all
  moreover have "sv_Owner ` set (h_Services h) \<subseteq> pc_order ` set (h_plugins h)"
    using assms by (simp add: host_ok_def tables_ok_def)
  ultimately have
    "distinct (map sv_Name (pi_Unpublish q name (h_Services h)))"
    "sv_Owner ` set (pi_Unpublish q name (h_Services h)) \<subseteq> pc_order ` set (h_plugins h)"
    by (simp_all only: subset_trans)
  with assms show ?thesis by (simp add: ctx_Unpublish_def host_ok_def tables_ok_def)
qed

lemma host_ok_Register:
  assumes ok: "host_ok h" shows "host_ok (snd (ctx_RegisterCommand p name h))"
proof (cases "FindContext p h")
  case (Some c)
  have "p \<in> pc_order ` set (h_plugins h)" using FindContext_Some[OF Some] by auto
  then have "insert p (cn_Owner ` set (h_Commands h)) \<subseteq> insert 0 (pc_order ` set (h_plugins h))"
    using ok by (simp add: host_ok_def tables_ok_def)
  moreover have d: "distinct (map cn_Name (h_Commands h))" using ok by (simp add: host_ok_def tables_ok_def)
  ultimately have "distinct (map cn_Name (snd (cn_Register p (pc_name c) name (h_Commands h))))"
    "cn_Owner ` set (snd (cn_Register p (pc_name c) name (h_Commands h))) \<subseteq> insert 0 (pc_order ` set (h_plugins h))"
    using cn_Register_owner[OF d, of p "pc_name c" name] by (simp, meson subset_trans)
  with ok show ?thesis
    by (simp add: ctx_RegisterCommand_def Some host_ok_def tables_ok_def case_prod_beta)
qed (simp add: ctx_RegisterCommand_def ok)

lemma wd_Add_holders:
  assumes "wd_ok w" "wd_Add env i w = (b, w')"
  shows "wd_ok w' \<and> holders (wd_queue w') = (if b then add_mset i (holders (wd_queue w)) else holders (wd_queue w))"
proof -
  have "wd_ok w'" using wd_ok_Add[OF assms(1), of env i] assms(2) by simp
  moreover have "dq_ok (wd_queue w)" using assms(1) by (simp add: wd_ok_def)
  ultimately show ?thesis
    using assms(2) dq_Add_holders[of "wd_queue w" i]
    by (auto simp: wd_Add_def wd_Install_def dq_Add_def split: if_splits sum.splits prod.splits)
qed

lemma wd_Remove_holders:
  assumes "wd_ok w"
  shows "wd_ok (wd_Remove i w) \<and> holders (wd_queue (wd_Remove i w)) = holders (wd_queue w) - {#i#}"
proof -
  have "dq_ok (wd_queue w)" using assms by (simp add: wd_ok_def)
  then show ?thesis
    using wd_ok_Remove[OF assms, of i] dq_Remove_holders[of "wd_queue w" i]
    by (simp add: wd_Remove_def wd_RemoveHooksIfUnused_def holders_def)
qed

lemma wd_Remove_all:
  "wd_ok w \<Longrightarrow> wd_ok (fold wd_Remove is w) \<and> holders (wd_queue (fold wd_Remove is w)) = holders (wd_queue w) - mset is"
proof (induction "is" arbitrary: w)
  case (Cons i "is")
  with Cons.IH[of "wd_Remove i w"] wd_Remove_holders[of w i] show ?case by (simp add: diff_diff_add)
qed simp

lemma subs_owned_upd:
  assumes "plugins_ok h" "subs_owned h" "\<And>c. pc_order (f c) = pc_order c" "\<And>c. pc_subscriptions (f c) = pc_subscriptions c"
  shows "subs_owned (upd_context p f h)"
  using assms(2)
proof (rule subs_owned_mono)
  fix c assume "c \<in> set (h_plugins h)"
  from upd_context_mem[OF assms(1) this, of p f]
  show "\<exists>c' \<in> set (h_plugins (upd_context p f h)). pc_order c' = pc_order c \<and> set (pc_subscriptions c) \<subseteq> set (pc_subscriptions c')"
    using assms(3,4) by (intro bexI[of _ "if pc_order c = p then f c else c"]) auto
qed simp

lemma host_ok_AddAddon:
  assumes ok: "host_ok h" and p: "holds_context p h"
  shows "host_ok (snd (ctx_AddAddon env p addonId h))"
proof (cases "h_Addons h")
  case (Some w)
  obtain b w' where add: "wd_Add env addonId w = (b, w')" by fastforce
  obtain c where c: "c \<in> set (h_plugins h)" "pc_order c = p" using p by (auto simp: holds_context_def)
  have w: "wd_ok w" "holders (wd_queue w) = held_addons h" using ok Some by (auto simp: host_ok_def addons_ok_def)
  note add' = wd_Add_holders[OF w(1) add]
  let ?add = "\<lambda>c. c\<lparr>pc_addons := pc_addons c @ [addonId]\<rparr>"
  let ?h = "h\<lparr>h_Addons := Some w'\<rparr>"
  have plug: "plugins_ok ?h" "subs_owned ?h" "lists_ok ?h" "tables_ok ?h" "subs_exact ?h" using ok by (simp_all add: host_ok_def)
  have held: "held_addons ?h = held_addons h" by (simp add: held_addons_def)
  have "held_addons (upd_context p ?add ?h) + mset (pc_addons c) = held_addons ?h + mset (pc_addons (?add c))"
    using held_addons_upd[OF plug(1), of c ?add] c by simp
  then have "held_addons (upd_context p ?add ?h) = add_mset addonId (held_addons h)"
    by (simp add: held)
  then have "host_ok (upd_context p ?add ?h)" if b
    using that add' w plug upd_context_keeps[OF plug(1), of ?add p] subs_owned_upd[OF plug(1,2), of ?add p]
      subs_exact_upd[OF plug(1,5), of ?add p]
    by (simp add: host_ok_def addons_ok_def)
  moreover have "host_ok ?h" if "\<not> b"
    using that add' w plug held by (simp add: host_ok_def addons_ok_def)
  ultimately show ?thesis by (cases b) (simp_all add: ctx_AddAddon_def Some add)
qed (simp add: ctx_AddAddon_def ok)

lemma erase_first_mset: "x \<in> set xs \<Longrightarrow> mset (erase_first (\<lambda>y. y = x) xs) = mset xs - {#x#}"
  by (induction xs) auto

lemma host_ok_RemoveAddon:
  assumes ok: "host_ok h"
  shows "host_ok (ctx_RemoveAddon p addonId h)"
proof (cases "FindContext p h")
  case (Some c)
  have c: "c \<in> set (h_plugins h)" "pc_order c = p" using FindContext_Some[OF Some] by auto
  show ?thesis
  proof (cases "addonId \<in> set (pc_addons c)")
    case True
    let ?rm = "\<lambda>c. c\<lparr>pc_addons := erase_first (\<lambda>i. i = addonId) (pc_addons c)\<rparr>"
    define h1 where "h1 = upd_context p ?rm h"
    have plug: "plugins_ok h" "subs_owned h" "lists_ok h" "tables_ok h" "subs_exact h" using ok by (simp_all add: host_ok_def)
    have mem: "mset (pc_addons c) \<subseteq># held_addons h"
      using c(1) by (auto simp: held_addons_def in_set_conv_decomp)
    have "held_addons h1 + mset (pc_addons c) = held_addons h + (mset (pc_addons c) - {#addonId#})"
      using held_addons_upd[OF plug(1) c(1), of ?rm] True by (simp add: c(2) h1_def erase_first_mset)
    then have held: "held_addons h1 = held_addons h - {#addonId#}"
      using True mem by (metis add_diff_cancel_right' add_mset_remove_trivial_If diff_union_single_conv mset_subset_eqD
          set_mset_mset subset_mset.add_diff_assoc2 subset_mset.diff_add union_commute)
    have h1: "plugins_ok h1" "subs_owned h1" "lists_ok h1" "tables_ok h1" "subs_exact h1" "h_Addons h1 = h_Addons h"
      using plug upd_context_keeps[OF plug(1), of ?rm p] subs_owned_upd[OF plug(1,2), of ?rm p]
        subs_exact_upd[OF plug(1,5), of ?rm p] by (simp_all add: h1_def)
    have "addons_ok (h1\<lparr>h_Addons := map_option (wd_Remove addonId) (h_Addons h)\<rparr>)"
    proof (cases "h_Addons h")
      case None
      then show ?thesis using ok held by (simp add: host_ok_def addons_ok_def) (simp add: held_addons_def)
    next
      case w: (Some w)
      then have "wd_ok w" "holders (wd_queue w) = held_addons h" using ok by (simp_all add: host_ok_def addons_ok_def)
      with wd_Remove_holders[of w addonId] held w show ?thesis
        by (simp add: addons_ok_def) (simp add: held_addons_def)
    qed
    then show ?thesis using h1 True by (simp add: ctx_RemoveAddon_def Some h1_def[symmetric] host_ok_def)
  qed (simp add: ctx_RemoveAddon_def Some ok)
qed (simp add: ctx_RemoveAddon_def ok)


lemma host_ok_engine:
  "host_ok h \<Longrightarrow> host_ok (h\<lparr>h_Clients := clients, h_CurrentMap := m, h_Languages := ls\<rparr>)"
  by (simp add: host_ok_def)

lemma host_ok_lists:
  assumes "host_ok h" "cl_ok (g (h_lists h ev))" "cl_below (h_NextToken h) (g (h_lists h ev))"
    "cl_live (g (h_lists h ev)) \<subseteq> cl_live (h_lists h ev)"
  shows "host_ok (upd_list ev g h)"
proof -
  have "lists_ok (upd_list ev g h)" using assms by (simp add: host_ok_def lists_ok_def)
  moreover have "subs_owned (upd_list ev g h)"
  proof (rule subs_owned_mono)
    show "subs_owned h" using assms(1) by (simp add: host_ok_def)
    show "cl_live (h_lists (upd_list ev g h) ev') \<subseteq> cl_live (h_lists h ev')" for ev'
      using assms(4) by simp
  qed auto
  moreover have "subs_exact (upd_list ev g h)"
    using assms(1,4) by (intro subs_exact_list) (auto simp: host_ok_def)
  ultimately show ?thesis using assms(1) by (simp add: host_ok_def)
qed

lemma host_ok_list: "host_ok h \<Longrightarrow> cl_ok (h_lists h ev) \<and> cl_below (h_NextToken h) (h_lists h ev)"
  by (simp add: host_ok_def lists_ok_def)

lemma host_ok_begin: "host_ok h \<Longrightarrow> host_ok (upd_list ev cl_begin h)"
  using host_ok_list[of h ev] by (intro host_ok_lists) (auto simp: cl_begin_facts)

lemma host_ok_end: "host_ok h \<Longrightarrow> 0 < cl_depth (h_lists h ev) \<Longrightarrow> host_ok (upd_list ev cl_end h)"
  using host_ok_list[of h ev] by (intro host_ok_lists) (auto simp: cl_end_facts)

section \<open>Passes keep their entries\<close>

definition list_kept :: "'f CallbackList \<Rightarrow> 'f CallbackList \<Rightarrow> bool" where
  "list_kept l m \<longleftrightarrow> cl_depth m = cl_depth l \<and> (0 < cl_depth l \<longrightarrow> cl_kept l m)"

lemma list_kept_refl [simp]: "list_kept l l"
  by (simp add: list_kept_def)

lemma list_kept_trans: "list_kept l m \<Longrightarrow> list_kept m n \<Longrightarrow> list_kept l n"
  by (auto simp: list_kept_def intro: cl_kept_trans)

lemma list_kept_ops:
  assumes "cl_ok l"
  shows "list_kept l (cl_Add token order f l)" "list_kept l (snd (cl_Remove token l))"
  using assms cl_kept_ops[OF assms] cl_Remove_facts(5)[OF assms]
  by (auto simp: list_kept_def) (simp add: cl_Add_def Let_def)

lemma list_kept_pass:
  assumes "cl_ok l" "list_kept (cl_begin l) m"
  shows "list_kept l (cl_end m)"
proof -
  have m: "cl_depth m = Suc (cl_depth l)" "cl_kept (cl_begin l) m"
    using assms(2) by (auto simp: list_kept_def cl_begin_def)
  then have "cl_depth (cl_end m) = cl_depth l"
    by (auto simp: cl_end_def Let_def cl_ApplyPending_def)
  moreover have "cl_kept l (cl_end m)" if "0 < cl_depth l"
  proof -
    have "cl_kept l m" by (rule cl_kept_trans[OF cl_kept_ops(3)[OF assms(1) that] m(2)])
    moreover have "cl_entries (cl_end m) = cl_entries m" using m(1) that by (simp add: cl_end_def Let_def)
    ultimately show ?thesis by (simp add: cl_kept_def)
  qed
  ultimately show ?thesis by (simp add: list_kept_def)
qed

lemma ctx_lists:
  "h_lists (snd (ctx_Subscribe p e callback h)) ev =
     (case callback of None \<Rightarrow> h_lists h ev
      | Some f \<Rightarrow> if ev = e then cl_Add (h_NextToken h) p f (h_lists h ev) else h_lists h ev)"
  "h_lists (ctx_Publish p name implementation h) = h_lists h"
  "h_lists (ctx_Unpublish p name h) = h_lists h"
  "h_lists (snd (ctx_RegisterCommand p name h)) = h_lists h"
  "h_lists (snd (ctx_AddAddon env p addonId h)) = h_lists h"
  "h_lists (ctx_RemoveAddon p addonId h) = h_lists h"
  by (auto simp: ctx_Subscribe_def Let_def ctx_Publish_def ctx_Unpublish_def ctx_RegisterCommand_def ctx_AddAddon_def
      ctx_RemoveAddon_def split: option.split prod.split bool.split)

lemma ctx_Unsubscribe_lists:
  "cl_ok (h_lists h ev) \<Longrightarrow> list_kept (h_lists h ev) (h_lists (ctx_Unsubscribe p token h) ev)"
  by (auto simp: ctx_Unsubscribe_def list_kept_ops split: option.split)

lemma host_api_facts:
  "host_api h s \<Longrightarrow> host_ok h \<Longrightarrow> host_ok s \<and> (\<forall>ev. list_kept (h_lists h ev) (h_lists s ev))"
proof (induction rule: host_api.induct)
  case (host_Subscribe h s p ev callback)
  then have s: "host_ok s" "\<And>ev. list_kept (h_lists h ev) (h_lists s ev)" by auto
  have "list_kept (h_lists s ev') (h_lists (snd (ctx_Subscribe p ev callback s)) ev')" for ev'
    using host_ok_list[OF s(1), of ev'] list_kept_ops(1) by (auto simp: ctx_lists split: option.split)
  then show ?case using host_ok_Subscribe[OF s(1) host_Subscribe.hyps(2)] s(2) list_kept_trans by blast
next
  case (host_Unsubscribe h s p token)
  then have s: "host_ok s" "\<And>ev. list_kept (h_lists h ev) (h_lists s ev)" by auto
  have "list_kept (h_lists s ev) (h_lists (ctx_Unsubscribe p token s) ev)" for ev
    using host_ok_list[OF s(1), of ev] by (intro ctx_Unsubscribe_lists) simp
  then show ?case using host_ok_Unsubscribe[OF s(1)] s(2) list_kept_trans by blast
next
  case (host_pass h s ev t)
  then have s: "host_ok s" "\<And>ev. list_kept (h_lists h ev) (h_lists s ev)" by auto
  have t: "host_ok t" "\<And>ev'. list_kept (h_lists (upd_list ev cl_begin s) ev') (h_lists t ev')"
    using host_pass.IH(2) host_ok_begin[OF s(1)] by auto
  then have "0 < cl_depth (h_lists t ev)" by (auto simp: list_kept_def cl_begin_def dest: spec[of _ ev])
  then have "host_ok (upd_list ev cl_end t)" using t(1) by (intro host_ok_end)
  moreover have "list_kept (h_lists s ev') (h_lists (upd_list ev cl_end t) ev')" for ev'
    using t(2)[of ev'] list_kept_pass host_ok_list[OF s(1), of ev] by (auto split: if_splits)
  ultimately show ?case using s(2) list_kept_trans by blast
qed (auto simp: host_ok_Publish host_ok_Unpublish host_ok_Register host_ok_AddAddon host_ok_RemoveAddon host_ok_engine ctx_lists)

lemma host_api_trans: "host_api s t \<Longrightarrow> host_api r s \<Longrightarrow> host_api r t"
  by (induction rule: host_api.induct) (auto intro: host_api.intros)

interpretation host_event: reentrant_store
  "\<lambda>s. map ce_Token (cl_entries (host_get ev s))" "cl_runs (host_get ev)"
  "\<lambda>s. host_ok (fst s) \<and> 0 < cl_depth (host_get ev s)" "\<lambda>s t. host_api (fst s) (fst t)" for ev
proof (unfold_locales, goal_cases)
  case (1 s)
  show ?case by (rule host_refl)
next
  case (2 s t u)
  then show ?case by (blast intro: host_api_trans)
next
  case (3 s t)
  then show ?case using host_api_facts[of "fst s" "fst t"] by (auto simp: host_get_def list_kept_def)
next
  case (4 s t)
  then show ?case using host_api_facts[of "fst s" "fst t"] by (auto simp: host_get_def list_kept_def cl_kept_def)
next
  case (5 s t i)
  then show ?case
    using host_api_facts[of "fst s" "fst t"] by (auto simp: host_get_def list_kept_def cl_kept_def cl_runs_def)
qed


section \<open>Loading and removing a plugin\<close>

lemma FindPlugin_Some: "FindPlugin name h = Some c \<Longrightarrow> c \<in> set (h_plugins h) \<and> pc_name c = name"
  unfolding FindPlugin_def by (drule find_SomeD) simp

lemma host_ok_AddPlugin:
  assumes ok: "host_ok h"
  shows "host_ok (snd (AddPlugin name logTag version h))"
proof (cases "name = [] \<or> FindPlugin name h \<noteq> None")
  case False
  define h' where "h' = snd (AddPlugin name logTag version h)"
  obtain c where h': "h_plugins h' = h_plugins h @ [c]" "pc_name c = name" "pc_order c = h_NextOrder h" "pc_addons c = []"
    "h_NextOrder h' = h_NextOrder h + 1" "h_lists h' = h_lists h" "h_NextToken h' = h_NextToken h"
    "h_Services h' = h_Services h" "h_Commands h' = h_Commands h" "h_Addons h' = h_Addons h"
    "pc_subscriptions c = []"
    using False by (simp add: h'_def AddPlugin_def Let_def)
  have "plugins_ok h'"
    using ok False h' by (auto simp: host_ok_def plugins_ok_def FindPlugin_def find_None_iff_all less_Suc_eq)
  moreover have "lists_ok h'" using ok h' by (simp add: host_ok_def lists_ok_def)
  moreover have "subs_owned h'"
  proof (rule subs_owned_mono)
    show "subs_owned h" using ok by (simp add: host_ok_def)
  qed (use h' in auto)
  moreover have "subs_exact h'"
  proof (rule subs_exact_mono)
    show "subs_exact h" using ok by (simp add: host_ok_def)
  qed (use h' in auto)
  moreover have "tables_ok h'" using ok h' by (auto simp: host_ok_def tables_ok_def)
  moreover have "held_addons h' = held_addons h" using h' by (simp add: held_addons_def)
  then have "addons_ok h'" using ok addons_ok_cong[of h' h] h' by (simp add: host_ok_def)
  ultimately show ?thesis by (simp add: host_ok_def h'_def)
qed (auto simp: AddPlugin_def ok)

lemma drop_subscriptions_fields [simp]:
  "h_plugins (drop_subscriptions subs h) = h_plugins h" "h_NextToken (drop_subscriptions subs h) = h_NextToken h"
  "h_NextOrder (drop_subscriptions subs h) = h_NextOrder h" "h_Services (drop_subscriptions subs h) = h_Services h"
  "h_Commands (drop_subscriptions subs h) = h_Commands h" "h_Addons (drop_subscriptions subs h) = h_Addons h"
  "plugins_ok (drop_subscriptions subs h) = plugins_ok h"
  by (induction subs h rule: drop_subscriptions.induct) auto

lemma drop_subscriptions_lists:
  "lists_ok h \<Longrightarrow> lists_ok (drop_subscriptions subs h) \<and>
     cl_live (h_lists (drop_subscriptions subs h) ev) = {e \<in> cl_live (h_lists h ev). (ce_Token e, ev) \<notin> set subs} \<and>
     (\<forall>ev. cl_depth (h_lists (drop_subscriptions subs h) ev) = cl_depth (h_lists h ev))"
proof (induction subs h rule: drop_subscriptions.induct)
  case (2 token e rest h)
  have l: "lists_ok (upd_list e (\<lambda>l. snd (cl_Remove token l)) h)" by (rule Remove_lists(1)[OF 2(2)])
  have "cl_depth (snd (cl_Remove token (h_lists h e))) = cl_depth (h_lists h e)"
    using 2(2) by (simp add: lists_ok_def cl_Remove_facts)
  then show ?case
    using 2(1)[OF l] Remove_lists(2)[OF 2(2), of e token ev] by auto
qed simp

text \<open>What is left of the host once a plugin's view is gone.\<close>

lemma RemovePlugin_fields:
  assumes ok: "host_ok h" and c: "FindPlugin name h = Some c"
  defines "h' \<equiv> snd (RemovePlugin name h)"
  shows "h_lists h' = h_lists (drop_subscriptions (pc_subscriptions c) h)"
    "h_plugins h' = filter (\<lambda>d. pc_name d \<noteq> name) (h_plugins h)"
    "h_Services h' = filter (\<lambda>s. sv_Owner s \<noteq> pc_order c) (h_Services h)"
    "h_Commands h' = filter (\<lambda>e. cn_Owner e \<noteq> pc_order c) (h_Commands h)"
    "h_Addons h' = map_option (fold wd_Remove (pc_addons c)) (h_Addons h)"
    "h_NextToken h' = h_NextToken h" "h_NextOrder h' = h_NextOrder h"
    "fst (RemovePlugin name h) = \<lparr>lk_Subscriptions = map (event_name \<circ> snd) (pc_subscriptions c),
       lk_Services = map sv_Name (filter (\<lambda>s. sv_Owner s = pc_order c) (h_Services h)), lk_Addons = pc_addons c\<rparr>"
proof -
  have plug: "plugins_ok h" using ok by (simp add: host_ok_def)
  have cm: "c \<in> set (h_plugins h)" "pc_name c = name" using FindPlugin_Some[OF c] by auto
  have same: "pc_order d = pc_order c \<longleftrightarrow> pc_name d = name" if "d \<in> set (h_plugins h)" for d
    using plug cm that by (auto simp: plugins_ok_def distinct_map inj_on_eq_iff)
  define h1 where "h1 = upd_context (pc_order c) (\<lambda>c. c\<lparr>pc_subscriptions := []\<rparr>) (drop_subscriptions (pc_subscriptions c) h)"
  define h2 where "h2 = upd_context (pc_order c) (\<lambda>c. c\<lparr>pc_addons := []\<rparr>) (h1\<lparr>h_Services := snd (pi_RemoveAll (pc_order c) (h_Services h))\<rparr>)"
  have all: "RemovePlugin name h = (\<lparr>lk_Subscriptions = map (event_name \<circ> snd) (pc_subscriptions c),
      lk_Services = fst (pi_RemoveAll (pc_order c) (h_Services h)), lk_Addons = pc_addons c\<rparr>,
      h2\<lparr>h_Addons := map_option (fold wd_Remove (pc_addons c)) (h_Addons h), h_Commands := cn_RemoveAll (pc_order c) (h_Commands h),
        h_plugins := erase_first (\<lambda>c. pc_name c = name) (h_plugins h2)\<rparr>)"
    by (simp add: RemovePlugin_def c ctx_RemoveAll_def FindContext_unique[OF plug cm(1)] Let_def h2_def h1_def case_prod_beta)
  have p1: "plugins_ok h1" using upd_context_keeps(1)[of "drop_subscriptions (pc_subscriptions c) h"] plug by (simp add: h1_def)
  then have p1': "plugins_ok (h1\<lparr>h_Services := snd (pi_RemoveAll (pc_order c) (h_Services h))\<rparr>)" by simp
  have "plugins_ok h2" using upd_context_keeps(1)[OF p1'] by (simp add: h2_def)
  then have "erase_first (\<lambda>c. pc_name c = name) (h_plugins h2) = filter (\<lambda>d. pc_name d \<noteq> name) (h_plugins h2)"
    by (simp add: plugins_ok_def erase_first_distinct)
  moreover have "h_plugins h2 = map (\<lambda>d. if pc_order d = pc_order c then d\<lparr>pc_subscriptions := [], pc_addons := []\<rparr> else d) (h_plugins h)"
    using plugins_upd[OF p1'] plugins_upd[of "drop_subscriptions (pc_subscriptions c) h"] plug
    by (simp add: h2_def h1_def)
  moreover have "filter (\<lambda>d. pc_name d \<noteq> name) (map (\<lambda>d. if pc_order d = pc_order c then d\<lparr>pc_subscriptions := [], pc_addons := []\<rparr> else d) ds) =
      filter (\<lambda>d. pc_name d \<noteq> name) ds" if "set ds \<subseteq> set (h_plugins h)" for ds
    using that by (induction ds) (auto simp: same)
  ultimately have plugins: "erase_first (\<lambda>c. pc_name c = name) (h_plugins h2) = filter (\<lambda>d. pc_name d \<noteq> name) (h_plugins h)"
    by simp
  have h2: "h_lists h2 = h_lists (drop_subscriptions (pc_subscriptions c) h)" "h_NextToken h2 = h_NextToken h"
    "h_NextOrder h2 = h_NextOrder h" "h_Services h2 = snd (pi_RemoveAll (pc_order c) (h_Services h))"
    by (simp_all add: h2_def h1_def)
  show "h_lists h' = h_lists (drop_subscriptions (pc_subscriptions c) h)"
    "h_plugins h' = filter (\<lambda>d. pc_name d \<noteq> name) (h_plugins h)"
    "h_Services h' = filter (\<lambda>s. sv_Owner s \<noteq> pc_order c) (h_Services h)"
    "h_Commands h' = filter (\<lambda>e. cn_Owner e \<noteq> pc_order c) (h_Commands h)"
    "h_Addons h' = map_option (fold wd_Remove (pc_addons c)) (h_Addons h)"
    "h_NextToken h' = h_NextToken h" "h_NextOrder h' = h_NextOrder h"
    "fst (RemovePlugin name h) = \<lparr>lk_Subscriptions = map (event_name \<circ> snd) (pc_subscriptions c),
       lk_Services = map sv_Name (filter (\<lambda>s. sv_Owner s = pc_order c) (h_Services h)), lk_Addons = pc_addons c\<rparr>"
    by (simp_all add: h'_def all plugins h2 pi_RemoveAll_def cn_RemoveAll_def)
qed

lemma sum_list_remove_one:
  fixes g :: "'a \<Rightarrow> 'b multiset"
  assumes "distinct (map k xs)" "c \<in> set xs"
  shows "(\<Sum>x \<leftarrow> filter (\<lambda>x. k x \<noteq> k c) xs. g x) + g c = (\<Sum>x \<leftarrow> xs. g x)"
  using assms
proof (induction xs)
  case (Cons x xs)
  show ?case
  proof (cases "x = c")
    case True
    then have "filter (\<lambda>y. k y \<noteq> k c) xs = xs" using Cons.prems(1) by (auto simp: filter_id_conv image_iff)
    with True show ?thesis by simp
  next
    case False
    then have "c \<in> set xs" "k x \<noteq> k c" using Cons.prems by (auto simp: image_iff)
    with Cons show ?thesis by (simp add: ac_simps)
  qed
qed simp

lemma RemovePlugin_live:
  assumes ok: "host_ok h" and c: "FindPlugin name h = Some c"
  shows "cl_live (h_lists (snd (RemovePlugin name h)) ev) = {e \<in> cl_live (h_lists h ev). (ce_Token e, ev) \<notin> set (pc_subscriptions c)}"
    "e \<in> cl_live (h_lists (snd (RemovePlugin name h)) ev) \<Longrightarrow> ce_Order e \<noteq> pc_order c"
proof -
  show live: "cl_live (h_lists (snd (RemovePlugin name h)) ev) = {e \<in> cl_live (h_lists h ev). (ce_Token e, ev) \<notin> set (pc_subscriptions c)}"
    using drop_subscriptions_lists[of h "pc_subscriptions c" ev] ok by (simp add: RemovePlugin_fields[OF ok c] host_ok_def)
  assume "e \<in> cl_live (h_lists (snd (RemovePlugin name h)) ev)"
  then have e: "e \<in> cl_live (h_lists h ev)" "(ce_Token e, ev) \<notin> set (pc_subscriptions c)" by (auto simp: live)
  then obtain d where d: "d \<in> set (h_plugins h)" "pc_order d = ce_Order e" "(ce_Token e, ev) \<in> set (pc_subscriptions d)"
    using ok by (auto simp: host_ok_def subs_owned_def)
  have "plugins_ok h" using ok by (simp add: host_ok_def)
  then have "pc_order d \<noteq> pc_order c"
    using d e FindPlugin_Some[OF c] by (auto simp: plugins_ok_def distinct_map inj_on_eq_iff)
  with d show "ce_Order e \<noteq> pc_order c" by simp
qed

lemma host_ok_RemovePlugin:
  assumes ok: "host_ok h"
  shows "host_ok (snd (RemovePlugin name h))"
proof (cases "FindPlugin name h")
  case (Some c)
  define h' where "h' = snd (RemovePlugin name h)"
  note f = RemovePlugin_fields[OF ok Some, folded h'_def]
  note live = RemovePlugin_live[OF ok Some, folded h'_def]
  have c: "c \<in> set (h_plugins h)" "pc_name c = name" using FindPlugin_Some[OF Some] by auto
  have plug: "plugins_ok h" using ok by (simp add: host_ok_def)
  have orders: "pc_order ` set (h_plugins h') = pc_order ` set (h_plugins h) - {pc_order c}"
    using plug c by (auto simp: f(2) plugins_ok_def distinct_map inj_on_eq_iff)
  have "lists_ok h'"
    using drop_subscriptions_lists[of h "pc_subscriptions c"] ok f(1,6) by (simp add: host_ok_def lists_ok_def)
  moreover have "subs_owned h'"
    unfolding subs_owned_def
  proof (intro allI ballI)
    fix ev e assume e: "e \<in> cl_live (h_lists h' ev)"
    then have "e \<in> cl_live (h_lists h ev)" using live(1) by simp
    then obtain d where d: "d \<in> set (h_plugins h)" "pc_order d = ce_Order e" "(ce_Token e, ev) \<in> set (pc_subscriptions d)"
      using ok unfolding host_ok_def subs_owned_def by blast
    then have "pc_order d \<noteq> pc_order c" using live(2)[OF e] by simp
    then have "pc_name d \<noteq> name" using d(1) c plug by (auto simp: plugins_ok_def distinct_map inj_on_eq_iff)
    with d show "\<exists>d \<in> set (h_plugins h'). pc_order d = ce_Order e \<and> (ce_Token e, ev) \<in> set (pc_subscriptions d)"
      by (auto simp: f(2))
  qed
  moreover have "subs_exact h'"
  proof (rule subs_exact_mono)
    show "subs_exact h" using ok by (simp add: host_ok_def)
    show "cl_live (h_lists h' ev) \<subseteq> cl_live (h_lists h ev)" for ev using live(1) by auto
  qed (auto simp: f)
  moreover have "plugins_ok h'"
    using plug by (auto simp: plugins_ok_def f distinct_map_filter)
  moreover have "tables_ok h'"
    using ok orders by (auto simp: host_ok_def tables_ok_def f distinct_map_filter)
  moreover have "addons_ok h'"
  proof -
    have "held_addons h' + mset (pc_addons c) = held_addons h"
      using sum_list_remove_one[of pc_name "h_plugins h" c "\<lambda>c. mset (pc_addons c)"] c plug
      by (simp add: held_addons_def f(2) plugins_ok_def)
    then have held: "held_addons h' = held_addons h - mset (pc_addons c)" "held_addons h = {#} \<Longrightarrow> held_addons h' = {#}"
      by (metis add_diff_cancel_right', metis subset_mset.zero_eq_add_iff_both_eq_0)
    show ?thesis
    proof (cases "h_Addons h")
      case None
      then show ?thesis using ok held by (simp add: host_ok_def addons_ok_def f(5))
    next
      case w: (Some w)
      then have "wd_ok w" "holders (wd_queue w) = held_addons h" using ok by (simp_all add: host_ok_def addons_ok_def)
      with wd_Remove_all[of w "pc_addons c"] held w show ?thesis by (simp add: addons_ok_def f(5))
    qed
  qed
  ultimately show ?thesis by (simp add: host_ok_def h'_def)
qed (simp add: RemovePlugin_def ok)


section \<open>A pass over the callbacks of an event\<close>

lemma host_upd_get: "host_get ev (host_upd ev g s) = g (host_get ev s)" "fst (host_upd ev g s) = upd_list ev g (fst s)"
  by (simp_all add: host_get_def host_upd_def)

lemma host_Walk_facts:
  fixes s :: "('f, 'i) host \<times> 'b"
  assumes ok: "host_ok (fst s)" and visit: "\<And>e s. host_api (fst s) (fst (snd (visit e s)))"
    and run: "cl_Walk (host_get ev) (host_upd ev) visit s = (stopped, s', rs)"
  shows "host_api (fst s) (fst s')"
    "\<exists>es. rs = map ce_Token es \<and> sorted_wrt before es \<and> set es \<subseteq> {e \<in> set (cl_entries (host_get ev s)). \<not> ce_Removed e}"
    "\<not> stopped \<Longrightarrow> e \<in> set (cl_entries (host_get ev s)) \<Longrightarrow> ce_Token e \<in> ce_Token ` cl_live (host_get ev s') \<Longrightarrow> ce_Token e \<in> set rs"
proof -
  define v where "v = (\<lambda>i s. visit (cl_entries (host_get ev s) ! i) s)"
  define b where "b = host_upd ev cl_begin s"
  define l where "l = host_get ev s"
  define w where "w = walk (cl_runs (host_get ev)) v 0 (length (cl_entries l)) b"
  have wb: "host_event.well_behaved v" using visit by (simp add: host_event.well_behaved_def v_def)
  have res: "stopped = fst w" "s' = host_upd ev cl_end (walk_state w)" "rs = map (\<lambda>i. ce_Token (cl_entries l ! i)) (walk_ran w)"
    using run by (auto simp: cl_Walk_def Let_def w_def v_def b_def l_def split: prod.splits)
  have begin_ok: "host_ok (fst b)" "cl_entries (host_get ev b) = cl_entries l" "0 < cl_depth (host_get ev b)"
    using host_ok_begin[OF ok, of ev] by (simp_all add: b_def l_def host_upd_get) (simp_all add: cl_begin_def)
  have eff: "host_api (fst b) (fst (walk_state w))" unfolding w_def by (rule host_event.walk_effect[OF wb])
  show "host_api (fst s) (fst s')"
    using host_pass[OF host_refl, of ev "fst s" "fst (walk_state w)"] eff by (simp add: res b_def host_upd_get)
  have range: "set (walk_ran w) \<subseteq> {..<length (cl_entries l)}"
    using walk_ran_range[of "cl_runs (host_get ev)" v 0 "length (cl_entries l)" b] by (auto simp: w_def)
  have l_ok: "cl_ok l" using host_ok_list[OF ok, of ev] by (simp add: l_def host_get_def)
  have alive: "\<not> ce_Removed (cl_entries l ! j)" if "j \<in> set (walk_ran w)" for j
    using host_event.walk_ran_alive[OF wb, of b ev 0 "length (cl_entries l)" "cl_runs (host_get ev)" j] that begin_ok
    by (simp add: w_def cl_runs_def)
  have "sorted_wrt before (map (\<lambda>i. cl_entries l ! i) (walk_ran w))"
    using l_ok range by (intro sorted_positions) (auto simp: cl_ok_def w_def walk_ran_ascending)
  then show "\<exists>es. rs = map ce_Token es \<and> sorted_wrt before es \<and> set es \<subseteq> {e \<in> set (cl_entries (host_get ev s)). \<not> ce_Removed e}"
    using alive range by (intro exI[of _ "map (\<lambda>i. cl_entries l ! i) (walk_ran w)"]) (auto simp: res l_def[symmetric])
  assume go: "\<not> stopped" and e: "e \<in> set (cl_entries (host_get ev s))" "ce_Token e \<in> ce_Token ` cl_live (host_get ev s')"
  define m where "m = host_get ev (walk_state w)"
  have after: "host_ok (fst (walk_state w))" "list_kept (host_get ev b) m"
    using host_api_facts[OF eff begin_ok(1)] by (auto simp: m_def host_get_def)
  then have m: "cl_ok m" "0 < cl_depth m" "map ce_Token (cl_entries m) = map ce_Token (cl_entries l)"
    using host_ok_list[OF after(1), of ev] begin_ok by (auto simp: list_kept_def m_def host_get_def cl_kept_def)
  have "cl_live (host_get ev s') = cl_live m" using cl_end_facts(3)[OF m(1,2)] by (simp add: res host_upd_get m_def)
  then obtain e' where e': "e' \<in> cl_live m" "ce_Token e' = ce_Token e" using e(2) by auto
  obtain j where j: "j < length (cl_entries l)" "cl_entries l ! j = e" using e(1) by (auto simp: in_set_conv_nth l_def)
  then have tok: "ce_Token (cl_entries m ! j) = ce_Token e" "j < length (cl_entries m)"
    using m(3) by (metis length_map nth_map, metis length_map)
  have "ce_Token (cl_entries m ! j) < ce_Token p" if "p \<in> set (cl_pending m)" for p
    using m(1) that nth_mem[OF tok(2)] by (simp add: cl_ok_def)
  then have "e' \<notin> set (cl_pending m)" using tok(1) e'(2) by (metis less_irrefl)
  then have "e' \<in> set (cl_entries m)" "\<not> ce_Removed e'" using e'(1) by (auto simp: cl_live_def)
  moreover have "e' = cl_entries m ! j"
  proof (rule inj_onD)
    show "inj_on ce_Token (set (cl_entries m))" using m(1) by (simp add: cl_ok_def distinct_map)
  qed (use e'(2) tok calculation(1) in simp_all)
  ultimately have "cl_runs (host_get ev) (walk_state w) j" by (simp add: cl_runs_def m_def)
  then have "j \<in> set (walk_ran w)"
    using host_event.walk_complete[OF wb, of b ev 0 "length (cl_entries l)" j] go begin_ok j(1) res(1) by (simp add: w_def)
  then show "ce_Token e \<in> set rs" using j by (force simp: res)
qed

lemma raise_Walk:
  "raise ev call h = (case cl_Walk (host_get ev) (host_upd ev) (\<lambda>e s. case call (ce_Call e) (fst s) of (stop, h') \<Rightarrow> (stop, h', ())) (h, ())
     of (stopped, (h', _), rs) \<Rightarrow> (stopped, h', rs))"
  by (simp add: raise_def cl_Dispatch_def)

lemma raise_facts:
  assumes ok: "host_ok h" and call: "\<And>f h. host_api h (snd (call f h))" and run: "raise ev call h = (stopped, h', rs)"
  shows "host_api h h'" "host_ok h'"
    "\<exists>es. rs = map ce_Token es \<and> sorted_wrt before es \<and> set es \<subseteq> {e \<in> set (cl_entries (h_lists h ev)). \<not> ce_Removed e}"
    "\<not> stopped \<Longrightarrow> e \<in> set (cl_entries (h_lists h ev)) \<Longrightarrow> ce_Token e \<in> ce_Token ` cl_live (h_lists h' ev) \<Longrightarrow> ce_Token e \<in> set rs"
proof -
  let ?visit = "\<lambda>(e :: 'a cl_Entry) (s :: ('a, 'b) host \<times> unit). case call (ce_Call e) (fst s) of (stop, h') \<Rightarrow> (stop, h', ())"
  have visit: "host_api (fst s) (fst (snd (?visit e s)))" for e s
    using call[of "fst s" "ce_Call e"] by (simp add: case_prod_beta)
  obtain s' where w: "cl_Walk (host_get ev) (host_upd ev) ?visit (h, ()) = (stopped, s', rs)" "h' = fst s'"
    using run by (auto simp: raise_Walk split: prod.splits)
  have ok': "host_ok (fst (h, ()))" using ok by simp
  note f = host_Walk_facts[OF ok' visit w(1)]
  show "host_api h h'" using f(1) w(2) by simp
  then show "host_ok h'" using host_api_facts ok by blast
  show "\<exists>es. rs = map ce_Token es \<and> sorted_wrt before es \<and> set es \<subseteq> {e \<in> set (cl_entries (h_lists h ev)). \<not> ce_Removed e}"
    using f(2) by (simp add: host_get_def)
  show "\<not> stopped \<Longrightarrow> e \<in> set (cl_entries (h_lists h ev)) \<Longrightarrow> ce_Token e \<in> ce_Token ` cl_live (h_lists h' ev) \<Longrightarrow> ce_Token e \<in> set rs"
    using f(3) w(2) by (simp add: host_get_def)
qed


subsection \<open>What a plugin's code leaves of the views\<close>

lemma upd_context_map_key: "(\<And>c. k (f c) = k c) \<Longrightarrow> map k (h_plugins (upd_context p f h)) = map k (h_plugins h)"
  by (simp add: upd_context_def map_update_first_key)

lemma host_api_views:
  "host_api h s \<Longrightarrow> map pc_name (h_plugins s) = map pc_name (h_plugins h) \<and> map pc_order (h_plugins s) = map pc_order (h_plugins h)"
  by (induction rule: host_api.induct)
    (auto simp: ctx_Subscribe_def ctx_Unsubscribe_def ctx_Publish_def ctx_Unpublish_def ctx_RegisterCommand_def
      ctx_AddAddon_def ctx_RemoveAddon_def upd_context_map_key Let_def split: option.splits prod.splits bool.splits)

lemma raise_to_api:
  assumes "host_ok h" "\<And>args f h. host_api h (snd (call args f h))"
  shows "host_api h (raise_to ev p args call h)"
proof -
  let ?visit = "\<lambda>(e :: 'a cl_Entry) (s :: ('a, 'b) host \<times> unit).
    (False, if ce_Order e = p then (snd (call args (ce_Call e) (fst s)), ()) else s)"
  obtain stopped s' rs where run: "cl_Walk (host_get ev) (host_upd ev) ?visit (h, ()) = (stopped, s', rs)"
    by (cases "cl_Walk (host_get ev) (host_upd ev) ?visit (h, ())") auto
  have "host_api (fst (h, ())) (fst s')"
    by (rule host_Walk_facts(1)[OF _ _ run]) (auto simp: assms host_refl)
  then show ?thesis using run by (simp add: raise_to_def cl_DispatchTo_def)
qed

lemma fold_api:
  assumes "host_ok h" "\<And>x h. host_ok h \<Longrightarrow> host_api h (f x h)"
  shows "host_api h (fold f xs h)"
  using assms(1)
proof (induction xs arbitrary: h)
  case (Cons x xs)
  then have "host_api h (f x h)" "host_ok (f x h)" using assms(2) host_api_facts by blast+
  with Cons.IH show ?case using host_api_trans by simp blast
qed (simp add: host_refl)

lemma Replay_api:
  assumes call: "\<And>args f h. host_api h (snd (call args f h))" and ok: "host_ok h"
  shows "host_api h (ctx_ReplayMissedEvents p call h)"
proof -
  have slot: "host_api h (replay_slot p call slot h)" if ok: "host_ok h" for slot and h :: "('a, 'b) host"
  proof -
    have first: "host_api h (raise_to ClientConnected p args call h)" for args by (rule raise_to_api[OF ok call])
    then have "host_ok (raise_to ClientConnected p args call h)" for args using host_api_facts ok by blast
    then have "host_api h (raise_to ClientFullyConnected p args' call (raise_to ClientConnected p args call h))" for args args'
      using raise_to_api call host_api_trans first by blast
    with first show ?thesis by (simp add: replay_slot_def Let_def host_refl split: option.split)
  qed
  have "host_api h (raise_to ServerStartup p args call h)" for args by (rule raise_to_api[OF ok call])
  moreover from this have "host_ok (raise_to ServerStartup p args call h)" for args using host_api_facts ok by blast
  ultimately have "host_api h (fold (replay_slot p call) all_slots (raise_to ServerStartup p args call h))" for args
    using fold_api[where f = "replay_slot p call", OF _ slot] host_api_trans by blast
  then show ?thesis by (simp add: ctx_ReplayMissedEvents_def host_refl)
qed

lemma Disconnect_api:
  assumes call: "\<And>args f h. host_api h (snd (call args f h))" and ok: "host_ok h"
  shows "host_api h (ctx_DisconnectClients p call h)"
  unfolding ctx_DisconnectClients_def
  by (rule fold_api[OF ok]) (simp add: disconnect_slot_def host_refl raise_to_api call)

section \<open>Reachable hosts\<close>

inductive host_reachable :: "('f, 'i) host \<Rightarrow> bool" where
  reach_init: "addons = None \<or> addons = Some wd_init \<Longrightarrow> host_reachable (host_init addons)"
| reach_api: "host_reachable h \<Longrightarrow> host_api h h' \<Longrightarrow> host_reachable h'"
| reach_AddPlugin: "host_reachable h \<Longrightarrow> host_reachable (snd (AddPlugin name logTag version h))"
| reach_RemovePlugin: "host_reachable h \<Longrightarrow> host_reachable (snd (RemovePlugin name h))"
| reach_HostCommand: "host_reachable h \<Longrightarrow> host_reachable (RegisterHostCommand name h)"
| reach_SetMinLogLevel: "host_reachable h \<Longrightarrow> host_reachable (ctx_SetMinLogLevel p level h)"
| reach_SetSchemaLayout: "host_reachable h \<Longrightarrow> host_reachable (SetSchemaLayout stamp verified h)"

lemma host_ok_init: "addons = None \<or> addons = Some wd_init \<Longrightarrow> host_ok (host_init addons)"
  using wd_ok_init
  by (auto simp: host_ok_def host_init_def lists_ok_def subs_owned_def subs_exact_def plugins_ok_def tables_ok_def addons_ok_def held_addons_def)
    (simp add: wd_init_def holders_def dq_init_def)

lemma host_ok_RegisterHostCommand: "host_ok h \<Longrightarrow> host_ok (RegisterHostCommand name h)"
  by (auto simp: RegisterHostCommand_def host_ok_def tables_ok_def cn_Reserve_def find_None_iff_all)

lemma host_ok_SetMinLogLevel:
  assumes ok: "host_ok h"
  shows "host_ok (ctx_SetMinLogLevel p level h)"
proof -
  let ?f = "\<lambda>c. c\<lparr>pc_minLevel := level\<rparr>"
  define h' where "h' = upd_context p ?f h"
  have plugins: "plugins_ok h" "subs_owned h" "subs_exact h" "lists_ok h" "tables_ok h" "addons_ok h"
    using ok by (simp_all add: host_ok_def)
  have eq: "h_plugins h' = map (\<lambda>c. if pc_order c = p then ?f c else c) (h_plugins h)"
    using plugins_upd[OF plugins(1)] by (simp add: h'_def)
  note keep = upd_context_keeps[of h ?f p, OF plugins(1), folded h'_def]
  have "subs_owned h'"
    using plugins(2)
  proof (rule subs_owned_mono)
    fix c assume "c \<in> set (h_plugins h)"
    then show "\<exists>c' \<in> set (h_plugins h'). pc_order c' = pc_order c \<and> set (pc_subscriptions c) \<subseteq> set (pc_subscriptions c')"
      by (intro bexI[of _ "if pc_order c = p then ?f c else c"]) (auto simp: eq)
  qed (simp add: h'_def)
  moreover have fields: "h_lists h' = h_lists h" "h_NextToken h' = h_NextToken h" "h_Addons h' = h_Addons h"
    by (simp_all add: h'_def)
  have "subs_exact h'"
    unfolding subs_exact_def fields eq
  proof (intro ballI)
    fix d x assume "d \<in> set (map (\<lambda>c. if pc_order c = p then ?f c else c) (h_plugins h))" "x \<in> set (pc_subscriptions d)"
    then obtain c where "c \<in> set (h_plugins h)" "x \<in> set (pc_subscriptions c)" "pc_order d = pc_order c"
      by (auto split: if_splits)
    with plugins(3) show "case x of (token, ev) \<Rightarrow> token < h_NextToken h \<and>
        (\<forall>e \<in> cl_live (h_lists h ev). ce_Token e = token \<longrightarrow> ce_Order e = pc_order d)"
      unfolding subs_exact_def by fastforce
  qed
  moreover have "held_addons h' = held_addons h" by (simp add: held_addons_def eq o_def if_distrib cong: if_cong)
  then have "addons_ok h'" using plugins(6) by (cases "h_Addons h") (simp_all add: addons_ok_def fields)
  ultimately show ?thesis using keep plugins by (simp add: host_ok_def ctx_SetMinLogLevel_def h'_def)
qed

lemma host_ok_SetSchemaLayout: "host_ok h \<Longrightarrow> host_ok (SetSchemaLayout stamp verified h)"
  by (cases "h_Addons h") (simp_all add: SetSchemaLayout_def host_ok_def lists_ok_def subs_owned_def subs_exact_def
      plugins_ok_def tables_ok_def addons_ok_def held_addons_def)

lemma host_reachable_ok: "host_reachable h \<Longrightarrow> host_ok h"
  by (induction rule: host_reachable.induct)
    (auto simp: host_ok_init host_ok_AddPlugin host_ok_RemovePlugin host_ok_RegisterHostCommand host_ok_SetMinLogLevel
      host_ok_SetSchemaLayout dest: host_api_facts)

section \<open>Properties\<close>

text \<open>
  C8: removing a plugin from any reachable host releases everything it held and nothing else. No live
  subscription, published service or command name is left with its load position; those of the other
  plugins stay; each addon it required is released once per request, so that what is required is again
  what the remaining plugins hold; and the report names exactly what it had not released.
\<close>

theorem RemovePlugin_releases_all:
  assumes "host_reachable h" and "FindPlugin name h = Some c"
  shows "FindPlugin name (snd (RemovePlugin name h)) = None \<and>
    (\<forall>ev. cl_live (h_lists (snd (RemovePlugin name h)) ev) = {e. e \<in> cl_live (h_lists h ev) \<and> ce_Order e \<noteq> pc_order c}) \<and>
    h_Services (snd (RemovePlugin name h)) = filter (\<lambda>s. sv_Owner s \<noteq> pc_order c) (h_Services h) \<and>
    h_Commands (snd (RemovePlugin name h)) = filter (\<lambda>e. cn_Owner e \<noteq> pc_order c) (h_Commands h) \<and>
    (case h_Addons (snd (RemovePlugin name h)) of None \<Rightarrow> True
     | Some w \<Rightarrow> holders (wd_queue w) = (\<Sum>d \<leftarrow> filter (\<lambda>d. pc_name d \<noteq> name) (h_plugins h). mset (pc_addons d))) \<and>
    fst (RemovePlugin name h) = \<lparr>lk_Subscriptions = map (event_name \<circ> snd) (pc_subscriptions c),
       lk_Services = map sv_Name (filter (\<lambda>s. sv_Owner s = pc_order c) (h_Services h)), lk_Addons = pc_addons c\<rparr>"
proof -
  have ok: "host_ok h" by (rule host_reachable_ok[OF assms(1)])
  note f = RemovePlugin_fields[OF ok assms(2)]
  have "cl_live (h_lists (snd (RemovePlugin name h)) ev) = {e. e \<in> cl_live (h_lists h ev) \<and> ce_Order e \<noteq> pc_order c}" for ev
  proof -
    have c: "c \<in> set (h_plugins h)" using FindPlugin_Some[OF assms(2)] by simp
    have "(ce_Token e, ev) \<notin> set (pc_subscriptions c)" if "e \<in> cl_live (h_lists h ev)" "ce_Order e \<noteq> pc_order c" for e
      using ok c that unfolding host_ok_def subs_exact_def by blast
    then show ?thesis using RemovePlugin_live[OF ok assms(2), where ev = ev] by blast
  qed
  moreover have "FindPlugin name (snd (RemovePlugin name h)) = None"
    by (auto simp: FindPlugin_def f(2) find_None_iff_all)
  moreover have "addons_ok (snd (RemovePlugin name h))"
    using host_ok_RemovePlugin[OF ok, of name] by (simp add: host_ok_def)
  then have "case h_Addons (snd (RemovePlugin name h)) of None \<Rightarrow> True
     | Some w \<Rightarrow> holders (wd_queue w) = (\<Sum>d \<leftarrow> filter (\<lambda>d. pc_name d \<noteq> name) (h_plugins h). mset (pc_addons d))"
    by (simp add: addons_ok_def held_addons_def f(2) split: option.splits)
  ultimately show ?thesis using f(3,4,8) by blast
qed

definition example_host :: "(string, nat) host" where
  "example_host =
     snd (ctx_AddAddon working_env 1 12 (ctx_Publish 1 ''IAdmin'' (Some 5) (snd (ctx_Subscribe 2 Frame (Some ''b'')
       (snd (ctx_Subscribe 1 Frame (Some ''a'') (snd (AddPlugin ''stats'' [] ''1'' (snd (AddPlugin ''admin'' [] ''1''
         (host_init (Some wd_init))))))))))))"

lemma example_host_reachable: "host_reachable example_host"
proof -
  have two: "host_reachable (snd (AddPlugin ''stats'' [] ''1'' (snd (AddPlugin ''admin'' [] ''1'' (host_init (Some wd_init) :: (string, nat) host)))))"
    by (intro reach_AddPlugin reach_init) simp
  have "host_api (snd (AddPlugin ''stats'' [] ''1'' (snd (AddPlugin ''admin'' [] ''1'' (host_init (Some wd_init) :: (string, nat) host)))))
      example_host"
    unfolding example_host_def
    by (intro host_AddAddon host_Publish host_Subscribe host_refl)
      (simp_all add: holds_context_def AddPlugin_def FindPlugin_def host_init_def ctx_Subscribe_def ctx_Publish_def
        upd_context_def upd_list_def Let_def)
  with two show ?thesis by (rule reach_api)
qed

theorem RemovePlugin_releases_all_witness:
  "host_reachable example_host \<and> FindPlugin ''admin'' (snd (RemovePlugin ''admin'' example_host)) = None \<and>
   fst (RemovePlugin ''admin'' example_host) = \<lparr>lk_Subscriptions = [''frame''], lk_Services = [''IAdmin''], lk_Addons = [12]\<rparr>"
proof -
  let ?c = "\<lparr>pc_name = ''admin'', pc_logTag = ''admin'', pc_version = ''1'', pc_minLevel = Info, pc_order = 1,
    pc_subscriptions = [(1, Frame)], pc_addons = [12]\<rparr>"
  have "FindPlugin ''admin'' example_host = Some ?c" and "h_Services example_host = [\<lparr>sv_Name = ''IAdmin'', sv_Implementation = 5, sv_Owner = 1\<rparr>]"
    by (simp_all add: example_host_def FindPlugin_def ctx_AddAddon_def wd_Add_def wd_Install_def working_env_def dq_Add_def
        AddPlugin_def host_init_def ctx_Subscribe_def ctx_Publish_def pi_Publish_def upd_context_def upd_list_def Let_def wd_init_def dq_init_def)
  with RemovePlugin_releases_all[OF example_host_reachable, of "''admin''" ?c] example_host_reachable
  show ?thesis by (simp add: event_name_def)
qed

text \<open>
  when the host raises an event on a reachable host, with callbacks that do anything plugin code
  can, the callbacks run in load order and, within a plugin, in the order it subscribed; only callbacks
  subscribed before the pass run, each once; unless one stopped the pass, every one of them that is
  still subscribed afterwards has run; and the host is left in a reachable state.
\<close>

theorem raise_in_load_order:
  assumes "host_reachable h" and "\<And>f h. host_api h (snd (call f h))"
  shows "(\<exists>es. snd (snd (raise ev call h)) = map ce_Token es \<and> sorted_wrt before es \<and>
      set es \<subseteq> {e \<in> set (cl_entries (h_lists h ev)). \<not> ce_Removed e}) \<and>
    distinct (snd (snd (raise ev call h))) \<and>
    (\<not> fst (raise ev call h) \<longrightarrow>
      ce_Token ` set (cl_entries (h_lists h ev)) \<inter> ce_Token ` cl_live (h_lists (fst (snd (raise ev call h))) ev)
        \<subseteq> set (snd (snd (raise ev call h)))) \<and>
    host_reachable (fst (snd (raise ev call h)))"
proof -
  obtain stopped h' rs where run: "raise ev call h = (stopped, h', rs)" by (cases "raise ev call h") auto
  have ok: "host_ok h" by (rule host_reachable_ok[OF assms(1)])
  note f = raise_facts[OF ok assms(2) run]
  obtain es where es: "rs = map ce_Token es" "sorted_wrt before es" "set es \<subseteq> {e \<in> set (cl_entries (h_lists h ev)). \<not> ce_Removed e}"
    using f(3) by blast
  have "distinct (map ce_Token (cl_entries (h_lists h ev)))" using host_ok_list[OF ok, of ev] by (simp add: cl_ok_def)
  then have "inj_on ce_Token (set es)" using es(3) by (auto simp: distinct_map intro: inj_on_subset)
  moreover have "distinct es" using es(2) by (induction es) (auto simp: before_def)
  ultimately have "distinct rs" by (simp add: es(1) distinct_map)
  moreover have "host_reachable h'" using reach_api[OF assms(1) f(1)] .
  ultimately show ?thesis using es f(4) by (auto simp: run)
qed

text \<open>The first plugin's callback drops its own subscription, the second one's stops the pass.\<close>

definition example_call :: "string \<Rightarrow> (string, nat) host \<Rightarrow> bool \<times> (string, nat) host" where
  "example_call f h = (if f = ''a'' then (False, ctx_Unsubscribe 1 1 h) else (True, h))"

theorem raise_in_load_order_witness:
  "snd (snd (raise Frame example_call example_host)) = [1, 2] \<and> fst (raise Frame example_call example_host) \<and>
   host_reachable (fst (snd (raise Frame example_call example_host)))"
proof -
  have call: "host_api h (snd (example_call f h))" for f h
    by (simp add: example_call_def host_refl host_Unsubscribe)
  have "host_reachable (fst (snd (raise Frame example_call example_host)))"
    using raise_in_load_order[of example_host example_call Frame] example_host_reachable call by blast
  moreover have "h_lists example_host Frame =
      \<lparr>cl_entries = [\<lparr>ce_Token = 1, ce_Order = 1, ce_Call = ''a'', ce_Removed = False\<rparr>,
         \<lparr>ce_Token = 2, ce_Order = 2, ce_Call = ''b'', ce_Removed = False\<rparr>], cl_pending = [], cl_depth = 0\<rparr>"
    by (simp add: example_host_def ctx_AddAddon_def wd_Add_def wd_Install_def working_env_def dq_Add_def
        AddPlugin_def FindPlugin_def host_init_def ctx_Subscribe_def ctx_Publish_def pi_Publish_def upd_context_def upd_list_def
        Let_def wd_init_def dq_init_def cl_Add_def cl_init_def cl_Insert_def)
  then have "snd (snd (raise Frame example_call example_host)) = [1, 2] \<and> fst (raise Frame example_call example_host)"
    by (simp add: raise_def cl_Dispatch_def cl_Walk_def walk.simps host_get_def host_upd_def upd_list_def cl_begin_def
        cl_runs_def example_call_def numeral_2_eq_2 ctx_Unsubscribe_def cl_Remove_def Let_def split: option.split)
  ultimately show ?thesis by blast
qed

end
