(* ===== verification/PluginLoader.thy ===== *)
theory PluginLoader
  imports HostInvariant Strings
begin

text \<open>
  Loading, unloading and reloading plugins, the deferred console requests and the mounted asset folders.
  Sources: \<^verbatim>\<open>src/Host/Plugins/PluginLoader.{hpp,cpp}\<close>, \<^verbatim>\<open>ValidateDescriptor\<close> of
  \<^verbatim>\<open>src/Host/Plugins/InstalledPlugins.cpp\<close>, \<^verbatim>\<open>src/Host/Files/ServerAssets.cpp\<close>,
  \<^verbatim>\<open>src/Host/Console/VoltCommand.cpp\<close>. Libraries and plugin code are the environment \<open>library_env\<close>:
  what opening a library and calling its entry point give, whether an asset folder exists, and what the
  event callbacks do. The scan of the plugins directory is an argument of the operation that takes it.
  Log lines are not modelled, nor is the freeing of a library.
\<close>

section \<open>Data\<close>

text \<open>\<open>Load\<close> gets the plugin's view and answers with success and an error text.\<close>

record ('f, 'i) PluginDescriptor =
  ds_VoltModVersion :: "string option"
  ds_BuildStamp :: "string option"
  ds_Load :: "(nat \<Rightarrow> ('f, 'i) host \<Rightarrow> bool \<times> string \<times> ('f, 'i) host) option"
  ds_Unload :: "(nat \<Rightarrow> ('f, 'i) host \<Rightarrow> ('f, 'i) host) option"
  ds_Status :: "string option"

record InstalledScan =
  is_Plugins :: "PluginManifest list"
  is_Refused :: "RefusedPlugin list"

record ('f, 'i) LoadedPlugin =
  lp_Manifest :: PluginManifest
  lp_Descriptor :: "('f, 'i) PluginDescriptor"

datatype ActionKind = Load | Unload | Reload

datatype UnloadTime = MidMap | Shutdown

record ServerAssets =
  sa_mounted :: "(string, string) omap"
  sa_searchPath :: "string list"

record ('f, 'i) loader =
  ld_host :: "('f, 'i) host"
  ld_assets :: ServerAssets
  ld_loaded :: "('f, 'i) LoadedPlugin list"
  ld_pending :: "(ActionKind \<times> string) list"
  ld_refused :: "(string, string) omap"

record ('f, 'i) library_env =
  le_open :: "string \<Rightarrow> unit result"
  le_entry :: "string \<Rightarrow> ('f, 'i) PluginDescriptor option result"
  le_version :: string
  le_assets :: "string \<Rightarrow> string option"
  le_call :: "('f, 'i) callbacks"

definition loader_init :: "WorkshopDownloads option \<Rightarrow> ('f, 'i) loader" where
  "loader_init addons = \<lparr>ld_host = host_init addons, ld_assets = \<lparr>sa_mounted = [], sa_searchPath = []\<rparr>,
     ld_loaded = [], ld_pending = [], ld_refused = []\<rparr>"

section \<open>The plugins directory\<close>

text \<open>
  A directory entry the iteration reached: whether it is a directory, whether it holds a
  \<^verbatim>\<open>plugin.json\<close> (either test may fail, which skips the entry; the iterator's next step clears the
  failure), and what reading that file strictly gave.
\<close>

record PluginDocument =
  pd_name :: string
  pd_version :: string
  pd_logTag :: string
  pd_description :: string
  pd_author :: string
  pd_website :: string
  pd_license :: string
  pd_logLevel :: string
  pd_dependencies :: "string list"
  pd_optionalDependencies :: "string list"

record DirectoryEntry =
  en_Name :: string
  en_IsDirectory :: "bool option"
  en_HasManifest :: "bool option"
  en_Document :: "PluginDocument result"

definition parse_level :: "string \<Rightarrow> LogLevel option" where
  "parse_level level =
     (let lower = ToLower level in
      if lower = ''info'' then Some Info else if lower = ''warn'' then Some Warn
      else if lower = ''error'' then Some LogError else None)"

definition discover_entry :: "DirectoryEntry \<Rightarrow> InstalledScan \<Rightarrow> InstalledScan" where
  "discover_entry entry installed =
     (if en_IsDirectory entry \<noteq> Some True \<or> en_HasManifest entry \<noteq> Some True then installed
      else let refuse = (\<lambda>reason. installed\<lparr>is_Refused := is_Refused installed @
                 [\<lparr>rp_Name = en_Name entry, rp_Reason = reason\<rparr>]\<rparr>)
      in case en_Document entry of
           Inl e \<Rightarrow> refuse e
         | Inr d \<Rightarrow>
             if pd_name d \<noteq> en_Name entry
             then refuse (Error_Invalid (''plugin.json names it '' @ quoted (pd_name d)
                    @ '', and a plugin lives in the directory it is named after.''))
             else (case parse_level (pd_logLevel d) of
                 None \<Rightarrow> refuse (Error_Invalid (''plugin.json: logLevel '' @ quoted (pd_logLevel d) @ '' is not info, warn or error''))
               | Some level \<Rightarrow> installed\<lparr>is_Plugins := is_Plugins installed @
                   [\<lparr>mf_Name = pd_name d, mf_Version = pd_version d,
                     mf_LogTag = (if pd_logTag d = [] then pd_name d else pd_logTag d),
                     mf_Description = pd_description d, mf_Author = pd_author d, mf_Website = pd_website d,
                     mf_License = pd_license d, mf_LogLevel = level, mf_Dependencies = pd_dependencies d,
                     mf_OptionalDependencies = pd_optionalDependencies d\<rparr>]\<rparr>))"

text \<open>\<open>None\<close>: the directory does not exist or cannot be inspected.\<close>

definition Discover :: "DirectoryEntry list option \<Rightarrow> InstalledScan" where
  "Discover plugins =
     (case plugins of
        None \<Rightarrow> \<lparr>is_Plugins = [], is_Refused = []\<rparr>
      | Some entries \<Rightarrow> fold discover_entry entries \<lparr>is_Plugins = [], is_Refused = []\<rparr>)"

section \<open>Descriptor and assets\<close>

definition ValidateDescriptor :: "('f, 'i) PluginDescriptor option \<Rightarrow> string \<Rightarrow> status" where
  "ValidateDescriptor descriptor hostVersion =
     (case descriptor of
        None \<Rightarrow> Inl (Error_Invalid ''VoltMod_Plugin returned nothing'')
      | Some d \<Rightarrow>
          let pluginVersion = (case ds_VoltModVersion d of Some v \<Rightarrow> v | None \<Rightarrow> [])
          in if pluginVersion \<noteq> hostVersion
             then Inl (Error_Invalid (''it was built for VoltMod '' @ pluginVersion @ '' and the host is '' @ hostVersion @ ''; rebuild it''))
             else if \<not> (ds_BuildStamp d \<noteq> None \<and> ds_Load d \<noteq> None \<and> ds_Unload d \<noteq> None \<and> ds_Status d \<noteq> None)
             then Inl (Error_Invalid ''its descriptor leaves out one of BuildStamp, Load, Unload and Status'')
             else Inr ())"

definition Mount :: "(string \<Rightarrow> string option) \<Rightarrow> string \<Rightarrow> ServerAssets \<Rightarrow> ServerAssets" where
  "Mount folder plugin sa =
     (case folder plugin of
        None \<Rightarrow> sa
      | Some path \<Rightarrow> \<lparr>sa_mounted = omap_assign plugin path (sa_mounted sa), sa_searchPath = path # sa_searchPath sa\<rparr>)"

definition Unmount :: "string \<Rightarrow> ServerAssets \<Rightarrow> ServerAssets" where
  "Unmount plugin sa =
     (case map_of (sa_mounted sa) plugin of
        None \<Rightarrow> sa
      | Some path \<Rightarrow> \<lparr>sa_mounted = omap_erase plugin (sa_mounted sa),
          sa_searchPath = erase_first (\<lambda>p. p = path) (sa_searchPath sa)\<rparr>)"

section \<open>The loader\<close>

definition Refuse :: "string \<Rightarrow> string \<Rightarrow> ('f, 'i) loader \<Rightarrow> ('f, 'i) loader" where
  "Refuse name reason L = L\<lparr>ld_refused := omap_assign name reason (ld_refused L)\<rparr>"

definition FindLoaded :: "string \<Rightarrow> ('f, 'i) loader \<Rightarrow> ('f, 'i) LoadedPlugin option" where
  "FindLoaded name L = List.find (\<lambda>lp. mf_Name (lp_Manifest lp) = name) (ld_loaded L)"

definition RequireLoaded :: "string \<Rightarrow> ('f, 'i) loader \<Rightarrow> ('f, 'i) LoadedPlugin option" where
  "RequireLoaded name L = FindLoaded name L"

definition LoadedManifests :: "('f, 'i) loader \<Rightarrow> PluginManifest list" where
  "LoadedManifests L = map lp_Manifest (ld_loaded L)"

definition attach ::
  "('f, 'i) library_env \<Rightarrow> PluginManifest \<Rightarrow> ('f, 'i) PluginDescriptor \<Rightarrow> nat \<Rightarrow> ('f, 'i) loader \<Rightarrow> status \<times> ('f, 'i) loader" where
  "attach env manifest d view L =
     (let name = mf_Name manifest;
          h1 = ctx_SetMinLogLevel view (mf_LogLevel manifest) (ld_host L);
          L1 = L\<lparr>ld_assets := Mount (le_assets env) name (ld_assets L)\<rparr>
      in case ds_Load d of
           None \<Rightarrow> (Inr (), L)
         | Some load \<Rightarrow> (case load view h1 of (loaded, failure, h2) \<Rightarrow>
             if \<not> loaded
             then (Inl (Error_Failed (if failure \<noteq> [] then take 511 failure else ''its Load returned false'')),
                   L1\<lparr>ld_host := snd (RemovePlugin name h2), ld_assets := Unmount name (ld_assets L1)\<rparr>)
             else (Inr (),
                   L1\<lparr>ld_host := ctx_ReplayMissedEvents view (le_call env) h2,
                      ld_loaded := ld_loaded L1 @ [\<lparr>lp_Manifest = manifest, lp_Descriptor = d\<rparr>],
                      ld_refused := omap_erase name (ld_refused L1)\<rparr>)))"

definition LoadOne :: "('f, 'i) library_env \<Rightarrow> PluginManifest \<Rightarrow> ('f, 'i) loader \<Rightarrow> status \<times> ('f, 'i) loader" where
  "LoadOne env manifest L =
     (let name = mf_Name manifest in
      case le_open env name of
        Inl e \<Rightarrow> (Inl e, L)
      | Inr _ \<Rightarrow> (case le_entry env name of
          Inl e \<Rightarrow> (Inl e, L)
        | Inr descriptor \<Rightarrow> (case ValidateDescriptor descriptor (le_version env) of
            Inl e \<Rightarrow> (Inl e, L)
          | Inr _ \<Rightarrow> (case descriptor of
              None \<Rightarrow> (Inr (), L)
            | Some d \<Rightarrow> (case AddPlugin name (mf_LogTag manifest) (mf_Version manifest) (ld_host L) of
                (None, _) \<Rightarrow> (Inl (Error_Failed ''the host already holds a view under that name''), L)
              | (Some view, h) \<Rightarrow> attach env manifest d view (L\<lparr>ld_host := h\<rparr>))))))"

definition UnloadOne :: "('f, 'i) library_env \<Rightarrow> string \<Rightarrow> UnloadTime \<Rightarrow> ('f, 'i) loader \<Rightarrow> ('f, 'i) loader" where
  "UnloadOne env plugin time L =
     (case FindLoaded plugin L of
        None \<Rightarrow> L
      | Some found \<Rightarrow> (case FindPlugin plugin (ld_host L) of
          None \<Rightarrow> L
        | Some view \<Rightarrow>
            let h1 = (if time = MidMap then ctx_DisconnectClients (pc_order view) (le_call env) (ld_host L) else ld_host L);
                h2 = (case ds_Unload (lp_Descriptor found) of None \<Rightarrow> h1 | Some unload \<Rightarrow> unload (pc_order view) h1)
            in L\<lparr>ld_host := snd (RemovePlugin plugin h2), ld_assets := Unmount plugin (ld_assets L),
                 ld_loaded := erase_first (\<lambda>lp. mf_Name (lp_Manifest lp) = plugin) (ld_loaded L)\<rparr>))"

fun refuse_all :: "(string \<Rightarrow> bool) \<Rightarrow> RefusedPlugin list \<Rightarrow> ('f, 'i) loader \<Rightarrow> ('f, 'i) loader" where
  "refuse_all wanted [] L = L"
| "refuse_all wanted (refused # rest) L =
     refuse_all wanted rest
       (if wanted (rp_Name refused) then Refuse (rp_Name refused) (err_Detail (rp_Reason refused)) L else L)"

fun load_each ::
  "('f, 'i) library_env \<Rightarrow> InstalledScan \<Rightarrow> (string \<Rightarrow> bool) \<Rightarrow> string list \<Rightarrow> ('f, 'i) loader \<Rightarrow> ('f, 'i) loader" where
  "load_each env installed wanted [] L = L"
| "load_each env installed wanted (name # names) L =
     load_each env installed wanted names
       (if \<not> wanted name \<or> FindLoaded name L \<noteq> None then L
        else case List.find (\<lambda>m. mf_Name m = name) (is_Plugins installed) of
               None \<Rightarrow> L
             | Some found \<Rightarrow> (case LoadOne env found L of
                 (Inl e, L') \<Rightarrow> Refuse name (err_Detail e) L'
               | (Inr _, L') \<Rightarrow> L'))"

definition LoadGroup ::
  "('f, 'i) library_env \<Rightarrow> InstalledScan \<Rightarrow> (string \<Rightarrow> bool) \<Rightarrow> ('f, 'i) loader \<Rightarrow> ('f, 'i) loader" where
  "LoadGroup env installed wanted L =
     (let list = Resolve (is_Plugins installed)
      in load_each env installed wanted (ll_ToLoad list)
           (refuse_all wanted (ll_Refused list) (refuse_all wanted (is_Refused installed) L)))"

definition LoadAll :: "('f, 'i) library_env \<Rightarrow> InstalledScan \<Rightarrow> ('f, 'i) loader \<Rightarrow> ('f, 'i) loader" where
  "LoadAll env installed L = LoadGroup env installed (\<lambda>_. True) L"

text \<open>\<^verbatim>\<open>while (!_loaded.empty())\<close>, one round per loaded plugin; the fuel is their number.\<close>

fun unload_all :: "('f, 'i) library_env \<Rightarrow> nat \<Rightarrow> ('f, 'i) loader \<Rightarrow> ('f, 'i) loader" where
  "unload_all env 0 L = L"
| "unload_all env (Suc fuel) L =
     (if ld_loaded L = [] then L
      else unload_all env fuel (UnloadOne env (mf_Name (lp_Manifest (last (ld_loaded L)))) Shutdown L))"

definition UnloadAll :: "('f, 'i) library_env \<Rightarrow> ('f, 'i) loader \<Rightarrow> ('f, 'i) loader" where
  "UnloadAll env L = unload_all env (length (ld_loaded L)) (L\<lparr>ld_pending := []\<rparr>)"

definition Defer :: "ActionKind \<Rightarrow> string \<Rightarrow> ('f, 'i) loader \<Rightarrow> ('f, 'i) loader" where
  "Defer kind name L = L\<lparr>ld_pending := ld_pending L @ [(kind, name)]\<rparr>"

definition RunLoad :: "('f, 'i) library_env \<Rightarrow> InstalledScan \<Rightarrow> string \<Rightarrow> ('f, 'i) loader \<Rightarrow> ('f, 'i) loader" where
  "RunLoad env installed name L =
     (if FindLoaded name L \<noteq> None then L
      else case List.find (\<lambda>r. rp_Name r = name) (is_Refused installed) of
             Some broken \<Rightarrow> Refuse name (err_Detail (rp_Reason broken)) L
           | None \<Rightarrow> (case List.find (\<lambda>m. mf_Name m = name) (is_Plugins installed) of
               None \<Rightarrow> L
             | Some found \<Rightarrow> (case List.find (\<lambda>dep. FindLoaded dep L = None) (mf_Dependencies found) of
                 Some dep \<Rightarrow> Refuse name (''it requires '' @ quoted dep @ '', which is not loaded.'') L
               | None \<Rightarrow> (case LoadOne env found L of
                   (Inl e, L') \<Rightarrow> Refuse name (err_Detail e) L'
                 | (Inr _, L') \<Rightarrow> L'))))"

definition RunUnload :: "('f, 'i) library_env \<Rightarrow> string \<Rightarrow> ('f, 'i) loader \<Rightarrow> ('f, 'i) loader" where
  "RunUnload env name L =
     (if RequireLoaded name L = None then L
      else if RequiredDependents name (LoadedManifests L) \<noteq> [] then L
      else UnloadOne env name MidMap L)"

definition reload_group :: "string \<Rightarrow> ('f, 'i) loader \<Rightarrow> string list" where
  "reload_group name L = RequiredDependents name (LoadedManifests L) @ [name]"

definition going_down :: "string list \<Rightarrow> ('f, 'i) loader \<Rightarrow> string list" where
  "going_down members L = filter (\<lambda>n. n \<in> set members) (rev (map mf_Name (LoadedManifests L)))"

definition RunReload :: "('f, 'i) library_env \<Rightarrow> InstalledScan \<Rightarrow> string \<Rightarrow> ('f, 'i) loader \<Rightarrow> ('f, 'i) loader" where
  "RunReload env installed name L =
     (if RequireLoaded name L = None then L
      else let members = reload_group name L;
               going = going_down members L
           in LoadGroup env installed (\<lambda>plugin. plugin \<in> set members)
                (fold (\<lambda>plugin. UnloadOne env plugin MidMap) going L))"

text \<open>\<open>scans i\<close> is what the directory holds when the \<open>i\<close>-th action reads it.\<close>

fun run_actions ::
  "('f, 'i) library_env \<Rightarrow> (nat \<Rightarrow> InstalledScan) \<Rightarrow> nat \<Rightarrow> (ActionKind \<times> string) list \<Rightarrow> ('f, 'i) loader \<Rightarrow> ('f, 'i) loader" where
  "run_actions env scans i [] L = L"
| "run_actions env scans i ((kind, name) # actions) L =
     run_actions env scans (Suc i) actions
       (case kind of
          Load \<Rightarrow> RunLoad env (scans i) name L
        | Unload \<Rightarrow> RunUnload env name L
        | Reload \<Rightarrow> RunReload env (scans i) name L)"

definition RunPending :: "('f, 'i) library_env \<Rightarrow> (nat \<Rightarrow> InstalledScan) \<Rightarrow> ('f, 'i) loader \<Rightarrow> ('f, 'i) loader" where
  "RunPending env scans L =
     (if ld_pending L = [] then L else run_actions env scans 0 (ld_pending L) (L\<lparr>ld_pending := []\<rparr>))"

section \<open>The volt console command\<close>

definition SetLogLevel :: "string \<Rightarrow> string \<Rightarrow> ('f, 'i) loader \<Rightarrow> ('f, 'i) loader" where
  "SetLogLevel name level L =
     (case parse_level level of
        None \<Rightarrow> L
      | Some wanted \<Rightarrow>
          (case (if RequireLoaded name L \<noteq> None then FindPlugin name (ld_host L) else None) of
             None \<Rightarrow> L
           | Some plugin \<Rightarrow> L\<lparr>ld_host := ctx_SetMinLogLevel (pc_order plugin) wanted (ld_host L)\<rparr>))"

text \<open>The arguments after \<^verbatim>\<open>volt\<close>; the printing verbs change nothing.\<close>

definition volt_Run :: "string list \<Rightarrow> ('f, 'i) loader \<Rightarrow> ('f, 'i) loader" where
  "volt_Run arguments L =
     (let arg = (\<lambda>i. if i < length arguments then arguments ! i else []);
          verb = arg 0; target = arg 1; value = arg 2
      in if verb = ''version'' \<or> verb = ''list'' \<or> verb = ''status'' then L
         else if verb = ''load'' \<and> target \<noteq> [] then Defer Load target L
         else if verb = ''unload'' \<and> target \<noteq> [] then Defer Unload target L
         else if verb = ''reload'' \<and> target \<noteq> [] then Defer Reload target L
         else if verb = ''log'' \<and> target \<noteq> [] \<and> value \<noteq> [] then SetLogLevel target value L
         else L)"

text \<open>The lines the printing verbs log; \<open>status\<close> is what each plugin's \<^verbatim>\<open>Status\<close> call returns.\<close>

definition PrintVersion :: "string \<Rightarrow> string \<Rightarrow> string list" where
  "PrintVersion version stamp = [''VoltMod '' @ version @ '' ('' @ stamp @ '')'']"

definition PrintLoaded :: "string \<Rightarrow> string \<Rightarrow> ('f, 'i) loader \<Rightarrow> string list" where
  "PrintLoaded version stamp L =
     PrintVersion version stamp
     @ [if ld_loaded L = [] then ''No plugins are loaded.''
        else to_string (length (ld_loaded L)) @ '' plugin(s), in load order:'']
     @ map (\<lambda>lp. let m = lp_Manifest lp in ''  '' @ mf_Name m @ '' v'' @ mf_Version m @ '' (''
              @ (case ds_BuildStamp (lp_Descriptor lp) of Some s \<Rightarrow> s | None \<Rightarrow> []) @ '')''
              @ (if mf_Description m = [] then [] else '' - '') @ mf_Description m) (ld_loaded L)
     @ (if ld_refused L = [] then [] else [to_string (length (ld_refused L)) @ '' refused:''])
     @ map (\<lambda>(name, reason). ''  '' @ name @ '' - '' @ reason) (ld_refused L)"

definition status_line :: "(string \<Rightarrow> string option) \<Rightarrow> ('f, 'i) LoadedPlugin \<Rightarrow> string" where
  "status_line status lp = mf_Name (lp_Manifest lp) @ '': ''
     @ (case status (mf_Name (lp_Manifest lp)) of Some s \<Rightarrow> s | None \<Rightarrow> ''{}'')"

definition PrintStatus :: "(string \<Rightarrow> string option) \<Rightarrow> string \<Rightarrow> ('f, 'i) loader \<Rightarrow> string list" where
  "PrintStatus status name L =
     (if name = [] then map (status_line status) (ld_loaded L)
      else case RequireLoaded name L of None \<Rightarrow> [] | Some lp \<Rightarrow> [status_line status lp])"

end
