(* ===== verification/LoaderInvariant.thy ===== *)
theory LoaderInvariant
  imports PluginLoader "HOL-Library.Sublist"
begin

text \<open>
  What the loader keeps true whatever the libraries do: the host's views are the loaded plugins in load
  order, a refusal is on record only for a plugin that is not loaded, and the mounted folders and the
  engine's search path belong to loaded plugins. The properties of \<^verbatim>\<open>PluginLoader\<close> are at the end.
\<close>

section \<open>The invariant\<close>

definition loaded_names :: "('f, 'i) loader \<Rightarrow> string list" where
  "loaded_names L = map (mf_Name \<circ> lp_Manifest) (ld_loaded L)"

definition bounded_descriptor :: "('f, 'i) PluginDescriptor \<Rightarrow> bool" where
  "bounded_descriptor d \<longleftrightarrow>
     (\<forall>load view h. ds_Load d = Some load \<longrightarrow> host_api h (snd (snd (load view h)))) \<and>
     (\<forall>unload view h. ds_Unload d = Some unload \<longrightarrow> host_api h (unload view h))"

text \<open>Plugin code reaches the host only through its view.\<close>

definition bounded_env :: "('f, 'i) library_env \<Rightarrow> bool" where
  "bounded_env env \<longleftrightarrow> (\<forall>args f h. host_api h (snd (le_call env args f h))) \<and>
     (\<forall>name d. le_entry env name = Inr (Some d) \<longrightarrow> bounded_descriptor d)"

definition assets_ok :: "string set \<Rightarrow> ServerAssets \<Rightarrow> bool" where
  "assets_ok names sa \<longleftrightarrow> omap_ok (sa_mounted sa) \<and> fst ` set (sa_mounted sa) \<subseteq> names \<and>
     mset (sa_searchPath sa) = mset (map snd (sa_mounted sa))"

definition loader_ok :: "('f, 'i) loader \<Rightarrow> bool" where
  "loader_ok L \<longleftrightarrow> host_reachable (ld_host L) \<and> map pc_name (h_plugins (ld_host L)) = loaded_names L \<and>
     (\<forall>lp \<in> set (ld_loaded L). bounded_descriptor (lp_Descriptor lp)) \<and>
     omap_ok (ld_refused L) \<and> fst ` set (ld_refused L) \<inter> set (loaded_names L) = {} \<and>
     assets_ok (set (loaded_names L)) (ld_assets L)"

lemma FindLoaded_None: "FindLoaded name L = None \<longleftrightarrow> name \<notin> set (loaded_names L)"
  by (auto simp: FindLoaded_def loaded_names_def find_None_iff_all)

lemma FindPlugin_names: "FindPlugin name h \<noteq> None \<longleftrightarrow> name \<in> set (map pc_name (h_plugins h))"
  by (auto simp: FindPlugin_def find_None_iff_all image_iff)

lemma loader_ok_distinct: "loader_ok L \<Longrightarrow> distinct (loaded_names L)"
  using host_reachable_ok[of "ld_host L"] by (auto simp: loader_ok_def host_ok_def plugins_ok_def)

lemma loader_ok_init: "addons = None \<or> addons = Some wd_init \<Longrightarrow> loader_ok (loader_init addons)"
  using reach_init[of addons] by (simp add: loader_ok_def loader_init_def loaded_names_def assets_ok_def host_init_def)

section \<open>Asset folders\<close>

lemma mset_erase_first: "x \<in> set xs \<Longrightarrow> mset (erase_first (\<lambda>y. y = x) xs) = mset xs - {#x#}"
  by (induction xs) auto

lemma omap_erase_absent: "k \<notin> fst ` set m \<Longrightarrow> omap_erase k m = m"
  unfolding omap_erase_def by (rule filter_True) force

lemma omap_erase_assign: "k \<notin> fst ` set m \<Longrightarrow> omap_erase k (omap_assign k v m) = m"
proof (induction k v m rule: omap_assign.induct)
  case (2 k v k' v' m)
  then show ?case using omap_erase_absent[of k m] by (auto simp: omap_erase_def)
qed (simp add: omap_erase_def)

lemma mset_omap_erase: "distinct (map fst m) \<Longrightarrow> (k, v) \<in> set m \<Longrightarrow> mset m = add_mset (k, v) (mset (omap_erase k m))"
proof (induction m)
  case (Cons kv m)
  show ?case
  proof (cases "fst kv = k")
    case True
    then have "omap_erase k m = m" "kv = (k, v)" using Cons.prems by (auto intro!: omap_erase_absent simp: image_iff)
    then show ?thesis by (simp add: omap_erase_def)
  next
    case False
    then show ?thesis using Cons by (auto simp: omap_erase_def case_prod_beta)
  qed
qed simp

lemma assets_ok_Mount:
  assumes "assets_ok names sa" "name \<notin> names"
  shows "assets_ok (insert name names) (Mount folder name sa)"
    and "Unmount name (Mount folder name sa) = sa"
proof -
  have fresh: "name \<notin> fst ` set (sa_mounted sa)" using assms by (auto simp: assets_ok_def)
  then have "mset (map snd (omap_assign name path (sa_mounted sa))) = add_mset path (mset (map snd (sa_mounted sa)))" for path
    using mset_omap_assign[of name "sa_mounted sa" path] by (metis image_mset_add_mset mset_map snd_conv)
  then show "assets_ok (insert name names) (Mount folder name sa)"
    using assms by (auto simp: assets_ok_def Mount_def split: option.split)
  have "map_of (sa_mounted sa) name = None" using fresh by (simp add: map_of_eq_None_iff)
  then show "Unmount name (Mount folder name sa) = sa"
    using assms fresh by (auto simp: Mount_def Unmount_def assets_ok_def omap_erase_assign split: option.split)
qed

lemma assets_ok_Unmount:
  assumes ok: "assets_ok names sa"
  shows "assets_ok (names - {name}) (Unmount name sa)"
proof (cases "map_of (sa_mounted sa) name")
  case None
  then have "name \<notin> fst ` set (sa_mounted sa)" by (simp add: map_of_eq_None_iff)
  with None ok show ?thesis by (auto simp: Unmount_def assets_ok_def)
next
  case (Some path)
  let ?m = "sa_mounted sa"
  have path: "(name, path) \<in> set ?m" using Some by (rule map_of_SomeD)
  have m: "mset ?m = add_mset (name, path) (mset (omap_erase name ?m))"
    using ok path by (intro mset_omap_erase) (auto simp: assets_ok_def omap_ok_distinct)
  have sp: "mset (sa_searchPath sa) = mset (map snd ?m)" using ok by (simp add: assets_ok_def)
  then have sp': "mset (sa_searchPath sa) = add_mset path (mset (map snd (omap_erase name ?m)))"
    by (simp only: mset_map m image_mset_add_mset snd_conv)
  then have "path \<in> set (sa_searchPath sa)" by (metis union_single_eq_member set_mset_mset)
  then have "mset (erase_first (\<lambda>p. p = path) (sa_searchPath sa)) = mset (map snd (omap_erase name ?m))"
    by (simp add: mset_erase_first sp')
  moreover have "fst ` set (omap_erase name ?m) = fst ` set ?m - {name}" by (auto simp: omap_erase_def)
  ultimately show ?thesis using ok Some by (auto simp: Unmount_def assets_ok_def)
qed

section \<open>Loading and unloading one plugin\<close>

lemma ValidateDescriptor_Inr:
  "ValidateDescriptor descriptor v = Inr u \<Longrightarrow> \<exists>d. descriptor = Some d \<and> ds_Load d \<noteq> None \<and> ds_Unload d \<noteq> None"
  by (cases descriptor) (auto simp: ValidateDescriptor_def Let_def split: if_splits)

lemma reachable_api: "host_reachable h \<Longrightarrow> host_api h h' \<Longrightarrow> host_reachable h' \<and> host_ok h' \<and>
    map pc_name (h_plugins h') = map pc_name (h_plugins h)"
  using reach_api[of h h'] host_reachable_ok[of h'] host_api_views[of h h'] by blast

lemma attach_ok:
  assumes ok: "loader_ok L" and env: "bounded_env env" and d: "bounded_descriptor d" "ds_Load d = Some load"
    and fresh: "mf_Name m \<notin> set (loaded_names L)"
    and added: "AddPlugin (mf_Name m) tag version (ld_host L) = (Some view, h)"
    and run: "attach env m d view (L\<lparr>ld_host := h\<rparr>) = (res, L')"
  shows "loader_ok L'" "ld_pending L' = ld_pending L"
    "res = Inr () \<and> ld_loaded L' = ld_loaded L @ [\<lparr>lp_Manifest = m, lp_Descriptor = d\<rparr>] \<and>
       ld_refused L' = omap_erase (mf_Name m) (ld_refused L)
     \<or> (\<exists>e. res = Inl e) \<and> ld_loaded L' = ld_loaded L \<and> ld_refused L' = ld_refused L"
proof -
  let ?name = "mf_Name m"
  let ?names = "set (loaded_names L)"
  define h1 where "h1 = ctx_SetMinLogLevel view (mf_LogLevel m) h"
  obtain loaded failure h2 where load: "load view h1 = (loaded, failure, h2)" by (cases "load view h1") auto
  have h: "h = snd (AddPlugin ?name tag version (ld_host L))" using added by simp
  have names: "map pc_name (h_plugins h) = loaded_names L @ [?name]"
    using added ok by (auto simp: AddPlugin_def Let_def loader_ok_def split: if_splits)
  have "host_reachable h" using ok by (simp add: h loader_ok_def reach_AddPlugin)
  then have "host_reachable h1" unfolding h1_def by (rule reach_SetMinLogLevel)
  moreover have "map pc_name (h_plugins h1) = loaded_names L @ [?name]"
    using names by (simp add: h1_def ctx_SetMinLogLevel_def upd_context_map_key)
  moreover have "host_api h1 h2" using d load unfolding bounded_descriptor_def by (metis snd_conv)
  ultimately have h2: "host_reachable h2" "host_ok h2" "map pc_name (h_plugins h2) = loaded_names L @ [?name]"
    using reachable_api by (blast, blast, metis)
  have assets: "assets_ok ?names (ld_assets L)" using ok by (simp add: loader_ok_def)
  have "loader_ok L' \<and> ld_pending L' = ld_pending L \<and> (res = Inr () \<and> ld_loaded L' = ld_loaded L @ [\<lparr>lp_Manifest = m, lp_Descriptor = d\<rparr>] \<and>
       ld_refused L' = omap_erase ?name (ld_refused L)
     \<or> (\<exists>e. res = Inl e) \<and> ld_loaded L' = ld_loaded L \<and> ld_refused L' = ld_refused L)"
  proof (cases loaded)
    case True
    have "host_api h2 (ctx_ReplayMissedEvents view (le_call env) h2)"
      using env h2(2) by (intro Replay_api) (simp_all add: bounded_env_def)
    from reachable_api[OF h2(1) this] h2(3)
    have replay: "host_reachable (ctx_ReplayMissedEvents view (le_call env) h2)"
      "map pc_name (h_plugins (ctx_ReplayMissedEvents view (le_call env) h2)) = loaded_names L @ [?name]" by simp_all
    have L': "res = Inr ()" "L' = L\<lparr>ld_assets := Mount (le_assets env) ?name (ld_assets L),
        ld_host := ctx_ReplayMissedEvents view (le_call env) h2,
        ld_loaded := ld_loaded L @ [\<lparr>lp_Manifest = m, lp_Descriptor = d\<rparr>], ld_refused := omap_erase ?name (ld_refused L)\<rparr>"
      using run True by (simp_all add: attach_def Let_def d(2) load h1_def[symmetric])
    have "loaded_names L' = loaded_names L @ [?name]" by (simp add: L' loaded_names_def)
    moreover have "fst ` set (omap_erase ?name (ld_refused L)) = fst ` set (ld_refused L) - {?name}"
      by (auto simp: omap_erase_def)
    ultimately show ?thesis
      using ok d(1) replay assets_ok_Mount(1)[OF assets fresh] by (auto simp: loader_ok_def L'(2)) (auto simp: L')
  next
    case False
    obtain c where c: "FindPlugin ?name h2 = Some c" using FindPlugin_names[of ?name h2] h2(3) by auto
    have "map pc_name (h_plugins (snd (RemovePlugin ?name h2))) = filter (\<lambda>n. n \<noteq> ?name) (map pc_name (h_plugins h2))"
      by (simp add: RemovePlugin_fields(2)[OF h2(2) c] filter_map o_def)
    also have "\<dots> = loaded_names L" using fresh by (auto simp: h2(3) filter_id_conv)
    finally have removed: "map pc_name (h_plugins (snd (RemovePlugin ?name h2))) = loaded_names L" .
    have L': "\<exists>e. res = Inl e" "L' = L\<lparr>ld_host := snd (RemovePlugin ?name h2)\<rparr>"
      using run False assets_ok_Mount(2)[OF assets fresh, of "le_assets env"]
      by (auto simp: attach_def Let_def d(2) load h1_def[symmetric])
    have "loaded_names L' = loaded_names L" by (simp add: L' loaded_names_def)
    then show ?thesis using ok L'(1) removed reach_RemovePlugin[OF h2(1)] by (auto simp: loader_ok_def L'(2))
  qed
  then show "loader_ok L'" "ld_pending L' = ld_pending L"
    "res = Inr () \<and> ld_loaded L' = ld_loaded L @ [\<lparr>lp_Manifest = m, lp_Descriptor = d\<rparr>] \<and>
       ld_refused L' = omap_erase (mf_Name m) (ld_refused L)
     \<or> (\<exists>e. res = Inl e) \<and> ld_loaded L' = ld_loaded L \<and> ld_refused L' = ld_refused L" by blast+
qed

lemma LoadOne_ok:
  assumes ok: "loader_ok L" and env: "bounded_env env" and fresh: "mf_Name m \<notin> set (loaded_names L)"
    and run: "LoadOne env m L = (res, L')"
  shows "loader_ok L'" "ld_pending L' = ld_pending L"
    "(\<exists>d. res = Inr () \<and> ld_loaded L' = ld_loaded L @ [\<lparr>lp_Manifest = m, lp_Descriptor = d\<rparr>] \<and>
       ld_refused L' = omap_erase (mf_Name m) (ld_refused L))
     \<or> (\<exists>e. res = Inl e) \<and> ld_loaded L' = ld_loaded L \<and> ld_refused L' = ld_refused L"
proof -
  consider e where "res = Inl e" "L' = L"
    | d load view h where "le_entry env (mf_Name m) = Inr (Some d)" "ds_Load d = Some load"
      "AddPlugin (mf_Name m) (mf_LogTag m) (mf_Version m) (ld_host L) = (Some view, h)"
      "attach env m d view (L\<lparr>ld_host := h\<rparr>) = (res, L')"
  proof (cases "le_open env (mf_Name m)")
    case (Inr opened)
    note opened = Inr
    show ?thesis
    proof (cases "le_entry env (mf_Name m)")
      case (Inr descriptor)
      show ?thesis
      proof (cases "ValidateDescriptor descriptor (le_version env)")
        case valid: (Inr u)
        then obtain d load where d: "descriptor = Some d" "ds_Load d = Some load"
          using ValidateDescriptor_Inr[OF valid] by blast
        obtain added h where "AddPlugin (mf_Name m) (mf_LogTag m) (mf_Version m) (ld_host L) = (added, h)"
          by (cases "AddPlugin (mf_Name m) (mf_LogTag m) (mf_Version m) (ld_host L)") auto
        then show ?thesis using that run opened Inr valid d by (cases added) (auto simp: LoadOne_def)
      next
        case (Inl e)
        then have "res = Inl e" "L' = L" using run opened \<open>le_entry env (mf_Name m) = Inr descriptor\<close>
          by (simp_all add: LoadOne_def)
        then show ?thesis by (rule that(1))
      qed
    qed (use that(1) run opened in \<open>auto simp: LoadOne_def\<close>)
  next
    case (Inl e)
    then have "res = Inl e" "L' = L" using run by (simp_all add: LoadOne_def)
    then show ?thesis by (rule that(1))
  qed
  then have "loader_ok L' \<and> ld_pending L' = ld_pending L \<and>
    ((\<exists>d. res = Inr () \<and> ld_loaded L' = ld_loaded L @ [\<lparr>lp_Manifest = m, lp_Descriptor = d\<rparr>] \<and>
       ld_refused L' = omap_erase (mf_Name m) (ld_refused L))
     \<or> (\<exists>e. res = Inl e) \<and> ld_loaded L' = ld_loaded L \<and> ld_refused L' = ld_refused L)"
  proof cases
    case 2
    then have "bounded_descriptor d" using env by (simp add: bounded_env_def)
    from attach_ok[OF ok env this 2(2) fresh 2(3,4)] show ?thesis by blast
  qed (use ok in simp)
  then show "loader_ok L'" "ld_pending L' = ld_pending L"
    "(\<exists>d. res = Inr () \<and> ld_loaded L' = ld_loaded L @ [\<lparr>lp_Manifest = m, lp_Descriptor = d\<rparr>] \<and>
       ld_refused L' = omap_erase (mf_Name m) (ld_refused L))
     \<or> (\<exists>e. res = Inl e) \<and> ld_loaded L' = ld_loaded L \<and> ld_refused L' = ld_refused L" by blast+
qed

lemma UnloadOne_ok:
  assumes ok: "loader_ok L" and env: "bounded_env env" and L'_def: "L' = UnloadOne env name time L"
  shows "loader_ok L'" "ld_loaded L' = filter (\<lambda>lp. mf_Name (lp_Manifest lp) \<noteq> name) (ld_loaded L)"
    "ld_refused L' = ld_refused L" "ld_pending L' = ld_pending L"
proof -
  have "loader_ok L' \<and> ld_loaded L' = filter (\<lambda>lp. mf_Name (lp_Manifest lp) \<noteq> name) (ld_loaded L) \<and>
    ld_refused L' = ld_refused L \<and> ld_pending L' = ld_pending L"
  proof (cases "FindLoaded name L")
    case None
    then have "filter (\<lambda>lp. mf_Name (lp_Manifest lp) \<noteq> name) (ld_loaded L) = ld_loaded L"
      by (auto simp: FindLoaded_def find_None_iff_all filter_id_conv)
    with None ok show ?thesis by (simp add: L'_def UnloadOne_def)
  next
    case (Some found)
    then have found: "found \<in> set (ld_loaded L)" unfolding FindLoaded_def by (drule_tac find_SomeD) simp
    have reach: "host_reachable (ld_host L)" and names: "map pc_name (h_plugins (ld_host L)) = loaded_names L"
      using ok by (simp_all add: loader_ok_def)
    have "name \<in> set (loaded_names L)" using Some FindLoaded_None[of name L] by auto
    then obtain view where view: "FindPlugin name (ld_host L) = Some view"
      using FindPlugin_names[of name "ld_host L"] names by auto
    define h1 where "h1 = (if time = MidMap then ctx_DisconnectClients (pc_order view) (le_call env) (ld_host L) else ld_host L)"
    define h2 where "h2 = (case ds_Unload (lp_Descriptor found) of None \<Rightarrow> h1 | Some unload \<Rightarrow> unload (pc_order view) h1)"
    have "host_api (ld_host L) h1"
      using env host_reachable_ok[OF reach] by (auto simp: h1_def host_refl bounded_env_def intro: Disconnect_api)
    moreover have "bounded_descriptor (lp_Descriptor found)" using ok found by (simp add: loader_ok_def)
    then have "host_api h1 h2" by (auto simp: h2_def bounded_descriptor_def host_refl split: option.split)
    ultimately have "host_api (ld_host L) h2" using host_api_trans by blast
    from reachable_api[OF reach this] names
    have h2: "host_reachable h2" "host_ok h2" "map pc_name (h_plugins h2) = loaded_names L" by simp_all
    obtain c where c: "FindPlugin name h2 = Some c"
      using FindPlugin_names[of name h2] h2(3) \<open>name \<in> set (loaded_names L)\<close> by auto
    have "distinct (map (mf_Name \<circ> lp_Manifest) (ld_loaded L))"
      using loader_ok_distinct[OF ok] by (simp add: loaded_names_def)
    from erase_first_distinct[OF this, of name]
    have erase: "erase_first (\<lambda>lp. mf_Name (lp_Manifest lp) = name) (ld_loaded L) = filter (\<lambda>lp. mf_Name (lp_Manifest lp) \<noteq> name) (ld_loaded L)"
      by (simp add: o_def)
    have L': "L' = L\<lparr>ld_host := snd (RemovePlugin name h2), ld_assets := Unmount name (ld_assets L),
        ld_loaded := filter (\<lambda>lp. mf_Name (lp_Manifest lp) \<noteq> name) (ld_loaded L)\<rparr>"
      by (simp add: L'_def UnloadOne_def Some view Let_def h1_def[symmetric] h2_def[symmetric] erase)
    have ln: "loaded_names L' = filter (\<lambda>n. n \<noteq> name) (loaded_names L)"
      by (simp add: L' loaded_names_def filter_map o_def)
    have "map pc_name (h_plugins (snd (RemovePlugin name h2))) = filter (\<lambda>n. n \<noteq> name) (map pc_name (h_plugins h2))"
      by (simp add: RemovePlugin_fields(2)[OF h2(2) c] filter_map o_def)
    then have "map pc_name (h_plugins (ld_host L')) = loaded_names L'" by (simp add: ln h2(3)) (simp add: L')
    moreover have "set (loaded_names L') = set (loaded_names L) - {name}" by (auto simp: ln)
    moreover have "assets_ok (set (loaded_names L')) (ld_assets L')"
      using ok assets_ok_Unmount[of "set (loaded_names L)" "ld_assets L" name]
      by (simp add: calculation(2) loader_ok_def) (simp add: L')
    moreover have "host_reachable (ld_host L')" by (simp add: L' reach_RemovePlugin h2(1))
    moreover have fields: "ld_loaded L' = filter (\<lambda>lp. mf_Name (lp_Manifest lp) \<noteq> name) (ld_loaded L)"
      "ld_refused L' = ld_refused L" "ld_pending L' = ld_pending L" by (simp_all add: L')
    ultimately have "loader_ok L'" using ok unfolding loader_ok_def by (auto simp only: set_filter fields(1,2))
    with fields show ?thesis by blast
  qed
  then show "loader_ok L'" "ld_loaded L' = filter (\<lambda>lp. mf_Name (lp_Manifest lp) \<noteq> name) (ld_loaded L)"
    "ld_refused L' = ld_refused L" "ld_pending L' = ld_pending L" by blast+
qed

section \<open>Groups\<close>

text \<open>Every plugin that was loaded or refused still is one of the two.\<close>

definition settled :: "('f, 'i) loader \<Rightarrow> string set" where
  "settled L = set (loaded_names L) \<union> fst ` set (ld_refused L)"

lemma Refuse_ok:
  assumes "loader_ok L" "name \<notin> set (loaded_names L)"
  shows "loader_ok (Refuse name reason L)" "settled (Refuse name reason L) = insert name (settled L)"
    "ld_loaded (Refuse name reason L) = ld_loaded L" "ld_pending (Refuse name reason L) = ld_pending L"
    "loaded_names (Refuse name reason L) = loaded_names L"
  using assms by (simp_all add: Refuse_def loader_ok_def loaded_names_def settled_def)

lemma refuse_all_ok:
  assumes "loader_ok L" "\<And>r. r \<in> set rs \<Longrightarrow> wanted (rp_Name r) \<Longrightarrow> rp_Name r \<notin> set (loaded_names L)"
  shows "loader_ok (refuse_all wanted rs L) \<and> ld_loaded (refuse_all wanted rs L) = ld_loaded L \<and>
    ld_pending (refuse_all wanted rs L) = ld_pending L \<and>
    settled (refuse_all wanted rs L) = settled L \<union> {n \<in> rp_Name ` set rs. wanted n}"
  using assms
proof (induction rs arbitrary: L)
  case (Cons r rs)
  define L1 where "L1 = (if wanted (rp_Name r) then Refuse (rp_Name r) (err_Detail (rp_Reason r)) L else L)"
  have "loader_ok L1" "ld_loaded L1 = ld_loaded L" "loaded_names L1 = loaded_names L" "ld_pending L1 = ld_pending L"
    "settled L1 = settled L \<union> {n. n = rp_Name r \<and> wanted n}"
    using Refuse_ok[OF Cons.prems(1), of "rp_Name r"] Cons.prems by (auto simp: L1_def)
  moreover have "refuse_all wanted (r # rs) L = refuse_all wanted rs L1" by (simp add: L1_def)
  ultimately show ?case using Cons.IH[of L1] Cons.prems(2) by auto
qed auto

definition load_named ::
  "('f, 'i) library_env \<Rightarrow> InstalledScan \<Rightarrow> (string \<Rightarrow> bool) \<Rightarrow> string \<Rightarrow> ('f, 'i) loader \<Rightarrow> ('f, 'i) loader" where
  "load_named env installed wanted name L =
       (if \<not> wanted name \<or> FindLoaded name L \<noteq> None then L
        else case List.find (\<lambda>m. mf_Name m = name) (is_Plugins installed) of
               None \<Rightarrow> L
             | Some found \<Rightarrow> (case LoadOne env found L of
                 (Inl e, L') \<Rightarrow> Refuse name (err_Detail e) L'
               | (Inr _, L') \<Rightarrow> L'))"

lemma load_each_Cons: "load_each env installed wanted (name # names) L = load_each env installed wanted names (load_named env installed wanted name L)"
  by (simp add: load_named_def)

lemma load_or_refuse_ok:
  assumes ok: "loader_ok L" and env: "bounded_env env" and fresh: "mf_Name m \<notin> set (loaded_names L)"
    and L': "L' = (case LoadOne env m L of (Inl e, L') \<Rightarrow> Refuse (mf_Name m) (err_Detail e) L' | (Inr _, L') \<Rightarrow> L')"
  shows "loader_ok L'" "ld_pending L' = ld_pending L" "settled L' = insert (mf_Name m) (settled L)"
    "ld_loaded L' = ld_loaded L \<or> (\<exists>d. ld_loaded L' = ld_loaded L @ [\<lparr>lp_Manifest = m, lp_Descriptor = d\<rparr>])"
proof -
  obtain res L1 where run: "LoadOne env m L = (res, L1)" by (cases "LoadOne env m L") auto
  note f = LoadOne_ok[OF ok env fresh run]
  have "loader_ok L' \<and> ld_pending L' = ld_pending L \<and> settled L' = insert (mf_Name m) (settled L) \<and>
    (ld_loaded L' = ld_loaded L \<or> (\<exists>d. ld_loaded L' = ld_loaded L @ [\<lparr>lp_Manifest = m, lp_Descriptor = d\<rparr>]))"
    using f(3)
  proof (elim disjE exE conjE)
    fix d assume l: "res = Inr ()" "ld_loaded L1 = ld_loaded L @ [\<lparr>lp_Manifest = m, lp_Descriptor = d\<rparr>]"
      "ld_refused L1 = omap_erase (mf_Name m) (ld_refused L)"
    have "fst ` set (omap_erase (mf_Name m) (ld_refused L)) = fst ` set (ld_refused L) - {mf_Name m}"
      by (auto simp: omap_erase_def)
    with l f(1,2) show ?thesis by (auto simp: L' run settled_def loaded_names_def)
  next
    fix e assume l: "res = Inl e" "ld_loaded L1 = ld_loaded L" "ld_refused L1 = ld_refused L"
    then have "loaded_names L1 = loaded_names L" "settled L1 = settled L" by (simp_all add: loaded_names_def settled_def)
    with l f(1,2) Refuse_ok[OF f(1), of "mf_Name m" "err_Detail e"] fresh show ?thesis by (simp add: L' run)
  qed
  then show "loader_ok L'" "ld_pending L' = ld_pending L" "settled L' = insert (mf_Name m) (settled L)"
    "ld_loaded L' = ld_loaded L \<or> (\<exists>d. ld_loaded L' = ld_loaded L @ [\<lparr>lp_Manifest = m, lp_Descriptor = d\<rparr>])" by blast+
qed

lemma find_manifest: "List.find (\<lambda>m. mf_Name m = name) ms = Some found \<Longrightarrow> found \<in> set ms \<and> mf_Name found = name"
  by (drule find_SomeD) simp

lemma load_named_ok:
  assumes ok: "loader_ok L" and env: "bounded_env env" and L': "L' = load_named env installed wanted name L"
  shows "loader_ok L'" "ld_pending L' = ld_pending L"
    "settled L \<subseteq> settled L'" "wanted name \<and> name \<in> mf_Name ` set (is_Plugins installed) \<Longrightarrow> name \<in> settled L'"
    "ld_loaded L' = ld_loaded L \<or> (\<exists>m d. ld_loaded L' = ld_loaded L @ [\<lparr>lp_Manifest = m, lp_Descriptor = d\<rparr>] \<and>
       m \<in> set (is_Plugins installed) \<and> mf_Name m = name \<and> wanted name)"
proof -
  let ?thesis = "loader_ok L' \<and> ld_pending L' = ld_pending L \<and> settled L \<subseteq> settled L' \<and>
    (wanted name \<and> name \<in> mf_Name ` set (is_Plugins installed) \<longrightarrow> name \<in> settled L') \<and>
    (ld_loaded L' = ld_loaded L \<or> (\<exists>m d. ld_loaded L' = ld_loaded L @ [\<lparr>lp_Manifest = m, lp_Descriptor = d\<rparr>] \<and>
       m \<in> set (is_Plugins installed) \<and> mf_Name m = name \<and> wanted name))"
  have ?thesis
  proof (cases "\<not> wanted name \<or> FindLoaded name L \<noteq> None")
    case True
    then have "L' = L" "wanted name \<longrightarrow> name \<in> set (loaded_names L)"
      using FindLoaded_None[of name L] by (simp_all add: L' load_named_def)
    with ok show ?thesis by (auto simp: settled_def)
  next
    case False
    then have fresh: "wanted name" "name \<notin> set (loaded_names L)" using FindLoaded_None[of name L] by auto
    show ?thesis
    proof (cases "List.find (\<lambda>m. mf_Name m = name) (is_Plugins installed)")
      case None
      then have "name \<notin> mf_Name ` set (is_Plugins installed)" by (auto simp: find_None_iff_all)
      moreover have "L' = L" using False None by (simp add: L' load_named_def)
      ultimately show ?thesis using ok by simp
    next
      case (Some found)
      note found = find_manifest[OF Some]
      have "L' = (case LoadOne env found L of (Inl e, L') \<Rightarrow> Refuse (mf_Name found) (err_Detail e) L' | (Inr _, L') \<Rightarrow> L')"
        using False Some found by (simp add: L' load_named_def split: sum.split prod.split)
      from load_or_refuse_ok[OF ok env _ this] found fresh show ?thesis by auto
    qed
  qed
  then show "loader_ok L'" "ld_pending L' = ld_pending L"
    "settled L \<subseteq> settled L'" "wanted name \<and> name \<in> mf_Name ` set (is_Plugins installed) \<Longrightarrow> name \<in> settled L'"
    "ld_loaded L' = ld_loaded L \<or> (\<exists>m d. ld_loaded L' = ld_loaded L @ [\<lparr>lp_Manifest = m, lp_Descriptor = d\<rparr>] \<and>
       m \<in> set (is_Plugins installed) \<and> mf_Name m = name \<and> wanted name)" by blast+
qed

text \<open>What a group load appends: a sub-sequence of the names it was given, from installed manifests.\<close>

definition appended :: "InstalledScan \<Rightarrow> string list \<Rightarrow> ('f, 'i) loader \<Rightarrow> ('f, 'i) loader \<Rightarrow> bool" where
  "appended installed names L L' \<longleftrightarrow> (\<exists>xs. ld_loaded L' = ld_loaded L @ xs \<and>
     subseq (map (mf_Name \<circ> lp_Manifest) xs) names \<and> lp_Manifest ` set xs \<subseteq> set (is_Plugins installed))"

lemma load_each_ok:
  assumes env: "bounded_env env" and "loader_ok L"
  shows "loader_ok (load_each env installed wanted names L) \<and> ld_pending (load_each env installed wanted names L) = ld_pending L \<and>
    settled L \<union> {n \<in> set names. wanted n \<and> n \<in> mf_Name ` set (is_Plugins installed)} \<subseteq> settled (load_each env installed wanted names L) \<and>
    appended installed (filter wanted names) L (load_each env installed wanted names L)"
  using assms(2)
proof (induction names arbitrary: L)
  case (Cons name names)
  define L1 where "L1 = load_named env installed wanted name L"
  note f = load_named_ok[OF Cons.prems env L1_def]
  note IH = Cons.IH[OF f(1)]
  define L2 where "L2 = load_each env installed wanted names L1"
  obtain xs where xs: "ld_loaded L2 = ld_loaded L1 @ xs" "subseq (map (mf_Name \<circ> lp_Manifest) xs) (filter wanted names)"
    "lp_Manifest ` set xs \<subseteq> set (is_Plugins installed)" using IH by (auto simp: appended_def L2_def)
  have "appended installed (filter wanted (name # names)) L L2"
    using f(5)
  proof (elim disjE exE conjE)
    assume "ld_loaded L1 = ld_loaded L"
    then show ?thesis using xs by (auto simp: appended_def intro: exI[of _ xs])
  next
    fix m d assume l: "ld_loaded L1 = ld_loaded L @ [\<lparr>lp_Manifest = m, lp_Descriptor = d\<rparr>]"
      "m \<in> set (is_Plugins installed)" "mf_Name m = name" "wanted name"
    then show ?thesis using xs unfolding appended_def
      by (intro exI[of _ "\<lparr>lp_Manifest = m, lp_Descriptor = d\<rparr> # xs"]) auto
  qed
  then show ?case using IH f(2-4) unfolding load_each_Cons L1_def[symmetric] L2_def[symmetric] by auto
qed (auto simp: appended_def)

lemma LoadGroup_ok:
  assumes ok: "loader_ok L" and env: "bounded_env env" and down: "\<And>n. n \<in> set (loaded_names L) \<Longrightarrow> \<not> wanted n"
    and L': "L' = LoadGroup env installed wanted L"
  shows "loader_ok L'" "ld_pending L' = ld_pending L"
    "settled L \<union> {n \<in> mf_Name ` set (is_Plugins installed) \<union> rp_Name ` set (is_Refused installed). wanted n} \<subseteq> settled L'"
    "appended installed (filter wanted (ll_ToLoad (Resolve (is_Plugins installed)))) L L'"
proof -
  define l where "l = Resolve (is_Plugins installed)"
  define L1 where "L1 = refuse_all wanted (is_Refused installed) L"
  define L2 where "L2 = refuse_all wanted (ll_Refused l) L1"
  have one: "loader_ok L1 \<and> ld_loaded L1 = ld_loaded L \<and> ld_pending L1 = ld_pending L \<and>
      settled L1 = settled L \<union> {n \<in> rp_Name ` set (is_Refused installed). wanted n}"
    unfolding L1_def by (rule refuse_all_ok[OF ok]) (use down in blast)
  then have "loaded_names L1 = loaded_names L" by (simp add: loaded_names_def)
  then have two: "loader_ok L2 \<and> ld_loaded L2 = ld_loaded L1 \<and> ld_pending L2 = ld_pending L1 \<and>
      settled L2 = settled L1 \<union> {n \<in> rp_Name ` set (ll_Refused l). wanted n}"
    unfolding L2_def using one down by (intro refuse_all_ok) auto
  have L'2: "L' = load_each env installed wanted (ll_ToLoad l) L2"
    by (simp add: L' LoadGroup_def Let_def l_def L1_def L2_def)
  have three: "loader_ok L' \<and> ld_pending L' = ld_pending L2 \<and>
    settled L2 \<union> {n \<in> set (ll_ToLoad l). wanted n \<and> n \<in> mf_Name ` set (is_Plugins installed)} \<subseteq> settled L' \<and>
    appended installed (filter wanted (ll_ToLoad l)) L2 L'"
    unfolding L'2 using two by (intro load_each_ok[OF env]) blast
  have verdict: "set (ll_ToLoad l) = {n \<in> mf_Name ` set (is_Plugins installed). \<not> must_refuse (is_Plugins installed) n}"
    "rp_Name ` set (ll_Refused l) = {n. must_refuse (is_Plugins installed) n}"
    using set_Resolve_ToLoad[of "is_Plugins installed"] set_Resolve_Refused[of "is_Plugins installed"] by (simp_all add: l_def)
  show "settled L \<union> {n \<in> mf_Name ` set (is_Plugins installed) \<union> rp_Name ` set (is_Refused installed). wanted n} \<subseteq> settled L'"
  proof (rule subsetI)
    have le: "settled L2 \<subseteq> settled L'" "{n \<in> set (ll_ToLoad l). wanted n \<and> n \<in> mf_Name ` set (is_Plugins installed)} \<subseteq> settled L'"
      using three by simp_all
    have eq: "settled L2 = settled L \<union> {n \<in> rp_Name ` set (is_Refused installed). wanted n} \<union> {n \<in> rp_Name ` set (ll_Refused l). wanted n}"
      using one two by simp
    fix n assume "n \<in> settled L \<union> {n \<in> mf_Name ` set (is_Plugins installed) \<union> rp_Name ` set (is_Refused installed). wanted n}"
    then consider "n \<in> settled L2" | "n \<in> mf_Name ` set (is_Plugins installed)" "wanted n" unfolding eq by blast
    then show "n \<in> settled L'"
    proof cases
      case 2
      then have "n \<in> settled L2 \<or> n \<in> set (ll_ToLoad l)" unfolding eq verdict by blast
      with 2 le show ?thesis by blast
    qed (use le(1) in blast)
  qed
  show "loader_ok L'" "ld_pending L' = ld_pending L"
    "appended installed (filter wanted (ll_ToLoad (Resolve (is_Plugins installed)))) L L'"
    using one two three by (simp_all add: l_def appended_def)
qed

section \<open>Deferred actions\<close>

definition down :: "('f, 'i) library_env \<Rightarrow> string list \<Rightarrow> ('f, 'i) loader \<Rightarrow> ('f, 'i) loader" where
  "down env names L = fold (\<lambda>plugin. UnloadOne env plugin MidMap) names L"

lemma down_ok:
  assumes "loader_ok L" and env: "bounded_env env"
  shows "loader_ok (down env names L) \<and> ld_refused (down env names L) = ld_refused L \<and> ld_pending (down env names L) = ld_pending L \<and>
    ld_loaded (down env names L) = filter (\<lambda>lp. mf_Name (lp_Manifest lp) \<notin> set names) (ld_loaded L)"
  using assms(1)
proof (induction names arbitrary: L)
  case (Cons name names)
  note f = UnloadOne_ok[OF Cons.prems env refl, of name MidMap]
  show ?case using Cons.IH[OF f(1)] f(2-4) by (simp add: down_def conj_commute)
qed (simp add: down_def)

lemma RunReload_ok:
  assumes ok: "loader_ok L" and env: "bounded_env env" and name: "name \<in> set (loaded_names L)"
    and L': "L' = RunReload env installed name L"
  defines "members \<equiv> set (reload_group name L)"
  shows "loader_ok L'" "ld_pending L' = ld_pending L"
    "\<exists>xs. ld_loaded L' = filter (\<lambda>lp. mf_Name (lp_Manifest lp) \<notin> members) (ld_loaded L) @ xs \<and>
       subseq (map (mf_Name \<circ> lp_Manifest) xs) (filter (\<lambda>n. n \<in> members) (ll_ToLoad (Resolve (is_Plugins installed)))) \<and>
       lp_Manifest ` set xs \<subseteq> set (is_Plugins installed)"
    "{n \<in> mf_Name ` set (is_Plugins installed) \<union> rp_Name ` set (is_Refused installed). n \<in> members} \<subseteq> settled L'"
proof -
  define going where "going = going_down (reload_group name L) L"
  define L1 where "L1 = down env going L"
  have going: "set going = members \<inter> set (loaded_names L)"
    by (auto simp: going_def going_down_def members_def loaded_names_def LoadedManifests_def)
  note f = down_ok[OF ok env, of going, folded L1_def]
  have loaded: "ld_loaded L1 = filter (\<lambda>lp. mf_Name (lp_Manifest lp) \<notin> members) (ld_loaded L)"
    using f going by (auto simp: loaded_names_def intro!: filter_cong)
  obtain running where "FindLoaded name L = Some running"
    using name FindLoaded_None[of name L] by (cases "FindLoaded name L") auto
  then have "L' = LoadGroup env installed (\<lambda>n. n \<in> set (reload_group name L)) L1"
    by (simp add: L' RunReload_def RequireLoaded_def Let_def L1_def down_def going_def)
  moreover have "n \<notin> set (reload_group name L)" if "n \<in> set (loaded_names L1)" for n
    using that by (auto simp: loaded_names_def loaded members_def)
  ultimately have g: "loader_ok L'" "ld_pending L' = ld_pending L1"
    "settled L1 \<union> {n \<in> mf_Name ` set (is_Plugins installed) \<union> rp_Name ` set (is_Refused installed). n \<in> members} \<subseteq> settled L'"
    "appended installed (filter (\<lambda>n. n \<in> members) (ll_ToLoad (Resolve (is_Plugins installed)))) L1 L'"
    using LoadGroup_ok[of L1 env "\<lambda>n. n \<in> set (reload_group name L)" L' installed] f env by (simp_all add: members_def)
  show "loader_ok L'" by (rule g(1))
  show "ld_pending L' = ld_pending L" using g(2) f by simp
  show "{n \<in> mf_Name ` set (is_Plugins installed) \<union> rp_Name ` set (is_Refused installed). n \<in> members} \<subseteq> settled L'"
    using g(3) by blast
  show "\<exists>xs. ld_loaded L' = filter (\<lambda>lp. mf_Name (lp_Manifest lp) \<notin> members) (ld_loaded L) @ xs \<and>
       subseq (map (mf_Name \<circ> lp_Manifest) xs) (filter (\<lambda>n. n \<in> members) (ll_ToLoad (Resolve (is_Plugins installed)))) \<and>
       lp_Manifest ` set xs \<subseteq> set (is_Plugins installed)"
    using g(4) by (simp add: appended_def loaded)
qed

lemma RunLoad_ok:
  assumes ok: "loader_ok L" and env: "bounded_env env" and L': "L' = RunLoad env installed name L"
  shows "loader_ok L'" "ld_pending L' = ld_pending L"
    "ld_loaded L' = ld_loaded L \<or> (\<exists>m d. ld_loaded L' = ld_loaded L @ [\<lparr>lp_Manifest = m, lp_Descriptor = d\<rparr>] \<and>
       mf_Name m = name \<and> set (mf_Dependencies m) \<subseteq> set (loaded_names L))"
proof -
  let ?thesis = "loader_ok L' \<and> ld_pending L' = ld_pending L \<and>
    (ld_loaded L' = ld_loaded L \<or> (\<exists>m d. ld_loaded L' = ld_loaded L @ [\<lparr>lp_Manifest = m, lp_Descriptor = d\<rparr>] \<and>
       mf_Name m = name \<and> set (mf_Dependencies m) \<subseteq> set (loaded_names L)))"
  have refused: ?thesis if "L' = Refuse name reason L" "name \<notin> set (loaded_names L)" for reason
    using Refuse_ok[OF ok that(2), of reason] that(1) by simp
  have ?thesis
  proof (cases "FindLoaded name L \<noteq> None")
    case True
    then show ?thesis using ok by (simp add: L' RunLoad_def)
  next
    case False
    then have fresh: "name \<notin> set (loaded_names L)" using FindLoaded_None[of name L] by simp
    show ?thesis
    proof (cases "List.find (\<lambda>r. rp_Name r = name) (is_Refused installed)")
      case (Some broken)
      with False fresh refused show ?thesis by (simp add: L' RunLoad_def)
    next
      case clear: None
      show ?thesis
      proof (cases "List.find (\<lambda>m. mf_Name m = name) (is_Plugins installed)")
        case None
        with False clear ok show ?thesis by (simp add: L' RunLoad_def)
      next
        case found: (Some found)
        note m = find_manifest[OF found]
        show ?thesis
        proof (cases "List.find (\<lambda>dep. FindLoaded dep L = None) (mf_Dependencies found)")
          case (Some dep)
          with False clear found fresh refused show ?thesis by (simp add: L' RunLoad_def)
        next
          case None
          then have deps: "set (mf_Dependencies found) \<subseteq> set (loaded_names L)"
            by (auto simp: find_None_iff_all FindLoaded_None)
          have "L' = (case LoadOne env found L of (Inl e, L') \<Rightarrow> Refuse (mf_Name found) (err_Detail e) L' | (Inr _, L') \<Rightarrow> L')"
            using False clear found None m by (simp add: L' RunLoad_def split: sum.split prod.split)
          from load_or_refuse_ok[OF ok env _ this] m fresh deps show ?thesis by blast
        qed
      qed
    qed
  qed
  then show "loader_ok L'" "ld_pending L' = ld_pending L"
    "ld_loaded L' = ld_loaded L \<or> (\<exists>m d. ld_loaded L' = ld_loaded L @ [\<lparr>lp_Manifest = m, lp_Descriptor = d\<rparr>] \<and>
       mf_Name m = name \<and> set (mf_Dependencies m) \<subseteq> set (loaded_names L))" by blast+
qed

lemma RunUnload_ok:
  assumes ok: "loader_ok L" and env: "bounded_env env" and L': "L' = RunUnload env name L"
  shows "loader_ok L'" "ld_pending L' = ld_pending L" "ld_refused L' = ld_refused L"
    "ld_loaded L' = (if RequiredDependents name (LoadedManifests L) = []
       then filter (\<lambda>lp. mf_Name (lp_Manifest lp) \<noteq> name) (ld_loaded L) else ld_loaded L)"
proof -
  have "filter (\<lambda>lp. mf_Name (lp_Manifest lp) \<noteq> name) (ld_loaded L) = ld_loaded L" if "FindLoaded name L = None"
    using that by (auto simp: FindLoaded_def find_None_iff_all filter_id_conv)
  then show "loader_ok L'" "ld_pending L' = ld_pending L" "ld_refused L' = ld_refused L"
    "ld_loaded L' = (if RequiredDependents name (LoadedManifests L) = []
       then filter (\<lambda>lp. mf_Name (lp_Manifest lp) \<noteq> name) (ld_loaded L) else ld_loaded L)"
    using ok UnloadOne_ok[OF ok env refl, of name MidMap] by (auto simp: L' RunUnload_def RequireLoaded_def)
qed

lemma run_actions_ok:
  assumes env: "bounded_env env" and "loader_ok L"
  shows "loader_ok (run_actions env scans i actions L) \<and> ld_pending (run_actions env scans i actions L) = ld_pending L"
  using assms(2)
proof (induction actions arbitrary: i L)
  case (Cons action actions)
  obtain kind name where a: "action = (kind, name)" by (cases action)
  define L1 where "L1 = (case kind of Load \<Rightarrow> RunLoad env (scans i) name L | Unload \<Rightarrow> RunUnload env name L
      | Reload \<Rightarrow> RunReload env (scans i) name L)"
  have "RunReload env (scans i) name L = L" if "name \<notin> set (loaded_names L)"
    using that FindLoaded_None[of name L] by (simp add: RunReload_def RequireLoaded_def)
  then have "loader_ok L1 \<and> ld_pending L1 = ld_pending L"
    using RunLoad_ok(1,2)[OF Cons.prems env refl, of "scans i" name] RunUnload_ok(1,2)[OF Cons.prems env refl, of name]
      RunReload_ok(1,2)[OF Cons.prems env _ refl, of name "scans i"] Cons.prems
    by (cases kind; cases "name \<in> set (loaded_names L)") (simp_all add: L1_def)
  with Cons.IH[of L1 "Suc i"] show ?case by (simp add: a L1_def[symmetric])
qed simp

lemma unload_all_ok:
  assumes env: "bounded_env env" and "loader_ok L" "length (ld_loaded L) \<le> fuel"
  shows "loader_ok (unload_all env fuel L) \<and> ld_pending (unload_all env fuel L) = ld_pending L \<and>
    ld_refused (unload_all env fuel L) = ld_refused L \<and> ld_loaded (unload_all env fuel L) = []"
  using assms(2,3)
proof (induction fuel arbitrary: L)
  case (Suc fuel)
  show ?case
  proof (cases "ld_loaded L = []")
    case False
    let ?name = "mf_Name (lp_Manifest (last (ld_loaded L)))"
    define L1 where "L1 = UnloadOne env ?name Shutdown L"
    note f = UnloadOne_ok[OF Suc.prems(1) env L1_def]
    have "last (ld_loaded L) \<in> set (ld_loaded L)" using False by simp
    then have "length (ld_loaded L1) < length (ld_loaded L)" unfolding f(2) by (intro length_filter_less) auto
    with Suc.IH[of L1] f Suc.prems(2) False show ?thesis by (simp add: L1_def)
  qed (use Suc.prems in simp)
qed simp

section \<open>Reachable loaders\<close>

text \<open>
  \<open>loaded_plugin\<close>: between the loader's operations the plugins' callbacks work on the host. The
  libraries on disk, and so the environment, may differ from one operation to the next.
\<close>

inductive loader_reachable :: "('f, 'i) loader \<Rightarrow> bool" where
  loader_start: "addons = None \<or> addons = Some wd_init \<Longrightarrow> loader_reachable (loader_init addons)"
| loader_plugins: "loader_reachable L \<Longrightarrow> host_api (ld_host L) h \<Longrightarrow> loader_reachable (L\<lparr>ld_host := h\<rparr>)"
| loader_HostCommand: "loader_reachable L \<Longrightarrow> loader_reachable (L\<lparr>ld_host := RegisterHostCommand name (ld_host L)\<rparr>)"
| loader_LoadAll: "loader_reachable L \<Longrightarrow> bounded_env env \<Longrightarrow> ld_loaded L = [] \<Longrightarrow> loader_reachable (LoadAll env installed L)"
| loader_volt: "loader_reachable L \<Longrightarrow> loader_reachable (volt_Run arguments L)"
| loader_RunPending: "loader_reachable L \<Longrightarrow> bounded_env env \<Longrightarrow> loader_reachable (RunPending env scans L)"
| loader_UnloadAll: "loader_reachable L \<Longrightarrow> bounded_env env \<Longrightarrow> loader_reachable (UnloadAll env L)"

lemma loader_ok_host:
  assumes "loader_ok L" "host_reachable h" "map pc_name (h_plugins h) = map pc_name (h_plugins (ld_host L))"
  shows "loader_ok (L\<lparr>ld_host := h\<rparr>)"
  using assms by (simp add: loader_ok_def loaded_names_def)

lemma loader_ok_pending: "loader_ok (L\<lparr>ld_pending := actions\<rparr>) = loader_ok L"
  by (simp add: loader_ok_def loaded_names_def)

lemma LoadAll_ok:
  assumes "loader_ok L" "bounded_env env" "ld_loaded L = []"
  shows "loader_ok (LoadAll env installed L)"
    "mf_Name ` set (is_Plugins installed) \<union> rp_Name ` set (is_Refused installed) \<subseteq> settled (LoadAll env installed L)"
    "appended installed (ll_ToLoad (Resolve (is_Plugins installed))) L (LoadAll env installed L)"
proof -
  have group: "LoadAll env installed L = LoadGroup env installed (\<lambda>_. True) L" by (simp add: LoadAll_def)
  have none: "loaded_names L = []" using assms(3) by (simp add: loaded_names_def)
  show "loader_ok (LoadAll env installed L)" "appended installed (ll_ToLoad (Resolve (is_Plugins installed))) L (LoadAll env installed L)"
    "mf_Name ` set (is_Plugins installed) \<union> rp_Name ` set (is_Refused installed) \<subseteq> settled (LoadAll env installed L)"
    using LoadGroup_ok(1,3,4)[of L env "\<lambda>_. True", OF assms(1,2) _ group] none by auto
qed

lemma volt_Run_ok:
  assumes "loader_ok L"
  shows "loader_ok (volt_Run arguments L)"
proof -
  have host: "host_reachable (ld_host L)" using assms by (simp add: loader_ok_def)
  have later: "loader_ok (Defer kind name L)" for kind name using assms by (simp add: Defer_def loader_ok_pending)
  have "loader_ok (L\<lparr>ld_host := ctx_SetMinLogLevel p level (ld_host L)\<rparr>)" for p level
    using assms reach_SetMinLogLevel[OF host]
    by (rule loader_ok_host) (simp add: ctx_SetMinLogLevel_def upd_context_map_key)
  then have "loader_ok (SetLogLevel name level L)" for name level
    using assms by (auto simp: SetLogLevel_def split: option.split)
  with later show ?thesis using assms by (simp add: volt_Run_def Let_def)
qed

lemma UnloadAll_ok:
  assumes "loader_ok L" "bounded_env env"
  shows "loader_ok (UnloadAll env L)" "ld_pending (UnloadAll env L) = []" "ld_loaded (UnloadAll env L) = []"
  using unload_all_ok[OF assms(2), of "L\<lparr>ld_pending := []\<rparr>" "length (ld_loaded L)"] assms(1)
  by (simp_all add: UnloadAll_def loader_ok_pending)

lemma RunPending_ok: "loader_ok L \<Longrightarrow> bounded_env env \<Longrightarrow> loader_ok (RunPending env scans L)"
  using run_actions_ok[of env "L\<lparr>ld_pending := []\<rparr>" scans 0 "ld_pending L"] by (simp add: RunPending_def loader_ok_pending)

lemma loader_reachable_ok: "loader_reachable L \<Longrightarrow> loader_ok L"
proof (induction rule: loader_reachable.induct)
  case (loader_plugins L h)
  then have "host_reachable (ld_host L)" by (simp add: loader_ok_def)
  from loader_plugins loader_ok_host reachable_api[OF this loader_plugins(2)] show ?case by blast
next
  case (loader_HostCommand L name)
  then have "host_reachable (ld_host L)" by (simp add: loader_ok_def)
  with loader_HostCommand show ?case by (intro loader_ok_host reach_HostCommand) (simp_all add: RegisterHostCommand_def)
qed (simp_all add: loader_ok_init LoadAll_ok(1) volt_Run_ok RunPending_ok UnloadAll_ok(1))

section \<open>Required dependencies of loaded plugins\<close>

definition deps_loaded :: "('f, 'i) loader \<Rightarrow> bool" where
  "deps_loaded L \<longleftrightarrow> (\<forall>lp \<in> set (ld_loaded L). set (mf_Dependencies (lp_Manifest lp)) \<subseteq> set (loaded_names L))"

lemma RunLoad_deps:
  assumes "loader_ok L" "bounded_env env" "deps_loaded L"
  shows "deps_loaded (RunLoad env installed name L)"
  using RunLoad_ok(3)[OF assms(1,2) refl, of installed name] assms(3)
  by (elim disjE exE conjE) (simp add: deps_loaded_def loaded_names_def, fastforce simp: deps_loaded_def loaded_names_def)

lemma RunUnload_deps:
  assumes ok: "loader_ok L" and env: "bounded_env env" and deps: "deps_loaded L"
  shows "deps_loaded (RunUnload env name L)"
proof (cases "RequiredDependents name (LoadedManifests L) = []")
  case True
  then have none: "\<not> (n \<noteq> name \<and> (n, name) \<in> (requires (LoadedManifests L))\<^sup>+)" for n
    using set_RequiredDependents[of name "LoadedManifests L"] by auto
  have "name \<notin> set (mf_Dependencies (lp_Manifest lp))"
    if "lp \<in> set (ld_loaded L)" "mf_Name (lp_Manifest lp) \<noteq> name" for lp
  proof
    assume "name \<in> set (mf_Dependencies (lp_Manifest lp))"
    then have "(mf_Name (lp_Manifest lp), name) \<in> requires (LoadedManifests L)"
      using that(1) by (auto simp: requires_def LoadedManifests_def)
    with none that(2) show False by blast
  qed
  moreover have l: "ld_loaded (RunUnload env name L) = filter (\<lambda>lp. mf_Name (lp_Manifest lp) \<noteq> name) (ld_loaded L)"
    using RunUnload_ok(4)[OF ok env refl, of name] True by simp
  moreover have "set (loaded_names (RunUnload env name L)) = set (loaded_names L) - {name}"
    by (auto simp: l loaded_names_def)
  ultimately show ?thesis using deps by (fastforce simp: deps_loaded_def)
next
  case False
  then show ?thesis using RunUnload_ok(4)[OF ok env refl, of name] deps by (simp add: deps_loaded_def loaded_names_def)
qed

lemma run_actions_deps:
  assumes env: "bounded_env env" and "loader_ok L" "deps_loaded L" "Reload \<notin> fst ` set actions"
  shows "deps_loaded (run_actions env scans i actions L)"
  using assms(2-)
proof (induction actions arbitrary: i L)
  case (Cons action actions)
  obtain kind name where "action = (kind, name)" "kind \<noteq> Reload" using Cons.prems(3) by (cases action) auto
  with Cons show ?case
    using RunLoad_ok(1)[OF _ env refl] RunUnload_ok(1)[OF _ env refl] RunLoad_deps[OF _ env] RunUnload_deps[OF _ env]
    by (cases kind) simp_all
qed simp

section \<open>Examples\<close>

definition quiet_descriptor :: "(string, nat) PluginDescriptor" where
  "quiet_descriptor = \<lparr>ds_VoltModVersion = Some ''1'', ds_BuildStamp = Some ''s'', ds_Load = Some (\<lambda>view h. (True, [], h)),
     ds_Unload = Some (\<lambda>view h. h), ds_Status = Some []\<rparr>"

text \<open>Every library opens but those named, whose file is damaged.\<close>

definition library_env_without :: "string list \<Rightarrow> (string, nat) library_env" where
  "library_env_without damaged = \<lparr>le_open = (\<lambda>name. if name \<in> set damaged then Inl (Error_Failed ''it will not open'') else Inr ()),
     le_entry = (\<lambda>_. Inr (Some quiet_descriptor)), le_version = ''1'', le_assets = Some, le_call = (\<lambda>args f h. (False, h))\<rparr>"

lemma library_env_bounded: "bounded_env (library_env_without damaged)"
  by (auto simp: bounded_env_def library_env_without_def quiet_descriptor_def bounded_descriptor_def host_refl)

definition example_scan :: InstalledScan where
  "example_scan = \<lparr>is_Plugins = example_installed, is_Refused = []\<rparr>"

definition example_loader :: "(string, nat) loader" where
  "example_loader = LoadAll (library_env_without []) example_scan (loader_init None)"

lemma example_loader_reachable: "loader_reachable example_loader"
  unfolding example_loader_def
  by (intro loader_LoadAll loader_start library_env_bounded) (simp_all add: loader_init_def)

lemma example_loader_loaded: "loaded_names example_loader = [''admin'', ''anticheat'']"
  by code_simp

section \<open>Properties\<close>

text \<open>
  C9: on every reachable loader the host's views are exactly the loaded plugins, in load order and
  without repetition; no plugin is both loaded and on record as refused; and every mounted folder
  belongs to a loaded plugin and is on the search path once per mount. The libraries may fail to open,
  refuse to load, and do anything plugin code can.
\<close>

theorem loader_consistent:
  assumes "loader_reachable L"
  shows "map pc_name (h_plugins (ld_host L)) = loaded_names L \<and> distinct (loaded_names L) \<and>
    fst ` set (ld_refused L) \<inter> set (loaded_names L) = {} \<and>
    fst ` set (sa_mounted (ld_assets L)) \<subseteq> set (loaded_names L) \<and>
    mset (sa_searchPath (ld_assets L)) = mset (map snd (sa_mounted (ld_assets L))) \<and> host_ok (ld_host L)"
  using loader_reachable_ok[OF assms] loader_ok_distinct[of L] host_reachable_ok[of "ld_host L"]
  by (simp add: loader_ok_def assets_ok_def)

theorem loader_consistent_witness:
  "loader_reachable example_loader \<and> map pc_name (h_plugins (ld_host example_loader)) = [''admin'', ''anticheat'']"
  using loader_consistent[OF example_loader_reachable] by (simp add: example_loader_reachable example_loader_loaded)

text \<open>
  starting the server accounts for every installed plugin: each one is either loaded or refused with
  a reason on record, never both, and what loads is a sub-sequence of the list \<^verbatim>\<open>Resolve\<close> made, from an
  installed manifest.
\<close>

theorem LoadAll_accounts:
  assumes "loader_reachable L" and "bounded_env env" and "ld_loaded L = []"
  shows "(\<forall>n \<in> mf_Name ` set (is_Plugins installed) \<union> rp_Name ` set (is_Refused installed).
      (n \<in> set (loaded_names (LoadAll env installed L))) \<noteq> (n \<in> fst ` set (ld_refused (LoadAll env installed L)))) \<and>
    subseq (loaded_names (LoadAll env installed L)) (ll_ToLoad (Resolve (is_Plugins installed))) \<and>
    lp_Manifest ` set (ld_loaded (LoadAll env installed L)) \<subseteq> set (is_Plugins installed)"
proof -
  note f = LoadAll_ok[OF loader_reachable_ok[OF assms(1)] assms(2,3), of installed]
  have "fst ` set (ld_refused (LoadAll env installed L)) \<inter> set (loaded_names (LoadAll env installed L)) = {}"
    using f(1) by (simp add: loader_ok_def)
  moreover have "subseq (loaded_names (LoadAll env installed L)) (ll_ToLoad (Resolve (is_Plugins installed)))"
    "lp_Manifest ` set (ld_loaded (LoadAll env installed L)) \<subseteq> set (is_Plugins installed)"
    using f(3) assms(3) by (auto simp: appended_def loaded_names_def)
  ultimately show ?thesis using f(2) unfolding settled_def by blast
qed

theorem LoadAll_accounts_witness:
  "''reports'' \<notin> set (loaded_names example_loader) \<and> ''reports'' \<in> fst ` set (ld_refused example_loader)"
proof -
  have "''reports'' \<in> mf_Name ` set (is_Plugins example_scan)" by code_simp
  moreover have "''reports'' \<notin> set (loaded_names example_loader)" by (simp add: example_loader_loaded)
  ultimately show ?thesis
    using LoadAll_accounts[of "loader_init None" "library_env_without []" example_scan, OF loader_start library_env_bounded]
    unfolding example_loader_def[symmetric] by (simp add: loader_init_def)
qed

text \<open>
  C10: the deferred loads and unloads keep every loaded plugin's required dependencies loaded: a load is
  refused while one is missing, an unload while another loaded plugin still requires the target.
\<close>

theorem RunPending_keeps_dependencies:
  assumes "loader_reachable L" and "bounded_env env" and "deps_loaded L" and "Reload \<notin> fst ` set (ld_pending L)"
  shows "deps_loaded (RunPending env scans L) \<and> ld_pending (RunPending env scans L) = []"
  using run_actions_deps[OF assms(2) _ _ assms(4), of "L\<lparr>ld_pending := []\<rparr>" scans 0] loader_reachable_ok[OF assms(1)]
    run_actions_ok[OF assms(2), of "L\<lparr>ld_pending := []\<rparr>" scans 0 "ld_pending L"] assms(3)
  by (simp add: RunPending_def loader_ok_pending deps_loaded_def loaded_names_def)

definition example_pending :: "(string, nat) loader" where
  "example_pending = volt_Run [''unload'', ''admin''] (volt_Run [''unload'', ''anticheat''] example_loader)"

theorem RunPending_keeps_dependencies_witness:
  "deps_loaded (RunPending (library_env_without []) (\<lambda>_. example_scan) example_pending)"
proof -
  have "deps_loaded example_pending" and "Reload \<notin> fst ` set (ld_pending example_pending)" by code_simp+
  moreover have "loader_reachable example_pending"
    unfolding example_pending_def by (intro loader_volt example_loader_reachable)
  ultimately show ?thesis using RunPending_keeps_dependencies library_env_bounded by blast
qed

text \<open>
  a reload takes down the target and every loaded plugin that requires it, transitively, and no
  other; what comes back is a sub-sequence of what \<^verbatim>\<open>Resolve\<close> allows now, after the plugins that stayed;
  and every member of the group still installed ends up loaded or refused.
\<close>

theorem RunReload_group:
  assumes "loader_reachable L" and "bounded_env env" and "name \<in> set (loaded_names L)"
  shows "(\<exists>xs. ld_loaded (RunReload env installed name L) =
        filter (\<lambda>lp. mf_Name (lp_Manifest lp) \<notin> set (reload_group name L)) (ld_loaded L) @ xs \<and>
      subseq (map (mf_Name \<circ> lp_Manifest) xs)
        (filter (\<lambda>n. n \<in> set (reload_group name L)) (ll_ToLoad (Resolve (is_Plugins installed))))) \<and>
    set (reload_group name L) \<inter> mf_Name ` set (is_Plugins installed) \<subseteq>
      set (loaded_names (RunReload env installed name L)) \<union> fst ` set (ld_refused (RunReload env installed name L)) \<and>
    set (reload_group name L) = {n. n = name \<or> (n, name) \<in> (requires (LoadedManifests L))\<^sup>+}"
proof -
  note f = RunReload_ok(3,4)[OF loader_reachable_ok[OF assms(1)] assms(2,3) refl, of installed]
  have "set (reload_group name L) \<inter> mf_Name ` set (is_Plugins installed) \<subseteq>
      set (loaded_names (RunReload env installed name L)) \<union> fst ` set (ld_refused (RunReload env installed name L))"
    using f(2) unfolding settled_def by blast
  moreover have "set (reload_group name L) = {n. n = name \<or> (n, name) \<in> (requires (LoadedManifests L))\<^sup>+}"
    using set_RequiredDependents[of name "LoadedManifests L"] by (auto simp: reload_group_def)
  ultimately show ?thesis using f(1) by blast
qed

theorem RunReload_group_witness:
  "set (reload_group ''admin'' example_loader) = {''admin'', ''anticheat''} \<and>
   (\<exists>xs. ld_loaded (RunReload (library_env_without []) example_scan ''admin'' example_loader) = xs \<and>
      subseq (map (mf_Name \<circ> lp_Manifest) xs) [''admin'', ''anticheat''])"
proof -
  have group: "reload_group ''admin'' example_loader = [''anticheat'', ''admin'']" by code_simp
  have allowed: "filter (\<lambda>n. n \<in> set [''anticheat'', ''admin'']) (ll_ToLoad (Resolve (is_Plugins example_scan))) = [''admin'', ''anticheat'']"
    by code_simp
  have "mf_Name (lp_Manifest lp) \<in> set [''anticheat'', ''admin'']" if "lp \<in> set (ld_loaded example_loader)" for lp
  proof -
    have "mf_Name (lp_Manifest lp) \<in> set (loaded_names example_loader)" using that by (simp add: loaded_names_def)
    then show ?thesis by (auto simp: example_loader_loaded)
  qed
  then have none: "filter (\<lambda>lp. mf_Name (lp_Manifest lp) \<notin> set [''anticheat'', ''admin'']) (ld_loaded example_loader) = []"
    by (simp only: filter_empty_conv) blast
  have "''admin'' \<in> set (loaded_names example_loader)" by (simp add: example_loader_loaded)
  note w = RunReload_group[OF example_loader_reachable library_env_bounded this, of "[]" example_scan, unfolded group none allowed]
  have "set (reload_group ''admin'' example_loader) = {''admin'', ''anticheat''}" unfolding group by auto
  with conjunct1[OF w] show ?thesis unfolding append_Nil by blast
qed

text \<open>
  C11: \<^verbatim>\<open>UnloadAll\<close> ends after one round per loaded plugin and leaves nothing of any plugin behind: no
  loaded plugin, no view, no live subscription on any event, no service, no command name but the host's,
  no workshop addon held, no mounted folder and nothing deferred.
\<close>

theorem UnloadAll_empties:
  assumes "loader_reachable L" and "bounded_env env" and L': "L' = UnloadAll env L"
  shows "ld_loaded L' = [] \<and> ld_pending L' = [] \<and> h_plugins (ld_host L') = [] \<and>
    (\<forall>ev. cl_live (h_lists (ld_host L') ev) = {}) \<and> h_Services (ld_host L') = [] \<and>
    cn_Owner ` set (h_Commands (ld_host L')) \<subseteq> {0} \<and>
    (\<forall>w. h_Addons (ld_host L') = Some w \<longrightarrow> holders (wd_queue w) = {#}) \<and>
    sa_mounted (ld_assets L') = [] \<and> sa_searchPath (ld_assets L') = []"
proof -
  note f = UnloadAll_ok[OF loader_reachable_ok[OF assms(1)] assms(2), folded L']
  have none: "loaded_names L' = []" by (simp add: loaded_names_def f(3))
  then have plugins: "h_plugins (ld_host L') = []" using f(1) by (simp add: loader_ok_def)
  have ok: "host_ok (ld_host L')" using f(1) host_reachable_ok by (auto simp: loader_ok_def)
  have "cl_live (h_lists (ld_host L') ev) = {}" for ev
    using ok plugins by (auto simp: host_ok_def subs_owned_def)
  moreover have "h_Services (ld_host L') = []" "cn_Owner ` set (h_Commands (ld_host L')) \<subseteq> {0}"
    using ok plugins by (simp_all add: host_ok_def tables_ok_def)
  moreover have "holders (wd_queue w) = {#}" if "h_Addons (ld_host L') = Some w" for w
    using ok plugins that by (simp add: host_ok_def addons_ok_def held_addons_def)
  moreover have "sa_mounted (ld_assets L') = []" using f(1) none by (simp add: loader_ok_def assets_ok_def)
  moreover from this have "sa_searchPath (ld_assets L') = []" using f(1) by (simp add: loader_ok_def assets_ok_def)
  ultimately show ?thesis using f plugins by simp
qed

theorem UnloadAll_empties_witness:
  "h_plugins (ld_host example_loader) \<noteq> [] \<and>
   h_plugins (ld_host (UnloadAll (library_env_without []) example_loader)) = []"
proof -
  have "loader_ok example_loader" by (rule loader_reachable_ok[OF example_loader_reachable])
  then have "h_plugins (ld_host example_loader) \<noteq> []" by (auto simp: loader_ok_def example_loader_loaded)
  with UnloadAll_empties[OF example_loader_reachable library_env_bounded refl, of "[]"] show ?thesis by simp
qed

text \<open>Which entries the scan takes up, and that each is listed once, under its directory's name.\<close>

definition holds_plugin :: "DirectoryEntry \<Rightarrow> bool" where
  "holds_plugin entry \<longleftrightarrow> en_IsDirectory entry = Some True \<and> en_HasManifest entry = Some True"

definition scan_names :: "InstalledScan \<Rightarrow> string multiset" where
  "scan_names installed = mset (map mf_Name (is_Plugins installed)) + mset (map rp_Name (is_Refused installed))"

lemma discover_entry_names:
  "scan_names (discover_entry entry installed) = scan_names installed + (if holds_plugin entry then {#en_Name entry#} else {#})"
  by (auto simp: discover_entry_def holds_plugin_def scan_names_def Let_def split: sum.split option.split)

lemma Discover_fold_names:
  "scan_names (fold discover_entry entries installed) = scan_names installed + mset (map en_Name (filter holds_plugin entries))"
  by (induction entries arbitrary: installed) (simp_all add: discover_entry_names)

text \<open>
  the scan lists each directory that holds a \<^verbatim>\<open>plugin.json\<close> exactly once, as a manifest or as a
  refusal, under the directory's own name, and nothing else; so with distinct directory names no plugin
  is ever found installed twice.
\<close>

theorem Discover_lists_each:
  assumes "distinct (map en_Name entries)"
  shows "scan_names (Discover (Some entries)) = mset (map en_Name (filter holds_plugin entries)) \<and>
    distinct (map mf_Name (is_Plugins (Discover (Some entries))) @ map rp_Name (is_Refused (Discover (Some entries))))"
proof -
  have names: "scan_names (Discover (Some entries)) = mset (map en_Name (filter holds_plugin entries))"
    using Discover_fold_names[of entries "\<lparr>is_Plugins = [], is_Refused = []\<rparr>"] by (simp add: Discover_def scan_names_def)
  have "mset (map mf_Name (is_Plugins (Discover (Some entries))) @ map rp_Name (is_Refused (Discover (Some entries))))
      = mset (map en_Name (filter holds_plugin entries))" using names unfolding scan_names_def by simp
  moreover have "distinct (map en_Name (filter holds_plugin entries))" using assms by (rule distinct_map_filter_key)
  ultimately have "distinct (map mf_Name (is_Plugins (Discover (Some entries))) @ map rp_Name (is_Refused (Discover (Some entries))))"
    by (metis mset_eq_imp_distinct_iff)
  with names show ?thesis by blast
qed

definition example_entries :: "DirectoryEntry list" where
  "example_entries =
     [\<lparr>en_Name = ''admin'', en_IsDirectory = Some True, en_HasManifest = Some True,
        en_Document = Inr \<lparr>pd_name = ''admin'', pd_version = ''1'', pd_logTag = [], pd_description = [], pd_author = [], pd_website = [],
          pd_license = [], pd_logLevel = ''Warn'', pd_dependencies = [], pd_optionalDependencies = []\<rparr>\<rparr>,
      \<lparr>en_Name = ''broken'', en_IsDirectory = Some True, en_HasManifest = Some True, en_Document = Inl (Error_Invalid ''syntax'')\<rparr>,
      \<lparr>en_Name = ''notes.txt'', en_IsDirectory = Some False, en_HasManifest = None, en_Document = Inl (Error_Invalid ''none'')\<rparr>]"

theorem Discover_lists_each_witness:
  "scan_names (Discover (Some example_entries)) = {#''admin'', ''broken''#}"
  using Discover_lists_each[of example_entries] by (simp add: example_entries_def holds_plugin_def)

subsection \<open>Where the loader stops short of its documentation\<close>

text \<open>
  \<^verbatim>\<open>docs/host.md\<close> has every refusal refuse what is below it. \<^verbatim>\<open>LoadGroup\<close> does that for the refusals of
  \<^verbatim>\<open>Resolve\<close> only: when the library of \<open>admin\<close> does not open, \<open>anticheat\<close>, which requires it, loads.
\<close>

lemma LoadAll_past_failed_dependency:
  "loaded_names (LoadAll (library_env_without [''admin'']) example_scan (loader_init None)) = [''anticheat''] \<and>
   \<not> deps_loaded (LoadAll (library_env_without [''admin'']) example_scan (loader_init None))"
  by code_simp

end
