(* ===== verification/Durations.thy ===== *)
theory Durations
  imports Strings
begin

text \<open>
  Durations and expirations as text and as timestamps, and the per-key cooldown.
  Sources: \<^verbatim>\<open>src/Core/Time/Durations.cpp\<close>, \<^verbatim>\<open>include/VoltMod/Core/Time/Cooldown.hpp\<close>. The wall clock
  \<^verbatim>\<open>Time::Now()\<close> is an argument \<open>now\<close>; \<^verbatim>\<open>FormatTimestamp\<close> (the C library's local time) is not modelled.
\<close>

section \<open>Time\<close>

definition SecondsPerMinute :: int where "SecondsPerMinute = 60"
definition SecondsPerHour :: int where "SecondsPerHour = 3600"
definition SecondsPerDay :: int where "SecondsPerDay = 86400"
definition SecondsPerWeek :: int where "SecondsPerWeek = 604800"

lemmas seconds_per = SecondsPerMinute_def SecondsPerHour_def SecondsPerDay_def SecondsPerWeek_def

definition Time_ParseDuration :: "string \<Rightarrow> int" where
  "Time_ParseDuration duration = ParseDuration duration"

definition counted :: "int \<Rightarrow> string \<Rightarrow> string" where
  "counted n unit_name = to_string_int n @ '' '' @ unit_name @ (if n > 1 then ''s'' else '''')"

definition FormatDuration :: "int \<Rightarrow> string" where
  "FormatDuration seconds =
     (if seconds = 0 then ''Permanent''
      else if seconds mod SecondsPerWeek = 0 \<and> seconds \<ge> SecondsPerWeek
        then counted (seconds div SecondsPerWeek) ''week''
      else if seconds mod SecondsPerDay = 0 \<and> seconds \<ge> SecondsPerDay
        then counted (seconds div SecondsPerDay) ''day''
      else if seconds mod SecondsPerHour = 0 \<and> seconds \<ge> SecondsPerHour
        then counted (seconds div SecondsPerHour) ''hour''
      else if seconds mod SecondsPerMinute = 0 \<and> seconds \<ge> SecondsPerMinute
        then counted (seconds div SecondsPerMinute) ''minute''
      else counted seconds ''second'')"

record DurationUnitLabels =
  du_Permanent :: string
  du_Days :: string
  du_Hours :: string
  du_Minutes :: string
  du_Seconds :: string

fun label_loop :: "int \<Rightarrow> (int \<times> string) list \<Rightarrow> string option" where
  "label_loop seconds [] = None"
| "label_loop seconds ((divisor, label) # units) =
     (if seconds mod divisor = 0 then Some (to_string_int (seconds div divisor) @ '' '' @ label)
      else label_loop seconds units)"

definition FormatDurationLabel :: "int \<Rightarrow> DurationUnitLabels \<Rightarrow> string" where
  "FormatDurationLabel seconds units =
     (if seconds \<le> 0 then du_Permanent units
      else case label_loop seconds [(SecondsPerDay, du_Days units), (SecondsPerHour, du_Hours units),
                                    (SecondsPerMinute, du_Minutes units)] of
             Some line \<Rightarrow> line
           | None \<Rightarrow> to_string_int seconds @ '' '' @ du_Seconds units)"

definition FormatExpiry :: "int \<Rightarrow> int \<Rightarrow> string \<Rightarrow> string \<Rightarrow> string" where
  "FormatExpiry expiresAt nowSec permanentText expiresInPrefix =
     (if expiresAt \<le> 0 then permanentText
      else let remaining = expiresAt - nowSec in
        if remaining \<le> 0 then permanentText
        else expiresInPrefix @ '' '' @ FormatDuration remaining)"

definition IsExpired :: "int \<Rightarrow> int \<Rightarrow> bool" where
  "IsExpired now expiresAt \<longleftrightarrow> (if expiresAt = 0 then False else now \<ge> expiresAt)"

definition GetExpirationTime :: "int \<Rightarrow> int \<Rightarrow> int" where
  "GetExpirationTime now durationSeconds = (if durationSeconds = 0 then 0 else now + durationSeconds)"

section \<open>Cooldown\<close>

record 'k Cooldown =
  cd_seconds :: int
  cd_startedAt :: "'k \<rightharpoonup> int"

definition SecondsLeft :: "'k Cooldown \<Rightarrow> 'k \<Rightarrow> int \<Rightarrow> int \<Rightarrow> int" where
  "SecondsLeft cd key nowSec seconds =
     (if seconds \<le> 0 then 0
      else case cd_startedAt cd key of
             None \<Rightarrow> 0
           | Some started \<Rightarrow>
               let elapsed = nowSec - started in
               if elapsed < 0 \<or> elapsed \<ge> seconds then 0 else seconds - elapsed)"

definition Start :: "'k \<Rightarrow> int \<Rightarrow> 'k Cooldown \<Rightarrow> 'k Cooldown" where
  "Start key nowSec cd = cd\<lparr>cd_startedAt := (cd_startedAt cd)(key \<mapsto> nowSec)\<rparr>"

definition TryStart :: "'k \<Rightarrow> int \<Rightarrow> int \<Rightarrow> 'k Cooldown \<Rightarrow> bool \<times> 'k Cooldown" where
  "TryStart key nowSec seconds cd =
     (if SecondsLeft cd key nowSec seconds > 0 then (False, cd) else (True, Start key nowSec cd))"

definition TryStart_default :: "'k \<Rightarrow> int \<Rightarrow> 'k Cooldown \<Rightarrow> bool \<times> 'k Cooldown" where
  "TryStart_default key nowSec cd = TryStart key nowSec (cd_seconds cd) cd"

definition SecondsLeft_default :: "'k Cooldown \<Rightarrow> 'k \<Rightarrow> int \<Rightarrow> int" where
  "SecondsLeft_default cd key nowSec = SecondsLeft cd key nowSec (cd_seconds cd)"

definition Cooldown_Reset :: "'k \<Rightarrow> 'k Cooldown \<Rightarrow> 'k Cooldown" where
  "Cooldown_Reset key cd = cd\<lparr>cd_startedAt := (cd_startedAt cd)(key := None)\<rparr>"

definition RemoveExpired :: "int \<Rightarrow> int \<Rightarrow> 'k Cooldown \<Rightarrow> 'k Cooldown" where
  "RemoveExpired nowSec maxAgeSec cd =
     cd\<lparr>cd_startedAt := (\<lambda>k. case cd_startedAt cd k of
          None \<Rightarrow> None
        | Some started \<Rightarrow> if nowSec - started > maxAgeSec then None else Some started)\<rparr>"

lemmas Cooldown_defs = SecondsLeft_def Start_def TryStart_def Cooldown_Reset_def RemoveExpired_def

section \<open>Properties\<close>

definition duration_units :: "(int \<times> string) list" where
  "duration_units = [(604800, ''week''), (86400, ''day''), (3600, ''hour''), (60, ''minute''), (1, ''second'')]"

lemma counted_exact: "seconds mod u = 0 \<Longrightarrow> seconds div u * u = (seconds :: int)"
  by auto

text \<open>
  for a positive number of seconds \<^verbatim>\<open>FormatDuration\<close> names the largest unit that divides it, and
  the count it prints times that unit is exactly the duration.
\<close>

theorem FormatDuration_exact:
  assumes "0 < seconds"
  shows "\<exists>k u name. (u, name) \<in> set duration_units \<and> FormatDuration seconds = counted k name \<and>
    k * u = seconds \<and> (\<forall>(u', _) \<in> set duration_units. u < u' \<longrightarrow> \<not> u' dvd seconds)"
proof -
  have ge: "u dvd seconds \<Longrightarrow> u \<le> seconds" for u :: int using assms by (rule zdvd_imp_le[rotated])
  have pick: "\<exists>k u name. (u, name) \<in> set duration_units \<and> FormatDuration seconds = counted k name \<and>
      k * u = seconds \<and> (\<forall>(u', _) \<in> set duration_units. u < u' \<longrightarrow> \<not> u' dvd seconds)"
    if "(u, name) \<in> set duration_units" "u dvd seconds"
      "FormatDuration seconds = counted (seconds div u) name"
      "\<forall>(u', _) \<in> set duration_units. u < u' \<longrightarrow> \<not> u' dvd seconds" for u name
    using that by (intro exI[of _ "seconds div u"] exI[of _ u] exI[of _ name]) simp
  consider "604800 dvd seconds" | "\<not> 604800 dvd seconds" "86400 dvd seconds"
    | "\<not> 604800 dvd seconds" "\<not> 86400 dvd seconds" "3600 dvd seconds"
    | "\<not> 604800 dvd seconds" "\<not> 86400 dvd seconds" "\<not> 3600 dvd seconds" "60 dvd seconds"
    | "\<not> 604800 dvd seconds" "\<not> 86400 dvd seconds" "\<not> 3600 dvd seconds" "\<not> 60 dvd seconds" by blast
  then show ?thesis
  proof cases
    case 1
    then show ?thesis using assms ge[of 604800]
      by (intro pick[of 604800 "''week''"])
        (auto simp: FormatDuration_def seconds_per duration_units_def mod_eq_0_iff_dvd)
  next
    case 2
    then show ?thesis using assms ge[of 86400]
      by (intro pick[of 86400 "''day''"])
        (auto simp: FormatDuration_def seconds_per duration_units_def mod_eq_0_iff_dvd)
  next
    case 3
    then show ?thesis using assms ge[of 3600]
      by (intro pick[of 3600 "''hour''"])
        (auto simp: FormatDuration_def seconds_per duration_units_def mod_eq_0_iff_dvd)
  next
    case 4
    then show ?thesis using assms ge[of 60]
      by (intro pick[of 60 "''minute''"])
        (auto simp: FormatDuration_def seconds_per duration_units_def mod_eq_0_iff_dvd)
  next
    case 5
    then show ?thesis using assms
      by (intro pick[of 1 "''second''"])
        (auto simp: FormatDuration_def seconds_per duration_units_def mod_eq_0_iff_dvd)
  qed
qed

theorem FormatDuration_exact_witness:
  "\<exists>k u name. (u, name) \<in> set duration_units \<and> FormatDuration 7200 = counted k name \<and> k * u = 7200"
  using FormatDuration_exact[of 7200] by auto

text \<open>
  a cooldown started at \<open>t\<close> for \<open>s\<close> seconds refuses its key exactly at the times from \<open>t\<close> up
  to but not including \<open>t + s\<close> (a clock that jumped back frees it), whatever was pruned with a
  maximal age of at least \<open>s\<close> in between, and every other key is left as it was.
\<close>

theorem Cooldown_blocks_exactly:
  assumes "fst (TryStart key t s cd)" and "s \<le> maxAge"
  shows "(fst (TryStart key now s (RemoveExpired now maxAge (snd (TryStart key t s cd))))
           \<longleftrightarrow> \<not> (t \<le> now \<and> now < t + s)) \<and>
         (other = key \<or>
           SecondsLeft (snd (TryStart key t s cd)) other now s' = SecondsLeft cd other now s')"
  using assms by (auto simp: Cooldown_defs Let_def split: option.splits if_splits)

theorem Cooldown_blocks_exactly_witness:
  "\<not> fst (TryStart (7::nat) 110 60
     (RemoveExpired 110 60 (snd (TryStart 7 100 60 \<lparr>cd_seconds = 60, cd_startedAt = Map.empty\<rparr>))))"
  using Cooldown_blocks_exactly[of "7::nat" 100 60 "\<lparr>cd_seconds = 60, cd_startedAt = Map.empty\<rparr>" 60 110]
  by (simp add: TryStart_def SecondsLeft_def)

end
