(* ===== verification/CallbackRegistry.thy ===== *)
theory CallbackRegistry
  imports Dispatch
begin

text \<open>
  The handle-keyed store behind events, timers and game events.
  Source: \<^verbatim>\<open>include/VoltMod/Core/Signals/CallbackRegistry.hpp\<close>. Handles are natural numbers: the
  64-bit counter of the source would have to wrap for the two to differ. A dispatch takes the
  callbacks' effect on the registry as a function \<open>fn\<close>, so a callback may add, remove, clear or
  dispatch again; \<open>api\<close> is everything it can reach through the registry's public operations.
\<close>

section \<open>State and operations\<close>

record 'a Entry =
  en_Id :: nat
  en_Item :: 'a
  en_Removed :: bool

record 'a CallbackRegistry =
  cr_entries :: "'a Entry list"
  cr_live :: nat
  cr_dispatchDepth :: nat
  cr_nextId :: nat

definition reg_init :: "'a CallbackRegistry" where
  "reg_init = \<lparr>cr_entries = [], cr_live = 0, cr_dispatchDepth = 0, cr_nextId = 1\<rparr>"

definition reg_Add :: "'a \<Rightarrow> 'a CallbackRegistry \<Rightarrow> nat \<times> 'a CallbackRegistry" where
  "reg_Add item r =
     (cr_nextId r,
      r\<lparr>cr_nextId := cr_nextId r + 1,
        cr_entries := cr_entries r @ [\<lparr>en_Id = cr_nextId r, en_Item = item, en_Removed = False\<rparr>],
        cr_live := cr_live r + 1\<rparr>)"

text \<open>\<^verbatim>\<open>std::ranges::lower_bound\<close> on the ids: the first entry whose id is not below \<open>i\<close>.\<close>

definition reg_Locate :: "'a CallbackRegistry \<Rightarrow> nat \<Rightarrow> nat option" where
  "reg_Locate r i =
     (let at = length (takeWhile (\<lambda>e. en_Id e < i) (cr_entries r))
      in if at < length (cr_entries r) \<and> en_Id (cr_entries r ! at) = i then Some at else None)"

definition reg_Remove :: "nat \<Rightarrow> 'a CallbackRegistry \<Rightarrow> bool \<times> 'a CallbackRegistry" where
  "reg_Remove i r =
     (case reg_Locate r i of
        None \<Rightarrow> (False, r)
      | Some at \<Rightarrow>
          if en_Removed (cr_entries r ! at) then (False, r)
          else let r' = r\<lparr>cr_live := cr_live r - 1\<rparr>
               in if cr_dispatchDepth r > 0
                  then (True, r'\<lparr>cr_entries := (cr_entries r)[at := (cr_entries r ! at)\<lparr>en_Removed := True\<rparr>]\<rparr>)
                  else (True, r'\<lparr>cr_entries := take at (cr_entries r) @ drop (Suc at) (cr_entries r)\<rparr>))"

definition reg_Clear :: "'a CallbackRegistry \<Rightarrow> 'a CallbackRegistry" where
  "reg_Clear r =
     (if cr_dispatchDepth r = 0 then r\<lparr>cr_live := 0, cr_entries := []\<rparr>
      else r\<lparr>cr_live := 0, cr_entries := map (\<lambda>e. e\<lparr>en_Removed := True\<rparr>) (cr_entries r)\<rparr>)"

definition reg_Empty :: "'a CallbackRegistry \<Rightarrow> bool" where
  "reg_Empty r \<longleftrightarrow> cr_live r = 0"

definition reg_Size :: "'a CallbackRegistry \<Rightarrow> nat" where
  "reg_Size r = cr_live r"

definition reg_Find :: "nat \<Rightarrow> 'a CallbackRegistry \<Rightarrow> 'a option" where
  "reg_Find i r =
     (case reg_Locate r i of
        None \<Rightarrow> None
      | Some at \<Rightarrow> if en_Removed (cr_entries r ! at) then None else Some (en_Item (cr_entries r ! at)))"

text \<open>Writing to the item behind a handle, through the reference \<^verbatim>\<open>Find\<close> or a dispatch gives.\<close>

definition reg_Modify :: "nat \<Rightarrow> ('a \<Rightarrow> 'a) \<Rightarrow> 'a CallbackRegistry \<Rightarrow> 'a CallbackRegistry" where
  "reg_Modify i f r =
     r\<lparr>cr_entries := map (\<lambda>e. if en_Id e = i then e\<lparr>en_Item := f (en_Item e)\<rparr> else e) (cr_entries r)\<rparr>"

text \<open>The constructor and destructor of \<^verbatim>\<open>DispatchScope\<close>.\<close>

definition scope_begin :: "'a CallbackRegistry \<Rightarrow> 'a CallbackRegistry" where
  "scope_begin r = r\<lparr>cr_dispatchDepth := cr_dispatchDepth r + 1\<rparr>"

definition scope_end :: "'a CallbackRegistry \<Rightarrow> 'a CallbackRegistry" where
  "scope_end r =
     (let depth = cr_dispatchDepth r - 1; r' = r\<lparr>cr_dispatchDepth := depth\<rparr>
      in if depth = 0 \<and> length (cr_entries r) \<noteq> cr_live r
         then r'\<lparr>cr_entries := filter (\<lambda>e. \<not> en_Removed e) (cr_entries r)\<rparr>
         else r')"

definition entry_runs :: "('a \<Rightarrow> bool) \<Rightarrow> 'a CallbackRegistry \<Rightarrow> nat \<Rightarrow> bool" where
  "entry_runs pred r i \<longleftrightarrow> \<not> en_Removed (cr_entries r ! i) \<and> pred (en_Item (cr_entries r ! i))"

definition DispatchIf ::
  "('a \<Rightarrow> bool) \<Rightarrow> (nat \<Rightarrow> 'a CallbackRegistry \<Rightarrow> 'a CallbackRegistry) \<Rightarrow> 'a CallbackRegistry
     \<Rightarrow> nat list \<times> 'a CallbackRegistry" where
  "DispatchIf pred fn r =
     (let count = length (cr_entries r) in
      if count = 0 then ([], r)
      else let w = walk (entry_runs pred) (\<lambda>i s. (False, fn (en_Id (cr_entries s ! i)) s)) 0 count
                     (scope_begin r)
           in (map (\<lambda>i. en_Id (cr_entries r ! i)) (walk_ran w), scope_end (walk_state w)))"

definition Dispatch ::
  "(nat \<Rightarrow> 'a CallbackRegistry \<Rightarrow> 'a CallbackRegistry) \<Rightarrow> 'a CallbackRegistry
     \<Rightarrow> nat list \<times> 'a CallbackRegistry" where
  "Dispatch fn r = DispatchIf (\<lambda>_. True) fn r"

text \<open>
  What code holding the registry can do to it. Nested dispatches open and close a scope around more
  of the same.
\<close>

inductive api :: "'a CallbackRegistry \<Rightarrow> 'a CallbackRegistry \<Rightarrow> bool" where
  api_refl: "api r r"
| api_Add: "api r s \<Longrightarrow> api r (snd (reg_Add item s))"
| api_Remove: "api r s \<Longrightarrow> api r (snd (reg_Remove i s))"
| api_Clear: "api r s \<Longrightarrow> api r (reg_Clear s)"
| api_Modify: "api r s \<Longrightarrow> api r (reg_Modify i f s)"
| api_scope: "api r s \<Longrightarrow> api (scope_begin s) t \<Longrightarrow> api r (scope_end t)"

section \<open>The invariant\<close>

definition reg_ok :: "'a CallbackRegistry \<Rightarrow> bool" where
  "reg_ok r \<longleftrightarrow>
     sorted_wrt (<) (map en_Id (cr_entries r)) \<and>
     (\<forall>e \<in> set (cr_entries r). 0 < en_Id e \<and> en_Id e < cr_nextId r) \<and>
     cr_live r = length (filter (\<lambda>e. \<not> en_Removed e) (cr_entries r)) \<and>
     (cr_dispatchDepth r = 0 \<longrightarrow> (\<forall>e \<in> set (cr_entries r). \<not> en_Removed e)) \<and>
     0 < cr_nextId r"

definition live_ids :: "'a CallbackRegistry \<Rightarrow> nat list" where
  "live_ids r = map en_Id (filter (\<lambda>e. \<not> en_Removed e) (cr_entries r))"

lemma takeWhile_less_sorted:
  "sorted_wrt (<) (map en_Id xs) \<Longrightarrow> k < length xs \<Longrightarrow> length (takeWhile (\<lambda>e. en_Id e < en_Id (xs ! k)) xs) = k"
proof (induction xs arbitrary: k)
  case (Cons x xs)
  then show ?case by (cases k) (auto simp: nth_Cons')
qed simp

lemma reg_Locate_Some:
  assumes "sorted_wrt (<) (map en_Id (cr_entries r))"
  shows "reg_Locate r i = Some k \<longleftrightarrow> k < length (cr_entries r) \<and> en_Id (cr_entries r ! k) = i"
  using takeWhile_less_sorted[OF assms] by (auto simp: reg_Locate_def Let_def)

lemma reg_ok_sorted: "reg_ok r \<Longrightarrow> sorted_wrt (<) (map en_Id (cr_entries r))"
  by (simp add: reg_ok_def)

lemma sorted_ids_nth:
  "sorted_wrt (<) (map en_Id xs) \<Longrightarrow> i < length xs \<Longrightarrow> j < length xs \<Longrightarrow>
     (en_Id (xs ! i) = en_Id (xs ! j)) = (i = j)"
  by (metis length_map nth_eq_iff_index_eq nth_map strict_sorted_iff)

lemma sorted_ids_positions:
  "sorted_wrt (<) is \<Longrightarrow> set is \<subseteq> {..<length xs} \<Longrightarrow> sorted_wrt (<) (map en_Id xs) \<Longrightarrow>
     sorted_wrt (<) (map (\<lambda>i. en_Id (xs ! i)) is)"
proof (induction "is")
  case (Cons a "is")
  have "en_Id (xs ! a) < en_Id (xs ! i)" if "i \<in> set is" for i
    using Cons.prems that sorted_wrt_nth_less[OF Cons.prems(3), of a i] by auto
  with Cons show ?case by auto
qed simp

lemma reg_ok_init [simp]: "reg_ok reg_init"
  by (simp add: reg_ok_def reg_init_def)

lemma reg_ok_Add [simp]: "reg_ok r \<Longrightarrow> reg_ok (snd (reg_Add item r))"
  by (auto simp: reg_ok_def reg_Add_def sorted_wrt_append less_Suc_eq)

lemma filter_update_removed:
  assumes "k < length xs" "\<not> en_Removed (xs ! k)"
  shows "length (filter (\<lambda>e. \<not> en_Removed e) (xs[k := (xs ! k)\<lparr>en_Removed := True\<rparr>])) =
         length (filter (\<lambda>e. \<not> en_Removed e) xs) - 1"
    and "length (filter (\<lambda>e. \<not> en_Removed e) (take k xs @ drop (Suc k) xs)) =
         length (filter (\<lambda>e. \<not> en_Removed e) xs) - 1"
proof -
  have xs: "xs = take k xs @ xs ! k # drop (Suc k) xs" using assms(1) by (simp add: id_take_nth_drop)
  show "length (filter (\<lambda>e. \<not> en_Removed e) (take k xs @ drop (Suc k) xs)) =
         length (filter (\<lambda>e. \<not> en_Removed e) xs) - 1"
    using assms(2) by (subst (3) xs) simp
  show "length (filter (\<lambda>e. \<not> en_Removed e) (xs[k := (xs ! k)\<lparr>en_Removed := True\<rparr>])) =
         length (filter (\<lambda>e. \<not> en_Removed e) xs) - 1"
    using assms by (subst (3) xs) (simp add: upd_conv_take_nth_drop)
qed

text \<open>\<^verbatim>\<open>Remove\<close> leaves the registry alone, marks the entry (in a dispatch) or drops it (outside).\<close>

lemma reg_Remove_cases:
  assumes "reg_ok r"
  obtains (unknown) "reg_Remove i r = (False, r)" "i \<notin> set (live_ids r)"
  | (mark) k where "k < length (cr_entries r)" "en_Id (cr_entries r ! k) = i" "\<not> en_Removed (cr_entries r ! k)"
      "0 < cr_dispatchDepth r"
      "reg_Remove i r = (True, r\<lparr>cr_live := cr_live r - 1,
         cr_entries := (cr_entries r)[k := (cr_entries r ! k)\<lparr>en_Removed := True\<rparr>]\<rparr>)"
  | (drop) k where "k < length (cr_entries r)" "en_Id (cr_entries r ! k) = i" "\<not> en_Removed (cr_entries r ! k)"
      "cr_dispatchDepth r = 0"
      "reg_Remove i r = (True, r\<lparr>cr_live := cr_live r - 1,
         cr_entries := take k (cr_entries r) @ drop (Suc k) (cr_entries r)\<rparr>)"
proof (cases "\<exists>k. reg_Locate r i = Some k \<and> \<not> en_Removed (cr_entries r ! k)")
  case True
  then obtain k where k: "reg_Locate r i = Some k" "\<not> en_Removed (cr_entries r ! k)" by blast
  then have "k < length (cr_entries r)" "en_Id (cr_entries r ! k) = i"
    using reg_Locate_Some[OF reg_ok_sorted[OF assms]] by auto
  with k mark[of k] drop[of k] show thesis
    by (cases "cr_dispatchDepth r = 0") (simp_all add: reg_Remove_def Let_def)
next
  case False
  have "i \<notin> set (live_ids r)"
  proof
    assume "i \<in> set (live_ids r)"
    then obtain e where e: "e \<in> set (cr_entries r)" "en_Id e = i" "\<not> en_Removed e"
      by (auto simp: live_ids_def)
    then obtain k where "k < length (cr_entries r)" "cr_entries r ! k = e" by (metis in_set_conv_nth)
    with e False show False using reg_Locate_Some[OF reg_ok_sorted[OF assms]] by auto
  qed
  with False unknown show thesis by (auto simp: reg_Remove_def split: option.splits)
qed

lemma reg_ok_Remove [simp]:
  assumes ok: "reg_ok r" shows "reg_ok (snd (reg_Remove i r))"
  using ok
proof (cases rule: reg_Remove_cases[of r i])
  case (mark k)
  have "map en_Id ((cr_entries r)[k := (cr_entries r ! k)\<lparr>en_Removed := True\<rparr>]) = map en_Id (cr_entries r)"
    using mark(1) by (simp add: map_update list_update_same_conv)
  moreover have "\<forall>e \<in> set ((cr_entries r)[k := (cr_entries r ! k)\<lparr>en_Removed := True\<rparr>]).
      0 < en_Id e \<and> en_Id e < cr_nextId r"
    using ok mark(1) by (auto simp: reg_ok_def dest!: subsetD[OF set_update_subset_insert])
  ultimately show ?thesis
    using ok mark(4) filter_update_removed(1)[OF mark(1,3)] by (simp add: mark(5) reg_ok_def)
next
  case (drop k)
  have sub: "set (take k (cr_entries r) @ drop (Suc k) (cr_entries r)) \<subseteq> set (cr_entries r)"
    using set_take_subset set_drop_subset by fastforce
  have "sorted_wrt (<) (map en_Id (take k (cr_entries r) @ cr_entries r ! k # List.drop (Suc k) (cr_entries r)))"
    using reg_ok_sorted[OF ok] id_take_nth_drop[OF drop(1)] by simp
  then have srt: "sorted_wrt (<) (map en_Id (take k (cr_entries r) @ List.drop (Suc k) (cr_entries r)))"
    by (simp add: sorted_wrt_append del: append_take_drop_id)
  show ?thesis
    unfolding drop(5) reg_ok_def using ok sub srt filter_update_removed(2)[OF drop(1,3)]
    by (simp add: reg_ok_def del: set_append) (meson subsetD)
qed (simp add: ok)

lemma reg_ok_Clear [simp]: "reg_ok r \<Longrightarrow> reg_ok (reg_Clear r)"
  by (auto simp: reg_ok_def reg_Clear_def o_def)

lemma modified_fields [simp]:
  "en_Id (if b then e\<lparr>en_Item := x\<rparr> else e) = en_Id e"
  "en_Removed (if b then e\<lparr>en_Item := x\<rparr> else e) = en_Removed e"
  by simp_all

lemma reg_ok_Modify [simp]: "reg_ok r \<Longrightarrow> reg_ok (reg_Modify i f r)"
  by (auto simp: reg_ok_def reg_Modify_def o_def filter_map)

lemma reg_ok_begin [simp]: "reg_ok r \<Longrightarrow> reg_ok (scope_begin r)"
  by (simp add: reg_ok_def scope_begin_def)

lemma scope_end_entries:
  "reg_ok r \<Longrightarrow> cr_dispatchDepth r = 1 \<Longrightarrow>
     cr_entries (scope_end r) = filter (\<lambda>e. \<not> en_Removed e) (cr_entries r)"
  "cr_dispatchDepth r \<noteq> 1 \<Longrightarrow> 0 < cr_dispatchDepth r \<Longrightarrow> cr_entries (scope_end r) = cr_entries r"
  by (auto simp: scope_end_def reg_ok_def Let_def filter_id_conv length_filter_less
      intro!: filter_True[symmetric] dest: sym)
    (metis length_filter_less less_irrefl)

lemma scope_end_fields [simp]:
  "cr_live (scope_end r) = cr_live r" "cr_nextId (scope_end r) = cr_nextId r"
  "cr_dispatchDepth (scope_end r) = cr_dispatchDepth r - 1"
  by (simp_all add: scope_end_def Let_def)

lemma reg_ok_end [simp]: "reg_ok r \<Longrightarrow> 0 < cr_dispatchDepth r \<Longrightarrow> reg_ok (scope_end r)"
proof (cases "cr_dispatchDepth r = 1")
  case True
  assume ok: "reg_ok r"
  have "sorted_wrt (<) (map en_Id (filter (\<lambda>e. \<not> en_Removed e) (cr_entries r)))"
    using reg_ok_sorted[OF ok] by (simp add: sorted_wrt_map sorted_wrt_filter)
  with ok True show ?thesis by (simp add: reg_ok_def scope_end_entries(1)[OF ok True])
qed (simp add: reg_ok_def scope_end_entries(2))

lemma depth_simps [simp]:
  "cr_dispatchDepth (snd (reg_Add item r)) = cr_dispatchDepth r"
  "cr_dispatchDepth (reg_Clear r) = cr_dispatchDepth r"
  "cr_dispatchDepth (reg_Modify i f r) = cr_dispatchDepth r"
  "cr_dispatchDepth (snd (reg_Remove i r)) = cr_dispatchDepth r"
  "cr_dispatchDepth (scope_begin r) = Suc (cr_dispatchDepth r)"
  by (simp_all add: reg_Add_def reg_Clear_def reg_Modify_def reg_Remove_def scope_begin_def Let_def
      split: option.split)

lemma api_ok: "api r s \<Longrightarrow> reg_ok r \<Longrightarrow> reg_ok s \<and> cr_dispatchDepth s = cr_dispatchDepth r"
  by (induction rule: api.induct) auto

lemma api_trans: "api s t \<Longrightarrow> api r s \<Longrightarrow> api r t"
  by (induction rule: api.induct) (auto intro: api.intros)

text \<open>While a dispatch runs, entries only grow at the end and a removed one stays removed.\<close>

definition kept :: "'a CallbackRegistry \<Rightarrow> 'a CallbackRegistry \<Rightarrow> bool" where
  "kept s t \<longleftrightarrow> prefix (map en_Id (cr_entries s)) (map en_Id (cr_entries t)) \<and>
     (\<forall>i < length (cr_entries s). en_Removed (cr_entries s ! i) \<longrightarrow> en_Removed (cr_entries t ! i))"

lemma kept_refl [simp]: "kept s s"
  by (simp add: kept_def)

lemma kept_length: "kept s t \<Longrightarrow> length (cr_entries s) \<le> length (cr_entries t)"
  by (metis kept_def length_map prefix_length_le)

lemma kept_trans: "kept s t \<Longrightarrow> kept t u \<Longrightarrow> kept s u"
  using kept_length[of s t] by (auto simp: kept_def)

lemma kept_same_ids:
  "map en_Id (cr_entries t) = map en_Id (cr_entries s) \<Longrightarrow>
     (\<And>i. i < length (cr_entries s) \<Longrightarrow> en_Removed (cr_entries s ! i) \<Longrightarrow> en_Removed (cr_entries t ! i)) \<Longrightarrow>
     kept s t"
  by (simp add: kept_def)

lemma kept_ops:
  "kept s (snd (reg_Add item s))"
  "0 < cr_dispatchDepth s \<Longrightarrow> kept s (reg_Clear s)"
  "kept s (reg_Modify i f s)"
  "kept s (scope_begin s)"
  by (auto simp: kept_def reg_Add_def reg_Clear_def reg_Modify_def scope_begin_def nth_append o_def)

lemma kept_Remove:
  assumes "reg_ok s" "0 < cr_dispatchDepth s"
  shows "kept s (snd (reg_Remove i s))"
  using assms(1)
proof (cases rule: reg_Remove_cases[of s i])
  case (mark k)
  then show ?thesis
    by (auto simp: mark(5) map_update list_update_same_conv nth_list_update intro!: kept_same_ids)
qed (use assms in simp_all)

lemma kept_end: "reg_ok s \<Longrightarrow> 1 < cr_dispatchDepth s \<Longrightarrow> kept s (scope_end s)"
  by (simp add: kept_def scope_end_entries(2))

lemma api_kept:
  "api s t \<Longrightarrow> reg_ok s \<Longrightarrow> 0 < cr_dispatchDepth s \<Longrightarrow> kept s t"
proof (induction rule: api.induct)
  case (api_scope r s t)
  have s: "reg_ok s" "cr_dispatchDepth s = cr_dispatchDepth r"
    using api_ok[OF api_scope(1)] api_scope.prems by auto
  then have t: "reg_ok t" "cr_dispatchDepth t = Suc (cr_dispatchDepth r)"
    using api_ok[OF api_scope(2)] by simp_all
  have "kept r s" using api_scope by simp
  moreover have "kept s t"
    using api_scope.IH(2) s kept_ops(4)[of s] by (auto intro: kept_trans)
  moreover have "kept t (scope_end t)" using t api_scope.prems by (intro kept_end) auto
  ultimately show ?case by (meson kept_trans)
qed (metis api_ok kept_refl kept_trans kept_ops kept_Remove)+

interpretation registry: reentrant_store
  "\<lambda>r. map en_Id (cr_entries r)" "\<lambda>r i. \<not> en_Removed (cr_entries r ! i)"
  "\<lambda>r. reg_ok r \<and> 0 < cr_dispatchDepth r" api
proof (unfold_locales, goal_cases)
  case (1 s)
  show ?case by (rule api_refl)
next
  case (2 s t u)
  then show ?case by (blast intro: api_trans)
next
  case (3 s t)
  then show ?case using api_ok by auto
next
  case (4 s t)
  then show ?case using api_kept by (auto simp: kept_def)
next
  case (5 s t i)
  then show ?case using api_kept by (auto simp: kept_def)
qed

section \<open>Dispatch\<close>

lemma live_ids_iff: "i \<in> set (live_ids r) \<longleftrightarrow>
    (\<exists>k < length (cr_entries r). en_Id (cr_entries r ! k) = i \<and> \<not> en_Removed (cr_entries r ! k))"
  by (auto simp: live_ids_def in_set_conv_nth image_iff)

lemma live_ids_end: "reg_ok r \<Longrightarrow> 0 < cr_dispatchDepth r \<Longrightarrow> live_ids (scope_end r) = live_ids r"
  by (cases "cr_dispatchDepth r = 1") (simp_all add: live_ids_def scope_end_entries)

lemma live_ids_begin [simp]: "live_ids (scope_begin r) = live_ids r"
  by (simp add: live_ids_def scope_begin_def)

definition registry_visit ::
  "(nat \<Rightarrow> 'a CallbackRegistry \<Rightarrow> 'a CallbackRegistry) \<Rightarrow> nat \<Rightarrow> 'a CallbackRegistry
     \<Rightarrow> bool \<times> 'a CallbackRegistry" where
  "registry_visit fn = (\<lambda>i s. (False, fn (en_Id (cr_entries s ! i)) s))"

lemma registry_visit_well_behaved:
  "(\<And>i s. api s (fn i s)) \<Longrightarrow> registry.well_behaved (registry_visit fn)"
  by (simp add: registry.well_behaved_def registry_visit_def)

lemma registry_visit_runs_on: "\<not> fst (walk runs (registry_visit fn) i n s)"
  by (induction n arbitrary: i s) (simp_all add: walk_Suc registry_visit_def)

lemma DispatchIf_walk:
  "DispatchIf pred fn r =
     (if cr_entries r = [] then ([], r)
      else let w = walk (entry_runs pred) (registry_visit fn) 0 (length (cr_entries r)) (scope_begin r)
           in (map (\<lambda>i. en_Id (cr_entries r ! i)) (walk_ran w), scope_end (walk_state w)))"
  by (simp add: DispatchIf_def registry_visit_def Let_def)

lemma DispatchIf_facts:
  assumes ok: "reg_ok r" and api: "\<And>i s. api s (fn i s)"
  shows "reg_ok (snd (DispatchIf pred fn r))"
    and "cr_dispatchDepth (snd (DispatchIf pred fn r)) = cr_dispatchDepth r"
    and "sorted_wrt (<) (fst (DispatchIf pred fn r))"
    and "set (fst (DispatchIf pred fn r)) \<subseteq> set (live_ids r)"
    and "api r (snd (DispatchIf pred fn r))"
proof -
  define w where "w = walk (entry_runs pred) (registry_visit fn) 0 (length (cr_entries r)) (scope_begin r)"
  have wb: "registry.well_behaved (registry_visit fn)" by (rule registry_visit_well_behaved[OF api])
  have eff: "api (scope_begin r) (walk_state w)"
    unfolding w_def by (rule registry.walk_effect[OF wb])
  have st: "reg_ok (walk_state w)" "cr_dispatchDepth (walk_state w) = Suc (cr_dispatchDepth r)"
    using api_ok[OF eff] ok by simp_all
  have range: "set (walk_ran w) \<subseteq> {..<length (cr_entries r)}"
    using walk_ran_range[of "entry_runs pred" "registry_visit fn" 0 "length (cr_entries r)" "scope_begin r"]
    by (auto simp: w_def)
  have alive: "\<not> en_Removed (cr_entries r ! j)" if "j \<in> set (walk_ran w)" for j
    using registry.walk_ran_alive[OF wb, of "scope_begin r" 0
        "length (cr_entries r)" "entry_runs pred" j] that ok
    by (simp add: w_def scope_begin_def entry_runs_def reg_ok_def)
  have "sorted_wrt (<) (map (\<lambda>i. en_Id (cr_entries r ! i)) (walk_ran w))"
    using walk_ran_ascending range reg_ok_sorted[OF ok] unfolding w_def by (intro sorted_ids_positions)
  then show "sorted_wrt (<) (fst (DispatchIf pred fn r))"
    by (simp add: DispatchIf_walk w_def Let_def)
  show "set (fst (DispatchIf pred fn r)) \<subseteq> set (live_ids r)"
  proof
    fix j assume "j \<in> set (fst (DispatchIf pred fn r))"
    then obtain i where "i \<in> set (walk_ran w)" "j = en_Id (cr_entries r ! i)"
      by (auto simp: DispatchIf_walk w_def Let_def split: if_splits)
    then show "j \<in> set (live_ids r)"
      using range alive[of i] by (auto simp: live_ids_iff intro!: exI[of _ i])
  qed
  show "reg_ok (snd (DispatchIf pred fn r))"
    "cr_dispatchDepth (snd (DispatchIf pred fn r)) = cr_dispatchDepth r"
    using ok st by (simp_all add: DispatchIf_walk w_def Let_def)
  show "api r (snd (DispatchIf pred fn r))"
    using api_scope[OF api_refl eff] by (simp add: DispatchIf_walk w_def Let_def api_refl)
qed

lemma reg_Empty_live: "reg_ok r \<Longrightarrow> reg_Empty r \<longleftrightarrow> live_ids r = []"
  by (auto simp: reg_Empty_def reg_ok_def live_ids_def)

lemma Dispatch_complete:
  assumes ok: "reg_ok r" and api: "\<And>i s. api s (fn i s)"
    and live: "i \<in> set (live_ids r)" and still: "i \<in> set (live_ids (snd (Dispatch fn r)))"
  shows "i \<in> set (fst (Dispatch fn r))"
proof -
  define w where "w = walk (\<lambda>r i. \<not> en_Removed (cr_entries r ! i)) (registry_visit fn) 0
    (length (cr_entries r)) (scope_begin r)"
  have runs: "entry_runs (\<lambda>_. True) = (\<lambda>(r :: 'a CallbackRegistry) i. \<not> en_Removed (cr_entries r ! i))"
    by (simp add: entry_runs_def fun_eq_iff)
  have wb: "registry.well_behaved (registry_visit fn)" by (rule registry_visit_well_behaved[OF api])
  have eff: "api (scope_begin r) (walk_state w)"
    unfolding w_def by (rule registry.walk_effect[OF wb])
  have st: "reg_ok (walk_state w)" "0 < cr_dispatchDepth (walk_state w)"
    using api_ok[OF eff] ok by simp_all
  obtain k where k: "k < length (cr_entries r)" "en_Id (cr_entries r ! k) = i"
    using live by (auto simp: live_ids_iff)
  have Disp: "Dispatch fn r = (map (\<lambda>i. en_Id (cr_entries r ! i)) (walk_ran w), scope_end (walk_state w))"
    using k(1) by (auto simp: Dispatch_def DispatchIf_walk w_def Let_def runs)
  have "i \<in> set (live_ids (walk_state w))" using still live_ids_end[OF st] by (simp add: Disp)
  then obtain k' where k': "k' < length (cr_entries (walk_state w))"
    "en_Id (cr_entries (walk_state w) ! k') = i" "\<not> en_Removed (cr_entries (walk_state w) ! k')"
    by (auto simp: live_ids_iff)
  have "kept (scope_begin r) (walk_state w)" using api_kept[OF eff] ok by simp
  then have pre: "prefix (map en_Id (cr_entries r)) (map en_Id (cr_entries (walk_state w)))"
    by (simp add: kept_def scope_begin_def)
  then have len: "length (cr_entries r) \<le> length (cr_entries (walk_state w))"
    using prefix_length_le by fastforce
  have "map en_Id (cr_entries (walk_state w)) ! k = map en_Id (cr_entries r) ! k"
    using pre k(1) by (auto simp: prefix_def nth_append)
  then have "en_Id (cr_entries (walk_state w) ! k) = i" using k len by simp
  then have "k' = k" using k' k(1) len sorted_ids_nth[OF reg_ok_sorted[OF st(1)]] by auto
  then have "k \<in> set (walk_ran w)"
    using registry.walk_complete[OF wb, where s = "scope_begin r"
        and i = 0 and n = "length (cr_entries r)" and j = k] ok k(1) k'
    by (simp add: w_def scope_begin_def reg_ok_def registry_visit_runs_on)
  then show ?thesis using k by (auto simp: Disp)
qed

lemma reg_Add_fresh:
  "reg_ok r \<Longrightarrow> fst (reg_Add item r) \<notin> en_Id ` set (cr_entries r) \<and>
     live_ids (snd (reg_Add item r)) = live_ids r @ [fst (reg_Add item r)]"
  by (auto simp: reg_ok_def reg_Add_def live_ids_def)

lemma reg_Remove_live:
  assumes "reg_ok r"
  shows "live_ids (snd (reg_Remove i r)) = filter (\<lambda>j. j \<noteq> i) (live_ids r)"
    and "fst (reg_Remove i r) \<longleftrightarrow> i \<in> set (live_ids r)"
proof -
  have other: "filter (\<lambda>e. \<not> en_Removed e \<and> en_Id e \<noteq> en_Id (xs ! k)) ys = filter (\<lambda>e. \<not> en_Removed e) ys"
    if "sorted_wrt (<) (map en_Id xs)" "k < length xs" "ys = take k xs \<or> ys = List.drop (Suc k) xs"
    for xs ys :: "'b Entry list" and k
  proof (rule filter_cong[OF refl])
    fix e assume "e \<in> set ys"
    from that(3) have "\<exists>j < length xs. xs ! j = e \<and> j \<noteq> k"
    proof
      assume "ys = take k xs"
      with \<open>e \<in> set ys\<close> obtain j where "j < k" "j < length xs" "xs ! j = e"
        by (auto simp: in_set_conv_nth)
      then show ?thesis by (intro exI[of _ j]) auto
    next
      assume "ys = List.drop (Suc k) xs"
      with \<open>e \<in> set ys\<close> obtain j where "j < length xs - Suc k" "xs ! (Suc k + j) = e"
        by (auto simp: in_set_conv_nth)
      then show ?thesis by (intro exI[of _ "Suc k + j"]) auto
    qed
    then show "(\<not> en_Removed e \<and> en_Id e \<noteq> en_Id (xs ! k)) = (\<not> en_Removed e)"
      using sorted_ids_nth[OF that(1) _ that(2)] by metis
  qed
  have split: "filter (\<lambda>e. \<not> en_Removed e \<and> en_Id e \<noteq> en_Id (cr_entries r ! k)) (cr_entries r) =
      filter (\<lambda>e. \<not> en_Removed e) (take k (cr_entries r)) @
      filter (\<lambda>e. \<not> en_Removed e) (List.drop (Suc k) (cr_entries r))"
    if k: "k < length (cr_entries r)" for k
  proof -
    have "filter P (cr_entries r) = filter P (take k (cr_entries r)) @
        filter P [cr_entries r ! k] @ filter P (List.drop (Suc k) (cr_entries r))" for P
      by (metis append_Cons append_Nil filter_append id_take_nth_drop[OF k])
    then show ?thesis using other[OF reg_ok_sorted[OF assms] k] by simp
  qed
  have live: "filter (\<lambda>j. j \<noteq> i) (live_ids r) =
      map en_Id (filter (\<lambda>e. \<not> en_Removed e \<and> en_Id e \<noteq> i) (cr_entries r))"
    by (simp add: live_ids_def filter_map o_def conj_commute)
  show "live_ids (snd (reg_Remove i r)) = filter (\<lambda>j. j \<noteq> i) (live_ids r)"
    using assms
  proof (cases rule: reg_Remove_cases[of r i])
    case unknown
    then show ?thesis by (auto intro!: filter_True[symmetric])
  next
    case (mark k)
    then show ?thesis
      unfolding live using split[OF mark(1)] by (simp add: live_ids_def upd_conv_take_nth_drop)
  next
    case (drop k)
    then show ?thesis unfolding live using split[OF drop(1)] by (simp add: live_ids_def)
  qed
  show "fst (reg_Remove i r) \<longleftrightarrow> i \<in> set (live_ids r)"
    using assms
  proof (cases rule: reg_Remove_cases[of r i])
    case (mark k)
    then show ?thesis by (auto simp: live_ids_iff)
  next
    case (drop k)
    then show ?thesis by (auto simp: live_ids_iff)
  qed simp
qed

lemma reg_Find_live: "reg_ok r \<Longrightarrow> reg_Find i r \<noteq> None \<longleftrightarrow> i \<in> set (live_ids r)"
  using reg_Locate_Some[OF reg_ok_sorted, of r i] sorted_ids_nth[OF reg_ok_sorted, of r]
  by (cases "reg_Locate r i") (auto simp: reg_Find_def live_ids_iff)

lemma reg_ok_live: "reg_ok r \<Longrightarrow> sorted_wrt (<) (live_ids r) \<and> reg_Size r = length (live_ids r)"
  by (simp add: reg_ok_def live_ids_def reg_Size_def sorted_wrt_map sorted_wrt_filter)

section \<open>Properties\<close>

text \<open>
  in every registry reached from a new one by its public operations, nested dispatches included,
  the live handles are in ascending order without repetition, \<^verbatim>\<open>Size\<close> counts them, the binary search
  of \<^verbatim>\<open>Find\<close> finds exactly them, \<^verbatim>\<open>Remove\<close> removes exactly the named one and reports whether it was
  there, and \<^verbatim>\<open>Add\<close> hands out a handle that no stored entry has and that is not 0.
\<close>

theorem CallbackRegistry_handles:
  assumes "api reg_init r"
  shows "sorted_wrt (<) (live_ids r) \<and> reg_Size r = length (live_ids r) \<and>
    (reg_Find i r \<noteq> None \<longleftrightarrow> i \<in> set (live_ids r)) \<and>
    (fst (reg_Remove i r) \<longleftrightarrow> i \<in> set (live_ids r)) \<and>
    live_ids (snd (reg_Remove i r)) = filter (\<lambda>j. j \<noteq> i) (live_ids r) \<and>
    fst (reg_Add item r) \<notin> en_Id ` set (cr_entries r) \<and> 0 < fst (reg_Add item r) \<and>
    live_ids (snd (reg_Add item r)) = live_ids r @ [fst (reg_Add item r)]"
proof -
  have ok: "reg_ok r" using api_ok[OF assms] by simp
  then have "0 < fst (reg_Add item r)" by (simp add: reg_Add_def reg_ok_def)
  with reg_ok_live[OF ok] reg_Find_live[OF ok, of i] reg_Remove_live[OF ok, of i] reg_Add_fresh[OF ok, of item]
  show ?thesis by blast
qed

definition example_registry :: "string CallbackRegistry" where
  "example_registry = snd (reg_Add ''third'' (snd (reg_Add ''second'' (snd (reg_Add ''first'' reg_init)))))"

lemma example_registry_api: "api reg_init example_registry"
  unfolding example_registry_def by (intro api_Add api_refl)

theorem CallbackRegistry_handles_witness:
  "api reg_init example_registry \<and> live_ids (snd (reg_Remove 2 example_registry)) = [1, 3] \<and>
   fst (reg_Remove 2 example_registry)"
  using CallbackRegistry_handles[OF example_registry_api, of 2 "''x''"] example_registry_api
  by (simp add: example_registry_def reg_Add_def reg_init_def live_ids_def)


text \<open>The first callback removes the second and adds another.\<close>

definition example_callback :: "nat \<Rightarrow> string CallbackRegistry \<Rightarrow> string CallbackRegistry" where
  "example_callback i r = (if i = 1 then snd (reg_Add ''late'' (snd (reg_Remove 2 r))) else r)"

lemma example_callback_api: "api s (example_callback i s)"
  by (simp add: example_callback_def api_Add api_Remove api_refl)


end
