(* ===== verification/Signals.thy ===== *)
theory Signals
  imports CallbackRegistry Result
begin

text \<open>
  Subscriptions, events with a lifecycle, and the hook that exists only while one of its events has
  handlers. Sources: \<^verbatim>\<open>include/VoltMod/Core/Signals/{Subscription,Subscriptions,Event,LazyHook}.hpp\<close>
  and \<^verbatim>\<open>src/Core/Signals/LazyHook.cpp\<close>. What a cleanup, a lifecycle callback or a handler touches is a
  state of its own type; the engine's answer to an install request is an argument. \<open>signals\<close> puts one
  hook and the events it feeds together, and \<open>sig_api\<close> is everything their users can do, a raise whose
  handlers subscribe and unsubscribe included.
\<close>

section \<open>Subscriptions\<close>

text \<open>The cleanup callable, or none.\<close>

type_synonym 'w Subscription = "('w \<Rightarrow> 'w) option"

definition Subscription_Reset :: "'w Subscription \<Rightarrow> 'w \<Rightarrow> 'w Subscription \<times> 'w" where
  "Subscription_Reset sub w = (case sub of None \<Rightarrow> (None, w) | Some cleanup \<Rightarrow> (None, cleanup w))"

definition Subscription_assign :: "'w Subscription \<Rightarrow> 'w Subscription \<Rightarrow> 'w \<Rightarrow> 'w Subscription \<times> 'w" where
  "Subscription_assign sub other w = (other, snd (Subscription_Reset sub w))"

definition Subscriptions_Add :: "'w Subscription \<Rightarrow> 'w Subscription list \<Rightarrow> 'w Subscription list" where
  "Subscriptions_Add sub items = items @ [sub]"

fun pop_all :: "'w Subscription list \<Rightarrow> 'w \<Rightarrow> 'w" where
  "pop_all [] w = w"
| "pop_all (last_item # rest) w = pop_all rest (snd (Subscription_Reset last_item w))"

definition Subscriptions_Clear :: "'w Subscription list \<Rightarrow> 'w \<Rightarrow> 'w Subscription list \<times> 'w" where
  "Subscriptions_Clear items w = ([], pop_all (rev items) w)"

definition Subscriptions_assign ::
  "'w Subscription list \<Rightarrow> 'w Subscription list \<Rightarrow> 'w \<Rightarrow> 'w Subscription list \<times> 'w" where
  "Subscriptions_assign items other w = (other, snd (Subscriptions_Clear items w))"

section \<open>Events\<close>

record 'w EventLifecycle =
  OnFirst :: "('w \<Rightarrow> bool \<times> 'w) option"
  OnLast :: "('w \<Rightarrow> 'w) option"

text \<open>
  \<^verbatim>\<open>operator+=\<close>: the result is the handle the subscription captures, \<open>None\<close> for an empty one.
\<close>

definition Event_add ::
  "'w EventLifecycle \<Rightarrow> 'h option \<Rightarrow> 'h CallbackRegistry \<Rightarrow> 'w
     \<Rightarrow> nat option \<times> 'h CallbackRegistry \<times> 'w" where
  "Event_add lifecycle handler r w =
     (case handler of
        None \<Rightarrow> (None, r, w)
      | Some h \<Rightarrow>
          let (start, w') = (if reg_Empty r then (case OnFirst lifecycle of None \<Rightarrow> (True, w) | Some f \<Rightarrow> f w)
                             else (True, w))
          in if \<not> start then (None, r, w')
             else (case reg_Add h r of (i, r') \<Rightarrow> (Some i, r', w')))"

text \<open>The cleanup of the subscription \<^verbatim>\<open>operator+=\<close> returned for handle \<open>i\<close>.\<close>

definition Event_drop ::
  "'w EventLifecycle \<Rightarrow> nat \<Rightarrow> 'h CallbackRegistry \<Rightarrow> 'w \<Rightarrow> 'h CallbackRegistry \<times> 'w" where
  "Event_drop lifecycle i r w =
     (case reg_Remove i r of (removed, r') \<Rightarrow>
        (r', if removed \<and> reg_Empty r' then (case OnLast lifecycle of None \<Rightarrow> w | Some f \<Rightarrow> f w) else w))"

definition Event_Empty :: "'h CallbackRegistry \<Rightarrow> bool" where
  "Event_Empty r \<longleftrightarrow> reg_Empty r"

definition Event_Count :: "'h CallbackRegistry \<Rightarrow> nat" where
  "Event_Count r = reg_Size r"

section \<open>The lazy hook\<close>

text \<open>\<open>lh_hook\<close> is whether the subscription returned by the install is held.\<close>

record LazyHook =
  lh_hook :: bool
  lh_listening :: int

definition lh_init :: LazyHook where
  "lh_init = \<lparr>lh_hook = False, lh_listening = 0\<rparr>"

definition Installed :: "LazyHook \<Rightarrow> bool" where
  "Installed h \<longleftrightarrow> lh_hook h"

definition AddListener :: "unit result \<Rightarrow> LazyHook \<Rightarrow> bool \<times> LazyHook" where
  "AddListener install h =
     (if lh_listening h = 0
      then (case install of
              Inl _ \<Rightarrow> (False, h)
            | Inr _ \<Rightarrow> (True, h\<lparr>lh_hook := True, lh_listening := lh_listening h + 1\<rparr>))
      else (True, h\<lparr>lh_listening := lh_listening h + 1\<rparr>))"

definition RemoveListener :: "LazyHook \<Rightarrow> LazyHook" where
  "RemoveListener h =
     (if lh_listening h > 0
      then let n = lh_listening h - 1
           in if n = 0 then h\<lparr>lh_listening := n, lh_hook := False\<rparr> else h\<lparr>lh_listening := n\<rparr>
      else h)"

definition ForEvent :: "unit result \<Rightarrow> LazyHook EventLifecycle" where
  "ForEvent install = \<lparr>OnFirst = Some (AddListener install), OnLast = Some RemoveListener\<rparr>"

section \<open>A hook with the events it feeds\<close>

record 'h signals =
  sg_hook :: LazyHook
  sg_events :: "nat \<Rightarrow> 'h CallbackRegistry"

definition sig_init :: "'h signals" where
  "sig_init = \<lparr>sg_hook = lh_init, sg_events = (\<lambda>_. reg_init)\<rparr>"

definition sig_subscribe :: "nat \<Rightarrow> 'h option \<Rightarrow> unit result \<Rightarrow> 'h signals \<Rightarrow> nat option \<times> 'h signals" where
  "sig_subscribe k handler install s =
     (case Event_add (ForEvent install) handler (sg_events s k) (sg_hook s) of
        (i, r, h) \<Rightarrow> (i, s\<lparr>sg_hook := h, sg_events := (sg_events s)(k := r)\<rparr>))"

definition sig_drop :: "nat \<Rightarrow> nat \<Rightarrow> 'h signals \<Rightarrow> 'h signals" where
  "sig_drop k i s =
     (case Event_drop (ForEvent (Inr ())) i (sg_events s k) (sg_hook s) of
        (r, h) \<Rightarrow> s\<lparr>sg_hook := h, sg_events := (sg_events s)(k := r)\<rparr>)"

definition sig_scope :: "('h CallbackRegistry \<Rightarrow> 'h CallbackRegistry) \<Rightarrow> nat \<Rightarrow> 'h signals \<Rightarrow> 'h signals" where
  "sig_scope f k s = s\<lparr>sg_events := (sg_events s)(k := f (sg_events s k))\<rparr>"

text \<open>\<^verbatim>\<open>Event::Raise\<close> of event \<open>k\<close>: the dispatch loop, with handlers that act on hook and events.\<close>

definition sig_runs :: "nat \<Rightarrow> 'h signals \<Rightarrow> nat \<Rightarrow> bool" where
  "sig_runs k s i \<longleftrightarrow> \<not> en_Removed (cr_entries (sg_events s k) ! i)"

definition sig_visit :: "nat \<Rightarrow> ('h \<Rightarrow> 'h signals \<Rightarrow> 'h signals) \<Rightarrow> nat \<Rightarrow> 'h signals \<Rightarrow> bool \<times> 'h signals" where
  "sig_visit k run i s = (False, run (en_Item (cr_entries (sg_events s k) ! i)) s)"

definition Event_Raise ::
  "nat \<Rightarrow> ('h \<Rightarrow> 'h signals \<Rightarrow> 'h signals) \<Rightarrow> 'h signals \<Rightarrow> nat list \<times> 'h signals" where
  "Event_Raise k run s =
     (let count = length (cr_entries (sg_events s k)) in
      if count = 0 then ([], s)
      else let w = walk (sig_runs k) (sig_visit k run) 0 count (sig_scope scope_begin k s)
           in (map (\<lambda>i. en_Id (cr_entries (sg_events s k) ! i)) (walk_ran w), sig_scope scope_end k (walk_state w)))"

inductive sig_api :: "'h signals \<Rightarrow> 'h signals \<Rightarrow> bool" where
  sig_refl: "sig_api r r"
| sig_sub: "sig_api r s \<Longrightarrow> sig_api r (snd (sig_subscribe k handler install s))"
| sig_unsub: "sig_api r s \<Longrightarrow> sig_api r (sig_drop k i s)"
| sig_raise: "sig_api r s \<Longrightarrow> sig_api (sig_scope scope_begin k s) t \<Longrightarrow> sig_api r (sig_scope scope_end k t)"

section \<open>The invariant\<close>

definition busy_events :: "'h signals \<Rightarrow> nat set" where
  "busy_events s = {k. \<not> reg_Empty (sg_events s k)}"

definition sig_ok :: "'h signals \<Rightarrow> bool" where
  "sig_ok s \<longleftrightarrow> (\<forall>k. reg_ok (sg_events s k)) \<and> finite (busy_events s) \<and>
     lh_listening (sg_hook s) = int (card (busy_events s)) \<and>
     (lh_hook (sg_hook s) \<longleftrightarrow> busy_events s \<noteq> {})"

lemma busy_upd:
  "busy_events (s\<lparr>sg_hook := h, sg_events := (sg_events s)(k := r)\<rparr>) =
     (if reg_Empty r then busy_events s - {k} else insert k (busy_events s))"
  by (auto simp: busy_events_def)

lemma busy_scope [simp]: "(\<And>r. cr_live (f r) = cr_live r) \<Longrightarrow> busy_events (sig_scope f k s) = busy_events s"
  by (auto simp: busy_events_def sig_scope_def reg_Empty_def)

lemma live_Add [simp]: "\<not> reg_Empty (snd (reg_Add h r))" "reg_Add h r = (i, r') \<Longrightarrow> \<not> reg_Empty r'"
  by (auto simp: reg_Empty_def reg_Add_def)

lemma live_begin [simp]: "cr_live (scope_begin r) = cr_live r"
  by (simp add: scope_begin_def)

lemma mem_busy: "k \<in> busy_events s \<longleftrightarrow> \<not> reg_Empty (sg_events s k)"
  by (simp add: busy_events_def)

lemma sig_ok_init [simp]: "sig_ok sig_init"
  by (simp add: sig_ok_def sig_init_def busy_events_def reg_Empty_def lh_init_def)
    (simp add: reg_init_def)

lemma reg_ok_Add' [simp]: "reg_ok r \<Longrightarrow> reg_Add h r = (i, r') \<Longrightarrow> reg_ok r'"
  by (metis reg_ok_Add snd_conv)

text \<open>Subscribing changes nothing, or stores the handler and counts the event if it was quiet.\<close>

lemma sig_subscribe_cases:
  assumes "sig_ok s"
  obtains (refused) "sig_subscribe k handler install s = (None, s)"
      "handler = None \<or> (\<not> Installed (sg_hook s) \<and> isl install)"
  | (stored) h r' hk where "handler = Some h" "reg_Add h (sg_events s k) = (cr_nextId (sg_events s k), r')"
      "sig_subscribe k handler install s =
         (Some (cr_nextId (sg_events s k)), s\<lparr>sg_hook := hk, sg_events := (sg_events s)(k := r')\<rparr>)"
      "hk = (if reg_Empty (sg_events s k)
             then \<lparr>lh_hook = True, lh_listening = lh_listening (sg_hook s) + 1\<rparr> else sg_hook s)"
      "Installed (sg_hook s) \<or> \<not> isl install"
proof (cases handler)
  case None
  then show thesis using refused by (simp add: sig_subscribe_def Event_add_def)
next
  case (Some h)
  obtain r' where add: "reg_Add h (sg_events s k) = (cr_nextId (sg_events s k), r')"
    by (simp add: reg_Add_def)
  have quiet: "lh_listening (sg_hook s) = 0 \<longleftrightarrow> \<not> lh_hook (sg_hook s)"
    using assms by (auto simp: sig_ok_def)
  have hk: "sg_hook s\<lparr>lh_listening := n\<rparr> = \<lparr>lh_hook = True, lh_listening = n\<rparr>" if "lh_hook (sg_hook s)" for n
    using that by (cases "sg_hook s") simp
  show thesis
  proof (cases "reg_Empty (sg_events s k)")
    case True
    then show thesis
      using Some add quiet hk refused stored[OF Some add]
      by (cases "lh_hook (sg_hook s)"; cases install)
        (auto simp: sig_subscribe_def Event_add_def ForEvent_def AddListener_def Installed_def isl_def)
  next
    case False
    then have "lh_hook (sg_hook s)" using assms by (auto simp: sig_ok_def busy_events_def)
    with False show thesis
      using Some add stored[OF Some add, of "sg_hook s"]
      by (simp add: sig_subscribe_def Event_add_def Installed_def)
  qed
qed

lemma sig_ok_subscribe [simp]:
  assumes ok: "sig_ok s" shows "sig_ok (snd (sig_subscribe k handler install s))"
  using ok
proof (cases rule: sig_subscribe_cases[of s k handler install])
  case (stored h r' hk)
  have "\<not> reg_Empty r'" by (rule live_Add(2)[OF stored(2)])
  moreover have "reg_ok r'" using reg_ok_Add'[OF _ stored(2)] ok by (simp add: sig_ok_def)
  moreover have "k \<in> busy_events s \<longleftrightarrow> \<not> reg_Empty (sg_events s k)" by (rule mem_busy)
  ultimately show ?thesis
    using ok stored(4) by (auto simp: stored(3) sig_ok_def busy_upd card_insert_if)
qed (simp add: ok)

lemma sig_drop_alt:
  "sig_drop k i s =
     (case reg_Remove i (sg_events s k) of (removed, r) \<Rightarrow>
        s\<lparr>sg_hook := (if removed \<and> reg_Empty r then RemoveListener (sg_hook s) else sg_hook s),
          sg_events := (sg_events s)(k := r)\<rparr>)"
  by (simp add: sig_drop_def Event_drop_def ForEvent_def split: prod.split)

lemma reg_Remove_busy:
  assumes "reg_ok r" shows "fst (reg_Remove i r) \<Longrightarrow> \<not> reg_Empty r"
    "\<not> fst (reg_Remove i r) \<Longrightarrow> snd (reg_Remove i r) = r"
proof -
  show "\<not> reg_Empty r" if "fst (reg_Remove i r)"
    using that reg_Remove_live(2)[OF assms, of i] reg_ok_live[OF assms] by (auto simp: reg_Empty_def reg_Size_def)
  show "snd (reg_Remove i r) = r" if "\<not> fst (reg_Remove i r)"
    using that by (auto simp: reg_Remove_def Let_def split: option.splits if_splits)
qed

lemma sig_ok_drop [simp]:
  assumes ok: "sig_ok s" shows "sig_ok (sig_drop k i s)"
proof -
  have r: "reg_ok (sg_events s k)" using ok by (simp add: sig_ok_def)
  obtain removed r' where rm: "reg_Remove i (sg_events s k) = (removed, r')" by fastforce
  have r': "reg_ok r'" using reg_ok_Remove[OF r, of i] by (simp add: rm)
  have busy: "removed \<Longrightarrow> k \<in> busy_events s" "\<not> removed \<Longrightarrow> r' = sg_events s k"
    using reg_Remove_busy[OF r, of i] by (simp_all add: rm mem_busy)
  show ?thesis
  proof (cases "removed \<and> reg_Empty r'")
    case True
    then have "k \<in> busy_events s" and fin: "finite (busy_events s)" using busy ok by (auto simp: sig_ok_def)
    then have "int (card (busy_events s - {k})) = int (card (busy_events s)) - 1" "0 < card (busy_events s)"
      using card_Suc_Diff1[of "busy_events s" k] by auto
    moreover have "busy_events s \<subseteq> {k} \<longleftrightarrow> card (busy_events s) = Suc 0" "busy_events s \<noteq> {}"
      using \<open>k \<in> busy_events s\<close> by (auto simp: card_1_singleton_iff)
    ultimately show ?thesis
      using True ok r' fin
      by (simp add: sig_drop_alt rm sig_ok_def busy_upd RemoveListener_def Let_def)
  next
    case False
    then have "(if reg_Empty r' then busy_events s - {k} else insert k (busy_events s)) = busy_events s"
      using busy by (cases removed) (auto simp: mem_busy)
    with False ok r' show ?thesis by (auto simp: sig_drop_alt rm sig_ok_def busy_upd)
  qed
qed

lemma sig_ok_scope:
  "sig_ok s \<Longrightarrow> sig_ok (sig_scope scope_begin k s)"
  "sig_ok s \<Longrightarrow> 0 < cr_dispatchDepth (sg_events s k) \<Longrightarrow> sig_ok (sig_scope scope_end k s)"
  unfolding sig_ok_def by (simp_all add: busy_scope) (simp_all add: sig_scope_def)

text \<open>Seen from one event, whatever the users of the whole group do is a use of its registry.\<close>

lemma api_Add_pair: "reg_Add h r = (i, r') \<Longrightarrow> api r r'"
  using api_Add[OF api_refl, of r h] by simp

lemma sig_subscribe_event:
  "sig_ok s \<Longrightarrow> api (sg_events s j) (sg_events (snd (sig_subscribe k handler install s)) j)"
  by (cases rule: sig_subscribe_cases[of s k handler install]) (auto simp: api_refl intro: api_Add_pair)

lemma sig_drop_event: "api (sg_events s j) (sg_events (sig_drop k i s) j)"
  using api_Remove[OF api_refl, of "sg_events s k" i] by (auto simp: sig_drop_alt api_refl split: prod.splits)

lemma sig_scope_events:
  "sg_events (sig_scope f k s) j = (if j = k then f (sg_events s k) else sg_events s j)"
  by (simp add: sig_scope_def)

lemma sig_api_ok:
  "sig_api s t \<Longrightarrow> sig_ok s \<Longrightarrow> sig_ok t \<and> (\<forall>j. api (sg_events s j) (sg_events t j))"
proof (induction rule: sig_api.induct)
  case (sig_raise r s k t)
  then have s: "sig_ok s" "\<And>j. api (sg_events r j) (sg_events s j)" by auto
  have t: "sig_ok t" "\<And>j. api (sg_events (sig_scope scope_begin k s) j) (sg_events t j)"
    using sig_raise.IH(2) sig_ok_scope(1)[OF s(1)] by auto
  have "cr_dispatchDepth (sg_events t k) = Suc (cr_dispatchDepth (sg_events s k))"
    using api_ok[OF t(2)[of k]] s(1) by (simp add: sig_scope_events sig_ok_def)
  then have "sig_ok (sig_scope scope_end k t)" using t(1) by (simp add: sig_ok_scope(2))
  moreover have "api (sg_events r j) (sg_events (sig_scope scope_end k t) j)" for j
    using s(2)[of j] t(2)[of j] api_scope[of "sg_events r j" "sg_events s j"]
    by (cases "j = k") (auto simp: sig_scope_events intro: api_trans)
  ultimately show ?case by blast
next
  case (sig_sub r s k handler install)
  then show ?case using sig_ok_subscribe sig_subscribe_event api_trans by meson
next
  case (sig_unsub r s k i)
  then show ?case using sig_ok_drop sig_drop_event api_trans by meson
qed (simp add: api_refl)

lemma sig_api_trans: "sig_api s t \<Longrightarrow> sig_api r s \<Longrightarrow> sig_api r t"
  by (induction rule: sig_api.induct) (auto intro: sig_api.intros)

interpretation event: reentrant_store
  "\<lambda>s. map en_Id (cr_entries (sg_events s k))" "sig_runs k"
  "\<lambda>s. sig_ok s \<and> 0 < cr_dispatchDepth (sg_events s k)" sig_api for k
proof (unfold_locales, goal_cases)
  case (1 s)
  show ?case by (rule sig_refl)
next
  case (2 s t u)
  then show ?case by (blast intro: sig_api_trans)
next
  case (3 s t)
  then show ?case using sig_api_ok[of s t] api_ok[of "sg_events s k" "sg_events t k"] by (auto simp: sig_ok_def)
next
  case (4 s t)
  then show ?case
    using sig_api_ok[of s t] api_kept[of "sg_events s k" "sg_events t k"] by (auto simp: sig_ok_def kept_def)
next
  case (5 s t i)
  then show ?case
    using sig_api_ok[of s t] api_kept[of "sg_events s k" "sg_events t k"]
    by (auto simp: sig_ok_def kept_def sig_runs_def)
qed

lemma sig_visit_well_behaved:
  "(\<And>h s. sig_api s (run h s)) \<Longrightarrow> event.well_behaved (sig_visit k run)"
  by (simp add: event.well_behaved_def sig_visit_def)

lemma Event_Raise_api:
  assumes run: "\<And>h s. sig_api s (run h s)"
  shows "sig_api s (snd (Event_Raise k run s))"
  using sig_raise[OF sig_refl event.walk_effect[OF sig_visit_well_behaved[OF run]]]
  by (simp add: Event_Raise_def Let_def sig_refl)

lemma Event_Raise_live:
  assumes ok: "sig_ok s" and run: "\<And>h s. sig_api s (run h s)"
  shows "sorted_wrt (<) (fst (Event_Raise k run s)) \<and> set (fst (Event_Raise k run s)) \<subseteq> set (live_ids (sg_events s k))"
proof (cases "cr_entries (sg_events s k) = []")
  case False
  define s' where "s' = sig_scope scope_begin k s"
  define w where "w = walk (sig_runs k) (sig_visit k run) 0 (length (cr_entries (sg_events s k))) s'"
  have Raise: "fst (Event_Raise k run s) = map (\<lambda>i. en_Id (cr_entries (sg_events s k) ! i)) (walk_ran w)"
    using False by (simp add: Event_Raise_def Let_def w_def s'_def)
  have wb: "event.well_behaved (sig_visit k run)" by (rule sig_visit_well_behaved[OF run])
  have same: "cr_entries (sg_events s' k) = cr_entries (sg_events s k)" and busy: "sig_ok s'" "0 < cr_dispatchDepth (sg_events s' k)"
    using sig_ok_scope(1)[OF ok] by (auto simp: s'_def sig_scope_events scope_begin_def)
  have range: "set (walk_ran w) \<subseteq> {..<length (cr_entries (sg_events s k))}"
    using walk_ran_range[of "sig_runs k" "sig_visit k run" 0 "length (cr_entries (sg_events s k))" s']
    by (auto simp: w_def)
  have "sorted_wrt (<) (fst (Event_Raise k run s))"
    unfolding Raise using range ok
    by (intro sorted_ids_positions) (auto simp: w_def walk_ran_ascending sig_ok_def reg_ok_sorted)
  moreover have "sig_runs k s' j" if "j \<in> set (walk_ran w)" for j
    using event.walk_ran_alive[OF wb, of s' k 0 "length (cr_entries (sg_events s k))" "sig_runs k" j] that busy
    by (simp add: same w_def)
  then have "set (fst (Event_Raise k run s)) \<subseteq> set (live_ids (sg_events s k))"
    using range by (fastforce simp: Raise live_ids_iff sig_runs_def same)
  ultimately show ?thesis by blast
qed (simp add: Event_Raise_def)

section \<open>Properties\<close>

text \<open>
  C4: after any sequence of subscribing, unsubscribing and raising, from inside handlers too, the hook
  is installed exactly while some event has a live handler, and the listening count is the number of
  such events; a subscription is refused exactly if the handler is empty or the hook is not installed
  and its install fails, and then nothing changes, so that the next subscriber retries.
\<close>

theorem LazyHook_installed_while_used:
  assumes "sig_api sig_init s"
  shows "(Installed (sg_hook s) \<longleftrightarrow> (\<exists>k. live_ids (sg_events s k) \<noteq> [])) \<and>
    lh_listening (sg_hook s) = int (card {k. live_ids (sg_events s k) \<noteq> []}) \<and>
    (fst (sig_subscribe k handler install s) = None \<longleftrightarrow>
       handler = None \<or> \<not> Installed (sg_hook s) \<and> isl install) \<and>
    (fst (sig_subscribe k handler install s) = None \<longrightarrow> snd (sig_subscribe k handler install s) = s)"
proof -
  have ok: "sig_ok s" using sig_api_ok[OF assms] by simp
  have busy: "busy_events s = {k. live_ids (sg_events s k) \<noteq> []}"
    using ok reg_Empty_live by (auto simp: busy_events_def sig_ok_def)
  have "(fst (sig_subscribe k handler install s) = None \<longleftrightarrow>
       handler = None \<or> \<not> Installed (sg_hook s) \<and> isl install) \<and>
    (fst (sig_subscribe k handler install s) = None \<longrightarrow> snd (sig_subscribe k handler install s) = s)"
    using ok by (cases rule: sig_subscribe_cases[of s k handler install]) auto
  with ok show ?thesis unfolding sig_ok_def busy Installed_def by auto
qed

definition example_signals :: "string signals" where
  "example_signals = sig_drop 1 1 (snd (sig_subscribe 2 (Some ''b'') (Inr ())
     (snd (sig_subscribe 1 (Some ''a'') (Inr ()) (snd (sig_subscribe 1 (Some ''x'') (Inl (Error_Engine ''busy'')) sig_init))))))"

lemma example_signals_api: "sig_api sig_init example_signals"
  unfolding example_signals_def by (intro sig_unsub sig_sub sig_refl)

theorem LazyHook_installed_while_used_witness:
  "sig_api sig_init example_signals \<and> Installed (sg_hook example_signals) \<and>
   live_ids (sg_events example_signals 2) = [1] \<and> lh_listening (sg_hook example_signals) = 1 \<and>
   fst (sig_subscribe 3 (Some ''c'') (Inl (Error_Engine ''busy'')) example_signals) \<noteq> None"
proof -
  have "live_ids (sg_events example_signals 2) = [1]" "lh_listening (sg_hook example_signals) = 1" by code_simp+
  then show ?thesis
    using LazyHook_installed_while_used[OF example_signals_api, of 3 "Some ''c''" "Inl (Error_Engine ''busy'')"]
      example_signals_api by (metis list.distinct(1) option.distinct(1))
qed

end
