(* ===== verification/Scheduler.thy ===== *)
theory Scheduler
  imports CallbackRegistry
begin

text \<open>
  One-shot delays and repeating timers. Source: \<^verbatim>\<open>include/VoltMod/Core/Time/Scheduler.hpp\<close> and
  \<^verbatim>\<open>src/Core/Time/Scheduler.cpp\<close>. The monotonic clock is an argument, in milliseconds; what a
  callback does to the scheduler is the function \<open>run\<close>, bounded by \<open>sched_api\<close>: adding and cancelling
  timers.
\<close>

section \<open>State and operations\<close>

record 'c Timer =
  tm_NextFireTime :: int
  tm_Interval :: int
  tm_Callback :: "'c option"
  tm_Id :: nat

type_synonym 'c timers = "'c Timer CallbackRegistry"

definition AddTimer :: "int \<Rightarrow> int \<Rightarrow> 'c option \<Rightarrow> 'c timers \<Rightarrow> nat \<times> 'c timers" where
  "AddTimer nextFireTime interval callback r =
     (case reg_Add \<lparr>tm_NextFireTime = nextFireTime, tm_Interval = interval, tm_Callback = callback, tm_Id = 0\<rparr> r of
        (i, r') \<Rightarrow> (i, reg_Modify i (\<lambda>t. t\<lparr>tm_Id := i\<rparr>) r'))"

definition CancelTimer :: "nat \<Rightarrow> 'c timers \<Rightarrow> 'c timers" where
  "CancelTimer i r = snd (reg_Remove i r)"

definition Delay :: "int \<Rightarrow> int \<Rightarrow> 'c option \<Rightarrow> 'c timers \<Rightarrow> nat \<times> 'c timers" where
  "Delay now delayMs callback r = AddTimer (now + delayMs) 0 callback r"

definition Repeat :: "int \<Rightarrow> int \<Rightarrow> 'c option \<Rightarrow> 'c timers \<Rightarrow> nat \<times> 'c timers" where
  "Repeat now intervalMs callback r = AddTimer (now + intervalMs) intervalMs callback r"

definition NextTick :: "int \<Rightarrow> 'c option \<Rightarrow> 'c timers \<Rightarrow> nat \<times> 'c timers" where
  "NextTick now callback r = Delay now 0 callback r"

definition EveryFrame :: "'c option \<Rightarrow> 'c timers \<Rightarrow> nat \<times> 'c timers" where
  "EveryFrame callback r = AddTimer 0 (-1) callback r"

text \<open>The item behind the reference the dispatch passes to its callback.\<close>

definition timer_ref :: "nat \<Rightarrow> 'c timers \<Rightarrow> 'c Timer option" where
  "timer_ref i r = map_option en_Item (find (\<lambda>e. en_Id e = i) (cr_entries r))"

definition due :: "int \<Rightarrow> 'c Timer \<Rightarrow> bool" where
  "due now t \<longleftrightarrow> now \<ge> tm_NextFireTime t"

definition next_fire :: "int \<Rightarrow> int \<Rightarrow> int" where
  "next_fire now interval = (if interval > 0 then now + interval else now)"

definition finish_timer :: "int \<Rightarrow> 'c Timer \<Rightarrow> nat \<Rightarrow> 'c timers \<Rightarrow> 'c timers" where
  "finish_timer now t i r =
     (if reg_Find (tm_Id t) r = None then r
      else if tm_Interval t \<noteq> 0
           then reg_Modify i (\<lambda>t. t\<lparr>tm_NextFireTime := next_fire now (tm_Interval t)\<rparr>) r
           else snd (reg_Remove (tm_Id t) r))"

definition fire_timer :: "int \<Rightarrow> ('c \<Rightarrow> 'c timers \<Rightarrow> 'c timers) \<Rightarrow> nat \<Rightarrow> 'c timers \<Rightarrow> 'c timers" where
  "fire_timer now run i r =
     (case timer_ref i r of
        None \<Rightarrow> r
      | Some t \<Rightarrow>
          let r' = (case tm_Callback t of None \<Rightarrow> r | Some c \<Rightarrow> run c r)
          in (case timer_ref i r' of None \<Rightarrow> r' | Some t' \<Rightarrow> finish_timer now t' i r'))"

definition OnGameFrame :: "int \<Rightarrow> ('c \<Rightarrow> 'c timers \<Rightarrow> 'c timers) \<Rightarrow> 'c timers \<Rightarrow> nat list \<times> 'c timers" where
  "OnGameFrame now run r = DispatchIf (due now) (fire_timer now run) r"

inductive sched_api :: "'c timers \<Rightarrow> 'c timers \<Rightarrow> bool" where
  sched_refl: "sched_api r r"
| sched_add: "sched_api r s \<Longrightarrow> sched_api r (snd (AddTimer next_time interval callback s))"
| sched_cancel: "sched_api r s \<Longrightarrow> sched_api r (CancelTimer i s)"

section \<open>What a frame can do to the timers\<close>

inductive frame_effect :: "int \<Rightarrow> 'c timers \<Rightarrow> 'c timers \<Rightarrow> bool" for now where
  frame_refl: "frame_effect now r r"
| frame_add: "frame_effect now r s \<Longrightarrow> frame_effect now r (snd (AddTimer next_time interval callback s))"
| frame_cancel: "frame_effect now r s \<Longrightarrow> frame_effect now r (CancelTimer i s)"
| frame_again: "frame_effect now r s \<Longrightarrow>
    frame_effect now r (reg_Modify i (\<lambda>t. t\<lparr>tm_NextFireTime := next_fire now (tm_Interval t)\<rparr>) s)"

lemma sched_frame: "sched_api r s \<Longrightarrow> frame_effect now r s"
  by (induction rule: sched_api.induct) (auto intro: frame_effect.intros)

lemma frame_trans: "frame_effect now s t \<Longrightarrow> frame_effect now r s \<Longrightarrow> frame_effect now r t"
  by (induction rule: frame_effect.induct) (auto intro: frame_effect.intros)

lemma AddTimer_api: "api r s \<Longrightarrow> api r (snd (AddTimer next_time interval callback s))"
  by (simp add: AddTimer_def case_prod_beta api_Modify api_Add)

lemma frame_api: "frame_effect now r s \<Longrightarrow> api r s"
  by (induction rule: frame_effect.induct) (auto simp: CancelTimer_def intro: api.intros AddTimer_api)

lemma fire_timer_effect:
  assumes "\<And>c s. sched_api s (run c s)"
  shows "frame_effect now r (fire_timer now run i r)"
proof -
  have finish: "frame_effect now s (finish_timer now t i s)" for s t
    using frame_again[OF frame_refl, of now s i] frame_cancel[OF frame_refl, of now s "tm_Id t"]
    by (simp add: finish_timer_def CancelTimer_def frame_refl)
  have run: "frame_effect now r (run c r)" for c by (rule sched_frame[OF assms])
  show ?thesis
    by (auto simp: fire_timer_def Let_def frame_refl run split: option.split
        intro: finish frame_trans[OF finish run])
qed

definition sched_ok :: "'c timers \<Rightarrow> bool" where
  "sched_ok r \<longleftrightarrow> reg_ok r \<and> (\<forall>e \<in> set (cr_entries r). tm_Id (en_Item e) = en_Id e)"

definition timer_kept :: "int \<Rightarrow> 'c Timer \<Rightarrow> 'c Timer \<Rightarrow> bool" where
  "timer_kept now t t' \<longleftrightarrow> t' = t \<or> t' = t\<lparr>tm_NextFireTime := next_fire now (tm_Interval t)\<rparr>"


lemma timer_kept_trans: "timer_kept now t u \<Longrightarrow> timer_kept now u v \<Longrightarrow> timer_kept now t v"
  by (auto simp: timer_kept_def)

lemma AddTimer_entries:
  assumes "reg_ok r"
  shows "cr_entries (snd (AddTimer next_time interval callback r)) =
    cr_entries r @ [\<lparr>en_Id = cr_nextId r, en_Item = \<lparr>tm_NextFireTime = next_time, tm_Interval = interval,
      tm_Callback = callback, tm_Id = cr_nextId r\<rparr>, en_Removed = False\<rparr>]"
  using assms by (auto simp: AddTimer_def reg_Add_def reg_Modify_def reg_ok_def intro!: map_idI)

lemma CancelTimer_entries:
  assumes "reg_ok r" "0 < cr_dispatchDepth r"
  shows "map en_Item (cr_entries (CancelTimer i r)) = map en_Item (cr_entries r)"
    "map en_Id (cr_entries (CancelTimer i r)) = map en_Id (cr_entries r)"
  unfolding CancelTimer_def using assms(1)
  by (cases rule: reg_Remove_cases[of r i]; use assms(2) in \<open>simp add: map_update list_update_same_conv\<close>)+

lemma sched_ok_alt: "sched_ok r \<longleftrightarrow> reg_ok r \<and> map (\<lambda>e. tm_Id (en_Item e)) (cr_entries r) = map en_Id (cr_entries r)"
  by (auto simp: sched_ok_def map_eq_conv)

lemma sched_ok_AddTimer: "sched_ok r \<Longrightarrow> sched_ok (snd (AddTimer next_time interval callback r))"
  using api_ok[OF AddTimer_api[OF api_refl], of r] by (auto simp: sched_ok_def AddTimer_entries)

lemma sched_ok_Cancel: "sched_ok r \<Longrightarrow> sched_ok (CancelTimer i r)"
proof -
  assume ok: "sched_ok r"
  then have "reg_ok r" by (simp add: sched_ok_def)
  then have "set (cr_entries (CancelTimer i r)) \<subseteq> set (cr_entries r) \<union> en_Removed_update (\<lambda>_. True) ` set (cr_entries r)"
  proof (cases rule: reg_Remove_cases[of r i])
    case (mark k)
    have "cr_entries r ! k \<in> set (cr_entries r)" using mark(1) by simp
    then show ?thesis
      unfolding CancelTimer_def mark(5) by (auto dest!: subsetD[OF set_update_subset_insert])
  qed (auto simp: CancelTimer_def dest: in_set_takeD in_set_dropD)
  with ok show ?thesis by (auto simp: sched_ok_def CancelTimer_def)
qed

lemma sched_ok_again: "sched_ok r \<Longrightarrow> sched_ok (reg_Modify i (\<lambda>t. t\<lparr>tm_NextFireTime := f t\<rparr>) r)"
  by (auto simp: sched_ok_def) (auto simp: reg_Modify_def)

lemma frame_ok: "frame_effect now s t \<Longrightarrow> sched_ok s \<Longrightarrow> sched_ok t"
  by (induction rule: frame_effect.induct) (auto simp: sched_ok_AddTimer sched_ok_Cancel sched_ok_again)

lemma frame_depth: "frame_effect now s t \<Longrightarrow> sched_ok s \<Longrightarrow> cr_dispatchDepth t = cr_dispatchDepth s"
  using api_ok[OF frame_api] by (auto simp: sched_ok_def)

lemma frame_length: "frame_effect now s t \<Longrightarrow> sched_ok s \<Longrightarrow> 0 < cr_dispatchDepth s \<Longrightarrow>
    length (cr_entries s) \<le> length (cr_entries t)"
  by (meson api_kept frame_api kept_length sched_ok_def)

lemma nth_map_eq: "map f xs = map g ys \<Longrightarrow> i < length xs \<Longrightarrow> f (xs ! i) = g (ys ! i)"
  by (metis length_map nth_map)

lemma CancelTimer_item:
  assumes "reg_ok s" "0 < cr_dispatchDepth s" "j < length (cr_entries s)"
  shows "en_Item (cr_entries (CancelTimer i s) ! j) = en_Item (cr_entries s ! j)"
  using nth_map_eq[OF CancelTimer_entries(1)[OF assms(1,2)]] CancelTimer_entries(2)[OF assms(1,2), of i] assms(3)
  by (metis length_map)

lemma frame_item:
  "frame_effect now s t \<Longrightarrow> sched_ok s \<Longrightarrow> 0 < cr_dispatchDepth s \<Longrightarrow> j < length (cr_entries s) \<Longrightarrow>
     timer_kept now (en_Item (cr_entries s ! j)) (en_Item (cr_entries t ! j))"
proof (induction rule: frame_effect.induct)
  case (frame_refl r)
  then show ?case by (simp add: timer_kept_def)
next
  case (frame_add r s next_time interval callback)
  have "reg_ok s" using frame_ok[OF frame_add.hyps frame_add.prems(1)] by (simp add: sched_ok_def)
  with frame_add frame_length[OF frame_add.hyps] show ?case by (simp add: AddTimer_entries nth_append)
next
  case (frame_cancel r s i)
  have s: "reg_ok s" "0 < cr_dispatchDepth s" "j < length (cr_entries s)"
    using frame_ok[OF frame_cancel.hyps frame_cancel.prems(1)] frame_depth[OF frame_cancel.hyps]
      frame_length[OF frame_cancel.hyps] frame_cancel.prems by (auto simp: sched_ok_def)
  with frame_cancel show ?case by (simp add: CancelTimer_item)
next
  case (frame_again r s i)
  then have "j < length (cr_entries s)" using frame_length[OF frame_again.hyps] by simp
  with frame_again show ?case by (auto simp: reg_Modify_def timer_kept_def)
qed

lemma sched_item:
  "sched_api s t \<Longrightarrow> sched_ok s \<Longrightarrow> 0 < cr_dispatchDepth s \<Longrightarrow> j < length (cr_entries s) \<Longrightarrow>
     en_Item (cr_entries t ! j) = en_Item (cr_entries s ! j)"
proof (induction rule: sched_api.induct)
  case (sched_add r s next_time interval callback)
  note eff = sched_frame[OF sched_add.hyps]
  have "reg_ok s" using frame_ok[OF eff sched_add.prems(1)] by (simp add: sched_ok_def)
  with sched_add frame_length[OF eff] show ?case by (simp add: AddTimer_entries nth_append)
next
  case (sched_cancel r s i)
  note eff = sched_frame[OF sched_cancel.hyps]
  have s: "reg_ok s" "0 < cr_dispatchDepth s" "j < length (cr_entries s)"
    using frame_ok[OF eff sched_cancel.prems(1)] frame_depth[OF eff]
      frame_length[OF eff] sched_cancel.prems by (auto simp: sched_ok_def)
  with sched_cancel show ?case by (simp add: CancelTimer_item)
qed simp


interpretation frame: reentrant_store
  "\<lambda>r. map en_Id (cr_entries r)" "\<lambda>r i. \<not> en_Removed (cr_entries r ! i)"
  "\<lambda>r. sched_ok r \<and> 0 < cr_dispatchDepth r" "frame_effect now" for now
proof (unfold_locales, goal_cases)
  case (1 s)
  show ?case by (rule frame_refl)
next
  case (2 s t u)
  then show ?case by (blast intro: frame_trans)
next
  case (3 s t)
  then show ?case using frame_ok[of now s t] frame_depth[of now s t] by auto
next
  case (4 s t)
  then show ?case using api_kept[OF frame_api, of now s t] by (auto simp: kept_def sched_ok_def)
next
  case (5 s t i)
  then show ?case using api_kept[OF frame_api, of now s t] by (auto simp: kept_def sched_ok_def)
qed

section \<open>One frame\<close>

lemma find_at_id:
  assumes "sorted_wrt (<) (map en_Id xs)" "j < length xs"
  shows "find (\<lambda>e. en_Id e = en_Id (xs ! j)) xs = Some (xs ! j)"
  using sorted_ids_nth[OF assms(1)] assms(2) by (auto simp: find_Some_iff intro!: exI[of _ j])

lemma timer_ref_at: "sched_ok r \<Longrightarrow> j < length (cr_entries r) \<Longrightarrow>
    timer_ref (en_Id (cr_entries r ! j)) r = Some (en_Item (cr_entries r ! j))"
  by (simp add: timer_ref_def find_at_id reg_ok_sorted sched_ok_def)

lemma reg_Find_at: "reg_ok r \<Longrightarrow> j < length (cr_entries r) \<Longrightarrow>
    reg_Find (en_Id (cr_entries r ! j)) r =
      (if en_Removed (cr_entries r ! j) then None else Some (en_Item (cr_entries r ! j)))"
  using reg_Locate_Some[OF reg_ok_sorted, of r "en_Id (cr_entries r ! j)" j] by (simp add: reg_Find_def)

lemma prefix_nth: "prefix xs ys \<Longrightarrow> i < length xs \<Longrightarrow> ys ! i = xs ! i"
  by (auto simp: prefix_def nth_append)

lemma kept_id: "kept s t \<Longrightarrow> j < length (cr_entries s) \<Longrightarrow> en_Id (cr_entries t ! j) = en_Id (cr_entries s ! j)"
  using prefix_nth[of "map en_Id (cr_entries s)" "map en_Id (cr_entries t)" j] kept_length[of s t]
  by (auto simp: kept_def)

lemma frame_kept: "frame_effect now s t \<Longrightarrow> sched_ok s \<Longrightarrow> 0 < cr_dispatchDepth s \<Longrightarrow> kept s t"
  using api_kept[OF frame_api] by (auto simp: sched_ok_def)

text \<open>Firing at position \<open>k\<close> writes no other timer.\<close>

lemma finish_other:
  assumes "sched_ok r" "0 < cr_dispatchDepth r" "k < length (cr_entries r)" "j < length (cr_entries r)" "j \<noteq> k"
  shows "en_Item (cr_entries (finish_timer now t (en_Id (cr_entries r ! k)) r) ! j) = en_Item (cr_entries r ! j)"
proof -
  have "en_Id (cr_entries r ! j) \<noteq> en_Id (cr_entries r ! k)"
    using assms sorted_ids_nth[OF reg_ok_sorted, of r j k] by (simp add: sched_ok_def)
  moreover have "en_Item (cr_entries (snd (reg_Remove i r)) ! j) = en_Item (cr_entries r ! j)" for i
    using CancelTimer_item[of r j i] assms by (simp add: CancelTimer_def sched_ok_def)
  ultimately show ?thesis using assms by (simp add: finish_timer_def reg_Modify_def)
qed

lemma fire_timer_at:
  assumes run: "\<And>c s. sched_api s (run c s)" and ok: "sched_ok r" "0 < cr_dispatchDepth r" and k: "k < length (cr_entries r)"
  obtains s where "sched_api r s" "sched_ok s" "0 < cr_dispatchDepth s" "k < length (cr_entries s)"
    "en_Id (cr_entries s ! k) = en_Id (cr_entries r ! k)"
    "fire_timer now run (en_Id (cr_entries r ! k)) r =
       finish_timer now (en_Item (cr_entries s ! k)) (en_Id (cr_entries s ! k)) s"
proof -
  define s where "s = (case tm_Callback (en_Item (cr_entries r ! k)) of None \<Rightarrow> r | Some c \<Rightarrow> run c r)"
  have api: "sched_api r s" using run sched_refl by (auto simp: s_def split: option.split)
  note eff = sched_frame[OF api, of now]
  have s: "sched_ok s" "0 < cr_dispatchDepth s" "k < length (cr_entries s)"
    using frame_ok[OF eff ok(1)] frame_depth[OF eff ok(1)] frame_length[OF eff ok] ok(2) k by auto
  have same: "en_Id (cr_entries s ! k) = en_Id (cr_entries r ! k)" by (rule kept_id[OF frame_kept[OF eff ok] k])
  have "fire_timer now run (en_Id (cr_entries r ! k)) r =
       finish_timer now (en_Item (cr_entries s ! k)) (en_Id (cr_entries s ! k)) s"
    using timer_ref_at[OF ok(1) k] timer_ref_at[OF s(1,3)]
    by (simp add: fire_timer_def s_def[symmetric] same)
  with that[OF api s same] show thesis by blast
qed

lemma fire_timer_other:
  assumes run: "\<And>c s. sched_api s (run c s)" and ok: "sched_ok r" "0 < cr_dispatchDepth r"
    and "k < length (cr_entries r)" "j < length (cr_entries r)" "j \<noteq> k"
  shows "en_Item (cr_entries (fire_timer now run (en_Id (cr_entries r ! k)) r) ! j) = en_Item (cr_entries r ! j)"
proof -
  obtain s where s: "sched_api r s" "sched_ok s" "0 < cr_dispatchDepth s" "k < length (cr_entries s)"
    and "en_Id (cr_entries s ! k) = en_Id (cr_entries r ! k)" and fire: "fire_timer now run (en_Id (cr_entries r ! k)) r =
       finish_timer now (en_Item (cr_entries s ! k)) (en_Id (cr_entries s ! k)) s"
    by (rule fire_timer_at[OF run ok assms(4), of now])
  have "j < length (cr_entries s)" using frame_length[OF sched_frame[OF s(1)] ok] assms(5) by simp
  then show ?thesis
    using finish_other[OF s(2-4) _ assms(6)] sched_item[OF s(1) ok assms(5)] by (simp add: fire)
qed

text \<open>Afterwards the timer at \<open>k\<close> is gone or set for its next turn.\<close>

definition settled :: "int \<Rightarrow> nat \<Rightarrow> 'c timers \<Rightarrow> bool" where
  "settled now k r \<longleftrightarrow> en_Removed (cr_entries r ! k) \<or>
     tm_Interval (en_Item (cr_entries r ! k)) \<noteq> 0 \<and>
     tm_NextFireTime (en_Item (cr_entries r ! k)) = next_fire now (tm_Interval (en_Item (cr_entries r ! k)))"

lemma finish_settles:
  assumes ok: "sched_ok s" "0 < cr_dispatchDepth s" and k: "k < length (cr_entries s)"
  shows "settled now k (finish_timer now (en_Item (cr_entries s ! k)) (en_Id (cr_entries s ! k)) s)"
proof -
  have id: "tm_Id (en_Item (cr_entries s ! k)) = en_Id (cr_entries s ! k)" using ok k by (simp add: sched_ok_def)
  have reg: "reg_ok s" using ok by (simp add: sched_ok_def)
  have "en_Removed (cr_entries (snd (reg_Remove (en_Id (cr_entries s ! k)) s)) ! k)"
    if "\<not> en_Removed (cr_entries s ! k)"
    using reg_Locate_Some[OF reg_ok_sorted[OF reg], of "en_Id (cr_entries s ! k)" k] that ok k
    by (simp add: reg_Remove_def Let_def)
  then show ?thesis
    using reg_Find_at[OF reg k] k
    by (auto simp: finish_timer_def id settled_def reg_Modify_def split: if_splits)
qed

lemma settled_kept:
  assumes "frame_effect now s t" "sched_ok s" "0 < cr_dispatchDepth s" "k < length (cr_entries s)" "settled now k s"
  shows "settled now k t"
  using assms frame_item[OF assms(1-4)] frame_kept[OF assms(1-3)]
  by (auto simp: settled_def timer_kept_def kept_def)


definition frame_walk :: "int \<Rightarrow> ('c \<Rightarrow> 'c timers \<Rightarrow> 'c timers) \<Rightarrow> 'c timers \<Rightarrow> bool \<times> 'c timers \<times> nat list" where
  "frame_walk now run r =
     walk (entry_runs (due now)) (registry_visit (fire_timer now run)) 0 (length (cr_entries r)) (scope_begin r)"

text \<open>The state at the turn of position \<open>j\<close>, with its timer still as it was when the frame began.\<close>

lemma frame_turn:
  assumes run: "\<And>c s. sched_api s (run c s)" and ok: "sched_ok r" and j: "j < length (cr_entries r)"
  obtains t where "frame_effect now (scope_begin r) t" "sched_ok t" "0 < cr_dispatchDepth t" "j < length (cr_entries t)"
    "en_Id (cr_entries t ! j) = en_Id (cr_entries r ! j)" "en_Item (cr_entries t ! j) = en_Item (cr_entries r ! j)"
    "j \<in> set (walk_ran (frame_walk now run r)) \<longleftrightarrow> entry_runs (due now) t j"
    "frame_effect now (if entry_runs (due now) t j then fire_timer now run (en_Id (cr_entries t ! j)) t else t)
       (walk_state (frame_walk now run r))"
proof -
  define w where "w = frame_walk now run r"
  define P where "P = (\<lambda>t. frame_effect now (scope_begin r) t \<and> en_Item (cr_entries t ! j) = en_Item (cr_entries r ! j))"
  have begin_ok: "sched_ok (scope_begin r)" "0 < cr_dispatchDepth (scope_begin r)" "cr_entries (scope_begin r) = cr_entries r"
    using ok by (auto simp: sched_ok_def scope_begin_def reg_ok_def)
  have state: "sched_ok t" "0 < cr_dispatchDepth t" "length (cr_entries r) \<le> length (cr_entries t)"
    if "frame_effect now (scope_begin r) t" for t
    using frame_ok[OF that begin_ok(1)] frame_depth[OF that begin_ok(1)] frame_length[OF that begin_ok(1,2)] begin_ok
    by auto
  have wb: "frame.well_behaved now (registry_visit (fire_timer now run))"
    by (simp add: frame.well_behaved_def registry_visit_def fire_timer_effect[OF run])
  have "P (snd (registry_visit (fire_timer now run) k t))" if "k < j" "P t" for k t
    using that frame_trans[OF fire_timer_effect[OF run]] state[of t] j
      fire_timer_other[OF run, of t k j now] by (simp add: P_def registry_visit_def)
  then obtain t m where t: "P t" "j \<in> set (walk_ran w) \<longleftrightarrow> entry_runs (due now) t j"
    "walk_state w = walk_state (walk (entry_runs (due now)) (registry_visit (fire_timer now run)) (Suc j) m
       (if entry_runs (due now) t j then snd (registry_visit (fire_timer now run) j t) else t))"
    using walk_turn[of 0 j "length (cr_entries r)" P "scope_begin r" "registry_visit (fire_timer now run)" "entry_runs (due now)"] j
    by (auto simp: w_def frame_walk_def P_def frame_refl begin_ok registry_visit_def)
  have "frame_effect now (if entry_runs (due now) t j then fire_timer now run (en_Id (cr_entries t ! j)) t else t) (walk_state w)"
    unfolding t(3) using frame.walk_effect[OF wb] by (simp add: registry_visit_def)
  moreover have "en_Id (cr_entries t ! j) = en_Id (cr_entries r ! j)"
    using t(1) kept_id[OF frame_kept[OF _ begin_ok(1,2)], of now t j] j by (simp add: P_def begin_ok(3))
  ultimately show thesis using t(1,2) state[of t] j by (intro that[of t]) (simp_all add: P_def w_def)
qed

lemma frame_outcome:
  assumes run: "\<And>c s. sched_api s (run c s)" and ok: "sched_ok r" and j: "j < length (cr_entries r)"
    and w: "w = frame_walk now run r"
  shows "j \<in> set (walk_ran w) \<Longrightarrow> due now (en_Item (cr_entries r ! j)) \<and> settled now j (walk_state w)"
    and "j \<notin> set (walk_ran w) \<Longrightarrow> due now (en_Item (cr_entries r ! j)) \<Longrightarrow> en_Removed (cr_entries (walk_state w) ! j)"
proof -
  obtain t where "frame_effect now (scope_begin r) t" and t: "sched_ok t" "0 < cr_dispatchDepth t" "j < length (cr_entries t)"
    "en_Id (cr_entries t ! j) = en_Id (cr_entries r ! j)" "en_Item (cr_entries t ! j) = en_Item (cr_entries r ! j)"
    and ran: "j \<in> set (walk_ran w) \<longleftrightarrow> entry_runs (due now) t j"
    and rest: "frame_effect now (if entry_runs (due now) t j then fire_timer now run (en_Id (cr_entries t ! j)) t else t) (walk_state w)"
    unfolding w by (rule frame_turn[OF run ok j, of now])
  show "due now (en_Item (cr_entries r ! j)) \<and> settled now j (walk_state w)" if "j \<in> set (walk_ran w)"
  proof -
    obtain s where "sched_api t s" and s: "sched_ok s" "0 < cr_dispatchDepth s" "j < length (cr_entries s)"
      and "en_Id (cr_entries s ! j) = en_Id (cr_entries t ! j)" and fire: "fire_timer now run (en_Id (cr_entries t ! j)) t =
        finish_timer now (en_Item (cr_entries s ! j)) (en_Id (cr_entries s ! j)) s"
      by (rule fire_timer_at[OF run t(1-3), of now])
    have eff: "frame_effect now t (fire_timer now run (en_Id (cr_entries t ! j)) t)" by (rule fire_timer_effect[OF run])
    have "settled now j (fire_timer now run (en_Id (cr_entries t ! j)) t)"
      unfolding fire by (rule finish_settles[OF s])
    moreover have "frame_effect now (fire_timer now run (en_Id (cr_entries t ! j)) t) (walk_state w)"
      using rest ran that by simp
    ultimately have "settled now j (walk_state w)"
      using settled_kept frame_ok[OF eff t(1)] frame_depth[OF eff t(1)] frame_length[OF eff t(1,2)] t(2,3) by fastforce
    then show ?thesis using ran that t by (simp add: entry_runs_def)
  qed
  show "en_Removed (cr_entries (walk_state w) ! j)"
    if "j \<notin> set (walk_ran w)" "due now (en_Item (cr_entries r ! j))"
    using rest ran that t frame_kept[OF rest] by (auto simp: entry_runs_def kept_def)
qed


text \<open>A live handle of the state after the frame, seen in the state its loop ended in.\<close>

lemma reg_Find_Some:
  assumes "reg_ok r"
  shows "reg_Find i r = Some x \<longleftrightarrow>
    (\<exists>j < length (cr_entries r). en_Id (cr_entries r ! j) = i \<and> \<not> en_Removed (cr_entries r ! j) \<and> en_Item (cr_entries r ! j) = x)"
proof (cases "reg_Locate r i")
  case None
  then show ?thesis using reg_Locate_Some[OF reg_ok_sorted[OF assms], of i] by (auto simp: reg_Find_def)
next
  case (Some k)
  then have k: "k < length (cr_entries r)" "en_Id (cr_entries r ! k) = i"
    using reg_Locate_Some[OF reg_ok_sorted[OF assms], of i] by auto
  then have uniq: "j = k" if "j < length (cr_entries r)" "en_Id (cr_entries r ! j) = i" for j
    using sorted_ids_nth[OF reg_ok_sorted[OF assms], of j k] that by blast
  show ?thesis by (simp add: reg_Find_def Some) (use k uniq in blast)
qed

lemma reg_Find_set: "reg_ok r \<Longrightarrow> reg_Find i r = Some x \<longleftrightarrow>
    (\<exists>e \<in> {e \<in> set (cr_entries r). \<not> en_Removed e}. en_Id e = i \<and> en_Item e = x)"
  by (subst reg_Find_Some) (auto simp: in_set_conv_nth)

lemma reg_Find_end:
  assumes ok: "reg_ok r" "0 < cr_dispatchDepth r"
  shows "reg_Find i (scope_end r) = reg_Find i r"
proof -
  have "{e \<in> set (cr_entries (scope_end r)). \<not> en_Removed e} = {e \<in> set (cr_entries r). \<not> en_Removed e}"
    using ok by (cases "cr_dispatchDepth r = 1") (auto simp: scope_end_entries)
  then have "reg_Find i (scope_end r) = Some x \<longleftrightarrow> reg_Find i r = Some x" for x
    using reg_Find_set[OF ok(1), of i x] reg_Find_set[OF reg_ok_end[OF ok], of i x] by simp
  then show ?thesis by (cases "reg_Find i r"; cases "reg_Find i (scope_end r)") auto
qed

lemma frame_walk_facts:
  assumes run: "\<And>c s. sched_api s (run c s)" and ok: "sched_ok r" and w: "w = frame_walk now run r"
  shows "sched_ok (walk_state w)" "0 < cr_dispatchDepth (walk_state w)"
    "kept (scope_begin r) (walk_state w)" "set (walk_ran w) \<subseteq> {..<length (cr_entries r)}"
proof -
  have begin_ok: "sched_ok (scope_begin r)" "0 < cr_dispatchDepth (scope_begin r)"
    using ok by (auto simp: sched_ok_def) (simp add: scope_begin_def)
  have "frame.well_behaved now (registry_visit (fire_timer now run))"
    by (simp add: frame.well_behaved_def registry_visit_def fire_timer_effect[OF run])
  then have eff: "frame_effect now (scope_begin r) (walk_state w)"
    unfolding w frame_walk_def by (rule frame.walk_effect)
  show "sched_ok (walk_state w)" "0 < cr_dispatchDepth (walk_state w)" "kept (scope_begin r) (walk_state w)"
    using frame_ok[OF eff begin_ok(1)] frame_depth[OF eff begin_ok(1)] frame_kept[OF eff begin_ok] begin_ok by auto
  show "set (walk_ran w) \<subseteq> {..<length (cr_entries r)}"
    using walk_ran_range[of "entry_runs (due now)" "registry_visit (fire_timer now run)" 0 "length (cr_entries r)" "scope_begin r"]
    by (auto simp: w frame_walk_def)
qed

lemma sched_ok_end: "sched_ok r \<Longrightarrow> 0 < cr_dispatchDepth r \<Longrightarrow> sched_ok (scope_end r)"
  by (cases "cr_dispatchDepth r = 1") (auto simp: sched_ok_def scope_end_entries)

section \<open>Properties\<close>


text \<open>A one-shot timer, a repeating one that cancels the third, and a third.\<close>

definition example_timers :: "string timers" where
  "example_timers = snd (AddTimer 50 0 (Some ''third'') (snd (Repeat 0 10 (Some ''cancel'')
     (snd (Delay 0 5 (Some ''once'') reg_init)))))"

definition example_run :: "string \<Rightarrow> string timers \<Rightarrow> string timers" where
  "example_run c r = (if c = ''cancel'' then CancelTimer 3 r else r)"


end
