(* ===== verification/CommandSyntax.thy ===== *)
theory CommandSyntax
  imports Strings
begin

text \<open>
  How a chat line is spelled: the prefix, and splitting a line into tokens.
  Source: \<^verbatim>\<open>src/Commands/CommandSyntax.{hpp,cpp}\<close>. The loop's \<open>current\<close>, \<open>quoting\<close> and \<open>started\<close>
  are the arguments of \<open>tokenize\<close>; the tokens pushed so far are what it has already answered.
\<close>

abbreviation backslash :: char where "backslash \<equiv> CHR 0x5C"
abbreviation dquote :: char where "dquote \<equiv> CHR 0x22"

definition ChatPrefix :: string where "ChatPrefix = ''!''"

definition push_token :: "string \<Rightarrow> bool \<Rightarrow> string list" where
  "push_token current started = (if started \<or> current \<noteq> [] then [current] else [])"

function tokenize :: "string \<Rightarrow> bool \<Rightarrow> bool \<Rightarrow> string \<Rightarrow> string list" where
  "tokenize current quoting started [] = push_token current started"
| "tokenize current quoting started (c # rest) =
     (if c = backslash \<and> rest \<noteq> [] \<and> hd rest = dquote then tokenize (current @ [dquote]) quoting True (tl rest)
      else if c = dquote then tokenize current (\<not> quoting) True rest
      else if c = CHR '' '' \<and> \<not> quoting then push_token current started @ tokenize [] quoting False rest
      else tokenize (current @ [c]) quoting started rest)"
  by pat_completeness auto
termination by (relation "measure (\<lambda>(current, quoting, started, rest). length rest)") auto

definition Tokenize :: "string \<Rightarrow> string list" where
  "Tokenize line = tokenize [] False False line"

definition StripPrefix :: "string \<Rightarrow> string option" where
  "StripPrefix message =
     (if length message > length ChatPrefix \<and> StartsWith message ChatPrefix
      then Some (drop (length ChatPrefix) message) else None)"

section \<open>Spelling a token\<close>

text \<open>A token between quotes, with its own quotes escaped.\<close>

definition escape_quotes :: "string \<Rightarrow> string" where
  "escape_quotes word = concat (map (\<lambda>c. if c = dquote then [backslash, dquote] else [c]) word)"

definition spell :: "string \<Rightarrow> string" where
  "spell word = dquote # escape_quotes word @ [dquote]"

lemma hd_escape_quotes: "word \<noteq> [] \<Longrightarrow> hd (escape_quotes word @ rest) \<noteq> dquote"
  by (cases word) (auto simp: escape_quotes_def)

lemma tokenize_escaped:
  "word = [] \<or> last word \<noteq> backslash \<Longrightarrow>
     tokenize current True True (escape_quotes word @ dquote # rest) = tokenize (current @ word) False True rest"
proof (induction word arbitrary: current)
  case Nil
  then show ?case by (simp add: escape_quotes_def)
next
  case (Cons c word)
  have IH: "tokenize cur True True (escape_quotes word @ dquote # rest) = tokenize (cur @ word) False True rest" for cur
    using Cons.prems by (intro Cons.IH) auto
  have "hd (escape_quotes word @ dquote # rest) \<noteq> dquote" if "c = backslash"
    using Cons.prems that hd_escape_quotes[of word "dquote # rest"] by (cases "word = []") auto
  with IH show ?case by (auto simp: escape_quotes_def)
qed

lemma tokenize_spelled:
  assumes "word = [] \<or> last word \<noteq> backslash"
  shows "tokenize [] False False (spell word @ rest) = tokenize word False True rest"
  using tokenize_escaped[OF assms, of "[]" rest] by (simp add: spell_def)

lemma foldl_Join: "foldl (\<lambda>result p. result @ d @ p) a parts = a @ concat (map (\<lambda>p. d @ p) parts)"
  by (induction parts arbitrary: a) simp_all

lemma Join_concat: "Join (part # parts) d = part @ concat (map (\<lambda>p. d @ p) parts)"
  by (simp add: foldl_Join)

lemma tokenize_words:
  assumes "\<forall>w \<in> set words. w = [] \<or> last w \<noteq> backslash"
  shows "tokenize current False True (concat (map (\<lambda>p. '' '' @ spell p) words)) = current # words"
  using assms
proof (induction words arbitrary: current)
  case (Cons w words)
  then show ?case using tokenize_spelled[of w] by (simp add: push_token_def)
qed (simp add: push_token_def)

section \<open>Properties\<close>



end
