(* ===== verification/Targeting.thy ===== *)
theory Targeting
  imports SteamId
begin

text \<open>
  What a target token means, and which players it picks. Sources:
  \<^verbatim>\<open>src/Commands/Targeting.{hpp,cpp}\<close>, \<^verbatim>\<open>include/VoltMod/Engine/Team.hpp\<close>. The random choice is
  an argument, as in the source; \<^verbatim>\<open>int\<close> and \<^verbatim>\<open>int64_t\<close> values are integers kept in range by the
  parsers.
\<close>

datatype Team = Team_None | Spectator | Team_T | Team_CT

record TargetRules =
  AllowMultiple :: bool
  AllowDead :: bool
  AllowBots :: bool

definition default_rules :: TargetRules where
  "default_rules = \<lparr>AllowMultiple = False, AllowDead = True, AllowBots = True\<rparr>"

datatype TargetError = NoMatch | TargetImmune | Ambiguous | MultiNotAllowed | DeadNotAllowed | BotNotAllowed

record TargetFailure =
  tf_Error :: TargetError
  tf_Count :: nat

definition failure :: "TargetError \<Rightarrow> TargetFailure" where
  "failure e = \<lparr>tf_Error = e, tf_Count = 0\<rparr>"

datatype TargetKind = All | Me | NotMe | ByTeam | Dead | Alive | Bots | Humans | Random | RandomTeam
  | BySlot | BySteamId | ByName

record TargetQuery =
  tq_Kind :: TargetKind
  tq_Team :: Team
  tq_Slot :: int
  tq_SteamId :: int
  tq_Needle :: string

definition query :: "TargetKind \<Rightarrow> TargetQuery" where
  "query kind = \<lparr>tq_Kind = kind, tq_Team = Team_None, tq_Slot = -1, tq_SteamId = 0, tq_Needle = []\<rparr>"

text \<open>The fixed selectors, in the order of the source's tests.\<close>

definition selector :: "string \<Rightarrow> TargetQuery option" where
  "selector lower =
     (if lower = ''@all'' \<or> lower = ''@*'' then Some (query All)
      else if lower = ''@me'' then Some (query Me)
      else if lower = ''@!me'' then Some (query NotMe)
      else if lower = ''@t'' then Some ((query ByTeam)\<lparr>tq_Team := Team_T\<rparr>)
      else if lower = ''@ct'' then Some ((query ByTeam)\<lparr>tq_Team := Team_CT\<rparr>)
      else if lower = ''@spec'' then Some ((query ByTeam)\<lparr>tq_Team := Spectator\<rparr>)
      else if lower = ''@dead'' then Some (query Dead)
      else if lower = ''@alive'' then Some (query Alive)
      else if lower = ''@bot'' \<or> lower = ''@bots'' then Some (query Bots)
      else if lower = ''@human'' \<or> lower = ''@humans'' then Some (query Humans)
      else if lower = ''@random'' then Some (query Random)
      else if lower = ''@randomt'' then Some ((query RandomTeam)\<lparr>tq_Team := Team_T\<rparr>)
      else if lower = ''@randomct'' then Some ((query RandomTeam)\<lparr>tq_Team := Team_CT\<rparr>)
      else None)"

definition slot_token :: "string \<Rightarrow> int option" where
  "slot_token raw =
     (if 1 < length raw \<and> hd raw = CHR 0x23
      then (case ParseInt64 (tl raw) of
              Some slot \<Rightarrow> if - int int_max - 1 \<le> slot \<and> slot \<le> int int_max \<and> 0 \<le> slot then Some slot else None
            | None \<Rightarrow> None)
      else None)"

definition steam_token :: "string \<Rightarrow> int option" where
  "steam_token raw =
     (case (if 15 \<le> length raw then (case ParseInt64 raw of
              Some account \<Rightarrow> if IsValid account then Some account else None
            | None \<Rightarrow> None) else None) of
        Some account \<Rightarrow> Some account
      | None \<Rightarrow> (case (if StartsWith raw ''[U:1:'' then FromSteamId3 raw else None) of
          Some account \<Rightarrow> Some account
        | None \<Rightarrow> if StartsWith raw ''STEAM_'' then FromSteamId raw else None))"

definition ParseTargetToken :: "string \<Rightarrow> TargetQuery" where
  "ParseTargetToken raw =
     (let lower = ToLower raw in
      case selector lower of
        Some q \<Rightarrow> q
      | None \<Rightarrow> (case slot_token raw of
          Some slot \<Rightarrow> (query BySlot)\<lparr>tq_Slot := slot\<rparr>
        | None \<Rightarrow> (case steam_token raw of
            Some account \<Rightarrow> (query BySteamId)\<lparr>tq_SteamId := account\<rparr>
          | None \<Rightarrow> (query ByName)\<lparr>tq_Needle := lower\<rparr>)))"

record PlayerView =
  pv_Slot :: int
  pv_SteamId :: int
  pv_Name :: string
  pv_Team :: Team
  pv_Alive :: bool
  pv_Bot :: bool
  pv_Targetable :: bool

text \<open>\<^verbatim>\<open>tier(a) || tier(b) || tier(c)\<close>: the first test that matches anybody.\<close>

definition name_tiers :: "PlayerView list \<Rightarrow> string \<Rightarrow> PlayerView list" where
  "name_tiers players needle =
     (let exact = filter (\<lambda>p. ToLower (pv_Name p) = needle) players;
          starts = filter (\<lambda>p. StartsWith (ToLower (pv_Name p)) needle) players;
          inside = filter (\<lambda>p. find_sub needle (ToLower (pv_Name p)) \<noteq> None) players
      in if exact \<noteq> [] then exact else if starts \<noteq> [] then starts else inside)"

definition candidates :: "PlayerView list \<Rightarrow> TargetQuery \<Rightarrow> int \<Rightarrow> PlayerView list" where
  "candidates players q callerSlot =
     (case tq_Kind q of
        All \<Rightarrow> players
      | Random \<Rightarrow> players
      | Me \<Rightarrow> filter (\<lambda>p. pv_Slot p = callerSlot) players
      | NotMe \<Rightarrow> filter (\<lambda>p. pv_Slot p \<noteq> callerSlot) players
      | ByTeam \<Rightarrow> filter (\<lambda>p. pv_Team p = tq_Team q) players
      | RandomTeam \<Rightarrow> filter (\<lambda>p. pv_Team p = tq_Team q) players
      | Dead \<Rightarrow> filter (\<lambda>p. \<not> pv_Alive p) players
      | Alive \<Rightarrow> filter pv_Alive players
      | Bots \<Rightarrow> filter pv_Bot players
      | Humans \<Rightarrow> filter (\<lambda>p. \<not> pv_Bot p) players
      | BySlot \<Rightarrow> filter (\<lambda>p. pv_Slot p = tq_Slot q) players
      | BySteamId \<Rightarrow> filter (\<lambda>p. pv_SteamId p = tq_SteamId q) players
      | ByName \<Rightarrow> name_tiers players (tq_Needle q))"

text \<open>The filters after the match, with the failure each one reports when it empties the list.\<close>

definition admit :: "TargetRules \<Rightarrow> PlayerView list \<Rightarrow> TargetFailure + PlayerView list" where
  "admit rules found =
     (if found = [] then Inl (failure NoMatch)
      else let humans = (if AllowBots rules then found else filter (\<lambda>p. \<not> pv_Bot p) found)
      in if humans = [] then Inl (failure BotNotAllowed)
      else let living = (if AllowDead rules then humans else filter pv_Alive humans)
      in if living = [] then Inl (failure DeadNotAllowed)
      else let reachable = filter pv_Targetable living
      in if reachable = [] then Inl (failure TargetImmune) else Inr reachable)"

definition FilterPlayers ::
  "PlayerView list \<Rightarrow> TargetQuery \<Rightarrow> TargetRules \<Rightarrow> int \<Rightarrow> (nat \<Rightarrow> nat) option \<Rightarrow> TargetFailure + int list" where
  "FilterPlayers players q rules callerSlot randomIndex =
     (case admit rules (candidates players q callerSlot) of
        Inl e \<Rightarrow> Inl e
      | Inr left \<Rightarrow>
          let chosen = (if tq_Kind q = Random \<or> tq_Kind q = RandomTeam
                        then [left ! (case randomIndex of Some f \<Rightarrow> f (length left) mod length left | None \<Rightarrow> 0)]
                        else left)
          in if 1 < length chosen \<and> \<not> AllowMultiple rules
             then Inl \<lparr>tf_Error = (if tq_Kind q = ByName then Ambiguous else MultiNotAllowed), tf_Count = length chosen\<rparr>
             else Inr (map pv_Slot chosen))"

section \<open>Who is left\<close>

text \<open>What the command's rules allow, and with the policy's verdict who remains of the matches.\<close>

definition permitted :: "TargetRules \<Rightarrow> PlayerView \<Rightarrow> bool" where
  "permitted rules p \<longleftrightarrow> (AllowBots rules \<or> \<not> pv_Bot p) \<and> (AllowDead rules \<or> pv_Alive p)"

definition remaining :: "TargetRules \<Rightarrow> PlayerView list \<Rightarrow> PlayerView list" where
  "remaining rules found = filter (\<lambda>p. permitted rules p \<and> pv_Targetable p) found"

lemma admit_Inr: "admit rules found = Inr left \<longleftrightarrow> left \<noteq> [] \<and> left = remaining rules found"
  unfolding admit_def remaining_def permitted_def Let_def
  by (cases "AllowBots rules"; cases "AllowDead rules") (auto simp: filter_empty_conv conj_commute conj_left_commute)

lemma admit_Inl:
  assumes "admit rules found = Inl e"
  shows "remaining rules found = [] \<and> tf_Count e = 0 \<and> (tf_Error e = NoMatch \<longleftrightarrow> found = []) \<and>
    (tf_Error e = TargetImmune \<longleftrightarrow> filter (permitted rules) found \<noteq> [])"
  using assms unfolding admit_def remaining_def permitted_def Let_def failure_def
  by (cases "AllowBots rules"; cases "AllowDead rules") (auto simp: filter_empty_conv split: if_splits)

lemma FilterPlayers_verdict:
  "let found = candidates players q callerSlot; left = remaining rules found in
   case FilterPlayers players q rules callerSlot randomIndex of
      Inr slots \<Rightarrow> slots \<noteq> [] \<and> (AllowMultiple rules \<or> length slots = 1) \<and>
        (if tq_Kind q = Random \<or> tq_Kind q = RandomTeam then \<exists>p \<in> set left. slots = [pv_Slot p] else slots = map pv_Slot left)
    | Inl e \<Rightarrow>
        (if left = [] then tf_Count e = 0 \<and> (tf_Error e = NoMatch \<longleftrightarrow> found = []) \<and>
             (tf_Error e = TargetImmune \<longleftrightarrow> filter (permitted rules) found \<noteq> [])
         else \<not> AllowMultiple rules \<and> 1 < length left \<and> tf_Count e = length left \<and>
           tf_Error e = (if tq_Kind q = ByName then Ambiguous else MultiNotAllowed))"
proof (cases "admit rules (candidates players q callerSlot)")
  case (Inl e)
  then have "FilterPlayers players q rules callerSlot randomIndex = Inl e" by (simp add: FilterPlayers_def)
  with admit_Inl[OF Inl] show ?thesis by (simp add: Let_def)
next
  case (Inr l)
  define left where "left = remaining rules (candidates players q callerSlot)"
  have l: "l = left" "left \<noteq> []" using Inr by (auto simp: admit_Inr left_def)
  let ?i = "case randomIndex of Some f \<Rightarrow> f (length left) mod length left | None \<Rightarrow> 0"
  have "?i < length left" using l(2) by (cases randomIndex) auto
  then have "left ! ?i \<in> set left" by simp
  moreover have "length left = 1 \<or> 1 < length left" using l(2) by (cases left) auto
  ultimately show ?thesis using l(2) unfolding Let_def left_def[symmetric]
    by (auto simp: FilterPlayers_def Inr l(1) Let_def split: if_splits)
qed

lemma candidates_subset: "set (candidates players q callerSlot) \<subseteq> set players"
  by (auto simp: candidates_def name_tiers_def Let_def split: TargetKind.split)

lemma FilterPlayers_slots:
  assumes "FilterPlayers players q rules callerSlot randomIndex = Inr slots"
  shows "slots \<noteq> [] \<and> set slots \<subseteq> pv_Slot ` set players"
  using FilterPlayers_verdict[of players q callerSlot rules randomIndex] candidates_subset[of players q callerSlot] assms
  by (auto simp: Let_def remaining_def split: if_splits)

section \<open>Properties\<close>


end
