(* ===== verification/Translations.thy ===== *)
theory Translations
  imports Strings Slots Result
begin

text \<open>
  The localized texts of a plugin. Sources: \<^verbatim>\<open>src/Core/Text/Translations.cpp\<close>,
  \<^verbatim>\<open>include/VoltMod/Core/Text/Translations.hpp\<close>. A \<^verbatim>\<open>StringMap\<close> is an ordered map here, so where the
  source leaves the order of languages open it is the order of their codes. The JSON parser and the
  directory listing are arguments; the languages of the players are the host's table (Slots). Log
  lines are not modelled.
\<close>

section \<open>Data\<close>

datatype json = JNull | JBool bool | JNumber string | JString string | JArray "json list"
  | JObject "(string \<times> json) list"

type_synonym Phrases = "(string, string) omap"

record Translations =
  tr_translations :: "(string, Phrases) omap"
  tr_activeLang :: string

definition tr_init :: Translations where
  "tr_init = \<lparr>tr_translations = [], tr_activeLang = ''en''\<rparr>"

text \<open>A directory entry: extension, stem and, when it can be read, the text.\<close>

record LanguageFile =
  lf_Extension :: string
  lf_Stem :: string
  lf_Text :: "string option"

section \<open>Loading\<close>

fun FlattenInto :: "json \<Rightarrow> string \<Rightarrow> Phrases \<Rightarrow> Phrases"
  and flatten_members :: "(string \<times> json) list \<Rightarrow> string \<Rightarrow> Phrases \<Rightarrow> Phrases" where
  "FlattenInto (JObject members) pre out = flatten_members members pre out"
| "FlattenInto JNull pre out = out"
| "FlattenInto (JBool b) pre out = out"
| "FlattenInto (JNumber n) pre out = out"
| "FlattenInto (JString s) pre out = out"
| "FlattenInto (JArray values) pre out = out"
| "flatten_members [] pre out = out"
| "flatten_members ((key, value) # members) pre out =
     (let full = (if pre = [] then key else pre @ ''.'' @ key)
      in flatten_members members pre
           (case value of
              JString s \<Rightarrow> omap_assign full s out
            | JObject inner \<Rightarrow> FlattenInto (JObject inner) full out
            | _ \<Rightarrow> out))"

definition KitDefaults :: "(string \<times> string) list" where
  "KitDefaults =
     [(''cmd.noPermission'', ''You do not have permission to use this command.''),
      (''cmd.tooManyArgs'', ''Too many arguments. Usage: {usage}''),
      (''cmd.usage'', ''Usage: {usage}''),
      (''cmd.usage.target'', ''target''),
      (''cmd.usage.targets'', ''targets''),
      (''cmd.usage.duration'', ''duration''),
      (''cmd.usage.steamId'', ''steamId''),
      (''cmd.usage.playerOrSteamId'', ''target|steamId''),
      (''cmd.usage.int'', ''number''),
      (''cmd.usage.u64'', ''id''),
      (''cmd.usage.word'', ''value''),
      (''cmd.usage.rest'', ''reason''),
      (''cmd.badDuration'', ''Invalid duration. Use minutes (e.g. 30), 30s/5m/2h/7d, or '' @ [CHR 0x27] @ ''perm'' @ [CHR 0x27] @ ''.''),
      (''cmd.badSteamId'', '''' @ [CHR 0x27] @ ''{token}'' @ [CHR 0x27] @ '' is not a valid SteamID64.''),
      (''cmd.badNumber'', '''' @ [CHR 0x27] @ ''{token}'' @ [CHR 0x27] @ '' is not a valid number.''),
      (''target.noMatch'', ''No player matches '' @ [CHR 0x27] @ ''{token}'' @ [CHR 0x27] @ ''.''),
      (''target.immune'', '''' @ [CHR 0x27] @ ''{token}'' @ [CHR 0x27] @ '' is immune to that.''),
      (''target.ambiguous'', '''' @ [CHR 0x27] @ ''{token}'' @ [CHR 0x27] @ '' matches {count} players - be more specific.''),
      (''target.dead'', '''' @ [CHR 0x27] @ ''{token}'' @ [CHR 0x27] @ '' is not alive.''),
      (''target.bot'', '''' @ [CHR 0x27] @ ''{token}'' @ [CHR 0x27] @ '' is a bot.''),
      (''menu.stepFailed'', ''That menu could not be opened.''),
      (''menu.on'', ''ON''),
      (''menu.off'', ''OFF''),
      (''menu.confirm'', ''Confirm''),
      (''menu.cancel'', ''Cancel''),
      (''language.en'', ''English''),
      (''language.ru'', ''Russian'')]"

definition phrases_of :: "string \<Rightarrow> (string, Phrases) omap \<Rightarrow> Phrases" where
  "phrases_of lang table = (case map_of table lang of Some phrases \<Rightarrow> phrases | None \<Rightarrow> [])"

fun load_files :: "(string \<Rightarrow> json result) \<Rightarrow> LanguageFile list \<Rightarrow> nat \<times> (string, Phrases) omap \<Rightarrow> nat \<times> (string, Phrases) omap" where
  "load_files parse [] st = st"
| "load_files parse (entry # entries) (loaded, table) =
     load_files parse entries
       (if lf_Extension entry \<noteq> ''.json'' then (loaded, table)
        else case lf_Text entry of
               None \<Rightarrow> (loaded, table)
             | Some txt \<Rightarrow> (case parse txt of
                 Inl e \<Rightarrow> (loaded, table)
               | Inr doc \<Rightarrow> (loaded + 1, omap_assign (lf_Stem entry) (FlattenInto doc [] (phrases_of (lf_Stem entry) table)) table)))"

text \<open>\<open>None\<close>: there is no such directory.\<close>

definition tr_Load :: "(string \<Rightarrow> json result) \<Rightarrow> LanguageFile list option \<Rightarrow> Translations \<Rightarrow> bool \<times> Translations" where
  "tr_Load parse dir tr =
     (case dir of
        None \<Rightarrow> (False, tr\<lparr>tr_translations := []\<rparr>)
      | Some entries \<Rightarrow> (case load_files parse entries (0, []) of
          (loaded, table) \<Rightarrow> (0 < loaded, tr\<lparr>tr_translations := table\<rparr>)))"

definition tr_SetLanguage :: "string \<Rightarrow> Translations \<Rightarrow> Translations" where
  "tr_SetLanguage lang tr = tr\<lparr>tr_activeLang := lang\<rparr>"

definition GetAvailableLanguages :: "Translations \<Rightarrow> string list" where
  "GetAvailableLanguages tr = map fst (tr_translations tr)"

section \<open>Looking up\<close>

definition LookupIn :: "Translations \<Rightarrow> string \<Rightarrow> string \<Rightarrow> string option" where
  "LookupIn tr lang key =
     (case map_of (tr_translations tr) lang of None \<Rightarrow> None | Some phrases \<Rightarrow> map_of phrases key)"

definition first_some :: "('a \<Rightarrow> 'b option) \<Rightarrow> 'a list \<Rightarrow> 'b option" where
  "first_some f xs = (case List.find (\<lambda>x. f x \<noteq> None) xs of None \<Rightarrow> None | Some x \<Rightarrow> f x)"

definition tr_Resolve :: "Translations \<Rightarrow> string PerSlot \<Rightarrow> string \<Rightarrow> int \<Rightarrow> string option" where
  "tr_Resolve tr languages key slot =
     (let picked = Language languages slot;
          lang = (if picked = [] then tr_activeLang tr else picked)
      in case first_some (\<lambda>candidate. LookupIn tr candidate key) [lang, tr_activeLang tr, ''en''] of
           Some v \<Rightarrow> Some v
         | None \<Rightarrow> map_of KitDefaults key)"

definition tr_Get :: "Translations \<Rightarrow> string PerSlot \<Rightarrow> string \<Rightarrow> int \<Rightarrow> string" where
  "tr_Get tr languages key slot = (case tr_Resolve tr languages key slot of Some v \<Rightarrow> v | None \<Rightarrow> key)"

definition tr_GetOr :: "Translations \<Rightarrow> string PerSlot \<Rightarrow> string \<Rightarrow> int \<Rightarrow> string \<Rightarrow> string" where
  "tr_GetOr tr languages key slot fallback = (case tr_Resolve tr languages key slot of Some v \<Rightarrow> v | None \<Rightarrow> fallback)"

definition tr_GetTokens :: "Translations \<Rightarrow> string PerSlot \<Rightarrow> string \<Rightarrow> int \<Rightarrow> tokens \<Rightarrow> string" where
  "tr_GetTokens tr languages key slot tokens = SubstituteTokens (tr_Get tr languages key slot) tokens"

section \<open>What a document says\<close>

text \<open>The string leaves of a document with their dotted paths, in the order of the document.\<close>

fun leaves :: "json \<Rightarrow> string \<Rightarrow> (string \<times> string) list"
  and member_leaves :: "(string \<times> json) list \<Rightarrow> string \<Rightarrow> (string \<times> string) list" where
  "leaves (JObject members) pre = member_leaves members pre"
| "leaves JNull pre = []"
| "leaves (JBool b) pre = []"
| "leaves (JNumber n) pre = []"
| "leaves (JString s) pre = [(pre, s)]"
| "leaves (JArray values) pre = []"
| "member_leaves [] pre = []"
| "member_leaves ((key, value) # members) pre =
     leaves value (if pre = [] then key else pre @ ''.'' @ key) @ member_leaves members pre"

definition document_leaves :: "json \<Rightarrow> (string \<times> string) list" where
  "document_leaves doc = (case doc of JObject members \<Rightarrow> member_leaves members [] | _ \<Rightarrow> [])"

lemma flatten_members_fold:
  "FlattenInto doc pre out = (case doc of JObject members \<Rightarrow> fold (\<lambda>(k, v). omap_assign k v) (leaves doc pre) out | _ \<Rightarrow> out)"
  "flatten_members members pre out = fold (\<lambda>(k, v). omap_assign k v) (member_leaves members pre) out"
proof (induction doc pre out and members pre out rule: FlattenInto_flatten_members.induct)
  case (8 key item members pre out)
  show ?case using 8 by (cases item) (simp_all add: Let_def)
qed simp_all

lemma FlattenInto_fold: "FlattenInto doc [] out = fold (\<lambda>(k, v). omap_assign k v) (document_leaves doc) out"
  by (cases doc) (simp_all add: document_leaves_def flatten_members_fold)

lemma FlattenInto_lookup:
  assumes "omap_ok out"
  shows "omap_ok (FlattenInto doc [] out)" "map_of (FlattenInto doc [] out) = map_of out ++ map_of (rev (document_leaves doc))"
  using omap.fold_assign[OF assms, of "document_leaves doc"] by (simp_all add: FlattenInto_fold)

text \<open>The documents a directory contributes: readable, well-formed, with the right extension.\<close>

definition documents :: "(string \<Rightarrow> json result) \<Rightarrow> LanguageFile list \<Rightarrow> (string \<times> json) list" where
  "documents parse entries = List.map_filter (\<lambda>entry.
     if lf_Extension entry \<noteq> ''.json'' then None
     else case lf_Text entry of None \<Rightarrow> None
          | Some txt \<Rightarrow> (case parse txt of Inl e \<Rightarrow> None | Inr doc \<Rightarrow> Some (lf_Stem entry, doc))) entries"

definition add_document :: "string \<times> json \<Rightarrow> (string, Phrases) omap \<Rightarrow> (string, Phrases) omap" where
  "add_document d table = omap_assign (fst d) (FlattenInto (snd d) [] (phrases_of (fst d) table)) table"

lemma load_files_documents:
  "load_files parse entries (loaded, table) =
     (loaded + length (documents parse entries), fold add_document (documents parse entries) table)"
proof (induction entries arbitrary: loaded table)
  case (Cons entry entries)
  then show ?case
    by (simp add: documents_def List.map_filter_simps add_document_def split: option.split sum.split)
qed (simp add: documents_def List.map_filter_simps)

definition table_ok :: "(string, Phrases) omap \<Rightarrow> bool" where
  "table_ok table \<longleftrightarrow> omap_ok table \<and> (\<forall>lang phrases. map_of table lang = Some phrases \<longrightarrow> omap_ok phrases)"

text \<open>The last leaf with this path in the last document of this language that has one.\<close>

fun said :: "(string \<times> json) list \<Rightarrow> string \<Rightarrow> string \<Rightarrow> string option" where
  "said [] lang key = None"
| "said (d # docs) lang key =
     (case said docs lang key of
        Some s \<Rightarrow> Some s
      | None \<Rightarrow> if fst d = lang then map_of (rev (document_leaves (snd d))) key else None)"

definition lookup_table :: "(string, Phrases) omap \<Rightarrow> string \<Rightarrow> string \<Rightarrow> string option" where
  "lookup_table table lang key = (case map_of table lang of None \<Rightarrow> None | Some phrases \<Rightarrow> map_of phrases key)"

lemma add_document_lookup:
  assumes "table_ok table"
  shows "table_ok (add_document d table)"
    "lookup_table (add_document d table) lang key =
       (case (if fst d = lang then map_of (rev (document_leaves (snd d))) key else None) of
          Some s \<Rightarrow> Some s | None \<Rightarrow> lookup_table table lang key)"
proof -
  have ok: "omap_ok table" and phrases: "omap_ok (phrases_of (fst d) table)"
    using assms by (auto simp: table_ok_def phrases_of_def split: option.split)
  note f = FlattenInto_lookup[OF phrases, of "snd d"]
  show "table_ok (add_document d table)"
    using assms ok f(1) by (auto simp: table_ok_def add_document_def)
  show "lookup_table (add_document d table) lang key =
       (case (if fst d = lang then map_of (rev (document_leaves (snd d))) key else None) of
          Some s \<Rightarrow> Some s | None \<Rightarrow> lookup_table table lang key)"
    using ok f(2) by (auto simp: lookup_table_def add_document_def phrases_of_def map_add_def split: option.split)
qed

lemma fold_documents_lookup:
  "table_ok table \<Longrightarrow> lookup_table (fold add_document docs table) lang key =
     (case said docs lang key of Some s \<Rightarrow> Some s | None \<Rightarrow> lookup_table table lang key)"
  by (induction docs arbitrary: table) (simp_all add: add_document_lookup split: option.split)

section \<open>Properties\<close>

text \<open>
  C14: after loading a directory, a text is looked up in the language the player picked, then the active
  one, then English; within a language it is the last string leaf with that dotted path in the documents
  that parsed, arrays and numbers ignored; without one the framework's own text serves, and without that
  the key itself. Files that are unreadable or malformed change nothing.
\<close>

theorem Translations_Get:
  fixes tr :: Translations and entries :: "LanguageFile list"
  shows "let tr' = snd (tr_Load parse (Some entries) tr); docs = documents parse entries; picked = Language languages slot in
    (fst (tr_Load parse (Some entries) tr) \<longleftrightarrow> docs \<noteq> []) \<and>
    tr_Get tr' languages key slot =
      (case said docs (if picked = [] then tr_activeLang tr else picked) key of Some s \<Rightarrow> s
       | None \<Rightarrow> (case said docs (tr_activeLang tr) key of Some s \<Rightarrow> s
         | None \<Rightarrow> (case said docs ''en'' key of Some s \<Rightarrow> s
           | None \<Rightarrow> (case map_of KitDefaults key of Some s \<Rightarrow> s | None \<Rightarrow> key))))"
proof -
  define tr' where "tr' = snd (tr_Load parse (Some entries) tr)"
  have tr': "tr' = tr\<lparr>tr_translations := fold add_document (documents parse entries) []\<rparr>"
    "fst (tr_Load parse (Some entries) tr) = (documents parse entries \<noteq> [])"
    by (simp_all add: tr'_def tr_Load_def load_files_documents)
  have "LookupIn tr' lang key = said (documents parse entries) lang key" for lang
    using fold_documents_lookup[of "[]" "documents parse entries" lang key]
    by (simp add: tr'(1) LookupIn_def lookup_table_def[symmetric] table_ok_def) (simp add: lookup_table_def split: option.split)
  then show ?thesis
    by (simp add: tr'_def[symmetric] tr'(2) tr_Get_def tr_Resolve_def first_some_def Let_def split: option.split)
      (simp add: tr'(1))
qed

end
