(* ===== verification/Players.thy ===== *)
theory Players
  imports Prelude Result
begin

text \<open>
  The roster of connected players and the permission gate. Sources:
  \<^verbatim>\<open>src/Players/{PlayerManager,Policy}.cpp\<close>, \<^verbatim>\<open>include/VoltMod/Players/{PlayerManager,Player,PlayerRef,Policy}.hpp\<close>.
  A \<^verbatim>\<open>Player\<close> object is named by an id that never repeats, so a \<^verbatim>\<open>Player*\<close> kept by an index is the id and may
  dangle. The maps are ordered here; only \<^verbatim>\<open>Clear\<close> and \<^verbatim>\<open>Reindex\<close> walk them, and both sort. What the handlers
  of the signals do to the roster is the argument \<open>h\<close>; \<open>pm_log\<close> records the signals raised, in order, for
  the statements. Clocks and the entity wrappers are left out.
\<close>

section \<open>The roster\<close>

record Player =
  pl_Id :: nat
  pl_Slot :: int
  pl_SteamId :: int
  pl_ConnectName :: string
  pl_Ip :: string

record PlayerRef =
  ref_Slot :: int
  ref_SteamId :: int

datatype RosterSignal = Connected Player | Disconnected Player | FullyConnected Player | SettingsChanged Player
  | SlotChanged int | SlotFullyConnected int

record PlayerManager =
  pm_bySlot :: "(int, Player) omap"
  pm_bySteamId :: "(int, nat) omap"
  pm_ordered :: "nat list"
  pm_NextId :: nat
  pm_log :: "RosterSignal list"

type_synonym roster_handlers = "RosterSignal \<Rightarrow> PlayerManager \<Rightarrow> PlayerManager"

definition pm_init :: PlayerManager where
  "pm_init = \<lparr>pm_bySlot = [], pm_bySteamId = [], pm_ordered = [], pm_NextId = 0, pm_log = []\<rparr>"

definition IsBot :: "Player \<Rightarrow> bool" where
  "IsBot p \<longleftrightarrow> pl_SteamId p = 0"

definition Ref :: "Player \<Rightarrow> PlayerRef" where
  "Ref p = \<lparr>ref_Slot = pl_Slot p, ref_SteamId = pl_SteamId p\<rparr>"

definition raise_signal :: "roster_handlers \<Rightarrow> RosterSignal \<Rightarrow> PlayerManager \<Rightarrow> PlayerManager" where
  "raise_signal h sig pm = h sig (pm\<lparr>pm_log := pm_log pm @ [sig]\<rparr>)"

definition players :: "PlayerManager \<Rightarrow> Player list" where
  "players pm = map snd (pm_bySlot pm)"

definition IndexBySteamId :: "Player \<Rightarrow> PlayerManager \<Rightarrow> PlayerManager" where
  "IndexBySteamId p pm =
     (if IsBot p then pm else pm\<lparr>pm_bySteamId := omap_assign (pl_SteamId p) (pl_Id p) (pm_bySteamId pm)\<rparr>)"

definition UnindexBySteamId :: "Player \<Rightarrow> PlayerManager \<Rightarrow> PlayerManager" where
  "UnindexBySteamId p pm =
     (if IsBot p then pm
      else if map_of (pm_bySteamId pm) (pl_SteamId p) = Some (pl_Id p)
      then pm\<lparr>pm_bySteamId := omap_erase (pl_SteamId p) (pm_bySteamId pm)\<rparr> else pm)"

definition Reindex :: "PlayerManager \<Rightarrow> PlayerManager" where
  "Reindex pm = pm\<lparr>pm_ordered := map pl_Id (sort_key pl_Slot (players pm))\<rparr>"

definition Drop :: "roster_handlers \<Rightarrow> int \<Rightarrow> PlayerManager \<Rightarrow> PlayerManager" where
  "Drop h slot pm =
     (case map_of (pm_bySlot pm) slot of
        None \<Rightarrow> pm
      | Some leaving \<Rightarrow>
          let pm1 = raise_signal h (Disconnected leaving) pm
          in case map_of (pm_bySlot pm1) slot of
               None \<Rightarrow> pm1
             | Some found \<Rightarrow>
                 let pm2 = UnindexBySteamId found pm1
                 in Reindex (pm2\<lparr>pm_bySlot := omap_erase slot (pm_bySlot pm2)\<rparr>))"

definition AddPlayer :: "roster_handlers \<Rightarrow> int \<Rightarrow> int \<Rightarrow> string \<Rightarrow> string \<Rightarrow> PlayerManager \<Rightarrow> Player \<times> PlayerManager" where
  "AddPlayer h slot steamId name ip pm =
     (let pm1 = Drop h slot pm;
          player = \<lparr>pl_Id = pm_NextId pm1, pl_Slot = slot, pl_SteamId = steamId, pl_ConnectName = name, pl_Ip = ip\<rparr>;
          pm2 = Reindex (IndexBySteamId player
                  (pm1\<lparr>pm_bySlot := omap_assign slot player (pm_bySlot pm1), pm_NextId := pm_NextId pm1 + 1\<rparr>))
      in (player, raise_signal h (Connected player) (raise_signal h (SlotChanged slot) pm2)))"

definition RemovePlayer :: "roster_handlers \<Rightarrow> int \<Rightarrow> PlayerManager \<Rightarrow> PlayerManager" where
  "RemovePlayer h slot pm =
     (if map_of (pm_bySlot pm) slot = None then pm else raise_signal h (SlotChanged slot) (Drop h slot pm))"

definition ClearPlayers :: "roster_handlers \<Rightarrow> PlayerManager \<Rightarrow> PlayerManager" where
  "ClearPlayers h pm =
     (let slots = sort (map fst (pm_bySlot pm));
          pm1 = fold (Drop h) slots pm;
          pm2 = pm1\<lparr>pm_bySlot := [], pm_bySteamId := [], pm_ordered := []\<rparr>
      in fold (\<lambda>slot. raise_signal h (SlotChanged slot)) slots pm2)"

definition GetSlot :: "PlayerManager \<Rightarrow> int \<Rightarrow> Player option" where
  "GetSlot pm slot = map_of (pm_bySlot pm) slot"

definition GetRef :: "PlayerManager \<Rightarrow> PlayerRef \<Rightarrow> Player option" where
  "GetRef pm ref = (case GetSlot pm (ref_Slot ref) of
     Some p \<Rightarrow> if pl_SteamId p = ref_SteamId ref then Some p else None
   | None \<Rightarrow> None)"

text \<open>Reading through a kept \<^verbatim>\<open>Player*\<close>: \<open>None\<close> when the object is gone.\<close>

definition deref :: "PlayerManager \<Rightarrow> nat \<Rightarrow> Player option" where
  "deref pm ident = List.find (\<lambda>p. pl_Id p = ident) (players pm)"

definition PlayerBySteamId :: "PlayerManager \<Rightarrow> int \<Rightarrow> Player option" where
  "PlayerBySteamId pm steamId = (case map_of (pm_bySteamId pm) steamId of None \<Rightarrow> None | Some ident \<Rightarrow> deref pm ident)"

definition AllPlayers :: "PlayerManager \<Rightarrow> Player option list" where
  "AllPlayers pm = map (deref pm) (pm_ordered pm)"

definition RefFor :: "PlayerManager \<Rightarrow> int \<Rightarrow> PlayerRef" where
  "RefFor pm slot = (case GetSlot pm slot of Some p \<Rightarrow> Ref p | None \<Rightarrow> \<lparr>ref_Slot = -1, ref_SteamId = 0\<rparr>)"

definition pm_OnClientFullyConnected :: "roster_handlers \<Rightarrow> int \<Rightarrow> PlayerManager \<Rightarrow> PlayerManager" where
  "pm_OnClientFullyConnected h slot pm =
     (case GetSlot pm slot of None \<Rightarrow> pm
      | Some p \<Rightarrow> raise_signal h (FullyConnected p) (raise_signal h (SlotFullyConnected slot) pm))"

definition pm_OnClientSettingsChanged :: "roster_handlers \<Rightarrow> int \<Rightarrow> PlayerManager \<Rightarrow> PlayerManager" where
  "pm_OnClientSettingsChanged h slot pm =
     (case GetSlot pm slot of None \<Rightarrow> pm | Some p \<Rightarrow> raise_signal h (SettingsChanged p) pm)"

section \<open>The invariant\<close>

definition roster_ok :: "PlayerManager \<Rightarrow> bool" where
  "roster_ok pm \<longleftrightarrow> omap_ok (pm_bySlot pm) \<and> omap_ok (pm_bySteamId pm) \<and>
     (\<forall>(slot, p) \<in> set (pm_bySlot pm). pl_Slot p = slot \<and> pl_Id p < pm_NextId pm) \<and>
     distinct (map pl_Id (players pm)) \<and> pm_ordered pm = map pl_Id (players pm) \<and>
     (\<forall>(steamId, ident) \<in> set (pm_bySteamId pm).
        steamId \<noteq> 0 \<and> (\<exists>p \<in> set (players pm). pl_Id p = ident \<and> pl_SteamId p = steamId))"

text \<open>What handlers can do to a roster: its own operations, with handlers that do the same.\<close>

inductive roster_api :: "PlayerManager \<Rightarrow> PlayerManager \<Rightarrow> bool" where
  roster_refl: "roster_api r r"
| roster_Add: "roster_api r s \<Longrightarrow> (\<And>sig x. roster_api x (h sig x)) \<Longrightarrow> roster_api r (snd (AddPlayer h slot steamId name ip s))"
| roster_Remove: "roster_api r s \<Longrightarrow> (\<And>sig x. roster_api x (h sig x)) \<Longrightarrow> roster_api r (RemovePlayer h slot s)"
| roster_Clear: "roster_api r s \<Longrightarrow> (\<And>sig x. roster_api x (h sig x)) \<Longrightarrow> roster_api r (ClearPlayers h s)"
| roster_Fully: "roster_api r s \<Longrightarrow> (\<And>sig x. roster_api x (h sig x)) \<Longrightarrow> roster_api r (pm_OnClientFullyConnected h slot s)"
| roster_Settings: "roster_api r s \<Longrightarrow> (\<And>sig x. roster_api x (h sig x)) \<Longrightarrow> roster_api r (pm_OnClientSettingsChanged h slot s)"

lemma roster_ok_log [simp]: "roster_ok (pm\<lparr>pm_log := signals\<rparr>) = roster_ok pm"
  by (simp add: roster_ok_def players_def)

lemma roster_sorted: "roster_ok pm \<Longrightarrow> sorted (map pl_Slot (players pm))"
proof -
  assume ok: "roster_ok pm"
  have "map pl_Slot (players pm) = map fst (pm_bySlot pm)"
    using ok by (auto simp: roster_ok_def players_def)
  then show ?thesis using ok omap_ok_sorted[of "pm_bySlot pm"] by (simp add: roster_ok_def)
qed

lemma roster_ok_erase:
  assumes ok: "roster_ok pm" and found: "map_of (pm_bySlot pm) slot = Some p"
  shows "roster_ok (Reindex ((UnindexBySteamId p pm)\<lparr>pm_bySlot := omap_erase slot (pm_bySlot (UnindexBySteamId p pm))\<rparr>))"
proof -
  define idx where "idx = pm_bySteamId (UnindexBySteamId p pm)"
  define pm' where "pm' = (UnindexBySteamId p pm)\<lparr>pm_bySlot := omap_erase slot (pm_bySlot (UnindexBySteamId p pm))\<rparr>"
  have f: "pm_bySlot pm' = omap_erase slot (pm_bySlot pm)" "pm_bySteamId pm' = idx" "pm_NextId pm' = pm_NextId pm"
    by (auto simp: pm'_def idx_def UnindexBySteamId_def)
  have p: "(slot, p) \<in> set (pm_bySlot pm)" using found by (rule map_of_SomeD)
  have keys: "distinct (map fst (pm_bySlot pm))" using ok omap_ok_distinct[of "pm_bySlot pm"] by (simp add: roster_ok_def)
  have ids: "distinct (map (pl_Id \<circ> snd) (pm_bySlot pm))" using ok by (simp add: roster_ok_def players_def)
  have idx_ok: "omap_ok idx" using ok by (auto simp: idx_def UnindexBySteamId_def roster_ok_def)
  have slots: "\<forall>(k, q) \<in> set (pm_bySlot pm'). pl_Slot q = k \<and> pl_Id q < pm_NextId pm'"
    using ok by (auto simp: f set_omap_erase roster_ok_def)
  have "distinct (map pl_Id (players pm'))"
    using ids by (simp add: players_def f omap_erase_def distinct_map_filter)
  moreover have "sorted (map pl_Slot (players pm'))"
  proof -
    have "map pl_Slot (players pm') = map fst (pm_bySlot pm')" using slots by (auto simp: players_def)
    then show ?thesis using ok omap_ok_sorted[of "pm_bySlot pm'"] by (simp add: f roster_ok_def)
  qed
  moreover have "\<exists>q \<in> set (players pm'). pl_Id q = ident \<and> pl_SteamId q = steamId" "steamId \<noteq> 0"
    if entry: "(steamId, ident) \<in> set idx" for steamId ident
  proof -
    have "(steamId, ident) \<in> set (pm_bySteamId pm)"
      using entry by (auto simp: idx_def UnindexBySteamId_def set_omap_erase split: if_splits)
    then obtain k q where q: "(k, q) \<in> set (pm_bySlot pm)" "pl_Id q = ident" "pl_SteamId q = steamId" "steamId \<noteq> 0"
      using ok by (fastforce simp: roster_ok_def players_def)
    have "k \<noteq> slot"
    proof
      assume "k = slot"
      then have "q = p" using p q(1) keys eq_key_imp_eq_value by fastforce
      then have bot: "\<not> IsBot p" "map_of (pm_bySteamId pm) (pl_SteamId p) = Some (pl_Id p)"
        using q \<open>(steamId, ident) \<in> set (pm_bySteamId pm)\<close> ok by (auto simp: IsBot_def roster_ok_def intro: omap_ok_value)
      then have "idx = omap_erase steamId (pm_bySteamId pm)" using \<open>q = p\<close> q(3) by (simp add: idx_def UnindexBySteamId_def)
      with entry show False by (simp add: set_omap_erase)
    qed
    then have "(k, q) \<in> set (pm_bySlot pm')" using q(1) by (simp add: f set_omap_erase)
    then have "q \<in> set (players pm')" unfolding players_def by (force simp: image_iff)
    then show "\<exists>q \<in> set (players pm'). pl_Id q = ident \<and> pl_SteamId q = steamId" "steamId \<noteq> 0" using q by blast+
  qed
  ultimately have "roster_ok (Reindex pm')"
    using ok idx_ok slots by (auto simp: roster_ok_def Reindex_def players_def f sort_key_sorted)
  then show ?thesis by (simp add: pm'_def)
qed

definition keeps :: "roster_handlers \<Rightarrow> bool" where
  "keeps h \<longleftrightarrow> (\<forall>sig x. roster_ok x \<longrightarrow> roster_ok (h sig x))"

lemma raise_keeps: "keeps h \<Longrightarrow> roster_ok pm \<Longrightarrow> roster_ok (raise_signal h sig pm)"
  by (simp add: keeps_def raise_signal_def)

lemma Drop_ok:
  assumes "keeps h" "roster_ok pm"
  shows "roster_ok (Drop h slot pm)" "map_of (pm_bySlot (Drop h slot pm)) slot = None"
proof -
  have "roster_ok (Drop h slot pm) \<and> map_of (pm_bySlot (Drop h slot pm)) slot = None"
  proof (cases "map_of (pm_bySlot pm) slot")
    case (Some leaving)
    define pm1 where "pm1 = raise_signal h (Disconnected leaving) pm"
    have ok: "roster_ok pm1" using raise_keeps assms by (simp add: pm1_def)
    show ?thesis
    proof (cases "map_of (pm_bySlot pm1) slot")
      case None
      then show ?thesis using Some ok by (simp add: Drop_def pm1_def[symmetric] Let_def)
    next
      case (Some found)
      have "pm_bySlot (Reindex ((UnindexBySteamId found pm1)\<lparr>pm_bySlot := omap_erase slot (pm_bySlot (UnindexBySteamId found pm1))\<rparr>))
          = omap_erase slot (pm_bySlot pm1)" by (simp add: Reindex_def UnindexBySteamId_def)
      with Some \<open>map_of (pm_bySlot pm) slot = Some leaving\<close> roster_ok_erase[OF ok Some]
      show ?thesis by (simp add: Drop_def pm1_def[symmetric] Let_def)
    qed
  qed (use assms in \<open>simp add: Drop_def\<close>)
  then show "roster_ok (Drop h slot pm)" "map_of (pm_bySlot (Drop h slot pm)) slot = None" by blast+
qed

lemma roster_ok_insert:
  assumes ok: "roster_ok pm" and free: "map_of (pm_bySlot pm) slot = None"
    and player: "pl_Slot player = slot" "pl_Id player = pm_NextId pm"
  shows "roster_ok (Reindex (IndexBySteamId player
           (pm\<lparr>pm_bySlot := omap_assign slot player (pm_bySlot pm), pm_NextId := pm_NextId pm + 1\<rparr>)))"
proof -
  define pm' where "pm' = IndexBySteamId player
      (pm\<lparr>pm_bySlot := omap_assign slot player (pm_bySlot pm), pm_NextId := pm_NextId pm + 1\<rparr>)"
  have f: "pm_bySlot pm' = omap_assign slot player (pm_bySlot pm)" "pm_NextId pm' = pm_NextId pm + 1"
    by (simp_all add: pm'_def IndexBySteamId_def)
  have absent: "slot \<notin> fst ` set (pm_bySlot pm)" using free by (simp add: map_of_eq_None_iff)
  have elems: "set (pm_bySlot pm') = insert (slot, player) (set (pm_bySlot pm))" by (simp add: f set_omap_assign_absent[OF absent])
  then have who: "set (players pm') = insert player (set (players pm))" by (simp add: players_def)
  have okm: "omap_ok (pm_bySlot pm')" using ok by (simp add: f roster_ok_def)
  have slots: "\<forall>(k, q) \<in> set (pm_bySlot pm'). pl_Slot q = k \<and> pl_Id q < pm_NextId pm'"
    using ok player by (auto simp: elems f(2) roster_ok_def)
  have fresh: "pm_NextId pm \<notin> pl_Id ` set (players pm)" using ok by (fastforce simp: roster_ok_def players_def)
  have "mset (pm_bySlot pm') = add_mset (slot, player) (mset (pm_bySlot pm))"
    unfolding f(1) by (rule mset_omap_assign[OF absent])
  then have "mset (map pl_Id (players pm')) = add_mset (pl_Id player) (mset (map pl_Id (players pm)))"
    by (simp add: players_def)
  moreover have "distinct (map pl_Id (player # players pm))" using ok fresh player by (simp add: roster_ok_def)
  ultimately have "distinct (map pl_Id (players pm'))" by (metis list.simps(9) mset.simps(2) mset_eq_imp_distinct_iff)
  moreover have "sorted (map pl_Slot (players pm'))"
  proof -
    have "map pl_Slot (players pm') = map fst (pm_bySlot pm')" using slots by (auto simp: players_def)
    then show ?thesis using omap_ok_sorted[OF okm] by simp
  qed
  moreover have "omap_ok (pm_bySteamId pm')" using ok by (auto simp: pm'_def IndexBySteamId_def roster_ok_def)
  moreover have "\<exists>q \<in> set (players pm'). pl_Id q = ident \<and> pl_SteamId q = steamId" "steamId \<noteq> 0"
    if entry: "(steamId, ident) \<in> set (pm_bySteamId pm')" for steamId ident
  proof -
    have "(steamId, ident) \<in> set (pm_bySteamId pm) \<or> \<not> IsBot player \<and> steamId = pl_SteamId player \<and> ident = pl_Id player"
      using entry ok by (auto simp: pm'_def IndexBySteamId_def roster_ok_def set_omap_assign split: if_splits)
    then show "\<exists>q \<in> set (players pm'). pl_Id q = ident \<and> pl_SteamId q = steamId" "steamId \<noteq> 0"
      using ok who by (fastforce simp: roster_ok_def IsBot_def)+
  qed
  ultimately have "roster_ok (Reindex pm')"
    using okm slots by (auto simp: roster_ok_def Reindex_def players_def sort_key_sorted)
  then show ?thesis by (simp add: pm'_def)
qed

lemma AddPlayer_ok: "keeps h \<Longrightarrow> roster_ok pm \<Longrightarrow> roster_ok (snd (AddPlayer h slot steamId name ip pm))"
  unfolding AddPlayer_def Let_def snd_conv
  by (intro raise_keeps roster_ok_insert) (simp_all add: Drop_ok)

lemma RemovePlayer_ok: "keeps h \<Longrightarrow> roster_ok pm \<Longrightarrow> roster_ok (RemovePlayer h slot pm)"
  by (simp add: RemovePlayer_def raise_keeps Drop_ok)

lemma fold_keeps: "(\<And>x pm. roster_ok pm \<Longrightarrow> roster_ok (f x pm)) \<Longrightarrow> roster_ok pm \<Longrightarrow> roster_ok (fold f xs pm)"
  by (induction xs arbitrary: pm) simp_all

lemma ClearPlayers_ok: "keeps h \<Longrightarrow> roster_ok pm \<Longrightarrow> roster_ok (ClearPlayers h pm)"
proof -
  assume h: "keeps h" and ok: "roster_ok pm"
  let ?slots = "sort (map fst (pm_bySlot pm))"
  define pm1 where "pm1 = (fold (Drop h) ?slots pm)\<lparr>pm_bySlot := [], pm_bySteamId := [], pm_ordered := []\<rparr>"
  have "roster_ok pm1" by (simp add: pm1_def roster_ok_def players_def)
  then have "roster_ok (fold (\<lambda>slot. raise_signal h (SlotChanged slot)) ?slots pm1)"
    by (rule fold_keeps[rotated]) (rule raise_keeps[OF h])
  then show ?thesis by (simp add: ClearPlayers_def pm1_def Let_def)
qed

lemma roster_api_ok: "roster_api r s \<Longrightarrow> roster_ok r \<longrightarrow> roster_ok s"
proof (induction rule: roster_api.induct)
  case (roster_Fully r s h slot)
  then have "keeps h" by (auto simp: keeps_def)
  with roster_Fully show ?case by (auto simp: pm_OnClientFullyConnected_def raise_keeps split: option.split)
next
  case (roster_Settings r s h slot)
  then have "keeps h" by (auto simp: keeps_def)
  with roster_Settings show ?case by (auto simp: pm_OnClientSettingsChanged_def raise_keeps split: option.split)
qed (auto simp: AddPlayer_ok RemovePlayer_ok ClearPlayers_ok keeps_def)

lemma roster_init_ok: "roster_ok pm_init"
  by (simp add: roster_ok_def pm_init_def players_def)

lemma deref_unique: "roster_ok pm \<Longrightarrow> p \<in> set (players pm) \<Longrightarrow> deref pm (pl_Id p) = Some p"
proof -
  assume ok: "roster_ok pm" and p: "p \<in> set (players pm)"
  then obtain q where q: "deref pm (pl_Id p) = Some q"
    by (cases "deref pm (pl_Id p)") (auto simp: deref_def find_None_iff_all)
  then have "q \<in> set (players pm)" "pl_Id q = pl_Id p" unfolding deref_def by (drule_tac find_SomeD; simp)+
  with ok p have "q = p" by (auto simp: roster_ok_def distinct_map inj_on_eq_iff)
  with q show ?thesis by simp
qed

section \<open>The permission gate\<close>

record Policy =
  po_HasPermission :: "(int \<Rightarrow> string \<Rightarrow> bool) option"
  po_CanTarget :: "(int \<Rightarrow> int \<Rightarrow> bool) option"
  po_missingPermissionWarned :: bool

type_synonym Authorized = "Player \<times> Player option"

definition CheckPermission :: "Policy \<Rightarrow> Player \<Rightarrow> string \<Rightarrow> status \<times> Policy" where
  "CheckPermission po caller permission =
     (if permission = [] then (Inr (), po)
      else case po_HasPermission po of
             None \<Rightarrow> (Inl (Error_Denied ''cmd.noPermission''), po\<lparr>po_missingPermissionWarned := True\<rparr>)
           | Some has \<Rightarrow>
               (if has (pl_SteamId caller) permission then Inr () else Inl (Error_Denied ''cmd.noPermission''), po))"

definition CheckImmunity :: "Policy \<Rightarrow> Player \<Rightarrow> int \<Rightarrow> status" where
  "CheckImmunity po caller targetSteamId =
     (if targetSteamId = pl_SteamId caller then Inr ()
      else case po_CanTarget po of
             None \<Rightarrow> Inr ()
           | Some can \<Rightarrow> if can (pl_SteamId caller) targetSteamId then Inr () else Inl (Error_Immune ''target.immune''))"

definition Authorize ::
  "PlayerManager \<Rightarrow> Policy \<Rightarrow> PlayerRef \<Rightarrow> PlayerRef option \<Rightarrow> string \<Rightarrow> Authorized result \<times> Policy" where
  "Authorize pm po caller target permission =
     (case GetRef pm caller of
        None \<Rightarrow> (Inl (Error_NotFound ''caller is not connected''), po)
      | Some callerPlayer \<Rightarrow>
          (case (case target of None \<Rightarrow> Inr None
                 | Some t \<Rightarrow> (case GetRef pm t of
                     None \<Rightarrow> Inl \<lparr>err_Code = NotFound, err_Detail = ''target is not connected'',
                                  err_Key = ''target.noMatch'', err_Text = []\<rparr>
                   | Some p \<Rightarrow> Inr (Some p))) of
             Inl e \<Rightarrow> (Inl e, po)
           | Inr targetPlayer \<Rightarrow> (case CheckPermission po callerPlayer permission of
               (Inl e, po') \<Rightarrow> (Inl e, po')
             | (Inr _, po') \<Rightarrow>
                 (case targetPlayer of
                    None \<Rightarrow> (Inr (callerPlayer, None), po')
                  | Some p \<Rightarrow> (case CheckImmunity po' callerPlayer (pl_SteamId p) of
                      Inl e \<Rightarrow> (Inl e, po')
                    | Inr _ \<Rightarrow> (Inr (callerPlayer, Some p), po'))))))"

definition AuthorizeSteamId :: "PlayerManager \<Rightarrow> Policy \<Rightarrow> PlayerRef \<Rightarrow> int \<Rightarrow> string \<Rightarrow> status \<times> Policy" where
  "AuthorizeSteamId pm po caller targetSteamId permission =
     (case GetRef pm caller of
        None \<Rightarrow> (Inl (Error_NotFound ''caller is not connected''), po)
      | Some callerPlayer \<Rightarrow> (case CheckPermission po callerPlayer permission of
          (Inl e, po') \<Rightarrow> (Inl e, po')
        | (Inr _, po') \<Rightarrow> (CheckImmunity po' callerPlayer targetSteamId, po')))"

section \<open>Properties\<close>

lemma roster_never_dangles:
  assumes "roster_ok pm" "map_of (pm_bySteamId pm) steamId = Some ident"
  obtains p where "p \<in> set (players pm)" "pl_Id p = ident" "pl_SteamId p = steamId" "\<not> IsBot p" "deref pm ident = Some p"
proof -
  have "(steamId, ident) \<in> set (pm_bySteamId pm)" using assms(2) by (rule map_of_SomeD)
  then obtain p where p: "p \<in> set (players pm)" "pl_Id p = ident" "pl_SteamId p = steamId" "steamId \<noteq> 0"
    using assms(1) by (auto simp: roster_ok_def)
  with that deref_unique[OF assms(1) p(1)] show ?thesis by (simp add: IsBot_def)
qed

text \<open>
  C15: however the engine and the handlers drive the roster, no lookup answers with the wrong player: a
  slot's player sits in that slot, a reference resolves only to the slot and SteamID it names, a SteamID
  only to a connected player who has it and never to a bot; the index holds no pointer to a destroyed
  player, and \<^verbatim>\<open>All\<close> is every connected player once, in slot order.
\<close>

theorem roster_never_stale:
  assumes "roster_api pm_init pm"
  shows "(\<forall>slot p. GetSlot pm slot = Some p \<longrightarrow> pl_Slot p = slot) \<and>
    (\<forall>ref p. GetRef pm ref = Some p \<longrightarrow> Ref p = ref) \<and>
    (\<forall>steamId p. PlayerBySteamId pm steamId = Some p \<longrightarrow>
       GetSlot pm (pl_Slot p) = Some p \<and> pl_SteamId p = steamId \<and> \<not> IsBot p) \<and>
    (\<forall>steamId ident. map_of (pm_bySteamId pm) steamId = Some ident \<longrightarrow> deref pm ident \<noteq> None) \<and>
    AllPlayers pm = map Some (players pm) \<and> sorted (map pl_Slot (players pm)) \<and> distinct (map pl_Id (players pm))"
proof -
  have ok: "roster_ok pm" using roster_api_ok[OF assms] roster_init_ok by blast
  have slot: "pl_Slot p = slot" if "GetSlot pm slot = Some p" for slot p
    using ok map_of_SomeD[of "pm_bySlot pm" slot p] that by (auto simp: GetSlot_def roster_ok_def)
  have here: "GetSlot pm (pl_Slot p) = Some p" if "p \<in> set (players pm)" for p
  proof -
    obtain k where "(k, p) \<in> set (pm_bySlot pm)" using \<open>p \<in> set (players pm)\<close> by (auto simp: players_def)
    then show ?thesis using ok omap_ok_value[of "pm_bySlot pm" k p] by (auto simp: GetSlot_def roster_ok_def)
  qed
  have ref: "Ref p = ref" if "GetRef pm ref = Some p" for ref p
    using that slot by (auto simp: GetRef_def Ref_def split: option.splits if_splits)
  have account: "GetSlot pm (pl_Slot p) = Some p \<and> pl_SteamId p = steamId \<and> \<not> IsBot p" if "PlayerBySteamId pm steamId = Some p" for steamId p
    using that here by (auto simp: PlayerBySteamId_def split: option.splits elim: roster_never_dangles[OF ok])
  have "deref pm ident \<noteq> None" if "map_of (pm_bySteamId pm) steamId = Some ident" for steamId ident
    using roster_never_dangles[OF ok that] by auto
  moreover have "AllPlayers pm = map Some (players pm)"
    using ok by (simp add: AllPlayers_def roster_ok_def deref_unique)
  ultimately show ?thesis using slot ref account roster_sorted[OF ok] ok by (auto simp: roster_ok_def)
qed

text \<open>A player reconnects into another slot before the old connection is dropped.\<close>

definition example_roster :: PlayerManager where
  "example_roster = RemovePlayer (\<lambda>_ pm. pm) 3 (snd (AddPlayer (\<lambda>_ pm. pm) 5 42 ''new'' []
     (snd (AddPlayer (\<lambda>_ pm. pm) 3 42 ''old'' [] pm_init))))"

theorem roster_never_stale_witness:
  "roster_api pm_init example_roster \<and> map_option pl_Slot (PlayerBySteamId example_roster 42) = Some 5 \<and>
   distinct (map pl_Id (players example_roster))"
proof -
  have "roster_api pm_init example_roster"
    unfolding example_roster_def by (intro roster_Remove roster_Add roster_refl)
  moreover have "map_option pl_Slot (PlayerBySteamId example_roster 42) = Some 5"
    by (simp add: example_roster_def AddPlayer_def RemovePlayer_def Drop_def pm_init_def raise_signal_def Reindex_def players_def
        IndexBySteamId_def UnindexBySteamId_def IsBot_def omap_erase_def Let_def PlayerBySteamId_def deref_def)
  ultimately show ?thesis using roster_never_stale[of example_roster] by blast
qed

text \<open>
  the gate answers alike for a player online and for the same account addressed by SteamID: with both
  players connected, \<^verbatim>\<open>Authorize\<close> allows exactly when \<^verbatim>\<open>AuthorizeSteamId\<close> does, for the same reason when it
  refuses; and it allows exactly when the permission is empty or held (with no permission source nothing
  is held) and the target is the caller or not immune.
\<close>

theorem Authorize_equivalent:
  assumes "GetRef pm caller = Some c" and "GetRef pm target = Some t"
  shows "(case fst (Authorize pm po caller (Some target) permission) of
       Inl e \<Rightarrow> fst (AuthorizeSteamId pm po caller (pl_SteamId t) permission) = Inl e
     | Inr a \<Rightarrow> a = (c, Some t) \<and> fst (AuthorizeSteamId pm po caller (pl_SteamId t) permission) = Inr ()) \<and>
    (fst (AuthorizeSteamId pm po caller (pl_SteamId t) permission) = Inr () \<longleftrightarrow>
       (permission = [] \<or> (case po_HasPermission po of None \<Rightarrow> False | Some has \<Rightarrow> has (pl_SteamId c) permission)) \<and>
       (pl_SteamId t = pl_SteamId c \<or> (case po_CanTarget po of None \<Rightarrow> True | Some can \<Rightarrow> can (pl_SteamId c) (pl_SteamId t))))"
  using assms
  by (cases "po_HasPermission po"; cases "po_CanTarget po")
    (simp_all add: Authorize_def AuthorizeSteamId_def CheckPermission_def CheckImmunity_def split: if_splits)

definition example_policy :: Policy where
  "example_policy = \<lparr>po_HasPermission = Some (\<lambda>steamId permission. steamId = 42),
     po_CanTarget = Some (\<lambda>caller target. target \<noteq> 7), po_missingPermissionWarned = False\<rparr>"

definition example_admin :: PlayerManager where
  "example_admin = snd (AddPlayer (\<lambda>_ pm. pm) 2 7 ''vip'' [] (snd (AddPlayer (\<lambda>_ pm. pm) 1 42 ''admin'' [] pm_init)))"

theorem Authorize_equivalent_witness:
  "fst (AuthorizeSteamId example_admin example_policy \<lparr>ref_Slot = 1, ref_SteamId = 42\<rparr> 7 ''admin.kick'') \<noteq> Inr ()"
proof -
  have "GetRef example_admin \<lparr>ref_Slot = 1, ref_SteamId = 42\<rparr> = Some \<lparr>pl_Id = 0, pl_Slot = 1, pl_SteamId = 42, pl_ConnectName = ''admin'', pl_Ip = []\<rparr>"
    "GetRef example_admin \<lparr>ref_Slot = 2, ref_SteamId = 7\<rparr> = Some \<lparr>pl_Id = 1, pl_Slot = 2, pl_SteamId = 7, pl_ConnectName = ''vip'', pl_Ip = []\<rparr>"
    by (simp_all add: example_admin_def AddPlayer_def Drop_def pm_init_def raise_signal_def Reindex_def
        IndexBySteamId_def IsBot_def Let_def GetRef_def GetSlot_def)
  from Authorize_equivalent[OF this, of example_policy "''admin.kick''"] show ?thesis by (simp add: example_policy_def)
qed

end
