(* ===== verification/ArgBinding.thy ===== *)
theory ArgBinding
  imports CommandSyntax Targeting Translations Players
begin

text \<open>
  The arguments of a command: their kinds, the values they bind to, and the binders that turn tokens
  into them. Sources: \<^verbatim>\<open>include/VoltMod/Commands/Args.hpp\<close>, \<^verbatim>\<open>src/Commands/{ArgBinding,TargetResolver}.cpp\<close>.
  A bound argument's constructor is the alternative of the variant \<^verbatim>\<open>BoundArg\<close>; \<open>unpack_ok\<close> is when
  \<^verbatim>\<open>std::get\<close> finds the alternative the handler's parameter asks for, so when it does not throw.
\<close>

section \<open>Data\<close>

datatype ArgKind = KTarget | KTargets | KDuration | KSteamId | KPlayerOrSteamId | KInt | KU64 | KWord | KRest

datatype BoundArg = Omitted | BTarget Player | BTargets "Player list" | BDuration int | BSteamId int
  | BPlayerOrSteamId "Player option" int | BInt int | BU64 nat | BWord string | BRest string

record ArgDesc =
  ad_Kind :: ArgKind
  ad_Optional :: bool

record ArgError =
  ae_Key :: string
  ae_Vars :: tokens

type_synonym arg_binder = "string \<Rightarrow> Player option \<Rightarrow> TargetRules \<Rightarrow> TargetFailure + Player list"

text \<open>\<^verbatim>\<open>OptionalsTrail\<close> and \<^verbatim>\<open>RestIsLast\<close>, which the compiler checks of every handler.\<close>

fun optionals_trail :: "bool \<Rightarrow> ArgDesc list \<Rightarrow> bool" where
  "optionals_trail seen [] \<longleftrightarrow> True"
| "optionals_trail seen (a # args) \<longleftrightarrow>
     (if ad_Optional a then optionals_trail True args else if seen then False else optionals_trail seen args)"

definition OptionalsTrail :: "ArgDesc list \<Rightarrow> bool" where
  "OptionalsTrail args \<longleftrightarrow> optionals_trail False args"

definition RestIsLast :: "ArgDesc list \<Rightarrow> bool" where
  "RestIsLast args \<longleftrightarrow> (\<forall>a \<in> set (butlast args). ad_Kind a \<noteq> KRest)"

fun kind_of :: "BoundArg \<Rightarrow> ArgKind option" where
  "kind_of Omitted = None"
| "kind_of (BTarget p) = Some KTarget"
| "kind_of (BTargets ps) = Some KTargets"
| "kind_of (BDuration d) = Some KDuration"
| "kind_of (BSteamId i) = Some KSteamId"
| "kind_of (BPlayerOrSteamId p i) = Some KPlayerOrSteamId"
| "kind_of (BInt i) = Some KInt"
| "kind_of (BU64 n) = Some KU64"
| "kind_of (BWord w) = Some KWord"
| "kind_of (BRest r) = Some KRest"

definition unpack_ok :: "ArgDesc \<Rightarrow> BoundArg \<Rightarrow> bool" where
  "unpack_ok arg bound \<longleftrightarrow> (case kind_of bound of None \<Rightarrow> ad_Optional arg | Some kind \<Rightarrow> kind = ad_Kind arg)"

section \<open>Binders\<close>

definition token_error :: "string \<Rightarrow> string \<Rightarrow> ArgError" where
  "token_error key token = \<lparr>ae_Key = key, ae_Vars = [(''token'', token)]\<rparr>"

definition TargetKey :: "TargetFailure \<Rightarrow> string \<Rightarrow> ArgError" where
  "TargetKey f token =
     (case tf_Error f of
        TargetImmune \<Rightarrow> token_error ''target.immune'' token
      | Ambiguous \<Rightarrow> \<lparr>ae_Key = ''target.ambiguous'', ae_Vars = [(''count'', to_string (tf_Count f)), (''token'', token)]\<rparr>
      | MultiNotAllowed \<Rightarrow> \<lparr>ae_Key = ''target.ambiguous'', ae_Vars = [(''count'', to_string (tf_Count f)), (''token'', token)]\<rparr>
      | DeadNotAllowed \<Rightarrow> token_error ''target.dead'' token
      | BotNotAllowed \<Rightarrow> token_error ''target.bot'' token
      | NoMatch \<Rightarrow> token_error ''target.noMatch'' token)"

text \<open>\<^verbatim>\<open>resolved->front()\<close> is \<open>hd\<close>; the resolution over the roster is never empty (\<open>EngineResolve_nonempty\<close>).\<close>

definition BindTarget :: "arg_binder \<Rightarrow> string \<Rightarrow> Player option \<Rightarrow> ArgError + BoundArg" where
  "BindTarget resolve token caller =
     (case resolve token caller default_rules of
        Inl f \<Rightarrow> Inl (TargetKey f token)
      | Inr found \<Rightarrow> Inr (BTarget (hd found)))"

definition BindTargets :: "arg_binder \<Rightarrow> string \<Rightarrow> Player option \<Rightarrow> ArgError + BoundArg" where
  "BindTargets resolve token caller =
     (case resolve token caller (default_rules\<lparr>AllowMultiple := True\<rparr>) of
        Inl f \<Rightarrow> Inl (TargetKey f token)
      | Inr found \<Rightarrow> Inr (BTargets found))"

definition BindPlayerOrSteamId :: "arg_binder \<Rightarrow> string \<Rightarrow> Player option \<Rightarrow> ArgError + BoundArg" where
  "BindPlayerOrSteamId resolve token caller =
     (case resolve token caller default_rules of
        Inr found \<Rightarrow> Inr (BPlayerOrSteamId (Some (hd found)) (pl_SteamId (hd found)))
      | Inl f \<Rightarrow>
          (case (if tf_Error f = NoMatch \<and> IsNumeric token then ParseInt64 token else None) of
             Some account \<Rightarrow> Inr (BPlayerOrSteamId None account)
           | None \<Rightarrow> Inl (TargetKey f token)))"

definition BindDuration :: "string \<Rightarrow> ArgError + BoundArg" where
  "BindDuration token =
     (let seconds = ParseDuration token
      in if seconds < 0 then Inl (token_error ''cmd.badDuration'' token)
         else Inr (BDuration (if IsNumeric token then seconds * 60 else seconds)))"

definition BindSteamId :: "string \<Rightarrow> ArgError + BoundArg" where
  "BindSteamId token =
     (case ParseInt64 token of
        Some account \<Rightarrow> if IsNumeric token then Inr (BSteamId account) else Inl (token_error ''cmd.badSteamId'' token)
      | None \<Rightarrow> Inl (token_error ''cmd.badSteamId'' token))"

definition BindInt :: "string \<Rightarrow> ArgError + BoundArg" where
  "BindInt token =
     (case ParseInt64 token of
        Some v \<Rightarrow> if - int int_max - 1 \<le> v \<and> v \<le> int int_max then Inr (BInt v) else Inl (token_error ''cmd.badNumber'' token)
      | None \<Rightarrow> Inl (token_error ''cmd.badNumber'' token))"

definition BindU64 :: "string \<Rightarrow> ArgError + BoundArg" where
  "BindU64 token =
     (case ParseUInt64 token of Some v \<Rightarrow> Inr (BU64 v) | None \<Rightarrow> Inl (token_error ''cmd.badNumber'' token))"

text \<open>The switch over the kind for all but \<^verbatim>\<open>Rest\<close>.\<close>

definition bind_one :: "arg_binder \<Rightarrow> Player option \<Rightarrow> ArgKind \<Rightarrow> string \<Rightarrow> ArgError + BoundArg" where
  "bind_one resolve caller kind token =
     (case kind of
        KTarget \<Rightarrow> BindTarget resolve token caller
      | KTargets \<Rightarrow> BindTargets resolve token caller
      | KPlayerOrSteamId \<Rightarrow> BindPlayerOrSteamId resolve token caller
      | KDuration \<Rightarrow> BindDuration token
      | KSteamId \<Rightarrow> BindSteamId token
      | KInt \<Rightarrow> BindInt token
      | KU64 \<Rightarrow> BindU64 token
      | KWord \<Rightarrow> Inr (BWord token)
      | KRest \<Rightarrow> Inr (BRest token))"

text \<open>The tokens from index \<^verbatim>\<open>i\<close> on are the list; \<^verbatim>\<open>Rest\<close> takes them all.\<close>

fun bind_loop :: "arg_binder \<Rightarrow> Player option \<Rightarrow> ArgDesc list \<Rightarrow> string list \<Rightarrow> BoundArg list \<Rightarrow> ArgError + BoundArg list" where
  "bind_loop resolve caller [] tokens bound = Inr bound"
| "bind_loop resolve caller (arg # args) [] bound = bind_loop resolve caller args [] (bound @ [Omitted])"
| "bind_loop resolve caller (arg # args) (token # tokens) bound =
     (if ad_Kind arg = KRest then bind_loop resolve caller args [] (bound @ [BRest (Join (token # tokens) '' '')])
      else case bind_one resolve caller (ad_Kind arg) token of
             Inl e \<Rightarrow> Inl e
           | Inr v \<Rightarrow> bind_loop resolve caller args tokens (bound @ [v]))"

definition BindArgs :: "ArgDesc list \<Rightarrow> string list \<Rightarrow> Player option \<Rightarrow> arg_binder \<Rightarrow> ArgError + BoundArg list" where
  "BindArgs args tokens caller resolve = bind_loop resolve caller args tokens []"

section \<open>Resolving over the roster\<close>

text \<open>\<open>names\<close> and \<open>pawns\<close> are what the entity system says of a player: name, team, alive.\<close>

definition player_view ::
  "PlayerManager \<Rightarrow> Policy \<Rightarrow> (Player \<Rightarrow> string) \<Rightarrow> (int \<Rightarrow> Team \<times> bool) \<Rightarrow> Player option \<Rightarrow> Player \<Rightarrow> PlayerView" where
  "player_view pm po names pawns caller p =
     \<lparr>pv_Slot = pl_Slot p, pv_SteamId = pl_SteamId p, pv_Name = names p, pv_Team = fst (pawns (pl_Slot p)),
      pv_Alive = snd (pawns (pl_Slot p)), pv_Bot = IsBot p,
      pv_Targetable = (case caller of None \<Rightarrow> True
        | Some c \<Rightarrow> (case fst (Authorize pm po (Ref c) (Some (Ref p)) []) of Inr _ \<Rightarrow> True | Inl _ \<Rightarrow> False))\<rparr>"

definition EngineResolve ::
  "PlayerManager \<Rightarrow> Policy \<Rightarrow> (Player \<Rightarrow> string) \<Rightarrow> (int \<Rightarrow> Team \<times> bool) \<Rightarrow> (nat \<Rightarrow> nat) \<Rightarrow> arg_binder" where
  "EngineResolve pm po names pawns randomIndex token caller rules =
     (if token = [] then Inl (failure NoMatch)
      else case FilterPlayers (map (player_view pm po names pawns caller) (players pm)) (ParseTargetToken token) rules
                  (case caller of Some c \<Rightarrow> pl_Slot c | None \<Rightarrow> -1) (Some randomIndex) of
             Inl f \<Rightarrow> Inl f
           | Inr slots \<Rightarrow> Inr (List.map_filter (GetSlot pm) slots))"

section \<open>Binding is typed\<close>

lemma BindTarget_typed: "BindTarget resolve token caller = Inr v \<Longrightarrow> kind_of v = Some KTarget"
  by (cases "resolve token caller default_rules") (auto simp: BindTarget_def)

lemma BindTargets_typed: "BindTargets resolve token caller = Inr v \<Longrightarrow> kind_of v = Some KTargets"
  by (cases "resolve token caller (default_rules\<lparr>AllowMultiple := True\<rparr>)") (auto simp: BindTargets_def)

lemma BindDuration_typed: "BindDuration token = Inr v \<Longrightarrow> kind_of v = Some KDuration"
  by (auto simp: BindDuration_def Let_def split: if_split_asm)

lemma BindSteamId_typed: "BindSteamId token = Inr v \<Longrightarrow> kind_of v = Some KSteamId"
  by (cases "ParseInt64 token") (auto simp: BindSteamId_def split: if_split_asm)

lemma BindInt_typed: "BindInt token = Inr v \<Longrightarrow> kind_of v = Some KInt"
  by (cases "ParseInt64 token") (auto simp: BindInt_def split: if_split_asm)

lemma BindU64_typed: "BindU64 token = Inr v \<Longrightarrow> kind_of v = Some KU64"
  by (cases "ParseUInt64 token") (auto simp: BindU64_def)

lemma BindPlayerOrSteamId_typed:
  assumes "BindPlayerOrSteamId resolve token caller = Inr v"
  shows "kind_of v = Some KPlayerOrSteamId"
proof (cases "resolve token caller default_rules")
  case (Inl f)
  then show ?thesis using assms
    by (cases "if tf_Error f = NoMatch \<and> IsNumeric token then ParseInt64 token else None") (auto simp: BindPlayerOrSteamId_def)
qed (use assms in \<open>auto simp: BindPlayerOrSteamId_def\<close>)

lemmas binders_typed = BindTarget_typed BindTargets_typed BindDuration_typed BindSteamId_typed BindInt_typed BindU64_typed
  BindPlayerOrSteamId_typed

lemma bind_one_typed: "bind_one resolve caller kind token = Inr v \<Longrightarrow> kind \<noteq> KRest \<Longrightarrow> kind_of v = Some kind"
  by (cases kind) (auto simp: bind_one_def binders_typed)

lemma bind_omitted:
  "bind_loop resolve caller args [] bound = Inr (bound @ replicate (length args) Omitted)"
  by (induction args arbitrary: bound) simp_all

definition RequiredArgs :: "ArgDesc list \<Rightarrow> nat" where
  "RequiredArgs args = length (filter (\<lambda>a. \<not> ad_Optional a) args)"

lemma optionals_trail_True: "optionals_trail True args \<longleftrightarrow> list_all ad_Optional args"
  by (induction args) simp_all

lemma optionals_trail_all: "list_all ad_Optional args \<Longrightarrow> optionals_trail seen args"
  by (cases args) (simp_all add: optionals_trail_True)

lemma OptionalsTrail_Cons:
  "OptionalsTrail (a # args) \<Longrightarrow> OptionalsTrail args \<and> (ad_Optional a \<longrightarrow> (\<forall>b \<in> set args. ad_Optional b))"
  by (cases "ad_Optional a") (simp_all add: OptionalsTrail_def optionals_trail_True optionals_trail_all list_all_iff[symmetric])

lemma RestIsLast_Cons: "RestIsLast (a # args) \<Longrightarrow> RestIsLast args \<and> (ad_Kind a = KRest \<longrightarrow> args = [])"
  by (auto simp: RestIsLast_def split: if_splits)

lemma bind_loop_typed:
  assumes "OptionalsTrail args" "RestIsLast args" "RequiredArgs args \<le> length tokens"
    and "bind_loop resolve caller args tokens bound = Inr result" "list_all2 unpack_ok done_args bound"
  shows "list_all2 unpack_ok (done_args @ args) result"
  using assms
proof (induction resolve caller args tokens bound arbitrary: done_args rule: bind_loop.induct)
  case (2 resolve caller arg args bound)
  have "\<forall>a \<in> set (arg # args). ad_Optional a"
    using 2(4) unfolding RequiredArgs_def by (simp only: list.size le_zero_eq length_0_conv filter_empty_conv) simp
  then have "list_all2 unpack_ok (arg # args) (replicate (length (arg # args)) Omitted)"
    by (auto simp: list_all2_conv_all_nth unpack_ok_def nth_Cons split: nat.split)
  moreover have "result = bound @ replicate (length (arg # args)) Omitted"
    using 2(5) bind_omitted[of resolve caller "arg # args" bound] by simp
  ultimately show ?case using 2(6) by (auto intro: list_all2_appendI)
next
  case (3 resolve caller arg args token tokens bound)
  note trail = OptionalsTrail_Cons[OF 3(3)] and rest = RestIsLast_Cons[OF 3(4)]
  show ?case
  proof (cases "ad_Kind arg = KRest")
    case True
    then show ?thesis using 3(6,7) rest by (auto simp: list_all2_append2 unpack_ok_def intro!: list_all2_appendI)
  next
    case False
    then obtain v where v: "bind_one resolve caller (ad_Kind arg) token = Inr v"
      "bind_loop resolve caller args tokens (bound @ [v]) = Inr result"
      using 3(6) by (auto split: sum.splits)
    have "unpack_ok arg v" using bind_one_typed[OF v(1) False] by (simp add: unpack_ok_def)
    then have "list_all2 unpack_ok (done_args @ [arg]) (bound @ [v])" using 3(7) by (auto intro: list_all2_appendI)
    moreover have "RequiredArgs args \<le> length tokens"
      using 3(5) trail by (auto simp: RequiredArgs_def split: if_splits)
    ultimately show ?thesis using 3(2)[OF False v(1) _ _ _ v(2), of "done_args @ [arg]"] trail rest by simp
  qed
qed simp

section \<open>Values\<close>

definition value_ok :: "BoundArg \<Rightarrow> bool" where
  "value_ok v \<longleftrightarrow>
     (case v of
        BInt i \<Rightarrow> - int int_max - 1 \<le> i \<and> i \<le> int int_max
      | BDuration d \<Rightarrow> 0 \<le> d \<and> d \<le> 60 * int int_max
      | BSteamId i \<Rightarrow> \<bar>i\<bar> \<le> int int64_max + 1
      | BPlayerOrSteamId None i \<Rightarrow> \<bar>i\<bar> \<le> int int64_max + 1
      | BU64 n \<Rightarrow> n \<le> uint64_max
      | _ \<Rightarrow> True)"

lemma ParseInt64_range: "ParseInt64 token = Some v \<Longrightarrow> \<bar>v\<bar> \<le> int int64_max + 1"
proof -
  assume "ParseInt64 token = Some v"
  then have r: "from_chars_signed int64_max token = Some (v, [])"
    by (simp add: ParseInt64_def split: option.splits prod.splits list.splits)
  have "map_option (\<lambda>(v, r). (int v, r)) (from_chars_unsigned int64_max token) = Some (v, []) \<or>
      (\<exists>rest. map_option (\<lambda>(v, r). (- int v, r)) (from_chars_unsigned (int64_max + 1) rest) = Some (v, []))"
  proof (cases token)
    case (Cons c rest)
    then show ?thesis using r by (cases "c = CHR ''-''") (auto simp: from_chars_signed_def split: char.splits bool.splits)
  qed (use r in \<open>simp add: from_chars_signed_def\<close>)
  then show ?thesis by (auto dest: from_chars_unsigned_bound)
qed

lemma bind_one_value:
  assumes "bind_one resolve caller kind token = Inr v"
  shows "value_ok v"
proof (cases kind)
  case KTarget
  then show ?thesis using assms
    by (cases "resolve token caller default_rules") (auto simp: bind_one_def BindTarget_def value_ok_def)
next
  case KTargets
  then show ?thesis using assms
    by (cases "resolve token caller (default_rules\<lparr>AllowMultiple := True\<rparr>)") (auto simp: bind_one_def BindTargets_def value_ok_def)
next
  case KPlayerOrSteamId
  show ?thesis
  proof (cases "resolve token caller default_rules")
    case (Inl f)
    then show ?thesis using assms KPlayerOrSteamId ParseInt64_range[of token]
      by (cases "if tf_Error f = NoMatch \<and> IsNumeric token then ParseInt64 token else None")
        (auto simp: bind_one_def BindPlayerOrSteamId_def value_ok_def split: if_split_asm)
  qed (use assms KPlayerOrSteamId in \<open>auto simp: bind_one_def BindPlayerOrSteamId_def value_ok_def\<close>)
next
  case KDuration
  then show ?thesis using assms ParseDuration_in_int[of token]
    by (auto simp: bind_one_def BindDuration_def value_ok_def Let_def split: if_split_asm)
next
  case KSteamId
  then show ?thesis using assms ParseInt64_range[of token]
    by (cases "ParseInt64 token") (auto simp: bind_one_def BindSteamId_def value_ok_def split: if_split_asm)
next
  case KInt
  then show ?thesis using assms
    by (cases "ParseInt64 token") (auto simp: bind_one_def BindInt_def value_ok_def split: if_split_asm)
next
  case KU64
  then show ?thesis using assms ParseUInt64_Some[of token]
    by (cases "ParseUInt64 token") (auto simp: bind_one_def BindU64_def value_ok_def)
qed (use assms in \<open>auto simp: bind_one_def value_ok_def\<close>)

lemma bind_loop_values:
  "bind_loop resolve caller args tokens bound = Inr result \<Longrightarrow> list_all value_ok bound \<Longrightarrow> list_all value_ok result"
proof (induction resolve caller args tokens bound rule: bind_loop.induct)
  case (3 resolve caller arg args token tokens bound)
  then show ?case
    by (cases "bind_one resolve caller (ad_Kind arg) token") (auto simp: value_ok_def dest: bind_one_value split: if_split_asm)
qed (auto simp: value_ok_def)

lemma map_filter_nonempty: "xs \<noteq> [] \<Longrightarrow> (\<And>x. x \<in> set xs \<Longrightarrow> f x \<noteq> None) \<Longrightarrow> List.map_filter f xs \<noteq> []"
proof (cases xs)
  case (Cons x ys)
  moreover assume "\<And>x. x \<in> set xs \<Longrightarrow> f x \<noteq> None"
  ultimately obtain y where "f x = Some y" by fastforce
  then show ?thesis by (simp add: Cons List.map_filter_simps)
qed simp

lemma EngineResolve_nonempty:
  assumes ok: "roster_ok pm" and found: "EngineResolve pm po names pawns randomIndex token caller rules = Inr ps"
  shows "ps \<noteq> [] \<and> set ps \<subseteq> set (players pm)"
proof -
  let ?views = "map (player_view pm po names pawns caller) (players pm)"
  obtain slots where s: "FilterPlayers ?views (ParseTargetToken token) rules
      (case caller of Some c \<Rightarrow> pl_Slot c | None \<Rightarrow> -1) (Some randomIndex) = Inr slots" "ps = List.map_filter (GetSlot pm) slots"
    using found unfolding EngineResolve_def by (auto split: if_split_asm sum.split_asm)
  note f = FilterPlayers_slots[OF s(1)]
  have "GetSlot pm slot \<noteq> None" if "slot \<in> set slots" for slot
  proof -
    have "slot \<in> pl_Slot ` set (players pm)" using f that by (auto simp: player_view_def)
    then obtain p where p: "p \<in> set (players pm)" "pl_Slot p = slot" by auto
    then obtain k where k: "(k, p) \<in> set (pm_bySlot pm)" by (auto simp: players_def)
    then have "map_of (pm_bySlot pm) k = Some p" "k = slot"
      using ok omap_ok_value[of "pm_bySlot pm" k p] p(2) by (auto simp: roster_ok_def)
    then show ?thesis by (simp add: GetSlot_def)
  qed
  then have "ps \<noteq> []" using map_filter_nonempty[of slots "GetSlot pm"] f s(2) by simp
  moreover have "p \<in> set (players pm)" if "GetSlot pm slot = Some p" for slot p
    using map_of_SomeD[of "pm_bySlot pm" slot p] that by (force simp: GetSlot_def players_def)
  then have "set ps \<subseteq> set (players pm)" unfolding s(2) by (auto simp: List.map_filter_def)
  ultimately show ?thesis by blast
qed

section \<open>Properties\<close>


definition example_args :: "ArgDesc list" where
  "example_args = [\<lparr>ad_Kind = KTarget, ad_Optional = False\<rparr>, \<lparr>ad_Kind = KWord, ad_Optional = False\<rparr>,
     \<lparr>ad_Kind = KRest, ad_Optional = True\<rparr>]"

definition example_player :: Player where
  "example_player = \<lparr>pl_Id = 0, pl_Slot = 1, pl_SteamId = 42, pl_ConnectName = ''admin'', pl_Ip = []\<rparr>"


end
