(* ===== verification/CommandRouter.thy ===== *)
theory CommandRouter
  imports ArgBinding OwnedNames
begin

text \<open>
  Commands: their definitions, the registry with its aliases, dispatch, and the chat and console entry
  points. Sources: \<^verbatim>\<open>src/Commands/{CommandRouter,CommandManager,CommandBuilder}.cpp\<close>,
  \<^verbatim>\<open>include/VoltMod/Commands/{CommandBuilder,CommandManager}.hpp\<close>. \<open>'w\<close> is whatever the handlers change.
  A handler over the bound arguments answers with a reply or an error, the extra lines it sent and the new
  \<open>'w\<close>; \<open>None\<close> is an exception out of \<^verbatim>\<open>std::get\<close>. The names the plugins share on the host are the table of
  OwnedNames. Log lines and the engine's console command objects are not modelled; a console command is
  its entry in the table.
\<close>

section \<open>Definitions of commands\<close>

datatype CommandAccess = PlayersOnly | Anywhere | ServerOnly

datatype Origin = Chat | Console

record Caller =
  ca_Player :: "Player option"
  ca_Slot :: int

type_synonym 'w handler = "Caller \<Rightarrow> BoundArg list \<Rightarrow> 'w \<Rightarrow> (string result \<times> string list \<times> 'w) option"

record 'w CommandDefinition =
  cd_Name :: string
  cd_Aliases :: "string list"
  cd_Description :: string
  cd_PermissionName :: string
  cd_UsageKey :: string
  cd_Access :: CommandAccess
  cd_Args :: "ArgDesc list"
  cd_Invoke :: "'w handler option"

definition new_command :: "string \<Rightarrow> 'w CommandDefinition" where
  "new_command name = \<lparr>cd_Name = name, cd_Aliases = [], cd_Description = [], cd_PermissionName = [], cd_UsageKey = [],
     cd_Access = PlayersOnly, cd_Args = [], cd_Invoke = None\<rparr>"

definition cb_Alias :: "string \<Rightarrow> 'w CommandDefinition \<Rightarrow> 'w CommandDefinition" where
  "cb_Alias alias def = def\<lparr>cd_Aliases := cd_Aliases def @ [alias]\<rparr>"

definition cb_Describe :: "string \<Rightarrow> 'w CommandDefinition \<Rightarrow> 'w CommandDefinition" where
  "cb_Describe txt def = def\<lparr>cd_Description := txt\<rparr>"

definition cb_Permission :: "string \<Rightarrow> 'w CommandDefinition \<Rightarrow> 'w CommandDefinition" where
  "cb_Permission permission def = def\<lparr>cd_PermissionName := permission\<rparr>"

definition cb_Anywhere :: "'w CommandDefinition \<Rightarrow> 'w CommandDefinition" where
  "cb_Anywhere def = def\<lparr>cd_Access := Anywhere\<rparr>"

definition cb_ServerOnly :: "'w CommandDefinition \<Rightarrow> 'w CommandDefinition" where
  "cb_ServerOnly def = def\<lparr>cd_Access := ServerOnly\<rparr>"

definition cb_UsageKey :: "string \<Rightarrow> 'w CommandDefinition \<Rightarrow> 'w CommandDefinition" where
  "cb_UsageKey key def = def\<lparr>cd_UsageKey := key\<rparr>"

text \<open>\<^verbatim>\<open>Unpack\<close>: one \<^verbatim>\<open>std::get\<close> per parameter, then the handler.\<close>

definition Unpack ::
  "ArgDesc list \<Rightarrow> (Caller \<Rightarrow> BoundArg list \<Rightarrow> 'w \<Rightarrow> string result \<times> string list \<times> 'w) \<Rightarrow> 'w handler" where
  "Unpack args fn caller bound w =
     (if length args \<le> length bound \<and> list_all2 unpack_ok args (take (length args) bound)
      then Some (fn caller (take (length args) bound) w) else None)"

text \<open>\<^verbatim>\<open>Run\<close> and \<^verbatim>\<open>Bind\<close>; a signature the \<^verbatim>\<open>static_assert\<close>s refuse does not compile.\<close>

definition cb_Run ::
  "ArgDesc list \<Rightarrow> (Caller \<Rightarrow> BoundArg list \<Rightarrow> 'w \<Rightarrow> string result \<times> string list \<times> 'w) \<Rightarrow> 'w CommandDefinition
     \<Rightarrow> 'w CommandDefinition option" where
  "cb_Run args fn def =
     (if OptionalsTrail args \<and> RestIsLast args then Some (def\<lparr>cd_Args := args, cd_Invoke := Some (Unpack args fn)\<rparr>) else None)"

section \<open>The registry\<close>

record 'w CommandRouter =
  ro_commands :: "(string, 'w CommandDefinition) omap"
  ro_aliases :: "(string, string) omap"

definition ro_init :: "'w CommandRouter" where
  "ro_init = \<lparr>ro_commands = [], ro_aliases = []\<rparr>"

text \<open>The attached host: the plugin's owner id and name, with the shared table.\<close>

type_synonym host_names = "(nat \<times> string) option"

definition host_register :: "host_names \<Rightarrow> string \<Rightarrow> CommandNames \<Rightarrow> bool \<times> CommandNames" where
  "host_register host name table =
     (case host of None \<Rightarrow> (True, table) | Some (owner, ownerName) \<Rightarrow> cn_Register owner ownerName name table)"

fun index_aliases ::
  "host_names \<Rightarrow> string \<Rightarrow> string list \<Rightarrow> 'w CommandRouter \<times> CommandNames \<Rightarrow> 'w CommandRouter \<times> CommandNames" where
  "index_aliases host name [] st = st"
| "index_aliases host name (alias # aliases) (ro, table) =
     (let key = ToLower alias in
      index_aliases host name aliases
        (if key = [] \<or> key = name then (ro, table)
         else if omap_contains (ro_commands ro) key then (ro, table)
         else if omap_contains (ro_aliases ro) key then (ro, table)
         else case host_register host key table of
                (False, table') \<Rightarrow> (ro, table')
              | (True, table') \<Rightarrow> (ro\<lparr>ro_aliases := omap_emplace key name (ro_aliases ro)\<rparr>, table')))"

definition ro_Add :: "host_names \<Rightarrow> 'w CommandDefinition \<Rightarrow> 'w CommandRouter \<times> CommandNames
    \<Rightarrow> bool \<times> 'w CommandRouter \<times> CommandNames" where
  "ro_Add host def st =
     (let (ro, table) = st; name = ToLower (cd_Name def) in
      if name = [] then (False, st)
      else if omap_contains (ro_commands ro) name \<or> omap_contains (ro_aliases ro) name then (False, st)
      else case host_register host name table of
             (False, table') \<Rightarrow> (False, ro, table')
           | (True, table') \<Rightarrow>
               (case index_aliases host name (cd_Aliases def) (ro, table') of
                  (ro', table'') \<Rightarrow> (True, ro'\<lparr>ro_commands := omap_assign name def (ro_commands ro')\<rparr>, table'')))"

definition ro_Clear :: "'w CommandRouter \<Rightarrow> 'w CommandRouter" where
  "ro_Clear ro = ro\<lparr>ro_commands := [], ro_aliases := []\<rparr>"

definition ro_Find :: "'w CommandRouter \<Rightarrow> string \<Rightarrow> 'w CommandDefinition option" where
  "ro_Find ro name =
     (let key = ToLower name in
      case map_of (ro_commands ro) key of
        Some def \<Rightarrow> Some def
      | None \<Rightarrow> (case map_of (ro_aliases ro) key of
          Some command \<Rightarrow> map_of (ro_commands ro) command
        | None \<Rightarrow> None))"

definition ro_IsForeign :: "host_names \<Rightarrow> CommandNames \<Rightarrow> 'w CommandRouter \<Rightarrow> string \<Rightarrow> bool" where
  "ro_IsForeign host table ro name \<longleftrightarrow>
     host \<noteq> None \<and> ro_Find ro name = None \<and> cn_OwnerOf table (ToLower name) \<noteq> []"

section \<open>Replies\<close>

text \<open>What dispatch reads: the roster, the plugin's texts, the players' languages, the target resolution.\<close>

record command_env =
  ce_players :: PlayerManager
  ce_translations :: Translations
  ce_languages :: "string PerSlot"
  ce_resolve :: arg_binder

definition FailureLine :: "command_env \<Rightarrow> Error \<Rightarrow> int \<Rightarrow> string" where
  "FailureLine env e slot =
     (if err_Text e \<noteq> [] then err_Text e
      else if err_Key e \<noteq> [] then tr_Get (ce_translations env) (ce_languages env) (err_Key e) slot
      else err_Detail e)"

definition kind_name :: "ArgKind \<Rightarrow> string" where
  "kind_name kind = (case kind of KTarget \<Rightarrow> ''Target'' | KTargets \<Rightarrow> ''Targets'' | KDuration \<Rightarrow> ''Duration''
     | KSteamId \<Rightarrow> ''SteamId'' | KPlayerOrSteamId \<Rightarrow> ''PlayerOrSteamId'' | KInt \<Rightarrow> ''Int'' | KU64 \<Rightarrow> ''U64''
     | KWord \<Rightarrow> ''Word'' | KRest \<Rightarrow> ''Rest'')"

definition UsagePlaceholderKey :: "ArgKind \<Rightarrow> string" where
  "UsagePlaceholderKey kind =
     ''cmd.usage.'' @ (case kind_name kind of [] \<Rightarrow> [] | c # rest \<Rightarrow> to_lower c # rest)"

definition HasRest :: "ArgDesc list \<Rightarrow> bool" where
  "HasRest args \<longleftrightarrow> list_ex (\<lambda>a. ad_Kind a = KRest) args"

definition usage_args :: "command_env \<Rightarrow> int \<Rightarrow> ArgDesc list \<Rightarrow> string" where
  "usage_args env slot args =
     foldl (\<lambda>line arg. (if line = [] then [] else line @ '' '')
       @ (if ad_Optional arg then ''['' else ''<'')
       @ tr_Get (ce_translations env) (ce_languages env) (UsagePlaceholderKey (ad_Kind arg)) slot
       @ (if ad_Optional arg then '']'' else ''>'')) [] args"

definition UsageTokens :: "command_env \<Rightarrow> 'w CommandDefinition \<Rightarrow> int \<Rightarrow> Origin \<Rightarrow> tokens" where
  "UsageTokens env def slot origin =
     (let pre = (if origin = Chat then ChatPrefix else []);
          args = usage_args env slot (cd_Args def);
          line = pre @ cd_Name def @ (if args = [] then [] else '' '' @ args)
      in [(''args'', args), (''command'', cd_Name def), (''prefix'', pre), (''usage'', line)])"

definition Usage :: "command_env \<Rightarrow> 'w CommandDefinition \<Rightarrow> int \<Rightarrow> Origin \<Rightarrow> string" where
  "Usage env def slot origin =
     (if cd_UsageKey def \<noteq> [] then tr_Get (ce_translations env) (ce_languages env) (cd_UsageKey def) slot
      else tr_GetTokens (ce_translations env) (ce_languages env) ''cmd.usage'' slot (UsageTokens env def slot origin))"

definition Caller_Text :: "command_env \<Rightarrow> Caller \<Rightarrow> string \<Rightarrow> tokens \<Rightarrow> string" where
  "Caller_Text env caller key tokens =
     (if tokens = [] then tr_Get (ce_translations env) (ce_languages env) key (ca_Slot caller)
      else tr_GetTokens (ce_translations env) (ce_languages env) key (ca_Slot caller) tokens)"

definition Caller_Ok :: "command_env \<Rightarrow> Caller \<Rightarrow> string \<Rightarrow> tokens \<Rightarrow> string result" where
  "Caller_Ok env caller key tokens = Inr (Caller_Text env caller key tokens)"

definition Caller_Fail :: "command_env \<Rightarrow> Caller \<Rightarrow> string \<Rightarrow> tokens \<Rightarrow> string result" where
  "Caller_Fail env caller key tokens =
     Inl \<lparr>err_Code = Failed, err_Detail = [], err_Key = key, err_Text = Caller_Text env caller key tokens\<rparr>"

definition Caller_SayRaw :: "string \<Rightarrow> string list" where
  "Caller_SayRaw line = (if line = [] then [] else [line])"

definition Caller_Say :: "command_env \<Rightarrow> Caller \<Rightarrow> string \<Rightarrow> tokens \<Rightarrow> string list" where
  "Caller_Say env caller key tokens = Caller_SayRaw (Caller_Text env caller key tokens)"

section \<open>Dispatch\<close>

text \<open>The lines said, the policy (its warning flag may change) and \<open>'w\<close>; \<open>None\<close> when \<^verbatim>\<open>std::get\<close> threw.\<close>

definition ro_Dispatch ::
  "command_env \<Rightarrow> Policy \<Rightarrow> 'w CommandDefinition \<Rightarrow> Player option \<Rightarrow> string list \<Rightarrow> Origin \<Rightarrow> 'w
     \<Rightarrow> (string list \<times> Policy \<times> 'w) option" where
  "ro_Dispatch env po def caller tokens origin w =
     (let slot = (case caller of Some p \<Rightarrow> pl_Slot p | None \<Rightarrow> -1);
          get = tr_Get (ce_translations env) (ce_languages env);
          gate = (case caller of
              None \<Rightarrow> (Inr (), po)
            | Some p \<Rightarrow>
                if cd_PermissionName def = [] then (Inr (), po)
                else (case Authorize (ce_players env) po (Ref p) None (cd_PermissionName def) of
                    (Inl e, po') \<Rightarrow> (Inl e, po') | (Inr _, po') \<Rightarrow> (Inr (), po')))
      in case gate of
           (Inl e, po') \<Rightarrow> Some (Caller_SayRaw (get (err_Key e) slot), po', w)
         | (Inr _, po') \<Rightarrow>
             if \<not> HasRest (cd_Args def) \<and> length (cd_Args def) < length tokens
             then Some (Caller_SayRaw (tr_GetTokens (ce_translations env) (ce_languages env) ''cmd.tooManyArgs'' slot
                          (UsageTokens env def slot origin)), po', w)
             else if length tokens < RequiredArgs (cd_Args def)
             then Some (Caller_SayRaw (Usage env def slot origin), po', w)
             else case BindArgs (cd_Args def) tokens caller (ce_resolve env) of
                    Inl e \<Rightarrow> Some (Caller_SayRaw (tr_GetTokens (ce_translations env) (ce_languages env) (ae_Key e) slot (ae_Vars e)), po', w)
                  | Inr bound \<Rightarrow>
                      (case cd_Invoke def of
                         None \<Rightarrow> Some ([], po', w)
                       | Some invoke \<Rightarrow> (case invoke \<lparr>ca_Player = caller, ca_Slot = slot\<rparr> bound w of
                           None \<Rightarrow> None
                         | Some (result, said_lines, w') \<Rightarrow>
                             Some (said_lines @ Caller_SayRaw (case result of Inr txt \<Rightarrow> txt | Inl e \<Rightarrow> FailureLine env e slot), po', w'))))"

section \<open>The manager\<close>

record 'w CommandManager =
  cm_router :: "'w CommandRouter"
  cm_console :: "(string, string \<times> bool) omap"

definition cm_init :: "'w CommandManager" where
  "cm_init = \<lparr>cm_router = ro_init, cm_console = []\<rparr>"

text \<open>The help text and whether players may run it.\<close>

definition InstallConsoleCommand :: "command_env \<Rightarrow> 'w CommandDefinition \<Rightarrow> 'w CommandManager \<Rightarrow> 'w CommandManager" where
  "InstallConsoleCommand env def cm =
     (let help = (if cd_Description def = [] then Usage env def (-1) Console else cd_Description def)
      in cm\<lparr>cm_console := omap_emplace (ToLower (cd_Name def)) (help, cd_Access def = Anywhere) (cm_console cm)\<rparr>)"

definition cm_Add :: "host_names \<Rightarrow> command_env \<Rightarrow> 'w CommandDefinition \<Rightarrow> 'w CommandManager \<times> CommandNames
    \<Rightarrow> 'w CommandManager \<times> CommandNames" where
  "cm_Add host env def st =
     (case ro_Add host def (cm_router (fst st), snd st) of
        (added, ro, table) \<Rightarrow>
          let cm = (fst st)\<lparr>cm_router := ro\<rparr>
          in (if added \<and> cd_Access def \<noteq> PlayersOnly then InstallConsoleCommand env def cm else cm, table))"

definition cm_RemoveAll :: "'w CommandManager \<Rightarrow> 'w CommandManager" where
  "cm_RemoveAll cm = cm\<lparr>cm_console := [], cm_router := ro_Clear (cm_router cm)\<rparr>"

text \<open>Where a line goes: to a player's chat, through \<^verbatim>\<open>ReplyToPlayer\<close>, or to the log.\<close>

datatype Line = ToPlayer int string | ToLog string

definition ReplyToPlayer :: "int \<Rightarrow> string \<Rightarrow> Line" where
  "ReplyToPlayer slot line = ToPlayer slot line"

text \<open>The handler of a console command; \<open>slot\<close> is negative for the server.\<close>

definition RunConsoleCommand ::
  "command_env \<Rightarrow> Policy \<Rightarrow> 'w CommandManager \<Rightarrow> string \<Rightarrow> string list \<Rightarrow> int \<Rightarrow> 'w \<Rightarrow> (Line list \<times> Policy \<times> 'w) option" where
  "RunConsoleCommand env po cm name tokens slot w =
     (case ro_Find (cm_router cm) name of
        None \<Rightarrow> Some ([], po, w)
      | Some def \<Rightarrow>
          if 0 \<le> slot
          then (case GetSlot (ce_players env) slot of
                  None \<Rightarrow> Some ([], po, w)
                | Some p \<Rightarrow> map_option (\<lambda>(texts, rest). (map (ReplyToPlayer slot) texts, rest))
                    (ro_Dispatch env po def (Some p) tokens Console w))
          else map_option (\<lambda>(texts, rest). (map ToLog texts, rest)) (ro_Dispatch env po def None tokens Console w))"

definition HandleChatMessage ::
  "command_env \<Rightarrow> Policy \<Rightarrow> 'w CommandManager \<Rightarrow> Player option \<Rightarrow> string \<Rightarrow> 'w \<Rightarrow> (bool \<times> Line list \<times> Policy \<times> 'w) option" where
  "HandleChatMessage env po cm caller message w =
     (case caller of
        None \<Rightarrow> Some (False, [], po, w)
      | Some p \<Rightarrow> (case StripPrefix message of
          None \<Rightarrow> Some (False, [], po, w)
        | Some body \<Rightarrow> (case Tokenize body of
            [] \<Rightarrow> Some (False, [], po, w)
          | name # tokens \<Rightarrow> (case ro_Find (cm_router cm) name of
              None \<Rightarrow> Some (False, [], po, w)
            | Some def \<Rightarrow>
                if cd_Access def = ServerOnly then Some (False, [], po, w)
                else map_option (\<lambda>(texts, rest). (True, map (ReplyToPlayer (pl_Slot p)) texts, rest))
                       (ro_Dispatch env po def caller tokens Chat w)))))"

definition cm_IsForeign :: "host_names \<Rightarrow> CommandNames \<Rightarrow> 'w CommandManager \<Rightarrow> string \<Rightarrow> bool" where
  "cm_IsForeign host table cm message \<longleftrightarrow>
     (case StripPrefix message of None \<Rightarrow> False
      | Some body \<Rightarrow> (case Tokenize body of [] \<Rightarrow> False | name # _ \<Rightarrow> ro_IsForeign host table (cm_router cm) name))"

definition cm_Count :: "'w CommandManager \<Rightarrow> nat" where
  "cm_Count cm = length (ro_commands (cm_router cm))"

section \<open>What dispatch does\<close>

definition allowed :: "command_env \<Rightarrow> Policy \<Rightarrow> 'w CommandDefinition \<Rightarrow> Player option \<Rightarrow> bool" where
  "allowed env po def caller \<longleftrightarrow> (case caller of None \<Rightarrow> True
     | Some p \<Rightarrow> cd_PermissionName def = [] \<or> isl (fst (Authorize (ce_players env) po (Ref p) None (cd_PermissionName def))) = False)"

definition fits :: "ArgDesc list \<Rightarrow> string list \<Rightarrow> bool" where
  "fits args tokens \<longleftrightarrow> RequiredArgs args \<le> length tokens \<and> (HasRest args \<or> length tokens \<le> length args)"

lemma Dispatch_refused:
  assumes "\<not> allowed env po def caller"
  shows "\<exists>texts po'. ro_Dispatch env po def caller tokens origin w = Some (texts, po', w) \<and> length texts \<le> 1"
proof -
  obtain p where p: "caller = Some p" "cd_PermissionName def \<noteq> []"
    "isl (fst (Authorize (ce_players env) po (Ref p) None (cd_PermissionName def)))"
    using assms by (auto simp: allowed_def split: option.splits)
  then obtain e po' where "Authorize (ce_players env) po (Ref p) None (cd_PermissionName def) = (Inl e, po')"
    by (cases "Authorize (ce_players env) po (Ref p) None (cd_PermissionName def)") (auto simp: isl_def)
  then show ?thesis using p(1,2) by (simp add: ro_Dispatch_def Caller_SayRaw_def Let_def)
qed

lemma Dispatch_allowed:
  assumes "allowed env po def caller"
  shows "\<exists>po'. ro_Dispatch env po def caller tokens origin w =
    (let slot = (case caller of Some p \<Rightarrow> pl_Slot p | None \<Rightarrow> -1) in
     if \<not> HasRest (cd_Args def) \<and> length (cd_Args def) < length tokens
     then Some (Caller_SayRaw (tr_GetTokens (ce_translations env) (ce_languages env) ''cmd.tooManyArgs'' slot
                  (UsageTokens env def slot origin)), po', w)
     else if length tokens < RequiredArgs (cd_Args def)
     then Some (Caller_SayRaw (Usage env def slot origin), po', w)
     else case BindArgs (cd_Args def) tokens caller (ce_resolve env) of
            Inl e \<Rightarrow> Some (Caller_SayRaw (tr_GetTokens (ce_translations env) (ce_languages env) (ae_Key e) slot (ae_Vars e)), po', w)
          | Inr bound \<Rightarrow>
              (case cd_Invoke def of
                 None \<Rightarrow> Some ([], po', w)
               | Some invoke \<Rightarrow> (case invoke \<lparr>ca_Player = caller, ca_Slot = slot\<rparr> bound w of
                   None \<Rightarrow> None
                 | Some (result, said_lines, w') \<Rightarrow>
                     Some (said_lines @ Caller_SayRaw (case result of Inr txt \<Rightarrow> txt | Inl e \<Rightarrow> FailureLine env e slot), po', w'))))"
proof -
  define gate where "gate = (case caller of None \<Rightarrow> (Inr (), po)
      | Some p \<Rightarrow> if cd_PermissionName def = [] then (Inr (), po)
          else (case Authorize (ce_players env) po (Ref p) None (cd_PermissionName def) of
              (Inl e, po') \<Rightarrow> (Inl e, po') | (Inr _, po') \<Rightarrow> (Inr () :: Error + unit, po')))"
  have "\<exists>po'. gate = (Inr (), po')"
  proof (cases caller)
    case (Some p)
    then show ?thesis using assms
      by (cases "Authorize (ce_players env) po (Ref p) None (cd_PermissionName def)")
        (auto simp: gate_def allowed_def split: sum.split)
  qed (simp add: gate_def)
  then obtain po' where "gate = (Inr (), po')" ..
  then show ?thesis
    unfolding ro_Dispatch_def gate_def[symmetric] by (intro exI[of _ po']) (simp add: Let_def)
qed

section \<open>The names of a router\<close>

definition names_of :: "'w CommandRouter \<Rightarrow> string set" where
  "names_of ro = fst ` set (ro_commands ro) \<union> fst ` set (ro_aliases ro)"

definition router_ok :: "'w CommandRouter \<Rightarrow> bool" where
  "router_ok ro \<longleftrightarrow> omap_ok (ro_commands ro) \<and> omap_ok (ro_aliases ro) \<and> [] \<notin> names_of ro \<and>
     fst ` set (ro_commands ro) \<inter> fst ` set (ro_aliases ro) = {} \<and>
     snd ` set (ro_aliases ro) \<subseteq> fst ` set (ro_commands ro)"

definition table_names_ok :: "CommandNames \<Rightarrow> bool" where
  "table_names_ok table \<longleftrightarrow> distinct (map cn_Name table)"

text \<open>No name changes hands, and the names gained are the plugin's own.\<close>

definition gained :: "host_names \<Rightarrow> string set \<Rightarrow> CommandNames \<Rightarrow> CommandNames \<Rightarrow> bool" where
  "gained host names table table' \<longleftrightarrow> table_names_ok table' \<and>
     (\<forall>n o'. cn_owner table n = Some o' \<longrightarrow> cn_owner table' n = Some o') \<and>
     (case host of None \<Rightarrow> True | Some (owner, _) \<Rightarrow> \<forall>n \<in> names. cn_owner table' n = Some owner)"

lemma host_register_gained:
  assumes "table_names_ok table" "name \<noteq> []" "host_register host name table = (taken, table')"
  shows "gained host (if taken then {name} else {}) table table'"
proof (cases host)
  case None
  then show ?thesis using assms by (auto simp: host_register_def gained_def)
next
  case (Some h)
  obtain owner ownerName where h: "h = (owner, ownerName)" by (cases h)
  have reg: "cn_Register owner ownerName name table = (taken, table')" using assms(3) by (simp add: host_register_def Some h)
  then have t': "table' = snd (cn_Register owner ownerName name table)" by simp
  have "cn_owner table' = (case cn_owner table name of None \<Rightarrow> (cn_owner table)(name \<mapsto> owner) | Some _ \<Rightarrow> cn_owner table)"
    using commands.owner_claim[of table name owner ownerName] assms(1,2) by (simp add: t' table_names_ok_def)
  moreover have "table_names_ok table'"
    unfolding t' table_names_ok_def by (rule commands.invar_claim) (use assms(1) in \<open>simp add: table_names_ok_def\<close>)
  moreover have "cn_owner table name = None \<or> cn_owner table name = Some owner" if taken
    using that reg assms(2) by (auto simp: cn_Register_def cn_owner_def split: option.splits)
  ultimately show ?thesis using Some h by (auto simp: gained_def split: option.splits)
qed

lemma gained_trans: "gained host A t1 t2 \<Longrightarrow> gained host B t2 t3 \<Longrightarrow> gained host (A \<union> B) t1 t3"
  by (auto simp: gained_def split: option.splits prod.splits)

lemma gained_refl: "table_names_ok table \<Longrightarrow> gained host {} table table"
  by (auto simp: gained_def split: option.split)

text \<open>Aliases are taken for a command about to be stored under \<open>name\<close>.\<close>

definition router_pending :: "string \<Rightarrow> 'w CommandRouter \<Rightarrow> bool" where
  "router_pending name ro \<longleftrightarrow> omap_ok (ro_commands ro) \<and> omap_ok (ro_aliases ro) \<and> [] \<notin> names_of ro \<and>
     fst ` set (ro_commands ro) \<inter> fst ` set (ro_aliases ro) = {} \<and> name \<notin> names_of ro \<and>
     snd ` set (ro_aliases ro) \<subseteq> insert name (fst ` set (ro_commands ro))"

lemma snd_set_omap_emplace: "omap_ok m \<Longrightarrow> snd ` set (omap_emplace k v m) \<subseteq> insert v (snd ` set m)"
  by (auto simp: omap_emplace_def set_omap_assign)

lemma index_aliases_ok:
  assumes "router_pending name ro" "table_names_ok table" "index_aliases host name aliases (ro, table) = (ro', table')"
  shows "router_pending name ro' \<and> ro_commands ro' = ro_commands ro \<and> names_of ro \<subseteq> names_of ro' \<and>
    gained host (names_of ro' - names_of ro) table table'"
  using assms
proof (induction aliases arbitrary: ro table)
  case Nil
  then show ?case by (simp add: gained_refl)
next
  case (Cons other aliases)
  define key where "key = ToLower other"
  show ?case
  proof (cases "key = [] \<or> key = name \<or> omap_contains (ro_commands ro) key \<or> omap_contains (ro_aliases ro) key")
    case True
    then have "index_aliases host name aliases (ro, table) = (ro', table')"
      using Cons.prems(3) by (auto simp: key_def Let_def split: if_split_asm)
    with Cons.IH Cons.prems(1,2) show ?thesis by blast
  next
    case False
    note fresh = False
    obtain taken table1 where reg: "host_register host key table = (taken, table1)" by (cases "host_register host key table")
    note g = host_register_gained[OF Cons.prems(2) _ reg]
    have t1: "table_names_ok table1" using g False by (simp add: gained_def)
    show ?thesis
    proof (cases taken)
      case [simp]: False
      have "index_aliases host name aliases (ro, table1) = (ro', table')"
        using Cons.prems(3) fresh reg by (simp add: key_def[symmetric] Let_def)
      from Cons.IH[OF Cons.prems(1) t1 this] gained_trans[OF g[simplified]] fresh show ?thesis by simp
    next
      case [simp]: True
      define ro1 where "ro1 = ro\<lparr>ro_aliases := omap_emplace key name (ro_aliases ro)\<rparr>"
      have step: "index_aliases host name aliases (ro1, table1) = (ro', table')"
        using Cons.prems(3) fresh reg by (simp add: key_def[symmetric] Let_def ro1_def)
      have keys: "fst ` set (ro_aliases ro1) = insert key (fst ` set (ro_aliases ro))" by (auto simp: ro1_def)
      have same: "ro_commands ro1 = ro_commands ro" "omap_ok (ro_aliases ro) \<Longrightarrow> omap_ok (ro_aliases ro1)"
        by (simp_all add: ro1_def)
      have names: "names_of ro1 = insert key (names_of ro)" unfolding names_of_def keys by (auto simp: ro1_def)
      have "snd ` set (ro_aliases ro1) \<subseteq> insert name (snd ` set (ro_aliases ro))"
        using snd_set_omap_emplace[of "ro_aliases ro" key name] Cons.prems(1) by (simp add: ro1_def router_pending_def)
      then have sub: "snd ` set (ro_aliases ro1) \<subseteq> insert name (fst ` set (ro_commands ro))"
        by (rule subset_trans) (use Cons.prems(1) in \<open>simp add: router_pending_def\<close>)
      have "router_pending name ro1"
        using Cons.prems(1) fresh
        by (simp add: router_pending_def names keys same omap_contains_iff names_of_def not_sym sub)
      from Cons.IH[OF this t1 step] have "router_pending name ro' \<and> ro_commands ro' = ro_commands ro1 \<and> names_of ro1 \<subseteq> names_of ro' \<and>
          gained host (names_of ro' - names_of ro1) table1 table'" .
      moreover have "gained host {key} table table1" using g False by simp
      moreover have "names_of ro' - names_of ro \<subseteq> {key} \<union> (names_of ro' - names_of ro1)" unfolding names by blast
      ultimately show ?thesis using gained_trans[of host "{key}" table table1] names
        by (auto simp: gained_def ro1_def split: option.splits)
    qed
  qed
qed

lemma ro_Add_ok:
  assumes "router_ok ro" "table_names_ok table" "ro_Add host def (ro, table) = (added, ro', table')"
  shows "router_ok ro' \<and> names_of ro \<subseteq> names_of ro' \<and> gained host (names_of ro' - names_of ro) table table'"
proof -
  define name where "name = ToLower (cd_Name def)"
  show ?thesis
  proof (cases "name = [] \<or> omap_contains (ro_commands ro) name \<or> omap_contains (ro_aliases ro) name")
    case True
    then have "ro' = ro" "table' = table" using assms(3) by (auto simp: ro_Add_def Let_def name_def split: if_split_asm)
    with assms gained_refl show ?thesis by simp
  next
    case False
    note fresh = False
    obtain taken table1 where reg: "host_register host name table = (taken, table1)" by (cases "host_register host name table")
    note g = host_register_gained[OF assms(2) _ reg]
    have t1: "table_names_ok table1" using g False by (simp add: gained_def)
    show ?thesis
    proof (cases taken)
      case [simp]: False
      then have "ro' = ro" "table' = table1"
        using assms(3) fresh reg by (simp_all add: ro_Add_def Let_def name_def[symmetric])
      with assms(1) g fresh show ?thesis by simp
    next
      case [simp]: True
      obtain ro1 table2 where idx: "index_aliases host name (cd_Aliases def) (ro, table1) = (ro1, table2)"
        by (cases "index_aliases host name (cd_Aliases def) (ro, table1)")
      have r: "ro' = ro1\<lparr>ro_commands := omap_assign name def (ro_commands ro1)\<rparr>" "table' = table2"
        using assms(3) fresh reg idx by (simp_all add: ro_Add_def Let_def name_def[symmetric])
      have "router_pending name ro"
        using assms(1) fresh by (auto simp: router_ok_def router_pending_def names_of_def omap_contains_iff)
      from index_aliases_ok[OF this t1 idx]
      have f: "router_pending name ro1" "ro_commands ro1 = ro_commands ro" "names_of ro \<subseteq> names_of ro1"
        "gained host (names_of ro1 - names_of ro) table1 table'" by (simp_all add: r(2))
      have names: "names_of ro' = insert name (names_of ro1)" by (auto simp: r(1) names_of_def)
      have keys: "fst ` set (ro_commands ro') = insert name (fst ` set (ro_commands ro1))"
        "ro_aliases ro' = ro_aliases ro1" "omap_ok (ro_commands ro1) \<Longrightarrow> omap_ok (ro_commands ro')" by (auto simp: r(1))
      have "router_ok ro'"
        using f(1) fresh names unfolding router_ok_def router_pending_def names_of_def keys(1,2)
        by (simp add: keys(3)) blast
      moreover have "gained host {name} table table1" using g fresh by simp
      ultimately show ?thesis using gained_trans[of host "{name}" table table1, OF _ f(4)] names f(3)
        by (auto simp: gained_def split: option.splits)
    qed
  qed
qed

lemma ro_Find_names: "ro_Find ro name = Some def \<Longrightarrow> ToLower name \<in> names_of ro"
  by (auto simp: ro_Find_def names_of_def Let_def image_iff split: option.split_asm dest: map_of_SomeD) (force dest: map_of_SomeD)+

section \<open>Properties\<close>

text \<open>
  C17: a command with a handler over a signature the builder accepts runs exactly when the caller may run
  it, the count of tokens fits and every token binds: then the handler gets one value per parameter,
  each of the kind it declared, and its reply is the last line said. In every other case nothing
  changes and at most one line is said. Dispatch itself never throws.
\<close>

theorem Dispatch_gated:
  assumes "cb_Run args fn base = Some def"
  shows "\<exists>texts po' w'. ro_Dispatch env po def caller tokens origin w = Some (texts, po', w') \<and>
    (if allowed env po def caller \<and> fits args tokens \<and> isl (BindArgs args tokens caller (ce_resolve env)) = False
     then let bound = projr (BindArgs args tokens caller (ce_resolve env));
              slot = (case caller of Some p \<Rightarrow> pl_Slot p | None \<Rightarrow> -1);
              (answer, said_lines, new) = fn \<lparr>ca_Player = caller, ca_Slot = slot\<rparr> bound w
          in list_all2 unpack_ok args bound \<and> w' = new \<and>
             texts = said_lines @ Caller_SayRaw (case answer of Inr txt \<Rightarrow> txt | Inl e \<Rightarrow> FailureLine env e slot)
     else w' = w \<and> length texts \<le> 1)"
proof (cases "allowed env po def caller")
  case False
  then show ?thesis using Dispatch_refused[of env po def caller tokens origin w] by auto
next
  case True
  define slot where "slot = (case caller of Some p \<Rightarrow> pl_Slot p | None \<Rightarrow> -1)"
  have d: "cd_Args def = args" "cd_Invoke def = Some (Unpack args fn)" "OptionalsTrail args" "RestIsLast args"
    using assms by (auto simp: cb_Run_def split: if_split_asm)
  obtain po' where run: "ro_Dispatch env po def caller tokens origin w =
      (if \<not> HasRest args \<and> length args < length tokens
       then Some (Caller_SayRaw (tr_GetTokens (ce_translations env) (ce_languages env) ''cmd.tooManyArgs'' slot
              (UsageTokens env def slot origin)), po', w)
       else if length tokens < RequiredArgs args then Some (Caller_SayRaw (Usage env def slot origin), po', w)
       else case BindArgs args tokens caller (ce_resolve env) of
              Inl e \<Rightarrow> Some (Caller_SayRaw (tr_GetTokens (ce_translations env) (ce_languages env) (ae_Key e) slot (ae_Vars e)), po', w)
            | Inr bound \<Rightarrow> (case Unpack args fn \<lparr>ca_Player = caller, ca_Slot = slot\<rparr> bound w of
                None \<Rightarrow> None
              | Some (result, said_lines, w') \<Rightarrow>
                  Some (said_lines @ Caller_SayRaw (case result of Inr txt \<Rightarrow> txt | Inl e \<Rightarrow> FailureLine env e slot), po', w')))"
    using Dispatch_allowed[OF True, of tokens origin w] unfolding d slot_def[symmetric] Let_def option.case by (elim exE) (rule that)
  have one: "length (Caller_SayRaw line) \<le> 1" for line by (simp add: Caller_SayRaw_def)
  show ?thesis
  proof (cases "fits args tokens \<and> isl (BindArgs args tokens caller (ce_resolve env)) = False")
    case False
    then show ?thesis using one unfolding run fits_def
      by (cases "BindArgs args tokens caller (ce_resolve env)") (simp_all add: not_le, auto)
  next
    case fit: True
    then obtain bound where b: "BindArgs args tokens caller (ce_resolve env) = Inr bound"
      by (cases "BindArgs args tokens caller (ce_resolve env)") auto
    have typed: "list_all2 unpack_ok args bound"
      using bind_loop_typed[OF d(3,4), of tokens "ce_resolve env" caller "[]" bound "[]"] fit b by (simp add: fits_def BindArgs_def)
    then have "length bound = length args" by (simp add: list_all2_lengthD)
    then have "Unpack args fn c bound w = Some (fn c bound w)" for c using typed by (simp add: Unpack_def)
    then show ?thesis using True fit typed unfolding run b slot_def[symmetric]
      by (auto simp: fits_def Let_def not_less split: prod.split)
  qed
qed

definition example_env :: command_env where
  "example_env = \<lparr>ce_players = pm_init, ce_translations = tr_init, ce_languages = (\<lambda>_. []),
     ce_resolve = (\<lambda>token caller rules. Inr [example_player])\<rparr>"

definition count_handler :: "Caller \<Rightarrow> BoundArg list \<Rightarrow> nat \<Rightarrow> string result \<times> string list \<times> nat" where
  "count_handler caller bound n = (Inr ''Done.'', [''Working...''], n + length bound)"

definition example_command :: "nat CommandDefinition" where
  "example_command = (new_command ''slap'')\<lparr>cd_Args := example_args, cd_Invoke := Some (Unpack example_args count_handler)\<rparr>"

theorem Dispatch_gated_witness:
  "\<exists>po'. ro_Dispatch example_env (\<lparr>po_HasPermission = None, po_CanTarget = None, po_missingPermissionWarned = False\<rparr>)
     example_command None [''@me'', ''red''] Console 2 = Some ([''Working...'', ''Done.''], po', 5)"
proof -
  have run: "cb_Run example_args count_handler (new_command ''slap'') = Some example_command"
    by (simp add: cb_Run_def example_command_def example_args_def OptionalsTrail_def RestIsLast_def)
  have b: "BindArgs example_args [''@me'', ''red''] None (ce_resolve example_env) = Inr [BTarget example_player, BWord ''red'', Omitted]"
    by (simp add: example_args_def BindArgs_def bind_one_def BindTarget_def example_env_def)
  have "allowed example_env po example_command None" for po by (simp add: allowed_def)
  moreover have "fits example_args [''@me'', ''red'']" by (simp add: fits_def example_args_def RequiredArgs_def HasRest_def)
  ultimately show ?thesis
    using Dispatch_gated[OF run, of example_env _ None "[''@me'', ''red'']" Console 2] b
    by (simp add: count_handler_def Caller_SayRaw_def eval_nat_numeral)
qed

text \<open>
  Several plugins on one host: each has its manager's router, all of them the host's table. A plugin adds a
  command, or goes away: its router is cleared and the host drops its names. The host reserves names of
  its own (owner 0; a plugin's owner id is positive).
\<close>

record 'w command_host =
  ch_names :: CommandNames
  ch_routers :: "nat \<Rightarrow> 'w CommandRouter"

inductive host_commands :: "'w command_host \<Rightarrow> bool" where
  start: "host_commands \<lparr>ch_names = [], ch_routers = (\<lambda>_. ro_init)\<rparr>"
| adds: "host_commands h \<Longrightarrow> 0 < owner \<Longrightarrow>
    ro_Add (Some (owner, ownerName)) def (ch_routers h owner, ch_names h) = (added, ro, table) \<Longrightarrow>
    host_commands \<lparr>ch_names = table, ch_routers = (ch_routers h)(owner := ro)\<rparr>"
| leaves: "host_commands h \<Longrightarrow> 0 < owner \<Longrightarrow>
    host_commands \<lparr>ch_names = cn_RemoveAll owner (ch_names h), ch_routers = (ch_routers h)(owner := ro_Clear (ch_routers h owner))\<rparr>"
| reserves: "host_commands h \<Longrightarrow> host_commands (h\<lparr>ch_names := cn_Reserve name (ch_names h)\<rparr>)"

definition commands_owned :: "'w command_host \<Rightarrow> bool" where
  "commands_owned h \<longleftrightarrow> table_names_ok (ch_names h) \<and>
     (\<forall>owner. router_ok (ch_routers h owner) \<and> (\<forall>n \<in> names_of (ch_routers h owner). cn_owner (ch_names h) n = Some owner))"

lemma cn_owner_Reserve: "cn_owner table n = Some owner \<Longrightarrow> cn_owner (cn_Reserve name table) n = Some owner"
  by (auto simp: cn_owner_def cn_Reserve_def find_append)

lemma table_names_Reserve: "table_names_ok table \<Longrightarrow> table_names_ok (cn_Reserve name table)"
  by (auto simp: table_names_ok_def cn_Reserve_def find_None_iff)

lemma host_commands_owned: "host_commands h \<Longrightarrow> commands_owned h"
proof (induction rule: host_commands.induct)
  case start
  show ?case by (simp add: commands_owned_def table_names_ok_def router_ok_def names_of_def ro_init_def)
next
  case (adds h owner ownerName "def" added ro table)
  have ok: "router_ok (ch_routers h owner)" "table_names_ok (ch_names h)"
    and own: "\<And>o' n. n \<in> names_of (ch_routers h o') \<Longrightarrow> cn_owner (ch_names h) n = Some o'"
    using adds.IH by (auto simp: commands_owned_def)
  from ro_Add_ok[OF ok adds.hyps(3)] have f: "router_ok ro" "gained (Some (owner, ownerName)) (names_of ro - names_of (ch_routers h owner)) (ch_names h) table"
    by simp_all
  have "cn_owner table n = Some owner" if "n \<in> names_of ro" for n
    using f(2) own[of n owner] that by (cases "n \<in> names_of (ch_routers h owner)") (auto simp: gained_def)
  then show ?case using adds.IH f own by (auto simp: commands_owned_def gained_def)
next
  case (leaves h owner)
  have ok: "table_names_ok (ch_names h)" using leaves.IH by (simp add: commands_owned_def)
  have "table_names_ok (cn_RemoveAll owner (ch_names h))"
    using commands.invar_release[of "ch_names h" owner] ok by (simp add: table_names_ok_def)
  moreover have "cn_owner (cn_RemoveAll owner (ch_names h)) n = (if cn_owner (ch_names h) n = Some owner then None else cn_owner (ch_names h) n)" for n
    using commands.owner_release[of "ch_names h" owner n] ok by (simp add: table_names_ok_def)
  ultimately show ?case using leaves.IH
    by (auto simp: commands_owned_def ro_Clear_def router_ok_def names_of_def)
next
  case (reserves h name)
  then show ?case by (auto simp: commands_owned_def table_names_Reserve intro: cn_owner_Reserve)
qed

text \<open>
  whatever plugins add, leave and the host reserves, a typed name is found in the router of one plugin at
  most, whatever its case; that plugin is the one the host's table names, so the chat message is
  foreign to every other plugin, and names the host reserved first are found in none.
\<close>

theorem one_plugin_answers:
  assumes "host_commands h" and "ro_Find (ch_routers h owner) name = Some def"
  shows "cn_owner (ch_names h) (ToLower name) = Some owner \<and>
    (\<forall>other. other \<noteq> owner \<longrightarrow> ro_Find (ch_routers h other) name = None)"
proof -
  have own: "cn_owner (ch_names h) (ToLower name) = Some o'" if "ro_Find (ch_routers h o') name = Some d" for o' d
    using host_commands_owned[OF assms(1)] ro_Find_names[OF that] by (simp add: commands_owned_def)
  have "ro_Find (ch_routers h other) name = None" if "other \<noteq> owner" for other
    using own[of other] own[OF assms(2)] that by (cases "ro_Find (ch_routers h other) name") auto
  with own[OF assms(2)] show ?thesis by blast
qed

definition example_host_commands :: "nat command_host" where
  "example_host_commands =
     (let (_, ro, table) = ro_Add (Some (3, ''fun'')) (cb_Alias ''HIT'' example_command) (ro_init, cn_Reserve ''volt'' [])
      in \<lparr>ch_names = table, ch_routers = (\<lambda>_. ro_init)(3 := ro)\<rparr>)"

theorem one_plugin_answers_witness:
  "host_commands example_host_commands \<and> ro_Find (ch_routers example_host_commands 3) ''Hit'' \<noteq> None \<and>
   ro_Find (ch_routers example_host_commands 4) ''Hit'' = None"
proof -
  have "host_commands ((\<lparr>ch_names = [], ch_routers = (\<lambda>_. ro_init)\<rparr> :: nat command_host)\<lparr>ch_names := cn_Reserve ''volt'' []\<rparr>)"
    using host_commands.reserves[OF host_commands.start] by simp
  from host_commands.adds[OF this, of 3 "''fun''" "cb_Alias ''HIT'' example_command"]
  have h: "host_commands example_host_commands"
    by (simp add: example_host_commands_def split: prod.split)
  have "ro_Find (ch_routers example_host_commands 3) ''Hit'' = Some (cb_Alias ''HIT'' example_command)"
    by (simp add: example_host_commands_def ro_Add_def ro_init_def cn_Reserve_def example_command_def new_command_def cb_Alias_def
        host_register_def cn_Register_def ro_Find_def ToLower_def to_lower_def char_of_def bit_0 omap_contains_def omap_emplace_def Let_def)
  with one_plugin_answers[OF h this] h show ?thesis by simp
qed

end
