(* ===== verification/MenuModel.thy ===== *)
theory MenuModel
  imports Translations "HOL-Library.Signed_Division"
begin

text \<open>
  Menus as data, and the cursor. Sources: \<^verbatim>\<open>include/VoltMod/Menu/MenuModel.hpp\<close>,
  \<^verbatim>\<open>src/Menu/MenuCursor.{hpp,cpp}\<close>. Division and remainder of \<^verbatim>\<open>int\<close> truncate (\<open>sdiv\<close>, \<open>smod\<close>);
  indexes stay far from the ends of \<^verbatim>\<open>int\<close>, so addition is on the integers. A callback is named by a value of
  \<open>'c\<close>; what it does is an argument of the operations that call it. \<open>mn_Id\<close> is the address of a
  shared \<^verbatim>\<open>Menu\<close>.
\<close>

section \<open>Pages\<close>

definition PageCount :: "int \<Rightarrow> int \<Rightarrow> int" where
  "PageCount items perPage = (if items \<le> 0 then 1 else (items + perPage - 1) sdiv perPage)"

definition WrapIndex :: "int \<Rightarrow> int \<Rightarrow> int" where
  "WrapIndex value cnt = (if cnt \<le> 0 then 0 else (value smod cnt + cnt) smod cnt)"

section \<open>Rows and menus\<close>

datatype MenuRowKind = TextKind | ButtonKind | SubmenuKind | ToggleKind | ChoiceKind | InputKind

record MenuRow =
  mr_Label :: string
  mr_Value :: string
  mr_Kind :: MenuRowKind
  mr_Enabled :: bool
  mr_Selectable :: bool
  mr_Steppable :: bool
  mr_State :: "bool option"
  mr_Icon :: string
  mr_Pending :: bool
  mr_Changed :: bool

definition new_row :: MenuRow where
  "new_row = \<lparr>mr_Label = [], mr_Value = [], mr_Kind = ButtonKind, mr_Enabled = True, mr_Selectable = True,
     mr_Steppable = False, mr_State = None, mr_Icon = [], mr_Pending = False, mr_Changed = False\<rparr>"

record MenuOptions =
  mo_FreezeMovement :: bool
  mo_HomePage :: bool

definition default_options :: MenuOptions where
  "default_options = \<lparr>mo_FreezeMovement = True, mo_HomePage = False\<rparr>"

record 'c MenuItem =
  mi_Describe :: "'c option"
  mi_Activate :: "'c option"
  mi_Step :: "'c option"
  mi_Commit :: "'c option"

record 'c Menu =
  mn_Id :: nat
  mn_Title :: string
  mn_Subtitle :: string
  mn_Items :: "'c MenuItem list"

definition IsRowActionable :: "('c \<Rightarrow> int \<Rightarrow> MenuRow) \<Rightarrow> 'c MenuItem \<Rightarrow> int \<Rightarrow> bool" where
  "IsRowActionable describe item slot \<longleftrightarrow>
     (case mi_Describe item of None \<Rightarrow> False
      | Some d \<Rightarrow> mr_Enabled (describe d slot) \<and> mr_Selectable (describe d slot))"

section \<open>The cursor\<close>

record CursorRows =
  cu_Count :: int
  cu_Selectable :: "(int \<Rightarrow> bool) option"

definition IsSelectable :: "CursorRows \<Rightarrow> int \<Rightarrow> bool" where
  "IsSelectable rows index \<longleftrightarrow>
     (if index < 0 \<or> index \<ge> cu_Count rows then False
      else case cu_Selectable rows of None \<Rightarrow> True | Some f \<Rightarrow> f index)"

text \<open>The bounded loop of \<^verbatim>\<open>Step\<close>; it runs its body at least once.\<close>

fun step_loop :: "CursorRows \<Rightarrow> int \<Rightarrow> nat \<Rightarrow> int \<Rightarrow> int" where
  "step_loop rows step 0 index = index"
| "step_loop rows step (Suc attempts) index =
     (let i = WrapIndex (index + step) (cu_Count rows)
      in if IsSelectable rows i \<or> attempts = 0 then i else step_loop rows step attempts i)"

definition cursor_Step :: "CursorRows \<Rightarrow> int \<Rightarrow> int \<Rightarrow> int" where
  "cursor_Step rows index step = (if cu_Count rows \<le> 0 then index else step_loop rows step (nat (cu_Count rows)) index)"

definition cursor_First :: "CursorRows \<Rightarrow> int" where
  "cursor_First rows = (if cu_Count rows \<le> 0 \<or> IsSelectable rows 0 then 0 else cursor_Step rows 0 1)"

fun page_loop :: "CursorRows \<Rightarrow> int \<Rightarrow> int \<Rightarrow> nat \<Rightarrow> int \<Rightarrow> int" where
  "page_loop rows start stop 0 landed = landed"
| "page_loop rows start stop (Suc attempts) landed =
     (if IsSelectable rows landed then landed
      else page_loop rows start stop attempts (if landed + 1 < stop then landed + 1 else start))"

definition cursor_JumpPage :: "CursorRows \<Rightarrow> int \<Rightarrow> int \<Rightarrow> int \<Rightarrow> int" where
  "cursor_JumpPage rows index rowsPerPage delta =
     (if cu_Count rows \<le> 0 \<or> rowsPerPage \<le> 0 then index
      else let pages = PageCount (cu_Count rows) rowsPerPage;
               page = WrapIndex (index sdiv rowsPerPage + delta) pages;
               start = page * rowsPerPage;
               stop = min (cu_Count rows) (start + rowsPerPage)
           in page_loop rows start stop (nat (stop - start)) (min (start + index smod rowsPerPage) (stop - 1)))"

section \<open>Pages and wrapping, in plain arithmetic\<close>

lemma sdiv_nonneg: "0 \<le> a \<Longrightarrow> 0 < b \<Longrightarrow> a sdiv b = a div (b :: int)"
  by (cases "a = 0") (simp_all add: signed_divide_int_def)

lemma WrapIndex_mod:
  assumes "0 < cnt"
  shows "WrapIndex val cnt = val mod cnt"
proof -
  have r: "- cnt < val smod cnt" "val smod cnt < cnt" using smod_int_range[of cnt val] assms by auto
  then have "WrapIndex val cnt = (val smod cnt + cnt) mod cnt" using assms by (simp add: WrapIndex_def smod_mod_positive)
  also have "\<dots> = val smod cnt mod cnt" by simp
  also have "\<dots> = val mod cnt" using assms by (simp add: signed_modulo_int_eq_modulo_int mod_diff_eq[symmetric])
  finally show ?thesis .
qed

lemma PageCount_div: "0 < items \<Longrightarrow> 0 < perPage \<Longrightarrow> PageCount items perPage = (items - 1) div perPage + 1"
  using div_add_self2[of perPage "items - 1"] by (simp add: PageCount_def sdiv_nonneg algebra_simps)

lemma PageCount_pos: "0 < perPage \<Longrightarrow> 0 < PageCount items perPage"
  by (cases "items \<le> 0") (simp_all add: PageCount_div pos_imp_zdiv_nonneg_iff add_nonneg_pos, simp add: PageCount_def)

section \<open>Where the loops stop\<close>

lemma IsSelectable_range: "IsSelectable rows i \<Longrightarrow> 0 \<le> i \<and> i < cu_Count rows"
  by (simp add: IsSelectable_def split: if_splits)

lemma step_loop_visits:
  assumes "0 < cu_Count rows"
  shows "\<exists>k. 1 \<le> k \<and> k \<le> Suc attempts \<and> step_loop rows step (Suc attempts) index = (index + int k * step) mod cu_Count rows \<and>
    (\<forall>j. 1 \<le> j \<longrightarrow> j < k \<longrightarrow> \<not> IsSelectable rows ((index + int j * step) mod cu_Count rows)) \<and>
    (IsSelectable rows (step_loop rows step (Suc attempts) index) \<or> k = Suc attempts)"
proof (induction attempts arbitrary: index)
  case 0
  then show ?case using assms by (intro exI[of _ 1]) (auto simp: WrapIndex_mod)
next
  case (Suc attempts)
  let ?n = "cu_Count rows" and ?i = "(index + step) mod cu_Count rows"
  have shift: "(?i + int k * step) mod ?n = (index + int (Suc k) * step) mod ?n" for k
    using mod_add_left_eq[of "index + step" ?n "int k * step"] by (simp add: algebra_simps)
  show ?case
  proof (cases "IsSelectable rows ?i")
    case True
    then show ?thesis using assms by (intro exI[of _ 1]) (auto simp: WrapIndex_mod)
  next
    case False
    obtain k where k: "1 \<le> k" "k \<le> Suc attempts" "step_loop rows step (Suc attempts) ?i = (?i + int k * step) mod ?n"
      "\<And>j. 1 \<le> j \<Longrightarrow> j < k \<Longrightarrow> \<not> IsSelectable rows ((?i + int j * step) mod ?n)"
      "IsSelectable rows (step_loop rows step (Suc attempts) ?i) \<or> k = Suc attempts"
      using Suc.IH[of ?i] by blast
    have loop: "step_loop rows step (Suc (Suc attempts)) index = step_loop rows step (Suc attempts) ?i"
      using False assms by (simp add: WrapIndex_mod Let_def)
    have "\<not> IsSelectable rows ((index + int j * step) mod ?n)" if "1 \<le> j" "j < Suc k" for j
      using that False k(4)[of "j - 1"] shift[of "j - 1"] by (cases "j = 1") simp_all
    then show ?thesis using k shift unfolding loop by (intro exI[of _ "Suc k"]) auto
  qed
qed

lemma reach_forward:
  assumes "0 \<le> i" "i < n" "0 \<le> index" "index < (n :: int)"
  shows "\<exists>j. 1 \<le> j \<and> j \<le> nat n \<and> i = (index + int j * 1) mod n" "\<exists>j. 1 \<le> j \<and> j \<le> nat n \<and> i = (index + int j * -1) mod n"
proof -
  have "i = (index + int (if index < i then nat (i - index) else nat (i - index + n))) mod n"
    using assms by (simp add: algebra_simps)
  then show "\<exists>j. 1 \<le> j \<and> j \<le> nat n \<and> i = (index + int j * 1) mod n"
    using assms by (intro exI[of _ "if index < i then nat (i - index) else nat (i - index + n)"]) auto
  have "(index - (index - i + n)) mod n = i"
    using assms by (simp add: algebra_simps)
  then have "i = (index - int (if i < index then nat (index - i) else nat (index - i + n))) mod n"
    using assms by simp
  then show "\<exists>j. 1 \<le> j \<and> j \<le> nat n \<and> i = (index + int j * -1) mod n"
    using assms by (intro exI[of _ "if i < index then nat (index - i) else nat (index - i + n)"]) auto
qed

lemma cursor_Step_spec:
  assumes range: "0 \<le> index" "index < cu_Count rows" and step: "step = 1 \<or> step = -1"
  shows "if \<exists>i. IsSelectable rows i
    then \<exists>k. 1 \<le> k \<and> cursor_Step rows index step = (index + int k * step) mod cu_Count rows \<and> IsSelectable rows (cursor_Step rows index step) \<and>
      (\<forall>j. 1 \<le> j \<longrightarrow> j < k \<longrightarrow> \<not> IsSelectable rows ((index + int j * step) mod cu_Count rows))
    else cursor_Step rows index step = index"
proof -
  let ?n = "cu_Count rows"
  obtain a where a: "nat ?n = Suc a" using range by (cases "nat ?n") auto
  have r: "cursor_Step rows index step = step_loop rows step (Suc a) index" using range a by (simp add: cursor_Step_def)
  obtain k where k: "1 \<le> k" "k \<le> Suc a" "cursor_Step rows index step = (index + int k * step) mod ?n"
    "\<And>j. 1 \<le> j \<Longrightarrow> j < k \<Longrightarrow> \<not> IsSelectable rows ((index + int j * step) mod ?n)"
    "IsSelectable rows (cursor_Step rows index step) \<or> k = Suc a"
    using step_loop_visits[of rows a step index] range unfolding r by auto
  show ?thesis
  proof (cases "\<exists>i. IsSelectable rows i")
    case True
    then obtain i where i: "IsSelectable rows i" by blast
    obtain j where j: "1 \<le> j" "j \<le> Suc a" "i = (index + int j * step) mod ?n"
      using reach_forward[of i ?n index] IsSelectable_range[OF i] range step a by metis
    have "IsSelectable rows (cursor_Step rows index step)"
      using k j i by (metis le_neq_implies_less)
    with True k show ?thesis by auto
  next
    case False
    then have "int k = ?n" using k(5) a by auto
    then show ?thesis using False k(3) step range by (auto simp: mod_pos_pos_trivial)
  qed
qed

lemma cursor_First_spec:
  "if \<exists>i. IsSelectable rows i then IsSelectable rows (cursor_First rows) \<and> (\<forall>i < cursor_First rows. \<not> IsSelectable rows i)
   else cursor_First rows = 0"
proof (cases "cu_Count rows \<le> 0 \<or> IsSelectable rows 0")
  case True
  then show ?thesis by (auto simp: cursor_First_def dest: IsSelectable_range)
next
  case False
  let ?n = "cu_Count rows" and ?r = "cursor_First rows"
  have r: "?r = cursor_Step rows 0 1" and pos: "0 < ?n" using False by (simp_all add: cursor_First_def)
  show ?thesis
  proof (cases "\<exists>i. IsSelectable rows i")
    case some: True
    then obtain k where k: "1 \<le> k" "?r = int k mod ?n" "IsSelectable rows ?r"
      "\<And>j. 1 \<le> j \<Longrightarrow> j < k \<Longrightarrow> \<not> IsSelectable rows (int j mod ?n)"
      using cursor_Step_spec[of 0 rows 1] pos unfolding r by auto
    have "\<not> IsSelectable rows i" if "i < ?r" for i
    proof
      assume i: "IsSelectable rows i"
      have range: "0 \<le> i" "i < ?n" "i \<noteq> 0" using IsSelectable_range[OF i] False i by (blast, blast, metis)
      then have "1 \<le> nat i" "int (nat i) mod ?n = i" by simp_all
      moreover have "nat i < k" using that k(2) IsSelectable_range[OF i] zmod_le_nonneg_dividend[of "int k" ?n] by auto
      ultimately show False using k(4)[of "nat i"] i by simp
    qed
    with some k(3) show ?thesis by simp
  next
    case none: False
    then show ?thesis using cursor_Step_spec[of 0 rows 1] pos r by simp
  qed
qed

lemma page_loop_visits:
  assumes "start \<le> landed" "landed < stop"
  shows "\<exists>k \<le> attempts. page_loop rows start stop attempts landed = start + (landed - start + int k) mod (stop - start) \<and>
    (\<forall>j < k. \<not> IsSelectable rows (start + (landed - start + int j) mod (stop - start))) \<and>
    (IsSelectable rows (page_loop rows start stop attempts landed) \<or> k = attempts)"
  using assms
proof (induction attempts arbitrary: landed)
  case (Suc attempts)
  show ?case
  proof (cases "IsSelectable rows landed")
    case True
    then show ?thesis using Suc.prems by (intro exI[of _ 0]) simp
  next
    case False
    define nxt where "nxt = (if landed + 1 < stop then landed + 1 else start)"
    have nxt: "start \<le> nxt" "nxt < stop" using Suc.prems by (simp_all add: nxt_def)
    have shift: "(nxt - start + int k) mod (stop - start) = (landed - start + int (Suc k)) mod (stop - start)" for k
    proof (cases "landed + 1 < stop")
      case False
      then have e: "landed - start + int (Suc k) = int k + (stop - start)" using Suc.prems by simp
      show ?thesis using False unfolding e by (simp add: nxt_def)
    qed (simp add: nxt_def algebra_simps)
    from Suc.IH[OF nxt] obtain k where k: "k \<le> attempts"
      "page_loop rows start stop attempts nxt = start + (nxt - start + int k) mod (stop - start)"
      "\<And>j. j < k \<Longrightarrow> \<not> IsSelectable rows (start + (nxt - start + int j) mod (stop - start))"
      "IsSelectable rows (page_loop rows start stop attempts nxt) \<or> k = attempts" by blast
    have loop: "page_loop rows start stop (Suc attempts) landed = page_loop rows start stop attempts nxt"
      using False by (simp add: nxt_def)
    have "\<not> IsSelectable rows (start + (landed - start + int j) mod (stop - start))" if "j < Suc k" for j
      using that False Suc.prems k(3)[of "j - 1"] shift[of "j - 1"] by (cases j) simp_all
    then show ?thesis using k shift[of k] unfolding loop by (intro exI[of _ "Suc k"]) simp
  qed
qed simp

lemma cursor_JumpPage_spec:
  assumes range: "0 \<le> index" "index < cu_Count rows" "0 < rowsPerPage"
    and page: "page = (index div rowsPerPage + delta) mod PageCount (cu_Count rows) rowsPerPage"
    and r: "r = cursor_JumpPage rows index rowsPerPage delta"
  shows "0 \<le> r \<and> r < cu_Count rows \<and> r div rowsPerPage = page \<and>
    ((\<exists>i. IsSelectable rows i \<and> i div rowsPerPage = page) \<longrightarrow> IsSelectable rows r)"
proof -
  let ?n = "cu_Count rows"
  define start where "start = page * rowsPerPage"
  define stop where "stop = min ?n (start + rowsPerPage)"
  define landed where "landed = min (start + index mod rowsPerPage) (stop - 1)"
  have pages: "PageCount ?n rowsPerPage = (?n - 1) div rowsPerPage + 1" using range by (simp add: PageCount_div)
  have p: "0 \<le> page" "page \<le> (?n - 1) div rowsPerPage"
    using PageCount_pos[OF range(3), of ?n] pages pos_mod_bound[of "PageCount ?n rowsPerPage" "index div rowsPerPage + delta"] by (auto simp: page)
  have "start \<le> (?n - 1) div rowsPerPage * rowsPerPage" using p(2) range(3) by (simp add: start_def mult_right_mono)
  also have "\<dots> \<le> ?n - 1" using div_mult_mod_eq[of "?n - 1" rowsPerPage] pos_mod_sign[OF range(3), of "?n - 1"] by linarith
  finally have start: "start < ?n" "0 \<le> start" using p(1) range(3) by (simp_all add: start_def)
  then have ends: "start < stop" "stop \<le> ?n" "stop \<le> start + rowsPerPage" using range(3) by (auto simp: stop_def)
  have l: "start \<le> landed" "landed < stop" using ends range by (auto simp: landed_def)
  have w: "WrapIndex (index div rowsPerPage + delta) (PageCount ?n rowsPerPage) = page"
    using PageCount_pos[OF range(3), of ?n] by (simp add: WrapIndex_mod page)
  have r': "r = page_loop rows start stop (nat (stop - start)) landed"
    using range w unfolding r cursor_JumpPage_def by (simp add: Let_def sdiv_nonneg smod_mod_positive start_def stop_def landed_def)
  obtain k where k: "k \<le> nat (stop - start)" "r = start + (landed - start + int k) mod (stop - start)"
      "\<And>j. j < k \<Longrightarrow> \<not> IsSelectable rows (start + (landed - start + int j) mod (stop - start))"
      "IsSelectable rows r \<or> k = nat (stop - start)"
    using page_loop_visits[OF l, of "nat (stop - start)" rows] unfolding r' by blast
  have in_page: "i div rowsPerPage = page" if "start \<le> i" "i < stop" for i
    using that ends by (intro int_div_pos_eq[of _ _ _ "i - start"]) (auto simp: start_def)
  have rr: "start \<le> r" "r < stop"
    using ends(1) pos_mod_bound[of "stop - start" "landed - start + int k"] pos_mod_sign[of "stop - start" "landed - start + int k"]
    unfolding k(2) by linarith+
  have "IsSelectable rows r" if i: "IsSelectable rows i" "i div rowsPerPage = page" for i
  proof (rule ccontr)
    assume "\<not> IsSelectable rows r"
    then have all: "k = nat (stop - start)" using k(4) by simp
    have "start \<le> i" "i < start + rowsPerPage"
      using i(2) div_mult_mod_eq[of i rowsPerPage] pos_mod_bound[OF range(3), of i] pos_mod_sign[OF range(3), of i] by (auto simp: start_def)
    then have i': "0 \<le> i - start" "i - start < stop - start" using IsSelectable_range[OF i(1)] by (auto simp: stop_def)
    have "((landed - start) + (i - landed) mod (stop - start)) mod (stop - start) = i - start"
      using i' by (simp add: mod_add_right_eq)
    moreover have "nat ((i - landed) mod (stop - start)) < k" using all ends(1) by (simp add: nat_less_iff)
    ultimately show False using k(3)[of "nat ((i - landed) mod (stop - start))"] i(1) ends(1) by simp
  qed
  with rr start ends in_page[OF rr] show ?thesis by auto
qed

section \<open>Properties\<close>

text \<open>
  from a row of the menu a step lands on the nearest selectable row in its direction, around the
  end; the first row chosen is the first selectable one; a jump lands on the page it names, around the
  end, on a selectable row whenever that page has one. With no selectable row the step and the choice
  stay where they are.
\<close>

theorem cursor_lands:
  assumes "0 \<le> index" and "index < cu_Count rows" and "step = 1 \<or> step = -1" and "0 < rowsPerPage"
  shows "(if \<exists>i. IsSelectable rows i
     then (\<exists>k. 1 \<le> k \<and> cursor_Step rows index step = (index + int k * step) mod cu_Count rows \<and> IsSelectable rows (cursor_Step rows index step) \<and>
            (\<forall>j. 1 \<le> j \<longrightarrow> j < k \<longrightarrow> \<not> IsSelectable rows ((index + int j * step) mod cu_Count rows))) \<and>
          IsSelectable rows (cursor_First rows) \<and> (\<forall>i < cursor_First rows. \<not> IsSelectable rows i)
     else cursor_Step rows index step = index \<and> cursor_First rows = 0) \<and>
   (let page = (index div rowsPerPage + delta) mod PageCount (cu_Count rows) rowsPerPage;
        r = cursor_JumpPage rows index rowsPerPage delta
    in 0 \<le> r \<and> r < cu_Count rows \<and> r div rowsPerPage = page \<and>
       ((\<exists>i. IsSelectable rows i \<and> i div rowsPerPage = page) \<longrightarrow> IsSelectable rows r))"
proof (rule conjI)
  let ?some = "\<exists>i. IsSelectable rows i"
  show "if ?some then (\<exists>k. 1 \<le> k \<and> cursor_Step rows index step = (index + int k * step) mod cu_Count rows \<and> IsSelectable rows (cursor_Step rows index step) \<and>
            (\<forall>j. 1 \<le> j \<longrightarrow> j < k \<longrightarrow> \<not> IsSelectable rows ((index + int j * step) mod cu_Count rows))) \<and>
          IsSelectable rows (cursor_First rows) \<and> (\<forall>i < cursor_First rows. \<not> IsSelectable rows i)
     else cursor_Step rows index step = index \<and> cursor_First rows = 0"
  proof (cases ?some)
    case True
    show ?thesis using cursor_Step_spec[OF assms(1-3)] cursor_First_spec[of rows] unfolding if_P[OF True] by blast
  next
    case False
    show ?thesis using cursor_Step_spec[OF assms(1-3)] cursor_First_spec[of rows] unfolding if_not_P[OF False] by blast
  qed
qed (unfold Let_def, rule cursor_JumpPage_spec[OF assms(1,2,4) refl refl])

definition example_rows :: CursorRows where
  "example_rows = \<lparr>cu_Count = 7, cu_Selectable = Some (\<lambda>i. i \<noteq> 0 \<and> i \<noteq> 6)\<rparr>"

theorem cursor_lands_witness:
  "cursor_Step example_rows 5 1 = 1 \<and> cursor_First example_rows = 1 \<and> cursor_JumpPage example_rows 4 5 1 = 5 \<and>
   IsSelectable example_rows (cursor_JumpPage example_rows 4 5 1)"
proof -
  have "IsSelectable example_rows 1" by (simp add: example_rows_def IsSelectable_def)
  moreover have "cursor_Step example_rows 5 1 = 1 \<and> cursor_First example_rows = 1 \<and> cursor_JumpPage example_rows 4 5 1 = 5"
    by code_simp
  ultimately show ?thesis using cursor_lands[of 4 example_rows 1 5 1] by (auto simp: example_rows_def IsSelectable_def)
qed

end
