(* ===== verification/MenuState.thy ===== *)
theory MenuState
  imports MenuModel "HOL-Library.Word"
begin

text \<open>
  The state the menu services of one plugin share, and what they ask of the rest. A service keeps
  its fields: \<^verbatim>\<open>MenuStack\<close> and \<^verbatim>\<open>PendingCommit\<close> once per surface (\<open>ui_States\<close>, \<open>ui_Held\<close>),
  \<^verbatim>\<open>ChatInput\<close>, \<^verbatim>\<open>MenuFreeze\<close> with the pawns it holds, \<^verbatim>\<open>CenterHtmlMenu\<close>, \<^verbatim>\<open>PanoramaMenu\<close> and
  \<^verbatim>\<open>MenuRouter\<close>; \<open>ui_Own\<close> is the selection of each choice row that keeps its own. \<open>ui_Out\<close> is what was sent to
  players, in order, and \<open>ui_Crashed\<close> marks an operation C++ leaves undefined. The environment says what a callback
  does: any function of the whole state, which is how a callback may open, close or step menus itself.
  Sources of the data: \<^verbatim>\<open>include/VoltMod/Menu/{MenuStack,PendingCommit,ChatInput,MenuFreeze,CenterHtmlMenu,PanoramaMenu}.hpp\<close>,
  \<^verbatim>\<open>include/VoltMod/Entities/MovementFreeze.hpp\<close>.
\<close>

datatype Surface = CenterSurface | PanoramaSurface

section \<open>Data\<close>

record RowMemory =
  rm_Value :: string
  rm_ChangedAt :: int
  rm_Drawn :: bool

definition new_memory :: RowMemory where
  "new_memory = \<lparr>rm_Value = [], rm_ChangedAt = 0, rm_Drawn = False\<rparr>"

text \<open>A null \<^verbatim>\<open>shared_ptr\<close> in the stack is \<open>None\<close>.\<close>

record 'c StackState =
  ss_Menus :: "'c Menu option list"
  ss_Rows :: "RowMemory list"
  ss_Breadcrumb :: string

definition new_stack :: "'c StackState" where
  "new_stack = \<lparr>ss_Menus = [], ss_Rows = [], ss_Breadcrumb = []\<rparr>"

text \<open>The timer belongs to the entry; \<open>he_Due\<close> is when it fires.\<close>

record 'c HeldEntry =
  he_Index :: int
  he_Commit :: "'c option"
  he_Due :: "int option"

definition no_entry :: "'c HeldEntry" where
  "no_entry = \<lparr>he_Index = -1, he_Commit = None, he_Due = None\<rparr>"

record 'c Capture =
  cp_Prompt :: string
  cp_Callback :: 'c
  cp_Timeout :: "int option"

record PawnState =
  pw_Ref :: nat
  pw_Alive :: bool
  pw_MoveType :: nat

record MovementFreeze =
  mf_Pawn :: "nat option"
  mf_Prev :: nat

record FreezeState =
  fs_Requested :: bool
  fs_Movement :: MovementFreeze

record Page =
  pg_Html :: string
  pg_RenderedAt :: int
  pg_SentAt :: int

record Cursor =
  cr_Selected :: int
  cr_PrevButtons :: "64 word"
  cr_LastInputTime :: int
  cr_LastSent :: Page

record Tab =
  tb_RootIndex :: int
  tb_Label :: string
  tb_Icon :: string

record Session =
  se_Tabs :: "Tab list"
  se_SelectedTab :: int
  se_Page :: int
  se_HomePage :: bool

definition new_page :: Page where
  "new_page = \<lparr>pg_Html = [], pg_RenderedAt = 0, pg_SentAt = 0\<rparr>"

definition new_cursor :: Cursor where
  "new_cursor = \<lparr>cr_Selected = 0, cr_PrevButtons = 0, cr_LastInputTime = 0, cr_LastSent = new_page\<rparr>"

definition new_session :: Session where
  "new_session = \<lparr>se_Tabs = [], se_SelectedTab = -1, se_Page = 0, se_HomePage = False\<rparr>"

text \<open>One call on a player's screen, with the element or variable it names.\<close>

datatype ScreenWrite = SetText string string | SetHidden string bool | SetClass string string bool
  | SetModifier string string "string list" string | ShowCursor bool | RemoveScreen

datatype UiOutput = SendCenterHtml int string | ClearCenterHtml int | ReplyLine int string | Draws int ScreenWrite

section \<open>The state\<close>

record ('c, 'w) ui =
  ui_States :: "Surface \<Rightarrow> 'c StackState PerSlot"
  ui_Held :: "Surface \<Rightarrow> 'c HeldEntry PerSlot"
  ui_Chat :: "'c Capture option PerSlot"
  ui_FreezeEnabled :: bool
  ui_Freeze :: "FreezeState PerSlot"
  ui_FreezeFrame :: bool
  ui_Pawns :: "PawnState option PerSlot"
  ui_Cursors :: "Cursor PerSlot"
  ui_HtmlFrame :: bool
  ui_Sessions :: "Session PerSlot"
  ui_Preferred :: "Surface option"
  ui_Own :: "nat \<Rightarrow> int"
  ui_Out :: "UiOutput list"
  ui_Crashed :: bool
  ui_World :: 'w

record ('c, 'w) menu_env =
  me_Describe :: "'c \<Rightarrow> int \<Rightarrow> ('c, 'w) ui \<Rightarrow> MenuRow"
  me_Activate :: "'c \<Rightarrow> int \<Rightarrow> Surface \<Rightarrow> ('c, 'w) ui \<Rightarrow> ('c, 'w) ui"
  me_Step :: "'c \<Rightarrow> int \<Rightarrow> int \<Rightarrow> ('c, 'w) ui \<Rightarrow> bool \<times> ('c, 'w) ui"
  me_Commit :: "'c \<Rightarrow> int \<Rightarrow> ('c, 'w) ui \<Rightarrow> ('c, 'w) ui"
  me_Committed :: "Surface \<Rightarrow> int \<Rightarrow> ('c, 'w) ui \<Rightarrow> ('c, 'w) ui"
  me_Input :: "'c \<Rightarrow> int \<Rightarrow> string \<Rightarrow> ('c, 'w) ui \<Rightarrow> bool \<times> ('c, 'w) ui"
  me_Now :: int
  me_Translations :: Translations
  me_Languages :: "string PerSlot"
  me_HasReply :: bool
  me_Available :: bool
  me_Ready :: "int \<Rightarrow> bool"
  me_Spawns :: "int \<Rightarrow> bool"
  me_HasScreen :: "int \<Rightarrow> bool"

definition me_Text :: "('c, 'w) menu_env \<Rightarrow> int \<Rightarrow> string \<Rightarrow> string \<Rightarrow> string" where
  "me_Text env slot key fallback = tr_GetOr (me_Translations env) (me_Languages env) key slot fallback"

definition crash :: "('c, 'w) ui \<Rightarrow> ('c, 'w) ui" where
  "crash u = u\<lparr>ui_Crashed := True\<rparr>"

definition emit :: "UiOutput \<Rightarrow> ('c, 'w) ui \<Rightarrow> ('c, 'w) ui" where
  "emit out u = u\<lparr>ui_Out := ui_Out u @ [out]\<rparr>"

text \<open>Everything as the constructors leave it.\<close>

definition new_ui :: "'w \<Rightarrow> ('c, 'w) ui" where
  "new_ui w = \<lparr>ui_States = (\<lambda>_ _. new_stack), ui_Held = (\<lambda>_ _. no_entry), ui_Chat = (\<lambda>_. None), ui_FreezeEnabled = False,
     ui_Freeze = (\<lambda>_. \<lparr>fs_Requested = False, fs_Movement = \<lparr>mf_Pawn = None, mf_Prev = 2\<rparr>\<rparr>), ui_FreezeFrame = False,
     ui_Pawns = (\<lambda>_. None), ui_Cursors = (\<lambda>_. new_cursor), ui_HtmlFrame = False, ui_Sessions = (\<lambda>_. new_session),
     ui_Preferred = None, ui_Own = (\<lambda>_. 0), ui_Out = [], ui_Crashed = False, ui_World = w\<rparr>"

end
