(* ===== verification/MenuStack.thy ===== *)
theory MenuStack
  imports MenuState
begin

text \<open>
  The stack of open menus of one surface, and the value a stepped row holds back. Sources:
  \<^verbatim>\<open>src/Menu/{MenuStack,PendingCommit}.cpp\<close>. The surface is the argument \<open>k\<close>. A held commit's timer is the
  time its entry is due; \<open>held_timer\<close> is that timer firing. \<^verbatim>\<open>pop_back\<close> on an empty vector and a title read
  through a null pointer are crashes.
\<close>

definition DelayMs :: int where "DelayMs = 400"
definition ChangedMs :: int where "ChangedMs = 150"

definition upd_state :: "Surface \<Rightarrow> int \<Rightarrow> ('c StackState \<Rightarrow> 'c StackState) \<Rightarrow> ('c, 'w) ui \<Rightarrow> ('c, 'w) ui" where
  "upd_state k slot f u = u\<lparr>ui_States := (ui_States u)(k := (ui_States u k)(slot := f (ui_States u k slot)))\<rparr>"

definition put_held :: "Surface \<Rightarrow> int \<Rightarrow> 'c HeldEntry \<Rightarrow> ('c, 'w) ui \<Rightarrow> ('c, 'w) ui" where
  "put_held k slot e u = u\<lparr>ui_Held := (ui_Held u)(k := (ui_Held u k)(slot := e))\<rparr>"

section \<open>The held commit\<close>

definition held_Index :: "Surface \<Rightarrow> ('c, 'w) ui \<Rightarrow> int \<Rightarrow> int" where
  "held_Index k u slot = (if IsValidSlot slot then he_Index (ui_Held u k slot) else -1)"

definition held_IsPending :: "Surface \<Rightarrow> ('c, 'w) ui \<Rightarrow> int \<Rightarrow> int \<Rightarrow> bool" where
  "held_IsPending k u slot index \<longleftrightarrow> 0 \<le> index \<and> held_Index k u slot = index"

text \<open>What \<^verbatim>\<open>Step\<close> holds runs the row's commit and then raises \<^verbatim>\<open>Committed\<close>.\<close>

definition held_Apply :: "('c, 'w) menu_env \<Rightarrow> Surface \<Rightarrow> int \<Rightarrow> ('c, 'w) ui \<Rightarrow> ('c, 'w) ui" where
  "held_Apply env k slot u =
     (if \<not> IsValidSlot slot then u
      else let taken = ui_Held u k slot; u1 = put_held k slot no_entry u
           in case he_Commit taken of None \<Rightarrow> u1 | Some c \<Rightarrow> me_Committed env k slot (me_Commit env c slot u1))"

definition held_Hold :: "('c, 'w) menu_env \<Rightarrow> Surface \<Rightarrow> int \<Rightarrow> int \<Rightarrow> 'c \<Rightarrow> ('c, 'w) ui \<Rightarrow> ('c, 'w) ui" where
  "held_Hold env k slot index c u =
     (if \<not> IsValidSlot slot then u
      else let u1 = (if he_Index (ui_Held u k slot) \<noteq> index then held_Apply env k slot u else u)
           in put_held k slot \<lparr>he_Index = index, he_Commit = Some c, he_Due = Some (me_Now env + DelayMs)\<rparr> u1)"

definition held_Drop :: "Surface \<Rightarrow> int \<Rightarrow> ('c, 'w) ui \<Rightarrow> ('c, 'w) ui" where
  "held_Drop k slot u = (if IsValidSlot slot then put_held k slot no_entry u else u)"

definition held_timer :: "('c, 'w) menu_env \<Rightarrow> Surface \<Rightarrow> int \<Rightarrow> ('c, 'w) ui \<Rightarrow> ('c, 'w) ui" where
  "held_timer env k slot u =
     (case he_Due (ui_Held u k slot) of None \<Rightarrow> u
      | Some due \<Rightarrow> if due \<le> me_Now env then held_Apply env k slot u else u)"

section \<open>The stack\<close>

definition stack_Current :: "Surface \<Rightarrow> int \<Rightarrow> ('c, 'w) ui \<Rightarrow> 'c Menu option" where
  "stack_Current k slot u =
     (if \<not> IsValidSlot slot \<or> ss_Menus (ui_States u k slot) = [] then None else last (ss_Menus (ui_States u k slot)))"

definition stack_Root :: "Surface \<Rightarrow> int \<Rightarrow> ('c, 'w) ui \<Rightarrow> 'c Menu option" where
  "stack_Root k slot u =
     (if \<not> IsValidSlot slot \<or> ss_Menus (ui_States u k slot) = [] then None else hd (ss_Menus (ui_States u k slot)))"

definition stack_Depth :: "Surface \<Rightarrow> int \<Rightarrow> ('c, 'w) ui \<Rightarrow> nat" where
  "stack_Depth k slot u = (if IsValidSlot slot then length (ss_Menus (ui_States u k slot)) else 0)"

definition stack_IsOpen :: "Surface \<Rightarrow> int \<Rightarrow> ('c, 'w) ui \<Rightarrow> bool" where
  "stack_IsOpen k slot u \<longleftrightarrow> 0 < stack_Depth k slot u"

definition stack_AnyOpen :: "Surface \<Rightarrow> ('c, 'w) ui \<Rightarrow> bool" where
  "stack_AnyOpen k u \<longleftrightarrow> list_ex (\<lambda>slot. ss_Menus (ui_States u k slot) \<noteq> []) all_slots"

definition stack_Breadcrumb :: "Surface \<Rightarrow> int \<Rightarrow> ('c, 'w) ui \<Rightarrow> string" where
  "stack_Breadcrumb k slot u = (if IsValidSlot slot then ss_Breadcrumb (ui_States u k slot) else [])"

definition kBreadcrumbSeparator :: string where
  "kBreadcrumbSeparator = '' '' @ [CHR 0xE2, CHR 0x80, CHR 0xBA] @ '' ''"

definition crumbs :: "'c Menu option list \<Rightarrow> string" where
  "crumbs menus = foldl (\<lambda>line menu. (if line = [] then [] else line @ kBreadcrumbSeparator)
     @ (case menu of None \<Rightarrow> [] | Some m \<Rightarrow> mn_Title m)) [] (butlast menus)"

definition stack_Rebuild :: "Surface \<Rightarrow> int \<Rightarrow> ('c, 'w) ui \<Rightarrow> ('c, 'w) ui" where
  "stack_Rebuild k slot u =
     (let u1 = upd_state k slot (\<lambda>s. s\<lparr>ss_Rows := [], ss_Breadcrumb := crumbs (ss_Menus s)\<rparr>) u
      in if None \<in> set (butlast (ss_Menus (ui_States u k slot))) then crash u1 else u1)"

definition stack_Push :: "Surface \<Rightarrow> int \<Rightarrow> 'c Menu option \<Rightarrow> ('c, 'w) ui \<Rightarrow> ('c, 'w) ui" where
  "stack_Push k slot menu u =
     (if \<not> IsValidSlot slot \<or> menu = None then u
      else stack_Rebuild k slot (upd_state k slot (\<lambda>s. s\<lparr>ss_Menus := ss_Menus s @ [menu]\<rparr>) u))"

definition stack_Pop :: "('c, 'w) menu_env \<Rightarrow> Surface \<Rightarrow> int \<Rightarrow> ('c, 'w) ui \<Rightarrow> ('c, 'w) ui" where
  "stack_Pop env k slot u =
     (if \<not> IsValidSlot slot \<or> ss_Menus (ui_States u k slot) = [] then u
      else let u1 = held_Apply env k slot u; menus = ss_Menus (ui_States u1 k slot)
           in if menus = [] then crash u1
              else let u2 = upd_state k slot (\<lambda>s. s\<lparr>ss_Menus := butlast menus\<rparr>) u1
                   in if butlast menus = [] then upd_state k slot (\<lambda>_. new_stack) u2 else stack_Rebuild k slot u2)"

definition stack_Clear :: "('c, 'w) menu_env \<Rightarrow> Surface \<Rightarrow> int \<Rightarrow> ('c, 'w) ui \<Rightarrow> ('c, 'w) ui" where
  "stack_Clear env k slot u =
     (if \<not> IsValidSlot slot then u else upd_state k slot (\<lambda>_. new_stack) (held_Apply env k slot u))"

text \<open>\<^verbatim>\<open>resize(1)\<close>, which grows an empty vector by a null pointer.\<close>

definition stack_PopToRoot :: "('c, 'w) menu_env \<Rightarrow> Surface \<Rightarrow> int \<Rightarrow> ('c, 'w) ui \<Rightarrow> ('c, 'w) ui" where
  "stack_PopToRoot env k slot u =
     (if \<not> IsValidSlot slot \<or> ss_Menus (ui_States u k slot) = [] then u
      else stack_Rebuild k slot (upd_state k slot
             (\<lambda>s. s\<lparr>ss_Menus := (case ss_Menus s of [] \<Rightarrow> [None] | root # _ \<Rightarrow> [root])\<rparr>) (held_Apply env k slot u)))"

section \<open>Rows\<close>

definition item_at :: "'c Menu option \<Rightarrow> int \<Rightarrow> 'c MenuItem option" where
  "item_at menu index =
     (case menu of None \<Rightarrow> None
      | Some m \<Rightarrow> if index < 0 \<or> index \<ge> int (length (mn_Items m)) then None else Some (mn_Items m ! nat index))"

definition dead_row :: MenuRow where
  "dead_row = new_row\<lparr>mr_Enabled := False, mr_Selectable := False\<rparr>"

definition remember :: "int \<Rightarrow> string \<Rightarrow> RowMemory \<Rightarrow> RowMemory" where
  "remember now v memory =
     (if rm_Value memory = v then memory
      else memory\<lparr>rm_ChangedAt := (if rm_Drawn memory then now else rm_ChangedAt memory), rm_Value := v, rm_Drawn := True\<rparr>)"

definition stack_Describe :: "('c, 'w) menu_env \<Rightarrow> Surface \<Rightarrow> int \<Rightarrow> int \<Rightarrow> ('c, 'w) ui \<Rightarrow> MenuRow \<times> ('c, 'w) ui" where
  "stack_Describe env k slot index u =
     (case (stack_Current k slot u, item_at (stack_Current k slot u) index) of
        (Some m, Some item) \<Rightarrow>
          let row = (case mi_Describe item of Some d \<Rightarrow> me_Describe env d slot u | None \<Rightarrow> dead_row);
              row1 = (if mr_Kind row = ToggleKind \<and> mr_Value row = [] then
                        (case mr_State row of None \<Rightarrow> row
                         | Some on \<Rightarrow> row\<lparr>mr_Value := (if on then me_Text env slot ''menu.on'' ''ON'' else me_Text env slot ''menu.off'' ''OFF'')\<rparr>)
                      else row);
              st = ui_States u k slot;
              rows = (if length (ss_Rows st) \<noteq> length (mn_Items m) then replicate (length (mn_Items m)) new_memory else ss_Rows st);
              memory = remember (me_Now env) (mr_Value row1) (rows ! nat index)
          in (row1\<lparr>mr_Changed := (rm_ChangedAt memory \<noteq> 0 \<and> me_Now env - rm_ChangedAt memory < ChangedMs),
                   mr_Pending := held_IsPending k u slot index\<rparr>,
              upd_state k slot (\<lambda>s. s\<lparr>ss_Rows := rows[nat index := memory]\<rparr>) u)
      | _ \<Rightarrow> (dead_row, u))"

definition item_actionable :: "('c, 'w) menu_env \<Rightarrow> ('c, 'w) ui \<Rightarrow> 'c MenuItem \<Rightarrow> int \<Rightarrow> bool" where
  "item_actionable env u item slot = IsRowActionable (\<lambda>d s. me_Describe env d s u) item slot"

definition stack_Activate :: "('c, 'w) menu_env \<Rightarrow> Surface \<Rightarrow> int \<Rightarrow> int \<Rightarrow> ('c, 'w) ui \<Rightarrow> ('c, 'w) ui" where
  "stack_Activate env k slot index u =
     (if \<not> IsValidSlot slot then u
      else let u1 = (if held_IsPending k u slot index then held_Drop k slot u else held_Apply env k slot u)
           in case item_at (stack_Current k slot u1) index of
                None \<Rightarrow> u1
              | Some item \<Rightarrow> (case mi_Activate item of
                  None \<Rightarrow> u1
                | Some a \<Rightarrow> if item_actionable env u1 item slot then me_Activate env a slot k u1 else u1))"

definition stack_Step :: "('c, 'w) menu_env \<Rightarrow> Surface \<Rightarrow> int \<Rightarrow> int \<Rightarrow> int \<Rightarrow> ('c, 'w) ui \<Rightarrow> bool \<times> ('c, 'w) ui" where
  "stack_Step env k slot index direction u =
     (case item_at (stack_Current k slot u) index of
        None \<Rightarrow> (False, u)
      | Some item \<Rightarrow> (case (mi_Step item, mi_Describe item) of
          (Some s, Some d) \<Rightarrow>
            if \<not> mr_Enabled (me_Describe env d slot u) then (False, u)
            else (case me_Step env s slot direction u of
                    (False, u1) \<Rightarrow> (False, u1)
                  | (True, u1) \<Rightarrow> (case mi_Commit item of
                      None \<Rightarrow> (True, u1)
                    | Some c \<Rightarrow>
                        if map_option mn_Id (stack_Current k slot u1) = map_option mn_Id (stack_Current k slot u)
                        then (True, held_Hold env k slot index c u1) else (True, u1)))
        | _ \<Rightarrow> (False, u)))"

definition stack_ApplyPending :: "('c, 'w) menu_env \<Rightarrow> Surface \<Rightarrow> int \<Rightarrow> ('c, 'w) ui \<Rightarrow> ('c, 'w) ui" where
  "stack_ApplyPending env k slot u = held_Apply env k slot u"

text \<open>The slot changes hands: its stack and its held commit are reset.\<close>

definition stack_slot_changed :: "int \<Rightarrow> ('c, 'w) ui \<Rightarrow> ('c, 'w) ui" where
  "stack_slot_changed slot u = u\<lparr>ui_States := (\<lambda>k. PerSlot_Reset new_stack slot (ui_States u k)),
     ui_Held := (\<lambda>k. PerSlot_Reset no_entry slot (ui_Held u k))\<rparr>"

section \<open>A burst of steps\<close>

lemma put_held_simps [simp]:
  "ui_States (put_held k slot e u) = ui_States u" "ui_Held (put_held k slot e u) k slot = e"
  "put_held k slot e (put_held k slot e' u) = put_held k slot e u"
  by (simp_all add: put_held_def)

lemma upd_state_simps [simp]:
  "ui_States (upd_state k slot f u) k slot = f (ui_States u k slot)" "ui_Held (upd_state k slot f u) = ui_Held u"
  by (simp_all add: upd_state_def)

lemma stack_Current_cong: "ui_States u = ui_States v \<Longrightarrow> stack_Current k slot u = stack_Current k slot v"
  by (simp add: stack_Current_def)

lemma stack_Current_valid: "stack_Current k slot u = Some m \<Longrightarrow> IsValidSlot slot \<and> ss_Menus (ui_States u k slot) \<noteq> []"
  by (simp add: stack_Current_def split: if_split_asm)

text \<open>The step handler of a row whose menu stays put: it consumes the input, leaves the stacks and what is held.\<close>

definition steady :: "('c, 'w) menu_env \<Rightarrow> Surface \<Rightarrow> int \<Rightarrow> 'c \<Rightarrow> 'c \<Rightarrow> bool" where
  "steady env k slot s d \<longleftrightarrow> (\<forall>dir v. fst (me_Step env s slot dir v) \<and> ui_States (snd (me_Step env s slot dir v)) = ui_States v \<and>
     ui_Held (snd (me_Step env s slot dir v)) = ui_Held v \<and> mr_Enabled (me_Describe env d slot v) \<and>
     (\<forall>e. snd (me_Step env s slot dir (put_held k slot e v)) = put_held k slot e (snd (me_Step env s slot dir v))))"

definition stepped :: "('c, 'w) menu_env \<Rightarrow> int \<Rightarrow> 'c \<Rightarrow> int list \<Rightarrow> ('c, 'w) ui \<Rightarrow> ('c, 'w) ui" where
  "stepped env slot s dirs u = fold (\<lambda>dir v. snd (me_Step env s slot dir v)) dirs u"

definition presses :: "('c, 'w) menu_env \<Rightarrow> Surface \<Rightarrow> int \<Rightarrow> int \<Rightarrow> int list \<Rightarrow> ('c, 'w) ui \<Rightarrow> ('c, 'w) ui" where
  "presses env k slot index dirs u = fold (\<lambda>dir v. snd (stack_Step env k slot index dir v)) dirs u"

definition held_row :: "('c, 'w) menu_env \<Rightarrow> int \<Rightarrow> 'c \<Rightarrow> 'c HeldEntry" where
  "held_row env index c = \<lparr>he_Index = index, he_Commit = Some c, he_Due = Some (me_Now env + DelayMs)\<rparr>"

lemma stepped_keeps: "steady env k slot s d \<Longrightarrow> ui_States (stepped env slot s dirs u) = ui_States u \<and> ui_Held (stepped env slot s dirs u) = ui_Held u"
  by (induction dirs arbitrary: u) (simp_all add: stepped_def steady_def)

lemma stepped_put: "steady env k slot s d \<Longrightarrow> stepped env slot s dirs (put_held k slot e u) = put_held k slot e (stepped env slot s dirs u)"
  by (induction dirs arbitrary: u) (simp_all add: stepped_def steady_def)

lemma held_Apply_nothing: "he_Commit (ui_Held u k slot) = None \<Longrightarrow> IsValidSlot slot \<Longrightarrow> held_Apply env k slot u = put_held k slot no_entry u"
  by (simp add: held_Apply_def)

lemma press_holds:
  assumes "steady env k slot s d" and item: "item_at (stack_Current k slot u) index = Some item"
    and cb: "mi_Step item = Some s" "mi_Describe item = Some d" "mi_Commit item = Some c"
    and free: "he_Index (ui_Held u k slot) = index \<or> he_Commit (ui_Held u k slot) = None"
  shows "snd (stack_Step env k slot index dir u) = put_held k slot (held_row env index c) (snd (me_Step env s slot dir u))"
proof -
  obtain m where m: "stack_Current k slot u = Some m" using item by (cases "stack_Current k slot u") (auto simp: item_at_def)
  define v where "v = snd (me_Step env s slot dir u)"
  have v: "me_Step env s slot dir u = (True, v)" "ui_States v = ui_States u" "ui_Held v = ui_Held u" "mr_Enabled (me_Describe env d slot u)"
    using assms(1) by (simp_all add: steady_def v_def prod_eq_iff)
  have "held_Hold env k slot index c v = put_held k slot (held_row env index c) v"
    using free stack_Current_valid[OF m] held_Apply_nothing[of v k slot env] v(3)
    by (cases "he_Index (ui_Held u k slot) = index") (simp_all add: held_Hold_def Let_def held_row_def)
  then show ?thesis using item cb v stack_Current_cong[OF v(2), of k slot] by (simp add: stack_Step_def v_def[symmetric])
qed

lemma burst_holds:
  assumes "steady env k slot s d" and "item_at (stack_Current k slot u) index = Some item"
    and cb: "mi_Step item = Some s" "mi_Describe item = Some d" "mi_Commit item = Some c"
    and "he_Index (ui_Held u k slot) = index \<or> he_Commit (ui_Held u k slot) = None" "dirs \<noteq> []"
  shows "presses env k slot index dirs u = put_held k slot (held_row env index c) (stepped env slot s dirs u)"
  using assms(2,6,7)
proof (induction dirs arbitrary: u)
  case (Cons dir dirs)
  define v where "v = put_held k slot (held_row env index c) (snd (me_Step env s slot dir u))"
  have step: "snd (stack_Step env k slot index dir u) = v" using press_holds[OF assms(1) Cons.prems(1) cb Cons.prems(2)] by (simp add: v_def)
  show ?case
  proof (cases "dirs = []")
    case False
    have "stack_Current k slot v = stack_Current k slot u"
      using assms(1) by (intro stack_Current_cong) (simp add: v_def steady_def)
    then have "presses env k slot index dirs v = put_held k slot (held_row env index c) (stepped env slot s dirs v)"
      using Cons.IH[of v] Cons.prems(1) False by (simp add: v_def held_row_def)
    then show ?thesis using step stepped_put[OF assms(1)] by (simp add: presses_def stepped_def v_def)
  qed (use step in \<open>simp add: presses_def stepped_def v_def\<close>)
qed simp

section \<open>Properties\<close>

text \<open>
  a burst of presses on one row shows every step at once and holds one commit; the commit then runs
  exactly once, on the settled value, before anything else happens, whichever way the row is left: by applying
  it, by its timer, by clearing or popping the stack, by activating another row. Activating the row itself
  leaves it to the activation, and a slot that changes hands drops it.
\<close>

theorem burst_commits_once:
  assumes "steady env k slot s d" and "item_at (stack_Current k slot u) index = Some item"
    and "mi_Step item = Some s" "mi_Describe item = Some d" "mi_Commit item = Some c"
    and "he_Index (ui_Held u k slot) = index \<or> he_Commit (ui_Held u k slot) = None" and "dirs \<noteq> []"
    and "later = env\<lparr>me_Now := t\<rparr>" and "me_Now env + DelayMs \<le> t"
  shows "let v = presses env k slot index dirs u; w = put_held k slot no_entry (stepped env slot s dirs u);
             applied = me_Committed env k slot (me_Commit env c slot w)
    in stack_ApplyPending env k slot v = applied \<and>
       held_timer later k slot v = me_Committed later k slot (me_Commit later c slot w) \<and>
       (t' < me_Now env + DelayMs \<longrightarrow> held_timer (env\<lparr>me_Now := t'\<rparr>) k slot v = v) \<and>
       stack_Clear env k slot v = upd_state k slot (\<lambda>_. new_stack) applied \<and>
       (ss_Menus (ui_States applied k slot) \<noteq> [] \<longrightarrow> ui_Held applied k slot = no_entry \<longrightarrow>
          ui_States (stack_Pop env k slot v) k slot = ui_States (stack_Pop env k slot applied) k slot) \<and>
       (other \<noteq> index \<longrightarrow> ui_Held applied k slot = no_entry \<longrightarrow>
          stack_Activate env k slot other v = stack_Activate env k slot other applied) \<and>
       stack_Activate env k slot index v = stack_Activate env k slot index w \<and>
       stack_slot_changed slot v = stack_slot_changed slot w"
proof -
  define w where "w = put_held k slot no_entry (stepped env slot s dirs u)"
  define applied where "applied = me_Committed env k slot (me_Commit env c slot w)"
  have v: "presses env k slot index dirs u = put_held k slot (held_row env index c) w"
    using burst_holds[OF assms(1-7)] by (simp add: w_def)
  obtain m where m: "stack_Current k slot u = Some m" using assms(2) by (cases "stack_Current k slot u") (auto simp: item_at_def)
  have ok: "IsValidSlot slot" "ss_Menus (ui_States u k slot) \<noteq> []" "0 \<le> index"
    using stack_Current_valid[OF m] assms(2) m by (auto simp: item_at_def split: if_split_asm)
  have w0: "put_held k slot no_entry w = w" "ui_States w = ui_States u" using stepped_keeps[OF assms(1)] by (simp_all add: w_def)
  have settles: "held_Apply env k slot (put_held k slot (held_row env index c) w) = applied"
    using ok by (simp add: held_Apply_def held_row_def applied_def w0)
  have timer: "held_timer later k slot (put_held k slot (held_row env index c) w) = me_Committed later k slot (me_Commit later c slot w)"
    using ok assms(8,9) by (simp add: held_timer_def held_Apply_def held_row_def w0)
  have early: "t' < me_Now env + DelayMs \<longrightarrow>
      held_timer (env\<lparr>me_Now := t'\<rparr>) k slot (put_held k slot (held_row env index c) w) = put_held k slot (held_row env index c) w"
    by (simp add: held_timer_def held_row_def)
  have again: "held_Apply env k slot applied = applied" if "ui_Held applied k slot = no_entry"
    using that ok(1) by (simp add: held_Apply_def no_entry_def put_held_def fun_upd_idem)
  have popped: "ui_States (stack_Pop env k slot (put_held k slot (held_row env index c) w)) k slot = ui_States (stack_Pop env k slot applied) k slot"
    if "ss_Menus (ui_States applied k slot) \<noteq> []" "ui_Held applied k slot = no_entry"
    using that ok w0(2) settles again[OF that(2)] by (simp add: stack_Pop_def Let_def)
  have other: "stack_Activate env k slot other (put_held k slot (held_row env index c) w) = stack_Activate env k slot other applied"
    if "other \<noteq> index" "ui_Held applied k slot = no_entry"
    using that ok settles again[OF that(2)]
    by (auto simp: stack_Activate_def held_IsPending_def held_Index_def held_row_def no_entry_def)
  have self: "stack_Activate env k slot index (put_held k slot (held_row env index c) w) = stack_Activate env k slot index w"
    using ok w0(1) by (simp add: stack_Activate_def held_IsPending_def held_Index_def held_row_def held_Drop_def held_Apply_def no_entry_def w_def)
  have gone: "stack_slot_changed slot (put_held k slot (held_row env index c) w) = stack_slot_changed slot w"
    using ok(1) by (simp add: stack_slot_changed_def put_held_def PerSlot_Reset_def fun_eq_iff)
  show ?thesis
    unfolding Let_def v w_def[symmetric] applied_def[symmetric] stack_ApplyPending_def
    using settles timer early popped other self gone ok(1) by (auto simp: stack_Clear_def)
qed

text \<open>A counter: stepping adds, committing notes the value.\<close>

definition example_env :: "int \<Rightarrow> (nat, int \<times> int list) menu_env" where
  "example_env now = \<lparr>me_Describe = (\<lambda>_ _ _. new_row), me_Activate = (\<lambda>_ _ _ u. u),
     me_Step = (\<lambda>_ _ dir u. (True, u\<lparr>ui_World := (fst (ui_World u) + dir, snd (ui_World u))\<rparr>)),
     me_Commit = (\<lambda>_ _ u. u\<lparr>ui_World := (fst (ui_World u), snd (ui_World u) @ [fst (ui_World u)])\<rparr>),
     me_Committed = (\<lambda>_ _ u. u), me_Input = (\<lambda>_ _ _ u. (True, u)), me_Now = now, me_Translations = tr_init,
     me_Languages = (\<lambda>_. []), me_HasReply = False, me_Available = True, me_Ready = (\<lambda>_. True), me_Spawns = (\<lambda>_. True), me_HasScreen = (\<lambda>_. True)\<rparr>"

definition example_counter :: "(nat, int \<times> int list) ui" where
  "example_counter = stack_Push CenterSurface 3 (Some \<lparr>mn_Id = 1, mn_Title = ''Counter'', mn_Subtitle = [],
     mn_Items = [\<lparr>mi_Describe = Some 0, mi_Activate = None, mi_Step = Some 0, mi_Commit = Some 0\<rparr>]\<rparr>) (new_ui (0, []))"

theorem burst_commits_once_witness:
  "snd (ui_World (stack_Clear (example_env 100) CenterSurface 3 (presses (example_env 100) CenterSurface 3 0 [1, 1, -1, 1] example_counter))) = [2]"
proof -
  have st: "steady (example_env 100) CenterSurface 3 0 0" by (simp add: steady_def example_env_def new_row_def put_held_def)
  have it: "item_at (stack_Current CenterSurface 3 example_counter) 0 =
      Some \<lparr>mi_Describe = Some 0, mi_Activate = None, mi_Step = Some 0, mi_Commit = Some 0\<rparr>"
    by (simp add: example_counter_def stack_Push_def IsValidSlot_def MaxPlayers_def new_ui_def new_stack_def stack_Rebuild_def upd_state_def
        stack_Current_def item_at_def)
  have free: "he_Commit (ui_Held example_counter CenterSurface 3) = None"
    by (simp add: example_counter_def stack_Push_def IsValidSlot_def MaxPlayers_def new_ui_def new_stack_def stack_Rebuild_def upd_state_def
        no_entry_def)
  have "stack_Clear (example_env 100) CenterSurface 3 (presses (example_env 100) CenterSurface 3 0 [1, 1, -1, 1] example_counter) =
      upd_state CenterSurface 3 (\<lambda>_. new_stack) (me_Committed (example_env 100) CenterSurface 3 (me_Commit (example_env 100) 0 3
        (put_held CenterSurface 3 no_entry (stepped (example_env 100) 3 0 [1, 1, -1, 1] example_counter))))"
    using burst_commits_once[OF st it, of 0 "[1, 1, -1, 1]" "example_env 500" 500] free
    by (simp add: example_env_def DelayMs_def Let_def)
  then show ?thesis
    by (simp add: example_env_def stepped_def example_counter_def stack_Push_def new_ui_def stack_Rebuild_def upd_state_def put_held_def
        IsValidSlot_def MaxPlayers_def new_stack_def)
qed

end
