(* ===== verification/MenuRows.thy ===== *)
theory MenuRows
  imports MenuStack
begin

text \<open>
  The rows menus are built of, and the builder. Sources: \<^verbatim>\<open>src/Menu/MenuBuilder.cpp\<close>,
  \<^verbatim>\<open>include/VoltMod/Menu/MenuBuilder.hpp\<close>. The functions a plugin puts in a row are named by \<open>'p\<close>; what
  they do is \<open>plugin_fns\<close>. The callbacks \<^verbatim>\<open>ToItem\<close> makes are named by the row they come from, so a row is also
  the callback name \<open>'c\<close> of the menus here. The selection a choice row keeps itself lives at an address in
  \<open>ui_Own\<close>, as the shared \<^verbatim>\<open>ChoiceState\<close> does. What a row asks of the surface it is drawn on is \<open>surface_ops\<close>.
\<close>

section \<open>Specs\<close>

datatype 'p EnabledCondition = Fixed bool | Predicate 'p

datatype ChoiceApply = AfterStep | OnActivate

record 'p ButtonRow =
  bt_Label :: string
  bt_Activate :: "'p option"
  bt_Enabled :: "'p EnabledCondition"

record 'p ToggleRow =
  tg_Label :: string
  tg_Get :: "'p option"
  tg_Flip :: "'p option"
  tg_Enabled :: "'p EnabledCondition"

record 'p ChoiceIndex =
  ci_Get :: 'p
  ci_Set :: 'p

record 'p ChoiceSpec =
  ch_Label :: string
  ch_Choices :: "string list"
  ch_Commit :: "'p option"
  ch_Bind :: "'p ChoiceIndex option"
  ch_Own :: nat
  ch_Enabled :: "'p EnabledCondition"
  ch_Apply :: ChoiceApply

record 'p InputRow =
  in_Label :: string
  in_Prompt :: string
  in_Get :: "'p option"
  in_Set :: "'p option"
  in_MaxLength :: int
  in_Enabled :: "'p EnabledCondition"

record 'p SubmenuRow =
  sm_Label :: string
  sm_Build :: "'p option"
  sm_Enabled :: "'p EnabledCondition"
  sm_Icon :: string

datatype 'p row_spec = Button "'p ButtonRow" | Toggle "'p ToggleRow" | Choice "'p ChoiceSpec" | Input "'p InputRow"
  | Submenu "'p SubmenuRow" | TextLine string

type_synonym ('p, 'w) row_ui = "('p row_spec, 'w) ui"

record ('p, 'w) plugin_fns =
  pf_Test :: "'p \<Rightarrow> int \<Rightarrow> ('p, 'w) row_ui \<Rightarrow> bool"
  pf_Run :: "'p \<Rightarrow> int \<Rightarrow> ('p, 'w) row_ui \<Rightarrow> ('p, 'w) row_ui"
  pf_RunIndex :: "'p \<Rightarrow> int \<Rightarrow> int \<Rightarrow> ('p, 'w) row_ui \<Rightarrow> ('p, 'w) row_ui"
  pf_GetIndex :: "'p \<Rightarrow> int \<Rightarrow> ('p, 'w) row_ui \<Rightarrow> int"
  pf_GetText :: "'p \<Rightarrow> int \<Rightarrow> ('p, 'w) row_ui \<Rightarrow> string"
  pf_SetText :: "'p \<Rightarrow> int \<Rightarrow> string \<Rightarrow> ('p, 'w) row_ui \<Rightarrow> bool \<times> ('p, 'w) row_ui"
  pf_Build :: "'p \<Rightarrow> int \<Rightarrow> ('p, 'w) row_ui \<Rightarrow> 'p row_spec Menu option \<times> ('p, 'w) row_ui"

record ('p, 'w) surface_ops =
  so_Open :: "Surface \<Rightarrow> int \<Rightarrow> 'p row_spec Menu option \<Rightarrow> ('p, 'w) row_ui \<Rightarrow> ('p, 'w) row_ui"
  so_Prompt :: "Surface \<Rightarrow> int \<Rightarrow> string \<Rightarrow> 'p row_spec \<Rightarrow> ('p, 'w) row_ui \<Rightarrow> ('p, 'w) row_ui"

definition is_enabled :: "('p, 'w) plugin_fns \<Rightarrow> 'p EnabledCondition \<Rightarrow> int \<Rightarrow> ('p, 'w) row_ui \<Rightarrow> bool" where
  "is_enabled pf condition slot u = (case condition of Fixed b \<Rightarrow> b | Predicate p \<Rightarrow> pf_Test pf p slot u)"

section \<open>A choice\<close>

definition clamp :: "int \<Rightarrow> int \<Rightarrow> int \<Rightarrow> int" where
  "clamp v lo hi = (if v < lo then lo else if hi < v then hi else v)"

definition choice_Selected :: "('p, 'w) plugin_fns \<Rightarrow> 'p ChoiceSpec \<Rightarrow> int \<Rightarrow> ('p, 'w) row_ui \<Rightarrow> int" where
  "choice_Selected pf ch slot u =
     (if ch_Choices ch = [] then 0
      else clamp (case ch_Bind ch of Some bind \<Rightarrow> pf_GetIndex pf (ci_Get bind) slot u | None \<Rightarrow> ui_Own u (ch_Own ch))
             0 (int (length (ch_Choices ch)) - 1))"

definition choice_Select :: "('p, 'w) plugin_fns \<Rightarrow> 'p ChoiceSpec \<Rightarrow> int \<Rightarrow> int \<Rightarrow> ('p, 'w) row_ui \<Rightarrow> ('p, 'w) row_ui" where
  "choice_Select pf ch slot index u =
     (case ch_Bind ch of Some bind \<Rightarrow> pf_RunIndex pf (ci_Set bind) slot index u
      | None \<Rightarrow> u\<lparr>ui_Own := (ui_Own u)(ch_Own ch := index)\<rparr>)"

definition choice_Apply :: "('p, 'w) plugin_fns \<Rightarrow> 'p ChoiceSpec \<Rightarrow> int \<Rightarrow> ('p, 'w) row_ui \<Rightarrow> ('p, 'w) row_ui" where
  "choice_Apply pf ch slot u =
     (case ch_Commit ch of
        Some commit \<Rightarrow> if ch_Choices ch \<noteq> [] then pf_RunIndex pf commit slot (choice_Selected pf ch slot u) u else u
      | None \<Rightarrow> u)"

definition choice_Step :: "('p, 'w) plugin_fns \<Rightarrow> 'p ChoiceSpec \<Rightarrow> int \<Rightarrow> int \<Rightarrow> ('p, 'w) row_ui \<Rightarrow> bool \<times> ('p, 'w) row_ui" where
  "choice_Step pf ch slot direction u =
     (if ch_Choices ch = [] then (False, u)
      else (True, choice_Select pf ch slot (WrapIndex (choice_Selected pf ch slot u + direction) (int (length (ch_Choices ch)))) u))"

section \<open>Rows as items\<close>

definition DescribeRow :: "string \<Rightarrow> MenuRowKind \<Rightarrow> bool \<Rightarrow> MenuRow" where
  "DescribeRow label kind enabled = new_row\<lparr>mr_Label := label, mr_Kind := kind, mr_Enabled := enabled, mr_Selectable := (kind \<noteq> TextKind)\<rparr>"

definition unset_value :: string where "unset_value = [CHR 0xE2, CHR 0x80, CHR 0xA6]"

definition row_Describe :: "('p, 'w) plugin_fns \<Rightarrow> 'p row_spec \<Rightarrow> int \<Rightarrow> ('p, 'w) row_ui \<Rightarrow> MenuRow" where
  "row_Describe pf spec slot u =
     (case spec of
        Button r \<Rightarrow> DescribeRow (bt_Label r) ButtonKind (is_enabled pf (bt_Enabled r) slot u)
      | Toggle r \<Rightarrow> (DescribeRow (tg_Label r) ToggleKind (is_enabled pf (tg_Enabled r) slot u))
          \<lparr>mr_Steppable := True, mr_State := Some (case tg_Get r of None \<Rightarrow> False | Some g \<Rightarrow> pf_Test pf g slot u)\<rparr>
      | Choice r \<Rightarrow>
          let row = DescribeRow (ch_Label r) ChoiceKind (is_enabled pf (ch_Enabled r) slot u)
          in if ch_Choices r = [] then row
             else row\<lparr>mr_Value := ch_Choices r ! nat (choice_Selected pf r slot u), mr_Steppable := True\<rparr>
      | Input r \<Rightarrow>
          let v = (case in_Get r of None \<Rightarrow> [] | Some g \<Rightarrow> pf_GetText pf g slot u)
          in (DescribeRow (in_Label r) InputKind (is_enabled pf (in_Enabled r) slot u))\<lparr>mr_Value := if v = [] then unset_value else v\<rparr>
      | Submenu r \<Rightarrow> (DescribeRow (sm_Label r) SubmenuKind (is_enabled pf (sm_Enabled r) slot u))\<lparr>mr_Icon := sm_Icon r\<rparr>
      | TextLine label \<Rightarrow> DescribeRow label TextKind True)"

text \<open>\<^verbatim>\<open>WhenEnabled\<close>: an action that runs only while the row is enabled.\<close>

definition WhenEnabled :: "('p, 'w) plugin_fns \<Rightarrow> 'p EnabledCondition \<Rightarrow> (int \<Rightarrow> ('p, 'w) row_ui \<Rightarrow> ('p, 'w) row_ui)
    \<Rightarrow> int \<Rightarrow> ('p, 'w) row_ui \<Rightarrow> ('p, 'w) row_ui" where
  "WhenEnabled pf enabled action slot u = (if is_enabled pf enabled slot u then action slot u else u)"

definition row_Activate :: "('p, 'w) plugin_fns \<Rightarrow> ('p, 'w) surface_ops \<Rightarrow> 'p row_spec \<Rightarrow> int \<Rightarrow> Surface
    \<Rightarrow> ('p, 'w) row_ui \<Rightarrow> ('p, 'w) row_ui" where
  "row_Activate pf ops spec slot k u =
     (case spec of
        Button r \<Rightarrow> WhenEnabled pf (bt_Enabled r) (\<lambda>slot u. case bt_Activate r of None \<Rightarrow> u | Some a \<Rightarrow> pf_Run pf a slot u) slot u
      | Toggle r \<Rightarrow> WhenEnabled pf (tg_Enabled r) (\<lambda>slot u. case tg_Flip r of None \<Rightarrow> u | Some f \<Rightarrow> pf_Run pf f slot u) slot u
      | Choice r \<Rightarrow> WhenEnabled pf (ch_Enabled r) (\<lambda>slot u.
          if ch_Commit r \<noteq> None then choice_Apply pf r slot u else snd (choice_Step pf r slot 1 u)) slot u
      | Input r \<Rightarrow> WhenEnabled pf (in_Enabled r) (\<lambda>slot u. so_Prompt ops k slot (in_Prompt r) spec u) slot u
      | Submenu r \<Rightarrow> WhenEnabled pf (sm_Enabled r) (\<lambda>slot u. case sm_Build r of None \<Rightarrow> u
          | Some b \<Rightarrow> (case pf_Build pf b slot u of
              (None, u1) \<Rightarrow> u1
            | (Some m, u1) \<Rightarrow> so_Open ops k slot (Some m) u1)) slot u
      | TextLine label \<Rightarrow> u)"

definition row_Step :: "('p, 'w) plugin_fns \<Rightarrow> 'p row_spec \<Rightarrow> int \<Rightarrow> int \<Rightarrow> ('p, 'w) row_ui \<Rightarrow> bool \<times> ('p, 'w) row_ui" where
  "row_Step pf spec slot direction u =
     (case spec of
        Toggle r \<Rightarrow> (case tg_Flip r of None \<Rightarrow> (False, u)
          | Some f \<Rightarrow> if is_enabled pf (tg_Enabled r) slot u then (True, pf_Run pf f slot u) else (False, u))
      | Choice r \<Rightarrow> if is_enabled pf (ch_Enabled r) slot u then choice_Step pf r slot direction u else (False, u)
      | _ \<Rightarrow> (False, u))"

definition row_Commit :: "('p, 'w) plugin_fns \<Rightarrow> 'p row_spec \<Rightarrow> int \<Rightarrow> ('p, 'w) row_ui \<Rightarrow> ('p, 'w) row_ui" where
  "row_Commit pf spec slot u =
     (case spec of
        Choice r \<Rightarrow> if is_enabled pf (ch_Enabled r) slot u then choice_Apply pf r slot u else u
      | _ \<Rightarrow> u)"

text \<open>The prompt's callback: input too long is refused, and so asked for again.\<close>

definition row_Input :: "('p, 'w) plugin_fns \<Rightarrow> 'p row_spec \<Rightarrow> int \<Rightarrow> string \<Rightarrow> ('p, 'w) row_ui \<Rightarrow> bool \<times> ('p, 'w) row_ui" where
  "row_Input pf spec slot txt u =
     (case spec of
        Input r \<Rightarrow>
          if 0 < in_MaxLength r \<and> in_MaxLength r < int (length txt) then (False, u)
          else (case in_Set r of None \<Rightarrow> (True, u) | Some s \<Rightarrow> pf_SetText pf s slot txt u)
      | _ \<Rightarrow> (True, u))"

definition ToItem :: "'p row_spec \<Rightarrow> 'p row_spec MenuItem" where
  "ToItem spec =
     \<lparr>mi_Describe = Some spec,
      mi_Activate = (case spec of TextLine _ \<Rightarrow> None | _ \<Rightarrow> Some spec),
      mi_Step = (case spec of Toggle _ \<Rightarrow> Some spec | Choice _ \<Rightarrow> Some spec | _ \<Rightarrow> None),
      mi_Commit = (case spec of Choice r \<Rightarrow> if ch_Apply r = AfterStep then Some spec else None | _ \<Rightarrow> None)\<rparr>"

section \<open>The builder\<close>

record 'p MenuBuilder =
  mb_Menu :: "'p row_spec Menu"
  mb_EmptyText :: string

definition MenuBuilder :: "nat \<Rightarrow> string \<Rightarrow> 'p MenuBuilder" where
  "MenuBuilder ident title = \<lparr>mb_Menu = \<lparr>mn_Id = ident, mn_Title = title, mn_Subtitle = [], mn_Items = []\<rparr>, mb_EmptyText = []\<rparr>"

definition mb_Subtitle :: "string \<Rightarrow> 'p MenuBuilder \<Rightarrow> 'p MenuBuilder" where
  "mb_Subtitle subtitle b = b\<lparr>mb_Menu := (mb_Menu b)\<lparr>mn_Subtitle := subtitle\<rparr>\<rparr>"

definition mb_AddItem :: "'p row_spec MenuItem \<Rightarrow> 'p MenuBuilder \<Rightarrow> 'p MenuBuilder" where
  "mb_AddItem item b = b\<lparr>mb_Menu := (mb_Menu b)\<lparr>mn_Items := mn_Items (mb_Menu b) @ [item]\<rparr>\<rparr>"

definition mb_Add :: "'p row_spec \<Rightarrow> 'p MenuBuilder \<Rightarrow> 'p MenuBuilder" where
  "mb_Add row b = mb_AddItem (ToItem row) b"

definition mb_Button :: "string \<Rightarrow> 'p option \<Rightarrow> 'p MenuBuilder \<Rightarrow> 'p MenuBuilder" where
  "mb_Button label activate b = mb_Add (Button \<lparr>bt_Label = label, bt_Activate = activate, bt_Enabled = Fixed True\<rparr>) b"

definition mb_Submenu :: "string \<Rightarrow> 'p option \<Rightarrow> 'p MenuBuilder \<Rightarrow> 'p MenuBuilder" where
  "mb_Submenu label build b = mb_Add (Submenu \<lparr>sm_Label = label, sm_Build = build, sm_Enabled = Fixed True, sm_Icon = []\<rparr>) b"

definition mb_Text :: "string \<Rightarrow> 'p MenuBuilder \<Rightarrow> 'p MenuBuilder" where
  "mb_Text label b = mb_Add (TextLine label) b"

definition mb_SetEmptyText :: "string \<Rightarrow> 'p MenuBuilder \<Rightarrow> 'p MenuBuilder" where
  "mb_SetEmptyText label b = b\<lparr>mb_EmptyText := label\<rparr>"

definition mb_Build :: "'p MenuBuilder \<Rightarrow> 'p row_spec Menu" where
  "mb_Build b = mb_Menu (if mn_Items (mb_Menu b) = [] \<and> mb_EmptyText b \<noteq> [] then mb_Text (mb_EmptyText b) b else b)"

section \<open>What a menu of these rows does\<close>

text \<open>The environment of a plugin whose menus the builder made.\<close>

definition row_env :: "('p, 'w) plugin_fns \<Rightarrow> ('p, 'w) surface_ops \<Rightarrow> ('p row_spec, 'w) menu_env \<Rightarrow> ('p row_spec, 'w) menu_env" where
  "row_env pf ops env = env\<lparr>me_Describe := row_Describe pf, me_Activate := row_Activate pf ops, me_Step := row_Step pf,
     me_Commit := row_Commit pf, me_Input := row_Input pf\<rparr>"

lemma WrapIndex_range: "0 < n \<Longrightarrow> 0 \<le> WrapIndex i n \<and> WrapIndex i n < n"
  by (simp add: WrapIndex_mod)

lemma clamp_id: "lo \<le> v \<Longrightarrow> v \<le> hi \<Longrightarrow> clamp v lo hi = v"
  by (simp add: clamp_def)

lemma choice_Selected_range: "ch_Choices ch \<noteq> [] \<Longrightarrow> 0 \<le> choice_Selected pf ch slot u \<and> choice_Selected pf ch slot u < int (length (ch_Choices ch))"
  by (cases "ch_Choices ch") (auto simp: choice_Selected_def clamp_def)

text \<open>A row with its own selection and an enabled condition that is fixed.\<close>

definition own_choice :: "'p ChoiceSpec \<Rightarrow> bool" where
  "own_choice ch \<longleftrightarrow> ch_Bind ch = None \<and> ch_Enabled ch = Fixed True \<and> ch_Choices ch \<noteq> [] \<and> ch_Apply ch = AfterStep"

lemma own_choice_step:
  assumes "own_choice ch"
  shows "row_Step pf (Choice ch) slot dir u =
    (True, u\<lparr>ui_Own := (ui_Own u)(ch_Own ch := (choice_Selected pf ch slot u + dir) mod int (length (ch_Choices ch)))\<rparr>)"
  using assms by (simp add: own_choice_def row_Step_def is_enabled_def choice_Step_def choice_Select_def WrapIndex_mod)

lemma own_choice_selected:
  "own_choice ch \<Longrightarrow> 0 \<le> i \<Longrightarrow> i < int (length (ch_Choices ch)) \<Longrightarrow>
     choice_Selected pf ch slot (u\<lparr>ui_Own := (ui_Own u)(ch_Own ch := i)\<rparr>) = i"
  by (simp add: own_choice_def choice_Selected_def clamp_id)

lemma own_choice_steady:
  assumes "own_choice ch"
  shows "steady (row_env pf ops env) k slot (Choice ch) (Choice ch)"
  unfolding steady_def row_env_def
  using assms by (auto simp: own_choice_step row_Describe_def DescribeRow_def new_row_def own_choice_def is_enabled_def Let_def put_held_def
      choice_Selected_def)

lemma own_choice_stepped:
  assumes "own_choice ch"
  shows "stepped (row_env pf ops env) slot (Choice ch) dirs u =
    (if dirs = [] then u else u\<lparr>ui_Own := (ui_Own u)(ch_Own ch := (choice_Selected pf ch slot u + sum_list dirs) mod int (length (ch_Choices ch)))\<rparr>)"
proof (induction dirs arbitrary: u)
  case (Cons dir dirs)
  let ?n = "int (length (ch_Choices ch))"
  define i where "i = (choice_Selected pf ch slot u + dir) mod ?n"
  define v where "v = u\<lparr>ui_Own := (ui_Own u)(ch_Own ch := i)\<rparr>"
  have "0 < ?n" using assms by (simp add: own_choice_def)
  then have sel: "choice_Selected pf ch slot v = i" using own_choice_selected[OF assms, of i] by (simp add: v_def i_def)
  have "stepped (row_env pf ops env) slot (Choice ch) (dir # dirs) u = stepped (row_env pf ops env) slot (Choice ch) dirs v"
    by (simp add: stepped_def row_env_def own_choice_step[OF assms] v_def i_def)
  also have "\<dots> = (if dirs = [] then v else v\<lparr>ui_Own := (ui_Own v)(ch_Own ch := (i + sum_list dirs) mod ?n)\<rparr>)"
    by (simp only: Cons.IH sel)
  finally show ?case by (simp add: v_def i_def mod_add_left_eq add.assoc)
qed (simp add: stepped_def)

section \<open>Properties\<close>

text \<open>
  a burst of presses on a choice row of an open menu commits once, with the choice the presses add up
  to, around the list: whatever the presses were, the plugin's commit function gets the index
  \<open>(start + sum) mod n\<close>, always in range, and the row shows that choice.
\<close>

theorem choice_burst:
  assumes "own_choice ch" and "ch_Commit ch = Some commit"
    and "item_at (stack_Current k slot u) index = Some (ToItem (Choice ch))"
    and "ui_Held u k slot = no_entry" and "dirs \<noteq> []"
    and "e = row_env pf ops env" and "picked = (choice_Selected pf ch slot u + sum_list dirs) mod int (length (ch_Choices ch))"
  shows "stack_ApplyPending e k slot (presses e k slot index dirs u) =
      me_Committed env k slot (pf_RunIndex pf commit slot picked (u\<lparr>ui_Own := (ui_Own u)(ch_Own ch := picked)\<rparr>)) \<and>
    0 \<le> picked \<and> picked < int (length (ch_Choices ch)) \<and>
    mr_Value (row_Describe pf (Choice ch) slot (presses e k slot index dirs u)) = ch_Choices ch ! nat picked"
proof -
  let ?n = "int (length (ch_Choices ch))" and ?w = "u\<lparr>ui_Own := (ui_Own u)(ch_Own ch := picked)\<rparr>"
  have own: "ch_Bind ch = None" "ch_Enabled ch = Fixed True" "ch_Choices ch \<noteq> []" "ch_Apply ch = AfterStep"
    using assms(1) by (auto simp: own_choice_def)
  have range: "0 \<le> picked" "picked < ?n" using own(3) by (simp_all add: assms(7))
  have st: "stepped e slot (Choice ch) dirs u = ?w"
    using own_choice_stepped[OF assms(1), of pf ops env slot dirs u] assms(5) by (simp add: assms(6,7))
  have v: "presses e k slot index dirs u = put_held k slot (held_row e index (Choice ch)) ?w"
    using burst_holds[OF own_choice_steady[OF assms(1), of pf ops env k slot] assms(3), of "Choice ch" dirs] assms(4,5) own(4) st
    by (simp add: ToItem_def no_entry_def assms(6))
  obtain m where m: "stack_Current k slot u = Some m" using assms(3) by (cases "stack_Current k slot u") (auto simp: item_at_def)
  have "put_held k slot no_entry ?w = ?w" using assms(4) by (simp add: put_held_def fun_upd_idem)
  then have "stack_ApplyPending e k slot (presses e k slot index dirs u) = me_Committed e k slot (me_Commit e (Choice ch) slot ?w)"
    using stack_Current_valid[OF m] by (simp add: stack_ApplyPending_def held_Apply_def v held_row_def)
  moreover have sel: "choice_Selected pf ch slot ?w = picked" using own_choice_selected[OF assms(1) range] .
  ultimately have "stack_ApplyPending e k slot (presses e k slot index dirs u) =
      me_Committed env k slot (pf_RunIndex pf commit slot picked ?w)"
    using own assms(2) by (simp add: assms(6) row_env_def row_Commit_def is_enabled_def choice_Apply_def)
  moreover have "choice_Selected pf ch slot (presses e k slot index dirs u) = picked"
    using sel own by (simp add: v choice_Selected_def put_held_def)
  ultimately show ?thesis using range own by (simp add: row_Describe_def Let_def)
qed

definition example_choice :: "nat ChoiceSpec" where
  "example_choice = \<lparr>ch_Label = ''Team'', ch_Choices = [''T'', ''CT'', ''Spectator''], ch_Commit = Some 0, ch_Bind = None, ch_Own = 7,
     ch_Enabled = Fixed True, ch_Apply = AfterStep\<rparr>"

definition example_fns :: "(nat, int list) plugin_fns" where
  "example_fns = \<lparr>pf_Test = (\<lambda>_ _ _. True), pf_Run = (\<lambda>_ _ u. u),
     pf_RunIndex = (\<lambda>_ _ index u. u\<lparr>ui_World := ui_World u @ [index]\<rparr>), pf_GetIndex = (\<lambda>_ _ _. 0), pf_GetText = (\<lambda>_ _ _. []),
     pf_SetText = (\<lambda>_ _ _ u. (True, u)), pf_Build = (\<lambda>_ _ u. (None, u))\<rparr>"

definition example_base :: "(nat row_spec, int list) menu_env" where
  "example_base = \<lparr>me_Describe = (\<lambda>_ _ _. new_row), me_Activate = (\<lambda>_ _ _ u. u), me_Step = (\<lambda>_ _ _ u. (False, u)), me_Commit = (\<lambda>_ _ u. u),
     me_Committed = (\<lambda>_ _ u. u), me_Input = (\<lambda>_ _ _ u. (True, u)), me_Now = 100, me_Translations = tr_init, me_Languages = (\<lambda>_. []),
     me_HasReply = False, me_Available = True, me_Ready = (\<lambda>_. True), me_Spawns = (\<lambda>_. True), me_HasScreen = (\<lambda>_. True)\<rparr>"

definition example_teams :: "(nat, int list) row_ui" where
  "example_teams = stack_Push PanoramaSurface 0 (Some (mb_Build (mb_Add (Choice example_choice) (MenuBuilder 1 ''Teams'')))) (new_ui [])"

theorem choice_burst_witness:
  "ui_World (stack_ApplyPending (row_env example_fns \<lparr>so_Open = (\<lambda>_ _ _ u. u), so_Prompt = (\<lambda>_ _ _ _ u. u)\<rparr> example_base) PanoramaSurface 0
     (presses (row_env example_fns \<lparr>so_Open = (\<lambda>_ _ _ u. u), so_Prompt = (\<lambda>_ _ _ _ u. u)\<rparr> example_base) PanoramaSurface 0 0 [-1, -1] example_teams)) = [1]"
proof -
  have own: "own_choice example_choice" by (simp add: own_choice_def example_choice_def)
  have it: "item_at (stack_Current PanoramaSurface 0 example_teams) 0 = Some (ToItem (Choice example_choice))"
    by (simp add: example_teams_def stack_Push_def IsValidSlot_def MaxPlayers_def new_ui_def new_stack_def stack_Rebuild_def upd_state_def
        stack_Current_def item_at_def mb_Build_def mb_Add_def mb_AddItem_def MenuBuilder_def)
  have held: "ui_Held example_teams PanoramaSurface 0 = no_entry" and w: "ui_World example_teams = []" and o: "ui_Own example_teams 7 = 0"
    by (simp_all add: example_teams_def stack_Push_def IsValidSlot_def MaxPlayers_def new_ui_def new_stack_def stack_Rebuild_def upd_state_def)
  have "choice_Selected example_fns example_choice 0 example_teams = 0"
    by (simp add: choice_Selected_def example_choice_def clamp_def o)
  then show ?thesis
    using choice_burst[OF own _ it held, of 0 "[-1, -1]" _ example_fns "\<lparr>so_Open = (\<lambda>_ _ _ u. u), so_Prompt = (\<lambda>_ _ _ _ u. u)\<rparr>" example_base 1]
    by (simp add: example_choice_def example_base_def example_fns_def w)
qed

end
