(* ===== verification/MenuServices.thy ===== *)
theory MenuServices
  imports MenuStack
begin

text \<open>
  The two services every menu surface uses: chat input for prompts, and holding players still.
  Sources: \<^verbatim>\<open>src/Menu/{ChatInput,MenuFreeze}.cpp\<close>, \<^verbatim>\<open>src/Entities/MovementFreeze.cpp\<close>. A capture's timeout is the
  time it is due; \<open>chat_timer\<close> is that timer firing. The pawn of a slot is what the engine shows there, or none;
  its move type is a number, of which 0 stands still.
\<close>

section \<open>Chat input\<close>

definition put_chat :: "int \<Rightarrow> 'c Capture option \<Rightarrow> ('c, 'w) ui \<Rightarrow> ('c, 'w) ui" where
  "put_chat slot c u = u\<lparr>ui_Chat := (ui_Chat u)(slot := c)\<rparr>"

definition CancelCapture :: "int \<Rightarrow> ('c, 'w) ui \<Rightarrow> ('c, 'w) ui" where
  "CancelCapture slot u = (if IsValidSlot slot then put_chat slot None u else u)"

definition DefaultTimeoutMs :: int where "DefaultTimeoutMs = 60000"

definition BeginCapture :: "('c, 'w) menu_env \<Rightarrow> int \<Rightarrow> string \<Rightarrow> 'c option \<Rightarrow> int \<Rightarrow> ('c, 'w) ui \<Rightarrow> ('c, 'w) ui" where
  "BeginCapture env slot prompt callback timeoutMs u =
     (case callback of
        None \<Rightarrow> u
      | Some c \<Rightarrow>
          if \<not> IsValidSlot slot then u
          else put_chat slot (Some \<lparr>cp_Prompt = prompt, cp_Callback = c,
                 cp_Timeout = (if 0 < timeoutMs then Some (me_Now env + timeoutMs) else None)\<rparr>) (CancelCapture slot u))"

definition chat_timer :: "('c, 'w) menu_env \<Rightarrow> int \<Rightarrow> ('c, 'w) ui \<Rightarrow> ('c, 'w) ui" where
  "chat_timer env slot u =
     (case ui_Chat u slot of None \<Rightarrow> u
      | Some c \<Rightarrow> (case cp_Timeout c of None \<Rightarrow> u | Some due_at \<Rightarrow> if due_at \<le> me_Now env then CancelCapture slot u else u))"

definition IsCapturing :: "int \<Rightarrow> ('c, 'w) ui \<Rightarrow> bool" where
  "IsCapturing slot u \<longleftrightarrow> IsValidSlot slot \<and> ui_Chat u slot \<noteq> None"

definition TryConsume :: "('c, 'w) menu_env \<Rightarrow> int \<Rightarrow> string \<Rightarrow> ('c, 'w) ui \<Rightarrow> bool \<times> ('c, 'w) ui" where
  "TryConsume env slot txt u =
     (if \<not> IsValidSlot slot then (False, u)
      else case ui_Chat u slot of
             None \<Rightarrow> (False, u)
           | Some pending \<Rightarrow> (case me_Input env (cp_Callback pending) slot txt (put_chat slot None u) of
               (accepted, u1) \<Rightarrow>
                 (True, if \<not> accepted \<and> ui_Chat u1 slot = None then put_chat slot (Some pending) u1 else u1)))"

definition GetPrompt :: "int \<Rightarrow> ('c, 'w) ui \<Rightarrow> string option" where
  "GetPrompt slot u = (if IsValidSlot slot then map_option cp_Prompt (ui_Chat u slot) else None)"

section \<open>Holding one pawn\<close>

text \<open>A pawn in the hand is the slot's current one; writing its move type writes the engine's.\<close>

definition set_move :: "int \<Rightarrow> nat \<Rightarrow> ('c, 'w) ui \<Rightarrow> ('c, 'w) ui" where
  "set_move slot t u = u\<lparr>ui_Pawns := (ui_Pawns u)(slot := map_option (pw_MoveType_update (\<lambda>_. t)) (ui_Pawns u slot))\<rparr>"

definition put_movement :: "int \<Rightarrow> MovementFreeze \<Rightarrow> ('c, 'w) ui \<Rightarrow> ('c, 'w) ui" where
  "put_movement slot m u = u\<lparr>ui_Freeze := (ui_Freeze u)(slot := (ui_Freeze u slot)\<lparr>fs_Movement := m\<rparr>)\<rparr>"

definition MoveNone :: nat where "MoveNone = 0"

definition freeze_Hold :: "int \<Rightarrow> ('c, 'w) ui \<Rightarrow> ('c, 'w) ui" where
  "freeze_Hold slot u =
     (case (mf_Pawn (fs_Movement (ui_Freeze u slot)), ui_Pawns u slot) of
        (None, Some pawn) \<Rightarrow>
          if \<not> pw_Alive pawn then u
          else set_move slot MoveNone (put_movement slot \<lparr>mf_Pawn = Some (pw_Ref pawn), mf_Prev = pw_MoveType pawn\<rparr> u)
      | _ \<Rightarrow> u)"

definition freeze_Release :: "int \<Rightarrow> ('c, 'w) ui \<Rightarrow> ('c, 'w) ui" where
  "freeze_Release slot u =
     (let m = fs_Movement (ui_Freeze u slot) in
      if mf_Pawn m = None then u
      else put_movement slot (m\<lparr>mf_Pawn := None\<rparr>)
             (if map_option pw_Ref (ui_Pawns u slot) = mf_Pawn m then set_move slot (mf_Prev m) u else u))"

definition freeze_Sync :: "int \<Rightarrow> ('c, 'w) ui \<Rightarrow> ('c, 'w) ui" where
  "freeze_Sync slot u =
     (let m = fs_Movement (ui_Freeze u slot);
          keeps = (case ui_Pawns u slot of None \<Rightarrow> False | Some pawn \<Rightarrow> pw_Alive pawn \<and> mf_Pawn m = Some (pw_Ref pawn))
      in freeze_Hold slot (if mf_Pawn m \<noteq> None \<and> \<not> keeps then put_movement slot (m\<lparr>mf_Pawn := None\<rparr>) u else u))"

section \<open>Freezing while a menu is open\<close>

definition SyncFrameWork :: "('c, 'w) ui \<Rightarrow> ('c, 'w) ui" where
  "SyncFrameWork u =
     (let wanted = (ui_FreezeEnabled u \<and> list_ex (\<lambda>slot. fs_Requested (ui_Freeze u slot)) all_slots)
      in if \<not> wanted then u\<lparr>ui_FreezeFrame := False\<rparr>
         else if \<not> ui_FreezeFrame u then u\<lparr>ui_FreezeFrame := True\<rparr> else u)"

definition freeze_Enable :: "bool \<Rightarrow> ('c, 'w) ui \<Rightarrow> ('c, 'w) ui" where
  "freeze_Enable enabled u =
     (let u1 = u\<lparr>ui_FreezeEnabled := enabled\<rparr>
      in SyncFrameWork (if \<not> enabled then fold freeze_Release all_slots u1 else u1))"

definition put_requested :: "int \<Rightarrow> bool \<Rightarrow> ('c, 'w) ui \<Rightarrow> ('c, 'w) ui" where
  "put_requested slot b u = u\<lparr>ui_Freeze := (ui_Freeze u)(slot := (ui_Freeze u slot)\<lparr>fs_Requested := b\<rparr>)\<rparr>"

definition freeze_Open :: "int \<Rightarrow> bool \<Rightarrow> ('c, 'w) ui \<Rightarrow> ('c, 'w) ui" where
  "freeze_Open slot requested u =
     (if \<not> IsValidSlot slot then u
      else let u1 = put_requested slot requested u
           in SyncFrameWork (if ui_FreezeEnabled u1 \<and> requested then freeze_Hold slot u1 else u1))"

definition freeze_Close :: "int \<Rightarrow> ('c, 'w) ui \<Rightarrow> ('c, 'w) ui" where
  "freeze_Close slot u =
     (if \<not> IsValidSlot slot then u else SyncFrameWork (freeze_Release slot (put_requested slot False u)))"

definition freeze_OnGameFrame :: "('c, 'w) ui \<Rightarrow> ('c, 'w) ui" where
  "freeze_OnGameFrame u = fold (\<lambda>slot u. if fs_Requested (ui_Freeze u slot) then freeze_Sync slot u else u) all_slots u"

definition freeze_slot_changed :: "int \<Rightarrow> ('c, 'w) ui \<Rightarrow> ('c, 'w) ui" where
  "freeze_slot_changed slot u =
     u\<lparr>ui_Freeze := PerSlot_Reset \<lparr>fs_Requested = False, fs_Movement = \<lparr>mf_Pawn = None, mf_Prev = 2\<rparr>\<rparr> slot (ui_Freeze u)\<rparr>"

text \<open>The subscribed frame handler.\<close>

definition freeze_frame :: "('c, 'w) ui \<Rightarrow> ('c, 'w) ui" where
  "freeze_frame u = (if ui_FreezeFrame u then freeze_OnGameFrame u else u)"

section \<open>What a hold does to a pawn\<close>

text \<open>
  \<open>natural\<close> is the move type the game gave each pawn. A live pawn either has it, or is the one held in
  its slot: then it stands still and its own type is remembered.
\<close>

definition slot_moves :: "(nat \<Rightarrow> nat) \<Rightarrow> ('c, 'w) ui \<Rightarrow> int \<Rightarrow> bool" where
  "slot_moves natural u slot \<longleftrightarrow>
     (\<forall>p. ui_Pawns u slot = Some p \<longrightarrow> pw_Alive p \<longrightarrow>
        (if mf_Pawn (fs_Movement (ui_Freeze u slot)) = Some (pw_Ref p)
         then pw_MoveType p = MoveNone \<and> mf_Prev (fs_Movement (ui_Freeze u slot)) = natural (pw_Ref p)
         else pw_MoveType p = natural (pw_Ref p)))"

definition moves_ok :: "(nat \<Rightarrow> nat) \<Rightarrow> ('c, 'w) ui \<Rightarrow> bool" where
  "moves_ok natural u \<longleftrightarrow> (\<forall>slot. slot_moves natural u slot) \<and>
     ((ui_FreezeEnabled u \<and> (\<exists>slot. IsValidSlot slot \<and> fs_Requested (ui_Freeze u slot))) \<longrightarrow> ui_FreezeFrame u)"

lemmas freeze_parts = set_move_def put_movement_def put_requested_def Let_def

lemma moves_SyncFrameWork [simp]:
  "ui_Pawns (SyncFrameWork u) = ui_Pawns u" "ui_Freeze (SyncFrameWork u) = ui_Freeze u"
  "ui_FreezeEnabled (SyncFrameWork u) = ui_FreezeEnabled u"
  by (simp_all add: SyncFrameWork_def Let_def)

lemma slot_moves_SyncFrameWork [simp]: "slot_moves natural (SyncFrameWork u) slot = slot_moves natural u slot"
  by (simp add: slot_moves_def)

lemma SyncFrameWork_frame: "ui_FreezeFrame (SyncFrameWork u) \<longleftrightarrow>
    ui_FreezeEnabled u \<and> (\<exists>slot. IsValidSlot slot \<and> fs_Requested (ui_Freeze u slot))"
  by (auto simp: SyncFrameWork_def Let_def list_ex_iff)

lemma moves_requested [simp]: "slot_moves natural (put_requested s b u) slot = slot_moves natural u slot"
  by (simp add: slot_moves_def put_requested_def)

lemma moves_Hold:
  assumes "slot_moves natural u slot"
  shows "slot_moves natural (freeze_Hold s u) slot"
proof (cases "mf_Pawn (fs_Movement (ui_Freeze u s)) = None \<and> (\<exists>pawn. ui_Pawns u s = Some pawn \<and> pw_Alive pawn)")
  case True
  then obtain pawn where pawn: "mf_Pawn (fs_Movement (ui_Freeze u s)) = None" "ui_Pawns u s = Some pawn" "pw_Alive pawn" by blast
  have "freeze_Hold s u = set_move s MoveNone (put_movement s \<lparr>mf_Pawn = Some (pw_Ref pawn), mf_Prev = pw_MoveType pawn\<rparr> u)"
    using pawn by (simp add: freeze_Hold_def)
  then show ?thesis using assms pawn by (cases "s = slot") (simp_all add: slot_moves_def freeze_parts)
next
  case False
  then have "freeze_Hold s u = u" by (auto simp: freeze_Hold_def split: option.split)
  with assms show ?thesis by simp
qed

lemma moves_Release: "slot_moves natural u slot \<Longrightarrow> slot_moves natural (freeze_Release s u) slot"
  by (cases "s = slot") (auto simp: slot_moves_def freeze_Release_def freeze_parts split: option.splits if_splits)

lemma moves_Sync: "slot_moves natural u slot \<Longrightarrow> slot_moves natural (freeze_Sync s u) slot"
  unfolding freeze_Sync_def Let_def
  by (rule moves_Hold) (cases "s = slot", auto simp: slot_moves_def freeze_parts split: option.splits if_splits)

lemma freeze_keeps [simp]:
  "fs_Requested (ui_Freeze (freeze_Hold s u) slot) = fs_Requested (ui_Freeze u slot)"
  "fs_Requested (ui_Freeze (freeze_Release s u) slot) = fs_Requested (ui_Freeze u slot)"
  "fs_Requested (ui_Freeze (freeze_Sync s u) slot) = fs_Requested (ui_Freeze u slot)"
  "ui_FreezeEnabled (freeze_Hold s u) = ui_FreezeEnabled u" "ui_FreezeEnabled (freeze_Release s u) = ui_FreezeEnabled u"
  "ui_FreezeEnabled (freeze_Sync s u) = ui_FreezeEnabled u" "ui_FreezeFrame (freeze_Sync s u) = ui_FreezeFrame u"
  by (simp_all add: freeze_Hold_def freeze_Release_def freeze_Sync_def freeze_parts split: option.split)

lemma freeze_other:
  "s \<noteq> slot \<Longrightarrow> ui_Pawns (freeze_Sync s u) slot = ui_Pawns u slot \<and> ui_Freeze (freeze_Sync s u) slot = ui_Freeze u slot"
  "s \<noteq> slot \<Longrightarrow> ui_Pawns (freeze_Release s u) slot = ui_Pawns u slot \<and> ui_Freeze (freeze_Release s u) slot = ui_Freeze u slot"
  by (simp_all add: freeze_Sync_def freeze_Hold_def freeze_Release_def freeze_parts split: option.split)

lemma fold_frame:
  assumes "\<forall>slot. slot_moves natural u slot"
  defines "step \<equiv> \<lambda>slot u. if fs_Requested (ui_Freeze u slot) then freeze_Sync slot u else u"
  shows "(\<forall>slot. slot_moves natural (fold step slots u) slot) \<and> ui_FreezeEnabled (fold step slots u) = ui_FreezeEnabled u \<and>
    ui_FreezeFrame (fold step slots u) = ui_FreezeFrame u \<and> (\<forall>slot. fs_Requested (ui_Freeze (fold step slots u) slot) = fs_Requested (ui_Freeze u slot))"
  using assms(1)
proof (induction slots arbitrary: u)
  case (Cons s slots)
  have "\<forall>slot. slot_moves natural (step s u) slot" using Cons.prems by (auto simp: step_def intro: moves_Sync)
  from Cons.IH[OF this] show ?case by (simp add: step_def)
qed simp

lemma fold_release:
  assumes "\<forall>slot. slot_moves natural u slot"
  shows "(\<forall>slot. slot_moves natural (fold freeze_Release slots u) slot) \<and>
    (\<forall>slot. fs_Requested (ui_Freeze (fold freeze_Release slots u) slot) = fs_Requested (ui_Freeze u slot))"
  using assms
proof (induction slots arbitrary: u)
  case (Cons s slots)
  have "\<forall>slot. slot_moves natural (freeze_Release s u) slot" using Cons.prems by (auto intro: moves_Release)
  from Cons.IH[OF this] show ?case by simp
qed simp

inductive freeze_run :: "(nat \<Rightarrow> nat) \<Rightarrow> ('c, 'w) ui \<Rightarrow> bool" for natural where
  start: "freeze_run natural (new_ui w)"
| enable: "freeze_run natural u \<Longrightarrow> freeze_run natural (freeze_Enable b u)"
| opens: "freeze_run natural u \<Longrightarrow> freeze_run natural (freeze_Open slot b u)"
| closes: "freeze_run natural u \<Longrightarrow> freeze_run natural (freeze_Close slot u)"
| frame: "freeze_run natural u \<Longrightarrow> freeze_run natural (freeze_frame u)"
| dies: "freeze_run natural u \<Longrightarrow> freeze_run natural (u\<lparr>ui_Pawns := (ui_Pawns u)(slot := map_option (pw_Alive_update (\<lambda>_. False)) (ui_Pawns u slot))\<rparr>)"
| spawns: "freeze_run natural u \<Longrightarrow> pw_MoveType p = natural (pw_Ref p) \<Longrightarrow> mf_Pawn (fs_Movement (ui_Freeze u slot)) \<noteq> Some (pw_Ref p) \<Longrightarrow>
    freeze_run natural (u\<lparr>ui_Pawns := (ui_Pawns u)(slot := Some p)\<rparr>)"
| changes: "freeze_run natural u \<Longrightarrow> freeze_run natural (freeze_slot_changed slot (u\<lparr>ui_Pawns := (ui_Pawns u)(slot := None)\<rparr>))"

lemma freeze_run_ok: "freeze_run natural u \<Longrightarrow> moves_ok natural u"
proof (induction rule: freeze_run.induct)
  case (start w)
  then show ?case by (simp add: moves_ok_def slot_moves_def new_ui_def)
next
  case (enable u b)
  have m: "\<forall>slot. slot_moves natural (u\<lparr>ui_FreezeEnabled := b\<rparr>) slot" using enable.IH by (simp add: moves_ok_def slot_moves_def)
  then show ?case using fold_release[OF m, of all_slots] enable.IH unfolding freeze_Enable_def Let_def
    by (cases b) (auto simp: moves_ok_def SyncFrameWork_frame)
next
  case (opens u slot b)
  then show ?case unfolding freeze_Open_def Let_def by (auto simp: moves_ok_def SyncFrameWork_frame moves_Hold)
next
  case (closes u slot)
  then show ?case unfolding freeze_Close_def by (auto simp: moves_ok_def SyncFrameWork_frame moves_Release)
next
  case (frame u)
  then show ?case unfolding freeze_frame_def freeze_OnGameFrame_def using fold_frame[of natural u all_slots]
    by (auto simp: moves_ok_def)
next
  case (dies u slot)
  then show ?case by (auto simp: moves_ok_def slot_moves_def split: option.splits)
next
  case (spawns u p slot)
  then show ?case by (auto simp: moves_ok_def slot_moves_def)
next
  case (changes u slot)
  then show ?case by (auto simp: moves_ok_def slot_moves_def freeze_slot_changed_def PerSlot_Reset_def split: if_splits)
qed

lemma Sync_still:
  assumes "ui_Pawns u slot = Some p" "pw_Alive p" "slot_moves natural u slot"
  shows "\<exists>q. ui_Pawns (freeze_Sync slot u) slot = Some q \<and> pw_MoveType q = MoveNone \<and> pw_Ref q = pw_Ref p \<and> pw_Alive q"
  using assms by (auto simp: freeze_Sync_def freeze_Hold_def freeze_parts slot_moves_def split: option.splits if_splits)

lemma frame_still:
  assumes "ui_Pawns u slot = Some p" "pw_Alive p" "\<forall>s. slot_moves natural u s" "fs_Requested (ui_Freeze u slot)"
  shows "slot \<in> set slots \<Longrightarrow> distinct slots \<Longrightarrow>
    \<exists>q. ui_Pawns (fold (\<lambda>slot u. if fs_Requested (ui_Freeze u slot) then freeze_Sync slot u else u) slots u) slot = Some q \<and> pw_MoveType q = MoveNone"
  using assms
proof (induction slots arbitrary: u p)
  case (Cons s slots)
  let ?step = "\<lambda>slot u. if fs_Requested (ui_Freeze u slot) then freeze_Sync slot u else u"
  have ok: "\<forall>x. slot_moves natural (?step s u) x" using Cons.prems by (auto intro: moves_Sync)
  have keep: "x \<noteq> slot \<Longrightarrow> ui_Pawns (?step x v) slot = ui_Pawns v slot" for x and v :: "('a, 'b) ui" using freeze_other(1)[of x slot v] by auto
  have skip: "slot \<notin> set xs \<Longrightarrow> ui_Pawns (fold ?step xs v) slot = ui_Pawns v slot" for xs and v :: "('a, 'b) ui"
    using keep by (induction xs arbitrary: v) auto
  show ?case
  proof (cases "s = slot")
    case True
    then obtain q where "ui_Pawns (?step s u) slot = Some q" "pw_MoveType q = MoveNone"
      using Sync_still[OF Cons.prems(3,4), of natural] Cons.prems(5,6) by auto
    then show ?thesis using skip[of slots "?step s u"] Cons.prems(1,2) True by auto
  next
    case False
    have "fs_Requested (ui_Freeze (?step s u) slot)" using Cons.prems(6) by auto
    with Cons.IH[of "?step s u" p] Cons.prems False ok keep[OF False, of u] show ?thesis by auto
  qed
qed simp

lemma Release_natural:
  assumes "ui_Pawns u slot = Some p" "pw_Alive p" "slot_moves natural u slot"
  shows "\<exists>q. ui_Pawns (freeze_Release slot u) slot = Some q \<and> pw_MoveType q = natural (pw_Ref p) \<and> pw_Ref q = pw_Ref p \<and> pw_Alive q"
  using assms by (auto simp: slot_moves_def freeze_Release_def freeze_parts split: if_splits)

lemma fold_release_natural:
  assumes "ui_Pawns u slot = Some p" "pw_Alive p" "slot_moves natural u slot" "slot \<in> set slots"
  shows "\<exists>q. ui_Pawns (fold freeze_Release slots u) slot = Some q \<and> pw_MoveType q = natural (pw_Ref p)"
proof -
  have gen: "\<exists>q. ui_Pawns (fold freeze_Release slots v) slot = Some q \<and> pw_Alive q \<and> pw_Ref q = pw_Ref p \<and> slot_moves natural (fold freeze_Release slots v) slot \<and>
      (slot \<in> set slots \<longrightarrow> pw_MoveType q = natural (pw_Ref p) \<and> mf_Pawn (fs_Movement (ui_Freeze (fold freeze_Release slots v) slot)) = None)"
    if "ui_Pawns v slot = Some q" "pw_Alive q" "pw_Ref q = pw_Ref p" "slot_moves natural v slot" for v q
    using that
  proof (induction slots rule: rev_induct)
    case (snoc s slots)
    let ?v = "fold freeze_Release slots v"
    from snoc obtain q' where q': "ui_Pawns ?v slot = Some q'" "pw_Alive q'" "pw_Ref q' = pw_Ref p" "slot_moves natural ?v slot"
      "slot \<in> set slots \<longrightarrow> pw_MoveType q' = natural (pw_Ref p) \<and> mf_Pawn (fs_Movement (ui_Freeze ?v slot)) = None" by blast
    show ?case
    proof (cases "s = slot")
      case True
      have "mf_Pawn (fs_Movement (ui_Freeze (freeze_Release slot ?v) slot)) = None" by (simp add: freeze_Release_def freeze_parts)
      with True Release_natural[OF q'(1,2,4)] q' moves_Release[OF q'(4)] show ?thesis by auto
    next
      case False
      then show ?thesis using q' freeze_other(2)[OF False, of ?v] moves_Release[OF q'(4)] by auto
    qed
  qed auto
  from gen[OF assms(1,2) refl assms(3)] assms(4) show ?thesis by auto
qed

section \<open>Properties\<close>

text \<open>
  whatever menus open and close, deaths, respawns and changes of the setting happen, a pawn gets back the
  move type the game gave it: when its menu closes, when freezing is turned off, and it has it whenever it is not
  held. A player whose session asked for it stands still after every frame, on a new pawn as well.
\<close>

theorem freeze_gives_back:
  assumes "freeze_run natural u" and "ui_Pawns u slot = Some p" and "pw_Alive p" and "IsValidSlot slot"
  shows "map_option pw_MoveType (ui_Pawns (freeze_Close slot u) slot) = Some (natural (pw_Ref p)) \<and>
    map_option pw_MoveType (ui_Pawns (freeze_Enable False u) slot) = Some (natural (pw_Ref p)) \<and>
    (mf_Pawn (fs_Movement (ui_Freeze u slot)) = None \<longrightarrow> pw_MoveType p = natural (pw_Ref p)) \<and>
    (ui_FreezeEnabled u \<and> fs_Requested (ui_Freeze u slot) \<longrightarrow> map_option pw_MoveType (ui_Pawns (freeze_frame u) slot) = Some MoveNone)"
proof (intro conjI impI)
  have ok: "\<forall>s. slot_moves natural u s" "(ui_FreezeEnabled u \<and> (\<exists>s. IsValidSlot s \<and> fs_Requested (ui_Freeze u s))) \<longrightarrow> ui_FreezeFrame u"
    using freeze_run_ok[OF assms(1)] by (auto simp: moves_ok_def)
  have "slot_moves natural (put_requested slot False u) slot" using ok(1) by simp
  from Release_natural[OF _ assms(3) this] assms(2,4) show "map_option pw_MoveType (ui_Pawns (freeze_Close slot u) slot) = Some (natural (pw_Ref p))"
    by (auto simp: freeze_Close_def put_requested_def)
  have "slot_moves natural (u\<lparr>ui_FreezeEnabled := False\<rparr>) slot" using ok(1) by (simp add: slot_moves_def)
  from fold_release_natural[OF _ assms(3) this, of all_slots] assms(2,4)
  show "map_option pw_MoveType (ui_Pawns (freeze_Enable False u) slot) = Some (natural (pw_Ref p))"
    by (auto simp: freeze_Enable_def)
  show "pw_MoveType p = natural (pw_Ref p)" if "mf_Pawn (fs_Movement (ui_Freeze u slot)) = None"
    using that ok(1)[rule_format, of slot] assms(2,3) by (simp add: slot_moves_def)
  show "map_option pw_MoveType (ui_Pawns (freeze_frame u) slot) = Some MoveNone" if "ui_FreezeEnabled u \<and> fs_Requested (ui_Freeze u slot)"
    using frame_still[OF assms(2,3) ok(1), of all_slots] that ok(2) assms(4) by (auto simp: freeze_frame_def freeze_OnGameFrame_def)
qed

theorem freeze_gives_back_witness:
  "map_option pw_MoveType (ui_Pawns (freeze_Close 2 (freeze_Open 2 True (freeze_Enable True
     ((new_ui () :: (nat, unit) ui)\<lparr>ui_Pawns := (\<lambda>_. None)(2 := Some \<lparr>pw_Ref = 9, pw_Alive = True, pw_MoveType = 5\<rparr>)\<rparr>)))) 2) = Some 5"
proof -
  let ?u0 = "(new_ui () :: (nat, unit) ui)\<lparr>ui_Pawns := (\<lambda>_. None)(2 := Some \<lparr>pw_Ref = 9, pw_Alive = True, pw_MoveType = 5\<rparr>)\<rparr>"
  have "freeze_run (\<lambda>_. 5) ?u0"
    using freeze_run.spawns[OF freeze_run.start, of "\<lparr>pw_Ref = 9, pw_Alive = True, pw_MoveType = 5\<rparr>" "\<lambda>_. 5" "()" 2]
    by (simp add: new_ui_def)
  then have run: "freeze_run (\<lambda>_. 5) (freeze_Open 2 True (freeze_Enable True ?u0))" by (intro freeze_run.opens freeze_run.enable)
  have p: "ui_Pawns (freeze_Open 2 True (freeze_Enable True ?u0)) 2 = Some \<lparr>pw_Ref = 9, pw_Alive = True, pw_MoveType = 0\<rparr>"
    by (simp add: freeze_Open_def freeze_Enable_def freeze_Hold_def freeze_parts IsValidSlot_def MaxPlayers_def new_ui_def MoveNone_def)
  from freeze_gives_back[OF run p] show ?thesis by (simp add: IsValidSlot_def MaxPlayers_def)
qed

end
