(* ===== verification/CenterHtmlRender.thy ===== *)
theory CenterHtmlRender
  imports MenuModel
begin

text \<open>
  A menu as center HTML. Source: \<^verbatim>\<open>src/Menu/CenterHtmlRender.{hpp,cpp}\<close>. Strings are bytes, so the
  characters outside ASCII are written as their UTF-8 bytes. \<^verbatim>\<open>view.Describe\<close> fills in the row memory of the
  stack it reads from, so it is a function on a state \<open>'s\<close> that is threaded through the page.
\<close>

section \<open>Theme\<close>

definition Gold :: string where "Gold = ''#FFD700''"
definition Amber :: string where "Amber = ''#FF8C00''"
definition WarmWhite :: string where "WarmWhite = ''#CCBBAA''"
definition WarmGray :: string where "WarmGray = ''#887755''"
definition DisabledColor :: string where "DisabledColor = ''#665544''"
definition NavGold :: string where "NavGold = ''#AA8833''"
definition NavClose :: string where "NavClose = ''#AA4422''"
definition NavBack :: string where "NavBack = ''#AA8833''"

lemmas theme = Gold_def Amber_def WarmWhite_def WarmGray_def DisabledColor_def NavGold_def NavClose_def NavBack_def

definition CenterHtmlRowsPerPage :: int where "CenterHtmlRowsPerPage = 5"

text \<open>The two opening tags the renderer writes, and the three characters outside ASCII.\<close>

definition font :: "string \<Rightarrow> string" where
  "font color = ''<font color='' @ [CHR 0x27] @ color @ [CHR 0x27] @ ''>''"

definition small_font :: "string \<Rightarrow> string" where
  "small_font color = ''<font class='' @ [CHR 0x27] @ ''fontSize-s'' @ [CHR 0x27] @ '' color='' @ [CHR 0x27] @ color @ [CHR 0x27] @ ''>''"

definition small :: string where
  "small = ''<font class='' @ [CHR 0x27] @ ''fontSize-s'' @ [CHR 0x27] @ ''>''"

definition guillemet :: string where "guillemet = [CHR 0xE2, CHR 0x80, CHR 0xBA]"
definition middle_dot :: string where "middle_dot = [CHR 0xC2, CHR 0xB7]"
definition ellipsis :: string where "ellipsis = [CHR 0xE2, CHR 0x80, CHR 0xA6]"

section \<open>Rendering\<close>

record CenterHtmlHeader =
  hd_Title :: string
  hd_Subtitle :: string
  hd_Breadcrumb :: string
  hd_Page :: int
  hd_Pages :: int

record 's CenterHtmlView =
  vw_Describe :: "(int \<Rightarrow> 's \<Rightarrow> MenuRow \<times> 's) option"
  vw_Breadcrumb :: string
  vw_Slot :: int
  vw_SelectedIndex :: int
  vw_IsSubmenu :: bool

definition RenderHeader :: "CenterHtmlHeader \<Rightarrow> string" where
  "RenderHeader header =
     (if hd_Breadcrumb header \<noteq> [] then small_font WarmGray @ EscapeHtml (hd_Breadcrumb header) @ '' '' @ guillemet @ '' </font>'' else []) @
     font Gold @ ''<b>'' @ EscapeHtml (hd_Title header) @ ''</b></font>'' @
     (if hd_Subtitle header \<noteq> [] then '' '' @ small_font WarmGray @ EscapeHtml (hd_Subtitle header) @ ''</font>'' else []) @
     (if 1 < hd_Pages header
      then '' '' @ small_font WarmGray @ ''('' @ to_string_int (hd_Page header + 1) @ ''/'' @ to_string_int (hd_Pages header) @ '')</font>'' else []) @
     ''<br>''"

definition FooterChunk :: "string \<Rightarrow> string \<Rightarrow> string \<Rightarrow> string" where
  "FooterChunk keyColor keyText label =
     font keyColor @ keyText @ ''</font> '' @ font WarmGray @ label @ ''</font>''"

text \<open>The labels of the footer come from the translation tables, and are not escaped.\<close>

definition RenderFooter :: "bool \<Rightarrow> bool \<Rightarrow> bool \<Rightarrow> int \<Rightarrow> (string \<Rightarrow> string \<Rightarrow> string) \<Rightarrow> string" where
  "RenderFooter isSubmenu isPaginated selectedRowSteps slot label =
     (let closeColor = (if isSubmenu then NavBack else NavClose);
          closeLabel = (if isSubmenu then label ''nav.back'' ''Back'' else label ''nav.close'' ''Close'');
          hasStepHint = (selectedRowSteps \<or> isPaginated);
          row1 = FooterChunk NavGold ''[W/S]'' (label ''nav.navigate'' ''Navigate'') @
            (if selectedRowSteps then '' '' @ middle_dot @ '' '' @ FooterChunk NavGold ''[A/D]'' (label ''nav.change'' ''Change'')
             else if isPaginated then '' '' @ middle_dot @ '' '' @ FooterChunk NavGold ''[A/D]'' (label ''nav.page'' ''Page'')
             else []) @
            '' '' @ middle_dot @ '' '' @
            FooterChunk Gold ''[E]'' (if selectedRowSteps then label ''nav.confirm'' ''Confirm'' else label ''nav.select'' ''Select'');
          closeChunk = FooterChunk closeColor ''[R]'' closeLabel
      in small @ row1 @ (if hasStepHint then ''<br>'' @ closeChunk else '' '' @ middle_dot @ '' '' @ closeChunk) @ ''</font>'')"

definition RowText :: "MenuRow \<Rightarrow> string" where
  "RowText row =
     (let txt = EscapeHtml (mr_Label row) in
      if mr_Value row = [] then txt
      else let v = EscapeHtml (mr_Value row) @ (if mr_Pending row then ellipsis else []);
               shown = (if mr_Kind row = ToggleKind then ''['' @ v @ '']''
                        else if mr_Kind row = ChoiceKind then ''&lt; '' @ v @ '' &gt;'' else v)
           in txt @ '': '' @ shown @ (if mr_Changed row then '' *'' else []))"

definition render_row :: "int \<Rightarrow> int \<Rightarrow> MenuRow \<Rightarrow> string" where
  "render_row selectedIndex i row =
     (if \<not> mr_Enabled row then font DisabledColor @ ''- '' @ RowText row @ ''</font><br>''
      else if \<not> mr_Selectable row then font WarmGray @ RowText row @ ''</font><br>''
      else if i = selectedIndex then font Amber @ ''<b>&gt; '' @ RowText row @ ''</b></font><br>''
      else font WarmWhite @ ''  '' @ RowText row @ ''</font><br>'')"

text \<open>The rows from \<open>i\<close> on, as many as the list has entries, and the cursor's row as it was described.\<close>

fun RenderItems :: "(int \<Rightarrow> 's \<Rightarrow> MenuRow \<times> 's) \<Rightarrow> int \<Rightarrow> int list \<Rightarrow> MenuRow \<Rightarrow> 's \<Rightarrow> string \<times> MenuRow \<times> 's" where
  "RenderItems describe selectedIndex [] selected st = ([], selected, st)"
| "RenderItems describe selectedIndex (i # is) selected st =
     (let (row, st1) = describe i st;
          (rest, selected', st2) = RenderItems describe selectedIndex is (if i = selectedIndex then row else selected) st1
      in (render_row selectedIndex i row @ rest, selected', st2))"

definition RenderMenuHtml ::
  "'c Menu option \<Rightarrow> 's CenterHtmlView \<Rightarrow> (string \<Rightarrow> string \<Rightarrow> string) \<Rightarrow> 's \<Rightarrow> string \<times> 's" where
  "RenderMenuHtml menu view label st =
     (case (menu, vw_Describe view) of
        (Some m, Some describe) \<Rightarrow>
          let itemCount = int (length (mn_Items m));
              totalPages = PageCount itemCount CenterHtmlRowsPerPage;
              currentPage = (if itemCount = 0 then 0 else vw_SelectedIndex view sdiv CenterHtmlRowsPerPage);
              pageStart = currentPage * CenterHtmlRowsPerPage;
              pageEnd = min itemCount (pageStart + CenterHtmlRowsPerPage);
              header = RenderHeader \<lparr>hd_Title = mn_Title m, hd_Subtitle = mn_Subtitle m, hd_Breadcrumb = vw_Breadcrumb view,
                 hd_Page = currentPage, hd_Pages = totalPages\<rparr>;
              (rows, selected, st') =
                (if itemCount = 0
                 then (font WarmGray @ EscapeHtml (label ''menu.empty'' ''Nothing here'') @ ''</font><br>'', new_row\<lparr>mr_Enabled := False\<rparr>, st)
                 else RenderItems describe (vw_SelectedIndex view) [pageStart..pageEnd - 1] (new_row\<lparr>mr_Enabled := False\<rparr>) st)
          in (header @ rows @ RenderFooter (vw_IsSubmenu view) (1 < totalPages) (mr_Enabled selected \<and> mr_Steppable selected)
                (vw_Slot view) label, st')
      | _ \<Rightarrow> ([], st))"

definition RenderCaptureOverlay :: "string \<Rightarrow> string \<Rightarrow> string" where
  "RenderCaptureOverlay menuTitle prompt =
     font Gold @ ''<b>'' @ EscapeHtml menuTitle @ ''</b></font><br>'' @
     font WarmWhite @ EscapeHtml prompt @ ''</font><br>'' @
     small_font WarmGray @ ''Type your answer in chat</font><br>'' @
     small @ font NavClose @ ''[R]</font> '' @ font WarmGray @ ''Cancel</font>'' @ ''</font>''"

section \<open>Tags\<close>

text \<open>The tags of a text, in order, and the tag it ends inside of, if any.\<close>

fun scan :: "string option \<Rightarrow> string \<Rightarrow> string list \<times> string option" where
  "scan q [] = ([], q)"
| "scan None (c # cs) = scan (if c = CHR ''<'' then Some [] else None) cs"
| "scan (Some t) (c # cs) =
     (if c = CHR ''>'' then (let (ts, q) = scan None cs in (t # ts, q)) else scan (Some (t @ [c])) cs)"

text \<open>Closing the tags as they come; the tags still open are the result.\<close>

definition tag_name :: "string \<Rightarrow> string" where
  "tag_name t = takeWhile (\<lambda>c. c \<noteq> CHR '' '') t"

fun nest :: "string list \<Rightarrow> string list \<Rightarrow> string list option" where
  "nest opened [] = Some opened"
| "nest opened (t # ts) =
     (if t = ''br'' then nest opened ts
      else if t \<noteq> [] \<and> hd t = CHR ''/''
      then (case opened of [] \<Rightarrow> None | o1 # os \<Rightarrow> if o1 = tl t then nest os ts else None)
      else nest (tag_name t # opened) ts)"

definition plain :: "string \<Rightarrow> bool" where
  "plain s \<longleftrightarrow> CHR ''<'' \<notin> set s \<and> CHR ''>'' \<notin> set s"

lemma scan_append: "scan q (a @ b) = (let (t1, q1) = scan q a; (t2, q2) = scan q1 b in (t1 @ t2, q2))"
  by (induction q a rule: scan.induct) (auto simp: Let_def split: prod.splits)

lemma scan_plain: "plain s \<Longrightarrow> scan None s = ([], None)"
  by (induction s) (auto simp: plain_def)

lemma nest_append: "nest opened (a @ b) = (case nest opened a of None \<Rightarrow> None | Some os \<Rightarrow> nest os b)"
  by (induction opened a rule: nest.induct) (auto split: list.split)

text \<open>\<open>markup s ts\<close>: the tags of \<open>s\<close> are \<open>ts\<close>, and \<open>s\<close> ends outside of them.\<close>

definition markup :: "string \<Rightarrow> string list \<Rightarrow> bool" where
  "markup s ts \<longleftrightarrow> scan None s = (ts, None)"

lemma markup_append: "markup a A \<Longrightarrow> markup b B \<Longrightarrow> markup (a @ b) (A @ B)"
  by (simp add: markup_def scan_append)

lemma markup_plain: "plain s \<Longrightarrow> markup s []"
  by (simp add: markup_def scan_plain)

lemma markup_if: "(P \<Longrightarrow> markup a A) \<Longrightarrow> (\<not> P \<Longrightarrow> markup b B) \<Longrightarrow> markup (if P then a else b) (if P then A else B)"
  by simp

lemma plain_append [simp]: "plain (a @ b) \<longleftrightarrow> plain a \<and> plain b"
  by (auto simp: plain_def)

lemma plain_Cons: "plain (c # s) \<longleftrightarrow> c \<noteq> CHR ''<'' \<and> c \<noteq> CHR ''>'' \<and> plain s"
  by (auto simp: plain_def)

lemma plain_EscapeHtml [simp]: "plain (EscapeHtml s)"
  by (auto simp: plain_def EscapeHtml_def escape_char_def split: if_splits)

lemma is_digit_not_angle: "is_digit c \<Longrightarrow> c \<noteq> CHR ''<'' \<and> c \<noteq> CHR ''>''"
  by (auto simp: is_digit_def)

lemma plain_to_string_int [simp]: "plain (to_string_int i)"
  using to_string_digits[of "nat i"] to_string_digits[of "nat (- i)"]
  by (auto simp: plain_def to_string_int_def list_all_iff dest: is_digit_not_angle)

section \<open>The tags of a page\<close>

text \<open>What the page shows of its texts in tags is only whether some of them are empty.\<close>

definition font_tag :: "string \<Rightarrow> string" where
  "font_tag color = ''font color='' @ [CHR 0x27] @ color @ [CHR 0x27]"

definition small_tag :: "string \<Rightarrow> string" where
  "small_tag color = ''font class='' @ [CHR 0x27] @ ''fontSize-s'' @ [CHR 0x27] @ '' color='' @ [CHR 0x27] @ color @ [CHR 0x27]"

definition header_tags :: "bool \<Rightarrow> bool \<Rightarrow> bool \<Rightarrow> string list" where
  "header_tags crumb sub paged =
     (if crumb then [small_tag WarmGray, ''/font''] else []) @ [font_tag Gold, ''b'', ''/b'', ''/font''] @
     (if sub then [small_tag WarmGray, ''/font''] else []) @ (if paged then [small_tag WarmGray, ''/font''] else []) @ [''br'']"

definition chunk_tags :: "string \<Rightarrow> string list" where
  "chunk_tags color = [font_tag color, ''/font'', font_tag WarmGray, ''/font'']"

definition footer_tags :: "bool \<Rightarrow> bool \<Rightarrow> bool \<Rightarrow> string list" where
  "footer_tags isSubmenu isPaginated steps =
     [''font class='' @ [CHR 0x27] @ ''fontSize-s'' @ [CHR 0x27]] @ chunk_tags NavGold @
     (if steps \<or> isPaginated then chunk_tags NavGold else []) @ chunk_tags Gold @
     (if steps \<or> isPaginated then [''br''] else []) @ chunk_tags (if isSubmenu then NavBack else NavClose) @ [''/font'']"

definition row_tags :: "bool \<Rightarrow> bool \<Rightarrow> bool \<Rightarrow> string list" where
  "row_tags enabled selectable selected =
     (if \<not> enabled then [font_tag DisabledColor, ''/font'', ''br'']
      else if \<not> selectable then [font_tag WarmGray, ''/font'', ''br'']
      else if selected then [font_tag Amber, ''b'', ''/b'', ''/font'', ''br'']
      else [font_tag WarmWhite, ''/font'', ''br''])"

lemma markup_font: "plain color \<Longrightarrow> markup (font color) [font_tag color]"
  unfolding markup_def font_def font_tag_def
proof -
  assume "plain color"
  then have "scan (Some t) (color @ rest) = scan (Some (t @ color)) rest" for t rest
    by (induction color arbitrary: t) (auto simp: plain_def)
  then show "scan None (''<font color='' @ [CHR 0x27] @ color @ [CHR 0x27] @ ''>'') = ([''font color='' @ [CHR 0x27] @ color @ [CHR 0x27]], None)"
    by simp
qed

lemma markup_small_font: "plain color \<Longrightarrow> markup (small_font color) [small_tag color]"
  unfolding markup_def small_font_def small_tag_def
proof -
  assume "plain color"
  then have "scan (Some t) (color @ rest) = scan (Some (t @ color)) rest" for t rest
    by (induction color arbitrary: t) (auto simp: plain_def)
  then show "scan None (''<font class='' @ [CHR 0x27] @ ''fontSize-s'' @ [CHR 0x27] @ '' color='' @ [CHR 0x27] @ color @ [CHR 0x27] @ ''>'') =
      ([''font class='' @ [CHR 0x27] @ ''fontSize-s'' @ [CHR 0x27] @ '' color='' @ [CHR 0x27] @ color @ [CHR 0x27]], None)"
    by simp
qed

lemma plain_theme [simp]: "plain Gold" "plain Amber" "plain WarmWhite" "plain WarmGray" "plain DisabledColor" "plain NavGold"
  "plain NavClose" "plain NavBack"
  by (simp_all add: theme plain_def)

lemma plain_marks [simp]: "plain guillemet" "plain middle_dot" "plain ellipsis" "plain []"
  by (simp_all add: guillemet_def middle_dot_def ellipsis_def plain_def)

lemma markup_RenderHeader: "markup (RenderHeader h) (header_tags (hd_Breadcrumb h \<noteq> []) (hd_Subtitle h \<noteq> []) (1 < hd_Pages h))"
proof -
  have close: "markup ('' '' @ guillemet @ '' </font>'') [''/font'']" "markup ''</b></font>'' [''/b'', ''/font'']" "markup ''</font>'' [''/font'']"
    "markup '')</font>'' [''/font'']" "markup ''<br>'' [''br'']" "markup '' '' []" "markup ''('' []" "markup ''/'' []" "markup ''<b>'' [''b'']"
    by (simp_all add: markup_def guillemet_def)
  have "markup (small_font WarmGray @ EscapeHtml (hd_Breadcrumb h) @ '' '' @ guillemet @ '' </font>'') ([small_tag WarmGray] @ [] @ [''/font''])"
    by (intro markup_append markup_small_font markup_plain close) simp_all
  moreover have "markup (font Gold @ ''<b>'' @ EscapeHtml (hd_Title h) @ ''</b></font>'') ([font_tag Gold] @ [''b''] @ [] @ [''/b'', ''/font''])"
    by (intro markup_append markup_font markup_plain close) simp_all
  moreover have "markup ('' '' @ small_font WarmGray @ EscapeHtml (hd_Subtitle h) @ ''</font>'') ([] @ [small_tag WarmGray] @ [] @ [''/font''])"
    by (intro markup_append markup_small_font markup_plain[OF plain_EscapeHtml] close) simp_all
  moreover have "markup ('' '' @ small_font WarmGray @ ''('' @ to_string_int (hd_Page h + 1) @ ''/'' @ to_string_int (hd_Pages h) @ '')</font>'')
      ([] @ [small_tag WarmGray] @ [] @ [] @ [] @ [] @ [''/font''])"
    by (intro markup_append markup_small_font markup_plain[OF plain_to_string_int] close) simp_all
  ultimately have parts: "markup (if hd_Breadcrumb h \<noteq> [] then small_font WarmGray @ EscapeHtml (hd_Breadcrumb h) @ '' '' @ guillemet @ '' </font>'' else [])
      (if hd_Breadcrumb h \<noteq> [] then [small_tag WarmGray, ''/font''] else [])"
    "markup (font Gold @ ''<b>'' @ EscapeHtml (hd_Title h) @ ''</b></font>'') [font_tag Gold, ''b'', ''/b'', ''/font'']"
    "markup (if hd_Subtitle h \<noteq> [] then '' '' @ small_font WarmGray @ EscapeHtml (hd_Subtitle h) @ ''</font>'' else [])
      (if hd_Subtitle h \<noteq> [] then [small_tag WarmGray, ''/font''] else [])"
    "markup (if 1 < hd_Pages h then '' '' @ small_font WarmGray @ ''('' @ to_string_int (hd_Page h + 1) @ ''/'' @ to_string_int (hd_Pages h) @ '')</font>'' else [])
      (if 1 < hd_Pages h then [small_tag WarmGray, ''/font''] else [])"
    by (simp_all add: markup_plain)
  from markup_append[OF parts(1) markup_append[OF parts(2) markup_append[OF parts(3) markup_append[OF parts(4) close(5)]]]]
  show ?thesis by (simp add: RenderHeader_def header_tags_def)
qed

lemma markup_FooterChunk:
  assumes "plain keyColor" "plain keyText" "plain label"
  shows "markup (FooterChunk keyColor keyText label) (chunk_tags keyColor)"
proof -
  have close: "markup ''</font> '' [''/font'']" "markup ''</font>'' [''/font'']" by (simp_all add: markup_def)
  have "markup (FooterChunk keyColor keyText label) ([font_tag keyColor] @ [] @ [''/font''] @ [font_tag WarmGray] @ [] @ [''/font''])"
    unfolding FooterChunk_def using assms by (intro markup_append markup_font close markup_plain[OF assms(2)] markup_plain[OF assms(3)]) simp_all
  then show ?thesis by (simp add: chunk_tags_def)
qed

lemma markup_RenderFooter:
  assumes "\<And>key fallback. plain (label key fallback)"
  shows "markup (RenderFooter isSubmenu isPaginated steps slot label) (footer_tags isSubmenu isPaginated steps)"
proof -
  have keys: "plain ''[W/S]''" "plain ''[A/D]''" "plain ''[E]''" "plain ''[R]''" by (simp_all add: plain_def)
  have close: "markup small [''font class='' @ [CHR 0x27] @ ''fontSize-s'' @ [CHR 0x27]]" "markup ''</font>'' [''/font'']" "markup ''<br>'' [''br'']"
    by (simp_all add: markup_def small_def)
  have dot: "markup ('' '' @ middle_dot @ '' '') []" by (rule markup_plain) (simp add: plain_def middle_dot_def)
  define chunk where "chunk = FooterChunk (if isSubmenu then NavBack else NavClose) ''[R]'' (if isSubmenu then label ''nav.back'' ''Back'' else label ''nav.close'' ''Close'')"
  have c: "markup chunk (chunk_tags (if isSubmenu then NavBack else NavClose))"
    unfolding chunk_def by (rule markup_FooterChunk) (simp_all add: assms keys)
  define middle where "middle = (if steps then '' '' @ middle_dot @ '' '' @ FooterChunk NavGold ''[A/D]'' (label ''nav.change'' ''Change'')
      else if isPaginated then '' '' @ middle_dot @ '' '' @ FooterChunk NavGold ''[A/D]'' (label ''nav.page'' ''Page'') else [])"
  have ad: "markup ('' '' @ middle_dot @ '' '' @ FooterChunk NavGold ''[A/D]'' (label key fallback)) (chunk_tags NavGold)" for key fallback
    using markup_append[OF dot markup_FooterChunk[of NavGold "''[A/D]''" "label key fallback"]] keys assms by simp
  have m: "markup middle (if steps \<or> isPaginated then chunk_tags NavGold else [])" using ad by (simp add: middle_def markup_plain)
  define select where "select = FooterChunk Gold ''[E]'' (if steps then label ''nav.confirm'' ''Confirm'' else label ''nav.select'' ''Select'')"
  have e: "markup select (chunk_tags Gold)" unfolding select_def by (rule markup_FooterChunk) (simp_all add: assms keys)
  have w: "markup (FooterChunk NavGold ''[W/S]'' (label ''nav.navigate'' ''Navigate'')) (chunk_tags NavGold)"
    by (rule markup_FooterChunk) (simp_all add: assms keys)
  define last_part where "last_part = (if steps \<or> isPaginated then ''<br>'' @ chunk else '' '' @ middle_dot @ '' '' @ chunk)"
  have l: "markup last_part ((if steps \<or> isPaginated then [''br''] else []) @ chunk_tags (if isSubmenu then NavBack else NavClose))"
    using markup_append[OF close(3) c] markup_append[OF dot c] by (simp add: last_part_def)
  have "RenderFooter isSubmenu isPaginated steps slot label =
      small @ FooterChunk NavGold ''[W/S]'' (label ''nav.navigate'' ''Navigate'') @ middle @ ('' '' @ middle_dot @ '' '') @ select @ last_part @ ''</font>''"
    by (simp add: RenderFooter_def Let_def middle_def select_def last_part_def chunk_def)
  moreover have "markup \<dots> ([''font class='' @ [CHR 0x27] @ ''fontSize-s'' @ [CHR 0x27]] @ chunk_tags NavGold @
      (if steps \<or> isPaginated then chunk_tags NavGold else []) @ [] @ chunk_tags Gold @
      ((if steps \<or> isPaginated then [''br''] else []) @ chunk_tags (if isSubmenu then NavBack else NavClose)) @ [''/font''])"
    by (intro markup_append close dot w m e l)
  ultimately show ?thesis by (simp add: footer_tags_def)
qed

lemma plain_RowText [simp]: "plain (RowText row)"
  by (simp add: RowText_def Let_def plain_Cons)

lemma markup_render_row: "markup (render_row selectedIndex i row) (row_tags (mr_Enabled row) (mr_Selectable row) (i = selectedIndex))"
proof -
  have close: "markup ''</font><br>'' [''/font'', ''br'']" "markup ''</b></font><br>'' [''/b'', ''/font'', ''br'']" "markup ''<b>&gt; '' [''b'']"
    "markup ''- '' []" "markup ''  '' []"
    by (simp_all add: markup_def)
  note body = markup_plain[OF plain_RowText[of row]]
  have "markup (font DisabledColor @ ''- '' @ RowText row @ ''</font><br>'') ([font_tag DisabledColor] @ [] @ [] @ [''/font'', ''br''])"
    "markup (font WarmGray @ RowText row @ ''</font><br>'') ([font_tag WarmGray] @ [] @ [''/font'', ''br''])"
    "markup (font Amber @ ''<b>&gt; '' @ RowText row @ ''</b></font><br>'') ([font_tag Amber] @ [''b''] @ [] @ [''/b'', ''/font'', ''br''])"
    "markup (font WarmWhite @ ''  '' @ RowText row @ ''</font><br>'') ([font_tag WarmWhite] @ [] @ [] @ [''/font'', ''br''])"
    by (intro markup_append markup_font close body; simp)+
  then show ?thesis by (simp add: render_row_def row_tags_def)
qed

text \<open>The rows of a page as they are described, in order.\<close>

fun described :: "(int \<Rightarrow> 's \<Rightarrow> MenuRow \<times> 's) \<Rightarrow> int list \<Rightarrow> 's \<Rightarrow> (int \<times> MenuRow) list" where
  "described describe [] st = []"
| "described describe (i # is) st = (i, fst (describe i st)) # described describe is (snd (describe i st))"

definition rows_tags :: "int \<Rightarrow> (int \<times> MenuRow) list \<Rightarrow> string list" where
  "rows_tags selectedIndex rows = concat (map (\<lambda>(i, row). row_tags (mr_Enabled row) (mr_Selectable row) (i = selectedIndex)) rows)"

definition cursor_row :: "int \<Rightarrow> (int \<times> MenuRow) list \<Rightarrow> MenuRow \<Rightarrow> MenuRow" where
  "cursor_row selectedIndex rows none = (case map_of (rev rows) selectedIndex of None \<Rightarrow> none | Some row \<Rightarrow> row)"

lemma RenderItems_markup:
  "markup (fst (RenderItems describe selectedIndex is selected st)) (rows_tags selectedIndex (described describe is st)) \<and>
   fst (snd (RenderItems describe selectedIndex is selected st)) = cursor_row selectedIndex (described describe is st) selected"
proof (induction describe selectedIndex "is" selected st rule: RenderItems.induct)
  case (1 describe selectedIndex selected st)
  then show ?case by (simp add: rows_tags_def cursor_row_def markup_plain)
next
  case (2 describe selectedIndex i "is" selected st)
  obtain row st1 where d: "describe i st = (row, st1)" by (cases "describe i st")
  obtain rest selected' st2 where r: "RenderItems describe selectedIndex is (if i = selectedIndex then row else selected) st1 = (rest, selected', st2)"
    by (cases "RenderItems describe selectedIndex is (if i = selectedIndex then row else selected) st1")
  have "markup rest (rows_tags selectedIndex (described describe is st1)) \<and>
      selected' = cursor_row selectedIndex (described describe is st1) (if i = selectedIndex then row else selected)"
    using 2[OF d[symmetric]] r by simp
  then show ?case using markup_append[OF markup_render_row[of selectedIndex i row]] d r
    by (auto simp: rows_tags_def cursor_row_def map_add_def split: option.splits)
qed

text \<open>
  The tags of a page: \<open>rows\<close> as described, from which only the flags are read.
\<close>

definition page_tags :: "bool \<Rightarrow> bool \<Rightarrow> bool \<Rightarrow> bool \<Rightarrow> int \<Rightarrow> (int \<times> MenuRow) list \<Rightarrow> string list" where
  "page_tags crumb sub paged isSubmenu selectedIndex rows =
     header_tags crumb sub paged @
     (if rows = [] then [font_tag WarmGray, ''/font'', ''br''] else rows_tags selectedIndex rows) @
     footer_tags isSubmenu paged
       (let row = cursor_row selectedIndex rows (new_row\<lparr>mr_Enabled := False\<rparr>) in mr_Enabled row \<and> mr_Steppable row)"

lemma nest_header [simp]: "nest opened (header_tags crumb sub paged) = Some opened"
  by (simp add: header_tags_def nest_append font_tag_def small_tag_def tag_name_def)

lemma nest_chunk [simp]: "nest opened (chunk_tags color) = Some opened"
  by (simp add: chunk_tags_def font_tag_def tag_name_def)

lemma nest_footer [simp]: "nest opened (footer_tags isSubmenu isPaginated steps) = Some opened"
  by (simp add: footer_tags_def nest_append tag_name_def)

lemma nest_row [simp]: "nest opened (row_tags enabled selectable selected) = Some opened"
  by (simp add: row_tags_def font_tag_def tag_name_def)

lemma nest_rows [simp]: "nest opened (rows_tags selectedIndex rows) = Some opened"
  by (induction rows) (auto simp: rows_tags_def nest_append)

lemma nest_page: "nest opened (page_tags crumb sub paged isSubmenu selectedIndex rows) = Some opened"
  by (simp add: page_tags_def nest_append font_tag_def tag_name_def)

text \<open>The rows a page shows.\<close>

definition page_rows :: "'c Menu \<Rightarrow> int \<Rightarrow> int list" where
  "page_rows m selectedIndex =
     (let n = int (length (mn_Items m)); start = selectedIndex div CenterHtmlRowsPerPage * CenterHtmlRowsPerPage
      in [start..min n (start + CenterHtmlRowsPerPage) - 1])"

lemma markup_RenderMenuHtml:
  assumes label: "\<And>key fallback. plain (label key fallback)"
    and view: "vw_Describe view = Some describe" "0 \<le> vw_SelectedIndex view"
      "vw_SelectedIndex view < int (length (mn_Items m)) \<or> mn_Items m = []"
  shows "markup (fst (RenderMenuHtml (Some m) view label st))
    (page_tags (vw_Breadcrumb view \<noteq> []) (mn_Subtitle m \<noteq> []) (1 < PageCount (int (length (mn_Items m))) CenterHtmlRowsPerPage)
       (vw_IsSubmenu view) (vw_SelectedIndex view)
       (if mn_Items m = [] then [] else described describe (page_rows m (vw_SelectedIndex view)) st))"
proof -
  let ?paged = "1 < PageCount (int (length (mn_Items m))) CenterHtmlRowsPerPage"
  have close: "markup ''</font><br>'' [''/font'', ''br'']" by (simp add: markup_def)
  have h: "markup (RenderHeader \<lparr>hd_Title = mn_Title m, hd_Subtitle = mn_Subtitle m, hd_Breadcrumb = vw_Breadcrumb view, hd_Page = page,
      hd_Pages = PageCount (int (length (mn_Items m))) CenterHtmlRowsPerPage\<rparr>) (header_tags (vw_Breadcrumb view \<noteq> []) (mn_Subtitle m \<noteq> []) ?paged)" for page
    using markup_RenderHeader[of "\<lparr>hd_Title = mn_Title m, hd_Subtitle = mn_Subtitle m, hd_Breadcrumb = vw_Breadcrumb view, hd_Page = page,
      hd_Pages = PageCount (int (length (mn_Items m))) CenterHtmlRowsPerPage\<rparr>"] by simp
  note f = markup_RenderFooter[of label, OF label]
  show ?thesis
  proof (cases "mn_Items m = []")
    case True
    have "markup (font WarmGray @ EscapeHtml (label ''menu.empty'' ''Nothing here'') @ ''</font><br>'') ([font_tag WarmGray] @ [] @ [''/font'', ''br''])"
      by (intro markup_append markup_font markup_plain[OF plain_EscapeHtml] close) simp
    from markup_append[OF h[of 0] markup_append[OF this f[of "vw_IsSubmenu view" ?paged False "vw_Slot view"]]]
    show ?thesis using True view by (simp add: RenderMenuHtml_def page_tags_def Let_def cursor_row_def new_row_def)
  next
    case False
    define page where "page = vw_SelectedIndex view div CenterHtmlRowsPerPage"
    define start where "start = page * CenterHtmlRowsPerPage"
    define rows where "rows = page_rows m (vw_SelectedIndex view)"
    have rows: "[start..min (int (length (mn_Items m))) (start + CenterHtmlRowsPerPage) - 1] = rows"
      by (simp add: rows_def page_rows_def start_def page_def Let_def)
    have "start \<le> vw_SelectedIndex view" "vw_SelectedIndex view < int (length (mn_Items m))"
      using view(2,3) False div_mult_mod_eq[of "vw_SelectedIndex view" CenterHtmlRowsPerPage] by (auto simp: start_def page_def CenterHtmlRowsPerPage_def)
    then have "rows \<noteq> []" unfolding rows[symmetric] by (simp add: CenterHtmlRowsPerPage_def)
    then have ne: "described describe rows st \<noteq> []" by (cases rows) simp_all
    have sd: "vw_SelectedIndex view sdiv CenterHtmlRowsPerPage = page"
      using view(2) by (simp add: page_def sdiv_nonneg CenterHtmlRowsPerPage_def)
    define none where "none = new_row\<lparr>mr_Enabled := False\<rparr>"
    obtain html selected st' where r: "RenderItems describe (vw_SelectedIndex view) rows none st = (html, selected, st')"
      by (cases "RenderItems describe (vw_SelectedIndex view) rows none st")
    have i: "markup html (rows_tags (vw_SelectedIndex view) (described describe rows st))"
      "selected = cursor_row (vw_SelectedIndex view) (described describe rows st) none"
      using RenderItems_markup[of describe "vw_SelectedIndex view" rows none st] r by simp_all
    from markup_append[OF h[of page] markup_append[OF i(1) f[of "vw_IsSubmenu view" ?paged "mr_Enabled selected \<and> mr_Steppable selected" "vw_Slot view"]]]
    show ?thesis using False ne view(1) r sd rows
      by (simp add: RenderMenuHtml_def page_tags_def Let_def start_def[symmetric] none_def[symmetric] i(2)[symmetric] rows_def[symmetric])
  qed
qed

section \<open>Properties\<close>


definition example_menu :: "nat Menu" where
  "example_menu = \<lparr>mn_Id = 0, mn_Title = ''<b>Kick'', mn_Subtitle = [], mn_Items = replicate 6 \<lparr>mi_Describe = None, mi_Activate = None, mi_Step = None, mi_Commit = None\<rparr>\<rparr>"

definition example_view :: "unit CenterHtmlView" where
  "example_view = \<lparr>vw_Describe = Some (\<lambda>i st. (new_row\<lparr>mr_Label := ''</font>'', mr_Enabled := i \<noteq> 0\<rparr>, st)), vw_Breadcrumb = ''Menu'', vw_Slot = 0,
     vw_SelectedIndex = 5, vw_IsSubmenu = True\<rparr>"


end
