(* ===== verification/CenterHtmlMenu.thy ===== *)
theory CenterHtmlMenu
  imports MenuServices CenterHtmlRender
begin

text \<open>
  Menus drawn as center HTML and driven with the movement keys. Source: \<^verbatim>\<open>src/Menu/CenterHtmlMenu.cpp\<close>. The key
  masks come from the SDK and the buttons a player holds from the engine, so both are arguments;
  \<^verbatim>\<open>Messages\<close> puts out what it sends.
\<close>

record key_masks =
  ky_Forward :: "64 word"
  ky_Back :: "64 word"
  ky_MoveLeft :: "64 word"
  ky_MoveRight :: "64 word"
  ky_Use :: "64 word"
  ky_Reload :: "64 word"

unbundle bit_operations_syntax

definition PressGapMs :: int where "PressGapMs = 200"
definition RenderIntervalMs :: int where "RenderIntervalMs = 250"
definition ResendIntervalMs :: int where "ResendIntervalMs = 100"

definition upd_cursor :: "int \<Rightarrow> (Cursor \<Rightarrow> Cursor) \<Rightarrow> ('c, 'w) ui \<Rightarrow> ('c, 'w) ui" where
  "upd_cursor slot f u = u\<lparr>ui_Cursors := (ui_Cursors u)(slot := f (ui_Cursors u slot))\<rparr>"

definition CursorRowsFor :: "('c, 'w) menu_env \<Rightarrow> 'c Menu option \<Rightarrow> int \<Rightarrow> ('c, 'w) ui \<Rightarrow> CursorRows" where
  "CursorRowsFor env menu slot u =
     (case menu of
        None \<Rightarrow> \<lparr>cu_Count = 0, cu_Selectable = None\<rparr>
      | Some m \<Rightarrow> \<lparr>cu_Count = int (length (mn_Items m)), cu_Selectable = Some (\<lambda>index. item_actionable env u (mn_Items m ! nat index) slot)\<rparr>)"

abbreviation center_menu :: "int \<Rightarrow> ('c, 'w) ui \<Rightarrow> 'c Menu option" where
  "center_menu slot u \<equiv> stack_Current CenterSurface slot u"

section \<open>Sessions\<close>

definition center_ResetCursor :: "('c, 'w) menu_env \<Rightarrow> int \<Rightarrow> ('c, 'w) ui \<Rightarrow> ('c, 'w) ui" where
  "center_ResetCursor env slot u =
     upd_cursor slot (\<lambda>c. c\<lparr>cr_LastSent := new_page, cr_LastInputTime := me_Now env,
       cr_Selected := cursor_First (CursorRowsFor env (center_menu slot u) slot u)\<rparr>) u"

definition center_Push :: "('c, 'w) menu_env \<Rightarrow> int \<Rightarrow> 'c Menu option \<Rightarrow> ('c, 'w) ui \<Rightarrow> ('c, 'w) ui" where
  "center_Push env slot menu u = (center_ResetCursor env slot (stack_Push CenterSurface slot menu u))\<lparr>ui_HtmlFrame := True\<rparr>"

definition center_IsOpen :: "int \<Rightarrow> ('c, 'w) ui \<Rightarrow> bool" where
  "center_IsOpen slot u = stack_IsOpen CenterSurface slot u"

text \<open>What both ways of closing do once nothing is open.\<close>

definition center_ended :: "int \<Rightarrow> ('c, 'w) ui \<Rightarrow> ('c, 'w) ui" where
  "center_ended slot u = emit (ClearCenterHtml slot) (freeze_Close slot (upd_cursor slot (\<lambda>_. new_cursor) u))"

definition center_CloseAll :: "('c, 'w) menu_env \<Rightarrow> int \<Rightarrow> ('c, 'w) ui \<Rightarrow> ('c, 'w) ui" where
  "center_CloseAll env slot u =
     (if \<not> IsValidSlot slot then u
      else let u1 = CancelCapture slot u
           in if \<not> center_IsOpen slot u1 then u1 else center_ended slot (stack_Clear env CenterSurface slot u1))"

definition center_CloseAllReply :: "('c, 'w) menu_env \<Rightarrow> int \<Rightarrow> string \<Rightarrow> ('c, 'w) ui \<Rightarrow> ('c, 'w) ui" where
  "center_CloseAllReply env slot replyKey u =
     center_CloseAll env slot (if me_HasReply env
       then emit (ReplyLine slot (tr_Get (me_Translations env) (me_Languages env) replyKey slot)) u else u)"

definition center_OpenSession :: "('c, 'w) menu_env \<Rightarrow> int \<Rightarrow> 'c Menu option \<Rightarrow> MenuOptions \<Rightarrow> ('c, 'w) ui \<Rightarrow> bool \<times> ('c, 'w) ui" where
  "center_OpenSession env slot menu options u =
     (if \<not> IsValidSlot slot \<or> menu = None then (False, u)
      else (True, center_Push env slot menu (freeze_Open slot (mo_FreezeMovement options) (center_CloseAll env slot u))))"

definition center_Open :: "('c, 'w) menu_env \<Rightarrow> int \<Rightarrow> 'c Menu option \<Rightarrow> ('c, 'w) ui \<Rightarrow> ('c, 'w) ui" where
  "center_Open env slot menu u =
     (if \<not> IsValidSlot slot \<or> menu = None then u
      else if \<not> center_IsOpen slot u then snd (center_OpenSession env slot menu default_options u)
      else center_Push env slot menu u)"

definition center_Close :: "('c, 'w) menu_env \<Rightarrow> int \<Rightarrow> ('c, 'w) ui \<Rightarrow> ('c, 'w) ui" where
  "center_Close env slot u =
     (if \<not> IsValidSlot slot then u
      else let u1 = CancelCapture slot u
           in if \<not> center_IsOpen slot u1 then u1
              else let u2 = stack_Pop env CenterSurface slot u1
                   in if center_IsOpen slot u2 then center_ResetCursor env slot u2 else center_ended slot u2)"

definition center_Prompt :: "('c, 'w) menu_env \<Rightarrow> int \<Rightarrow> string \<Rightarrow> 'c option \<Rightarrow> ('c, 'w) ui \<Rightarrow> ('c, 'w) ui" where
  "center_Prompt env slot prompt callback u =
     upd_cursor slot (\<lambda>c. c\<lparr>cr_LastSent := new_page\<rparr>) (BeginCapture env slot prompt callback DefaultTimeoutMs u)"

section \<open>The cursor\<close>

definition center_Select :: "('c, 'w) menu_env \<Rightarrow> int \<Rightarrow> int \<Rightarrow> ('c, 'w) ui \<Rightarrow> ('c, 'w) ui" where
  "center_Select env slot index u =
     (case center_menu slot u of
        None \<Rightarrow> u
      | Some m \<Rightarrow>
          if index < 0 \<or> index \<ge> int (length (mn_Items m)) then u
          else upd_cursor slot (\<lambda>c. c\<lparr>cr_Selected := index\<rparr>)
                 (if held_IsPending CenterSurface u slot index then u else stack_ApplyPending env CenterSurface slot u))"

definition center_MoveCursor :: "('c, 'w) menu_env \<Rightarrow> int \<Rightarrow> int \<Rightarrow> ('c, 'w) ui \<Rightarrow> ('c, 'w) ui" where
  "center_MoveCursor env slot step u =
     center_Select env slot (cursor_Step (CursorRowsFor env (center_menu slot u) slot u) (cr_Selected (ui_Cursors u slot)) step) u"

definition center_JumpPage :: "('c, 'w) menu_env \<Rightarrow> int \<Rightarrow> int \<Rightarrow> ('c, 'w) ui \<Rightarrow> ('c, 'w) ui" where
  "center_JumpPage env slot delta u =
     (case center_menu slot u of
        None \<Rightarrow> u
      | Some m \<Rightarrow>
          if mn_Items m = [] then u
          else center_Select env slot (cursor_JumpPage (CursorRowsFor env (Some m) slot u) (cr_Selected (ui_Cursors u slot))
                 CenterHtmlRowsPerPage delta) u)"

section \<open>Drawing\<close>

definition center_Render :: "('c, 'w) menu_env \<Rightarrow> int \<Rightarrow> 'c Menu \<Rightarrow> ('c, 'w) ui \<Rightarrow> string \<times> ('c, 'w) ui" where
  "center_Render env slot m u =
     (case GetPrompt slot u of
        Some prompt \<Rightarrow> (RenderCaptureOverlay (mn_Title m) prompt, u)
      | None \<Rightarrow> RenderMenuHtml (Some m)
          \<lparr>vw_Describe = Some (\<lambda>index. stack_Describe env CenterSurface slot index),
           vw_Breadcrumb = stack_Breadcrumb CenterSurface slot u, vw_Slot = slot, vw_SelectedIndex = cr_Selected (ui_Cursors u slot),
           vw_IsSubmenu = (1 < stack_Depth CenterSurface slot u)\<rparr>
          (me_Text env slot) u)"

definition upd_page :: "int \<Rightarrow> (Page \<Rightarrow> Page) \<Rightarrow> ('c, 'w) ui \<Rightarrow> ('c, 'w) ui" where
  "upd_page slot f u = upd_cursor slot (\<lambda>c. c\<lparr>cr_LastSent := f (cr_LastSent c)\<rparr>) u"

definition center_Draw :: "('c, 'w) menu_env \<Rightarrow> int \<Rightarrow> bool \<Rightarrow> ('c, 'w) ui \<Rightarrow> ('c, 'w) ui" where
  "center_Draw env slot changed u =
     (case center_menu slot u of
        None \<Rightarrow> u
      | Some m \<Rightarrow>
          let page = cr_LastSent (ui_Cursors u slot);
              stale = (changed \<or> pg_Html page = [] \<or> RenderIntervalMs \<le> me_Now env - pg_RenderedAt page);
              u1 = (if stale
                    then (case center_Render env slot m u of
                            (html, u') \<Rightarrow> upd_page slot (\<lambda>p. if html \<noteq> pg_Html p
                               then p\<lparr>pg_RenderedAt := me_Now env, pg_Html := html, pg_SentAt := 0\<rparr> else p\<lparr>pg_RenderedAt := me_Now env\<rparr>) u')
                    else u);
              page1 = cr_LastSent (ui_Cursors u1 slot)
          in if ResendIntervalMs \<le> me_Now env - pg_SentAt page1
             then upd_page slot (\<lambda>p. p\<lparr>pg_SentAt := me_Now env\<rparr>) (emit (SendCenterHtml slot (pg_Html page1)) u1)
             else u1)"

section \<open>Keys\<close>

definition center_RunKey :: "('c, 'w) menu_env \<Rightarrow> key_masks \<Rightarrow> int \<Rightarrow> 64 word \<Rightarrow> ('c, 'w) ui \<Rightarrow> bool \<times> ('c, 'w) ui" where
  "center_RunKey env ky slot pressed u =
     (if pressed AND ky_Reload ky \<noteq> 0 then (True, center_Close env slot u)
      else let itemCount = (case center_menu slot u of None \<Rightarrow> 0 | Some m \<Rightarrow> int (length (mn_Items m)))
      in if itemCount = 0 then (False, u)
      else if pressed AND ky_Forward ky \<noteq> 0 then (True, center_MoveCursor env slot (-1) u)
      else if pressed AND ky_Back ky \<noteq> 0 then (True, center_MoveCursor env slot 1 u)
      else if pressed AND (ky_MoveLeft ky OR ky_MoveRight ky) \<noteq> 0
      then let direction = (if pressed AND ky_MoveLeft ky \<noteq> 0 then -1 else 1)
           in case stack_Step env CenterSurface slot (cr_Selected (ui_Cursors u slot)) direction u of
                (True, u1) \<Rightarrow> (True, u1)
              | (False, u1) \<Rightarrow> if itemCount \<le> CenterHtmlRowsPerPage then (False, u1) else (True, center_JumpPage env slot direction u1)
      else if pressed AND ky_Use ky \<noteq> 0
      then (True, stack_Activate env CenterSurface slot (cr_Selected (ui_Cursors u slot)) u)
      else (False, u))"

definition center_ReadKeys :: "('c, 'w) menu_env \<Rightarrow> key_masks \<Rightarrow> 64 word \<Rightarrow> int \<Rightarrow> ('c, 'w) ui \<Rightarrow> bool \<times> ('c, 'w) ui" where
  "center_ReadKeys env ky buttons slot u =
     (if center_menu slot u = None then (False, u)
      else let cursor = ui_Cursors u slot;
               pressed = buttons AND NOT (cr_PrevButtons cursor);
               u1 = upd_cursor slot (\<lambda>c. c\<lparr>cr_PrevButtons := buttons\<rparr>) u
           in if pressed = 0 then (False, u1)
              else if me_Now env - cr_LastInputTime cursor < PressGapMs then (False, u1)
              else if IsCapturing slot u1
              then if pressed AND ky_Reload ky = 0 then (False, u1)
                   else (True, upd_cursor slot (\<lambda>c. c\<lparr>cr_LastInputTime := me_Now env\<rparr>) (CancelCapture slot u1))
              else (case center_RunKey env ky slot pressed u1 of
                      (False, u2) \<Rightarrow> (False, u2)
                    | (True, u2) \<Rightarrow> (True, upd_cursor slot (\<lambda>c. c\<lparr>cr_LastInputTime := me_Now env\<rparr>) u2)))"

definition center_slot_frame :: "('c, 'w) menu_env \<Rightarrow> key_masks \<Rightarrow> (int \<Rightarrow> 64 word) \<Rightarrow> int \<Rightarrow> ('c, 'w) ui \<Rightarrow> ('c, 'w) ui" where
  "center_slot_frame env ky buttons slot u =
     (if \<not> center_IsOpen slot u then u
      else case center_ReadKeys env ky (buttons slot) slot u of
             (pressed, u1) \<Rightarrow> if center_IsOpen slot u1 then center_Draw env slot pressed u1 else u1)"

definition center_OnGameFrame :: "('c, 'w) menu_env \<Rightarrow> key_masks \<Rightarrow> (int \<Rightarrow> 64 word) \<Rightarrow> ('c, 'w) ui \<Rightarrow> ('c, 'w) ui" where
  "center_OnGameFrame env ky buttons u =
     (let u1 = fold (center_slot_frame env ky buttons) all_slots u
      in if stack_AnyOpen CenterSurface u1 then u1 else u1\<lparr>ui_HtmlFrame := False\<rparr>)"

definition center_slot_changed :: "int \<Rightarrow> ('c, 'w) ui \<Rightarrow> ('c, 'w) ui" where
  "center_slot_changed slot u = u\<lparr>ui_Cursors := PerSlot_Reset new_cursor slot (ui_Cursors u)\<rparr>"

end
