(* ===== verification/PanoramaMenuLayout.thy ===== *)
theory PanoramaMenuLayout
  imports MenuState
begin

text \<open>
  The Panorama screen a menu is drawn on: its element ids, what each part of a menu writes to it, and which
  button a pressed id is. Source: \<^verbatim>\<open>src/Menu/PanoramaMenuLayout.cpp\<close>. A call on the player's \<^verbatim>\<open>Screen\<close> is a
  \<open>ScreenWrite\<close> put out for the slot; whether the screen could be spawned, or exists, is the environment's answer. A
  text added with \<^verbatim>\<open>AddText\<close> is a function of the slot.
\<close>

section \<open>Ids\<close>

datatype MenuButtonKind = CancelButton | BackButton | CloseButton | PreviousPage | NextPage | TabButton | RowButton | StepDown | StepUp

record MenuButton =
  bn_Kind :: MenuButtonKind
  bn_Index :: int

record MenuHeader =
  mh_Brand :: string
  mh_BrandSubtitle :: string
  mh_Breadcrumb :: string
  mh_Title :: string
  mh_Subtitle :: string

record MenuTab =
  mt_Label :: string
  mt_Icon :: string
  mt_Selected :: bool

record TabIds =
  ti_Id :: string
  ti_Icon :: string
  ti_LabelVar :: string

record RowIds =
  ri_Id :: string
  ri_Button :: string
  ri_Decrease :: string
  ri_Increase :: string
  ri_LabelVar :: string
  ri_HintVar :: string
  ri_ValueVar :: string

record PanoramaMenuLayout =
  la_Root :: string
  la_SubtitleId :: string
  la_Close :: string
  la_Empty :: string
  la_Prompt :: string
  la_Cancel :: string
  la_Back :: string
  la_Page :: string
  la_PagePrevious :: string
  la_PageNext :: string
  la_Tabs :: "TabIds list"
  la_Rows :: "RowIds list"
  la_IconNames :: "string list"
  la_Texts :: "(string \<times> (int \<Rightarrow> string)) list"

definition tab_ids :: "string \<Rightarrow> nat \<Rightarrow> TabIds" where
  "tab_ids screen index = \<lparr>ti_Id = screen @ ''_tab'' @ to_string index, ti_Icon = screen @ ''_tab'' @ to_string index @ ''_icon'',
     ti_LabelVar = ''tab'' @ to_string index\<rparr>"

definition row_ids :: "string \<Rightarrow> nat \<Rightarrow> RowIds" where
  "row_ids screen index = \<lparr>ri_Id = screen @ ''_row'' @ to_string index, ri_Button = screen @ ''_row'' @ to_string index @ ''_button'',
     ri_Decrease = screen @ ''_row'' @ to_string index @ ''_decrease'', ri_Increase = screen @ ''_row'' @ to_string index @ ''_increase'',
     ri_LabelVar = ''row'' @ to_string index @ ''_label'', ri_HintVar = ''row'' @ to_string index @ ''_hint'',
     ri_ValueVar = ''row'' @ to_string index @ ''_value''\<rparr>"

definition PanoramaMenuLayout :: "string \<Rightarrow> nat \<Rightarrow> nat \<Rightarrow> string list \<Rightarrow> PanoramaMenuLayout" where
  "PanoramaMenuLayout screen tabs rows iconNames =
     \<lparr>la_Root = screen, la_SubtitleId = screen @ ''_subtitle'', la_Close = screen @ ''_close'', la_Empty = screen @ ''_empty'',
      la_Prompt = screen @ ''_prompt'', la_Cancel = screen @ ''_cancel'', la_Back = screen @ ''_back'', la_Page = screen @ ''_page'',
      la_PagePrevious = screen @ ''_page_previous'', la_PageNext = screen @ ''_page_next'',
      la_Tabs = map (tab_ids screen) [0..<tabs], la_Rows = map (row_ids screen) [0..<rows], la_IconNames = iconNames, la_Texts = []\<rparr>"

definition RowCount :: "PanoramaMenuLayout \<Rightarrow> int" where
  "RowCount la = int (length (la_Rows la))"

definition TabCount :: "PanoramaMenuLayout \<Rightarrow> int" where
  "TabCount la = int (length (la_Tabs la))"

definition AddText :: "string \<Rightarrow> (int \<Rightarrow> string) \<Rightarrow> PanoramaMenuLayout \<Rightarrow> PanoramaMenuLayout" where
  "AddText variable txt la = la\<lparr>la_Texts := la_Texts la @ [(variable, txt)]\<rparr>"

section \<open>Drawing\<close>

definition writes :: "int \<Rightarrow> ScreenWrite list \<Rightarrow> ('c, 'w) ui \<Rightarrow> ('c, 'w) ui" where
  "writes slot ws u = u\<lparr>ui_Out := ui_Out u @ map (Draws slot) ws\<rparr>"

definition layout_Show :: "('c, 'w) menu_env \<Rightarrow> PanoramaMenuLayout \<Rightarrow> int \<Rightarrow> ('c, 'w) ui \<Rightarrow> bool \<times> ('c, 'w) ui" where
  "layout_Show env la slot u =
     (if \<not> me_Spawns env slot then (False, u) else (True, writes slot [SetHidden (la_Root la) False, ShowCursor True] u))"

definition layout_Hide :: "('c, 'w) menu_env \<Rightarrow> int \<Rightarrow> ('c, 'w) ui \<Rightarrow> ('c, 'w) ui" where
  "layout_Hide env slot u = (if \<not> me_HasScreen env slot then u else writes slot [ShowCursor False, RemoveScreen] u)"

definition SetHeader :: "PanoramaMenuLayout \<Rightarrow> int \<Rightarrow> MenuHeader \<Rightarrow> ('c, 'w) ui \<Rightarrow> ('c, 'w) ui" where
  "SetHeader la slot header u =
     writes slot ([SetText ''brand'' (mh_Brand header), SetText ''brand_subtitle'' (mh_BrandSubtitle header),
       SetText ''breadcrumb'' (mh_Breadcrumb header), SetText ''title'' (mh_Title header), SetText ''subtitle'' (mh_Subtitle header),
       SetHidden (la_SubtitleId la) (mh_Subtitle header = [])] @ map (\<lambda>(variable, txt). SetText variable (txt slot)) (la_Texts la)) u"

definition SetSidebarVisible :: "PanoramaMenuLayout \<Rightarrow> int \<Rightarrow> bool \<Rightarrow> ('c, 'w) ui \<Rightarrow> ('c, 'w) ui" where
  "SetSidebarVisible la slot visible u = writes slot [SetClass (la_Root la) ''screen--no-sidebar'' (\<not> visible)] u"

definition SetHomeVisible :: "PanoramaMenuLayout \<Rightarrow> int \<Rightarrow> bool \<Rightarrow> ('c, 'w) ui \<Rightarrow> ('c, 'w) ui" where
  "SetHomeVisible la slot visible u = writes slot [SetClass (la_Root la) ''screen--home'' visible] u"

definition SetTab :: "PanoramaMenuLayout \<Rightarrow> int \<Rightarrow> nat \<Rightarrow> MenuTab option \<Rightarrow> ('c, 'w) ui \<Rightarrow> ('c, 'w) ui" where
  "SetTab la slot index tab u =
     (let ids = la_Tabs la ! index in
      case tab of
        None \<Rightarrow> writes slot [SetHidden (ti_Id ids) True] u
      | Some t \<Rightarrow> writes slot [SetHidden (ti_Id ids) False, SetText (ti_LabelVar ids) (mt_Label t),
          SetClass (ti_Id ids) ''tab--selected'' (mt_Selected t), SetModifier (ti_Icon ids) ''icon-set'' (la_IconNames la) (mt_Icon t)] u)"

definition SetRow :: "PanoramaMenuLayout \<Rightarrow> int \<Rightarrow> nat \<Rightarrow> MenuRow option \<Rightarrow> string \<Rightarrow> ('c, 'w) ui \<Rightarrow> ('c, 'w) ui" where
  "SetRow la slot index row pendingHint u =
     (let ids = la_Rows la ! index in
      case row of
        None \<Rightarrow> writes slot [SetHidden (ri_Id ids) True] u
      | Some r \<Rightarrow>
          let toggle = (mr_Kind r = ToggleKind)
          in writes slot ([SetHidden (ri_Id ids) False, SetText (ri_LabelVar ids) (mr_Label r), SetText (ri_ValueVar ids) (mr_Value r),
               SetClass (ri_Id ids) ''row--value'' (mr_Value r \<noteq> []), SetClass (ri_Id ids) ''row--disabled'' (\<not> mr_Enabled r),
               SetClass (ri_Id ids) ''row--on'' (case mr_State r of Some on \<Rightarrow> on | None \<Rightarrow> False),
               SetClass (ri_Id ids) ''row--toggle'' toggle,
               SetClass (ri_Id ids) ''row--chevron'' (mr_Kind r = SubmenuKind \<or> mr_Kind r = InputKind),
               SetClass (ri_Id ids) ''row--static'' (\<not> mr_Selectable r),
               SetClass (ri_Id ids) ''row--steppers'' (mr_Steppable r \<and> mr_Enabled r \<and> \<not> toggle),
               SetClass (ri_Id ids) ''row--pending'' (mr_Pending r)] @
               (if mr_Pending r then [SetText (ri_HintVar ids) pendingHint] else [])) u)"

definition SetEmpty :: "PanoramaMenuLayout \<Rightarrow> int \<Rightarrow> string \<Rightarrow> ('c, 'w) ui \<Rightarrow> ('c, 'w) ui" where
  "SetEmpty la slot txt u = writes slot [SetText ''empty'' txt, SetHidden (la_Empty la) (txt = [])] u"

definition SetPager :: "PanoramaMenuLayout \<Rightarrow> int \<Rightarrow> string \<Rightarrow> ('c, 'w) ui \<Rightarrow> ('c, 'w) ui" where
  "SetPager la slot txt u = writes slot [SetText ''page'' txt, SetHidden (la_Page la) (txt = [])] u"

definition SetPrompt :: "PanoramaMenuLayout \<Rightarrow> int \<Rightarrow> string \<Rightarrow> string \<Rightarrow> ('c, 'w) ui \<Rightarrow> ('c, 'w) ui" where
  "SetPrompt la slot txt hint u =
     writes slot [SetText ''prompt_text'' txt, SetText ''prompt_hint'' hint, SetHidden (la_Prompt la) (txt = []),
       SetClass (la_Root la) ''screen--prompting'' (txt \<noteq> [])] u"

definition SetFooter :: "PanoramaMenuLayout \<Rightarrow> int \<Rightarrow> string \<Rightarrow> string \<Rightarrow> ('c, 'w) ui \<Rightarrow> ('c, 'w) ui" where
  "SetFooter la slot back cancel u = writes slot [SetText ''back'' back, SetHidden (la_Back la) (back = []), SetText ''cancel'' cancel] u"

section \<open>Buttons\<close>

definition button :: "MenuButtonKind \<Rightarrow> nat \<Rightarrow> MenuButton" where
  "button kind index = \<lparr>bn_Kind = kind, bn_Index = int index\<rparr>"

fun row_button :: "string \<Rightarrow> nat \<Rightarrow> RowIds list \<Rightarrow> MenuButton option" where
  "row_button ident index [] = None"
| "row_button ident index (row # rows) =
     (if ident = ri_Button row then Some (button RowButton index)
      else if ident = ri_Decrease row then Some (button StepDown index)
      else if ident = ri_Increase row then Some (button StepUp index)
      else row_button ident (Suc index) rows)"

fun tab_button :: "string \<Rightarrow> nat \<Rightarrow> TabIds list \<Rightarrow> MenuButton option" where
  "tab_button ident index [] = None"
| "tab_button ident index (tab # tabs) =
     (if ident = ti_Id tab then Some (button TabButton index) else tab_button ident (Suc index) tabs)"

definition ButtonFor :: "PanoramaMenuLayout \<Rightarrow> string \<Rightarrow> MenuButton option" where
  "ButtonFor la ident =
     (if ident = la_Cancel la then Some (button CancelButton 0)
      else if ident = la_Back la then Some (button BackButton 0)
      else if ident = la_Close la then Some (button CloseButton 0)
      else if ident = la_PagePrevious la then Some (button PreviousPage 0)
      else if ident = la_PageNext la then Some (button NextPage 0)
      else case tab_button ident 0 (la_Tabs la) of
             Some b \<Rightarrow> Some b
           | None \<Rightarrow> row_button ident 0 (la_Rows la))"

section \<open>Every button has its id\<close>

definition button_id :: "string \<Rightarrow> MenuButtonKind \<Rightarrow> nat \<Rightarrow> string" where
  "button_id screen kind index = screen @
     (case kind of CancelButton \<Rightarrow> ''_cancel'' | BackButton \<Rightarrow> ''_back'' | CloseButton \<Rightarrow> ''_close''
      | PreviousPage \<Rightarrow> ''_page_previous'' | NextPage \<Rightarrow> ''_page_next'' | TabButton \<Rightarrow> ''_tab'' @ to_string index
      | RowButton \<Rightarrow> ''_row'' @ to_string index @ ''_button'' | StepDown \<Rightarrow> ''_row'' @ to_string index @ ''_decrease''
      | StepUp \<Rightarrow> ''_row'' @ to_string index @ ''_increase'')"

definition button_exists :: "nat \<Rightarrow> nat \<Rightarrow> MenuButtonKind \<Rightarrow> nat \<Rightarrow> bool" where
  "button_exists tabs rows kind index \<longleftrightarrow>
     (case kind of TabButton \<Rightarrow> index < tabs | RowButton \<Rightarrow> index < rows | StepDown \<Rightarrow> index < rows | StepUp \<Rightarrow> index < rows | _ \<Rightarrow> index = 0)"

lemma to_string_eq [simp]: "to_string m = to_string n \<longleftrightarrow> m = n"
  by (metis digits_value_to_string)

lemma tab_button_map:
  "tab_button ident i (map (tab_ids screen) [i..<n]) = Some b \<longleftrightarrow> (\<exists>j. i \<le> j \<and> j < n \<and> ident = button_id screen TabButton j \<and> b = button TabButton j)"
proof (induction "n - i" arbitrary: i)
  case (Suc d)
  then have "[i..<n] = i # [Suc i..<n]" by (simp add: upt_conv_Cons)
  with Suc show ?case by (auto simp: tab_ids_def button_id_def le_Suc_eq Suc_le_eq)
qed simp

lemma last_of_row: "last (button_id screen RowButton j) = CHR ''n''" "last (button_id screen StepDown j) = CHR ''e''" "last (button_id screen StepUp j) = CHR ''e''"
  by (simp_all add: button_id_def)

lemma row_ids_apart:
  "button_id screen RowButton i = button_id screen RowButton j \<longleftrightarrow> i = j" "button_id screen StepDown i = button_id screen StepDown j \<longleftrightarrow> i = j"
  "button_id screen StepUp i = button_id screen StepUp j \<longleftrightarrow> i = j" "button_id screen TabButton i = button_id screen TabButton j \<longleftrightarrow> i = j"
  "button_id screen RowButton i \<noteq> button_id screen StepDown j" "button_id screen RowButton i \<noteq> button_id screen StepUp j"
  "button_id screen StepDown i \<noteq> button_id screen StepUp j"
proof -
  show "button_id screen RowButton i \<noteq> button_id screen StepDown j" "button_id screen RowButton i \<noteq> button_id screen StepUp j"
    using last_of_row(1)[of screen i] last_of_row(2)[of screen j] last_of_row(3)[of screen j] by auto
  show "button_id screen StepDown i \<noteq> button_id screen StepUp j"
  proof
    assume "button_id screen StepDown i = button_id screen StepUp j"
    then have "rev (to_string i @ ''_decrease'') = rev (to_string j @ ''_increase'')" by (simp add: button_id_def)
    then show False by simp
  qed
qed (simp_all add: button_id_def)

lemma range_split: "i < n \<Longrightarrow> (\<exists>j. i \<le> j \<and> j < n \<and> P j) \<longleftrightarrow> P i \<or> (\<exists>j. Suc i \<le> j \<and> j < (n :: nat) \<and> P j)"
  by (metis Suc_le_eq le_eq_less_or_eq)

lemma row_button_map:
  "row_button ident i (map (row_ids screen) [i..<n]) = Some b \<longleftrightarrow>
     (\<exists>j. i \<le> j \<and> j < n \<and> (\<exists>kind \<in> {RowButton, StepDown, StepUp}. ident = button_id screen kind j \<and> b = button kind j))"
proof (induction "n - i" arbitrary: i)
  case (Suc d)
  have less: "i < n" using Suc.hyps(2) by simp
  have split: "[i..<n] = i # [Suc i..<n]" using less by (simp add: upt_conv_Cons)
  have ids: "ri_Button (row_ids screen i) = button_id screen RowButton i" "ri_Decrease (row_ids screen i) = button_id screen StepDown i"
    "ri_Increase (row_ids screen i) = button_id screen StepUp i" by (simp_all add: row_ids_def button_id_def)
  have "row_button ident (Suc i) (map (row_ids screen) [Suc i..<n]) = Some b \<longleftrightarrow>
      (\<exists>j. Suc i \<le> j \<and> j < n \<and> (\<exists>kind \<in> {RowButton, StepDown, StepUp}. ident = button_id screen kind j \<and> b = button kind j))"
    using Suc by simp
  then show ?case unfolding range_split[OF less] unfolding split
    by (auto simp: ids row_ids_apart row_ids_apart[symmetric])
qed simp

lemma ids_apart:
  assumes "kind \<in> {CancelButton, BackButton, CloseButton, PreviousPage, NextPage}" "kind \<noteq> other"
  shows "button_id screen kind i \<noteq> button_id screen other j"
  using assms by (cases other) (auto simp: button_id_def)

lemma tab_row_apart: "kind \<in> {RowButton, StepDown, StepUp} \<Longrightarrow> button_id screen TabButton i \<noteq> button_id screen kind j"
  by (auto simp: button_id_def)

lemma ButtonFor_layout:
  "ButtonFor (PanoramaMenuLayout screen tabs rows icons) ident =
     (if ident = button_id screen CancelButton 0 then Some (button CancelButton 0)
      else if ident = button_id screen BackButton 0 then Some (button BackButton 0)
      else if ident = button_id screen CloseButton 0 then Some (button CloseButton 0)
      else if ident = button_id screen PreviousPage 0 then Some (button PreviousPage 0)
      else if ident = button_id screen NextPage 0 then Some (button NextPage 0)
      else case tab_button ident 0 (map (tab_ids screen) [0..<tabs]) of Some b \<Rightarrow> Some b
           | None \<Rightarrow> row_button ident 0 (map (row_ids screen) [0..<rows]))"
  by (simp add: ButtonFor_def PanoramaMenuLayout_def button_id_def cong: option.case_cong)

lemma ButtonFor_finds:
  assumes "button_exists tabs rows kind index"
  shows "ButtonFor (PanoramaMenuLayout screen tabs rows icons) (button_id screen kind index) = Some (button kind index)"
proof (cases "kind \<in> {CancelButton, BackButton, CloseButton, PreviousPage, NextPage}")
  case True
  then show ?thesis using assms unfolding ButtonFor_layout by (auto simp: button_exists_def button_id_def)
next
  case False
  have fixed: "button_id screen kind index \<noteq> button_id screen k 0" if "k \<in> {CancelButton, BackButton, CloseButton, PreviousPage, NextPage}" for k
    using ids_apart[OF that, of kind screen 0 index] that False by auto
  show ?thesis
  proof (cases "kind = TabButton")
    case True
    then have "tab_button (button_id screen kind index) 0 (map (tab_ids screen) [0..<tabs]) = Some (button kind index)"
      using assms unfolding tab_button_map by (auto simp: button_exists_def)
    then show ?thesis unfolding ButtonFor_layout using fixed by simp
  next
    case row: False
    then have kind: "kind \<in> {RowButton, StepDown, StepUp}" using False by (cases kind) auto
    have "tab_button (button_id screen kind index) 0 (map (tab_ids screen) [0..<tabs]) = None"
      using tab_button_map[of "button_id screen kind index" 0 screen tabs] tab_row_apart[OF kind] not_None_eq by metis
    moreover have "row_button (button_id screen kind index) 0 (map (row_ids screen) [0..<rows]) = Some (button kind index)"
      using assms kind unfolding row_button_map by (auto simp: button_exists_def)
    ultimately show ?thesis unfolding ButtonFor_layout using fixed by simp
  qed
qed

lemma ButtonFor_only:
  assumes "ButtonFor (PanoramaMenuLayout screen tabs rows icons) ident = Some b"
  shows "\<exists>kind index. button_exists tabs rows kind index \<and> ident = button_id screen kind index \<and> b = button kind index"
proof (cases "\<exists>k \<in> {CancelButton, BackButton, CloseButton, PreviousPage, NextPage}. ident = button_id screen k 0")
  case True
  then obtain k where k: "k \<in> {CancelButton, BackButton, CloseButton, PreviousPage, NextPage}" "ident = button_id screen k 0" by blast
  then have "button_exists tabs rows k 0" by (auto simp: button_exists_def)
  with ButtonFor_finds[OF this, of screen icons] k assms show ?thesis by auto
next
  case False
  then have "(case tab_button ident 0 (map (tab_ids screen) [0..<tabs]) of Some b \<Rightarrow> Some b
      | None \<Rightarrow> row_button ident 0 (map (row_ids screen) [0..<rows])) = Some b"
    using assms unfolding ButtonFor_layout by simp
  then consider "tab_button ident 0 (map (tab_ids screen) [0..<tabs]) = Some b" | "row_button ident 0 (map (row_ids screen) [0..<rows]) = Some b"
    by (auto split: option.splits)
  then show ?thesis
  proof cases
    case 1
    then obtain j where "j < tabs" "ident = button_id screen TabButton j" "b = button TabButton j" unfolding tab_button_map by blast
    then show ?thesis by (intro exI[of _ TabButton] exI[of _ j]) (simp add: button_exists_def)
  next
    case 2
    then obtain j kind where "j < rows" "kind \<in> {RowButton, StepDown, StepUp}" "ident = button_id screen kind j" "b = button kind j"
      unfolding row_button_map by blast
    then show ?thesis by (intro exI[of _ kind] exI[of _ j]) (auto simp: button_exists_def)
  qed
qed

section \<open>Properties\<close>

text \<open>
  every button of a layout is found under its own id and no other id names a button: a press resolves to
  the button with that id, whatever the screen is called and however many tabs and rows it has.
\<close>

theorem ButtonFor_roundtrip:
  "ButtonFor (PanoramaMenuLayout screen tabs rows icons) ident = Some b \<longleftrightarrow>
     (\<exists>kind index. button_exists tabs rows kind index \<and> ident = button_id screen kind index \<and> b = button kind index)"
  using ButtonFor_finds ButtonFor_only by blast

end
