(* ===== verification/PanoramaMenu.thy ===== *)
theory PanoramaMenu
  imports MenuServices PanoramaMenuLayout
begin

text \<open>
  Menu sessions on a Panorama screen. Source: \<^verbatim>\<open>src/Menu/PanoramaMenu.cpp\<close>. The menu's own listener of
  \<^verbatim>\<open>Committed\<close> redraws; it is \<open>pan_Committed\<close>, for the environment to name. The comparison of menus by
  address is by \<open>mn_Id\<close>, and a read through a null root is a crash.
\<close>

definition upd_session :: "int \<Rightarrow> (Session \<Rightarrow> Session) \<Rightarrow> ('c, 'w) ui \<Rightarrow> ('c, 'w) ui" where
  "upd_session slot f u = u\<lparr>ui_Sessions := (ui_Sessions u)(slot := f (ui_Sessions u slot))\<rparr>"

definition pan_CanShow :: "('c, 'w) menu_env \<Rightarrow> int \<Rightarrow> bool" where
  "pan_CanShow env slot \<longleftrightarrow> IsValidSlot slot \<and> me_Available env \<and> me_Ready env slot"

definition pan_IsOpen :: "int \<Rightarrow> ('c, 'w) ui \<Rightarrow> bool" where
  "pan_IsOpen slot u = stack_IsOpen PanoramaSurface slot u"

abbreviation pan_menu :: "int \<Rightarrow> ('c, 'w) ui \<Rightarrow> 'c Menu option" where
  "pan_menu slot u \<equiv> stack_Current PanoramaSurface slot u"

section \<open>Closing\<close>

definition pan_Hide :: "('c, 'w) menu_env \<Rightarrow> int \<Rightarrow> ('c, 'w) ui \<Rightarrow> ('c, 'w) ui" where
  "pan_Hide env slot u = layout_Hide env slot (freeze_Close slot (CancelCapture slot (upd_session slot (\<lambda>_. new_session) u)))"

definition pan_CloseAll :: "('c, 'w) menu_env \<Rightarrow> int \<Rightarrow> ('c, 'w) ui \<Rightarrow> ('c, 'w) ui" where
  "pan_CloseAll env slot u = (if \<not> pan_IsOpen slot u then u else pan_Hide env slot (stack_Clear env PanoramaSurface slot u))"

definition pan_CloseAllReply :: "('c, 'w) menu_env \<Rightarrow> int \<Rightarrow> string \<Rightarrow> ('c, 'w) ui \<Rightarrow> ('c, 'w) ui" where
  "pan_CloseAllReply env slot replyKey u =
     pan_CloseAll env slot (if me_HasReply env
       then emit (ReplyLine slot (tr_Get (me_Translations env) (me_Languages env) replyKey slot)) u else u)"

section \<open>Drawing\<close>

definition pan_ItemAt :: "PanoramaMenuLayout \<Rightarrow> int \<Rightarrow> int \<Rightarrow> ('c, 'w) ui \<Rightarrow> int" where
  "pan_ItemAt la slot row u = se_Page (ui_Sessions u slot) * RowCount la + row"

definition draw_tab :: "PanoramaMenuLayout \<Rightarrow> int \<Rightarrow> Session \<Rightarrow> nat \<Rightarrow> ('c, 'w) ui \<Rightarrow> ('c, 'w) ui" where
  "draw_tab la slot session index u =
     (if length (se_Tabs session) \<le> index then SetTab la slot index None u
      else let tab = se_Tabs session ! index
           in SetTab la slot index (Some \<lparr>mt_Label = tb_Label tab, mt_Icon = tb_Icon tab, mt_Selected = (int index = se_SelectedTab session)\<rparr>) u)"

definition pan_DrawTabs :: "PanoramaMenuLayout \<Rightarrow> int \<Rightarrow> ('c, 'w) ui \<Rightarrow> ('c, 'w) ui" where
  "pan_DrawTabs la slot u =
     (let session = ui_Sessions u slot
      in fold (draw_tab la slot session) [0..<length (la_Tabs la)] (SetSidebarVisible la slot (se_Tabs session \<noteq> []) u))"

fun draw_rows :: "('c, 'w) menu_env \<Rightarrow> PanoramaMenuLayout \<Rightarrow> int \<Rightarrow> int \<Rightarrow> nat list \<Rightarrow> string \<Rightarrow> ('c, 'w) ui \<Rightarrow> ('c, 'w) ui" where
  "draw_rows env la slot cnt [] pendingHint u = u"
| "draw_rows env la slot cnt (row # rows) pendingHint u =
     (let item = pan_ItemAt la slot (int row) u
      in if cnt \<le> item then draw_rows env la slot cnt rows pendingHint (SetRow la slot row None [] u)
         else case stack_Describe env PanoramaSurface slot item u of
                (described, u1) \<Rightarrow>
                  let hint = (if mr_Pending described \<and> pendingHint = [] then me_Text env slot ''menu.pending'' ''Applying...'' else pendingHint)
                  in draw_rows env la slot cnt rows hint (SetRow la slot row (Some described) hint u1))"

definition clamp_page :: "int \<Rightarrow> int \<Rightarrow> int \<Rightarrow> int" where
  "clamp_page v lo hi = (if v < lo then lo else if hi < v then hi else v)"

definition pan_DrawRows :: "('c, 'w) menu_env \<Rightarrow> PanoramaMenuLayout \<Rightarrow> int \<Rightarrow> 'c Menu \<Rightarrow> ('c, 'w) ui \<Rightarrow> ('c, 'w) ui" where
  "pan_DrawRows env la slot m u =
     (let cnt = int (length (mn_Items m));
          pages = PageCount cnt (RowCount la);
          u1 = upd_session slot (\<lambda>s. s\<lparr>se_Page := clamp_page (se_Page s) 0 (pages - 1)\<rparr>) u;
          u2 = draw_rows env la slot cnt [0..<length (la_Rows la)] [] u1
      in SetPager la slot (if 1 < pages then to_string_int (se_Page (ui_Sessions u2 slot) + 1) @ '' / '' @ to_string_int pages else [])
           (SetEmpty la slot (if cnt = 0 then me_Text env slot ''menu.empty'' ''Nothing here'' else []) u2))"

definition pan_DrawPrompt :: "('c, 'w) menu_env \<Rightarrow> PanoramaMenuLayout \<Rightarrow> int \<Rightarrow> ('c, 'w) ui \<Rightarrow> ('c, 'w) ui" where
  "pan_DrawPrompt env la slot u =
     (case GetPrompt slot u of
        Some prompt \<Rightarrow> SetPrompt la slot prompt (me_Text env slot ''menu.promptHint'' ''Type your answer in chat'') u
      | None \<Rightarrow> SetPrompt la slot [] [] u)"

text \<open>The session as drawn: header, tabs, rows, prompt and footer.\<close>

definition pan_parts :: "('c, 'w) menu_env \<Rightarrow> PanoramaMenuLayout \<Rightarrow> int \<Rightarrow> 'c Menu \<Rightarrow> 'c Menu \<Rightarrow> ('c, 'w) ui \<Rightarrow> ('c, 'w) ui" where
  "pan_parts env la slot root m u =
     (let isRoot = (mn_Id m = mn_Id root);
          u1 = SetHeader la slot \<lparr>mh_Brand = mn_Title root, mh_BrandSubtitle = mn_Subtitle root,
                 mh_Breadcrumb = stack_Breadcrumb PanoramaSurface slot u, mh_Title = mn_Title m,
                 mh_Subtitle = (if isRoot then [] else mn_Subtitle m)\<rparr> u;
          u2 = SetHomeVisible la slot (isRoot \<and> se_HomePage (ui_Sessions u1 slot)) u1;
          u3 = pan_DrawPrompt env la slot (pan_DrawRows env la slot m (pan_DrawTabs la slot u2))
      in SetFooter la slot (if isRoot then [] else me_Text env slot ''nav.back'' ''Back'') (me_Text env slot ''menu.cancel'' ''Cancel'') u3)"

definition pan_Draw :: "('c, 'w) menu_env \<Rightarrow> PanoramaMenuLayout \<Rightarrow> int \<Rightarrow> ('c, 'w) ui \<Rightarrow> ('c, 'w) ui" where
  "pan_Draw env la slot u =
     (case pan_menu slot u of
        None \<Rightarrow> u
      | Some m \<Rightarrow> (case layout_Show env la slot u of
          (False, u1) \<Rightarrow> pan_CloseAll env slot u1
        | (True, u1) \<Rightarrow> (case stack_Root PanoramaSurface slot u1 of
            None \<Rightarrow> crash u1
          | Some root \<Rightarrow> pan_parts env la slot root m u1)))"

definition pan_Committed :: "('c, 'w) menu_env \<Rightarrow> PanoramaMenuLayout \<Rightarrow> Surface \<Rightarrow> int \<Rightarrow> ('c, 'w) ui \<Rightarrow> ('c, 'w) ui" where
  "pan_Committed env la k slot u = (if k = PanoramaSurface then pan_Draw env la slot u else u)"

section \<open>Sessions\<close>

fun read_tabs :: "('c, 'w) menu_env \<Rightarrow> PanoramaMenuLayout \<Rightarrow> int \<Rightarrow> nat list \<Rightarrow> ('c, 'w) ui \<Rightarrow> ('c, 'w) ui" where
  "read_tabs env la slot [] u = u"
| "read_tabs env la slot (index # rest) u =
     (if length (la_Tabs la) \<le> length (se_Tabs (ui_Sessions u slot)) then u
      else case stack_Describe env PanoramaSurface slot (int index) u of
             (described, u1) \<Rightarrow> read_tabs env la slot rest
               (if mr_Kind described = SubmenuKind
                then upd_session slot (\<lambda>s. s\<lparr>se_Tabs := se_Tabs s @
                       [\<lparr>tb_RootIndex = int index, tb_Label = mr_Label described, tb_Icon = mr_Icon described\<rparr>]\<rparr>) u1
                else u1))"

definition pan_ReadTabs :: "('c, 'w) menu_env \<Rightarrow> PanoramaMenuLayout \<Rightarrow> int \<Rightarrow> ('c, 'w) ui \<Rightarrow> ('c, 'w) ui" where
  "pan_ReadTabs env la slot u =
     (case stack_Root PanoramaSurface slot u of
        None \<Rightarrow> crash u
      | Some root \<Rightarrow> read_tabs env la slot [0..<length (mn_Items root)] u)"

definition pan_OpenSession ::
  "('c, 'w) menu_env \<Rightarrow> PanoramaMenuLayout \<Rightarrow> int \<Rightarrow> 'c Menu option \<Rightarrow> MenuOptions \<Rightarrow> ('c, 'w) ui \<Rightarrow> bool \<times> ('c, 'w) ui" where
  "pan_OpenSession env la slot menu options u =
     (if menu = None \<or> \<not> pan_CanShow env slot then (False, u)
      else let u1 = stack_Push PanoramaSurface slot menu (pan_CloseAll env slot u);
               u2 = pan_ReadTabs env la slot (upd_session slot (\<lambda>s. s\<lparr>se_HomePage := mo_HomePage options\<rparr>) u1);
               u3 = pan_Draw env la slot u2
           in if \<not> pan_IsOpen slot u3 then (False, u3) else (True, freeze_Open slot (mo_FreezeMovement options) u3))"

definition pan_Open :: "('c, 'w) menu_env \<Rightarrow> PanoramaMenuLayout \<Rightarrow> int \<Rightarrow> 'c Menu option \<Rightarrow> ('c, 'w) ui \<Rightarrow> ('c, 'w) ui" where
  "pan_Open env la slot menu u =
     (if menu = None then u
      else if \<not> pan_IsOpen slot u then snd (pan_OpenSession env la slot menu default_options u)
      else pan_Draw env la slot (upd_session slot (\<lambda>s. s\<lparr>se_Page := 0\<rparr>) (stack_Push PanoramaSurface slot menu u)))"

definition pan_Close :: "('c, 'w) menu_env \<Rightarrow> PanoramaMenuLayout \<Rightarrow> int \<Rightarrow> ('c, 'w) ui \<Rightarrow> ('c, 'w) ui" where
  "pan_Close env la slot u =
     (if \<not> pan_IsOpen slot u then u
      else let u1 = stack_Pop env PanoramaSurface slot (CancelCapture slot u)
           in if \<not> pan_IsOpen slot u1 then pan_Hide env slot u1
              else pan_Draw env la slot (upd_session slot (\<lambda>s. s\<lparr>se_Page := 0,
                     se_SelectedTab := (if stack_Depth PanoramaSurface slot u1 = 1 then -1 else se_SelectedTab s)\<rparr>) u1))"

definition pan_Prompt :: "('c, 'w) menu_env \<Rightarrow> PanoramaMenuLayout \<Rightarrow> int \<Rightarrow> string \<Rightarrow> 'c option \<Rightarrow> ('c, 'w) ui \<Rightarrow> ('c, 'w) ui" where
  "pan_Prompt env la slot prompt callback u =
     pan_DrawPrompt env la slot (BeginCapture env slot prompt callback DefaultTimeoutMs u)"

section \<open>Presses\<close>

fun tab_of :: "int \<Rightarrow> nat \<Rightarrow> Tab list \<Rightarrow> int" where
  "tab_of index i [] = -1"
| "tab_of index i (tab # tabs) = (if tb_RootIndex tab = index then int i else tab_of index (Suc i) tabs)"

definition pan_Activate :: "('c, 'w) menu_env \<Rightarrow> PanoramaMenuLayout \<Rightarrow> int \<Rightarrow> int \<Rightarrow> ('c, 'w) ui \<Rightarrow> ('c, 'w) ui" where
  "pan_Activate env la slot index u =
     (let u1 = (if stack_Depth PanoramaSurface slot u = 1
                then upd_session slot (\<lambda>s. s\<lparr>se_SelectedTab := tab_of index 0 (se_Tabs s)\<rparr>) u else u)
      in pan_Draw env la slot (stack_Activate env PanoramaSurface slot index u1))"

definition pan_StepRow :: "('c, 'w) menu_env \<Rightarrow> PanoramaMenuLayout \<Rightarrow> int \<Rightarrow> int \<Rightarrow> int \<Rightarrow> ('c, 'w) ui \<Rightarrow> ('c, 'w) ui" where
  "pan_StepRow env la slot row direction u =
     (case stack_Step env PanoramaSurface slot (pan_ItemAt la slot row u) direction u of
        (True, u1) \<Rightarrow> pan_Draw env la slot u1
      | (False, u1) \<Rightarrow> u1)"

definition pan_OpenTab :: "('c, 'w) menu_env \<Rightarrow> PanoramaMenuLayout \<Rightarrow> int \<Rightarrow> int \<Rightarrow> ('c, 'w) ui \<Rightarrow> ('c, 'w) ui" where
  "pan_OpenTab env la slot tab u =
     (if tab < 0 \<or> tab \<ge> int (length (se_Tabs (ui_Sessions u slot))) then u
      else let u1 = upd_session slot (\<lambda>s. s\<lparr>se_Page := 0\<rparr>) (stack_PopToRoot env PanoramaSurface slot u);
               tabs = se_Tabs (ui_Sessions u1 slot)
           in if int (length tabs) \<le> tab then crash u1
              else pan_Activate env la slot (tb_RootIndex (tabs ! nat tab)) u1)"

text \<open>\<^verbatim>\<open>TurnPage\<close> reads the menu again after the held commit ran, through a pointer the stack no longer holds if the commit dropped it.\<close>

definition pan_TurnPage :: "('c, 'w) menu_env \<Rightarrow> PanoramaMenuLayout \<Rightarrow> int \<Rightarrow> int \<Rightarrow> ('c, 'w) ui \<Rightarrow> ('c, 'w) ui" where
  "pan_TurnPage env la slot delta u =
     (case pan_menu slot u of
        None \<Rightarrow> u
      | Some m \<Rightarrow>
          let u1 = stack_ApplyPending env PanoramaSurface slot u
          in if Some m \<notin> set (ss_Menus (ui_States u1 PanoramaSurface slot)) then crash u1
             else pan_Draw env la slot (upd_session slot
                    (\<lambda>s. s\<lparr>se_Page := WrapIndex (se_Page s + delta) (PageCount (int (length (mn_Items m))) (RowCount la))\<rparr>) u1))"

definition pan_OnPress :: "('c, 'w) menu_env \<Rightarrow> PanoramaMenuLayout \<Rightarrow> int \<Rightarrow> string \<Rightarrow> ('c, 'w) ui \<Rightarrow> ('c, 'w) ui" where
  "pan_OnPress env la slot ident u =
     (if \<not> pan_IsOpen slot u then u
      else case ButtonFor la ident of
             None \<Rightarrow> u
           | Some b \<Rightarrow>
               if IsCapturing slot u \<and> bn_Kind b \<noteq> CancelButton then u
               else (case bn_Kind b of
                       CancelButton \<Rightarrow> pan_Draw env la slot (CancelCapture slot u)
                     | BackButton \<Rightarrow> pan_Close env la slot u
                     | CloseButton \<Rightarrow> pan_CloseAll env slot u
                     | PreviousPage \<Rightarrow> pan_TurnPage env la slot (-1) u
                     | NextPage \<Rightarrow> pan_TurnPage env la slot 1 u
                     | TabButton \<Rightarrow> pan_OpenTab env la slot (bn_Index b) u
                     | RowButton \<Rightarrow> pan_Activate env la slot (pan_ItemAt la slot (bn_Index b) u) u
                     | StepDown \<Rightarrow> pan_StepRow env la slot (bn_Index b) (-1) u
                     | StepUp \<Rightarrow> pan_StepRow env la slot (bn_Index b) 1 u))"

definition pan_slot_changed :: "int \<Rightarrow> ('c, 'w) ui \<Rightarrow> ('c, 'w) ui" where
  "pan_slot_changed slot u = u\<lparr>ui_Sessions := PerSlot_Reset new_session slot (ui_Sessions u)\<rparr>"

end
