(* ===== verification/MenuRouter.thy ===== *)
theory MenuRouter
  imports CenterHtmlMenu PanoramaMenu
begin

text \<open>
  \<^verbatim>\<open>runtime.Menus\<close>: one session per player over two surfaces. Source: \<^verbatim>\<open>src/Menu/MenuRouter.cpp\<close>. The fallback is
  the center HTML menu; the preferred surface is \<open>ui_Preferred\<close>. A virtual call on a \<^verbatim>\<open>MenuSurface\<close> is a case over
  the two.
\<close>

section \<open>Calls on a surface\<close>

definition sf_OpenSession :: "('c, 'w) menu_env \<Rightarrow> PanoramaMenuLayout \<Rightarrow> Surface \<Rightarrow> int \<Rightarrow> 'c Menu option \<Rightarrow> MenuOptions
    \<Rightarrow> ('c, 'w) ui \<Rightarrow> bool \<times> ('c, 'w) ui" where
  "sf_OpenSession env la k slot menu options u =
     (case k of CenterSurface \<Rightarrow> center_OpenSession env slot menu options u | PanoramaSurface \<Rightarrow> pan_OpenSession env la slot menu options u)"

definition sf_Open :: "('c, 'w) menu_env \<Rightarrow> PanoramaMenuLayout \<Rightarrow> Surface \<Rightarrow> int \<Rightarrow> 'c Menu option \<Rightarrow> ('c, 'w) ui \<Rightarrow> ('c, 'w) ui" where
  "sf_Open env la k slot menu u =
     (case k of CenterSurface \<Rightarrow> center_Open env slot menu u | PanoramaSurface \<Rightarrow> pan_Open env la slot menu u)"

definition sf_IsOpen :: "Surface \<Rightarrow> int \<Rightarrow> ('c, 'w) ui \<Rightarrow> bool" where
  "sf_IsOpen k slot u = (case k of CenterSurface \<Rightarrow> center_IsOpen slot u | PanoramaSurface \<Rightarrow> pan_IsOpen slot u)"

definition sf_Close :: "('c, 'w) menu_env \<Rightarrow> PanoramaMenuLayout \<Rightarrow> Surface \<Rightarrow> int \<Rightarrow> ('c, 'w) ui \<Rightarrow> ('c, 'w) ui" where
  "sf_Close env la k slot u = (case k of CenterSurface \<Rightarrow> center_Close env slot u | PanoramaSurface \<Rightarrow> pan_Close env la slot u)"

definition sf_CloseAll :: "('c, 'w) menu_env \<Rightarrow> Surface \<Rightarrow> int \<Rightarrow> ('c, 'w) ui \<Rightarrow> ('c, 'w) ui" where
  "sf_CloseAll env k slot u = (case k of CenterSurface \<Rightarrow> center_CloseAll env slot u | PanoramaSurface \<Rightarrow> pan_CloseAll env slot u)"

definition sf_CloseAllReply :: "('c, 'w) menu_env \<Rightarrow> Surface \<Rightarrow> int \<Rightarrow> string \<Rightarrow> ('c, 'w) ui \<Rightarrow> ('c, 'w) ui" where
  "sf_CloseAllReply env k slot key u =
     (case k of CenterSurface \<Rightarrow> center_CloseAllReply env slot key u | PanoramaSurface \<Rightarrow> pan_CloseAllReply env slot key u)"

definition sf_Prompt :: "('c, 'w) menu_env \<Rightarrow> PanoramaMenuLayout \<Rightarrow> Surface \<Rightarrow> int \<Rightarrow> string \<Rightarrow> 'c option \<Rightarrow> ('c, 'w) ui \<Rightarrow> ('c, 'w) ui" where
  "sf_Prompt env la k slot prompt callback u =
     (case k of CenterSurface \<Rightarrow> center_Prompt env slot prompt callback u | PanoramaSurface \<Rightarrow> pan_Prompt env la slot prompt callback u)"

section \<open>The router\<close>

definition mr_Prefer :: "Surface \<Rightarrow> ('c, 'w) ui \<Rightarrow> ('c, 'w) ui" where
  "mr_Prefer k u = u\<lparr>ui_Preferred := Some k\<rparr>"

text \<open>Dropping the subscription \<^verbatim>\<open>Prefer\<close> returned for \<open>k\<close>.\<close>

definition mr_drop_preference :: "Surface \<Rightarrow> ('c, 'w) ui \<Rightarrow> ('c, 'w) ui" where
  "mr_drop_preference k u = (if ui_Preferred u = Some k then u\<lparr>ui_Preferred := None\<rparr> else u)"

definition mr_SessionOf :: "int \<Rightarrow> ('c, 'w) ui \<Rightarrow> Surface" where
  "mr_SessionOf slot u = (case ui_Preferred u of Some k \<Rightarrow> if sf_IsOpen k slot u then k else CenterSurface | None \<Rightarrow> CenterSurface)"

definition mr_OpenSession :: "('c, 'w) menu_env \<Rightarrow> PanoramaMenuLayout \<Rightarrow> int \<Rightarrow> 'c Menu option \<Rightarrow> MenuOptions \<Rightarrow> ('c, 'w) ui \<Rightarrow> bool \<times> ('c, 'w) ui" where
  "mr_OpenSession env la slot menu options u =
     (let u1 = (case ui_Preferred u of Some k \<Rightarrow> sf_CloseAll env k slot u | None \<Rightarrow> u);
          u2 = sf_CloseAll env CenterSurface slot u1
      in case (case ui_Preferred u2 of Some k \<Rightarrow> sf_OpenSession env la k slot menu options u2 | None \<Rightarrow> (False, u2)) of
           (True, u3) \<Rightarrow> (True, u3)
         | (False, u3) \<Rightarrow> sf_OpenSession env la CenterSurface slot menu options u3)"

definition mr_IsOpen :: "int \<Rightarrow> ('c, 'w) ui \<Rightarrow> bool" where
  "mr_IsOpen slot u \<longleftrightarrow> (case ui_Preferred u of Some k \<Rightarrow> sf_IsOpen k slot u | None \<Rightarrow> False) \<or> sf_IsOpen CenterSurface slot u"

definition mr_Open :: "('c, 'w) menu_env \<Rightarrow> PanoramaMenuLayout \<Rightarrow> int \<Rightarrow> 'c Menu option \<Rightarrow> ('c, 'w) ui \<Rightarrow> ('c, 'w) ui" where
  "mr_Open env la slot menu u =
     (if \<not> mr_IsOpen slot u then snd (mr_OpenSession env la slot menu default_options u)
      else sf_Open env la (mr_SessionOf slot u) slot menu u)"

definition mr_Close :: "('c, 'w) menu_env \<Rightarrow> PanoramaMenuLayout \<Rightarrow> int \<Rightarrow> ('c, 'w) ui \<Rightarrow> ('c, 'w) ui" where
  "mr_Close env la slot u = sf_Close env la (mr_SessionOf slot u) slot u"

definition mr_CloseAll :: "('c, 'w) menu_env \<Rightarrow> int \<Rightarrow> ('c, 'w) ui \<Rightarrow> ('c, 'w) ui" where
  "mr_CloseAll env slot u = sf_CloseAll env (mr_SessionOf slot u) slot u"

definition mr_CloseAllReply :: "('c, 'w) menu_env \<Rightarrow> int \<Rightarrow> string \<Rightarrow> ('c, 'w) ui \<Rightarrow> ('c, 'w) ui" where
  "mr_CloseAllReply env slot key u = sf_CloseAllReply env (mr_SessionOf slot u) slot key u"

definition mr_Prompt :: "('c, 'w) menu_env \<Rightarrow> PanoramaMenuLayout \<Rightarrow> int \<Rightarrow> string \<Rightarrow> 'c option \<Rightarrow> ('c, 'w) ui \<Rightarrow> ('c, 'w) ui" where
  "mr_Prompt env la slot prompt callback u = sf_Prompt env la (mr_SessionOf slot u) slot prompt callback u"

end
