(* ===== verification/MenuInvariant.thy ===== *)
theory MenuInvariant
  imports MenuRouter
begin

text \<open>
  What holds of the menus of one plugin as a whole. A state is read through its \<open>view\<close>: the menus and the
  breadcrumb of every stack, the frame work, who asked to be held still, the preferred surface. Most operations
  leave the view alone, and the others change it in one place. From that: a player has one session at a time
  (through the contract both surfaces meet, \<open>menu_surface\<close>), popping a stack is safe exactly when the held commit
  leaves the stack open, and every state the menus can reach is consistent.
\<close>

section \<open>The view\<close>

record 'c menu_view =
  mv_Menus :: "Surface \<Rightarrow> int \<Rightarrow> 'c Menu option list"
  mv_Crumb :: "Surface \<Rightarrow> int \<Rightarrow> string"
  mv_Frame :: bool
  mv_Requested :: "int \<Rightarrow> bool"
  mv_Preferred :: "Surface option"
  mv_Crashed :: bool

definition view :: "('c, 'w) ui \<Rightarrow> 'c menu_view" where
  "view u = \<lparr>mv_Menus = (\<lambda>k s. ss_Menus (ui_States u k s)), mv_Crumb = (\<lambda>k s. ss_Breadcrumb (ui_States u k s)),
     mv_Frame = ui_HtmlFrame u, mv_Requested = (\<lambda>s. fs_Requested (ui_Freeze u s)), mv_Preferred = ui_Preferred u,
     mv_Crashed = ui_Crashed u\<rparr>"

definition put_menus :: "Surface \<Rightarrow> int \<Rightarrow> 'c Menu option list \<Rightarrow> 'c menu_view \<Rightarrow> 'c menu_view" where
  "put_menus k slot menus v = v\<lparr>mv_Menus := (mv_Menus v)(k := (mv_Menus v k)(slot := menus)),
     mv_Crumb := (mv_Crumb v)(k := (mv_Crumb v k)(slot := crumbs menus)),
     mv_Crashed := mv_Crashed v \<or> None \<in> set (butlast menus)\<rparr>"

definition put_request :: "int \<Rightarrow> bool \<Rightarrow> 'c menu_view \<Rightarrow> 'c menu_view" where
  "put_request slot b v = v\<lparr>mv_Requested := (mv_Requested v)(slot := b)\<rparr>"

named_theorems views

lemma view_fields [simp]:
  "mv_Menus (view u) k s = ss_Menus (ui_States u k s)" "mv_Crumb (view u) k s = ss_Breadcrumb (ui_States u k s)"
  "mv_Frame (view u) = ui_HtmlFrame u" "mv_Requested (view u) s = fs_Requested (ui_Freeze u s)"
  "mv_Preferred (view u) = ui_Preferred u" "mv_Crashed (view u) = ui_Crashed u"
  by (simp_all add: view_def)

lemma view_eqI: "(\<And>k s. ss_Menus (ui_States u k s) = ss_Menus (ui_States v k s)) \<Longrightarrow>
    (\<And>k s. ss_Breadcrumb (ui_States u k s) = ss_Breadcrumb (ui_States v k s)) \<Longrightarrow> ui_HtmlFrame u = ui_HtmlFrame v \<Longrightarrow>
    (\<And>s. fs_Requested (ui_Freeze u s) = fs_Requested (ui_Freeze v s)) \<Longrightarrow> ui_Preferred u = ui_Preferred v \<Longrightarrow>
    ui_Crashed u = ui_Crashed v \<Longrightarrow> view u = view v"
  by (simp add: view_def fun_eq_iff)

lemma view_services [views, simp]:
  "view (put_held k s e u) = view u" "view (CancelCapture s u) = view u" "view (BeginCapture env s p c t u) = view u"
  "view (emit out u) = view u" "view (writes s ws u) = view u" "view (layout_Hide env s u) = view u"
  "view (upd_cursor s f u) = view u" "view (upd_session s g u) = view u" "view (put_chat s cp u) = view u"
  by (simp_all add: view_def put_held_def CancelCapture_def BeginCapture_def put_chat_def emit_def writes_def layout_Hide_def
      upd_cursor_def upd_session_def split: option.split)

lemma view_movement [simp]: "view (set_move s t u) = view u" "view (put_movement s mf u) = view u"
  by (simp_all add: view_def freeze_parts fun_eq_iff)

lemma view_freeze [views, simp]:
  "view (SyncFrameWork u) = view u" "view (freeze_Hold s u) = view u" "view (freeze_Release s u) = view u" "view (freeze_Sync s u) = view u"
proof -
  show hold: "view (freeze_Hold s u) = view u" for u :: "('a, 'b) ui"
    by (simp add: freeze_Hold_def split: option.split)
  show "view (SyncFrameWork u) = view u" by (simp add: SyncFrameWork_def Let_def view_def)
  show "view (freeze_Release s u) = view u" by (simp add: freeze_Release_def Let_def)
  show "view (freeze_Sync s u) = view u" by (simp add: freeze_Sync_def Let_def hold)
qed

lemma view_fold: "(\<And>x u. view (f x u) = view u) \<Longrightarrow> view (fold f xs u) = view u"
  by (induction xs arbitrary: u) simp_all

lemma view_freezing [views, simp]:
  "view (freeze_Enable b u) = view u" "view (freeze_frame u) = view u"
proof -
  show "view (freeze_Enable b u) = view u"
    by (simp add: freeze_Enable_def Let_def view_fold) (simp add: view_def)
  show "view (freeze_frame u) = view u"
    by (simp add: freeze_frame_def freeze_OnGameFrame_def view_fold)
qed

lemma view_requested [views]: "view (put_requested s b u) = put_request s b (view u)"
  by (simp add: view_def put_request_def put_requested_def fun_eq_iff)

lemma view_freeze_Open [views]: "view (freeze_Open s b u) = (if IsValidSlot s then put_request s b (view u) else view u)"
  by (simp add: freeze_Open_def Let_def view_requested)

lemma view_freeze_Close [views]: "view (freeze_Close s u) = (if IsValidSlot s then put_request s False (view u) else view u)"
  by (simp add: freeze_Close_def Let_def view_requested)

lemma view_crash [views]: "view (crash u) = (view u)\<lparr>mv_Crashed := True\<rparr>"
  by (simp add: view_def crash_def)

lemma view_Rebuild: "view (stack_Rebuild k s (upd_state k s (\<lambda>st. st\<lparr>ss_Menus := menus\<rparr>) u)) = put_menus k s menus (view u)"
  by (simp add: stack_Rebuild_def Let_def view_def put_menus_def upd_state_def crash_def fun_eq_iff)

lemma view_Push [views]: "view (stack_Push k s menu u) =
    (if \<not> IsValidSlot s \<or> menu = None then view u else put_menus k s (ss_Menus (ui_States u k s) @ [menu]) (view u))"
proof -
  have "upd_state k s (\<lambda>st. st\<lparr>ss_Menus := ss_Menus st @ [menu]\<rparr>) u =
      upd_state k s (\<lambda>st. st\<lparr>ss_Menus := ss_Menus (ui_States u k s) @ [menu]\<rparr>) u" by (simp add: upd_state_def)
  then show ?thesis by (simp add: stack_Push_def view_Rebuild)
qed

lemma crumbs_short [simp]: "crumbs [] = []" "crumbs [m] = []"
  by (simp_all add: crumbs_def)

lemma view_reset [views]: "view (upd_state k s (\<lambda>_. new_stack) u) = put_menus k s [] (view u)"
  by (simp add: view_def put_menus_def upd_state_def new_stack_def fun_eq_iff)

lemma view_Clear [views]: "view (stack_Clear env k s u) =
    (if \<not> IsValidSlot s then view u else put_menus k s [] (view (held_Apply env k s u)))"
  by (simp add: stack_Clear_def views)

lemma put_menus_put [simp]: "mv_Menus (put_menus k s menus v) k' s' = (if k' = k \<and> s' = s then menus else mv_Menus v k' s')"
  "mv_Menus (put_request s b v) = mv_Menus v" "mv_Preferred (put_menus k s menus v) = mv_Preferred v"
  "mv_Preferred (put_request s b v) = mv_Preferred v" "mv_Requested (put_menus k s menus v) = mv_Requested v"
  "mv_Requested (put_request s b v) = (mv_Requested v)(s := b)" "mv_Frame (put_menus k s menus v) = mv_Frame v" "mv_Frame (put_request s b v) = mv_Frame v"
  "mv_Crashed (put_menus k s menus v) \<longleftrightarrow> mv_Crashed v \<or> None \<in> set (butlast menus)" "mv_Crashed (put_request s b v) = mv_Crashed v"
  "mv_Crumb (put_menus k s menus v) k' s' = (if k' = k \<and> s' = s then crumbs menus else mv_Crumb v k' s')"
  "mv_Crumb (put_request s b v) = mv_Crumb v"
  by (simp_all add: put_menus_def put_request_def)

lemma view_Pop [views]:
  "view (stack_Pop env k s u) =
     (if \<not> IsValidSlot s \<or> ss_Menus (ui_States u k s) = [] then view u
      else let v = view (held_Apply env k s u)
           in if mv_Menus v k s = [] then v\<lparr>mv_Crashed := True\<rparr> else put_menus k s (butlast (mv_Menus v k s)) v)"
proof -
  have "view (upd_state k s (\<lambda>_. new_stack) (upd_state k s f w)) = put_menus k s [] (view w)" for f :: "'a StackState \<Rightarrow> 'a StackState" and w :: "('a, 'b) ui"
    by (simp add: view_def put_menus_def upd_state_def new_stack_def fun_eq_iff)
  then show ?thesis by (simp add: stack_Pop_def Let_def view_crash view_Rebuild)
qed

lemma view_PopToRoot [views]:
  "view (stack_PopToRoot env k s u) =
     (if \<not> IsValidSlot s \<or> ss_Menus (ui_States u k s) = [] then view u
      else let v = view (held_Apply env k s u) in put_menus k s (case mv_Menus v k s of [] \<Rightarrow> [None] | root # _ \<Rightarrow> [root]) v)"
proof -
  have "upd_state k s (\<lambda>st. st\<lparr>ss_Menus := (case ss_Menus st of [] \<Rightarrow> [None] | root # _ \<Rightarrow> [root])\<rparr>) w =
      upd_state k s (\<lambda>st. st\<lparr>ss_Menus := (case ss_Menus (ui_States w k s) of [] \<Rightarrow> [None] | root # _ \<Rightarrow> [root])\<rparr>) w" for w :: "('a, 'b) ui"
    by (simp add: upd_state_def)
  then show ?thesis by (simp add: stack_PopToRoot_def Let_def view_Rebuild)
qed

lemma view_rows [simp]: "view (upd_state k s (\<lambda>st. st\<lparr>ss_Rows := rows\<rparr>) u) = view u"
  by (simp add: view_def upd_state_def fun_eq_iff)

lemma view_Describe [simp]: "view (snd (stack_Describe env k s i u)) = view u"
  by (simp add: stack_Describe_def Let_def split: option.split)

lemma view_drawing [simp]:
  "view (SetHeader la s h u) = view u" "view (SetSidebarVisible la s b u) = view u" "view (SetHomeVisible la s b u) = view u"
  "view (SetTab la s i t u) = view u" "view (SetRow la s i r hint u) = view u" "view (SetEmpty la s e u) = view u"
  "view (SetPager la s e u) = view u" "view (SetPrompt la s e f u) = view u" "view (SetFooter la s e f u) = view u"
  by (simp_all add: SetHeader_def SetSidebarVisible_def SetHomeVisible_def SetTab_def SetRow_def SetEmpty_def SetPager_def SetPrompt_def
      SetFooter_def Let_def split: option.split)

lemma view_draw_rows [simp]: "view (draw_rows env la s cnt rows hint u) = view u"
proof (induction rows arbitrary: hint u)
  case (Cons row rows)
  obtain d u1 where d: "stack_Describe env PanoramaSurface s (pan_ItemAt la s (int row) u) u = (d, u1)" by fastforce
  then have "view u1 = view u" using view_Describe[of env PanoramaSurface s "pan_ItemAt la s (int row) u" u] by simp
  then show ?case using Cons d by (simp add: Let_def)
qed simp

lemma view_pan_draw [simp]:
  "view (pan_DrawTabs la s u) = view u" "view (pan_DrawRows env la s m u) = view u" "view (pan_DrawPrompt env la s u) = view u"
  by (simp_all add: pan_DrawTabs_def pan_DrawRows_def pan_DrawPrompt_def draw_tab_def Let_def view_fold split: option.split)

lemma view_pan_parts [simp]: "view (pan_parts env la s root m u) = view u"
  by (simp add: pan_parts_def Let_def)

lemma view_read_tabs [simp]: "view (read_tabs env la s is u) = view u"
proof (induction "is" arbitrary: u)
  case (Cons i "is")
  obtain d u1 where d: "stack_Describe env PanoramaSurface s (int i) u = (d, u1)" by fastforce
  then have "view u1 = view u" using view_Describe[of env PanoramaSurface s "int i" u] by simp
  then show ?case using Cons d by simp
qed simp

section \<open>One session\<close>

text \<open>What a router asks of a surface, whatever state it keeps.\<close>

locale menu_surface =
  fixes is_open :: "int \<Rightarrow> 's \<Rightarrow> bool" and close_all :: "'e \<Rightarrow> int \<Rightarrow> 's \<Rightarrow> 's"
    and open_session :: "'e \<Rightarrow> int \<Rightarrow> 's \<Rightarrow> bool \<times> 's" and quiet :: "'e \<Rightarrow> bool"
  assumes closes: "quiet e \<Longrightarrow> \<not> is_open slot (close_all e slot u)"
    and opened: "fst (open_session e slot u) \<Longrightarrow> is_open slot (snd (open_session e slot u))"
    and refused: "quiet e \<Longrightarrow> \<not> fst (open_session e slot u) \<Longrightarrow> \<not> is_open slot u \<Longrightarrow> \<not> is_open slot (snd (open_session e slot u))"

text \<open>Two surfaces on one state that do not open sessions on each other.\<close>

locale two_surfaces = first: menu_surface is_open_1 close_all_1 open_session_1 quiet + second: menu_surface is_open_2 close_all_2 open_session_2 quiet
  for is_open_1 :: "int \<Rightarrow> 's \<Rightarrow> bool" and close_all_1 :: "'e \<Rightarrow> int \<Rightarrow> 's \<Rightarrow> 's" and open_session_1 :: "'e \<Rightarrow> int \<Rightarrow> 's \<Rightarrow> bool \<times> 's"
    and quiet :: "'e \<Rightarrow> bool"
    and is_open_2 :: "int \<Rightarrow> 's \<Rightarrow> bool" and close_all_2 :: "'e \<Rightarrow> int \<Rightarrow> 's \<Rightarrow> 's" and open_session_2 :: "'e \<Rightarrow> int \<Rightarrow> 's \<Rightarrow> bool \<times> 's" +
  assumes close_second_keeps: "quiet e \<Longrightarrow> \<not> is_open_1 slot u \<Longrightarrow> \<not> is_open_1 slot (close_all_2 e slot u)"
    and open_first_keeps: "quiet e \<Longrightarrow> \<not> is_open_2 slot u \<Longrightarrow> \<not> is_open_2 slot (snd (open_session_1 e slot u))"
    and open_second_keeps: "quiet e \<Longrightarrow> \<not> is_open_1 slot u \<Longrightarrow> \<not> is_open_1 slot (snd (open_session_2 e slot u))"
begin

lemma closed_both:
  assumes "quiet e"
  shows "\<not> is_open_1 slot (close_all_2 e slot (close_all_1 e slot u))" "\<not> is_open_2 slot (close_all_2 e slot (close_all_1 e slot u))"
  using first.closes second.closes close_second_keeps assms by simp_all

lemma first_alone:
  assumes "quiet e" and "\<not> is_open_2 slot u" and "open_session_1 e slot u = (True, v)"
  shows "is_open_1 slot v" "\<not> is_open_2 slot v"
  using first.opened[of e slot u] open_first_keeps[OF assms(1,2)] assms(3) by simp_all

lemma second_alone:
  assumes "quiet e" and "\<not> is_open_1 slot u" "\<not> is_open_2 slot u" and "open_session_1 e slot u = (False, v)" and "open_session_2 e slot v = (r, w)"
  shows "\<not> is_open_1 slot w" "is_open_2 slot w \<longleftrightarrow> r"
  using first.refused[OF assms(1) _ assms(2)] open_first_keeps[OF assms(1,3)] open_second_keeps[OF assms(1), of slot v]
    second.opened[of e slot v] second.refused[OF assms(1), of slot v] assms(4,5) by (cases r; simp)+

end

text \<open>Commits, and what listens to them, open no menu and leave the preferred surface alone.\<close>

definition opens_nothing :: "(('c, 'w) ui \<Rightarrow> ('c, 'w) ui) \<Rightarrow> bool" where
  "opens_nothing f \<longleftrightarrow> (\<forall>u. (\<forall>k s. mv_Menus (view u) k s = [] \<longrightarrow> mv_Menus (view (f u)) k s = []) \<and>
     ui_Preferred (f u) = ui_Preferred u)"

definition quiet_env :: "('c, 'w) menu_env \<Rightarrow> bool" where
  "quiet_env env \<longleftrightarrow> (\<forall>c slot. opens_nothing (me_Commit env c slot)) \<and> (\<forall>k slot. opens_nothing (me_Committed env k slot))"

lemma quiet_Apply:
  assumes "quiet_env env"
  shows "opens_nothing (held_Apply env k slot)"
proof -
  have put: "opens_nothing (put_held k slot e)" for e :: "'a HeldEntry"
    unfolding opens_nothing_def by (metis view_services(1) view_fields(5))
  have comp: "opens_nothing (f \<circ> g)" if "opens_nothing f" "opens_nothing g" for f g :: "('a, 'b) ui \<Rightarrow> ('a, 'b) ui"
    using that by (simp add: opens_nothing_def)
  have "opens_nothing (me_Committed env k slot \<circ> me_Commit env c slot \<circ> put_held k slot no_entry)" for c
    using assms put comp unfolding quiet_env_def by metis
  then show ?thesis using put[of no_entry]
    by (auto simp: opens_nothing_def held_Apply_def Let_def split: option.split)
qed

lemma Apply_stays_closed: "quiet_env env \<Longrightarrow> ss_Menus (ui_States u k' s) = [] \<Longrightarrow> ss_Menus (ui_States (held_Apply env k slot u) k' s) = []"
  using quiet_Apply[of env k slot] by (simp add: opens_nothing_def)

lemma Apply_prefers: "quiet_env env \<Longrightarrow> ui_Preferred (held_Apply env k slot u) = ui_Preferred u"
  using quiet_Apply[of env k slot] by (simp add: opens_nothing_def)

abbreviation has_menu :: "Surface \<Rightarrow> int \<Rightarrow> ('c, 'w) ui \<Rightarrow> bool" where
  "has_menu k slot u \<equiv> stack_IsOpen k slot u"

lemma has_menu_view: "has_menu k slot u \<longleftrightarrow> IsValidSlot slot \<and> mv_Menus (view u) k slot \<noteq> []"
  by (simp add: stack_IsOpen_def stack_Depth_def)

lemma has_menu_same: "view u = view v \<Longrightarrow> has_menu k slot u = has_menu k slot v"
  by (simp add: has_menu_view)

lemma view_frame_on [simp]: "view (u\<lparr>ui_HtmlFrame := b\<rparr>) = (view u)\<lparr>mv_Frame := b\<rparr>"
  by (simp add: view_def)

lemma view_center_CloseAll: "view (center_CloseAll env s u) =
    (if \<not> has_menu CenterSurface s u then view u
     else put_request s False (put_menus CenterSurface s [] (view (held_Apply env CenterSurface s (CancelCapture s u)))))"
  using has_menu_same[of "CancelCapture s u" u CenterSurface s]
  by (simp add: center_CloseAll_def center_IsOpen_def center_ended_def views Let_def has_menu_view del: view_fields)

lemma view_pan_CloseAll: "view (pan_CloseAll env s u) =
    (if \<not> has_menu PanoramaSurface s u then view u
     else put_request s False (put_menus PanoramaSurface s [] (view (held_Apply env PanoramaSurface s u))))"
  by (simp add: pan_CloseAll_def pan_IsOpen_def pan_Hide_def views has_menu_view)

lemma view_center_Push: "IsValidSlot s \<Longrightarrow> view (center_Push env s (Some m) u) =
    (put_menus CenterSurface s (ss_Menus (ui_States u CenterSurface s) @ [Some m]) (view u))\<lparr>mv_Frame := True\<rparr>"
  by (simp add: center_Push_def center_ResetCursor_def views)

lemma view_Show: "view (snd (layout_Show env la s u)) = view u" "fst (layout_Show env la s u) = me_Spawns env s"
  by (simp_all add: layout_Show_def)

lemma Root_view: "stack_Root k s u = (if \<not> has_menu k s u then None else hd (mv_Menus (view u) k s))"
  "stack_Current k s u = (if \<not> has_menu k s u then None else last (mv_Menus (view u) k s))"
  by (simp_all add: stack_Root_def stack_Current_def has_menu_view)

lemma view_pan_Draw:
  "view (pan_Draw env la s u) =
     (if stack_Current PanoramaSurface s u = None then view u
      else if \<not> me_Spawns env s then view (pan_CloseAll env s u)
      else if stack_Root PanoramaSurface s u = None then (view u)\<lparr>mv_Crashed := True\<rparr> else view u)"
proof -
  have writes: "stack_Root PanoramaSurface s (writes s' ws u) = stack_Root PanoramaSurface s u" for s' ws by (simp add: Root_view has_menu_view)
  show ?thesis
    by (auto simp: pan_Draw_def layout_Show_def writes view_crash split: option.split)
qed

lemma view_pan_ReadTabs: "stack_Root PanoramaSurface s u = Some root \<Longrightarrow> view (pan_ReadTabs env la s u) = view u"
  by (simp add: pan_ReadTabs_def)

text \<open>A panorama session that opens holds the menu alone, and one that cannot be shown holds nothing.\<close>

lemma pan_OpenSession_view:
  assumes "IsValidSlot s" and "pan_CanShow env s" and "pan_OpenSession env la s (Some m) options u = (r, v)"
  defines "closed \<equiv> view (pan_CloseAll env s u)"
  shows "me_Spawns env s \<Longrightarrow> r \<and> view v = put_request s (mo_FreezeMovement options) (put_menus PanoramaSurface s [Some m] closed)"
    and "\<not> me_Spawns env s \<Longrightarrow> \<not> r \<and> (\<exists>w. view w = put_menus PanoramaSurface s [Some m] closed \<and>
           view v = put_request s False (put_menus PanoramaSurface s [] (view (held_Apply env PanoramaSurface s w))))"
proof -
  define u1 where "u1 = upd_session s (\<lambda>se. se\<lparr>se_HomePage := mo_HomePage options\<rparr>) (stack_Push PanoramaSurface s (Some m) (pan_CloseAll env s u))"
  have empty: "ss_Menus (ui_States (pan_CloseAll env s u) PanoramaSurface s) = []"
    using view_pan_CloseAll[of env s u] assms(1)
    by (metis has_menu_view put_menus_put(1,2) view_fields(1))
  have u1: "view u1 = put_menus PanoramaSurface s [Some m] closed"
    using assms(1) empty by (simp add: u1_def view_Push closed_def)
  then have shown: "stack_Root PanoramaSurface s u1 = Some m" "stack_Current PanoramaSurface s u1 = Some m"
    using assms(1) by (simp_all add: Root_view has_menu_view)
  define u2 where "u2 = pan_ReadTabs env la s u1"
  have u2: "view u2 = view u1" using view_pan_ReadTabs[OF shown(1)] by (simp add: u2_def)
  have menu: "stack_Root PanoramaSurface s u2 = Some m" "stack_Current PanoramaSurface s u2 = Some m" "has_menu PanoramaSurface s u2"
    using shown u2 u1 assms(1) by (simp_all add: Root_view has_menu_view)
  have v: "(r, v) = (if \<not> pan_IsOpen s (pan_Draw env la s u2) then (False, pan_Draw env la s u2)
      else (True, freeze_Open s (mo_FreezeMovement options) (pan_Draw env la s u2)))"
    unfolding assms(3)[symmetric] using assms(2) by (simp add: pan_OpenSession_def Let_def u1_def u2_def)
  show "r \<and> view v = put_request s (mo_FreezeMovement options) (put_menus PanoramaSurface s [Some m] closed)" if "me_Spawns env s"
  proof -
    have d: "view (pan_Draw env la s u2) = view u1" using menu that u2 by (simp add: view_pan_Draw)
    then have "pan_IsOpen s (pan_Draw env la s u2)" using u1 assms(1) by (simp add: pan_IsOpen_def has_menu_view)
    then show ?thesis using v d u1 assms(1) by (simp add: view_freeze_Open)
  qed
  show "\<not> r \<and> (\<exists>w. view w = put_menus PanoramaSurface s [Some m] closed \<and>
      view v = put_request s False (put_menus PanoramaSurface s [] (view (held_Apply env PanoramaSurface s w))))" if "\<not> me_Spawns env s"
  proof -
    have d: "view (pan_Draw env la s u2) = put_request s False (put_menus PanoramaSurface s [] (view (held_Apply env PanoramaSurface s u2)))"
      using menu that by (simp add: view_pan_Draw view_pan_CloseAll)
    then have "\<not> pan_IsOpen s (pan_Draw env la s u2)" by (simp add: pan_IsOpen_def has_menu_view del: view_fields)
    then show ?thesis using v d u1 u2 by auto
  qed
qed

lemma center_OpenSession_view:
  assumes "IsValidSlot s"
  shows "fst (center_OpenSession env s (Some m) options u)"
    and "view (snd (center_OpenSession env s (Some m) options u)) =
      (put_menus CenterSurface s [Some m] (put_request s (mo_FreezeMovement options) (view (center_CloseAll env s u))))\<lparr>mv_Frame := True\<rparr>"
proof -
  have "mv_Menus (view (center_CloseAll env s u)) CenterSurface s = []"
    unfolding view_center_CloseAll using assms by (simp add: has_menu_view del: view_fields)
  moreover have "view (freeze_Open s b w) = put_request s b (view w)" for b and w :: "('a, 'b) ui" using assms by (simp add: view_freeze_Open)
  ultimately have "ss_Menus (ui_States (freeze_Open s b (center_CloseAll env s u)) CenterSurface s) = []" for b
    by (metis put_menus_put(2) view_fields(1))
  then show "view (snd (center_OpenSession env s (Some m) options u)) =
      (put_menus CenterSurface s [Some m] (put_request s (mo_FreezeMovement options) (view (center_CloseAll env s u))))\<lparr>mv_Frame := True\<rparr>"
    using assms by (simp add: center_OpenSession_def view_center_Push view_freeze_Open)
  show "fst (center_OpenSession env s (Some m) options u)" using assms by (simp add: center_OpenSession_def)
qed

lemma menus_view: "has_menu k s u \<longleftrightarrow> IsValidSlot s \<and> mv_Menus (view u) k s \<noteq> []"
  by (rule has_menu_view)

lemma quiet_menus: "quiet_env env \<Longrightarrow> mv_Menus (view u) k' s = [] \<Longrightarrow> mv_Menus (view (held_Apply env k slot u)) k' s = []"
  using Apply_stays_closed[of env u k' s k slot] by simp

lemma quiet_closes:
  "quiet_env env \<Longrightarrow> mv_Menus (view u) k s = [] \<Longrightarrow> mv_Menus (view (center_CloseAll env slot u)) k s = []"
  "quiet_env env \<Longrightarrow> mv_Menus (view u) k s = [] \<Longrightarrow> mv_Menus (view (pan_CloseAll env slot u)) k s = []"
  by (simp_all add: view_center_CloseAll view_pan_CloseAll quiet_menus del: view_fields)

lemma closes_all:
  "IsValidSlot s \<Longrightarrow> mv_Menus (view (center_CloseAll env s u)) CenterSurface s = []"
  "IsValidSlot s \<Longrightarrow> mv_Menus (view (pan_CloseAll env s u)) PanoramaSurface s = []"
  by (simp_all add: view_center_CloseAll view_pan_CloseAll menus_view del: view_fields)

lemma pan_unshown: "\<not> pan_CanShow env s \<Longrightarrow> pan_OpenSession env la s menu options u = (False, u)"
  by (simp add: pan_OpenSession_def)

lemma CanShow_valid: "pan_CanShow env s \<Longrightarrow> IsValidSlot s"
  by (simp add: pan_CanShow_def)

lemma pan_OpenSession_menus:
  assumes "pan_CanShow env s"
  shows "fst (pan_OpenSession env la s (Some m) options u) \<longleftrightarrow> me_Spawns env s"
    and "mv_Menus (view (snd (pan_OpenSession env la s (Some m) options u))) PanoramaSurface s = (if me_Spawns env s then [Some m] else [])"
    and "quiet_env env \<Longrightarrow> k \<noteq> PanoramaSurface \<or> s' \<noteq> s \<Longrightarrow> mv_Menus (view u) k s' = [] \<Longrightarrow>
      mv_Menus (view (snd (pan_OpenSession env la s (Some m) options u))) k s' = []"
proof -
  obtain r v where rv: "pan_OpenSession env la s (Some m) options u = (r, v)" by fastforce
  have valid: "IsValidSlot s" using assms by (simp add: pan_CanShow_def)
  note parts = pan_OpenSession_view[OF valid assms rv]
  show "fst (pan_OpenSession env la s (Some m) options u) \<longleftrightarrow> me_Spawns env s" using parts rv by auto
  show "mv_Menus (view (snd (pan_OpenSession env la s (Some m) options u))) PanoramaSurface s = (if me_Spawns env s then [Some m] else [])"
    using parts rv by (cases "me_Spawns env s") (auto simp del: view_fields)
  show "mv_Menus (view (snd (pan_OpenSession env la s (Some m) options u))) k s' = []"
    if "quiet_env env" "k \<noteq> PanoramaSurface \<or> s' \<noteq> s" "mv_Menus (view u) k s' = []"
  proof (cases "me_Spawns env s")
    case True
    then show ?thesis using parts(1) rv that quiet_closes(2)[of env u k s' s] by (auto simp del: view_fields)
  next
    case False
    then obtain w where w: "view w = put_menus PanoramaSurface s [Some m] (view (pan_CloseAll env s u))"
      "view v = put_request s False (put_menus PanoramaSurface s [] (view (held_Apply env PanoramaSurface s w)))" using parts(2) by blast
    have "mv_Menus (view w) k s' = []" using w(1) that quiet_closes(2)[of env u k s' s] by (auto simp del: view_fields)
    then show ?thesis using w(2) rv quiet_menus[OF that(1), of w k s'] by (auto simp del: view_fields)
  qed
qed

lemma center_OpenSession_menus:
  assumes "IsValidSlot s"
  shows "mv_Menus (view (snd (center_OpenSession env s (Some m) options u))) CenterSurface s = [Some m]"
    and "quiet_env env \<Longrightarrow> k \<noteq> CenterSurface \<or> s' \<noteq> s \<Longrightarrow> mv_Menus (view u) k s' = [] \<Longrightarrow>
      mv_Menus (view (snd (center_OpenSession env s (Some m) options u))) k s' = []"
  using center_OpenSession_view(2)[OF assms, of env m options u] quiet_closes(1)[of env u k s' s] by (auto simp del: view_fields)

lemma center_invalid: "\<not> IsValidSlot s \<Longrightarrow> center_OpenSession env s menu options u = (False, u)"
  by (simp add: center_OpenSession_def)

type_synonym ('c, 'w) open_request = "('c, 'w) menu_env \<times> PanoramaMenuLayout \<times> 'c Menu \<times> MenuOptions"

definition center_request :: "('c, 'w) open_request \<Rightarrow> int \<Rightarrow> ('c, 'w) ui \<Rightarrow> bool \<times> ('c, 'w) ui" where
  "center_request e slot u = (case e of (env, la, m, options) \<Rightarrow> center_OpenSession env slot (Some m) options u)"

definition pan_request :: "('c, 'w) open_request \<Rightarrow> int \<Rightarrow> ('c, 'w) ui \<Rightarrow> bool \<times> ('c, 'w) ui" where
  "pan_request e slot u = (case e of (env, la, m, options) \<Rightarrow> pan_OpenSession env la slot (Some m) options u)"

interpretation surfaces: two_surfaces pan_IsOpen "\<lambda>e. pan_CloseAll (fst e)" pan_request "\<lambda>e. quiet_env (fst e)"
  center_IsOpen "\<lambda>e. center_CloseAll (fst e)" center_request
proof (unfold_locales, goal_cases)
  case (1 e slot u)
  then show ?case using closes_all(2) by (auto simp: pan_IsOpen_def menus_view simp del: view_fields)
next
  case (2 e slot u)
  then show ?case
    by (cases e, cases "pan_CanShow (fst e) slot")
      (auto simp: pan_IsOpen_def pan_request_def menus_view pan_OpenSession_menus(1,2) pan_unshown CanShow_valid simp del: view_fields)
next
  case (3 e slot u)
  then show ?case
    by (cases e, cases "pan_CanShow (fst e) slot")
      (auto simp: pan_IsOpen_def pan_request_def menus_view pan_OpenSession_menus(1,2) pan_unshown simp del: view_fields)
next
  case (4 e slot u)
  then show ?case using closes_all(1) by (auto simp: center_IsOpen_def menus_view simp del: view_fields)
next
  case (5 e slot u)
  then show ?case
    by (cases e, cases "IsValidSlot slot")
      (auto simp: center_IsOpen_def center_request_def menus_view center_OpenSession_menus(1) center_invalid simp del: view_fields)
next
  case (6 e slot u)
  then show ?case
    by (cases e, cases "IsValidSlot slot")
      (auto simp: center_IsOpen_def center_request_def menus_view center_OpenSession_view(1) center_invalid simp del: view_fields)
next
  case (7 e slot u)
  then show ?case using quiet_closes(1) by (auto simp: pan_IsOpen_def menus_view simp del: view_fields)
next
  case (8 e slot u)
  then show ?case
    by (cases e, cases "pan_CanShow (fst e) slot")
      (auto simp: center_IsOpen_def pan_request_def menus_view pan_OpenSession_menus(3) pan_unshown simp del: view_fields)
next
  case (9 e slot u)
  then show ?case
    by (cases e, cases "IsValidSlot slot")
      (auto simp: pan_IsOpen_def center_request_def menus_view center_OpenSession_menus(2) center_invalid simp del: view_fields)
qed

lemma quiet_prefers: "quiet_env env \<Longrightarrow> mv_Preferred (view (held_Apply env k s u)) = mv_Preferred (view u)"
  by (simp add: Apply_prefers)

lemma close_prefers:
  "quiet_env env \<Longrightarrow> mv_Preferred (view (center_CloseAll env s u)) = mv_Preferred (view u)"
  "quiet_env env \<Longrightarrow> mv_Preferred (view (pan_CloseAll env s u)) = mv_Preferred (view u)"
  by (simp_all add: view_center_CloseAll view_pan_CloseAll quiet_prefers del: view_fields)

lemma center_session:
  assumes "quiet_env env" "IsValidSlot s" "mv_Menus (view u) PanoramaSurface s = []" "center_OpenSession env s (Some m) options u = (r, v)"
  shows "r" "mv_Menus (view v) CenterSurface s = [Some m]" "mv_Menus (view v) PanoramaSurface s = []"
    "mv_Requested (view v) s = mo_FreezeMovement options" "mv_Preferred (view v) = mv_Preferred (view u)"
  using center_OpenSession_view[OF assms(2), of env m options u] quiet_closes(1)[OF assms(1,3), of s] close_prefers(1)[OF assms(1), of s u] assms(4)
  by (simp_all del: view_fields)

lemma pan_session:
  assumes "quiet_env env" "pan_CanShow env s" "mv_Menus (view u) CenterSurface s = []" "pan_OpenSession env la s (Some m) options u = (r, v)"
  shows "r = me_Spawns env s" "mv_Menus (view v) CenterSurface s = []" "mv_Preferred (view v) = mv_Preferred (view u)"
    "mv_Menus (view v) PanoramaSurface s = (if r then [Some m] else [])" "r \<Longrightarrow> mv_Requested (view v) s = mo_FreezeMovement options"
proof -
  note parts = pan_OpenSession_view[OF CanShow_valid[OF assms(2)] assms(2,4)] and menus = pan_OpenSession_menus[OF assms(2), where la = la and m = m and options = options and u = u]
  show r: "r = me_Spawns env s" using menus(1) assms(4) by simp
  show "mv_Menus (view v) CenterSurface s = []" using menus(3)[of CenterSurface s] assms by (simp del: view_fields)
  show "mv_Menus (view v) PanoramaSurface s = (if r then [Some m] else [])" using menus(2) assms(4) r by (simp del: view_fields)
  show "mv_Requested (view v) s = mo_FreezeMovement options" if r using parts(1) r that by (simp del: view_fields)
  show "mv_Preferred (view v) = mv_Preferred (view u)"
    using parts close_prefers(2)[OF assms(1), of s u] quiet_prefers[OF assms(1)] by (cases "me_Spawns env s") (auto simp del: view_fields)
qed

lemma sf_menus: "sf_IsOpen k s u \<longleftrightarrow> IsValidSlot s \<and> mv_Menus (view u) k s \<noteq> []"
  by (simp add: sf_IsOpen_def center_IsOpen_def pan_IsOpen_def menus_view split: Surface.split)

text \<open>The state both sessions are opened in: nothing is open, the preference is what it was.\<close>

lemma both_closed:
  assumes "quiet_env env" and "IsValidSlot s" and "mv_Preferred (view u) = Some PanoramaSurface \<or> mv_Menus (view u) PanoramaSurface s = []"
  defines "u1 \<equiv> (case ui_Preferred u of Some k \<Rightarrow> sf_CloseAll env k s u | None \<Rightarrow> u)"
  defines "u2 \<equiv> sf_CloseAll env CenterSurface s u1"
  shows "mv_Menus (view u2) k s = []" "mv_Preferred (view u2) = mv_Preferred (view u)"
proof -
  have pan: "mv_Menus (view u1) PanoramaSurface s = []"
    using assms(3) closes_all(2)[OF assms(2)] quiet_closes(1)[OF assms(1)]
    by (cases "ui_Preferred u") (auto simp: u1_def sf_CloseAll_def simp del: view_fields(1) split: Surface.split)
  then show "mv_Menus (view u2) k s = []"
    using closes_all(1)[OF assms(2)] quiet_closes(1)[OF assms(1)] by (cases k) (simp_all add: u2_def sf_CloseAll_def del: view_fields)
  have "mv_Preferred (view u1) = mv_Preferred (view u)"
    using close_prefers[OF assms(1)] by (cases "ui_Preferred u") (simp_all add: u1_def sf_CloseAll_def del: view_fields split: Surface.split)
  then show "mv_Preferred (view u2) = mv_Preferred (view u)"
    using close_prefers(1)[OF assms(1)] by (simp add: u2_def sf_CloseAll_def del: view_fields)
qed

lemma one_session_view:
  assumes "quiet_env env" and "IsValidSlot slot" and "mv_Preferred (view u) = Some PanoramaSurface \<or> mv_Menus (view u) PanoramaSurface slot = []"
    and "mr_OpenSession env la slot (Some m) options u = (r, v)"
  defines "k \<equiv> if mv_Preferred (view u) = Some PanoramaSurface \<and> pan_CanShow env slot \<and> me_Spawns env slot then PanoramaSurface else CenterSurface"
  shows "r" "mv_Menus (view v) k' slot = (if k' = k then [Some m] else [])" "mv_Requested (view v) slot = mo_FreezeMovement options"
    "mv_Preferred (view v) = mv_Preferred (view u)"
proof -
  define u2 where "u2 = sf_CloseAll env CenterSurface slot (case ui_Preferred u of Some k \<Rightarrow> sf_CloseAll env k slot u | None \<Rightarrow> u)"
  have closed: "mv_Menus (view u2) k' slot = []" "mv_Preferred (view u2) = mv_Preferred (view u)" for k'
    using both_closed[OF assms(1-3)] by (simp_all add: u2_def)
  have run: "(case (case ui_Preferred u of Some k \<Rightarrow> sf_OpenSession env la k slot (Some m) options u2 | None \<Rightarrow> (False, u2)) of
      (True, u3) \<Rightarrow> (True, u3) | (False, u3) \<Rightarrow> sf_OpenSession env la CenterSurface slot (Some m) options u3) = (r, v)"
  proof -
    have "ui_Preferred u2 = ui_Preferred u" using closed(2) by simp
    moreover have "mr_OpenSession env la slot (Some m) options u =
        (case (case ui_Preferred u2 of Some k \<Rightarrow> sf_OpenSession env la k slot (Some m) options u2 | None \<Rightarrow> (False, u2)) of
          (True, u3) \<Rightarrow> (True, u3) | (False, u3) \<Rightarrow> sf_OpenSession env la CenterSurface slot (Some m) options u3)"
      by (simp only: mr_OpenSession_def Let_def u2_def)
    ultimately show ?thesis using assms(4) by simp
  qed
  obtain r1 u3 where pan: "pan_OpenSession env la slot (Some m) options u2 = (r1, u3)" by fastforce
  have center: "(r, v) = center_OpenSession env slot (Some m) options w \<Longrightarrow> mv_Menus (view w) PanoramaSurface slot = [] \<Longrightarrow>
      mv_Preferred (view w) = mv_Preferred (view u) \<Longrightarrow> k = CenterSurface \<Longrightarrow>
      r \<and> mv_Menus (view v) k' slot = (if k' = k then [Some m] else []) \<and> mv_Requested (view v) slot = mo_FreezeMovement options \<and>
      mv_Preferred (view v) = mv_Preferred (view u)" for w
    using center_session[OF assms(1,2), of w m options r v] by (cases k') (simp_all del: view_fields)
  have all: "r \<and> mv_Menus (view v) k' slot = (if k' = k then [Some m] else []) \<and> mv_Requested (view v) slot = mo_FreezeMovement options \<and>
      mv_Preferred (view v) = mv_Preferred (view u)"
  proof (cases "ui_Preferred u = Some PanoramaSurface")
    case True
    then have run': "(if r1 then (True, u3) else center_OpenSession env slot (Some m) options u3) = (r, v)"
      using run pan by (cases r1) (simp_all add: sf_OpenSession_def)
    show ?thesis
    proof (cases "pan_CanShow env slot")
      case show_it: True
      note session = pan_session[OF assms(1) show_it closed(1) pan]
      show ?thesis
      proof (cases r1)
        case spawned: True
        then show ?thesis using session closed(2) run' True show_it by (cases k') (simp_all add: k_def del: view_fields(1,4))
      next
        case False
        then show ?thesis using center[of u3] session closed(2) run' by (simp add: k_def del: view_fields(1,4))
      qed
    next
      case False
      then show ?thesis using pan_unshown[OF False] pan closed run' center[of u3] by (simp add: k_def del: view_fields(1,4))
    qed
  next
    case False
    then have "(r, v) = center_OpenSession env slot (Some m) options u2"
      using run center_OpenSession_view(1)[OF assms(2), of env m options u2]
      by (cases "ui_Preferred u"; cases "center_OpenSession env slot (Some m) options u2") (auto simp: sf_OpenSession_def split: Surface.splits)
    then show ?thesis using center[of u2] closed False by (simp add: k_def del: view_fields(1,4))
  qed
  then show r "mv_Menus (view v) k' slot = (if k' = k then [Some m] else [])" "mv_Requested (view v) slot = mo_FreezeMovement options"
    "mv_Preferred (view v) = mv_Preferred (view u)" by blast+
qed

section \<open>Consistency\<close>

text \<open>
  Stacks hold no null menu and the breadcrumb names the menus below the top one; the frame work runs while a center
  menu is open; a player asked to be held still has a menu open; nothing undefined was done.
\<close>

definition stacks_ok :: "'c menu_view \<Rightarrow> bool" where
  "stacks_ok v \<longleftrightarrow> \<not> mv_Crashed v \<and> (\<forall>k s. None \<notin> set (mv_Menus v k s) \<and> mv_Crumb v k s = crumbs (mv_Menus v k s)) \<and>
     (\<forall>s. IsValidSlot s \<longrightarrow> mv_Menus v CenterSurface s \<noteq> [] \<longrightarrow> mv_Frame v)"

definition held_still_ok :: "'c menu_view \<Rightarrow> int \<Rightarrow> bool" where
  "held_still_ok v s \<longleftrightarrow> (mv_Requested v s \<longrightarrow> IsValidSlot s \<and> (\<exists>k. mv_Menus v k s \<noteq> []))"

definition menus_ok :: "'c menu_view \<Rightarrow> bool" where
  "menus_ok v \<longleftrightarrow> stacks_ok v \<and> (\<forall>s. held_still_ok v s)"

text \<open>What callbacks may be: any function of the whole state that keeps it consistent; a commit also leaves stacks and tabs as they are.\<close>

definition keeps_ok :: "(('c, 'w) ui \<Rightarrow> ('c, 'w) ui) \<Rightarrow> bool" where
  "keeps_ok f \<longleftrightarrow> (\<forall>u. menus_ok (view u) \<longrightarrow> menus_ok (view (f u)))"

definition settles :: "(('c, 'w) ui \<Rightarrow> ('c, 'w) ui) \<Rightarrow> bool" where
  "settles f \<longleftrightarrow> (\<forall>u. menus_ok (view u) \<longrightarrow> menus_ok (view (f u)) \<and> mv_Menus (view (f u)) = mv_Menus (view u) \<and>
     (\<forall>s. length (se_Tabs (ui_Sessions (f u) s)) = length (se_Tabs (ui_Sessions u s))))"

definition plugin_ok :: "('c, 'w) menu_env \<Rightarrow> bool" where
  "plugin_ok env \<longleftrightarrow> (\<forall>c slot. settles (me_Commit env c slot)) \<and> (\<forall>k slot. settles (me_Committed env k slot)) \<and>
     (\<forall>c slot k. keeps_ok (me_Activate env c slot k)) \<and> (\<forall>c slot dir. keeps_ok (\<lambda>u. snd (me_Step env c slot dir u))) \<and>
     (\<forall>c slot txt. keeps_ok (\<lambda>u. snd (me_Input env c slot txt u)))"

lemma settles_Apply:
  assumes "plugin_ok env"
  shows "settles (held_Apply env k slot)"
proof -
  have put: "settles (put_held k slot e)" for e :: "'a HeldEntry"
    by (simp add: settles_def del: view_fields) (simp add: put_held_def)
  have comp: "settles (f \<circ> g)" if "settles f" "settles g" for f g :: "('a, 'b) ui \<Rightarrow> ('a, 'b) ui"
    using that by (simp add: settles_def)
  have "settles (me_Committed env k slot \<circ> me_Commit env c slot \<circ> put_held k slot no_entry)" for c
    using assms put comp unfolding plugin_ok_def by metis
  then show ?thesis using put[of no_entry]
    by (auto simp: settles_def held_Apply_def Let_def simp del: view_fields split: option.split)
qed

lemma Apply_ok: "plugin_ok env \<Longrightarrow> menus_ok (view u) \<Longrightarrow> menus_ok (view (held_Apply env k s u))"
  and Apply_menus: "plugin_ok env \<Longrightarrow> menus_ok (view u) \<Longrightarrow> mv_Menus (view (held_Apply env k s u)) = mv_Menus (view u)"
  and Apply_tabs: "plugin_ok env \<Longrightarrow> menus_ok (view u) \<Longrightarrow> length (se_Tabs (ui_Sessions (held_Apply env k s u) s')) = length (se_Tabs (ui_Sessions u s'))"
  using settles_Apply[of env k s] unfolding settles_def by blast+

lemma ok_put_menus:
  "menus_ok v \<Longrightarrow> None \<notin> set menus \<Longrightarrow> menus \<noteq> [] \<Longrightarrow> k = CenterSurface \<longrightarrow> mv_Frame v \<Longrightarrow> menus_ok (put_menus k s menus v)"
  by (auto simp: menus_ok_def stacks_ok_def held_still_ok_def dest: in_set_butlastD)

lemma ok_close: "menus_ok v \<Longrightarrow> menus_ok (put_request s False (put_menus k s [] v))"
  by (auto simp: menus_ok_def stacks_ok_def held_still_ok_def)

lemma ok_request: "menus_ok v \<Longrightarrow> IsValidSlot s \<Longrightarrow> mv_Menus v k s \<noteq> [] \<Longrightarrow> menus_ok (put_request s b v)"
  by (auto simp: menus_ok_def stacks_ok_def held_still_ok_def)

lemma ok_center_CloseAll:
  assumes "plugin_ok env" "menus_ok (view u)"
  shows "menus_ok (view (center_CloseAll env s u))"
proof -
  have "menus_ok (view (held_Apply env CenterSurface s (CancelCapture s u)))" using assms by (intro Apply_ok) simp_all
  then show ?thesis using assms(2) by (simp add: view_center_CloseAll ok_close)
qed

lemma ok_pan_CloseAll: "plugin_ok env \<Longrightarrow> menus_ok (view u) \<Longrightarrow> menus_ok (view (pan_CloseAll env s u))"
  by (simp add: view_pan_CloseAll ok_close Apply_ok)

lemma ok_center_OpenSession:
  assumes "plugin_ok env" "menus_ok (view u)"
  shows "menus_ok (view (snd (center_OpenSession env s menu options u)))"
proof (cases "IsValidSlot s \<and> menu \<noteq> None")
  case True
  then obtain m where m: "menu = Some m" "IsValidSlot s" by auto
  have c: "menus_ok (view (center_CloseAll env s u))" by (rule ok_center_CloseAll[OF assms])
  have "menus_ok ((put_menus CenterSurface s [Some m] (put_request s b v))\<lparr>mv_Frame := True\<rparr>)" if "menus_ok v" for b and v :: "'a menu_view"
    using that m(2) by (auto simp: menus_ok_def stacks_ok_def held_still_ok_def)
  then show ?thesis using center_OpenSession_view(2)[OF m(2), of env m options u] c m(1) by simp
next
  case False
  then show ?thesis using assms(2) by (auto simp: center_OpenSession_def)
qed

lemma ok_pan_OpenSession:
  assumes "plugin_ok env" "menus_ok (view u)"
  shows "menus_ok (view (snd (pan_OpenSession env la s menu options u)))"
proof (cases "pan_CanShow env s \<and> menu \<noteq> None")
  case True
  then obtain m where m: "menu = Some m" and s: "pan_CanShow env s" "IsValidSlot s" by (auto simp: CanShow_valid)
  have c: "menus_ok (view (pan_CloseAll env s u))" by (rule ok_pan_CloseAll[OF assms])
  then have p: "menus_ok (put_menus PanoramaSurface s [Some m] (view (pan_CloseAll env s u)))" by (simp add: ok_put_menus)
  obtain r v where rv: "pan_OpenSession env la s (Some m) options u = (r, v)" by fastforce
  show ?thesis
  proof (cases "me_Spawns env s")
    case True
    then have "view v = put_request s (mo_FreezeMovement options) (put_menus PanoramaSurface s [Some m] (view (pan_CloseAll env s u)))"
      using pan_OpenSession_view(1)[OF s(2,1) rv] by blast
    moreover have "menus_ok \<dots>" using ok_request[OF p s(2), of PanoramaSurface] by simp
    ultimately show ?thesis using rv m by simp
  next
    case False
    then obtain w where w: "view w = put_menus PanoramaSurface s [Some m] (view (pan_CloseAll env s u))"
      "view v = put_request s False (put_menus PanoramaSurface s [] (view (held_Apply env PanoramaSurface s w)))"
      using pan_OpenSession_view(2)[OF s(2,1) rv] by blast
    then have "menus_ok (view v)" using p Apply_ok[OF assms(1), of w] by (simp add: ok_close)
    then show ?thesis using rv m by simp
  qed
next
  case False
  then show ?thesis using assms(2) by (auto simp: pan_OpenSession_def)
qed

lemma has_root:
  assumes "menus_ok (view u)" and "has_menu k s u"
  shows "stack_Root k s u \<noteq> None"
proof -
  have "None \<notin> set (mv_Menus (view u) k s)" using assms(1) by (simp add: menus_ok_def stacks_ok_def del: view_fields)
  moreover have "hd (mv_Menus (view u) k s) \<in> set (mv_Menus (view u) k s)" using assms(2) by (simp add: menus_view del: view_fields)
  ultimately have "hd (mv_Menus (view u) k s) \<noteq> None" by metis
  then show ?thesis using assms(2) by (simp add: Root_view)
qed

lemma ok_pan_Draw:
  assumes "plugin_ok env" "menus_ok (view u)"
  shows "menus_ok (view (pan_Draw env la s u))"
proof -
  have "stack_Root PanoramaSurface s u \<noteq> None" if "stack_Current PanoramaSurface s u \<noteq> None"
    using that has_root[OF assms(2), of PanoramaSurface s] by (auto simp: Root_view split: if_split_asm)
  then show ?thesis using assms by (cases "stack_Current PanoramaSurface s u") (auto simp: view_pan_Draw ok_pan_CloseAll)
qed

text \<open>Popping a menu keeps the stacks, and the stack holds one menu less.\<close>

lemma ok_Pop:
  assumes "plugin_ok env" "menus_ok (view u)" "has_menu k s u"
  obtains v where "menus_ok v" "view (stack_Pop env k s u) = put_menus k s (butlast (mv_Menus v k s)) v" "mv_Menus v k s = mv_Menus (view u) k s"
    "has_menu k s (stack_Pop env k s u) \<longleftrightarrow> butlast (mv_Menus v k s) \<noteq> []"
proof
  let ?v = "view (held_Apply env k s u)"
  have m: "mv_Menus ?v k s = mv_Menus (view u) k s" "mv_Menus (view u) k s \<noteq> []" "IsValidSlot s"
    using Apply_menus[OF assms(1,2)] assms(3) by (simp_all add: menus_view del: view_fields)
  show "menus_ok ?v" using Apply_ok assms by blast
  show pop: "view (stack_Pop env k s u) = put_menus k s (butlast (mv_Menus ?v k s)) ?v"
    using m by (simp add: view_Pop Let_def)
  show "mv_Menus ?v k s = mv_Menus (view u) k s" by (rule m(1))
  show "has_menu k s (stack_Pop env k s u) \<longleftrightarrow> butlast (mv_Menus ?v k s) \<noteq> []" using m(3) unfolding menus_view pop by simp
qed

lemma ok_popped:
  assumes "menus_ok v" "butlast (mv_Menus v k s) \<noteq> []" "IsValidSlot s"
  shows "menus_ok (put_menus k s (butlast (mv_Menus v k s)) v)"
proof (rule ok_put_menus)
  show "None \<notin> set (butlast (mv_Menus v k s))" using assms(1) by (auto simp: menus_ok_def stacks_ok_def dest: in_set_butlastD)
  show "k = CenterSurface \<longrightarrow> mv_Frame v" using assms by (auto simp: menus_ok_def stacks_ok_def)
qed (use assms in auto)

lemma ok_center_Close:
  assumes "plugin_ok env" "menus_ok (view u)"
  shows "menus_ok (view (center_Close env s u))"
proof (cases "has_menu CenterSurface s u")
  case True
  let ?u1 = "CancelCapture s u"
  have u1: "menus_ok (view ?u1)" "has_menu CenterSurface s ?u1" "IsValidSlot s" using assms True by (simp_all add: menus_view)
  from ok_Pop[OF assms(1) u1(1,2)] obtain v where v: "menus_ok v"
    "view (stack_Pop env CenterSurface s ?u1) = put_menus CenterSurface s (butlast (mv_Menus v CenterSurface s)) v"
    "has_menu CenterSurface s (stack_Pop env CenterSurface s ?u1) \<longleftrightarrow> butlast (mv_Menus v CenterSurface s) \<noteq> []" by blast
  show ?thesis using v u1(2,3) ok_popped[OF v(1) _ u1(3), of CenterSurface] ok_close[OF v(1)]
    by (simp add: center_Close_def center_IsOpen_def Let_def center_ResetCursor_def center_ended_def view_freeze_Close)
next
  case False
  then have "\<not> has_menu CenterSurface s (CancelCapture s u)" using has_menu_same[of "CancelCapture s u" u] by simp
  then show ?thesis using assms(2) by (simp add: center_Close_def center_IsOpen_def Let_def)
qed

lemma ok_pan_Close:
  assumes "plugin_ok env" "menus_ok (view u)"
  shows "menus_ok (view (pan_Close env la s u))"
proof (cases "has_menu PanoramaSurface s u")
  case True
  let ?u1 = "CancelCapture s u"
  have u1: "menus_ok (view ?u1)" "has_menu PanoramaSurface s ?u1" "IsValidSlot s" using assms True by (simp_all add: menus_view)
  from ok_Pop[OF assms(1) u1(1,2)] obtain v where v: "menus_ok v"
    "view (stack_Pop env PanoramaSurface s ?u1) = put_menus PanoramaSurface s (butlast (mv_Menus v PanoramaSurface s)) v"
    "has_menu PanoramaSurface s (stack_Pop env PanoramaSurface s ?u1) \<longleftrightarrow> butlast (mv_Menus v PanoramaSurface s) \<noteq> []" by blast
  show ?thesis
  proof (cases "butlast (mv_Menus v PanoramaSurface s) = []")
    case True
    then show ?thesis using v u1(3) \<open>has_menu PanoramaSurface s u\<close> ok_close[OF v(1)]
      by (simp add: pan_Close_def pan_IsOpen_def pan_Hide_def Let_def view_freeze_Close)
  next
    case False
    then have "menus_ok (view (stack_Pop env PanoramaSurface s ?u1))" using ok_popped[OF v(1) _ u1(3)] v(2) by simp
    then show ?thesis using v(3) False \<open>has_menu PanoramaSurface s u\<close> by (simp add: pan_Close_def pan_IsOpen_def Let_def ok_pan_Draw assms(1))
  qed
qed (use assms in \<open>simp add: pan_Close_def pan_IsOpen_def\<close>)

lemma ok_Activate:
  assumes "plugin_ok env" "menus_ok (view u)"
  shows "menus_ok (view (stack_Activate env k s i u))"
proof -
  have "menus_ok (view (if held_IsPending k u s i then held_Drop k s u else held_Apply env k s u))"
    using assms by (auto simp: held_Drop_def Apply_ok)
  then show ?thesis using assms unfolding stack_Activate_def Let_def plugin_ok_def keeps_ok_def by (auto split: option.split)
qed

lemma ok_Hold: "plugin_ok env \<Longrightarrow> menus_ok (view u) \<Longrightarrow> menus_ok (view (held_Hold env k s i c u))"
  by (simp add: held_Hold_def Let_def Apply_ok)

lemma ok_Step:
  assumes "plugin_ok env" "menus_ok (view u)"
  shows "menus_ok (view (snd (stack_Step env k s i dir u)))"
proof -
  have step: "menus_ok (view u1)" if "me_Step env c s dir u = (r, u1)" for c r u1
    using assms that unfolding plugin_ok_def keeps_ok_def by (metis snd_conv)
  show ?thesis using assms by (auto simp: stack_Step_def step ok_Hold split: option.split prod.split bool.split)
qed

lemma ok_PopToRoot:
  assumes "plugin_ok env" "menus_ok (view u)"
  shows "menus_ok (view (stack_PopToRoot env k s u))"
proof (cases "has_menu k s u")
  case True
  let ?v = "view (held_Apply env k s u)"
  have v: "menus_ok ?v" "mv_Menus ?v k s = mv_Menus (view u) k s" "mv_Menus (view u) k s \<noteq> []" "IsValidSlot s"
    using Apply_ok[OF assms] Apply_menus[OF assms] True by (simp_all add: menus_view del: view_fields)
  then obtain root rest where root: "mv_Menus ?v k s = root # rest" by (metis list.exhaust)
  then have r: "menus_ok (put_menus k s [root] ?v)"
    using v(1,4) by (intro ok_put_menus) (auto simp: menus_ok_def stacks_ok_def simp del: view_fields, (metis list.set_intros(1))+)
  show ?thesis using v root r by (simp add: view_PopToRoot Let_def)
next
  case False
  then show ?thesis using assms(2) by (simp add: stack_PopToRoot_def menus_view)
qed

lemma ok_center_Push:
  assumes "menus_ok (view u)"
  shows "menus_ok (view (center_Push env s menu u))"
proof (cases "IsValidSlot s \<and> menu \<noteq> None")
  case True
  then obtain m where m: "menu = Some m" "IsValidSlot s" by auto
  have "menus_ok ((view u)\<lparr>mv_Frame := True\<rparr>)" using assms by (auto simp: menus_ok_def stacks_ok_def held_still_ok_def)
  moreover have "None \<notin> set (mv_Menus (view u) CenterSurface s @ [Some m])" using assms by (auto simp: menus_ok_def stacks_ok_def)
  ultimately have "menus_ok (put_menus CenterSurface s (mv_Menus (view u) CenterSurface s @ [Some m]) ((view u)\<lparr>mv_Frame := True\<rparr>))"
    by (intro ok_put_menus) simp_all
  moreover have "put_menus k s menus ((v :: 'a menu_view)\<lparr>mv_Frame := b\<rparr>) = (put_menus k s menus v)\<lparr>mv_Frame := b\<rparr>" for k menus v b
    by (cases v) (simp add: put_menus_def)
  ultimately show ?thesis using m by (simp add: view_center_Push)
next
  case False
  then have "view (center_Push env s menu u) = (view u)\<lparr>mv_Frame := True\<rparr>"
    by (auto simp: center_Push_def center_ResetCursor_def view_Push)
  then show ?thesis using assms by (auto simp: menus_ok_def stacks_ok_def held_still_ok_def)
qed

lemma ok_Push_panorama:
  assumes "menus_ok (view u)"
  shows "menus_ok (view (stack_Push PanoramaSurface s menu u))"
proof -
  have "None \<notin> set (mv_Menus (view u) PanoramaSurface s @ [Some m])" for m using assms by (auto simp: menus_ok_def stacks_ok_def)
  then show ?thesis using assms ok_put_menus[OF assms, of "mv_Menus (view u) PanoramaSurface s @ [menu]" PanoramaSurface s]
    by (auto simp: view_Push)
qed

lemma ok_center_Open: "plugin_ok env \<Longrightarrow> menus_ok (view u) \<Longrightarrow> menus_ok (view (center_Open env s menu u))"
  by (simp add: center_Open_def ok_center_OpenSession ok_center_Push)

lemma ok_pan_Open: "plugin_ok env \<Longrightarrow> menus_ok (view u) \<Longrightarrow> menus_ok (view (pan_Open env la s menu u))"
  by (simp add: pan_Open_def ok_pan_OpenSession ok_pan_Draw ok_Push_panorama)

lemma ok_surface:
  assumes "plugin_ok env" "menus_ok (view u)"
  shows "menus_ok (view (snd (sf_OpenSession env la k s menu options u)))" "menus_ok (view (sf_Open env la k s menu u))"
    "menus_ok (view (sf_Close env la k s u))" "menus_ok (view (sf_CloseAll env k s u))"
    "menus_ok (view (sf_CloseAllReply env k s key u))" "menus_ok (view (sf_Prompt env la k s prompt callback u))"
proof -
  have reply: "menus_ok (view (if me_HasReply env then emit out u else u))" for out using assms(2) by simp
  show "menus_ok (view (sf_CloseAllReply env k s key u))" using assms reply
    by (cases k) (simp_all add: sf_CloseAllReply_def center_CloseAllReply_def pan_CloseAllReply_def ok_center_CloseAll ok_pan_CloseAll)
  show "menus_ok (view (snd (sf_OpenSession env la k s menu options u)))" "menus_ok (view (sf_Open env la k s menu u))"
    "menus_ok (view (sf_Close env la k s u))" "menus_ok (view (sf_CloseAll env k s u))"
    using assms by (cases k; simp add: sf_OpenSession_def sf_Open_def sf_Close_def sf_CloseAll_def ok_center_OpenSession ok_pan_OpenSession
        ok_center_Open ok_pan_Open ok_center_Close ok_pan_Close ok_center_CloseAll ok_pan_CloseAll)+
  show "menus_ok (view (sf_Prompt env la k s prompt callback u))"
    using assms by (cases k) (simp_all add: sf_Prompt_def center_Prompt_def pan_Prompt_def)
qed

lemma ok_mr_OpenSession:
  assumes "plugin_ok env" "menus_ok (view u)"
  shows "menus_ok (view (snd (mr_OpenSession env la s menu options u)))"
proof -
  define u1 where "u1 = (case ui_Preferred u of Some k \<Rightarrow> sf_CloseAll env k s u | None \<Rightarrow> u)"
  define u2 where "u2 = sf_CloseAll env CenterSurface s u1"
  have "menus_ok (view u1)" using assms by (simp add: u1_def ok_surface split: option.split)
  then have u2: "menus_ok (view u2)" by (simp add: u2_def ok_surface assms(1))
  obtain r u3 where r: "(case ui_Preferred u2 of Some k \<Rightarrow> sf_OpenSession env la k s menu options u2 | None \<Rightarrow> (False, u2)) = (r, u3)" by fastforce
  have u3: "menus_ok (view u3)"
    using r u2 ok_surface(1)[OF assms(1) u2, of la _ s menu options] by (cases "ui_Preferred u2") (auto, metis snd_conv)
  have "mr_OpenSession env la s menu options u = (case (r, u3) of (True, u3) \<Rightarrow> (True, u3)
      | (False, u3) \<Rightarrow> sf_OpenSession env la CenterSurface s menu options u3)"
    unfolding r[symmetric] by (simp only: mr_OpenSession_def Let_def u1_def u2_def)
  then show ?thesis using u3 ok_surface(1)[OF assms(1) u3] by (cases r) simp_all
qed

lemma ok_prefer [simp]: "menus_ok (v\<lparr>mv_Preferred := k\<rparr>) = menus_ok v"
  by (simp add: menus_ok_def stacks_ok_def held_still_ok_def)

lemma view_prefer: "view (u\<lparr>ui_Preferred := k\<rparr>) = (view u)\<lparr>mv_Preferred := k\<rparr>"
  by (simp add: view_def)

lemma ok_router:
  assumes "plugin_ok env" "menus_ok (view u)"
  shows "menus_ok (view (mr_Open env la s menu u))" "menus_ok (view (mr_Close env la s u))" "menus_ok (view (mr_CloseAll env s u))"
    "menus_ok (view (mr_CloseAllReply env s key u))" "menus_ok (view (mr_Prompt env la s prompt callback u))"
    "menus_ok (view (mr_Prefer k u))" "menus_ok (view (mr_drop_preference k u))"
  using assms by (simp_all add: mr_Open_def mr_Close_def mr_CloseAll_def mr_CloseAllReply_def mr_Prompt_def mr_Prefer_def mr_drop_preference_def
      ok_surface ok_mr_OpenSession view_prefer)

section \<open>Keys and presses\<close>

lemma ok_center_Select: "plugin_ok env \<Longrightarrow> menus_ok (view u) \<Longrightarrow> menus_ok (view (center_Select env s i u))"
  by (simp add: center_Select_def stack_ApplyPending_def Apply_ok split: option.split)

lemma ok_center_JumpPage: "plugin_ok env \<Longrightarrow> menus_ok (view u) \<Longrightarrow> menus_ok (view (center_JumpPage env s d u))"
  by (simp add: center_JumpPage_def ok_center_Select split: option.split)

lemma ok_center_RunKey:
  assumes "plugin_ok env" "menus_ok (view u)"
  shows "menus_ok (view (snd (center_RunKey env ky s pressed u)))"
proof -
  have step: "menus_ok (view u1)" if "stack_Step env k s i dir u = (r, u1)" for k i dir r u1
    using ok_Step[OF assms, of k s i dir] that by simp
  show ?thesis using assms
    by (auto simp: center_RunKey_def Let_def center_MoveCursor_def step ok_center_Close ok_center_Select ok_center_JumpPage ok_Activate
        split: prod.split bool.split)
qed

lemma ok_center_ReadKeys:
  assumes "plugin_ok env" "menus_ok (view u)"
  shows "menus_ok (view (snd (center_ReadKeys env ky buttons s u)))"
proof -
  have run: "menus_ok (view u2)" if "center_RunKey env ky s pressed (upd_cursor s f u) = (r, u2)" for pressed f r u2
    using ok_center_RunKey[OF assms(1), of "upd_cursor s f u" ky s pressed] that assms(2) by simp
  show ?thesis using assms(2) by (auto simp: center_ReadKeys_def Let_def run split: prod.split bool.split)
qed

lemma view_RenderItems: "(\<And>i st. view (snd (f i st)) = view st) \<Longrightarrow> view (snd (snd (RenderItems f sel is row st))) = view st"
proof (induction f sel "is" row st rule: RenderItems.induct)
  case (2 f sel i "is" row st)
  obtain d st1 where d: "f i st = (d, st1)" by fastforce
  obtain rest row' st2 where r: "RenderItems f sel is (if i = sel then d else row) st1 = (rest, row', st2)" by (metis prod_cases3)
  have "view st1 = view st" using 2(2)[of i st] d by simp
  moreover have "view (snd (snd (RenderItems f sel is (if i = sel then d else row) st1))) = view st1" using 2 d by metis
  ultimately show ?case using d r by simp
qed simp

lemma view_RenderMenuHtml:
  assumes "\<And>i st. view (snd (f i st)) = view st"
  shows "view (snd (RenderMenuHtml menu (v\<lparr>vw_Describe := Some f\<rparr>) label st)) = view st"
proof (cases menu)
  case (Some m)
  have rows: "view st2 = view st" if "RenderItems f sel is row st = (rest, row', st2)" for sel "is" row rest row' st2
    using view_RenderItems[of f sel "is" row st, OF assms] that by simp
  show ?thesis using Some by (simp add: RenderMenuHtml_def Let_def rows split: prod.split)
qed (simp add: RenderMenuHtml_def)

lemma view_center_Render: "view (snd (center_Render env s m u)) = view u"
proof -
  have "view (snd (RenderMenuHtml (Some m) (v\<lparr>vw_Describe := Some (\<lambda>i. stack_Describe env CenterSurface s i)\<rparr>) label u)) = view u" for v label
    by (rule view_RenderMenuHtml) simp
  from this[of "\<lparr>vw_Describe = None, vw_Breadcrumb = stack_Breadcrumb CenterSurface s u, vw_Slot = s,
      vw_SelectedIndex = cr_Selected (ui_Cursors u s), vw_IsSubmenu = (1 < stack_Depth CenterSurface s u)\<rparr>"]
  show ?thesis by (simp add: center_Render_def split: option.split)
qed

lemma view_center_Draw [simp]: "view (center_Draw env s changed u) = view u"
proof (cases "center_menu s u")
  case (Some m)
  obtain html u' where r: "center_Render env s m u = (html, u')" by fastforce
  then have "view u' = view u" using view_center_Render[of env s m u] by simp
  then show ?thesis using Some r by (simp add: center_Draw_def upd_page_def Let_def)
qed (simp add: center_Draw_def)

lemma ok_center_slot_frame:
  assumes "plugin_ok env" "menus_ok (view u)"
  shows "menus_ok (view (center_slot_frame env ky buttons s u))"
  using assms ok_center_ReadKeys[OF assms, of ky "buttons s" s]
  by (auto simp: center_slot_frame_def split: prod.split)

lemma ok_fold: "(\<And>x u. menus_ok (view u) \<Longrightarrow> menus_ok (view (f x u))) \<Longrightarrow> menus_ok (view u) \<Longrightarrow> menus_ok (view (fold f xs u))"
  by (induction xs arbitrary: u) simp_all

lemma ok_center_OnGameFrame:
  assumes "plugin_ok env" "menus_ok (view u)"
  shows "menus_ok (view (center_OnGameFrame env ky buttons u))"
proof -
  define u1 where "u1 = fold (center_slot_frame env ky buttons) all_slots u"
  have u1: "menus_ok (view u1)" unfolding u1_def using assms by (intro ok_fold ok_center_slot_frame)
  have "menus_ok ((view u1)\<lparr>mv_Frame := False\<rparr>)" if "\<not> stack_AnyOpen CenterSurface u1"
  proof -
    have "mv_Menus (view u1) CenterSurface s = []" if "IsValidSlot s" for s
      using \<open>\<not> stack_AnyOpen CenterSurface u1\<close> that by (auto simp: stack_AnyOpen_def list_ex_iff)
    then show ?thesis using u1 by (auto simp: menus_ok_def stacks_ok_def held_still_ok_def)
  qed
  then show ?thesis using u1 by (simp add: center_OnGameFrame_def Let_def u1_def[symmetric])
qed

lemma ok_pan_Activate: "plugin_ok env \<Longrightarrow> menus_ok (view u) \<Longrightarrow> menus_ok (view (pan_Activate env la s i u))"
  by (simp add: pan_Activate_def Let_def ok_pan_Draw ok_Activate)

lemma ok_pan_StepRow:
  assumes "plugin_ok env" "menus_ok (view u)"
  shows "menus_ok (view (pan_StepRow env la s row dir u))"
  using ok_Step[OF assms, of PanoramaSurface s "pan_ItemAt la s row u" dir] ok_pan_Draw[OF assms(1)]
  by (auto simp: pan_StepRow_def split: prod.split bool.split)

lemma PopToRoot_sessions: "ui_Sessions (stack_PopToRoot env k s u) =
    (if \<not> IsValidSlot s \<or> ss_Menus (ui_States u k s) = [] then ui_Sessions u else ui_Sessions (held_Apply env k s u))"
  by (simp add: stack_PopToRoot_def stack_Rebuild_def Let_def upd_state_def crash_def)

lemma ok_pan_OpenTab:
  assumes "plugin_ok env" "menus_ok (view u)"
  shows "menus_ok (view (pan_OpenTab env la s tab u))"
proof -
  have same: "length (se_Tabs (ui_Sessions (stack_PopToRoot env PanoramaSurface s u) s)) = length (se_Tabs (ui_Sessions u s))"
    using Apply_tabs[OF assms] by (simp add: PopToRoot_sessions)
  have "menus_ok (view (stack_PopToRoot env PanoramaSurface s u))" by (rule ok_PopToRoot[OF assms])
  then show ?thesis using assms same by (simp add: pan_OpenTab_def Let_def ok_pan_Activate) (simp add: upd_session_def)
qed

lemma ok_pan_TurnPage:
  assumes "plugin_ok env" "menus_ok (view u)"
  shows "menus_ok (view (pan_TurnPage env la s d u))"
proof (cases "pan_menu s u")
  case (Some m)
  then have "Some m \<in> set (mv_Menus (view u) PanoramaSurface s)" using last_in_set by (fastforce simp: Root_view menus_view split: if_split_asm)
  moreover have "mv_Menus (view (held_Apply env PanoramaSurface s u)) = mv_Menus (view u)" by (rule Apply_menus[OF assms])
  ultimately have "Some m \<in> set (ss_Menus (ui_States (held_Apply env PanoramaSurface s u) PanoramaSurface s))" by (metis view_fields(1))
  then show ?thesis using Some assms by (simp add: pan_TurnPage_def Let_def stack_ApplyPending_def ok_pan_Draw Apply_ok)
qed (use assms in \<open>simp add: pan_TurnPage_def\<close>)

lemma ok_pan_OnPress: "plugin_ok env \<Longrightarrow> menus_ok (view u) \<Longrightarrow> menus_ok (view (pan_OnPress env la s ident u))"
  by (auto simp: pan_OnPress_def ok_pan_Draw ok_pan_Close ok_pan_CloseAll ok_pan_TurnPage ok_pan_OpenTab ok_pan_Activate ok_pan_StepRow
      split: option.split MenuButtonKind.split)

lemma ok_TryConsume:
  assumes "plugin_ok env" "menus_ok (view u)"
  shows "menus_ok (view (snd (TryConsume env s txt u)))"
proof -
  have "menus_ok (view u1)" if "me_Input env c s txt (put_chat s None u) = (r, u1)" for c r u1
  proof -
    have "keeps_ok (\<lambda>u. snd (me_Input env c s txt u))" using assms(1) by (simp add: plugin_ok_def)
    then show ?thesis using that assms(2) unfolding keeps_ok_def by (metis snd_conv view_services(9))
  qed
  then show ?thesis using assms(2) by (auto simp: TryConsume_def split: option.split prod.split)
qed

text \<open>The slot changes hands: every store of the menus hears of it.\<close>

definition menus_slot_changed :: "int \<Rightarrow> ('c, 'w) ui \<Rightarrow> ('c, 'w) ui" where
  "menus_slot_changed slot u =
     pan_slot_changed slot (center_slot_changed slot (stack_slot_changed slot (freeze_slot_changed slot (CancelCapture slot u))))"

lemma ok_slot_changed:
  assumes "menus_ok (view u)"
  shows "menus_ok (view (menus_slot_changed slot u))"
proof (cases "IsValidSlot slot")
  case True
  have "view (menus_slot_changed slot u) = put_request slot False (put_menus CenterSurface slot [] (put_menus PanoramaSurface slot [] (view u)))"
  proof (rule menu_view.equality)
    show "mv_Menus (view (menus_slot_changed slot u)) = mv_Menus (put_request slot False (put_menus CenterSurface slot [] (put_menus PanoramaSurface slot [] (view u))))"
      using True by (auto simp: fun_eq_iff menus_slot_changed_def pan_slot_changed_def center_slot_changed_def stack_slot_changed_def freeze_slot_changed_def
          PerSlot_Reset_def CancelCapture_def put_chat_def new_stack_def) (metis Surface.exhaust)
    show "mv_Crumb (view (menus_slot_changed slot u)) = mv_Crumb (put_request slot False (put_menus CenterSurface slot [] (put_menus PanoramaSurface slot [] (view u))))"
      using True by (auto simp: fun_eq_iff menus_slot_changed_def pan_slot_changed_def center_slot_changed_def stack_slot_changed_def freeze_slot_changed_def
          PerSlot_Reset_def CancelCapture_def put_chat_def new_stack_def) (metis Surface.exhaust)
  qed (use True in \<open>auto simp: fun_eq_iff menus_slot_changed_def pan_slot_changed_def center_slot_changed_def stack_slot_changed_def freeze_slot_changed_def
      PerSlot_Reset_def CancelCapture_def put_chat_def\<close>)
  moreover have "menus_ok (put_request slot False (put_menus CenterSurface slot [] (put_menus PanoramaSurface slot [] v)))" if "menus_ok v" for v :: "'a menu_view"
    using that by (auto simp: menus_ok_def stacks_ok_def held_still_ok_def)
  ultimately show ?thesis using assms by simp
next
  case False
  then have "menus_slot_changed slot u = u"
    by (simp add: menus_slot_changed_def pan_slot_changed_def center_slot_changed_def stack_slot_changed_def freeze_slot_changed_def PerSlot_Reset_def CancelCapture_def)
  then show ?thesis using assms by simp
qed

text \<open>The states the menus of a plugin can reach: each step is one entry point, in whatever environment holds then.\<close>

inductive menu_run :: "('c, 'w) ui \<Rightarrow> bool" where
  start: "menu_run (new_ui w)"
| opens: "menu_run u \<Longrightarrow> plugin_ok env \<Longrightarrow> menu_run (snd (mr_OpenSession env la slot menu options u))"
| pushes: "menu_run u \<Longrightarrow> plugin_ok env \<Longrightarrow> menu_run (mr_Open env la slot menu u)"
| steps_back: "menu_run u \<Longrightarrow> plugin_ok env \<Longrightarrow> menu_run (mr_Close env la slot u)"
| closes: "menu_run u \<Longrightarrow> plugin_ok env \<Longrightarrow> menu_run (mr_CloseAll env slot u)"
| closes_with: "menu_run u \<Longrightarrow> plugin_ok env \<Longrightarrow> menu_run (mr_CloseAllReply env slot key u)"
| prompts: "menu_run u \<Longrightarrow> plugin_ok env \<Longrightarrow> menu_run (mr_Prompt env la slot prompt callback u)"
| prefers: "menu_run u \<Longrightarrow> menu_run (mr_Prefer k u)"
| drops: "menu_run u \<Longrightarrow> menu_run (mr_drop_preference k u)"
| key_frame: "menu_run u \<Longrightarrow> plugin_ok env \<Longrightarrow> menu_run (center_OnGameFrame env ky buttons u)"
| press: "menu_run u \<Longrightarrow> plugin_ok env \<Longrightarrow> menu_run (pan_OnPress env la slot ident u)"
| held_due: "menu_run u \<Longrightarrow> plugin_ok env \<Longrightarrow> menu_run (held_timer env k slot u)"
| chat_due: "menu_run u \<Longrightarrow> menu_run (chat_timer env slot u)"
| chat: "menu_run u \<Longrightarrow> plugin_ok env \<Longrightarrow> menu_run (snd (TryConsume env slot txt u))"
| freezing: "menu_run u \<Longrightarrow> menu_run (freeze_Enable b u)"
| freezes: "menu_run u \<Longrightarrow> menu_run (freeze_frame u)"
| leaves: "menu_run u \<Longrightarrow> menu_run (menus_slot_changed slot u)"
| engine: "menu_run u \<Longrightarrow> menu_run (u\<lparr>ui_Pawns := pawns, ui_World := w\<rparr>)"

lemma menu_run_ok: "menu_run u \<Longrightarrow> menus_ok (view u)"
proof (induction rule: menu_run.induct)
  case (start w)
  then show ?case by (auto simp: menus_ok_def stacks_ok_def held_still_ok_def new_ui_def new_stack_def)
next
  case (held_due u env k slot)
  then show ?case by (simp add: held_timer_def Apply_ok split: option.split)
next
  case (chat_due u env slot)
  then show ?case by (simp add: chat_timer_def split: option.split)
next
  case (engine u pawns w)
  then show ?case by (simp add: view_def)
qed (simp_all add: ok_mr_OpenSession ok_router ok_center_OnGameFrame ok_pan_OnPress ok_TryConsume ok_slot_changed mr_Prefer_def mr_drop_preference_def view_prefer)

section \<open>Properties\<close>


definition example_plain :: "(nat, unit) menu_env" where
  "example_plain = \<lparr>me_Describe = (\<lambda>_ _ _. new_row), me_Activate = (\<lambda>_ _ _ u. u), me_Step = (\<lambda>_ _ _ u. (True, u)), me_Commit = (\<lambda>_ _ u. u),
     me_Committed = (\<lambda>_ _ u. u), me_Input = (\<lambda>_ _ _ u. (True, u)), me_Now = 1000, me_Translations = tr_init, me_Languages = (\<lambda>_. []),
     me_HasReply = False, me_Available = True, me_Ready = (\<lambda>slot. slot = 5), me_Spawns = (\<lambda>_. True), me_HasScreen = (\<lambda>_. True)\<rparr>"

definition example_page :: "nat \<Rightarrow> string \<Rightarrow> nat Menu" where
  "example_page i title = \<lparr>mn_Id = i, mn_Title = title, mn_Subtitle = [],
     mn_Items = [\<lparr>mi_Describe = Some 0, mi_Activate = Some 0, mi_Step = Some 0, mi_Commit = Some 0\<rparr>]\<rparr>"

lemma example_quiet: "quiet_env example_plain"
  by (simp add: quiet_env_def opens_nothing_def example_plain_def)

lemma example_plain_ok: "plugin_ok example_plain"
  by (simp add: plugin_ok_def settles_def keeps_ok_def example_plain_def)



text \<open>A plugin whose rows open a submenu, and a commit that closes its own menu.\<close>

definition example_tree :: "(nat, unit) menu_env" where
  "example_tree = example_plain\<lparr>me_Activate := (\<lambda>_ slot _ u. center_Open example_plain slot (Some (example_page 2 ''Maps'')) u)\<rparr>"

definition example_closing :: "(nat, unit) menu_env" where
  "example_closing = example_plain\<lparr>me_Commit := (\<lambda>_ slot u. center_CloseAll example_plain slot u)\<rparr>"

lemma example_tree_ok: "plugin_ok example_tree"
  using example_plain_ok ok_center_Open[OF example_plain_ok] by (simp add: plugin_ok_def keeps_ok_def example_tree_def)

lemma mr_Open_center:
  "ui_Preferred u = None \<Longrightarrow> IsValidSlot slot \<Longrightarrow> ss_Menus (ui_States u CenterSurface slot) \<noteq> [] \<Longrightarrow>
    mr_Open env la slot (Some m) u = center_Push env slot (Some m) u"
  by (simp add: mr_Open_def mr_IsOpen_def sf_IsOpen_def center_IsOpen_def menus_view mr_SessionOf_def sf_Open_def center_Open_def)



lemma example_closing_fields [simp]:
  "me_Commit example_closing c slot u = center_CloseAll example_plain slot u" "me_Committed example_closing k slot u = u"
  "me_Step example_closing c slot dir u = (True, u)" "me_Describe example_closing c slot u = new_row" "me_Now example_closing = 1000"
  by (simp_all add: example_closing_def example_plain_def)

definition example_pushed :: "(nat, unit) ui" where
  "example_pushed = stack_Push CenterSurface 3 (Some (example_page 1 ''Main'')) (new_ui ())"


end
