(* ===== verification/Vote.thy ===== *)
theory Vote
  imports Players Slots
begin

text \<open>
  The yes/no vote panel, with the ballots counted by the framework. Sources: \<^verbatim>\<open>src/Hooks/Vote.cpp\<close>,
  \<^verbatim>\<open>include/VoltMod/Hooks/Vote.hpp\<close>. What the engine is sent - events, panels - is put out in order; the map's vote
  controller is part of the state, absent while the map has none. An event fired runs its listeners, which are any function of
  the whole state; so are the callbacks of a request. A ballot is held in place, so a write through a reference kept over a
  listener goes to whatever vote runs then, and is a crash when none does. The timers of a ballot are the time it closes and
  whether it closes on the next tick; \<open>vote_timeout\<close> and \<open>vote_close\<close> are those timers firing. Protobuf fields a
  message lacks are only warned about and left out.
\<close>

section \<open>Data\<close>

datatype VoteEndReason = AllVoted | TimeUp | Cancelled

record VoteTally =
  vt_Eligible :: int
  vt_Yes :: int
  vt_No :: int

definition vt_Cast :: "VoteTally \<Rightarrow> int" where
  "vt_Cast tally = vt_Yes tally + vt_No tally"

record 'f VoteRequest =
  vr_Title :: string
  vr_Detail :: string
  vr_DurationMs :: int
  vr_Caller :: int
  vr_Passed :: "'f option"
  vr_Finished :: "'f option"

record 'f Ballot =
  bl_Request :: "'f VoteRequest"
  bl_Tally :: VoteTally
  bl_Waiting :: "bool PerSlot"
  bl_Timeout :: "int option"
  bl_Close :: bool

record VoteController =
  co_PotentialVotes :: int
  co_IsYesNoVote :: bool
  co_OnlyTeamToVote :: int
  co_ActiveIssueIndex :: int

datatype VoteOutput = VoteCastEvent int int | VoteChangedEvent VoteTally
  | StartPanel "int list" int string string | PassPanel "int list" string string | FailPanel "int list"

record ('f, 'w) vote_state =
  vo_Running :: "'f Ballot option"
  vo_Controller :: "VoteController option"
  vo_Out :: "VoteOutput list"
  vo_Crashed :: bool
  vo_World :: 'w

record ('f, 'w) vote_env =
  ve_Players :: "Player list"
  ve_Now :: int
  ve_HasEvents :: bool
  ve_Posts :: bool
  ve_Listener :: "VoteOutput \<Rightarrow> ('f, 'w) vote_state \<Rightarrow> ('f, 'w) vote_state"
  ve_Passed :: "'f \<Rightarrow> VoteTally \<Rightarrow> ('f, 'w) vote_state \<Rightarrow> bool \<times> ('f, 'w) vote_state"
  ve_Finished :: "'f \<Rightarrow> bool \<Rightarrow> VoteEndReason \<Rightarrow> ('f, 'w) vote_state \<Rightarrow> ('f, 'w) vote_state"

definition YesNoIssueIndex :: int where "YesNoIssueIndex = 2"
definition NoIssue :: int where "NoIssue = -1"
definition AllTeams :: int where "AllTeams = -1"
definition YesOption :: int where "YesOption = 0"
definition NoOption :: int where "NoOption = 1"

section \<open>What is sent\<close>

definition put_out :: "VoteOutput \<Rightarrow> ('f, 'w) vote_state \<Rightarrow> ('f, 'w) vote_state" where
  "put_out out v = v\<lparr>vo_Out := vo_Out v @ [out]\<rparr>"

definition fire_event :: "('f, 'w) vote_env \<Rightarrow> VoteOutput \<Rightarrow> ('f, 'w) vote_state \<Rightarrow> ('f, 'w) vote_state" where
  "fire_event env out v = (if ve_HasEvents env then ve_Listener env out (put_out out v) else v)"

definition post_message :: "('f, 'w) vote_env \<Rightarrow> VoteOutput \<Rightarrow> ('f, 'w) vote_state \<Rightarrow> ('f, 'w) vote_state" where
  "post_message env out v = (if ve_Posts env then put_out out v else v)"

definition Recipients :: "('f, 'w) vote_env \<Rightarrow> int list" where
  "Recipients env = map pl_Slot (filter (\<lambda>p. \<not> IsBot p) (ve_Players env))"

text \<open>A use of the running ballot through a reference or \<^verbatim>\<open>operator->\<close>.\<close>

definition with_running :: "('f Ballot \<Rightarrow> ('f, 'w) vote_state \<Rightarrow> ('f, 'w) vote_state) \<Rightarrow> ('f, 'w) vote_state \<Rightarrow> ('f, 'w) vote_state" where
  "with_running f v = (case vo_Running v of None \<Rightarrow> v\<lparr>vo_Crashed := True\<rparr> | Some b \<Rightarrow> f b v)"

definition put_running :: "'f Ballot \<Rightarrow> ('f, 'w) vote_state \<Rightarrow> ('f, 'w) vote_state" where
  "put_running b v = v\<lparr>vo_Running := Some b\<rparr>"

definition upd_tally :: "(VoteTally \<Rightarrow> VoteTally) \<Rightarrow> 'f Ballot \<Rightarrow> 'f Ballot" where
  "upd_tally f b = b\<lparr>bl_Tally := f (bl_Tally b)\<rparr>"

definition stop_waiting :: "int \<Rightarrow> 'f Ballot \<Rightarrow> 'f Ballot" where
  "stop_waiting slot b = b\<lparr>bl_Waiting := (bl_Waiting b)(slot := False)\<rparr>"

definition PublishBallot :: "('f, 'w) vote_env \<Rightarrow> int \<Rightarrow> int \<Rightarrow> ('f, 'w) vote_state \<Rightarrow> ('f, 'w) vote_state" where
  "PublishBallot env slot option v = fire_event env (VoteCastEvent slot option) v"

definition PublishCounts :: "('f, 'w) vote_env \<Rightarrow> ('f, 'w) vote_state \<Rightarrow> ('f, 'w) vote_state" where
  "PublishCounts env v = with_running (\<lambda>b. fire_event env (VoteChangedEvent (bl_Tally b))) v"

definition SendStart :: "('f, 'w) vote_env \<Rightarrow> ('f, 'w) vote_state \<Rightarrow> ('f, 'w) vote_state" where
  "SendStart env v = with_running (\<lambda>b. post_message env (StartPanel (Recipients env) (vr_Caller (bl_Request b))
     (vr_Title (bl_Request b)) (vr_Detail (bl_Request b)))) v"

definition SendOutcome :: "('f, 'w) vote_env \<Rightarrow> 'f VoteRequest \<Rightarrow> bool \<Rightarrow> ('f, 'w) vote_state \<Rightarrow> ('f, 'w) vote_state" where
  "SendOutcome env request passed v =
     post_message env (if passed then PassPanel (Recipients env) (vr_Title request) (vr_Detail request) else FailPanel (Recipients env)) v"

section \<open>The vote\<close>

fun enroll :: "Player list \<Rightarrow> 'f Ballot \<Rightarrow> 'f Ballot" where
  "enroll [] b = b"
| "enroll (p # ps) b =
     enroll ps (if \<not> IsBot p \<and> IsValidSlot (pl_Slot p)
                then upd_tally (\<lambda>t. t\<lparr>vt_Eligible := vt_Eligible t + 1\<rparr>) (b\<lparr>bl_Waiting := (bl_Waiting b)(pl_Slot p := True)\<rparr>) else b)"

definition new_ballot :: "'f VoteRequest \<Rightarrow> 'f Ballot" where
  "new_ballot request = \<lparr>bl_Request = request, bl_Tally = \<lparr>vt_Eligible = 0, vt_Yes = 0, vt_No = 0\<rparr>, bl_Waiting = (\<lambda>_. False),
     bl_Timeout = None, bl_Close = False\<rparr>"

definition vote_Start :: "('f, 'w) vote_env \<Rightarrow> 'f VoteRequest \<Rightarrow> ('f, 'w) vote_state \<Rightarrow> bool \<times> ('f, 'w) vote_state" where
  "vote_Start env request v =
     (if vo_Running v \<noteq> None \<or> vr_Passed request = None then (False, v)
      else let ballot = enroll (ve_Players env) (new_ballot request)
      in if vt_Eligible (bl_Tally ballot) = 0 then (False, v)
      else let v1 = v\<lparr>vo_Controller := map_option (\<lambda>co. co\<lparr>co_PotentialVotes := vt_Eligible (bl_Tally ballot), co_IsYesNoVote := True,
                        co_OnlyTeamToVote := AllTeams, co_ActiveIssueIndex := YesNoIssueIndex\<rparr>) (vo_Controller v)\<rparr>;
               v2 = SendStart env (PublishCounts env (put_running ballot v1))
           in (True, with_running (\<lambda>b. put_running (b\<lparr>bl_Timeout := Some (ve_Now env + vr_DurationMs (bl_Request b))\<rparr>)) v2))"

definition CloseIfAllVoted :: "('f, 'w) vote_state \<Rightarrow> ('f, 'w) vote_state" where
  "CloseIfAllVoted v = with_running (\<lambda>b v. if vt_Cast (bl_Tally b) < vt_Eligible (bl_Tally b) then v else put_running (b\<lparr>bl_Close := True\<rparr>) v) v"

definition count_yes :: "VoteTally \<Rightarrow> VoteTally" where "count_yes t = t\<lparr>vt_Yes := vt_Yes t + 1\<rparr>"
definition count_no :: "VoteTally \<Rightarrow> VoteTally" where "count_no t = t\<lparr>vt_No := vt_No t + 1\<rparr>"

text \<open>A ballot is counted and announced, and only then the voter stops waiting.\<close>

definition take_ballot :: "('f, 'w) vote_env \<Rightarrow> int \<Rightarrow> int \<Rightarrow> (VoteTally \<Rightarrow> VoteTally) \<Rightarrow> 'f Ballot \<Rightarrow> ('f, 'w) vote_state \<Rightarrow> ('f, 'w) vote_state" where
  "take_ballot env slot option cnt b v =
     CloseIfAllVoted (PublishCounts env (with_running (\<lambda>b. put_running (stop_waiting slot b))
       (PublishBallot env slot option (put_running (upd_tally cnt b) v))))"

definition TryCastBallot :: "('f, 'w) vote_env \<Rightarrow> int \<Rightarrow> string \<Rightarrow> ('f, 'w) vote_state \<Rightarrow> bool \<times> ('f, 'w) vote_state" where
  "TryCastBallot env slot option v =
     (case vo_Running v of
        None \<Rightarrow> (False, v)
      | Some b \<Rightarrow>
          if \<not> IsValidSlot slot \<or> \<not> bl_Waiting b slot then (True, v)
          else if option = ''option1'' then (True, take_ballot env slot YesOption count_yes b v)
          else if option = ''option2'' then (True, take_ballot env slot NoOption count_no b v)
          else (True, v))"

definition DropVoter :: "('f, 'w) vote_env \<Rightarrow> int \<Rightarrow> ('f, 'w) vote_state \<Rightarrow> ('f, 'w) vote_state" where
  "DropVoter env slot v =
     (case vo_Running v of
        None \<Rightarrow> v
      | Some b \<Rightarrow>
          if \<not> IsValidSlot slot \<or> \<not> bl_Waiting b slot then v
          else CloseIfAllVoted (PublishCounts env (put_running (upd_tally (\<lambda>t. t\<lparr>vt_Eligible := vt_Eligible t - 1\<rparr>) (stop_waiting slot b)) v)))"

definition vote_Finish :: "('f, 'w) vote_env \<Rightarrow> VoteEndReason \<Rightarrow> ('f, 'w) vote_state \<Rightarrow> ('f, 'w) vote_state" where
  "vote_Finish env reason v = with_running (\<lambda>ballot v.
     let v1 = v\<lparr>vo_Running := None\<rparr>;
         (passed, v2) = (if reason \<noteq> Cancelled
            then (case vr_Passed (bl_Request ballot) of None \<Rightarrow> (False, v1\<lparr>vo_Crashed := True\<rparr>) | Some f \<Rightarrow> ve_Passed env f (bl_Tally ballot) v1)
            else (False, v1));
         v3 = SendOutcome env (bl_Request ballot) passed v2;
         v4 = v3\<lparr>vo_Controller := map_option (\<lambda>co. co\<lparr>co_ActiveIssueIndex := NoIssue\<rparr>) (vo_Controller v3)\<rparr>
     in (case vr_Finished (bl_Request ballot) of None \<Rightarrow> v4 | Some f \<Rightarrow> ve_Finished env f passed reason v4)) v"

definition vote_End :: "('f, 'w) vote_env \<Rightarrow> VoteEndReason \<Rightarrow> ('f, 'w) vote_state \<Rightarrow> ('f, 'w) vote_state" where
  "vote_End env reason v = (if vo_Running v \<noteq> None then vote_Finish env reason v else v)"

definition vote_timeout :: "('f, 'w) vote_env \<Rightarrow> ('f, 'w) vote_state \<Rightarrow> ('f, 'w) vote_state" where
  "vote_timeout env v =
     (case vo_Running v of None \<Rightarrow> v
      | Some b \<Rightarrow> (case bl_Timeout b of None \<Rightarrow> v | Some due_at \<Rightarrow> if due_at \<le> ve_Now env then vote_Finish env TimeUp v else v))"

definition vote_close :: "('f, 'w) vote_env \<Rightarrow> ('f, 'w) vote_state \<Rightarrow> ('f, 'w) vote_state" where
  "vote_close env v = (case vo_Running v of None \<Rightarrow> v | Some b \<Rightarrow> if bl_Close b then vote_Finish env AllVoted v else v)"

definition InProgress :: "('f, 'w) vote_state \<Rightarrow> bool" where
  "InProgress v \<longleftrightarrow> vo_Running v \<noteq> None"

section \<open>What a vote counts\<close>

text \<open>What may happen while a vote runs, and what it means for the player it names.\<close>

datatype VoteInput = Casts int string | Leaves int

datatype verdict = SaysYes | SaysNo | HasLeft

definition vote_input :: "('f, 'w) vote_env \<Rightarrow> VoteInput \<Rightarrow> ('f, 'w) vote_state \<Rightarrow> ('f, 'w) vote_state" where
  "vote_input env i v = (case i of Casts slot option \<Rightarrow> snd (TryCastBallot env slot option v) | Leaves slot \<Rightarrow> DropVoter env slot v)"

definition meaning :: "VoteInput \<Rightarrow> (int \<times> verdict) option" where
  "meaning i = (case i of
     Casts slot option \<Rightarrow> if option = ''option1'' then Some (slot, SaysYes) else if option = ''option2'' then Some (slot, SaysNo) else None
   | Leaves slot \<Rightarrow> Some (slot, HasLeft))"

text \<open>The first verdict on a player stands.\<close>

definition settle :: "VoteInput \<Rightarrow> (int \<Rightarrow> verdict option) \<Rightarrow> int \<Rightarrow> verdict option" where
  "settle i V = (case meaning i of None \<Rightarrow> V | Some (slot, d) \<Rightarrow> if V slot = None then V(slot := Some d) else V)"

definition verdicts :: "VoteInput list \<Rightarrow> int \<Rightarrow> verdict option" where
  "verdicts inputs = fold settle inputs (\<lambda>_. None)"

definition tally_of :: "int list \<Rightarrow> (int \<Rightarrow> verdict option) \<Rightarrow> VoteTally" where
  "tally_of voters V = \<lparr>vt_Eligible = int (length (filter (\<lambda>s. V s \<noteq> Some HasLeft) voters)),
     vt_Yes = int (length (filter (\<lambda>s. V s = Some SaysYes) voters)), vt_No = int (length (filter (\<lambda>s. V s = Some SaysNo) voters))\<rparr>"

definition voters :: "Player list \<Rightarrow> int list" where
  "voters ps = map pl_Slot (filter (\<lambda>p. \<not> IsBot p \<and> IsValidSlot (pl_Slot p)) ps)"

definition quiet_listener :: "('f, 'w) vote_env \<Rightarrow> bool" where
  "quiet_listener env \<longleftrightarrow> (\<forall>out v. vo_Running (ve_Listener env out v) = vo_Running v \<and> vo_Crashed (ve_Listener env out v) = vo_Crashed v)"

lemma filter_settled:
  assumes "distinct xs" "a \<in> set xs"
  shows "\<not> P a \<Longrightarrow> length (filter (\<lambda>x. x = a \<or> P x) xs) = Suc (length (filter P xs))"
    and "P a \<Longrightarrow> Suc (length (filter (\<lambda>x. x \<noteq> a \<and> P x) xs)) = length (filter P xs)"
proof -
  have card: "length (filter Q xs) = card ({x. Q x} \<inter> set xs)" for Q using distinct_length_filter[OF assms(1)] by blast
  show "length (filter (\<lambda>x. x = a \<or> P x) xs) = Suc (length (filter P xs))" if "\<not> P a"
  proof -
    have "{x. x = a \<or> P x} \<inter> set xs = insert a ({x. P x} \<inter> set xs)" using assms(2) by auto
    then show ?thesis using that by (simp add: card)
  qed
  show "Suc (length (filter (\<lambda>x. x \<noteq> a \<and> P x) xs)) = length (filter P xs)" if "P a"
  proof -
    have "{x. P x} \<inter> set xs = insert a ({x. x \<noteq> a \<and> P x} \<inter> set xs)" using assms(2) that by auto
    then show ?thesis by (simp add: card)
  qed
qed

lemma tally_settle:
  assumes "distinct xs" "a \<in> set xs" "V a = None"
  shows "tally_of xs (V(a := Some SaysYes)) = count_yes (tally_of xs V)" "tally_of xs (V(a := Some SaysNo)) = count_no (tally_of xs V)"
    "tally_of xs (V(a := Some HasLeft)) = (tally_of xs V)\<lparr>vt_Eligible := vt_Eligible (tally_of xs V) - 1\<rparr>"
proof -
  have same: "length (filter (\<lambda>s. (V(a := Some d)) s = Some d') xs) = length (filter (\<lambda>s. V s = Some d') xs)" if "d \<noteq> d'" for d d'
    using assms(3) that by (intro arg_cong[of _ _ length] filter_cong) auto
  have one: "length (filter (\<lambda>s. (V(a := Some d)) s = Some d) xs) = Suc (length (filter (\<lambda>s. V s = Some d) xs))" for d
  proof -
    have "filter (\<lambda>s. (V(a := Some d)) s = Some d) xs = filter (\<lambda>s. s = a \<or> V s = Some d) xs" by (rule filter_cong) auto
    then show ?thesis using filter_settled(1)[OF assms(1,2), of "\<lambda>s. V s = Some d"] assms(3) by simp
  qed
  have keep: "length (filter (\<lambda>s. (V(a := Some d)) s \<noteq> Some HasLeft) xs) = length (filter (\<lambda>s. V s \<noteq> Some HasLeft) xs)" if "d \<noteq> HasLeft" for d
    using assms(3) that by (intro arg_cong[of _ _ length] filter_cong) auto
  have gone: "Suc (length (filter (\<lambda>s. (V(a := Some HasLeft)) s \<noteq> Some HasLeft) xs)) = length (filter (\<lambda>s. V s \<noteq> Some HasLeft) xs)"
  proof -
    have "filter (\<lambda>s. (V(a := Some HasLeft)) s \<noteq> Some HasLeft) xs = filter (\<lambda>s. s \<noteq> a \<and> V s \<noteq> Some HasLeft) xs" by (rule filter_cong) auto
    then show ?thesis using filter_settled(2)[OF assms(1,2), of "\<lambda>s. V s \<noteq> Some HasLeft"] assms(3) by simp
  qed
  show "tally_of xs (V(a := Some SaysYes)) = count_yes (tally_of xs V)" "tally_of xs (V(a := Some SaysNo)) = count_no (tally_of xs V)"
    by (simp_all add: tally_of_def count_yes_def count_no_def same one keep del: fun_upd_apply)
  show "tally_of xs (V(a := Some HasLeft)) = (tally_of xs V)\<lparr>vt_Eligible := vt_Eligible (tally_of xs V) - 1\<rparr>"
    using gone by (simp add: tally_of_def same del: fun_upd_apply)
qed

lemma tally_open: "vt_Eligible (tally_of xs V) - vt_Cast (tally_of xs V) = int (length (filter (\<lambda>s. V s = None) xs))"
proof (induction xs)
  case (Cons x xs)
  then show ?case by (cases "V x") (auto simp: tally_of_def vt_Cast_def split: verdict.split, (metis verdict.exhaust)+)
qed (simp add: tally_of_def vt_Cast_def)

lemma all_voted: "vt_Cast (tally_of xs V) < vt_Eligible (tally_of xs V) \<longleftrightarrow> (\<exists>s\<in>set xs. V s = None)"
proof -
  have "filter (\<lambda>s. V s = None) xs \<noteq> [] \<longleftrightarrow> (\<exists>s\<in>set xs. V s = None)" by (simp add: filter_empty_conv)
  moreover have "vt_Cast (tally_of xs V) < vt_Eligible (tally_of xs V) \<longleftrightarrow> 0 < length (filter (\<lambda>s. V s = None) xs)"
    using tally_open[of xs V] by linarith
  ultimately show ?thesis by simp
qed

text \<open>A running ballot that agrees with the verdicts so far.\<close>

definition ballot_of :: "'f VoteRequest \<Rightarrow> int \<Rightarrow> int list \<Rightarrow> (int \<Rightarrow> verdict option) \<Rightarrow> 'f Ballot" where
  "ballot_of request closes_at xs V = \<lparr>bl_Request = request, bl_Tally = tally_of xs V, bl_Waiting = (\<lambda>s. s \<in> set xs \<and> V s = None),
     bl_Timeout = Some closes_at, bl_Close = (\<forall>s\<in>set xs. V s \<noteq> None)\<rparr>"

lemma running_simps [simp]:
  "vo_Running (put_running b v) = Some b" "vo_Crashed (put_running b v) = vo_Crashed v" "vo_Running (put_out out v) = vo_Running v"
  "vo_Crashed (put_out out v) = vo_Crashed v" "put_running b (put_running b' v) = put_running b v"
  by (simp_all add: put_running_def put_out_def)

lemma fire_simps [simp]: "quiet_listener env \<Longrightarrow> vo_Running (fire_event env out v) = vo_Running v"
  "quiet_listener env \<Longrightarrow> vo_Crashed (fire_event env out v) = vo_Crashed v"
  by (simp_all add: fire_event_def quiet_listener_def)

lemma publish_simps [simp]:
  "quiet_listener env \<Longrightarrow> vo_Running (PublishBallot env slot option v) = vo_Running v"
  "quiet_listener env \<Longrightarrow> vo_Crashed (PublishBallot env slot option v) = vo_Crashed v"
  "quiet_listener env \<Longrightarrow> vo_Running v = Some b \<Longrightarrow> vo_Running (PublishCounts env v) = Some b"
  "quiet_listener env \<Longrightarrow> vo_Running v = Some b \<Longrightarrow> vo_Crashed (PublishCounts env v) = vo_Crashed v"
  by (simp_all add: PublishBallot_def PublishCounts_def with_running_def)

lemma enroll_start:
  "bl_Request (enroll ps b) = bl_Request b" "bl_Timeout (enroll ps b) = bl_Timeout b" "bl_Close (enroll ps b) = bl_Close b"
  "bl_Waiting (enroll ps b) s \<longleftrightarrow> bl_Waiting b s \<or> s \<in> set (voters ps)"
  "bl_Tally (enroll ps b) = (bl_Tally b)\<lparr>vt_Eligible := vt_Eligible (bl_Tally b) + int (length (voters ps))\<rparr>"
  by (induction ps arbitrary: b) (auto simp: upd_tally_def voters_def)

lemma ballot_settles:
  assumes "distinct xs" "a \<in> set xs" "V a = None" "d = SaysYes \<and> t = count_yes (tally_of xs V) \<or> d = SaysNo \<and> t = count_no (tally_of xs V) \<or>
      d = HasLeft \<and> t = (tally_of xs V)\<lparr>vt_Eligible := vt_Eligible (tally_of xs V) - 1\<rparr>"
  shows "(ballot_of request closes_at xs V)\<lparr>bl_Waiting := (bl_Waiting (ballot_of request closes_at xs V))(a := False), bl_Tally := t,
      bl_Close := (\<forall>s\<in>set xs. (V(a := Some d)) s \<noteq> None)\<rparr> = ballot_of request closes_at xs (V(a := Some d))"
proof -
  have "t = tally_of xs (V(a := Some d))" using tally_settle[of xs a V, OF assms(1-3)] assms(4) by metis
  moreover have "(\<lambda>s. s \<in> set xs \<and> V s = None)(a := False) = (\<lambda>s. s \<in> set xs \<and> (V(a := Some d)) s = None)" by auto
  ultimately show ?thesis by (simp add: ballot_of_def del: fun_upd_apply)
qed

lemma CloseIfAllVoted_running:
  assumes "vo_Running v = Some b" "bl_Tally b = tally_of xs V" "\<not> bl_Close b"
  shows "vo_Running (CloseIfAllVoted v) = Some (b\<lparr>bl_Close := (\<forall>s\<in>set xs. V s \<noteq> None)\<rparr>)" "vo_Crashed (CloseIfAllVoted v) = vo_Crashed v"
  using assms all_voted[of xs V] by (auto simp: CloseIfAllVoted_def with_running_def)

lemma vote_input_step:
  assumes "quiet_listener env" "distinct xs" "\<forall>s\<in>set xs. IsValidSlot s" "vo_Running v = Some (ballot_of request closes_at xs V)"
  shows "vo_Running (vote_input env i v) = Some (ballot_of request closes_at xs (settle i V)) \<and> vo_Crashed (vote_input env i v) = vo_Crashed v"
proof (cases "meaning i")
  case None
  then show ?thesis using assms(4)
    by (cases i) (auto simp: meaning_def vote_input_def TryCastBallot_def settle_def split: if_split_asm)
next
  case (Some m)
  then obtain a d where m: "meaning i = Some (a, d)" by (cases m) auto
  show ?thesis
  proof (cases "a \<in> set xs \<and> V a = None")
    case False
    then have "vote_input env i v = v" using m assms(4)
      by (cases i) (auto simp: meaning_def vote_input_def TryCastBallot_def DropVoter_def ballot_of_def split: if_split_asm)
    moreover have "ballot_of request closes_at xs (settle i V) = ballot_of request closes_at xs V"
    proof (cases "V a = None")
      case True
      then have "a \<notin> set xs" using False by blast
      moreover have "tally_of xs (V(a := Some d)) = tally_of xs V"
        using calculation unfolding tally_of_def by (intro VoteTally.equality) (auto intro!: arg_cong[of _ _ length] filter_cong)
      ultimately show ?thesis using m True by (auto simp: settle_def ballot_of_def fun_eq_iff)
    qed (use m in \<open>auto simp: settle_def\<close>)
    ultimately show ?thesis using assms(4) by simp
  next
    case True
    then have a: "a \<in> set xs" "V a = None" "IsValidSlot a" "bl_Waiting (ballot_of request closes_at xs V) a" using assms(3) by (auto simp: ballot_of_def)
    have V': "settle i V = V(a := Some d)" using m a(2) by (simp add: settle_def)
    define t where "t = (case d of SaysYes \<Rightarrow> count_yes (tally_of xs V) | SaysNo \<Rightarrow> count_no (tally_of xs V)
      | HasLeft \<Rightarrow> (tally_of xs V)\<lparr>vt_Eligible := vt_Eligible (tally_of xs V) - 1\<rparr>)"
    define b where "b = (ballot_of request closes_at xs V)\<lparr>bl_Waiting := (bl_Waiting (ballot_of request closes_at xs V))(a := False), bl_Tally := t\<rparr>"
    have tt: "t = tally_of xs (V(a := Some d))" using tally_settle[of xs a V, OF assms(2) a(1,2)] by (cases d) (simp_all add: t_def)
    have nc: "\<not> bl_Close b" using a(1,2) by (auto simp: b_def ballot_of_def)
    have b': "b\<lparr>bl_Close := (\<forall>s\<in>set xs. (V(a := Some d)) s \<noteq> None)\<rparr> = ballot_of request closes_at xs (V(a := Some d))"
      unfolding b_def using ballot_settles[of xs a V d t, OF assms(2) a(1,2)] by (cases d) (simp_all add: t_def del: fun_upd_apply)
    have tb: "bl_Tally b = tally_of xs (V(a := Some d))" using tt by (simp add: b_def)
    obtain w where w: "vote_input env i v = CloseIfAllVoted w" "vo_Running w = Some b" "vo_Crashed w = vo_Crashed v"
    proof (cases i)
      case (Casts slot option)
      then have s: "slot = a" "option = ''option1'' \<and> d = SaysYes \<or> option = ''option2'' \<and> d = SaysNo" using m by (auto simp: meaning_def split: if_split_asm)
      show ?thesis
      proof
        let ?cnt = "if d = SaysYes then count_yes else count_no" and ?opt = "if d = SaysYes then YesOption else NoOption"
        let ?w1 = "PublishBallot env a ?opt (put_running (upd_tally ?cnt (ballot_of request closes_at xs V)) v)"
        let ?w = "PublishCounts env (with_running (\<lambda>b. put_running (stop_waiting a b)) ?w1)"
        show "vote_input env i v = CloseIfAllVoted ?w" using Casts s a assms(4) by (auto simp: vote_input_def TryCastBallot_def take_ballot_def)
        have "with_running (\<lambda>b. put_running (stop_waiting a b)) ?w1 = put_running b ?w1"
          using assms(1) s(2) by (auto simp: with_running_def stop_waiting_def upd_tally_def b_def t_def ballot_of_def)
        then show "vo_Running ?w = Some b" "vo_Crashed ?w = vo_Crashed v" using assms(1) by simp_all
      qed
    next
      case (Leaves slot)
      then have s: "slot = a" "d = HasLeft" using m by (auto simp: meaning_def)
      show ?thesis
      proof
        have "upd_tally (\<lambda>t. t\<lparr>vt_Eligible := vt_Eligible t - 1\<rparr>) (stop_waiting a (ballot_of request closes_at xs V)) = b"
          using s(2) by (simp add: upd_tally_def stop_waiting_def b_def t_def ballot_of_def)
        then show "vote_input env i v = CloseIfAllVoted (PublishCounts env (put_running b v))" using Leaves s a assms(4)
          by (simp add: vote_input_def DropVoter_def)
      qed (use assms(1) in simp_all)
    qed
    show ?thesis using CloseIfAllVoted_running[OF w(2) tb nc] w b' V' by simp
  qed
qed

lemma vote_inputs:
  assumes "quiet_listener env" "distinct xs" "\<forall>s\<in>set xs. IsValidSlot s" "vo_Running v = Some (ballot_of request closes_at xs V)"
  shows "vo_Running (fold (vote_input env) inputs v) = Some (ballot_of request closes_at xs (fold settle inputs V)) \<and>
    vo_Crashed (fold (vote_input env) inputs v) = vo_Crashed v"
  using assms(4)
proof (induction inputs arbitrary: v V)
  case (Cons i inputs)
  have "vo_Running (vote_input env i v) = Some (ballot_of request closes_at xs (settle i V)) \<and> vo_Crashed (vote_input env i v) = vo_Crashed v"
    by (rule vote_input_step[OF assms(1-3) Cons.prems])
  then show ?case using Cons.IH[of "vote_input env i v" "settle i V"] by simp
qed simp

lemma vote_Start_running:
  assumes "quiet_listener env" "vo_Running v = None" "vr_Passed request = Some f" "voters (ve_Players env) \<noteq> []"
  shows "fst (vote_Start env request v)"
    and "vo_Running (snd (vote_Start env request v)) = Some (ballot_of request (ve_Now env + vr_DurationMs request) (voters (ve_Players env)) (\<lambda>_. None))"
    and "vo_Crashed (snd (vote_Start env request v)) = vo_Crashed v"
proof -
  let ?b = "enroll (ve_Players env) (new_ballot request)"
  have tally: "bl_Tally ?b = tally_of (voters (ve_Players env)) (\<lambda>_. None)"
    by (simp add: enroll_start new_ballot_def tally_of_def)
  have b: "?b\<lparr>bl_Timeout := Some (ve_Now env + vr_DurationMs request)\<rparr> =
      ballot_of request (ve_Now env + vr_DurationMs request) (voters (ve_Players env)) (\<lambda>_. None)"
    using assms(4) enroll_start[of "ve_Players env" "new_ballot request"] tally
    by (intro Ballot.equality) (auto simp: new_ballot_def ballot_of_def fun_eq_iff)
  have some: "vt_Eligible (bl_Tally ?b) \<noteq> 0" using assms(4) by (simp add: tally tally_of_def)
  define co where "co = vo_Controller_update (\<lambda>_. map_option (\<lambda>co. co\<lparr>co_PotentialVotes := vt_Eligible (bl_Tally ?b), co_IsYesNoVote := True,
      co_OnlyTeamToVote := AllTeams, co_ActiveIssueIndex := YesNoIssueIndex\<rparr>) (vo_Controller v)) v"
  define v2 where "v2 = SendStart env (PublishCounts env (put_running ?b co))"
  have v2: "vo_Running v2 = Some ?b" "vo_Crashed v2 = vo_Crashed v"
    using assms(1) by (simp_all add: v2_def SendStart_def with_running_def post_message_def co_def)
  have "vote_Start env request v = (True, with_running (\<lambda>b. put_running (b\<lparr>bl_Timeout := Some (ve_Now env + vr_DurationMs (bl_Request b))\<rparr>)) v2)"
    using assms(2,3) some by (simp add: vote_Start_def Let_def v2_def co_def)
  then show "fst (vote_Start env request v)"
    "vo_Running (snd (vote_Start env request v)) = Some (ballot_of request (ve_Now env + vr_DurationMs request) (voters (ve_Players env)) (\<lambda>_. None))"
    "vo_Crashed (snd (vote_Start env request v)) = vo_Crashed v"
    using v2 b by (simp_all add: with_running_def enroll_start new_ballot_def)
qed

text \<open>How a vote ends for its caller, given the verdict \<open>passed\<close>.\<close>

definition ended :: "('f, 'w) vote_env \<Rightarrow> 'f VoteRequest \<Rightarrow> VoteEndReason \<Rightarrow> bool \<Rightarrow> ('f, 'w) vote_state \<Rightarrow> ('f, 'w) vote_state" where
  "ended env request reason passed v =
     (let v1 = SendOutcome env request passed (v\<lparr>vo_Running := None\<rparr>);
          v2 = v1\<lparr>vo_Controller := map_option (co_ActiveIssueIndex_update (\<lambda>_. NoIssue)) (vo_Controller v1)\<rparr>
      in case vr_Finished request of None \<Rightarrow> v2 | Some f \<Rightarrow> ve_Finished env f passed reason v2)"

text \<open>
  C22: whatever players do while a vote runs, the tally counts exactly the first verdict of each player who could vote:
  one vote per player, none of a player who left, none of a bot, a latecomer or an unknown option. The vote closes on the next
  tick exactly once nobody is left to vote and at its time otherwise; its caller then decides on exactly that tally, once, and
  a cancelled vote fails without asking.
\<close>

theorem vote_counts:
  assumes "quiet_listener env" and "vo_Running v = None" and "\<not> vo_Crashed v" and "vr_Passed request = Some f"
    and "voters (ve_Players env) \<noteq> []" and "distinct (voters (ve_Players env))"
    and "\<forall>t w. ve_Passed env f t w = (P t, w)"
  shows "let w = fold (vote_input env) inputs (snd (vote_Start env request v)); xs = voters (ve_Players env); V = verdicts inputs; t = tally_of xs V
    in fst (vote_Start env request v) \<and> InProgress w \<and> \<not> vo_Crashed w \<and> map_option bl_Tally (vo_Running w) = Some t \<and>
       vote_close env w = (if \<exists>s\<in>set xs. V s = None then w else ended env request AllVoted (P t) w) \<and>
       vote_timeout env w = (if 0 < vr_DurationMs request then w else ended env request TimeUp (P t) w) \<and>
       (\<forall>later. ve_Now env + vr_DurationMs request \<le> later \<longrightarrow>
          vote_timeout (env\<lparr>ve_Now := later\<rparr>) w = ended (env\<lparr>ve_Now := later\<rparr>) request TimeUp (P t) w) \<and>
       vote_End env Cancelled w = ended env request Cancelled False w"
proof -
  define xs where "xs = voters (ve_Players env)"
  define V where "V = verdicts inputs"
  define w where "w = fold (vote_input env) inputs (snd (vote_Start env request v))"
  note start = vote_Start_running[OF assms(1,2,4,5)]
  have valid: "\<forall>s\<in>set xs. IsValidSlot s" by (auto simp: xs_def voters_def)
  have w: "vo_Running w = Some (ballot_of request (ve_Now env + vr_DurationMs request) xs V)" "vo_Crashed w = vo_Crashed v"
    using vote_inputs[OF assms(1,6) valid[unfolded xs_def] start(2), of inputs] start(3) by (simp_all add: w_def xs_def V_def verdicts_def)
  have fin: "vote_Finish e reason w = ended e request reason (reason \<noteq> Cancelled \<and> P (tally_of xs V)) w"
    if "ve_Passed e = ve_Passed env" for e reason
    using w(1) assms(4,7) that by (cases "vr_Finished request") (simp_all add: vote_Finish_def with_running_def ended_def ballot_of_def Let_def)
  show ?thesis
    unfolding Let_def w_def[symmetric] xs_def[symmetric] V_def[symmetric]
    using start(1) w fin assms(3)
    by (simp add: InProgress_def vote_close_def vote_timeout_def vote_End_def) (auto simp: ballot_of_def)
qed

definition example_vote_env :: "(unit, unit) vote_env" where
  "example_vote_env = \<lparr>ve_Players = map (\<lambda>i. \<lparr>pl_Id = nat i, pl_Slot = i, pl_SteamId = (if i = 2 then 0 else 100 + i), pl_ConnectName = [], pl_Ip = []\<rparr>) [0, 1, 2, 3],
     ve_Now = 0, ve_HasEvents = True, ve_Posts = True, ve_Listener = (\<lambda>_ v. v), ve_Passed = (\<lambda>_ t v. (vt_No t < vt_Yes t, v)), ve_Finished = (\<lambda>_ _ _ v. v)\<rparr>"

definition example_request :: "unit VoteRequest" where
  "example_request = \<lparr>vr_Title = ''#SFUI_vote_changelevel'', vr_Detail = ''de_dust2'', vr_DurationMs = 20000, vr_Caller = -1, vr_Passed = Some (), vr_Finished = None\<rparr>"

theorem vote_counts_witness:
  "map_option bl_Tally (vo_Running (fold (vote_input example_vote_env)
      [Casts 0 ''option1'', Casts 0 ''option2'', Casts 2 ''option2'', Casts 9 ''option1'', Casts 1 ''option5'', Leaves 3, Casts 1 ''option1'']
      (snd (vote_Start example_vote_env example_request \<lparr>vo_Running = None, vo_Controller = None, vo_Out = [], vo_Crashed = False, vo_World = ()\<rparr>)))) =
    Some \<lparr>vt_Eligible = 2, vt_Yes = 2, vt_No = 0\<rparr>"
proof -
  have voters: "voters (ve_Players example_vote_env) = [0, 1, 3]" by (simp add: voters_def example_vote_env_def IsBot_def IsValidSlot_def MaxPlayers_def)
  have quiet: "quiet_listener example_vote_env" by (simp add: quiet_listener_def example_vote_env_def)
  have passed: "\<forall>t w. ve_Passed example_vote_env () t w = (vt_No t < vt_Yes t, w)" by (simp add: example_vote_env_def)
  show ?thesis
    using vote_counts[OF quiet _ _ _ _ _ passed, of "\<lparr>vo_Running = None, vo_Controller = None, vo_Out = [], vo_Crashed = False, vo_World = ()\<rparr>" example_request
        "[Casts 0 ''option1'', Casts 0 ''option2'', Casts 2 ''option2'', Casts 9 ''option1'', Casts 1 ''option5'', Leaves 3, Casts 1 ''option1'']"]
    by (simp add: voters example_request_def Let_def verdicts_def settle_def meaning_def tally_of_def)
qed

section \<open>Callbacks that end or start votes\<close>

text \<open>A listener of the panel's events that calls the vote off leaves \<^verbatim>\<open>TryCastBallot\<close> writing to a ballot that is gone.\<close>

lemma listener_ends_vote:
  assumes "vo_Running v = Some b" "IsValidSlot slot" "bl_Waiting b slot" "ve_HasEvents env"
    and "\<And>out w. vo_Running (ve_Listener env out w) = None"
  shows "vo_Crashed (snd (TryCastBallot env slot ''option1'' v))"
proof -
  let ?w = "PublishBallot env slot YesOption (put_running (upd_tally count_yes b) v)"
  have "vo_Running ?w = None" using assms(4,5) by (simp add: PublishBallot_def fire_event_def)
  then show ?thesis using assms(1-3)
    by (simp add: TryCastBallot_def take_ballot_def with_running_def PublishCounts_def CloseIfAllVoted_def)
qed

text \<open>A \<^verbatim>\<open>Passed\<close> callback that starts the next vote: its issue is switched off again by the vote that ends.\<close>

lemma Passed_starts_vote:
  assumes "vo_Running v = Some b" "vr_Passed (bl_Request b) = Some f" "vr_Finished (bl_Request b) = None" "reason \<noteq> Cancelled"
    and "ve_Passed env f (bl_Tally b) (v\<lparr>vo_Running := None\<rparr>) = (r, w)" "vo_Running w = Some next_ballot" "vo_Controller w = Some co"
  shows "vo_Running (vote_Finish env reason v) = Some next_ballot \<and>
    map_option co_ActiveIssueIndex (vo_Controller (vote_Finish env reason v)) = Some NoIssue"
  using assms by (simp add: vote_Finish_def with_running_def Let_def SendOutcome_def post_message_def put_out_def)

end
