(* ===== verification/ConVarQueries.thy ===== *)
theory ConVarQueries
  imports Complex_Main Prelude Slots "HOL-Library.Word"
begin

text \<open>
  Asking a client for one of its convars, and the table of questions not yet answered. Sources:
  \<^verbatim>\<open>src/Hooks/{PendingConVarQueries,ClientConVars}.cpp\<close>, \<^verbatim>\<open>src/Hooks/PendingConVarQueries.hpp\<close>. Seconds are rationals.
  A callback is a name whose effect on the whole state is the argument \<open>run\<close>. Whether the hook is installed, whether a
  slot has a network channel and whether a message can be made are arguments; what a client answers is a record of the
  fields its message has.
\<close>

section \<open>The table\<close>

record 'f PendingConVarQuery =
  pq_Name :: string
  pq_Callback :: 'f
  pq_SentAtSec :: rat
  pq_Cookie :: int

record 'f PendingConVarQueries =
  pc_Slots :: "'f PendingConVarQuery list PerSlot"
  pc_CookieCounter :: "32 word"

definition MaxPendingPerSlot :: nat where "MaxPendingPerSlot = 11"
definition TimeoutSec :: rat where "TimeoutSec = 10"
definition MaxCookie :: "32 word" where "MaxCookie = 0x7FFFFFFF"

definition pc_init :: "'f PendingConVarQueries" where
  "pc_init = \<lparr>pc_Slots = (\<lambda>_. []), pc_CookieCounter = 0\<rparr>"

definition put_queries :: "int \<Rightarrow> 'f PendingConVarQuery list \<Rightarrow> 'f PendingConVarQueries \<Rightarrow> 'f PendingConVarQueries" where
  "put_queries slot qs p = p\<lparr>pc_Slots := (pc_Slots p)(slot := qs)\<rparr>"

definition pc_Prune :: "int \<Rightarrow> rat \<Rightarrow> 'f PendingConVarQueries \<Rightarrow> 'f PendingConVarQueries" where
  "pc_Prune slot now p =
     (if \<not> IsValidSlot slot then p else put_queries slot (filter (\<lambda>q. \<not> TimeoutSec \<le> now - pq_SentAtSec q) (pc_Slots p slot)) p)"

definition pc_Find :: "int \<Rightarrow> string \<Rightarrow> 'f PendingConVarQueries \<Rightarrow> 'f PendingConVarQuery option" where
  "pc_Find slot name p = (if \<not> IsValidSlot slot then None else List.find (\<lambda>q. pq_Name q = name) (pc_Slots p slot))"

definition pc_Count :: "int \<Rightarrow> 'f PendingConVarQueries \<Rightarrow> nat" where
  "pc_Count slot p = (if IsValidSlot slot then length (pc_Slots p slot) else 0)"

definition pc_Full :: "int \<Rightarrow> 'f PendingConVarQueries \<Rightarrow> bool" where
  "pc_Full slot p \<longleftrightarrow> MaxPendingPerSlot \<le> pc_Count slot p"

text \<open>The counter after one increment, wrapped.\<close>

definition next_counter :: "32 word \<Rightarrow> 32 word" where
  "next_counter c = (if MaxCookie < c + 1 then 1 else c + 1)"

fun cookie_loop :: "nat \<Rightarrow> 'f PendingConVarQuery list \<Rightarrow> 32 word \<Rightarrow> int \<times> 32 word" where
  "cookie_loop 0 qs c = (-1, c)"
| "cookie_loop (Suc attempts) qs c =
     (let c1 = next_counter c; cookie = sint c1
      in if list_all (\<lambda>q. pq_Cookie q \<noteq> cookie) qs then (cookie, c1) else cookie_loop attempts qs c1)"

definition pc_NextCookie :: "int \<Rightarrow> 'f PendingConVarQueries \<Rightarrow> int \<times> 'f PendingConVarQueries" where
  "pc_NextCookie slot p =
     (if \<not> IsValidSlot slot then (-1, p)
      else case cookie_loop (MaxPendingPerSlot + 1) (pc_Slots p slot) (pc_CookieCounter p) of
             (cookie, c) \<Rightarrow> (cookie, p\<lparr>pc_CookieCounter := c\<rparr>))"

definition pc_Add :: "int \<Rightarrow> int \<Rightarrow> string \<Rightarrow> 'f \<Rightarrow> rat \<Rightarrow> 'f PendingConVarQueries \<Rightarrow> 'f PendingConVarQueries" where
  "pc_Add slot cookie name callback now p =
     (if \<not> IsValidSlot slot \<or> cookie < 0 then p
      else put_queries slot (pc_Slots p slot @ [\<lparr>pq_Name = name, pq_Callback = callback, pq_SentAtSec = now, pq_Cookie = cookie\<rparr>]) p)"

definition pc_Take :: "int \<Rightarrow> int \<Rightarrow> string \<Rightarrow> 'f PendingConVarQueries \<Rightarrow> 'f PendingConVarQuery option \<times> 'f PendingConVarQueries" where
  "pc_Take slot cookie name p =
     (if \<not> IsValidSlot slot then (None, p)
      else case List.find (\<lambda>q. pq_Cookie q = cookie) (pc_Slots p slot) of
             None \<Rightarrow> (None, p)
           | Some q \<Rightarrow> if pq_Name q \<noteq> name then (None, p)
                       else (Some q, put_queries slot (erase_first (\<lambda>q. pq_Cookie q = cookie) (pc_Slots p slot)) p))"

definition pc_Clear :: "int \<Rightarrow> 'f PendingConVarQueries \<Rightarrow> 'f PendingConVarQueries" where
  "pc_Clear slot p = (if IsValidSlot slot then put_queries slot [] p else p)"

definition pc_ClearAll :: "'f PendingConVarQueries \<Rightarrow> 'f PendingConVarQueries" where
  "pc_ClearAll p = p\<lparr>pc_Slots := (\<lambda>_. [])\<rparr>"

section \<open>The service\<close>

datatype ClientConVarStatus = Answered | NotFound | NotAConVar | Protected

text \<open>The status codes the protocol allows.\<close>

definition status_of :: "int \<Rightarrow> ClientConVarStatus option" where
  "status_of code = (if code = 0 then Some Answered else if code = 1 then Some NotFound
     else if code = 2 then Some NotAConVar else if code = 3 then Some Protected else None)"

record RespondCvarValue =
  rs_cookie :: "int option"
  rs_status :: "int option"
  rs_name :: "string option"
  rs_value :: "string option"

record ('f, 'w) convar_state =
  cc_Pending :: "'f PendingConVarQueries"
  cc_Sent :: "(int \<times> string \<times> int) list"
  cc_World :: 'w

record 'f convar_env =
  ce_Hooked :: bool
  ce_HasChannel :: "int \<Rightarrow> bool"
  ce_Allocates :: bool
  ce_Now :: rat

definition convar_Send :: "'f convar_env \<Rightarrow> int \<Rightarrow> string \<Rightarrow> int \<Rightarrow> ('f, 'w) convar_state \<Rightarrow> bool \<times> ('f, 'w) convar_state" where
  "convar_Send env slot name cookie s =
     (if \<not> ce_HasChannel env slot then (False, s)
      else if \<not> ce_Allocates env then (False, s)
      else (True, s\<lparr>cc_Sent := cc_Sent s @ [(slot, name, cookie)]\<rparr>))"

definition retarget :: "int \<Rightarrow> string \<Rightarrow> 'f \<Rightarrow> 'f PendingConVarQueries \<Rightarrow> 'f PendingConVarQueries" where
  "retarget slot name callback p =
     put_queries slot (update_first (\<lambda>q. pq_Name q = name) (\<lambda>q. q\<lparr>pq_Callback := callback\<rparr>) (pc_Slots p slot)) p"

definition convar_Query :: "'f convar_env \<Rightarrow> int \<Rightarrow> string \<Rightarrow> 'f option \<Rightarrow> ('f, 'w) convar_state \<Rightarrow> bool \<times> ('f, 'w) convar_state" where
  "convar_Query env slot name callback s =
     (case callback of None \<Rightarrow> (False, s) | Some f \<Rightarrow>
      if \<not> ce_Hooked env \<or> \<not> IsValidSlot slot \<or> name = [] then (False, s)
      else let p = pc_Prune slot (ce_Now env) (cc_Pending s)
      in if pc_Find slot name p \<noteq> None then (True, s\<lparr>cc_Pending := retarget slot name f p\<rparr>)
      else if pc_Full slot p then (False, s\<lparr>cc_Pending := p\<rparr>)
      else case pc_NextCookie slot p of
        (cookie, p1) \<Rightarrow>
          if cookie < 0 then (False, s\<lparr>cc_Pending := p1\<rparr>)
          else case convar_Send env slot name cookie (s\<lparr>cc_Pending := p1\<rparr>) of
            (False, s1) \<Rightarrow> (False, s1)
          | (True, s1) \<Rightarrow> (True, s1\<lparr>cc_Pending := pc_Add slot cookie name f (ce_Now env) (cc_Pending s1)\<rparr>))"

text \<open>What a well-formed answer says: the cookie, the status, the name and the value.\<close>

definition read_answer :: "int \<Rightarrow> RespondCvarValue \<Rightarrow> (int \<times> ClientConVarStatus \<times> string \<times> string) option" where
  "read_answer slot msg =
     (case (rs_cookie msg, rs_status msg, rs_name msg) of
        (Some cookie, Some code, Some name) \<Rightarrow>
          if \<not> IsValidSlot slot then None
          else (case status_of code of
             None \<Rightarrow> None
           | Some status \<Rightarrow>
               if status = Answered then (case rs_value msg of
                   None \<Rightarrow> None
                 | Some v \<Rightarrow> if CHR 0x00 \<in> set v then None else Some (cookie, status, name, v))
               else Some (cookie, status, name, []))
      | _ \<Rightarrow> None)"

definition OnRespondCvarValue :: "('f \<Rightarrow> int \<Rightarrow> ClientConVarStatus \<Rightarrow> string \<Rightarrow> string \<Rightarrow> ('f, 'w) convar_state \<Rightarrow> ('f, 'w) convar_state)
    \<Rightarrow> int \<Rightarrow> RespondCvarValue \<Rightarrow> ('f, 'w) convar_state \<Rightarrow> ('f, 'w) convar_state" where
  "OnRespondCvarValue run slot msg s =
     (case read_answer slot msg of
        None \<Rightarrow> s
      | Some (cookie, status, name, v) \<Rightarrow>
          (case pc_Take slot cookie name (cc_Pending s) of
             (None, p) \<Rightarrow> s\<lparr>cc_Pending := p\<rparr>
           | (Some q, p) \<Rightarrow> run (pq_Callback q) slot status name v (s\<lparr>cc_Pending := p\<rparr>)))"

definition convar_slot_changed :: "int \<Rightarrow> ('f, 'w) convar_state \<Rightarrow> ('f, 'w) convar_state" where
  "convar_slot_changed slot s = s\<lparr>cc_Pending := pc_Clear slot (cc_Pending s)\<rparr>"

definition convar_OnServerStartup :: "('f, 'w) convar_state \<Rightarrow> ('f, 'w) convar_state" where
  "convar_OnServerStartup s = s\<lparr>cc_Pending := pc_ClearAll (cc_Pending s)\<rparr>"

section \<open>Cookies\<close>

definition max_cookie :: nat where "max_cookie = 2147483647"

lemma MaxCookie_nat: "unat MaxCookie = max_cookie"
  by (simp add: MaxCookie_def max_cookie_def)

lemma max_cookie_bounds: "0 < max_cookie" "12 \<le> max_cookie" "max_cookie < 2 ^ 31"
  by (simp_all add: max_cookie_def)

lemma sint_small:
  fixes w :: "32 word"
  assumes "unat w < 2 ^ 31"
  shows "sint w = int (unat w)"
proof -
  have "int (unat w) < int (2 ^ 31)" using assms by (simp only: of_nat_less_iff)
  then have "signed_take_bit 31 (int (unat w)) = int (unat w)" by (intro signed_take_bit_int_eq_self) (rule order_trans[of _ 0], simp, rule of_nat_0_le_iff, simp)
  then show ?thesis by (simp add: sint_uint)
qed

lemma next_counter_nat:
  assumes "unat c \<le> max_cookie"
  shows "unat (next_counter c) = unat c mod max_cookie + 1" "sint (next_counter c) = int (unat c mod max_cookie + 1)"
proof -
  have plus: "unat (c + 1) = unat c + 1" using assms by (simp add: unat_word_ariths max_cookie_def)
  show n: "unat (next_counter c) = unat c mod max_cookie + 1"
  proof (cases "unat c = max_cookie")
    case True
    then show ?thesis using plus by (simp add: next_counter_def word_less_nat_alt MaxCookie_nat)
  next
    case False
    then show ?thesis using plus assms by (simp add: next_counter_def word_less_nat_alt MaxCookie_nat)
  qed
  have "unat c mod max_cookie < max_cookie" using max_cookie_bounds(1) by simp
  then have "unat (next_counter c) < 2 ^ 31" using n max_cookie_bounds(3) by linarith
  then have "sint (next_counter c) = int (unat (next_counter c))" by (rule sint_small)
  then show "sint (next_counter c) = int (unat c mod max_cookie + 1)" by (simp only: n)
qed

lemma cookie_loop_result:
  assumes "cookie_loop n qs c = (r, c')" "unat c \<le> max_cookie"
  shows "unat c' \<le> max_cookie"
    and "r = -1 \<and> (\<forall>i<n. int ((unat c + i) mod max_cookie + 1) \<in> pq_Cookie ` set qs) \<or> 1 \<le> r \<and> r \<le> int max_cookie \<and> r \<notin> pq_Cookie ` set qs"
proof -
  have "unat c' \<le> max_cookie \<and> (r = -1 \<and> (\<forall>i<n. int ((unat c + i) mod max_cookie + 1) \<in> pq_Cookie ` set qs) \<or>
      1 \<le> r \<and> r \<le> int max_cookie \<and> r \<notin> pq_Cookie ` set qs)"
    using assms
  proof (induction n qs c arbitrary: r c' rule: cookie_loop.induct)
    case (2 n qs c)
    note nc = next_counter_nat[OF "2.prems"(2)]
    have "unat c mod max_cookie < max_cookie" using max_cookie_bounds(1) by simp
    then have le: "unat (next_counter c) \<le> max_cookie" using nc(1) by linarith
    show ?case
    proof (cases "list_all (\<lambda>q. pq_Cookie q \<noteq> sint (next_counter c)) qs")
      case True
      then have r: "r = sint (next_counter c)" and "c' = next_counter c" using "2.prems"(1) by (auto simp: Let_def)
      moreover have "r \<notin> pq_Cookie ` set qs" using True r by (auto simp: list_all_iff)
      moreover have "1 \<le> r" "r \<le> int max_cookie" using r nc le by linarith+
      ultimately show ?thesis using le by blast
    next
      case False
      then have used: "int (unat c mod max_cookie + 1) \<in> pq_Cookie ` set qs" unfolding nc(2)[symmetric] by (auto simp: list_all_iff intro: rev_image_eqI)
      have "cookie_loop n qs (next_counter c) = (r, c')" using "2.prems"(1) False by (simp add: Let_def)
      note ih = "2.IH"[OF refl refl False this le]
      have "(unat (next_counter c) + i) mod max_cookie = (unat c + Suc i) mod max_cookie" for i
      proof -
        have "(unat (next_counter c) + i) mod max_cookie = (unat c mod max_cookie + (1 + i)) mod max_cookie" by (simp add: nc(1) add.assoc)
        also have "\<dots> = (unat c + (1 + i)) mod max_cookie" by (rule mod_add_left_eq)
        finally show ?thesis by simp
      qed
      then have "int ((unat c + i) mod max_cookie + 1) \<in> pq_Cookie ` set qs"
        if "\<forall>i<n. int ((unat (next_counter c) + i) mod max_cookie + 1) \<in> pq_Cookie ` set qs" "i < Suc n" for i
        using that used by (cases i) auto
      then show ?thesis using ih by blast
    qed
  qed simp
  then show "unat c' \<le> max_cookie" "r = -1 \<and> (\<forall>i<n. int ((unat c + i) mod max_cookie + 1) \<in> pq_Cookie ` set qs) \<or> 1 \<le> r \<and> r \<le> int max_cookie \<and> r \<notin> pq_Cookie ` set qs"
    by blast+
qed

text \<open>A slot with room always has a free cookie: one more attempt than there can be questions.\<close>

lemma shifted_inj:
  assumes "n \<le> max_cookie"
  shows "inj_on (\<lambda>i. int ((a + i) mod max_cookie + 1)) {..<n}"
proof (rule inj_onI)
  fix i j assume ij: "i \<in> {..<n}" "j \<in> {..<n}" "int ((a + i) mod max_cookie + 1) = int ((a + j) mod max_cookie + 1)"
  then have "(a + i) mod max_cookie = (a + j) mod max_cookie" by simp
  then have "int (a + i) mod int max_cookie = int (a + j) mod int max_cookie" by (simp only: zmod_int[symmetric])
  then have "(int (a + i) - int a) mod int max_cookie = (int (a + j) - int a) mod int max_cookie" by (rule mod_diff_cong) simp
  then have "int i mod int max_cookie = int j mod int max_cookie" by simp
  then have "i mod max_cookie = j mod max_cookie" by (simp only: zmod_int[symmetric] of_nat_eq_iff)
  then show "i = j" using ij assms by simp
qed

lemma cookie_free:
  assumes "cookie_loop n qs c = (r, c')" "unat c \<le> max_cookie" "length qs < n" "n \<le> max_cookie"
  shows "1 \<le> r \<and> r \<le> int max_cookie \<and> r \<notin> pq_Cookie ` set qs"
proof -
  have "\<not> (\<forall>i<n. int ((unat c + i) mod max_cookie + 1) \<in> pq_Cookie ` set qs)"
  proof
    assume all: "\<forall>i<n. int ((unat c + i) mod max_cookie + 1) \<in> pq_Cookie ` set qs"
    have "n = card ((\<lambda>i. int ((unat c + i) mod max_cookie + 1)) ` {..<n})" using shifted_inj[OF assms(4)] by (simp add: card_image)
    also have "\<dots> \<le> card (pq_Cookie ` set qs)" using all by (intro card_mono) auto
    also have "\<dots> \<le> length qs" by (meson List.finite_set card_image_le card_length le_trans)
    finally show False using assms(3) by simp
  qed
  then show ?thesis using cookie_loop_result(2)[OF assms(1,2)] by blast
qed

section \<open>The table stays in order\<close>

definition queries_ok :: "'f PendingConVarQuery list \<Rightarrow> bool" where
  "queries_ok qs \<longleftrightarrow> distinct (map pq_Cookie qs) \<and> distinct (map pq_Name qs) \<and> length qs \<le> MaxPendingPerSlot \<and>
     (\<forall>q\<in>set qs. 1 \<le> pq_Cookie q \<and> pq_Cookie q \<le> int max_cookie)"

definition pending_ok :: "'f PendingConVarQueries \<Rightarrow> bool" where
  "pending_ok p \<longleftrightarrow> unat (pc_CookieCounter p) \<le> max_cookie \<and> (\<forall>slot. queries_ok (pc_Slots p slot))"

lemma queries_ok_Nil [simp]: "queries_ok []"
  by (simp add: queries_ok_def)

lemma queries_ok_filter: "queries_ok qs \<Longrightarrow> queries_ok (filter P qs)"
  using length_filter_le[of P qs] by (auto simp: queries_ok_def distinct_map_filter intro: le_trans[OF length_filter_le])

lemma pending_put: "pending_ok p \<Longrightarrow> queries_ok qs \<Longrightarrow> pending_ok (put_queries slot qs p)"
  by (simp add: pending_ok_def put_queries_def)

lemma pending_ops:
  assumes "pending_ok p"
  shows "pending_ok (pc_Prune slot now p)" "pending_ok (pc_Clear slot p)" "pending_ok (pc_ClearAll p)" "pending_ok (retarget slot name f p)"
proof -
  show "pending_ok (pc_Prune slot now p)" "pending_ok (pc_Clear slot p)" "pending_ok (pc_ClearAll p)"
    using assms queries_ok_filter by (auto simp: pc_Prune_def pc_Clear_def pc_ClearAll_def intro!: pending_put) (auto simp: pending_ok_def)
  let ?qs = "update_first (\<lambda>q. pq_Name q = name) (\<lambda>q. q\<lparr>pq_Callback := f\<rparr>) (pc_Slots p slot)"
  have maps: "map pq_Cookie ?qs = map pq_Cookie (pc_Slots p slot)" "map pq_Name ?qs = map pq_Name (pc_Slots p slot)" by (simp_all add: map_update_first_key)
  have "pq_Cookie ` set ?qs = pq_Cookie ` set (pc_Slots p slot)" using arg_cong[OF maps(1), of set] by simp
  moreover have "queries_ok (pc_Slots p slot)" using assms by (simp add: pending_ok_def)
  ultimately have "queries_ok ?qs" using maps unfolding queries_ok_def by (metis (no_types, lifting) imageE imageI length_update_first)
  then show "pending_ok (retarget slot name f p)" using assms by (simp add: retarget_def pending_put)
qed

lemma Take_result:
  assumes "pending_ok p" "IsValidSlot slot"
  shows "pc_Take slot cookie name p =
    (case List.find (\<lambda>q. pq_Cookie q = cookie \<and> pq_Name q = name) (pc_Slots p slot) of None \<Rightarrow> (None, p)
     | Some q \<Rightarrow> (Some q, put_queries slot (filter (\<lambda>q. pq_Cookie q \<noteq> cookie) (pc_Slots p slot)) p))"
proof -
  have d: "distinct (map pq_Cookie (pc_Slots p slot))" using assms(1) by (simp add: pending_ok_def queries_ok_def)
  have one: "q = q'" if "q \<in> set (pc_Slots p slot)" "q' \<in> set (pc_Slots p slot)" "pq_Cookie q = pq_Cookie q'" for q q'
    using d that by (simp add: distinct_map inj_on_def)
  show ?thesis
  proof (cases "List.find (\<lambda>q. pq_Cookie q = cookie) (pc_Slots p slot)")
    case None
    then have "List.find (\<lambda>q. pq_Cookie q = cookie \<and> pq_Name q = name) (pc_Slots p slot) = None" by (auto simp: find_None_iff_all)
    then show ?thesis using None assms(2) by (simp add: pc_Take_def)
  next
    case (Some q)
    then have q: "q \<in> set (pc_Slots p slot)" "pq_Cookie q = cookie" using find_SomeD[OF Some] by auto
    have "List.find (\<lambda>q. pq_Cookie q = cookie \<and> pq_Name q = name) (pc_Slots p slot) = (if pq_Name q = name then Some q else None)"
    proof (cases "pq_Name q = name")
      case True
      obtain q' where "List.find (\<lambda>q. pq_Cookie q = cookie \<and> pq_Name q = name) (pc_Slots p slot) = Some q'"
        using q True by (cases "List.find (\<lambda>q. pq_Cookie q = cookie \<and> pq_Name q = name) (pc_Slots p slot)") (auto simp: find_None_iff_all)
      moreover have "q' = q" using find_SomeD[OF calculation] one q by auto
      ultimately show ?thesis using True by simp
    qed (use q one in \<open>auto simp: find_None_iff_all\<close>)
    then show ?thesis using Some assms(2) by (simp add: pc_Take_def erase_first_distinct[OF d])
  qed
qed

lemma pending_Take: "pending_ok p \<Longrightarrow> pending_ok (snd (pc_Take slot cookie name p))"
proof (cases "IsValidSlot slot")
  case True
  assume ok: "pending_ok p"
  then have "queries_ok (pc_Slots p slot)" by (simp add: pending_ok_def)
  then have "pending_ok (put_queries slot (filter P (pc_Slots p slot)) p)" for P using ok by (intro pending_put queries_ok_filter)
  then show ?thesis using ok by (simp add: Take_result[OF ok True] split: option.split)
qed (simp add: pc_Take_def)

lemma Add_ok:
  assumes "pending_ok p" "length (pc_Slots p slot) < MaxPendingPerSlot" "name \<notin> pq_Name ` set (pc_Slots p slot)"
    "1 \<le> cookie" "cookie \<le> int max_cookie" "cookie \<notin> pq_Cookie ` set (pc_Slots p slot)"
  shows "pending_ok (pc_Add slot cookie name f now p)"
proof -
  have "queries_ok (pc_Slots p slot)" using assms(1) by (simp add: pending_ok_def)
  then have "queries_ok (pc_Slots p slot @ [\<lparr>pq_Name = name, pq_Callback = f, pq_SentAtSec = now, pq_Cookie = cookie\<rparr>])"
    using assms by (auto simp: queries_ok_def)
  then show ?thesis using assms(1) by (simp add: pc_Add_def pending_put)
qed

text \<open>What asking for a cookie does when the slot has room.\<close>

lemma NextCookie_room:
  assumes "pending_ok p" "IsValidSlot slot" "\<not> pc_Full slot p"
  obtains cookie p1 where "pc_NextCookie slot p = (cookie, p1)" "pending_ok p1" "pc_Slots p1 = pc_Slots p" "1 \<le> cookie" "cookie \<le> int max_cookie"
    "cookie \<notin> pq_Cookie ` set (pc_Slots p slot)"
proof -
  obtain cookie c where loop: "cookie_loop (MaxPendingPerSlot + 1) (pc_Slots p slot) (pc_CookieCounter p) = (cookie, c)" by fastforce
  have c: "unat (pc_CookieCounter p) \<le> max_cookie" using assms(1) by (simp add: pending_ok_def)
  have "length (pc_Slots p slot) < MaxPendingPerSlot + 1" using assms(2,3) by (simp add: pc_Full_def pc_Count_def)
  moreover have "MaxPendingPerSlot + 1 \<le> max_cookie" by (simp add: MaxPendingPerSlot_def max_cookie_def)
  ultimately have fresh: "1 \<le> cookie \<and> cookie \<le> int max_cookie \<and> cookie \<notin> pq_Cookie ` set (pc_Slots p slot)"
    by (rule cookie_free[OF loop c])
  have "pending_ok (p\<lparr>pc_CookieCounter := c\<rparr>)" using assms(1) cookie_loop_result(1)[OF loop c] by (simp add: pending_ok_def)
  then show ?thesis using that[of cookie "p\<lparr>pc_CookieCounter := c\<rparr>"] fresh loop assms(2) by (simp add: pc_NextCookie_def)
qed

lemma Find_none: "IsValidSlot slot \<Longrightarrow> pc_Find slot name p = None \<longleftrightarrow> name \<notin> pq_Name ` set (pc_Slots p slot)"
  by (auto simp: pc_Find_def find_None_iff_all)

lemma Query_ok:
  assumes "pending_ok (cc_Pending s)"
  shows "pending_ok (cc_Pending (snd (convar_Query env slot name callback s)))"
proof (cases "callback = None \<or> \<not> ce_Hooked env \<or> \<not> IsValidSlot slot \<or> name = []")
  case True
  then show ?thesis using assms by (auto simp: convar_Query_def split: option.split)
next
  case False
  then obtain f where f: "callback = Some f" and v: "IsValidSlot slot" by auto
  let ?p = "pc_Prune slot (ce_Now env) (cc_Pending s)"
  have p: "pending_ok ?p" "pending_ok (retarget slot name f ?p)" using pending_ops[OF assms] pending_ops(4)[OF pending_ops(1)[OF assms]] by blast+
  show ?thesis
  proof (cases "pc_Find slot name ?p = None \<and> \<not> pc_Full slot ?p")
    case True
    then obtain cookie p1 where n: "pc_NextCookie slot ?p = (cookie, p1)" "pending_ok p1" "pc_Slots p1 = pc_Slots ?p" "1 \<le> cookie"
        "cookie \<le> int max_cookie" "cookie \<notin> pq_Cookie ` set (pc_Slots ?p slot)"
      using NextCookie_room[OF p(1) v] by blast
    have "length (pc_Slots p1 slot) < MaxPendingPerSlot" using True v n(3) by (simp add: pc_Full_def pc_Count_def)
    then have "pending_ok (pc_Add slot cookie name f (ce_Now env) p1)"
      by (rule Add_ok[OF n(2)]) (use n(3-6) Find_none[OF v, of name ?p] True in simp_all)
    then show ?thesis using True False f n by (simp add: convar_Query_def convar_Send_def Let_def)
  next
    case no: False
    then show ?thesis using False f p by (auto simp: convar_Query_def Let_def)
  qed
qed

lemma Query_room:
  assumes "pending_ok (cc_Pending s)" "ce_Hooked env" "IsValidSlot slot" "name \<noteq> []" "ce_HasChannel env slot" "ce_Allocates env"
    "\<not> pc_Full slot (pc_Prune slot (ce_Now env) (cc_Pending s))"
  shows "fst (convar_Query env slot name (Some f) s)"
proof (cases "pc_Find slot name (pc_Prune slot (ce_Now env) (cc_Pending s))")
  case None
  obtain cookie p1 where "pc_NextCookie slot (pc_Prune slot (ce_Now env) (cc_Pending s)) = (cookie, p1)" "1 \<le> cookie"
    using NextCookie_room[OF pending_ops(1)[OF assms(1)] assms(3,7)] by blast
  then show ?thesis using assms None by (simp add: convar_Query_def convar_Send_def Let_def)
qed (use assms in \<open>simp add: convar_Query_def Let_def\<close>)

section \<open>Everything that can happen to the service\<close>

inductive convar_run :: "('f \<Rightarrow> int \<Rightarrow> ClientConVarStatus \<Rightarrow> string \<Rightarrow> string \<Rightarrow> ('f, 'w) convar_state \<Rightarrow> ('f, 'w) convar_state)
    \<Rightarrow> ('f, 'w) convar_state \<Rightarrow> ('f, 'w) convar_state \<Rightarrow> bool" for run where
  Idle: "convar_run run s s"
| Ask: "convar_run run s s1 \<Longrightarrow> convar_run run s (snd (convar_Query env slot name callback s1))"
| Reply: "\<lbrakk>convar_run run s s1; read_answer slot msg = Some (cookie, status, name, v); pc_Take slot cookie name (cc_Pending s1) = (Some q, p);
     convar_run run (s1\<lparr>cc_Pending := p\<rparr>) (run (pq_Callback q) slot status name v (s1\<lparr>cc_Pending := p\<rparr>))\<rbrakk>
     \<Longrightarrow> convar_run run s (OnRespondCvarValue run slot msg s1)"
| Left: "convar_run run s s1 \<Longrightarrow> convar_run run s (convar_slot_changed slot s1)"
| Started: "convar_run run s s1 \<Longrightarrow> convar_run run s (convar_OnServerStartup s1)"
| Elsewhere: "convar_run run s s1 \<Longrightarrow> convar_run run s (s1\<lparr>cc_World := w\<rparr>)"

lemma convar_run_ok: "convar_run run s s' \<Longrightarrow> pending_ok (cc_Pending s) \<Longrightarrow> pending_ok (cc_Pending s')"
proof (induction rule: convar_run.induct)
  case (Reply s s1 slot msg cookie status name v q p)
  have "pending_ok p" using pending_Take[of "cc_Pending s1" slot cookie name] Reply by simp
  then have "pending_ok (cc_Pending (run (pq_Callback q) slot status name v (s1\<lparr>cc_Pending := p\<rparr>)))" using Reply by simp
  then show ?case using Reply.hyps by (simp add: OnRespondCvarValue_def)
qed (simp_all add: Query_ok convar_slot_changed_def convar_OnServerStartup_def pending_ops)

lemma pending_ok_init: "pending_ok pc_init"
  by (simp add: pending_ok_def pc_init_def)

text \<open>
  C23: Whatever plugins ask, clients answer and slots do, callbacks that ask again included: the questions open for a
  slot have different cookies, all positive numbers of 31 bits, and different names, and there are at most eleven. A question to a
  reachable client is taken whenever the slot has room (the search for a cookie never gives up). An answer runs the callback of
  the one question with its cookie and its name, which is gone by then, so it is answered once; any other answer changes nothing.
\<close>

theorem convar_answers:
  assumes "convar_run run s0 s" "cc_Pending s0 = pc_init"
  shows "(\<forall>slot. queries_ok (pc_Slots (cc_Pending s) slot)) \<and>
    (\<forall>env slot name f. ce_Hooked env \<and> IsValidSlot slot \<and> name \<noteq> [] \<and> ce_HasChannel env slot \<and> ce_Allocates env \<and>
        \<not> pc_Full slot (pc_Prune slot (ce_Now env) (cc_Pending s)) \<longrightarrow> fst (convar_Query env slot name (Some f) s)) \<and>
    (\<forall>slot msg. OnRespondCvarValue run slot msg s =
       (case read_answer slot msg of
          None \<Rightarrow> s
        | Some (cookie, status, name, v) \<Rightarrow>
            (case List.find (\<lambda>q. pq_Cookie q = cookie \<and> pq_Name q = name) (pc_Slots (cc_Pending s) slot) of
               None \<Rightarrow> s
             | Some q \<Rightarrow> run (pq_Callback q) slot status name v
                 (s\<lparr>cc_Pending := put_queries slot (filter (\<lambda>q. pq_Cookie q \<noteq> cookie) (pc_Slots (cc_Pending s) slot)) (cc_Pending s)\<rparr>))))"
proof (intro conjI allI impI)
  have ok: "pending_ok (cc_Pending s)" using convar_run_ok[OF assms(1)] pending_ok_init assms(2) by simp
  then show "queries_ok (pc_Slots (cc_Pending s) slot)" for slot by (simp add: pending_ok_def)
  show "fst (convar_Query env slot name (Some f) s)"
    if "ce_Hooked env \<and> IsValidSlot slot \<and> name \<noteq> [] \<and> ce_HasChannel env slot \<and> ce_Allocates env \<and>
        \<not> pc_Full slot (pc_Prune slot (ce_Now env) (cc_Pending s))" for env slot name f
    using Query_room[OF ok] that by blast
  fix slot msg
  show "OnRespondCvarValue run slot msg s =
       (case read_answer slot msg of
          None \<Rightarrow> s
        | Some (cookie, status, name, v) \<Rightarrow>
            (case List.find (\<lambda>q. pq_Cookie q = cookie \<and> pq_Name q = name) (pc_Slots (cc_Pending s) slot) of
               None \<Rightarrow> s
             | Some q \<Rightarrow> run (pq_Callback q) slot status name v
                 (s\<lparr>cc_Pending := put_queries slot (filter (\<lambda>q. pq_Cookie q \<noteq> cookie) (pc_Slots (cc_Pending s) slot)) (cc_Pending s)\<rparr>)))"
  proof (cases "read_answer slot msg")
    case (Some a)
    then have "IsValidSlot slot" by (auto simp: read_answer_def split: option.splits if_splits)
    then show ?thesis using Some by (cases a) (simp add: OnRespondCvarValue_def Take_result[OF ok] split: option.split)
  qed (simp add: OnRespondCvarValue_def)
qed

lemma convar_answers_witness:
  "let run = (\<lambda>f slot st n v s. s\<lparr>cc_World := cc_World s @ [(f, st, v)]\<rparr>);
       env = \<lparr>ce_Hooked = True, ce_HasChannel = (\<lambda>_. True), ce_Allocates = True, ce_Now = 0\<rparr>;
       s0 = \<lparr>cc_Pending = pc_init, cc_Sent = [], cc_World = []\<rparr>;
       s = snd (convar_Query env 3 ''rate'' (Some (7::nat)) s0);
       reply = \<lparr>rs_cookie = Some 1, rs_status = Some 0, rs_name = Some ''rate'', rs_value = Some ''9''\<rparr>
   in queries_ok (pc_Slots (cc_Pending s) 3) \<and> cc_Sent s = [(3, ''rate'', 1)] \<and>
      cc_World (OnRespondCvarValue run 3 reply s) = [(7, Answered, ''9'')] \<and>
      OnRespondCvarValue run 3 (reply\<lparr>rs_name := Some ''name''\<rparr>) s = s"
proof -
  let ?run = "\<lambda>(f::nat) (slot::int) st (n::string) v (s::(nat, (nat \<times> ClientConVarStatus \<times> string) list) convar_state). s\<lparr>cc_World := cc_World s @ [(f, st, v)]\<rparr>"
  let ?env = "\<lparr>ce_Hooked = True, ce_HasChannel = (\<lambda>_. True), ce_Allocates = True, ce_Now = 0\<rparr>"
  let ?init = "\<lparr>cc_Pending = pc_init, cc_Sent = [], cc_World = []\<rparr> :: (nat, (nat \<times> ClientConVarStatus \<times> string) list) convar_state"
  let ?s = "snd (convar_Query ?env 3 ''rate'' (Some (7::nat)) ?init)"
  have asked: "?s = \<lparr>cc_Pending = \<lparr>pc_Slots = (\<lambda>_. [])(3 := [\<lparr>pq_Name = ''rate'', pq_Callback = 7, pq_SentAtSec = 0, pq_Cookie = 1\<rparr>]),
      pc_CookieCounter = 1\<rparr>, cc_Sent = [(3, ''rate'', 1)], cc_World = []\<rparr>"
    by (simp add: convar_Query_def pc_Prune_def pc_init_def IsValidSlot_def MaxPlayers_def put_queries_def pc_Find_def pc_Full_def pc_Count_def
        MaxPendingPerSlot_def pc_NextCookie_def next_counter_def MaxCookie_def convar_Send_def pc_Add_def numeral_eq_Suc)
  have all: "(\<forall>slot. queries_ok (pc_Slots (cc_Pending ?s) slot)) \<and> (\<forall>slot msg. OnRespondCvarValue ?run slot msg ?s =
       (case read_answer slot msg of
          None \<Rightarrow> ?s
        | Some (cookie, status, name, v) \<Rightarrow>
            (case List.find (\<lambda>q. pq_Cookie q = cookie \<and> pq_Name q = name) (pc_Slots (cc_Pending ?s) slot) of
               None \<Rightarrow> ?s
             | Some q \<Rightarrow> ?run (pq_Callback q) slot status name v
                 (?s\<lparr>cc_Pending := put_queries slot (filter (\<lambda>q. pq_Cookie q \<noteq> cookie) (pc_Slots (cc_Pending ?s) slot)) (cc_Pending ?s)\<rparr>))))"
    using convar_answers[of ?run ?init ?s, OF convar_run.Ask[OF convar_run.Idle]] by simp
  let ?reply = "\<lparr>rs_cookie = Some 1, rs_status = Some 0, rs_name = Some ''rate'', rs_value = Some ''9''\<rparr>"
  note answer = all[THEN conjunct2, THEN spec, THEN spec, of 3] and ev = read_answer_def IsValidSlot_def MaxPlayers_def status_of_def
  have "queries_ok (pc_Slots (cc_Pending ?s) 3)" using all by blast
  moreover have "cc_World (OnRespondCvarValue ?run 3 ?reply ?s) = [(7, Answered, ''9'')]"
    unfolding answer[of ?reply] unfolding asked by (simp add: ev)
  moreover have "OnRespondCvarValue ?run 3 (?reply\<lparr>rs_name := Some ''name''\<rparr>) ?s = ?s"
    unfolding answer[of "?reply\<lparr>rs_name := Some ''name''\<rparr>"] unfolding asked by (simp add: ev)
  moreover have "cc_Sent ?s = [(3, ''rate'', 1)]" by (simp add: asked)
  ultimately show ?thesis unfolding Let_def by blast
qed

end
