(* ===== verification/Visibility.thy ===== *)
theory Visibility
  imports Slots Targeting
begin

text \<open>
  Which clients receive which entities, filtered after the engine's CheckTransmit. Sources: \<^verbatim>\<open>src/Hooks/Visibility.cpp\<close>,
  \<^verbatim>\<open>include/VoltMod/Hooks/Visibility.hpp\<close>, \<^verbatim>\<open>include/VoltMod/Engine/Team.hpp\<close>. The entities of the map are an argument: what a handle
  resolves to, the controller of a slot, its pawns and what they carry; a pointer is a number. A transmit bit set is a function of the entity index.
\<close>

section \<open>What the engine shows\<close>

definition IsPlaying :: "Team \<Rightarrow> bool" where
  "IsPlaying team \<longleftrightarrow> team = Team_T \<or> team = Team_CT"

record PawnView =
  pa_Raw :: nat
  pa_Index :: int
  pa_Weapons :: "nat list option"
  pa_Wearables :: "nat list option"
  pa_ObserverTarget :: "nat option"

record ControllerView =
  ct_Index :: int
  ct_Team :: Team
  ct_Pawn :: "PawnView option"
  ct_InputPawn :: "PawnView option"

record Entities =
  en_Get :: "nat \<Rightarrow> (nat \<times> int) option"
  en_Controller :: "int \<Rightarrow> ControllerView option"

definition Unset :: nat where "Unset = 0xFFFFFFFF"

definition en_Index :: "Entities \<Rightarrow> nat \<Rightarrow> int" where
  "en_Index env ref = (case en_Get env ref of None \<Rightarrow> -1 | Some (_, index) \<Rightarrow> index)"

record TransmitInfo =
  ti_Slot :: int
  ti_TransmitEntity :: "(int \<Rightarrow> bool) option"

section \<open>State\<close>

record SlotState =
  st_PawnHidden :: bool
  st_ControllerHidden :: bool

definition st_Any :: "SlotState \<Rightarrow> bool" where
  "st_Any s \<longleftrightarrow> st_PawnHidden s \<or> st_ControllerHidden s"

definition new_slot_state :: SlotState where
  "new_slot_state = \<lparr>st_PawnHidden = False, st_ControllerHidden = False\<rparr>"

record PrivateEntity =
  pe_Entity :: nat
  pe_Viewer :: int
  pe_ShownTo :: Team
  pe_HiddenFrom :: Team
  pe_Index :: int

record Visibility =
  vi_state :: "SlotState PerSlot"
  vi_private :: "PrivateEntity list"

definition vis_init :: Visibility where
  "vis_init = \<lparr>vi_state = (\<lambda>_. new_slot_state), vi_private = []\<rparr>"

section \<open>Operations\<close>

definition vis_slot_changed :: "int \<Rightarrow> Visibility \<Rightarrow> Visibility" where
  "vis_slot_changed slot v =
     (if \<not> IsValidSlot slot then v
      else v\<lparr>vi_state := (vi_state v)(slot := new_slot_state), vi_private := filter (\<lambda>e. pe_Viewer e \<noteq> slot) (vi_private v)\<rparr>)"

definition SetPawnHidden :: "int \<Rightarrow> bool \<Rightarrow> Visibility \<Rightarrow> Visibility" where
  "SetPawnHidden slot hidden v =
     (if IsValidSlot slot then v\<lparr>vi_state := (vi_state v)(slot := (vi_state v slot)\<lparr>st_PawnHidden := hidden\<rparr>)\<rparr> else v)"

definition SetControllerHidden :: "int \<Rightarrow> bool \<Rightarrow> Visibility \<Rightarrow> Visibility" where
  "SetControllerHidden slot hidden v =
     (if IsValidSlot slot then v\<lparr>vi_state := (vi_state v)(slot := (vi_state v slot)\<lparr>st_ControllerHidden := hidden\<rparr>)\<rparr> else v)"

definition IsPawnHidden :: "int \<Rightarrow> Visibility \<Rightarrow> bool" where
  "IsPawnHidden slot v \<longleftrightarrow> IsValidSlot slot \<and> st_PawnHidden (vi_state v slot)"

definition SetPrivate :: "PrivateEntity \<Rightarrow> Visibility \<Rightarrow> Visibility" where
  "SetPrivate entry v =
     (if \<exists>e\<in>set (vi_private v). pe_Entity e = pe_Entity entry
      then v\<lparr>vi_private := update_first (\<lambda>e. pe_Entity e = pe_Entity entry) (\<lambda>_. entry) (vi_private v)\<rparr>
      else v\<lparr>vi_private := vi_private v @ [entry]\<rparr>)"

definition private_entity :: "nat \<Rightarrow> PrivateEntity" where
  "private_entity entity = \<lparr>pe_Entity = entity, pe_Viewer = -1, pe_ShownTo = Team_None, pe_HiddenFrom = Team_None, pe_Index = -1\<rparr>"

definition ShowOnlyTo :: "nat \<Rightarrow> int \<Rightarrow> Visibility \<Rightarrow> Visibility" where
  "ShowOnlyTo entity slot v =
     (if entity = Unset \<or> \<not> IsValidSlot slot then v else SetPrivate ((private_entity entity)\<lparr>pe_Viewer := slot\<rparr>) v)"

definition ShowOnlyToTeam :: "nat \<Rightarrow> Team \<Rightarrow> Visibility \<Rightarrow> Visibility" where
  "ShowOnlyToTeam entity team v =
     (if entity = Unset \<or> \<not> IsPlaying team then v else SetPrivate ((private_entity entity)\<lparr>pe_ShownTo := team\<rparr>) v)"

definition HideFromTeam :: "nat \<Rightarrow> Team \<Rightarrow> Visibility \<Rightarrow> Visibility" where
  "HideFromTeam entity team v =
     (if entity = Unset \<or> \<not> IsPlaying team then v else SetPrivate ((private_entity entity)\<lparr>pe_HiddenFrom := team\<rparr>) v)"

definition ShowToEveryone :: "nat \<Rightarrow> Visibility \<Rightarrow> Visibility" where
  "ShowToEveryone entity v = v\<lparr>vi_private := filter (\<lambda>e. pe_Entity e \<noteq> entity) (vi_private v)\<rparr>"

definition HiddenFor :: "PrivateEntity \<Rightarrow> int \<Rightarrow> Team \<Rightarrow> bool" where
  "HiddenFor e recipient recipientTeam =
     (if 0 \<le> pe_Viewer e then pe_Viewer e \<noteq> recipient
      else if pe_ShownTo e \<noteq> Team_None then pe_ShownTo e \<noteq> recipientTeam
      else pe_HiddenFrom e = recipientTeam)"

section \<open>The filter\<close>

definition MaxIndicesPerPlayer :: nat where "MaxIndicesPerPlayer = 24"

record HiddenPlayer =
  hp_Slot :: int
  hp_ControllerIndex :: int
  hp_Pawn :: "nat option"
  hp_PawnIndices :: "int list"

definition AddIndex :: "int \<Rightarrow> HiddenPlayer \<Rightarrow> HiddenPlayer" where
  "AddIndex index p =
     (if 0 < index \<and> length (hp_PawnIndices p) < MaxIndicesPerPlayer then p\<lparr>hp_PawnIndices := hp_PawnIndices p @ [index]\<rparr> else p)"

definition AddHandleVector :: "Entities \<Rightarrow> nat list option \<Rightarrow> HiddenPlayer \<Rightarrow> HiddenPlayer" where
  "AddHandleVector env vector p =
     (case vector of None \<Rightarrow> p | Some handles \<Rightarrow> fold (\<lambda>h. AddIndex (en_Index env h)) (take MaxIndicesPerPlayer handles) p)"

text \<open>\<^verbatim>\<open>Controller(slot).Pawn()\<close> and \<^verbatim>\<open>Controller(slot).InputPawn()\<close>: no pawn of no controller.\<close>

definition pawn_of :: "Entities \<Rightarrow> int \<Rightarrow> PawnView option" where
  "pawn_of env slot = (case en_Controller env slot of None \<Rightarrow> None | Some controller \<Rightarrow> ct_Pawn controller)"

definition input_pawn_of :: "Entities \<Rightarrow> int \<Rightarrow> PawnView option" where
  "input_pawn_of env slot = (case en_Controller env slot of None \<Rightarrow> None | Some controller \<Rightarrow> ct_InputPawn controller)"

definition ObserverTarget :: "Entities \<Rightarrow> int \<Rightarrow> nat option" where
  "ObserverTarget env recipient =
     (case input_pawn_of env recipient of
        None \<Rightarrow> None
      | Some pawn \<Rightarrow> (case pa_ObserverTarget pawn of None \<Rightarrow> None | Some ref \<Rightarrow> map_option fst (en_Get env ref)))"

definition CollectHiddenPlayer :: "Entities \<Rightarrow> int \<Rightarrow> bool \<Rightarrow> bool \<Rightarrow> HiddenPlayer" where
  "CollectHiddenPlayer env slot pawnHidden controllerHidden =
     (let out = \<lparr>hp_Slot = slot, hp_ControllerIndex = -1, hp_Pawn = None, hp_PawnIndices = []\<rparr>
      in case en_Controller env slot of
           None \<Rightarrow> out
         | Some controller \<Rightarrow>
             let out1 = (if controllerHidden then out\<lparr>hp_ControllerIndex := ct_Index controller\<rparr> else out)
             in if \<not> pawnHidden then out1
             else case ct_Pawn controller of
                    None \<Rightarrow> out1
                  | Some pawn \<Rightarrow> AddHandleVector env (pa_Wearables pawn) (AddHandleVector env (pa_Weapons pawn)
                                   (AddIndex (pa_Index pawn) (out1\<lparr>hp_Pawn := Some (pa_Raw pawn)\<rparr>))))"

definition clear_bit :: "int \<Rightarrow> (int \<Rightarrow> bool) \<Rightarrow> int \<Rightarrow> bool" where
  "clear_bit index bits = bits(index := False)"

definition clear_player :: "int \<Rightarrow> nat option \<Rightarrow> HiddenPlayer \<Rightarrow> (int \<Rightarrow> bool) \<Rightarrow> int \<Rightarrow> bool" where
  "clear_player recipient observed player bits =
     (if hp_Slot player = recipient then bits
      else let bits1 = (if observed \<noteq> hp_Pawn player then fold clear_bit (hp_PawnIndices player) bits else bits)
      in if 0 < hp_ControllerIndex player then clear_bit (hp_ControllerIndex player) bits1 else bits1)"

definition team_of :: "Entities \<Rightarrow> int \<Rightarrow> Team" where
  "team_of env slot = (case en_Controller env slot of None \<Rightarrow> Team_None | Some controller \<Rightarrow> ct_Team controller)"

definition clear_private :: "int \<Rightarrow> Team \<Rightarrow> PrivateEntity \<Rightarrow> (int \<Rightarrow> bool) \<Rightarrow> int \<Rightarrow> bool" where
  "clear_private recipient team e bits = (if HiddenFor e recipient team then clear_bit (pe_Index e) bits else bits)"

definition filter_info :: "Entities \<Rightarrow> HiddenPlayer list \<Rightarrow> PrivateEntity list \<Rightarrow> TransmitInfo \<Rightarrow> TransmitInfo" where
  "filter_info env hidden entries info =
     (case ti_TransmitEntity info of
        None \<Rightarrow> info
      | Some bits \<Rightarrow>
          let recipient = ti_Slot info;
              observed = (if hidden \<noteq> [] then ObserverTarget env recipient else None)
          in info\<lparr>ti_TransmitEntity := Some (fold (clear_private recipient (team_of env recipient)) entries
                    (fold (clear_player recipient observed) hidden bits))\<rparr>)"

definition refresh_private :: "Entities \<Rightarrow> PrivateEntity list \<Rightarrow> PrivateEntity list" where
  "refresh_private env entries = filter (\<lambda>e. \<not> pe_Index e \<le> 0) (map (\<lambda>e. e\<lparr>pe_Index := en_Index env (pe_Entity e)\<rparr>) entries)"

definition vis_OnCheckTransmit :: "Entities \<Rightarrow> bool \<Rightarrow> TransmitInfo option list option \<Rightarrow> Visibility \<Rightarrow> TransmitInfo option list option \<times> Visibility" where
  "vis_OnCheckTransmit env bound infoList v =
     (let v1 = v\<lparr>vi_private := refresh_private env (vi_private v)\<rparr>
      in if \<not> bound then (infoList, v1)
      else case infoList of
        None \<Rightarrow> (None, v1)
      | Some infos \<Rightarrow>
          if vi_private v1 = [] \<and> (\<forall>slot\<in>set all_slots. \<not> st_Any (vi_state v1 slot)) then (infoList, v1)
          else let hidden = map (\<lambda>slot. CollectHiddenPlayer env slot (st_PawnHidden (vi_state v1 slot)) (st_ControllerHidden (vi_state v1 slot)))
                              (filter (\<lambda>slot. st_Any (vi_state v1 slot)) all_slots)
               in (Some (map (map_option (filter_info env hidden (vi_private v1))) infos), v1))"

section \<open>What it promises\<close>

text \<open>Who may receive an entity, and the state as its callers think of it.\<close>

datatype Audience = OnlySlot int | OnlyTeam Team | NotTeam Team

record VisSpec =
  vs_PawnHidden :: "int \<Rightarrow> bool"
  vs_ControllerHidden :: "int \<Rightarrow> bool"
  vs_Audience :: "nat \<Rightarrow> Audience option"

datatype VisOp = HidePawn int bool | HideController int bool | Only nat int | OnlyFor nat Team | Except nat Team | Everyone nat
  | SlotChange int | Snapshot Entities bool "TransmitInfo option list option"

fun vis_step :: "VisOp \<Rightarrow> Visibility \<Rightarrow> Visibility" where
  "vis_step (HidePawn slot b) v = SetPawnHidden slot b v"
| "vis_step (HideController slot b) v = SetControllerHidden slot b v"
| "vis_step (Only e slot) v = ShowOnlyTo e slot v"
| "vis_step (OnlyFor e team) v = ShowOnlyToTeam e team v"
| "vis_step (Except e team) v = HideFromTeam e team v"
| "vis_step (Everyone e) v = ShowToEveryone e v"
| "vis_step (SlotChange slot) v = vis_slot_changed slot v"
| "vis_step (Snapshot env bound infos) v = snd (vis_OnCheckTransmit env bound infos v)"

fun spec_step :: "VisOp \<Rightarrow> VisSpec \<Rightarrow> VisSpec" where
  "spec_step (HidePawn slot b) s = (if IsValidSlot slot then s\<lparr>vs_PawnHidden := (vs_PawnHidden s)(slot := b)\<rparr> else s)"
| "spec_step (HideController slot b) s = (if IsValidSlot slot then s\<lparr>vs_ControllerHidden := (vs_ControllerHidden s)(slot := b)\<rparr> else s)"
| "spec_step (Only e slot) s = (if e = Unset \<or> \<not> IsValidSlot slot then s else s\<lparr>vs_Audience := (vs_Audience s)(e \<mapsto> OnlySlot slot)\<rparr>)"
| "spec_step (OnlyFor e team) s = (if e = Unset \<or> \<not> IsPlaying team then s else s\<lparr>vs_Audience := (vs_Audience s)(e \<mapsto> OnlyTeam team)\<rparr>)"
| "spec_step (Except e team) s = (if e = Unset \<or> \<not> IsPlaying team then s else s\<lparr>vs_Audience := (vs_Audience s)(e \<mapsto> NotTeam team)\<rparr>)"
| "spec_step (Everyone e) s = s\<lparr>vs_Audience := (vs_Audience s)(e := None)\<rparr>"
| "spec_step (SlotChange slot) s = (if \<not> IsValidSlot slot then s else s\<lparr>vs_PawnHidden := (vs_PawnHidden s)(slot := False),
     vs_ControllerHidden := (vs_ControllerHidden s)(slot := False),
     vs_Audience := (\<lambda>e. if vs_Audience s e = Some (OnlySlot slot) then None else vs_Audience s e)\<rparr>)"
| "spec_step (Snapshot env bound infos) s = s\<lparr>vs_Audience := (\<lambda>e. if en_Index env e \<le> 0 then None else vs_Audience s e)\<rparr>"

definition everything_shown :: VisSpec where
  "everything_shown = \<lparr>vs_PawnHidden = (\<lambda>_. False), vs_ControllerHidden = (\<lambda>_. False), vs_Audience = (\<lambda>_. None)\<rparr>"

fun excluded :: "Audience \<Rightarrow> int \<Rightarrow> Team \<Rightarrow> bool" where
  "excluded (OnlySlot slot) recipient team \<longleftrightarrow> recipient \<noteq> slot"
| "excluded (OnlyTeam t) recipient team \<longleftrightarrow> team \<noteq> t"
| "excluded (NotTeam t) recipient team \<longleftrightarrow> team = t"

text \<open>The indices a pawn takes with it when it is hidden.\<close>

definition carried :: "Entities \<Rightarrow> PawnView \<Rightarrow> int list" where
  "carried env pawn = take MaxIndicesPerPlayer (filter (\<lambda>i. 0 < i) (pa_Index pawn #
     map (en_Index env) (take MaxIndicesPerPlayer (case pa_Weapons pawn of None \<Rightarrow> [] | Some hs \<Rightarrow> hs)) @
     map (en_Index env) (take MaxIndicesPerPlayer (case pa_Wearables pawn of None \<Rightarrow> [] | Some hs \<Rightarrow> hs))))"

definition pawn_withheld :: "Entities \<Rightarrow> int \<Rightarrow> int \<Rightarrow> int \<Rightarrow> bool" where
  "pawn_withheld env slot recipient i \<longleftrightarrow>
     (case pawn_of env slot of None \<Rightarrow> False
      | Some pawn \<Rightarrow> ObserverTarget env recipient \<noteq> Some (pa_Raw pawn) \<and> i \<in> set (carried env pawn))"

definition withheld :: "Entities \<Rightarrow> VisSpec \<Rightarrow> int \<Rightarrow> int \<Rightarrow> bool" where
  "withheld env s recipient i \<longleftrightarrow>
     (\<exists>slot. IsValidSlot slot \<and> slot \<noteq> recipient \<and>
        (vs_PawnHidden s slot \<and> pawn_withheld env slot recipient i \<or>
         vs_ControllerHidden s slot \<and> 0 < i \<and> map_option ct_Index (en_Controller env slot) = Some i)) \<or>
     (\<exists>e a. vs_Audience s e = Some a \<and> excluded a recipient (team_of env recipient) \<and> 0 < i \<and> en_Index env e = i)"

definition snapshot :: "Entities \<Rightarrow> VisSpec \<Rightarrow> TransmitInfo \<Rightarrow> TransmitInfo" where
  "snapshot env s info = info\<lparr>ti_TransmitEntity := map_option (\<lambda>bits i. bits i \<and> \<not> withheld env s (ti_Slot info) i) (ti_TransmitEntity info)\<rparr>"

section \<open>The code keeps the promise\<close>

definition audience :: "PrivateEntity \<Rightarrow> Audience" where
  "audience e = (if 0 \<le> pe_Viewer e then OnlySlot (pe_Viewer e)
     else if pe_ShownTo e \<noteq> Team_None then OnlyTeam (pe_ShownTo e) else NotTeam (pe_HiddenFrom e))"

definition audiences :: "PrivateEntity list \<Rightarrow> nat \<Rightarrow> Audience option" where
  "audiences es e = map_option audience (List.find (\<lambda>p. pe_Entity p = e) es)"

definition view :: "Visibility \<Rightarrow> VisSpec" where
  "view v = \<lparr>vs_PawnHidden = (\<lambda>slot. st_PawnHidden (vi_state v slot)), vs_ControllerHidden = (\<lambda>slot. st_ControllerHidden (vi_state v slot)),
     vs_Audience = audiences (vi_private v)\<rparr>"

definition vis_ok :: "Visibility \<Rightarrow> bool" where
  "vis_ok v \<longleftrightarrow> distinct (map pe_Entity (vi_private v)) \<and> (\<forall>e\<in>set (vi_private v). - 1 \<le> pe_Viewer e)"

lemma HiddenFor_excluded: "HiddenFor e recipient team = excluded (audience e) recipient team"
  by (auto simp: HiddenFor_def audience_def)

lemma audiences_iff:
  assumes "distinct (map pe_Entity es)"
  shows "audiences es e = Some a \<longleftrightarrow> (\<exists>p\<in>set es. pe_Entity p = e \<and> audience p = a)"
proof
  assume "audiences es e = Some a"
  then show "\<exists>p\<in>set es. pe_Entity p = e \<and> audience p = a" by (auto simp: audiences_def dest: find_SomeD)
next
  assume "\<exists>p\<in>set es. pe_Entity p = e \<and> audience p = a"
  then obtain p where p: "p \<in> set es" "pe_Entity p = e" "audience p = a" by blast
  then obtain q where q: "List.find (\<lambda>p. pe_Entity p = e) es = Some q"
    by (cases "List.find (\<lambda>p. pe_Entity p = e) es") (auto simp: find_None_iff_all)
  then have "q = p" using p find_SomeD[OF q] assms by (auto simp: distinct_map inj_on_def)
  then show "audiences es e = Some a" using p q by (simp add: audiences_def)
qed

lemma audiences_eqI:
  assumes "distinct (map pe_Entity es)" "\<And>e a. V e = Some a \<longleftrightarrow> (\<exists>p\<in>set es. pe_Entity p = e \<and> audience p = a)"
  shows "audiences es = V"
proof
  show "audiences es e = V e" for e using assms(2)[of e] audiences_iff[OF assms(1), of e] by (metis option.exhaust)
qed

lemma set_update_first_key:
  "distinct (map k xs) \<Longrightarrow> set (update_first (\<lambda>x. k x = a) (\<lambda>_. y) xs) = (if a \<in> k ` set xs then insert y {x \<in> set xs. k x \<noteq> a} else set xs)"
proof (induction xs)
  case (Cons x xs)
  then have "\<forall>z\<in>set xs. k z \<noteq> k x" by (auto simp: image_iff)
  then have "{z \<in> set xs. k z \<noteq> k x} = set xs" by blast
  then show ?case using Cons by auto
qed simp

lemma map_update_first_same:
  "k y = a \<Longrightarrow> map k (update_first (\<lambda>x. k x = a) (\<lambda>_. y) xs) = map k xs"
  by (induction xs) auto

lemma SetPrivate_view:
  assumes "vis_ok v" "- 1 \<le> pe_Viewer entry"
  shows "vis_ok (SetPrivate entry v)" "view (SetPrivate entry v) = (view v)\<lparr>vs_Audience := (vs_Audience (view v))(pe_Entity entry \<mapsto> audience entry)\<rparr>"
proof -
  have d: "distinct (map pe_Entity (vi_private v))" using assms(1) by (simp add: vis_ok_def)
  define es where "es = vi_private (SetPrivate entry v)"
  have set_es: "set es = insert entry {e \<in> set (vi_private v). pe_Entity e \<noteq> pe_Entity entry}"
    using set_update_first_key[OF d, of "pe_Entity entry" entry] by (auto simp: es_def SetPrivate_def intro: rev_image_eqI)
  have des: "distinct (map pe_Entity es)" using d by (auto simp: es_def SetPrivate_def map_update_first_same)
  show "vis_ok (SetPrivate entry v)" using des set_es assms by (auto simp: vis_ok_def es_def)
  have "audiences es = (audiences (vi_private v))(pe_Entity entry \<mapsto> audience entry)"
    by (rule audiences_eqI[OF des]) (use d set_es in \<open>auto simp: audiences_iff\<close>)
  moreover have "vi_state (SetPrivate entry v) = vi_state v" by (simp add: SetPrivate_def)
  ultimately show "view (SetPrivate entry v) = (view v)\<lparr>vs_Audience := (vs_Audience (view v))(pe_Entity entry \<mapsto> audience entry)\<rparr>"
    by (simp add: view_def es_def)
qed

lemma keep_view:
  assumes "distinct (map pe_Entity es)"
  shows "audiences (filter P es) = (\<lambda>e. if \<exists>p\<in>set es. pe_Entity p = e \<and> \<not> P p then None else audiences es e)"
  by (rule audiences_eqI) (use assms in \<open>auto simp: distinct_map_filter_key audiences_iff distinct_map inj_on_def\<close>)

lemma refresh_view:
  assumes "distinct (map pe_Entity es)"
  shows "distinct (map pe_Entity (refresh_private env es))" "audiences (refresh_private env es) = (\<lambda>e. if en_Index env e \<le> 0 then None else audiences es e)"
proof -
  have keys: "map pe_Entity (map (\<lambda>e. e\<lparr>pe_Index := en_Index env (pe_Entity e)\<rparr>) es) = map pe_Entity es" by (simp add: comp_def)
  show d: "distinct (map pe_Entity (refresh_private env es))"
    unfolding refresh_private_def by (rule distinct_map_filter_key) (simp only: keys assms)
  have "audience (p\<lparr>pe_Index := x\<rparr>) = audience p" for p x by (simp add: audience_def)
  then show "audiences (refresh_private env es) = (\<lambda>e. if en_Index env e \<le> 0 then None else audiences es e)"
    by (intro audiences_eqI[OF d]) (use assms in \<open>force simp: refresh_private_def audiences_iff\<close>)
qed

lemma vi_private_snapshot: "snd (vis_OnCheckTransmit env bound infos v) = v\<lparr>vi_private := refresh_private env (vi_private v)\<rparr>"
  by (simp add: vis_OnCheckTransmit_def Let_def split: option.split)

lemma vis_step_view:
  assumes "vis_ok v"
  shows "vis_ok (vis_step op v) \<and> view (vis_step op v) = spec_step op (view v)"
proof -
  have d: "distinct (map pe_Entity (vi_private v))" and vw: "\<forall>e\<in>set (vi_private v). - 1 \<le> pe_Viewer e" using assms by (simp_all add: vis_ok_def)
  show ?thesis
  proof (cases op)
    case (HidePawn slot b)
    then show ?thesis using assms by (auto simp: SetPawnHidden_def vis_ok_def view_def)
  next
    case (HideController slot b)
    then show ?thesis using assms by (auto simp: SetControllerHidden_def vis_ok_def view_def)
  next
    case (Only e slot)
    then show ?thesis using assms SetPrivate_view[OF assms, of "(private_entity e)\<lparr>pe_Viewer := slot\<rparr>"]
      by (auto simp: ShowOnlyTo_def private_entity_def audience_def IsValidSlot_def)
  next
    case (OnlyFor e team)
    then show ?thesis using assms SetPrivate_view[OF assms, of "(private_entity e)\<lparr>pe_ShownTo := team\<rparr>"]
      by (auto simp: ShowOnlyToTeam_def private_entity_def audience_def IsPlaying_def)
  next
    case (Except e team)
    then show ?thesis using assms SetPrivate_view[OF assms, of "(private_entity e)\<lparr>pe_HiddenFrom := team\<rparr>"]
      by (auto simp: HideFromTeam_def private_entity_def audience_def IsPlaying_def)
  next
    case (Everyone e)
    then show ?thesis using d vw by (auto simp: ShowToEveryone_def vis_ok_def view_def distinct_map_filter_key keep_view[OF d] fun_eq_iff audiences_def find_None_iff_all)
  next
    case (SlotChange slot)
    have "(\<exists>p\<in>set (vi_private v). pe_Entity p = e \<and> pe_Viewer p = slot) \<longleftrightarrow> audiences (vi_private v) e = Some (OnlySlot slot)" if "IsValidSlot slot" for e
      using that by (auto simp: audiences_iff[OF d] audience_def IsValidSlot_def split: if_split_asm)
    then show ?thesis using SlotChange d vw
      by (auto simp: vis_slot_changed_def vis_ok_def view_def distinct_map_filter_key keep_view[OF d] fun_eq_iff new_slot_state_def)
  next
    case (Snapshot env bound infos)
    have "\<forall>e\<in>set (refresh_private env (vi_private v)). - 1 \<le> pe_Viewer e" using vw by (auto simp: refresh_private_def)
    then show ?thesis using Snapshot refresh_view[OF d] by (simp add: vi_private_snapshot vis_ok_def view_def fun_eq_iff)
  qed
qed

lemma vis_steps_view: "vis_ok v \<Longrightarrow> vis_ok (fold vis_step ops v) \<and> view (fold vis_step ops v) = fold spec_step ops (view v)"
proof (induction ops arbitrary: v)
  case (Cons op ops)
  then show ?case using vis_step_view[OF Cons.prems, of op] Cons.IH[of "vis_step op v"] by simp
qed simp

section \<open>The filter is exact\<close>

lemma AddIndex_fold:
  assumes "length (hp_PawnIndices p) \<le> MaxIndicesPerPlayer"
  shows "fold AddIndex is p = p\<lparr>hp_PawnIndices := take MaxIndicesPerPlayer (hp_PawnIndices p @ filter (\<lambda>i. 0 < i) is)\<rparr>"
  using assms
proof (induction "is" arbitrary: p)
  case (Cons i "is")
  show ?case
  proof (cases "0 < i \<and> length (hp_PawnIndices p) < MaxIndicesPerPlayer")
    case True
    then show ?thesis using Cons.IH[of "AddIndex i p"] by (simp add: AddIndex_def)
  next
    case False
    then show ?thesis using Cons.IH[of p] Cons.prems by (auto simp: AddIndex_def)
  qed
qed simp

lemma clear_bit_apply: "clear_bit index bits i \<longleftrightarrow> bits i \<and> index \<noteq> i"
  by (simp add: clear_bit_def)

lemma fold_clear_bit: "fold clear_bit is bits = (\<lambda>i. bits i \<and> i \<notin> set is)"
  by (induction "is" arbitrary: bits) (auto simp: clear_bit_def fun_eq_iff)

lemma AddHandleVector_fold:
  "AddHandleVector env vector p = fold AddIndex (map (en_Index env) (take MaxIndicesPerPlayer (case vector of None \<Rightarrow> [] | Some hs \<Rightarrow> hs))) p"
  by (simp add: AddHandleVector_def fold_map comp_def split: option.split)

text \<open>What is collected of a hidden player.\<close>

lemma Collect_fields:
  "hp_Slot (CollectHiddenPlayer env slot pb cb) = slot"
  "hp_ControllerIndex (CollectHiddenPlayer env slot pb cb) = (case en_Controller env slot of Some c \<Rightarrow> if cb then ct_Index c else -1 | None \<Rightarrow> -1)"
  "hp_Pawn (CollectHiddenPlayer env slot pb cb) = (if pb then map_option pa_Raw (pawn_of env slot) else None)"
  "hp_PawnIndices (CollectHiddenPlayer env slot pb cb) =
     (if pb then (case pawn_of env slot of None \<Rightarrow> [] | Some pawn \<Rightarrow> carried env pawn) else [])"
proof -
  define ws where "ws pawn = map (en_Index env) (take MaxIndicesPerPlayer (case pa_Weapons pawn of None \<Rightarrow> [] | Some hs \<Rightarrow> hs))" for pawn :: PawnView
  define rs where "rs pawn = map (en_Index env) (take MaxIndicesPerPlayer (case pa_Wearables pawn of None \<Rightarrow> [] | Some hs \<Rightarrow> hs))" for pawn :: PawnView
  have all: "AddHandleVector env (pa_Wearables pawn) (AddHandleVector env (pa_Weapons pawn) (AddIndex (pa_Index pawn) p)) =
      p\<lparr>hp_PawnIndices := carried env pawn\<rparr>" if "hp_PawnIndices p = []" for pawn p
  proof -
    have "AddHandleVector env (pa_Wearables pawn) (AddHandleVector env (pa_Weapons pawn) (AddIndex (pa_Index pawn) p)) =
        fold AddIndex (pa_Index pawn # ws pawn @ rs pawn) p"
      by (simp add: AddHandleVector_fold ws_def rs_def)
    also have "\<dots> = p\<lparr>hp_PawnIndices := carried env pawn\<rparr>"
      using that AddIndex_fold[of p "pa_Index pawn # ws pawn @ rs pawn"] by (simp only: carried_def ws_def rs_def) simp
    finally show ?thesis .
  qed
  show "hp_Slot (CollectHiddenPlayer env slot pb cb) = slot"
    "hp_ControllerIndex (CollectHiddenPlayer env slot pb cb) = (case en_Controller env slot of Some c \<Rightarrow> if cb then ct_Index c else -1 | None \<Rightarrow> -1)"
    "hp_Pawn (CollectHiddenPlayer env slot pb cb) = (if pb then map_option pa_Raw (pawn_of env slot) else None)"
    "hp_PawnIndices (CollectHiddenPlayer env slot pb cb) =
     (if pb then (case pawn_of env slot of None \<Rightarrow> [] | Some pawn \<Rightarrow> carried env pawn) else [])"
    by (cases "en_Controller env slot"; simp add: CollectHiddenPlayer_def Let_def all pawn_of_def split: option.split)+
qed

definition player_withheld :: "Entities \<Rightarrow> VisSpec \<Rightarrow> int \<Rightarrow> int \<Rightarrow> int \<Rightarrow> bool" where
  "player_withheld env s slot recipient i \<longleftrightarrow> slot \<noteq> recipient \<and>
     (vs_PawnHidden s slot \<and> pawn_withheld env slot recipient i \<or>
      vs_ControllerHidden s slot \<and> 0 < i \<and> map_option ct_Index (en_Controller env slot) = Some i)"

lemma clear_player_exact:
  "clear_player recipient (ObserverTarget env recipient) (CollectHiddenPlayer env slot (vs_PawnHidden s slot) (vs_ControllerHidden s slot)) bits =
   (\<lambda>i. bits i \<and> \<not> player_withheld env s slot recipient i)"
proof (cases "slot = recipient")
  case True
  then show ?thesis by (simp add: clear_player_def Collect_fields player_withheld_def)
next
  case False
  let ?p = "CollectHiddenPlayer env slot (vs_PawnHidden s slot) (vs_ControllerHidden s slot)"
  have c: "0 < hp_ControllerIndex ?p \<and> hp_ControllerIndex ?p = i \<longleftrightarrow> vs_ControllerHidden s slot \<and> 0 < i \<and> map_option ct_Index (en_Controller env slot) = Some i" for i
    unfolding Collect_fields by (cases "en_Controller env slot") auto
  have p: "ObserverTarget env recipient \<noteq> hp_Pawn ?p \<and> i \<in> set (hp_PawnIndices ?p) \<longleftrightarrow> vs_PawnHidden s slot \<and> pawn_withheld env slot recipient i" for i
  proof (cases "vs_PawnHidden s slot")
    case True
    show ?thesis
    proof (cases "pawn_of env slot")
      case None
      have "hp_PawnIndices ?p = []" "\<not> pawn_withheld env slot recipient i" by (simp_all only: Collect_fields None pawn_withheld_def option.case True if_True not_False_eq_True)
      then show ?thesis by simp
    next
      case (Some pawn)
      have "hp_PawnIndices ?p = carried env pawn" "hp_Pawn ?p = Some (pa_Raw pawn)" by (simp_all only: Collect_fields Some option.case option.map True if_True)
      moreover have "pawn_withheld env slot recipient i \<longleftrightarrow> ObserverTarget env recipient \<noteq> Some (pa_Raw pawn) \<and> i \<in> set (carried env pawn)"
        by (simp only: Some pawn_withheld_def option.case)
      ultimately show ?thesis using True by simp
    qed
  next
    case False
    then have "hp_PawnIndices ?p = []" by (simp only: Collect_fields if_False)
    then show ?thesis using False by simp
  qed
  have "clear_player recipient (ObserverTarget env recipient) ?p bits i \<longleftrightarrow> bits i \<and>
      \<not> (ObserverTarget env recipient \<noteq> hp_Pawn ?p \<and> i \<in> set (hp_PawnIndices ?p)) \<and> \<not> (0 < hp_ControllerIndex ?p \<and> hp_ControllerIndex ?p = i)" for i
    using False unfolding clear_player_def Let_def Collect_fields(1) by (auto simp: fold_clear_bit clear_bit_apply)
  then show ?thesis using False unfolding c p by (intro ext) (simp add: player_withheld_def)
qed

lemma fold_clear_players:
  "fold (clear_player recipient (ObserverTarget env recipient))
     (map (\<lambda>slot. CollectHiddenPlayer env slot (vs_PawnHidden s slot) (vs_ControllerHidden s slot)) slots) bits =
   (\<lambda>i. bits i \<and> (\<forall>slot\<in>set slots. \<not> player_withheld env s slot recipient i))"
  by (induction slots arbitrary: bits) (auto simp: clear_player_exact fun_eq_iff)

lemma fold_clear_private:
  "fold (clear_private recipient team) es bits = (\<lambda>i. bits i \<and> \<not> (\<exists>e\<in>set es. HiddenFor e recipient team \<and> pe_Index e = i))"
  by (induction es arbitrary: bits) (auto simp: clear_private_def clear_bit_def fun_eq_iff)

text \<open>After the indices are looked up again, clearing by entry is clearing by audience.\<close>

lemma private_exact:
  assumes "distinct (map pe_Entity es)"
  shows "(\<exists>e\<in>set (refresh_private env es). HiddenFor e recipient team \<and> pe_Index e = i) \<longleftrightarrow>
    (\<exists>e a. audiences es e = Some a \<and> excluded a recipient team \<and> 0 < i \<and> en_Index env e = i)"
proof -
  have "audience (p\<lparr>pe_Index := x\<rparr>) = audience p" for p x by (simp add: audience_def)
  then have "(\<exists>e\<in>set (refresh_private env es). HiddenFor e recipient team \<and> pe_Index e = i) \<longleftrightarrow>
      (\<exists>p\<in>set es. 0 < en_Index env (pe_Entity p) \<and> excluded (audience p) recipient team \<and> en_Index env (pe_Entity p) = i)"
    by (auto simp: refresh_private_def HiddenFor_excluded not_le)
  also have "\<dots> \<longleftrightarrow> (\<exists>e a. audiences es e = Some a \<and> excluded a recipient team \<and> 0 < i \<and> en_Index env e = i)"
    unfolding audiences_iff[OF assms] by blast
  finally show ?thesis .
qed

lemma vis_OnCheckTransmit_exact:
  assumes "vis_ok v"
  shows "fst (vis_OnCheckTransmit env True (Some infos) v) = Some (map (map_option (snapshot env (view v))) infos)"
proof -
  let ?s = "view v" and ?es = "refresh_private env (vi_private v)"
  let ?slots = "filter (\<lambda>slot. st_Any (vi_state v slot)) all_slots"
  let ?hidden = "map (\<lambda>slot. CollectHiddenPlayer env slot (st_PawnHidden (vi_state v slot)) (st_ControllerHidden (vi_state v slot))) ?slots"
  have d: "distinct (map pe_Entity (vi_private v))" using assms by (simp add: vis_ok_def)
  have hid: "?hidden = map (\<lambda>slot. CollectHiddenPlayer env slot (vs_PawnHidden ?s slot) (vs_ControllerHidden ?s slot)) ?slots" by (simp add: view_def)
  have any: "(\<exists>slot\<in>set ?slots. player_withheld env ?s slot recipient i) \<longleftrightarrow> (\<exists>slot. IsValidSlot slot \<and> player_withheld env ?s slot recipient i)" for recipient i
    by (auto simp: player_withheld_def view_def st_Any_def)
  have w: "withheld env ?s recipient i \<longleftrightarrow> (\<exists>slot\<in>set ?slots. player_withheld env ?s slot recipient i) \<or>
      (\<exists>e\<in>set ?es. HiddenFor e recipient (team_of env recipient) \<and> pe_Index e = i)" for recipient i
    unfolding private_exact[OF d] any by (auto simp: withheld_def player_withheld_def view_def)
  have one: "filter_info env ?hidden ?es = snapshot env ?s"
  proof
    fix info
    show "filter_info env ?hidden ?es info = snapshot env ?s info"
  proof (cases "ti_TransmitEntity info")
    case (Some bits)
    have "fold (clear_player (ti_Slot info) (if ?hidden \<noteq> [] then ObserverTarget env (ti_Slot info) else None)) ?hidden bits =
        fold (clear_player (ti_Slot info) (ObserverTarget env (ti_Slot info))) ?hidden bits" by (cases "?hidden = []") auto
    also have "\<dots> = (\<lambda>i. bits i \<and> (\<forall>slot\<in>set ?slots. \<not> player_withheld env ?s slot (ti_Slot info) i))"
      unfolding hid by (rule fold_clear_players)
    finally show ?thesis using Some
      by (simp add: filter_info_def Let_def snapshot_def fold_clear_private w fun_eq_iff del: set_filter)
  qed (simp add: filter_info_def snapshot_def)
  qed
  show ?thesis
  proof (cases "?es = [] \<and> (\<forall>slot\<in>set all_slots. \<not> st_Any (vi_state v slot))")
    case True
    then have "\<not> withheld env ?s recipient i" for recipient i unfolding w by auto
    then have "snapshot env ?s info = info" for info :: TransmitInfo by (simp add: snapshot_def option.map_ident)
    then have "map_option (snapshot env ?s) = id" by (intro ext) (simp add: map_option_case split: option.split)
    then show ?thesis using True by (simp add: vis_OnCheckTransmit_def Let_def)
  next
    case False
    then show ?thesis by (auto simp: vis_OnCheckTransmit_def Let_def one)
  qed
qed

lemma vis_ok_init: "vis_ok vis_init" "view vis_init = everything_shown"
  by (simp_all add: vis_ok_def vis_init_def view_def everything_shown_def new_slot_state_def audiences_def fun_eq_iff)


end
