(* ===== verification/GlowVision.thy ===== *)
theory GlowVision
  imports Visibility
begin

text \<open>
  Players as outlines for one client or team: two clones per glowing player, kept private through the visibility service. Sources:
  \<^verbatim>\<open>src/Hooks/GlowVision.cpp\<close>, \<^verbatim>\<open>include/VoltMod/Hooks/GlowVision.hpp\<close>. The entities are a world of any type, read and changed by the
  operations of \<open>glow_env\<close>; a spawned prop is named by its handle. The fixed keyvalues of the props are left out; model and color are not.
\<close>

section \<open>Data\<close>

record GlowPawn =
  gw_Model :: string
  gw_Team :: Team
  gw_Alive :: bool

datatype GlowProp = Relay string | Glow string nat

record 'w glow_env =
  gl_Pawn :: "int \<Rightarrow> 'w \<Rightarrow> GlowPawn option"
  gl_Spawn :: "GlowProp \<Rightarrow> 'w \<Rightarrow> nat option \<times> 'w"
  gl_Follow :: "nat \<Rightarrow> nat option \<Rightarrow> 'w \<Rightarrow> 'w"
  gl_Exists :: "nat \<Rightarrow> 'w \<Rightarrow> bool"
  gl_Remove :: "nat \<Rightarrow> 'w \<Rightarrow> 'w"
  gl_Filter :: "int \<Rightarrow> bool"

record GlowPair =
  gp_Relay :: nat
  gp_Glow :: nat
  gp_Team :: Team
  gp_Model :: string

definition gp_Active :: "GlowPair \<Rightarrow> bool" where
  "gp_Active pair \<longleftrightarrow> gp_Relay pair \<noteq> Unset"

definition new_pair :: GlowPair where
  "new_pair = \<lparr>gp_Relay = Unset, gp_Glow = Unset, gp_Team = Team_None, gp_Model = []\<rparr>"

record GlowVision =
  gv_viewerSlot :: int
  gv_viewerTeam :: Team
  gv_TerroristColor :: nat
  gv_CtColor :: nat
  gv_pairs :: "GlowPair PerSlot"

record 'w glow_state =
  gs_glow :: GlowVision
  gs_visibility :: Visibility
  gs_world :: 'w

definition GlowVision_for_slot :: "int \<Rightarrow> nat \<Rightarrow> nat \<Rightarrow> GlowVision" where
  "GlowVision_for_slot viewerSlot tColor ctColor = \<lparr>gv_viewerSlot = viewerSlot, gv_viewerTeam = Team_None,
     gv_TerroristColor = tColor, gv_CtColor = ctColor, gv_pairs = (\<lambda>_. new_pair)\<rparr>"

definition GlowVision_for_team :: "Team \<Rightarrow> nat \<Rightarrow> nat \<Rightarrow> GlowVision" where
  "GlowVision_for_team viewerTeam tColor ctColor = \<lparr>gv_viewerSlot = -1, gv_viewerTeam = viewerTeam,
     gv_TerroristColor = tColor, gv_CtColor = ctColor, gv_pairs = (\<lambda>_. new_pair)\<rparr>"

section \<open>Operations\<close>

definition put_pair :: "int \<Rightarrow> GlowPair \<Rightarrow> 'w glow_state \<Rightarrow> 'w glow_state" where
  "put_pair slot pair s = s\<lparr>gs_glow := (gs_glow s)\<lparr>gv_pairs := (gv_pairs (gs_glow s))(slot := pair)\<rparr>\<rparr>"

definition upd_vis :: "(Visibility \<Rightarrow> Visibility) \<Rightarrow> 'w glow_state \<Rightarrow> 'w glow_state" where
  "upd_vis f s = s\<lparr>gs_visibility := f (gs_visibility s)\<rparr>"

definition upd_world :: "('w \<Rightarrow> 'w) \<Rightarrow> 'w glow_state \<Rightarrow> 'w glow_state" where
  "upd_world f s = s\<lparr>gs_world := f (gs_world s)\<rparr>"

definition DestroyPair :: "'w glow_env \<Rightarrow> int \<Rightarrow> 'w glow_state \<Rightarrow> 'w glow_state" where
  "DestroyPair env slot s =
     (let pair = gv_pairs (gs_glow s) slot
      in if \<not> gp_Active pair then s
      else put_pair slot new_pair
        (upd_world (gl_Remove env (gp_Relay pair)) (upd_world (gl_Remove env (gp_Glow pair))
          (upd_vis (ShowToEveryone (gp_Glow pair)) (upd_vis (ShowToEveryone (gp_Relay pair)) s)))))"

definition ShowToViewers :: "nat \<Rightarrow> 'w glow_state \<Rightarrow> 'w glow_state" where
  "ShowToViewers entity s =
     (if 0 \<le> gv_viewerSlot (gs_glow s) then upd_vis (ShowOnlyTo entity (gv_viewerSlot (gs_glow s))) s
      else upd_vis (ShowOnlyToTeam entity (gv_viewerTeam (gs_glow s))) s)"

definition CreatePair :: "'w glow_env \<Rightarrow> int \<Rightarrow> 'w glow_state \<Rightarrow> 'w glow_state" where
  "CreatePair env slot s =
     (case gl_Pawn env slot (gs_world s) of
        None \<Rightarrow> s
      | Some pawn \<Rightarrow>
          if gw_Model pawn = [] then s
          else case gl_Spawn env (Relay (gw_Model pawn)) (gs_world s) of
            (None, w) \<Rightarrow> s\<lparr>gs_world := w\<rparr>
          | (Some relay, w) \<Rightarrow>
              case gl_Spawn env (Glow (gw_Model pawn) (if gw_Team pawn = Team_T then gv_TerroristColor (gs_glow s) else gv_CtColor (gs_glow s))) w of
                (None, w1) \<Rightarrow> s\<lparr>gs_world := gl_Remove env relay w1\<rparr>
              | (Some glow, w1) \<Rightarrow>
                  ShowToViewers glow (ShowToViewers relay
                    (put_pair slot \<lparr>gp_Relay = relay, gp_Glow = glow, gp_Team = gw_Team pawn, gp_Model = gw_Model pawn\<rparr>
                      (s\<lparr>gs_world := gl_Follow env glow (Some relay) (gl_Follow env relay None w1)\<rparr>))))"

definition desired :: "'w glow_env \<Rightarrow> int \<Rightarrow> 'w glow_state \<Rightarrow> bool" where
  "desired env slot s \<longleftrightarrow>
     slot \<noteq> gv_viewerSlot (gs_glow s) \<and>
     (case gl_Pawn env slot (gs_world s) of None \<Rightarrow> False | Some pawn \<Rightarrow> gw_Alive pawn \<and> IsPlaying (gw_Team pawn)) \<and>
     \<not> IsPawnHidden slot (gs_visibility s) \<and> gl_Filter env slot"

definition stale :: "'w glow_env \<Rightarrow> int \<Rightarrow> 'w glow_state \<Rightarrow> bool" where
  "stale env slot s \<longleftrightarrow>
     (let pair = gv_pairs (gs_glow s) slot; pawn = gl_Pawn env slot (gs_world s)
      in \<not> desired env slot s \<or> (case pawn of None \<Rightarrow> Team_None | Some p \<Rightarrow> gw_Team p) \<noteq> gp_Team pair \<or>
         \<not> gl_Exists env (gp_Relay pair) (gs_world s) \<or> \<not> gl_Exists env (gp_Glow pair) (gs_world s) \<or>
         (case pawn of None \<Rightarrow> [] | Some p \<Rightarrow> gw_Model p) \<noteq> gp_Model pair)"

definition refresh_slot :: "'w glow_env \<Rightarrow> int \<Rightarrow> 'w glow_state \<Rightarrow> 'w glow_state" where
  "refresh_slot env slot s =
     (let want = desired env slot s;
          s1 = (if gp_Active (gv_pairs (gs_glow s) slot) \<and> stale env slot s then DestroyPair env slot s else s)
      in if \<not> gp_Active (gv_pairs (gs_glow s1) slot) \<and> want then CreatePair env slot s1 else s1)"

definition glow_Refresh :: "'w glow_env \<Rightarrow> 'w glow_state \<Rightarrow> 'w glow_state" where
  "glow_Refresh env s = fold (refresh_slot env) all_slots s"

definition glow_Destroy :: "'w glow_env \<Rightarrow> 'w glow_state \<Rightarrow> 'w glow_state" where
  "glow_Destroy env s = fold (DestroyPair env) all_slots s"

section \<open>The clones stay private\<close>

text \<open>What the engine's handles promise: a spawned entity has a handle no entity had before.\<close>

definition handles_fresh :: "'w glow_env \<Rightarrow> ('w \<Rightarrow> nat set) \<Rightarrow> bool" where
  "handles_fresh env known \<longleftrightarrow> Unset \<in> \<Inter> (range known) \<and>
     (\<forall>prop w h w'. gl_Spawn env prop w = (Some h, w') \<longrightarrow> h \<notin> known w \<and> insert h (known w) \<subseteq> known w') \<and>
     (\<forall>prop w w'. gl_Spawn env prop w = (None, w') \<longrightarrow> known w \<subseteq> known w') \<and>
     (\<forall>h w. known w \<subseteq> known (gl_Remove env h w)) \<and> (\<forall>h t w. known w \<subseteq> known (gl_Follow env h t w))"

definition viewers :: "GlowVision \<Rightarrow> Audience" where
  "viewers g = (if 0 \<le> gv_viewerSlot g then OnlySlot (gv_viewerSlot g) else OnlyTeam (gv_viewerTeam g))"

definition viewer_ok :: "GlowVision \<Rightarrow> bool" where
  "viewer_ok g \<longleftrightarrow> IsValidSlot (gv_viewerSlot g) \<or> gv_viewerSlot g = -1 \<and> IsPlaying (gv_viewerTeam g)"

definition handles :: "GlowVision \<Rightarrow> int \<Rightarrow> nat set" where
  "handles g slot = (if gp_Active (gv_pairs g slot) then {gp_Relay (gv_pairs g slot), gp_Glow (gv_pairs g slot)} else {})"

definition glow_ok :: "('w \<Rightarrow> nat set) \<Rightarrow> 'w glow_state \<Rightarrow> bool" where
  "glow_ok known s \<longleftrightarrow> vis_ok (gs_visibility s) \<and> viewer_ok (gs_glow s) \<and>
     (\<forall>slot. handles (gs_glow s) slot \<subseteq> known (gs_world s) - {Unset}) \<and>
     (\<forall>slot slot'. slot \<noteq> slot' \<longrightarrow> handles (gs_glow s) slot \<inter> handles (gs_glow s) slot' = {}) \<and>
     (\<forall>slot. \<forall>h\<in>handles (gs_glow s) slot. audiences (vi_private (gs_visibility s)) h = Some (viewers (gs_glow s)))"

lemma ShowToEveryone_view: "vis_ok v \<Longrightarrow> vis_ok (ShowToEveryone e v) \<and> audiences (vi_private (ShowToEveryone e v)) = (audiences (vi_private v))(e := None)"
  using vis_step_view[of v "Everyone e"] by (auto simp: view_def)

lemma ShowToViewers_view:
  assumes "vis_ok (gs_visibility s)" "viewer_ok (gs_glow s)" "e \<noteq> Unset"
  shows "vis_ok (gs_visibility (ShowToViewers e s))" "gs_glow (ShowToViewers e s) = gs_glow s" "gs_world (ShowToViewers e s) = gs_world s"
    "audiences (vi_private (gs_visibility (ShowToViewers e s))) = (audiences (vi_private (gs_visibility s)))(e \<mapsto> viewers (gs_glow s))"
proof -
  have "vis_ok (gs_visibility (ShowToViewers e s)) \<and>
      audiences (vi_private (gs_visibility (ShowToViewers e s))) = (audiences (vi_private (gs_visibility s)))(e \<mapsto> viewers (gs_glow s))"
    using vis_step_view[OF assms(1), of "Only e (gv_viewerSlot (gs_glow s))"] vis_step_view[OF assms(1), of "OnlyFor e (gv_viewerTeam (gs_glow s))"] assms(2,3)
    by (auto simp: ShowToViewers_def viewers_def viewer_ok_def view_def upd_vis_def IsValidSlot_def)
  then show "vis_ok (gs_visibility (ShowToViewers e s))"
    "audiences (vi_private (gs_visibility (ShowToViewers e s))) = (audiences (vi_private (gs_visibility s)))(e \<mapsto> viewers (gs_glow s))" by blast+
qed (simp_all add: ShowToViewers_def upd_vis_def)

lemma handles_put: "handles (g\<lparr>gv_pairs := (gv_pairs g)(slot := pair)\<rparr>) slot' =
    (if slot' = slot then (if gp_Active pair then {gp_Relay pair, gp_Glow pair} else {}) else handles g slot')"
  by (simp add: handles_def)

lemma viewers_put [simp]: "viewers (g\<lparr>gv_pairs := ps\<rparr>) = viewers g" "viewer_ok (g\<lparr>gv_pairs := ps\<rparr>) = viewer_ok g"
  by (simp_all add: viewers_def viewer_ok_def)

lemma DestroyPair_ok:
  assumes "handles_fresh env known" "glow_ok known s"
  shows "glow_ok known (DestroyPair env slot s)" "handles (gs_glow (DestroyPair env slot s)) slot = {}"
    "slot' \<noteq> slot \<Longrightarrow> handles (gs_glow (DestroyPair env slot s)) slot' = handles (gs_glow s) slot'"
proof -
  let ?pair = "gv_pairs (gs_glow s) slot"
  show "glow_ok known (DestroyPair env slot s)"
  proof (cases "gp_Active ?pair")
    case True
    define v where "v = ShowToEveryone (gp_Glow ?pair) (ShowToEveryone (gp_Relay ?pair) (gs_visibility s))"
    have ok: "vis_ok (gs_visibility s)" using assms(2) by (simp add: glow_ok_def)
    have v: "vis_ok v" "audiences (vi_private v) = (audiences (vi_private (gs_visibility s)))(gp_Relay ?pair := None, gp_Glow ?pair := None)"
      using ShowToEveryone_view[OF ok, of "gp_Relay ?pair"] ShowToEveryone_view[of "ShowToEveryone (gp_Relay ?pair) (gs_visibility s)" "gp_Glow ?pair"]
      by (simp_all add: v_def)
    let ?w = "gl_Remove env (gp_Relay ?pair) (gl_Remove env (gp_Glow ?pair) (gs_world s))"
    have w: "known (gs_world s) \<subseteq> known ?w" using assms(1) unfolding handles_fresh_def by (meson subset_trans)
    have "h \<noteq> gp_Relay ?pair \<and> h \<noteq> gp_Glow ?pair" if "h \<in> handles (gs_glow s) slot'" "slot' \<noteq> slot" for h slot'
    proof -
      have "handles (gs_glow s) slot' \<inter> handles (gs_glow s) slot = {}" using assms(2) that(2) by (simp add: glow_ok_def)
      then show ?thesis using that(1) True by (auto simp: handles_def)
    qed
    moreover have "handles (gs_glow s) slot' \<subseteq> known ?w - {Unset}" for slot'
    proof -
      have "handles (gs_glow s) slot' \<subseteq> known (gs_world s) - {Unset}" using assms(2) by (simp add: glow_ok_def)
      then show ?thesis using w by blast
    qed
    ultimately have "glow_ok known (put_pair slot new_pair (s\<lparr>gs_visibility := v, gs_world := ?w\<rparr>))"
      using assms(2) v True by (auto simp: glow_ok_def put_pair_def handles_put new_pair_def gp_Active_def)
    then show ?thesis using True by (simp add: DestroyPair_def Let_def v_def upd_vis_def upd_world_def)
  qed (use assms in \<open>simp add: DestroyPair_def Let_def\<close>)
  show "handles (gs_glow (DestroyPair env slot s)) slot = {}"
    by (simp add: DestroyPair_def Let_def handles_def put_pair_def new_pair_def gp_Active_def)
  show "slot' \<noteq> slot \<Longrightarrow> handles (gs_glow (DestroyPair env slot s)) slot' = handles (gs_glow s) slot'"
    by (simp add: DestroyPair_def Let_def put_pair_def upd_vis_def upd_world_def handles_put)
qed

lemma glow_ok_world: "glow_ok known s \<Longrightarrow> known (gs_world s) \<subseteq> known w \<Longrightarrow> glow_ok known (s\<lparr>gs_world := w\<rparr>)"
  unfolding glow_ok_def by auto

lemma CreatePair_ok:
  assumes "handles_fresh env known" "glow_ok known s" "\<not> gp_Active (gv_pairs (gs_glow s) slot)"
  shows "glow_ok known (CreatePair env slot s)"
proof (cases "gl_Pawn env slot (gs_world s)")
  case (Some pawn)
  obtain r w where r: "gl_Spawn env (Relay (gw_Model pawn)) (gs_world s) = (r, w)" by fastforce
  let ?color = "if gw_Team pawn = Team_T then gv_TerroristColor (gs_glow s) else gv_CtColor (gs_glow s)"
  obtain g w1 where g: "gl_Spawn env (Glow (gw_Model pawn) ?color) w = (g, w1)" by fastforce
  note fresh = assms(1)[unfolded handles_fresh_def]
  have w: "known (gs_world s) \<subseteq> known w" using fresh r by (cases r) auto
  show ?thesis
  proof (cases "gw_Model pawn = [] \<or> r = None \<or> g = None")
    case True
    have w1: "known w \<subseteq> known w1" using fresh g by (cases g) auto
    have "known (gs_world s) \<subseteq> known (gl_Remove env relay w1)" for relay using fresh w w1 by (meson subset_trans)
    then show ?thesis using True Some r g assms(2) glow_ok_world[OF assms(2)] w
      by (cases "gw_Model pawn = []"; cases r; cases g) (auto simp: CreatePair_def)
  next
    case False
    then obtain relay glow where h: "r = Some relay" "g = Some glow" and model: "gw_Model pawn \<noteq> []" by auto
    let ?w = "gl_Follow env glow (Some relay) (gl_Follow env relay None w1)"
    have new: "relay \<notin> known (gs_world s)" "glow \<notin> known w" "relay \<in> known w" using fresh r g h by auto
    have "insert glow (known w) \<subseteq> known w1" using fresh g h by auto
    then have kw: "insert glow (known w) \<subseteq> known ?w" using fresh by (meson subset_trans)
    have unset: "relay \<noteq> Unset" "glow \<noteq> Unset" using fresh new by auto
    define pair where "pair = \<lparr>gp_Relay = relay, gp_Glow = glow, gp_Team = gw_Team pawn, gp_Model = gw_Model pawn\<rparr>"
    define t where "t = put_pair slot pair (s\<lparr>gs_world := ?w\<rparr>)"
    have act: "gp_Active pair" using unset by (simp add: pair_def gp_Active_def)
    have t: "vis_ok (gs_visibility t)" "viewer_ok (gs_glow t)" "viewers (gs_glow t) = viewers (gs_glow s)" "gs_visibility t = gs_visibility s"
      using assms(2) by (simp_all add: t_def put_pair_def glow_ok_def)
    define u where "u = ShowToViewers glow (ShowToViewers relay t)"
    note v1 = ShowToViewers_view[OF t(1,2) unset(1)]
    note v2 = ShowToViewers_view[of "ShowToViewers relay t" glow, unfolded v1(2), OF v1(1) t(2) unset(2)]
    have u: "vis_ok (gs_visibility u)" "gs_glow u = gs_glow t" "gs_world u = ?w"
      "audiences (vi_private (gs_visibility u)) = (audiences (vi_private (gs_visibility s)))(relay \<mapsto> viewers (gs_glow s), glow \<mapsto> viewers (gs_glow s))"
      using v1 v2 t by (simp_all add: u_def t_def put_pair_def)
    have hs: "handles (gs_glow t) slot' = (if slot' = slot then {relay, glow} else handles (gs_glow s) slot')" for slot'
      using act by (simp add: t_def put_pair_def handles_put pair_def)
    have old: "handles (gs_glow s) slot' \<subseteq> known (gs_world s) - {Unset}" for slot' using assms(2) by (simp add: glow_ok_def)
    have "handles (gs_glow t) slot' \<subseteq> known ?w - {Unset}" for slot' using hs old[of slot'] w kw new(3) unset by auto
    moreover have "relay \<notin> handles (gs_glow s) slot'" "glow \<notin> handles (gs_glow s) slot'" for slot' using old[of slot'] new w by auto
    ultimately have "glow_ok known u" using assms(2) u t hs unfolding glow_ok_def by auto
    then show ?thesis using Some r g h model by (simp add: CreatePair_def u_def t_def pair_def)
  qed
qed (use assms in \<open>simp add: CreatePair_def\<close>)

lemma refresh_slot_ok:
  assumes "handles_fresh env known" "glow_ok known s"
  shows "glow_ok known (refresh_slot env slot s)"
  using assms DestroyPair_ok(1)[OF assms] CreatePair_ok[OF assms(1)] by (simp add: refresh_slot_def Let_def)

lemma fold_stays: "P s \<Longrightarrow> (\<And>x s. P s \<Longrightarrow> P (f x s)) \<Longrightarrow> P (fold f xs s)"
  by (induction xs arbitrary: s) auto

lemma Refresh_ok: "handles_fresh env known \<Longrightarrow> glow_ok known s \<Longrightarrow> glow_ok known (glow_Refresh env s)"
  unfolding glow_Refresh_def by (rule fold_stays) (auto intro: refresh_slot_ok)

lemma Destroy_ok: "handles_fresh env known \<Longrightarrow> glow_ok known s \<Longrightarrow> glow_ok known (glow_Destroy env s)"
  unfolding glow_Destroy_def by (rule fold_stays) (auto intro: DestroyPair_ok(1))

lemma new_glow_ok:
  "IsValidSlot slot \<Longrightarrow> glow_ok known \<lparr>gs_glow = GlowVision_for_slot slot t c, gs_visibility = vis_init, gs_world = w\<rparr>"
  "IsPlaying team \<Longrightarrow> glow_ok known \<lparr>gs_glow = GlowVision_for_team team t c, gs_visibility = vis_init, gs_world = w\<rparr>"
  by (simp_all add: glow_ok_def vis_ok_init handles_def GlowVision_for_slot_def GlowVision_for_team_def new_pair_def gp_Active_def viewer_ok_def)

text \<open>Everything else that happens around the clones: calls about other entities, other players coming and going, the entities of the map changing, and
  snapshots that still find the clones.\<close>

definition leaves_clones :: "GlowVision \<Rightarrow> VisOp \<Rightarrow> bool" where
  "leaves_clones g op \<longleftrightarrow> (case op of
     Only e _ \<Rightarrow> \<forall>slot. e \<notin> handles g slot | OnlyFor e _ \<Rightarrow> \<forall>slot. e \<notin> handles g slot | Except e _ \<Rightarrow> \<forall>slot. e \<notin> handles g slot
   | Everyone e \<Rightarrow> \<forall>slot. e \<notin> handles g slot | SlotChange slot \<Rightarrow> slot \<noteq> gv_viewerSlot g
   | Snapshot entities _ _ \<Rightarrow> \<forall>slot. \<forall>h\<in>handles g slot. 0 < en_Index entities h | _ \<Rightarrow> True)"

inductive glow_run :: "'w glow_env \<Rightarrow> ('w \<Rightarrow> nat set) \<Rightarrow> 'w glow_state \<Rightarrow> 'w glow_state \<Rightarrow> bool" for env known s where
  Begin: "glow_run env known s s"
| Refreshed: "glow_run env known s t \<Longrightarrow> glow_run env known s (glow_Refresh env t)"
| Destroyed: "glow_run env known s t \<Longrightarrow> glow_run env known s (glow_Destroy env t)"
| Visible: "glow_run env known s t \<Longrightarrow> leaves_clones (gs_glow t) op \<Longrightarrow> glow_run env known s (upd_vis (vis_step op) t)"
| World: "glow_run env known s t \<Longrightarrow> known (gs_world t) \<subseteq> known w \<Longrightarrow> glow_run env known s (t\<lparr>gs_world := w\<rparr>)"

lemma leaves_clones_ok:
  assumes "glow_ok known s" "leaves_clones (gs_glow s) op"
  shows "glow_ok known (upd_vis (vis_step op) s)"
proof -
  have ok: "vis_ok (gs_visibility s)" using assms(1) by (simp add: glow_ok_def)
  have aud: "audiences (vi_private (vis_step op (gs_visibility s))) h = Some (viewers (gs_glow s))" if h: "h \<in> handles (gs_glow s) slot" for slot h
  proof -
    have "audiences (vi_private (gs_visibility s)) h = Some (viewers (gs_glow s))" using assms(1) h unfolding glow_ok_def by blast
    moreover have "audiences (vi_private (vis_step op (gs_visibility s))) = vs_Audience (spec_step op (view (gs_visibility s)))"
      using vis_step_view[OF ok, of op] by (metis VisSpec.select_convs(3) view_def)
    ultimately show ?thesis using assms(2) h by (cases op) (auto simp: leaves_clones_def view_def viewers_def not_le)
  qed
  then show ?thesis using assms(1) vis_step_view[OF ok, of op] by (auto simp: glow_ok_def upd_vis_def)
qed

lemma glow_run_ok: "glow_run env known s t \<Longrightarrow> handles_fresh env known \<Longrightarrow> glow_ok known s \<Longrightarrow> glow_ok known t"
  by (induction rule: glow_run.induct) (auto intro: Refresh_ok Destroy_ok leaves_clones_ok glow_ok_world)

lemma handles_Destroy: "slot \<in> set slots \<Longrightarrow> handles_fresh env known \<Longrightarrow> glow_ok known s \<Longrightarrow> handles (gs_glow (fold (DestroyPair env) slots s)) slot = {}"
proof (induction slots arbitrary: s)
  case (Cons a slots)
  have keep: "handles (gs_glow (fold (DestroyPair env) xs t)) slot = {}" if "handles (gs_glow t) slot = {}" "glow_ok known t" for xs t
    using that
  proof (induction xs arbitrary: t)
    case (Cons x xs)
    have "handles (gs_glow (DestroyPair env x t)) slot = {}"
      using DestroyPair_ok(2,3)[OF \<open>handles_fresh env known\<close> Cons.prems(2)] Cons.prems(1) by (cases "x = slot") auto
    then show ?case using Cons.IH DestroyPair_ok(1)[OF \<open>handles_fresh env known\<close> Cons.prems(2)] by simp
  qed simp
  show ?case using Cons DestroyPair_ok[OF Cons.prems(2,3), of a] keep by (cases "slot \<in> set slots") auto
qed simp

text \<open>
  The outlines are private: whoever the clones are made for, however often they are rebuilt or removed, and whatever else is hidden and shown
  meanwhile (as long as the viewer stays), a client that is not meant to see them is sent none of them; and removing them leaves none.
\<close>

theorem glow_private:
  assumes "handles_fresh env known" and "viewer_ok g" and "\<forall>slot. gv_pairs g slot = new_pair"
    and "glow_run env known \<lparr>gs_glow = g, gs_visibility = vis_init, gs_world = w\<rparr> s"
  shows "(\<forall>slot recipient entities h. h \<in> handles (gs_glow s) slot \<and> excluded (viewers (gs_glow s)) recipient (team_of entities recipient) \<and> 0 < en_Index entities h
           \<longrightarrow> withheld entities (view (gs_visibility s)) recipient (en_Index entities h)) \<and>
    (\<forall>slot. IsValidSlot slot \<longrightarrow> handles (gs_glow (glow_Destroy env s)) slot = {})"
proof -
  have "glow_ok known \<lparr>gs_glow = g, gs_visibility = vis_init, gs_world = w\<rparr>"
    using assms(2,3) by (simp add: glow_ok_def vis_ok_init handles_def new_pair_def gp_Active_def)
  then have ok: "glow_ok known s" using glow_run_ok[OF assms(4,1)] by blast
  have "vs_Audience (view (gs_visibility s)) h = Some (viewers (gs_glow s))" if "h \<in> handles (gs_glow s) slot" for slot h
    using ok that unfolding glow_ok_def view_def by simp
  then have "\<forall>slot recipient entities h. h \<in> handles (gs_glow s) slot \<and> excluded (viewers (gs_glow s)) recipient (team_of entities recipient) \<and> 0 < en_Index entities h
           \<longrightarrow> withheld entities (view (gs_visibility s)) recipient (en_Index entities h)"
    unfolding withheld_def by blast
  moreover have "\<forall>slot. IsValidSlot slot \<longrightarrow> handles (gs_glow (glow_Destroy env s)) slot = {}"
    using handles_Destroy[OF _ assms(1) ok, of _ all_slots] by (simp add: glow_Destroy_def)
  ultimately show ?thesis by blast
qed

text \<open>A world for examples: the next handle, the live ones, and one model for every player.\<close>

definition example_glow_env :: "(nat \<times> nat list) glow_env" where
  "example_glow_env = \<lparr>gl_Pawn = (\<lambda>slot _. if slot = 1 then Some \<lparr>gw_Model = ''m.vmdl'', gw_Team = Team_T, gw_Alive = True\<rparr> else None),
     gl_Spawn = (\<lambda>_ (n, live). (Some (Unset + 1 + n), Suc n, (Unset + 1 + n) # live)), gl_Follow = (\<lambda>_ _ w. w),
     gl_Exists = (\<lambda>h (n, live). h \<in> set live), gl_Remove = (\<lambda>h (n, live). (n, filter (\<lambda>x. x \<noteq> h) live)), gl_Filter = (\<lambda>_. True)\<rparr>"

lemma example_glow_fresh: "handles_fresh example_glow_env (\<lambda>(n, live). {..<Unset + 1 + n})"
  by (auto simp: handles_fresh_def example_glow_env_def)

definition example_glow :: "(nat \<times> nat list) glow_state" where
  "example_glow = \<lparr>gs_glow = GlowVision_for_slot 0 1 2, gs_visibility = vis_init, gs_world = (0, [])\<rparr>"

lemma example_refresh_other:
  assumes "\<forall>slot. slot \<noteq> 1 \<longrightarrow> \<not> gp_Active (gv_pairs (gs_glow s) slot)" "1 \<notin> set slots"
  shows "fold (refresh_slot example_glow_env) slots s = s"
proof -
  have "refresh_slot example_glow_env slot s = s" if "slot \<noteq> 1" for slot
    using assms(1) that by (simp add: refresh_slot_def desired_def example_glow_env_def)
  then show ?thesis using assms(2) by (induction slots) auto
qed

lemma example_glow_refreshed:
  "gv_pairs (gs_glow (glow_Refresh example_glow_env example_glow)) 1 = \<lparr>gp_Relay = Unset + 1, gp_Glow = Unset + 2, gp_Team = Team_T, gp_Model = ''m.vmdl''\<rparr>"
  "gv_viewerSlot (gs_glow (glow_Refresh example_glow_env example_glow)) = 0"
proof -
  let ?s = "refresh_slot example_glow_env 1 example_glow" and ?pair = "\<lparr>gp_Relay = Unset + 1, gp_Glow = Unset + 2, gp_Team = Team_T, gp_Model = ''m.vmdl''\<rparr>"
  have none: "\<forall>slot. slot \<noteq> 1 \<longrightarrow> \<not> gp_Active (gv_pairs (gs_glow example_glow) slot)"
    by (simp add: example_glow_def GlowVision_for_slot_def gp_Active_def new_pair_def)
  have one: "gs_glow ?s = (gs_glow example_glow)\<lparr>gv_pairs := (\<lambda>_. new_pair)(1 := ?pair)\<rparr>"
    by (simp add: refresh_slot_def desired_def example_glow_env_def example_glow_def GlowVision_for_slot_def gp_Active_def new_pair_def IsPawnHidden_def vis_init_def
        new_slot_state_def IsPlaying_def CreatePair_def ShowToViewers_def put_pair_def upd_vis_def)
  then have only: "\<forall>slot. slot \<noteq> 1 \<longrightarrow> \<not> gp_Active (gv_pairs (gs_glow ?s) slot)" by (simp add: gp_Active_def new_pair_def)
  have split: "all_slots = [0] @ [1] @ map int [2..<64]" by (simp add: all_slots_def MaxPlayers_def upt_conv_Cons)
  have "glow_Refresh example_glow_env example_glow = ?s"
    unfolding glow_Refresh_def split fold_append comp_def
    using example_refresh_other[OF none, of "[0]"] example_refresh_other[OF only, of "map int [2..<64]"] by simp
  then show "gv_pairs (gs_glow (glow_Refresh example_glow_env example_glow)) 1 = ?pair"
    "gv_viewerSlot (gs_glow (glow_Refresh example_glow_env example_glow)) = 0"
    using one by (simp_all add: example_glow_def GlowVision_for_slot_def)
qed

theorem glow_private_witness:
  "withheld \<lparr>en_Get = (\<lambda>h. if h = Unset + 2 then Some (0, 77) else None), en_Controller = (\<lambda>_. None)\<rparr>
     (view (gs_visibility (glow_Refresh example_glow_env example_glow))) 5 77"
proof -
  let ?s = "glow_Refresh example_glow_env example_glow"
  let ?E = "\<lparr>en_Get = (\<lambda>h. if h = Unset + 2 then Some (0, 77) else None), en_Controller = (\<lambda>_. None)\<rparr>"
  have run: "glow_run example_glow_env (\<lambda>(n, live). {..<Unset + 1 + n}) \<lparr>gs_glow = GlowVision_for_slot 0 1 2, gs_visibility = vis_init, gs_world = (0, [])\<rparr> ?s"
    by (rule glow_run.Refreshed) (simp add: example_glow_def glow_run.Begin)
  have g: "viewer_ok (GlowVision_for_slot 0 1 2)" "\<forall>slot. gv_pairs (GlowVision_for_slot 0 1 2) slot = new_pair"
    by (simp_all add: viewer_ok_def GlowVision_for_slot_def IsValidSlot_def MaxPlayers_def)
  have "Unset + 2 \<in> handles (gs_glow ?s) 1" by (simp add: handles_def example_glow_refreshed gp_Active_def)
  moreover have "excluded (viewers (gs_glow ?s)) 5 (team_of ?E 5)" by (simp add: viewers_def example_glow_refreshed)
  ultimately have "withheld ?E (view (gs_visibility ?s)) 5 (en_Index ?E (Unset + 2))"
    by (intro glow_private[OF example_glow_fresh g run, THEN conjunct1, rule_format, of _ 1]) (simp add: en_Index_def)
  then show ?thesis by (simp add: en_Index_def)
qed

section \<open>A viewer that leaves\<close>

text \<open>
  When the viewer's slot changes hands, the visibility service forgets that the clones were private but the clones stay; a refresh
  finds nothing stale and leaves them, so every client is sent the outlines until their owner removes them.
\<close>

theorem glow_leaks:
  assumes "glow_ok known s" and "IsValidSlot (gv_viewerSlot (gs_glow s))"
    and "\<forall>slot. if gp_Active (gv_pairs (gs_glow s) slot) then \<not> stale env slot (upd_vis (vis_slot_changed (gv_viewerSlot (gs_glow s))) s)
           else \<not> desired env slot (upd_vis (vis_slot_changed (gv_viewerSlot (gs_glow s))) s)"
  shows "let t = glow_Refresh env (upd_vis (vis_slot_changed (gv_viewerSlot (gs_glow s))) s)
    in gs_glow t = gs_glow s \<and> (\<forall>slot. \<forall>h\<in>handles (gs_glow t) slot. vs_Audience (view (gs_visibility t)) h = None)"
proof -
  let ?viewer = "gv_viewerSlot (gs_glow s)"
  define t where "t = upd_vis (vis_slot_changed ?viewer) s"
  have "refresh_slot env slot t = t" for slot using assms(3)[rule_format, of slot]
    by (simp add: refresh_slot_def Let_def t_def[symmetric] split: if_split_asm) (simp_all add: t_def upd_vis_def)
  then have same: "glow_Refresh env t = t" unfolding glow_Refresh_def by (intro fold_stays[where P = "\<lambda>x. x = t"]) auto
  have ok: "vis_ok (gs_visibility s)" using assms(1) by (simp add: glow_ok_def)
  have "vs_Audience (view (gs_visibility t)) h = None" if h: "h \<in> handles (gs_glow s) slot" for slot h
  proof -
    have "audiences (vi_private (gs_visibility s)) h = Some (viewers (gs_glow s))" using assms(1) h unfolding glow_ok_def by blast
    moreover have "viewers (gs_glow s) = OnlySlot ?viewer" using assms(2) by (simp add: viewers_def IsValidSlot_def)
    ultimately show ?thesis using vis_step_view[OF ok, of "SlotChange ?viewer"] assms(2) by (auto simp: t_def upd_vis_def view_def)
  qed
  then show ?thesis unfolding t_def[symmetric] same Let_def by (simp add: t_def upd_vis_def)
qed

end
