(* ===== verification/Screens.thy ===== *)
theory Screens
  imports GlowVision Signals Result
begin

text \<open>
  Panorama screens: layout names, the cache of what was sent, the entity behind a screen, and the manager. Sources:
  \<^verbatim>\<open>src/Ui/{LayoutPath,WriteCache,ScreenEntity,Screen,ScreenManager,PlayerScreens}.{hpp,cpp}\<close> and \<^verbatim>\<open>include/VoltMod/Ui/*.hpp\<close>.
  What the engine answers during a call is an argument of the call (\<open>hud_env\<close>), so it may differ from call to call; what is sent to the
  engine is a list of calls, newest first. Log lines are left out.
\<close>

section \<open>Layout names\<close>

definition LayoutDirectory :: string where "LayoutDirectory = ''panorama/layout/custom_game/''"
definition SourceExtension :: string where "SourceExtension = ''.xml''"

definition EndsWith :: "string \<Rightarrow> string \<Rightarrow> bool" where
  "EndsWith s ending \<longleftrightarrow> length ending \<le> length s \<and> drop (length s - length ending) s = ending"

definition NotSourceXml :: "string \<Rightarrow> Error" where
  "NotSourceXml layout = Error_Invalid (quoted layout @ '' must name the layout'' @ [CHR 0x27] @ ''s source .xml, not the compiled resource'')"

definition LayoutPath_Parse :: "string \<Rightarrow> string result" where
  "LayoutPath_Parse layout =
     (let isSourceXml = EndsWith layout SourceExtension
      in if layout = [] then Inl (Error_Invalid ''a layout name is required'')
      else if CHR ''/'' \<notin> set layout
      then (if CHR ''.'' \<in> set layout \<and> \<not> isSourceXml then Inl (NotSourceXml layout)
            else Inr (LayoutDirectory @ layout @ (if isSourceXml then [] else SourceExtension)))
      else if \<not> StartsWith layout LayoutDirectory
      then Inl (Error_Invalid (quoted layout @ '' is outside '' @ LayoutDirectory @ '', the only directory the addon whitelist allows layouts in''))
      else if \<not> isSourceXml then Inl (NotSourceXml layout)
      else Inr layout)"

definition LayoutPath_Name :: "string \<Rightarrow> string" where
  "LayoutPath_Name resource =
     (let name = rev (takeWhile (\<lambda>c. c \<noteq> CHR ''/'') (rev resource)) in take (length name - length SourceExtension) name)"

section \<open>What was sent\<close>

datatype WriteKind = Text_kind | Class_kind

record Sent =
  sn_Values :: "string \<rightharpoonup> string"
  sn_Cursor :: "bool option"
  sn_Failed :: bool

definition new_sent :: Sent where
  "new_sent = \<lparr>sn_Values = (\<lambda>_. None), sn_Cursor = None, sn_Failed = False\<rparr>"

record WriteCache =
  wc_slots :: "Sent option PerSlot"
  wc_everyone :: Sent

definition wc_init :: WriteCache where
  "wc_init = \<lparr>wc_slots = (\<lambda>_. None), wc_everyone = new_sent\<rparr>"

definition EveryoneSlot :: int where "EveryoneSlot = -1"

text \<open>\<^verbatim>\<open>For\<close>: the record, if the slot has one to use; \<open>wc_put\<close> stores it again after a change through the pointer.\<close>

definition wc_For :: "int \<Rightarrow> WriteCache \<Rightarrow> Sent option" where
  "wc_For slot c =
     (if slot = EveryoneSlot then Some (wc_everyone c)
      else if \<not> IsValidSlot slot then None
      else Some (case wc_slots c slot of None \<Rightarrow> new_sent | Some sent \<Rightarrow> sent))"

definition wc_put :: "int \<Rightarrow> Sent \<Rightarrow> WriteCache \<Rightarrow> WriteCache" where
  "wc_put slot sent c =
     (if slot = EveryoneSlot then c\<lparr>wc_everyone := sent\<rparr>
      else if \<not> IsValidSlot slot then c else c\<lparr>wc_slots := (wc_slots c)(slot := Some sent)\<rparr>)"

definition KeySeparator :: char where "KeySeparator = CHR 0x1F"

definition KeyFor :: "WriteKind \<Rightarrow> string \<Rightarrow> string \<Rightarrow> string" where
  "KeyFor kind elementId name = [case kind of Text_kind \<Rightarrow> CHR 0x00 | Class_kind \<Rightarrow> CHR 0x01] @ [KeySeparator] @ elementId @ [KeySeparator] @ name"

definition wc_Changed :: "int \<Rightarrow> WriteKind \<Rightarrow> string \<Rightarrow> string \<Rightarrow> string \<Rightarrow> WriteCache \<Rightarrow> bool \<times> WriteCache" where
  "wc_Changed slot kind elementId name v c =
     (case wc_For slot c of
        None \<Rightarrow> (False, c)
      | Some sent \<Rightarrow>
          let key = KeyFor kind elementId name
          in if sn_Values sent key = Some v then (False, wc_put slot sent c)
             else (True, wc_put slot (sent\<lparr>sn_Values := (sn_Values sent)(key \<mapsto> v)\<rparr>) c))"

definition wc_CursorChanged :: "int \<Rightarrow> bool \<Rightarrow> WriteCache \<Rightarrow> bool \<times> WriteCache" where
  "wc_CursorChanged slot shown c =
     (case wc_For slot c of
        None \<Rightarrow> (False, c)
      | Some sent \<Rightarrow> if sn_Cursor sent = Some shown then (False, wc_put slot sent c) else (True, wc_put slot (sent\<lparr>sn_Cursor := Some shown\<rparr>) c))"

definition wc_IsFirstFailure :: "int \<Rightarrow> WriteCache \<Rightarrow> bool \<times> WriteCache" where
  "wc_IsFirstFailure slot c =
     (case wc_For slot c of
        None \<Rightarrow> (False, c)
      | Some sent \<Rightarrow> if sn_Failed sent then (False, wc_put slot sent c) else (True, wc_put slot (sent\<lparr>sn_Failed := True\<rparr>) c))"

definition wc_Invalidate :: "int \<Rightarrow> WriteCache \<Rightarrow> WriteCache" where
  "wc_Invalidate slot c =
     (case wc_For slot c of None \<Rightarrow> c | Some sent \<Rightarrow> wc_put slot (sent\<lparr>sn_Values := (\<lambda>_. None), sn_Cursor := None\<rparr>) c)"

definition wc_RemoveSlot :: "int \<Rightarrow> WriteCache \<Rightarrow> WriteCache" where
  "wc_RemoveSlot slot c = c\<lparr>wc_slots := PerSlot_Reset None slot (wc_slots c)\<rparr>"

definition wc_Clear :: "WriteCache \<Rightarrow> WriteCache" where
  "wc_Clear c = \<lparr>wc_slots = PerSlot_ResetAll None (wc_slots c), wc_everyone = new_sent\<rparr>"

section \<open>The entity\<close>

text \<open>The engine as one call finds it: which handles resolve, whether entities can be spawned and what a spawn returns, the counts kept on a layout entity
  (-1 for what it does not have), and which setters are bound.\<close>

record hud_env =
  he_Get :: "nat \<Rightarrow> bool"
  he_Available :: status
  he_Spawned :: "nat option"
  he_PlayerLayoutStates :: "nat \<Rightarrow> int"
  he_PanelIds :: "nat \<Rightarrow> int"
  he_ClassNames :: "nat \<Rightarrow> int"
  he_DialogVariableNames :: "nat \<Rightarrow> int"
  he_SetHasClass :: bool
  he_SetHasClassForPlayer :: bool
  he_SetDialogVariable :: bool
  he_SetDialogVariableForPlayer :: bool
  he_SetInputCapture :: bool

text \<open>What the engine is told, with the slot or \<open>EveryoneSlot\<close> for the global state. \<open>PlayerStateReset\<close> is the engine's own: it resets a slot's
  per-player state as its client finishes loading.\<close>

datatype HudCall = SpawnLayout nat string | RemoveEntity nat | SetDialogVariable nat int string string string
  | SetHasClass nat int string string bool | SetInputCapture nat int bool | PlayerStateReset int

record ScreenEntity =
  se_layout :: string
  se_owner :: int
  se_entity :: nat
  se_playersChangedSinceSpawn :: bool
  se_written :: WriteCache

record screen_state =
  ss_self :: ScreenEntity
  ss_visibility :: Visibility
  ss_calls :: "HudCall list"

definition new_screen_entity :: "string \<Rightarrow> int \<Rightarrow> ScreenEntity" where
  "new_screen_entity layout owner = \<lparr>se_layout = layout, se_owner = owner, se_entity = Unset, se_playersChangedSinceSpawn = True, se_written = wc_init\<rparr>"

definition StringTableCap :: int where "StringTableCap = 1024"
definition StringTableHeadroom :: int where "StringTableHeadroom = 64"

definition upd_self :: "(ScreenEntity \<Rightarrow> ScreenEntity) \<Rightarrow> screen_state \<Rightarrow> screen_state" where
  "upd_self f s = s\<lparr>ss_self := f (ss_self s)\<rparr>"

definition engine_call :: "HudCall \<Rightarrow> screen_state \<Rightarrow> screen_state" where
  "engine_call call s = s\<lparr>ss_calls := call # ss_calls s\<rparr>"

definition upd_written :: "(WriteCache \<Rightarrow> WriteCache) \<Rightarrow> screen_state \<Rightarrow> screen_state" where
  "upd_written f s = upd_self (\<lambda>e. e\<lparr>se_written := f (se_written e)\<rparr>) s"

definition IsForPlayer :: "ScreenEntity \<Rightarrow> bool" where
  "IsForPlayer e \<longleftrightarrow> se_owner e \<noteq> EveryoneSlot"

definition CacheSlotFor :: "int \<Rightarrow> ScreenEntity \<Rightarrow> int result" where
  "CacheSlotFor slot e =
     (if \<not> IsForPlayer e then Inr slot
      else if slot \<noteq> EveryoneSlot \<and> slot \<noteq> se_owner e then Inl (Error_Invalid (''this screen belongs to slot '' @ to_string_int (se_owner e)))
      else Inr (se_owner e))"

definition ContentSlotFor :: "int \<Rightarrow> ScreenEntity \<Rightarrow> int" where
  "ContentSlotFor cacheSlot e = (if IsForPlayer e then EveryoneSlot else cacheSlot)"

definition sc_Exists :: "hud_env \<Rightarrow> screen_state \<Rightarrow> bool" where
  "sc_Exists env s \<longleftrightarrow> se_entity (ss_self s) \<noteq> Unset \<and> he_Get env (se_entity (ss_self s))"

definition sc_Remove :: "hud_env \<Rightarrow> screen_state \<Rightarrow> screen_state" where
  "sc_Remove env s =
     (let entity = se_entity (ss_self s);
          s1 = (if IsForPlayer (ss_self s) then s\<lparr>ss_visibility := ShowToEveryone entity (ss_visibility s)\<rparr> else s);
          s2 = (if sc_Exists env s then engine_call (RemoveEntity entity) s1 else s1)
      in upd_self (\<lambda>e. e\<lparr>se_entity := Unset, se_written := wc_Clear (se_written e)\<rparr>) s2)"

definition sc_slot_changed :: "hud_env \<Rightarrow> int \<Rightarrow> screen_state \<Rightarrow> screen_state" where
  "sc_slot_changed env slot s =
     (let s1 = upd_self (\<lambda>e. e\<lparr>se_playersChangedSinceSpawn := True\<rparr>) s
      in if slot = se_owner (ss_self s) then sc_Remove env s1 else upd_written (wc_RemoveSlot slot) s1)"

definition sc_fully_connected :: "int \<Rightarrow> screen_state \<Rightarrow> screen_state" where
  "sc_fully_connected slot s = upd_written (wc_RemoveSlot slot) (upd_self (\<lambda>e. e\<lparr>se_playersChangedSinceSpawn := True\<rparr>) s)"

definition sc_Spawn :: "hud_env \<Rightarrow> screen_state \<Rightarrow> status \<times> screen_state" where
  "sc_Spawn env s =
     (let s1 = sc_Remove env (upd_self (\<lambda>e. e\<lparr>se_playersChangedSinceSpawn := False\<rparr>) s)
      in case he_Available env of
           Inl e \<Rightarrow> (Inl e, s1)
         | Inr _ \<Rightarrow>
             (case he_Spawned env of
                None \<Rightarrow> (Inl (Error_Engine ''the engine refused to spawn custom_hud_layout''), s1)
              | Some ref \<Rightarrow>
                  let s2 = upd_self (\<lambda>e. e\<lparr>se_entity := ref\<rparr>) (engine_call (SpawnLayout ref (se_layout (ss_self s1))) s1)
                  in (Inr (), if IsForPlayer (ss_self s2) then s2\<lparr>ss_visibility := ShowOnlyTo ref (se_owner (ss_self s2)) (ss_visibility s2)\<rparr> else s2)))"

definition SpawnOrWarn :: "hud_env \<Rightarrow> screen_state \<Rightarrow> bool \<times> screen_state" where
  "SpawnOrWarn env s = (case sc_Spawn env s of (status, s1) \<Rightarrow> (case status of Inl _ \<Rightarrow> False | Inr _ \<Rightarrow> True, s1))"

definition PlayerStateCount :: "hud_env \<Rightarrow> screen_state \<Rightarrow> int" where
  "PlayerStateCount env s = (if sc_Exists env s then he_PlayerLayoutStates env (se_entity (ss_self s)) else -1)"

definition Covers :: "hud_env \<Rightarrow> int \<Rightarrow> screen_state \<Rightarrow> bool" where
  "Covers env slot s \<longleftrightarrow> IsValidSlot slot \<and> slot < PlayerStateCount env s"

definition sc_EnsureSpawned :: "hud_env \<Rightarrow> int \<Rightarrow> screen_state \<Rightarrow> bool \<times> screen_state" where
  "sc_EnsureSpawned env slot s =
     (if slot \<noteq> EveryoneSlot \<and> \<not> IsValidSlot slot then (False, s)
      else case CacheSlotFor slot (ss_self s) of
        Inl _ \<Rightarrow> (False, s)
      | Inr target \<Rightarrow>
          let (there, s1) = (if sc_Exists env s then (True, s) else SpawnOrWarn env s)
          in if \<not> there then (False, s1)
          else if target = EveryoneSlot \<or> Covers env target s1 then (True, s1)
          else if \<not> se_playersChangedSinceSpawn (ss_self s1) then (False, s1)
          else let (spawned, s2) = SpawnOrWarn env s1 in (spawned \<and> Covers env target s2, s2))"

definition EntityForWrite :: "hud_env \<Rightarrow> int \<Rightarrow> screen_state \<Rightarrow> nat result" where
  "EntityForWrite env engineSlot s =
     (let entity = se_entity (ss_self s)
      in if \<not> sc_Exists env s then Inl (Error_NotFound ''the custom_hud_layout entity no longer exists'')
      else case List.find (\<lambda>(name, entries). StringTableCap - StringTableHeadroom \<le> entries)
             [(''element id'', he_PanelIds env entity), (''class name'', he_ClassNames env entity), (''text variable'', he_DialogVariableNames env entity)] of
        Some (name, entries) \<Rightarrow>
          Inl (Error_Failed (''the '' @ name @ '' table is nearly full ('' @ to_string_int entries @ ''/'' @ to_string_int StringTableCap @ '')''))
      | None \<Rightarrow>
          if engineSlot = EveryoneSlot then Inr entity
          else if PlayerStateCount env s \<le> engineSlot
          then Inl (Error_Failed (''slot '' @ to_string_int engineSlot @ '' has no per-player layout state (the entity holds '' @ to_string_int (PlayerStateCount env s) @ '')''))
          else Inr entity)"

definition SendText :: "hud_env \<Rightarrow> int \<Rightarrow> string \<Rightarrow> string \<Rightarrow> screen_state \<Rightarrow> status \<times> screen_state" where
  "SendText env engineSlot variable v s =
     (case EntityForWrite env engineSlot s of
        Inl e \<Rightarrow> (Inl e, s)
      | Inr entity \<Rightarrow>
          let call = SetDialogVariable entity engineSlot (LayoutPath_Name (se_layout (ss_self s))) variable v
          in if engineSlot = EveryoneSlot
             then (if \<not> he_SetDialogVariable env then (Inl (Error_Unsupported ''the custom HUD text setter did not bind''), s) else (Inr (), engine_call call s))
             else (if \<not> he_SetDialogVariableForPlayer env then (Inl (Error_Unsupported ''the custom HUD per-player text setter did not bind''), s)
                   else (Inr (), engine_call call s)))"

definition SendClass :: "hud_env \<Rightarrow> int \<Rightarrow> string \<Rightarrow> string \<Rightarrow> bool \<Rightarrow> screen_state \<Rightarrow> status \<times> screen_state" where
  "SendClass env engineSlot elementId className on s =
     (case EntityForWrite env engineSlot s of
        Inl e \<Rightarrow> (Inl e, s)
      | Inr entity \<Rightarrow>
          let call = SetHasClass entity engineSlot elementId className on
          in if engineSlot = EveryoneSlot
             then (if \<not> he_SetHasClass env then (Inl (Error_Unsupported ''the custom HUD class setter did not bind''), s) else (Inr (), engine_call call s))
             else (if \<not> he_SetHasClassForPlayer env then (Inl (Error_Unsupported ''the custom HUD per-player class setter did not bind''), s)
                   else (Inr (), engine_call call s)))"

definition SendCursor :: "hud_env \<Rightarrow> int \<Rightarrow> bool \<Rightarrow> screen_state \<Rightarrow> status \<times> screen_state" where
  "SendCursor env engineSlot shown s =
     (case EntityForWrite env engineSlot s of
        Inl e \<Rightarrow> (Inl e, s)
      | Inr entity \<Rightarrow>
          if engineSlot \<noteq> EveryoneSlot \<and> \<not> he_SetInputCapture env
          then (Inl (Error_Unsupported ''the custom HUD input capture setter did not bind''), s)
          else (Inr (), engine_call (SetInputCapture entity engineSlot shown) s))"

definition CheckWrite :: "int \<Rightarrow> status \<Rightarrow> screen_state \<Rightarrow> screen_state" where
  "CheckWrite cacheSlot status s =
     (case status of
        Inr _ \<Rightarrow> s
      | Inl _ \<Rightarrow> if \<not> IsValidSlot cacheSlot then s
          else upd_written (\<lambda>c. snd (wc_IsFirstFailure cacheSlot c)) (upd_written (wc_Invalidate cacheSlot) s))"

text \<open>The three writes: skip what was sent, remember, send, check.\<close>

definition sc_WriteText :: "hud_env \<Rightarrow> int \<Rightarrow> string \<Rightarrow> string \<Rightarrow> screen_state \<Rightarrow> screen_state" where
  "sc_WriteText env slot variable v s =
     (case CacheSlotFor slot (ss_self s) of
        Inl _ \<Rightarrow> s
      | Inr target \<Rightarrow>
          let (changed, c) = wc_Changed target Text_kind [] variable v (se_written (ss_self s));
              s1 = upd_written (\<lambda>_. c) s
          in if \<not> changed then s1
          else let (status, s2) = SendText env (ContentSlotFor target (ss_self s1)) variable v s1 in CheckWrite target status s2)"

definition sc_WriteClass :: "hud_env \<Rightarrow> int \<Rightarrow> string \<Rightarrow> string \<Rightarrow> bool \<Rightarrow> screen_state \<Rightarrow> screen_state" where
  "sc_WriteClass env slot elementId className on s =
     (case CacheSlotFor slot (ss_self s) of
        Inl _ \<Rightarrow> s
      | Inr target \<Rightarrow>
          let (changed, c) = wc_Changed target Class_kind elementId className (if on then ''1'' else ''0'') (se_written (ss_self s));
              s1 = upd_written (\<lambda>_. c) s
          in if \<not> changed then s1
          else let (status, s2) = SendClass env (ContentSlotFor target (ss_self s1)) elementId className on s1 in CheckWrite target status s2)"

definition sc_WriteCursor :: "hud_env \<Rightarrow> int \<Rightarrow> bool \<Rightarrow> screen_state \<Rightarrow> screen_state" where
  "sc_WriteCursor env slot shown s =
     (case CacheSlotFor slot (ss_self s) of
        Inl _ \<Rightarrow> s
      | Inr target \<Rightarrow>
          let (changed, c) = wc_CursorChanged target shown (se_written (ss_self s));
              s1 = upd_written (\<lambda>_. c) s
          in if \<not> changed then s1
          else let (status, s2) = SendCursor env target shown s1 in CheckWrite target status s2)"

section \<open>Screens and their manager\<close>

text \<open>A screen may hold no entity; the services it works on are shared.\<close>

record hud_services =
  hs_visibility :: Visibility
  hs_calls :: "HudCall list"

type_synonym Screen = "ScreenEntity option"

definition with_entity :: "(screen_state \<Rightarrow> screen_state) \<Rightarrow> Screen \<Rightarrow> hud_services \<Rightarrow> Screen \<times> hud_services" where
  "with_entity f screen w =
     (case screen of
        None \<Rightarrow> (None, w)
      | Some e \<Rightarrow>
          let s = f \<lparr>ss_self = e, ss_visibility = hs_visibility w, ss_calls = hs_calls w\<rparr>
          in (Some (ss_self s), \<lparr>hs_visibility = ss_visibility s, hs_calls = ss_calls s\<rparr>))"

definition Screen_bool :: "hud_env \<Rightarrow> Screen \<Rightarrow> hud_services \<Rightarrow> bool" where
  "Screen_bool env screen w \<longleftrightarrow>
     (case screen of None \<Rightarrow> False | Some e \<Rightarrow> sc_Exists env \<lparr>ss_self = e, ss_visibility = hs_visibility w, ss_calls = hs_calls w\<rparr>)"

definition Screen_EnsureSpawned :: "hud_env \<Rightarrow> int \<Rightarrow> Screen \<Rightarrow> hud_services \<Rightarrow> bool \<times> Screen \<times> hud_services" where
  "Screen_EnsureSpawned env slot screen w =
     (case screen of
        None \<Rightarrow> (False, None, w)
      | Some e \<Rightarrow>
          let (ok, s) = sc_EnsureSpawned env slot \<lparr>ss_self = e, ss_visibility = hs_visibility w, ss_calls = hs_calls w\<rparr>
          in (ok, Some (ss_self s), \<lparr>hs_visibility = ss_visibility s, hs_calls = ss_calls s\<rparr>))"

definition SetText :: "hud_env \<Rightarrow> int \<Rightarrow> string \<Rightarrow> string \<Rightarrow> Screen \<Rightarrow> hud_services \<Rightarrow> Screen \<times> hud_services" where
  "SetText env slot variable v = with_entity (sc_WriteText env slot variable v)"

definition SetClass :: "hud_env \<Rightarrow> int \<Rightarrow> string \<Rightarrow> string \<Rightarrow> bool \<Rightarrow> Screen \<Rightarrow> hud_services \<Rightarrow> Screen \<times> hud_services" where
  "SetClass env slot elementId className on = with_entity (sc_WriteClass env slot elementId className on)"

definition SetHidden :: "hud_env \<Rightarrow> int \<Rightarrow> string \<Rightarrow> bool \<Rightarrow> Screen \<Rightarrow> hud_services \<Rightarrow> Screen \<times> hud_services" where
  "SetHidden env slot elementId hidden = SetClass env slot elementId ''hidden'' hidden"

fun SetModifier :: "hud_env \<Rightarrow> int \<Rightarrow> string \<Rightarrow> string \<Rightarrow> string list \<Rightarrow> string \<Rightarrow> Screen \<Rightarrow> hud_services \<Rightarrow> Screen \<times> hud_services" where
  "SetModifier env slot elementId block [] name screen w = (screen, w)"
| "SetModifier env slot elementId block (each # names) name screen w =
     (let (screen1, w1) = SetClass env slot elementId (block @ ''--'' @ each) (each = name) screen w
      in SetModifier env slot elementId block names name screen1 w1)"

definition ShowCursor :: "hud_env \<Rightarrow> int \<Rightarrow> bool \<Rightarrow> Screen \<Rightarrow> hud_services \<Rightarrow> Screen \<times> hud_services" where
  "ShowCursor env slot shown = with_entity (sc_WriteCursor env slot shown)"

definition Screen_Remove :: "hud_env \<Rightarrow> Screen \<Rightarrow> hud_services \<Rightarrow> Screen \<times> hud_services" where
  "Screen_Remove env = with_entity (sc_Remove env)"

record hud_bindings =
  hb_FilterMessage :: bool
  hb_ClientMessageFilter :: bool
  hb_ClientSlot :: bool
  hb_VisibilityRecipientSlot :: bool

definition vis_Available :: "hud_bindings \<Rightarrow> status" where
  "vis_Available b = (if \<not> hb_VisibilityRecipientSlot b then Inl (Error_Unsupported ''the CheckTransmitPlayerSlot offset did not bind'') else Inr ())"

definition screens_Available :: "hud_bindings \<Rightarrow> hud_env \<Rightarrow> status" where
  "screens_Available b env =
     (case List.find (\<lambda>(bound, key). \<not> bound)
        [(he_SetHasClass env, ''CCSCustomHudLayout::SetHasClass''), (he_SetHasClassForPlayer env, ''CCSCustomHudLayout::SetHasClassForPlayer''),
         (he_SetDialogVariable env, ''CCSCustomHudLayout::SetDialogVariableString''),
         (he_SetDialogVariableForPlayer env, ''CCSCustomHudLayout::SetDialogVariableStringForPlayer''),
         (he_SetInputCapture env, ''CCSCustomHudLayout::SetInputCaptureEnabled''),
         (hb_FilterMessage b, ''INetworkMessageProcessingPreFilter::FilterMessage''),
         (hb_ClientMessageFilter b, ''CServerSideClient::INetworkMessageProcessingPreFilter''), (hb_ClientSlot b, ''CServerSideClientBase::m_nClientSlot'')] of
        Some (_, key) \<Rightarrow> Inl (Error_Unsupported (''gamedata '' @ quoted key @ '' did not bind''))
      | None \<Rightarrow> vis_Available b)"

definition screens_Create :: "string \<Rightarrow> int \<Rightarrow> Screen result" where
  "screens_Create layout owner = (case LayoutPath_Parse layout of Inl e \<Rightarrow> Inl e | Inr path \<Rightarrow> Inr (Some (new_screen_entity path owner)))"

definition screens_Shared :: "string \<Rightarrow> Screen result" where
  "screens_Shared layout = screens_Create layout EveryoneSlot"

definition screens_ForPlayer :: "hud_bindings \<Rightarrow> string \<Rightarrow> int \<Rightarrow> Screen result" where
  "screens_ForPlayer b layout slot =
     (if \<not> IsValidSlot slot then Inl (Error_Invalid (''slot '' @ to_string_int slot @ '' is not a player slot''))
      else case vis_Available b of
        Inl e \<Rightarrow> Inl (Error_Unsupported (''a player screen needs the Visibility filter: '' @ err_Detail e))
      | Inr _ \<Rightarrow> screens_Create layout slot)"

text \<open>The press event listens to the host while it has handlers: the subscription to the host is a flag.\<close>

definition ListenForPresses :: "hud_bindings \<Rightarrow> bool \<Rightarrow> bool \<times> bool" where
  "ListenForPresses b host = (if \<not> hb_FilterMessage b \<or> \<not> hb_ClientMessageFilter b then (False, host) else (True, True))"

definition Pressed :: "hud_bindings \<Rightarrow> bool EventLifecycle" where
  "Pressed b = \<lparr>OnFirst = Some (ListenForPresses b), OnLast = Some (\<lambda>_. False)\<rparr>"

record PlayerScreens =
  ps_layout :: string
  ps_created :: "Screen option PerSlot"

text \<open>The screen \<^verbatim>\<open>For\<close> hands out, by the slot it is kept under; the empty one otherwise.\<close>

definition screens_For :: "hud_bindings \<Rightarrow> int \<Rightarrow> PlayerScreens \<Rightarrow> Screen \<times> PlayerScreens" where
  "screens_For b slot p =
     (if \<not> IsValidSlot slot then (None, p)
      else case ps_created p slot of
        Some screen \<Rightarrow> (screen, p)
      | None \<Rightarrow>
          let screen = (case screens_ForPlayer b (ps_layout p) slot of Inl _ \<Rightarrow> None | Inr created \<Rightarrow> created)
          in (screen, p\<lparr>ps_created := (ps_created p)(slot := Some screen)\<rparr>))"

definition screens_Find :: "int \<Rightarrow> PlayerScreens \<Rightarrow> Screen option" where
  "screens_Find slot p = (if \<not> IsValidSlot slot then None else ps_created p slot)"

section \<open>What the engine was last told\<close>

datatype HudKey = TextKey string | ClassKey string string | CursorKey

definition flag :: "bool \<Rightarrow> string" where
  "flag on = (if on then ''1'' else ''0'')"

fun told :: "HudCall list \<Rightarrow> nat \<Rightarrow> int \<Rightarrow> HudKey \<Rightarrow> string option" where
  "told [] entity slot key = None"
| "told (SpawnLayout e _ # calls) entity slot key = (if e = entity then None else told calls entity slot key)"
| "told (RemoveEntity e # calls) entity slot key = (if e = entity then None else told calls entity slot key)"
| "told (SetDialogVariable e sl _ name text_of # calls) entity slot key =
     (if e = entity \<and> sl = slot \<and> key = TextKey name then Some text_of else told calls entity slot key)"
| "told (SetHasClass e sl element name on # calls) entity slot key =
     (if e = entity \<and> sl = slot \<and> key = ClassKey element name then Some (flag on) else told calls entity slot key)"
| "told (SetInputCapture e sl shown # calls) entity slot key =
     (if e = entity \<and> sl = slot \<and> key = CursorKey then Some (flag shown) else told calls entity slot key)"
| "told (PlayerStateReset sl # calls) entity slot key = (if sl = slot then None else told calls entity slot key)"

text \<open>What the cache holds for a player's slot.\<close>

fun key_ok :: "HudKey \<Rightarrow> bool" where
  "key_ok (ClassKey element name) \<longleftrightarrow> KeySeparator \<notin> set element"
| "key_ok _ \<longleftrightarrow> True"

fun sent_value :: "Sent \<Rightarrow> HudKey \<Rightarrow> string option" where
  "sent_value sent (TextKey name) = sn_Values sent (KeyFor Text_kind [] name)"
| "sent_value sent (ClassKey element name) = sn_Values sent (KeyFor Class_kind element name)"
| "sent_value sent CursorKey = map_option flag (sn_Cursor sent)"

definition remembered :: "WriteCache \<Rightarrow> int \<Rightarrow> HudKey \<Rightarrow> string option" where
  "remembered c slot key = (if IsValidSlot slot \<and> key_ok key then (case wc_slots c slot of None \<Rightarrow> None | Some sent \<Rightarrow> sent_value sent key) else None)"

fun send_slot :: "ScreenEntity \<Rightarrow> int \<Rightarrow> HudKey \<Rightarrow> int" where
  "send_slot e target CursorKey = target"
| "send_slot e target _ = ContentSlotFor target e"

definition in_sync :: "screen_state \<Rightarrow> bool" where
  "in_sync s \<longleftrightarrow> (\<forall>slot key v. remembered (se_written (ss_self s)) slot key = Some v \<longrightarrow>
     (IsForPlayer (ss_self s) \<longrightarrow> slot = se_owner (ss_self s)) \<and> told (ss_calls s) (se_entity (ss_self s)) (send_slot (ss_self s) slot key) key = Some v)"

section \<open>The cache\<close>

lemma KeyFor_inj:
  assumes "KeySeparator \<notin> set e" "KeySeparator \<notin> set e'"
  shows "KeyFor k e n = KeyFor k' e' n' \<longleftrightarrow> k = k' \<and> e = e' \<and> n = n'"
proof -
  have "e @ KeySeparator # n = e' @ KeySeparator # n' \<longleftrightarrow> e = e' \<and> n = n'" using assms by (auto simp: append_eq_append_conv2 Cons_eq_append_conv append_eq_Cons_conv)
  then show ?thesis by (cases k; cases k') (simp_all add: KeyFor_def)
qed

lemma everyone_invalid [simp]: "\<not> IsValidSlot EveryoneSlot"
  by (simp add: IsValidSlot_def EveryoneSlot_def)

lemma remembered_put:
  "remembered (wc_put slot sent c) slot' key = (if slot' = slot \<and> IsValidSlot slot then (if key_ok key then sent_value sent key else None) else remembered c slot' key)"
  by (auto simp: remembered_def wc_put_def)

lemma sent_value_new [simp]: "sent_value new_sent key = None"
  by (cases key) (simp_all add: new_sent_def)

lemma remembered_For: "wc_For slot c = Some sent \<Longrightarrow> IsValidSlot slot \<Longrightarrow> key_ok key \<Longrightarrow> sent_value sent key = remembered c slot key"
  by (auto simp: wc_For_def remembered_def split: option.splits if_split_asm)

lemma sent_value_update:
  "sent_value (sent\<lparr>sn_Values := (sn_Values sent)(KeyFor Text_kind [] name \<mapsto> v)\<rparr>) key = (if key = TextKey name then Some v else sent_value sent key)" if "key_ok key"
  using that by (cases key) (auto simp: KeyFor_inj)

lemma sent_value_class:
  assumes "KeySeparator \<notin> set element" "key_ok key"
  shows "sent_value (sent\<lparr>sn_Values := (sn_Values sent)(KeyFor Class_kind element name \<mapsto> v)\<rparr>) key = (if key = ClassKey element name then Some v else sent_value sent key)"
  using assms by (cases key) (auto simp: KeyFor_inj)

text \<open>What a cache operation for one write does to what is remembered.\<close>

definition remembers :: "bool \<times> WriteCache \<Rightarrow> WriteCache \<Rightarrow> int \<Rightarrow> HudKey \<Rightarrow> string \<Rightarrow> bool" where
  "remembers r c target key v \<longleftrightarrow>
     (if IsValidSlot target
      then remembered (snd r) target key = Some v \<and> (\<forall>slot k. (slot, k) \<noteq> (target, key) \<longrightarrow> remembered (snd r) slot k = remembered c slot k) \<and>
           (\<not> fst r \<longrightarrow> remembered c target key = Some v)
      else remembered (snd r) = remembered c)"

lemma remembered_same: "wc_For slot c = Some sent \<Longrightarrow> remembered (wc_put slot sent c) = remembered c"
  by (intro ext) (auto simp: remembered_put remembered_For remembered_def[of c])

lemma wc_For_valid: "IsValidSlot slot \<Longrightarrow> \<exists>sent. wc_For slot c = Some sent"
  by (auto simp: wc_For_def)

lemma remembers_changed:
  assumes sent: "wc_For target c = Some sent" and key: "key_ok key"
    and upd: "\<And>k. key_ok k \<Longrightarrow> sent_value sent' k = (if k = key then Some v else sent_value sent k)"
  shows "remembers (True, wc_put target sent' c) c target key v"
  using assms(2,3) remembered_For[OF sent] by (auto simp: remembers_def remembered_put remembered_def[of c] fun_eq_iff)

lemma remembers_same:
  assumes "wc_For target c = Some sent" "key_ok key" "sent_value sent key = Some v"
  shows "remembers (False, wc_put target sent c) c target key v"
  using assms remembered_For[OF assms(1) _ assms(2)] by (auto simp: remembers_def remembered_same)

lemma remembers_text: "remembers (wc_Changed target Text_kind [] name v c) c target (TextKey name) v"
proof (cases "wc_For target c")
  case (Some sent)
  then show ?thesis using remembers_changed[OF Some, of "TextKey name"] remembers_same[OF Some, of "TextKey name"] sent_value_update
    by (simp add: wc_Changed_def Let_def)
qed (use wc_For_valid[of target c] in \<open>auto simp: remembers_def wc_Changed_def\<close>)

lemma remembers_class:
  assumes "KeySeparator \<notin> set element"
  shows "remembers (wc_Changed target Class_kind element name v c) c target (ClassKey element name) v"
proof (cases "wc_For target c")
  case (Some sent)
  then show ?thesis using assms remembers_changed[OF Some, of "ClassKey element name"] remembers_same[OF Some, of "ClassKey element name"] sent_value_class
    by (simp add: wc_Changed_def Let_def)
qed (use wc_For_valid[of target c] in \<open>auto simp: remembers_def wc_Changed_def\<close>)

lemma flag_inj [simp]: "flag a = flag b \<longleftrightarrow> a = b"
  by (simp add: flag_def)

lemma remembers_cursor: "remembers (wc_CursorChanged target shown c) c target CursorKey (flag shown)"
proof (cases "wc_For target c")
  case (Some sent)
  have "sent_value (sent\<lparr>sn_Cursor := Some shown\<rparr>) k = (if k = CursorKey then Some (flag shown) else sent_value sent k)" for k by (cases k) simp_all
  then show ?thesis using Some remembers_changed[OF Some, of CursorKey "sent\<lparr>sn_Cursor := Some shown\<rparr>"] remembers_same[OF Some, of CursorKey "flag shown"]
    by (auto simp: wc_CursorChanged_def)
qed (use wc_For_valid[of target c] in \<open>auto simp: remembers_def wc_CursorChanged_def\<close>)

lemma remembered_forget:
  "remembered (wc_RemoveSlot slot c) slot' key = (if slot' = slot then None else remembered c slot' key)"
  "remembered (wc_Clear c) slot' key = None" "remembered wc_init slot' key = None"
  by (simp_all add: wc_RemoveSlot_def wc_Clear_def wc_init_def remembered_def PerSlot_Reset_def PerSlot_ResetAll_def)

lemma remembered_failed:
  assumes "IsValidSlot slot"
  shows "remembered (snd (wc_IsFirstFailure slot (wc_Invalidate slot c))) slot' key = (if slot' = slot then None else remembered c slot' key)"
proof -
  have none: "sent_value (sent\<lparr>sn_Values := (\<lambda>_. None), sn_Cursor := None\<rparr>) key = None" for sent by (cases key) simp_all
  have failed: "sent_value (sent\<lparr>sn_Failed := b\<rparr>) key = sent_value sent key" for sent b by (cases key) simp_all
  have "remembered (snd (wc_IsFirstFailure slot d)) slot' key = remembered d slot' key" for d
    using remembered_For[of slot d _ key] wc_For_valid[OF assms, of d] by (auto simp: wc_IsFirstFailure_def remembered_put failed remembered_def[of d])
  moreover have "remembered (wc_Invalidate slot c) slot' key = (if slot' = slot then None else remembered c slot' key)"
    using wc_For_valid[OF assms, of c] assms none by (auto simp: wc_Invalidate_def remembered_put)
  ultimately show ?thesis by simp
qed

section \<open>Writes keep the screen in step\<close>

text \<open>A call that tells the entity one value, for one slot and key.\<close>

definition tells :: "HudCall \<Rightarrow> nat \<Rightarrow> int \<Rightarrow> HudKey \<Rightarrow> string \<Rightarrow> bool" where
  "tells call entity slot key v \<longleftrightarrow>
     (\<forall>calls slot' key'. told (call # calls) entity slot' key' = (if slot' = slot \<and> key' = key then Some v else told calls entity slot' key'))"

definition sends :: "(screen_state \<Rightarrow> status \<times> screen_state) \<Rightarrow> int \<Rightarrow> HudKey \<Rightarrow> string \<Rightarrow> bool" where
  "sends send slot key v \<longleftrightarrow>
     (\<forall>s. (\<exists>e. send s = (Inl e, s)) \<or> (\<exists>call. send s = (Inr (), engine_call call s) \<and> tells call (se_entity (ss_self s)) slot key v)) \<and>
     (\<forall>s s'. se_entity (ss_self s) = se_entity (ss_self s') \<longrightarrow> fst (send s) = fst (send s'))"

lemma EntityForWrite_cong:
  assumes "se_entity (ss_self s) = se_entity (ss_self s')"
  shows "EntityForWrite env slot s = EntityForWrite env slot s'"
proof -
  have "sc_Exists env s = sc_Exists env s'" "PlayerStateCount env s = PlayerStateCount env s'" using assms by (simp_all add: sc_Exists_def PlayerStateCount_def)
  then show ?thesis unfolding EntityForWrite_def assms by (simp only:)
qed

lemma EntityForWrite_entity: "EntityForWrite env slot s = Inr entity \<Longrightarrow> entity = se_entity (ss_self s)"
  by (auto simp: EntityForWrite_def Let_def split: if_split_asm option.split_asm)

lemma sendsI:
  assumes "\<And>s. send s = (case EntityForWrite env slot s of Inl e \<Rightarrow> (Inl e, s) | Inr entity \<Rightarrow> if bad then (Inl err, s) else (Inr (), engine_call (call s entity) s))"
    and "\<And>s entity. tells (call s entity) entity slot key v"
  shows "sends send slot key v"
proof -
  have "(\<exists>e. send s = (Inl e, s)) \<or> (\<exists>call. send s = (Inr (), engine_call call s) \<and> tells call (se_entity (ss_self s)) slot key v)" for s
  proof (cases "EntityForWrite env slot s")
    case (Inr entity)
    then have "tells (call s entity) (se_entity (ss_self s)) slot key v" using assms(2) EntityForWrite_entity[OF Inr] by simp
    then show ?thesis using assms(1)[of s] Inr by (cases bad) auto
  qed (use assms(1)[of s] in simp)
  moreover have "fst (send s) = fst (send s')" if "se_entity (ss_self s) = se_entity (ss_self s')" for s s'
    unfolding assms(1)[of s] assms(1)[of s'] EntityForWrite_cong[OF that] by (cases "EntityForWrite env slot s'") simp_all
  ultimately show ?thesis unfolding sends_def by blast
qed

lemma sends_text: "sends (SendText env slot variable v) slot (TextKey variable) v"
  by (rule sendsI[where env = env and bad = "if slot = EveryoneSlot then \<not> he_SetDialogVariable env else \<not> he_SetDialogVariableForPlayer env"
        and err = "Error_Unsupported (if slot = EveryoneSlot then ''the custom HUD text setter did not bind'' else ''the custom HUD per-player text setter did not bind'')"
        and call = "\<lambda>s entity. SetDialogVariable entity slot (LayoutPath_Name (se_layout (ss_self s))) variable v"])
    (simp_all add: SendText_def tells_def split: sum.split)

lemma sends_class: "sends (SendClass env slot element name on) slot (ClassKey element name) (flag on)"
  by (rule sendsI[where env = env and bad = "if slot = EveryoneSlot then \<not> he_SetHasClass env else \<not> he_SetHasClassForPlayer env"
        and err = "Error_Unsupported (if slot = EveryoneSlot then ''the custom HUD class setter did not bind'' else ''the custom HUD per-player class setter did not bind'')"
        and call = "\<lambda>s entity. SetHasClass entity slot element name on"])
    (simp_all add: SendClass_def tells_def split: sum.split)

lemma sends_cursor: "sends (SendCursor env slot shown) slot CursorKey (flag shown)"
  by (rule sendsI[where env = env and bad = "slot \<noteq> EveryoneSlot \<and> \<not> he_SetInputCapture env"
        and err = "Error_Unsupported ''the custom HUD input capture setter did not bind''" and call = "\<lambda>s entity. SetInputCapture entity slot shown"])
    (simp_all add: SendCursor_def tells_def split: sum.split)

text \<open>The shape the three writes share.\<close>

definition checked_write :: "(WriteCache \<Rightarrow> bool \<times> WriteCache) \<Rightarrow> (screen_state \<Rightarrow> status \<times> screen_state) \<Rightarrow> int \<Rightarrow> screen_state \<Rightarrow> screen_state" where
  "checked_write cache send target s =
     (let (changed, c) = cache (se_written (ss_self s)); s1 = upd_written (\<lambda>_. c) s
      in if \<not> changed then s1 else let (status, s2) = send s1 in CheckWrite target status s2)"

lemma written_simps [simp]:
  "ss_self (upd_written f s) = (ss_self s)\<lparr>se_written := f (se_written (ss_self s))\<rparr>" "ss_calls (upd_written f s) = ss_calls s"
  "ss_visibility (upd_written f s) = ss_visibility s" "ss_self (engine_call call s) = ss_self s" "ss_calls (engine_call call s) = call # ss_calls s"
  "ss_visibility (engine_call call s) = ss_visibility s" "ss_self (upd_self g s) = g (ss_self s)" "ss_calls (upd_self g s) = ss_calls s" "ss_visibility (upd_self g s) = ss_visibility s"
  by (simp_all add: upd_written_def upd_self_def engine_call_def)

lemma owner_simps [simp]:
  "IsForPlayer (e\<lparr>se_written := c\<rparr>) = IsForPlayer e" "ContentSlotFor t (e\<lparr>se_written := c\<rparr>) = ContentSlotFor t e" "send_slot (e\<lparr>se_written := c\<rparr>) t key = send_slot e t key"
  "IsForPlayer (e\<lparr>se_entity := r\<rparr>) = IsForPlayer e" "IsForPlayer (e\<lparr>se_playersChangedSinceSpawn := b\<rparr>) = IsForPlayer e"
  "send_slot (e\<lparr>se_playersChangedSinceSpawn := b\<rparr>) t key = send_slot e t key" "send_slot (e\<lparr>se_entity := r\<rparr>) t key = send_slot e t key"
  by (cases key; simp add: IsForPlayer_def ContentSlotFor_def)+

lemma write_alts:
  "sc_WriteText env slot variable v s = (case CacheSlotFor slot (ss_self s) of Inl _ \<Rightarrow> s
     | Inr t \<Rightarrow> checked_write (wc_Changed t Text_kind [] variable v) (SendText env (ContentSlotFor t (ss_self s)) variable v) t s)"
  "sc_WriteClass env slot element name on s = (case CacheSlotFor slot (ss_self s) of Inl _ \<Rightarrow> s
     | Inr t \<Rightarrow> checked_write (wc_Changed t Class_kind element name (flag on)) (SendClass env (ContentSlotFor t (ss_self s)) element name on) t s)"
  "sc_WriteCursor env slot shown s = (case CacheSlotFor slot (ss_self s) of Inl _ \<Rightarrow> s
     | Inr t \<Rightarrow> checked_write (wc_CursorChanged t shown) (SendCursor env t shown) t s)"
  by (simp_all add: sc_WriteText_def sc_WriteClass_def sc_WriteCursor_def checked_write_def flag_def Let_def split: sum.split prod.split)

lemma CheckWrite_facts:
  "ss_calls (CheckWrite t status s) = ss_calls s" "ss_visibility (CheckWrite t status s) = ss_visibility s"
  "\<exists>c. ss_self (CheckWrite t status s) = (ss_self s)\<lparr>se_written := c\<rparr> \<and>
     (\<forall>slot key. remembered c slot key = (if slot = t \<and> IsValidSlot t \<and> (\<exists>e. status = Inl e) then None else remembered (se_written (ss_self s)) slot key))"
proof -
  show "\<exists>c. ss_self (CheckWrite t status s) = (ss_self s)\<lparr>se_written := c\<rparr> \<and>
     (\<forall>slot key. remembered c slot key = (if slot = t \<and> IsValidSlot t \<and> (\<exists>e. status = Inl e) then None else remembered (se_written (ss_self s)) slot key))"
  proof (cases "IsValidSlot t \<and> (\<exists>e. status = Inl e)")
    case True
    then show ?thesis using remembered_failed[of t "se_written (ss_self s)"]
      by (intro exI[of _ "snd (wc_IsFirstFailure t (wc_Invalidate t (se_written (ss_self s))))"]) (auto simp: CheckWrite_def)
  next
    case False
    then have "CheckWrite t status s = s" by (auto simp: CheckWrite_def split: sum.split)
    then show ?thesis using False by (intro exI[of _ "se_written (ss_self s)"]) auto
  qed
qed (auto simp: CheckWrite_def split: sum.split)

text \<open>Different slots of what is remembered are sent to different places.\<close>

lemma send_slot_inj:
  assumes "IsForPlayer e \<longrightarrow> t = se_owner e \<and> t' = se_owner e" "(t', key') \<noteq> (t, key)" "IsValidSlot t'"
  shows "\<not> (send_slot e t' key' = send_slot e t key \<and> key' = key)"
  using assms by (cases key; cases key') (auto simp: ContentSlotFor_def)

lemma remembered_valid: "remembered c slot key = Some v \<Longrightarrow> IsValidSlot slot"
  by (simp add: remembered_def split: if_split_asm)

lemma checked_write_ok:
  fixes s :: screen_state
  defines "e \<equiv> ss_self s"
  assumes sync: "in_sync s" and target: "IsForPlayer e \<longrightarrow> t = se_owner e" and valid: "\<not> IsForPlayer e \<or> IsValidSlot (se_owner e)"
    and cache: "remembers (cache (se_written e)) (se_written e) t key v" and send: "sends send (send_slot e t key) key v"
  shows "in_sync (checked_write cache send t s) \<and> ss_visibility (checked_write cache send t s) = ss_visibility s \<and>
    (\<exists>c. ss_self (checked_write cache send t s) = e\<lparr>se_written := c\<rparr> \<and>
      (IsValidSlot t \<longrightarrow> told (ss_calls (checked_write cache send t s)) (se_entity e) (send_slot e t key) key = Some v \<or>
         (\<exists>err. fst (send s) = Inl err) \<and> (\<forall>k. remembered c t k = None)))"
proof -
  obtain b c where bc: "cache (se_written e) = (b, c)" by fastforce
  define s1 where "s1 = upd_written (\<lambda>_. c) s"
  have s1: "ss_self s1 = e\<lparr>se_written := c\<rparr>" "ss_calls s1 = ss_calls s" "ss_visibility s1 = ss_visibility s" by (simp_all add: s1_def e_def)
  have syncD: "(IsForPlayer e \<longrightarrow> slot = se_owner e) \<and> told (ss_calls s) (se_entity e) (send_slot e slot k) k = Some x"
    if "remembered (se_written e) slot k = Some x" for slot k x using sync that by (simp add: in_sync_def e_def)
  have rem: "remembered c slot k = Some x \<Longrightarrow> (slot, k) = (t, key) \<and> IsValidSlot t \<and> x = v \<or> (slot, k) \<noteq> (t, key) \<and> remembered (se_written e) slot k = Some x" for slot k x
    using cache bc remembered_valid[of c slot k x] by (cases "IsValidSlot t"; cases "(slot, k) = (t, key)") (auto simp: remembers_def)
  show ?thesis
  proof (cases b)
    case False
    have w: "checked_write cache send t s = s1" using False bc by (simp add: checked_write_def e_def s1_def)
    have same: "remembered c = remembered (se_written e)"
    proof (intro ext)
      show "remembered c slot k = remembered (se_written e) slot k" for slot k
        using cache bc False by (cases "IsValidSlot t"; cases "(slot, k) = (t, key)") (auto simp: remembers_def)
    qed
    have "in_sync s1" using syncD by (simp add: in_sync_def s1 same)
    moreover have "told (ss_calls s1) (se_entity e) (send_slot e t key) key = Some v" if "IsValidSlot t"
      using that cache bc False syncD by (simp add: remembers_def s1)
    ultimately show ?thesis unfolding w using s1 by auto
  next
    case True
    define r where "r = send s1"
    have w: "checked_write cache send t s = CheckWrite t (fst r) (snd r)" using True bc by (simp add: checked_write_def e_def s1_def r_def case_prod_beta Let_def)
    obtain d where d: "ss_self (CheckWrite t (fst r) (snd r)) = (ss_self (snd r))\<lparr>se_written := d\<rparr>"
        "\<And>slot k. remembered d slot k = (if slot = t \<and> IsValidSlot t \<and> (\<exists>e. fst r = Inl e) then None else remembered (se_written (ss_self (snd r))) slot k)"
      using CheckWrite_facts(3) by blast
    have fst_send: "fst (send s) = fst r" unfolding r_def by (rule conjunct2[OF send[unfolded sends_def], rule_format]) (simp add: s1 e_def)
    consider (failed) err where "r = (Inl err, s1)" | (sent) call where "r = (Inr (), engine_call call s1)" "tells call (se_entity e) (send_slot e t key) key v"
    proof -
      have "se_entity (ss_self s1) = se_entity e" by (simp add: s1)
      then show thesis using conjunct1[OF send[unfolded sends_def], rule_format, of s1] that unfolding r_def by auto
    qed
    then show ?thesis
    proof cases
      case failed
      have "remembered (se_written e) slot k = Some x" if "remembered d slot k = Some x" for slot k x
        using that rem[of slot k x] failed s1 unfolding d(2) by (auto split: if_split_asm)
      then have "in_sync (CheckWrite t (fst r) (snd r))" unfolding in_sync_def CheckWrite_facts d(1) using syncD failed s1 by (simp, blast)
      then show ?thesis unfolding w using failed d s1 fst_send CheckWrite_facts(1,2)[of t "fst r" "snd r"] by auto
    next
      case sent
      have "(IsForPlayer e \<longrightarrow> slot = se_owner e) \<and> told (call # ss_calls s) (se_entity e) (send_slot e slot k) k = Some x" if x: "remembered c slot k = Some x" for slot k x
      proof (cases "(slot, k) = (t, key)")
        case True
        then show ?thesis using rem[OF x] sent(2) target by (simp add: tells_def)
      next
        case False
        have old: "remembered (se_written e) slot k = Some x" using rem[OF x] False by blast
        then have "\<not> (send_slot e slot k = send_slot e t key \<and> k = key)"
          using send_slot_inj[of e t slot k key] target False syncD[OF old] remembered_valid[OF x] by blast
        then have "told (call # ss_calls s) (se_entity e) (send_slot e slot k) k = told (ss_calls s) (se_entity e) (send_slot e slot k) k"
          using sent(2) unfolding tells_def by metis
        then show ?thesis using syncD[OF old] by simp
      qed
      moreover have "remembered d = remembered c" by (intro ext) (simp add: d(2) sent s1)
      ultimately have "in_sync (CheckWrite t (fst r) (snd r))" unfolding in_sync_def CheckWrite_facts d(1) using sent s1 by simp
      moreover have "told (call # ss_calls s) (se_entity e) (send_slot e t key) key = Some v" using sent(2) by (simp add: tells_def)
      ultimately show ?thesis unfolding w using sent(1) d(1) s1 CheckWrite_facts(1,2)[of t "fst r" "snd r"] by (intro conjI exI[of _ d]) simp_all
    qed
  qed
qed

section \<open>Every reachable state\<close>

definition screen_ok :: "screen_state \<Rightarrow> bool" where
  "screen_ok s \<longleftrightarrow> in_sync s \<and> vis_ok (ss_visibility s) \<and> (IsForPlayer (ss_self s) \<longrightarrow> IsValidSlot (se_owner (ss_self s))) \<and>
     (IsForPlayer (ss_self s) \<and> se_entity (ss_self s) \<noteq> Unset \<longrightarrow>
        audiences (vi_private (ss_visibility s)) (se_entity (ss_self s)) = Some (OnlySlot (se_owner (ss_self s))))"

text \<open>What others do with the visibility service while the entity is there; a snapshot that no longer finds it forgets its audience.\<close>

definition leaves_entity :: "nat \<Rightarrow> VisOp \<Rightarrow> bool" where
  "leaves_entity entity op \<longleftrightarrow> (case op of
     Only e _ \<Rightarrow> e \<noteq> entity | OnlyFor e _ \<Rightarrow> e \<noteq> entity | Except e _ \<Rightarrow> e \<noteq> entity | Everyone e \<Rightarrow> e \<noteq> entity
   | SlotChange _ \<Rightarrow> False | Snapshot entities _ _ \<Rightarrow> entity \<noteq> Unset \<longrightarrow> 0 < en_Index entities entity | _ \<Rightarrow> True)"

datatype ScreenStep = Ensure hud_env int | Text hud_env int string string | Class hud_env int string string bool | Cursor hud_env int bool
  | Removal hud_env | SlotChanged hud_env int | FullyConnected int | Others VisOp

fun screen_step :: "ScreenStep \<Rightarrow> screen_state \<Rightarrow> screen_state" where
  "screen_step (Ensure env slot) s = snd (sc_EnsureSpawned env slot s)"
| "screen_step (Text env slot variable v) s = sc_WriteText env slot variable v s"
| "screen_step (Class env slot element name on) s = sc_WriteClass env slot element name on s"
| "screen_step (Cursor env slot shown) s = sc_WriteCursor env slot shown s"
| "screen_step (Removal env) s = sc_Remove env s"
| "screen_step (SlotChanged env slot) s = sc_slot_changed env slot (s\<lparr>ss_visibility := vis_slot_changed slot (ss_visibility s)\<rparr>)"
| "screen_step (FullyConnected slot) s = sc_fully_connected slot (engine_call (PlayerStateReset slot) s)"
| "screen_step (Others op) s = s\<lparr>ss_visibility := vis_step op (ss_visibility s)\<rparr>"

text \<open>The engine spawns with a real handle, element ids are legal, and slots that change are player slots.\<close>

fun step_ok :: "screen_state \<Rightarrow> ScreenStep \<Rightarrow> bool" where
  "step_ok s (Ensure env slot) \<longleftrightarrow> he_Spawned env \<noteq> Some Unset"
| "step_ok s (Class env slot element name on) \<longleftrightarrow> KeySeparator \<notin> set element"
| "step_ok s (SlotChanged env slot) \<longleftrightarrow> IsValidSlot slot"
| "step_ok s (FullyConnected slot) \<longleftrightarrow> IsValidSlot slot"
| "step_ok s (Others op) \<longleftrightarrow> leaves_entity (se_entity (ss_self s)) op"
| "step_ok s _ \<longleftrightarrow> True"

inductive screen_run :: "screen_state \<Rightarrow> screen_state \<Rightarrow> bool" for s where
  Start: "screen_run s s"
| Step: "screen_run s t \<Longrightarrow> step_ok t step \<Longrightarrow> screen_run s (screen_step step t)"

lemma in_sync_forgotten: "(\<And>slot key. remembered (se_written (ss_self s)) slot key = None) \<Longrightarrow> in_sync s"
  by (simp add: in_sync_def)

lemma screen_ok_Remove:
  assumes "screen_ok s"
  shows "screen_ok (sc_Remove env s)" "se_entity (ss_self (sc_Remove env s)) = Unset" "se_owner (ss_self (sc_Remove env s)) = se_owner (ss_self s)"
    "remembered (se_written (ss_self (sc_Remove env s))) slot key = None"
proof -
  show "screen_ok (sc_Remove env s)"
    using assms ShowToEveryone_view[of "ss_visibility s" "se_entity (ss_self s)"]
    by (auto simp: screen_ok_def sc_Remove_def Let_def remembered_forget intro: in_sync_forgotten)
qed (simp_all add: sc_Remove_def Let_def remembered_forget)

lemma screen_ok_players: "screen_ok s \<Longrightarrow> screen_ok (upd_self (\<lambda>e. e\<lparr>se_playersChangedSinceSpawn := b\<rparr>) s)"
  by (simp add: screen_ok_def in_sync_def)

lemma screen_ok_Spawn:
  assumes "screen_ok s" "he_Spawned env \<noteq> Some Unset"
  shows "screen_ok (snd (sc_Spawn env s))"
proof -
  define s1 where "s1 = sc_Remove env (upd_self (\<lambda>e. e\<lparr>se_playersChangedSinceSpawn := False\<rparr>) s)"
  have s1: "screen_ok s1" "\<And>slot key. remembered (se_written (ss_self s1)) slot key = None"
    unfolding s1_def by (intro screen_ok_Remove screen_ok_players assms(1))+
  show ?thesis
  proof (cases "\<exists>u ref. he_Available env = Inr u \<and> he_Spawned env = Some ref")
    case True
    then obtain u ref where r: "he_Available env = Inr u" "he_Spawned env = Some ref" by blast
    have "vis_ok (ShowOnlyTo ref slot (ss_visibility s1)) \<and> audiences (vi_private (ShowOnlyTo ref slot (ss_visibility s1))) ref = Some (OnlySlot slot)" if "IsValidSlot slot" for slot
      using vis_step_view[of "ss_visibility s1" "Only ref slot"] s1(1) that assms(2) r by (auto simp: view_def screen_ok_def)
    then show ?thesis using s1 r by (auto simp: sc_Spawn_def Let_def s1_def[symmetric] screen_ok_def intro: in_sync_forgotten)
  next
    case False
    then have "snd (sc_Spawn env s) = s1" by (auto simp: sc_Spawn_def Let_def s1_def split: sum.split option.split)
    then show ?thesis using s1 by simp
  qed
qed

lemma screen_ok_Ensure: "screen_ok s \<Longrightarrow> he_Spawned env \<noteq> Some Unset \<Longrightarrow> screen_ok (snd (sc_EnsureSpawned env slot s))"
  using screen_ok_Spawn[of s env] screen_ok_Spawn[of "snd (sc_Spawn env s)" env]
  by (simp add: sc_EnsureSpawned_def SpawnOrWarn_def case_prod_beta Let_def split: sum.split)

text \<open>A write, whichever it is.\<close>

lemma screen_ok_write:
  assumes "screen_ok s" "CacheSlotFor slot (ss_self s) = Inr t" "remembers (cache (se_written (ss_self s))) (se_written (ss_self s)) t key v"
    and "sends send (send_slot (ss_self s) t key) key v"
  shows "screen_ok (checked_write cache send t s)" "\<exists>c. ss_self (checked_write cache send t s) = (ss_self s)\<lparr>se_written := c\<rparr>"
    "IsValidSlot t \<Longrightarrow> told (ss_calls (checked_write cache send t s)) (se_entity (ss_self s)) (send_slot (ss_self s) t key) key = Some v \<or>
       (\<exists>err. fst (send s) = Inl err) \<and> (\<forall>k. remembered (se_written (ss_self (checked_write cache send t s))) t k = None)"
proof -
  have t: "IsForPlayer (ss_self s) \<longrightarrow> t = se_owner (ss_self s)" using assms(2) by (auto simp: CacheSlotFor_def split: if_split_asm)
  have "\<not> IsForPlayer (ss_self s) \<or> IsValidSlot (se_owner (ss_self s))" "in_sync s" using assms(1) by (auto simp: screen_ok_def)
  then obtain c where c: "in_sync (checked_write cache send t s)" "ss_visibility (checked_write cache send t s) = ss_visibility s"
      "ss_self (checked_write cache send t s) = (ss_self s)\<lparr>se_written := c\<rparr>"
      "IsValidSlot t \<longrightarrow> told (ss_calls (checked_write cache send t s)) (se_entity (ss_self s)) (send_slot (ss_self s) t key) key = Some v \<or>
         (\<exists>err. fst (send s) = Inl err) \<and> (\<forall>k. remembered c t k = None)"
    using checked_write_ok[where s = s and t = t and cache = cache and send = send and key = key and v = v] t assms(3,4) by blast
  show "screen_ok (checked_write cache send t s)" using assms(1) c(1-3) by (simp add: screen_ok_def)
  show "\<exists>c. ss_self (checked_write cache send t s) = (ss_self s)\<lparr>se_written := c\<rparr>" using c(3) by blast
  show "IsValidSlot t \<Longrightarrow> told (ss_calls (checked_write cache send t s)) (se_entity (ss_self s)) (send_slot (ss_self s) t key) key = Some v \<or>
       (\<exists>err. fst (send s) = Inl err) \<and> (\<forall>k. remembered (se_written (ss_self (checked_write cache send t s))) t k = None)"
    using c(3,4) by simp
qed

lemma in_sync_reset:
  assumes "in_sync s" "IsValidSlot slot"
  shows "in_sync (upd_written (wc_RemoveSlot slot) (engine_call (PlayerStateReset slot) s))"
proof -
  have "send_slot e t key = t \<or> send_slot e t key = EveryoneSlot" for e t key by (cases key) (simp_all add: ContentSlotFor_def)
  then have "slot \<noteq> send_slot e t key" if "t \<noteq> slot" for e t key using that assms(2) by (metis everyone_invalid)
  then show ?thesis using assms(1) unfolding in_sync_def by (simp add: remembered_forget)
qed

lemma in_sync_removed: "in_sync s \<Longrightarrow> in_sync (upd_written (wc_RemoveSlot slot) s)"
  by (auto simp: in_sync_def remembered_forget)

lemma screen_step_ok:
  assumes "screen_ok s" "step_ok s step"
  shows "screen_ok (screen_step step s)"
proof -
  have vis: "vis_ok (ss_visibility s)" using assms(1) by (simp add: screen_ok_def)
  show ?thesis
  proof (cases step)
    case (Ensure env slot)
    then show ?thesis using screen_ok_Ensure assms by simp
  next
    case (Text env slot variable v)
    have "screen_ok (checked_write (wc_Changed t Text_kind [] variable v) (SendText env (ContentSlotFor t (ss_self s)) variable v) t s)"
      if "CacheSlotFor slot (ss_self s) = Inr t" for t
      by (rule screen_ok_write(1)[OF assms(1) that, where key = "TextKey variable" and v = v]) (simp_all add: remembers_text sends_text)
    then show ?thesis using Text assms(1) by (simp add: write_alts split: sum.split)
  next
    case (Class env slot element name on)
    have "screen_ok (checked_write (wc_Changed t Class_kind element name (flag on)) (SendClass env (ContentSlotFor t (ss_self s)) element name on) t s)"
      if "CacheSlotFor slot (ss_self s) = Inr t" for t
      by (rule screen_ok_write(1)[OF assms(1) that, where key = "ClassKey element name" and v = "flag on"]) (use Class assms(2) in \<open>simp_all add: remembers_class sends_class\<close>)
    then show ?thesis using Class assms(1) by (simp add: write_alts split: sum.split)
  next
    case (Cursor env slot shown)
    have "screen_ok (checked_write (wc_CursorChanged t shown) (SendCursor env t shown) t s)" if "CacheSlotFor slot (ss_self s) = Inr t" for t
      by (rule screen_ok_write(1)[OF assms(1) that, where key = CursorKey and v = "flag shown"]) (simp_all add: remembers_cursor sends_cursor)
    then show ?thesis using Cursor assms(1) by (simp add: write_alts split: sum.split)
  next
    case (Removal env)
    then show ?thesis using screen_ok_Remove(1)[OF assms(1)] by simp
  next
    case (SlotChanged env slot)
    let ?s = "s\<lparr>ss_visibility := vis_slot_changed slot (ss_visibility s)\<rparr>"
    have v: "vis_ok (vis_slot_changed slot (ss_visibility s))" "audiences (vi_private (vis_slot_changed slot (ss_visibility s))) =
        (\<lambda>e. if audiences (vi_private (ss_visibility s)) e = Some (OnlySlot slot) then None else audiences (vi_private (ss_visibility s)) e)"
      using vis_step_view[OF vis, of "SlotChange slot"] SlotChanged assms(2) by (auto simp: view_def)
    show ?thesis
    proof (cases "slot = se_owner (ss_self s)")
      case True
      then show ?thesis using SlotChanged assms(1) v ShowToEveryone_view[OF v(1)]
        by (auto simp: sc_slot_changed_def Let_def screen_ok_def sc_Remove_def remembered_forget intro: in_sync_forgotten)
    next
      case False
      have "in_sync (upd_self (\<lambda>e. e\<lparr>se_playersChangedSinceSpawn := True\<rparr>) ?s)" using assms(1) by (simp add: screen_ok_def in_sync_def)
      then show ?thesis using False SlotChanged assms(1) v in_sync_removed by (simp add: sc_slot_changed_def Let_def screen_ok_def)
    qed
  next
    case (FullyConnected slot)
    have "in_sync (upd_written (wc_RemoveSlot slot) (engine_call (PlayerStateReset slot) (upd_self (\<lambda>e. e\<lparr>se_playersChangedSinceSpawn := True\<rparr>) s)))"
      using assms FullyConnected by (intro in_sync_reset) (simp_all add: screen_ok_def in_sync_def)
    then have "in_sync (screen_step step s)" by (simp add: FullyConnected sc_fully_connected_def in_sync_def)
    then show ?thesis using assms(1) by (simp add: FullyConnected sc_fully_connected_def screen_ok_def)
  next
    case (Others op)
    have "vis_ok (vis_step op (ss_visibility s))" "audiences (vi_private (vis_step op (ss_visibility s))) = vs_Audience (spec_step op (view (ss_visibility s)))"
      using vis_step_view[OF vis, of op] by (simp, metis VisSpec.select_convs(3) view_def)
    then show ?thesis using Others assms by (cases op) (auto simp: screen_ok_def in_sync_def leaves_entity_def view_def not_le)
  qed
qed

lemma screen_run_ok: "screen_run s t \<Longrightarrow> screen_ok s \<Longrightarrow> screen_ok t"
  by (induction rule: screen_run.induct) (auto intro: screen_step_ok)

lemma new_screen_ok:
  "owner = EveryoneSlot \<or> IsValidSlot owner \<Longrightarrow> vis_ok v \<Longrightarrow> screen_ok \<lparr>ss_self = new_screen_entity layout owner, ss_visibility = v, ss_calls = calls\<rparr>"
  by (auto simp: screen_ok_def new_screen_entity_def IsForPlayer_def remembered_forget intro: in_sync_forgotten)

section \<open>What a player sees\<close>

text \<open>The entity was last told this value; nothing is remembered for the slot, so the next write of anything is sent.\<close>

definition was_told :: "screen_state \<Rightarrow> int \<Rightarrow> HudKey \<Rightarrow> string \<Rightarrow> bool" where
  "was_told s t key v \<longleftrightarrow> told (ss_calls s) (se_entity (ss_self s)) (send_slot (ss_self s) t key) key = Some v"

definition forgot :: "screen_state \<Rightarrow> int \<Rightarrow> bool" where
  "forgot s t \<longleftrightarrow> (\<forall>key. remembered (se_written (ss_self s)) t key = None)"

lemma write_lands:
  assumes "screen_ok s" "CacheSlotFor slot (ss_self s) = Inr t" "remembers (cache (se_written (ss_self s))) (se_written (ss_self s)) t key v"
    and "sends send (send_slot (ss_self s) t key) key v" "IsValidSlot t"
  shows "was_told (checked_write cache send t s) t key v \<or> (\<exists>err. fst (send s) = Inl err) \<and> forgot (checked_write cache send t s) t"
proof -
  obtain c where "ss_self (checked_write cache send t s) = (ss_self s)\<lparr>se_written := c\<rparr>" using screen_ok_write(2)[where cache = cache and send = send, OF assms(1-4)] by blast
  then show ?thesis using screen_ok_write(3)[where cache = cache and send = send, OF assms(1-4) assms(5)] by (simp add: was_told_def forgot_def)
qed

text \<open>
  Skipping what was already sent never leaves a player with an old value: whatever was written, whoever came and went and however often the
  entity was replaced, after a write for a player the entity was last told this text, class or cursor state on the state the player sees, or this write was
  refused and everything remembered for the player is forgotten, so that the next write is sent.
\<close>

theorem screen_shows_last_write:
  assumes "owner = EveryoneSlot \<or> IsValidSlot owner" and "vis_ok vis"
    and "screen_run \<lparr>ss_self = new_screen_entity layout owner, ss_visibility = vis, ss_calls = calls\<rparr> s"
    and "CacheSlotFor slot (ss_self s) = Inr t" and "IsValidSlot t" and "KeySeparator \<notin> set element"
  shows "(let s' = sc_WriteText env slot variable v s
          in was_told s' t (TextKey variable) v \<or> (\<exists>e. fst (SendText env (ContentSlotFor t (ss_self s)) variable v s) = Inl e) \<and> forgot s' t) \<and>
    (let s' = sc_WriteClass env slot element name on s
     in was_told s' t (ClassKey element name) (flag on) \<or> (\<exists>e. fst (SendClass env (ContentSlotFor t (ss_self s)) element name on s) = Inl e) \<and> forgot s' t) \<and>
    (let s' = sc_WriteCursor env slot shown s
     in was_told s' t CursorKey (flag shown) \<or> (\<exists>e. fst (SendCursor env t shown s) = Inl e) \<and> forgot s' t)"
proof -
  have ok: "screen_ok s" using screen_run_ok[OF assms(3)] new_screen_ok assms(1,2) by blast
  note lands = write_lands[OF ok assms(4) _ _ assms(5)]
  show ?thesis unfolding write_alts assms(4) sum.case Let_def
    using lands[of "wc_Changed t Text_kind [] variable v" "TextKey variable" v "SendText env (ContentSlotFor t (ss_self s)) variable v"]
      lands[of "wc_Changed t Class_kind element name (flag on)" "ClassKey element name" "flag on" "SendClass env (ContentSlotFor t (ss_self s)) element name on"]
      lands[of "wc_CursorChanged t shown" CursorKey "flag shown" "SendCursor env t shown"]
      remembers_text remembers_class[OF assms(6)] remembers_cursor sends_text sends_class sends_cursor by simp
qed

definition example_hud :: hud_env where
  "example_hud = \<lparr>he_Get = (\<lambda>_. True), he_Available = Inr (), he_Spawned = Some 7, he_PlayerLayoutStates = (\<lambda>_. 10), he_PanelIds = (\<lambda>_. 0), he_ClassNames = (\<lambda>_. 0),
     he_DialogVariableNames = (\<lambda>_. 0), he_SetHasClass = True, he_SetHasClassForPlayer = True, he_SetDialogVariable = True, he_SetDialogVariableForPlayer = True,
     he_SetInputCapture = True\<rparr>"

definition example_screen :: screen_state where
  "example_screen = \<lparr>ss_self = new_screen_entity ''panorama/layout/custom_game/menu.xml'' 3, ss_visibility = vis_init, ss_calls = []\<rparr>"

definition example_drawn :: screen_state where
  "example_drawn = screen_step (Text example_hud 3 ''title'' ''Hello'') (screen_step (Ensure example_hud 3) example_screen)"

lemma example_drawn_run: "screen_run \<lparr>ss_self = new_screen_entity ''panorama/layout/custom_game/menu.xml'' 3, ss_visibility = vis_init, ss_calls = []\<rparr> example_drawn"
  unfolding example_drawn_def example_screen_def by (intro screen_run.Step screen_run.Start) (simp_all add: example_hud_def Unset_def)

lemma example_spawned:
  "ss_self (screen_step (Ensure example_hud 3) example_screen) = (ss_self example_screen)\<lparr>se_entity := 7, se_playersChangedSinceSpawn := False, se_written := wc_Clear wc_init\<rparr>"
  by (simp add: example_screen_def sc_EnsureSpawned_def CacheSlotFor_def IsForPlayer_def new_screen_entity_def EveryoneSlot_def IsValidSlot_def MaxPlayers_def sc_Exists_def
      SpawnOrWarn_def sc_Spawn_def sc_Remove_def example_hud_def Covers_def PlayerStateCount_def Unset_def Let_def)

lemma example_drawn_fields: "se_owner (ss_self example_drawn) = 3" "se_entity (ss_self example_drawn) = 7"
proof -
  let ?s = "screen_step (Ensure example_hud 3) example_screen"
  have ok: "screen_ok ?s" unfolding example_screen_def
    by (intro screen_step_ok new_screen_ok) (simp_all add: vis_ok_init(1) example_hud_def Unset_def IsValidSlot_def MaxPlayers_def)
  have t: "CacheSlotFor 3 (ss_self ?s) = Inr 3" unfolding example_spawned by (simp add: CacheSlotFor_def IsForPlayer_def example_screen_def new_screen_entity_def)
  have "\<exists>c. ss_self example_drawn = (ss_self ?s)\<lparr>se_written := c\<rparr>" unfolding example_drawn_def screen_step.simps(2) write_alts t sum.case
    by (rule screen_ok_write(2)[OF ok t, where key = "TextKey ''title''" and v = "''Hello''"]) (simp_all add: remembers_text sends_text)
  then show "se_owner (ss_self example_drawn) = 3" "se_entity (ss_self example_drawn) = 7"
    unfolding example_spawned by (auto simp: example_screen_def new_screen_entity_def)
qed

theorem screen_shows_last_write_witness:
  "was_told (sc_WriteText example_hud 3 ''title'' ''Hello'' example_drawn) 3 (TextKey ''title'') ''Hello''"
proof -
  have "CacheSlotFor 3 (ss_self example_drawn) = Inr 3" by (simp add: CacheSlotFor_def IsForPlayer_def example_drawn_fields EveryoneSlot_def)
  moreover have "IsValidSlot 3" by (simp add: IsValidSlot_def MaxPlayers_def)
  moreover have "fst (SendText example_hud (ContentSlotFor 3 (ss_self example_drawn)) ''title'' ''Hello'' example_drawn) = Inr ()"
    by (simp add: SendText_def EntityForWrite_def sc_Exists_def example_hud_def example_drawn_fields ContentSlotFor_def IsForPlayer_def EveryoneSlot_def Unset_def
        StringTableCap_def StringTableHeadroom_def)
  ultimately show ?thesis
    using screen_shows_last_write[OF disjI2 vis_ok_init(1) example_drawn_run, of 3 3 "[]" example_hud "''title''" "''Hello''"] by (simp add: Let_def)
qed

text \<open>
  A player's screen is private: while its entity exists, every snapshot withholds it from every other client, whatever else is hidden or shown.
\<close>

theorem screen_private:
  assumes "IsValidSlot owner" and "vis_ok vis"
    and "screen_run \<lparr>ss_self = new_screen_entity layout owner, ss_visibility = vis, ss_calls = calls\<rparr> s"
    and "se_entity (ss_self s) \<noteq> Unset" and "recipient \<noteq> se_owner (ss_self s)" and "0 < en_Index entities (se_entity (ss_self s))" and "IsForPlayer (ss_self s)"
  shows "withheld entities (view (ss_visibility s)) recipient (en_Index entities (se_entity (ss_self s)))"
proof -
  have "screen_ok s" using screen_run_ok[OF assms(3)] new_screen_ok assms(1,2) by blast
  then have "vs_Audience (view (ss_visibility s)) (se_entity (ss_self s)) = Some (OnlySlot (se_owner (ss_self s)))" using assms(4,7) by (simp add: screen_ok_def view_def)
  moreover have "excluded (OnlySlot (se_owner (ss_self s))) recipient (team_of entities recipient)" using assms(5) by simp
  ultimately show ?thesis using assms(6) unfolding withheld_def by blast
qed

theorem screen_private_witness:
  "withheld \<lparr>en_Get = (\<lambda>h. if h = 7 then Some (0, 90) else None), en_Controller = (\<lambda>_. None)\<rparr> (view (ss_visibility example_drawn)) 5 90"
  using screen_private[OF _ vis_ok_init(1) example_drawn_run, of 5 "\<lparr>en_Get = (\<lambda>h. if h = 7 then Some (0, 90) else None), en_Controller = (\<lambda>_. None)\<rparr>"]
  by (simp add: example_drawn_fields IsForPlayer_def EveryoneSlot_def IsValidSlot_def MaxPlayers_def Unset_def en_Index_def)

text \<open>On a shared screen a write for everyone that was refused is remembered as sent: writing it again sends nothing.\<close>

theorem refused_global_write_lost:
  assumes "\<not> IsForPlayer (ss_self s)" and "fst (SendText env EveryoneSlot variable v s) = Inl e"
  shows "ss_calls (sc_WriteText env' EveryoneSlot variable v (sc_WriteText env EveryoneSlot variable v s)) = ss_calls s"
proof -
  let ?c = "se_written (ss_self s)" and ?key = "KeyFor Text_kind [] variable"
  have target: "CacheSlotFor EveryoneSlot (e\<lparr>se_written := c\<rparr>) = Inr EveryoneSlot" if "\<not> IsForPlayer e" for e c using that by (simp add: CacheSlotFor_def)
  have refused: "SendText env EveryoneSlot variable v t = (Inl e, t)" if "se_entity (ss_self t) = se_entity (ss_self s)" for t
    using assms(2) sends_text[of env EveryoneSlot variable v, unfolded sends_def] that by (metis fst_conv old.sum.distinct(1))
  define c where "c = snd (wc_Changed EveryoneSlot Text_kind [] variable v ?c)"
  have c: "wc_Changed EveryoneSlot Text_kind [] variable v c = (False, c)"
    by (auto simp: c_def wc_Changed_def wc_For_def wc_put_def Let_def)
  have first: "sc_WriteText env EveryoneSlot variable v s = upd_written (\<lambda>_. c) s"
    using refused[of "upd_written (\<lambda>_. c) s"] assms(1) target[OF assms(1), of ?c]
    by (simp add: sc_WriteText_def c_def case_prod_beta Let_def CheckWrite_def ContentSlotFor_def)
  show ?thesis unfolding first using c assms(1) target[OF assms(1), of c] by (simp add: sc_WriteText_def)
qed

section \<open>Accepted names\<close>

text \<open>A name that is accepted gives a source file in the one directory a client loads layouts from, and naming that file gives it again.\<close>

theorem LayoutPath_canonical:
  assumes "LayoutPath_Parse layout = Inr resource"
  shows "StartsWith resource LayoutDirectory \<and> EndsWith resource SourceExtension \<and> LayoutPath_Parse resource = Inr resource"
proof -
  have ends: "EndsWith (xs @ SourceExtension) SourceExtension" for xs by (simp add: EndsWith_def)
  have "StartsWith resource LayoutDirectory \<and> EndsWith resource SourceExtension"
    using assms ends[of "LayoutDirectory @ layout"]
    by (auto simp: LayoutPath_Parse_def Let_def StartsWith_def EndsWith_def split: if_split_asm)
  moreover have "CHR ''/'' \<in> set resource" if "StartsWith resource LayoutDirectory"
  proof -
    have "set LayoutDirectory \<subseteq> set resource" using that by (metis StartsWith_def set_take_subset)
    then show ?thesis by (auto simp: LayoutDirectory_def)
  qed
  moreover have "resource \<noteq> []" using \<open>StartsWith resource LayoutDirectory \<Longrightarrow> _\<close> calculation(1) by auto
  ultimately show ?thesis by (simp add: LayoutPath_Parse_def)
qed

end
