(* ===== verification/PlayerInputs.thy ===== *)
theory PlayerInputs
  imports PluginHost Durations
begin

text \<open>
  What players send: custom HUD button presses, read out of a user message, and the commands handed to RunCommand. Sources:
  \<^verbatim>\<open>src/Host/Input/{ButtonPressMessage,ButtonPresses,PlayerCommands}.{hpp,cpp}\<close>, \<^verbatim>\<open>include/VoltMod/Engine/PlayerInput.hpp\<close>. A cursor into the payload is
  the payload from there on; the engine's message and the protobuf of a command are arguments. Floats are only copied, so they have any type. Log lines are left out.
\<close>

unbundle bit_operations_syntax

section \<open>The payload\<close>

definition WireVarint :: nat where "WireVarint = 0"
definition WireFixed64 :: nat where "WireFixed64 = 1"
definition WireLengthDelimited :: nat where "WireLengthDelimited = 2"
definition WireFixed32 :: nat where "WireFixed32 = 5"
definition MaxVarintBytes :: nat where "MaxVarintBytes = 10"

fun read_varint :: "nat \<Rightarrow> 64 word \<Rightarrow> string \<Rightarrow> (64 word \<times> string) result" where
  "read_varint i v bytes =
     (if MaxVarintBytes \<le> i then Inl (Error_Invalid ''a varint is longer than ten bytes'')
      else case bytes of
        [] \<Rightarrow> Inl (Error_Invalid ''a varint runs past the end of the payload'')
      | c # rest \<Rightarrow>
          let v' = v OR push_bit (7 * i) (of_nat (byte_of c mod 0x80))
          in if byte_of c < 0x80 then Inr (v', rest) else read_varint (i + 1) v' rest)"

declare read_varint.simps [simp del]

definition ReadVarint :: "string \<Rightarrow> (64 word \<times> string) result" where
  "ReadVarint bytes = read_varint 0 0 bytes"

definition skip_bytes :: "nat \<Rightarrow> string \<Rightarrow> string result" where
  "skip_bytes n bytes = (if length bytes < n then Inl (Error_Invalid ''a field runs past the end of the payload'') else Inr (drop n bytes))"

definition SkipField :: "nat \<Rightarrow> string \<Rightarrow> string result" where
  "SkipField wireType bytes =
     (if wireType = WireVarint then (case ReadVarint bytes of Inl e \<Rightarrow> Inl e | Inr (_, rest) \<Rightarrow> Inr rest)
      else if wireType = WireFixed64 then skip_bytes 8 bytes
      else if wireType = WireFixed32 then skip_bytes 4 bytes
      else if wireType = WireLengthDelimited
      then (case ReadVarint bytes of Inl e \<Rightarrow> Inl e | Inr (size_of, rest) \<Rightarrow> skip_bytes (unat size_of) rest)
      else Inl (Error_Invalid (''unknown protobuf wire type '' @ to_string wireType)))"

lemma read_varint_Cons:
  "read_varint i v (c # rest) = (if MaxVarintBytes \<le> i then Inl (Error_Invalid ''a varint is longer than ten bytes'')
     else let v' = v OR push_bit (7 * i) (of_nat (byte_of c mod 0x80)) in if byte_of c < 0x80 then Inr (v', rest) else read_varint (i + 1) v' rest)"
  by (subst read_varint.simps) simp

lemma read_varint_Nil: "\<exists>e. read_varint i v [] = Inl e"
  by (subst read_varint.simps) simp

lemma read_varint_shorter: "read_varint i v bytes = Inr (r, rest) \<Longrightarrow> length rest < length bytes"
proof (induction bytes arbitrary: i v)
  case Nil
  then show ?case using read_varint_Nil[of i v] by simp
next
  case (Cons c cs)
  then show ?case by (fastforce simp: read_varint_Cons Let_def split: if_split_asm)
qed

lemma SkipField_shorter: "SkipField wireType bytes = Inr rest \<Longrightarrow> length rest \<le> length bytes"
  by (auto simp: SkipField_def skip_bytes_def ReadVarint_def split: if_split_asm sum.split_asm dest!: read_varint_shorter)

function parse_fields :: "string option \<Rightarrow> string \<Rightarrow> string option result" where
  "parse_fields button bytes =
     (if bytes = [] then Inr button
      else case ReadVarint bytes of
        Inl e \<Rightarrow> Inl e
      | Inr (key, rest) \<Rightarrow>
          let field = ucast (drop_bit 3 key) :: 32 word; wireType = unat (ucast (key AND 7) :: 32 word)
          in if field = 2 \<and> wireType = WireLengthDelimited
             then (case ReadVarint rest of
                     Inl e \<Rightarrow> Inl e
                   | Inr (size_of, rest1) \<Rightarrow>
                       if length rest1 < unat size_of then Inl (Error_Invalid ''the button id runs past the end of the payload'')
                       else parse_fields (Some (take (unat size_of) rest1)) (drop (unat size_of) rest1))
             else (case SkipField wireType rest of Inl e \<Rightarrow> Inl e | Inr rest1 \<Rightarrow> parse_fields button rest1))"
  by pat_completeness auto

termination
  by (relation "measure (\<lambda>(button, bytes). length bytes)") (auto simp: ReadVarint_def dest!: read_varint_shorter SkipField_shorter)

declare parse_fields.simps [simp del]

definition ButtonPressMessage_Parse :: "string \<Rightarrow> string result" where
  "ButtonPressMessage_Parse bytes =
     (case parse_fields None bytes of
        Inl e \<Rightarrow> Inl e
      | Inr None \<Rightarrow> Inl (Error_Invalid ''the payload carries no button id'')
      | Inr (Some button) \<Rightarrow> Inr button)"

section \<open>Presses\<close>

text \<open>An inbound message as the hook sees it: its id, the message type and data when it has them, and the slot of the connection it came from.\<close>

record InboundMessage =
  ib_MessageId :: "int option"
  ib_Proto :: bool
  ib_HasFields :: bool
  ib_Type :: int
  ib_Data :: string
  ib_Slot :: int

record Press =
  pr_Slot :: int
  pr_ButtonId :: string

record ButtonPresses =
  bp_messageId :: int
  bp_fields :: "bool option"
  bp_queued :: "Press list"
  bp_warnings :: "int Cooldown"
  bp_hooked :: bool

definition CustomHudClickType :: int where "CustomHudClickType = 390"
definition WarningIntervalSeconds :: int where "WarningIntervalSeconds = 10"
definition UserMessageName :: string where "UserMessageName = ''CSVCMsg_UserMessage''"

record press_engine =
  pe_NetworkMessages :: bool
  pe_ClientMessageFilter :: bool
  pe_FindMessage :: "string \<Rightarrow> int option"
  pe_Hook :: status

definition bp_Install :: "press_engine \<Rightarrow> ButtonPresses \<Rightarrow> status \<times> ButtonPresses" where
  "bp_Install engine bp =
     (if \<not> pe_ClientMessageFilter engine then (Inl (Error_Unsupported ''the FilterMessage client offset did not bind''), bp)
      else let bp1 = (case pe_FindMessage engine UserMessageName of None \<Rightarrow> bp | Some found \<Rightarrow> bp\<lparr>bp_messageId := found\<rparr>)
      in if bp_messageId bp1 < 0 then (Inl (Error_Engine (''the engine does not know '' @ UserMessageName)), bp1)
      else case pe_Hook engine of Inl e \<Rightarrow> (Inl e, bp1) | Inr _ \<Rightarrow> (Inr (), bp1\<lparr>bp_hooked := True\<rparr>))"

definition new_presses :: "press_engine \<Rightarrow> ButtonPresses" where
  "new_presses engine =
     (let bp = \<lparr>bp_messageId = -1, bp_fields = None, bp_queued = [], bp_warnings = \<lparr>cd_seconds = WarningIntervalSeconds, cd_startedAt = (\<lambda>_. None)\<rparr>, bp_hooked = False\<rparr>
      in if \<not> pe_NetworkMessages engine then bp else snd (bp_Install engine bp))"

text \<open>The fields are looked up on the first message only.\<close>

definition FieldsOf :: "InboundMessage \<Rightarrow> ButtonPresses \<Rightarrow> bool \<times> ButtonPresses" where
  "FieldsOf message bp = (case bp_fields bp of Some known \<Rightarrow> (known, bp) | None \<Rightarrow> (ib_HasFields message, bp\<lparr>bp_fields := Some (ib_HasFields message)\<rparr>))"

definition WarnMalformed :: "int \<Rightarrow> int \<Rightarrow> ButtonPresses \<Rightarrow> bool \<times> ButtonPresses" where
  "WarnMalformed slot nowSec bp = (case TryStart_default slot nowSec (bp_warnings bp) of (warn, w) \<Rightarrow> (warn, bp\<lparr>bp_warnings := w\<rparr>))"

definition bp_Queue :: "int \<Rightarrow> InboundMessage \<Rightarrow> ButtonPresses \<Rightarrow> ButtonPresses" where
  "bp_Queue nowSec message bp =
     (if ib_MessageId message \<noteq> Some (bp_messageId bp) \<or> \<not> ib_Proto message then bp
      else let (fields, bp1) = FieldsOf message bp
      in if \<not> fields then bp1
      else if ib_Type message \<noteq> CustomHudClickType then bp1
      else if \<not> IsValidSlot (ib_Slot message) then bp1
      else case ButtonPressMessage_Parse (ib_Data message) of
             Inl _ \<Rightarrow> snd (WarnMalformed (ib_Slot message) nowSec bp1)
           | Inr button \<Rightarrow>
               if CHR 0x00 \<in> set button then bp1
               else bp1\<lparr>bp_queued := bp_queued bp1 @ [\<lparr>pr_Slot = ib_Slot message, pr_ButtonId = button\<rparr>]\<rparr>)"

text \<open>Raising runs handlers of plugins, which may make further presses queue: it works on the presses and the host together.\<close>

definition bp_OnFrame :: "(int \<Rightarrow> string \<Rightarrow> ButtonPresses \<times> 'h \<Rightarrow> ButtonPresses \<times> 'h) \<Rightarrow> ButtonPresses \<times> 'h \<Rightarrow> ButtonPresses \<times> 'h" where
  "bp_OnFrame raise_press = (\<lambda>(bp, h). fold (\<lambda>p. raise_press (pr_Slot p) (pr_ButtonId p)) (bp_queued bp) (bp\<lparr>bp_queued := []\<rparr>, h))"

section \<open>Commands\<close>

record 'f SubtickMove =
  sm_Button :: "64 word"
  sm_Pressed :: bool
  sm_When :: 'f
  sm_PitchDelta :: 'f
  sm_YawDelta :: 'f

record 'f InputHistorySample =
  ih_HasViewAngles :: bool
  ih_ViewPitch :: 'f
  ih_ViewYaw :: 'f
  ih_TargetEntIndex :: int

definition MaxSubtickMoves :: nat where "MaxSubtickMoves = 12"
definition MaxInputHistory :: nat where "MaxInputHistory = 16"

record 'f PlayerInput =
  pi_Valid :: bool
  pi_ClientTick :: int
  pi_CommandNumber :: int
  pi_HasViewAngles :: bool
  pi_ViewAngles :: "'f \<times> 'f \<times> 'f"
  pi_ForwardMove :: 'f
  pi_LeftMove :: 'f
  pi_ButtonsHeld :: "64 word"
  pi_ButtonsChanged :: "64 word"
  pi_MouseDx :: int
  pi_MouseDy :: int
  pi_Attack1StartHistoryIndex :: int
  pi_Attack2StartHistoryIndex :: int
  pi_SubtickMoveCount :: nat
  pi_SubtickMoves :: "nat \<Rightarrow> 'f SubtickMove"
  pi_InputHistoryCount :: nat
  pi_InputHistorySent :: nat
  pi_InputHistorySamples :: "nat \<Rightarrow> 'f InputHistorySample"

definition default_sample :: "'f \<Rightarrow> 'f InputHistorySample" where
  "default_sample z = \<lparr>ih_HasViewAngles = False, ih_ViewPitch = z, ih_ViewYaw = z, ih_TargetEntIndex = -1\<rparr>"

definition default_input :: "'f \<Rightarrow> 'f PlayerInput" where
  "default_input z = \<lparr>pi_Valid = False, pi_ClientTick = 0, pi_CommandNumber = 0, pi_HasViewAngles = False, pi_ViewAngles = (z, z, z), pi_ForwardMove = z, pi_LeftMove = z,
     pi_ButtonsHeld = 0, pi_ButtonsChanged = 0, pi_MouseDx = 0, pi_MouseDy = 0, pi_Attack1StartHistoryIndex = -1, pi_Attack2StartHistoryIndex = -1,
     pi_SubtickMoveCount = 0, pi_SubtickMoves = (\<lambda>_. \<lparr>sm_Button = 0, sm_Pressed = False, sm_When = z, sm_PitchDelta = z, sm_YawDelta = z\<rparr>),
     pi_InputHistoryCount = 0, pi_InputHistorySent = 0, pi_InputHistorySamples = (\<lambda>_. default_sample z)\<rparr>"

text \<open>The protobuf of a command, as its accessors answer.\<close>

record 'f HistoryEntry =
  he_target_ent_index :: int
  he_view_angles :: "('f \<times> 'f) option"

record 'f UserCmd =
  uc_client_tick :: int
  uc_cmdNum :: int
  uc_legacy_command_number :: int
  uc_viewangles :: "('f \<times> 'f \<times> 'f) option"
  uc_forwardmove :: 'f
  uc_leftmove :: 'f
  uc_buttons_pb :: "(64 word \<times> 64 word) option"
  uc_mousedx :: int
  uc_mousedy :: int
  uc_attack1_start_history_index :: int
  uc_attack2_start_history_index :: int
  uc_subtick_moves :: "'f SubtickMove list"
  uc_input_history :: "'f HistoryEntry list"

definition sample_of :: "'f \<Rightarrow> 'f HistoryEntry \<Rightarrow> 'f InputHistorySample" where
  "sample_of z entry =
     (let sample = (default_sample z)\<lparr>ih_TargetEntIndex := he_target_ent_index entry\<rparr>
      in case he_view_angles entry of None \<Rightarrow> sample | Some (x, y) \<Rightarrow> sample\<lparr>ih_HasViewAngles := True, ih_ViewPitch := x, ih_ViewYaw := y\<rparr>)"

definition Decode :: "'f \<Rightarrow> bool \<Rightarrow> 'f UserCmd option \<Rightarrow> 'f PlayerInput" where
  "Decode z userCmdNumber userCmd =
     (case userCmd of
        None \<Rightarrow> default_input z
      | Some pb \<Rightarrow>
          let input = default_input z; moves = uc_subtick_moves pb; history = uc_input_history pb
          in input\<lparr>pi_Valid := True, pi_ClientTick := uc_client_tick pb,
               pi_CommandNumber := (if userCmdNumber then uc_cmdNum pb else uc_legacy_command_number pb),
               pi_HasViewAngles := (uc_viewangles pb \<noteq> None), pi_ViewAngles := (case uc_viewangles pb of None \<Rightarrow> pi_ViewAngles input | Some a \<Rightarrow> a),
               pi_ForwardMove := uc_forwardmove pb, pi_LeftMove := uc_leftmove pb,
               pi_ButtonsHeld := (case uc_buttons_pb pb of None \<Rightarrow> 0 | Some (held, changed) \<Rightarrow> held),
               pi_ButtonsChanged := (case uc_buttons_pb pb of None \<Rightarrow> 0 | Some (held, changed) \<Rightarrow> changed),
               pi_MouseDx := uc_mousedx pb, pi_MouseDy := uc_mousedy pb,
               pi_Attack1StartHistoryIndex := uc_attack1_start_history_index pb, pi_Attack2StartHistoryIndex := uc_attack2_start_history_index pb,
               pi_SubtickMoveCount := min (length moves) MaxSubtickMoves,
               pi_SubtickMoves := (\<lambda>i. if i < min (length moves) MaxSubtickMoves then moves ! i else pi_SubtickMoves input i),
               pi_InputHistorySent := length history, pi_InputHistoryCount := min (length history) MaxInputHistory,
               pi_InputHistorySamples := (\<lambda>i. if i < min (length history) MaxInputHistory then sample_of z (history ! i) else pi_InputHistorySamples input i)\<rparr>)"

definition Subticks :: "'f PlayerInput \<Rightarrow> 'f SubtickMove list" where
  "Subticks input = map (pi_SubtickMoves input) [0..<pi_SubtickMoveCount input]"

definition InputHistory :: "'f PlayerInput \<Rightarrow> 'f InputHistorySample list" where
  "InputHistory input = map (pi_InputHistorySamples input) [0..<pi_InputHistoryCount input]"

definition SampleAt :: "int \<Rightarrow> 'f PlayerInput \<Rightarrow> 'f InputHistorySample option" where
  "SampleAt index input = (if index < 0 \<or> int (pi_InputHistoryCount input) \<le> index then None else Some (pi_InputHistorySamples input (nat index)))"

record 'f PlayerCommands =
  pc_input :: "'f PlayerInput"
  pc_slot :: int

text \<open>The controller of the pawn sits at entity index slot + 1; \<open>None\<close> for movement services without a pawn.\<close>

definition OwnerSlot :: "int option \<Rightarrow> int" where
  "OwnerSlot controllerIndex = (case controllerIndex of None \<Rightarrow> -1 | Some index \<Rightarrow> let slot = index - 1 in if IsValidSlot slot then slot else -1)"

definition pc_Before ::
  "'f \<Rightarrow> bool \<Rightarrow> ('f PlayerInput \<Rightarrow> ('g, 'i) callbacks) \<Rightarrow> int option \<Rightarrow> 'f UserCmd option \<Rightarrow> 'f PlayerCommands \<times> ('g, 'i) host \<Rightarrow> 'f PlayerCommands \<times> ('g, 'i) host" where
  "pc_Before z userCmdNumber call controllerIndex userCmd = (\<lambda>(pc, h).
     let slot = (if HasCommandListeners h then OwnerSlot controllerIndex else -1)
     in if slot < 0 then (pc\<lparr>pc_slot := slot\<rparr>, h)
        else let input = Decode z userCmdNumber userCmd in (pc\<lparr>pc_slot := slot, pc_input := input\<rparr>, RaisePlayerCommand slot (call input) h))"

definition pc_After :: "('f PlayerInput \<Rightarrow> ('g, 'i) callbacks) \<Rightarrow> 'f PlayerCommands \<times> ('g, 'i) host \<Rightarrow> 'f PlayerCommands \<times> ('g, 'i) host" where
  "pc_After call = (\<lambda>(pc, h). (pc, if 0 \<le> pc_slot pc then RaisePlayerCommandDone (pc_slot pc) (call (pc_input pc)) h else h))"

section \<open>Reading back what was sent\<close>

fun varint :: "nat \<Rightarrow> string" where
  "varint n = (if n < 0x80 then [char_of n] else char_of (n mod 0x80 + 0x80) # varint (n div 0x80))"

declare varint.simps [simp del]

lemma split_bits: "(n :: nat) = (n mod 128) OR push_bit 7 (n div 128)"
proof (rule bit_eqI)
  have "n mod 128 = take_bit 7 n" "n div 128 = drop_bit 7 n" by (simp_all add: take_bit_eq_mod drop_bit_eq_div)
  then show "bit n i = bit ((n mod 128) OR push_bit 7 (n div 128)) i" for i
    by (cases "i < 7") (auto simp: bit_or_iff bit_take_bit_iff bit_push_bit_iff bit_drop_bit_eq)
qed

lemma split_word: "(of_nat n :: 64 word) = of_nat (n mod 128) OR push_bit 7 (of_nat (n div 128))"
  using arg_cong[OF split_bits[of n], of "of_nat :: nat \<Rightarrow> 64 word"] by (simp only: of_nat_or_eq of_nat_push_bit)

lemma byte_of_varint: "n < 256 \<Longrightarrow> byte_of (char_of n) = n"
  by simp

lemma read_varint_varint:
  assumes "n < 2 ^ (64 - 7 * i)" "i < MaxVarintBytes"
  shows "read_varint i v (varint n @ rest) = Inr (v OR push_bit (7 * i) (of_nat n), rest)"
  using assms
proof (induction n arbitrary: i v rule: varint.induct)
  case (1 n)
  show ?case
  proof (cases "n < 0x80")
    case True
    then show ?thesis using 1 by (subst varint.simps) (simp add: read_varint_Cons)
  next
    case False
    have i: "i < 9"
    proof (rule ccontr)
      assume "\<not> i < 9"
      then have "i = 9" using 1(3) by (simp add: MaxVarintBytes_def)
      then show False using 1(2) False by simp
    qed
    have "(2 :: nat) ^ (64 - 7 * i) = 128 * 2 ^ (64 - 7 * (i + 1))"
    proof -
      have "64 - 7 * i = 7 + (64 - 7 * (i + 1))" using i by simp
      then show ?thesis by (simp only: power_add) simp
    qed
    then have less: "n div 0x80 < 2 ^ (64 - 7 * (i + 1))" using 1(2) by (simp add: less_mult_imp_div_less mult.commute)
    have b: "byte_of (char_of (n mod 0x80 + 0x80) :: char) = n mod 0x80 + 0x80" by simp
    let ?v = "v OR push_bit (7 * i) (of_nat (n mod 0x80))"
    have "read_varint i v (varint n @ rest) = read_varint (i + 1) ?v (varint (n div 0x80) @ rest)"
      using False 1(3) by (subst varint.simps) (simp add: read_varint_Cons Let_def)
    also have "\<dots> = Inr (?v OR push_bit (7 * (i + 1)) (of_nat (n div 0x80)), rest)"
      using i by (intro 1(1)[OF False less]) (simp add: MaxVarintBytes_def)
    also have "?v OR push_bit (7 * (i + 1)) (of_nat (n div 0x80)) = v OR push_bit (7 * i) (of_nat n)"
      by (subst (2) split_word) (simp add: push_bit_or push_bit_push_bit or.assoc algebra_simps)
    finally show ?thesis .
  qed
qed

lemma ReadVarint_varint: "n < 2 ^ 64 \<Longrightarrow> ReadVarint (varint n @ rest) = Inr (of_nat n, rest)"
  using read_varint_varint[of n 0 0 rest] by (simp add: ReadVarint_def MaxVarintBytes_def)

text \<open>A message: its fields with their numbers.\<close>

datatype PbField = PbVarint nat nat | PbFixed64 nat string | PbFixed32 nat string | PbBytes nat string

fun field_ok :: "PbField \<Rightarrow> bool" where
  "field_ok (PbVarint f n) \<longleftrightarrow> f < 2 ^ 29 \<and> n < 2 ^ 64"
| "field_ok (PbFixed64 f s) \<longleftrightarrow> f < 2 ^ 29 \<and> length s = 8"
| "field_ok (PbFixed32 f s) \<longleftrightarrow> f < 2 ^ 29 \<and> length s = 4"
| "field_ok (PbBytes f s) \<longleftrightarrow> f < 2 ^ 29 \<and> length s < 2 ^ 64"

fun encode_field :: "PbField \<Rightarrow> string" where
  "encode_field (PbVarint f n) = varint (8 * f + WireVarint) @ varint n"
| "encode_field (PbFixed64 f s) = varint (8 * f + WireFixed64) @ s"
| "encode_field (PbFixed32 f s) = varint (8 * f + WireFixed32) @ s"
| "encode_field (PbBytes f s) = varint (8 * f + WireLengthDelimited) @ varint (length s) @ s"

fun button_of :: "PbField \<Rightarrow> string option" where
  "button_of (PbBytes f s) = (if f = 2 then Some s else None)"
| "button_of _ = None"

definition last_button :: "PbField list \<Rightarrow> string option" where
  "last_button ps = fold (\<lambda>p button. case button_of p of None \<Rightarrow> button | Some s \<Rightarrow> Some s) ps None"

lemma unat_size: "n < 2 ^ 64 \<Longrightarrow> unat (of_nat n :: 64 word) = n"
  by (simp add: unat_of_nat)

text \<open>The key of a field gives its number and wire type again.\<close>

lemma key_parts:
  assumes "f < 2 ^ 29" "w < 8"
  shows "(ucast (drop_bit 3 (of_nat (8 * f + w) :: 64 word)) :: 32 word) = of_nat f" "unat (ucast ((of_nat (8 * f + w) :: 64 word) AND 7) :: 32 word) = w"
proof -
  define k where "k = (of_nat (8 * f + w) :: 64 word)"
  have u: "unat k = 8 * f + w" unfolding k_def by (rule unat_size) (use assms in simp)
  have "unat (drop_bit 3 k) = f" using assms(2) by (simp add: drop_bit_eq_div unat_div u)
  then have "drop_bit 3 k = of_nat f" by (metis word_nat_cases unat_of_nat word_unat_eq_iff of_nat_unat ucast_id)
  then show "(ucast (drop_bit 3 (of_nat (8 * f + w) :: 64 word)) :: 32 word) = of_nat f" unfolding k_def[symmetric] using assms by (simp add: unsigned_of_nat take_bit_nat_eq_self)
  have "k AND 7 = take_bit 3 k" by (simp add: take_bit_eq_mask mask_eq_exp_minus_1)
  then have "unat (k AND 7) = w" using assms by (simp add: take_bit_eq_mod unat_mod u)
  then show "unat (ucast ((of_nat (8 * f + w) :: 64 word) AND 7) :: 32 word) = w" unfolding k_def[symmetric]
    using assms(2) by (simp add: unsigned_ucast_eq take_bit_word_eq_self take_bit_nat_eq_self)
qed

lemma varint_nonempty [simp]: "varint n \<noteq> []"
  by (subst varint.simps) simp

lemma parse_key:
  assumes "f < 2 ^ 29" "w < 8"
  shows "parse_fields button (varint (8 * f + w) @ rest) =
    (if f = 2 \<and> w = WireLengthDelimited
     then (case ReadVarint rest of
             Inl e \<Rightarrow> Inl e
           | Inr (size_of, rest1) \<Rightarrow>
               if length rest1 < unat size_of then Inl (Error_Invalid ''the button id runs past the end of the payload'')
               else parse_fields (Some (take (unat size_of) rest1)) (drop (unat size_of) rest1))
     else (case SkipField w rest of Inl e \<Rightarrow> Inl e | Inr rest1 \<Rightarrow> parse_fields button rest1))"
proof -
  have "8 * f + w < 2 ^ 64" using assms by simp
  then have r: "ReadVarint (varint (8 * f + w) @ rest) = Inr (of_nat (8 * f + w), rest)" by (rule ReadVarint_varint)
  have two: "(of_nat f :: 32 word) = 2 \<longleftrightarrow> f = 2"
  proof
    assume "(of_nat f :: 32 word) = 2"
    then have "unat (of_nat f :: 32 word) = 2" by simp
    moreover have "unat (of_nat f :: 32 word) = f" using assms(1) by (simp add: unat_of_nat)
    ultimately show "f = 2" by simp
  qed simp
  show ?thesis
    apply (subst parse_fields.simps)
    apply (simp only: r sum.case prod.case Let_def key_parts[OF assms] two append_is_Nil_conv varint_nonempty simp_thms if_False)
    done
qed

lemma parse_field:
  assumes "field_ok p"
  shows "parse_fields button (encode_field p @ rest) = parse_fields (case button_of p of None \<Rightarrow> button | Some s \<Rightarrow> Some s) rest"
proof (cases p)
  case (PbVarint f n)
  then show ?thesis using assms parse_key[of f WireVarint button "varint n @ rest"] ReadVarint_varint[of n rest]
    by (simp add: SkipField_def WireVarint_def WireLengthDelimited_def)
next
  case (PbFixed64 f s)
  then show ?thesis using assms parse_key[of f WireFixed64 button "s @ rest"]
    by (simp add: SkipField_def WireVarint_def WireFixed64_def WireLengthDelimited_def skip_bytes_def)
next
  case (PbFixed32 f s)
  then show ?thesis using assms parse_key[of f WireFixed32 button "s @ rest"]
    by (simp add: SkipField_def WireVarint_def WireFixed64_def WireFixed32_def WireLengthDelimited_def skip_bytes_def)
next
  case (PbBytes f s)
  then show ?thesis using assms parse_key[of f WireLengthDelimited button "varint (length s) @ s @ rest"] ReadVarint_varint[of "length s" "s @ rest"] unat_size[of "length s"]
    by (simp add: SkipField_def WireVarint_def WireFixed64_def WireFixed32_def WireLengthDelimited_def skip_bytes_def)
qed

text \<open>
  A press is read out of any message: whatever other fields it carries, of any wire type and before or after it, the id is the last button field's,
  byte for byte; a message without one is refused.
\<close>

theorem ButtonPress_roundtrip:
  assumes "\<forall>p\<in>set ps. field_ok p"
  shows "ButtonPressMessage_Parse (concat (map encode_field ps)) =
    (case last_button ps of None \<Rightarrow> Inl (Error_Invalid ''the payload carries no button id'') | Some s \<Rightarrow> Inr s)"
proof -
  have "parse_fields button (concat (map encode_field ps)) = Inr (fold (\<lambda>p button. case button_of p of None \<Rightarrow> button | Some s \<Rightarrow> Some s) ps button)" for button
    using assms
  proof (induction ps arbitrary: button)
    case Nil
    then show ?case by (subst parse_fields.simps) simp
  next
    case (Cons p ps)
    then show ?case using parse_field[of p button "concat (map encode_field ps)"] by simp
  qed
  then show ?thesis by (simp add: ButtonPressMessage_Parse_def last_button_def split: option.split)
qed

theorem ButtonPress_roundtrip_witness:
  "ButtonPressMessage_Parse (concat (map encode_field [PbVarint 1 300, PbBytes 2 ''row_3'', PbFixed32 7 ''abcd''])) = Inr ''row_3''"
  using ButtonPress_roundtrip[of "[PbVarint 1 300, PbBytes 2 ''row_3'', PbFixed32 7 ''abcd'']"] by (simp add: last_button_def)

section \<open>Every press once, in order\<close>

text \<open>Handlers that put presses behind the ones that are there, as the hook does; the host is told of each press by its own operation.\<close>

definition appends :: "(int \<Rightarrow> string \<Rightarrow> ButtonPresses \<times> 'h \<Rightarrow> ButtonPresses \<times> 'h) \<Rightarrow> bool" where
  "appends raise_press \<longleftrightarrow> (\<forall>slot button bp h. \<exists>more. bp_queued (fst (raise_press slot button (bp, h))) = bp_queued bp @ more)"

lemma bp_Queue_appends:
  "\<exists>more. bp_queued (bp_Queue nowSec message bp) = bp_queued bp @ more \<and>
     (more = [] \<or> (\<exists>button. more = [\<lparr>pr_Slot = ib_Slot message, pr_ButtonId = button\<rparr>] \<and> IsValidSlot (ib_Slot message) \<and> CHR 0x00 \<notin> set button \<and>
        ButtonPressMessage_Parse (ib_Data message) = Inr button \<and> ib_Type message = CustomHudClickType))"
  by (auto simp: bp_Queue_def FieldsOf_def WarnMalformed_def case_prod_beta Let_def split: option.split sum.split)

text \<open>
  No press is lost, doubled or reordered: what the host was told and what is queued, together, only grow at the end, and a frame tells the host
  exactly what was queued when it began; presses that its handlers cause wait for the next one.
\<close>

theorem presses_once:
  fixes log :: "'h \<Rightarrow> Press list"
  assumes "appends raise_press" and "\<forall>slot button bp h. log (snd (raise_press slot button (bp, h))) = log h @ [\<lparr>pr_Slot = slot, pr_ButtonId = button\<rparr>]"
  shows "log (snd (bp_OnFrame raise_press (bp, h))) = log h @ bp_queued bp \<and>
    (\<exists>more. log (snd (bp_OnFrame raise_press (bp, h))) @ bp_queued (fst (bp_OnFrame raise_press (bp, h))) = (log h @ bp_queued bp) @ more)"
proof -
  have "log (snd (fold (\<lambda>p. raise_press (pr_Slot p) (pr_ButtonId p)) ps (b, h))) = log h @ ps" for ps b
  proof (induction ps arbitrary: b h)
    case (Cons p ps)
    obtain b1 h1 where r: "raise_press (pr_Slot p) (pr_ButtonId p) (b, h) = (b1, h1)" by fastforce
    moreover have "log h1 = log h @ [p]" using assms(2)[rule_format, of "pr_Slot p" "pr_ButtonId p" b h] r by simp
    ultimately show ?case using Cons[of b1 h1] by simp
  qed simp
  then show ?thesis by (simp add: bp_OnFrame_def)
qed

section \<open>Decoding stays inside its arrays\<close>

text \<open>Each decoded entry is the client's own, in order, up to the caps; an index the client names is answered exactly when its entry was kept.\<close>

theorem Decode_bounded:
  fixes pb :: "'f UserCmd"
  shows "length (Subticks (Decode z n (Some pb))) \<le> MaxSubtickMoves \<and> Subticks (Decode z n (Some pb)) = take MaxSubtickMoves (uc_subtick_moves pb) \<and>
    InputHistory (Decode z n (Some pb)) = map (sample_of z) (take MaxInputHistory (uc_input_history pb)) \<and>
    SampleAt index (Decode z n (Some pb)) =
      (if 0 \<le> index \<and> nat index < min (length (uc_input_history pb)) MaxInputHistory then Some (sample_of z (uc_input_history pb ! nat index)) else None)"
proof -
  let ?input = "Decode z n (Some pb)"
  have counts: "pi_SubtickMoveCount ?input = min (length (uc_subtick_moves pb)) MaxSubtickMoves" "pi_InputHistoryCount ?input = min (length (uc_input_history pb)) MaxInputHistory"
    by (simp_all add: Decode_def Let_def)
  have moves: "pi_SubtickMoves ?input i = uc_subtick_moves pb ! i" if "i < min (length (uc_subtick_moves pb)) MaxSubtickMoves" for i
    using that by (simp add: Decode_def Let_def)
  have samples: "pi_InputHistorySamples ?input i = sample_of z (uc_input_history pb ! i)" if "i < min (length (uc_input_history pb)) MaxInputHistory" for i
    using that by (simp add: Decode_def Let_def)
  have "Subticks ?input = take MaxSubtickMoves (uc_subtick_moves pb)" by (rule nth_equalityI) (auto simp: Subticks_def counts moves)
  moreover have "InputHistory ?input = map (sample_of z) (take MaxInputHistory (uc_input_history pb))" by (rule nth_equalityI) (auto simp: InputHistory_def counts samples)
  moreover have "SampleAt index ?input =
      (if 0 \<le> index \<and> nat index < min (length (uc_input_history pb)) MaxInputHistory then Some (sample_of z (uc_input_history pb ! nat index)) else None)"
    unfolding SampleAt_def counts using samples[of "nat index"] by auto
  ultimately show ?thesis by simp
qed

end
