(* ===== verification/MenuFlow.thy ===== *)
theory MenuFlow
  imports MenuModel Players
begin

text \<open>
  Ready-made menus and the wizard that runs a sequence of them. Sources: \<^verbatim>\<open>include/VoltMod/Menu/{Flow,MenuPresets}.hpp\<close>,
  \<^verbatim>\<open>src/Menu/{MenuPresets,PlayerRows}.cpp\<close>. A row is kept as what it does, an action of type \<open>'a\<close>; an empty callback is \<open>None\<close>. The flow talks to a
  \<^verbatim>\<open>MenuSurface\<close>, an interface: here the menus it has open for the player, the last one on top, and a record of what it was asked.
\<close>

section \<open>Presets\<close>

datatype 'a flow_row = PickRow string bool "'a option" | OpenRow string bool 'a
  | TypeRow string string int "string \<Rightarrow> 'a option option" | LineRow string | CancelRow string "'a option"

record 'a flow_menu =
  fm_Title :: string
  fm_Rows :: "'a flow_row list"

record 'a DurationMenu =
  dm_Title :: string
  dm_Presets :: "(string \<times> int) list"
  dm_Pick :: "(int \<Rightarrow> 'a) option"
  dm_CustomLabel :: string
  dm_CustomPrompt :: string
  dm_MaxInputLength :: int

definition BuildDurationMenu :: "'a DurationMenu \<Rightarrow> 'a flow_menu" where
  "BuildDurationMenu spec =
     \<lparr>fm_Title = dm_Title spec,
      fm_Rows = map (\<lambda>(label, seconds). PickRow label True (map_option (\<lambda>pick. pick seconds) (dm_Pick spec))) (dm_Presets spec) @
        (if dm_CustomLabel spec \<noteq> []
         then [TypeRow (dm_CustomLabel spec) (dm_CustomPrompt spec) (dm_MaxInputLength spec)
                 (\<lambda>typed. let seconds = ParseDuration typed in if seconds < 0 then None else Some (map_option (\<lambda>pick. pick seconds) (dm_Pick spec)))]
         else [])\<rparr>"

type_synonym SummaryRows = "(string \<times> string) list"

definition sr_Add :: "string \<Rightarrow> string \<Rightarrow> SummaryRows \<Rightarrow> SummaryRows" where
  "sr_Add label v rows = rows @ [(label, v)]"

definition sr_AddIf :: "bool \<Rightarrow> string \<Rightarrow> string \<Rightarrow> SummaryRows \<Rightarrow> SummaryRows" where
  "sr_AddIf condition label v rows = (if condition then sr_Add label v rows else rows)"

definition sr_Take :: "SummaryRows \<Rightarrow> string list" where
  "sr_Take rows = map (\<lambda>(label, v). if v = [] then label else label @ '': '' @ v) rows"

record 'a ConfirmMenu =
  cf_Title :: string
  cf_Lines :: "string list"
  cf_ConfirmLabel :: string
  cf_CancelLabel :: string
  cf_Confirm :: "'a option"
  cf_Cancel :: "'a option"

definition BuildConfirmMenu :: "'a ConfirmMenu \<Rightarrow> 'a flow_menu" where
  "BuildConfirmMenu spec =
     \<lparr>fm_Title = cf_Title spec,
      fm_Rows = map LineRow (cf_Lines spec) @
        [PickRow (if cf_ConfirmLabel spec = [] then ''Confirm'' else cf_ConfirmLabel spec) True (cf_Confirm spec),
         CancelRow (if cf_CancelLabel spec = [] then ''Cancel'' else cf_CancelLabel spec) (cf_Cancel spec)]\<rparr>"

record 'a PlayerPicker =
  pp_Title :: string
  pp_Pick :: "(PlayerRef \<Rightarrow> 'a) option"
  pp_Open :: "(PlayerRef \<Rightarrow> 'a) option"
  pp_EmptyLabel :: string
  pp_Enabled :: "(PlayerRef \<Rightarrow> bool) option"

text \<open>One row per connected player; the name of a player is the engine's.\<close>

definition AppendPlayerRows :: "(Player \<Rightarrow> string) \<Rightarrow> Player list \<Rightarrow> 'a PlayerPicker \<Rightarrow> 'a flow_row list \<Rightarrow> 'a flow_row list" where
  "AppendPlayerRows name connected spec rows =
     rows @ map (\<lambda>player.
         let target = Ref player; enabled = (case pp_Enabled spec of None \<Rightarrow> True | Some check \<Rightarrow> check target)
         in case pp_Open spec of
              Some build \<Rightarrow> OpenRow (name player) enabled (build target)
            | None \<Rightarrow> PickRow (name player) enabled (map_option (\<lambda>pick. pick target) (pp_Pick spec))) connected @
       (if connected = [] \<and> pp_EmptyLabel spec \<noteq> [] then [LineRow (pp_EmptyLabel spec)] else [])"

definition BuildPlayerPicker :: "(Player \<Rightarrow> string) \<Rightarrow> Player list \<Rightarrow> 'a PlayerPicker \<Rightarrow> 'a flow_menu" where
  "BuildPlayerPicker name connected spec = \<lparr>fm_Title = pp_Title spec, fm_Rows = AppendPlayerRows name connected spec []\<rparr>"

section \<open>The flow\<close>

text \<open>What a row of a flow's menu does: write a value into the state and advance, or finish.\<close>

datatype 's flow_action = SetAndAdvance "'s \<Rightarrow> 's" | FinishFlow

type_synonym 's step_menu = "'s flow_action flow_menu"

record 's Step =
  sp_Build :: "'s \<Rightarrow> 's step_menu option"
  sp_Applies :: "('s \<Rightarrow> bool) option"

record 's DurationStep =
  ds_Title :: string
  ds_Presets :: "(string \<times> int) list"
  ds_Set :: "('s \<Rightarrow> int \<Rightarrow> 's) option"
  ds_CustomLabel :: string
  ds_CustomPrompt :: string
  ds_Applies :: "('s \<Rightarrow> bool) option"

record 's OptionsStep =
  os_Title :: string
  os_Options :: "(string \<times> string) list"
  os_Set :: "('s \<Rightarrow> string \<Rightarrow> string \<Rightarrow> 's) option"
  os_CustomLabel :: string
  os_CustomPrompt :: string
  os_CustomValue :: string
  os_Applies :: "('s \<Rightarrow> bool) option"

record 's ConfirmSpec =
  cs_Title :: string
  cs_Summary :: "('s \<Rightarrow> SummaryRows) option"
  cs_ConfirmLabel :: string
  cs_CancelLabel :: string

datatype 's flow_event = Opened "'s step_menu" | ClosedWith string | ClosedAll | Finished 's

record 's Flow =
  fl_state :: 's
  fl_steps :: "'s Step list"
  fl_stepIndex :: nat
  fl_validate :: "('s \<Rightarrow> string option) option"
  fl_confirm :: "'s ConfirmSpec"
  fl_finish :: "('s \<Rightarrow> 's) option"
  fl_open :: "'s step_menu list"
  fl_log :: "'s flow_event list"

definition flow_Create :: "'s \<Rightarrow> 's Flow" where
  "flow_Create initial = \<lparr>fl_state = initial, fl_steps = [], fl_stepIndex = 0, fl_validate = None,
     fl_confirm = \<lparr>cs_Title = [], cs_Summary = None, cs_ConfirmLabel = [], cs_CancelLabel = []\<rparr>, fl_finish = None, fl_open = [], fl_log = []\<rparr>"

definition AddStep :: "('s \<Rightarrow> 's step_menu option) \<Rightarrow> ('s \<Rightarrow> bool) option \<Rightarrow> 's Flow \<Rightarrow> 's Flow" where
  "AddStep build applies f = f\<lparr>fl_steps := fl_steps f @ [\<lparr>sp_Build = build, sp_Applies = applies\<rparr>]\<rparr>"

definition AddDurationStep :: "'s DurationStep \<Rightarrow> 's Flow \<Rightarrow> 's Flow" where
  "AddDurationStep step f =
     AddStep (\<lambda>_. Some (BuildDurationMenu \<lparr>dm_Title = ds_Title step, dm_Presets = ds_Presets step,
         dm_Pick = Some (\<lambda>seconds. SetAndAdvance (\<lambda>s. case ds_Set step of None \<Rightarrow> s | Some setter \<Rightarrow> setter s seconds)),
         dm_CustomLabel = ds_CustomLabel step, dm_CustomPrompt = ds_CustomPrompt step, dm_MaxInputLength = 32\<rparr>)) (ds_Applies step) f"

definition BuildOptionsMenu :: "'s OptionsStep \<Rightarrow> 's step_menu" where
  "BuildOptionsMenu step =
     (let setter = (\<lambda>label v s. case os_Set step of None \<Rightarrow> s | Some g \<Rightarrow> g s label v)
      in \<lparr>fm_Title = os_Title step,
          fm_Rows = map (\<lambda>(label, v). PickRow label True (Some (SetAndAdvance (setter label v)))) (os_Options step) @
            (if os_CustomLabel step \<noteq> []
             then [TypeRow (os_CustomLabel step) (os_CustomPrompt step) 64
                     (\<lambda>text_of. let typed = Trim text_of
                            in if typed = [] then None
                               else Some (Some (SetAndAdvance (setter typed (if os_CustomValue step = [] then typed else os_CustomValue step)))))]
             else [])\<rparr>)"

definition AddOptionsStep :: "'s OptionsStep \<Rightarrow> 's Flow \<Rightarrow> 's Flow" where
  "AddOptionsStep step f = AddStep (\<lambda>_. Some (BuildOptionsMenu step)) (os_Applies step) f"

definition flow_Validate :: "('s \<Rightarrow> string option) \<Rightarrow> 's Flow \<Rightarrow> 's Flow" where
  "flow_Validate check f = f\<lparr>fl_validate := Some check\<rparr>"

definition flow_Confirm :: "'s ConfirmSpec \<Rightarrow> 's Flow \<Rightarrow> 's Flow" where
  "flow_Confirm spec f = f\<lparr>fl_confirm := spec\<rparr>"

definition flow_Finish :: "('s \<Rightarrow> 's) \<Rightarrow> 's Flow \<Rightarrow> 's Flow" where
  "flow_Finish finish f = f\<lparr>fl_finish := Some finish\<rparr>"

text \<open>What the flow asks of the surface.\<close>

definition open_menu :: "'s step_menu \<Rightarrow> 's Flow \<Rightarrow> 's Flow" where
  "open_menu menu f = f\<lparr>fl_open := fl_open f @ [menu], fl_log := fl_log f @ [Opened menu]\<rparr>"

definition close_all :: "'s flow_event \<Rightarrow> 's Flow \<Rightarrow> 's Flow" where
  "close_all event f = f\<lparr>fl_open := [], fl_log := fl_log f @ [event]\<rparr>"

definition RunValidation :: "'s Flow \<Rightarrow> bool \<times> 's Flow" where
  "RunValidation f =
     (case fl_validate f of
        None \<Rightarrow> (True, f)
      | Some check \<Rightarrow> (case check (fl_state f) of None \<Rightarrow> (True, f) | Some key \<Rightarrow> (False, close_all (ClosedWith key) f)))"

definition RunFinish :: "'s Flow \<Rightarrow> 's Flow" where
  "RunFinish f =
     (case RunValidation f of
        (False, f1) \<Rightarrow> f1
      | (True, f1) \<Rightarrow> close_all ClosedAll (case fl_finish f1 of None \<Rightarrow> f1 | Some finish \<Rightarrow> f1\<lparr>fl_state := finish (fl_state f1), fl_log := fl_log f1 @ [Finished (fl_state f1)]\<rparr>))"

definition BuildSummary :: "(string \<Rightarrow> string \<Rightarrow> string) \<Rightarrow> ('s \<Rightarrow> SummaryRows) \<Rightarrow> 's Flow \<Rightarrow> 's step_menu" where
  "BuildSummary translate summary f =
     (let c = fl_confirm f
      in BuildConfirmMenu \<lparr>cf_Title = cs_Title c, cf_Lines = sr_Take (summary (fl_state f)),
           cf_ConfirmLabel = (if cs_ConfirmLabel c = [] then translate ''menu.confirm'' ''Confirm'' else cs_ConfirmLabel c),
           cf_CancelLabel = (if cs_CancelLabel c = [] then translate ''menu.cancel'' ''Cancel'' else cs_CancelLabel c),
           cf_Confirm = Some FinishFlow, cf_Cancel = None\<rparr>)"

text \<open>The loop over the steps from an index on: the first that applies.\<close>

function next_step :: "'s Flow \<Rightarrow> nat \<Rightarrow> nat option" where
  "next_step f i =
     (if length (fl_steps f) \<le> i then None
      else if (case sp_Applies (fl_steps f ! i) of None \<Rightarrow> False | Some applies \<Rightarrow> \<not> applies (fl_state f)) then next_step f (i + 1)
      else Some i)"
  by pat_completeness auto

termination by (relation "measure (\<lambda>(f, i). length (fl_steps f) - i)") auto

declare next_step.simps [simp del]

definition OpenFrom :: "(string \<Rightarrow> string \<Rightarrow> string) \<Rightarrow> nat \<Rightarrow> 's Flow \<Rightarrow> 's Flow" where
  "OpenFrom translate from f =
     (case RunValidation f of
        (False, f1) \<Rightarrow> f1
      | (True, f1) \<Rightarrow>
          (case next_step f1 from of
             Some i \<Rightarrow>
               let f2 = f1\<lparr>fl_stepIndex := i\<rparr>
               in (case sp_Build (fl_steps f2 ! i) (fl_state f2) of
                     None \<Rightarrow> close_all (ClosedWith ''menu.stepFailed'') f2
                   | Some menu \<Rightarrow> open_menu menu f2)
           | None \<Rightarrow>
               (case cs_Summary (fl_confirm f1) of
                  Some summary \<Rightarrow> open_menu (BuildSummary translate summary f1) f1
                | None \<Rightarrow> RunFinish f1)))"

definition flow_Begin :: "(string \<Rightarrow> string \<Rightarrow> string) \<Rightarrow> 's Flow \<Rightarrow> 's Flow" where
  "flow_Begin translate f = OpenFrom translate 0 f"

definition Advance :: "(string \<Rightarrow> string \<Rightarrow> string) \<Rightarrow> 's Flow \<Rightarrow> 's Flow" where
  "Advance translate f = OpenFrom translate (fl_stepIndex f + 1) f"

text \<open>What the player does: choose a row of the menu on top, type for one, or go back.\<close>

fun run_action :: "(string \<Rightarrow> string \<Rightarrow> string) \<Rightarrow> 's flow_action option \<Rightarrow> 's Flow \<Rightarrow> 's Flow" where
  "run_action translate None f = f"
| "run_action translate (Some (SetAndAdvance setter)) f = Advance translate (f\<lparr>fl_state := setter (fl_state f)\<rparr>)"
| "run_action translate (Some FinishFlow) f = RunFinish f"

definition row_chosen :: "string \<Rightarrow> 's flow_action flow_row \<Rightarrow> 's flow_action option option" where
  "row_chosen typed row =
     (case row of
        PickRow label enabled action \<Rightarrow> if enabled then Some action else None
      | TypeRow label prompt maxLength read \<Rightarrow> if 0 < maxLength \<and> maxLength < int (length typed) then None else read typed
      | _ \<Rightarrow> None)"

definition flow_Choose :: "(string \<Rightarrow> string \<Rightarrow> string) \<Rightarrow> nat \<Rightarrow> string \<Rightarrow> 's Flow \<Rightarrow> 's Flow" where
  "flow_Choose translate row typed f =
     (if fl_open f = [] \<or> length (fm_Rows (last (fl_open f))) \<le> row then f
      else case fm_Rows (last (fl_open f)) ! row of
        CancelRow label None \<Rightarrow> close_all ClosedAll f
      | CancelRow label (Some action) \<Rightarrow> run_action translate (Some action) f
      | r \<Rightarrow> (case row_chosen typed r of None \<Rightarrow> f | Some action \<Rightarrow> run_action translate action f))"

definition flow_Back :: "'s Flow \<Rightarrow> 's Flow" where
  "flow_Back f = f\<lparr>fl_open := butlast (fl_open f)\<rparr>"

section \<open>Answered in order\<close>

text \<open>The reference: every step that applies when it is reached takes the next answer.\<close>

definition step_applies :: "'s Step \<Rightarrow> 's \<Rightarrow> bool" where
  "step_applies st s \<longleftrightarrow> (case sp_Applies st of None \<Rightarrow> True | Some applies \<Rightarrow> applies s)"

fun replay :: "'s Step list \<Rightarrow> 's \<Rightarrow> ('s \<Rightarrow> 's) list \<Rightarrow> 's option" where
  "replay [] s answers = (if answers = [] then Some s else None)"
| "replay (st # steps) s answers =
     (if \<not> step_applies st s then replay steps s answers
      else case answers of [] \<Rightarrow> None | g # gs \<Rightarrow> replay steps (g s) gs)"

definition finished :: "'s Flow \<Rightarrow> 's list" where
  "finished f = concat (map (\<lambda>e. case e of Finished s \<Rightarrow> [s] | _ \<Rightarrow> []) (fl_log f))"

definition is_valid :: "'s Flow \<Rightarrow> 's \<Rightarrow> bool" where
  "is_valid f s \<longleftrightarrow> (case fl_validate f of None \<Rightarrow> True | Some check \<Rightarrow> check s = None)"

text \<open>The value a choice writes into the state, if it is an answer.\<close>

definition choice_of :: "nat \<Rightarrow> string \<Rightarrow> 's Flow \<Rightarrow> 's flow_action option option" where
  "choice_of row typed f =
     (if fl_open f = [] \<or> length (fm_Rows (last (fl_open f))) \<le> row then None
      else case fm_Rows (last (fl_open f)) ! row of
        CancelRow label action \<Rightarrow> map_option Some action
      | r \<Rightarrow> row_chosen typed r)"

definition answer_of :: "nat \<Rightarrow> string \<Rightarrow> 's Flow \<Rightarrow> ('s \<Rightarrow> 's) list" where
  "answer_of row typed f = (case choice_of row typed f of Some (Some (SetAndAdvance g)) \<Rightarrow> [g] | _ \<Rightarrow> [])"

inductive forward_run :: "(string \<Rightarrow> string \<Rightarrow> string) \<Rightarrow> 's Flow \<Rightarrow> ('s \<Rightarrow> 's) list \<Rightarrow> 's Flow \<Rightarrow> bool" for translate f0 where
  Begun: "forward_run translate f0 [] (flow_Begin translate f0)"
| Chosen: "forward_run translate f0 answers f \<Longrightarrow> forward_run translate f0 (answers @ answer_of row typed f) (flow_Choose translate row typed f)"

text \<open>A menu of a step finishes nothing: only the flow's own summary does.\<close>

definition no_finish :: "'s step_menu \<Rightarrow> bool" where
  "no_finish menu \<longleftrightarrow> (\<forall>r\<in>set (fm_Rows menu). \<forall>typed. row_chosen typed r \<noteq> Some (Some FinishFlow) \<and> (\<forall>label. r \<noteq> CancelRow label (Some FinishFlow)))"

definition fresh_flow :: "'s Flow \<Rightarrow> bool" where
  "fresh_flow f \<longleftrightarrow> fl_open f = [] \<and> fl_log f = [] \<and> (\<forall>st\<in>set (fl_steps f). \<forall>s menu. sp_Build st s = Some menu \<longrightarrow> no_finish menu)"

definition same_plan :: "'s Flow \<Rightarrow> 's Flow \<Rightarrow> bool" where
  "same_plan f0 f \<longleftrightarrow> fl_steps f = fl_steps f0 \<and> fl_validate f = fl_validate f0 \<and> fl_confirm f = fl_confirm f0 \<and> fl_finish f = fl_finish f0"

definition is_summary :: "'s step_menu \<Rightarrow> bool" where
  "is_summary menu \<longleftrightarrow> (\<forall>r\<in>set (fm_Rows menu). \<forall>typed action. (row_chosen typed r = Some action \<longrightarrow> action = Some FinishFlow) \<and> (\<forall>label a. r = CancelRow label a \<longrightarrow> a = None))"

datatype phase = Closed | Asking | Confirming

definition in_phase :: "(string \<Rightarrow> string \<Rightarrow> string) \<Rightarrow> 's Flow \<Rightarrow> ('s \<Rightarrow> 's) list \<Rightarrow> phase \<Rightarrow> 's Flow \<Rightarrow> bool" where
  "in_phase translate f0 answers p f \<longleftrightarrow> same_plan f0 f \<and>
     (case p of
        Closed \<Rightarrow> fl_open f = [] \<and> (finished f = [] \<or> (\<exists>s. finished f = [s] \<and> replay (fl_steps f0) (fl_state f0) answers = Some s \<and> is_valid f0 s))
      | Asking \<Rightarrow> finished f = [] \<and> fl_stepIndex f < length (fl_steps f0) \<and> fl_open f \<noteq> [] \<and>
          replay (take (fl_stepIndex f) (fl_steps f0)) (fl_state f0) answers = Some (fl_state f) \<and> step_applies (fl_steps f0 ! fl_stepIndex f) (fl_state f) \<and>
          sp_Build (fl_steps f0 ! fl_stepIndex f) (fl_state f) = Some (last (fl_open f))
      | Confirming \<Rightarrow> finished f = [] \<and> replay (fl_steps f0) (fl_state f0) answers = Some (fl_state f) \<and> fl_open f \<noteq> [] \<and>
          is_summary (last (fl_open f)))"

lemma replay_append: "replay xs s as = Some s' \<Longrightarrow> replay (xs @ ys) s (as @ bs) = replay ys s' bs"
proof (induction xs arbitrary: s as)
  case (Cons st xs)
  then show ?case using Cons.IH[of s as] Cons.IH[of "hd as s" "tl as"] by (cases as) (auto split: if_split_asm)
qed (auto split: if_split_asm)

lemma replay_skipped: "\<forall>st\<in>set steps. \<not> step_applies st s \<Longrightarrow> replay steps s [] = Some s"
  by (induction steps) auto

lemma next_step_spec:
  "(case next_step f i of
      Some j \<Rightarrow> i \<le> j \<and> j < length (fl_steps f) \<and> (\<forall>k. i \<le> k \<and> k < j \<longrightarrow> \<not> step_applies (fl_steps f ! k) (fl_state f)) \<and> step_applies (fl_steps f ! j) (fl_state f)
    | None \<Rightarrow> \<forall>k. i \<le> k \<and> k < length (fl_steps f) \<longrightarrow> \<not> step_applies (fl_steps f ! k) (fl_state f))"
proof (induction f i rule: next_step.induct)
  case (1 f i)
  show ?case
  proof (cases "length (fl_steps f) \<le> i \<or> step_applies (fl_steps f ! i) (fl_state f)")
    case True
    then show ?thesis by (subst next_step.simps) (auto simp: step_applies_def split: option.splits)
  next
    case False
    have step: "next_step f i = next_step f (i + 1)" using False by (subst next_step.simps) (auto simp: step_applies_def split: option.splits)
    have IH: "case next_step f (i + 1) of
        Some j \<Rightarrow> i + 1 \<le> j \<and> j < length (fl_steps f) \<and> (\<forall>k. i + 1 \<le> k \<and> k < j \<longrightarrow> \<not> step_applies (fl_steps f ! k) (fl_state f)) \<and> step_applies (fl_steps f ! j) (fl_state f)
      | None \<Rightarrow> \<forall>k. i + 1 \<le> k \<and> k < length (fl_steps f) \<longrightarrow> \<not> step_applies (fl_steps f ! k) (fl_state f)"
      using 1 False by (auto simp: step_applies_def split: option.split_asm)
    have k: "k = i \<or> i + 1 \<le> k" if "i \<le> k" for k using that by auto
    then show ?thesis unfolding step using IH False by (auto split: option.split_asm option.split)
  qed
qed

lemma finished_simps [simp]:
  "finished (open_menu menu f) = finished f" "finished (close_all (ClosedWith key) f) = finished f" "finished (close_all ClosedAll f) = finished f"
  "finished (f\<lparr>fl_stepIndex := i\<rparr>) = finished f" "finished (f\<lparr>fl_state := x\<rparr>) = finished f"
  "finished (f\<lparr>fl_state := x, fl_log := fl_log f @ [Finished y]\<rparr>) = finished f @ [y]"
  by (simp_all add: finished_def open_menu_def close_all_def)

lemma plan_simps [simp]:
  "same_plan f0 (open_menu menu f) = same_plan f0 f" "same_plan f0 (close_all e f) = same_plan f0 f" "same_plan f0 (f\<lparr>fl_stepIndex := i\<rparr>) = same_plan f0 f"
  "same_plan f0 (f\<lparr>fl_state := x\<rparr>) = same_plan f0 f" "same_plan f0 (f\<lparr>fl_state := x, fl_log := l\<rparr>) = same_plan f0 f"
  by (simp_all add: same_plan_def open_menu_def close_all_def)

lemma Validation_cases:
  "RunValidation f = (if is_valid f (fl_state f) then (True, f) else (False, close_all (ClosedWith (the (the (fl_validate f) (fl_state f)))) f))"
  by (auto simp: RunValidation_def is_valid_def split: option.split)

lemma Finish_phase:
  assumes "same_plan f0 f" "finished f = []" "replay (fl_steps f0) (fl_state f0) answers = Some (fl_state f)"
  shows "in_phase translate f0 answers Closed (RunFinish f)"
  using assms by (auto simp: RunFinish_def Validation_cases in_phase_def close_all_def same_plan_def is_valid_def finished_def split: option.split)

lemma BuildSummary_summary: "is_summary (BuildSummary translate summary f)"
  by (auto simp: is_summary_def BuildSummary_def BuildConfirmMenu_def row_chosen_def Let_def)

lemma OpenFrom_phase:
  assumes "same_plan f0 f" "finished f = []" "replay (take i (fl_steps f0)) (fl_state f0) answers = Some (fl_state f)"
  shows "\<exists>p. in_phase translate f0 answers p (OpenFrom translate i f)"
proof (cases "is_valid f (fl_state f)")
  case False
  then show ?thesis using assms by (intro exI[of _ Closed]) (simp add: OpenFrom_def Validation_cases in_phase_def, simp add: close_all_def)
next
  case valid: True
  have steps: "fl_steps f = fl_steps f0" using assms(1) by (simp add: same_plan_def)
  have skip: "replay (take j (fl_steps f0)) (fl_state f0) answers = Some (fl_state f)"
    if "i \<le> j" "\<forall>k. i \<le> k \<and> k < j \<and> k < length (fl_steps f) \<longrightarrow> \<not> step_applies (fl_steps f ! k) (fl_state f)" for j
  proof -
    have "\<forall>st\<in>set (drop i (take j (fl_steps f0))). \<not> step_applies st (fl_state f)" using that steps by (auto simp: in_set_conv_nth less_diff_conv add.commute)
    then have "replay (take i (fl_steps f0) @ drop i (take j (fl_steps f0))) (fl_state f0) (answers @ []) = Some (fl_state f)"
      unfolding replay_append[OF assms(3)] by (rule replay_skipped)
    moreover have "take i (fl_steps f0) @ drop i (take j (fl_steps f0)) = take j (fl_steps f0)" using that(1) by (metis append_take_drop_id min.absorb1 take_take)
    ultimately show ?thesis by simp
  qed
  show ?thesis
  proof (cases "next_step f i")
    case (Some j)
    have j: "i \<le> j" "j < length (fl_steps f)" "\<forall>k. i \<le> k \<and> k < j \<longrightarrow> \<not> step_applies (fl_steps f ! k) (fl_state f)" "step_applies (fl_steps f ! j) (fl_state f)"
      using next_step_spec[where f = f and i = i] Some by auto
    have r: "replay (take j (fl_steps f0)) (fl_state f0) answers = Some (fl_state f)" using skip j by simp
    show ?thesis
    proof (cases "sp_Build (fl_steps f ! j) (fl_state f)")
      case None
      then show ?thesis using assms valid Some by (intro exI[of _ Closed]) (simp add: OpenFrom_def Validation_cases in_phase_def, simp add: close_all_def)
    next
      case (Some menu)
      then show ?thesis using assms valid \<open>next_step f i = Some j\<close> j r steps
        by (intro exI[of _ Asking]) (simp add: OpenFrom_def Validation_cases in_phase_def, simp add: open_menu_def)
    qed
  next
    case None
    have "replay (take (max i (length (fl_steps f0))) (fl_steps f0)) (fl_state f0) answers = Some (fl_state f)"
      using next_step_spec[where f = f and i = i] None steps by (intro skip) auto
    then have r: "replay (fl_steps f0) (fl_state f0) answers = Some (fl_state f)" by simp
    show ?thesis
    proof (cases "cs_Summary (fl_confirm f)")
      case n: None
      then show ?thesis using Finish_phase[OF assms(1,2) r] valid None by (intro exI[of _ Closed]) (simp add: OpenFrom_def Validation_cases)
    next
      case (Some summary)
      then show ?thesis using assms valid None r
        by (intro exI[of _ Confirming]) (simp add: OpenFrom_def Validation_cases in_phase_def, simp add: open_menu_def BuildSummary_summary)
    qed
  qed
qed

lemma choose_alt: "flow_Choose translate row typed f = (case choice_of row typed f of Some action \<Rightarrow> run_action translate action f
    | None \<Rightarrow> if \<not> (fl_open f = [] \<or> length (fm_Rows (last (fl_open f))) \<le> row) \<and> (\<exists>label. fm_Rows (last (fl_open f)) ! row = CancelRow label None) then close_all ClosedAll f else f)"
  by (auto simp: flow_Choose_def choice_of_def row_chosen_def split: flow_row.split option.split)

lemma close_phase: "in_phase translate f0 answers p f \<Longrightarrow> in_phase translate f0 answers Closed (close_all ClosedAll f)"
  by (cases p) (auto simp: in_phase_def, auto simp: close_all_def)

lemma choose_phase:
  assumes "in_phase translate f0 answers p f" "fresh_flow f0"
  shows "\<exists>q. in_phase translate f0 (answers @ answer_of row typed f) q (flow_Choose translate row typed f)"
proof (cases "choice_of row typed f")
  case None
  then show ?thesis using assms(1) close_phase[OF assms(1)] by (auto simp: choose_alt answer_of_def)
next
  case (Some action)
  then have shown: "fl_open f \<noteq> []" "row < length (fm_Rows (last (fl_open f)))" by (auto simp: choice_of_def split: if_split_asm)
  define r where "r = fm_Rows (last (fl_open f)) ! row"
  have r: "r \<in> set (fm_Rows (last (fl_open f)))" using shown by (simp add: r_def)
  have c: "(case r of CancelRow label action \<Rightarrow> map_option Some action | r \<Rightarrow> row_chosen typed r) = Some action"
    using Some shown by (simp add: choice_of_def r_def)
  show ?thesis
  proof (cases p)
    case Closed
    then show ?thesis using assms(1) shown by (simp add: in_phase_def)
  next
    case Asking
    let ?i = "fl_stepIndex f"
    have a: "same_plan f0 f" "finished f = []" "?i < length (fl_steps f0)" "replay (take ?i (fl_steps f0)) (fl_state f0) answers = Some (fl_state f)"
      "step_applies (fl_steps f0 ! ?i) (fl_state f)" "sp_Build (fl_steps f0 ! ?i) (fl_state f) = Some (last (fl_open f))"
      using assms(1) Asking by (simp_all add: in_phase_def)
    have nf: "no_finish (last (fl_open f))" using assms(2) a(3,6) nth_mem[OF a(3)] unfolding fresh_flow_def by blast
    have "action \<noteq> Some FinishFlow" using bspec[OF nf[unfolded no_finish_def] r, rule_format, of typed] c by (cases r) auto
    then consider "action = None" | g where "action = Some (SetAndAdvance g)" by (cases action; cases "the action") auto
    then show ?thesis
    proof cases
      case 1
      then show ?thesis using assms(1) Some by (auto simp: choose_alt answer_of_def)
    next
      case (2 g)
      have "take (?i + 1) (fl_steps f0) = take ?i (fl_steps f0) @ [fl_steps f0 ! ?i]" using a(3) by (simp add: take_Suc_conv_app_nth)
      then have "replay (take (?i + 1) (fl_steps f0)) (fl_state f0) (answers @ [g]) = Some (g (fl_state f))"
        using replay_append[OF a(4), of "[fl_steps f0 ! ?i]" "[g]"] a(5) by simp
      then show ?thesis using OpenFrom_phase[of f0 "f\<lparr>fl_state := g (fl_state f)\<rparr>" "?i + 1" "answers @ [g]" translate] a 2 Some
        by (simp add: choose_alt answer_of_def Advance_def)
    qed
  next
    case Confirming
    then have sum: "is_summary (last (fl_open f))" and a: "same_plan f0 f" "finished f = []" "replay (fl_steps f0) (fl_state f0) answers = Some (fl_state f)"
      using assms(1) by (auto simp: in_phase_def)
    have "action = Some FinishFlow" using c r sum unfolding is_summary_def by (cases r) auto
    then show ?thesis using Finish_phase[OF a] Some by (auto simp: choose_alt answer_of_def)
  qed
qed

lemma forward_phase: "forward_run translate f0 answers f \<Longrightarrow> fresh_flow f0 \<Longrightarrow> \<exists>p. in_phase translate f0 answers p f"
proof (induction rule: forward_run.induct)
  case Begun
  then show ?case unfolding flow_Begin_def by (intro OpenFrom_phase) (simp_all add: same_plan_def finished_def fresh_flow_def)
next
  case (Chosen answers f row typed)
  then show ?case using choose_phase by blast
qed

text \<open>
  A player who never goes back finishes a flow at most once, with exactly the answers of the steps that applied when they were reached, each asked in turn, and
  only when the state passes validation: no step is asked twice, skipped though it applies, or asked though it does not.
\<close>

theorem flow_forward:
  assumes "fresh_flow f0" and "forward_run translate f0 answers f"
  shows "length (finished f) \<le> 1 \<and> (\<forall>s\<in>set (finished f). replay (fl_steps f0) (fl_state f0) answers = Some s \<and> is_valid f0 s)"
proof -
  obtain p where "in_phase translate f0 answers p f" using forward_phase[OF assms(2,1)] by blast
  then show ?thesis by (cases p) (auto simp: in_phase_def)
qed

definition example_flow :: "(int \<times> string) Flow" where
  "example_flow = flow_Finish (\<lambda>s. s) (AddOptionsStep \<lparr>os_Title = ''Reason'', os_Options = [(''Spam'', ''spam'')], os_Set = Some (\<lambda>(d, r) label v. (d, label)),
       os_CustomLabel = [], os_CustomPrompt = [], os_CustomValue = [], os_Applies = None\<rparr>
     (AddDurationStep \<lparr>ds_Title = ''Duration'', ds_Presets = [(''5 minutes'', 300), (''1 hour'', 3600)], ds_Set = Some (\<lambda>(d, r) seconds. (seconds, r)),
       ds_CustomLabel = [], ds_CustomPrompt = [], ds_Applies = None\<rparr> (flow_Create (0, []))))"

lemmas example_flow_defs = example_flow_def flow_Finish_def AddOptionsStep_def AddDurationStep_def AddStep_def flow_Create_def BuildDurationMenu_def BuildOptionsMenu_def

lemma example_fresh: "fresh_flow example_flow"
  by (auto simp: fresh_flow_def example_flow_defs no_finish_def row_chosen_def Let_def)

lemmas flow_run_defs = flow_Begin_def OpenFrom_def RunValidation_def next_step.simps open_menu_def flow_Choose_def row_chosen_def Advance_def
  RunFinish_def close_all_def flow_Back_def

definition example_begun :: "(int \<times> string) Flow" where "example_begun = flow_Begin (\<lambda>key fallback. fallback) example_flow"
definition example_timed :: "(int \<times> string) Flow" where "example_timed = flow_Choose (\<lambda>key fallback. fallback) 1 [] example_begun"
definition example_done :: "(int \<times> string) Flow" where "example_done = flow_Choose (\<lambda>key fallback. fallback) 0 [] example_timed"

lemma example_finished: "finished example_done = [(3600, ''Spam'')]"
  by (simp add: example_done_def example_timed_def example_begun_def flow_run_defs example_flow_defs finished_def Let_def)

theorem flow_forward_witness:
  "replay (fl_steps example_flow) (fl_state example_flow) (([] @ answer_of 1 [] example_begun) @ answer_of 0 [] example_timed) = Some (3600, ''Spam'')"
proof -
  have "forward_run (\<lambda>key fallback. fallback) example_flow (([] @ answer_of 1 [] example_begun) @ answer_of 0 [] example_timed) example_done"
    unfolding example_done_def example_timed_def example_begun_def by (intro forward_run.intros)
  from flow_forward[OF example_fresh this] show ?thesis by (simp add: example_finished)
qed

text \<open>
  Going back breaks this: the flow advances from the step it showed last, not from the one the row belongs to. Choosing again in the menu of an earlier step
  leaves out the step that was showing, and the flow finishes without its answer.
\<close>

theorem flow_back_skips:
  "finished (flow_Choose tr 1 [] (flow_Back (flow_Choose tr 0 [] (flow_Begin tr example_flow)))) = [(3600, [])]"
  by (simp add: flow_run_defs example_flow_defs finished_def Let_def)

end
