(* ===== verification/SigScanner.thy ===== *)
theory SigScanner
  imports Strings "HOL-Library.Word"
begin

text \<open>
  Byte signatures: parsing a pattern, searching memory for it by its rarest byte, binding only a unique match, and decoding
  a relative address. Sources: \<^verbatim>\<open>src/Engine/Memory/{BytePattern,SigScanner}.cpp\<close>, \<^verbatim>\<open>src/Engine/Memory/{BytePattern,SigScanner,RelativeAddress,Image}.hpp\<close>.
  The memory of a range is the list of its bytes, an address a number; a 64-bit address that may wrap is a word. Where the module lies and what its
  ranges hold are arguments.
\<close>

section \<open>Patterns\<close>

record PatternByte =
  pb_Value :: "8 word"
  pb_Wildcard :: bool

type_synonym ByteHistogram = "8 word \<Rightarrow> nat"

text \<open>\<^verbatim>\<open>stream >> token\<close> until the stream fails: the runs between white space.\<close>

function stream_tokens :: "string \<Rightarrow> string list" where
  "stream_tokens s =
     (let rest = dropWhile is_space s
      in if rest = [] then [] else takeWhile (\<lambda>c. \<not> is_space c) rest # stream_tokens (dropWhile (\<lambda>c. \<not> is_space c) rest))"
  by pat_completeness auto

termination
proof (relation "measure length", goal_cases)
  case (2 s rest)
  then obtain c cs where rest: "rest = c # cs" by (meson neq_Nil_conv)
  then have "\<not> is_space c" using 2 hd_dropWhile[of is_space s] by auto
  then have "length (dropWhile (\<lambda>c. \<not> is_space c) rest) < length rest"
    using length_dropWhile_le[of "\<lambda>c. \<not> is_space c" cs] by (simp add: rest)
  also have "length rest \<le> length s" using 2(1) by (simp add: length_dropWhile_le)
  finally show ?case by simp
qed simp

declare stream_tokens.simps [simp del]

text \<open>\<^verbatim>\<open>std::from_chars\<close> in base sixteen into an \<^verbatim>\<open>unsigned\<close>.\<close>

definition hex_digit :: "char \<Rightarrow> nat option" where
  "hex_digit c = (let b = byte_of c in
     if 48 \<le> b \<and> b \<le> 57 then Some (b - 48) else if 65 \<le> b \<and> b \<le> 70 then Some (b - 55)
     else if 97 \<le> b \<and> b \<le> 102 then Some (b - 87) else None)"

definition hex_value :: "string \<Rightarrow> nat" where
  "hex_value s = foldl (\<lambda>acc c. acc * 16 + the (hex_digit c)) 0 s"

definition from_chars_hex :: "nat \<Rightarrow> string \<Rightarrow> (nat \<times> string) option" where
  "from_chars_hex max_value s =
     (let digits = takeWhile (\<lambda>c. hex_digit c \<noteq> None) s; v = hex_value digits
      in if digits = [] \<or> max_value < v then None else Some (v, dropWhile (\<lambda>c. hex_digit c \<noteq> None) s))"

definition parse_token :: "string \<Rightarrow> PatternByte option" where
  "parse_token token =
     (if token = ''?'' \<or> token = ''??'' then Some \<lparr>pb_Value = 0, pb_Wildcard = True\<rparr>
      else case from_chars_hex uint32_max token of
        Some (v, []) \<Rightarrow> if 0xFF < v then None else Some \<lparr>pb_Value = of_nat v, pb_Wildcard = False\<rparr>
      | _ \<Rightarrow> None)"

fun parse_tokens :: "PatternByte list \<Rightarrow> string list \<Rightarrow> PatternByte list" where
  "parse_tokens acc [] = acc"
| "parse_tokens acc (token # tokens) =
     (case parse_token token of None \<Rightarrow> [] | Some b \<Rightarrow> parse_tokens (acc @ [b]) tokens)"

definition ParsePattern :: "string \<Rightarrow> PatternByte list" where
  "ParsePattern pattern = parse_tokens [] (stream_tokens pattern)"

section \<open>Searching\<close>

fun CountBytes :: "8 word list \<Rightarrow> ByteHistogram \<Rightarrow> ByteHistogram" where
  "CountBytes [] counts = counts"
| "CountBytes (b # bs) counts = CountBytes bs (counts(b := counts b + 1))"

definition SIZE_MAX :: nat where "SIZE_MAX = 18446744073709551615"

fun anchor_loop :: "PatternByte list \<Rightarrow> ByteHistogram \<Rightarrow> nat \<Rightarrow> nat \<Rightarrow> nat \<Rightarrow> nat" where
  "anchor_loop [] frequencies i anchor rarest = anchor"
| "anchor_loop (p # ps) frequencies i anchor rarest =
     (if pb_Wildcard p then anchor_loop ps frequencies (i + 1) anchor rarest
      else if frequencies (pb_Value p) < rarest then anchor_loop ps frequencies (i + 1) i (frequencies (pb_Value p))
      else anchor_loop ps frequencies (i + 1) anchor rarest)"

definition AnchorOf :: "PatternByte list \<Rightarrow> ByteHistogram \<Rightarrow> nat" where
  "AnchorOf pattern frequencies = anchor_loop pattern frequencies 0 (length pattern) SIZE_MAX"

fun Matches :: "8 word list \<Rightarrow> PatternByte list \<Rightarrow> bool" where
  "Matches bytes [] = True"
| "Matches [] (p # ps) = False"
| "Matches (b # bytes) (p # ps) = (if \<not> pb_Wildcard p \<and> b \<noteq> pb_Value p then False else Matches bytes ps)"

fun memchr :: "8 word \<Rightarrow> 8 word list \<Rightarrow> nat option" where
  "memchr wanted [] = None"
| "memchr wanted (b # bs) = (if b = wanted then Some 0 else map_option Suc (memchr wanted bs))"

function find_loop :: "8 word list \<Rightarrow> PatternByte list \<Rightarrow> nat \<Rightarrow> nat \<Rightarrow> nat \<Rightarrow> nat option" where
  "find_loop mem pattern anchor lastStart pos =
     (if pos \<le> lastStart
      then case memchr (pb_Value (pattern ! anchor)) (take (lastStart - pos + 1) (drop (pos + anchor) mem)) of
             None \<Rightarrow> None
           | Some k \<Rightarrow> if Matches (drop (pos + k) mem) pattern then Some (pos + k)
                       else find_loop mem pattern anchor lastStart (pos + k + 1)
      else None)"
  by pat_completeness auto

termination by (relation "measure (\<lambda>(mem, pattern, anchor, lastStart, pos). lastStart + 1 - pos)") auto

declare find_loop.simps [simp del]

definition FindFirst :: "8 word list \<Rightarrow> PatternByte list \<Rightarrow> nat \<Rightarrow> nat option" where
  "FindFirst mem pattern anchor =
     (if pattern = [] \<or> length mem < length pattern then None
      else let lastStart = length mem - length pattern
      in if length pattern \<le> anchor then Some 0 else find_loop mem pattern anchor lastStart 0)"

record ScanRange =
  sr_Base :: nat
  sr_Bytes :: "8 word list"

record ScanResult =
  sc_Address :: "nat option"
  sc_Unique :: bool
  sc_Module :: "nat option"

type_synonym histogram_cache = "nat \<Rightarrow> ByteHistogram option"

definition FrequenciesOf :: "nat \<Rightarrow> ScanRange list \<Rightarrow> histogram_cache \<Rightarrow> ByteHistogram \<times> histogram_cache" where
  "FrequenciesOf base ranges cache =
     (case cache base of
        Some counts \<Rightarrow> (counts, cache)
      | None \<Rightarrow> let counts = fold (\<lambda>rng. CountBytes (sr_Bytes rng)) ranges (\<lambda>_. 0) in (counts, cache(base \<mapsto> counts)))"

text \<open>One range: the search goes on after a hit; a second hit stops it, with the first.\<close>

function scan_range :: "ScanRange \<Rightarrow> PatternByte list \<Rightarrow> nat \<Rightarrow> nat \<Rightarrow> nat option \<Rightarrow> nat + nat option" where
  "scan_range rng pattern anchor pos first =
     (if pos < length (sr_Bytes rng)
      then case FindFirst (drop pos (sr_Bytes rng)) pattern anchor of
             None \<Rightarrow> Inr first
           | Some k \<Rightarrow> (case first of
               Some f \<Rightarrow> Inl f
             | None \<Rightarrow> scan_range rng pattern anchor (pos + k + 1) (Some (sr_Base rng + pos + k)))
      else Inr first)"
  by pat_completeness auto

termination by (relation "measure (\<lambda>(rng, pattern, anchor, pos, first). length (sr_Bytes rng) - pos)") auto

declare scan_range.simps [simp del]

fun scan_ranges :: "ScanRange list \<Rightarrow> PatternByte list \<Rightarrow> nat \<Rightarrow> nat option \<Rightarrow> nat + nat option" where
  "scan_ranges [] pattern anchor first = Inr first"
| "scan_ranges (rng # ranges) pattern anchor first =
     (case scan_range rng pattern anchor 0 first of
        Inl f \<Rightarrow> Inl f
      | Inr first' \<Rightarrow> scan_ranges ranges pattern anchor first')"

definition FindPatternEx :: "(nat \<times> ScanRange list) option \<Rightarrow> string \<Rightarrow> histogram_cache \<Rightarrow> ScanResult \<times> histogram_cache" where
  "FindPatternEx module pattern cache =
     (case module of
        None \<Rightarrow> (\<lparr>sc_Address = None, sc_Unique = True, sc_Module = None\<rparr>, cache)
      | Some (base, ranges) \<Rightarrow>
          (case FrequenciesOf base ranges cache of
             (counts, cache1) \<Rightarrow>
               let bytes = ParsePattern pattern; anchor = AnchorOf bytes counts
               in (case scan_ranges ranges bytes anchor None of
                     Inl first \<Rightarrow> \<lparr>sc_Address = Some first, sc_Unique = False, sc_Module = Some base\<rparr>
                   | Inr first \<Rightarrow> \<lparr>sc_Address = first, sc_Unique = True, sc_Module = Some base\<rparr>, cache1)))"

section \<open>Relative addresses\<close>

definition Rel32Size :: int where "Rel32Size = 4"

definition Rel32Site :: "64 word \<Rightarrow> 32 word \<Rightarrow> 64 word" where
  "Rel32Site matchAddress ripOffset = matchAddress + word_of_int (sint ripOffset)"

definition Rel32Target :: "64 word \<Rightarrow> 32 word \<Rightarrow> 32 word \<Rightarrow> 64 word" where
  "Rel32Target site displacement ripSize = site + word_of_int (sint ripSize) + word_of_int (sint displacement)"

definition Rel32ReadInBounds :: "64 word \<Rightarrow> 64 word \<Rightarrow> 64 word \<Rightarrow> 32 word \<Rightarrow> bool" where
  "Rel32ReadInBounds moduleBase moduleSize matchAddress ripOffset =
     (if sint ripOffset < 0 \<or> matchAddress < moduleBase then False
      else let moduleEnd = moduleBase + moduleSize; site = Rel32Site matchAddress ripOffset
      in if site < matchAddress \<or> moduleEnd \<le> site then False else word_of_int Rel32Size \<le> moduleEnd - site)"

definition ResolveRelativeAddress :: "(64 word \<Rightarrow> 32 word) \<Rightarrow> 64 word \<Rightarrow> 64 word \<Rightarrow> 64 word \<Rightarrow> 32 word \<Rightarrow> 32 word \<Rightarrow> 64 word" where
  "ResolveRelativeAddress read32 moduleBase moduleSize matchAddress ripOffset ripSize =
     (if matchAddress = 0 \<or> moduleBase = 0 then 0
      else if \<not> Rel32ReadInBounds moduleBase moduleSize matchAddress ripOffset then 0
      else let site = Rel32Site matchAddress ripOffset in Rel32Target site (read32 site) ripSize)"

section \<open>The search is exact\<close>

definition byte_fits :: "8 word \<Rightarrow> PatternByte \<Rightarrow> bool" where
  "byte_fits b p \<longleftrightarrow> pb_Wildcard p \<or> b = pb_Value p"

definition matches_at :: "8 word list \<Rightarrow> PatternByte list \<Rightarrow> nat \<Rightarrow> bool" where
  "matches_at mem pattern i \<longleftrightarrow> i + length pattern \<le> length mem \<and> (\<forall>j<length pattern. byte_fits (mem ! (i + j)) (pattern ! j))"

lemma Matches_iff: "Matches bytes pattern \<longleftrightarrow> length pattern \<le> length bytes \<and> (\<forall>j<length pattern. byte_fits (bytes ! j) (pattern ! j))"
proof (induction bytes pattern rule: Matches.induct)
  case (3 b bytes p ps)
  have "(\<forall>j<Suc (length ps). byte_fits ((b # bytes) ! j) ((p # ps) ! j)) \<longleftrightarrow> byte_fits b p \<and> (\<forall>j<length ps. byte_fits (bytes ! j) (ps ! j))"
    by (auto simp: nth_Cons split: nat.split)
  then show ?case using 3 by (auto simp: byte_fits_def)
qed auto

lemma Matches_drop: "i \<le> length mem \<Longrightarrow> Matches (drop i mem) pattern \<longleftrightarrow> matches_at mem pattern i"
  by (auto simp: Matches_iff matches_at_def)

lemma memchr_None: "memchr wanted bs = None \<longleftrightarrow> wanted \<notin> set bs"
  by (induction bs) auto

lemma memchr_Some: "memchr wanted bs = Some k \<Longrightarrow> k < length bs \<and> bs ! k = wanted \<and> (\<forall>j<k. bs ! j \<noteq> wanted)"
proof (induction bs arbitrary: k)
  case (Cons b bs)
  show ?case
  proof (cases "b = wanted")
    case False
    then obtain k' where k: "k = Suc k'" "memchr wanted bs = Some k'" using Cons.prems by auto
    have "(b # bs) ! j \<noteq> wanted" if "j < k" for j using Cons.IH[OF k(2)] that False k(1) by (cases j) auto
    then show ?thesis using Cons.IH[OF k(2)] k(1) by simp
  qed (use Cons.prems in auto)
qed simp

text \<open>A pattern and the index of one of its fixed bytes, or its length when it has none.\<close>

definition anchor_ok :: "PatternByte list \<Rightarrow> nat \<Rightarrow> bool" where
  "anchor_ok pattern anchor \<longleftrightarrow> (if anchor < length pattern then \<not> pb_Wildcard (pattern ! anchor) else list_all pb_Wildcard pattern)"

lemma find_loop_exact:
  assumes "anchor < length pattern" "\<not> pb_Wildcard (pattern ! anchor)" "length pattern \<le> length mem"
  shows "find_loop mem pattern anchor (length mem - length pattern) pos = List.find (matches_at mem pattern) [pos..<Suc (length mem - length pattern)]"
proof (induction "Suc (length mem - length pattern) - pos" arbitrary: pos rule: less_induct)
  case less
  let ?last = "length mem - length pattern" and ?wanted = "pb_Value (pattern ! anchor)"
  let ?window = "take (?last - pos + 1) (drop (pos + anchor) mem)"
  show ?case
  proof (cases "pos \<le> ?last")
    case True
    have len: "length ?window = ?last - pos + 1" using assms True by simp
    have at: "mem ! (i + anchor) = ?wanted" if "matches_at mem pattern i" for i
      using that assms(1,2) by (auto simp: matches_at_def byte_fits_def)
    have nth: "?window ! j = mem ! (pos + j + anchor)" if "j < ?last - pos + 1" for j using that assms True by (simp add: ac_simps)
    show ?thesis
    proof (cases "memchr ?wanted ?window")
      case None
      then have "\<forall>j<?last - pos + 1. ?window ! j \<noteq> ?wanted" using len by (metis memchr_None nth_mem)
      then have no: "mem ! (pos + j + anchor) \<noteq> ?wanted" if "j < ?last - pos + 1" for j using that nth by metis
      have "\<not> matches_at mem pattern i" if "i \<in> set [pos..<Suc ?last]" for i
      proof -
        have j: "pos + (i - pos) = i" "i - pos < ?last - pos + 1" using that True by auto
        show ?thesis using no[OF j(2)] at[of i] j(1) by auto
      qed
      then have "List.find (matches_at mem pattern) [pos..<Suc ?last] = None" by (auto simp: find_None_iff_all)
      then show ?thesis using True None by (subst find_loop.simps) simp
    next
      case (Some k)
      then have k: "k < ?last - pos + 1" "?window ! k = ?wanted" "\<forall>j<k. ?window ! j \<noteq> ?wanted" using memchr_Some[OF Some] len by auto
      have no: "\<not> matches_at mem pattern i" if "i \<in> set [pos..<pos + k]" for i
      proof -
        have "i - pos < k" "i = pos + (i - pos)" using that by auto
        then show ?thesis using k nth[of "i - pos"] at[of i] by (metis (no_types, lifting) less_trans)
      qed
      have split: "[pos..<Suc ?last] = [pos..<pos + k] @ (pos + k) # [Suc (pos + k)..<Suc ?last]"
      proof -
        have le: "pos + k < Suc ?last" using k(1) True by simp
        then have "[pos..<Suc ?last] = [pos..<pos + k] @ [pos + k..<Suc ?last]"
          using upt_add_eq_append[of pos "pos + k" "Suc ?last - (pos + k)"] by (metis le_add1 le_add_diff_inverse less_imp_le)
        then show ?thesis using upt_conv_Cons[OF le] by simp
      qed
      have "List.find (matches_at mem pattern) [pos..<pos + k] = None" using no by (auto simp: find_None_iff_all)
      then have found: "List.find (matches_at mem pattern) [pos..<Suc ?last] =
          (if matches_at mem pattern (pos + k) then Some (pos + k) else List.find (matches_at mem pattern) [Suc (pos + k)..<Suc ?last])"
        unfolding split find_append by simp
      have m: "Matches (drop (pos + k) mem) pattern = matches_at mem pattern (pos + k)" using k(1) True by (intro Matches_drop) simp
      have "find_loop mem pattern anchor ?last (Suc (pos + k)) = List.find (matches_at mem pattern) [Suc (pos + k)..<Suc ?last]"
        using k(1) True by (intro less) simp
      then show ?thesis using True Some found m by (subst find_loop.simps) simp
    qed
  next
    case False
    then show ?thesis by (subst find_loop.simps) simp
  qed
qed

lemma find_map: "List.find P (map f xs) = map_option f (List.find (\<lambda>x. P (f x)) xs)"
  by (induction xs) auto

lemma FindFirst_exact:
  assumes "pattern \<noteq> []" "anchor_ok pattern anchor"
  shows "FindFirst mem pattern anchor = List.find (matches_at mem pattern) [0..<length mem]"
proof (cases "length mem < length pattern")
  case True
  then have "List.find (matches_at mem pattern) [0..<length mem] = None" by (auto simp: find_None_iff_all matches_at_def)
  then show ?thesis using True by (simp add: FindFirst_def)
next
  case False
  let ?last = "length mem - length pattern"
  have split: "[0..<length mem] = [0..<Suc ?last] @ [Suc ?last..<length mem]"
  proof -
    have "Suc ?last \<le> length mem" using False assms(1) by (cases pattern) auto
    then show ?thesis using upt_add_eq_append[of 0 "Suc ?last" "length mem - Suc ?last"] by (metis le_add_diff_inverse zero_le)
  qed
  have "List.find (matches_at mem pattern) [Suc ?last..<length mem] = None" by (auto simp: find_None_iff_all matches_at_def)
  then have all: "List.find (matches_at mem pattern) [0..<length mem] = List.find (matches_at mem pattern) [0..<Suc ?last]"
    unfolding split find_append by (simp split: option.split del: upt_Suc)
  show ?thesis
  proof (cases "anchor < length pattern")
    case True
    then show ?thesis using assms False find_loop_exact[of anchor pattern mem 0] all by (simp add: FindFirst_def anchor_ok_def del: upt_Suc)
  next
    case no: False
    then have "matches_at mem pattern 0" using assms False by (auto simp: matches_at_def byte_fits_def anchor_ok_def list_all_length)
    then have "List.find (matches_at mem pattern) [0..<length mem] = Some 0" using False assms(1) by (cases mem) (auto simp: upt_conv_Cons simp del: upt_Suc)
    then show ?thesis using no False assms by (simp add: FindFirst_def)
  qed
qed

lemma anchor_loop_ok:
  "\<forall>v. frequencies v < SIZE_MAX \<Longrightarrow> pattern = pre @ ps \<Longrightarrow> i = length pre \<Longrightarrow>
   (if anchor < length pre then \<not> pb_Wildcard (pattern ! anchor) else anchor = length pattern \<and> rarest = SIZE_MAX \<and> list_all pb_Wildcard pre) \<Longrightarrow>
   anchor_ok pattern (anchor_loop ps frequencies i anchor rarest)"
proof (induction ps frequencies i anchor rarest arbitrary: pre rule: anchor_loop.induct)
  case (1 frequencies i anchor rarest)
  then show ?case by (auto simp: anchor_ok_def split: if_split_asm)
next
  case (2 p ps frequencies i anchor rarest)
  have n: "pattern ! i = p" using 2 by simp
  consider "pb_Wildcard p" | "\<not> pb_Wildcard p" "frequencies (pb_Value p) < rarest" | "\<not> pb_Wildcard p" "\<not> frequencies (pb_Value p) < rarest" by blast
  then show ?case
  proof cases
    case 1
    have "(if anchor < length (pre @ [p]) then \<not> pb_Wildcard (pattern ! anchor) else anchor = length pattern \<and> rarest = SIZE_MAX \<and> list_all pb_Wildcard (pre @ [p]))"
      using 1 "2.prems" by (auto split: if_split_asm)
    then show ?thesis using "2.IH"(1)[of "pre @ [p]"] 1 "2.prems" by simp
  next
    case 2
    then show ?thesis using "2.IH"(2)[of "pre @ [p]"] n "2.prems" by simp
  next
    case 3
    then have "anchor < length pre" using "2.prems" by (auto split: if_split_asm)
    then show ?thesis using "2.IH"(3)[of "pre @ [p]"] 3 "2.prems" by simp
  qed
qed

lemma AnchorOf_ok: "\<forall>v. frequencies v < SIZE_MAX \<Longrightarrow> anchor_ok pattern (AnchorOf pattern frequencies)"
  unfolding AnchorOf_def by (rule anchor_loop_ok[where pre = "[]"]) auto

text \<open>All matches of a range, from a position on.\<close>

definition matches_from :: "ScanRange \<Rightarrow> PatternByte list \<Rightarrow> nat \<Rightarrow> nat list" where
  "matches_from rng pattern pos = map (\<lambda>i. sr_Base rng + i) (filter (matches_at (sr_Bytes rng) pattern) [pos..<length (sr_Bytes rng)])"

definition verdict_of :: "nat option \<Rightarrow> nat list \<Rightarrow> nat + nat option" where
  "verdict_of first hits = (case first of
     None \<Rightarrow> (case hits of [] \<Rightarrow> Inr None | [a] \<Rightarrow> Inr (Some a) | a # _ \<Rightarrow> Inl a)
   | Some f \<Rightarrow> if hits = [] then Inr (Some f) else Inl f)"

lemma matches_at_drop: "pos \<le> length mem \<Longrightarrow> matches_at (drop pos mem) pattern i = matches_at mem pattern (pos + i)"
  by (auto simp: matches_at_def ac_simps)

lemma FindFirst_drop:
  assumes "pattern \<noteq> []" "anchor_ok pattern anchor" "pos \<le> length mem"
  shows "FindFirst (drop pos mem) pattern anchor = map_option (\<lambda>i. i - pos) (List.find (matches_at mem pattern) [pos..<length mem])"
proof -
  have "[pos..<length mem] = map ((+) pos) [0..<length mem - pos]" using assms(3) map_add_upt[of pos "length mem - pos"] by (simp add: add.commute[of pos] cong: map_cong)
  then show ?thesis using assms by (simp add: FindFirst_exact find_map matches_at_drop[OF assms(3), abs_def] option.map_comp comp_def option.map_ident)
qed

lemma filter_upt_find:
  assumes "pos \<le> n"
  shows "filter P [pos..<n] = (case List.find P [pos..<n] of None \<Rightarrow> [] | Some i \<Rightarrow> i # filter P [Suc i..<n])"
    and "List.find P [pos..<n] = Some i \<Longrightarrow> pos \<le> i \<and> i < n"
proof -
  show "filter P [pos..<n] = (case List.find P [pos..<n] of None \<Rightarrow> [] | Some i \<Rightarrow> i # filter P [Suc i..<n])"
    using assms by (induction "n - pos" arbitrary: pos) (auto simp: upt_conv_Cons)
  show "List.find P [pos..<n] = Some i \<Longrightarrow> pos \<le> i \<and> i < n" by (auto dest: find_SomeD)
qed

lemma scan_range_exact:
  assumes "pattern \<noteq> []" "anchor_ok pattern anchor" "pos \<le> length (sr_Bytes rng)"
  shows "scan_range rng pattern anchor pos first = verdict_of first (matches_from rng pattern pos)"
  using assms(3)
proof (induction "length (sr_Bytes rng) - pos" arbitrary: pos first rule: less_induct)
  case less
  let ?n = "length (sr_Bytes rng)" and ?P = "matches_at (sr_Bytes rng) pattern"
  note ff = FindFirst_drop[OF assms(1,2) less.prems] and hits = filter_upt_find(1)[OF less.prems, of ?P]
  show ?case
  proof (cases "List.find ?P [pos..<?n]")
    case None
    then have "matches_from rng pattern pos = []" by (simp only: matches_from_def hits option.case list.map)
    then show ?thesis using ff None by (subst scan_range.simps) (simp add: verdict_of_def split: option.split)
  next
    case (Some i)
    then have i: "pos \<le> i" "i < ?n" using filter_upt_find(2)[OF less.prems Some] by auto
    have m: "matches_from rng pattern pos = (sr_Base rng + i) # matches_from rng pattern (Suc i)"
      by (simp only: matches_from_def hits Some option.case list.map)
    show ?thesis
    proof (cases first)
      case None
      have "scan_range rng pattern anchor (Suc i) (Some (sr_Base rng + i)) = verdict_of (Some (sr_Base rng + i)) (matches_from rng pattern (Suc i))"
        using i by (intro less) auto
      moreover have "\<dots> = verdict_of None (matches_from rng pattern pos)" by (simp add: m verdict_of_def split: list.split)
      ultimately show ?thesis using ff Some None i by (subst scan_range.simps) simp
    next
      case f: (Some a)
      then show ?thesis using ff Some i m by (subst scan_range.simps) (simp add: verdict_of_def)
    qed
  qed
qed

lemma scan_ranges_exact:
  assumes "pattern \<noteq> []" "anchor_ok pattern anchor"
  shows "scan_ranges ranges pattern anchor first = verdict_of first (concat (map (\<lambda>rng. matches_from rng pattern 0) ranges))"
proof (induction ranges arbitrary: first)
  case (Cons rng ranges)
  define hits where "hits = concat (map (\<lambda>rng. matches_from rng pattern 0) ranges)"
  have "scan_range rng pattern anchor 0 first = verdict_of first (matches_from rng pattern 0)" by (rule scan_range_exact[OF assms]) simp
  then show ?case using Cons.IH unfolding list.map concat.simps hits_def[symmetric] scan_ranges.simps
    by (cases "matches_from rng pattern 0"; cases "tl (matches_from rng pattern 0)"; cases first) (auto simp: verdict_of_def split: list.splits)
qed (simp add: verdict_of_def split: option.split)

text \<open>No byte occurs more often than there are bytes.\<close>

lemma CountBytes_bound: "CountBytes bs counts v \<le> counts v + length bs"
proof (induction bs counts rule: CountBytes.induct)
  case (2 b bs counts)
  then show ?case by (cases "v = b") (auto simp del: fun_upd_apply simp: fun_upd_same fun_upd_other)
qed simp

lemma fold_CountBytes_bound: "fold (\<lambda>rng. CountBytes (sr_Bytes rng)) ranges counts v \<le> counts v + sum_list (map (\<lambda>rng. length (sr_Bytes rng)) ranges)"
proof (induction ranges arbitrary: counts)
  case (Cons rng ranges)
  show ?case using Cons[of "CountBytes (sr_Bytes rng) counts"] CountBytes_bound[of "sr_Bytes rng" counts v] by simp
qed simp

definition all_matches :: "ScanRange list \<Rightarrow> PatternByte list \<Rightarrow> nat list" where
  "all_matches ranges pattern = (if pattern = [] then [] else concat (map (\<lambda>rng. matches_from rng pattern 0) ranges))"

lemma scan_empty_pattern: "scan_ranges ranges [] anchor None = Inr None"
  by (induction ranges) (simp_all add: scan_range.simps FindFirst_def)

lemma FindPatternEx_scan:
  assumes "\<forall>counts v. cache base = Some counts \<longrightarrow> counts v < SIZE_MAX"
    and "sum_list (map (\<lambda>rng. length (sr_Bytes rng)) ranges) < SIZE_MAX"
  shows "fst (FindPatternEx (Some (base, ranges)) pattern cache) =
    (let hits = all_matches ranges (ParsePattern pattern)
     in \<lparr>sc_Address = (case hits of [] \<Rightarrow> None | a # _ \<Rightarrow> Some a), sc_Unique = (length hits \<le> 1), sc_Module = Some base\<rparr>)"
proof -
  obtain counts cache' where f: "FrequenciesOf base ranges cache = (counts, cache')" by fastforce
  have bound: "\<forall>v. counts v < SIZE_MAX"
  proof (cases "cache base")
    case None
    then have "counts = fold (\<lambda>rng. CountBytes (sr_Bytes rng)) ranges (\<lambda>_. 0)" using f by (simp add: FrequenciesOf_def Let_def)
    then show ?thesis using fold_CountBytes_bound[of ranges "\<lambda>_. 0"] assms(2) by (auto intro: le_less_trans)
  qed (use f assms(1) in \<open>simp add: FrequenciesOf_def\<close>)
  define p where "p = ParsePattern pattern"
  have "scan_ranges ranges p (AnchorOf p counts) None = verdict_of None (all_matches ranges p)"
    using scan_ranges_exact[of p, OF _ AnchorOf_ok[OF bound]] scan_empty_pattern[of ranges]
    by (cases "p = []") (simp_all add: all_matches_def verdict_of_def)
  then show ?thesis using f
    by (simp add: FindPatternEx_def p_def[symmetric] Let_def verdict_of_def split: list.split)
qed

text \<open>
  C25: A scan binds exactly what it should: its address is the first place where every fixed byte of the pattern agrees, looking at every
  position of every range, and it is called unique exactly when there is no second one. Searching by the rarest byte, skipping with
  \<^verbatim>\<open>memchr\<close> and a cache of frequencies never changes the answer. A pattern that does not parse matches nowhere.
\<close>

theorem FindPatternEx_exact:
  assumes "\<forall>counts v. cache base = Some counts \<longrightarrow> counts v < SIZE_MAX"
    and "sum_list (map (\<lambda>rng. length (sr_Bytes rng)) ranges) < SIZE_MAX"
  shows "fst (FindPatternEx (Some (base, ranges)) pattern cache) =
    (let hits = all_matches ranges (ParsePattern pattern)
     in \<lparr>sc_Address = (case hits of [] \<Rightarrow> None | a # _ \<Rightarrow> Some a), sc_Unique = (length hits \<le> 1), sc_Module = Some base\<rparr>)"
  using assms by (rule FindPatternEx_scan)

definition example_scan :: "ScanRange list" where
  "example_scan = [\<lparr>sr_Base = 4096, sr_Bytes = [0x48, 0x8B, 0x48, 0x05]\<rparr>, \<lparr>sr_Base = 8192, sr_Bytes = [0x48, 0x11, 0x05, 0x05]\<rparr>]"

lemma example_hits: "all_matches example_scan (ParsePattern ''48 ? 05'') = [8192]"
  by (simp add: example_scan_def all_matches_def matches_from_def matches_at_def[abs_def] All_less_Suc2 byte_fits_def ParsePattern_def stream_tokens.simps is_space_def
      parse_token_def from_chars_hex_def hex_digit_def hex_value_def uint32_max_def upt_conv_Cons)

lemma example_scan_hit:
  "fst (FindPatternEx (Some (4096, example_scan)) ''48 ? 05'' (\<lambda>_. None)) = \<lparr>sc_Address = Some 8192, sc_Unique = True, sc_Module = Some 4096\<rparr>"
  using FindPatternEx_scan[of "\<lambda>_. None" 4096 example_scan "''48 ? 05''"] example_hits by (simp add: example_scan_def SIZE_MAX_def)

theorem FindPatternEx_exact_witness:
  "fst (FindPatternEx (Some (4096, example_scan)) ''48 ? 05'' (\<lambda>_. None)) = \<lparr>sc_Address = Some 8192, sc_Unique = True, sc_Module = Some 4096\<rparr>"
  using FindPatternEx_exact[of "\<lambda>_. None" 4096 example_scan "''48 ? 05''"] example_hits by (simp add: example_scan_def SIZE_MAX_def)

section \<open>Writing a pattern\<close>

definition hex_char :: "nat \<Rightarrow> char" where
  "hex_char d = (if d < 10 then char_of (48 + d) else char_of (55 + d))"

definition spell_byte :: "PatternByte \<Rightarrow> string" where
  "spell_byte p = (if pb_Wildcard p then ''?'' else [hex_char (unat (pb_Value p) div 16), hex_char (unat (pb_Value p) mod 16)])"

definition spell_pattern :: "PatternByte list \<Rightarrow> string" where
  "spell_pattern ps = concat (map (\<lambda>p. spell_byte p @ '' '') ps)"

lemma unat_lt: "unat (v :: 8 word) < 256"
  using unsigned_less[of v, where ?'a = nat] by simp

lemma hex_char: "d < 16 \<Longrightarrow> hex_digit (hex_char d) = Some d \<and> \<not> is_space (hex_char d) \<and> hex_char d \<noteq> CHR ''?''"
proof -
  assume "d < 16"
  then have "byte_of (hex_char d) = (if d < 10 then 48 + d else 55 + d)" by (simp add: hex_char_def of_char_of)
  then show ?thesis using \<open>d < 16\<close> by (auto simp: hex_digit_def is_space_def split: if_split_asm)
qed

lemma spell_byte_token: "spell_byte p \<noteq> [] \<and> list_all (\<lambda>c. \<not> is_space c) (spell_byte p)"
  using hex_char[of "unat (pb_Value p) div 16"] hex_char[of "unat (pb_Value p) mod 16"] unat_lt[of "pb_Value p"]
  by (auto simp: spell_byte_def is_space_def)

lemma parse_spell_byte: "(pb_Wildcard p \<Longrightarrow> pb_Value p = 0) \<Longrightarrow> parse_token (spell_byte p) = Some p"
proof (cases "pb_Wildcard p")
  case False
  let ?v = "unat (pb_Value p)"
  have v: "?v < 256" using unat_lt[of "pb_Value p"] by simp
  note h = hex_char[of "?v div 16"] hex_char[of "?v mod 16"]
  have "from_chars_hex uint32_max (spell_byte p) = Some (?v, [])"
    using h v False by (simp add: spell_byte_def from_chars_hex_def hex_value_def uint32_max_def)
  moreover have "spell_byte p \<noteq> ''?''" "spell_byte p \<noteq> ''??''" using h v False by (simp_all add: spell_byte_def)
  ultimately show ?thesis using v False by (simp add: parse_token_def)
qed (simp add: spell_byte_def parse_token_def)

lemma stream_tokens_spell:
  assumes "token \<noteq> []" "list_all (\<lambda>c. \<not> is_space c) token"
  shows "stream_tokens (token @ '' '' @ rest) = token # stream_tokens rest"
proof -
  have sp: "is_space CHR '' ''" by (simp add: is_space_def)
  have d: "dropWhile is_space (token @ '' '' @ rest) = token @ '' '' @ rest" using assms by (cases token) auto
  have t: "takeWhile (\<lambda>c. \<not> is_space c) (token @ '' '' @ rest) = token" "dropWhile (\<lambda>c. \<not> is_space c) (token @ '' '' @ rest) = '' '' @ rest"
    using assms(2) sp by (simp_all add: takeWhile_append dropWhile_append list_all_iff)
  have "stream_tokens ('' '' @ rest) = stream_tokens rest" using sp by (subst (1 2) stream_tokens.simps) simp
  then show ?thesis using d t assms(1) by (subst stream_tokens.simps) (simp add: Let_def)
qed

lemma parse_tokens_spell:
  "\<forall>p\<in>set ps. pb_Wildcard p \<longrightarrow> pb_Value p = 0 \<Longrightarrow> parse_tokens acc (map spell_byte ps) = acc @ ps"
  by (induction ps arbitrary: acc) (simp_all add: parse_spell_byte)

text \<open>A written pattern reads back as itself.\<close>

theorem ParsePattern_roundtrip:
  assumes "\<forall>p\<in>set ps. pb_Wildcard p \<longrightarrow> pb_Value p = 0"
  shows "ParsePattern (spell_pattern ps) = ps"
proof -
  have "stream_tokens (spell_pattern ps) = map spell_byte ps"
  proof (induction ps)
    case (Cons p ps)
    then show ?case using stream_tokens_spell[of "spell_byte p" "spell_pattern ps"] spell_byte_token[of p] by (simp add: spell_pattern_def)
  qed (simp add: spell_pattern_def stream_tokens.simps[of "[]"])
  then show ?thesis using parse_tokens_spell[OF assms] by (simp add: ParsePattern_def)
qed

theorem ParsePattern_roundtrip_witness:
  "ParsePattern (spell_pattern [\<lparr>pb_Value = 0x48, pb_Wildcard = False\<rparr>, \<lparr>pb_Value = 0, pb_Wildcard = True\<rparr>]) =
    [\<lparr>pb_Value = 0x48, pb_Wildcard = False\<rparr>, \<lparr>pb_Value = 0, pb_Wildcard = True\<rparr>]"
  by (rule ParsePattern_roundtrip) simp

section \<open>Reads stay inside the module\<close>

text \<open>
  A displacement is read only when its four bytes lie inside the module, whatever the offset of the record: negative, past the
  end, or so large that the sum of addresses wraps.
\<close>

theorem Rel32_inside:
  assumes "Rel32ReadInBounds moduleBase moduleSize matchAddress ripOffset" "unat moduleBase + unat moduleSize < 2 ^ 64"
  shows "unat moduleBase \<le> unat (Rel32Site matchAddress ripOffset) \<and> unat (Rel32Site matchAddress ripOffset) + 4 \<le> unat moduleBase + unat moduleSize"
proof -
  let ?site = "Rel32Site matchAddress ripOffset" and ?limit = "moduleBase + moduleSize"
  have e: "unat ?limit = unat moduleBase + unat moduleSize" using assms(2) by (simp add: unat_word_ariths)
  have b: "\<not> matchAddress < moduleBase" "\<not> ?site < matchAddress" "\<not> ?limit \<le> ?site" "4 \<le> ?limit - ?site"
    using assms(1) by (auto simp: Rel32ReadInBounds_def Let_def Rel32Size_def split: if_split_asm)
  have "unat (?limit - ?site) = unat ?limit - unat ?site" using b(3) by (intro unat_sub) simp
  moreover have "unat (4 :: 64 word) \<le> unat (?limit - ?site)" using b(4) by (simp only: word_le_nat_alt)
  moreover have "unat moduleBase \<le> unat ?site" "unat ?site < unat ?limit" using b(1-3) by (auto simp: word_less_nat_alt word_le_nat_alt)
  ultimately show ?thesis using e by simp
qed

theorem Rel32_inside_witness:
  "unat (4096 :: 64 word) \<le> unat (Rel32Site 4100 3) \<and> unat (Rel32Site 4100 3) + 4 \<le> unat (4096 :: 64 word) + unat (16 :: 64 word)"
  by (rule Rel32_inside) (simp_all add: Rel32ReadInBounds_def Rel32Site_def Rel32Size_def)

end
