(* ===== verification/GameData.thy ===== *)
theory GameData
  imports Result SigScanner
begin

text \<open>
  Resolving the gamedata file against the loaded modules, and serving what bound to the plugins. Sources:
  \<^verbatim>\<open>src/Host/GameData/{GameDataDocument.hpp,ModuleSymbols.cpp,GameDataScanner.cpp,GameDataRecord.cpp,GameDataTable.cpp}\<close> and their headers,
  \<^verbatim>\<open>include/VoltMod/Engine/GameData/GameDataLocation.hpp\<close>, \<^verbatim>\<open>src/Engine/GameData/Bindings.cpp\<close>. The parsed file, the modules, the RTTI and VScript lookups and
  the operating system's answers about memory are arguments; a null pointer is \<open>0\<close>. What is only logged is left out.
\<close>

unbundle bit_operations_syntax

section \<open>The file\<close>

datatype Platform = PlatformWindows | PlatformLinux

record 'c PlatformEntry =
  pe_Windows :: "'c option"
  pe_Linux :: "'c option"

definition PlatformName :: "Platform \<Rightarrow> string" where
  "PlatformName p = (case p of PlatformWindows \<Rightarrow> ''windows'' | PlatformLinux \<Rightarrow> ''linux'')"

definition PlatformColumn :: "Platform \<Rightarrow> ('c, 'e) PlatformEntry_scheme \<Rightarrow> 'c option" where
  "PlatformColumn p entry = (case p of PlatformWindows \<Rightarrow> pe_Windows entry | PlatformLinux \<Rightarrow> pe_Linux entry)"

record GlobalColumn =
  gc_pattern :: string
  gc_rel32At :: "32 word"

record gd_Function = "string PlatformEntry" +
  fn_Module :: string
  fn_Class :: string
  fn_Script :: string

record gd_Global = "GlobalColumn PlatformEntry" +
  gl_Module :: string

record gd_VTable = "int PlatformEntry" +
  vt_Class :: string
  vt_Base :: string
  vt_Module :: string
  vt_Script :: string

record gd_Offset = "int PlatformEntry" +
  of_Class :: string
  of_Base :: string
  of_Module :: string

record GameDataDocument =
  gd_functions :: "(string, gd_Function) omap"
  gd_globals :: "(string, gd_Global) omap"
  gd_vtables :: "(string, gd_VTable) omap"
  gd_offsets :: "(string, gd_Offset) omap"

section \<open>What the process answers\<close>

record Image =
  im_Base :: nat
  im_Size :: nat
  im_Ranges :: "ScanRange list"

definition im_Contains :: "Image \<Rightarrow> nat \<Rightarrow> bool" where
  "im_Contains im address \<longleftrightarrow> im_Base im \<noteq> 0 \<and> im_Base im \<le> address \<and> address < im_Base im + im_Size im"

record BaseSubobject =
  bs_Offset :: int
  bs_Table :: nat

record ScriptTarget =
  tg_Address :: nat
  tg_Index :: int

record gamedata_env =
  ge_Platform :: Platform
  ge_Image :: "string \<Rightarrow> Image option"
  ge_Read32 :: "64 word \<Rightarrow> 32 word"
  ge_Readable :: "nat \<Rightarrow> nat \<Rightarrow> bool"
  ge_Executable :: "nat \<Rightarrow> bool"
  ge_VirtualTable :: "string \<Rightarrow> string \<Rightarrow> nat"
  ge_BaseIn :: "string \<Rightarrow> string \<Rightarrow> string \<Rightarrow> BaseSubobject result"
  ge_Slot :: "nat \<Rightarrow> int \<Rightarrow> nat"
  ge_OriginalOf :: "(nat \<Rightarrow> int \<Rightarrow> nat) option"
  ge_ScriptOf :: "(nat \<Rightarrow> string \<Rightarrow> ScriptTarget result) option"

section \<open>State\<close>

record ModuleSymbols =
  ms_modules :: "string \<Rightarrow> Image option option"
  ms_tables :: "string \<times> string \<Rightarrow> nat option"
  ms_bases :: "string \<times> string \<times> string \<Rightarrow> BaseSubobject result option"

record Location =
  lo_Module :: string
  lo_Rva :: "64 word"

record Slot =
  so_Module :: string
  so_Table :: "64 word"
  so_Index :: int
  so_Code :: "64 word"

record GameDataRecord =
  rc_Build :: string
  rc_Functions :: "(string, Location) omap"
  rc_Globals :: "(string, Location) omap"
  rc_VTables :: "(string, Slot) omap"
  rc_Offsets :: "(string, int) omap"

record scan_state =
  ss_symbols :: ModuleSymbols
  ss_record :: GameDataRecord
  ss_histograms :: histogram_cache

definition fresh_scan :: scan_state where
  "fresh_scan = \<lparr>ss_symbols = \<lparr>ms_modules = (\<lambda>_. None), ms_tables = (\<lambda>_. None), ms_bases = (\<lambda>_. None)\<rparr>,
     ss_record = \<lparr>rc_Build = [], rc_Functions = [], rc_Globals = [], rc_VTables = [], rc_Offsets = []\<rparr>, ss_histograms = (\<lambda>_. None)\<rparr>"

text \<open>A lookup that may fail and keeps what it learned; \<open>and_then\<close> is the chain of \<^verbatim>\<open>if (!x) return std::unexpected(x.error())\<close>.\<close>

type_synonym 'a scan = "scan_state \<Rightarrow> 'a result \<times> scan_state"

definition answer :: "'a result \<Rightarrow> 'a scan" where
  "answer r st = (r, st)"

definition and_then :: "'a scan \<Rightarrow> ('a \<Rightarrow> 'b scan) \<Rightarrow> 'b scan" where
  "and_then c f st = (case c st of (Inl e, st1) \<Rightarrow> (Inl e, st1) | (Inr a, st1) \<Rightarrow> f a st1)"

definition Unbound :: "string \<Rightarrow> 'a result" where
  "Unbound reason = Inl (Error_NotFound reason)"

definition to_string_signed :: "32 word \<Rightarrow> string" where
  "to_string_signed w = to_string_int (sint w)"

section \<open>Symbols, each looked up once\<close>

definition upd_symbols :: "(ModuleSymbols \<Rightarrow> ModuleSymbols) \<Rightarrow> scan_state \<Rightarrow> scan_state" where
  "upd_symbols f st = st\<lparr>ss_symbols := f (ss_symbols st)\<rparr>"

definition Module_of :: "gamedata_env \<Rightarrow> string \<Rightarrow> Image scan" where
  "Module_of env moduleName st =
     (let (found, st1) = (case ms_modules (ss_symbols st) moduleName of
            Some found \<Rightarrow> (found, st)
          | None \<Rightarrow> (ge_Image env moduleName, upd_symbols (\<lambda>ms. ms\<lparr>ms_modules := (ms_modules ms)(moduleName \<mapsto> ge_Image env moduleName)\<rparr>) st))
      in case found of
           None \<Rightarrow> (Unbound (''module '' @ quoted moduleName @ '' is not loaded''), st1)
         | Some im \<Rightarrow> (Inr im, st1))"

definition Base_of :: "gamedata_env \<Rightarrow> string \<Rightarrow> string \<Rightarrow> string \<Rightarrow> BaseSubobject scan" where
  "Base_of env moduleName className baseName =
     and_then (Module_of env moduleName) (\<lambda>_ st.
       (case ms_bases (ss_symbols st) (moduleName, className, baseName) of
          Some r \<Rightarrow> (r, st)
        | None \<Rightarrow> (ge_BaseIn env moduleName className baseName,
            upd_symbols (\<lambda>ms. ms\<lparr>ms_bases := (ms_bases ms)((moduleName, className, baseName) \<mapsto> ge_BaseIn env moduleName className baseName)\<rparr>) st)))"

definition primary_table :: "gamedata_env \<Rightarrow> string \<Rightarrow> string \<Rightarrow> nat scan" where
  "primary_table env moduleName className st =
     (let (table, st1) = (case ms_tables (ss_symbols st) (moduleName, className) of
            Some t \<Rightarrow> (t, st)
          | None \<Rightarrow> (ge_VirtualTable env moduleName className,
              upd_symbols (\<lambda>ms. ms\<lparr>ms_tables := (ms_tables ms)((moduleName, className) \<mapsto> ge_VirtualTable env moduleName className)\<rparr>) st))
      in if table = 0 then (Unbound (''no vtable for '' @ quoted className @ '' in '' @ quoted moduleName), st1) else (Inr table, st1))"

definition Table_of :: "gamedata_env \<Rightarrow> string \<Rightarrow> string \<Rightarrow> string \<Rightarrow> nat scan" where
  "Table_of env moduleName className baseName =
     (if baseName \<noteq> []
      then and_then (Base_of env moduleName className baseName) (\<lambda>base.
        answer (if bs_Table base = 0 then Unbound (quoted baseName @ '' has no vtable of its own in '' @ quoted className) else Inr (bs_Table base)))
      else and_then (Module_of env moduleName) (\<lambda>_. primary_table env moduleName className))"

section \<open>Finding one entry\<close>

definition Rva :: "Image \<Rightarrow> nat \<Rightarrow> 64 word" where
  "Rva im address = of_nat address - of_nat (im_Base im)"

definition Scan :: "gamedata_env \<Rightarrow> string \<Rightarrow> string \<Rightarrow> (Image \<times> nat) scan" where
  "Scan env moduleName pattern st =
     (if pattern = [] then (Unbound ''empty pattern'', st)
      else let image = ge_Image env moduleName;
               (match, cache) = FindPatternEx (map_option (\<lambda>im. (im_Base im, im_Ranges im)) image) pattern (ss_histograms st);
               st1 = st\<lparr>ss_histograms := cache\<rparr>
      in case (image, sc_Address match) of
           (None, _) \<Rightarrow> (Unbound (''module '' @ quoted moduleName @ '' is not loaded''), st1)
         | (Some im, None) \<Rightarrow> (Unbound ''pattern not found'', st1)
         | (Some im, Some address) \<Rightarrow> if \<not> sc_Unique match then (Unbound ''pattern matched more than once'', st1) else (Inr (im, address), st1))"

definition ColumnValue :: "gamedata_env \<Rightarrow> (int, 'e) PlatformEntry_scheme \<Rightarrow> string \<Rightarrow> int result" where
  "ColumnValue env entry what =
     (case PlatformColumn (ge_Platform env) entry of
        None \<Rightarrow> Unbound (''no '' @ PlatformName (ge_Platform env) @ '' '' @ what)
      | Some v \<Rightarrow> if v < 0 then Unbound (what @ '' '' @ to_string_int v @ '' is negative'') else Inr v)"

definition OriginalSlot :: "gamedata_env \<Rightarrow> nat \<Rightarrow> int \<Rightarrow> nat" where
  "OriginalSlot env table index =
     (let original = (case ge_OriginalOf env of None \<Rightarrow> 0 | Some f \<Rightarrow> f table index)
      in if original \<noteq> 0 then original else ge_Slot env table index)"

definition FindScript :: "gamedata_env \<Rightarrow> nat \<Rightarrow> string \<Rightarrow> ScriptTarget result" where
  "FindScript env table name = (case ge_ScriptOf env of None \<Rightarrow> Unbound ''no VScript lookup'' | Some f \<Rightarrow> f table name)"

definition ScriptSlot :: "gamedata_env \<Rightarrow> nat \<Rightarrow> string \<Rightarrow> int result" where
  "ScriptSlot env table name =
     (case FindScript env table name of
        Inl e \<Rightarrow> Inl e
      | Inr target \<Rightarrow> if tg_Index target < 0 then Unbound (''VScript '' @ quoted name @ '' is not virtual'') else Inr (tg_Index target))"

definition record_function :: "string \<Rightarrow> Location \<Rightarrow> scan_state \<Rightarrow> scan_state" where
  "record_function key l st = st\<lparr>ss_record := (ss_record st)\<lparr>rc_Functions := omap_emplace key l (rc_Functions (ss_record st))\<rparr>\<rparr>"

definition record_global :: "string \<Rightarrow> Location \<Rightarrow> scan_state \<Rightarrow> scan_state" where
  "record_global key l st = st\<lparr>ss_record := (ss_record st)\<lparr>rc_Globals := omap_emplace key l (rc_Globals (ss_record st))\<rparr>\<rparr>"

definition record_vtable :: "string \<Rightarrow> Slot \<Rightarrow> scan_state \<Rightarrow> scan_state" where
  "record_vtable key l st = st\<lparr>ss_record := (ss_record st)\<lparr>rc_VTables := omap_emplace key l (rc_VTables (ss_record st))\<rparr>\<rparr>"

definition record_offset :: "string \<Rightarrow> int \<Rightarrow> scan_state \<Rightarrow> scan_state" where
  "record_offset key v st = st\<lparr>ss_record := (ss_record st)\<lparr>rc_Offsets := omap_emplace key v (rc_Offsets (ss_record st))\<rparr>\<rparr>"

definition FindScriptFunction :: "gamedata_env \<Rightarrow> string \<Rightarrow> gd_Function \<Rightarrow> nat scan" where
  "FindScriptFunction env key entry =
     and_then (Module_of env (fn_Module entry)) (\<lambda>im.
     and_then (Table_of env (fn_Module entry) (fn_Class entry) []) (\<lambda>table.
     and_then (answer (FindScript env table (fn_Script entry))) (\<lambda>target st.
       if \<not> im_Contains im (tg_Address target)
       then (Unbound (''VScript '' @ quoted (fn_Script entry) @ '' is virtual or outside '' @ quoted (fn_Module entry)), st)
       else (Inr (tg_Address target), record_function key \<lparr>lo_Module = fn_Module entry, lo_Rva = Rva im (tg_Address target)\<rparr> st))))"

definition FindFunction :: "gamedata_env \<Rightarrow> string \<Rightarrow> gd_Function \<Rightarrow> nat scan" where
  "FindFunction env key entry =
     (if fn_Script entry \<noteq> [] then FindScriptFunction env key entry
      else case PlatformColumn (ge_Platform env) entry of
        None \<Rightarrow> answer (Unbound (''no '' @ PlatformName (ge_Platform env) @ '' pattern''))
      | Some pattern \<Rightarrow> and_then (Scan env (fn_Module entry) pattern) (\<lambda>(im, address) st.
          (Inr address, record_function key \<lparr>lo_Module = fn_Module entry, lo_Rva = Rva im address\<rparr> st)))"

definition pointer_size :: nat where "pointer_size = 8"

definition FindGlobal :: "gamedata_env \<Rightarrow> string \<Rightarrow> gd_Global \<Rightarrow> nat scan" where
  "FindGlobal env key entry =
     (case PlatformColumn (ge_Platform env) entry of
        None \<Rightarrow> answer (Unbound (''no '' @ PlatformName (ge_Platform env) @ '' pattern''))
      | Some column \<Rightarrow> and_then (Scan env (gl_Module entry) (gc_pattern column)) (\<lambda>(im, address) st.
          let target = unat (ResolveRelativeAddress (ge_Read32 env) (of_nat (im_Base im)) (of_nat (im_Size im)) (of_nat address) (gc_rel32At column)
                               (word_of_int Rel32Size))
          in if target = 0 \<or> \<not> im_Contains im target \<or> \<not> ge_Readable env target pointer_size
             then (Unbound (''the rel32 at +'' @ to_string_signed (gc_rel32At column) @ '' does not point at readable memory in '' @ quoted (gl_Module entry)), st)
             else (Inr target, record_global key \<lparr>lo_Module = gl_Module entry, lo_Rva = Rva im target\<rparr> st)))"

definition slot_code :: "gamedata_env \<Rightarrow> nat \<Rightarrow> int \<Rightarrow> nat" where
  "slot_code env table index = (if ge_Readable env (table + nat index * pointer_size) pointer_size then OriginalSlot env table index else 0)"

definition FindSlot :: "gamedata_env \<Rightarrow> string \<Rightarrow> gd_VTable \<Rightarrow> (int \<times> nat) scan" where
  "FindSlot env key entry =
     and_then (answer (if vt_Script entry = [] then ColumnValue env entry ''index'' else Inr (-1))) (\<lambda>column.
     and_then (Module_of env (vt_Module entry)) (\<lambda>im.
     and_then (Table_of env (vt_Module entry) (vt_Class entry) (vt_Base entry)) (\<lambda>table.
     and_then (answer (if vt_Script entry \<noteq> [] then ScriptSlot env table (vt_Script entry) else Inr column)) (\<lambda>index st.
       let code = slot_code env table index
       in if \<not> (code \<noteq> 0 \<and> ge_Executable env code)
          then (Unbound ((if vt_Base entry = [] then vt_Class entry else vt_Base entry) @ ''::['' @ to_string_int index @ ''] does not hold code''), st)
          else (Inr (index, table), record_vtable key \<lparr>so_Module = vt_Module entry, so_Table = Rva im table, so_Index = index,
                  so_Code = (if im_Contains im code then Rva im code else 0)\<rparr> st)))))"

definition FindBaseOffset :: "gamedata_env \<Rightarrow> gd_Offset \<Rightarrow> int scan" where
  "FindBaseOffset env entry =
     (if of_Class entry = [] then answer (Unbound (''base '' @ quoted (of_Base entry) @ '' names no class''))
      else and_then (Base_of env (of_Module entry) (of_Class entry) (of_Base entry)) (\<lambda>base. answer (Inr (bs_Offset base))))"

definition FindOffset :: "gamedata_env \<Rightarrow> string \<Rightarrow> gd_Offset \<Rightarrow> int scan" where
  "FindOffset env key entry =
     and_then (if of_Base entry = [] then answer (ColumnValue env entry ''offset'') else FindBaseOffset env entry) (\<lambda>offset st.
       (Inr offset, record_offset key offset st))"

section \<open>The scanner\<close>

type_synonym GameDataSection = "32 word"

definition SectionFunction :: GameDataSection where "SectionFunction = 1"
definition SectionGlobal :: GameDataSection where "SectionGlobal = 2"
definition SectionVTable :: GameDataSection where "SectionVTable = 4"
definition SectionOffset :: GameDataSection where "SectionOffset = 8"

record GameDataEntry =
  ey_Sections :: "string list"
  ey_Kind :: GameDataSection
  ey_Address :: nat
  ey_Value :: int
  ey_Reason :: string

definition new_entry :: GameDataEntry where
  "new_entry = \<lparr>ey_Sections = [], ey_Kind = 0, ey_Address = 0, ey_Value = -1, ey_Reason = []\<rparr>"

record GameDataScanner =
  gs_file :: GameDataDocument
  gs_entries :: "(string, GameDataEntry) omap"
  gs_failures :: "string list"
  gs_scan :: scan_state

definition index_key :: "GameDataSection \<Rightarrow> string \<Rightarrow> string \<Rightarrow> (string, GameDataEntry) omap \<Rightarrow> (string, GameDataEntry) omap" where
  "index_key kind name key entries =
     (let entry = (case map_of entries key of None \<Rightarrow> new_entry | Some e \<Rightarrow> e);
          sections = ey_Sections entry @ [name]
      in omap_assign key (entry\<lparr>ey_Sections := sections, ey_Kind := (if length sections = 1 then kind else 0)\<rparr>) entries)"

definition index_section :: "string list \<Rightarrow> GameDataSection \<Rightarrow> string \<Rightarrow> (string, GameDataEntry) omap \<Rightarrow> (string, GameDataEntry) omap" where
  "index_section keys kind name entries = fold (index_key kind name) keys entries"

definition failure_line :: "string \<Rightarrow> string \<Rightarrow> string" where
  "failure_line key reason = key @ '': '' @ reason"

fun fail_duplicates :: "(string, GameDataEntry) omap \<Rightarrow> (string, GameDataEntry) omap \<times> string list" where
  "fail_duplicates [] = ([], [])"
| "fail_duplicates ((key, entry) # rest) =
     (case fail_duplicates rest of
        (rest', failures) \<Rightarrow>
          if 1 < length (ey_Sections entry)
          then let reason = ''in both '' @ quoted (ey_Sections entry ! 0) @ '' and '' @ quoted (ey_Sections entry ! 1)
               in ((key, entry\<lparr>ey_Reason := reason\<rparr>) # rest', failure_line key reason # failures)
          else ((key, entry) # rest', failures))"

definition index_file :: "GameDataDocument \<Rightarrow> (string, GameDataEntry) omap" where
  "index_file doc =
     index_section (map fst (gd_offsets doc)) SectionOffset ''offsets''
       (index_section (map fst (gd_vtables doc)) SectionVTable ''vtables''
         (index_section (map fst (gd_globals doc)) SectionGlobal ''globals''
           (index_section (map fst (gd_functions doc)) SectionFunction ''functions'' [])))"

definition new_scanner :: "GameDataDocument \<Rightarrow> GameDataScanner" where
  "new_scanner doc = (case fail_duplicates (index_file doc) of
     (entries, failures) \<Rightarrow> \<lparr>gs_file = doc, gs_entries = entries, gs_failures = failures, gs_scan = fresh_scan\<rparr>)"

text \<open>\<^verbatim>\<open>map::at\<close> on a key the map lacks throws, which nothing here catches; no key of an indexed section is absent.\<close>

definition at_key :: "('a \<Rightarrow> 'b scan) \<Rightarrow> 'a option \<Rightarrow> 'b scan" where
  "at_key f entry = (case entry of None \<Rightarrow> answer (Inl (Error_Failed ''map::at'')) | Some e \<Rightarrow> f e)"

definition Locate :: "gamedata_env \<Rightarrow> GameDataDocument \<Rightarrow> GameDataSection \<Rightarrow> string \<Rightarrow> (nat \<times> int) scan" where
  "Locate env doc kind key =
     (if kind = SectionFunction then and_then (at_key (FindFunction env key) (map_of (gd_functions doc) key)) (\<lambda>a. answer (Inr (a, -1)))
      else if kind = SectionGlobal then and_then (at_key (FindGlobal env key) (map_of (gd_globals doc) key)) (\<lambda>a. answer (Inr (a, -1)))
      else if kind = SectionVTable then and_then (at_key (FindSlot env key) (map_of (gd_vtables doc) key)) (\<lambda>(index, table). answer (Inr (table, index)))
      else if kind = SectionOffset then and_then (at_key (FindOffset env key) (map_of (gd_offsets doc) key)) (\<lambda>v. answer (Inr (0, v)))
      else answer (Unbound ''in no section''))"

fun resolve_entries :: "gamedata_env \<Rightarrow> GameDataDocument \<Rightarrow> (string, GameDataEntry) omap \<Rightarrow> string list \<Rightarrow> scan_state
    \<Rightarrow> (string, GameDataEntry) omap \<times> string list \<times> scan_state" where
  "resolve_entries env doc [] failures st = ([], failures, st)"
| "resolve_entries env doc ((key, entry) # rest) failures st =
     (if ey_Reason entry \<noteq> []
      then (case resolve_entries env doc rest failures st of (rest', f, st') \<Rightarrow> ((key, entry) # rest', f, st'))
      else case Locate env doc (ey_Kind entry) key st of
        (Inr (address, v), st1) \<Rightarrow>
          (case resolve_entries env doc rest failures st1 of (rest', f, st') \<Rightarrow> ((key, entry\<lparr>ey_Address := address, ey_Value := v\<rparr>) # rest', f, st'))
      | (Inl e, st1) \<Rightarrow>
          (case resolve_entries env doc rest (failures @ [failure_line key (err_Detail e)]) st1 of
             (rest', f, st') \<Rightarrow> ((key, entry\<lparr>ey_Reason := err_Detail e\<rparr>) # rest', f, st')))"

definition ResolveAll :: "gamedata_env \<Rightarrow> GameDataScanner \<Rightarrow> GameDataScanner" where
  "ResolveAll env s =
     (case resolve_entries env (gs_file s) (gs_entries s) (gs_failures s) (gs_scan s) of
        (entries, failures, st) \<Rightarrow> s\<lparr>gs_entries := entries, gs_failures := failures, gs_scan := st\<rparr>)"

definition scanner_Find :: "GameDataScanner \<Rightarrow> string \<Rightarrow> GameDataEntry option" where
  "scanner_Find s key = map_of (gs_entries s) key"

section \<open>The table\<close>

record GameDataLocation =
  gx_Found :: bool
  gx_Address :: nat
  gx_Value :: int
  gx_Reason :: string

record GameDataTable =
  gt_scanner :: "GameDataScanner option"
  gt_reason :: string

text \<open>The record goes to its file once per build.\<close>

definition WriteGameDataRecord :: "GameDataRecord option \<Rightarrow> string \<Rightarrow> GameDataRecord \<Rightarrow> GameDataRecord option" where
  "WriteGameDataRecord existing build resolved =
     (case existing of Some r \<Rightarrow> if rc_Build r = build then None else Some (resolved\<lparr>rc_Build := build\<rparr>) | None \<Rightarrow> Some (resolved\<lparr>rc_Build := build\<rparr>))"

definition new_table :: "gamedata_env \<Rightarrow> GameDataDocument result \<Rightarrow> GameDataRecord option \<Rightarrow> string \<Rightarrow> GameDataTable \<times> GameDataRecord option" where
  "new_table env parsed existing build =
     (case parsed of
        Inl _ \<Rightarrow> (\<lparr>gt_scanner = None, gt_reason = []\<rparr>, None)
      | Inr doc \<Rightarrow>
          let s = ResolveAll env (new_scanner doc); t = \<lparr>gt_scanner = Some s, gt_reason = []\<rparr>
          in if gs_failures s \<noteq> [] then (t, None) else (t, WriteGameDataRecord existing build (ss_record (gs_scan s))))"

definition gt_Ready :: "GameDataTable \<Rightarrow> bool" where
  "gt_Ready t \<longleftrightarrow> gt_scanner t \<noteq> None"

definition NotBound :: "string \<Rightarrow> GameDataTable \<Rightarrow> GameDataLocation \<times> GameDataTable" where
  "NotBound reason t = (\<lparr>gx_Found = False, gx_Address = 0, gx_Value = -1, gx_Reason = reason\<rparr>, t\<lparr>gt_reason := reason\<rparr>)"

definition table_Lookup :: "GameDataSection \<Rightarrow> string \<Rightarrow> GameDataTable \<Rightarrow> GameDataLocation \<times> GameDataTable" where
  "table_Lookup sections key t =
     (case (case gt_scanner t of None \<Rightarrow> None | Some s \<Rightarrow> scanner_Find s key) of
        None \<Rightarrow> NotBound ''not in gamedata'' t
      | Some entry \<Rightarrow>
          if ey_Reason entry \<noteq> [] then NotBound (ey_Reason entry) t
          else if sections AND ey_Kind entry = 0 then NotBound (''in '' @ quoted (ey_Sections entry ! 0) @ '', which this member does not bind from'') t
          else (\<lparr>gx_Found = True, gx_Address = ey_Address entry, gx_Value = ey_Value entry, gx_Reason = []\<rparr>, t))"

section \<open>Bindings\<close>

datatype MemberType = MemberFn | MemberAddress | MemberVirtualFn | MemberOffset

datatype Member = BoundAddress nat | BoundSlot int nat | BoundOffset int

definition member_sections :: "MemberType \<Rightarrow> GameDataSection" where
  "member_sections t = (case t of MemberFn \<Rightarrow> SectionFunction | MemberAddress \<Rightarrow> SectionFunction OR SectionGlobal
     | MemberVirtualFn \<Rightarrow> SectionVTable | MemberOffset \<Rightarrow> SectionOffset)"

definition bind_member :: "MemberType \<Rightarrow> GameDataLocation \<Rightarrow> Member" where
  "bind_member t entry = (case t of MemberFn \<Rightarrow> BoundAddress (gx_Address entry) | MemberAddress \<Rightarrow> BoundAddress (gx_Address entry)
     | MemberVirtualFn \<Rightarrow> BoundSlot (gx_Value entry) (gx_Address entry) | MemberOffset \<Rightarrow> BoundOffset (gx_Value entry))"

text \<open>The \<^verbatim>\<open>operator bool\<close> of each member type.\<close>

fun usable :: "Member \<Rightarrow> bool" where
  "usable (BoundAddress a) \<longleftrightarrow> a \<noteq> 0"
| "usable (BoundSlot index table) \<longleftrightarrow> 0 \<le> index \<and> table \<noteq> 0"
| "usable (BoundOffset v) \<longleftrightarrow> 0 \<le> v"

definition binding_table :: "(string \<times> MemberType \<times> string) list" where
  "binding_table = [
     (''CreateEntityByName'', MemberFn, ''CreateEntityByName''),
     (''DispatchSpawn'', MemberFn, ''DispatchSpawn''),
     (''AcceptInput'', MemberFn, ''CEntityInstance::AcceptInput''),
     (''AddEntityIOEvent'', MemberFn, ''CEntitySystem::AddEntityIOEvent''),
     (''SetModel'', MemberFn, ''CBaseModelEntity::SetModel''),
     (''EmitSoundParams'', MemberFn, ''CBaseEntity::EmitSoundParams''),
     (''StopSound'', MemberFn, ''CBaseEntity::StopSound''),
     (''EmitSoundFilter'', MemberAddress, ''CBaseEntity::EmitSoundFilter''),
     (''LegacyGameEventListener'', MemberAddress, ''GetLegacyGameEventListener''),
     (''TakeDamage'', MemberFn, ''CBaseEntity::TakeDamageOld''),
     (''BuildDamageInfo'', MemberFn, ''CTakeDamageInfo::CTakeDamageInfo''),
     (''TerminateRound'', MemberFn, ''CCSGameRules::TerminateRound''),
     (''DropWeapon'', MemberFn, ''CCSPlayer_WeaponServices::DropWeapon''),
     (''CustomHudSetHasClass'', MemberFn, ''CCSCustomHudLayout::SetHasClass''),
     (''CustomHudSetHasClassForPlayer'', MemberFn, ''CCSCustomHudLayout::SetHasClassForPlayer''),
     (''CustomHudSetDialogVariable'', MemberFn, ''CCSCustomHudLayout::SetDialogVariableString''),
     (''CustomHudSetDialogVariableForPlayer'', MemberFn, ''CCSCustomHudLayout::SetDialogVariableStringForPlayer''),
     (''CustomHudSetInputCapture'', MemberFn, ''CCSCustomHudLayout::SetInputCaptureEnabled''),
     (''FilterMessage'', MemberVirtualFn, ''INetworkMessageProcessingPreFilter::FilterMessage''),
     (''ReplyConnection'', MemberFn, ''CNetworkGameServer::ReplyConnection''),
     (''GameEventManager'', MemberAddress, ''CSource2Server::g_GameEventManager''),
     (''CommitSuicide'', MemberVirtualFn, ''CBasePlayerPawn::CommitSuicide''),
     (''ChangeTeam'', MemberVirtualFn, ''CCSPlayerController::ChangeTeam''),
     (''Respawn'', MemberVirtualFn, ''CCSPlayerController::Respawn''),
     (''Teleport'', MemberVirtualFn, ''CBaseEntity::Teleport''),
     (''NavTraceLine'', MemberVirtualFn, ''CNavPhysicsInterface::Nav_TraceLine''),
     (''NavTraceShape'', MemberVirtualFn, ''CNavPhysicsInterface::Nav_TraceShape''),
     (''GiveNamedItem'', MemberVirtualFn, ''CCSPlayer_ItemServices::GiveNamedItem''),
     (''RemoveAllItems'', MemberVirtualFn, ''CCSPlayer_ItemServices::RemoveAllItems''),
     (''SelectItem'', MemberVirtualFn, ''CCSPlayer_WeaponServices::SelectItem''),
     (''RunCommand'', MemberVirtualFn, ''CPlayer_MovementServices::RunCommand''),
     (''ProcessRespondCvarValue'', MemberVirtualFn, ''CServerSideClient::ProcessRespondCvarValue''),
     (''SendNetMessage'', MemberVirtualFn, ''CServerSideClient::SendNetMessage''),
     (''GameEntitySystem'', MemberOffset, ''GameEntitySystem''),
     (''VisibilityRecipientSlot'', MemberOffset, ''CheckTransmitPlayerSlot''),
     (''ClientSlot'', MemberOffset, ''CServerSideClientBase::m_nClientSlot''),
     (''ClientMessageFilter'', MemberOffset, ''CServerSideClient::INetworkMessageProcessingPreFilter''),
     (''ClientSteamId'', MemberOffset, ''CServerSideClientBase::m_SteamID''),
     (''ServerAddons'', MemberOffset, ''CNetworkGameServer::m_szAddons''),
     (''UserCmdProto'', MemberOffset, ''CUserCmd::CSGOUserCmdPB''),
     (''UserCmdNumber'', MemberOffset, ''CUserCmdBase::cmdNum'')]"

definition Look :: "(GameDataSection \<Rightarrow> string \<Rightarrow> GameDataLocation) \<Rightarrow> GameDataSection \<Rightarrow> string \<Rightarrow> string list \<Rightarrow> GameDataLocation \<times> string list" where
  "Look lookup sections key failures =
     (let entry = lookup sections key in (entry, if gx_Found entry then failures else failures @ [failure_line key (gx_Reason entry)]))"

fun bind_all :: "(GameDataSection \<Rightarrow> string \<Rightarrow> GameDataLocation) \<Rightarrow> (string \<times> MemberType \<times> string) list \<Rightarrow> string list \<Rightarrow> (string \<times> Member) list \<times> string list" where
  "bind_all lookup [] failures = ([], failures)"
| "bind_all lookup ((member, t, key) # rest) failures =
     (case Look lookup (member_sections t) key failures of
        (entry, failures1) \<Rightarrow> (case bind_all lookup rest failures1 of (bound, f) \<Rightarrow> ((member, bind_member t entry) # bound, f)))"

definition Bindings_Bind :: "(GameDataSection \<Rightarrow> string \<Rightarrow> GameDataLocation) \<Rightarrow> status \<times> (string \<times> Member) list \<times> string list" where
  "Bindings_Bind lookup =
     (case bind_all lookup binding_table [] of
        (bound, failures) \<Rightarrow>
          (if failures \<noteq> [] then Inl (Error_Engine (to_string (length failures) @ '' did not bind: '' @ Join failures ''; '')) else Inr (), bound, failures))"

section \<open>What is learned on the way changes no answer\<close>

definition sane :: "gamedata_env \<Rightarrow> scan_state \<Rightarrow> bool" where
  "sane env st \<longleftrightarrow>
     (\<forall>m im. ms_modules (ss_symbols st) m = Some im \<longrightarrow> im = ge_Image env m) \<and>
     (\<forall>m c t. ms_tables (ss_symbols st) (m, c) = Some t \<longrightarrow> t = ge_VirtualTable env m c) \<and>
     (\<forall>m c b r. ms_bases (ss_symbols st) (m, c, b) = Some r \<longrightarrow> r = ge_BaseIn env m c b) \<and>
     (\<forall>base counts v. ss_histograms st base = Some counts \<longrightarrow> counts v < SIZE_MAX)"

text \<open>Modules fit into the address space.\<close>

definition modules_fit :: "gamedata_env \<Rightarrow> bool" where
  "modules_fit env \<longleftrightarrow> (\<forall>m im. ge_Image env m = Some im \<longrightarrow> sum_list (map (\<lambda>rng. length (sr_Bytes rng)) (im_Ranges im)) < SIZE_MAX)"

text \<open>Lookups the process answers say why when they fail.\<close>

definition explained :: "'a result \<Rightarrow> bool" where
  "explained r \<longleftrightarrow> (\<forall>e. r = Inl e \<longrightarrow> err_Detail e \<noteq> [])"

definition lookups_explain :: "gamedata_env \<Rightarrow> bool" where
  "lookups_explain env \<longleftrightarrow> (\<forall>m c b. explained (ge_BaseIn env m c b)) \<and> (\<forall>f table name. ge_ScriptOf env = Some f \<longrightarrow> explained (f table name))"

text \<open>A lookup that answers the same whatever was learned before it, keeps what is learned right, and explains its failures.\<close>

definition stable :: "gamedata_env \<Rightarrow> 'a scan \<Rightarrow> bool" where
  "stable env c \<longleftrightarrow> (\<forall>st. sane env st \<longrightarrow> sane env (snd (c st)) \<and> fst (c st) = fst (c fresh_scan) \<and> explained (fst (c st)))"

named_theorems stable_intros

lemma sane_fresh: "sane env fresh_scan"
  by (simp add: sane_def fresh_scan_def)

lemma stableD: "stable env c \<Longrightarrow> sane env st \<Longrightarrow> sane env (snd (c st)) \<and> fst (c st) = fst (c fresh_scan) \<and> explained (fst (c st))"
  unfolding stable_def by blast

lemma explained_simps [simp]: "explained (Inr a)" "explained (Unbound reason) \<longleftrightarrow> reason \<noteq> []" "explained (Inl e) \<longleftrightarrow> err_Detail e \<noteq> []"
  by (simp_all add: explained_def Unbound_def Error_NotFound_def)

lemma stable_answer [stable_intros]: "explained r \<Longrightarrow> stable env (answer r)"
  by (simp add: stable_def answer_def)

lemma stable_and_then [stable_intros]:
  assumes "stable env c" "\<And>a. stable env (f a)"
  shows "stable env (and_then c f)"
  unfolding stable_def
proof (intro allI impI)
  fix st assume st: "sane env st"
  have c: "sane env (snd (c st))" "fst (c st) = fst (c fresh_scan)" "sane env (snd (c fresh_scan))" "explained (fst (c st))"
    using stableD[OF assms(1)] st sane_fresh by blast+
  show "sane env (snd (and_then c f st)) \<and> fst (and_then c f st) = fst (and_then c f fresh_scan) \<and> explained (fst (and_then c f st))"
  proof (cases "fst (c st)")
    case (Inl e)
    then show ?thesis using c by (auto simp: and_then_def split: prod.split sum.split)
  next
    case (Inr a)
    then show ?thesis using c stableD[OF assms(2)[of a], OF c(1)] stableD[OF assms(2)[of a], OF c(3)]
      by (auto simp: and_then_def split: prod.split sum.split)
  qed
qed

lemma stable_if [stable_intros]: "stable env c \<Longrightarrow> stable env d \<Longrightarrow> stable env (if b then c else d)"
  by simp

lemma stable_option [stable_intros]: "stable env c \<Longrightarrow> (\<And>a. stable env (f a)) \<Longrightarrow> stable env (case x of None \<Rightarrow> c | Some a \<Rightarrow> f a)"
  by (simp split: option.split)

lemma stable_at_key [stable_intros]: "(\<And>a. stable env (f a)) \<Longrightarrow> stable env (at_key f x)"
  unfolding at_key_def by (intro stable_intros) (simp add: Error_Failed_def)

lemma stable_prod [stable_intros]: "(\<And>a b. stable env (f a b)) \<Longrightarrow> stable env (case x of (a, b) \<Rightarrow> f a b)"
  by (simp split: prod.split)

lemma sane_record: "sane env (st\<lparr>ss_record := r\<rparr>) \<longleftrightarrow> sane env st"
  by (simp add: sane_def)

lemma stable_recorded [stable_intros]:
  "(\<And>st. sane env (g st) = sane env st) \<Longrightarrow> stable env (\<lambda>st. (Inr x, g st))"
  "(\<And>st. sane env (g st) = sane env st) \<Longrightarrow> explained e \<Longrightarrow> stable env (\<lambda>st. if b then (e, st) else (Inr x, g st))"
  by (simp_all add: stable_def)

lemmas record_defs = record_function_def record_global_def record_vtable_def record_offset_def

lemma stable_Module [stable_intros]: "stable env (Module_of env m)"
  unfolding stable_def
proof (intro allI impI)
  fix st assume "sane env st"
  then show "sane env (snd (Module_of env m st)) \<and> fst (Module_of env m st) = fst (Module_of env m fresh_scan) \<and> explained (fst (Module_of env m st))"
    by (cases "ms_modules (ss_symbols st) m"; cases "ge_Image env m") (auto simp: Module_of_def fresh_scan_def sane_def upd_symbols_def)
qed

lemma stable_Base [stable_intros]:
  assumes "lookups_explain env"
  shows "stable env (Base_of env m c b)"
  unfolding Base_of_def
proof (intro stable_intros)
  have "explained (ge_BaseIn env m c b)" using assms by (simp add: lookups_explain_def)
  then show "stable env (\<lambda>st. case ms_bases (ss_symbols st) (m, c, b) of None \<Rightarrow> (ge_BaseIn env m c b,
      upd_symbols (\<lambda>ms. ms\<lparr>ms_bases := (ms_bases ms)((m, c, b) \<mapsto> ge_BaseIn env m c b)\<rparr>) st) | Some r \<Rightarrow> (r, st))"
    unfolding stable_def by (auto simp: fresh_scan_def sane_def upd_symbols_def split: option.split)
qed

lemma stable_primary_table [stable_intros]: "stable env (primary_table env m c)"
  unfolding stable_def
proof (intro allI impI)
  fix st assume "sane env st"
  then show "sane env (snd (primary_table env m c st)) \<and> fst (primary_table env m c st) = fst (primary_table env m c fresh_scan) \<and>
      explained (fst (primary_table env m c st))"
    by (cases "ms_tables (ss_symbols st) (m, c)") (auto simp: primary_table_def fresh_scan_def sane_def upd_symbols_def)
qed

lemma stable_Table [stable_intros]: "lookups_explain env \<Longrightarrow> stable env (Table_of env m c b)"
  unfolding Table_of_def by (intro stable_intros) (simp_all add: quoted_def)

lemma FindPatternEx_cache:
  assumes "\<forall>base counts v. cache base = Some counts \<longrightarrow> counts v < SIZE_MAX" "sum_list (map (\<lambda>rng. length (sr_Bytes rng)) ranges) < SIZE_MAX"
  shows "fst (FindPatternEx (Some (base, ranges)) pattern cache) = fst (FindPatternEx (Some (base, ranges)) pattern (\<lambda>_. None))"
    and "\<forall>base' counts v. snd (FindPatternEx (Some (base, ranges)) pattern cache) base' = Some counts \<longrightarrow> counts v < SIZE_MAX"
proof -
  show "fst (FindPatternEx (Some (base, ranges)) pattern cache) = fst (FindPatternEx (Some (base, ranges)) pattern (\<lambda>_. None))"
    using FindPatternEx_scan[of cache base ranges pattern] FindPatternEx_scan[of "\<lambda>_. None" base ranges pattern] assms by simp
  have "fold (\<lambda>rng. CountBytes (sr_Bytes rng)) ranges (\<lambda>_. 0) v < SIZE_MAX" for v
    using fold_CountBytes_bound[of ranges "\<lambda>_. 0" v] assms(2) by simp
  then show "\<forall>base' counts v. snd (FindPatternEx (Some (base, ranges)) pattern cache) base' = Some counts \<longrightarrow> counts v < SIZE_MAX"
    using assms(1) by (auto simp: FindPatternEx_def FrequenciesOf_def Let_def split: option.split)
qed

lemma sane_histograms: "sane env st \<Longrightarrow> \<forall>base counts v. cache base = Some counts \<longrightarrow> counts v < SIZE_MAX \<Longrightarrow> sane env (st\<lparr>ss_histograms := cache\<rparr>)"
  by (simp add: sane_def)

lemma stable_Scan [stable_intros]:
  assumes "modules_fit env"
  shows "stable env (Scan env m pattern)"
  unfolding stable_def
proof (intro allI impI)
  fix st assume st: "sane env st"
  show "sane env (snd (Scan env m pattern st)) \<and> fst (Scan env m pattern st) = fst (Scan env m pattern fresh_scan) \<and> explained (fst (Scan env m pattern st))"
  proof (cases "ge_Image env m")
    case None
    then show ?thesis using st by (simp add: Scan_def FindPatternEx_def sane_def)
  next
    case (Some im)
    have fit: "sum_list (map (\<lambda>rng. length (sr_Bytes rng)) (im_Ranges im)) < SIZE_MAX" using assms Some by (simp add: modules_fit_def)
    have "\<forall>base counts v. ss_histograms st base = Some counts \<longrightarrow> counts v < SIZE_MAX" using st by (simp add: sane_def)
    note f = FindPatternEx_cache[OF this fit, of "im_Base im" pattern]
    obtain r cache where r: "FindPatternEx (Some (im_Base im, im_Ranges im)) pattern (ss_histograms st) = (r, cache)" by fastforce
    obtain r' cache' where r': "FindPatternEx (Some (im_Base im, im_Ranges im)) pattern (\<lambda>_. None) = (r', cache')" by fastforce
    have "r = r'" using f(1) r r' by simp
    moreover have "sane env (st\<lparr>ss_histograms := cache\<rparr>)" using f(2) r by (intro sane_histograms[OF st]) simp
    ultimately show ?thesis using st Some r r' by (cases "sc_Address r'") (auto simp: Scan_def Let_def fresh_scan_def)
  qed
qed

lemma explained_column: "what \<noteq> [] \<Longrightarrow> explained (ColumnValue env entry what)"
  by (simp add: ColumnValue_def split: option.split)

lemma explained_script: "lookups_explain env \<Longrightarrow> explained (FindScript env table name)"
  by (auto simp: FindScript_def lookups_explain_def split: option.split)

lemma explained_script_slot: "lookups_explain env \<Longrightarrow> explained (ScriptSlot env table name)"
  using explained_script[of env table name] by (auto simp: ScriptSlot_def split: sum.split)

lemma stable_Locate: "modules_fit env \<Longrightarrow> lookups_explain env \<Longrightarrow> stable env (Locate env doc kind key)"
  unfolding Locate_def FindFunction_def FindScriptFunction_def FindGlobal_def FindSlot_def FindOffset_def FindBaseOffset_def Let_def
  by (intro stable_intros) (simp_all add: record_defs sane_record explained_column explained_script explained_script_slot)

section \<open>Every key by itself\<close>

definition doc_ok :: "GameDataDocument \<Rightarrow> bool" where
  "doc_ok doc \<longleftrightarrow> omap_ok (gd_functions doc) \<and> omap_ok (gd_globals doc) \<and> omap_ok (gd_vtables doc) \<and> omap_ok (gd_offsets doc)"

text \<open>The sections that hold a key, in the order they are indexed.\<close>

definition sections_of :: "GameDataDocument \<Rightarrow> string \<Rightarrow> (GameDataSection \<times> string) list" where
  "sections_of doc key =
     (if key \<in> fst ` set (gd_functions doc) then [(SectionFunction, ''functions'')] else []) @
     (if key \<in> fst ` set (gd_globals doc) then [(SectionGlobal, ''globals'')] else []) @
     (if key \<in> fst ` set (gd_vtables doc) then [(SectionVTable, ''vtables'')] else []) @
     (if key \<in> fst ` set (gd_offsets doc) then [(SectionOffset, ''offsets'')] else [])"

definition entry_of :: "(GameDataSection \<times> string) list \<Rightarrow> GameDataEntry option" where
  "entry_of secs = (if secs = [] then None else Some (new_entry\<lparr>ey_Sections := map snd secs, ey_Kind := (if length secs = 1 then fst (hd secs) else 0)\<rparr>))"

lemma index_section_spec:
  assumes "omap_ok entries" "distinct keys" "\<forall>k. map_of entries k = entry_of (secs k)"
  shows "omap_ok (index_section keys kind name entries)"
    and "map_of (index_section keys kind name entries) k = entry_of (secs k @ (if k \<in> set keys then [(kind, name)] else []))"
proof -
  have "omap_ok (fold (index_key kind name) keys entries) \<and>
      (\<forall>k. map_of (fold (index_key kind name) keys entries) k = entry_of (secs k @ (if k \<in> set keys then [(kind, name)] else [])))"
    using assms
  proof (induction keys arbitrary: entries secs)
    case (Cons key keys)
    let ?secs = "\<lambda>k. secs k @ (if k = key then [(kind, name)] else [])"
    have "\<forall>k. map_of (index_key kind name key entries) k = entry_of (?secs k)"
      using Cons.prems by (auto simp: index_key_def Let_def entry_of_def new_entry_def)
    moreover have "omap_ok (index_key kind name key entries)" using Cons.prems by (simp add: index_key_def Let_def)
    moreover have "?secs k @ (if k \<in> set keys then [(kind, name)] else []) = secs k @ (if k \<in> set (key # keys) then [(kind, name)] else [])" for k
      using Cons.prems(2) by auto
    ultimately show ?case using Cons.IH[of "index_key kind name key entries" ?secs] Cons.prems(2) by simp
  qed simp
  then show "omap_ok (index_section keys kind name entries)"
    "map_of (index_section keys kind name entries) k = entry_of (secs k @ (if k \<in> set keys then [(kind, name)] else []))"
    by (simp_all add: index_section_def)
qed

lemma index_file_spec:
  assumes "doc_ok doc"
  shows "omap_ok (index_file doc)" "map_of (index_file doc) key = entry_of (sections_of doc key)"
proof -
  have d: "distinct (map fst (gd_functions doc))" "distinct (map fst (gd_globals doc))" "distinct (map fst (gd_vtables doc))" "distinct (map fst (gd_offsets doc))"
    using assms by (simp_all add: doc_ok_def omap_ok_distinct)
  have start: "\<forall>k. map_of ([] :: (string, GameDataEntry) omap) k = entry_of ((\<lambda>_. []) k)" by (simp add: entry_of_def)
  note f = index_section_spec[OF omap_ok_Nil d(1) start, of SectionFunction "''functions''"]
  note g = index_section_spec[OF f(1) d(2) allI[OF f(2)], of SectionGlobal "''globals''"]
  note v = index_section_spec[OF g(1) d(3) allI[OF g(2)], of SectionVTable "''vtables''"]
  note o = index_section_spec[OF v(1) d(4) allI[OF v(2)], of SectionOffset "''offsets''"]
  show "omap_ok (index_file doc)" unfolding index_file_def by (rule o(1))
  show "map_of (index_file doc) key = entry_of (sections_of doc key)" unfolding index_file_def o(2) sections_of_def by simp
qed

definition mark :: "GameDataEntry \<Rightarrow> GameDataEntry" where
  "mark entry = (if 1 < length (ey_Sections entry)
     then entry\<lparr>ey_Reason := ''in both '' @ quoted (ey_Sections entry ! 0) @ '' and '' @ quoted (ey_Sections entry ! 1)\<rparr> else entry)"

lemma fail_duplicates_spec:
  "fail_duplicates es = (map (\<lambda>(k, e). (k, mark e)) es, map (\<lambda>(k, e). failure_line k (ey_Reason (mark e))) (filter (\<lambda>(k, e). 1 < length (ey_Sections e)) es))"
  by (induction es rule: fail_duplicates.induct) (auto simp: mark_def Let_def)

text \<open>What resolving makes of an entry, looking at nothing else.\<close>

definition settle_entry :: "gamedata_env \<Rightarrow> GameDataDocument \<Rightarrow> string \<Rightarrow> GameDataEntry \<Rightarrow> GameDataEntry" where
  "settle_entry env doc key entry =
     (if ey_Reason entry \<noteq> [] then entry
      else case fst (Locate env doc (ey_Kind entry) key fresh_scan) of
        Inl e \<Rightarrow> entry\<lparr>ey_Reason := err_Detail e\<rparr>
      | Inr (address, v) \<Rightarrow> entry\<lparr>ey_Address := address, ey_Value := v\<rparr>)"

lemma resolve_entries_spec:
  assumes "modules_fit env" "lookups_explain env" "sane env st"
  shows "fst (resolve_entries env doc es failures st) = map (\<lambda>(k, e). (k, settle_entry env doc k e)) es"
    and "fst (snd (resolve_entries env doc es failures st)) =
      failures @ map (\<lambda>(k, e). failure_line k (ey_Reason (settle_entry env doc k e))) (filter (\<lambda>(k, e). ey_Reason e = [] \<and> ey_Reason (settle_entry env doc k e) \<noteq> []) es)"
proof -
  have "fst (resolve_entries env doc es failures st) = map (\<lambda>(k, e). (k, settle_entry env doc k e)) es \<and>
    fst (snd (resolve_entries env doc es failures st)) =
      failures @ map (\<lambda>(k, e). failure_line k (ey_Reason (settle_entry env doc k e))) (filter (\<lambda>(k, e). ey_Reason e = [] \<and> ey_Reason (settle_entry env doc k e) \<noteq> []) es)"
    using assms(3)
  proof (induction es arbitrary: failures st)
    case (Cons ke rest)
    obtain key entry where ke: "ke = (key, entry)" by fastforce
    show ?case
    proof (cases "ey_Reason entry = []")
      case True
      obtain r st1 where l: "Locate env doc (ey_Kind entry) key st = (r, st1)" by fastforce
      have st1: "sane env st1" "r = fst (Locate env doc (ey_Kind entry) key fresh_scan)" "explained r"
        using stableD[OF stable_Locate[OF assms(1,2), of doc "ey_Kind entry" key] Cons.prems] l by auto
      show ?thesis
      proof (cases r)
        case (Inl e)
        then have "settle_entry env doc key entry = entry\<lparr>ey_Reason := err_Detail e\<rparr>" using True st1(2) by (simp add: settle_entry_def)
        then show ?thesis using Cons.IH[OF st1(1), of "failures @ [failure_line key (err_Detail e)]"] ke True l Inl st1(3)
          by (auto split: prod.split)
      next
        case (Inr av)
        obtain address v where av: "av = (address, v)" by fastforce
        have "settle_entry env doc key entry = entry\<lparr>ey_Address := address, ey_Value := v\<rparr>" using True st1(2) Inr av by (metis (no_types, lifting) old.prod.case settle_entry_def sum.case(2))
        then show ?thesis using Cons.IH[OF st1(1), of failures] ke True l Inr av by (auto split: prod.split)
      qed
    next
      case False
      then show ?thesis using Cons.IH[OF Cons.prems, of failures] ke by (auto simp: settle_entry_def split: prod.split)
    qed
  qed simp
  then show "fst (resolve_entries env doc es failures st) = map (\<lambda>(k, e). (k, settle_entry env doc k e)) es"
    "fst (snd (resolve_entries env doc es failures st)) =
      failures @ map (\<lambda>(k, e). failure_line k (ey_Reason (settle_entry env doc k e))) (filter (\<lambda>(k, e). ey_Reason e = [] \<and> ey_Reason (settle_entry env doc k e) \<noteq> []) es)"
    by blast+
qed

text \<open>What a lookup of a key says, from the key's own entry alone.\<close>

definition unbound :: "string \<Rightarrow> GameDataLocation" where
  "unbound reason = \<lparr>gx_Found = False, gx_Address = 0, gx_Value = -1, gx_Reason = reason\<rparr>"

definition key_location :: "gamedata_env \<Rightarrow> GameDataDocument \<Rightarrow> GameDataSection \<Rightarrow> string \<Rightarrow> GameDataLocation" where
  "key_location env doc admitted key =
     (case sections_of doc key of
        [] \<Rightarrow> unbound ''not in gamedata''
      | [(kind, name)] \<Rightarrow>
          (case fst (Locate env doc kind key fresh_scan) of
             Inl e \<Rightarrow> unbound (err_Detail e)
           | Inr (address, v) \<Rightarrow>
               if admitted AND kind = 0 then unbound (''in '' @ quoted name @ '', which this member does not bind from'')
               else \<lparr>gx_Found = True, gx_Address = address, gx_Value = v, gx_Reason = []\<rparr>)
      | (_, first) # (_, second) # _ \<Rightarrow> unbound (''in both '' @ quoted first @ '' and '' @ quoted second))"

definition key_binds :: "gamedata_env \<Rightarrow> GameDataDocument \<Rightarrow> string \<Rightarrow> bool" where
  "key_binds env doc key \<longleftrightarrow> (\<exists>kind name b. sections_of doc key = [(kind, name)] \<and> fst (Locate env doc kind key fresh_scan) = Inr b)"

lemma map_of_map_entries: "map_of (map (\<lambda>(k, e). (k, f k e)) es) key = map_option (f key) (map_of es key)"
  by (induction es) auto

lemma resolved_entry:
  assumes "modules_fit env" "lookups_explain env" "doc_ok doc"
  shows "scanner_Find (ResolveAll env (new_scanner doc)) key = map_option (\<lambda>e. settle_entry env doc key (mark e)) (entry_of (sections_of doc key))"
    and "gs_failures (ResolveAll env (new_scanner doc)) = [] \<longleftrightarrow>
      (\<forall>key e. entry_of (sections_of doc key) = Some e \<longrightarrow> ey_Reason (settle_entry env doc key (mark e)) = [])"
proof -
  let ?es = "map (\<lambda>(k, e). (k, mark e)) (index_file doc)"
  obtain es failures st where r: "resolve_entries env doc ?es (snd (fail_duplicates (index_file doc))) fresh_scan = (es, failures, st)" by (metis prod_cases3)
  note spec = resolve_entries_spec[OF assms(1,2) sane_fresh, of doc ?es "snd (fail_duplicates (index_file doc))", unfolded r]
  have s: "ResolveAll env (new_scanner doc) = \<lparr>gs_file = doc, gs_entries = es, gs_failures = failures, gs_scan = st\<rparr>"
    using r by (simp add: ResolveAll_def new_scanner_def fail_duplicates_spec)
  show "scanner_Find (ResolveAll env (new_scanner doc)) key = map_option (\<lambda>e. settle_entry env doc key (mark e)) (entry_of (sections_of doc key))"
  proof -
    have "es = map (\<lambda>(k, e). (k, settle_entry env doc k (mark e))) (index_file doc)" using spec(1) by (simp add: case_prod_beta comp_def)
    then show ?thesis by (simp add: s scanner_Find_def map_of_map_entries index_file_spec(2)[OF assms(3)])
  qed
  have dup: "ey_Reason (mark e) \<noteq> []" if "1 < length (ey_Sections e)" for e using that by (simp add: mark_def)
  have sett: "ey_Reason (settle_entry env doc k e) \<noteq> []" if "ey_Reason e \<noteq> []" for k e using that by (simp add: settle_entry_def)
  have one: "1 < length (ey_Sections e) \<longleftrightarrow> ey_Reason (mark e) \<noteq> []" if "(k, e) \<in> set (index_file doc)" for k e
  proof -
    have "entry_of (sections_of doc k) = Some e" using omap_ok_value[OF index_file_spec(1)[OF assms(3)] that] index_file_spec(2)[OF assms(3)] by simp
    then have "ey_Reason e = []" by (auto simp: entry_of_def new_entry_def split: if_split_asm)
    then show ?thesis using dup by (auto simp: mark_def)
  qed
  have dups: "snd (fail_duplicates (index_file doc)) = [] \<longleftrightarrow> (\<forall>(k, e)\<in>set (index_file doc). ey_Reason (mark e) = [])"
    using one by (auto simp: fail_duplicates_spec filter_empty_conv)
  have "failures = [] \<longleftrightarrow> (\<forall>(k, e)\<in>set (index_file doc). ey_Reason (mark e) = []) \<and>
      (\<forall>(k, e)\<in>set (index_file doc). ey_Reason (mark e) = [] \<longrightarrow> ey_Reason (settle_entry env doc k (mark e)) = [])"
    using spec(2) dups by (simp add: filter_empty_conv case_prod_beta)
  also have "\<dots> \<longleftrightarrow> (\<forall>(k, e)\<in>set (index_file doc). ey_Reason (settle_entry env doc k (mark e)) = [])"
    using sett by blast
  also have "\<dots> \<longleftrightarrow> (\<forall>key e. map_of (index_file doc) key = Some e \<longrightarrow> ey_Reason (settle_entry env doc key (mark e)) = [])"
    unfolding map_of_eq_Some_iff[OF omap_ok_distinct[OF index_file_spec(1)[OF assms(3)]]] by blast
  finally show "gs_failures (ResolveAll env (new_scanner doc)) = [] \<longleftrightarrow>
      (\<forall>key e. entry_of (sections_of doc key) = Some e \<longrightarrow> ey_Reason (settle_entry env doc key (mark e)) = [])"
    by (simp add: s index_file_spec(2)[OF assms(3)])
qed

lemma settled_binds:
  assumes "modules_fit env" "lookups_explain env" "entry_of (sections_of doc key) = Some e"
  shows "ey_Reason (settle_entry env doc key (mark e)) = [] \<longleftrightarrow> key_binds env doc key"
proof -
  consider kind name where "sections_of doc key = [(kind, name)]" | a b c where "sections_of doc key = a # b # c"
    using assms(3) by (metis entry_of_def list.exhaust option.distinct(1) surj_pair)
  then show ?thesis
  proof cases
    case (1 kind name)
    have x: "explained (fst (Locate env doc kind key fresh_scan))" using stableD[OF stable_Locate[OF assms(1,2)] sane_fresh] by blast
    show ?thesis using 1 assms(3) x
      by (auto simp: entry_of_def new_entry_def mark_def settle_entry_def key_binds_def split: sum.split)
  next
    case (2 a b c)
    then show ?thesis using assms(3) by (auto simp: entry_of_def mark_def settle_entry_def key_binds_def)
  qed
qed


definition example_gamedata_env :: gamedata_env where
  "example_gamedata_env = \<lparr>ge_Platform = PlatformLinux,
     ge_Image = (\<lambda>m. if m = ''server'' then Some \<lparr>im_Base = 4096, im_Size = 8192, im_Ranges = example_scan\<rparr> else None), ge_Read32 = (\<lambda>_. 0), ge_Readable = (\<lambda>_ _. True),
     ge_Executable = (\<lambda>_. True), ge_VirtualTable = (\<lambda>_ _. 0), ge_BaseIn = (\<lambda>_ _ _. Unbound ''no RTTI''), ge_Slot = (\<lambda>_ _. 0), ge_OriginalOf = None, ge_ScriptOf = None\<rparr>"

definition example_document :: GameDataDocument where
  "example_document = \<lparr>
     gd_functions = [(''Spawn'', \<lparr>pe_Windows = None, pe_Linux = Some ''48 ? 05'', fn_Module = ''server'', fn_Class = [], fn_Script = []\<rparr>)],
     gd_globals = [], gd_vtables = [],
     gd_offsets = [(''Slot'', \<lparr>pe_Windows = None, pe_Linux = Some 24, of_Class = [], of_Base = [], of_Module = ''server''\<rparr>)]\<rparr>"


section \<open>Binding every member\<close>

lemma bind_all_spec:
  "bind_all lookup table failures =
     (map (\<lambda>(member, t, key). (member, bind_member t (lookup (member_sections t) key))) table,
      failures @ map (\<lambda>(member, t, key). failure_line key (gx_Reason (lookup (member_sections t) key))) (filter (\<lambda>(member, t, key). \<not> gx_Found (lookup (member_sections t) key)) table))"
  by (induction lookup table failures rule: bind_all.induct) (auto simp: Look_def Let_def)

text \<open>
  Binding takes every member from its own key and fails exactly when some key was not found, listing those in order; a member that was found
  with an address (and a slot or offset that is not negative) is usable.
\<close>

theorem Bind_every_member:
  "let (status, bound, failures) = Bindings_Bind lookup
   in map fst bound = map fst binding_table \<and> distinct (map fst bound) \<and>
      (status = Inr () \<longleftrightarrow> (\<forall>(member, t, key)\<in>set binding_table. gx_Found (lookup (member_sections t) key))) \<and>
      (\<forall>(member, t, key)\<in>set binding_table. map_of bound member = Some (bind_member t (lookup (member_sections t) key)))"
proof -
  define bound where "bound = map (\<lambda>(member, t, key). (member, bind_member t (lookup (member_sections t) key))) binding_table"
  have members: "map fst bound = map fst binding_table" by (simp add: bound_def case_prod_beta comp_def)
  have d: "distinct (map fst binding_table)" by (simp add: binding_table_def)
  have "map_of bound member = Some (bind_member t (lookup (member_sections t) key))" if "(member, t, key) \<in> set binding_table" for member t key
  proof (rule map_of_is_SomeI)
    show "distinct (map fst bound)" using d by (simp only: members)
    show "(member, bind_member t (lookup (member_sections t) key)) \<in> set bound" using that by (auto simp: bound_def intro: rev_image_eqI)
  qed
  moreover have "filter (\<lambda>(member, t, key). \<not> gx_Found (lookup (member_sections t) key)) binding_table = [] \<longleftrightarrow>
      (\<forall>(member, t, key)\<in>set binding_table. gx_Found (lookup (member_sections t) key))" by (simp add: filter_empty_conv case_prod_beta)
  moreover have "distinct (map fst bound)" using d by (simp only: members)
  ultimately show ?thesis using members unfolding Bindings_Bind_def bind_all_spec bound_def[symmetric] prod.case Let_def by auto
qed

end
