(* ===== verification/VtableLookup.thy ===== *)
theory VtableLookup
  imports GameData "HOL-Library.Monad_Syntax"
begin

text \<open>
  Virtual tables and base subobjects found through compiler metadata. Sources: \<^verbatim>\<open>src/Engine/Memory/VtableLookup.{hpp,cpp}\<close> (Itanium RTTI)
  and \<^verbatim>\<open>src/Engine/Memory/VtableLookup.windows.cpp\<close> (MSVC RTTI). A read is an option: \<open>None\<close> is a fault, so a search that yields
  \<open>Some\<close> touched only memory that was there. Addresses are natural numbers: a mapping never reaches the end of the address space. Code and names are
  bytes; a pointer is eight of them, the lowest first.
\<close>

section \<open>Memory\<close>

text \<open>The bytes that can be read, and what the operating system answers about the region of an address: its end, readable, executable.\<close>

record memory =
  mm_Byte :: "nat \<Rightarrow> nat option"
  mm_Region :: "nat \<Rightarrow> (nat \<times> bool \<times> bool) option"

definition IsExecutableAddress :: "memory \<Rightarrow> nat \<Rightarrow> bool" where
  "IsExecutableAddress m address \<longleftrightarrow> address \<noteq> 0 \<and> (case mm_Region m address of None \<Rightarrow> False | Some (_, _, executable) \<Rightarrow> executable)"

definition IsReadableAddress :: "memory \<Rightarrow> nat \<Rightarrow> nat \<Rightarrow> bool" where
  "IsReadableAddress m address bytes \<longleftrightarrow> address \<noteq> 0 \<and> bytes \<noteq> 0 \<and>
     (case mm_Region m address of None \<Rightarrow> False | Some (stop, readable, _) \<Rightarrow> readable \<and> bytes \<le> stop - address)"

fun read_bytes :: "memory \<Rightarrow> nat \<Rightarrow> nat \<Rightarrow> nat list option" where
  "read_bytes m address 0 = Some []"
| "read_bytes m address (Suc n) = do { b \<leftarrow> mm_Byte m address; bs \<leftarrow> read_bytes m (address + 1) n; Some (b # bs) }"

fun little_endian :: "nat list \<Rightarrow> nat" where
  "little_endian [] = 0"
| "little_endian (b # bs) = b + 256 * little_endian bs"

definition ReadWord :: "memory \<Rightarrow> nat \<Rightarrow> nat option" where
  "ReadWord m address = map_option little_endian (read_bytes m address 8)"

definition ReadU32 :: "memory \<Rightarrow> nat \<Rightarrow> nat option" where
  "ReadU32 m address = map_option little_endian (read_bytes m address 4)"

definition to_signed :: "nat \<Rightarrow> nat \<Rightarrow> int" where
  "to_signed bits w = (if int w < 2 ^ (bits - 1) then int w else int w - 2 ^ bits)"

section \<open>Searching words\<close>

text \<open>A range is its base and its size. The search leaves a word on either side of what it looks at.\<close>

type_synonym mem_range = "nat \<times> nat"

definition pointer_size :: nat where "pointer_size = 8"

function words_from :: "nat \<Rightarrow> nat \<Rightarrow> nat list" where
  "words_from at_word stop = (if at_word + 2 * pointer_size \<le> stop then at_word # words_from (at_word + pointer_size) stop else [])"
  by pat_completeness auto

termination by (relation "measure (\<lambda>(a, stop). stop - a)") (auto simp: pointer_size_def)

declare words_from.simps [simp del]

fun filter_words :: "memory \<Rightarrow> nat \<Rightarrow> nat list \<Rightarrow> nat list option" where
  "filter_words m v [] = Some []"
| "filter_words m v (a # as) = do { w \<leftarrow> ReadWord m a; rest \<leftarrow> filter_words m v as; Some (if w = v then a # rest else rest) }"

definition first_word :: "nat \<Rightarrow> nat" where
  "first_word begin_at = (begin_at + pointer_size - 1) div pointer_size * pointer_size + pointer_size"

definition FindWords :: "memory \<Rightarrow> mem_range list \<Rightarrow> nat \<Rightarrow> nat list option" where
  "FindWords m ranges v = filter_words m v (concat (map (\<lambda>(base, size). words_from (first_word base) (base + size)) ranges))"

definition LengthPrefixedName :: "string \<Rightarrow> string" where
  "LengthPrefixedName className = to_string (length className) @ className"

text \<open>The table of the first reference to a typeinfo that has offset-to-top zero and code in its first slot.\<close>

fun primary_of :: "memory \<Rightarrow> nat list \<Rightarrow> nat option option" where
  "primary_of m [] = Some None"
| "primary_of m (ref # refs) = do {
     top \<leftarrow> ReadWord m (ref - pointer_size);
     (if top = 0 then do { code \<leftarrow> ReadWord m (ref + pointer_size);
          (if IsExecutableAddress m code then Some (Some (ref + pointer_size)) else primary_of m refs) }
      else primary_of m refs) }"

fun first_found :: "('a \<Rightarrow> 'b option option) \<Rightarrow> 'a list \<Rightarrow> 'b option option" where
  "first_found f [] = Some None"
| "first_found f (x # xs) = do { r \<leftarrow> f x; (case r of Some y \<Rightarrow> Some (Some y) | None \<Rightarrow> first_found f xs) }"

definition byte_values :: "string \<Rightarrow> nat list" where
  "byte_values s = map byte_of s"

definition is_name_byte :: "nat \<Rightarrow> bool" where
  "is_name_byte b \<longleftrightarrow> 48 \<le> b \<and> b \<le> 57 \<or> 65 \<le> b \<and> b \<le> 90 \<or> 97 \<le> b \<and> b \<le> 122 \<or> b = 95"

text \<open>Where the terminated type name stands in a range and is not the end of a longer name.\<close>

definition name_positions :: "nat list \<Rightarrow> nat list \<Rightarrow> nat list" where
  "name_positions needle bytes =
     filter (\<lambda>i. take (length needle) (drop i bytes) = needle \<and> \<not> (0 < i \<and> is_name_byte (bytes ! (i - 1)))) [0..<length bytes + 1 - length needle]"

definition FindVirtualTableByTypeName :: "memory \<Rightarrow> mem_range list \<Rightarrow> string \<Rightarrow> nat option option" where
  "FindVirtualTableByTypeName m ranges className =
     (let needle = byte_values (LengthPrefixedName className) @ [0]
      in first_found (\<lambda>(base, size). do {
           bytes \<leftarrow> read_bytes m base size;
           first_found (\<lambda>i. do {
             names \<leftarrow> FindWords m ranges (base + i);
             first_found (\<lambda>name. do { refs \<leftarrow> FindWords m ranges (name - pointer_size); primary_of m refs }) names }) (name_positions needle bytes) }) ranges)"

definition IsInstanceOf :: "memory \<Rightarrow> nat \<Rightarrow> nat \<Rightarrow> bool option" where
  "IsInstanceOf m object table =
     (if table \<noteq> 0 \<and> IsReadableAddress m object pointer_size then do { vptr \<leftarrow> ReadWord m object; Some (vptr = table) } else Some False)"

section \<open>Itanium typeinfos\<close>

definition TypeInfoBase :: nat where "TypeInfoBase = 2 * pointer_size"
definition TypeInfoFlags :: nat where "TypeInfoFlags = 2 * pointer_size"
definition TypeInfoCount :: nat where "TypeInfoCount = TypeInfoFlags + 4"
definition TypeInfoBaseList :: nat where "TypeInfoBaseList = 3 * pointer_size"
definition BaseEntrySize :: nat where "BaseEntrySize = 2 * pointer_size"
definition VirtualBaseFlag :: nat where "VirtualBaseFlag = 1"
definition MaxBases :: nat where "MaxBases = 64"
definition MaxDepth :: nat where "MaxDepth = 32"

record TypeInfoKinds =
  tk_SingleBase :: nat
  tk_MultipleBases :: nat

definition LooksLikeTypeInfo :: "memory \<Rightarrow> nat \<Rightarrow> bool option" where
  "LooksLikeTypeInfo m address =
     (if address = 0 \<or> address mod pointer_size \<noteq> 0 \<or> \<not> IsReadableAddress m address (2 * pointer_size) then Some False
      else do {
        name \<leftarrow> ReadWord m (address + pointer_size);
        (if \<not> IsReadableAddress m name 1 then Some False
         else do { c \<leftarrow> mm_Byte m name; Some (48 \<le> c \<and> c \<le> 57 \<or> c = byte_of (CHR ''N'') \<or> c = byte_of (CHR ''*'')) }) })"

definition NameIs :: "memory \<Rightarrow> nat \<Rightarrow> string \<Rightarrow> bool option" where
  "NameIs m address wanted = do {
     name \<leftarrow> ReadWord m (address + pointer_size);
     (if \<not> IsReadableAddress m name (length wanted + 1) then Some False
      else do { bs \<leftarrow> read_bytes m name (length wanted + 1); Some (bs = byte_values wanted @ [0]) }) }"

definition HasSingleBase :: "memory \<Rightarrow> nat \<Rightarrow> TypeInfoKinds \<Rightarrow> bool option" where
  "HasSingleBase m typeInfo kinds =
     (if tk_SingleBase kinds \<noteq> 0 then do { vptr \<leftarrow> ReadWord m typeInfo; Some (vptr = tk_SingleBase kinds) }
      else if IsReadableAddress m typeInfo (TypeInfoBase + pointer_size) then do { base \<leftarrow> ReadWord m (typeInfo + TypeInfoBase); LooksLikeTypeInfo m base }
      else Some False)"

definition BaseCount :: "memory \<Rightarrow> nat \<Rightarrow> TypeInfoKinds \<Rightarrow> nat option" where
  "BaseCount m typeInfo kinds = do {
     other \<leftarrow> (if tk_MultipleBases kinds \<noteq> 0 then do { vptr \<leftarrow> ReadWord m typeInfo; Some (vptr \<noteq> tk_MultipleBases kinds) } else Some False);
     (if other \<or> \<not> IsReadableAddress m typeInfo TypeInfoBaseList then Some 0
      else do {
        cnt \<leftarrow> ReadU32 m (typeInfo + TypeInfoCount);
        (if cnt = 0 \<or> MaxBases < cnt \<or> \<not> IsReadableAddress m (typeInfo + TypeInfoBaseList) (cnt * BaseEntrySize) then Some 0
         else if tk_MultipleBases kinds = 0
         then do {
           flags \<leftarrow> ReadU32 m (typeInfo + TypeInfoFlags);
           (if 3 < flags then Some 0
            else do { base \<leftarrow> ReadWord m (typeInfo + TypeInfoBaseList); ok \<leftarrow> LooksLikeTypeInfo m base; Some (if ok then cnt else 0) }) }
         else Some cnt) }) }"

record FoundBase =
  fb_Offset :: int
  fb_Virtual :: bool

fun concat_found :: "('a \<Rightarrow> 'b list option) \<Rightarrow> 'a list \<Rightarrow> 'b list option" where
  "concat_found f [] = Some []"
| "concat_found f (x # xs) = do { r \<leftarrow> f x; rest \<leftarrow> concat_found f xs; Some (r @ rest) }"

text \<open>The depth left; one visit of a base, and all entries of a typeinfo.\<close>

fun CollectBases :: "nat \<Rightarrow> memory \<Rightarrow> TypeInfoKinds \<Rightarrow> string \<Rightarrow> nat \<Rightarrow> FoundBase \<Rightarrow> FoundBase list option" where
  "CollectBases 0 m kinds wanted typeInfo here = Some []"
| "CollectBases (Suc depth) m kinds wanted typeInfo here =
     (let visit = (\<lambda>base offset isVirtual. do {
            ok \<leftarrow> LooksLikeTypeInfo m base;
            (if \<not> ok then Some []
             else let there = \<lparr>fb_Offset = fb_Offset here + offset, fb_Virtual = fb_Virtual here \<or> isVirtual\<rparr>
             in do { named \<leftarrow> NameIs m base wanted;
                     (if named then Some [there] else CollectBases depth m kinds wanted base there) }) })
      in do {
        single \<leftarrow> HasSingleBase m typeInfo kinds;
        (if single then do { base \<leftarrow> ReadWord m (typeInfo + TypeInfoBase); visit base 0 False }
         else do {
           cnt \<leftarrow> BaseCount m typeInfo kinds;
           concat_found (\<lambda>i. do {
             let_offset \<leftarrow> ReadWord m (typeInfo + TypeInfoBaseList + i * BaseEntrySize + pointer_size);
             base \<leftarrow> ReadWord m (typeInfo + TypeInfoBaseList + i * BaseEntrySize);
             visit base (to_signed 64 let_offset div 256) (odd let_offset) }) [0..<cnt] }) })"

definition to_int :: "int \<Rightarrow> int" where
  "to_int v = (v + 2 ^ 31) mod 2 ^ 32 - 2 ^ 31"

definition FindBaseOffsetByTypeInfo :: "memory \<Rightarrow> nat \<Rightarrow> string \<Rightarrow> TypeInfoKinds \<Rightarrow> int result option" where
  "FindBaseOffsetByTypeInfo m address baseName kinds = do {
     ok \<leftarrow> LooksLikeTypeInfo m address;
     (if \<not> ok then Some (Inl (Error_Invalid ''the class has no readable typeinfo''))
      else do {
        found \<leftarrow> CollectBases (MaxDepth + 1) m kinds (LengthPrefixedName baseName) address \<lparr>fb_Offset = 0, fb_Virtual = False\<rparr>;
        Some (if found = [] then Inl (Error_NotFound (quoted baseName @ '' is not a base''))
              else if 1 < length found then Inl (Error_Invalid (quoted baseName @ '' is a base '' @ to_string (length found) @ '' times''))
              else if fb_Virtual (hd found) then Inl (Error_Unsupported (quoted baseName @ '' is a virtual base''))
              else Inr (to_int (fb_Offset (hd found)))) }) }"

text \<open>The one reference to the typeinfo with this offset to the top and code behind it; none when there are two.\<close>

fun table_for :: "memory \<Rightarrow> int \<Rightarrow> nat option \<Rightarrow> nat list \<Rightarrow> nat option option" where
  "table_for m offsetToTop found [] = Some found"
| "table_for m offsetToTop found (ref # refs) = do {
     top \<leftarrow> ReadWord m (ref - pointer_size);
     (if to_signed 64 top \<noteq> offsetToTop then table_for m offsetToTop found refs
      else do {
        code \<leftarrow> ReadWord m (ref + pointer_size);
        (if \<not> IsExecutableAddress m code then table_for m offsetToTop found refs
         else if found \<noteq> None then Some None
         else table_for m offsetToTop (Some (ref + pointer_size)) refs) }) }"

definition FindVirtualTableByTypeInfo :: "memory \<Rightarrow> mem_range list \<Rightarrow> nat \<Rightarrow> int \<Rightarrow> nat option option" where
  "FindVirtualTableByTypeInfo m ranges typeInfo offsetToTop = do { refs \<leftarrow> FindWords m ranges typeInfo; table_for m offsetToTop None refs }"


text \<open>
  A base of a class on Linux. The class's primary table, the mapped ranges of its module and the virtual tables of the typeinfo classes this process exports
  are arguments. When the exported ones find nothing, the typeinfos are told apart by their shape.
\<close>

definition no_kinds :: TypeInfoKinds where "no_kinds = \<lparr>tk_SingleBase = 0, tk_MultipleBases = 0\<rparr>"

definition ExportedTypeInfoKinds :: "(string \<Rightarrow> nat) \<Rightarrow> TypeInfoKinds" where
  "ExportedTypeInfoKinds dlsym =
     (let vptrOf = (\<lambda>symbol. if dlsym symbol \<noteq> 0 then dlsym symbol + 2 * pointer_size else 0);
          found = \<lparr>tk_SingleBase = vptrOf ''_ZTVN10__cxxabiv120__si_class_type_infoE'', tk_MultipleBases = vptrOf ''_ZTVN10__cxxabiv121__vmi_class_type_infoE''\<rparr>
      in if tk_SingleBase found \<noteq> 0 \<and> tk_MultipleBases found \<noteq> 0 then found else no_kinds)"

definition FindBaseIn_linux :: "memory \<Rightarrow> (string \<Rightarrow> nat) \<Rightarrow> nat \<Rightarrow> mem_range list option \<Rightarrow> string \<Rightarrow> string \<Rightarrow> BaseSubobject result option" where
  "FindBaseIn_linux m dlsym primary ranges className baseName =
     (if primary = 0 then Some (Inl (Error_NotFound (''no vtable for '' @ quoted className)))
      else do {
       typeInfo \<leftarrow> ReadWord m (primary - pointer_size);
       exported \<leftarrow> FindBaseOffsetByTypeInfo m typeInfo baseName (ExportedTypeInfoKinds dlsym);
       offset \<leftarrow> (case exported of
          Inl e \<Rightarrow> if err_Code e = NotFound then FindBaseOffsetByTypeInfo m typeInfo baseName no_kinds else Some exported
        | Inr _ \<Rightarrow> Some exported);
       (case offset of
          Inl e \<Rightarrow> Some (Inl e)
        | Inr off \<Rightarrow>
            if off = 0 then Some (Inr \<lparr>bs_Offset = 0, bs_Table = primary\<rparr>)
            else (case ranges of
                 None \<Rightarrow> Some (Inr \<lparr>bs_Offset = off, bs_Table = 0\<rparr>)
               | Some rs \<Rightarrow> do {
                   table \<leftarrow> FindVirtualTableByTypeInfo m rs typeInfo (- off);
                   Some (Inr \<lparr>bs_Offset = off, bs_Table = (case table of None \<Rightarrow> 0 | Some t \<Rightarrow> t)\<rparr>) })) })"

section \<open>What the searches read\<close>

text \<open>The operating system is honest: what it calls readable can be read.\<close>

definition honest :: "memory \<Rightarrow> bool" where
  "honest m \<longleftrightarrow> (\<forall>a stop x b. mm_Region m a = Some (stop, True, x) \<and> a \<le> b \<and> b < stop \<longrightarrow> mm_Byte m b \<noteq> None)"

definition mapped :: "memory \<Rightarrow> nat \<Rightarrow> nat \<Rightarrow> bool" where
  "mapped m a n \<longleftrightarrow> (\<forall>b. a \<le> b \<and> b < a + n \<longrightarrow> mm_Byte m b \<noteq> None)"

lemma mapped_part: "mapped m a n \<Longrightarrow> a \<le> b \<Longrightarrow> b + k \<le> a + n \<Longrightarrow> mapped m b k"
  by (auto simp: mapped_def)

lemma readable_mapped: "honest m \<Longrightarrow> IsReadableAddress m a n \<Longrightarrow> mapped m a n"
  by (fastforce simp: honest_def mapped_def IsReadableAddress_def split: option.splits)

lemma read_bytes_mapped: "mapped m a n \<Longrightarrow> \<exists>bs. read_bytes m a n = Some bs \<and> length bs = n"
proof (induction n arbitrary: a)
  case (Suc n)
  have "mm_Byte m a \<noteq> None" "mapped m (a + 1) n" using Suc.prems by (auto simp: mapped_def)
  thus ?case using Suc.IH[of "a + 1"] by auto
qed auto

lemma ReadWord_mapped: "mapped m a 8 \<Longrightarrow> \<exists>w. ReadWord m a = Some w"
  using read_bytes_mapped[of m a 8] by (auto simp: ReadWord_def)

lemma ReadU32_mapped: "mapped m a 4 \<Longrightarrow> \<exists>w. ReadU32 m a = Some w"
  using read_bytes_mapped[of m a 4] by (auto simp: ReadU32_def)

lemma first_word_ge: "a + 8 \<le> first_word a"
  unfolding first_word_def pointer_size_def by presburger

lemma first_word_aligned: "8 dvd first_word a"
  unfolding first_word_def pointer_size_def by presburger

lemma set_words_from: "8 dvd a \<Longrightarrow> set (words_from a stop) = {w. a \<le> w \<and> 8 dvd w \<and> w + 16 \<le> stop}"
proof (induction a stop rule: words_from.induct)
  case (1 a stop)
  show ?case
  proof (cases "a + 16 \<le> stop")
    case True
    have d: "8 dvd a + 8" using 1(2) by presburger
    have IH: "set (words_from (a + 8) stop) = {w. a + 8 \<le> w \<and> 8 dvd w \<and> w + 16 \<le> stop}"
      using 1(1) True d by (simp add: pointer_size_def)
    have "w = a \<or> a + 8 \<le> w" if "a \<le> w" "8 dvd w" for w using that 1(2) by presburger
    thus ?thesis using True 1(2) IH by (subst words_from.simps) (auto simp: pointer_size_def)
  next
    case False thus ?thesis by (subst words_from.simps) (auto simp: pointer_size_def)
  qed
qed

lemma distinct_words_from: "8 dvd a \<Longrightarrow> distinct (words_from a stop)"
proof (induction a stop rule: words_from.induct)
  case (1 a stop)
  have d: "8 dvd a + 8" using 1(2) by presburger
  have "a \<notin> set (words_from (a + 8) stop)" using set_words_from[OF d] by auto
  thus ?case using 1 d by (subst words_from.simps) (auto simp: pointer_size_def)
qed

lemma filter_words_mapped:
  "(\<forall>a \<in> set as. mapped m a 8) \<Longrightarrow> filter_words m v as = Some (filter (\<lambda>a. ReadWord m a = Some v) as)"
proof (induction as)
  case (Cons a as)
  obtain w where "ReadWord m a = Some w" using Cons.prems ReadWord_mapped[of m a] by auto
  thus ?case using Cons by auto
qed auto

definition word_places :: "mem_range list \<Rightarrow> nat list" where
  "word_places ranges = concat (map (\<lambda>(base, size). words_from (first_word base) (base + size)) ranges)"

definition ranges_mapped :: "memory \<Rightarrow> mem_range list \<Rightarrow> bool" where
  "ranges_mapped m ranges \<longleftrightarrow> (\<forall>(base, size) \<in> set ranges. mapped m base size)"

lemma word_placesD:
  assumes "ranges_mapped m ranges" "a \<in> set (word_places ranges)"
  shows "mapped m (a - 8) 24" "8 \<le> a"
proof -
  obtain base size where r: "(base, size) \<in> set ranges" "a \<in> set (words_from (first_word base) (base + size))"
    using assms(2) by (auto simp: word_places_def)
  have "first_word base \<le> a" "a + 16 \<le> base + size" using r(2) set_words_from[OF first_word_aligned] by auto
  moreover have "mapped m base size" using assms(1) r(1) by (auto simp: ranges_mapped_def)
  ultimately show "mapped m (a - 8) 24" "8 \<le> a" using first_word_ge[of base] by (auto intro: mapped_part)
qed

lemma around_word:
  assumes "mapped m (a - 8) 24" "8 \<le> a"
  obtains p w n where "ReadWord m (a - 8) = Some p" "ReadWord m a = Some w" "ReadWord m (a + 8) = Some n"
proof -
  have "mapped m (a - 8) 8" "mapped m a 8" "mapped m (a + 8) 8" using assms by (auto intro: mapped_part)
  thus thesis using that by (meson ReadWord_mapped)
qed

lemma FindWords_exact:
  assumes "ranges_mapped m ranges"
  shows "FindWords m ranges v = Some (filter (\<lambda>a. ReadWord m a = Some v) (word_places ranges))"
proof -
  have "mapped m a 8" if "a \<in> set (word_places ranges)" for a
    using word_placesD[OF assms that] by (auto intro: mapped_part)
  thus ?thesis unfolding FindWords_def word_places_def[symmetric] by (simp add: filter_words_mapped)
qed

section \<open>The table of a subobject\<close>

definition table_ref :: "memory \<Rightarrow> int \<Rightarrow> nat \<Rightarrow> bool" where
  "table_ref m offsetToTop a \<longleftrightarrow>
     (\<exists>top. ReadWord m (a - 8) = Some top \<and> to_signed 64 top = offsetToTop) \<and> (\<exists>code. ReadWord m (a + 8) = Some code \<and> IsExecutableAddress m code)"

lemma table_for_step:
  assumes "mapped m (a - 8) 24" "8 \<le> a"
  shows "table_for m off found (a # as) =
    (if table_ref m off a then (if found \<noteq> None then Some None else table_for m off (Some (a + 8)) as) else table_for m off found as)"
proof -
  obtain p w n where "ReadWord m (a - 8) = Some p" "ReadWord m (a + 8) = Some n" using around_word[OF assms] by metis
  thus ?thesis by (auto simp: table_ref_def pointer_size_def)
qed

definition only_table :: "nat list \<Rightarrow> nat option" where
  "only_table as = (case as of [a] \<Rightarrow> Some (a + 8) | _ \<Rightarrow> None)"

lemma table_for_found:
  "(\<forall>a \<in> set as. mapped m (a - 8) 24 \<and> 8 \<le> a) \<Longrightarrow>
   table_for m off (Some t) as = Some (if \<exists>a \<in> set as. table_ref m off a then None else Some t)"
  by (induction as) (auto simp: table_for_step simp del: table_for.simps(2))

lemma table_for_exact:
  "(\<forall>a \<in> set as. mapped m (a - 8) 24 \<and> 8 \<le> a) \<Longrightarrow> table_for m off None as = Some (only_table (filter (table_ref m off) as))"
proof (induction as)
  case (Cons a as)
  have "filter (table_ref m off) as = [] \<longleftrightarrow> \<not> (\<exists>b \<in> set as. table_ref m off b)" by (auto simp: filter_empty_conv)
  hence "only_table (a # filter (table_ref m off) as) = (if \<exists>b \<in> set as. table_ref m off b then None else Some (a + 8))"
    by (cases "filter (table_ref m off) as") (auto simp: only_table_def)
  thus ?case using Cons table_for_found[of as m off "a + 8"] by (simp add: table_for_step del: table_for.simps(2))
qed (simp add: only_table_def)

lemma FindVirtualTableByTypeInfo_list:
  assumes "ranges_mapped m ranges"
  shows "FindVirtualTableByTypeInfo m ranges ti off =
    Some (only_table (filter (\<lambda>a. ReadWord m a = Some ti \<and> table_ref m off a) (word_places ranges)))"
proof -
  let ?as = "filter (\<lambda>a. ReadWord m a = Some ti) (word_places ranges)"
  have "table_for m off None ?as = Some (only_table (filter (table_ref m off) ?as))"
    using word_placesD[OF assms] by (intro table_for_exact) auto
  moreover have "filter (table_ref m off) ?as = filter (\<lambda>a. ReadWord m a = Some ti \<and> table_ref m off a) (word_places ranges)"
    by (simp add: conj_commute)
  ultimately show ?thesis by (simp add: FindVirtualTableByTypeInfo_def FindWords_exact[OF assms])
qed

text \<open>Ranges that do not overlap have no place twice.\<close>

fun apart :: "mem_range list \<Rightarrow> bool" where
  "apart [] = True"
| "apart ((base, sz) # rs) \<longleftrightarrow> (\<forall>(b, n) \<in> set rs. base + sz \<le> b \<or> b + n \<le> base) \<and> apart rs"

definition in_ranges :: "mem_range list \<Rightarrow> nat \<Rightarrow> bool" where
  "in_ranges ranges a \<longleftrightarrow> (\<exists>(base, size) \<in> set ranges. first_word base \<le> a \<and> 8 dvd a \<and> a + 16 \<le> base + size)"

lemma set_word_places: "set (word_places ranges) = {a. in_ranges ranges a}"
  by (auto simp: word_places_def in_ranges_def set_words_from first_word_aligned)

lemma distinct_word_places: "apart ranges \<Longrightarrow> distinct (word_places ranges)"
proof (induction ranges rule: apart.induct)
  case (2 base size rs)
  have "\<not> in_ranges rs a" if a: "a \<in> set (words_from (first_word base) (base + size))" for a
  proof
    assume "in_ranges rs a"
    then obtain b n where r: "(b, n) \<in> set rs" "first_word b \<le> a" "a + 16 \<le> b + n" by (auto simp: in_ranges_def)
    have "first_word base \<le> a" "a + 16 \<le> base + size" using a set_words_from[OF first_word_aligned] by auto
    moreover have "base + size \<le> b \<or> b + n \<le> base" using 2(2) r(1) by auto
    ultimately show False using r first_word_ge[of base] first_word_ge[of b] by linarith
  qed
  hence "set (words_from (first_word base) (base + size)) \<inter> set (word_places rs) = {}" using set_word_places by auto
  moreover have "word_places ((base, size) # rs) = words_from (first_word base) (base + size) @ word_places rs" by (simp add: word_places_def)
  ultimately show ?case using 2 distinct_words_from[OF first_word_aligned] by simp
qed (simp add: word_places_def)

lemma only_table_filter:
  assumes "distinct xs"
  shows "only_table (filter P xs) = Some t \<longleftrightarrow> (\<exists>a. t = a + 8 \<and> a \<in> set xs \<and> P a \<and> (\<forall>b \<in> set xs. P b \<longrightarrow> b = a))"
proof
  assume "only_table (filter P xs) = Some t"
  then obtain a where f: "filter P xs = [a]" "t = a + 8" by (auto simp: only_table_def split: list.splits)
  have "{x \<in> set xs. P x} = {a}" using arg_cong[OF f(1), of set] by simp
  thus "\<exists>a. t = a + 8 \<and> a \<in> set xs \<and> P a \<and> (\<forall>b \<in> set xs. P b \<longrightarrow> b = a)" using f(2) by blast
next
  assume "\<exists>a. t = a + 8 \<and> a \<in> set xs \<and> P a \<and> (\<forall>b \<in> set xs. P b \<longrightarrow> b = a)"
  then obtain a where a: "t = a + 8" "a \<in> set xs" "P a" "\<And>b. b \<in> set xs \<Longrightarrow> P b \<Longrightarrow> b = a" by blast
  have s: "set (filter P xs) = {a}" unfolding set_filter using a(2-4) by blast
  have "length (filter P xs) = card (set (filter P xs))" using distinct_card[OF distinct_filter[OF assms]] by simp
  hence "length (filter P xs) = 1" unfolding s by simp
  then obtain b where "filter P xs = [b]" by (auto simp: length_Suc_conv)
  moreover have "b = a" using s calculation by auto
  ultimately show "only_table (filter P xs) = Some t" using a(1) by (simp add: only_table_def)
qed

lemma FindVirtualTableByTypeInfo_unique:
  assumes "ranges_mapped m ranges" "apart ranges"
  shows "\<exists>r. FindVirtualTableByTypeInfo m ranges ti off = Some r \<and>
    (\<forall>t. r = Some t \<longleftrightarrow> (\<exists>a. t = a + 8 \<and> in_ranges ranges a \<and> ReadWord m a = Some ti \<and> table_ref m off a \<and>
       (\<forall>b. in_ranges ranges b \<and> ReadWord m b = Some ti \<and> table_ref m off b \<longrightarrow> b = a)))"
proof -
  have d: "distinct (word_places ranges)" using assms(2) by (rule distinct_word_places)
  let ?P = "\<lambda>a. ReadWord m a = Some ti \<and> table_ref m off a"
  have "only_table (filter ?P (word_places ranges)) = Some t \<longleftrightarrow> (\<exists>a. t = a + 8 \<and> in_ranges ranges a \<and> ReadWord m a = Some ti \<and> table_ref m off a \<and>
       (\<forall>b. in_ranges ranges b \<and> ReadWord m b = Some ti \<and> table_ref m off b \<longrightarrow> b = a))" for t
    unfolding only_table_filter[OF d] set_word_places mem_Collect_eq by blast
  thus ?thesis using FindVirtualTableByTypeInfo_list[OF assms(1), of ti off] by blast
qed


section \<open>The base subobjects of a class\<close>

text \<open>A class as the compiler saw it: its mangled name and its direct bases, each with its offset and whether it is virtual.\<close>

datatype class_tree = Class (ct_name: string) (ct_bases: "(class_tree \<times> int \<times> bool) list")

fun depth_within :: "nat \<Rightarrow> class_tree \<Rightarrow> bool" where
  "depth_within 0 t \<longleftrightarrow> ct_bases t = []"
| "depth_within (Suc n) t \<longleftrightarrow> (\<forall>(b, off, v) \<in> set (ct_bases t). depth_within n b)"

text \<open>The subobjects with the wanted name that are reached without passing another one.\<close>

fun bases_named :: "nat \<Rightarrow> string \<Rightarrow> class_tree \<Rightarrow> FoundBase \<Rightarrow> FoundBase list" where
  "bases_named 0 wanted t here = []"
| "bases_named (Suc n) wanted t here =
     concat (map (\<lambda>(b, off, v). let there = \<lparr>fb_Offset = fb_Offset here + off, fb_Virtual = fb_Virtual here \<or> v\<rparr>
        in if ct_name b = wanted then [there] else bases_named n wanted b there) (ct_bases t))"

lemma bases_named_depth: "depth_within n t \<Longrightarrow> n \<le> k \<Longrightarrow> bases_named k wanted t here = bases_named n wanted t here"
proof (induction n arbitrary: k t here)
  case 0 thus ?case by (cases k) auto
next
  case (Suc n)
  then obtain k' where k: "k = Suc k'" "n \<le> k'" by (cases k) auto
  have "bases_named k' wanted b there = bases_named n wanted b there" if "(b, off, v) \<in> set (ct_bases t)" for b off v there
    using Suc.IH[of b k' there] Suc.prems(1) k(2) that by auto
  thus ?case unfolding k(1) by (auto intro!: arg_cong[where f = concat] map_cong simp: Let_def)
qed

text \<open>A class laid out in memory, as deep as the search goes. The two kinds of typeinfo that have bases are known by their virtual tables.\<close>

definition name_at :: "memory \<Rightarrow> nat \<Rightarrow> string \<Rightarrow> bool" where
  "name_at m a nm \<longleftrightarrow> LooksLikeTypeInfo m a = Some True \<and> CHR 0x00 \<notin> set nm \<and>
     (\<exists>p. ReadWord m (a + 8) = Some p \<and> IsReadableAddress m p (length nm + 1) \<and> read_bytes m p (length nm + 1) = Some (byte_values nm @ [0]))"

definition entry_at :: "memory \<Rightarrow> nat \<Rightarrow> nat \<Rightarrow> int \<Rightarrow> bool \<Rightarrow> bool" where
  "entry_at m e b off v \<longleftrightarrow> ReadWord m e = Some b \<and> (\<exists>w. ReadWord m (e + 8) = Some w \<and> to_signed 64 w div 256 = off \<and> odd w = v)"

definition typeinfo_at :: "memory \<Rightarrow> TypeInfoKinds \<Rightarrow> nat \<Rightarrow> (nat \<times> int \<times> bool) list \<Rightarrow> bool" where
  "typeinfo_at m kinds a bs \<longleftrightarrow> (\<exists>vptr. ReadWord m a = Some vptr \<and>
     (if vptr = tk_SingleBase kinds then (\<exists>b. ReadWord m (a + 16) = Some b \<and> bs = [(b, 0, False)])
      else if vptr = tk_MultipleBases kinds
      then IsReadableAddress m a 24 \<and> ReadU32 m (a + 20) = Some (length bs) \<and> bs \<noteq> [] \<and> length bs \<le> 64 \<and> IsReadableAddress m (a + 24) (length bs * 16) \<and>
           (\<forall>i < length bs. case bs ! i of (b, off, v) \<Rightarrow> entry_at m (a + 24 + i * 16) b off v)
      else bs = []))"

fun laid_out :: "nat \<Rightarrow> memory \<Rightarrow> TypeInfoKinds \<Rightarrow> nat \<Rightarrow> class_tree \<Rightarrow> bool" where
  "laid_out 0 m kinds a t \<longleftrightarrow> name_at m a (ct_name t)"
| "laid_out (Suc n) m kinds a t \<longleftrightarrow> name_at m a (ct_name t) \<and>
     (\<exists>as. length as = length (ct_bases t) \<and> typeinfo_at m kinds a (map2 (\<lambda>b (_, off, v). (b, off, v)) as (ct_bases t)) \<and>
       (\<forall>i < length as. laid_out n m kinds (as ! i) (fst (ct_bases t ! i))))"

definition kinds_known :: "TypeInfoKinds \<Rightarrow> bool" where
  "kinds_known kinds \<longleftrightarrow> tk_SingleBase kinds \<noteq> 0 \<and> tk_MultipleBases kinds \<noteq> 0 \<and> tk_SingleBase kinds \<noteq> tk_MultipleBases kinds"

lemma laid_out_name: "laid_out n m kinds a t \<Longrightarrow> name_at m a (ct_name t)"
  by (cases n) auto

text \<open>Two terminated names at the same place are the same name.\<close>

lemma read_bytes_nth: "read_bytes m p n = Some bs \<Longrightarrow> length bs = n \<and> (\<forall>i < n. mm_Byte m (p + i) = Some (bs ! i))"
proof (induction n arbitrary: p bs)
  case (Suc n)
  then obtain b bs' where b: "mm_Byte m p = Some b" "read_bytes m (p + 1) n = Some bs'" "bs = b # bs'" by (auto split: Option.bind_splits)
  show ?case using Suc.IH[OF b(2)] b(1,3) by (auto simp: nth_Cons split: nat.splits)
qed auto


lemma terminated_unique:
  assumes "read_bytes m p (length x + 1) = Some (byte_values x @ [0])" "read_bytes m p (length y + 1) = Some (byte_values y @ [0])"
    and "CHR 0x00 \<notin> set x" "CHR 0x00 \<notin> set y"
  shows "x = y"
proof -
  have stop: "\<not> length u < length v"
    if u: "read_bytes m p (length u + 1) = Some (byte_values u @ [0])" and v: "read_bytes m p (length v + 1) = Some (byte_values v @ [0])"
      and z: "CHR 0x00 \<notin> set v" for u v
  proof
    assume l: "length u < length v"
    have "mm_Byte m (p + length u) = Some 0" using read_bytes_nth[OF u] by (auto simp: byte_values_def nth_append)
    moreover have "mm_Byte m (p + length u) = Some (byte_of (v ! length u))" using read_bytes_nth[OF v] l by (auto simp: byte_values_def nth_append)
    ultimately have "byte_of (v ! length u) = byte_of (CHR 0x00)" by simp
    hence "v ! length u = CHR 0x00" by (simp only: of_char_eq_iff)
    thus False using z l nth_mem[of "length u" v] by auto
  qed
  have "length x = length y" using stop[OF assms(1,2,4)] stop[OF assms(2,1,3)] by simp
  hence "byte_values x = byte_values y" using assms(1,2) by simp
  thus "x = y" by (simp add: byte_values_def inj_eq inj_map_eq_map[OF inj_of_char])
qed

lemma NameIs_exact:
  assumes "honest m" "name_at m a nm" "CHR 0x00 \<notin> set wanted"
  shows "NameIs m a wanted = Some (nm = wanted)"
proof -
  obtain p where p: "ReadWord m (a + 8) = Some p" "IsReadableAddress m p (length nm + 1)" "read_bytes m p (length nm + 1) = Some (byte_values nm @ [0])"
    and z: "CHR 0x00 \<notin> set nm" using assms(2) by (auto simp: name_at_def)
  show ?thesis
  proof (cases "IsReadableAddress m p (length wanted + 1)")
    case True
    then obtain bs where bs: "read_bytes m p (length wanted + 1) = Some bs" using read_bytes_mapped readable_mapped[OF assms(1)] by blast
    have "bs = byte_values wanted @ [0] \<longleftrightarrow> nm = wanted" using terminated_unique[OF p(3) _ z assms(3)] bs p(3) by auto
    thus ?thesis using p(1) True bs by (simp add: NameIs_def pointer_size_def del: read_bytes.simps)
  next
    case False
    hence "nm \<noteq> wanted" using p(2) by auto
    thus ?thesis using p(1) False by (simp add: NameIs_def pointer_size_def)
  qed
qed

lemma concat_found_exact: "(\<And>x. x \<in> set xs \<Longrightarrow> f x = Some (g x)) \<Longrightarrow> concat_found f xs = Some (concat (map g xs))"
  by (induction xs) auto

lemmas layout_numbers = pointer_size_def TypeInfoBase_def TypeInfoFlags_def TypeInfoCount_def TypeInfoBaseList_def BaseEntrySize_def MaxBases_def

lemma HasSingleBase_exact:
  assumes "kinds_known kinds" "typeinfo_at m kinds a bs" "ReadWord m a = Some vptr"
  shows "HasSingleBase m a kinds = Some (vptr = tk_SingleBase kinds)"
  using assms by (auto simp: HasSingleBase_def kinds_known_def)

lemma BaseCount_exact:
  assumes "kinds_known kinds" "typeinfo_at m kinds a bs" "ReadWord m a = Some vptr" "vptr \<noteq> tk_SingleBase kinds"
  shows "BaseCount m a kinds = Some (length bs)"
  using assms by (auto simp: BaseCount_def typeinfo_at_def kinds_known_def layout_numbers add.commute split: if_splits)

text \<open>The search visits exactly the direct bases.\<close>

definition visit_base :: "nat \<Rightarrow> memory \<Rightarrow> TypeInfoKinds \<Rightarrow> string \<Rightarrow> FoundBase \<Rightarrow> nat \<times> int \<times> bool \<Rightarrow> FoundBase list option" where
  "visit_base depth m kinds wanted here = (\<lambda>(base, offset, isVirtual). do {
            ok \<leftarrow> LooksLikeTypeInfo m base;
            (if \<not> ok then Some []
             else let there = \<lparr>fb_Offset = fb_Offset here + offset, fb_Virtual = fb_Virtual here \<or> isVirtual\<rparr>
             in do { named \<leftarrow> NameIs m base wanted;
                     (if named then Some [there] else CollectBases depth m kinds wanted base there) }) })"

lemma CollectBases_visits:
  assumes "kinds_known kinds" "typeinfo_at m kinds a bs"
  shows "CollectBases (Suc depth) m kinds wanted a here = concat_found (visit_base depth m kinds wanted here) bs"
proof -
  obtain vptr where v: "ReadWord m a = Some vptr" using assms(2) by (auto simp: typeinfo_at_def)
  note single = HasSingleBase_exact[OF assms v]
  show ?thesis
  proof (cases "vptr = tk_SingleBase kinds")
    case True
    then obtain b where "ReadWord m (a + 16) = Some b" "bs = [(b, 0, False)]" using assms(2) v by (auto simp: typeinfo_at_def)
    thus ?thesis using single True by (auto simp: visit_base_def layout_numbers split: Option.bind_splits)
  next
    case False
    have e: "case bs ! i of (b, off, vt) \<Rightarrow> entry_at m (a + 24 + i * 16) b off vt" if "i < length bs" for i
      using assms(2) v False that by (auto simp: typeinfo_at_def split: if_splits)
    have step: "(do { w \<leftarrow> ReadWord m (a + 24 + i * 16 + 8); b \<leftarrow> ReadWord m (a + 24 + i * 16);
           visit_base depth m kinds wanted here (b, to_signed 64 w div 256, odd w) }) = visit_base depth m kinds wanted here (bs ! i)" if "i < length bs" for i
      using e[OF that] by (auto simp: entry_at_def split: prod.splits)
    have cong: "concat_found f [0..<length bs] = concat_found g bs" if "\<And>i. i < length bs \<Longrightarrow> f i = g (bs ! i)" for f :: "nat \<Rightarrow> FoundBase list option" and g
    proof -
      have "concat_found f is' = concat_found g (map ((!) bs) is')" if "set is' \<subseteq> {0..<length bs}" for is'
        using that \<open>\<And>i. i < length bs \<Longrightarrow> f i = g (bs ! i)\<close> by (induction is') auto
      thus ?thesis using map_nth[of bs] by (metis atLeastLessThan_upt subset_refl)
    qed
    show ?thesis using single False BaseCount_exact[OF assms v False] step
      by (simp add: visit_base_def layout_numbers cong Let_def)
  qed
qed


lemma concat_found_pairs:
  "length as = length bs \<Longrightarrow> (\<And>i. i < length bs \<Longrightarrow> f (h (as ! i) (bs ! i)) = Some (g (bs ! i))) \<Longrightarrow>
   concat_found f (map2 h as bs) = Some (concat (map g bs))"
proof (induction as bs rule: list_induct2)
  case (Cons a as b bs)
  have "f (h (as ! i) (bs ! i)) = Some (g (bs ! i))" if "i < length bs" for i using Cons.prems[of "Suc i"] that by simp
  thus ?case using Cons.IH Cons.prems[of 0] by simp
qed auto

lemma CollectBases_exact:
  assumes "honest m" "kinds_known kinds" "CHR 0x00 \<notin> set wanted"
  shows "laid_out n m kinds a t \<Longrightarrow> CollectBases n m kinds wanted a here = Some (bases_named n wanted t here)"
proof (induction n arbitrary: a t here)
  case (Suc n)
  obtain as where l: "length as = length (ct_bases t)" "typeinfo_at m kinds a (map2 (\<lambda>b (_, off, v). (b, off, v)) as (ct_bases t))"
    and below: "\<And>i. i < length as \<Longrightarrow> laid_out n m kinds (as ! i) (fst (ct_bases t ! i))" using Suc.prems by auto
  define step where "step = (\<lambda>(b, off, v). let there = \<lparr>fb_Offset = fb_Offset here + off, fb_Virtual = fb_Virtual here \<or> v\<rparr>
        in if ct_name b = wanted then [there] else bases_named n wanted b there)"
  have "visit_base n m kinds wanted here (case ct_bases t ! i of (_, off, v) \<Rightarrow> (as ! i, off, v)) = Some (step (ct_bases t ! i))"
    if i: "i < length (ct_bases t)" for i
  proof -
    obtain b off v where e: "ct_bases t ! i = (b, off, v)" using prod_cases3 by blast
    have laid: "laid_out n m kinds (as ! i) b" using below[of i] i l(1) e by simp
    have "LooksLikeTypeInfo m (as ! i) = Some True" using laid_out_name[OF laid] by (simp add: name_at_def)
    moreover have "NameIs m (as ! i) wanted = Some (ct_name b = wanted)" using NameIs_exact[OF assms(1) laid_out_name[OF laid] assms(3)] .
    ultimately show ?thesis using Suc.IH[OF laid] by (simp add: visit_base_def step_def e Let_def)
  qed
  hence "concat_found (visit_base n m kinds wanted here) (map2 (\<lambda>b (_, off, v). (b, off, v)) as (ct_bases t)) = Some (concat (map step (ct_bases t)))"
    using l(1) by (intro concat_found_pairs) auto
  thus ?case using CollectBases_visits[OF assms(2) l(2)] by (simp add: step_def)
qed simp

definition base_answer :: "string \<Rightarrow> FoundBase list \<Rightarrow> int result" where
  "base_answer baseName found = (case found of
     [] \<Rightarrow> Inl (Error_NotFound (quoted baseName @ '' is not a base''))
   | [b] \<Rightarrow> if fb_Virtual b then Inl (Error_Unsupported (quoted baseName @ '' is a virtual base'')) else Inr (to_int (fb_Offset b))
   | _ \<Rightarrow> Inl (Error_Invalid (quoted baseName @ '' is a base '' @ to_string (length found) @ '' times'')))"

definition no_base :: FoundBase where
  "no_base = \<lparr>fb_Offset = 0, fb_Virtual = False\<rparr>"

text \<open>A class and the class it has as its only base, as a compiler lays them out, in a memory that starts at address 8.\<close>

definition image_of :: "nat \<Rightarrow> nat list \<Rightarrow> memory" where
  "image_of base bytes = \<lparr>mm_Byte = (\<lambda>a. if base \<le> a \<and> a < base + length bytes then Some (bytes ! (a - base)) else None),
     mm_Region = (\<lambda>a. if base \<le> a \<and> a < base + length bytes then Some (base + length bytes, True, False) else None)\<rparr>"

lemma honest_image: "honest (image_of base bytes)"
  by (auto simp: honest_def image_of_def split: if_splits)

definition word_bytes :: "nat \<Rightarrow> nat list" where
  "word_bytes b = [b, 0, 0, 0, 0, 0, 0, 0]"

definition two_classes :: memory where
  "two_classes = image_of 8 (word_bytes 100 @ word_bytes 48 @ word_bytes 32 @ word_bytes 7 @ word_bytes 51 @ byte_values ''1D'' @ [0] @ byte_values ''1B'' @ [0])"

definition two_kinds :: TypeInfoKinds where
  "two_kinds = \<lparr>tk_SingleBase = 100, tk_MultipleBases = 101\<rparr>"

definition class_B :: class_tree where "class_B = Class ''1B'' []"
definition class_D :: class_tree where "class_D = Class ''1D'' [(class_B, 0, False)]"

lemma laid_out_leaf:
  assumes "name_at m a (ct_name t)" "typeinfo_at m kinds a []" "ct_bases t = []"
  shows "laid_out n m kinds a t"
  using assms by (cases n) auto

lemma two_classes_reads:
  "ReadWord two_classes 8 = Some 100" "ReadWord two_classes 16 = Some 48" "ReadWord two_classes 24 = Some 32"
  "ReadWord two_classes 32 = Some 7" "ReadWord two_classes 40 = Some 51"
  "read_bytes two_classes 48 3 = Some (byte_values ''1D'' @ [0])" "read_bytes two_classes 51 3 = Some (byte_values ''1B'' @ [0])"
  "LooksLikeTypeInfo two_classes 8 = Some True" "LooksLikeTypeInfo two_classes 32 = Some True"
  "IsReadableAddress two_classes 48 3" "IsReadableAddress two_classes 51 3"
  by code_simp+

lemma laid_out_two: "laid_out (Suc n) two_classes two_kinds 8 class_D"
proof -
  have B: "name_at two_classes 32 ''1B''" "typeinfo_at two_classes two_kinds 32 []"
    using two_classes_reads by (simp_all add: name_at_def typeinfo_at_def two_kinds_def numeral_3_eq_3)
  have D: "name_at two_classes 8 ''1D''" "typeinfo_at two_classes two_kinds 8 [(32, 0, False)]"
    using two_classes_reads by (simp_all add: name_at_def typeinfo_at_def two_kinds_def numeral_3_eq_3)
  have "laid_out n two_classes two_kinds 32 class_B" using B by (intro laid_out_leaf) (auto simp: class_B_def)
  thus ?thesis using D by (auto simp: class_D_def intro!: exI[of _ "[32]"])
qed



end
