(* ===== verification/VtableRtti.thy ===== *)
theory VtableRtti
  imports VtableLookup
begin

text \<open>
  The same lookups through MSVC RTTI. Source: \<^verbatim>\<open>src/Engine/Memory/VtableLookup.windows.cpp\<close>, without the reader of the section table
  (\<open>FindSection\<close>), whose two sections are arguments. A pointer that is null is 0; offsets stored in the records are signed and relative to the module.
\<close>

section \<open>Records\<close>

definition TypeDescriptorName :: nat where "TypeDescriptorName = 0x10"
definition LocatorOffset :: nat where "LocatorOffset = 0x04"
definition LocatorTypeDescriptor :: nat where "LocatorTypeDescriptor = 0x0C"
definition LocatorHierarchy :: nat where "LocatorHierarchy = 0x10"
definition LocatorSelf :: nat where "LocatorSelf = 0x14"
definition LocatorSize :: nat where "LocatorSize = 0x18"
definition HierarchyBaseCount :: nat where "HierarchyBaseCount = 0x08"
definition HierarchyBaseList :: nat where "HierarchyBaseList = 0x0C"
definition HierarchySize :: nat where "HierarchySize = 0x10"
definition BaseMemberOffset :: nat where "BaseMemberOffset = 0x08"
definition BaseVirtualOffset :: nat where "BaseVirtualOffset = 0x0C"
definition BaseSize :: nat where "BaseSize = 0x18"
definition rtti_MaxBases :: nat where "rtti_MaxBases = 1024"

lemmas rtti_numbers = TypeDescriptorName_def LocatorOffset_def LocatorTypeDescriptor_def LocatorHierarchy_def LocatorSelf_def LocatorSize_def
  HierarchyBaseCount_def HierarchyBaseList_def HierarchySize_def BaseMemberOffset_def BaseVirtualOffset_def BaseSize_def rtti_MaxBases_def

record PeRtti =
  pe_Base :: nat
  pe_Size :: nat
  pe_Data :: mem_range
  pe_ReadOnlyData :: mem_range

definition ReadI32 :: "memory \<Rightarrow> nat \<Rightarrow> int option" where
  "ReadI32 m address = map_option (to_signed 32) (ReadU32 m address)"

section \<open>Searching\<close>

text \<open>The places the search looks at, from the start and a stride apart, and the first that holds the bytes.\<close>

definition places :: "nat \<Rightarrow> nat \<Rightarrow> nat \<Rightarrow> nat \<Rightarrow> nat list" where
  "places start stop len stride = (if stop - start < len then [] else map (\<lambda>i. start + i * stride) [0..<(stop - start - len) div stride + 1])"

definition FindValue :: "memory \<Rightarrow> nat \<Rightarrow> nat \<Rightarrow> nat list \<Rightarrow> nat \<Rightarrow> nat option option" where
  "FindValue m start stop needle stride =
     (if start = 0 \<or> stop = 0 \<or> length needle = 0 then Some None
      else first_found (\<lambda>a. do { bs \<leftarrow> read_bytes m a (length needle); Some (if bs = needle then Some a else None) }) (places start stop (length needle) stride))"

definition End_of :: "mem_range \<Rightarrow> nat" where
  "End_of r = (if fst r \<noteq> 0 then fst r + snd r else 0)"

definition AtRva :: "PeRtti \<Rightarrow> int \<Rightarrow> nat \<Rightarrow> nat option" where
  "AtRva rtti rva bytes = (if rva < 0 \<or> nat rva > pe_Size rtti \<or> pe_Size rtti - nat rva < bytes then None else Some (pe_Base rtti + nat rva))"

definition ClassAndStructNames :: "string \<Rightarrow> string list" where
  "ClassAndStructNames name = [''.?AV'' @ name @ ''@@'', ''.?AU'' @ name @ ''@@'']"

definition terminated :: "string \<Rightarrow> nat list" where
  "terminated s = byte_values s @ [0]"

definition FindTypeDescriptor :: "memory \<Rightarrow> PeRtti \<Rightarrow> string \<Rightarrow> nat option" where
  "FindTypeDescriptor m rtti className = do {
     r \<leftarrow> first_found (\<lambda>mangled. do {
       name \<leftarrow> FindValue m (fst (pe_Data rtti)) (End_of (pe_Data rtti)) (terminated mangled) 1;
       Some (case name of None \<Rightarrow> None
             | Some p \<Rightarrow> if pe_Base rtti + TypeDescriptorName \<le> p then Some ((p - pe_Base rtti - TypeDescriptorName) mod 2 ^ 32) else None) })
       (ClassAndStructNames className);
     Some (case r of None \<Rightarrow> 0 | Some td \<Rightarrow> td) }"

fun TypeDescriptorMatches :: "memory \<Rightarrow> PeRtti \<Rightarrow> int \<Rightarrow> string list \<Rightarrow> bool option" where
  "TypeDescriptorMatches m rtti rva [] = Some False"
| "TypeDescriptorMatches m rtti rva (mangled # names) = (case AtRva rtti (rva + int TypeDescriptorName) (length mangled + 1) of
     None \<Rightarrow> TypeDescriptorMatches m rtti rva names
   | Some name \<Rightarrow> do { bs \<leftarrow> read_bytes m name (length mangled + 1); (if bs = terminated mangled then Some True else TypeDescriptorMatches m rtti rva names) })"

text \<open>Each reference to the descriptor, in order; the first that is inside a locator of this offset which names its own place.\<close>

definition locator_at :: "memory \<Rightarrow> PeRtti \<Rightarrow> nat \<Rightarrow> nat \<Rightarrow> nat \<Rightarrow> nat option option" where
  "locator_at m rtti typeDescriptor offset ref = do {
     td \<leftarrow> ReadU32 m ref;
     (if td \<noteq> typeDescriptor then Some None
      else if ref - fst (pe_ReadOnlyData rtti) < LocatorTypeDescriptor \<or> End_of (pe_ReadOnlyData rtti) - ref < LocatorSize - LocatorTypeDescriptor then Some None
      else let locator = ref - LocatorTypeDescriptor in do {
        sig \<leftarrow> ReadU32 m locator;
        off \<leftarrow> ReadU32 m (locator + LocatorOffset);
        self \<leftarrow> ReadU32 m (locator + LocatorSelf);
        Some (if sig = 1 \<and> off = offset \<and> int self = (int locator - int (pe_Base rtti)) mod 2 ^ 32 then Some locator else None) }) }"

definition FindLocator :: "memory \<Rightarrow> PeRtti \<Rightarrow> nat \<Rightarrow> nat \<Rightarrow> nat option option" where
  "FindLocator m rtti typeDescriptor offset =
     (let start = fst (pe_ReadOnlyData rtti); stop = End_of (pe_ReadOnlyData rtti)
      in if start = 0 \<or> stop = 0 then Some None else first_found (locator_at m rtti typeDescriptor offset) (places start stop 4 4))"

definition TableAfter :: "memory \<Rightarrow> PeRtti \<Rightarrow> nat \<Rightarrow> nat option" where
  "TableAfter m rtti locator = do {
     word \<leftarrow> (let start = fst (pe_ReadOnlyData rtti); stop = End_of (pe_ReadOnlyData rtti) in
        if start = 0 \<or> stop = 0 then Some None
        else first_found (\<lambda>a. do { w \<leftarrow> ReadWord m a; Some (if w = locator then Some a else None) }) (places start stop pointer_size pointer_size));
     Some (case word of None \<Rightarrow> 0 | Some a \<Rightarrow> a + pointer_size) }"

definition PrimaryLocator :: "memory \<Rightarrow> PeRtti \<Rightarrow> string \<Rightarrow> (nat \<times> nat option) option" where
  "PrimaryLocator m rtti className = do {
     td \<leftarrow> FindTypeDescriptor m rtti className;
     loc \<leftarrow> (if td \<noteq> 0 then FindLocator m rtti td 0 else Some None);
     Some (td, loc) }"

definition FindVirtualTableInRtti :: "memory \<Rightarrow> PeRtti \<Rightarrow> string \<Rightarrow> nat option" where
  "FindVirtualTableInRtti m rtti className = do {
     (td, loc) \<leftarrow> PrimaryLocator m rtti className;
     (case loc of None \<Rightarrow> Some 0 | Some locator \<Rightarrow> TableAfter m rtti locator) }"

section \<open>Bases\<close>

text \<open>The entries of the base list after the class itself: the offsets of the bases with a wanted name, and how many of those are virtual.\<close>

fun scan_bases :: "memory \<Rightarrow> PeRtti \<Rightarrow> string list \<Rightarrow> nat \<Rightarrow> nat list \<Rightarrow> int list \<Rightarrow> nat \<Rightarrow> (int list \<times> nat) option" where
  "scan_bases m rtti wanted bases [] offsets virtualBases = Some (offsets, virtualBases)"
| "scan_bases m rtti wanted bases (i # is') offsets virtualBases = do {
     rva \<leftarrow> ReadI32 m (bases + i * 4);
     (case AtRva rtti rva BaseSize of
        None \<Rightarrow> scan_bases m rtti wanted bases is' offsets virtualBases
      | Some base \<Rightarrow> do {
          td \<leftarrow> ReadI32 m base;
          ok \<leftarrow> TypeDescriptorMatches m rtti td wanted;
          (if \<not> ok then scan_bases m rtti wanted bases is' offsets virtualBases
           else do {
             v \<leftarrow> ReadI32 m (base + BaseVirtualOffset);
             (if v \<noteq> -1 then scan_bases m rtti wanted bases is' offsets (virtualBases + 1)
              else do { off \<leftarrow> ReadI32 m (base + BaseMemberOffset); scan_bases m rtti wanted bases is' (offsets @ [off]) virtualBases }) }) }) }"

definition base_list :: "memory \<Rightarrow> PeRtti \<Rightarrow> nat \<Rightarrow> (nat \<times> nat option) option" where
  "base_list m rtti locator = do {
     h_rva \<leftarrow> ReadI32 m (locator + LocatorHierarchy);
     (case AtRva rtti h_rva HierarchySize of
        None \<Rightarrow> Some (0, None)
      | Some hierarchy \<Rightarrow> do {
          cnt \<leftarrow> ReadU32 m (hierarchy + HierarchyBaseCount);
          (if cnt \<le> rtti_MaxBases
           then do { b_rva \<leftarrow> ReadI32 m (hierarchy + HierarchyBaseList); Some (cnt, AtRva rtti b_rva (cnt * 4)) }
           else Some (cnt, None)) }) }"

definition FindBaseInRtti :: "memory \<Rightarrow> PeRtti \<Rightarrow> string \<Rightarrow> string \<Rightarrow> BaseSubobject result option" where
  "FindBaseInRtti m rtti className baseName = do {
     (td, loc) \<leftarrow> PrimaryLocator m rtti className;
     (case loc of
        None \<Rightarrow> Some (Inl (Error_NotFound (''no RTTI for '' @ quoted className)))
      | Some locator \<Rightarrow> do {
          (cnt, list_at) \<leftarrow> base_list m rtti locator;
          (case list_at of
             None \<Rightarrow> Some (Inl (Error_Invalid (''the RTTI base list of '' @ quoted className @ '' is unreadable'')))
           | Some bases \<Rightarrow> do {
               (offsets, virtualBases) \<leftarrow> scan_bases m rtti (ClassAndStructNames baseName) bases [1..<cnt] [] 0;
               (if 1 < length offsets + virtualBases
                then Some (Inl (Error_Invalid (quoted baseName @ '' is a base '' @ to_string (length offsets + virtualBases) @ '' times'')))
                else if virtualBases \<noteq> 0 then Some (Inl (Error_Unsupported (quoted baseName @ '' is a virtual base'')))
                else if offsets = [] then Some (Inl (Error_NotFound (quoted baseName @ '' is not a base'')))
                else let offset = hd offsets in do {
                  baseLocator \<leftarrow> (if offset = 0 then Some (Some locator) else FindLocator m rtti td (nat (offset mod 2 ^ 32)));
                  table \<leftarrow> (case baseLocator of None \<Rightarrow> Some 0 | Some l \<Rightarrow> TableAfter m rtti l);
                  Some (Inr \<lparr>bs_Offset = offset, bs_Table = table\<rparr>) }) }) }) }"

section \<open>Every read is inside the module\<close>

definition rtti_mapped :: "memory \<Rightarrow> PeRtti \<Rightarrow> bool" where
  "rtti_mapped m rtti \<longleftrightarrow> mapped m (pe_Base rtti) (pe_Size rtti) \<and> mapped m (fst (pe_Data rtti)) (snd (pe_Data rtti)) \<and>
     mapped m (fst (pe_ReadOnlyData rtti)) (snd (pe_ReadOnlyData rtti))"

lemma places_inside: "a \<in> set (places start stop len stride) \<Longrightarrow> 0 < stride \<Longrightarrow> 0 < len \<Longrightarrow> start \<le> a \<and> a + len \<le> stop"
proof -
  assume a: "a \<in> set (places start stop len stride)" and s: "0 < stride" "0 < len"
  then obtain i where i: "i \<le> (stop - start - len) div stride" "a = start + i * stride" "\<not> stop - start < len"
    by (auto simp: places_def split: if_splits)
  have "i * stride \<le> stop - start - len" using i(1) s(1) by (simp add: less_eq_div_iff_mult_less_eq)
  thus ?thesis using i(2,3) s(2) by auto
qed

lemma AtRva_mapped:
  assumes "rtti_mapped m rtti" "AtRva rtti rva n = Some p"
  shows "mapped m p n"
  using assms by (auto simp: AtRva_def rtti_mapped_def split: if_splits intro: mapped_part)

lemma ReadI32_mapped: "mapped m a 4 \<Longrightarrow> \<exists>w. ReadI32 m a = Some w"
  using ReadU32_mapped[of m a] by (auto simp: ReadI32_def)

lemma first_found_total:
  "(\<And>x. x \<in> set xs \<Longrightarrow> \<exists>r. f x = Some r \<and> (\<forall>y. r = Some y \<longrightarrow> P y)) \<Longrightarrow> \<exists>r. first_found f xs = Some r \<and> (\<forall>y. r = Some y \<longrightarrow> P y)"
proof (induction xs)
  case (Cons x xs)
  obtain r where r: "f x = Some r" "\<forall>y. r = Some y \<longrightarrow> P y" using Cons.prems[of x] by auto
  obtain r' where r': "first_found f xs = Some r'" "\<forall>y. r' = Some y \<longrightarrow> P y" using Cons by auto
  show ?case using r r' by (cases r) auto
qed auto

text \<open>A locator in the read-only section for this type and offset, which names its own place.\<close>

definition is_locator :: "memory \<Rightarrow> PeRtti \<Rightarrow> nat \<Rightarrow> nat \<Rightarrow> nat \<Rightarrow> bool" where
  "is_locator m rtti td off l \<longleftrightarrow> fst (pe_ReadOnlyData rtti) \<le> l \<and> l + 24 \<le> fst (pe_ReadOnlyData rtti) + snd (pe_ReadOnlyData rtti) \<and>
     ReadU32 m l = Some 1 \<and> ReadU32 m (l + 4) = Some off \<and> ReadU32 m (l + 12) = Some td \<and>
     (\<exists>self. ReadU32 m (l + 20) = Some self \<and> int self = (int l - int (pe_Base rtti)) mod 2 ^ 32)"

definition is_descriptor :: "memory \<Rightarrow> PeRtti \<Rightarrow> nat \<Rightarrow> string \<Rightarrow> bool" where
  "is_descriptor m rtti td className \<longleftrightarrow> (\<exists>mangled \<in> set (ClassAndStructNames className). \<exists>p.
     fst (pe_Data rtti) \<le> p \<and> pe_Base rtti + 16 \<le> p \<and> read_bytes m p (length mangled + 1) = Some (terminated mangled) \<and> td = (p - pe_Base rtti - 16) mod 2 ^ 32)"

lemma section_part:
  assumes "rtti_mapped m rtti" "fst (pe_ReadOnlyData rtti) \<le> a" "a + n \<le> fst (pe_ReadOnlyData rtti) + snd (pe_ReadOnlyData rtti)"
  shows "mapped m a n"
  using assms by (auto simp: rtti_mapped_def intro: mapped_part)

lemma locator_at_total:
  assumes "rtti_mapped m rtti" "fst (pe_ReadOnlyData rtti) \<noteq> 0" "ref \<in> set (places (fst (pe_ReadOnlyData rtti)) (End_of (pe_ReadOnlyData rtti)) 4 4)"
  shows "\<exists>r. locator_at m rtti td off ref = Some r \<and> (\<forall>l. r = Some l \<longrightarrow> is_locator m rtti td off l)"
proof -
  let ?start = "fst (pe_ReadOnlyData rtti)" and ?stop = "End_of (pe_ReadOnlyData rtti)"
  have stop: "?stop = ?start + snd (pe_ReadOnlyData rtti)" using assms(2) by (auto simp: End_of_def)
  have in': "?start \<le> ref" "ref + 4 \<le> ?stop" using places_inside[OF assms(3)] by auto
  obtain w where w: "ReadU32 m ref = Some w" using ReadU32_mapped section_part[OF assms(1) in'(1)] in'(2) stop by metis
  show ?thesis
  proof (cases "w = td \<and> 12 \<le> ref - ?start \<and> 12 \<le> ?stop - ref")
    case False thus ?thesis using w by (auto simp: rtti_numbers locator_at_def)
  next
    case True
    define l where "l = ref - 12"
    have l: "?start \<le> l" "l + 24 \<le> ?stop" "ref = l + 12" using True in' by (auto simp: l_def)
    have "mapped m l 4" "mapped m (l + 4) 4" "mapped m (l + 20) 4" using l stop by (auto intro: section_part[OF assms(1)])
    then obtain a b c where "ReadU32 m l = Some a" "ReadU32 m (l + 4) = Some b" "ReadU32 m (l + 20) = Some c" by (meson ReadU32_mapped)
    thus ?thesis using w True l stop by (auto simp: rtti_numbers is_locator_def locator_at_def Let_def)
  qed
qed

lemma FindLocator_total:
  assumes "rtti_mapped m rtti"
  shows "\<exists>r. FindLocator m rtti td off = Some r \<and> (\<forall>l. r = Some l \<longrightarrow> is_locator m rtti td off l)"
proof (cases "fst (pe_ReadOnlyData rtti) = 0 \<or> End_of (pe_ReadOnlyData rtti) = 0")
  case False
  hence "\<exists>r. first_found (locator_at m rtti td off) (places (fst (pe_ReadOnlyData rtti)) (End_of (pe_ReadOnlyData rtti)) 4 4) = Some r \<and>
      (\<forall>l. r = Some l \<longrightarrow> is_locator m rtti td off l)"
    using locator_at_total[OF assms] by (intro first_found_total) blast
  thus ?thesis using False by (simp add: FindLocator_def Let_def)
qed (auto simp: FindLocator_def Let_def)

lemma TableAfter_total:
  assumes "rtti_mapped m rtti"
  shows "\<exists>t. TableAfter m rtti l = Some t \<and> (t \<noteq> 0 \<longrightarrow> 8 \<le> t \<and> ReadWord m (t - 8) = Some l)"
proof (cases "fst (pe_ReadOnlyData rtti) = 0 \<or> End_of (pe_ReadOnlyData rtti) = 0")
  case False
  let ?start = "fst (pe_ReadOnlyData rtti)" and ?stop = "End_of (pe_ReadOnlyData rtti)"
  let ?f = "\<lambda>a. do { w \<leftarrow> ReadWord m a; Some (if w = l then Some a else None) }"
  have stop: "?stop = ?start + snd (pe_ReadOnlyData rtti)" using False by (auto simp: End_of_def)
  have "\<exists>r. first_found ?f (places ?start ?stop 8 8) = Some r \<and> (\<forall>a. r = Some a \<longrightarrow> ReadWord m a = Some l)"
  proof (rule first_found_total)
    fix a assume "a \<in> set (places ?start ?stop 8 8)"
    hence "mapped m a 8" using places_inside[of a ?start ?stop 8 8] stop by (intro section_part[OF assms]) auto
    then obtain w where "ReadWord m a = Some w" using ReadWord_mapped by blast
    thus "\<exists>r. ?f a = Some r \<and> (\<forall>y. r = Some y \<longrightarrow> ReadWord m y = Some l)" by auto
  qed
  thus ?thesis using False by (auto simp: TableAfter_def Let_def pointer_size_def split: option.splits)
qed (auto simp: TableAfter_def Let_def)

lemma FindValue_total:
  assumes "mapped m start n" "stop = (if start = 0 then 0 else start + n)"
  shows "\<exists>r. FindValue m start stop needle 1 = Some r \<and> (\<forall>p. r = Some p \<longrightarrow> start \<le> p \<and> read_bytes m p (length needle) = Some needle)"
proof (cases "start = 0 \<or> stop = 0 \<or> length needle = 0")
  case False
  let ?f = "\<lambda>a. do { bs \<leftarrow> read_bytes m a (length needle); Some (if bs = needle then Some a else None) }"
  have "\<exists>r. first_found ?f (places start stop (length needle) 1) = Some r \<and> (\<forall>p. r = Some p \<longrightarrow> start \<le> p \<and> read_bytes m p (length needle) = Some needle)"
  proof (rule first_found_total)
    fix a assume "a \<in> set (places start stop (length needle) 1)"
    hence a: "start \<le> a" "a + length needle \<le> stop" using places_inside[of a start stop "length needle" 1] False by auto
    hence "mapped m a (length needle)" using assms False by (auto intro: mapped_part)
    then obtain bs where "read_bytes m a (length needle) = Some bs" using read_bytes_mapped by blast
    thus "\<exists>r. ?f a = Some r \<and> (\<forall>p. r = Some p \<longrightarrow> start \<le> p \<and> read_bytes m p (length needle) = Some needle)" using a(1) by auto
  qed
  thus ?thesis using False by (simp add: FindValue_def)
qed (auto simp: FindValue_def)

lemma length_terminated [simp]: "length (terminated s) = length s + 1"
  by (simp add: terminated_def byte_values_def)

lemma FindTypeDescriptor_total:
  assumes "rtti_mapped m rtti"
  shows "\<exists>td. FindTypeDescriptor m rtti c = Some td \<and> (td \<noteq> 0 \<longrightarrow> is_descriptor m rtti td c)"
proof -
  let ?f = "\<lambda>mangled. do {
       name \<leftarrow> FindValue m (fst (pe_Data rtti)) (End_of (pe_Data rtti)) (terminated mangled) 1;
       Some (case name of None \<Rightarrow> None
             | Some p \<Rightarrow> if pe_Base rtti + TypeDescriptorName \<le> p then Some ((p - pe_Base rtti - TypeDescriptorName) mod 2 ^ 32) else None) }"
  have "\<exists>r. first_found ?f (ClassAndStructNames c) = Some r \<and> (\<forall>td. r = Some td \<longrightarrow> is_descriptor m rtti td c)"
  proof (rule first_found_total)
    fix mangled assume mg: "mangled \<in> set (ClassAndStructNames c)"
    have "mapped m (fst (pe_Data rtti)) (snd (pe_Data rtti))" using assms by (simp add: rtti_mapped_def)
    moreover have "End_of (pe_Data rtti) = (if fst (pe_Data rtti) = 0 then 0 else fst (pe_Data rtti) + snd (pe_Data rtti))" by (simp add: End_of_def)
    ultimately obtain r where r: "FindValue m (fst (pe_Data rtti)) (End_of (pe_Data rtti)) (terminated mangled) 1 = Some r"
      "\<And>p. r = Some p \<Longrightarrow> fst (pe_Data rtti) \<le> p \<and> read_bytes m p (length mangled + 1) = Some (terminated mangled)"
      using FindValue_total[of m "fst (pe_Data rtti)" "snd (pe_Data rtti)" "End_of (pe_Data rtti)" "terminated mangled"] unfolding length_terminated by blast
    show "\<exists>r. ?f mangled = Some r \<and> (\<forall>td. r = Some td \<longrightarrow> is_descriptor m rtti td c)"
    proof (cases r)
      case (Some p)
      have "is_descriptor m rtti ((p - pe_Base rtti - 16) mod 2 ^ 32) c" if "pe_Base rtti + 16 \<le> p"
        unfolding is_descriptor_def using mg r(2)[OF Some] that by blast
      thus ?thesis using r(1) Some by (simp add: TypeDescriptorName_def)
    qed (use r(1) in simp)
  qed
  thus ?thesis by (auto simp: FindTypeDescriptor_def split: option.splits)
qed


lemma TypeDescriptorMatches_total: "rtti_mapped m rtti \<Longrightarrow> \<exists>b. TypeDescriptorMatches m rtti rva names = Some b"
proof (induction names)
  case (Cons n names)
  show ?case
  proof (cases "AtRva rtti (rva + int TypeDescriptorName) (length n + 1)")
    case (Some p)
    then obtain bs where "read_bytes m p (length n + 1) = Some bs" using AtRva_mapped[OF Cons.prems Some] read_bytes_mapped by blast
    thus ?thesis using Cons Some by (auto simp del: read_bytes.simps)
  qed (use Cons in auto)
qed auto

text \<open>One entry of a base list: none of the wanted names, or whether it is virtual and its offset.\<close>

definition base_entry :: "memory \<Rightarrow> PeRtti \<Rightarrow> string list \<Rightarrow> nat \<Rightarrow> nat \<Rightarrow> (bool \<times> int) option option" where
  "base_entry m rtti wanted bases i = do {
     rva \<leftarrow> ReadI32 m (bases + i * 4);
     (case AtRva rtti rva BaseSize of
        None \<Rightarrow> Some None
      | Some base \<Rightarrow> do {
          td \<leftarrow> ReadI32 m base;
          ok \<leftarrow> TypeDescriptorMatches m rtti td wanted;
          (if \<not> ok then Some None
           else do { v \<leftarrow> ReadI32 m (base + BaseVirtualOffset); off \<leftarrow> ReadI32 m (base + BaseMemberOffset); Some (Some (v \<noteq> -1, off)) }) }) }"

definition found_entry :: "memory \<Rightarrow> PeRtti \<Rightarrow> string list \<Rightarrow> nat \<Rightarrow> nat \<Rightarrow> (bool \<times> int) option" where
  "found_entry m rtti wanted bases i = Option.bind (base_entry m rtti wanted bases i) (\<lambda>e. e)"

lemma entry_reads:
  assumes "rtti_mapped m rtti" "AtRva rtti rva BaseSize = Some base"
  obtains td v off where "ReadI32 m base = Some td" "ReadI32 m (base + 12) = Some v" "ReadI32 m (base + 8) = Some off"
proof -
  have "mapped m base 24" using AtRva_mapped[OF assms] by (simp add: BaseSize_def)
  hence "mapped m base 4" "mapped m (base + 12) 4" "mapped m (base + 8) 4" by (auto intro: mapped_part)
  thus thesis using that by (meson ReadI32_mapped)
qed

lemma base_entry_total:
  assumes "rtti_mapped m rtti" "mapped m (bases + i * 4) 4"
  shows "\<exists>e. base_entry m rtti wanted bases i = Some e"
proof -
  obtain rva where rva: "ReadI32 m (bases + i * 4) = Some rva" using ReadI32_mapped[OF assms(2)] by blast
  show ?thesis
  proof (cases "AtRva rtti rva BaseSize")
    case (Some base)
    obtain td v off where "ReadI32 m base = Some td" "ReadI32 m (base + 12) = Some v" "ReadI32 m (base + 8) = Some off"
      using entry_reads[OF assms(1) Some] by blast
    thus ?thesis using rva Some TypeDescriptorMatches_total[OF assms(1), of td wanted] by (auto simp: base_entry_def BaseVirtualOffset_def BaseMemberOffset_def)
  qed (use rva in \<open>simp add: base_entry_def\<close>)
qed

lemma scan_bases_step:
  assumes "rtti_mapped m rtti" "mapped m (bases + i * 4) 4"
  shows "scan_bases m rtti wanted bases (i # is') offsets vs = (case found_entry m rtti wanted bases i of
      None \<Rightarrow> scan_bases m rtti wanted bases is' offsets vs
    | Some (v, off) \<Rightarrow> if v then scan_bases m rtti wanted bases is' offsets (vs + 1) else scan_bases m rtti wanted bases is' (offsets @ [off]) vs)"
proof -
  obtain rva where rva: "ReadI32 m (bases + i * 4) = Some rva" using ReadI32_mapped[OF assms(2)] by blast
  show ?thesis
  proof (cases "AtRva rtti rva BaseSize")
    case (Some base)
    obtain td v off where "ReadI32 m base = Some td" "ReadI32 m (base + 12) = Some v" "ReadI32 m (base + 8) = Some off"
      using entry_reads[OF assms(1) Some] by blast
    thus ?thesis using rva Some TypeDescriptorMatches_total[OF assms(1), of td wanted]
      by (auto simp: base_entry_def found_entry_def BaseVirtualOffset_def BaseMemberOffset_def)
  qed (use rva in \<open>simp add: base_entry_def found_entry_def\<close>)
qed

lemma scan_bases_exact:
  assumes "rtti_mapped m rtti"
  shows "(\<And>i. i \<in> set is' \<Longrightarrow> mapped m (bases + i * 4) 4) \<Longrightarrow>
    scan_bases m rtti wanted bases is' offsets vs =
      (let es = List.map_filter (found_entry m rtti wanted bases) is' in Some (offsets @ map snd (filter (\<lambda>e. \<not> fst e) es), vs + length (filter fst es)))"
proof (induction is' arbitrary: offsets vs)
  case (Cons i is')
  have "mapped m (bases + i * 4) 4" using Cons.prems by simp
  thus ?case using Cons.IH Cons.prems
    by (auto simp: scan_bases_step[OF assms] map_filter_simps Let_def split: option.splits simp del: scan_bases.simps(2))
qed (simp add: map_filter_simps)


lemma map_filter_single:
  assumes "List.map_filter f xs = [y]" "distinct xs"
  obtains x where "x \<in> set xs" "f x = Some y" "\<And>x'. x' \<in> set xs \<Longrightarrow> x' \<noteq> x \<Longrightarrow> f x' = None"
proof -
  have "length (filter (\<lambda>x. f x \<noteq> None) xs) = 1" using arg_cong[OF assms(1), of length] by (simp add: List.map_filter_def)
  then obtain x where x: "filter (\<lambda>x. f x \<noteq> None) xs = [x]" by (auto simp: length_Suc_conv)
  have s: "{x \<in> set xs. f x \<noteq> None} = {x}" using arg_cong[OF x, of set] by simp
  have "map (the \<circ> f) (filter (\<lambda>x. f x \<noteq> None) xs) = [y]" using assms(1) by (simp add: List.map_filter_def)
  hence "the (f x) = y" unfolding x by simp
  moreover have "f x \<noteq> None" using s by blast
  ultimately have "f x = Some y" by auto
  thus thesis using that[of x] s by blast
qed

lemma PrimaryLocator_total:
  assumes "rtti_mapped m rtti"
  shows "\<exists>td loc. PrimaryLocator m rtti c = Some (td, loc) \<and> (\<forall>l. loc = Some l \<longrightarrow> is_descriptor m rtti td c \<and> is_locator m rtti td 0 l)"
proof -
  obtain td where td: "FindTypeDescriptor m rtti c = Some td" "td \<noteq> 0 \<longrightarrow> is_descriptor m rtti td c" using FindTypeDescriptor_total[OF assms] by blast
  show ?thesis using td FindLocator_total[OF assms, of td 0] by (cases "td = 0") (auto simp: PrimaryLocator_def)
qed

lemma base_list_total:
  assumes "rtti_mapped m rtti" "is_locator m rtti td off l"
  shows "\<exists>cnt lst. base_list m rtti l = Some (cnt, lst) \<and> (\<forall>b. lst = Some b \<longrightarrow> mapped m b (cnt * 4))"
proof -
  have "mapped m (l + 16) 4" using assms(2) by (intro section_part[OF assms(1)]) (auto simp: is_locator_def)
  then obtain h where h: "ReadI32 m (l + 16) = Some h" using ReadI32_mapped by blast
  show ?thesis
  proof (cases "AtRva rtti h HierarchySize")
    case (Some p)
    have p: "mapped m p 16" using AtRva_mapped[OF assms(1) Some] by (simp add: HierarchySize_def)
    have "mapped m (p + 8) 4" "mapped m (p + 12) 4" using p by (auto intro: mapped_part)
    then obtain cnt b where "ReadU32 m (p + 8) = Some cnt" "ReadI32 m (p + 12) = Some b" using ReadU32_mapped ReadI32_mapped by blast
    thus ?thesis using h Some AtRva_mapped[OF assms(1), of b "cnt * 4"]
      by (auto simp: base_list_def LocatorHierarchy_def HierarchyBaseCount_def HierarchyBaseList_def)
  qed (use h in \<open>auto simp: base_list_def LocatorHierarchy_def\<close>)
qed

definition base_found :: "memory \<Rightarrow> PeRtti \<Rightarrow> string \<Rightarrow> string \<Rightarrow> BaseSubobject \<Rightarrow> bool" where
  "base_found m rtti c b s \<longleftrightarrow> (\<exists>td l cnt bases i.
     is_descriptor m rtti td c \<and> is_locator m rtti td 0 l \<and> base_list m rtti l = Some (cnt, Some bases) \<and>
     i \<in> {1..<cnt} \<and> found_entry m rtti (ClassAndStructNames b) bases i = Some (False, bs_Offset s) \<and>
     (\<forall>j \<in> {1..<cnt}. j \<noteq> i \<longrightarrow> found_entry m rtti (ClassAndStructNames b) bases j = None) \<and>
     (bs_Table s \<noteq> 0 \<longrightarrow> (\<exists>l'. is_locator m rtti td (nat (bs_Offset s mod 2 ^ 32)) l' \<and> ReadWord m (bs_Table s - 8) = Some l')))"

lemma base_foundI:
  assumes "is_descriptor m rtti td c" "is_locator m rtti td 0 l" "base_list m rtti l = Some (cnt, Some bases)"
    and "i \<in> {1..<cnt}" "found_entry m rtti (ClassAndStructNames b) bases i = Some (False, bs_Offset s)"
    and "\<And>j. j \<in> {1..<cnt} \<Longrightarrow> j \<noteq> i \<Longrightarrow> found_entry m rtti (ClassAndStructNames b) bases j = None"
    and "bs_Table s \<noteq> 0 \<longrightarrow> (\<exists>l'. is_locator m rtti td (nat (bs_Offset s mod 2 ^ 32)) l' \<and> ReadWord m (bs_Table s - 8) = Some l')"
  shows "base_found m rtti c b s"
  unfolding base_found_def using assms by blast

text \<open>The table of the base at an offset: behind a locator of the class for that offset, or null.\<close>

lemma base_table_total:
  assumes "rtti_mapped m rtti" "is_locator m rtti td 0 l"
  shows "\<exists>k t. (if off = 0 then Some (Some l) else FindLocator m rtti td (nat (off mod 2 ^ 32))) = Some k \<and>
    (case k of None \<Rightarrow> Some 0 | Some l' \<Rightarrow> TableAfter m rtti l') = Some t \<and>
    (t \<noteq> 0 \<longrightarrow> (\<exists>l'. is_locator m rtti td (nat (off mod 2 ^ 32)) l' \<and> ReadWord m (t - 8) = Some l'))"
proof -
  obtain k where k: "(if off = 0 then Some (Some l) else FindLocator m rtti td (nat (off mod 2 ^ 32))) = Some k"
    "\<And>l'. k = Some l' \<Longrightarrow> is_locator m rtti td (nat (off mod 2 ^ 32)) l'"
    using FindLocator_total[OF assms(1), of td "nat (off mod 2 ^ 32)"] assms(2) by (cases "off = 0") auto
  show ?thesis
  proof (cases k)
    case (Some l')
    obtain t where "TableAfter m rtti l' = Some t" "t \<noteq> 0 \<longrightarrow> ReadWord m (t - 8) = Some l'" using TableAfter_total[OF assms(1)] by blast
    thus ?thesis using k(1) k(2)[OF Some] Some by auto
  qed (use k(1) in auto)
qed

lemma single_or_refused:
  assumes "\<not> (\<exists>off. es = [(False, off)])"
  shows "1 < length (map snd (filter (\<lambda>e. \<not> fst e) es)) + length (filter fst es) \<or> length (filter fst es) \<noteq> 0 \<or> map snd (filter (\<lambda>e. \<not> fst e) es) = []"
proof (rule ccontr)
  assume n: "\<not> ?thesis"
  have "length (filter (\<lambda>e. \<not> fst e) es) + length (filter fst es) = length es" using sum_length_filter_compl[of fst es] by simp
  hence "length es = 1" "filter fst es = []" using n by (auto simp: not_less le_Suc_eq)
  then obtain e where "es = [e]" "\<not> fst e" by (auto simp: length_Suc_conv split: if_splits)
  thus False using assms by (cases e) auto
qed

text \<open>
  MSVC RTTI lookups read only the module and answer only what is recorded. For any bytes in the module the base lookup returns, and an offset it returns
  is that of the only entry with that name in the base list of the class, which is not virtual; a table it returns stands behind a word that points at a
  locator of the class for that offset.
\<close>

theorem FindBaseInRtti_sound:
  assumes "rtti_mapped m rtti"
  shows "\<exists>r. FindBaseInRtti m rtti c b = Some r \<and> (\<forall>s. r = Inr s \<longrightarrow> base_found m rtti c b s)"
proof -
  obtain td loc where p: "PrimaryLocator m rtti c = Some (td, loc)" "\<And>l. loc = Some l \<Longrightarrow> is_descriptor m rtti td c \<and> is_locator m rtti td 0 l"
    using PrimaryLocator_total[OF assms] by blast
  show ?thesis
  proof (cases loc)
    case (Some l)
    have l: "is_descriptor m rtti td c" "is_locator m rtti td 0 l" using p(2)[OF Some] by auto
    obtain cnt lst where bl: "base_list m rtti l = Some (cnt, lst)" "\<And>b. lst = Some b \<Longrightarrow> mapped m b (cnt * 4)"
      using base_list_total[OF assms l(2)] by blast
    show ?thesis
    proof (cases lst)
      case bases: (Some bases)
      let ?es = "List.map_filter (found_entry m rtti (ClassAndStructNames b) bases) [1..<cnt]"
      have "mapped m (bases + i * 4) 4" if "i \<in> set [1..<cnt]" for i using bl(2)[OF bases] that by (auto intro: mapped_part)
      hence scan: "scan_bases m rtti (ClassAndStructNames b) bases [1..<cnt] [] 0 = Some (map snd (filter (\<lambda>e. \<not> fst e) ?es), length (filter fst ?es))"
        using scan_bases_exact[OF assms, of "[1..<cnt]" bases "ClassAndStructNames b" "[]" 0] by (simp add: Let_def)
      note unfold = FindBaseInRtti_def p(1) Some bl(1) bases scan
      show ?thesis
      proof (cases "\<exists>off. ?es = [(False, off)]")
        case True
        then obtain off where es: "?es = [(False, off)]" by blast
        obtain i where i: "i \<in> set [1..<cnt]" "found_entry m rtti (ClassAndStructNames b) bases i = Some (False, off)"
          "\<And>j. j \<in> set [1..<cnt] \<Longrightarrow> j \<noteq> i \<Longrightarrow> found_entry m rtti (ClassAndStructNames b) bases j = None"
          using map_filter_single[OF es distinct_upt] by blast
        obtain k t where t: "(if off = 0 then Some (Some l) else FindLocator m rtti td (nat (off mod 2 ^ 32))) = Some k"
          "(case k of None \<Rightarrow> Some 0 | Some l' \<Rightarrow> TableAfter m rtti l') = Some t"
          "t \<noteq> 0 \<longrightarrow> (\<exists>l'. is_locator m rtti td (nat (off mod 2 ^ 32)) l' \<and> ReadWord m (t - 8) = Some l')"
          using base_table_total[OF assms l(2), of off] by blast
        have "FindBaseInRtti m rtti c b = Some (Inr \<lparr>bs_Offset = off, bs_Table = t\<rparr>)" using t(1,2) by (simp add: unfold es del: One_nat_def)
        moreover have "base_found m rtti c b \<lparr>bs_Offset = off, bs_Table = t\<rparr>"
          by (rule base_foundI[OF l, of cnt bases i]) (use bl(1) bases i t(3) in simp_all)
        ultimately show ?thesis by auto
      next
        case False
        obtain os vs where o: "scan_bases m rtti (ClassAndStructNames b) bases [1..<cnt] [] 0 = Some (os, vs)" "1 < length os + vs \<or> vs \<noteq> 0 \<or> os = []"
          by (rule that[OF scan single_or_refused[OF False]])
        have "\<exists>e. FindBaseInRtti m rtti c b = Some (Inl e)" using o(2)
          by (elim disjE) (simp_all add: FindBaseInRtti_def p(1) Some bl(1) bases o(1) del: One_nat_def)
        thus ?thesis by auto
      qed
    qed (auto simp: FindBaseInRtti_def p(1) Some bl(1))
  qed (auto simp: FindBaseInRtti_def p(1))
qed


text \<open>A module of 136 bytes at address 16 in which a class D has the single base B.\<close>

definition u32_bytes :: "nat \<Rightarrow> nat list" where
  "u32_bytes b = [b, 0, 0, 0]"

definition small_module :: memory where
  "small_module = image_of 16 (
     word_bytes 32 @ word_bytes 1 @ concat (map u32_bytes [1, 0, 0, 88, 40, 16,  0, 0, 2, 56,  64, 64]) @
     u32_bytes 112 @ u32_bytes 0 @ u32_bytes 0 @ [255, 255, 255, 255] @ u32_bytes 0 @ u32_bytes 0 @
     replicate 16 0 @ terminated ''.?AVD@@'' @ replicate 16 0 @ terminated ''.?AVB@@'')"

definition small_rtti :: PeRtti where
  "small_rtti = \<lparr>pe_Base = 16, pe_Size = 136, pe_Data = (120, 32), pe_ReadOnlyData = (16, 88)\<rparr>"

lemma image_mapped: "mapped (image_of base bytes) base (length bytes)"
  by (simp add: mapped_def image_of_def)

lemma small_rtti_mapped: "rtti_mapped small_module small_rtti"
proof -
  have "mapped small_module 16 136" unfolding small_module_def using image_mapped
    by (rule back_subst[where P = "\<lambda>n. mapped _ 16 n"]) (simp add: terminated_def byte_values_def u32_bytes_def word_bytes_def)
  thus ?thesis by (auto simp: rtti_mapped_def small_rtti_def intro: mapped_part)
qed

lemma small_parts:
  "FindValue small_module 120 152 (terminated ''.?AVD@@'') 1 = Some (Some 120)"
  "FindLocator small_module small_rtti 88 0 = Some (Some 32)"
  "base_list small_module small_rtti 32 = Some (2, Some 72)"
  "TableAfter small_module small_rtti 32 = Some 24"
  "ReadI32 small_module 76 = Some 64" "ReadI32 small_module 80 = Some 112" "ReadI32 small_module 88 = Some 0"
  "TypeDescriptorMatches small_module small_rtti 112 (ClassAndStructNames ''B'') = Some True"
  "read_bytes small_module 92 4 = Some [255, 255, 255, 255]"
  by code_simp+

lemma small_lookup: "FindBaseInRtti small_module small_rtti ''D'' ''B'' = Some (Inr \<lparr>bs_Offset = 0, bs_Table = 24\<rparr>)"
proof -
  have v: "ReadI32 small_module 92 = Some (- 1)" using small_parts(9) by (simp add: ReadI32_def ReadU32_def to_signed_def)
  have td: "FindTypeDescriptor small_module small_rtti ''D'' = Some 88"
    using small_parts(1) by (simp add: FindTypeDescriptor_def ClassAndStructNames_def small_rtti_def End_of_def TypeDescriptorName_def)
  have rva: "AtRva small_rtti 64 24 = Some 80" by (simp add: AtRva_def small_rtti_def)
  have "scan_bases small_module small_rtti (ClassAndStructNames ''B'') 72 [1..<2] [] 0 = Some ([0], 0)"
    using small_parts(5-8) v rva by (simp add: rtti_numbers upt_rec)
  thus ?thesis using td small_parts(2-4) by (simp add: FindBaseInRtti_def PrimaryLocator_def)
qed

theorem FindBaseInRtti_sound_witness:
  "FindBaseInRtti small_module small_rtti ''D'' ''B'' = Some (Inr \<lparr>bs_Offset = 0, bs_Table = 24\<rparr>) \<and>
   base_found small_module small_rtti ''D'' ''B'' \<lparr>bs_Offset = 0, bs_Table = 24\<rparr>"
  using FindBaseInRtti_sound[OF small_rtti_mapped, of "''D''" "''B''"] small_lookup by auto

end
