(* ===== verification/GameThreadQueue.thy ===== *)
theory GameThreadQueue
  imports Prelude
begin

text \<open>
  Callbacks that worker threads hand to the game thread. Source: \<^verbatim>\<open>include/VoltMod/Core/Threading/GameThreadQueue.hpp\<close>. Each operation holds the
  queue's mutex from its first access to its last, so each is one step. The flag that lets an empty queue be skipped without the lock is part of the state.
\<close>

record 'a GameThreadQueue =
  gq_waiting :: "'a list"
  gq_any :: bool

definition new_queue :: "'a GameThreadQueue" where
  "new_queue = \<lparr>gq_waiting = [], gq_any = False\<rparr>"

definition gq_Push :: "'a \<Rightarrow> 'a GameThreadQueue \<Rightarrow> 'a GameThreadQueue" where
  "gq_Push completion q = q\<lparr>gq_waiting := gq_waiting q @ [completion], gq_any := True\<rparr>"

text \<open>What \<open>RunAll\<close> is about to run, and the queue it leaves behind.\<close>

definition gq_RunAll :: "'a GameThreadQueue \<Rightarrow> 'a list \<times> 'a GameThreadQueue" where
  "gq_RunAll q = (if \<not> gq_any q then ([], q) else (gq_waiting q, q\<lparr>gq_waiting := [], gq_any := False\<rparr>))"

definition gq_Clear :: "'a GameThreadQueue \<Rightarrow> 'a GameThreadQueue" where
  "gq_Clear q = q\<lparr>gq_waiting := [], gq_any := False\<rparr>"

text \<open>The flag is never wrong: nothing waits while it says so.\<close>

definition queue_ok :: "'a GameThreadQueue \<Rightarrow> bool" where
  "queue_ok q \<longleftrightarrow> gq_any q = (gq_waiting q \<noteq> [])"

section \<open>What a client relies on\<close>

locale handoff =
  fixes push :: "'a \<Rightarrow> 'q \<Rightarrow> 'q"
    and take_all :: "'q \<Rightarrow> 'a list \<times> 'q"
    and clear :: "'q \<Rightarrow> 'q"
    and waiting :: "'q \<Rightarrow> 'a list"
    and good :: "'q \<Rightarrow> bool"
  assumes push_waits: "waiting (push x q) = waiting q @ [x]"
    and push_good: "good (push x q)"
    and take_waiting: "good q \<Longrightarrow> fst (take_all q) = waiting q \<and> waiting (snd (take_all q)) = [] \<and> good (snd (take_all q))"
    and clear_waiting: "waiting (clear q) = [] \<and> good (clear q)"
begin

lemma pushes_wait: "waiting (fold push xs q) = waiting q @ xs"
  by (induction xs arbitrary: q) (simp_all add: push_waits)

lemma pushes_good: "good q \<Longrightarrow> good (fold push xs q)"
  by (induction xs arbitrary: q) (simp_all add: push_good)

text \<open>What was pushed comes out once and in order.\<close>

lemma pushes_taken: "good q \<Longrightarrow> fst (take_all (fold push xs q)) = waiting q @ xs"
  using take_waiting[OF pushes_good] pushes_wait by simp

end

interpretation gq: handoff gq_Push gq_RunAll gq_Clear gq_waiting queue_ok
  by unfold_locales (auto simp: gq_Push_def gq_RunAll_def gq_Clear_def queue_ok_def)

lemma queue_ok_new [simp]: "queue_ok new_queue" "gq_waiting new_queue = []"
  by (simp_all add: queue_ok_def new_queue_def)

end
