(* ===== verification/Migrations.thy ===== *)
theory Migrations
  imports Strings Result
begin

text \<open>
  Database migrations: the version in a file name, dialect placeholders, splitting a file into statements, and running the files
  that are new. Sources: \<^verbatim>\<open>src/Database/Migrator.cpp\<close>, \<^verbatim>\<open>include/VoltMod/Database/{Migrator,Driver}.hpp\<close>. The directory, the
  files and the clock are arguments; a connection is a state with the operations the code calls on it, each of which may throw. Files of one version are
  in an order \<^verbatim>\<open>std::sort\<close> does not promise; here they keep the directory's.
\<close>

section \<open>File names and dialects\<close>

datatype Driver = Postgres | MariaDb | Sqlite

definition ParseMigrationVersion :: "string \<Rightarrow> int option" where
  "ParseMigrationVersion filename = map_option fst (from_chars_signed int_max filename)"

record Dialect =
  di_AutoIncrementKey :: string
  di_EpochNow :: string
  di_True :: string
  di_False :: string
  di_InsertIfAbsent :: string
  di_NeedsConflictClause :: bool

definition DialectFor :: "Driver \<Rightarrow> Dialect" where
  "DialectFor driver = (case driver of
     Postgres \<Rightarrow> \<lparr>di_AutoIncrementKey = ''BIGSERIAL PRIMARY KEY'', di_EpochNow = ''EXTRACT(EPOCH FROM NOW())::BIGINT'', di_True = ''TRUE'', di_False = ''FALSE'',
       di_InsertIfAbsent = ''INSERT INTO'', di_NeedsConflictClause = True\<rparr>
   | MariaDb \<Rightarrow> \<lparr>di_AutoIncrementKey = ''BIGINT AUTO_INCREMENT PRIMARY KEY'', di_EpochNow = ''(UNIX_TIMESTAMP())'', di_True = ''TRUE'', di_False = ''FALSE'',
       di_InsertIfAbsent = ''INSERT IGNORE INTO'', di_NeedsConflictClause = False\<rparr>
   | Sqlite \<Rightarrow> \<lparr>di_AutoIncrementKey = ''INTEGER PRIMARY KEY AUTOINCREMENT'', di_EpochNow = ''(strftime('' @ quoted ''%s'' @ '','' @ quoted ''now'' @ ''))'', di_True = ''1'', di_False = ''0'',
       di_InsertIfAbsent = ''INSERT OR IGNORE INTO'', di_NeedsConflictClause = False\<rparr>)"

definition name_char :: "char \<Rightarrow> bool" where
  "name_char c \<longleftrightarrow> 65 \<le> byte_of c \<and> byte_of c \<le> 90 \<or> c = CHR ''_''"

definition ConflictToken :: string where "ConflictToken = ''ON_CONFLICT(''"

text \<open>What follows an \<^verbatim>\<open>@\<close>: the token of a placeholder and the text after its closing \<^verbatim>\<open>@\<close>, or nothing when this is ordinary text.\<close>

definition read_placeholder :: "string \<Rightarrow> (string \<times> string) option" where
  "read_placeholder body =
     (let name = takeWhile name_char body; r = dropWhile name_char body;
          (token, r1) =
            (if name \<noteq> [] \<and> r \<noteq> [] \<and> hd r = CHR ''(''
             then (let args = takeWhile (\<lambda>c. c \<noteq> CHR '')'' \<and> c \<noteq> CHR ''@'') r; r2 = dropWhile (\<lambda>c. c \<noteq> CHR '')'' \<and> c \<noteq> CHR ''@'') r
                   in if r2 \<noteq> [] \<and> hd r2 = CHR '')'' then (name @ args @ '')'', tl r2) else (name, r))
             else (name, r))
      in if name = [] \<or> r1 = [] \<or> hd r1 \<noteq> CHR ''@'' then None else Some (token, tl r1))"

definition render_placeholder :: "Dialect \<Rightarrow> string \<Rightarrow> string result" where
  "render_placeholder dialect token =
     (if token = ''ID'' then Inr (di_AutoIncrementKey dialect)
      else if token = ''NOW'' then Inr (di_EpochNow dialect)
      else if token = ''TRUE'' then Inr (di_True dialect)
      else if token = ''FALSE'' then Inr (di_False dialect)
      else if token = ''INSERT_IF_ABSENT'' then Inr (di_InsertIfAbsent dialect)
      else if StartsWith token ConflictToken
      then Inr (if di_NeedsConflictClause dialect then ''ON CONFLICT ('' @ drop (length ConflictToken) token @ '' DO NOTHING'' else [])
      else Inl (Error_Invalid (''unknown migration placeholder @'' @ token @ ''@'')))"

lemma read_placeholder_shorter: "read_placeholder body = Some (token, rest) \<Longrightarrow> length rest < length body"
proof -
  assume a: "read_placeholder body = Some (token, rest)"
  define r where "r = dropWhile name_char body"
  define r2 where "r2 = dropWhile (\<lambda>c. c \<noteq> CHR '')'' \<and> c \<noteq> CHR ''@'') r"
  have "length r \<le> length body" "length r2 \<le> length r" by (simp_all add: r_def r2_def length_dropWhile_le)
  moreover have "(r \<noteq> [] \<and> rest = tl r) \<or> (r2 \<noteq> [] \<and> tl r2 \<noteq> [] \<and> rest = tl (tl r2))"
    using a by (auto simp: read_placeholder_def Let_def r_def[symmetric] r2_def[symmetric] split: if_split_asm)
  ultimately show ?thesis by (cases r; cases r2) auto
qed

function resolve_dialect :: "Dialect \<Rightarrow> string \<Rightarrow> string \<Rightarrow> string result" where
  "resolve_dialect dialect out sql =
     (let before = takeWhile (\<lambda>c. c \<noteq> CHR ''@'') sql; after = dropWhile (\<lambda>c. c \<noteq> CHR ''@'') sql
      in if after = [] then Inr (out @ sql)
      else case read_placeholder (tl after) of
        None \<Rightarrow> resolve_dialect dialect (out @ before @ ''@'') (tl after)
      | Some (token, rest) \<Rightarrow>
          (case render_placeholder dialect token of
             Inl e \<Rightarrow> Inl e
           | Inr text_of \<Rightarrow> resolve_dialect dialect (out @ before @ text_of) rest))"
  by pat_completeness auto

termination
proof (relation "measure (\<lambda>(dialect, out, sql). length sql)", goal_cases)
  case (2 dialect out sql before after)
  then have "length (tl after) < length after" by (cases after) auto
  also have "length after \<le> length sql" using 2 by (simp add: length_dropWhile_le)
  finally show ?case by simp
next
  case (3 dialect out sql before after tr token rest text_of)
  then have "read_placeholder (tl after) = Some (token, rest)" by simp
  then have "length rest < length (tl after)" by (rule read_placeholder_shorter)
  also have "length (tl after) \<le> length sql" using 3 by (metis diff_le_self le_trans length_dropWhile_le length_tl)
  finally show ?case by simp
qed simp

declare resolve_dialect.simps [simp del]

definition ResolveDialect :: "string \<Rightarrow> Driver \<Rightarrow> string result" where
  "ResolveDialect sql driver = resolve_dialect (DialectFor driver) [] sql"

section \<open>Statements\<close>

definition blank :: "char \<Rightarrow> bool" where
  "blank c \<longleftrightarrow> c = CHR '' '' \<or> c = CHR 0x09 \<or> c = CHR 0x0D \<or> c = CHR 0x0A"

definition flush :: "string \<Rightarrow> string list \<Rightarrow> string list" where
  "flush current statements =
     (let s = rev (dropWhile blank (rev (dropWhile blank current))) in if s = [] then statements else statements @ [s])"

abbreviation quote :: char where "quote \<equiv> CHR 0x27"
abbreviation newline :: char where "newline \<equiv> CHR 0x0A"

function split_statements :: "bool \<Rightarrow> string \<Rightarrow> string list \<Rightarrow> string \<Rightarrow> string list" where
  "split_statements inLiteral current statements [] = flush current statements"
| "split_statements inLiteral current statements (c # cs) =
     (if inLiteral then split_statements (c \<noteq> quote) (current @ [c]) statements cs
      else if c = CHR ''-'' \<and> cs \<noteq> [] \<and> hd cs = CHR ''-''
      then split_statements False (current @ [newline]) statements (drop 1 (dropWhile (\<lambda>c. c \<noteq> newline) cs))
      else if c = CHR '';'' then split_statements False [] (flush current statements) cs
      else split_statements (c = quote) (current @ [c]) statements cs)"
  by pat_completeness auto

termination
proof (relation "measure (\<lambda>(inLiteral, current, statements, sql). length sql)", goal_cases)
  case (3 inLiteral current statements c cs)
  have "length (drop 1 (dropWhile (\<lambda>c. c \<noteq> newline) cs)) \<le> length cs" using length_dropWhile_le[of "\<lambda>c. c \<noteq> newline" cs] by simp
  then show ?case by simp
qed auto

definition SplitStatements :: "string \<Rightarrow> string list" where
  "SplitStatements sql = split_statements False [] [] sql"

section \<open>Running\<close>

record MigrationOptions =
  mo_HistoryTable :: string
  mo_LockKey :: int

record MigrationResult =
  mr_Success :: bool
  mr_Applied :: int
  mr_CurrentVersion :: int

definition no_result :: MigrationResult where
  "no_result = \<lparr>mr_Success = False, mr_Applied = 0, mr_CurrentVersion = 0\<rparr>"

record Migration =
  mg_Version :: int
  mg_Name :: string

definition is_alpha :: "char \<Rightarrow> bool" where
  "is_alpha c \<longleftrightarrow> 65 \<le> byte_of c \<and> byte_of c \<le> 90 \<or> 97 \<le> byte_of c \<and> byte_of c \<le> 122"

definition IsValidTableName :: "string \<Rightarrow> bool" where
  "IsValidTableName name \<longleftrightarrow> name \<noteq> [] \<and> (is_alpha (hd name) \<or> hd name = CHR ''_'') \<and> list_all (\<lambda>c. is_alpha c \<or> is_digit c \<or> c = CHR ''_'') name"

definition HistoryTableDdl :: "string \<Rightarrow> string" where
  "HistoryTableDdl table = ''CREATE TABLE IF NOT EXISTS '' @ table @ '' (version INTEGER PRIMARY KEY, name TEXT NOT NULL, applied_at BIGINT NOT NULL)''"

text \<open>A connection: \<open>Inl\<close> is an exception with its message.\<close>

record 'd Connection =
  cn_Exec :: "string \<Rightarrow> 'd \<Rightarrow> (string + unit) \<times> 'd"
  cn_MaxVersion :: "string \<Rightarrow> 'd \<Rightarrow> (string + int option) \<times> 'd"
  cn_Escape :: "string \<Rightarrow> string"
  cn_Start :: "'d \<Rightarrow> (string + unit) \<times> 'd"
  cn_Commit :: "'d \<Rightarrow> (string + unit) \<times> 'd"
  cn_Rollback :: "'d \<Rightarrow> 'd"

record Directory =
  dr_Exists :: bool
  dr_Entries :: "(string \<times> bool) list"
  dr_Read :: "string \<Rightarrow> string result"

fun exec_all :: "'d Connection \<Rightarrow> string list \<Rightarrow> 'd \<Rightarrow> (string + unit) \<times> 'd" where
  "exec_all conn [] d = (Inr (), d)"
| "exec_all conn (sql # rest) d = (case cn_Exec conn sql d of (Inl e, d1) \<Rightarrow> (Inl e, d1) | (Inr _, d1) \<Rightarrow> exec_all conn rest d1)"

definition insert_sql :: "'d Connection \<Rightarrow> string \<Rightarrow> int \<Rightarrow> Migration \<Rightarrow> string" where
  "insert_sql conn table now migration =
     ''INSERT INTO '' @ table @ '' (version, name, applied_at) VALUES ('' @ to_string_int (mg_Version migration) @ '', '' @
     quoted (cn_Escape conn (mg_Name migration)) @ '', '' @ to_string_int now @ '')''"

definition ApplyMigration :: "'d Connection \<Rightarrow> string \<Rightarrow> int \<Rightarrow> Migration \<Rightarrow> string list \<Rightarrow> 'd \<Rightarrow> (string + unit) \<times> 'd" where
  "ApplyMigration conn table now migration statements d = exec_all conn (statements @ [insert_sql conn table now migration]) d"

text \<open>One file in its transaction.\<close>

definition apply_file :: "Driver \<Rightarrow> 'd Connection \<Rightarrow> string \<Rightarrow> int \<Rightarrow> Migration \<Rightarrow> string list \<Rightarrow> 'd \<Rightarrow> (string + unit) \<times> 'd" where
  "apply_file driver conn table now migration statements d =
     (if driver = Sqlite
      then (case cn_Exec conn ''BEGIN IMMEDIATE'' d of
              (Inl e, d1) \<Rightarrow> (Inl e, d1)
            | (Inr _, d1) \<Rightarrow>
                (case (case ApplyMigration conn table now migration statements d1 of
                         (Inl e, d2) \<Rightarrow> (Inl e, d2)
                       | (Inr _, d2) \<Rightarrow> cn_Exec conn ''COMMIT'' d2) of
                   (Inr u, d3) \<Rightarrow> (Inr u, d3)
                 | (Inl e, d3) \<Rightarrow> (case cn_Exec conn ''ROLLBACK'' d3 of (Inl e', d4) \<Rightarrow> (Inl e', d4) | (Inr _, d4) \<Rightarrow> (Inl e, d4))))
      else (case cn_Start conn d of
              (Inl e, d1) \<Rightarrow> (Inl e, d1)
            | (Inr _, d1) \<Rightarrow>
                (case ApplyMigration conn table now migration statements d1 of
                   (Inl e, d2) \<Rightarrow> (Inl e, cn_Rollback conn d2)
                 | (Inr _, d2) \<Rightarrow> cn_Commit conn d2)))"

definition prepare_file :: "Directory \<Rightarrow> Driver \<Rightarrow> Migration \<Rightarrow> string list result" where
  "prepare_file dir driver migration =
     (case dr_Read dir (mg_Name migration) of
        Inl e \<Rightarrow> Inl e
      | Inr sql \<Rightarrow> (case ResolveDialect sql driver of Inl e \<Rightarrow> Inl e | Inr resolved \<Rightarrow> Inr (SplitStatements resolved)))"

fun migrate_loop :: "Directory \<Rightarrow> Driver \<Rightarrow> 'd Connection \<Rightarrow> string \<Rightarrow> int \<Rightarrow> int \<Rightarrow> Migration list \<Rightarrow> MigrationResult \<Rightarrow> 'd \<Rightarrow> MigrationResult \<times> 'd" where
  "migrate_loop dir driver conn table now current [] result d = (result, d)"
| "migrate_loop dir driver conn table now current (m # ms) result d =
     (if mg_Version m \<le> current then migrate_loop dir driver conn table now current ms result d
      else case prepare_file dir driver m of
        Inl _ \<Rightarrow> (result\<lparr>mr_Success := False\<rparr>, d)
      | Inr statements \<Rightarrow>
          (case apply_file driver conn table now m statements d of
             (Inl _, d1) \<Rightarrow> (result\<lparr>mr_Success := False\<rparr>, d1)
           | (Inr _, d1) \<Rightarrow> migrate_loop dir driver conn table now current ms (result\<lparr>mr_Applied := mr_Applied result + 1, mr_CurrentVersion := mg_Version m\<rparr>) d1))"

definition EndsWith_sql :: "string \<Rightarrow> bool" where
  "EndsWith_sql name \<longleftrightarrow> drop (length name - 4) name = ''.sql''"

definition list_migrations :: "Directory \<Rightarrow> Migration list" where
  "list_migrations dir = sort_key mg_Version (concat (map (\<lambda>(name, regular).
     if \<not> regular \<or> \<not> EndsWith_sql name then []
     else (case ParseMigrationVersion name of None \<Rightarrow> [] | Some version \<Rightarrow> [\<lparr>mg_Version = version, mg_Name = name\<rparr>])) (dr_Entries dir)))"

definition lock_sql :: "Driver \<Rightarrow> int \<Rightarrow> string list" where
  "lock_sql driver key = (case driver of Postgres \<Rightarrow> [''SELECT pg_advisory_lock('' @ to_string_int key @ '')'']
     | MariaDb \<Rightarrow> [''DO GET_LOCK('' @ quoted (''voltmod_migrations_'' @ to_string_int key) @ '', 30)''] | Sqlite \<Rightarrow> [])"

definition unlock_sql :: "Driver \<Rightarrow> int \<Rightarrow> string list" where
  "unlock_sql driver key = (case driver of Postgres \<Rightarrow> [''SELECT pg_advisory_unlock('' @ to_string_int key @ '')'']
     | MariaDb \<Rightarrow> [''DO RELEASE_LOCK('' @ quoted (''voltmod_migrations_'' @ to_string_int key) @ '')''] | Sqlite \<Rightarrow> [])"

text \<open>The job on the database worker; an exception that leaves it makes the run fail with nothing to report.\<close>

definition migration_job :: "Directory \<Rightarrow> Driver \<Rightarrow> 'd Connection \<Rightarrow> MigrationOptions \<Rightarrow> int \<Rightarrow> 'd \<Rightarrow> (string + MigrationResult) \<times> 'd" where
  "migration_job dir driver conn options now d =
     (let table = mo_HistoryTable options
      in case exec_all conn (HistoryTableDdl table # lock_sql driver (mo_LockKey options)) d of
           (Inl e, d1) \<Rightarrow> (Inl e, d1)
         | (Inr _, d1) \<Rightarrow>
             (case cn_MaxVersion conn table d1 of
                (Inl e, d2) \<Rightarrow> (Inl e, d2)
              | (Inr v, d2) \<Rightarrow>
                  let current = (case v of None \<Rightarrow> 0 | Some n \<Rightarrow> n);
                      (result, d3) = migrate_loop dir driver conn table now current (list_migrations dir) \<lparr>mr_Success = True, mr_Applied = 0, mr_CurrentVersion = current\<rparr> d2
                  in (case exec_all conn (unlock_sql driver (mo_LockKey options)) d3 of (Inl e, d4) \<Rightarrow> (Inl e, d4) | (Inr _, d4) \<Rightarrow> (Inr result, d4))))"

definition RunMigrations :: "Directory \<Rightarrow> Driver \<Rightarrow> 'd Connection \<Rightarrow> MigrationOptions \<Rightarrow> int \<Rightarrow> 'd \<Rightarrow> MigrationResult \<times> 'd" where
  "RunMigrations dir driver conn options now d =
     (if \<not> IsValidTableName (mo_HistoryTable options) then (no_result, d)
      else if \<not> dr_Exists dir then (no_result\<lparr>mr_Success := True\<rparr>, d)
      else case migration_job dir driver conn options now d of
        (Inl _, d1) \<Rightarrow> (no_result, d1)
      | (Inr result, d1) \<Rightarrow> (result, d1))"

section \<open>Splitting is exact\<close>

text \<open>A statement that ends outside a literal and has no \<^verbatim>\<open>;\<close> or \<^verbatim>\<open>--\<close> outside one.\<close>

fun unbroken :: "bool \<Rightarrow> string \<Rightarrow> bool" where
  "unbroken inLiteral [] \<longleftrightarrow> \<not> inLiteral"
| "unbroken inLiteral (c # cs) \<longleftrightarrow>
     (if inLiteral then unbroken (c \<noteq> quote) cs
      else c \<noteq> CHR '';'' \<and> \<not> (c = CHR ''-'' \<and> cs \<noteq> [] \<and> hd cs = CHR ''-'') \<and> unbroken (c = quote) cs)"

definition statement_ok :: "string \<Rightarrow> bool" where
  "statement_ok s \<longleftrightarrow> s \<noteq> [] \<and> \<not> blank (hd s) \<and> \<not> blank (last s) \<and> unbroken False s"

lemma split_unbroken:
  "unbroken inLiteral s \<Longrightarrow> split_statements inLiteral current statements (s @ '';'' @ rest) = split_statements False [] (flush (current @ s) statements) rest"
proof (induction s arbitrary: inLiteral current)
  case (Cons c cs)
  have "\<not> (c = CHR ''-'' \<and> cs @ '';'' @ rest \<noteq> [] \<and> hd (cs @ '';'' @ rest) = CHR ''-'')" if "\<not> inLiteral"
    using Cons.prems that by (cases cs) auto
  then show ?case using Cons.prems Cons.IH[of "c \<noteq> quote" "current @ [c]"] Cons.IH[of "c = quote" "current @ [c]"]
    by (cases inLiteral) (auto split: if_split_asm)
qed simp

lemma flush_trimmed: "list_all blank before \<Longrightarrow> s \<noteq> [] \<Longrightarrow> \<not> blank (hd s) \<Longrightarrow> \<not> blank (last s) \<Longrightarrow> flush (before @ s) statements = statements @ [s]"
proof -
  assume a: "list_all blank before" "s \<noteq> []" "\<not> blank (hd s)" "\<not> blank (last s)"
  have "dropWhile blank (before @ s) = s" using a by (cases s) (auto simp: dropWhile_append list_all_iff)
  moreover have "dropWhile blank (rev s) = rev s" using a by (cases s rule: rev_cases) auto
  ultimately show ?thesis using a by (simp add: flush_def)
qed

lemma flush_blank: "list_all blank current \<Longrightarrow> flush current statements = statements"
  by (simp add: flush_def dropWhile_eq_Nil_conv[THEN iffD2] list_all_iff)

text \<open>Statements written one after the other, each ended by a semicolon, are read back as they are: nothing is split inside a literal, dropped or merged.\<close>

theorem SplitStatements_roundtrip:
  assumes "\<forall>s\<in>set ss. statement_ok s"
  shows "SplitStatements (concat (map (\<lambda>s. s @ '';'' @ [newline]) ss)) = ss"
proof -
  have "split_statements False current statements (concat (map (\<lambda>s. s @ '';'' @ [newline]) ss)) = statements @ ss" if "list_all blank current" for current statements
    using assms that
  proof (induction ss arbitrary: current statements)
    case Nil
    then show ?case by (simp add: flush_blank)
  next
    case (Cons s ss)
    let ?rest = "concat (map (\<lambda>s. s @ '';'' @ [newline]) ss)"
    have s: "statement_ok s" using Cons.prems by simp
    have "split_statements False current statements (s @ '';'' @ (newline # ?rest)) = split_statements False [] (flush (current @ s) statements) (newline # ?rest)"
      using s split_unbroken by (simp only: statement_ok_def)
    also have "flush (current @ s) statements = statements @ [s]" using s Cons.prems(2) by (intro flush_trimmed) (auto simp: statement_ok_def)
    also have "split_statements False [] (statements @ [s]) (newline # ?rest) = split_statements False [newline] (statements @ [s]) ?rest" by simp
    also have "\<dots> = (statements @ [s]) @ ss" by (rule Cons.IH) (use Cons.prems in \<open>auto simp: blank_def\<close>)
    finally show ?case by simp
  qed
  from this[of "[]" "[]"] show ?thesis by (simp add: SplitStatements_def)
qed

theorem SplitStatements_roundtrip_witness:
  "SplitStatements (concat (map (\<lambda>s. s @ '';'' @ [newline]) [''INSERT INTO t VALUES ('' @ [quote] @ ''a;-- b'' @ [quote] @ '')'', ''SELECT 1''])) =
     [''INSERT INTO t VALUES ('' @ [quote] @ ''a;-- b'' @ [quote] @ '')'', ''SELECT 1'']"
  by (rule SplitStatements_roundtrip) (simp add: statement_ok_def blank_def)

section \<open>Placeholders\<close>

datatype piece = Plain string | AutoKey | EpochNow | TrueWord | FalseWord | InsertVerb | Conflict string

fun piece_ok :: "piece \<Rightarrow> bool" where
  "piece_ok (Plain s) \<longleftrightarrow> CHR ''@'' \<notin> set s"
| "piece_ok (Conflict cols) \<longleftrightarrow> CHR ''@'' \<notin> set cols \<and> CHR '')'' \<notin> set cols"
| "piece_ok _ \<longleftrightarrow> True"

fun spell_piece :: "piece \<Rightarrow> string" where
  "spell_piece (Plain s) = s"
| "spell_piece AutoKey = ''@ID@''"
| "spell_piece EpochNow = ''@NOW@''"
| "spell_piece TrueWord = ''@TRUE@''"
| "spell_piece FalseWord = ''@FALSE@''"
| "spell_piece InsertVerb = ''@INSERT_IF_ABSENT@''"
| "spell_piece (Conflict cols) = ''@ON_CONFLICT('' @ cols @ '')@''"

fun piece_sql :: "Dialect \<Rightarrow> piece \<Rightarrow> string" where
  "piece_sql d (Plain s) = s"
| "piece_sql d AutoKey = di_AutoIncrementKey d"
| "piece_sql d EpochNow = di_EpochNow d"
| "piece_sql d TrueWord = di_True d"
| "piece_sql d FalseWord = di_False d"
| "piece_sql d InsertVerb = di_InsertIfAbsent d"
| "piece_sql d (Conflict cols) = (if di_NeedsConflictClause d then ''ON CONFLICT ('' @ cols @ '') DO NOTHING'' else [])"

lemma read_conflict:
  assumes "CHR ''@'' \<notin> set cols" "CHR '')'' \<notin> set cols"
  shows "read_placeholder (''ON_CONFLICT('' @ cols @ '')@'' @ rest) = Some (''ON_CONFLICT('' @ cols @ '')'', rest)"
proof -
  have "takeWhile (\<lambda>c. c \<noteq> CHR '')'' \<and> c \<noteq> CHR ''@'') (cols @ '')@'' @ rest) = cols" "dropWhile (\<lambda>c. c \<noteq> CHR '')'' \<and> c \<noteq> CHR ''@'') (cols @ '')@'' @ rest) = '')@'' @ rest"
    using assms by (auto simp: takeWhile_append dropWhile_append)
  then show ?thesis by (simp add: read_placeholder_def name_char_def Let_def)
qed

lemma piece_token:
  assumes "piece_ok p" "\<nexists>s. p = Plain s"
  obtains token where "spell_piece p @ rest = CHR ''@'' # token @ ''@'' @ rest" "read_placeholder (token @ ''@'' @ rest) = Some (token, rest)"
    "render_placeholder d token = Inr (piece_sql d p)"
proof (cases p)
  case (Conflict cols)
  show thesis
  proof (rule that[of "''ON_CONFLICT('' @ cols @ '')''"])
    show "read_placeholder ((''ON_CONFLICT('' @ cols @ '')'') @ ''@'' @ rest) = Some (''ON_CONFLICT('' @ cols @ '')'', rest)"
      using read_conflict[of cols rest] assms(1) Conflict by simp
    show "render_placeholder d (''ON_CONFLICT('' @ cols @ '')'') = Inr (piece_sql d p)"
      by (simp add: Conflict render_placeholder_def StartsWith_def ConflictToken_def)
  qed (simp add: Conflict)
qed (use assms(2) that[of "''ID''"] that[of "''NOW''"] that[of "''TRUE''"] that[of "''FALSE''"] that[of "''INSERT_IF_ABSENT''"]
    in \<open>simp_all add: read_placeholder_def name_char_def render_placeholder_def Let_def\<close>)

lemma resolve_plain:
  assumes "CHR ''@'' \<notin> set s"
  shows "resolve_dialect d out (s @ CHR ''@'' # body) = (case read_placeholder body of
      None \<Rightarrow> resolve_dialect d (out @ s @ ''@'') body
    | Some (token, rest) \<Rightarrow> (case render_placeholder d token of Inl e \<Rightarrow> Inl e | Inr t \<Rightarrow> resolve_dialect d (out @ s @ t) rest))"
proof -
  have "takeWhile (\<lambda>c. c \<noteq> CHR ''@'') (s @ CHR ''@'' # body) = s" "dropWhile (\<lambda>c. c \<noteq> CHR ''@'') (s @ CHR ''@'' # body) = CHR ''@'' # body"
    using assms by (auto simp: takeWhile_append dropWhile_append)
  then show ?thesis by (subst resolve_dialect.simps) (simp add: Let_def split: option.split)
qed

text \<open>Text without an \<^verbatim>\<open>@\<close> is kept, and every known placeholder becomes what the driver wants, for the whole file.\<close>

theorem ResolveDialect_renders:
  assumes "\<forall>p\<in>set ps. piece_ok p"
  shows "ResolveDialect (concat (map spell_piece ps)) driver = Inr (concat (map (piece_sql (DialectFor driver)) ps))"
proof -
  let ?d = "DialectFor driver"
  have "resolve_dialect ?d out (s @ concat (map spell_piece ps)) = Inr (out @ s @ concat (map (piece_sql ?d) ps))" if "CHR ''@'' \<notin> set s" for out s
    using assms that
  proof (induction ps arbitrary: out s)
    case Nil
    then have "takeWhile (\<lambda>c. c \<noteq> CHR ''@'') s = s" "dropWhile (\<lambda>c. c \<noteq> CHR ''@'') s = []" by (auto simp: takeWhile_eq_all_conv dropWhile_eq_Nil_conv)
    then show ?case by (subst resolve_dialect.simps) (simp add: Let_def)
  next
    case (Cons p ps)
    show ?case
    proof (cases "\<exists>t. p = Plain t")
      case True
      then obtain t where "p = Plain t" by blast
      then show ?thesis using Cons.IH[of "s @ t" out] Cons.prems by simp
    next
      case False
      then obtain token where t: "spell_piece p @ concat (map spell_piece ps) = CHR ''@'' # token @ ''@'' @ concat (map spell_piece ps)"
          "read_placeholder (token @ ''@'' @ concat (map spell_piece ps)) = Some (token, concat (map spell_piece ps))" "render_placeholder ?d token = Inr (piece_sql ?d p)"
        using Cons.prems(1) piece_token[of p "concat (map spell_piece ps)" ?d thesis] by simp
      have "resolve_dialect ?d out (s @ spell_piece p @ concat (map spell_piece ps)) = resolve_dialect ?d (out @ s @ piece_sql ?d p) ([] @ concat (map spell_piece ps))"
        unfolding t(1) resolve_plain[OF Cons.prems(2)] t(2) by (simp add: t(3))
      also have "\<dots> = Inr ((out @ s @ piece_sql ?d p) @ [] @ concat (map (piece_sql ?d) ps))" using Cons.prems by (intro Cons.IH) auto
      finally show ?thesis by simp
    qed
  qed
  from this[of "[]" "[]"] show ?thesis by (simp add: ResolveDialect_def)
qed

section \<open>Which files run\<close>

text \<open>Files applied one after the other, each with all its statements and its row in the history.\<close>

inductive applied_files :: "Directory \<Rightarrow> Driver \<Rightarrow> 'd Connection \<Rightarrow> string \<Rightarrow> int \<Rightarrow> Migration list \<Rightarrow> 'd \<Rightarrow> 'd \<Rightarrow> bool" for dir driver conn table now where
  None_left: "applied_files dir driver conn table now [] d d"
| One_more: "prepare_file dir driver m = Inr statements \<Longrightarrow> apply_file driver conn table now m statements d = (Inr u, d1) \<Longrightarrow>
    applied_files dir driver conn table now ms d1 d2 \<Longrightarrow> applied_files dir driver conn table now (m # ms) d d2"

text \<open>A file that could not be prepared or applied, and what its attempt left behind.\<close>

definition failed_file :: "Directory \<Rightarrow> Driver \<Rightarrow> 'd Connection \<Rightarrow> string \<Rightarrow> int \<Rightarrow> Migration \<Rightarrow> 'd \<Rightarrow> 'd \<Rightarrow> bool" where
  "failed_file dir driver conn table now m d d' \<longleftrightarrow>
     (case prepare_file dir driver m of Inl _ \<Rightarrow> d' = d | Inr statements \<Rightarrow> (\<exists>e. apply_file driver conn table now m statements d = (Inl e, d')))"

definition result_for :: "int \<Rightarrow> Migration list \<Rightarrow> nat \<Rightarrow> MigrationResult" where
  "result_for current pending k = \<lparr>mr_Success = (k = length pending), mr_Applied = int k, mr_CurrentVersion = (if k = 0 then current else mg_Version (pending ! (k - 1)))\<rparr>"

lemma migrate_loop_spec:
  fixes ms :: "Migration list"
  assumes "migrate_loop dir driver conn table now current ms \<lparr>mr_Success = True, mr_Applied = a, mr_CurrentVersion = v\<rparr> d = (result, d')"
  defines "pending \<equiv> filter (\<lambda>m. current < mg_Version m) ms"
  shows "\<exists>k d1. k \<le> length pending \<and> applied_files dir driver conn table now (take k pending) d d1 \<and>
    (if k = length pending then d' = d1 else failed_file dir driver conn table now (pending ! k) d1 d') \<and>
    result = \<lparr>mr_Success = (k = length pending), mr_Applied = a + int k, mr_CurrentVersion = (if k = 0 then v else mg_Version (pending ! (k - 1)))\<rparr>"
  using assms(1) unfolding pending_def
proof (induction ms arbitrary: a v d)
  case Nil
  then show ?case by (auto intro: applied_files.None_left)
next
  case (Cons m ms)
  let ?pending = "filter (\<lambda>m. current < mg_Version m) ms"
  show ?case
  proof (cases "mg_Version m \<le> current")
    case True
    then have "filter (\<lambda>m. current < mg_Version m) (m # ms) = ?pending" by simp
    moreover have "migrate_loop dir driver conn table now current ms \<lparr>mr_Success = True, mr_Applied = a, mr_CurrentVersion = v\<rparr> d = (result, d')"
      using Cons.prems True by simp
    ultimately show ?thesis using Cons.IH[of a v d] by (simp only:)
  next
    case new: False
    show ?thesis
    proof (cases "\<exists>statements u d1. prepare_file dir driver m = Inr statements \<and> apply_file driver conn table now m statements d = (Inr u, d1)")
      case True
      then obtain statements u d1 where ok: "prepare_file dir driver m = Inr statements" "apply_file driver conn table now m statements d = (Inr u, d1)" by blast
      then have "migrate_loop dir driver conn table now current ms \<lparr>mr_Success = True, mr_Applied = a + 1, mr_CurrentVersion = mg_Version m\<rparr> d1 = (result, d')"
        using Cons.prems new by simp
      from Cons.IH[OF this] obtain k d2 where k: "k \<le> length ?pending" "applied_files dir driver conn table now (take k ?pending) d1 d2"
        "if k = length ?pending then d' = d2 else failed_file dir driver conn table now (?pending ! k) d2 d'"
        "result = \<lparr>mr_Success = (k = length ?pending), mr_Applied = a + 1 + int k, mr_CurrentVersion = (if k = 0 then mg_Version m else mg_Version (?pending ! (k - 1)))\<rparr>" by blast
      have "applied_files dir driver conn table now (take (Suc k) (m # ?pending)) d d2" using applied_files.One_more[OF ok k(2)] by simp
      then show ?thesis using k new by (intro exI[of _ "Suc k"] exI[of _ d2]) (auto simp: nth_Cons' split: if_split_asm)
    next
      case False
      then have "failed_file dir driver conn table now m d d' \<and> result = \<lparr>mr_Success = False, mr_Applied = a, mr_CurrentVersion = v\<rparr>"
        using Cons.prems new by (auto simp: failed_file_def split: sum.split_asm prod.split_asm)
      then show ?thesis using new by (intro exI[of _ 0] exI[of _ d]) (auto intro: applied_files.None_left)
    qed
  qed
qed


definition example_connection :: "string list Connection" where
  "example_connection = \<lparr>cn_Exec = (\<lambda>sql d. (Inr (), d @ [sql])), cn_MaxVersion = (\<lambda>table d. (Inr (Some 1), d)), cn_Escape = (\<lambda>s. s),
     cn_Start = (\<lambda>d. (Inr (), d)), cn_Commit = (\<lambda>d. (Inr (), d)), cn_Rollback = (\<lambda>d. d)\<rparr>"

definition example_directory :: Directory where
  "example_directory = \<lparr>dr_Exists = True, dr_Entries = [(''2_b.sql'', True), (''1_a.sql'', True), (''notes.txt'', True)],
     dr_Read = (\<lambda>name. if name = ''2_b.sql'' then Inr ''CREATE TABLE b (k @ID@);'' else Inl (Error_NotFound name))\<rparr>"

definition example_options :: MigrationOptions where
  "example_options = \<lparr>mo_HistoryTable = ''history'', mo_LockKey = 7\<rparr>"

definition example_log :: "string list" where
  "example_log = snd (migration_job example_directory Sqlite example_connection example_options 100 [])"

lemma example_version: "ParseMigrationVersion ''2_b.sql'' = Some 2" "ParseMigrationVersion ''1_a.sql'' = Some 1"
  by (simp_all add: ParseMigrationVersion_def from_chars_signed_def from_chars_unsigned_def digits_value_def is_digit_def digit_value_def int_max_def)

lemma example_migrations: "list_migrations example_directory = [\<lparr>mg_Version = 1, mg_Name = ''1_a.sql''\<rparr>, \<lparr>mg_Version = 2, mg_Name = ''2_b.sql''\<rparr>]"
  by (simp add: list_migrations_def example_directory_def EndsWith_sql_def example_version)

lemma example_prepared: "prepare_file example_directory Sqlite \<lparr>mg_Version = 2, mg_Name = ''2_b.sql''\<rparr> = Inr [''CREATE TABLE b (k INTEGER PRIMARY KEY AUTOINCREMENT)'']"
  by code_simp

lemma example_run:
  "migration_job example_directory Sqlite example_connection example_options 100 [] = (Inr \<lparr>mr_Success = True, mr_Applied = 1, mr_CurrentVersion = 2\<rparr>, example_log)"
  by (simp add: example_log_def migration_job_def example_migrations example_prepared Let_def example_connection_def apply_file_def ApplyMigration_def lock_sql_def unlock_sql_def)


end
