(* ===== verification/DatabaseClient.thy ===== *)
theory DatabaseClient
  imports GameThreadQueue Migrations "HOL-Library.Multiset"
begin

text \<open>
  The asynchronous database client: one worker thread, its job queue and the completions it hands to the game thread. Sources:
  \<^verbatim>\<open>src/Database/Client.cpp\<close>, \<^verbatim>\<open>include/VoltMod/Database/{Client,DatabaseConfig}.hpp\<close> and the configuration half of
  \<^verbatim>\<open>src/Database/OpenConnection.cpp\<close>. The two threads are steps on one state, interleaved in any order. A section that holds the queue's mutex is one
  step, and so is a job, whose only effects the game thread sees are the flag for diagnostics and one delivered answer. What a job's callable does on the
  connection (a value, or the text of an exception), whether the connection is alive and whether the driver can open one are the environment's, given to each
  step of the worker. A job carries a ticket so that its answer can be followed; log lines are left out.
\<close>

section \<open>Configuration\<close>

record DatabaseConfig =
  dc_driver :: string
  dc_host :: string
  dc_port :: int
  dc_database :: string
  dc_username :: string
  dc_password :: string
  dc_sslMode :: string
  dc_connectTimeoutSec :: int
  dc_path :: string

definition ParseDriver :: "string \<Rightarrow> Driver option" where
  "ParseDriver name = map_of [(''postgres'', Postgres), (''mariadb'', MariaDb), (''sqlite'', Sqlite)] (map to_lower name)"

datatype SslMode = ssl_disable | ssl_allow | ssl_prefer | ssl_require | ssl_verify_ca | ssl_verify_full

definition SslModes :: "(string \<times> SslMode) list" where
  "SslModes = [(''disable'', ssl_disable), (''allow'', ssl_allow), (''prefer'', ssl_prefer), (''require'', ssl_require),
     (''verify-ca'', ssl_verify_ca), (''verify-full'', ssl_verify_full)]"

definition ParseSslMode :: "string \<Rightarrow> SslMode option" where
  "ParseSslMode name = map_of SslModes name"

definition CheckConfig :: "DatabaseConfig \<Rightarrow> Driver result" where
  "CheckConfig config = (case ParseDriver (dc_driver config) of
     None \<Rightarrow> Inl (Error_Invalid (''Unknown database driver '' @ quoted (dc_driver config) @ ''; expected postgres, mariadb or sqlite.''))
   | Some driver \<Rightarrow>
       if driver = Sqlite \<and> dc_path config = [] then Inl (Error_Invalid (''Database driver '' @ quoted ''sqlite'' @ '' needs a '' @ quoted ''path'' @ '' (a file, or \":memory:\").''))
       else if driver = Postgres \<and> ParseSslMode (dc_sslMode config) = None
       then Inl (Error_Invalid (''Unknown sslMode '' @ quoted (dc_sslMode config) @ ''; expected disable, allow, prefer, require, verify-ca or verify-full.''))
       else Inr driver)"


text \<open>What the two servers' drivers are given. A count the driver takes unsigned keeps its low 32 bits.\<close>

definition unsigned32 :: "int \<Rightarrow> int" where
  "unsigned32 i = i mod 2 ^ 32"

record PostgresSettings =
  pg_host :: string
  pg_port :: int
  pg_dbname :: string
  pg_user :: string
  pg_password :: string
  pg_connect_timeout :: int
  pg_sslmode :: SslMode

definition ssl_or_prefer :: "DatabaseConfig \<Rightarrow> SslMode" where
  "ssl_or_prefer config = (case ParseSslMode (dc_sslMode config) of Some mode \<Rightarrow> mode | None \<Rightarrow> ssl_prefer)"

definition PostgresSettings_of :: "DatabaseConfig \<Rightarrow> PostgresSettings" where
  "PostgresSettings_of config = \<lparr>pg_host = dc_host config, pg_port = (if 0 < dc_port config then unsigned32 (dc_port config) else 5432),
     pg_dbname = dc_database config, pg_user = dc_username config, pg_password = dc_password config,
     pg_connect_timeout = unsigned32 (dc_connectTimeoutSec config), pg_sslmode = ssl_or_prefer config\<rparr>"

definition TlsModes :: "SslMode list" where
  "TlsModes = [ssl_require, ssl_verify_ca, ssl_verify_full]"

record MariaDbSettings =
  my_host :: string
  my_port :: int
  my_database :: string
  my_user :: string
  my_password :: string
  my_connect_timeout_seconds :: int
  my_charset :: string
  my_ssl :: bool
  my_found_rows :: bool

definition MariaDbSettings_of :: "DatabaseConfig \<Rightarrow> MariaDbSettings" where
  "MariaDbSettings_of config = \<lparr>my_host = dc_host config, my_port = (if 0 < dc_port config then unsigned32 (dc_port config) else 3306),
     my_database = dc_database config, my_user = dc_username config, my_password = dc_password config,
     my_connect_timeout_seconds = unsigned32 (dc_connectTimeoutSec config), my_charset = ''utf8mb4'',
     my_ssl = (ssl_or_prefer config \<in> set TlsModes), my_found_rows = True\<rparr>"

text \<open>
  A Postgres client never runs with another TLS mode than the one configured. A MariaDB client is not checked: a misspelt mode that asked for TLS connects
  without it.
\<close>

lemma Postgres_ssl_as_configured:
  assumes "CheckConfig config = Inr Postgres"
  shows "(dc_sslMode config, pg_sslmode (PostgresSettings_of config)) \<in> set SslModes"
  using assms by (auto simp: CheckConfig_def PostgresSettings_of_def ssl_or_prefer_def ParseSslMode_def split: option.splits if_splits dest: map_of_SomeD)

lemma MariaDb_misspelt_no_tls:
  assumes "ParseDriver (dc_driver config) = Some MariaDb" "ParseSslMode (dc_sslMode config) = None"
  shows "CheckConfig config = Inr MariaDb \<and> \<not> my_ssl (MariaDbSettings_of config)"
  using assms by (simp add: CheckConfig_def MariaDbSettings_of_def ssl_or_prefer_def TlsModes_def)

definition DriverName :: "Driver \<Rightarrow> string" where
  "DriverName driver = map to_lower (case driver of Postgres \<Rightarrow> ''Postgres'' | MariaDb \<Rightarrow> ''MariaDb'' | Sqlite \<Rightarrow> ''Sqlite'')"

lemma ParseDriver_DriverName: "ParseDriver (DriverName driver) = Some driver"
proof -
  have "ParseDriver (DriverName Postgres) = Some Postgres" "ParseDriver (DriverName MariaDb) = Some MariaDb" "ParseDriver (DriverName Sqlite) = Some Sqlite"
    by code_simp+
  thus ?thesis by (cases driver) simp_all
qed

section \<open>State\<close>

text \<open>How a job's answer is delivered: not at all, as a completion on the game thread, or to a caller that waits for it.\<close>

datatype Delivery = NoDelivery | OnGameThread | ToPromise

record Job =
  jb_Ticket :: nat
  jb_Name :: string
  jb_Deliver :: Delivery

datatype State = Stopped | Running | Stopping

text \<open>Where the worker is: not started, before \<open>TakeJob\<close>, with a job, or returned.\<close>

datatype worker = NoWorker | Taking | Working Job | Returned

text \<open>What the game thread is inside of, innermost first: a blocking \<open>Run\<close>, the ping of \<open>Connect\<close>, the join of \<open>Disconnect\<close>, or the rest of a \<open>RunAll\<close>.\<close>

datatype 'v frame = InRun nat | InConnect nat | InDisconnect | InRunAll "(nat \<times> 'v result) list"

record 'v Database =
  db_config :: "DatabaseConfig option"
  db_driver :: Driver
  db_queue :: "Job list"
  db_state :: State
  db_stopDeadline :: int
  db_completions :: "(nat \<times> 'v result) GameThreadQueue"
  db_onFrame :: bool
  db_connected :: bool
  db_open :: bool
  db_retryAt :: int
  db_worker :: worker
  db_promises :: "nat \<rightharpoonup> 'v result"
  db_stack :: "'v frame list"
  db_tickets :: nat
  db_accepted :: "nat list"
  db_answers :: "(Job \<times> 'v result) list"
  db_ran :: "(nat \<times> 'v result) list"
  db_dropped :: "(nat \<times> 'v result) list"

text \<open>The last four only record what happened: the tickets queued, every answer given, every completion run and those dropped unrun.\<close>

definition new_database :: "'v Database" where
  "new_database = \<lparr>db_config = None, db_driver = Postgres, db_queue = [], db_state = Stopped, db_stopDeadline = 0, db_completions = new_queue, db_onFrame = False,
     db_connected = False, db_open = False, db_retryAt = 0, db_worker = NoWorker, db_promises = Map.empty, db_stack = [], db_tickets = 0,
     db_accepted = [], db_answers = [], db_ran = [], db_dropped = []\<rparr>"

definition MaxQueuedJobs :: nat where "MaxQueuedJobs = 4096"
definition ReconnectBackoff :: int where "ReconnectBackoff = 5000"

section \<open>Jobs\<close>

definition Deliver :: "Job \<Rightarrow> 'v result \<Rightarrow> 'v Database \<Rightarrow> 'v Database" where
  "Deliver job r s = (let s = s\<lparr>db_answers := db_answers s @ [(job, r)]\<rparr> in
     case jb_Deliver job of
       NoDelivery \<Rightarrow> s
     | OnGameThread \<Rightarrow> s\<lparr>db_completions := gq_Push (jb_Ticket job, r) (db_completions s)\<rparr>
     | ToPromise \<Rightarrow> s\<lparr>db_promises := (db_promises s)(jb_Ticket job \<mapsto> r)\<rparr>)"

definition MakeJob :: "string \<Rightarrow> Delivery \<Rightarrow> 'v Database \<Rightarrow> Job \<times> 'v Database" where
  "MakeJob name d s = (\<lparr>jb_Ticket = db_tickets s, jb_Name = name, jb_Deliver = d\<rparr>, s\<lparr>db_tickets := db_tickets s + 1\<rparr>)"

definition Enqueue :: "Job \<Rightarrow> 'v Database \<Rightarrow> 'v Database" where
  "Enqueue job s =
     (if db_state s \<noteq> Running then Deliver job (Inl (Error_NotReady ''database not running'')) s
      else if MaxQueuedJobs \<le> length (db_queue s) then Deliver job (Inl (Error_NotReady ''the job queue is full'')) s
      else s\<lparr>db_queue := db_queue s @ [job], db_accepted := db_accepted s @ [jb_Ticket job]\<rparr>)"

definition DropConnection :: "'v Database \<Rightarrow> 'v Database" where
  "DropConnection s = s\<lparr>db_open := False, db_connected := False\<rparr>"

section \<open>The worker\<close>

text \<open>What the environment decides in a step of the worker: the time, whether an open connection is alive, whether the driver opens one, and what the job does.\<close>

record 'v surroundings =
  su_now :: int
  su_alive :: bool
  su_opens :: bool
  su_outcome :: "string + 'v"

definition TakeJob :: "int \<Rightarrow> 'v Database \<Rightarrow> Job option \<times> 'v Database" where
  "TakeJob now s =
     (let s = (if db_state s = Stopping \<and> db_stopDeadline s \<le> now
               then (fold (\<lambda>job. Deliver job (Inl (Error_NotReady ''shutdown''))) (db_queue s) s)\<lparr>db_queue := []\<rparr> else s)
      in case db_queue s of [] \<Rightarrow> (None, s) | job # rest \<Rightarrow> (Some job, s\<lparr>db_queue := rest\<rparr>))"

definition EnsureOpen :: "'v surroundings \<Rightarrow> 'v Database \<Rightarrow> bool \<times> 'v Database" where
  "EnsureOpen e s =
     (if db_open s \<and> su_alive e then (True, s)
      else if su_now e < db_retryAt s then (False, s)
      else if su_opens e then (True, s\<lparr>db_open := True, db_connected := True\<rparr>)
      else (False, (DropConnection s)\<lparr>db_retryAt := su_now e + ReconnectBackoff\<rparr>))"

definition RunJob :: "'v surroundings \<Rightarrow> Job \<Rightarrow> 'v Database \<Rightarrow> 'v Database" where
  "RunJob e job s = (let (ok, s) = EnsureOpen e s in
     if \<not> ok then Deliver job (Inl (Error_NotReady ''no database connection'')) s
     else case su_outcome e of
       Inr v \<Rightarrow> Deliver job (Inr v) s
     | Inl what \<Rightarrow> Deliver job (Inl (Error_Failed what)) (DropConnection s))"

text \<open>One turn of \<open>WorkerMain\<close>. \<open>TakeJob\<close> waits until there is a job or the client stops.\<close>

definition worker_ready :: "'v Database \<Rightarrow> bool" where
  "worker_ready s = (case db_worker s of Taking \<Rightarrow> db_queue s \<noteq> [] \<or> db_state s = Stopping | Working _ \<Rightarrow> True | _ \<Rightarrow> False)"

definition WorkerMain :: "'v surroundings \<Rightarrow> 'v Database \<Rightarrow> 'v Database" where
  "WorkerMain e s =
     (if \<not> worker_ready s then s
      else case db_worker s of
        Taking \<Rightarrow> (case TakeJob (su_now e) s of
            (Some job, s') \<Rightarrow> s'\<lparr>db_worker := Working job\<rparr>
          | (None, s') \<Rightarrow> (DropConnection s')\<lparr>db_worker := Returned\<rparr>)
      | Working job \<Rightarrow> (RunJob e job s)\<lparr>db_worker := Taking\<rparr>
      | _ \<Rightarrow> s)"

section \<open>The game thread\<close>

text \<open>A call is made with nothing else on the stack, or from a completion.\<close>

fun may_call :: "'v frame list \<Rightarrow> bool" where
  "may_call [] \<longleftrightarrow> True"
| "may_call (InRunAll _ # _) \<longleftrightarrow> True"
| "may_call _ \<longleftrightarrow> False"

definition RunAsync :: "string \<Rightarrow> bool \<Rightarrow> 'v Database \<Rightarrow> 'v Database" where
  "RunAsync name has_callback s = (let (job, s) = MakeJob name (if has_callback then OnGameThread else NoDelivery) s in Enqueue job s)"

definition Run_begin :: "string \<Rightarrow> 'v Database \<Rightarrow> 'v Database" where
  "Run_begin name s = (let (job, s) = MakeJob name ToPromise s in (Enqueue job s)\<lparr>db_stack := InRun (jb_Ticket job) # db_stack s\<rparr>)"

definition Disconnect_begin :: "int \<Rightarrow> int \<Rightarrow> 'v Database \<Rightarrow> 'v Database" where
  "Disconnect_begin now stopDeadline s =
     (if db_state s \<noteq> Running then s else s\<lparr>db_state := Stopping, db_stopDeadline := now + stopDeadline, db_stack := InDisconnect # db_stack s\<rparr>)"

definition Connect_begin :: "DatabaseConfig \<Rightarrow> 'v Database \<Rightarrow> 'v Database" where
  "Connect_begin config s = (case CheckConfig config of
     Inl e \<Rightarrow> s
   | Inr driver \<Rightarrow>
       if db_state s \<noteq> Stopped then s
       else let s = s\<lparr>db_config := Some config, db_driver := driver, db_state := Running, db_worker := Taking\<rparr>;
                (job, s) = MakeJob ''db_ping'' ToPromise s
            in (Enqueue job s)\<lparr>db_stack := InConnect (jb_Ticket job) # db_stack s\<rparr>)"

text \<open>The game thread goes on inside what it is doing: a wait ends when its answer is there, a join when the worker returned.\<close>

definition game_ready :: "'v Database \<Rightarrow> bool" where
  "game_ready s = (case db_stack s of
     InRun t # _ \<Rightarrow> db_promises s t \<noteq> None
   | InConnect t # _ \<Rightarrow> db_promises s t \<noteq> None
   | InDisconnect # _ \<Rightarrow> db_worker s = Returned
   | InRunAll _ # _ \<Rightarrow> True
   | [] \<Rightarrow> False)"

definition DispatchCompletions :: "'v Database \<Rightarrow> 'v Database" where
  "DispatchCompletions s = (let (ready, q) = gq_RunAll (db_completions s) in s\<lparr>db_completions := q, db_stack := InRunAll ready # db_stack s\<rparr>)"

definition game_continue :: "int \<Rightarrow> 'v Database \<Rightarrow> 'v Database" where
  "game_continue now s =
     (if \<not> game_ready s then s
      else case db_stack s of
        [] \<Rightarrow> s
      | f # below \<Rightarrow> (case f of
          InRun t \<Rightarrow> s\<lparr>db_stack := below\<rparr>
        | InConnect t \<Rightarrow> (case db_promises s t of
              Some (Inl _) \<Rightarrow> Disconnect_begin now 5000 (s\<lparr>db_stack := below\<rparr>)
            | _ \<Rightarrow> s\<lparr>db_onFrame := True, db_stack := below\<rparr>)
        | InDisconnect \<Rightarrow> s\<lparr>db_state := Stopped, db_worker := NoWorker, db_onFrame := False,
            db_dropped := db_dropped s @ gq_waiting (db_completions s), db_completions := gq_Clear (db_completions s), db_stack := below\<rparr>
        | InRunAll [] \<Rightarrow> s\<lparr>db_stack := below\<rparr>
        | InRunAll (c # rest) \<Rightarrow> s\<lparr>db_ran := db_ran s @ [c], db_stack := InRunAll rest # below\<rparr>))"

inductive db_step :: "'v Database \<Rightarrow> 'v Database \<Rightarrow> bool" where
  step_connect: "may_call (db_stack s) \<Longrightarrow> db_step s (Connect_begin config s)"
| step_disconnect: "may_call (db_stack s) \<Longrightarrow> db_step s (Disconnect_begin now stopDeadline s)"
| step_run_async: "may_call (db_stack s) \<Longrightarrow> db_step s (RunAsync name has_callback s)"
| step_run: "may_call (db_stack s) \<Longrightarrow> db_step s (Run_begin name s)"
| step_dispatch: "may_call (db_stack s) \<Longrightarrow> db_step s (DispatchCompletions s)"
| step_game: "db_step s (game_continue now s)"
| step_worker: "db_step s (WorkerMain e s)"

inductive db_reachable :: "'v Database \<Rightarrow> bool" where
  reach_new: "db_reachable new_database"
| reach_step: "db_reachable s \<Longrightarrow> db_step s s' \<Longrightarrow> db_reachable s'"


section \<open>Every job is answered once\<close>

text \<open>Accepted tickets are answered in order, and every ticket given out is answered or waits, once.\<close>

definition ledger :: "nat list \<Rightarrow> nat list \<Rightarrow> nat list \<Rightarrow> nat \<Rightarrow> bool" where
  "ledger acc ans pend n \<longleftrightarrow> filter (\<lambda>t. t \<in> set acc) ans @ pend = acc \<and> mset ans + mset pend = mset [0..<n]"

lemma ledger_set: "ledger acc ans pend n \<Longrightarrow> set ans \<union> set pend = {0..<n} \<and> set acc \<subseteq> {0..<n} \<and> set pend \<subseteq> set acc"
proof -
  assume l: "ledger acc ans pend n"
  hence "set_mset (mset ans + mset pend) = {0..<n}" by (simp add: ledger_def)
  hence "set ans \<union> set pend = {0..<n}" by simp
  moreover have "set acc \<subseteq> set ans \<union> set pend \<and> set pend \<subseteq> set acc" using l unfolding ledger_def
    by (metis Un_subset_iff filter_is_subset set_append sup.mono sup_ge2 order_refl)
  ultimately show ?thesis by auto
qed

lemma ledger_distinct: "ledger acc ans pend n \<Longrightarrow> distinct (ans @ pend)"
  by (metis distinct_upt ledger_def mset_append mset_eq_imp_distinct_iff)

lemma ledger_answers: "ledger acc ans (ts @ pend) n \<Longrightarrow> ledger acc (ans @ ts) pend n"
proof -
  assume l: "ledger acc ans (ts @ pend) n"
  have "filter (\<lambda>t. t \<in> set acc) ts = ts" using ledger_set[OF l] by (auto simp: filter_id_conv)
  thus ?thesis using l by (simp add: ledger_def add.assoc)
qed

lemma ledger_refuse: "ledger acc ans pend n \<Longrightarrow> ledger acc (ans @ [n]) pend (Suc n)"
  using ledger_set[of acc ans pend n] by (auto simp: ledger_def)

lemma ledger_accept: "ledger acc ans pend n \<Longrightarrow> ledger (acc @ [n]) ans (pend @ [n]) (Suc n)"
proof -
  assume l: "ledger acc ans pend n"
  have "filter (\<lambda>t. t \<in> set (acc @ [n])) ans = filter (\<lambda>t. t \<in> set acc) ans" using ledger_set[OF l] by (intro filter_cong) auto
  thus ?thesis using l by (simp add: ledger_def)
qed

definition held :: "'v Database \<Rightarrow> Job list" where
  "held s = (case db_worker s of Working job \<Rightarrow> [job] | _ \<Rightarrow> [])"

definition pending :: "'v Database \<Rightarrow> Job list" where
  "pending s = held s @ db_queue s"

definition answered :: "'v Database \<Rightarrow> nat list" where
  "answered s = map (\<lambda>(job, r). jb_Ticket job) (db_answers s)"

definition tickets_ok :: "'v Database \<Rightarrow> bool" where
  "tickets_ok s \<longleftrightarrow> ledger (db_accepted s) (answered s) (map jb_Ticket (pending s)) (db_tickets s)"

text \<open>Every answer meant for the game thread ran, is about to run, waits, or was dropped by a disconnect, once.\<close>

definition for_game :: "(Job \<times> 'v result) list \<Rightarrow> (nat \<times> 'v result) list" where
  "for_game as = map (\<lambda>(job, r). (jb_Ticket job, r)) (filter (\<lambda>(job, r). jb_Deliver job = OnGameThread) as)"

definition stacked :: "'v frame list \<Rightarrow> (nat \<times> 'v result) list" where
  "stacked fs = concat (map (\<lambda>f. case f of InRunAll cs \<Rightarrow> cs | _ \<Rightarrow> []) fs)"

definition books_ok :: "'v Database \<Rightarrow> bool" where
  "books_ok s \<longleftrightarrow> queue_ok (db_completions s) \<and>
     mset (for_game (db_answers s)) = mset (db_ran s) + mset (stacked (db_stack s)) + mset (gq_waiting (db_completions s)) + mset (db_dropped s)"

text \<open>The threads: who is where in which state.\<close>

definition calm :: "'v frame list \<Rightarrow> bool" where
  "calm fs \<longleftrightarrow> (\<forall>f \<in> set fs. \<exists>cs. f = InRunAll cs)"

definition threads_ok :: "'v Database \<Rightarrow> bool" where
  "threads_ok s \<longleftrightarrow> calm (tl (db_stack s)) \<and> (case db_state s of
     Stopped \<Rightarrow> db_worker s = NoWorker \<and> db_queue s = [] \<and> \<not> db_onFrame s \<and> InDisconnect \<notin> set (db_stack s) \<and> (\<forall>t. InConnect t \<notin> set (db_stack s))
   | Running \<Rightarrow> db_worker s \<noteq> NoWorker \<and> db_worker s \<noteq> Returned \<and> InDisconnect \<notin> set (db_stack s)
   | Stopping \<Rightarrow> db_worker s \<noteq> NoWorker \<and> (db_worker s = Returned \<longrightarrow> db_queue s = []) \<and> (\<exists>below. db_stack s = InDisconnect # below))"

definition awaited :: "'v frame list \<Rightarrow> nat option" where
  "awaited fs = (case fs of InRun t # _ \<Rightarrow> Some t | InConnect t # _ \<Rightarrow> Some t | _ \<Rightarrow> None)"

definition promised :: "nat \<Rightarrow> 'v Database \<Rightarrow> bool" where
  "promised t s \<longleftrightarrow> db_promises s t \<noteq> None \<or> (\<exists>job \<in> set (pending s). jb_Ticket job = t \<and> jb_Deliver job = ToPromise)"

definition kept :: "'v Database \<Rightarrow> bool" where
  "kept s \<longleftrightarrow> (\<forall>t r. db_promises s t = Some r \<longrightarrow> (\<exists>job. jb_Ticket job = t \<and> (job, r) \<in> set (db_answers s)))"

definition waits_ok :: "'v Database \<Rightarrow> bool" where
  "waits_ok s \<longleftrightarrow> (\<forall>t. awaited (db_stack s) = Some t \<longrightarrow> promised t s) \<and> kept s"

definition db_inv :: "'v Database \<Rightarrow> bool" where
  "db_inv s \<longleftrightarrow> tickets_ok s \<and> books_ok s \<and> threads_ok s \<and> waits_ok s"

lemmas db_inv_parts = tickets_ok_def books_ok_def threads_ok_def waits_ok_def kept_def pending_def held_def answered_def promised_def

lemma db_inv_new: "db_inv new_database"
  by (simp add: db_inv_def db_inv_parts new_database_def ledger_def for_game_def stacked_def calm_def awaited_def)

text \<open>What only the stack changes.\<close>

lemma stack_simps [simp]:
  "tickets_ok (s\<lparr>db_stack := fs\<rparr>) = tickets_ok s" "kept (s\<lparr>db_stack := fs\<rparr>) = kept s" "promised t (s\<lparr>db_stack := fs\<rparr>) = promised t s"
  by (simp_all add: db_inv_parts)

lemma books_stack: "mset (stacked fs) = mset (stacked (db_stack s)) \<Longrightarrow> books_ok (s\<lparr>db_stack := fs\<rparr>) = books_ok s"
  by (simp add: books_ok_def)

text \<open>What a delivery changes.\<close>

lemma Deliver_simps [simp]:
  "db_queue (Deliver j r s) = db_queue s" "db_state (Deliver j r s) = db_state s" "db_worker (Deliver j r s) = db_worker s"
  "db_stack (Deliver j r s) = db_stack s" "db_tickets (Deliver j r s) = db_tickets s" "db_accepted (Deliver j r s) = db_accepted s"
  "db_answers (Deliver j r s) = db_answers s @ [(j, r)]" "db_ran (Deliver j r s) = db_ran s" "db_dropped (Deliver j r s) = db_dropped s"
  "db_onFrame (Deliver j r s) = db_onFrame s" "db_open (Deliver j r s) = db_open s" "db_retryAt (Deliver j r s) = db_retryAt s"
  by (simp_all add: Deliver_def Let_def split: Delivery.splits)

lemma answered_Deliver [simp]: "answered (Deliver j r s) = answered s @ [jb_Ticket j]"
  by (simp add: answered_def)

lemma books_Deliver: "books_ok s \<Longrightarrow> books_ok (Deliver j r s)"
  by (cases "jb_Deliver j") (auto simp: books_ok_def Deliver_def for_game_def gq.push_waits gq.push_good)

lemma promises_Deliver: "db_promises (Deliver j r s) = (if jb_Deliver j = ToPromise then (db_promises s)(jb_Ticket j \<mapsto> r) else db_promises s)"
  by (simp add: Deliver_def Let_def split: Delivery.splits)


subsection \<open>Submitting a job\<close>

definition submit :: "string \<Rightarrow> Delivery \<Rightarrow> 'v Database \<Rightarrow> 'v Database" where
  "submit name d s = (let (job, s) = MakeJob name d s in Enqueue job s)"

lemma RunAsync_submit: "RunAsync name c s = submit name (if c then OnGameThread else NoDelivery) s"
  by (simp add: RunAsync_def submit_def)

lemma submit_simps [simp]:
  "db_state (submit name d s) = db_state s" "db_worker (submit name d s) = db_worker s" "db_stack (submit name d s) = db_stack s"
  "db_onFrame (submit name d s) = db_onFrame s" "held (submit name d s) = held s"
  by (simp_all add: submit_def MakeJob_def Enqueue_def held_def Let_def)

lemma Run_begin_submit: "Run_begin name s = (submit name ToPromise s)\<lparr>db_stack := InRun (db_tickets s) # db_stack s\<rparr>"
  by (simp add: Run_begin_def submit_def MakeJob_def Let_def)

lemma submit_cases:
  obtains (refused) job r where "jb_Ticket job = db_tickets s" "jb_Deliver job = d" "submit name d s = Deliver job r (s\<lparr>db_tickets := db_tickets s + 1\<rparr>)"
  | (taken) job where "jb_Ticket job = db_tickets s" "jb_Deliver job = d" "db_state s = Running"
      "submit name d s = s\<lparr>db_tickets := db_tickets s + 1, db_queue := db_queue s @ [job], db_accepted := db_accepted s @ [db_tickets s]\<rparr>"
proof -
  let ?job = "\<lparr>jb_Ticket = db_tickets s, jb_Name = name, jb_Deliver = d\<rparr>" and ?s = "s\<lparr>db_tickets := db_tickets s + 1\<rparr>"
  have e: "submit name d s = Enqueue ?job ?s" by (simp add: submit_def MakeJob_def)
  consider "db_state s \<noteq> Running" | "db_state s = Running" "MaxQueuedJobs \<le> length (db_queue s)" | "db_state s = Running" "\<not> MaxQueuedJobs \<le> length (db_queue s)" by blast
  thus thesis
  proof cases
    case 1 show thesis by (rule refused[of ?job "Inl (Error_NotReady ''database not running'')"]) (use 1 e in \<open>simp_all add: Enqueue_def\<close>)
  next
    case 2 show thesis by (rule refused[of ?job "Inl (Error_NotReady ''the job queue is full'')"]) (use 2 e in \<open>simp_all add: Enqueue_def\<close>)
  next
    case 3 show thesis by (rule taken[of ?job]) (use 3 e in \<open>simp_all add: Enqueue_def\<close>)
  qed
qed

lemma submit_tickets: "tickets_ok s \<Longrightarrow> tickets_ok (submit name d s)"
proof (cases rule: submit_cases[of s d name])
  case (refused job r)
  assume "tickets_ok s"
  thus ?thesis using ledger_refuse refused by (auto simp: tickets_ok_def pending_def held_def answered_def)
next
  case (taken job)
  assume "tickets_ok s"
  hence "ledger (db_accepted s @ [db_tickets s]) (answered s) (map jb_Ticket (pending s) @ [db_tickets s]) (Suc (db_tickets s))"
    unfolding tickets_ok_def by (rule ledger_accept)
  thus ?thesis using taken by (simp add: tickets_ok_def pending_def held_def answered_def)
qed

lemma submit_books: "books_ok s \<Longrightarrow> books_ok (submit name d s)"
proof (cases rule: submit_cases[of s d name])
  case (refused job r)
  assume "books_ok s"
  hence "books_ok (s\<lparr>db_tickets := db_tickets s + 1\<rparr>)" by (simp add: books_ok_def)
  thus ?thesis using refused books_Deliver by simp
qed (simp add: books_ok_def)

lemma submit_threads: "threads_ok s \<Longrightarrow> db_stack s = [] \<or> hd (db_stack s) \<noteq> InDisconnect \<Longrightarrow> threads_ok (submit name d s)"
  by (cases rule: submit_cases[of s d name]) (auto simp: threads_ok_def split: State.splits)

lemma promised_submit: "promised t s \<Longrightarrow> promised t (submit name d s)"
  by (cases rule: submit_cases[of s d name]) (auto simp: promised_def pending_def held_def promises_Deliver)

lemma promised_fresh: "promised (db_tickets s) (submit name ToPromise s)"
  by (cases rule: submit_cases[of s ToPromise name]) (auto simp: promised_def pending_def held_def promises_Deliver)

lemma kept_Deliver: "kept s \<Longrightarrow> kept (Deliver j r s)"
  unfolding kept_def by (fastforce simp: promises_Deliver split: if_splits)

lemma submit_kept: "kept s \<Longrightarrow> kept (submit name d s)"
proof (cases rule: submit_cases[of s d name])
  case (refused job r)
  assume "kept s"
  hence "kept (s\<lparr>db_tickets := db_tickets s + 1\<rparr>)" by (simp add: kept_def)
  thus ?thesis using refused kept_Deliver by simp
qed (simp add: kept_def)

lemma submit_waits: "waits_ok s \<Longrightarrow> waits_ok (submit name d s)"
  unfolding waits_ok_def using promised_submit submit_kept by auto

lemma submit_inv:
  assumes "db_inv s" "may_call (db_stack s)"
  shows "db_inv (submit name d s)"
proof -
  have "db_stack s = [] \<or> hd (db_stack s) \<noteq> InDisconnect" using assms(2) by (cases "db_stack s" rule: may_call.cases) auto
  hence "threads_ok (submit name d s)" using assms(1) by (intro submit_threads) (simp_all add: db_inv_def)
  thus ?thesis using assms(1) by (simp add: db_inv_def submit_tickets submit_books submit_waits)
qed

lemma may_call_calm: "may_call fs \<Longrightarrow> calm (tl fs) \<Longrightarrow> calm fs"
  by (cases fs rule: may_call.cases) (auto simp: calm_def)

lemma Run_begin_inv:
  assumes "db_inv s" "may_call (db_stack s)"
  shows "db_inv (Run_begin name s)"
proof -
  let ?s = "submit name ToPromise s"
  have i: "db_inv ?s" using submit_inv[OF assms] .
  have c: "calm (db_stack s)" using may_call_calm[OF assms(2)] assms(1) by (simp add: db_inv_def threads_ok_def)
  have p: "promised (db_tickets s) ?s" by (rule promised_fresh)
  have "threads_ok (?s\<lparr>db_stack := InRun (db_tickets s) # db_stack s\<rparr>)" using i c assms(2)
    by (auto simp: db_inv_def threads_ok_def calm_def split: State.splits)
  moreover have "books_ok (?s\<lparr>db_stack := InRun (db_tickets s) # db_stack s\<rparr>)" using i by (subst books_stack) (simp_all add: stacked_def db_inv_def)
  moreover have "waits_ok (?s\<lparr>db_stack := InRun (db_tickets s) # db_stack s\<rparr>)" using i p by (simp add: waits_ok_def awaited_def db_inv_def)
  ultimately show ?thesis using i unfolding Run_begin_submit db_inv_def by simp
qed


subsection \<open>The other calls\<close>

lemma Disconnect_begin_inv:
  assumes "db_inv s" "calm (db_stack s)"
  shows "db_inv (Disconnect_begin now d s)"
proof (cases "db_state s = Running")
  case True
  let ?s = "s\<lparr>db_state := Stopping, db_stopDeadline := now + d, db_stack := InDisconnect # db_stack s\<rparr>"
  have "tickets_ok ?s" "books_ok ?s" "threads_ok ?s" "waits_ok ?s"
    using assms True by (auto simp: db_inv_def db_inv_parts stacked_def awaited_def split: worker.splits)
  thus ?thesis using True by (simp add: db_inv_def Disconnect_begin_def)
qed (use assms in \<open>simp add: Disconnect_begin_def\<close>)

text \<open>A client that starts again has a worker and an empty queue.\<close>

definition started :: "DatabaseConfig \<Rightarrow> Driver \<Rightarrow> 'v Database \<Rightarrow> 'v Database" where
  "started config driver s = s\<lparr>db_config := Some config, db_driver := driver, db_state := Running, db_worker := Taking\<rparr>"

lemma Connect_begin_cases:
  "Connect_begin config s = s \<or> (\<exists>driver. CheckConfig config = Inr driver \<and> db_state s = Stopped \<and>
     Connect_begin config s = (submit ''db_ping'' ToPromise (started config driver s))\<lparr>db_stack := InConnect (db_tickets s) # db_stack s\<rparr>)"
  by (auto simp: Connect_begin_def submit_def started_def MakeJob_def Let_def split: sum.splits)

lemma started_inv: "db_inv s \<Longrightarrow> may_call (db_stack s) \<Longrightarrow> db_state s = Stopped \<Longrightarrow> db_inv (started config driver s)"
  by (auto simp: db_inv_def db_inv_parts started_def)

lemma Connect_begin_inv:
  assumes "db_inv s" "may_call (db_stack s)"
  shows "db_inv (Connect_begin config s)"
proof -
  have "db_inv ((submit ''db_ping'' ToPromise (started config driver s))\<lparr>db_stack := InConnect (db_tickets s) # db_stack s\<rparr>)"
    if st: "db_state s = Stopped" for driver
  proof -
    let ?s = "submit ''db_ping'' ToPromise (started config driver s)" and ?fs = "InConnect (db_tickets s) # db_stack s"
    have stack: "db_stack ?s = db_stack s" "db_state ?s = Running" by (simp_all add: started_def)
    have i: "db_inv ?s" using submit_inv[OF started_inv[OF assms st]] assms(2) by (simp add: started_def)
    have c: "calm (db_stack s)" using may_call_calm[OF assms(2)] assms(1) by (simp add: db_inv_def threads_ok_def)
    have p: "promised (db_tickets s) ?s" using promised_fresh[of "started config driver s"] by (simp add: started_def)
    have "threads_ok (?s\<lparr>db_stack := ?fs\<rparr>)" using i c stack by (auto simp: db_inv_def threads_ok_def calm_def)
    moreover have "books_ok (?s\<lparr>db_stack := ?fs\<rparr>)" using i stack by (subst books_stack) (simp_all add: stacked_def db_inv_def)
    moreover have "waits_ok (?s\<lparr>db_stack := ?fs\<rparr>)" using i p by (simp add: waits_ok_def awaited_def db_inv_def)
    ultimately show ?thesis using i unfolding db_inv_def by simp
  qed
  thus ?thesis using Connect_begin_cases[of config s] assms(1) by metis
qed

lemma DispatchCompletions_inv:
  assumes "db_inv s" "may_call (db_stack s)"
  shows "db_inv (DispatchCompletions s)"
proof -
  obtain ready q where r: "gq_RunAll (db_completions s) = (ready, q)" by (cases "gq_RunAll (db_completions s)")
  have q: "ready = gq_waiting (db_completions s)" "gq_waiting q = []" "queue_ok q"
    using gq.take_waiting[of "db_completions s"] assms(1) r by (auto simp: db_inv_def books_ok_def)
  have c: "calm (db_stack s)" using may_call_calm[OF assms(2)] assms(1) by (simp add: db_inv_def threads_ok_def)
  let ?s = "s\<lparr>db_completions := q, db_stack := InRunAll ready # db_stack s\<rparr>"
  have "tickets_ok ?s" using assms(1) by (simp add: db_inv_def db_inv_parts)
  moreover have "books_ok ?s" using assms(1) q by (simp add: db_inv_def books_ok_def stacked_def)
  moreover have "threads_ok ?s" using assms c by (cases "db_stack s" rule: may_call.cases) (auto simp: db_inv_def threads_ok_def calm_def split: State.splits)
  moreover have "waits_ok ?s" using assms(1) by (simp add: db_inv_def waits_ok_def awaited_def kept_def)
  ultimately show ?thesis by (simp add: db_inv_def DispatchCompletions_def r)
qed

subsection \<open>The game thread goes on\<close>

lemma calm_awaited: "calm fs \<Longrightarrow> awaited fs = None"
  by (cases fs) (auto simp: calm_def awaited_def)

lemma pop_inv:
  assumes "db_inv s" "db_stack s = f # below" "stacked [f] = []" "db_state s \<noteq> Stopping"
  shows "db_inv (s\<lparr>db_stack := below\<rparr>)"
proof -
  have c: "calm below" using assms(1,2) by (simp add: db_inv_def threads_ok_def)
  have ct: "calm (tl below)" using c by (cases below) (auto simp: calm_def)
  have "threads_ok (s\<lparr>db_stack := below\<rparr>)" using assms(1,2,4) c ct by (auto simp: db_inv_def threads_ok_def split: State.splits)
  moreover have "books_ok (s\<lparr>db_stack := below\<rparr>)" using assms(1-3) by (subst books_stack) (auto simp: stacked_def db_inv_def)
  moreover have "waits_ok (s\<lparr>db_stack := below\<rparr>)" using assms(1) calm_awaited[OF c] by (simp add: db_inv_def waits_ok_def)
  ultimately show ?thesis using assms(1) by (simp add: db_inv_def)
qed

lemma onFrame_inv: "db_inv s \<Longrightarrow> db_state s = Running \<Longrightarrow> db_inv (s\<lparr>db_onFrame := True\<rparr>)"
  by (simp add: db_inv_def db_inv_parts)

lemma joined_inv:
  assumes "db_inv s" "db_stack s = InDisconnect # below" "db_worker s = Returned"
  shows "db_inv (s\<lparr>db_state := Stopped, db_worker := NoWorker, db_onFrame := False, db_dropped := db_dropped s @ gq_waiting (db_completions s),
    db_completions := gq_Clear (db_completions s), db_stack := below\<rparr>)" (is "db_inv ?s")
proof -
  have st: "db_state s = Stopping" using assms by (auto simp: db_inv_def threads_ok_def split: State.splits)
  have c: "calm below" using assms(1,2) by (simp add: db_inv_def threads_ok_def)
  have q: "db_queue s = []" using assms st by (simp add: db_inv_def threads_ok_def)
  have "tickets_ok ?s" using assms by (simp add: db_inv_def db_inv_parts)
  moreover have "books_ok ?s" using assms(1,2) gq.clear_waiting by (auto simp: db_inv_def books_ok_def stacked_def)
  moreover have "threads_ok ?s" using c q by (cases below) (auto simp: threads_ok_def calm_def)
  moreover have "waits_ok ?s" using assms(1) calm_awaited[OF c] by (simp add: db_inv_def waits_ok_def kept_def)
  ultimately show ?thesis by (simp add: db_inv_def)
qed

lemma ran_inv:
  assumes "db_inv s" "db_stack s = InRunAll (x # rest) # below"
  shows "db_inv (s\<lparr>db_ran := db_ran s @ [x], db_stack := InRunAll rest # below\<rparr>)" (is "db_inv ?s")
proof -
  have "tickets_ok ?s" using assms by (simp add: db_inv_def db_inv_parts)
  moreover have "books_ok ?s" using assms by (simp add: db_inv_def books_ok_def stacked_def)
  moreover have "threads_ok ?s" using assms by (auto simp: db_inv_def threads_ok_def calm_def split: State.splits)
  moreover have "waits_ok ?s" using assms by (simp add: db_inv_def waits_ok_def awaited_def kept_def)
  ultimately show ?thesis by (simp add: db_inv_def)
qed

lemma state_at:
  assumes "db_inv s" "db_stack s = f # below"
  shows "f \<noteq> InDisconnect \<Longrightarrow> db_state s \<noteq> Stopping" "f = InConnect t \<Longrightarrow> db_state s = Running"
  using assms by (auto simp: db_inv_def threads_ok_def split: State.splits)

lemma game_continue_inv:
  assumes "db_inv s"
  shows "db_inv (game_continue now s)"
proof (cases "game_ready s \<and> db_stack s \<noteq> []")
  case True
  then obtain f below where st: "db_stack s = f # below" and r: "game_ready s" by (cases "db_stack s") auto
  have c: "calm below" using assms st by (simp add: db_inv_def threads_ok_def)
  show ?thesis
  proof (cases f)
    case (InRun t)
    thus ?thesis using pop_inv[OF assms st] state_at(1)[OF assms st] r st by (simp add: game_continue_def stacked_def)
  next
    case (InConnect t)
    have run: "db_state s = Running" using state_at(2)[OF assms st InConnect] .
    have p: "db_inv (s\<lparr>db_stack := below\<rparr>)" using pop_inv[OF assms st] InConnect run by (simp add: stacked_def)
    hence "db_inv (s\<lparr>db_stack := below, db_onFrame := True\<rparr>)" using onFrame_inv[OF p] run by simp
    moreover have "s\<lparr>db_stack := below, db_onFrame := True\<rparr> = s\<lparr>db_onFrame := True, db_stack := below\<rparr>" by simp
    ultimately show ?thesis using Disconnect_begin_inv[OF p] c r st InConnect
      by (auto simp: game_continue_def split: option.splits sum.splits)
  next
    case InDisconnect
    thus ?thesis using joined_inv[OF assms, of below] r st by (simp add: game_continue_def game_ready_def)
  next
    case (InRunAll cs)
    thus ?thesis using pop_inv[OF assms st] state_at(1)[OF assms st] ran_inv[OF assms] r st
      by (cases cs) (auto simp: game_continue_def stacked_def)
  qed
qed (use assms in \<open>auto simp: game_continue_def\<close>)


subsection \<open>The worker\<close>

definition Fail_all :: "Error \<Rightarrow> Job list \<Rightarrow> 'v Database \<Rightarrow> 'v Database" where
  "Fail_all e jobs = fold (\<lambda>job. Deliver job (Inl e)) jobs"

lemma Fail_all_Cons [simp]: "Fail_all e [] s = s" "Fail_all e (j # js) s = Fail_all e js (Deliver j (Inl e) s)"
  by (simp_all add: Fail_all_def)

lemma Fail_all_simps [simp]:
  "db_queue (Fail_all e js s) = db_queue s" "db_state (Fail_all e js s) = db_state s" "db_worker (Fail_all e js s) = db_worker s"
  "db_stack (Fail_all e js s) = db_stack s" "db_tickets (Fail_all e js s) = db_tickets s" "db_accepted (Fail_all e js s) = db_accepted s"
  "db_onFrame (Fail_all e js s) = db_onFrame s"
  by (induction js arbitrary: s) simp_all

lemma answered_Fail_all: "answered (Fail_all e js s) = answered s @ map jb_Ticket js"
  by (induction js arbitrary: s) simp_all

lemma books_Fail_all: "books_ok s \<Longrightarrow> books_ok (Fail_all e js s)"
  by (induction js arbitrary: s) (simp_all add: books_Deliver)

lemma kept_Fail_all: "kept s \<Longrightarrow> kept (Fail_all e js s)"
  by (induction js arbitrary: s) (simp_all add: kept_Deliver)

lemma TakeJob_past:
  "db_state s = Stopping \<Longrightarrow> db_stopDeadline s \<le> now \<Longrightarrow> TakeJob now s = (None, (Fail_all (Error_NotReady ''shutdown'') (db_queue s) s)\<lparr>db_queue := []\<rparr>)"
  by (simp add: TakeJob_def Fail_all_def)

lemma TakeJob_next:
  "\<not> (db_state s = Stopping \<and> db_stopDeadline s \<le> now) \<Longrightarrow>
   TakeJob now s = (case db_queue s of [] \<Rightarrow> (None, s) | job # rest \<Rightarrow> (Some job, s\<lparr>db_queue := rest\<rparr>))"
  unfolding TakeJob_def Let_def by (simp only: if_False)

lemma take_inv:
  assumes "db_inv s" "db_worker s = Taking" "db_queue s = job # rest"
  shows "db_inv (s\<lparr>db_queue := rest, db_worker := Working job\<rparr>)"
  using assms by (auto simp: db_inv_def db_inv_parts split: State.splits)

lemma return_inv:
  assumes "db_inv s" "db_worker s = Taking" "db_state s = Stopping"
  shows "db_inv ((DropConnection ((Fail_all e (db_queue s) s)\<lparr>db_queue := []\<rparr>))\<lparr>db_worker := Returned\<rparr>)" (is "db_inv ?s")
proof -
  have "ledger (db_accepted s) (answered s) (map jb_Ticket (db_queue s) @ []) (db_tickets s)"
    using assms by (simp add: db_inv_def tickets_ok_def pending_def held_def)
  hence "ledger (db_accepted s) (answered s @ map jb_Ticket (db_queue s)) [] (db_tickets s)" by (rule ledger_answers)
  moreover have "answered ?s = answered (Fail_all e (db_queue s) s)" by (simp add: answered_def DropConnection_def)
  ultimately have "tickets_ok ?s" by (simp add: tickets_ok_def pending_def held_def answered_Fail_all DropConnection_def)
  moreover have "books_ok ?s" using books_Fail_all[of s e "db_queue s"] assms(1) by (simp add: db_inv_def books_ok_def DropConnection_def)
  moreover have "threads_ok ?s" using assms by (auto simp: db_inv_def threads_ok_def DropConnection_def)
  moreover have "kept ?s" using kept_Fail_all[of s e "db_queue s"] assms(1) by (simp add: db_inv_def waits_ok_def kept_def DropConnection_def)
  moreover have "awaited (db_stack ?s) = None" using assms by (auto simp: db_inv_def threads_ok_def DropConnection_def awaited_def)
  ultimately show ?thesis by (simp add: db_inv_def waits_ok_def)
qed

text \<open>A job changes the connection and then delivers one answer.\<close>

definition reconnected :: "'v Database \<Rightarrow> 'v Database \<Rightarrow> bool" where
  "reconnected s s' \<longleftrightarrow> s' = s\<lparr>db_open := db_open s', db_connected := db_connected s', db_retryAt := db_retryAt s'\<rparr>"

lemma reconnected_EnsureOpen: "reconnected s (snd (EnsureOpen e s))"
  by (simp add: reconnected_def EnsureOpen_def DropConnection_def)

lemma reconnected_Drop: "reconnected s s' \<Longrightarrow> reconnected s (DropConnection s')"
  by (cases s, cases s') (simp add: reconnected_def DropConnection_def)

lemma RunJob_form: "\<exists>r s'. RunJob e job s = Deliver job r s' \<and> reconnected s s'"
proof -
  obtain ok s' where o: "EnsureOpen e s = (ok, s')" by fastforce
  have "reconnected s s'" using reconnected_EnsureOpen[of s e] o by simp
  thus ?thesis using reconnected_Drop[of s s'] by (cases ok; cases "su_outcome e") (auto simp: RunJob_def o)
qed

lemma reconnected_inv: "db_inv s \<Longrightarrow> reconnected s s' \<Longrightarrow> db_inv s' \<and> db_worker s' = db_worker s \<and> db_queue s' = db_queue s \<and> db_state s' = db_state s"
  by (cases s, cases s') (auto simp: reconnected_def db_inv_def db_inv_parts split: State.splits)

lemma run_inv:
  assumes "db_inv s" "db_worker s = Working job"
  shows "db_inv ((Deliver job r s)\<lparr>db_worker := Taking\<rparr>)" (is "db_inv ?s")
proof -
  have "ledger (db_accepted s) (answered s) ([jb_Ticket job] @ map jb_Ticket (db_queue s)) (db_tickets s)"
    using assms by (simp add: db_inv_def tickets_ok_def pending_def held_def)
  hence "ledger (db_accepted s) (answered s @ [jb_Ticket job]) (map jb_Ticket (db_queue s)) (db_tickets s)" by (rule ledger_answers)
  hence "tickets_ok ?s" by (simp add: tickets_ok_def pending_def held_def answered_def)
  moreover have "books_ok ?s" using books_Deliver[of s job r] assms(1) by (simp add: db_inv_def books_ok_def)
  moreover have "threads_ok ?s" using assms by (auto simp: db_inv_def threads_ok_def split: State.splits)
  moreover have "kept ?s" using kept_Deliver[of s job r] assms(1) by (simp add: db_inv_def waits_ok_def kept_def)
  moreover have "promised t ?s" if "promised t s" for t
    using that assms(2) by (auto simp: promised_def pending_def held_def promises_Deliver)
  ultimately show ?thesis using assms(1) by (simp add: db_inv_def waits_ok_def)
qed

lemma WorkerMain_inv:
  assumes "db_inv s"
  shows "db_inv (WorkerMain e s)"
proof (cases "worker_ready s")
  case True
  show ?thesis
  proof (cases "db_worker s")
    case Taking
    show ?thesis
    proof (cases "db_state s = Stopping \<and> db_stopDeadline s \<le> su_now e")
      case past: True
      thus ?thesis using return_inv[OF assms Taking] True Taking by (simp add: WorkerMain_def TakeJob_past)
    next
      case False
      show ?thesis
      proof (cases "db_queue s")
        case Nil
        hence "db_state s = Stopping" using True Taking by (simp add: worker_ready_def)
        hence "db_inv ((DropConnection (s\<lparr>db_queue := []\<rparr>))\<lparr>db_worker := Returned\<rparr>)" using return_inv[OF assms Taking] Nil by simp
        moreover have "s\<lparr>db_queue := []\<rparr> = s" by (simp add: Nil[symmetric])
        ultimately show ?thesis using True Taking Nil by (simp only:) (simp add: WorkerMain_def TakeJob_next[OF False])
      next
        case (Cons job rest)
        thus ?thesis using take_inv[OF assms Taking Cons] True Taking by (simp add: WorkerMain_def TakeJob_next[OF False])
      qed
    qed
  next
    case (Working job)
    obtain r s' where f: "RunJob e job s = Deliver job r s'" "reconnected s s'" using RunJob_form by blast
    show ?thesis using run_inv[of s' job r] reconnected_inv[OF assms f(2)] True Working by (simp add: WorkerMain_def f(1))
  qed (use True in \<open>auto simp: worker_ready_def\<close>)
qed (use assms in \<open>simp add: WorkerMain_def\<close>)

lemma db_step_inv: "db_step s s' \<Longrightarrow> db_inv s \<Longrightarrow> db_inv s'"
proof (induction rule: db_step.induct)
  case (step_disconnect s now d)
  thus ?case using Disconnect_begin_inv[OF _ may_call_calm] by (auto simp: db_inv_def threads_ok_def)
qed (simp_all add: Connect_begin_inv RunAsync_submit submit_inv Run_begin_inv DispatchCompletions_inv game_continue_inv WorkerMain_inv)

lemma db_reachable_inv: "db_reachable s \<Longrightarrow> db_inv s"
  by (induction rule: db_reachable.induct) (auto simp: db_inv_new db_step_inv)


section \<open>The theorems\<close>

text \<open>
  C29: no job is lost, answered twice or overtaken. However the two threads interleave, every job handed in is answered or still pending, once; the accepted
  ones are answered in the order they came; each answer with a callback ran on the game thread, waits to run or was dropped by a disconnect, once; a stopped
  client has answered everything.
\<close>

theorem database_answers_once:
  assumes "db_reachable s"
  shows "distinct (answered s @ map jb_Ticket (pending s)) \<and> set (answered s @ map jb_Ticket (pending s)) = {0..<db_tickets s} \<and>
    filter (\<lambda>t. t \<in> set (db_accepted s)) (answered s) @ map jb_Ticket (pending s) = db_accepted s \<and>
    mset (for_game (db_answers s)) = mset (db_ran s) + mset (stacked (db_stack s)) + mset (gq_waiting (db_completions s)) + mset (db_dropped s) \<and>
    (db_state s = Stopped \<longrightarrow> pending s = [])"
proof -
  have i: "db_inv s" using db_reachable_inv[OF assms] .
  have l: "ledger (db_accepted s) (answered s) (map jb_Ticket (pending s)) (db_tickets s)" using i by (simp add: db_inv_def tickets_ok_def)
  have "pending s = []" if "db_state s = Stopped" using i that by (simp add: db_inv_def threads_ok_def pending_def held_def)
  thus ?thesis using ledger_distinct[OF l] ledger_set[OF l] l i by (auto simp: ledger_def db_inv_def books_ok_def)
qed

text \<open>A client that connects to a file, runs one job in the background and then runs its callback.\<close>

definition file_config :: DatabaseConfig where
  "file_config = \<lparr>dc_driver = ''SQLite'', dc_host = [], dc_port = 0, dc_database = [], dc_username = [], dc_password = [], dc_sslMode = [],
     dc_connectTimeoutSec = 5, dc_path = ''bans.db''\<rparr>"

definition answering :: "nat \<Rightarrow> nat surroundings" where
  "answering v = \<lparr>su_now = 0, su_alive = True, su_opens = True, su_outcome = Inr v\<rparr>"

definition one_job :: "nat Database" where
  "one_job = game_continue 0 (DispatchCompletions (WorkerMain (answering 42) (WorkerMain (answering 42) (RunAsync ''bans'' True
     (game_continue 0 (WorkerMain (answering 1) (WorkerMain (answering 1) (Connect_begin file_config new_database))))))))"

lemma one_job_reachable: "db_reachable one_job"
proof -
  have "may_call (db_stack (game_continue 0 (WorkerMain (answering 1) (WorkerMain (answering 1) (Connect_begin file_config new_database)))))" by code_simp
  moreover have "may_call (db_stack (WorkerMain (answering 42) (WorkerMain (answering 42) (RunAsync ''bans'' True
     (game_continue 0 (WorkerMain (answering 1) (WorkerMain (answering 1) (Connect_begin file_config new_database))))))))" by code_simp
  moreover have "may_call (db_stack (new_database :: nat Database))" by code_simp
  ultimately show ?thesis unfolding one_job_def by (intro reach_step[OF _ step_game] reach_step[OF _ step_dispatch] reach_step[OF _ step_worker]
      reach_step[OF _ step_run_async] reach_step[OF _ step_connect] reach_new)
qed

theorem database_answers_once_witness:
  "mset (for_game (db_answers one_job)) = mset (db_ran one_job) + mset (stacked (db_stack one_job)) + mset (gq_waiting (db_completions one_job)) +
     mset (db_dropped one_job) \<and> db_ran one_job = [(1, Inr 42)] \<and> db_accepted one_job = [0, 1]"
proof -
  have "db_ran one_job = [(1, Inr 42)]" "db_accepted one_job = [0, 1]" by code_simp+
  thus ?thesis using database_answers_once[OF one_job_reachable] by blast
qed

text \<open>What the worker has left to do before it waits or returns.\<close>

definition work_left :: "'v Database \<Rightarrow> nat" where
  "work_left s = 2 * length (db_queue s) + (case db_worker s of Working _ \<Rightarrow> 2 | Taking \<Rightarrow> 1 | _ \<Rightarrow> 0)"

lemma worker_progress: "worker_ready s \<Longrightarrow> work_left (WorkerMain e s) < work_left s"
proof (cases "db_worker s")
  case Taking
  assume r: "worker_ready s"
  show ?thesis
  proof (cases "db_state s = Stopping \<and> db_stopDeadline s \<le> su_now e")
    case True thus ?thesis using r Taking by (simp add: WorkerMain_def TakeJob_past work_left_def DropConnection_def)
  next
    case False
    show ?thesis using r Taking by (cases "db_queue s") (auto simp: WorkerMain_def TakeJob_next[OF False] work_left_def DropConnection_def)
  qed
next
  case (Working job)
  assume r: "worker_ready s"
  obtain a s' where f: "RunJob e job s = Deliver job a s'" "reconnected s s'" using RunJob_form by blast
  have "db_queue s' = db_queue s" using f(2) by (cases s, cases s') (simp add: reconnected_def)
  thus ?thesis using r Working by (simp add: WorkerMain_def f(1) work_left_def)
qed (simp_all add: worker_ready_def)

lemma db_stack_WorkerMain [simp]: "db_stack (WorkerMain e s) = db_stack s"
proof -
  have "db_stack (RunJob e job s) = db_stack s" for job
  proof -
    obtain a s' where f: "RunJob e job s = Deliver job a s'" "reconnected s s'" using RunJob_form by blast
    have "db_stack s' = db_stack s" using f(2) by (cases s, cases s') (simp add: reconnected_def)
    thus ?thesis by (simp add: f(1))
  qed
  moreover have "db_stack (snd (TakeJob now s)) = db_stack s" for now
    by (cases "db_state s = Stopping \<and> db_stopDeadline s \<le> now") (auto simp: TakeJob_past TakeJob_next split: list.splits)
  ultimately show ?thesis by (auto simp: WorkerMain_def DropConnection_def split: worker.splits prod.splits option.splits) (metis snd_conv)+
qed

text \<open>While the game thread waits, the worker can go on; the wait ends before its work does.\<close>

lemma waiting_ready:
  assumes "db_inv s" "db_stack s \<noteq> []" "\<not> game_ready s"
  shows "worker_ready s"
proof -
  obtain f below where st: "db_stack s = f # below" using assms(2) by (cases "db_stack s") auto
  show ?thesis
  proof (cases "awaited (db_stack s)")
    case (Some t)
    hence n: "db_promises s t = None" using assms(3) st by (auto simp: awaited_def game_ready_def split: frame.splits)
    hence p: "pending s \<noteq> []" using assms(1) Some by (auto simp: db_inv_def waits_ok_def promised_def)
    have "db_state s \<noteq> Stopping" using Some assms(1) by (auto simp: db_inv_def threads_ok_def awaited_def)
    thus ?thesis using p assms(1) by (auto simp: db_inv_def threads_ok_def worker_ready_def pending_def held_def split: worker.splits State.splits)
  next
    case None
    hence f: "f = InDisconnect" using assms(3) st by (cases f) (auto simp: awaited_def game_ready_def)
    hence "db_state s = Stopping" using assms(1) st by (auto simp: db_inv_def threads_ok_def split: State.splits)
    thus ?thesis using assms(1,3) st f by (auto simp: db_inv_def threads_ok_def worker_ready_def game_ready_def split: worker.splits)
  qed
qed

lemma not_ready_stays: "\<not> worker_ready s \<Longrightarrow> fold WorkerMain es s = s"
  by (induction es) (auto simp: WorkerMain_def)

lemma worker_stops: "work_left s \<le> length es \<Longrightarrow> \<not> worker_ready (fold WorkerMain es s)"
proof (induction es arbitrary: s)
  case Nil thus ?case by (auto simp: work_left_def worker_ready_def split: worker.splits)
next
  case (Cons e es)
  show ?case
  proof (cases "worker_ready s")
    case True thus ?thesis using worker_progress[OF True, of e] Cons.prems Cons.IH[of "WorkerMain e s"] by simp
  next
    case False thus ?thesis using not_ready_stays[OF False, of "e # es"] by simp
  qed
qed

lemma fold_WorkerMain_inv: "db_inv s \<Longrightarrow> db_inv (fold WorkerMain es s) \<and> db_stack (fold WorkerMain es s) = db_stack s"
  by (induction es arbitrary: s) (simp_all add: WorkerMain_inv)

text \<open>
  C30: no call hangs. Whenever the game thread is inside a blocking run, a connect or a disconnect, its wait is over after at most two turns of the worker for
  each queued job and two more, whatever the database does: whether it can be reached, refuses, throws or loses the connection.
\<close>

theorem database_waits_end:
  assumes "db_reachable s" "db_stack s \<noteq> []" "2 * length (db_queue s) + 2 \<le> length es"
  shows "game_ready (fold WorkerMain es s)"
proof (rule ccontr)
  let ?s = "fold WorkerMain es s"
  assume "\<not> game_ready ?s"
  hence "worker_ready ?s" using waiting_ready[of ?s] fold_WorkerMain_inv[OF db_reachable_inv[OF assms(1)]] assms(2) by simp
  moreover have "work_left s \<le> length es" using assms(3) by (simp add: work_left_def split: worker.splits)
  ultimately show False using worker_stops by blast
qed

text \<open>A connect whose database cannot be reached.\<close>

definition refusing :: "int \<Rightarrow> nat surroundings" where
  "refusing now = \<lparr>su_now = now, su_alive = True, su_opens = False, su_outcome = Inl []\<rparr>"

definition connecting :: "nat Database" where
  "connecting = Connect_begin file_config new_database"

theorem database_waits_end_witness:
  "game_ready (fold WorkerMain (replicate 4 (refusing 9)) connecting) \<and> \<not> game_ready connecting \<and> length (db_queue connecting) = 1"
proof -
  have r: "db_reachable connecting" unfolding connecting_def by (rule reach_step[OF reach_new step_connect]) code_simp
  have q: "length (db_queue connecting) = 1" "db_stack connecting \<noteq> []" "\<not> game_ready connecting" by code_simp+
  show ?thesis using database_waits_end[OF r q(2), of "replicate 4 (refusing 9)"] q by simp
qed

section \<open>Where the comments promise more\<close>

text \<open>
  A refused job's callback is to run on a later frame. Frames are subscribed only while the client runs, so before a connect and after a disconnect it waits
  in a queue that nothing empties.
\<close>

lemma refused_callback_waits:
  assumes "db_reachable s" "db_state s = Stopped"
  shows "\<not> db_onFrame (RunAsync name True s) \<and>
    gq_waiting (db_completions (RunAsync name True s)) = gq_waiting (db_completions s) @ [(db_tickets s, Inl (Error_NotReady ''database not running''))]"
proof -
  have "\<not> db_onFrame s" using db_reachable_inv[OF assms(1)] assms(2) by (simp add: db_inv_def threads_ok_def)
  thus ?thesis using assms(2) by (simp add: RunAsync_def MakeJob_def Enqueue_def Deliver_def gq.push_waits)
qed

text \<open>
  A connect is to fail only for a bad configuration or an unreachable database. The pause after a failed attempt outlives the disconnect, so a second connect
  within it fails although the database can be reached.
\<close>

definition connect_turn :: "nat surroundings \<Rightarrow> nat Database \<Rightarrow> nat Database" where
  "connect_turn e s = game_continue (su_now e) (WorkerMain e (game_continue (su_now e) (WorkerMain e (WorkerMain e (Connect_begin file_config s)))))"

definition reachable_at :: "int \<Rightarrow> nat surroundings" where
  "reachable_at now = \<lparr>su_now = now, su_alive = True, su_opens = True, su_outcome = Inr 1\<rparr>"

lemma second_connect_refused:
  "db_state (connect_turn (refusing 1000) new_database) = Stopped"
  "db_state (connect_turn (reachable_at 5999) (connect_turn (refusing 1000) new_database)) = Stopped"
  "db_state (connect_turn (reachable_at 6000) (connect_turn (refusing 1000) new_database)) = Running"
  by code_simp+

end
