(* ===== verification/HttpClient.thy ===== *)
theory HttpClient
  imports GameThreadQueue Strings "HOL-Library.Multiset"
begin

text \<open>
  The HTTP client: requests run on up to four kept worker threads, their completions on the game thread. Sources: \<^verbatim>\<open>src/Http/HttpClient.cpp\<close>,
  \<^verbatim>\<open>include/VoltMod/Http/{HttpClient,HttpResult}.hpp\<close>. The threads are steps on one state, interleaved in any order: a section that holds the mutex
  is one step, and so is a transfer with the push of its completion. What the network answers is the environment's, given to the worker's step. A request
  carries a ticket so that its completion can be followed; log lines are left out.
\<close>

section \<open>Requests\<close>

datatype HttpMethod = Get | Post | Put | Patch | Delete

record HttpResult =
  hr_Ok :: bool
  hr_StatusCode :: int
  hr_Body :: string
  hr_Error :: string

definition IsSuccess :: "HttpResult \<Rightarrow> bool" where
  "IsSuccess r \<longleftrightarrow> hr_Ok r \<and> 200 \<le> hr_StatusCode r \<and> hr_StatusCode r < 300"

text \<open>Header names are ordered and told apart ignoring case. The map keeps the first spelling of a name.\<close>

definition header_to_lower :: "char \<Rightarrow> char" where
  "header_to_lower c = (if 65 \<le> byte_of c \<and> byte_of c \<le> 90 then char_of (byte_of c + 32) else c)"

definition same_header :: "string \<Rightarrow> string \<Rightarrow> bool" where
  "same_header l r \<longleftrightarrow> map header_to_lower l = map header_to_lower r"

fun set_header :: "string \<Rightarrow> string \<Rightarrow> (string \<times> string) list \<Rightarrow> (string \<times> string) list" where
  "set_header name v [] = [(name, v)]"
| "set_header name v ((n, w) # hs) = (if same_header n name then (n, v) # hs else (n, w) # set_header name v hs)"

definition find_header :: "string \<Rightarrow> (string \<times> string) list \<Rightarrow> string option" where
  "find_header name hs = map_option snd (List.find (\<lambda>(n, w). same_header n name) hs)"

record HttpRequest =
  rq_Method :: HttpMethod
  rq_Url :: string
  rq_Body :: string
  rq_Headers :: "(string \<times> string) list"
  rq_TimeoutMs :: int

definition AddAuth :: "string \<Rightarrow> string \<Rightarrow> string \<Rightarrow> HttpRequest \<Rightarrow> HttpRequest" where
  "AddAuth header scheme key r =
     (if key = [] then r else r\<lparr>rq_Headers := set_header header (if scheme = [] then key else scheme @ '' '' @ key) (rq_Headers r)\<rparr>)"

lemma same_header_refl [simp]: "same_header n n" by (simp add: same_header_def)

lemma find_set_header: "find_header name (set_header n v hs) = (if same_header n name then Some v else find_header name hs)"
  by (induction n v hs rule: set_header.induct) (auto simp: find_header_def same_header_def)

text \<open>A credential is found under its header in any spelling, is the only value there, and leaves every other header alone.\<close>

lemma AddAuth_found:
  assumes "key \<noteq> []"
  shows "find_header name (rq_Headers (AddAuth header scheme key r)) =
    (if same_header header name then Some (if scheme = [] then key else scheme @ '' '' @ key) else find_header name (rq_Headers r))"
  using assms by (simp add: AddAuth_def find_set_header)

section \<open>State\<close>

definition MaxWorkers :: nat where "MaxWorkers = 4"
definition MaxWaiting :: nat where "MaxWaiting = 64"

text \<open>What the transfer library answers: an error message, or a status and a body.\<close>

type_synonym response = "string + int \<times> string"

definition ToResult :: "response \<Rightarrow> HttpResult" where
  "ToResult response = (case response of
     Inl message \<Rightarrow> \<lparr>hr_Ok = False, hr_StatusCode = 0, hr_Body = [], hr_Error = message\<rparr>
   | Inr (status, body) \<Rightarrow> \<lparr>hr_Ok = True, hr_StatusCode = status, hr_Body = body, hr_Error = []\<rparr>)"

text \<open>Where a worker is: before \<open>Take\<close>, counted idle and waiting for a request, with one, or returned.\<close>

datatype http_worker = Starting | Idling | Transferring nat | Gone

record WaitingRequest =
  wr_Ticket :: nat
  wr_Request :: HttpRequest

text \<open>What the game thread is inside of: the rest of a \<open>RunAll\<close>, or the join in \<open>Stop\<close>.\<close>

datatype http_frame = Completing "(nat \<times> HttpResult) list" | Joining

record Requests =
  hq_Waiting :: "WaitingRequest list"
  hq_Workers :: "http_worker list"
  hq_IdleWorkers :: nat
  hq_Completions :: "(nat \<times> HttpResult) GameThreadQueue"
  hq_Stopped :: bool
  hq_stack :: "http_frame list"
  hq_tickets :: nat
  hq_answers :: "(nat \<times> HttpResult) list"
  hq_ran :: "(nat \<times> HttpResult) list"
  hq_dropped :: "nat list"
  hq_unrun :: "(nat \<times> HttpResult) list"

text \<open>
  The last four only record what happened: results that came, completions that ran, requests dropped because the client stopped, and completions cleared then.
\<close>

definition new_client :: Requests where
  "new_client = \<lparr>hq_Waiting = [], hq_Workers = [], hq_IdleWorkers = 0, hq_Completions = new_queue, hq_Stopped = False, hq_stack = [], hq_tickets = 0,
     hq_answers = [], hq_ran = [], hq_dropped = [], hq_unrun = []\<rparr>"

section \<open>Workers\<close>

definition Complete :: "nat \<Rightarrow> HttpResult \<Rightarrow> Requests \<Rightarrow> Requests" where
  "Complete t r s = s\<lparr>hq_Completions := gq_Push (t, r) (hq_Completions s), hq_answers := hq_answers s @ [(t, r)]\<rparr>"

text \<open>\<open>Take\<close> counts itself idle, waits until there is a request or the client stops, and then goes on.\<close>

definition Take_begin :: "nat \<Rightarrow> Requests \<Rightarrow> Requests" where
  "Take_begin i s = s\<lparr>hq_IdleWorkers := hq_IdleWorkers s + 1, hq_Workers := (hq_Workers s)[i := Idling]\<rparr>"

definition Take_end :: "nat \<Rightarrow> Requests \<Rightarrow> Requests" where
  "Take_end i s =
     (let s = s\<lparr>hq_IdleWorkers := hq_IdleWorkers s - 1\<rparr> in
      if hq_Stopped s then s\<lparr>hq_Workers := (hq_Workers s)[i := Gone]\<rparr>
      else case hq_Waiting s of [] \<Rightarrow> s | w # rest \<Rightarrow> s\<lparr>hq_Waiting := rest, hq_Workers := (hq_Workers s)[i := Transferring (wr_Ticket w)]\<rparr>)"

definition http_ready :: "nat \<Rightarrow> Requests \<Rightarrow> bool" where
  "http_ready i s \<longleftrightarrow> i < length (hq_Workers s) \<and>
     (case hq_Workers s ! i of Idling \<Rightarrow> hq_Stopped s \<or> hq_Waiting s \<noteq> [] | Gone \<Rightarrow> False | _ \<Rightarrow> True)"

definition Work :: "nat \<Rightarrow> response \<Rightarrow> Requests \<Rightarrow> Requests" where
  "Work i answer s =
     (if \<not> http_ready i s then s
      else case hq_Workers s ! i of
        Starting \<Rightarrow> Take_begin i s
      | Idling \<Rightarrow> Take_end i s
      | Transferring t \<Rightarrow> (Complete t (ToResult answer) s)\<lparr>hq_Workers := (hq_Workers s)[i := Starting]\<rparr>
      | Gone \<Rightarrow> s)"

section \<open>The game thread\<close>

definition Send :: "HttpRequest \<Rightarrow> Requests \<Rightarrow> Requests" where
  "Send request s =
     (let t = hq_tickets s; s = s\<lparr>hq_tickets := t + 1\<rparr> in
      if hq_Stopped s then s\<lparr>hq_dropped := hq_dropped s @ [t]\<rparr>
      else if MaxWaiting \<le> length (hq_Waiting s)
      then Complete t \<lparr>hr_Ok = False, hr_StatusCode = 0, hr_Body = [], hr_Error = ''too many requests waiting''\<rparr> s
      else let s = s\<lparr>hq_Waiting := hq_Waiting s @ [\<lparr>wr_Ticket = t, wr_Request = request\<rparr>]\<rparr>
           in if hq_IdleWorkers s = 0 \<and> length (hq_Workers s) < MaxWorkers then s\<lparr>hq_Workers := hq_Workers s @ [Starting]\<rparr> else s)"

definition RunCompletions :: "Requests \<Rightarrow> Requests" where
  "RunCompletions s = (let (ready, q) = gq_RunAll (hq_Completions s) in s\<lparr>hq_Completions := q, hq_stack := Completing ready # hq_stack s\<rparr>)"

definition Stop_begin :: "Requests \<Rightarrow> Requests" where
  "Stop_begin s = s\<lparr>hq_Stopped := True, hq_stack := Joining # hq_stack s\<rparr>"

definition http_game_ready :: "Requests \<Rightarrow> bool" where
  "http_game_ready s = (case hq_stack s of [] \<Rightarrow> False | Completing _ # _ \<Rightarrow> True | Joining # _ \<Rightarrow> (\<forall>w \<in> set (hq_Workers s). w = Gone))"

definition http_continue :: "Requests \<Rightarrow> Requests" where
  "http_continue s =
     (if \<not> http_game_ready s then s
      else case hq_stack s of
        [] \<Rightarrow> s
      | Completing [] # below \<Rightarrow> s\<lparr>hq_stack := below\<rparr>
      | Completing (c # rest) # below \<Rightarrow> s\<lparr>hq_ran := hq_ran s @ [c], hq_stack := Completing rest # below\<rparr>
      | Joining # below \<Rightarrow> s\<lparr>hq_Workers := [], hq_dropped := hq_dropped s @ map wr_Ticket (hq_Waiting s),
          hq_unrun := hq_unrun s @ gq_waiting (hq_Completions s), hq_Waiting := [], hq_Completions := gq_Clear (hq_Completions s), hq_stack := below\<rparr>)"

text \<open>A call is made with nothing else on the stack, or from a completion.\<close>

definition may_call_http :: "Requests \<Rightarrow> bool" where
  "may_call_http s = (case hq_stack s of Joining # _ \<Rightarrow> False | _ \<Rightarrow> True)"

inductive http_step :: "Requests \<Rightarrow> Requests \<Rightarrow> bool" where
  http_send: "may_call_http s \<Longrightarrow> http_step s (Send request s)"
| http_frame: "may_call_http s \<Longrightarrow> http_step s (RunCompletions s)"
| http_stop: "may_call_http s \<Longrightarrow> http_step s (Stop_begin s)"
| http_game: "http_step s (http_continue s)"
| http_work: "http_step s (Work i answer s)"

inductive http_reachable :: "Requests \<Rightarrow> bool" where
  http_new: "http_reachable new_client"
| http_next: "http_reachable s \<Longrightarrow> http_step s s' \<Longrightarrow> http_reachable s'"

section \<open>The invariant\<close>

definition transferring :: "http_worker list \<Rightarrow> nat list" where
  "transferring ws = concat (map (\<lambda>w. case w of Transferring t \<Rightarrow> [t] | _ \<Rightarrow> []) ws)"

definition completing :: "http_frame list \<Rightarrow> (nat \<times> HttpResult) list" where
  "completing fs = concat (map (\<lambda>f. case f of Completing cs \<Rightarrow> cs | Joining \<Rightarrow> []) fs)"

text \<open>Every request sent has a result, is under way, waits, or was dropped by a stop, once.\<close>

definition requests_ok :: "Requests \<Rightarrow> bool" where
  "requests_ok s \<longleftrightarrow> mset (map fst (hq_answers s)) + mset (transferring (hq_Workers s)) + mset (map wr_Ticket (hq_Waiting s)) + mset (hq_dropped s) = mset [0..<hq_tickets s]"

text \<open>Every result ran its completion, is about to, waits, or was cleared by a stop, once.\<close>

definition results_ok :: "Requests \<Rightarrow> bool" where
  "results_ok s \<longleftrightarrow> queue_ok (hq_Completions s) \<and>
     mset (hq_answers s) = mset (hq_ran s) + mset (completing (hq_stack s)) + mset (gq_waiting (hq_Completions s)) + mset (hq_unrun s)"

definition bounds_ok :: "Requests \<Rightarrow> bool" where
  "bounds_ok s \<longleftrightarrow> hq_IdleWorkers s = length (filter (\<lambda>w. w = Idling) (hq_Workers s)) \<and> length (hq_Workers s) \<le> MaxWorkers \<and> length (hq_Waiting s) \<le> MaxWaiting"

definition stopping_ok :: "Requests \<Rightarrow> bool" where
  "stopping_ok s \<longleftrightarrow> Joining \<notin> set (tl (hq_stack s)) \<and>
     (if hq_Stopped s then (\<exists>below. hq_stack s = Joining # below) \<or> hq_Workers s = [] \<and> hq_Waiting s = [] \<and> gq_waiting (hq_Completions s) = []
      else Joining \<notin> set (hq_stack s) \<and> Gone \<notin> set (hq_Workers s) \<and> (hq_Waiting s \<noteq> [] \<longrightarrow> hq_Workers s \<noteq> []))"

definition http_inv :: "Requests \<Rightarrow> bool" where
  "http_inv s \<longleftrightarrow> requests_ok s \<and> results_ok s \<and> bounds_ok s \<and> stopping_ok s"

lemmas http_inv_parts = http_inv_def requests_ok_def results_ok_def bounds_ok_def stopping_ok_def

lemma http_inv_new: "http_inv new_client"
  by (simp add: http_inv_parts new_client_def transferring_def completing_def)

lemma results_Complete: "results_ok s \<Longrightarrow> results_ok (Complete t r s)"
  by (simp add: results_ok_def Complete_def gq.push_waits gq.push_good)

lemma not_joining: "may_call_http s \<Longrightarrow> \<not> (\<exists>below. hq_stack s = Joining # below)"
  by (auto simp: may_call_http_def)

lemma Send_inv:
  assumes "http_inv s" "may_call_http s"
  shows "http_inv (Send request s)"
proof -
  consider (stopped) "hq_Stopped s" | (full) "\<not> hq_Stopped s" "MaxWaiting \<le> length (hq_Waiting s)" | (taken) "\<not> hq_Stopped s" "length (hq_Waiting s) < MaxWaiting" by linarith
  thus ?thesis
  proof cases
    case stopped
    thus ?thesis using assms not_joining[OF assms(2)] by (auto simp: http_inv_parts Send_def Let_def)
  next
    case full
    let ?refused = "\<lparr>hr_Ok = False, hr_StatusCode = 0, hr_Body = [], hr_Error = ''too many requests waiting''\<rparr>"
    let ?s = "Complete (hq_tickets s) ?refused (s\<lparr>hq_tickets := hq_tickets s + 1\<rparr>)"
    have "results_ok ?s" using assms(1) by (intro results_Complete) (simp add: http_inv_def results_ok_def)
    moreover have "requests_ok ?s" "bounds_ok ?s" "stopping_ok ?s" using assms(1) full
      by (auto simp: http_inv_def requests_ok_def bounds_ok_def stopping_ok_def Complete_def)
    moreover have "Send request s = ?s" using full by (simp add: Send_def Let_def)
    ultimately show ?thesis by (simp add: http_inv_def)
  next
    case taken
    thus ?thesis using assms by (auto simp: http_inv_parts Send_def Let_def transferring_def filter_empty_conv MaxWorkers_def atLeast0_lessThan_Suc)
  qed
qed

lemma RunCompletions_inv:
  assumes "http_inv s" "may_call_http s"
  shows "http_inv (RunCompletions s)"
proof -
  obtain ready q where r: "gq_RunAll (hq_Completions s) = (ready, q)" by (cases "gq_RunAll (hq_Completions s)")
  have q: "ready = gq_waiting (hq_Completions s)" "gq_waiting q = []" "queue_ok q"
    using gq.take_waiting[of "hq_Completions s"] assms(1) r by (auto simp: http_inv_def results_ok_def)
  have "Joining \<notin> set (hq_stack s)" using assms not_joining[OF assms(2)] by (cases "hq_stack s") (auto simp: http_inv_parts split: if_splits)
  thus ?thesis using assms q not_joining[OF assms(2)] by (auto simp: http_inv_parts RunCompletions_def r completing_def)
qed

lemma Stop_begin_inv:
  assumes "http_inv s" "may_call_http s"
  shows "http_inv (Stop_begin s)"
proof -
  have "Joining \<notin> set (hq_stack s)" using assms not_joining[OF assms(2)] by (cases "hq_stack s") (auto simp: http_inv_parts split: if_splits)
  thus ?thesis using assms by (auto simp: http_inv_parts Stop_begin_def completing_def)
qed

lemma all_gone: "\<forall>w \<in> set ws. w = Gone \<Longrightarrow> transferring ws = []"
  by (auto simp: transferring_def)

lemma http_continue_inv:
  assumes "http_inv s"
  shows "http_inv (http_continue s)"
proof (cases "http_game_ready s \<and> hq_stack s \<noteq> []")
  case True
  then obtain f below where st: "hq_stack s = f # below" and r: "http_game_ready s" by (cases "hq_stack s") auto
  have below: "Joining \<notin> set below" "Joining \<notin> set (tl below)" using assms st by (cases below; auto simp: http_inv_parts)+
  show ?thesis
  proof (cases f)
    case (Completing cs)
    thus ?thesis using assms st r below by (cases cs) (auto simp: http_inv_parts http_continue_def completing_def)
  next
    case Joining
    hence gone: "\<forall>w \<in> set (hq_Workers s). w = Gone" and stopped: "hq_Stopped s" using r st assms
      by (auto simp: http_game_ready_def http_inv_parts split: if_splits)
    have g: "transferring (hq_Workers s) = []" "transferring [] = []" "filter (\<lambda>w. w = Idling) (hq_Workers s) = []"
      using gone all_gone by (auto simp: transferring_def filter_empty_conv)
    show ?thesis using assms st r below g stopped gq.clear_waiting[of "hq_Completions s"] Joining
      by (auto simp: http_inv_parts http_continue_def completing_def ac_simps)
  qed
qed (use assms in \<open>auto simp: http_continue_def\<close>)

text \<open>A worker's turn: the list around it does not change.\<close>

lemma worker_split:
  assumes "i < length (hq_Workers s)"
  obtains xs ys where "hq_Workers s = xs @ (hq_Workers s ! i) # ys" "\<And>w. (hq_Workers s)[i := w] = xs @ w # ys"
proof -
  have "hq_Workers s = take i (hq_Workers s) @ (hq_Workers s ! i) # drop (Suc i) (hq_Workers s)" using assms by (rule id_take_nth_drop)
  moreover have "(hq_Workers s)[i := w] = take i (hq_Workers s) @ w # drop (Suc i) (hq_Workers s)" for w using assms by (rule upd_conv_take_nth_drop)
  ultimately show thesis using that by blast
qed

lemma Work_inv:
  assumes "http_inv s"
  shows "http_inv (Work i answer s)"
proof (cases "http_ready i s")
  case True
  hence "i < length (hq_Workers s)" by (simp add: http_ready_def)
  from worker_split[OF this] obtain xs ys where ws: "hq_Workers s = xs @ (hq_Workers s ! i) # ys" "\<And>w. (hq_Workers s)[i := w] = xs @ w # ys" by blast
  show ?thesis
  proof (cases "hq_Workers s ! i")
    case Starting
    have w: "hq_Workers s = xs @ Starting # ys" using ws(1) Starting by simp
    have e: "Work i answer s = s\<lparr>hq_IdleWorkers := hq_IdleWorkers s + 1, hq_Workers := xs @ Idling # ys\<rparr>"
      by (simp add: Work_def True Starting Take_begin_def ws(2))
    show ?thesis using assms unfolding e by (auto simp: http_inv_parts transferring_def w)
  next
    case Idling
    have w: "hq_Workers s = xs @ Idling # ys" using ws(1) Idling by simp
    show ?thesis
    proof (cases "hq_Stopped s")
      case stopped: True
      have e: "Work i answer s = s\<lparr>hq_IdleWorkers := hq_IdleWorkers s - 1, hq_Workers := xs @ Gone # ys\<rparr>"
        using stopped by (simp add: Work_def True Idling Take_end_def Let_def ws(2))
      show ?thesis using assms stopped unfolding e by (auto simp: http_inv_parts transferring_def w)
    next
      case False
      then obtain x rest where x: "hq_Waiting s = x # rest" using True Idling by (cases "hq_Waiting s") (auto simp: http_ready_def)
      have e: "Work i answer s = s\<lparr>hq_IdleWorkers := hq_IdleWorkers s - 1, hq_Waiting := rest, hq_Workers := xs @ Transferring (wr_Ticket x) # ys\<rparr>"
        using False x by (simp add: Work_def True Idling Take_end_def Let_def ws(2))
      show ?thesis using assms False unfolding e by (auto simp: http_inv_parts transferring_def w x)
    qed
  next
    case (Transferring t)
    have w: "hq_Workers s = xs @ Transferring t # ys" using ws(1) Transferring by simp
    have e: "Work i answer s = (Complete t (ToResult answer) s)\<lparr>hq_Workers := xs @ Starting # ys\<rparr>" by (simp add: Work_def True Transferring ws(2))
    have "results_ok (Complete t (ToResult answer) s)" using assms results_Complete by (simp add: http_inv_def)
    hence "results_ok ((Complete t (ToResult answer) s)\<lparr>hq_Workers := xs @ Starting # ys\<rparr>)" by (simp add: results_ok_def)
    thus ?thesis using assms unfolding e by (auto simp: http_inv_def requests_ok_def bounds_ok_def stopping_ok_def Complete_def transferring_def w)
  next
    case Gone
    thus ?thesis using True by (simp add: http_ready_def)
  qed
qed (use assms in \<open>simp add: Work_def\<close>)

lemma http_reachable_inv: "http_reachable s \<Longrightarrow> http_inv s"
proof (induction rule: http_reachable.induct)
  case (http_next s s')
  from http_next(2,3) show ?case
    by (cases rule: http_step.cases) (simp_all add: Send_inv RunCompletions_inv Stop_begin_inv http_continue_inv Work_inv)
qed (rule http_inv_new)

section \<open>The theorems\<close>


text \<open>The turns a worker needs to return once the client is stopped.\<close>

definition turns_left :: "http_worker list \<Rightarrow> nat" where
  "turns_left ws = sum_list (map (\<lambda>w. case w of Gone \<Rightarrow> 0 | Idling \<Rightarrow> 1 | Starting \<Rightarrow> 2 | Transferring _ \<Rightarrow> 3) ws)"

lemma turns_left_bound: "turns_left ws \<le> 3 * length ws"
  by (induction ws) (auto simp: turns_left_def split: http_worker.splits)

lemma stopped_turn:
  assumes "hq_Stopped s" "http_ready i s"
  shows "turns_left (hq_Workers (Work i answer s)) < turns_left (hq_Workers s) \<and> hq_Stopped (Work i answer s) \<and> hq_stack (Work i answer s) = hq_stack s"
proof -
  from worker_split[of i s] assms(2) obtain xs ys where ws: "hq_Workers s = xs @ (hq_Workers s ! i) # ys" "\<And>w. (hq_Workers s)[i := w] = xs @ w # ys"
    by (auto simp: http_ready_def)
  have t: "turns_left (hq_Workers s) = turns_left (xs @ (hq_Workers s ! i) # ys)" using ws(1) by simp
  show ?thesis using assms unfolding t
    by (cases "hq_Workers s ! i") (auto simp: Work_def Take_begin_def Take_end_def Complete_def Let_def ws(2) turns_left_def http_ready_def)
qed

text \<open>
  a stop returns and requests do not starve. While the stop waits for its workers some worker can go on, every turn brings the end nearer, and at most twelve
  turns are left. While the client runs and a request waits, there is a worker, and every worker can go on.
\<close>

theorem http_stop_returns:
  assumes "http_reachable s"
  shows "(hq_Stopped s \<and> Joining \<in> set (hq_stack s) \<longrightarrow>
      (http_game_ready s \<or> (\<exists>i. http_ready i s)) \<and> turns_left (hq_Workers s) \<le> 12 \<and>
      (\<forall>i answer. http_ready i s \<longrightarrow> turns_left (hq_Workers (Work i answer s)) < turns_left (hq_Workers s))) \<and>
    (\<not> hq_Stopped s \<and> hq_Waiting s \<noteq> [] \<longrightarrow> hq_Workers s \<noteq> [] \<and> (\<forall>i < length (hq_Workers s). http_ready i s))"
proof -
  have i: "http_inv s" using http_reachable_inv[OF assms] .
  have "http_game_ready s \<or> (\<exists>i. http_ready i s)" if stopped: "hq_Stopped s" and j: "Joining \<in> set (hq_stack s)"
  proof -
    obtain below where st: "hq_stack s = Joining # below" using i j by (cases "hq_stack s") (auto simp: http_inv_parts)
    show ?thesis
    proof (cases "\<exists>w \<in> set (hq_Workers s). w \<noteq> Gone")
      case True
      then obtain k where "k < length (hq_Workers s)" "hq_Workers s ! k \<noteq> Gone" by (auto simp: in_set_conv_nth)
      hence "http_ready k s" using stopped by (auto simp: http_ready_def split: http_worker.splits)
      thus ?thesis by blast
    qed (use st in \<open>auto simp: http_game_ready_def\<close>)
  qed
  moreover have "turns_left (hq_Workers s) \<le> 12" using turns_left_bound[of "hq_Workers s"] i by (simp add: http_inv_def bounds_ok_def MaxWorkers_def)
  moreover have "http_ready k s" if "\<not> hq_Stopped s" "hq_Waiting s \<noteq> []" "k < length (hq_Workers s)" for k
  proof -
    have "Gone \<notin> set (hq_Workers s)" using i that by (simp add: http_inv_def stopping_ok_def)
    hence "hq_Workers s ! k \<noteq> Gone" using nth_mem[OF that(3)] by metis
    thus ?thesis using that by (auto simp: http_ready_def split: http_worker.splits)
  qed
  ultimately show ?thesis using stopped_turn i by (auto simp: http_inv_def stopping_ok_def)
qed

text \<open>Two requests, one of which is under way when the client is stopped.\<close>

definition get_request :: HttpRequest where
  "get_request = \<lparr>rq_Method = Get, rq_Url = ''http://host/'', rq_Body = [], rq_Headers = [], rq_TimeoutMs = 8000\<rparr>"

definition one_stopped :: Requests where
  "one_stopped = Stop_begin (Send get_request (Work 0 (Inr (200, [])) (Work 0 (Inr (200, [])) (Send get_request new_client))))"

lemma one_stopped_reachable: "http_reachable one_stopped"
proof -
  have "may_call_http new_client" "may_call_http (Work 0 (Inr (200, [])) (Work 0 (Inr (200, [])) (Send get_request new_client)))"
    "may_call_http (Send get_request (Work 0 (Inr (200, [])) (Work 0 (Inr (200, [])) (Send get_request new_client))))" by code_simp+
  thus ?thesis unfolding one_stopped_def by (intro http_next[OF _ http_stop] http_next[OF _ http_send] http_next[OF _ http_work] http_new)
qed


theorem http_stop_returns_witness:
  "hq_Stopped one_stopped \<and> Joining \<in> set (hq_stack one_stopped) \<and> \<not> http_game_ready one_stopped \<and> (\<exists>i. http_ready i one_stopped)"
proof -
  have "hq_Stopped one_stopped" "Joining \<in> set (hq_stack one_stopped)" "\<not> http_game_ready one_stopped" by code_simp+
  thus ?thesis using http_stop_returns[OF one_stopped_reachable] by blast
qed

section \<open>Where the comments promise more\<close>

text \<open>
  Up to four requests are to run at once. An idle worker counts as idle until it wakes, so two requests sent before it does share it: the second starts no
  worker and waits for the first to end.
\<close>

lemma burst_shares_worker:
  assumes "\<not> hq_Stopped s" "hq_Waiting s = []" "hq_IdleWorkers s = 1"
  shows "length (hq_Waiting (Send q (Send p s))) = 2 \<and> hq_Workers (Send q (Send p s)) = hq_Workers s"
  using assms by (simp add: Send_def Let_def MaxWaiting_def)

text \<open>No completion is to run after a stop. One called from a completion lets the others of that frame run after it.\<close>

lemma completions_run_after_stop:
  assumes "hq_stack s = Completing (x # rest) # below" "\<forall>w \<in> set (hq_Workers s). w = Gone"
  shows "hq_ran (http_continue (http_continue (Stop_begin s))) = hq_ran s @ [x]"
  using assms by (simp add: http_continue_def http_game_ready_def Stop_begin_def)

end
