(* ===== verification/ConVars.thy ===== *)
theory ConVars
  imports Strings Result "HOL-Library.Word"
begin

unbundle bit_operations_syntax

text \<open>
  Console variables: typed handles over the engine's storage, assignment through the server console, configuration files, replicated values for one client, and
  overrides that are taken back. Sources: \<^verbatim>\<open>src/Engine/ConVars/{ConVar,ConVars,ConVarTypes,ConVarOverrides}.cpp\<close> and the headers
  \<^verbatim>\<open>include/VoltMod/Engine/ConVars/*.hpp\<close>. The engine is an argument: which variables exist, their types and storage, and what its console does with
  a line it was handed. Floats are bit patterns with a text; log lines are left out.
\<close>

section \<open>Types and text\<close>

datatype ConVarType = CT_Invalid | CT_Bool | CT_Int16 | CT_UInt16 | CT_Int32 | CT_UInt32 | CT_Int64 | CT_UInt64 | CT_Float32 | CT_Float64 | CT_String
  | CT_Color | CT_Vector2 | CT_Vector3 | CT_Vector4 | CT_QAngle | CT_VectorWS

text \<open>The types a handle may have, and its values. An int is what 32 bits hold.\<close>

datatype HandleType = HT_Bool | HT_Int | HT_Float | HT_String

datatype ConVarValue = CV_Bool bool | CV_Int "32 word" | CV_Float "32 word" | CV_String string

fun type_of :: "ConVarValue \<Rightarrow> HandleType" where
  "type_of (CV_Bool _) = HT_Bool" | "type_of (CV_Int _) = HT_Int" | "type_of (CV_Float _) = HT_Float" | "type_of (CV_String _) = HT_String"

definition ConVarTypeMatches :: "HandleType \<Rightarrow> ConVarType \<Rightarrow> bool" where
  "ConVarTypeMatches ht type = (case ht of
     HT_Bool \<Rightarrow> type = CT_Bool
   | HT_Int \<Rightarrow> type = CT_Int16 \<or> type = CT_UInt16 \<or> type = CT_Int32
   | HT_Float \<Rightarrow> type = CT_Float32
   | HT_String \<Rightarrow> type = CT_String)"

definition ConVarText :: "(32 word \<Rightarrow> string) \<Rightarrow> ConVarValue \<Rightarrow> string" where
  "ConVarText float_text v = (case v of CV_Bool b \<Rightarrow> if b then ''1'' else ''0'' | CV_Int i \<Rightarrow> to_string_int (sint i) | CV_Float f \<Rightarrow> float_text f | CV_String s \<Rightarrow> s)"

section \<open>Storage\<close>

text \<open>The engine's union: eight bytes read at the declared width, the lowest first, and the text of a string.\<close>

record CVValue =
  cv_bits :: "64 word"
  cv_string :: string

text \<open>The lowest n bits of a word replaced.\<close>

definition put_low :: "nat \<Rightarrow> 64 word \<Rightarrow> 64 word \<Rightarrow> 64 word" where
  "put_low n v w = (w AND NOT (mask n)) OR take_bit n v"

record ConVarHandle =
  ch_name :: string
  ch_handle :: HandleType
  ch_type :: ConVarType

text \<open>A handle's value; \<open>None\<close> for the storage of an unresolved one, which reads as the type's zero.\<close>

definition ConVar_Get :: "ConVarHandle \<Rightarrow> CVValue option \<Rightarrow> ConVarValue" where
  "ConVar_Get h storage = (case storage of
     None \<Rightarrow> (case ch_handle h of HT_Bool \<Rightarrow> CV_Bool False | HT_Int \<Rightarrow> CV_Int 0 | HT_Float \<Rightarrow> CV_Float 0 | HT_String \<Rightarrow> CV_String [])
   | Some s \<Rightarrow> (case ch_handle h of
       HT_Bool \<Rightarrow> CV_Bool (take_bit 8 (cv_bits s) \<noteq> 0)
     | HT_String \<Rightarrow> CV_String (cv_string s)
     | HT_Float \<Rightarrow> CV_Float (ucast (cv_bits s))
     | HT_Int \<Rightarrow> CV_Int (case ch_type h of
           CT_Int16 \<Rightarrow> scast (ucast (cv_bits s) :: 16 word)
         | CT_UInt16 \<Rightarrow> ucast (ucast (cv_bits s) :: 16 word)
         | _ \<Rightarrow> ucast (cv_bits s))))"

definition SetRaw :: "ConVarHandle \<Rightarrow> ConVarValue \<Rightarrow> CVValue \<Rightarrow> CVValue" where
  "SetRaw h v s = (case v of
     CV_Bool b \<Rightarrow> s\<lparr>cv_bits := put_low 8 (if b then 1 else 0) (cv_bits s)\<rparr>
   | CV_Float f \<Rightarrow> s\<lparr>cv_bits := put_low 32 (ucast f) (cv_bits s)\<rparr>
   | CV_Int i \<Rightarrow> (case ch_type h of
         CT_Int16 \<Rightarrow> s\<lparr>cv_bits := put_low 16 (ucast i) (cv_bits s)\<rparr>
       | CT_UInt16 \<Rightarrow> s\<lparr>cv_bits := put_low 16 (ucast i) (cv_bits s)\<rparr>
       | _ \<Rightarrow> s\<lparr>cv_bits := put_low 32 (ucast i) (cv_bits s)\<rparr>)
   | CV_String _ \<Rightarrow> s)"

text \<open>A raw scope: set now, and what it was put back when the scope ends.\<close>

definition RawScope_begin :: "ConVarHandle \<Rightarrow> ConVarValue \<Rightarrow> CVValue \<Rightarrow> ConVarValue \<times> CVValue" where
  "RawScope_begin h v s = (ConVar_Get h (Some s), SetRaw h v s)"

definition RawScope_end :: "ConVarHandle \<Rightarrow> ConVarValue \<Rightarrow> CVValue \<Rightarrow> CVValue" where
  "RawScope_end h previous s = SetRaw h previous s"

text \<open>The engine's answers for a name: its type and storage, for the shared slot and for slot 0.\<close>

record engine_convar =
  en_type :: ConVarType
  en_shared :: bool
  en_slot0 :: bool

definition ConVars_Find :: "(string \<Rightarrow> engine_convar option) \<Rightarrow> (ConVarType \<Rightarrow> int) \<Rightarrow> HandleType \<Rightarrow> string \<Rightarrow> ConVarHandle result" where
  "ConVars_Find engine number ht name = (case engine name of
     None \<Rightarrow> Inl (Error_NotFound (''no convar '' @ quoted name))
   | Some cv \<Rightarrow>
       if \<not> ConVarTypeMatches ht (en_type cv)
       then Inl (Error_Invalid (''convar '' @ quoted name @ '' is engine type '' @ to_string_int (number (en_type cv)) @ '', not the requested one''))
       else if \<not> en_shared cv \<and> \<not> en_slot0 cv then Inl (Error_Engine (''convar '' @ quoted name @ '' has no value storage''))
       else Inr \<lparr>ch_name = name, ch_handle = ht, ch_type = en_type cv\<rparr>)"

section \<open>The console\<close>

definition is_line_break :: "char \<Rightarrow> bool" where
  "is_line_break c \<longleftrightarrow> c = CHR 0x0D \<or> c = CHR 0x0A"

text \<open>The line handed to the engine, if any.\<close>

definition ExecuteServerCommand :: "bool \<Rightarrow> string \<Rightarrow> string option" where
  "ExecuteServerCommand engine_there command =
     (if \<not> engine_there \<or> list_ex is_line_break command then None
      else Some (if command = [] \<or> last command \<noteq> CHR 0x0A then command @ [CHR 0x0A] else command))"

definition SetByConsole :: "bool \<Rightarrow> string \<Rightarrow> string \<Rightarrow> string option" where
  "SetByConsole engine_there name v = ExecuteServerCommand engine_there (name @ '' '' @ QuoteConsoleArg v)"

text \<open>The lines of a text that \<open>ExecuteFile\<close> goes through: up to each line feed, without one at the end.\<close>

function file_lines :: "string \<Rightarrow> string list" where
  "file_lines [] = []"
| "file_lines (c # cs) = takeWhile (\<lambda>x. x \<noteq> CHR 0x0A) (c # cs) # file_lines (drop 1 (dropWhile (\<lambda>x. x \<noteq> CHR 0x0A) (c # cs)))"
  by pat_completeness auto

termination
proof (relation "measure length")
  fix c :: char and cs :: string
  have "length (dropWhile (\<lambda>x. x \<noteq> CHR 0x0A) (c # cs)) \<le> length (c # cs)" by (rule length_dropWhile_le)
  thus "(drop 1 (dropWhile (\<lambda>x. x \<noteq> CHR 0x0A) (c # cs)), c # cs) \<in> measure length" by simp
qed simp

definition uncommented :: "string \<Rightarrow> string" where
  "uncommented raw = Trim (case find_sub ''//'' raw of None \<Rightarrow> raw | Some i \<Rightarrow> take i raw)"

definition ExecuteFile :: "bool \<Rightarrow> string result \<Rightarrow> string list result" where
  "ExecuteFile engine_there text = (case text of
     Inl e \<Rightarrow> Inl e
   | Inr t \<Rightarrow> Inr (List.map_filter (ExecuteServerCommand engine_there) (filter (\<lambda>line. line \<noteq> []) (map uncommented (file_lines t)))))"

text \<open>A value for one client: the message that goes out, if the parts of the engine it needs are there.\<close>

definition SendToClient :: "bool \<Rightarrow> bool \<Rightarrow> (int \<Rightarrow> bool) \<Rightarrow> int \<Rightarrow> string \<Rightarrow> string \<Rightarrow> (int \<times> string \<times> string) option" where
  "SendToClient events_there message_there valid_slot slot name v =
     (if events_there \<and> valid_slot slot \<and> name \<noteq> [] \<and> message_there then Some (slot, name, v) else None)"

definition ConVar_Set :: "(32 word \<Rightarrow> string) \<Rightarrow> bool \<Rightarrow> ConVarHandle option \<Rightarrow> ConVarValue \<Rightarrow> string option result" where
  "ConVar_Set float_text engine_there handle v = (case handle of
     None \<Rightarrow> Inl (Error_NotReady ''convar handle is unresolved'')
   | Some h \<Rightarrow> Inr (SetByConsole engine_there (ch_name h) (ConVarText float_text v)))"

section \<open>Raw scopes\<close>

lemma put_low_twice [simp]: "put_low n x (put_low n y w) = put_low n x w"
  by (rule bit_eqI) (auto simp: put_low_def bit_simps)

lemma put_low_same:
  assumes "take_bit n x = take_bit n w"
  shows "put_low n x w = w"
proof (rule bit_eqI)
  fix k assume "possible_bit TYPE(64 word) k"
  have "bit (take_bit n x) k = bit (take_bit n w) k" using assms by simp
  thus "bit (put_low n x w) k = bit w k" using \<open>possible_bit TYPE(64 word) k\<close> by (auto simp: put_low_def bit_simps)
qed

lemma low_of_ucast [simp]:
  "take_bit 32 (ucast (ucast (w :: 64 word) :: 32 word)) = take_bit 32 w"
  "take_bit 16 (ucast (ucast (ucast (w :: 64 word) :: 16 word) :: 32 word)) = take_bit 16 w"
  "take_bit 16 (ucast (scast (ucast (w :: 64 word) :: 16 word) :: 32 word)) = take_bit 16 w"
  by (rule bit_eqI; auto simp: bit_simps)+

text \<open>
  a raw scope leaves no trace. Whatever value it set, when the scope ends the storage is bit for bit what it was, also the bytes beside a 16-bit variable.
\<close>

theorem RawScope_restores:
  assumes "ConVarTypeMatches (ch_handle h) (ch_type h)" "type_of v = ch_handle h" "ch_handle h \<noteq> HT_String"
    and "ch_handle h = HT_Bool \<longrightarrow> take_bit 8 (cv_bits s) \<in> {0, 1}"
  shows "case RawScope_begin h v s of (previous, s') \<Rightarrow> RawScope_end h previous s' = s"
proof (cases "ch_handle h")
  case HT_Bool
  then obtain b where "v = CV_Bool b" using assms(2) by (cases v) auto
  moreover have "put_low 8 (if take_bit 8 (cv_bits s) \<noteq> 0 then 1 else 0) (cv_bits s) = cv_bits s"
    using assms(4) HT_Bool by (intro put_low_same) auto
  ultimately show ?thesis using HT_Bool by (simp add: RawScope_begin_def RawScope_end_def SetRaw_def ConVar_Get_def)
next
  case HT_Int
  then obtain i where "v = CV_Int i" using assms(2) by (cases v) auto
  thus ?thesis using HT_Int assms(1)
    by (auto simp: RawScope_begin_def RawScope_end_def SetRaw_def ConVar_Get_def ConVarTypeMatches_def put_low_same)
next
  case HT_Float
  then obtain f where "v = CV_Float f" using assms(2) by (cases v) auto
  thus ?thesis using HT_Float by (simp add: RawScope_begin_def RawScope_end_def SetRaw_def ConVar_Get_def put_low_same)
qed (use assms(3) in simp)

text \<open>A value wider than the variable is cut to its width: the handle reads back the low 16 bits.\<close>

lemma SetRaw_narrows:
  assumes "ch_handle h = HT_Int" "ch_type h = CT_Int16"
  shows "ConVar_Get h (Some (SetRaw h (CV_Int i) s)) = CV_Int (scast (ucast i :: 16 word))"
proof -
  have "(ucast (put_low 16 (ucast i) (cv_bits s)) :: 16 word) = ucast i"
    by (rule bit_eqI) (auto simp: put_low_def bit_simps)
  thus ?thesis using assms by (simp add: SetRaw_def ConVar_Get_def)
qed

section \<open>One assignment, one command\<close>

text \<open>
  How a console reads a line: a line break or a semicolon outside quotes ends a command, blanks outside quotes separate words, a backslash inside quotes takes
  the next character as it is.
\<close>

fun console_read :: "bool \<Rightarrow> string option \<Rightarrow> string list \<Rightarrow> string \<Rightarrow> string list list" where
  "console_read q w ws [] = (let ws' = ws @ (case w of None \<Rightarrow> [] | Some x \<Rightarrow> [x]) in if ws' = [] then [] else [ws'])"
| "console_read True w ws (c # cs) =
     (if c = CHR 0x5C \<and> cs \<noteq> [] then console_read True (Some (the w @ [hd cs])) ws (tl cs)
      else if c = CHR 0x22 then console_read False w ws cs
      else console_read True (Some (the w @ [c])) ws cs)"
| "console_read False w ws (c # cs) =
     (if c = CHR 0x22 then console_read True (Some (case w of None \<Rightarrow> [] | Some x \<Rightarrow> x)) ws cs
      else if c = CHR '';'' \<or> is_line_break c
      then (let ws' = ws @ (case w of None \<Rightarrow> [] | Some x \<Rightarrow> [x]) in (if ws' = [] then [] else [ws']) @ console_read False None [] cs)
      else if c = CHR '' '' then console_read False None (ws @ (case w of None \<Rightarrow> [] | Some x \<Rightarrow> [x])) cs
      else console_read False (Some ((case w of None \<Rightarrow> [] | Some x \<Rightarrow> x) @ [c])) ws cs)"

definition plain_name :: "string \<Rightarrow> bool" where
  "plain_name name \<longleftrightarrow> name \<noteq> [] \<and> list_all (\<lambda>c. c \<noteq> CHR 0x22 \<and> c \<noteq> CHR '';'' \<and> c \<noteq> CHR '' '' \<and> \<not> is_line_break c) name"

lemma read_name:
  "list_all (\<lambda>c. c \<noteq> CHR 0x22 \<and> c \<noteq> CHR '';'' \<and> c \<noteq> CHR '' '' \<and> \<not> is_line_break c) name \<Longrightarrow>
   console_read False (Some w) ws (name @ rest) = console_read False (Some (w @ name)) ws rest"
  by (induction name arbitrary: w) auto

lemma read_quoted: "console_read True (Some w) ws (concat (map quote_char v) @ rest) = console_read True (Some (w @ v)) ws rest"
proof (induction v arbitrary: w)
  case (Cons c v)
  show ?case using Cons.IH[of "w @ [c]"] by (cases "c = CHR 0x22 \<or> c = CHR 0x5C") (auto simp: quote_char_def)
qed simp

lemma SetByConsole_form:
  assumes "plain_name name"
  shows "SetByConsole True name v = (if list_ex is_line_break v then None else Some (name @ '' '' @ QuoteConsoleArg v @ [CHR 0x0A]))"
proof -
  have "list_ex is_line_break (concat (map quote_char v)) = list_ex is_line_break v"
    by (induction v) (auto simp: quote_char_def is_line_break_def)
  hence q: "list_ex is_line_break (QuoteConsoleArg v) = list_ex is_line_break v" by (simp add: QuoteConsoleArg_def is_line_break_def)
  have n: "\<not> list_ex is_line_break name" using assms by (auto simp: plain_name_def list_ex_iff list_all_iff)
  show ?thesis using q n by (simp add: SetByConsole_def ExecuteServerCommand_def QuoteConsoleArg_def is_line_break_def)
qed

lemma SetByConsole_line:
  assumes "plain_name name" "SetByConsole True name v = Some line"
  shows "console_read False None [] line = [[name, v]]"
proof -
  obtain c cs where name: "name = c # cs" using assms(1) by (cases name) (auto simp: plain_name_def)
  have "console_read False None [] (name @ rest) = console_read False (Some name) [] rest" for rest
    using read_name[of cs "[c]" "[]" rest] assms(1) by (simp add: plain_name_def name)
  moreover have "console_read False (Some name) [] ('' '' @ QuoteConsoleArg v @ [CHR 0x0A]) = [[name, v]]"
    using read_quoted[of "[]" "[name]" v "[CHR 0x22, CHR 0x0A]"] by (simp add: QuoteConsoleArg_def is_line_break_def)
  ultimately show ?thesis using SetByConsole_form[OF assms(1), of v] assms(2) by (auto split: if_splits)
qed



text \<open>
  A configuration file is cut at the first two slashes of a line, inside quotes too: a quoted address loses its end and the line an odd quote.
\<close>

lemma ExecuteFile_cuts_quoted:
  "ExecuteFile True (Inr (''u '' @ [CHR 0x22] @ ''http://h'' @ [CHR 0x22])) = Inr [''u '' @ [CHR 0x22] @ ''http:'' @ [CHR 0x0A]]"
  by code_simp

section \<open>Changes\<close>

text \<open>Whether the service routes changes, whether the process-wide pointer names it, and how often its callback is installed in the engine.\<close>

record change_routing =
  cr_routingChanges :: bool
  cr_callback :: bool
  cr_installed :: nat

definition RouteChanges :: "bool \<Rightarrow> change_routing \<Rightarrow> bool \<times> change_routing" where
  "RouteChanges cvar_there s =
     (if cr_routingChanges s then (True, s)
      else if \<not> cvar_there then (False, s)
      else (True, s\<lparr>cr_installed := cr_installed s + 1, cr_callback := True, cr_routingChanges := True\<rparr>))"

definition StopRoutingChanges :: "bool \<Rightarrow> change_routing \<Rightarrow> change_routing" where
  "StopRoutingChanges cvar_there s =
     (if \<not> cr_routingChanges s then s
      else s\<lparr>cr_installed := (if cvar_there then cr_installed s - 1 else cr_installed s), cr_callback := False, cr_routingChanges := False\<rparr>)"

text \<open>The change a listener sees; a text the engine leaves out is empty.\<close>

definition GlobalConVarChangeCallback :: "change_routing \<Rightarrow> string option \<Rightarrow> string option \<Rightarrow> string option \<Rightarrow> (string \<times> string \<times> string) option" where
  "GlobalConVarChangeCallback s name old new =
     (let text = (\<lambda>t. case t of None \<Rightarrow> [] | Some x \<Rightarrow> x)
      in if name = None \<or> \<not> cr_callback s then None else Some (text name, text old, text new))"

text \<open>While the engine's variables are there, the callback is installed at most once, and exactly while changes are routed to a service that lives.\<close>

lemma routing_installed:
  assumes "\<forall>c \<in> set calls. c = snd \<circ> RouteChanges True \<or> c = StopRoutingChanges True"
  shows "let s = fold (\<lambda>c. c) calls \<lparr>cr_routingChanges = False, cr_callback = False, cr_installed = 0\<rparr>
    in cr_installed s = (if cr_routingChanges s then 1 else 0) \<and> cr_callback s = cr_routingChanges s"
proof -
  have "cr_installed s = (if cr_routingChanges s then 1 else 0) \<and> cr_callback s = cr_routingChanges s \<Longrightarrow>
      let s' = fold (\<lambda>c. c) calls s in cr_installed s' = (if cr_routingChanges s' then 1 else 0) \<and> cr_callback s' = cr_routingChanges s'" for s
    using assms
  proof (induction calls arbitrary: s)
    case (Cons c calls)
    have "cr_installed (c s) = (if cr_routingChanges (c s) then 1 else 0) \<and> cr_callback (c s) = cr_routingChanges (c s)"
      using Cons.prems by (auto simp: RouteChanges_def StopRoutingChanges_def)
    thus ?case using Cons.IH[of "c s"] Cons.prems(2) by simp
  qed simp
  thus ?thesis by simp
qed

section \<open>Overrides\<close>

text \<open>The snapshots, the lines the engine has yet to run, and the text of every variable's value.\<close>

record overrides =
  ov_saved :: "(string \<times> string) list"
  ov_queue :: "string list"
  ov_store :: "string \<Rightarrow> string"

definition queue_line :: "string option \<Rightarrow> overrides \<Rightarrow> overrides" where
  "queue_line line s = (case line of None \<Rightarrow> s | Some l \<Rightarrow> s\<lparr>ov_queue := ov_queue s @ [l]\<rparr>)"

text \<open>Setting a resolved variable to a value with this text.\<close>

definition ov_Set :: "string \<Rightarrow> string \<Rightarrow> overrides \<Rightarrow> overrides" where
  "ov_Set name v s =
     (let s = (if name \<notin> fst ` set (ov_saved s) then s\<lparr>ov_saved := ov_saved s @ [(name, ov_store s name)]\<rparr> else s)
      in queue_line (SetByConsole True name v) s)"

definition ov_Write :: "string \<Rightarrow> string \<Rightarrow> overrides \<Rightarrow> overrides" where
  "ov_Write name v s = queue_line (SetByConsole True name v) s"

definition ov_Restore :: "string \<Rightarrow> overrides \<Rightarrow> overrides" where
  "ov_Restore name s = (case map_of (ov_saved s) name of
     None \<Rightarrow> s
   | Some v \<Rightarrow> (ov_Write name v s)\<lparr>ov_saved := filter (\<lambda>(n, w). n \<noteq> name) (ov_saved s)\<rparr>)"

definition ov_RestoreAll :: "overrides \<Rightarrow> overrides" where
  "ov_RestoreAll s = (fold (\<lambda>(n, v). ov_Write n v) (ov_saved s) s)\<lparr>ov_saved := []\<rparr>"

text \<open>The engine runs what was queued. What a line does is the engine's; an assignment is to assign.\<close>

definition engine_frame :: "(string \<Rightarrow> (string \<Rightarrow> string) \<Rightarrow> string \<Rightarrow> string) \<Rightarrow> overrides \<Rightarrow> overrides" where
  "engine_frame run s = s\<lparr>ov_store := fold run (ov_queue s) (ov_store s), ov_queue := []\<rparr>"

definition console_assigns :: "(string \<Rightarrow> (string \<Rightarrow> string) \<Rightarrow> string \<Rightarrow> string) \<Rightarrow> bool" where
  "console_assigns run \<longleftrightarrow> (\<forall>name v line st. plain_name name \<and> SetByConsole True name v = Some line \<longrightarrow> run line st = st(name := v))"

datatype override_call = DoSet string string | DoRestore string

fun do_call :: "override_call \<Rightarrow> overrides \<Rightarrow> overrides" where
  "do_call (DoSet name v) s = ov_Set name v s"
| "do_call (DoRestore name) s = ov_Restore name s"

text \<open>Calls with an engine frame after each, and at last everything restored.\<close>

definition override_run :: "(string \<Rightarrow> (string \<Rightarrow> string) \<Rightarrow> string \<Rightarrow> string) \<Rightarrow> override_call list \<Rightarrow> overrides \<Rightarrow> overrides" where
  "override_run run calls s = engine_frame run (ov_RestoreAll (fold (\<lambda>c s. engine_frame run (do_call c s)) calls s))"

fun call_name :: "override_call \<Rightarrow> string" where
  "call_name (DoSet name v) = name" | "call_name (DoRestore name) = name"

definition clean :: "(string \<Rightarrow> string) \<Rightarrow> bool" where
  "clean st \<longleftrightarrow> (\<forall>n. \<not> list_ex is_line_break (st n))"

lemma SetByConsole_clean: "plain_name name \<Longrightarrow> SetByConsole True name v = None \<longleftrightarrow> list_ex is_line_break v"
  by (simp add: SetByConsole_form)

definition saved_ok :: "(string \<Rightarrow> string) \<Rightarrow> overrides \<Rightarrow> bool" where
  "saved_ok st0 s \<longleftrightarrow> ov_queue s = [] \<and> (\<forall>(n, v) \<in> set (ov_saved s). v = st0 n \<and> plain_name n) \<and> (\<forall>n. n \<notin> fst ` set (ov_saved s) \<longrightarrow> ov_store s n = st0 n)"

lemma assign_frame:
  assumes "console_assigns run" "plain_name name" "ov_queue s = []"
  shows "engine_frame run (queue_line (SetByConsole True name v) s) = (if list_ex is_line_break v then s else s\<lparr>ov_store := (ov_store s)(name := v)\<rparr>)"
proof (cases "SetByConsole True name v")
  case None
  hence "list_ex is_line_break v" using SetByConsole_clean[OF assms(2)] by simp
  moreover have "s\<lparr>ov_queue := []\<rparr> = s" by (simp add: assms(3)[symmetric])
  ultimately show ?thesis using None assms(3) by (simp add: queue_line_def engine_frame_def)
next
  case (Some line)
  hence "\<not> list_ex is_line_break v" using SetByConsole_clean[OF assms(2), of v] by simp
  moreover have "run line (ov_store s) = (ov_store s)(name := v)" using assms(1,2) Some by (auto simp: console_assigns_def)
  moreover have "s\<lparr>ov_store := st, ov_queue := []\<rparr> = s\<lparr>ov_store := st\<rparr>" for st using assms(3) by (cases s) simp
  ultimately show ?thesis using Some assms(3) by (simp add: queue_line_def engine_frame_def)
qed

lemma store_saved_ok: "saved_ok st0 s \<Longrightarrow> name \<in> fst ` set (ov_saved s) \<Longrightarrow> saved_ok st0 (s\<lparr>ov_store := (ov_store s)(name := v)\<rparr>)"
  by (auto simp: saved_ok_def)

lemma call_saved_ok:
  assumes "console_assigns run" "clean st0" "plain_name (call_name c)" "saved_ok st0 s"
  shows "saved_ok st0 (engine_frame run (do_call c s))"
proof (cases c)
  case (DoSet name v)
  define s1 where "s1 = (if name \<notin> fst ` set (ov_saved s) then s\<lparr>ov_saved := ov_saved s @ [(name, ov_store s name)]\<rparr> else s)"
  have ok: "saved_ok st0 s1" "name \<in> fst ` set (ov_saved s1)" using assms(3,4) DoSet by (auto simp: saved_ok_def s1_def)
  have "engine_frame run (do_call c s) = (if list_ex is_line_break v then s1 else s1\<lparr>ov_store := (ov_store s1)(name := v)\<rparr>)"
    using assign_frame[OF assms(1), of name s1 v] assms(3) ok(1) DoSet by (simp add: ov_Set_def saved_ok_def s1_def[symmetric])
  thus ?thesis using ok store_saved_ok[OF ok] by simp
next
  case (DoRestore name)
  show ?thesis
  proof (cases "map_of (ov_saved s) name")
    case None
    hence "engine_frame run (do_call c s) = s" using DoRestore assms(4) by (cases s) (simp add: ov_Restore_def engine_frame_def saved_ok_def)
    thus ?thesis using assms(4) by simp
  next
    case (Some v)
    have v: "v = st0 name" "\<not> list_ex is_line_break v" using map_of_SomeD[OF Some] assms(2,4) by (auto simp: saved_ok_def clean_def)
    have "engine_frame run (do_call c s) = (engine_frame run (queue_line (SetByConsole True name v) s))\<lparr>ov_saved := filter (\<lambda>(n, w). n \<noteq> name) (ov_saved s)\<rparr>"
      using DoRestore Some by (simp add: ov_Restore_def ov_Write_def engine_frame_def queue_line_def split: option.splits)
    also have "\<dots> = s\<lparr>ov_store := (ov_store s)(name := v), ov_saved := filter (\<lambda>(n, w). n \<noteq> name) (ov_saved s)\<rparr>"
      using assign_frame[OF assms(1), of name s v] assms(3,4) DoRestore v(2) by (simp add: saved_ok_def)
    finally show ?thesis using assms(4) v(1) by (simp only: saved_ok_def) (force simp: image_iff)
  qed
qed

lemma calls_saved_ok:
  "console_assigns run \<Longrightarrow> clean st0 \<Longrightarrow> list_all (\<lambda>c. plain_name (call_name c)) calls \<Longrightarrow> saved_ok st0 s \<Longrightarrow>
   saved_ok st0 (fold (\<lambda>c s. engine_frame run (do_call c s)) calls s)"
  by (induction calls arbitrary: s) (auto simp: call_saved_ok)

lemma writes_queue:
  "fold (\<lambda>(n, v). ov_Write n v) xs s = s\<lparr>ov_queue := ov_queue s @ List.map_filter (\<lambda>(n, v). SetByConsole True n v) xs\<rparr>"
  by (induction xs arbitrary: s) (auto simp: ov_Write_def queue_line_def map_filter_simps split: option.splits)

lemma run_writes:
  assumes "console_assigns run" "clean st0"
  shows "\<forall>(n, v) \<in> set xs. v = st0 n \<and> plain_name n \<Longrightarrow>
    fold run (List.map_filter (\<lambda>(n, v). SetByConsole True n v) xs) st m = (if m \<in> fst ` set xs then st0 m else st m)"
proof (induction xs arbitrary: st)
  case (Cons x xs)
  obtain n v where x: "x = (n, v)" by fastforce
  have p: "plain_name n" "v = st0 n" using Cons.prems x by auto
  obtain line where l: "SetByConsole True n v = Some line" using SetByConsole_clean[OF p(1), of v] assms(2) p(2) by (auto simp: clean_def)
  have "run line st = st(n := v)" using assms(1) p(1) l by (auto simp: console_assigns_def)
  thus ?case using Cons x l p(2) by (auto simp: map_filter_simps)
qed (simp add: map_filter_simps)

text \<open>
  C33: overrides are taken back. After any sequence of sets and restores of any variables, with the engine running its queue in between, restoring everything
  gives every variable the value it had before the first.
\<close>

theorem overrides_taken_back:
  assumes "console_assigns run" "clean st0" "list_all (\<lambda>c. plain_name (call_name c)) calls"
  shows "ov_store (override_run run calls \<lparr>ov_saved = [], ov_queue = [], ov_store = st0\<rparr>) = st0"
proof -
  define s where "s = fold (\<lambda>c s. engine_frame run (do_call c s)) calls \<lparr>ov_saved = [], ov_queue = [], ov_store = st0\<rparr>"
  have ok: "saved_ok st0 s" unfolding s_def using assms by (intro calls_saved_ok) (auto simp: saved_ok_def)
  hence "fold run (List.map_filter (\<lambda>(n, v). SetByConsole True n v) (ov_saved s)) (ov_store s) m = st0 m" for m
    using run_writes[OF assms(1,2), of "ov_saved s" "ov_store s" m] by (auto simp: saved_ok_def)
  moreover have "ov_queue s = []" using ok by (simp add: saved_ok_def)
  moreover have "override_run run calls \<lparr>ov_saved = [], ov_queue = [], ov_store = st0\<rparr> = engine_frame run (ov_RestoreAll s)"
    by (simp only: override_run_def s_def)
  ultimately show ?thesis by (auto simp: ov_RestoreAll_def engine_frame_def writes_queue)
qed

text \<open>A console that reads lines by the rule above.\<close>

definition reading_console :: "string \<Rightarrow> (string \<Rightarrow> string) \<Rightarrow> string \<Rightarrow> string" where
  "reading_console line st = (case console_read False None [] line of [[n, v]] \<Rightarrow> st(n := v) | _ \<Rightarrow> st)"

theorem overrides_taken_back_witness:
  "ov_store (override_run reading_console [DoSet ''sv_gravity'' ''200'', DoSet ''sv_cheats'' ''1'', DoRestore ''sv_gravity'']
     \<lparr>ov_saved = [], ov_queue = [], ov_store = (\<lambda>n. ''800'')\<rparr>) = (\<lambda>n. ''800'')"
proof (rule overrides_taken_back)
  show "console_assigns reading_console" unfolding console_assigns_def reading_console_def using SetByConsole_line by auto
  show "clean (\<lambda>n. ''800'')" by (simp add: clean_def is_line_break_def)
  show "list_all (\<lambda>c. plain_name (call_name c)) [DoSet ''sv_gravity'' ''200'', DoSet ''sv_cheats'' ''1'', DoRestore ''sv_gravity'']" by code_simp
qed

text \<open>
  Without a frame in between they are not: a variable restored and set again before the engine ran the restore is saved with the override's value, and that is
  what it gets back.
\<close>

lemma restore_then_set_loses:
  "ov_store (engine_frame reading_console (ov_RestoreAll (engine_frame reading_console (ov_Set ''sv_gravity'' ''300'' (ov_Restore ''sv_gravity''
     (engine_frame reading_console (ov_Set ''sv_gravity'' ''200'' \<lparr>ov_saved = [], ov_queue = [], ov_store = (\<lambda>n. ''800'')\<rparr>))))))) ''sv_gravity'' = ''200''"
  by code_simp

end
