(* ===== verification/GameEvents.thy ===== *)
theory GameEvents
  imports CallbackRegistry Result Slots
begin

text \<open>
  Game events: handlers per event name, and the listener the engine calls for each. Source: \<^verbatim>\<open>src/Events/GameEvents.cpp\<close> and
  \<^verbatim>\<open>include/VoltMod/Events/GameEvents.hpp\<close>. The engine keeps a list of the names this listener was added for and calls it once per entry; whether it
  takes a name is an argument. Handlers live in the callback registry. No operation
  depends on the order among the names.
\<close>

section \<open>State\<close>

record 'h EventHandlers =
  eh_Handlers :: "'h CallbackRegistry"
  eh_Attached :: bool

definition new_handlers :: "'h EventHandlers" where
  "new_handlers = \<lparr>eh_Handlers = reg_init, eh_Attached = False\<rparr>"

text \<open>The service: whether the event manager resolved, the events by name, and the names the engine has this listener for.\<close>

record 'h GameEvents =
  ge_manager :: bool
  ge_events :: "(string \<times> 'h EventHandlers) list"
  ge_engine :: "string list"

definition new_events :: "bool \<Rightarrow> 'h GameEvents" where
  "new_events manager = \<lparr>ge_manager = manager, ge_events = [], ge_engine = []\<rparr>"

definition ge_Available :: "bool \<Rightarrow> 'h GameEvents \<Rightarrow> unit result" where
  "ge_Available bound s =
     (if \<not> bound then Inl (Error_Unsupported ''the GameEventManager address did not bind'')
      else if \<not> ge_manager s then Inl (Error_Engine ''the game event manager pointer is null'')
      else Inr ())"

section \<open>Operations\<close>

text \<open>The entry of a name; entries are never erased.\<close>

definition entry_of :: "string \<Rightarrow> 'h GameEvents \<Rightarrow> 'h EventHandlers" where
  "entry_of name s = (case map_of (ge_events s) name of None \<Rightarrow> new_handlers | Some e \<Rightarrow> e)"

fun put_entry :: "string \<Rightarrow> 'h EventHandlers \<Rightarrow> (string \<times> 'h EventHandlers) list \<Rightarrow> (string \<times> 'h EventHandlers) list" where
  "put_entry name e [] = [(name, e)]"
| "put_entry name e ((n, x) # es) = (if n = name then (n, e) # es else (n, x) # put_entry name e es)"

definition ge_Add :: "(string \<Rightarrow> bool) \<Rightarrow> string \<Rightarrow> 'h \<Rightarrow> 'h GameEvents \<Rightarrow> nat option \<times> 'h GameEvents" where
  "ge_Add takes name callback s =
     (if \<not> ge_manager s then (None, s)
      else let entry = entry_of name s;
               attach = \<not> eh_Attached entry \<and> takes name;
               (handle, handlers) = reg_Add callback (eh_Handlers entry)
           in (Some handle, s\<lparr>ge_events := put_entry name \<lparr>eh_Handlers = handlers, eh_Attached = eh_Attached entry \<or> attach\<rparr> (ge_events s),
                              ge_engine := (if attach then ge_engine s @ [name] else ge_engine s)\<rparr>))"

text \<open>A subscription that ends removes its handler.\<close>

definition ge_Drop :: "string \<Rightarrow> nat \<Rightarrow> 'h GameEvents \<Rightarrow> 'h GameEvents" where
  "ge_Drop name handle s = (case map_of (ge_events s) name of
     None \<Rightarrow> s
   | Some e \<Rightarrow> s\<lparr>ge_events := put_entry name (e\<lparr>eh_Handlers := snd (reg_Remove handle (eh_Handlers e))\<rparr>) (ge_events s)\<rparr>)"

definition ge_OnServerStartup :: "(string \<Rightarrow> bool) \<Rightarrow> 'h GameEvents \<Rightarrow> 'h GameEvents" where
  "ge_OnServerStartup takes s =
     (if \<not> ge_manager s \<or> ge_events s = [] then s
      else let wanted = (\<lambda>(n, e). \<not> reg_Empty (eh_Handlers e) \<and> takes n)
           in s\<lparr>ge_events := map (\<lambda>(n, e). (n, e\<lparr>eh_Attached := wanted (n, e)\<rparr>)) (ge_events s), ge_engine := map fst (filter wanted (ge_events s))\<rparr>)"

definition ge_RemoveAllListeners :: "'h GameEvents \<Rightarrow> 'h GameEvents" where
  "ge_RemoveAllListeners s =
     s\<lparr>ge_engine := (if ge_manager s \<and> ge_events s \<noteq> [] then [] else ge_engine s),
       ge_events := map (\<lambda>(n, e). (n, e\<lparr>eh_Handlers := reg_Clear (eh_Handlers e), eh_Attached := False\<rparr>)) (ge_events s)\<rparr>"

definition ge_FireGameEvent :: "(nat \<Rightarrow> 'h CallbackRegistry \<Rightarrow> 'h CallbackRegistry) \<Rightarrow> string \<Rightarrow> 'h GameEvents \<Rightarrow> nat list \<times> 'h GameEvents" where
  "ge_FireGameEvent fn name s = (case map_of (ge_events s) name of
     None \<Rightarrow> ([], s)
   | Some e \<Rightarrow> (let (ran, handlers) = Dispatch fn (eh_Handlers e) in (ran, s\<lparr>ge_events := put_entry name (e\<lparr>eh_Handlers := handlers\<rparr>) (ge_events s)\<rparr>)))"

text \<open>
  What a typed subscription does with a raw event: decode it, drop it when it names an invalid slot, else hand it on. \<open>slot_of\<close> is \<open>None\<close> for an event type
  without a slot.
\<close>

definition on_event :: "('raw \<Rightarrow> 'e) \<Rightarrow> ('e \<Rightarrow> int) option \<Rightarrow> 'raw option \<Rightarrow> 'e option" where
  "on_event From slot_of e = (case e of None \<Rightarrow> None | Some raw \<Rightarrow>
     (let event = From raw in case slot_of of Some slot \<Rightarrow> if \<not> IsValidSlot (slot event) then None else Some event | None \<Rightarrow> Some event))"

text \<open>The engine's calls behind the manager: a client's listener, what it listens to, and creating and firing events.\<close>

definition GetClientLegacyListener :: "(int \<Rightarrow> 'l option) option \<Rightarrow> int \<Rightarrow> 'l option" where
  "GetClientLegacyListener getLegacyListener slot = (case getLegacyListener of
     None \<Rightarrow> None | Some f \<Rightarrow> if \<not> IsValidSlot slot then None else f slot)"

definition ClientListensTo :: "('l \<Rightarrow> string \<Rightarrow> bool) \<Rightarrow> (int \<Rightarrow> 'l option) option \<Rightarrow> int \<Rightarrow> string \<Rightarrow> 'h GameEvents \<Rightarrow> bool" where
  "ClientListensTo FindListener getLegacyListener slot eventName s = (case GetClientLegacyListener getLegacyListener slot of
     None \<Rightarrow> False
   | Some listener \<Rightarrow> ge_manager s \<and> eventName \<noteq> [] \<and> FindListener listener eventName)"

definition ge_CreateEvent :: "(string \<Rightarrow> 'raw option) \<Rightarrow> string \<Rightarrow> 'h GameEvents \<Rightarrow> 'raw option" where
  "ge_CreateEvent create name s = (if \<not> ge_manager s \<or> name = [] then None else create name)"

definition ge_FireEvent :: "('raw \<Rightarrow> bool \<Rightarrow> bool) \<Rightarrow> 'raw option \<Rightarrow> bool \<Rightarrow> 'h GameEvents \<Rightarrow> bool" where
  "ge_FireEvent fire event broadcast s = (case event of None \<Rightarrow> False | Some e \<Rightarrow> ge_manager s \<and> fire e (\<not> broadcast))"

text \<open>A new map: the engine forgets some of its listeners.\<close>

definition engine_forgets :: "(string \<Rightarrow> bool) \<Rightarrow> 'h GameEvents \<Rightarrow> 'h GameEvents" where
  "engine_forgets gone s = s\<lparr>ge_engine := filter (\<lambda>n. \<not> gone n) (ge_engine s)\<rparr>"

inductive events_run :: "'h GameEvents \<Rightarrow> bool" where
  er_new: "events_run (new_events manager)"
| er_add: "events_run s \<Longrightarrow> events_run (snd (ge_Add takes name callback s))"
| er_drop: "events_run s \<Longrightarrow> events_run (ge_Drop name handle s)"
| er_startup: "events_run s \<Longrightarrow> events_run (ge_OnServerStartup takes s)"
| er_remove: "events_run s \<Longrightarrow> events_run (ge_RemoveAllListeners s)"
| er_fire: "events_run s \<Longrightarrow> (\<And>i r. api r (fn i r)) \<Longrightarrow> events_run (snd (ge_FireGameEvent fn name s))"
| er_map: "events_run s \<Longrightarrow> events_run (engine_forgets gone s)"

section \<open>The engine calls each listener at most once\<close>

definition events_ok :: "'h GameEvents \<Rightarrow> bool" where
  "events_ok s \<longleftrightarrow> distinct (map fst (ge_events s)) \<and> distinct (ge_engine s) \<and> (\<not> ge_manager s \<longrightarrow> ge_engine s = []) \<and>
     (\<forall>n \<in> set (ge_engine s). eh_Attached (entry_of n s)) \<and> (\<forall>n. reg_ok (eh_Handlers (entry_of n s)))"

lemma map_of_put_entry [simp]: "map_of (put_entry name e es) n = (if n = name then Some e else map_of es n)"
  by (induction name e es rule: put_entry.induct) auto

lemma fst_put_entry: "set (map fst (put_entry name e es)) = insert name (set (map fst es))"
  by (induction name e es rule: put_entry.induct) auto

lemma distinct_put_entry: "distinct (map fst es) \<Longrightarrow> distinct (map fst (put_entry name e es))"
proof (induction name e es rule: put_entry.induct)
  case (2 name e n x es)
  thus ?case using fst_put_entry[of name e es] by auto
qed simp

lemma entry_of_put [simp]: "entry_of n (s\<lparr>ge_events := put_entry name e (ge_events s)\<rparr>) = (if n = name then e else entry_of n s)"
  by (simp add: entry_of_def)

lemma entry_of_engine [simp]: "entry_of n (s\<lparr>ge_engine := ns\<rparr>) = entry_of n s"
  by (simp add: entry_of_def)

lemma put_events_ok:
  assumes "events_ok s" "reg_ok (eh_Handlers e)" "eh_Attached (entry_of name s) \<longrightarrow> eh_Attached e"
  shows "events_ok (s\<lparr>ge_events := put_entry name e (ge_events s)\<rparr>)"
  using assms distinct_put_entry[of "ge_events s" name e] by (simp add: events_ok_def)

lemma reg_ok_Dispatch: "reg_ok r \<Longrightarrow> (\<And>i s. api s (fn i s)) \<Longrightarrow> reg_ok (snd (Dispatch fn r))"
  using DispatchIf_facts(1)[of r fn "\<lambda>_. True"] by (simp add: Dispatch_def)

lemma map_of_mapped: "map_of (map (\<lambda>(n, e). (n, f n e)) es) n = map_option (f n) (map_of es n)"
  by (induction es) auto

lemma startup_entry:
  assumes "ge_manager s" "ge_events s \<noteq> []" "n \<in> set (map fst (ge_events s))"
  shows "entry_of n (ge_OnServerStartup takes s) = (entry_of n s)\<lparr>eh_Attached := \<not> reg_Empty (eh_Handlers (entry_of n s)) \<and> takes n\<rparr>"
proof -
  obtain e where "map_of (ge_events s) n = Some e" using assms(3) by (metis map_of_eq_None_iff not_None_eq set_map)
  thus ?thesis using assms(1,2) map_of_mapped[of "\<lambda>n e. e\<lparr>eh_Attached := \<not> reg_Empty (eh_Handlers e) \<and> takes n\<rparr>" "ge_events s" n]
    by (simp add: entry_of_def ge_OnServerStartup_def Let_def)
qed

lemma startup_engine:
  assumes "distinct (map fst (ge_events s))" "ge_manager s" "ge_events s \<noteq> []"
  shows "distinct (ge_engine (ge_OnServerStartup takes s)) \<and>
    set (ge_engine (ge_OnServerStartup takes s)) = {n \<in> set (map fst (ge_events s)). \<not> reg_Empty (eh_Handlers (entry_of n s)) \<and> takes n}"
proof -
  let ?wanted = "\<lambda>(n, e). \<not> reg_Empty (eh_Handlers e) \<and> takes n"
  have e: "ge_engine (ge_OnServerStartup takes s) = map fst (filter ?wanted (ge_events s))" using assms(2,3) by (simp add: ge_OnServerStartup_def Let_def)
  have "entry_of n s = x" if "(n, x) \<in> set (ge_events s)" for n x using map_of_is_SomeI[OF assms(1) that] by (simp add: entry_of_def)
  thus ?thesis unfolding e using distinct_map_filter[OF assms(1), of ?wanted] by (auto simp: image_iff)
qed

lemma startup_ok:
  assumes "events_ok s"
  shows "events_ok (ge_OnServerStartup takes s)"
proof (cases "ge_manager s \<and> ge_events s \<noteq> []")
  case True
  have d: "distinct (map fst (ge_events s))" using assms by (simp add: events_ok_def)
  have f: "map fst (ge_events (ge_OnServerStartup takes s)) = map fst (ge_events s)" using True by (simp add: ge_OnServerStartup_def Let_def case_prod_beta comp_def)
  have "entry_of n (ge_OnServerStartup takes s) = new_handlers" if "n \<notin> set (map fst (ge_events s))" for n
  proof -
    have "map_of (ge_events (ge_OnServerStartup takes s)) n = None" using that unfolding f[symmetric] by (simp add: map_of_eq_None_iff)
    thus ?thesis by (simp add: entry_of_def)
  qed
  hence "reg_ok (eh_Handlers (entry_of n (ge_OnServerStartup takes s)))" for n
    using startup_entry[of s n takes] True assms by (cases "n \<in> set (map fst (ge_events s))") (simp_all add: events_ok_def new_handlers_def)
  moreover have "ge_manager (ge_OnServerStartup takes s)" using True by (simp add: ge_OnServerStartup_def Let_def)
  ultimately show ?thesis using startup_engine[OF d, of takes] True startup_entry[of s _ takes] d f by (auto simp: events_ok_def)
next
  case False thus ?thesis using assms by (auto simp: ge_OnServerStartup_def)
qed

lemma removed_entry: "entry_of n (ge_RemoveAllListeners s) =
    (case map_of (ge_events s) n of None \<Rightarrow> new_handlers | Some e \<Rightarrow> e\<lparr>eh_Handlers := reg_Clear (eh_Handlers e), eh_Attached := False\<rparr>)"
  using map_of_mapped[of "\<lambda>n e. e\<lparr>eh_Handlers := reg_Clear (eh_Handlers e), eh_Attached := False\<rparr>" "ge_events s" n]
  by (simp add: entry_of_def ge_RemoveAllListeners_def split: option.splits)

lemma remove_ok: "events_ok s \<Longrightarrow> events_ok (ge_RemoveAllListeners s)"
proof -
  assume ok: "events_ok s"
  have f: "map fst (ge_events (ge_RemoveAllListeners s)) = map fst (ge_events s)" by (simp add: ge_RemoveAllListeners_def case_prod_beta comp_def)
  have r: "reg_ok (eh_Handlers (entry_of n (ge_RemoveAllListeners s)))" for n
  proof (cases "map_of (ge_events s) n")
    case (Some e)
    hence "reg_ok (eh_Handlers e)" using ok by (metis entry_of_def events_ok_def option.simps(5))
    thus ?thesis using Some by (simp add: removed_entry)
  qed (simp add: removed_entry new_handlers_def)
  show ?thesis
  proof (cases "ge_events s = []")
    case True
    hence "ge_engine s = []" using ok by (cases "ge_engine s") (auto simp: events_ok_def entry_of_def new_handlers_def)
    thus ?thesis using True r f by (simp add: events_ok_def ge_RemoveAllListeners_def)
  next
    case False
    have m: "ge_manager s \<or> ge_engine s = []" using ok by (auto simp: events_ok_def)
    hence "ge_engine (ge_RemoveAllListeners s) = []" using False by (auto simp: ge_RemoveAllListeners_def)
    thus ?thesis using r f ok by (simp add: events_ok_def)
  qed
qed

lemma add_ok:
  assumes "events_ok s"
  shows "events_ok (snd (ge_Add takes name callback s))"
proof (cases "ge_manager s")
  case True
  let ?e = "entry_of name s"
  define attach where "attach = (\<not> eh_Attached ?e \<and> takes name)"
  define e where "e = \<lparr>eh_Handlers = snd (reg_Add callback (eh_Handlers ?e)), eh_Attached = eh_Attached ?e \<or> attach\<rparr>"
  let ?s = "s\<lparr>ge_events := put_entry name e (ge_events s)\<rparr>"
  have ok: "events_ok ?s" using assms by (intro put_events_ok) (simp_all add: events_ok_def e_def)
  have new: "snd (ge_Add takes name callback s) = ?s\<lparr>ge_engine := (if attach then ge_engine s @ [name] else ge_engine s)\<rparr>"
    using True by (simp add: ge_Add_def Let_def attach_def e_def case_prod_beta)
  have "name \<notin> set (ge_engine s)" if attach using assms that by (auto simp: events_ok_def attach_def)
  thus ?thesis unfolding new using ok True by (auto simp: events_ok_def e_def)
qed (use assms in \<open>simp add: ge_Add_def\<close>)

lemma entry_some: "map_of (ge_events s) name = Some e \<Longrightarrow> entry_of name s = e"
  by (simp add: entry_of_def)

lemma events_run_ok: "events_run s \<Longrightarrow> events_ok s"
proof (induction rule: events_run.induct)
  case (er_new manager)
  show ?case by (simp add: events_ok_def new_events_def entry_of_def new_handlers_def)
next
  case (er_drop s name handle)
  show ?case
  proof (cases "map_of (ge_events s) name")
    case (Some e)
    have "reg_ok (eh_Handlers e)" using er_drop.IH entry_some[OF Some] by (auto simp: events_ok_def)
    thus ?thesis using put_events_ok[OF er_drop.IH, of "e\<lparr>eh_Handlers := snd (reg_Remove handle (eh_Handlers e))\<rparr>" name] Some entry_some[OF Some]
      by (simp add: ge_Drop_def)
  qed (use er_drop in \<open>simp add: ge_Drop_def\<close>)
next
  case (er_fire s fn name)
  show ?case
  proof (cases "map_of (ge_events s) name")
    case (Some e)
    have "reg_ok (eh_Handlers e)" using er_fire.IH entry_some[OF Some] by (auto simp: events_ok_def)
    hence "reg_ok (snd (Dispatch fn (eh_Handlers e)))" using reg_ok_Dispatch er_fire.hyps(2) by blast
    thus ?thesis using put_events_ok[OF er_fire.IH, of "e\<lparr>eh_Handlers := snd (Dispatch fn (eh_Handlers e))\<rparr>" name] Some entry_some[OF Some]
      by (simp add: ge_FireGameEvent_def case_prod_beta)
  qed (use er_fire in \<open>simp add: ge_FireGameEvent_def\<close>)
next
  case (er_map s gone)
  thus ?case by (auto simp: events_ok_def engine_forgets_def)
qed (simp_all add: add_ok startup_ok remove_ok)

text \<open>
  C34: a handler is called once for each event, map after map. The engine has this listener at most once for any name, so it delivers an event at most once; after
  each map start it has it for exactly the events that still have a handler (and that it takes); and an event delivered runs its live handlers in order, each at most once,
  and every one that is not removed meanwhile.
\<close>

theorem game_events_once:
  assumes "events_run s" "\<And>i r. api r (fn i r)"
  shows "distinct (ge_engine s) \<and>
    (ge_manager s \<longrightarrow> set (ge_engine (ge_OnServerStartup takes s)) = {n. live_ids (eh_Handlers (entry_of n s)) \<noteq> [] \<and> takes n}) \<and>
    sorted_wrt (<) (fst (ge_FireGameEvent fn n s)) \<and> set (fst (ge_FireGameEvent fn n s)) \<subseteq> set (live_ids (eh_Handlers (entry_of n s))) \<and>
    set (live_ids (eh_Handlers (entry_of n s))) \<inter> set (live_ids (eh_Handlers (entry_of n (snd (ge_FireGameEvent fn n s))))) \<subseteq> set (fst (ge_FireGameEvent fn n s))"
proof -
  have ok: "events_ok s" using events_run_ok[OF assms(1)] .
  have r: "reg_ok (eh_Handlers (entry_of n s))" for n using ok by (simp add: events_ok_def)
  have none: "live_ids (eh_Handlers (entry_of n s)) = []" if "n \<notin> set (map fst (ge_events s))" for n
  proof -
    have "map_of (ge_events s) n = None" using that by (simp add: map_of_eq_None_iff)
    thus ?thesis by (simp add: entry_of_def new_handlers_def live_ids_def reg_init_def)
  qed
  have "set (ge_engine (ge_OnServerStartup takes s)) = {n. live_ids (eh_Handlers (entry_of n s)) \<noteq> [] \<and> takes n}" if m: "ge_manager s"
  proof (cases "ge_events s = []")
    case True
    have "ge_engine s = []" using ok True by (cases "ge_engine s") (auto simp: events_ok_def entry_of_def new_handlers_def)
    thus ?thesis using True none by (auto simp: ge_OnServerStartup_def)
  next
    case False
    thus ?thesis using startup_engine[of s takes] ok m reg_Empty_live[OF r] none by (auto simp: events_ok_def)
  qed
  moreover have "sorted_wrt (<) (fst (ge_FireGameEvent fn n s)) \<and> set (fst (ge_FireGameEvent fn n s)) \<subseteq> set (live_ids (eh_Handlers (entry_of n s)))"
    using DispatchIf_facts(3,4)[OF r[of n] assms(2), of "\<lambda>_. True"]
    by (cases "map_of (ge_events s) n") (simp_all add: ge_FireGameEvent_def entry_some case_prod_beta Dispatch_def)
  moreover have "set (live_ids (eh_Handlers (entry_of n s))) \<inter> set (live_ids (eh_Handlers (entry_of n (snd (ge_FireGameEvent fn n s))))) \<subseteq> set (fst (ge_FireGameEvent fn n s))"
  proof (cases "map_of (ge_events s) n")
    case None thus ?thesis by (simp add: entry_of_def new_handlers_def live_ids_def reg_init_def)
  next
    case (Some e)
    show ?thesis using Dispatch_complete[OF r[of n] assms(2)] Some by (auto simp: ge_FireGameEvent_def entry_some case_prod_beta)
  qed
  ultimately show ?thesis using ok by (simp add: events_ok_def)
qed

definition two_handlers :: "string GameEvents" where
  "two_handlers = snd (ge_Add (\<lambda>n. True) ''round_start'' ''a'' (engine_forgets (\<lambda>n. True) (snd (ge_Add (\<lambda>n. True) ''player_death'' ''b'' (new_events True)))))"

theorem game_events_once_witness:
  "set (ge_engine (ge_OnServerStartup (\<lambda>n. True) two_handlers)) = {n. live_ids (eh_Handlers (entry_of n two_handlers)) \<noteq> []} \<and>
   ge_engine two_handlers = [''round_start''] \<and> ge_engine (ge_OnServerStartup (\<lambda>n. True) two_handlers) = [''player_death'', ''round_start'']"
proof -
  have r: "events_run two_handlers" unfolding two_handlers_def by (intro er_add er_map er_new)
  have m: "ge_manager two_handlers" "ge_engine two_handlers = [''round_start'']"
    "ge_engine (ge_OnServerStartup (\<lambda>n. True) two_handlers) = [''player_death'', ''round_start'']" by code_simp+
  have a: "\<And>i r. api r r" by (rule api_refl)
  show ?thesis using game_events_once[OF r a, of "\<lambda>n. True" "[]"] m by simp
qed

end
