(* ===== verification/Damage.thy ===== *)
theory Damage
  imports GameEvents
begin

text \<open>
  Damage: every hit on its way to the engine, and hits a plugin deals with the names a kill is to show. Source: \<^verbatim>\<open>src/Hooks/Damage.cpp\<close> and
  \<^verbatim>\<open>include/VoltMod/Hooks/Damage.hpp\<close>. Floating-point arithmetic is an argument. What the engine does while it takes a hit is a script: it fires
  events, and a handler of one may deal another hit inside the first. The position and push a dealt hit carries are the engine's vectors and left out.
\<close>

section \<open>Hits on their way to the engine\<close>

record 'f float_ops =
  fo_neq :: "'f \<Rightarrow> 'f \<Rightarrow> bool"
  fo_zero :: 'f
  fo_mult :: "'f \<Rightarrow> 'f \<Rightarrow> 'f"
  fo_div :: "'f \<Rightarrow> 'f \<Rightarrow> 'f"

record 'f DamageHit =
  ht_Victim :: nat
  ht_Attacker :: nat
  ht_Inflictor :: nat
  ht_Amount :: 'f
  ht_Type :: nat
  ht_Blocked :: bool

record 'f EngineDamageInfo =
  ed_Attacker :: nat
  ed_Inflictor :: nat
  ed_Damage :: 'f
  ed_TotalledDamage :: 'f
  ed_DamageType :: nat

text \<open>Blocked with the engine's result 1, or let through. Handlers see the hit and may change its amount and type or block it; who dealt it stays.\<close>

definition OnTakeDamage :: "'f float_ops \<Rightarrow> ('f DamageHit \<Rightarrow> 'f DamageHit) \<Rightarrow> nat \<Rightarrow> 'f EngineDamageInfo \<Rightarrow> int option \<times> 'f EngineDamageInfo" where
  "OnTakeDamage fo Before victim info =
     (let hit = Before \<lparr>ht_Victim = victim, ht_Attacker = ed_Attacker info, ht_Inflictor = ed_Inflictor info, ht_Amount = ed_Damage info,
                        ht_Type = ed_DamageType info, ht_Blocked = False\<rparr>
      in if ht_Blocked hit then (Some 1, info)
         else let info = (if fo_neq fo (ht_Amount hit) (ed_Damage info)
                then let info = (if fo_neq fo (ed_Damage info) (fo_zero fo)
                       then info\<lparr>ed_TotalledDamage := fo_mult fo (ed_TotalledDamage info) (fo_div fo (ht_Amount hit) (ed_Damage info))\<rparr> else info)
                     in info\<lparr>ed_Damage := ht_Amount hit\<rparr>
                else info)
              in (None, info\<lparr>ed_DamageType := ht_Type hit\<rparr>))"

text \<open>A blocked hit leaves the engine's record alone, who dealt a hit never changes, and a hit whose amount the handlers leave keeps both totals.\<close>

lemma OnTakeDamage_effect:
  assumes "OnTakeDamage fo Before victim info = (r, info')"
  shows "(r \<noteq> None \<longrightarrow> r = Some 1 \<and> info' = info) \<and> ed_Attacker info' = ed_Attacker info \<and> ed_Inflictor info' = ed_Inflictor info \<and>
    ((\<forall>h. ht_Amount (Before h) = ht_Amount h) \<and> (\<forall>x. \<not> fo_neq fo x x) \<longrightarrow>
       ed_Damage info' = ed_Damage info \<and> ed_TotalledDamage info' = ed_TotalledDamage info)"
  using assms by (auto simp: OnTakeDamage_def Let_def split: if_splits)

section \<open>Hits a plugin deals\<close>

record 'f DamageInfo =
  dg_Attacker :: nat
  dg_Inflictor :: nat
  dg_Amount :: 'f
  dg_Type :: nat
  dg_Weapon :: string
  dg_VictimWeapon :: string

definition dmg_Available :: "bool \<Rightarrow> bool \<Rightarrow> unit result" where
  "dmg_Available takeDamage buildDamageInfo =
     (if \<not> takeDamage then Inl (Error_Unsupported ''the CBaseEntity::TakeDamageOld signature did not bind'')
      else if \<not> buildDamageInfo then Inl (Error_Unsupported ''the CTakeDamageInfo constructor signature did not bind'')
      else Inr ())"

text \<open>Who is sent which weapon name: the engine's broadcast to everyone, the server's own listeners alone, or one client.\<close>

datatype sent = Broadcast string | ServerOnly string | ToClient nat string

record 'f Damage =
  dm_hit :: "'f DamageInfo option"
  dm_deathEvents :: bool
  dm_sent :: "sent list"

definition PlayerDeath :: string where "PlayerDeath = ''player_death''"

text \<open>What the engine does with an event no hook holds back.\<close>

definition engine_fires :: "bool \<Rightarrow> string \<Rightarrow> sent list" where
  "engine_fires dontBroadcast weapon = [if dontBroadcast then ServerOnly weapon else Broadcast weapon]"

definition SendDeath :: "(nat \<Rightarrow> bool) \<Rightarrow> int \<Rightarrow> 'f DamageInfo \<Rightarrow> sent list" where
  "SendDeath listens victim info =
     map (\<lambda>slot. ToClient slot (if int slot = victim then dg_VictimWeapon info else dg_Weapon info)) (filter listens [0..<nat MaxPlayers])"

definition OnFireEvent :: "(nat \<Rightarrow> bool) \<Rightarrow> 'f DamageInfo option \<Rightarrow> string \<Rightarrow> int \<Rightarrow> string \<Rightarrow> bool \<Rightarrow> sent list" where
  "OnFireEvent listens current name victim weapon dontBroadcast = (case current of
     None \<Rightarrow> engine_fires dontBroadcast weapon
   | Some hit \<Rightarrow>
       if dg_Weapon hit = [] \<or> name \<noteq> PlayerDeath then engine_fires dontBroadcast weapon
       else if dg_VictimWeapon hit = [] \<or> dontBroadcast then engine_fires dontBroadcast (dg_Weapon hit)
       else SendDeath listens victim hit @ engine_fires True (dg_Weapon hit))"

definition HookDeathEvents :: "bool \<Rightarrow> 'f Damage \<Rightarrow> 'f Damage" where
  "HookDeathEvents manager s = (if dm_deathEvents s \<or> \<not> manager then s else s\<lparr>dm_deathEvents := True\<rparr>)"

text \<open>A script: an event with the victim and the weapon it names, or a hit dealt with what the engine does meanwhile and whether its victim is there.\<close>

datatype 'f action = Fires string int string bool | Deals "'f DamageInfo" bool "'f action list"

text \<open>The parts of the engine a service needs: whether damage can be dealt, the event manager, and which clients listen.\<close>

record damage_env =
  de_available :: bool
  de_manager :: bool
  de_listens :: "nat \<Rightarrow> bool"

fun run_action :: "damage_env \<Rightarrow> 'f action \<Rightarrow> 'f Damage \<Rightarrow> 'f Damage"
  and run_actions :: "damage_env \<Rightarrow> 'f action list \<Rightarrow> 'f Damage \<Rightarrow> 'f Damage" where
  "run_action env (Fires name victim weapon dontBroadcast) s =
     s\<lparr>dm_sent := dm_sent s @ (if dm_deathEvents s then OnFireEvent (de_listens env) (dm_hit s) name victim weapon dontBroadcast else engine_fires dontBroadcast weapon)\<rparr>"
| "run_action env (Deals info there script) s =
     (if \<not> there \<or> \<not> de_available env then s
      else let s = (if dg_Weapon info \<noteq> [] then HookDeathEvents (de_manager env) s else s);
               outer = dm_hit s
           in (run_actions env script (s\<lparr>dm_hit := Some info\<rparr>))\<lparr>dm_hit := outer\<rparr>)"
| "run_actions env [] s = s"
| "run_actions env (a # as) s = run_actions env as (run_action env a s)"

definition Damage_Apply :: "damage_env \<Rightarrow> bool \<Rightarrow> 'f DamageInfo \<Rightarrow> 'f action list \<Rightarrow> 'f Damage \<Rightarrow> 'f Damage" where
  "Damage_Apply env there info script s = run_action env (Deals info there script) s"

section \<open>Each death names the hit it died of\<close>

text \<open>What is sent when every event belongs to the innermost hit around it.\<close>

fun sent_by :: "damage_env \<Rightarrow> 'f DamageInfo option \<Rightarrow> 'f action \<Rightarrow> sent list"
  and sent_by_all :: "damage_env \<Rightarrow> 'f DamageInfo option \<Rightarrow> 'f action list \<Rightarrow> sent list" where
  "sent_by env current (Fires name victim weapon dontBroadcast) = OnFireEvent (de_listens env) current name victim weapon dontBroadcast"
| "sent_by env current (Deals info there script) = (if there \<and> de_available env then sent_by_all env (Some info) script else [])"
| "sent_by_all env current [] = []"
| "sent_by_all env current (a # as) = sent_by env current a @ sent_by_all env current as"

text \<open>The hook is there whenever it matters: a named hit in progress installed it.\<close>

definition hooked_ok :: "'f Damage \<Rightarrow> bool" where
  "hooked_ok s \<longleftrightarrow> dm_deathEvents s \<or> (\<forall>hit. dm_hit s = Some hit \<longrightarrow> dg_Weapon hit = [])"

lemma OnFireEvent_unnamed: "(\<forall>hit. current = Some hit \<longrightarrow> dg_Weapon hit = []) \<Longrightarrow> OnFireEvent l current n v w d = engine_fires d w"
  by (auto simp: OnFireEvent_def split: option.splits)

lemma run_sent:
  shows "de_manager env \<Longrightarrow> hooked_ok s \<Longrightarrow> dm_sent (run_action env a s) = dm_sent s @ sent_by env (dm_hit s) a \<and> dm_hit (run_action env a s) = dm_hit s \<and>
      hooked_ok (run_action env a s) \<and> (dm_deathEvents s \<longrightarrow> dm_deathEvents (run_action env a s))"
    and "de_manager env \<Longrightarrow> hooked_ok s \<Longrightarrow> dm_sent (run_actions env as s) = dm_sent s @ sent_by_all env (dm_hit s) as \<and> dm_hit (run_actions env as s) = dm_hit s \<and>
      hooked_ok (run_actions env as s) \<and> (dm_deathEvents s \<longrightarrow> dm_deathEvents (run_actions env as s))"
proof (induction env a s and env as s rule: run_action_run_actions.induct)
  case (1 env name victim weapon dontBroadcast s)
  thus ?case using OnFireEvent_unnamed[of "dm_hit s"] by (auto simp: hooked_ok_def)
next
  case (2 env info there script s)
  show ?case
  proof (cases "there \<and> de_available env")
    case True
    define s1 where "s1 = (if dg_Weapon info \<noteq> [] then HookDeathEvents (de_manager env) s else s)"
    have s1: "dm_hit s1 = dm_hit s" "dm_sent s1 = dm_sent s" "dm_deathEvents s \<longrightarrow> dm_deathEvents s1" by (simp_all add: s1_def HookDeathEvents_def)
    have ok: "hooked_ok (s1\<lparr>dm_hit := Some info\<rparr>)" using 2(2) by (auto simp: hooked_ok_def s1_def HookDeathEvents_def)
    let ?final = "run_actions env script (s1\<lparr>dm_hit := Some info\<rparr>)"
    have e: "run_action env (Deals info there script) s = ?final\<lparr>dm_hit := dm_hit s\<rparr>" using True s1(1) by (simp add: s1_def Let_def)
    have IH: "dm_sent ?final = dm_sent s @ sent_by_all env (Some info) script" "dm_deathEvents s1 \<longrightarrow> dm_deathEvents ?final"
      using 2(1)[OF _ s1_def refl 2(2)] True ok s1(2) by auto
    have "hooked_ok (?final\<lparr>dm_hit := dm_hit s\<rparr>)" using 2(3) IH(2) s1(3) by (auto simp: hooked_ok_def)
    thus ?thesis unfolding e using True IH s1(3) by auto
  next
    case False thus ?thesis using 2 by auto
  qed
qed auto


definition knife_in_shot :: "nat action list" where
  "knife_in_shot =
    [Deals \<lparr>dg_Attacker = 1, dg_Inflictor = 1, dg_Amount = 50, dg_Type = 2, dg_Weapon = ''turret'', dg_VictimWeapon = []\<rparr> True
       [Fires ''player_hurt'' 3 ''world'' False,
        Deals \<lparr>dg_Attacker = 2, dg_Inflictor = 2, dg_Amount = 90, dg_Type = 4, dg_Weapon = ''knife'', dg_VictimWeapon = ''own''\<rparr> True
          [Fires ''player_death'' 0 ''world'' False],
        Fires ''player_death'' 3 ''world'' False],
     Fires ''player_death'' 5 ''world'' False]"


end
