(* ===== verification/SchemaCheck.thy ===== *)
theory SchemaCheck
  imports Strings Result PluginHost
begin

text \<open>
  The schema check: are the field offsets this build was generated with still those of the running game, and the dump a new set is generated from. Source:
  \<^verbatim>\<open>src/Host/Schema/SchemaCheck.cpp\<close>, \<^verbatim>\<open>SchemaDump.cpp\<close>, \<^verbatim>\<open>SchemaFields.hpp\<close>,
  \<^verbatim>\<open>src/Schema/Layout.hpp\<close> and \<^verbatim>\<open>src/Core/Files/GameBuild.cpp\<close>. The engine's schema system is an argument; of its
  classes only what the code reads is kept, pointers to a class or type as the class or type itself. Writing JSON and storing a file are arguments too.
\<close>

section \<open>What the engine describes\<close>

text \<open>A type carries its names, what its category points at, and what asking for its size answers: whether it knows, and the size it leaves behind.\<close>

datatype schema_type = SchemaType (ty_name: "string option") (ty_categoryName: string) (ty_kind: type_kind) (ty_size: "bool \<times> int")
  and type_kind = Pointer "schema_type option" | FixedArray "schema_type option" int | Atomic string bool "schema_type option" | OtherKind

record SchemaField =
  fd_name :: "string option"
  fd_offset :: int
  fd_type :: "schema_type option"

datatype klass = Class (k_name: "string option") (k_size: int) (k_base: "klass option") (k_fields: "SchemaField list")

record schema_enum =
  en_name :: "string option"
  en_size :: int
  en_items :: "(string option \<times> int) list"

text \<open>A type scope: looking a class up by name, and all classes and enumerations in it.\<close>

record type_scope =
  sc_FindDeclaredClass :: "string \<Rightarrow> klass option"
  sc_classes :: "klass option list"
  sc_enums :: "schema_enum option list"

record schema_system =
  ss_ready :: bool
  ss_server :: "type_scope option"
  ss_global :: "type_scope option"

text \<open>A lookup finds exactly the class of that name in the scope, and names are unique there: what the engine's scopes are.\<close>

definition scope_ok :: "type_scope \<Rightarrow> bool" where
  "scope_ok sc \<longleftrightarrow> (\<forall>n k. sc_FindDeclaredClass sc n = Some k \<longleftrightarrow> Some k \<in> set (sc_classes sc) \<and> k_name k = Some n)"

section \<open>The check\<close>

fun FindField :: "string \<Rightarrow> klass \<Rightarrow> SchemaField option" where
  "FindField field (Class name sz base fs) = (case find (\<lambda>f. fd_name f = Some field) fs of
     Some f \<Rightarrow> Some f
   | None \<Rightarrow> (case base of None \<Rightarrow> None | Some k \<Rightarrow> FindField field k))"

record FieldLayout =
  fl_Class :: string
  fl_Field :: string
  fl_Offset :: int
  fl_Size :: int

definition ServerScope :: "schema_system option \<Rightarrow> type_scope option" where
  "ServerScope schema = (case schema of None \<Rightarrow> None | Some s \<Rightarrow> if \<not> ss_ready s then None else ss_server s)"

definition global_scope :: "schema_system option \<Rightarrow> type_scope option" where
  "global_scope schema = (case schema of None \<Rightarrow> None | Some s \<Rightarrow> ss_global s)"

text \<open>The class of a name: the server's, else the global one.\<close>

definition live_class :: "type_scope \<Rightarrow> type_scope option \<Rightarrow> string \<Rightarrow> klass option" where
  "live_class server global name = (case sc_FindDeclaredClass server name of
     Some k \<Rightarrow> Some k
   | None \<Rightarrow> (case global of None \<Rightarrow> None | Some g \<Rightarrow> sc_FindDeclaredClass g name))"

definition field_label :: "FieldLayout \<Rightarrow> string" where
  "field_label want = fl_Class want @ ''::'' @ fl_Field want"

text \<open>The line for a field that is not where it was, or nothing.\<close>

definition drift_of :: "type_scope \<Rightarrow> type_scope option \<Rightarrow> FieldLayout \<Rightarrow> string option" where
  "drift_of server global want =
     (case (case live_class server global (fl_Class want) of None \<Rightarrow> None | Some live \<Rightarrow> FindField (fl_Field want) live) of
        None \<Rightarrow> Some (field_label want @ '': gone'')
      | Some found \<Rightarrow>
          if fd_offset found \<noteq> fl_Offset want
          then Some (field_label want @ '': offset '' @ to_string_int (fl_Offset want) @ '' -> '' @ to_string_int (fd_offset found))
          else (case fd_type found of
                  None \<Rightarrow> None
                | Some type \<Rightarrow> (let (known, sz) = ty_size type in
                    if known \<and> sz \<noteq> fl_Size want
                    then Some (field_label want @ '': size '' @ to_string_int (fl_Size want) @ '' -> '' @ to_string_int sz)
                    else None)))"

definition drift_message :: "string \<Rightarrow> string \<Rightarrow> string list \<Rightarrow> string" where
  "drift_message generatedFrom gameBuild drift =
     ''schema drift (accessors generated from game build '' @ generatedFrom @ '', server is '' @ gameBuild @ ''); '' @
     ''load a plugin into a running map to write the dump, then regenerate '' @ ''with voltmod framework schemagen:'' @
     concat (map (\<lambda>line. CHR 0x0A # ''  '' @ line) drift)"

definition VerifySchemaLayout :: "FieldLayout list \<Rightarrow> string \<Rightarrow> string \<Rightarrow> schema_system option \<Rightarrow> status" where
  "VerifySchemaLayout layout generatedFrom gameBuild schema = (case ServerScope schema of
     None \<Rightarrow> Inl (Error_NotReady ''the server schema scope is not ready'')
   | Some server \<Rightarrow>
       (let drift = List.map_filter (drift_of server (global_scope schema)) layout
        in if drift = [] then Inr () else Inl (Error_Invalid (drift_message generatedFrom gameBuild drift))))"

section \<open>The dump\<close>

record TypeInfo =
  ti_name :: string
  ti_category :: string
  ti_atomic :: "string option"
  ti_inner :: "string option"
  ti_extent :: "int option"

record FieldInfo =
  fi_name :: string
  fi_offset :: int
  fi_size :: int
  fi_type :: TypeInfo
  fi_networked :: bool

record ClassInfo =
  ci_size :: int
  ci_base :: string
  ci_chain_offset :: int
  ci_fields :: "FieldInfo list"

record EnumInfo =
  ei_size :: int
  ei_items :: "(string \<times> int) list"

record SchemaDoc =
  sd_build :: string
  sd_classes :: "(string, ClassInfo) omap"
  sd_enums :: "(string, EnumInfo) omap"

definition TypeName :: "schema_type option \<Rightarrow> string" where
  "TypeName type = (case type of None \<Rightarrow> [] | Some t \<Rightarrow> case_option [] id (ty_name t))"

definition DescribeType :: "schema_type option \<Rightarrow> TypeInfo" where
  "DescribeType type = (case type of
     None \<Rightarrow> \<lparr>ti_name = [], ti_category = [], ti_atomic = None, ti_inner = None, ti_extent = None\<rparr>
   | Some t \<Rightarrow>
       let out = \<lparr>ti_name = TypeName type, ti_category = ty_categoryName t, ti_atomic = None, ti_inner = None, ti_extent = None\<rparr>
       in (case ty_kind t of
             Pointer object \<Rightarrow> out\<lparr>ti_inner := Some (TypeName object)\<rparr>
           | FixedArray element extent \<Rightarrow> out\<lparr>ti_inner := Some (TypeName element), ti_extent := Some extent\<rparr>
           | Atomic name templated template \<Rightarrow>
               (let out = out\<lparr>ti_atomic := Some name\<rparr> in if templated then out\<lparr>ti_inner := Some (TypeName template)\<rparr> else out)
           | OtherKind \<Rightarrow> out))"

definition ChainField :: string where "ChainField = ''__m_pChainEntity''"

definition field_size :: "SchemaField \<Rightarrow> int" where
  "field_size f = (case fd_type f of None \<Rightarrow> 0 | Some t \<Rightarrow> snd (ty_size t))"

text \<open>Which fields of which class are networked is the engine's serializer database, \<open>None\<close> for a class that is not networked.\<close>

definition DescribeField :: "(string \<Rightarrow> bool) option \<Rightarrow> SchemaField \<Rightarrow> FieldInfo option" where
  "DescribeField network field = map_option (\<lambda>name.
     \<lparr>fi_name = name, fi_offset = fd_offset field, fi_size = field_size field, fi_type = DescribeType (fd_type field),
      fi_networked = (case network of None \<Rightarrow> False | Some networked \<Rightarrow> networked name)\<rparr>) (fd_name field)"

definition DescribeClass :: "klass \<Rightarrow> (string \<Rightarrow> bool) option \<Rightarrow> ClassInfo" where
  "DescribeClass klass network =
     \<lparr>ci_size = k_size klass,
      ci_base = (case k_base klass of None \<Rightarrow> [] | Some base \<Rightarrow> case_option [] id (k_name base)),
      ci_chain_offset = (case FindField ChainField klass of None \<Rightarrow> -1 | Some chain \<Rightarrow> fd_offset chain),
      ci_fields = List.map_filter (DescribeField network) (k_fields klass)\<rparr>"

definition DescribeEnum :: "schema_enum \<Rightarrow> EnumInfo" where
  "DescribeEnum enumeration =
     \<lparr>ei_size = en_size enumeration, ei_items = List.map_filter (\<lambda>(name, v). map_option (\<lambda>n. (n, v)) name) (en_items enumeration)\<rparr>"

type_synonym network_db = "string \<Rightarrow> (string \<Rightarrow> bool) option"

definition named_classes :: "network_db \<Rightarrow> type_scope \<Rightarrow> (string \<times> ClassInfo) list" where
  "named_classes network scope = List.map_filter (\<lambda>klass. case klass of None \<Rightarrow> None
     | Some k \<Rightarrow> map_option (\<lambda>n. (n, DescribeClass k (network n))) (k_name k)) (sc_classes scope)"

definition named_enums :: "type_scope \<Rightarrow> (string \<times> EnumInfo) list" where
  "named_enums scope = List.map_filter (\<lambda>enumeration. case enumeration of None \<Rightarrow> None
     | Some e \<Rightarrow> map_option (\<lambda>n. (n, DescribeEnum e)) (en_name e)) (sc_enums scope)"

definition MergeScope :: "network_db \<Rightarrow> type_scope \<Rightarrow> SchemaDoc \<Rightarrow> SchemaDoc" where
  "MergeScope network scope doc =
     doc\<lparr>sd_classes := fold (\<lambda>(k, v). omap_assign k v) (named_classes network scope) (sd_classes doc),
         sd_enums := fold (\<lambda>(k, v). omap_assign k v) (named_enums scope) (sd_enums doc)\<rparr>"

definition dump_doc :: "type_scope option \<Rightarrow> type_scope \<Rightarrow> network_db \<Rightarrow> string \<Rightarrow> SchemaDoc" where
  "dump_doc global server network gameBuild =
     (let doc = \<lparr>sd_build = gameBuild, sd_classes = [], sd_enums = []\<rparr>;
          doc = (case global of None \<Rightarrow> doc | Some g \<Rightarrow> MergeScope network g doc)
      in MergeScope network server doc)"

section \<open>Writing the dump once\<close>

text \<open>Storing a text over what is there: the error, if any, and what the file holds then.\<close>

type_synonym disk = "string option \<Rightarrow> string \<Rightarrow> Error option \<times> string option"

definition WriteDumpFile :: "(SchemaDoc \<Rightarrow> string) \<Rightarrow> disk \<Rightarrow> type_scope option \<Rightarrow> type_scope \<Rightarrow> network_db \<Rightarrow> string \<Rightarrow> string option \<Rightarrow> status \<times> string option" where
  "WriteDumpFile WritePretty disk global server network gameBuild file =
     (let text = WritePretty (dump_doc global server network gameBuild)
      in if text = [] then (Inl (Error_Invalid ''failed to serialize the schema document''), file)
         else (case disk file (text @ [CHR 0x0A]) of (None, file) \<Rightarrow> (Inr (), file) | (Some e, file) \<Rightarrow> (Inl e, file)))"

definition find_from :: "char \<Rightarrow> nat \<Rightarrow> string \<Rightarrow> nat option" where
  "find_from c from_at s = map_option (\<lambda>i. from_at + i) (find_sub [c] (drop from_at s))"

definition build_key :: string where "build_key = CHR 0x22 # ''build'' @ [CHR 0x22, CHR 0x3A]"

definition DumpedBuild :: "string option \<Rightarrow> string" where
  "DumpedBuild file = (case file of None \<Rightarrow> [] | Some text \<Rightarrow>
     let head = take 256 text in
     case find_sub build_key head of None \<Rightarrow> [] | Some key_at \<Rightarrow>
       (case find_from (CHR 0x22) (key_at + length build_key) head of None \<Rightarrow> [] | Some open_at \<Rightarrow>
         (case find_from (CHR 0x22) (open_at + 1) head of None \<Rightarrow> [] | Some close_at \<Rightarrow>
            take (close_at - open_at - 1) (drop (open_at + 1) head))))"

definition GameBuild :: "string option \<Rightarrow> string" where
  "GameBuild steamInf = (case steamInf of None \<Rightarrow> ''unknown'' | Some text \<Rightarrow>
     (case find_sub ''ServerVersion='' text of None \<Rightarrow> ''unknown'' | Some key_at \<Rightarrow>
        Trim (takeWhile (\<lambda>c. c \<noteq> CHR 0x0D \<and> c \<noteq> CHR 0x0A) (drop (key_at + length ''ServerVersion='') text))))"

text \<open>The dump of a process: whether it tried, and the file.\<close>

record dump_state =
  du_attempted :: bool
  du_file :: "string option"

text \<open>\<open>entities\<close> is the entity system, if there is one, with the serializer database it leads to.\<close>

definition WriteSchemaDump :: "(SchemaDoc \<Rightarrow> string) \<Rightarrow> disk \<Rightarrow> string \<Rightarrow> schema_system option \<Rightarrow> network_db option option \<Rightarrow> dump_state \<Rightarrow> dump_state" where
  "WriteSchemaDump WritePretty disk gameBuild schema entities d = (case entities of
     None \<Rightarrow> d
   | Some serializer \<Rightarrow>
       if du_attempted d then d
       else (case ServerScope schema of
               None \<Rightarrow> d
             | Some server \<Rightarrow>
                 if DumpedBuild (du_file d) = gameBuild then d
                 else (case serializer of
                         None \<Rightarrow> d
                       | Some network \<Rightarrow>
                           \<lparr>du_attempted = True, du_file = snd (WriteDumpFile WritePretty disk (global_scope schema) server network gameBuild (du_file d))\<rparr>)))"

section \<open>The service\<close>

text \<open>What a build carries: its layout, the layout's stamp and the game build it was generated from; and the build of the running game.\<close>

record check_env =
  cv_layout :: "FieldLayout list"
  cv_stamp :: nat
  cv_generatedFrom :: string
  cv_gameBuild :: string

text \<open>The service: whether the schema was there to compare with, the plugin host it reports to, and the dump. Each call sees the schema as it is then.\<close>

record ('f, 'i) SchemaCheck =
  sk_schemaLoaded :: bool
  sk_registry :: "('f, 'i) host"
  sk_dump :: dump_state

definition Check :: "check_env \<Rightarrow> schema_system option \<Rightarrow> ('f, 'i) SchemaCheck \<Rightarrow> ('f, 'i) SchemaCheck" where
  "Check env schema s =
     (let verified = VerifySchemaLayout (cv_layout env) (cv_generatedFrom env) (cv_gameBuild env) schema
      in s\<lparr>sk_schemaLoaded := (case verified of Inr _ \<Rightarrow> True | Inl e \<Rightarrow> err_Code e \<noteq> NotReady),
           sk_registry := SetSchemaLayout (cv_stamp env) (case verified of Inr _ \<Rightarrow> True | Inl _ \<Rightarrow> False) (sk_registry s)\<rparr>)"

definition SchemaCheck_new :: "check_env \<Rightarrow> schema_system option \<Rightarrow> ('f, 'i) host \<Rightarrow> dump_state \<Rightarrow> ('f, 'i) SchemaCheck" where
  "SchemaCheck_new env schema h d = Check env schema \<lparr>sk_schemaLoaded = False, sk_registry = h, sk_dump = d\<rparr>"

text \<open>The entity system the engine keeps in its resource service at an offset from gamedata.\<close>

definition sk_Entities :: "'r option \<Rightarrow> int \<Rightarrow> ('r \<Rightarrow> int \<Rightarrow> network_db option option) \<Rightarrow> network_db option option" where
  "sk_Entities resources entitySystemOffset ReadAt = (case resources of
     None \<Rightarrow> None | Some r \<Rightarrow> if entitySystemOffset < 0 then None else ReadAt r entitySystemOffset)"

definition sk_OnServerStartup ::
  "(SchemaDoc \<Rightarrow> string) \<Rightarrow> disk \<Rightarrow> check_env \<Rightarrow> schema_system option \<Rightarrow> network_db option option \<Rightarrow> ('f, 'i) SchemaCheck \<Rightarrow> ('f, 'i) SchemaCheck" where
  "sk_OnServerStartup WritePretty disk env schema entities s =
     (let s = (if \<not> sk_schemaLoaded s then Check env schema s else s)
      in s\<lparr>sk_dump := WriteSchemaDump WritePretty disk (cv_gameBuild env) schema entities (sk_dump s)\<rparr>)"

section \<open>What the check answers\<close>

lemma map_filter_Nil_iff: "List.map_filter f xs = [] \<longleftrightarrow> (\<forall>x \<in> set xs. f x = None)"
  by (induction xs) (auto simp: List.map_filter_def)

lemma Verify_ok_iff: "VerifySchemaLayout layout g b schema = Inr () \<longleftrightarrow>
    (\<exists>server. ServerScope schema = Some server \<and> (\<forall>want \<in> set layout. drift_of server (global_scope schema) want = None))"
  by (auto simp: VerifySchemaLayout_def Let_def map_filter_Nil_iff split: option.splits)

text \<open>No line for a field says that it is there, at its offset, with its size where the engine knows it.\<close>

definition field_in_place :: "type_scope \<Rightarrow> type_scope option \<Rightarrow> FieldLayout \<Rightarrow> bool" where
  "field_in_place server global want = (case live_class server global (fl_Class want) of
     None \<Rightarrow> False
   | Some live \<Rightarrow> (case FindField (fl_Field want) live of
       None \<Rightarrow> False
     | Some found \<Rightarrow> fd_offset found = fl_Offset want \<and> (case fd_type found of None \<Rightarrow> True | Some t \<Rightarrow> fst (ty_size t) \<longrightarrow> snd (ty_size t) = fl_Size want)))"

lemma drift_none_iff: "drift_of server global want = None \<longleftrightarrow> field_in_place server global want"
  by (auto simp: drift_of_def field_in_place_def case_prod_beta split: option.splits)

section \<open>What the dump holds\<close>

lemma find_described:
  "find (\<lambda>i. fi_name i = f) (List.map_filter (DescribeField network) fs) = Option.bind (find (\<lambda>x. fd_name x = Some f) fs) (DescribeField network)"
proof (induction fs)
  case (Cons x fs)
  thus ?case by (cases "fd_name x") (auto simp: List.map_filter_simps DescribeField_def)
qed (simp add: List.map_filter_simps)

lemma FindField_own: "find (\<lambda>x. fd_name x = Some f) (k_fields k) = Some x \<Longrightarrow> FindField f k = Some x"
  by (cases k) simp

lemma map_of_unique:
  assumes "\<And>v. (n, v) \<in> set xs \<longleftrightarrow> r = Some v"
  shows "map_of xs n = r"
proof (cases "map_of xs n")
  case None thus ?thesis using assms by (cases r) (force simp: map_of_eq_None_iff)+
next
  case (Some v) thus ?thesis using assms map_of_SomeD by metis
qed

lemma set_named_classes: "(n, ci) \<in> set (named_classes network sc) \<longleftrightarrow>
    (\<exists>k. Some k \<in> set (sc_classes sc) \<and> k_name k = Some n \<and> ci = DescribeClass k (network n))"
  by (force simp: named_classes_def List.map_filter_def split: option.splits)

lemma named_classes_lookup:
  assumes "scope_ok sc"
  shows "map_of (rev (named_classes network sc)) n = map_option (\<lambda>k. DescribeClass k (network n)) (sc_FindDeclaredClass sc n)"
  by (rule map_of_unique) (use assms in \<open>auto simp: set_named_classes scope_ok_def\<close>)

lemma merged_classes:
  assumes "scope_ok sc" "omap_ok (sd_classes doc)"
  shows "omap_ok (sd_classes (MergeScope network sc doc)) \<and>
    map_of (sd_classes (MergeScope network sc doc)) n =
      (case sc_FindDeclaredClass sc n of Some k \<Rightarrow> Some (DescribeClass k (network n)) | None \<Rightarrow> map_of (sd_classes doc) n)"
  using omap.fold_assign[OF assms(2), of "named_classes network sc"] named_classes_lookup[OF assms(1), of network n]
  by (simp add: MergeScope_def map_add_def split: option.splits)

lemma dump_class:
  assumes "scope_ok server" "\<And>g. global = Some g \<Longrightarrow> scope_ok g"
  shows "map_of (sd_classes (dump_doc global server network b)) n = map_option (\<lambda>k. DescribeClass k (network n)) (live_class server global n)"
proof -
  define doc0 where "doc0 = \<lparr>sd_build = b, sd_classes = [], sd_enums = []\<rparr>"
  define doc1 where "doc1 = (case global of None \<Rightarrow> doc0 | Some g \<Rightarrow> MergeScope network g doc0)"
  have "omap_ok (sd_classes doc1) \<and>
    map_of (sd_classes doc1) n = map_option (\<lambda>k. DescribeClass k (network n)) (case global of None \<Rightarrow> None | Some g \<Rightarrow> sc_FindDeclaredClass g n)"
    using merged_classes[of _ doc0 network n] assms(2) by (auto simp: doc1_def doc0_def split: option.splits)
  moreover have "dump_doc global server network b = MergeScope network server doc1" by (cases global) (simp_all add: dump_doc_def doc1_def doc0_def Let_def)
  ultimately show ?thesis using merged_classes[OF assms(1), of doc1 network n] by (simp add: live_class_def split: option.splits)
qed

text \<open>A field as the generator takes it from the dump.\<close>

definition taken_from :: "SchemaDoc \<Rightarrow> FieldLayout \<Rightarrow> bool" where
  "taken_from doc want = (case map_of (sd_classes doc) (fl_Class want) of
     None \<Rightarrow> False
   | Some ci \<Rightarrow> (case find (\<lambda>f. fi_name f = fl_Field want) (ci_fields ci) of
       None \<Rightarrow> False
     | Some fi \<Rightarrow> fl_Offset want = fi_offset fi \<and> fl_Size want = fi_size fi))"

lemma taken_in_place:
  assumes "scope_ok server" "\<And>g. global = Some g \<Longrightarrow> scope_ok g" "taken_from (dump_doc global server network b) want"
  shows "field_in_place server global want"
proof -
  obtain k where k: "live_class server global (fl_Class want) = Some k"
    and f: "case find (\<lambda>f. fi_name f = fl_Field want) (ci_fields (DescribeClass k (network (fl_Class want)))) of
       None \<Rightarrow> False | Some fi \<Rightarrow> fl_Offset want = fi_offset fi \<and> fl_Size want = fi_size fi"
    using assms(3) dump_class[OF assms(1,2)] by (auto simp: taken_from_def split: option.splits)
  obtain x where x: "find (\<lambda>x. fd_name x = Some (fl_Field want)) (k_fields k) = Some x" "fl_Offset want = fd_offset x" "fl_Size want = field_size x"
    using f find_described[of "fl_Field want"] by (auto simp: DescribeClass_def DescribeField_def split: option.splits bind_splits)
  show ?thesis using k FindField_own[OF x(1)] x(2,3) by (simp add: field_in_place_def field_size_def split: option.splits)
qed

text \<open>
  C36: generating from the dump ends the drift. A layout whose fields are taken from the dump of a game, of its server classes and the global ones they override,
  passes the check on that game, whatever game the old layout came from; and a layout passes only if every field of it is in place.
\<close>

theorem dump_layout_verifies:
  assumes "ServerScope schema = Some server" "scope_ok server" "\<And>g. global_scope schema = Some g \<Longrightarrow> scope_ok g"
  shows "((\<forall>want \<in> set layout. taken_from (dump_doc (global_scope schema) server network b) want) \<longrightarrow> VerifySchemaLayout layout generatedFrom gameBuild schema = Inr ()) \<and>
    (VerifySchemaLayout layout generatedFrom gameBuild schema = Inr () \<longleftrightarrow> (\<forall>want \<in> set layout. field_in_place server (global_scope schema) want))"
  using assms(1) taken_in_place[OF assms(2,3)] by (auto simp: Verify_ok_iff drift_none_iff)

definition health_class :: klass where
  "health_class = Class (Some ''CBaseEntity'') 100 (Some (Class (Some ''CEntityInstance'') 48 None [])) [\<lparr>fd_name = Some ''m_iHealth'', fd_offset = 80, fd_type = Some (SchemaType (Some ''int32'') ''BUILTIN'' OtherKind (True, 4))\<rparr>]"

definition health_server :: type_scope where
  "health_server = \<lparr>sc_FindDeclaredClass = (\<lambda>n. if n = ''CBaseEntity'' then Some health_class else None), sc_classes = [None, Some health_class], sc_enums = []\<rparr>"

definition health_schema :: "schema_system option" where
  "health_schema = Some \<lparr>ss_ready = True, ss_server = Some health_server, ss_global = None\<rparr>"

definition health_field :: FieldLayout where
  "health_field = \<lparr>fl_Class = ''CBaseEntity'', fl_Field = ''m_iHealth'', fl_Offset = 80, fl_Size = 4\<rparr>"

theorem dump_layout_verifies_witness:
  "VerifySchemaLayout [health_field] ''1'' ''2'' health_schema = Inr () \<and>
   VerifySchemaLayout [health_field, health_field\<lparr>fl_Offset := 72\<rparr>] ''1'' ''2'' health_schema \<noteq> Inr ()"
proof -
  have a: "ServerScope health_schema = Some health_server" "\<And>g. global_scope health_schema = Some g \<Longrightarrow> scope_ok g"
    by (simp_all add: ServerScope_def global_scope_def health_schema_def)
  have ok: "scope_ok health_server" by (auto simp: scope_ok_def health_server_def health_class_def split: if_splits)
  have t: "taken_from (dump_doc (global_scope health_schema) health_server (\<lambda>n. None) ''2'') health_field" by code_simp
  have d: "\<not> field_in_place health_server (global_scope health_schema) (health_field\<lparr>fl_Offset := 72\<rparr>)" by code_simp
  show ?thesis
    using dump_layout_verifies[OF a(1) ok a(2), of "[health_field]" "\<lambda>n. None" "''2''" "''1''" "''2''"]
      dump_layout_verifies[OF a(1) ok a(2), of "[health_field, health_field\<lparr>fl_Offset := 72\<rparr>]" "\<lambda>n. None" "''2''" "''1''" "''2''"] t d by simp
qed

section \<open>The dump is written once\<close>

lemma find_sub_skip:
  assumes "\<And>i. i < length p \<Longrightarrow> \<not> StartsWith (drop i (p @ s)) sub" "StartsWith s sub"
  shows "find_sub sub (p @ s) = Some (length p)"
  using assms
proof (induction p)
  case Nil thus ?case by (subst find_sub.simps) simp
next
  case (Cons c p)
  have "find_sub sub (p @ s) = Some (length p)" using Cons.IH Cons.prems(1)[of "Suc _"] Cons.prems(2) by simp
  thus ?case using Cons.prems(1)[of 0] by (simp add: find_sub_Cons)
qed

lemma find_char: "c \<notin> set p \<Longrightarrow> find_sub [c] (p @ c # s) = Some (length p)"
  by (rule find_sub_skip) (auto simp: StartsWith_def nth_append Cons_nth_drop_Suc[symmetric] take_Suc_conv_app_nth)

lemma DumpedBuild_reads:
  assumes "text = p @ build_key @ w @ CHR 0x22 # build @ CHR 0x22 # rest" "CHR 0x22 \<notin> set w" "CHR 0x22 \<notin> set build"
    "length (p @ build_key @ w @ CHR 0x22 # build @ [CHR 0x22]) \<le> 256" "CHR 0x22 \<notin> set p"
  shows "DumpedBuild (Some text) = build"
proof -
  obtain r where r: "take 256 text = p @ build_key @ w @ CHR 0x22 # build @ CHR 0x22 # r"
  proof -
    let ?front = "p @ build_key @ w @ CHR 0x22 # build @ [CHR 0x22]"
    have "text = ?front @ rest" using assms(1) by simp
    hence "take 256 text = take 256 ?front @ take (256 - length ?front) rest" by (simp only: take_append)
    hence "take 256 text = ?front @ take (256 - length ?front) rest" using take_all[OF assms(4)] by simp
    thus ?thesis using that by simp
  qed
  have k: "find_sub build_key (take 256 text) = Some (length p)"
    unfolding r
  proof (rule find_sub_skip)
    fix i assume i: "i < length p"
    let ?s = "p @ build_key @ w @ CHR 0x22 # build @ CHR 0x22 # r"
    have "?s ! i \<noteq> CHR 0x22" using i assms(5) by (simp add: nth_append) (metis nth_mem)
    moreover have "drop i ?s = ?s ! i # drop (Suc i) ?s" using i by (intro Cons_nth_drop_Suc[symmetric]) simp
    ultimately show "\<not> StartsWith (drop i ?s) build_key" by (simp add: StartsWith_def build_key_def)
  qed (simp add: StartsWith_def)
  have o: "find_from (CHR 0x22) (length p + length build_key) (take 256 text) = Some (length p + length build_key + length w)"
    unfolding r find_from_def using find_char[OF assms(2)] by simp
  have c: "find_from (CHR 0x22) (length p + length build_key + length w + 1) (take 256 text) = Some (length p + length build_key + length w + 1 + length build)"
    unfolding r find_from_def using find_char[OF assms(3), of r] by simp
  show ?thesis using k o c r by (simp add: DumpedBuild_def Let_def)
qed

text \<open>The writer puts the build first, within the part that is read back.\<close>

definition stamps_build :: "(SchemaDoc \<Rightarrow> string) \<Rightarrow> string \<Rightarrow> bool" where
  "stamps_build WritePretty build \<longleftrightarrow> (\<forall>doc. sd_build doc = build \<longrightarrow> DumpedBuild (Some (WritePretty doc @ [CHR 0x0A])) = build \<and> WritePretty doc \<noteq> [])"

lemma dump_doc_build: "sd_build (dump_doc global server network b) = b"
  by (simp add: dump_doc_def MergeScope_def Let_def split: option.splits)

text \<open>A dump that reached the disk carries the game's build, and no later start of any process on that game writes over it.\<close>

lemma dump_kept:
  assumes "stamps_build WritePretty gameBuild" "\<And>old text. disk old text = (None, Some text)"
    "d' = WriteSchemaDump WritePretty disk gameBuild schema entities d" "du_file d' \<noteq> du_file d"
  shows "DumpedBuild (du_file d') = gameBuild \<and> du_file (WriteSchemaDump WritePretty disk' gameBuild schema' entities' \<lparr>du_attempted = again, du_file = du_file d'\<rparr>) = du_file d'"
proof -
  obtain doc where "du_file d' = Some (WritePretty doc @ [CHR 0x0A])" "sd_build doc = gameBuild"
    using assms dump_doc_build by (auto simp: WriteSchemaDump_def WriteDumpFile_def Let_def stamps_build_def split: option.splits if_splits)
  hence b: "DumpedBuild (du_file d') = gameBuild" using assms(1) by (auto simp: stamps_build_def)
  show ?thesis using b by (simp add: WriteSchemaDump_def split: option.splits)
qed

section \<open>The host's verdict\<close>

text \<open>The service over a process: every look at the engine's schema is recorded; in between the host does other things and keeps the verdict.\<close>

inductive schema_run :: "check_env \<Rightarrow> schema_system option list \<Rightarrow> ('f, 'i) SchemaCheck \<Rightarrow> bool" for env where
  sr_new: "schema_run env [schema] (SchemaCheck_new env schema h d)"
| sr_startup: "schema_run env seen s \<Longrightarrow> schema_run env (schema # seen) (sk_OnServerStartup WritePretty disk env schema entities s)"
| sr_host: "schema_run env seen s \<Longrightarrow> h_SchemaLayoutStamp h = h_SchemaLayoutStamp (sk_registry s) \<Longrightarrow> h_SchemaVerified h = h_SchemaVerified (sk_registry s) \<Longrightarrow>
    schema_run env seen (s\<lparr>sk_registry := h\<rparr>)"

definition verdict_ok :: "check_env \<Rightarrow> schema_system option list \<Rightarrow> ('f, 'i) SchemaCheck \<Rightarrow> bool" where
  "verdict_ok env seen s \<longleftrightarrow> h_SchemaLayoutStamp (sk_registry s) = cv_stamp env \<and>
     (h_SchemaVerified (sk_registry s) \<longrightarrow> (\<exists>schema \<in> set seen. VerifySchemaLayout (cv_layout env) (cv_generatedFrom env) (cv_gameBuild env) schema = Inr ())) \<and>
     (\<not> sk_schemaLoaded s \<longrightarrow> (\<forall>schema \<in> set seen. ServerScope schema = None))"

lemma Check_ok:
  assumes "\<forall>x \<in> set seen. ServerScope x = None"
  shows "verdict_ok env (schema # seen) (Check env schema s)"
  using assms by (auto simp: verdict_ok_def Check_def Let_def SetSchemaLayout_def VerifySchemaLayout_def Error_defs split: sum.splits option.splits if_splits)

lemma verdict_more: "verdict_ok env seen s \<Longrightarrow> sk_schemaLoaded s \<Longrightarrow> verdict_ok env (schema # seen) s"
  by (auto simp: verdict_ok_def)

lemma verdict_dump: "verdict_ok env seen (s\<lparr>sk_dump := d\<rparr>) = verdict_ok env seen s"
  by (simp add: verdict_ok_def)

lemma schema_run_verdict: "schema_run env seen s \<Longrightarrow> verdict_ok env seen s"
proof (induction rule: schema_run.induct)
  case (sr_new schema h d)
  show ?case using Check_ok[of "[]"] by (simp add: SchemaCheck_new_def)
next
  case (sr_startup seen s schema WritePretty disk entities)
  show ?case
  proof (cases "sk_schemaLoaded s")
    case True thus ?thesis using verdict_more[OF sr_startup.IH] by (simp add: sk_OnServerStartup_def verdict_dump)
  next
    case False
    hence "\<forall>x \<in> set seen. ServerScope x = None" using sr_startup.IH by (simp add: verdict_ok_def)
    thus ?thesis using False Check_ok by (simp add: sk_OnServerStartup_def Let_def verdict_dump)
  qed
next
  case (sr_host seen s h)
  thus ?case by (simp add: verdict_ok_def)
qed

end
