(* ===== verification/PluginModule.thy ===== *)
theory PluginModule
  imports SchemaCheck ConVarQueries
begin

text \<open>
  The plugin side of a load: the module the host attaches, the runtime it builds, the plugin's own code, and what is taken down when any of it fails. Source:
  \<^verbatim>\<open>src/App/Plugin.cpp\<close>, \<^verbatim>\<open>PluginChat.cpp\<close>, \<^verbatim>\<open>ClientLanguage.cpp\<close>, \<^verbatim>\<open>StatusService.cpp\<close>,
  \<^verbatim>\<open>src/Core/LoadReport.cpp\<close>, \<^verbatim>\<open>src/Runtime.cpp\<close> and their headers. The plugin's constructor and its Load are arguments and may
  throw. Objects are there or not; a trace records when each is built and destroyed.
\<close>

section \<open>The load report\<close>

record FailedCheck =
  fc_Name :: string
  fc_Reason :: string
  fc_Required :: bool

type_synonym LoadReport = "FailedCheck list"

definition lr_Record :: "string \<Rightarrow> status \<Rightarrow> bool \<Rightarrow> LoadReport \<Rightarrow> bool \<times> LoadReport" where
  "lr_Record name result required r = (case result of
     Inr _ \<Rightarrow> (True, r)
   | Inl e \<Rightarrow> (False, r @ [\<lparr>fc_Name = name, fc_Reason = err_Detail e, fc_Required = required\<rparr>]))"

definition lr_Optional :: "string \<Rightarrow> status \<Rightarrow> LoadReport \<Rightarrow> bool \<times> LoadReport" where
  "lr_Optional name result = lr_Record name result False"

definition lr_Required :: "string \<Rightarrow> status \<Rightarrow> LoadReport \<Rightarrow> bool \<times> LoadReport" where
  "lr_Required name result = lr_Record name result True"

definition lr_Summary :: "int \<Rightarrow> LoadReport \<Rightarrow> string" where
  "lr_Summary elapsed r = ''Load took '' @ to_string_int elapsed @ '' ms'' @
     (if r = [] then []
      else ''; '' @ to_string (length r) @ '' failed:'' @
           concat (map (\<lambda>f. CHR 0x0A # ''  '' @ (if fc_Required f then ''required'' else ''optional'') @ '' '' @ fc_Name f @ '': '' @ fc_Reason f) r))"

definition AbortReason :: "LoadReport \<Rightarrow> string" where
  "AbortReason r = (case find fc_Required r of
     None \<Rightarrow> []
   | Some f \<Rightarrow> if fc_Reason f = [] then fc_Name f else fc_Name f @ '': '' @ fc_Reason f)"

lemma AbortReason_none: "AbortReason r = [] \<longleftrightarrow> (\<forall>f. find fc_Required r = Some f \<longrightarrow> fc_Name f = [] \<and> fc_Reason f = [])"
  by (auto simp: AbortReason_def split: option.splits)

section \<open>The runtime's own checks\<close>

text \<open>What each service answers when asked whether it can work.\<close>

record services =
  sv_Messages :: status
  sv_GameData :: status
  sv_Entities :: status
  sv_ConVars :: status
  sv_GameEvents :: status
  sv_ClientConVars :: status
  sv_Movement :: status
  sv_Teleport :: status
  sv_TextMessages :: status
  sv_Visibility :: status
  sv_Trace :: status
  sv_Screens :: status
  sv_Damage :: status

definition CheckServices :: "services \<Rightarrow> LoadReport \<Rightarrow> LoadReport" where
  "CheckServices sv r =
     fold (\<lambda>(name, result) r. snd (lr_Optional name result r))
       [(''GameData'', sv_GameData sv), (''Entities'', sv_Entities sv), (''ConVars'', sv_ConVars sv), (''GameEvents'', sv_GameEvents sv),
        (''ClientConVars'', sv_ClientConVars sv), (''Movement'', sv_Movement sv), (''Teleport'', sv_Teleport sv), (''TextMessages'', sv_TextMessages sv),
        (''Visibility'', sv_Visibility sv), (''Trace'', sv_Trace sv), (''Screens'', sv_Screens sv), (''Damage'', sv_Damage sv)]
       (snd (lr_Required ''Messages'' (sv_Messages sv) r))"

text \<open>Only messages are required: any other service may fail and the plugin still loads.\<close>

lemma fold_optional: "find fc_Required (fold (\<lambda>(name, result) r. snd (lr_Optional name result r)) xs r) = find fc_Required r"
proof (induction xs arbitrary: r)
  case (Cons x xs)
  have "find fc_Required (snd (lr_Optional n s r)) = find fc_Required r" for n s
    by (cases s) (simp_all add: lr_Optional_def lr_Record_def find_append split: option.splits)
  thus ?case using Cons by (cases x) simp
qed simp

lemma CheckServices_required: "AbortReason (CheckServices sv []) = [] \<longleftrightarrow> sv_Messages sv = Inr ()"
  by (cases "sv_Messages sv") (simp_all add: AbortReason_def CheckServices_def fold_optional lr_Required_def lr_Record_def del: fold.simps)

text \<open>Who may do what is asked of the plugin that publishes permissions; without one, nobody may.\<close>

definition HasPermission :: "(int \<Rightarrow> string \<Rightarrow> bool) option \<Rightarrow> int \<Rightarrow> string \<Rightarrow> bool" where
  "HasPermission permissions steamId permission = (case permissions of Some p \<Rightarrow> p steamId permission | None \<Rightarrow> False)"

section \<open>The module\<close>

text \<open>A call into the plugin returns, or throws: a standard exception with its message, or anything else.\<close>

datatype 'a outcome = Returns 'a | Throws "string option"

datatype step = BuiltUnsafe | BuiltLanguages | BuiltRuntime | BuiltPlugin | Subscribed | RanLoad | Logged string |
  RemovedCommands | DestroyedPlugin | DroppedHostEvents | DestroyedRuntime | DestroyedLanguages | DestroyedUnsafe

datatype host_event = OnFrame | OnServerStartup | OnClientConnecting | OnClientConnected | OnClientDisconnected | OnClientFullyConnected |
  OnClientSettingsChanged | OnConsoleCommand | OnCheckTransmit | OnBuildGameSessionManifest

text \<open>The runtime is its load report, when it is there.\<close>

record PluginModule =
  pm_host :: bool
  pm_unsafe :: bool
  pm_languages :: bool
  pm_runtime :: "LoadReport option"
  pm_hostEvents :: "host_event list"
  pm_plugin :: bool
  pm_status :: string
  pm_trace :: "step list"

definition done_step :: "step \<Rightarrow> PluginModule \<Rightarrow> PluginModule" where
  "done_step x s = s\<lparr>pm_trace := pm_trace s @ [x]\<rparr>"

definition MakePluginModule :: PluginModule where
  "MakePluginModule = \<lparr>pm_host = False, pm_unsafe = False, pm_languages = False, pm_runtime = None, pm_hostEvents = [], pm_plugin = False, pm_status = [], pm_trace = []\<rparr>"

datatype side = Server | EngineSide
datatype engine_interface = ServerGameDLL | ServerGameClients | NetworkServerService | GameEntities | VEngineServer | GameEventSystem | NetworkMessages | SchemaSystem | CVar | GameResourceService

definition interfaces :: "(engine_interface \<times> side) list" where
  "interfaces = [(ServerGameDLL, Server), (ServerGameClients, Server), (NetworkServerService, EngineSide), (GameEntities, Server), (VEngineServer, EngineSide),
     (GameEventSystem, EngineSide), (NetworkMessages, EngineSide), (SchemaSystem, EngineSide), (CVar, EngineSide), (GameResourceService, EngineSide)]"

text \<open>What a load meets: the host's verdict and this build's stamp, the interfaces the host finds and the versions asked for, the gamedata, and the plugin.\<close>

record attach_env =
  ae_HostStamp :: nat
  ae_HostVerified :: bool
  ae_Stamp :: nat
  ae_Version :: "engine_interface \<Rightarrow> string"
  ae_Lookup :: "side \<Rightarrow> string \<Rightarrow> bool"
  ae_Hex :: "nat \<Rightarrow> string"
  ae_Runtime :: "LoadReport outcome"
  ae_Factory :: "LoadReport \<Rightarrow> LoadReport outcome"
  ae_Load :: "LoadReport \<Rightarrow> (bool \<times> LoadReport) outcome"
  ae_Elapsed :: int

definition Resolve_interface :: "attach_env \<Rightarrow> engine_interface \<times> side \<Rightarrow> status" where
  "Resolve_interface env i = (if ae_Lookup env (snd i) (ae_Version env (fst i)) then Inr ()
     else Inl (Error_NotReady (''Could not find interface: '' @ ae_Version env (fst i))))"

definition OpenUnsafe :: "attach_env \<Rightarrow> status" where
  "OpenUnsafe env = (case find isl (map (Resolve_interface env) interfaces) of Some s \<Rightarrow> s | None \<Rightarrow> Inr ())"

definition CheckSchema :: "attach_env \<Rightarrow> status" where
  "CheckSchema env =
     (if ae_HostStamp env \<noteq> ae_Stamp env
      then Inl (Error_Invalid (''this plugin was built against another schema layout (plugin '' @ ae_Hex env (ae_Stamp env) @ '', host '' @ ae_Hex env (ae_HostStamp env) @ ''); '' @
                               ''rebuild it against this VoltMod''))
      else if \<not> ae_HostVerified env then Inl (Error_Invalid ''the host found schema drift; its log names every field'')
      else Inr ())"

definition pm_Shutdown :: "PluginModule \<Rightarrow> PluginModule" where
  "pm_Shutdown s =
     (let s = (if pm_runtime s \<noteq> None then done_step RemovedCommands s else s);
          s = (if pm_plugin s then done_step DestroyedPlugin (s\<lparr>pm_plugin := False\<rparr>) else s);
          s = (if pm_hostEvents s \<noteq> [] then done_step DroppedHostEvents (s\<lparr>pm_hostEvents := []\<rparr>) else s);
          s = (if pm_runtime s \<noteq> None then done_step DestroyedRuntime (s\<lparr>pm_runtime := None\<rparr>) else s);
          s = (if pm_languages s then done_step DestroyedLanguages (s\<lparr>pm_languages := False\<rparr>) else s)
      in if pm_unsafe s then done_step DestroyedUnsafe (s\<lparr>pm_unsafe := False\<rparr>) else s)"

definition pm_Refuse :: "attach_env \<Rightarrow> string \<Rightarrow> string option \<Rightarrow> PluginModule \<Rightarrow> string option \<times> PluginModule" where
  "pm_Refuse env reason error s =
     (let s = (case pm_runtime s of None \<Rightarrow> s | Some r \<Rightarrow> done_step (Logged (lr_Summary (ae_Elapsed env) r)) s)
      in (CopyToBuffer error reason, pm_Shutdown s))"

definition SubscribeHostEvents :: "PluginModule \<Rightarrow> PluginModule" where
  "SubscribeHostEvents s = done_step Subscribed (s\<lparr>pm_hostEvents := pm_hostEvents s @
     [OnFrame, OnServerStartup, OnClientConnecting, OnClientConnected, OnClientDisconnected, OnClientFullyConnected,
      OnClientSettingsChanged, OnConsoleCommand, OnCheckTransmit, OnBuildGameSessionManifest]\<rparr>)"

text \<open>The answer with the error buffer, or the exception that left it.\<close>

definition AttachImpl :: "attach_env \<Rightarrow> string option \<Rightarrow> PluginModule \<Rightarrow> (bool \<times> string option) outcome \<times> PluginModule" where
  "AttachImpl env error s =
     (let refuse = (\<lambda>reason s. let (error, s) = pm_Refuse env reason error s in (Returns (False, error), s));
          s = s\<lparr>pm_host := True\<rparr>
      in case CheckSchema env of Inl e \<Rightarrow> refuse (''SchemaLayout: '' @ err_Detail e) s | Inr _ \<Rightarrow>
         (case OpenUnsafe env of Inl e \<Rightarrow> refuse (err_Detail e) s | Inr _ \<Rightarrow>
         (let s = done_step BuiltLanguages ((done_step BuiltUnsafe (s\<lparr>pm_unsafe := True\<rparr>))\<lparr>pm_languages := True\<rparr>)
          in case ae_Runtime env of Throws w \<Rightarrow> (Throws w, s) | Returns report \<Rightarrow>
         (let s = done_step BuiltRuntime (s\<lparr>pm_runtime := Some report\<rparr>)
          in case ae_Factory env report of Throws w \<Rightarrow> (Throws w, s) | Returns report \<Rightarrow>
         (let s = done_step BuiltPlugin (s\<lparr>pm_plugin := True, pm_runtime := Some report\<rparr>)
          in if AbortReason report \<noteq> [] then refuse (AbortReason report) s
             else let s = done_step RanLoad (SubscribeHostEvents s)
                  in case ae_Load env report of Throws w \<Rightarrow> (Throws w, s) | Returns (loaded, report) \<Rightarrow>
                    (let s = s\<lparr>pm_runtime := Some report\<rparr>
                     in if \<not> loaded then refuse (if AbortReason report = [] then ''Load returned false'' else AbortReason report) s
                        else (Returns (True, error), done_step (Logged (lr_Summary (ae_Elapsed env) report)) s)))))))"

definition Attach :: "attach_env \<Rightarrow> string option \<Rightarrow> PluginModule \<Rightarrow> bool \<times> string option \<times> PluginModule" where
  "Attach env error s = (case AttachImpl env error s of
     (Returns (loaded, error), s) \<Rightarrow> (loaded, error, if loaded then s else s\<lparr>pm_host := False\<rparr>)
   | (Throws (Some what), s) \<Rightarrow> (False, CopyToBuffer error what, (pm_Shutdown s)\<lparr>pm_host := False\<rparr>)
   | (Throws None, s) \<Rightarrow> (False, CopyToBuffer error ''plugin threw a non-standard exception during load'', (pm_Shutdown s)\<lparr>pm_host := False\<rparr>))"

definition Detach :: "PluginModule \<Rightarrow> PluginModule" where
  "Detach s = (pm_Shutdown s)\<lparr>pm_host := False\<rparr>"

definition StatusJson :: "string outcome \<Rightarrow> PluginModule \<Rightarrow> string \<times> PluginModule" where
  "StatusJson BuildJson s = (if pm_runtime s = None then (''{}'', s\<lparr>pm_status := ''{}''\<rparr>)
     else case BuildJson of Returns json \<Rightarrow> (json, s\<lparr>pm_status := json\<rparr>) | Throws _ \<Rightarrow> (''{}'', s))"

text \<open>Nothing unwinds into the host: an event handler that throws answers its type's empty value.\<close>

definition HostCallback_Call :: "'r \<Rightarrow> 'r outcome \<Rightarrow> 'r" where
  "HostCallback_Call blank member = (case member of Returns r \<Rightarrow> r | Throws _ \<Rightarrow> blank)"

section \<open>A load leaves everything or nothing\<close>

definition detached :: "PluginModule \<Rightarrow> bool" where
  "detached s \<longleftrightarrow> \<not> pm_host s \<and> \<not> pm_unsafe s \<and> \<not> pm_languages s \<and> pm_runtime s = None \<and> pm_hostEvents s = [] \<and> \<not> pm_plugin s"

definition attached :: "PluginModule \<Rightarrow> bool" where
  "attached s \<longleftrightarrow> pm_host s \<and> pm_unsafe s \<and> pm_languages s \<and> pm_runtime s \<noteq> None \<and> pm_plugin s \<and>
     pm_hostEvents s = [OnFrame, OnServerStartup, OnClientConnecting, OnClientConnected, OnClientDisconnected, OnClientFullyConnected,
       OnClientSettingsChanged, OnConsoleCommand, OnCheckTransmit, OnBuildGameSessionManifest]"

text \<open>What a load ends with: success, or the text the host is given.\<close>

definition load_verdict :: "attach_env \<Rightarrow> string option" where
  "load_verdict env = (case CheckSchema env of Inl e \<Rightarrow> Some (''SchemaLayout: '' @ err_Detail e) | Inr _ \<Rightarrow>
     (case OpenUnsafe env of Inl e \<Rightarrow> Some (err_Detail e) | Inr _ \<Rightarrow>
     (let thrown = (\<lambda>w. Some (case w of Some what \<Rightarrow> what | None \<Rightarrow> ''plugin threw a non-standard exception during load''))
      in case ae_Runtime env of Throws w \<Rightarrow> thrown w | Returns r \<Rightarrow>
     (case ae_Factory env r of Throws w \<Rightarrow> thrown w | Returns r \<Rightarrow>
      if AbortReason r \<noteq> [] then Some (AbortReason r)
      else case ae_Load env r of Throws w \<Rightarrow> thrown w | Returns (True, _) \<Rightarrow> None
         | Returns (False, r) \<Rightarrow> Some (if AbortReason r = [] then ''Load returned false'' else AbortReason r)))))"

lemma pm_Shutdown_detached:
  "detached (pm_Shutdown s\<lparr>pm_host := False\<rparr>)"
  by (simp add: detached_def pm_Shutdown_def done_step_def Let_def)

lemma pm_Refuse_simps [simp]: "fst (pm_Refuse env reason error s) = CopyToBuffer error reason" "detached (snd (pm_Refuse env reason error s)\<lparr>pm_host := False\<rparr>)"
  by (simp_all add: pm_Refuse_def pm_Shutdown_detached split: option.splits)

lemmas attach_defs = AttachImpl_def Attach_def load_verdict_def Let_def case_prod_beta

lemma Attach_verdict:
  assumes "detached s"
  shows "fst (Attach env error s) \<longleftrightarrow> load_verdict env = None"
    and "load_verdict env = None \<Longrightarrow> fst (snd (Attach env error s)) = error \<and> attached (snd (snd (Attach env error s)))"
    and "load_verdict env = Some reason \<Longrightarrow> fst (snd (Attach env error s)) = CopyToBuffer error reason \<and> detached (snd (snd (Attach env error s)))"
proof -
  show "fst (Attach env error s) \<longleftrightarrow> load_verdict env = None"
    by (auto simp: attach_defs split: sum.splits outcome.splits option.splits bool.splits)
  show "load_verdict env = None \<Longrightarrow> fst (snd (Attach env error s)) = error \<and> attached (snd (snd (Attach env error s)))"
    using assms by (auto simp: attach_defs attached_def detached_def SubscribeHostEvents_def done_step_def split: sum.splits outcome.splits option.splits if_splits bool.splits)
  show "load_verdict env = Some reason \<Longrightarrow> fst (snd (Attach env error s)) = CopyToBuffer error reason \<and> detached (snd (snd (Attach env error s)))"
    by (auto simp: attach_defs pm_Shutdown_detached split: sum.splits outcome.splits option.splits if_splits bool.splits)
qed

section \<open>What lives when\<close>

text \<open>The objects of a load; \<open>CommandsOf\<close> stands for the plugin's commands, which can be run from the time its runtime is there until they are removed.\<close>

datatype obj = UnsafeOf | LanguagesOf | RuntimeOf | CommandsOf | PluginOf | EventsOf

text \<open>What each step needs alive and needs gone, and what it leaves; nothing, when it is out of order.\<close>

fun life_step :: "step \<Rightarrow> obj set \<Rightarrow> obj set option" where
  "life_step BuiltUnsafe L = (if L = {} then Some {UnsafeOf} else None)"
| "life_step BuiltLanguages L = (if L = {UnsafeOf} then Some {UnsafeOf, LanguagesOf} else None)"
| "life_step BuiltRuntime L = (if L = {UnsafeOf, LanguagesOf} then Some {UnsafeOf, LanguagesOf, RuntimeOf, CommandsOf} else None)"
| "life_step BuiltPlugin L = (if RuntimeOf \<in> L \<and> PluginOf \<notin> L then Some (insert PluginOf L) else None)"
| "life_step Subscribed L = (if RuntimeOf \<in> L \<and> PluginOf \<in> L \<and> EventsOf \<notin> L then Some (insert EventsOf L) else None)"
| "life_step RanLoad L = (if RuntimeOf \<in> L \<and> PluginOf \<in> L then Some L else None)"
| "life_step (Logged summary) L = (if RuntimeOf \<in> L then Some L else None)"
| "life_step RemovedCommands L = (if RuntimeOf \<in> L then Some (L - {CommandsOf}) else None)"
| "life_step DestroyedPlugin L = (if PluginOf \<in> L \<and> RuntimeOf \<in> L \<and> CommandsOf \<notin> L then Some (L - {PluginOf}) else None)"
| "life_step DroppedHostEvents L = (if EventsOf \<in> L \<and> RuntimeOf \<in> L then Some (L - {EventsOf}) else None)"
| "life_step DestroyedRuntime L = (if RuntimeOf \<in> L \<and> L \<subseteq> {UnsafeOf, LanguagesOf, RuntimeOf} then Some (L - {RuntimeOf}) else None)"
| "life_step DestroyedLanguages L = (if LanguagesOf \<in> L \<and> RuntimeOf \<notin> L then Some (L - {LanguagesOf}) else None)"
| "life_step DestroyedUnsafe L = (if L = {UnsafeOf} then Some {} else None)"

definition lives_of :: "step list \<Rightarrow> obj set option" where
  "lives_of trace = fold (\<lambda>x L. Option.bind L (life_step x)) trace (Some {})"

definition objects :: "PluginModule \<Rightarrow> obj set" where
  "objects s = (if pm_unsafe s then {UnsafeOf} else {}) \<union> (if pm_languages s then {LanguagesOf} else {}) \<union>
     (if pm_runtime s \<noteq> None then {RuntimeOf, CommandsOf} else {}) \<union> (if pm_plugin s then {PluginOf} else {}) \<union> (if pm_hostEvents s \<noteq> [] then {EventsOf} else {})"

definition module_ok :: "PluginModule \<Rightarrow> bool" where
  "module_ok s \<longleftrightarrow> lives_of (pm_trace s) = Some (objects s) \<and> (pm_languages s \<longrightarrow> pm_unsafe s) \<and> (pm_runtime s \<noteq> None \<longrightarrow> pm_languages s) \<and>
     (pm_plugin s \<longrightarrow> pm_runtime s \<noteq> None) \<and> (pm_hostEvents s \<noteq> [] \<longrightarrow> pm_plugin s)"

lemma lives_snoc [simp]: "lives_of (trace @ [x]) = Option.bind (lives_of trace) (life_step x)"
  by (simp add: lives_of_def)

lemma lives_done [simp]: "lives_of (pm_trace (done_step x s)) = Option.bind (lives_of (pm_trace s)) (life_step x)"
  by (simp add: done_step_def)

lemma done_step_fields [simp]:
  "pm_host (done_step x s) = pm_host s" "pm_unsafe (done_step x s) = pm_unsafe s" "pm_languages (done_step x s) = pm_languages s"
  "pm_runtime (done_step x s) = pm_runtime s" "pm_hostEvents (done_step x s) = pm_hostEvents s" "pm_plugin (done_step x s) = pm_plugin s"
  by (simp_all add: done_step_def)

lemma pm_Shutdown_lives:
  assumes "module_ok s"
  shows "module_ok (pm_Shutdown s) \<and> objects (pm_Shutdown s) = {} \<and> pm_host (pm_Shutdown s) = pm_host s"
proof -
  define s1 where "s1 = (if pm_runtime s \<noteq> None then done_step RemovedCommands s else s)"
  define s2 where "s2 = (if pm_plugin s1 then done_step DestroyedPlugin (s1\<lparr>pm_plugin := False\<rparr>) else s1)"
  define s3 where "s3 = (if pm_hostEvents s2 \<noteq> [] then done_step DroppedHostEvents (s2\<lparr>pm_hostEvents := []\<rparr>) else s2)"
  define s4 where "s4 = (if pm_runtime s3 \<noteq> None then done_step DestroyedRuntime (s3\<lparr>pm_runtime := None\<rparr>) else s3)"
  define s5 where "s5 = (if pm_languages s4 then done_step DestroyedLanguages (s4\<lparr>pm_languages := False\<rparr>) else s4)"
  define s6 where "s6 = (if pm_unsafe s5 then done_step DestroyedUnsafe (s5\<lparr>pm_unsafe := False\<rparr>) else s5)"
  have e: "pm_Shutdown s = s6" by (simp only: pm_Shutdown_def Let_def s6_def s5_def s4_def s3_def s2_def s1_def)
  have shape: "pm_languages s \<longrightarrow> pm_unsafe s" "pm_runtime s \<noteq> None \<longrightarrow> pm_languages s" "pm_plugin s \<longrightarrow> pm_runtime s \<noteq> None" "pm_hostEvents s \<noteq> [] \<longrightarrow> pm_plugin s"
    and l: "lives_of (pm_trace s) = Some (objects s)" using assms by (simp_all add: module_ok_def)
  have f1: "pm_plugin s1 = pm_plugin s" "pm_hostEvents s1 = pm_hostEvents s" "pm_runtime s1 = pm_runtime s" "pm_languages s1 = pm_languages s" "pm_unsafe s1 = pm_unsafe s" "pm_host s1 = pm_host s"
    by (simp_all add: s1_def)
  have f2: "\<not> pm_plugin s2" "pm_hostEvents s2 = pm_hostEvents s" "pm_runtime s2 = pm_runtime s" "pm_languages s2 = pm_languages s" "pm_unsafe s2 = pm_unsafe s" "pm_host s2 = pm_host s"
    using f1 by (simp_all add: s2_def)
  have f3: "\<not> pm_plugin s3" "pm_hostEvents s3 = []" "pm_runtime s3 = pm_runtime s" "pm_languages s3 = pm_languages s" "pm_unsafe s3 = pm_unsafe s" "pm_host s3 = pm_host s"
    using f2 by (simp_all add: s3_def)
  have f4: "\<not> pm_plugin s4" "pm_hostEvents s4 = []" "pm_runtime s4 = None" "pm_languages s4 = pm_languages s" "pm_unsafe s4 = pm_unsafe s" "pm_host s4 = pm_host s"
    using f3 by (simp_all add: s4_def)
  have f5: "\<not> pm_plugin s5" "pm_hostEvents s5 = []" "pm_runtime s5 = None" "\<not> pm_languages s5" "pm_unsafe s5 = pm_unsafe s" "pm_host s5 = pm_host s"
    using f4 by (simp_all add: s5_def)
  have f6: "\<not> pm_plugin s6" "pm_hostEvents s6 = []" "pm_runtime s6 = None" "\<not> pm_languages s6" "\<not> pm_unsafe s6" "pm_host s6 = pm_host s"
    using f5 by (simp_all add: s6_def)
  have l1: "lives_of (pm_trace s1) = Some (objects s - {CommandsOf})" using l by (auto simp: s1_def objects_def)
  have "lives_of (pm_trace s2) = Some (objects s - {CommandsOf, PluginOf})"
    using l1 f1 shape(3) by (cases "pm_plugin s") (auto simp: s2_def objects_def)
  hence "lives_of (pm_trace s3) = Some (objects s - {CommandsOf, PluginOf, EventsOf})"
    using f2 shape(3,4) by (cases "pm_hostEvents s = []") (auto simp: s3_def objects_def)
  hence "lives_of (pm_trace s4) = Some (objects s - {CommandsOf, PluginOf, EventsOf, RuntimeOf})"
    using f3 by (cases "pm_runtime s") (auto simp: s4_def objects_def)
  hence "lives_of (pm_trace s5) = Some (if pm_unsafe s then {UnsafeOf} else {})"
    using f4 shape(1) by (cases "pm_languages s") (auto simp: s5_def objects_def)
  hence "lives_of (pm_trace s6) = Some {}" using f5 by (cases "pm_unsafe s") (auto simp: s6_def)
  thus ?thesis unfolding e using f6 by (simp add: module_ok_def objects_def)
qed

lemma module_ok_host [simp]: "module_ok (s\<lparr>pm_host := b\<rparr>) = module_ok s"
  by (simp add: module_ok_def objects_def)

lemma module_ok_log: "module_ok s \<Longrightarrow> pm_runtime s \<noteq> None \<Longrightarrow> module_ok (done_step (Logged l) s)"
  by (simp add: module_ok_def objects_def)

lemma pm_Refuse_lives: "module_ok s \<Longrightarrow> module_ok (snd (pm_Refuse env reason error s))"
  by (cases "pm_runtime s") (simp_all add: pm_Refuse_def pm_Shutdown_lives module_ok_log)

text \<open>Each stage of a load leaves the module as the stages before built it.\<close>

definition stage :: "PluginModule \<Rightarrow> bool \<Rightarrow> bool \<Rightarrow> bool \<Rightarrow> bool \<Rightarrow> bool" where
  "stage s unsafe runtime plugin events \<longleftrightarrow> module_ok s \<and> pm_unsafe s = unsafe \<and> pm_languages s = unsafe \<and> (pm_runtime s \<noteq> None) = runtime \<and>
     pm_plugin s = plugin \<and> (pm_hostEvents s \<noteq> []) = events"

lemma stage_unsafe: "stage s False False False False \<Longrightarrow> stage ((done_step BuiltLanguages ((done_step BuiltUnsafe (s\<lparr>pm_unsafe := True\<rparr>))\<lparr>pm_languages := True\<rparr>))) True False False False"
  by (auto simp: stage_def module_ok_def objects_def)

lemma stage_runtime: "stage s True False False False \<Longrightarrow> stage (done_step BuiltRuntime (s\<lparr>pm_runtime := Some r\<rparr>)) True True False False"
  by (auto simp: stage_def module_ok_def objects_def)

lemma stage_plugin: "stage s True True False False \<Longrightarrow> stage (done_step BuiltPlugin (s\<lparr>pm_plugin := True, pm_runtime := Some r\<rparr>)) True True True False"
  by (auto simp: stage_def module_ok_def objects_def)

lemma stage_load: "stage s True True True False \<Longrightarrow> stage (done_step RanLoad (SubscribeHostEvents s)) True True True True"
  by (auto simp: stage_def module_ok_def objects_def SubscribeHostEvents_def)

lemma stage_loaded: "stage s True True True True \<Longrightarrow> stage (done_step (Logged l) (s\<lparr>pm_runtime := Some r\<rparr>)) True True True True \<and> stage (s\<lparr>pm_runtime := Some r\<rparr>) True True True True"
  by (auto simp: stage_def module_ok_def objects_def)

lemma stage_start: "module_ok s \<Longrightarrow> detached s \<Longrightarrow> stage (s\<lparr>pm_host := True\<rparr>) False False False False"
  by (simp add: stage_def detached_def)

lemma AttachImpl_ok:
  assumes "module_ok s" "detached s"
  shows "module_ok (snd (AttachImpl env error s))"
proof -
  define s0 where "s0 = s\<lparr>pm_host := True\<rparr>"
  define s1 where "s1 = done_step BuiltLanguages ((done_step BuiltUnsafe (s0\<lparr>pm_unsafe := True\<rparr>))\<lparr>pm_languages := True\<rparr>)"
  define s2 where "s2 = (\<lambda>r. done_step BuiltRuntime (s1\<lparr>pm_runtime := Some r\<rparr>))"
  define s3 where "s3 = (\<lambda>r q. done_step BuiltPlugin ((s2 r)\<lparr>pm_plugin := True, pm_runtime := Some q\<rparr>))"
  define s4 where "s4 = (\<lambda>r q. done_step RanLoad (SubscribeHostEvents (s3 r q)))"
  have st: "stage s0 False False False False" unfolding s0_def by (rule stage_start[OF assms])
  hence st1: "stage s1 True False False False" unfolding s1_def by (rule stage_unsafe)
  hence st2: "stage (s2 r) True True False False" for r unfolding s2_def by (rule stage_runtime)
  hence st3: "stage (s3 r q) True True True False" for r q unfolding s3_def by (rule stage_plugin)
  hence st4: "stage (s4 r q) True True True True" for r q unfolding s4_def by (rule stage_load)
  have ok: "module_ok s0" "module_ok s1" "module_ok (s2 r)" "module_ok (s3 r q)" "module_ok (s4 r q)"
    "module_ok (done_step (Logged l) (s4 r q\<lparr>pm_runtime := Some w\<rparr>))" "module_ok (s4 r q\<lparr>pm_runtime := Some w\<rparr>)" for r q l w
    using st st1 st2 st3 st4 stage_loaded[OF st4] by (simp_all add: stage_def)
  show ?thesis
    unfolding AttachImpl_def Let_def case_prod_beta s0_def[symmetric] s1_def[symmetric] s2_def[symmetric]
    using ok pm_Refuse_lives unfolding s3_def s4_def s2_def by (auto split: sum.split outcome.split prod.split)
qed

lemma Attach_ok: "module_ok s \<Longrightarrow> detached s \<Longrightarrow> module_ok (snd (snd (Attach env error s)))"
  using AttachImpl_ok[of s env error] pm_Shutdown_lives by (auto simp: Attach_def split: prod.splits outcome.splits option.splits)

inductive module_run :: "PluginModule \<Rightarrow> bool" where
  mr_new: "module_run MakePluginModule"
| mr_attach: "module_run s \<Longrightarrow> detached s \<Longrightarrow> module_run (snd (snd (Attach env error s)))"
| mr_detach: "module_run s \<Longrightarrow> module_run (Detach s)"
| mr_status: "module_run s \<Longrightarrow> module_run (snd (StatusJson json s))"

lemma module_run_ok: "module_run s \<Longrightarrow> module_ok s"
proof (induction rule: module_run.induct)
  case mr_new show ?case by (simp add: module_ok_def MakePluginModule_def objects_def lives_of_def)
next
  case (mr_attach s env error) thus ?case by (simp add: Attach_ok)
next
  case (mr_detach s) thus ?case by (simp add: Detach_def pm_Shutdown_lives)
next
  case (mr_status s json)
  have "module_ok (s\<lparr>pm_status := x\<rparr>)" for x using mr_status.IH by (simp add: module_ok_def objects_def)
  thus ?case using mr_status.IH by (cases json) (simp_all add: StatusJson_def)
qed


definition good_load :: attach_env where
  "good_load = \<lparr>ae_HostStamp = 7, ae_HostVerified = True, ae_Stamp = 7, ae_Version = (\<lambda>i. []), ae_Lookup = (\<lambda>side v. True), ae_Hex = to_string,
     ae_Runtime = Returns [], ae_Factory = Returns, ae_Load = (\<lambda>r. Returns (True, r)), ae_Elapsed = 3\<rparr>"


section \<open>A plugin and the layout it was built with\<close>

lemma CheckSchema_fails: "CheckSchema env = Inl e \<Longrightarrow> detached s \<Longrightarrow> pm_trace (snd (snd (Attach env error s))) = pm_trace s"
  by (simp add: Attach_def AttachImpl_def pm_Refuse_def pm_Shutdown_def detached_def Let_def)

lemma CheckSchema_ok: "CheckSchema env = Inr u \<longleftrightarrow> ae_HostStamp env = ae_Stamp env \<and> ae_HostVerified env"
  by (auto simp: CheckSchema_def)

text \<open>
  C38: no plugin runs on stale offsets. Whatever the maps and the host's other work, when a module attaches with the host's verdict and anything of it is built at
  all, its layout's stamp is the host's and the host has seen the game's schema with every field of its layout in place.
\<close>

theorem plugin_needs_layout:
  assumes "schema_run cenv seen sk" "ae_HostStamp env = h_SchemaLayoutStamp (sk_registry sk)" "ae_HostVerified env = h_SchemaVerified (sk_registry sk)"
    and "detached s" "pm_trace (snd (snd (Attach env error s))) \<noteq> pm_trace s"
  shows "ae_Stamp env = cv_stamp cenv \<and>
    (\<exists>schema \<in> set seen. \<exists>server. ServerScope schema = Some server \<and> (\<forall>want \<in> set (cv_layout cenv). field_in_place server (global_scope schema) want))"
proof -
  have "CheckSchema env = Inr ()" using CheckSchema_fails[OF _ assms(4)] assms(5) by (cases "CheckSchema env") auto
  hence "ae_HostStamp env = ae_Stamp env" "ae_HostVerified env" by (simp_all add: CheckSchema_ok)
  thus ?thesis using schema_run_verdict[OF assms(1)] assms(2,3) by (simp add: verdict_ok_def Verify_ok_iff drift_none_iff)
qed

definition health_env :: check_env where
  "health_env = \<lparr>cv_layout = [health_field], cv_stamp = 7, cv_generatedFrom = ''1'', cv_gameBuild = ''2''\<rparr>"

theorem plugin_needs_layout_witness:
  "\<exists>schema \<in> {None, health_schema}. \<exists>server. ServerScope schema = Some server \<and> field_in_place server (global_scope schema) health_field"
proof -
  define sk :: "(unit, unit) SchemaCheck" where
    "sk = sk_OnServerStartup (\<lambda>doc. []) (\<lambda>old text. (None, Some text)) health_env health_schema None (SchemaCheck_new health_env None (host_init None) \<lparr>du_attempted = False, du_file = None\<rparr>)"
  have r: "schema_run health_env [health_schema, None] sk" unfolding sk_def by (intro sr_startup sr_new)
  have v: "VerifySchemaLayout [health_field] ''1'' ''2'' health_schema = Inr ()" by code_simp
  have k: "h_SchemaLayoutStamp (sk_registry sk) = 7 \<and> h_SchemaVerified (sk_registry sk)"
    by (simp add: sk_def sk_OnServerStartup_def SchemaCheck_new_def Check_def health_env_def v Let_def SetSchemaLayout_def VerifySchemaLayout_def[of _ _ _ None] ServerScope_def Error_defs)
  have d: "detached MakePluginModule" by (simp add: detached_def MakePluginModule_def)
  have t: "pm_trace (snd (snd (Attach good_load None MakePluginModule))) \<noteq> pm_trace MakePluginModule" by code_simp
  show ?thesis using plugin_needs_layout[OF r _ _ d t] k by (auto simp: good_load_def health_env_def)
qed

section \<open>Host events\<close>

text \<open>A player who connects: the handlers may reject, and the host is told why.\<close>

record ConnectRequest =
  cr_Slot :: int
  cr_SteamId :: int
  cr_Name :: string
  cr_Reason :: string
  cr_Rejected :: bool

definition pm_OnClientConnecting :: "(ConnectRequest \<Rightarrow> ConnectRequest) \<Rightarrow> int \<Rightarrow> int \<Rightarrow> string \<Rightarrow> string option \<Rightarrow> bool \<times> string option" where
  "pm_OnClientConnecting Connecting slot steamId name reason =
     (let request = Connecting \<lparr>cr_Slot = slot, cr_SteamId = steamId, cr_Name = name, cr_Reason = [], cr_Rejected = False\<rparr>
      in (cr_Rejected request, if cr_Rejected request then CopyToBuffer reason (cr_Reason request) else reason))"

text \<open>What a console command meets in a plugin's services, over the world they change.\<close>

record 'w chat_services =
  ch_TryCastBallot :: "int \<Rightarrow> string \<Rightarrow> 'w \<Rightarrow> bool \<times> 'w"
  ch_InProgress :: "'w \<Rightarrow> bool"
  ch_IsForeign :: "string \<Rightarrow> 'w \<Rightarrow> bool"
  ch_HasPlayer :: "int \<Rightarrow> 'w \<Rightarrow> bool"
  ch_TryConsume :: "int \<Rightarrow> string \<Rightarrow> 'w \<Rightarrow> bool \<times> 'w"
  ch_HandleChatMessage :: "int \<Rightarrow> string \<Rightarrow> 'w \<Rightarrow> bool \<times> 'w"
  ch_Said :: "int \<Rightarrow> string \<Rightarrow> bool \<Rightarrow> 'w \<Rightarrow> bool \<times> 'w"

definition chat_text :: "string \<Rightarrow> string" where
  "chat_text arguments = (if 2 \<le> length arguments \<and> hd arguments = CHR 0x22 \<and> last arguments = CHR 0x22 then butlast (tl arguments) else arguments)"

definition pm_OnConsoleCommand :: "'w chat_services \<Rightarrow> string \<Rightarrow> string \<Rightarrow> int \<Rightarrow> 'w \<Rightarrow> bool \<times> 'w" where
  "pm_OnConsoleCommand ch name arguments slot w =
     (if name = ''vote'' then ch_TryCastBallot ch slot arguments w
      else if name = ''callvote'' then (ch_InProgress ch w, w)
      else if name \<noteq> ''say'' \<and> name \<noteq> ''say_team'' then (False, w)
      else let message = chat_text arguments
           in if message = [] \<or> \<not> IsValidSlot slot then (False, w)
              else if ch_IsForeign ch message w then (False, w)
              else if \<not> ch_HasPlayer ch slot w then (False, w)
              else case ch_TryConsume ch slot message w of (True, w) \<Rightarrow> (True, w) | (False, w) \<Rightarrow>
                  (case ch_HandleChatMessage ch slot message w of (True, w) \<Rightarrow> (True, w) | (False, w) \<Rightarrow> ch_Said ch slot message (name = ''say_team'') w))"

text \<open>Another plugin's command passes untouched, and what a menu takes never reaches the commands.\<close>

lemma chat_precedence:
  assumes "name = ''say'' \<or> name = ''say_team''"
  shows "(ch_IsForeign ch (chat_text arguments) w \<longrightarrow> pm_OnConsoleCommand ch name arguments slot w = (False, w)) \<and>
    (\<not> ch_IsForeign ch (chat_text arguments) w \<and> chat_text arguments \<noteq> [] \<and> IsValidSlot slot \<and> ch_HasPlayer ch slot w \<and> fst (ch_TryConsume ch slot (chat_text arguments) w) \<longrightarrow>
       pm_OnConsoleCommand ch name arguments slot w = ch_TryConsume ch slot (chat_text arguments) w)"
  using assms by (auto simp: pm_OnConsoleCommand_def Let_def split: prod.splits bool.splits)

lemma chat_text_quoted: "chat_text (CHR 0x22 # s @ [CHR 0x22]) = s"
  by (simp add: chat_text_def)

section \<open>The language of a player's client\<close>

definition SteamLanguages :: "(string \<times> string) list" where
  "SteamLanguages = [(''english'', ''en''), (''russian'', ''ru''), (''ukrainian'', ''uk''), (''german'', ''de''), (''french'', ''fr''),
     (''spanish'', ''es''), (''portuguese'', ''pt''), (''polish'', ''pl''), (''turkish'', ''tr'')]"

definition CodeFor :: "string \<Rightarrow> string" where
  "CodeFor steamLanguage = (case map_of SteamLanguages steamLanguage of None \<Rightarrow> [] | Some code \<Rightarrow> code)"

text \<open>Whether a connected player is asked, and what an answer does to the languages of the slots.\<close>

definition cl_FullyConnected :: "bool \<Rightarrow> int \<Rightarrow> (int \<Rightarrow> string) \<Rightarrow> bool" where
  "cl_FullyConnected isBot slot languages \<longleftrightarrow> \<not> (isBot \<or> languages slot \<noteq> [])"

definition cl_Answered :: "int \<Rightarrow> ClientConVarStatus \<Rightarrow> string \<Rightarrow> (int \<Rightarrow> string) \<Rightarrow> (int \<Rightarrow> string)" where
  "cl_Answered slot st text languages =
     (if st \<noteq> Answered then languages
      else let code = CodeFor text in if code \<noteq> [] \<and> languages slot = [] then languages(slot := code) else languages)"

text \<open>An answer fills an empty language with a code and never touches a pick or another player.\<close>

lemma cl_Answered_pick_wins:
  "(languages s \<noteq> [] \<longrightarrow> cl_Answered slot st text languages s = languages s) \<and> (s \<noteq> slot \<longrightarrow> cl_Answered slot st text languages s = languages s) \<and>
   (cl_Answered slot st text languages s \<noteq> languages s \<longrightarrow> cl_Answered slot st text languages s \<in> set (map snd SteamLanguages))"
  by (auto simp: cl_Answered_def Let_def CodeFor_def dest!: map_of_SomeD intro: rev_image_eqI split: option.splits if_splits)

section \<open>Status sections\<close>

record 'p StatusService =
  st_sections :: "(string \<times> 'p) list"
  st_healthy :: "bool option"
  st_command :: "string option"

fun RegisterSection :: "string \<Rightarrow> 'p \<Rightarrow> (string \<times> 'p) list \<Rightarrow> (string \<times> 'p) list" where
  "RegisterSection name provider [] = [(name, provider)]"
| "RegisterSection name provider ((existing, p) # rest) =
     (if existing = name then (existing, provider) # rest else (existing, p) # RegisterSection name provider rest)"

definition IsHealthy :: "'p StatusService \<Rightarrow> bool" where
  "IsHealthy s = (case st_healthy s of None \<Rightarrow> True | Some h \<Rightarrow> h)"

text \<open>\<open>valid\<close> and \<open>Write\<close> are the JSON library, \<open>run\<close> what a provider answers.\<close>

definition st_BuildJson :: "(string \<Rightarrow> bool) \<Rightarrow> ((string, string) omap \<Rightarrow> string) \<Rightarrow> ('p \<Rightarrow> string) \<Rightarrow> 'p StatusService \<Rightarrow> string" where
  "st_BuildJson valid Write run s = Write (omap_assign ''healthy'' (if IsHealthy s then ''true'' else ''false'')
     (fold (\<lambda>(name, provider) out. omap_assign name
         (if valid (run provider) then run provider
          else CHR 0x7B # CHR 0x22 # ''error'' @ CHR 0x22 # CHR 0x3A # CHR 0x22 # ''provider returned invalid JSON'' @ [CHR 0x22, CHR 0x7D]) out) (st_sections s) []))"

text \<open>A parsed document: an object with its values as text, or one value as text.\<close>

datatype json_doc = JsonObject "(string \<times> string) list" | JsonValue string

definition section_text :: "(string \<Rightarrow> json_doc option) \<Rightarrow> string \<Rightarrow> string \<Rightarrow> string" where
  "section_text ParseDocument name payload = name @ CHR 0x3A # CHR 0x0A # (case ParseDocument payload of
     None \<Rightarrow> ''  <invalid JSON from provider>'' @ [CHR 0x0A]
   | Some (JsonObject kvs) \<Rightarrow> concat (map (\<lambda>(k, v). ''  '' @ k @ '': '' @ v @ [CHR 0x0A]) kvs)
   | Some (JsonValue v) \<Rightarrow> ''  '' @ v @ [CHR 0x0A])"

definition st_BuildText :: "(string \<Rightarrow> json_doc option) \<Rightarrow> ('p \<Rightarrow> string) \<Rightarrow> 'p StatusService \<Rightarrow> string" where
  "st_BuildText ParseDocument run s =
     (let out = concat (map (\<lambda>(name, provider). section_text ParseDocument name (run provider)) (st_sections s))
      in if out \<noteq> [] \<and> last out = CHR 0x0A then butlast out else out)"

definition InstallCommand :: "string \<Rightarrow> bool option \<Rightarrow> 'p StatusService \<Rightarrow> 'p StatusService" where
  "InstallCommand name healthy s = s\<lparr>st_healthy := healthy, st_command := Some name\<rparr>"

text \<open>Registering keeps one section per name, in the order the names came.\<close>

lemma RegisterSection_names: "map fst (RegisterSection name p xs) = map fst xs @ (if name \<in> set (map fst xs) then [] else [name])"
  by (induction name p xs rule: RegisterSection.induct) auto

lemma RegisterSection_lookup: "map_of (RegisterSection name p xs) = (map_of xs)(name \<mapsto> p)"
  by (induction name p xs rule: RegisterSection.induct) (auto simp: fun_eq_iff)

lemma RegisterSection_distinct: "distinct (map fst xs) \<Longrightarrow> distinct (map fst (RegisterSection name p xs))"
  by (simp only: RegisterSection_names) simp

end
