(* ===== verification/Config.thy ===== *)
theory Config
  imports PluginModule
begin

text \<open>
  A plugin's settings: validating lists after parsing, publishing a whole snapshot or keeping the old one, and refusing the plugin when they cannot be read.
  Source: \<^verbatim>\<open>include/VoltMod/App/Config/Validation.hpp\<close>, \<^verbatim>\<open>Options.hpp\<close> and \<^verbatim>\<open>include/VoltMod/App/LoadConfig.hpp\<close>. Reading
  and parsing a file is an argument, and so is the function that builds a snapshot, which may throw.
\<close>

section \<open>Validation\<close>

definition NormalizeTag :: "nat \<Rightarrow> string \<Rightarrow> string \<Rightarrow> string" where
  "NormalizeTag maxLen fallback tag = (if Trim tag \<noteq> [] \<and> length tag \<le> maxLen then tag else fallback)"

text \<open>What is kept, and the index and reason of each rejection.\<close>

fun filter_valid :: "('a \<Rightarrow> nat \<Rightarrow> string option) \<Rightarrow> nat \<Rightarrow> 'a list \<Rightarrow> 'a list \<times> (nat \<times> string) list" where
  "filter_valid validate i [] = ([], [])"
| "filter_valid validate i (x # xs) =
     (let (kept, warned) = filter_valid validate (i + 1) xs
      in case validate x i of Some reason \<Rightarrow> (kept, (i, reason) # warned) | None \<Rightarrow> (x # kept, warned))"

definition FilterValid :: "('a \<Rightarrow> nat \<Rightarrow> string option) \<Rightarrow> 'a list \<Rightarrow> 'a list \<times> (nat \<times> string) list" where
  "FilterValid validate items = filter_valid validate 0 items"

definition FallbackIfEmpty :: "'a list \<Rightarrow> 'a list \<Rightarrow> bool \<times> 'a list" where
  "FallbackIfEmpty defaults items = (if items \<noteq> [] \<or> defaults = [] then (False, items) else (True, defaults))"

definition bad_duration :: "string \<Rightarrow> nat \<Rightarrow> string option" where
  "bad_duration entry i = (if ParseDuration entry < 0 then Some (''bad duration '' @ quoted entry) else None)"

definition ParseDurations :: "string list \<Rightarrow> string list \<Rightarrow> int list" where
  "ParseDurations entries defaults =
     (let kept = fst (FilterValid bad_duration entries); kept = snd (FallbackIfEmpty defaults kept) in map ParseDuration kept)"

lemma filter_valid_spec:
  "fst (filter_valid validate i xs) = map fst (filter (\<lambda>(x, k). validate x k = None) (zip xs [i..<i + length xs])) \<and>
   map fst (snd (filter_valid validate i xs)) = map snd (filter (\<lambda>(x, k). validate x k \<noteq> None) (zip xs [i..<i + length xs]))"
proof (induction validate i xs rule: filter_valid.induct)
  case (2 validate i x xs)
  have "[i..<i + length (x # xs)] = i # [i + 1..<(i + 1) + length xs]" by (simp add: upt_rec)
  thus ?case using 2 by (auto simp: case_prod_beta Let_def split: option.splits)
qed simp

lemma valid_durations: "fst (FilterValid bad_duration entries) = filter (\<lambda>e. 0 \<le> ParseDuration e) entries"
proof -
  have "fst (filter_valid bad_duration i entries) = filter (\<lambda>e. 0 \<le> ParseDuration e) entries" for i
    by (induction entries arbitrary: i) (auto simp: bad_duration_def case_prod_beta Let_def)
  thus ?thesis by (simp add: FilterValid_def)
qed

text \<open>The result is the valid entries in order, else the defaults: never empty and never negative when the defaults are good.\<close>

lemma ParseDurations_spec:
  "ParseDurations entries defaults = map ParseDuration (if \<exists>e \<in> set entries. 0 \<le> ParseDuration e then filter (\<lambda>e. 0 \<le> ParseDuration e) entries else defaults)"
  by (auto simp: ParseDurations_def FallbackIfEmpty_def valid_durations Let_def filter_empty_conv)

section \<open>Options\<close>

record ('settings, 'snapshot) Options =
  op_path :: string
  op_snapshot :: 'snapshot

text \<open>Loading reads, builds and then publishes; what the builder throws passes through.\<close>

definition op_Load :: "(string \<Rightarrow> 'settings result) \<Rightarrow> ('settings \<Rightarrow> 'snapshot outcome) \<Rightarrow> string \<Rightarrow> ('settings, 'snapshot) Options \<Rightarrow>
    status outcome \<times> ('settings, 'snapshot) Options" where
  "op_Load ReadFile build path s =
     (let s = s\<lparr>op_path := path\<rparr>
      in case ReadFile path of Inl e \<Rightarrow> (Returns (Inl e), s)
       | Inr parsed \<Rightarrow> (case build parsed of Throws w \<Rightarrow> (Throws w, s) | Returns next \<Rightarrow> (Returns (Inr ()), s\<lparr>op_snapshot := next\<rparr>)))"

definition op_Reload :: "(string \<Rightarrow> 'settings result) \<Rightarrow> ('settings \<Rightarrow> 'snapshot outcome) \<Rightarrow> ('settings, 'snapshot) Options \<Rightarrow>
    status outcome \<times> ('settings, 'snapshot) Options" where
  "op_Reload ReadFile build s =
     (if op_path s = [] then (Returns (Inl (Error_NotReady ''no settings file was loaded yet'')), s) else op_Load ReadFile build (op_path s) s)"

text \<open>Loads and reloads over time, each meeting the files as they are then.\<close>

datatype 'settings options_call = Loads string "string \<Rightarrow> 'settings result" | Reloads "string \<Rightarrow> 'settings result"

fun do_call :: "('settings \<Rightarrow> 'snapshot outcome) \<Rightarrow> 'settings options_call \<Rightarrow> ('settings, 'snapshot) Options \<Rightarrow> status outcome \<times> ('settings, 'snapshot) Options" where
  "do_call build (Loads path ReadFile) s = op_Load ReadFile build path s"
| "do_call build (Reloads ReadFile) s = op_Reload ReadFile build s"

definition options_run :: "('settings \<Rightarrow> 'snapshot outcome) \<Rightarrow> 'settings options_call list \<Rightarrow> ('settings, 'snapshot) Options \<Rightarrow> ('settings, 'snapshot) Options" where
  "options_run build calls s = fold (\<lambda>c s. snd (do_call build c s)) calls s"

text \<open>The settings a call found at a path.\<close>

fun reads :: "'settings options_call \<Rightarrow> string \<Rightarrow> 'settings result" where
  "reads (Loads path ReadFile) = ReadFile" | "reads (Reloads ReadFile) = ReadFile"

lemma do_call_effect:
  "(fst (do_call build c s) \<noteq> Returns (Inr ()) \<longrightarrow> op_snapshot (snd (do_call build c s)) = op_snapshot s) \<and>
   (fst (do_call build c s) = Returns (Inr ()) \<longrightarrow>
     (\<exists>parsed. reads c (op_path (snd (do_call build c s))) = Inr parsed \<and> build parsed = Returns (op_snapshot (snd (do_call build c s)))))"
  by (cases c) (auto simp: op_Load_def op_Reload_def Let_def Error_defs split: sum.splits outcome.splits)

text \<open>The snapshot after any calls is what the last call that succeeded built, of the settings it read, else the first one.\<close>

lemma options_snapshot:
  "op_snapshot (options_run build (calls @ [c]) s) =
     (let before = options_run build calls s; (r, after) = do_call build c before
      in if r = Returns (Inr ()) then (case reads c (op_path after) of Inr parsed \<Rightarrow> (case build parsed of Returns next \<Rightarrow> next | Throws w \<Rightarrow> op_snapshot s) | Inl e \<Rightarrow> op_snapshot s)
         else op_snapshot before)"
  using do_call_effect[of build c "options_run build calls s"] by (auto simp: options_run_def Let_def case_prod_beta)

section \<open>Loading at the start of a plugin\<close>

text \<open>Whether the settings loaded, the report, and whether the locale is applied and the translations are read.\<close>

definition LoadConfig :: "string \<Rightarrow> status \<Rightarrow> bool \<Rightarrow> LoadReport \<Rightarrow> bool \<times> LoadReport \<times> bool" where
  "LoadConfig path status with_translations report =
     (let status = (case status of Inr _ \<Rightarrow> status
            | Inl e \<Rightarrow> if \<not> StartsWith (err_Detail e) path then Inl (e\<lparr>err_Detail := path @ '': '' @ err_Detail e\<rparr>) else status);
          (ok, report) = lr_Required ''Configuration'' status report
      in if \<not> ok then (False, report, False) else (True, report, with_translations))"

text \<open>A detail of the report names the file.\<close>

lemma LoadConfig_failed:
  "\<not> fst (LoadConfig path (Inl e) t r) \<and> \<not> snd (snd (LoadConfig path (Inl e) t r)) \<and>
   (\<exists>reason. fst (snd (LoadConfig path (Inl e) t r)) = r @ [\<lparr>fc_Name = ''Configuration'', fc_Reason = reason, fc_Required = True\<rparr>] \<and> StartsWith reason path)"
  by (auto simp: LoadConfig_def lr_Required_def lr_Record_def Let_def StartsWith_def)

lemma AbortReason_Required:
  assumes "fc \<in> set r" "fc_Required fc" "\<And>f. f \<in> set r \<Longrightarrow> fc_Required f \<Longrightarrow> fc_Name f \<noteq> []"
  shows "AbortReason r \<noteq> []"
proof (cases "find fc_Required r")
  case None thus ?thesis using assms(1,2) by (auto simp: find_None_iff)
next
  case (Some f)
  hence "f \<in> set r" "fc_Required f" by (auto simp: find_Some_iff)
  thus ?thesis using assms(3) Some by (simp add: AbortReason_def)
qed

definition named_checks :: "LoadReport \<Rightarrow> bool" where
  "named_checks r \<longleftrightarrow> (\<forall>f \<in> set r. fc_Required f \<longrightarrow> fc_Name f \<noteq> [])"

text \<open>
  a plugin whose settings cannot be read is refused before its Load runs. Whatever else its constructor and the runtime find, with every required check named,
  the attach fails the same way whatever Load would do, leaves nothing behind, and the host's buffer has the reason of the first required failure.
\<close>

theorem unread_settings_refuse:
  assumes "detached s" "CheckSchema env = Inr ()" "OpenUnsafe env = Inr ()" "ae_Runtime env = Returns r" "named_checks r" "named_checks later"
    and "ae_Factory env r = Returns (fst (snd (LoadConfig path (Inl e) t r)) @ later)"
  shows "\<not> fst (Attach env error s) \<and> detached (snd (snd (Attach env error s))) \<and>
    fst (snd (Attach env error s)) = CopyToBuffer error (AbortReason (fst (snd (LoadConfig path (Inl e) t r)))) \<and>
    Attach (env\<lparr>ae_Load := load\<rparr>) error s = Attach env error s"
proof -
  obtain reason where f: "fst (snd (LoadConfig path (Inl e) t r)) = r @ [\<lparr>fc_Name = ''Configuration'', fc_Reason = reason, fc_Required = True\<rparr>]"
    using LoadConfig_failed by blast
  let ?r = "fst (snd (LoadConfig path (Inl e) t r)) @ later"
  have ne: "AbortReason ?r \<noteq> []"
    by (rule AbortReason_Required[of "\<lparr>fc_Name = ''Configuration'', fc_Reason = reason, fc_Required = True\<rparr>"]) (use assms(5,6) in \<open>auto simp: f named_checks_def\<close>)
  have same: "AbortReason ?r = AbortReason (fst (snd (LoadConfig path (Inl e) t r)))" unfolding f by (cases "find fc_Required r") (simp_all add: AbortReason_def find_append)
  have v: "load_verdict env = Some (AbortReason (fst (snd (LoadConfig path (Inl e) t r))))"
    unfolding load_verdict_def Let_def using assms(2-4,7) ne same by simp
  have c: "CheckSchema (env\<lparr>ae_Load := load\<rparr>) = CheckSchema env" "OpenUnsafe (env\<lparr>ae_Load := load\<rparr>) = OpenUnsafe env"
    by (simp_all add: CheckSchema_def OpenUnsafe_def Resolve_interface_def interfaces_def)
  have "Attach (env\<lparr>ae_Load := load\<rparr>) error s = Attach env error s"
    using assms(2-4,7) ne by (simp add: Attach_def AttachImpl_def Let_def c pm_Refuse_def)
  thus ?thesis using Attach_verdict[OF assms(1), where env = env and error = error] v by simp
qed

definition no_settings :: attach_env where
  "no_settings = good_load\<lparr>ae_Factory := \<lambda>r. Returns (fst (snd (LoadConfig ''a/settings.jsonc'' (Inl (Error_NotFound ''failed to open'')) True r)))\<rparr>"

theorem unread_settings_refuse_witness:
  "\<not> fst (Attach no_settings (Some (replicate 60 CHR 0x00)) MakePluginModule) \<and>
   fst (snd (Attach no_settings (Some (replicate 60 CHR 0x00)) MakePluginModule)) =
     CopyToBuffer (Some (replicate 60 CHR 0x00)) ''Configuration: a/settings.jsonc: failed to open''"
proof -
  have a: "detached MakePluginModule" by (simp add: detached_def MakePluginModule_def)
  have b: "CheckSchema no_settings = Inr ()" "OpenUnsafe no_settings = Inr ()" by code_simp+
  have c: "ae_Runtime no_settings = Returns []" "named_checks []" by (simp_all add: no_settings_def good_load_def named_checks_def)
  have d: "ae_Factory no_settings [] = Returns (fst (snd (LoadConfig ''a/settings.jsonc'' (Inl (Error_NotFound ''failed to open'')) True [])) @ [])" by (simp add: no_settings_def)
  have e: "AbortReason (fst (snd (LoadConfig ''a/settings.jsonc'' (Inl (Error_NotFound ''failed to open'')) True []))) = ''Configuration: a/settings.jsonc: failed to open''" by code_simp
  show ?thesis using unread_settings_refuse[OF a b c(1) c(2) c(2) d, of "Some (replicate 60 CHR 0x00)"] unfolding e by simp
qed

end
