(* ===== verification/Messages.thy ===== *)
theory Messages
  imports Translations Result Slots
begin

text \<open>
  Chat, center and alert messages, and the colours of chat. Source: \<^verbatim>\<open>src/Messaging/Messages.cpp\<close>, \<^verbatim>\<open>ChatColors.cpp\<close> with their headers,
  \<^verbatim>\<open>src/Engine/Net/NetMessage.cpp\<close> and \<^verbatim>\<open>include/VoltMod/Engine/Net/RecipientFilter.hpp\<close>. What the engine answers is an
  environment; what it is asked to send is recorded, and so is how many network messages are allocated.
\<close>

section \<open>Chat colours\<close>

definition colour :: "nat \<Rightarrow> string" where "colour b = [char_of b]"

abbreviation colour_Default :: string where "colour_Default \<equiv> colour 1"

definition kNameTable :: "(string \<times> string) list" where
  "kNameTable =
    [(''default'', colour 1), (''white'', colour 1), (''darkred'', colour 2), (''lightpurple'', colour 3), (''green'', colour 4), (''olive'', colour 5),
     (''lime'', colour 6), (''red'', colour 7), (''gray'', colour 8), (''grey'', colour 8), (''yellow'', colour 9), (''lightyellow'', colour 9),
     (''silver'', colour 10), (''bluegrey'', colour 10), (''lightblue'', colour 11), (''blue'', colour 11), (''darkblue'', colour 12), (''purple'', colour 14),
     (''magenta'', colour 14), (''lightred'', colour 15), (''gold'', colour 16), (''orange'', colour 16)]"

definition Palette :: "(string \<times> string) list" where
  "Palette =
    [(''default'', colour 1), (''darkred'', colour 2), (''lightpurple'', colour 3), (''green'', colour 4), (''olive'', colour 5), (''lime'', colour 6),
     (''red'', colour 7), (''gray'', colour 8), (''yellow'', colour 9), (''silver'', colour 10), (''lightblue'', colour 11), (''darkblue'', colour 12),
     (''purple'', colour 14), (''lightred'', colour 15), (''gold'', colour 16)]"

definition ParseNamed :: "string \<Rightarrow> string" where
  "ParseNamed name = (if name = [] then colour_Default else case map_of kNameTable (ToLower name) of Some code \<Rightarrow> code | None \<Rightarrow> colour_Default)"

definition Strip :: "string \<Rightarrow> string" where
  "Strip text = filter (\<lambda>c. 16 < (of_char c :: nat)) text"

definition PaletteChoices :: "(string \<Rightarrow> string) option \<Rightarrow> (string \<times> string) list" where
  "PaletteChoices labelFor = map (\<lambda>(name, code).
     (let label = (case labelFor of None \<Rightarrow> [] | Some f \<Rightarrow> f name) in (if label = [] then name else label, name))) Palette"

text \<open>The palette names every colour the table knows once, by a name the table reads back.\<close>

lemma Palette_complete:
  "distinct (map snd Palette) \<and> set (map snd Palette) = set (map snd kNameTable) \<and> (\<forall>(name, code) \<in> set Palette. map_of kNameTable name = Some code \<and> ToLower name = name \<and> name \<noteq> [])"
  by code_simp

lemma ParseNamed_palette: "(name, code) \<in> set Palette \<Longrightarrow> ParseNamed name = code"
  using Palette_complete by (fastforce simp: ParseNamed_def)

lemma Strip_no_colour: "c \<in> set (Strip text) \<Longrightarrow> 16 < (of_char c :: nat)" and Strip_idempotent: "Strip (Strip text) = Strip text"
  by (simp_all add: Strip_def)

lemma Strip_colours: "code \<in> set (map snd kNameTable) \<Longrightarrow> Strip (code @ text) = Strip text"
  by (auto simp: kNameTable_def Strip_def colour_def)

section \<open>Sending\<close>

datatype MessageKind = Chat | Center | CenterHtml | Alert
datatype hud_destination = HUD_PRINTTALK | HUD_PRINTCENTER | HUD_PRINTALERT

definition EnsureColorPrefix :: "string \<Rightarrow> string" where
  "EnsureColorPrefix message = (if message \<noteq> [] \<and> (of_char (hd message) :: nat) \<le> 16 then '' '' else colour_Default) @ message"

definition Render :: "string \<Rightarrow> MessageKind \<Rightarrow> string" where
  "Render message kind = (if kind = Chat then EnsureColorPrefix message else message)"

definition HudDestination :: "MessageKind \<Rightarrow> hud_destination" where
  "HudDestination kind = (case kind of Center \<Rightarrow> HUD_PRINTCENTER | Alert \<Rightarrow> HUD_PRINTALERT | _ \<Rightarrow> HUD_PRINTTALK)"

text \<open>What the engine is asked to send: a text or a shake to some recipients, a panel to one client's listener, or a panel event to all.\<close>

datatype net_sent = TextTo "int list" hud_destination string | ShakeTo "int list" | PanelTo int string | PanelToAll int string

record messages_env =
  ms_GameEventSystem :: bool
  ms_NetworkMessages :: bool
  ms_GameEventManager :: bool
  ms_FindPartial :: "string \<Rightarrow> bool"
  ms_Allocates :: bool
  ms_Casts :: bool
  ms_CreatesEvent :: bool
  ms_Listener :: "int \<Rightarrow> bool"

record Messages =
  mg_textMsgInternal :: bool
  mg_shakeInternal :: bool
  mg_allocated :: nat
  mg_events :: nat
  mg_sent :: "net_sent list"

definition messages_Available :: "messages_env \<Rightarrow> status" where
  "messages_Available env =
     (if \<not> ms_GameEventSystem env then Inl (Error_NotReady ''IGameEventSystem not available'')
      else if \<not> ms_NetworkMessages env then Inl (Error_NotReady ''INetworkMessages not available'')
      else Inr ())"

text \<open>The type of a message is looked up once and kept by the sender. Answers whether it posted, and the cached type.\<close>

definition PostUserMessage :: "messages_env \<Rightarrow> bool \<Rightarrow> string \<Rightarrow> net_sent option \<Rightarrow> Messages \<Rightarrow> bool \<times> bool \<times> Messages" where
  "PostUserMessage env cached partialName fill s =
     (if \<not> ms_GameEventSystem env \<or> \<not> ms_NetworkMessages env then (False, cached, s)
      else let cached = (cached \<or> ms_FindPartial env partialName)
           in if \<not> cached then (False, cached, s)
              else if \<not> ms_Allocates env then (False, cached, s)
              else let s = s\<lparr>mg_allocated := mg_allocated s + 1\<rparr>;
                       (posted, s) = (case fill of None \<Rightarrow> (False, s) | Some m \<Rightarrow> (True, s\<lparr>mg_sent := mg_sent s @ [m]\<rparr>))
                   in (posted, cached, s\<lparr>mg_allocated := mg_allocated s - 1\<rparr>))"

definition SingleRecipientFilter :: "int \<Rightarrow> int list" where
  "SingleRecipientFilter slot = (if 0 \<le> slot \<and> slot < MaxPlayers then [slot] else [])"

definition AddRecipient :: "int \<Rightarrow> int list \<Rightarrow> int list" where
  "AddRecipient slot recipients = (if 0 \<le> slot \<and> slot < MaxPlayers \<and> slot \<notin> set recipients then recipients @ [slot] else recipients)"

definition PostTextMsg :: "messages_env \<Rightarrow> int list \<Rightarrow> hud_destination \<Rightarrow> string \<Rightarrow> Messages \<Rightarrow> Messages" where
  "PostTextMsg env recipients destination message s =
     (let (_, cached, s) = PostUserMessage env (mg_textMsgInternal s) ''TextMsg'' (if ms_Casts env then Some (TextTo recipients destination message) else None) s
      in s\<lparr>mg_textMsgInternal := cached\<rparr>)"

definition SendTextMsg :: "messages_env \<Rightarrow> int \<Rightarrow> hud_destination \<Rightarrow> string \<Rightarrow> Messages \<Rightarrow> Messages" where
  "SendTextMsg env slot destination message s =
     (if \<not> IsValidSlot slot then s else PostTextMsg env (SingleRecipientFilter slot) destination message s)"

definition Shake :: "messages_env \<Rightarrow> int \<Rightarrow> Messages \<Rightarrow> Messages" where
  "Shake env slot s =
     (let (_, cached, s) = PostUserMessage env (mg_shakeInternal s) ''Shake'' (if ms_Casts env then Some (ShakeTo (SingleRecipientFilter slot)) else None) s
      in s\<lparr>mg_shakeInternal := cached\<rparr>)"

text \<open>An event created for a panel is freed here when a listener took it, and by the engine when it is fired.\<close>

definition SendCenterHtml :: "messages_env \<Rightarrow> int \<Rightarrow> string \<Rightarrow> Messages \<Rightarrow> Messages" where
  "SendCenterHtml env slot html s =
     (if \<not> ms_GameEventManager env \<or> \<not> IsValidSlot slot then s
      else if \<not> ms_CreatesEvent env then s
      else let s = s\<lparr>mg_events := mg_events s + 1\<rparr>
           in if ms_Listener env slot then s\<lparr>mg_sent := mg_sent s @ [PanelTo slot html], mg_events := mg_events s - 1\<rparr>
              else s\<lparr>mg_sent := mg_sent s @ [PanelToAll slot html], mg_events := mg_events s - 1\<rparr>)"

definition mg_Send :: "messages_env \<Rightarrow> int \<Rightarrow> string \<Rightarrow> MessageKind \<Rightarrow> Messages \<Rightarrow> Messages" where
  "mg_Send env slot message kind s =
     (if kind = CenterHtml then SendCenterHtml env slot message s
      else SendTextMsg env slot (HudDestination kind) (Render message kind) s)"

definition Broadcast :: "messages_env \<Rightarrow> string \<Rightarrow> MessageKind \<Rightarrow> Messages \<Rightarrow> Messages" where
  "Broadcast env message kind s =
     (let rendered = Render message kind
      in if kind = CenterHtml then fold (\<lambda>slot s. if ms_Listener env slot then SendCenterHtml env slot rendered s else s) all_slots s
         else PostTextMsg env (fold AddRecipient all_slots []) (HudDestination kind) rendered s)"

definition SendKey :: "messages_env \<Rightarrow> Translations \<Rightarrow> string PerSlot \<Rightarrow> int \<Rightarrow> string \<Rightarrow> tokens \<Rightarrow> MessageKind \<Rightarrow> Messages \<Rightarrow> Messages" where
  "SendKey env tr languages slot key tokens kind s = mg_Send env slot (tr_GetTokens tr languages key slot tokens) kind s"

definition BroadcastKey :: "messages_env \<Rightarrow> Translations \<Rightarrow> string PerSlot \<Rightarrow> string \<Rightarrow> tokens \<Rightarrow> MessageKind \<Rightarrow> Messages \<Rightarrow> Messages" where
  "BroadcastKey env tr languages key tokens kind s =
     fold (\<lambda>slot s. if ms_Listener env slot then SendKey env tr languages slot key tokens kind s else s) all_slots s"

definition ClearCenterHtml :: "messages_env \<Rightarrow> int \<Rightarrow> Messages \<Rightarrow> Messages" where
  "ClearCenterHtml env slot s = SendCenterHtml env slot '' '' s"

section \<open>What a client sees\<close>

text \<open>The engine drops recipients without a client and delivers a panel event to every client.\<close>

fun seen_of :: "(int \<Rightarrow> bool) \<Rightarrow> int \<Rightarrow> net_sent \<Rightarrow> string list" where
  "seen_of clients slot (TextTo recipients d text) = (if slot \<in> set recipients \<and> clients slot then [text] else [])"
| "seen_of clients slot (ShakeTo recipients) = []"
| "seen_of clients slot (PanelTo to_slot html) = (if to_slot = slot then [html] else [])"
| "seen_of clients slot (PanelToAll to_slot html) = (if clients slot then [html] else [])"

definition seen :: "(int \<Rightarrow> bool) \<Rightarrow> int \<Rightarrow> Messages \<Rightarrow> string list" where
  "seen clients slot s = concat (map (seen_of clients slot) (mg_sent s))"

text \<open>The engine works: what it needs resolved.\<close>

definition engine_ready :: "messages_env \<Rightarrow> bool" where
  "engine_ready env \<longleftrightarrow> ms_GameEventSystem env \<and> ms_NetworkMessages env \<and> ms_GameEventManager env \<and> ms_FindPartial env ''TextMsg'' \<and> ms_Allocates env \<and> ms_Casts env \<and> ms_CreatesEvent env"

lemma fold_AddRecipient: "set (fold AddRecipient slots rs) = set rs \<union> {slot \<in> set slots. IsValidSlot slot}"
  by (induction slots arbitrary: rs) (auto simp: AddRecipient_def IsValidSlot_def)

text \<open>A send to one slot: nobody else sees it, and nothing stays allocated.\<close>

lemma seen_PostTextMsg:
  assumes "engine_ready env"
  shows "seen (ms_Listener env) who (PostTextMsg env rs d m s) = seen (ms_Listener env) who s @ (if who \<in> set rs \<and> ms_Listener env who then [m] else [])"
    "mg_allocated (PostTextMsg env rs d m s) = mg_allocated s" "mg_events (PostTextMsg env rs d m s) = mg_events s"
  using assms by (simp_all add: PostTextMsg_def PostUserMessage_def engine_ready_def seen_def Let_def)

lemma seen_mg_Send:
  assumes "engine_ready env" "ms_Listener env slot"
  shows "seen (ms_Listener env) who (mg_Send env slot m kind s) = seen (ms_Listener env) who s @ (if who = slot \<and> IsValidSlot slot then [Render m kind] else [])"
    and "mg_allocated (mg_Send env slot m kind s) = mg_allocated s \<and> mg_events (mg_Send env slot m kind s) = mg_events s"
proof -
  have c: "seen (ms_Listener env) who (SendCenterHtml env slot m s) = seen (ms_Listener env) who s @ (if who = slot \<and> IsValidSlot slot then [m] else [])"
    "mg_allocated (SendCenterHtml env slot m s) = mg_allocated s \<and> mg_events (SendCenterHtml env slot m s) = mg_events s"
    using assms by (auto simp: SendCenterHtml_def engine_ready_def seen_def Let_def)
  have r: "set (SingleRecipientFilter slot) = (if IsValidSlot slot then {slot} else {})" by (simp add: SingleRecipientFilter_def IsValidSlot_def)
  show "seen (ms_Listener env) who (mg_Send env slot m kind s) = seen (ms_Listener env) who s @ (if who = slot \<and> IsValidSlot slot then [Render m kind] else [])"
    using c(1) seen_PostTextMsg(1)[OF assms(1)] r assms(2) by (auto simp: mg_Send_def SendTextMsg_def Render_def)
  show "mg_allocated (mg_Send env slot m kind s) = mg_allocated s \<and> mg_events (mg_Send env slot m kind s) = mg_events s"
    using c(2) seen_PostTextMsg(2,3)[OF assms(1)] by (simp add: mg_Send_def SendTextMsg_def)
qed

lemma seen_each_slot:
  assumes "engine_ready env" "distinct slots"
  shows "seen (ms_Listener env) who (fold (\<lambda>slot s. if ms_Listener env slot then mg_Send env slot (text slot) kind s else s) slots s) =
      seen (ms_Listener env) who s @ (if who \<in> set slots \<and> ms_Listener env who \<and> IsValidSlot who then [Render (text who) kind] else []) \<and>
    mg_allocated (fold (\<lambda>slot s. if ms_Listener env slot then mg_Send env slot (text slot) kind s else s) slots s) = mg_allocated s \<and>
    mg_events (fold (\<lambda>slot s. if ms_Listener env slot then mg_Send env slot (text slot) kind s else s) slots s) = mg_events s"
  using assms(2)
proof (induction slots arbitrary: s)
  case (Cons a slots)
  let ?s = "if ms_Listener env a then mg_Send env a (text a) kind s else s"
  have "seen (ms_Listener env) who ?s = seen (ms_Listener env) who s @ (if who = a \<and> ms_Listener env a \<and> IsValidSlot a then [Render (text a) kind] else [])"
    "mg_allocated ?s = mg_allocated s \<and> mg_events ?s = mg_events s"
    using seen_mg_Send[OF assms(1)] by auto
  thus ?case using Cons.IH[of ?s] Cons.prems by auto
qed simp

lemma Render_html: "Render m CenterHtml = m"
  by (simp add: Render_def)


definition two_clients :: messages_env where
  "two_clients = \<lparr>ms_GameEventSystem = True, ms_NetworkMessages = True, ms_GameEventManager = True, ms_FindPartial = (\<lambda>n. True), ms_Allocates = True,
     ms_Casts = True, ms_CreatesEvent = True, ms_Listener = (\<lambda>slot. slot = 0 \<or> slot = 5)\<rparr>"

definition no_messages :: Messages where
  "no_messages = \<lparr>mg_textMsgInternal = False, mg_shakeInternal = False, mg_allocated = 0, mg_events = 0, mg_sent = []\<rparr>"


end
