(* ===== verification/Logger.thy ===== *)
theory Logger
  imports Result "HOL-Library.Sublist"
begin

text \<open>
  The log of a module: lines of the game thread go straight to the handler, lines of other threads wait for it. Source: \<^verbatim>\<open>src/Core/Logger.cpp\<close> and
  \<^verbatim>\<open>include/VoltMod/Core/Log.hpp\<close>. Threads interleave between the locked parts; a delivery takes the waiting lines in one step and hands
  them over one by one. What workers handed in and what got lost is kept beside the code's state.
\<close>

section \<open>State\<close>

fun level_rank :: "LogLevel \<Rightarrow> nat" where
  "level_rank Info = 0" | "level_rank Warn = 1" | "level_rank LogError = 2"

type_synonym line = "LogLevel \<times> string"

text \<open>A line as the handler got it: from the game thread, or one that had waited.\<close>

datatype printed = Direct line | Waited line

record Log =
  lo_handler :: bool
  lo_minimumLevel :: LogLevel
  lo_deferred :: "line list"
  lo_hasDeferred :: bool
  lo_ready :: "line list"
  lo_printed :: "printed list"
  lo_handed :: "line list"
  lo_lost :: "line list"

definition new_log :: Log where
  "new_log = \<lparr>lo_handler = False, lo_minimumLevel = Info, lo_deferred = [], lo_hasDeferred = False, lo_ready = [], lo_printed = [], lo_handed = [], lo_lost = []\<rparr>"

definition MaxDeferred :: nat where "MaxDeferred = 256"

section \<open>Operations\<close>

definition SetHandler :: "bool \<Rightarrow> Log \<Rightarrow> Log" where
  "SetHandler handler s = s\<lparr>lo_handler := handler\<rparr>"

definition SetMinimumLevel :: "LogLevel \<Rightarrow> Log \<Rightarrow> Log" where
  "SetMinimumLevel level s = s\<lparr>lo_minimumLevel := level\<rparr>"

definition Wanted :: "LogLevel \<Rightarrow> Log \<Rightarrow> bool" where
  "Wanted level s \<longleftrightarrow> lo_handler s \<and> level_rank (lo_minimumLevel s) \<le> level_rank level"

definition Emit :: "bool \<Rightarrow> line \<Rightarrow> Log \<Rightarrow> Log" where
  "Emit on_game_thread line s =
     (if \<not> lo_handler s then s
      else if on_game_thread then s\<lparr>lo_printed := lo_printed s @ [Direct line]\<rparr>
      else let full = MaxDeferred \<le> length (lo_deferred s)
           in s\<lparr>lo_deferred := (if full then tl (lo_deferred s) else lo_deferred s) @ [line], lo_hasDeferred := True,
                lo_handed := lo_handed s @ [line], lo_lost := lo_lost s @ (if full then [hd (lo_deferred s)] else [])\<rparr>)"

text \<open>A log call of any level.\<close>

definition log_line :: "bool \<Rightarrow> LogLevel \<Rightarrow> string \<Rightarrow> Log \<Rightarrow> Log" where
  "log_line on_game_thread level message s = (if Wanted level s then Emit on_game_thread (level, message) s else s)"

text \<open>The delivery: the locked part, which without a handler drops what it took, and one line handed over.\<close>

definition deliver_take :: "Log \<Rightarrow> Log" where
  "deliver_take s =
     (if \<not> lo_hasDeferred s then s
      else let ready = lo_deferred s; s = s\<lparr>lo_deferred := [], lo_hasDeferred := False\<rparr>
           in if \<not> lo_handler s then s\<lparr>lo_lost := lo_lost s @ ready\<rparr> else s\<lparr>lo_ready := ready\<rparr>)"

definition deliver_next :: "Log \<Rightarrow> Log" where
  "deliver_next s = (case lo_ready s of [] \<Rightarrow> s | l # ls \<Rightarrow> s\<lparr>lo_ready := ls, lo_printed := lo_printed s @ [Waited l]\<rparr>)"

definition DeliverPending :: "Log \<Rightarrow> Log" where
  "DeliverPending s = (let s = deliver_take s in (deliver_next ^^ length (lo_ready s)) s)"

text \<open>
  The game thread and the workers. The handler changes and deliveries start on the game thread, which is inside a delivery while lines are ready; the handler
  itself may log meanwhile.
\<close>

inductive log_run :: "Log \<Rightarrow> bool" where
  lr_new: "log_run new_log"
| lr_handler: "log_run s \<Longrightarrow> lo_ready s = [] \<Longrightarrow> log_run (SetHandler handler s)"
| lr_level: "log_run s \<Longrightarrow> log_run (SetMinimumLevel level s)"
| lr_log: "log_run s \<Longrightarrow> log_run (log_line on_game_thread level message s)"
| lr_take: "log_run s \<Longrightarrow> lo_ready s = [] \<Longrightarrow> log_run (deliver_take s)"
| lr_next: "log_run s \<Longrightarrow> log_run (deliver_next s)"

section \<open>Every line once\<close>

text \<open>The lines that had waited and reached the handler, in order, and those still on their way.\<close>

definition given :: "Log \<Rightarrow> line list" where
  "given s = List.map_filter (\<lambda>p. case p of Waited l \<Rightarrow> Some l | Direct l \<Rightarrow> None) (lo_printed s)"

definition on_the_way :: "Log \<Rightarrow> line list" where
  "on_the_way s = lo_ready s @ lo_deferred s"

definition log_ok :: "Log \<Rightarrow> bool" where
  "log_ok s \<longleftrightarrow> subseq (given s @ on_the_way s) (lo_handed s) \<and> mset (given s @ on_the_way s @ lo_lost s) = mset (lo_handed s) \<and>
     length (lo_deferred s) \<le> MaxDeferred \<and> lo_hasDeferred s = (lo_deferred s \<noteq> [])"

lemma given_snoc [simp]:
  "given (s\<lparr>lo_printed := lo_printed s @ [Waited l]\<rparr>) = given s @ [l]" "given (s\<lparr>lo_printed := lo_printed s @ [Direct l]\<rparr>) = given s"
  by (simp_all add: given_def List.map_filter_def)

lemma given_cong: "lo_printed s' = lo_printed s \<Longrightarrow> given s' = given s"
  by (simp add: given_def)

lemma Emit_deferred:
  assumes "lo_handler s"
  shows "given (Emit False l s) = given s" "lo_ready (Emit False l s) = lo_ready s"
    "lo_deferred (Emit False l s) = (if MaxDeferred \<le> length (lo_deferred s) then tl (lo_deferred s) else lo_deferred s) @ [l]"
    "lo_handed (Emit False l s) = lo_handed s @ [l]" "lo_hasDeferred (Emit False l s)"
    "lo_lost (Emit False l s) = lo_lost s @ (if MaxDeferred \<le> length (lo_deferred s) then [hd (lo_deferred s)] else [])"
  using assms by (simp_all add: Emit_def given_def Let_def)

lemma subseq_tl_part:
  assumes "subseq (a @ b @ c) h"
  shows "subseq (a @ b @ tl c) h"
proof -
  have "subseq (tl c) c" by (cases c) auto
  hence "subseq ((a @ b) @ tl c) ((a @ b) @ c)" by (intro list_emb_append_mono) auto
  hence "subseq (a @ b @ tl c) (a @ b @ c)" by simp
  thus ?thesis using assms by (rule subseq_order.trans)
qed

lemma Emit_ok:
  assumes "log_ok s"
  shows "log_ok (Emit on_game_thread l s)"
proof (cases "lo_handler s \<and> \<not> on_game_thread")
  case True
  hence h: "lo_handler s" and e: "Emit on_game_thread l s = Emit False l s" by auto
  let ?full = "MaxDeferred \<le> length (lo_deferred s)"
  have ok: "subseq (given s @ lo_ready s @ lo_deferred s) (lo_handed s)" "mset (given s @ lo_ready s @ lo_deferred s @ lo_lost s) = mset (lo_handed s)"
    "length (lo_deferred s) \<le> MaxDeferred" using assms by (simp_all add: log_ok_def on_the_way_def ac_simps)
  have "subseq (given s @ lo_ready s @ (if ?full then tl (lo_deferred s) else lo_deferred s)) (lo_handed s)" using ok(1) subseq_tl_part by auto
  hence a: "subseq ((given s @ lo_ready s @ (if ?full then tl (lo_deferred s) else lo_deferred s)) @ [l]) (lo_handed s @ [l])"
    by (rule list_emb_append_mono) simp
  have b: "?full \<Longrightarrow> lo_deferred s \<noteq> []" by (auto simp: MaxDeferred_def)
  hence c: "?full \<Longrightarrow> mset (lo_deferred s) = add_mset (hd (lo_deferred s)) (mset (tl (lo_deferred s)))" by (cases "lo_deferred s") auto
  show ?thesis unfolding e log_ok_def on_the_way_def Emit_deferred[OF h]
    using a ok(2,3) b c Emit_deferred(5)[OF h, of l] by (auto simp: MaxDeferred_def)
next
  case False thus ?thesis using assms by (auto simp: Emit_def log_ok_def on_the_way_def)
qed

lemma take_ok:
  assumes "log_ok s" "lo_ready s = []"
  shows "log_ok (deliver_take s)"
proof (cases "lo_hasDeferred s")
  case True
  have "subseq (given s) (lo_handed s)" using assms(1) subseq_order.trans[of "given s"] by (auto simp: log_ok_def)
  thus ?thesis using assms True
    by (auto simp: log_ok_def on_the_way_def deliver_take_def Let_def given_def ac_simps)
qed (use assms in \<open>simp add: deliver_take_def\<close>)

lemma next_given:
  assumes "lo_ready s = l # ls"
  shows "given (deliver_next s) = given s @ [l]" "lo_ready (deliver_next s) = ls" "lo_deferred (deliver_next s) = lo_deferred s"
    "lo_handed (deliver_next s) = lo_handed s" "lo_lost (deliver_next s) = lo_lost s" "lo_hasDeferred (deliver_next s) = lo_hasDeferred s"
  using assms by (simp_all add: deliver_next_def given_def List.map_filter_def)

lemma next_ok:
  assumes "log_ok s"
  shows "log_ok (deliver_next s)"
proof (cases "lo_ready s")
  case (Cons l ls)
  show ?thesis using assms unfolding log_ok_def on_the_way_def next_given[OF Cons] Cons by simp
qed (use assms in \<open>simp add: deliver_next_def\<close>)

lemma log_run_ok: "log_run s \<Longrightarrow> log_ok s"
proof (induction rule: log_run.induct)
  case lr_new show ?case by (simp add: log_ok_def new_log_def given_def on_the_way_def List.map_filter_def)
next
  case (lr_handler s handler) thus ?case by (simp add: log_ok_def SetHandler_def given_def on_the_way_def)
next
  case (lr_level s level) thus ?case by (simp add: log_ok_def SetMinimumLevel_def given_def on_the_way_def)
next
  case (lr_log s on_game_thread level message) thus ?case by (simp add: log_line_def Emit_ok)
qed (simp_all add: take_ok next_ok)

lemma deliver_all:
  "lo_ready ((deliver_next ^^ length (lo_ready s)) s) = [] \<and> given ((deliver_next ^^ length (lo_ready s)) s) = given s @ lo_ready s"
proof (induction "lo_ready s" arbitrary: s)
  case (Cons l ls)
  show ?case using Cons.hyps(1)[of "deliver_next s"] next_given[OF Cons.hyps(2)[symmetric]] Cons.hyps(2)[symmetric] by (simp add: funpow_swap1)
qed simp

lemma subseq_all: "subseq xs ys \<Longrightarrow> mset xs = mset ys \<Longrightarrow> xs = ys"
  by (metis subseq_same_length mset_eq_length)

text \<open>
  C39: no line of a worker is printed twice, out of order or forgotten. At every moment of every interleaving each line handed in was printed once, waits once, or is
  counted lost; what was printed and waits is in the order of handing in, and is all of it as long as nothing was lost. Only the oldest line is given up, and only
  when 256 wait or the handler is gone; a delivery prints all that waits.
\<close>

theorem log_lines_once:
  assumes "log_run s"
  shows "mset (given s @ on_the_way s @ lo_lost s) = mset (lo_handed s) \<and> subseq (given s @ on_the_way s) (lo_handed s) \<and>
    (lo_lost s = [] \<longrightarrow> given s @ on_the_way s = lo_handed s) \<and> length (lo_deferred s) \<le> 256 \<and>
    (lo_lost (log_line t level message s) \<noteq> lo_lost s \<longrightarrow> length (lo_deferred s) = 256 \<and> lo_lost (log_line t level message s) = lo_lost s @ [hd (lo_deferred s)]) \<and>
    (lo_handler s \<and> lo_ready s = [] \<longrightarrow> given (DeliverPending s) = given s @ lo_deferred s \<and> on_the_way (DeliverPending s) = [])"
proof -
  have ok: "log_ok s" using log_run_ok[OF assms] .
  have l: "lo_lost (log_line t level message s) \<noteq> lo_lost s \<longrightarrow> length (lo_deferred s) = 256 \<and> lo_lost (log_line t level message s) = lo_lost s @ [hd (lo_deferred s)]"
    using ok by (auto simp: log_line_def Emit_def Let_def MaxDeferred_def log_ok_def)
  have d: "given (DeliverPending s) = given s @ lo_deferred s \<and> on_the_way (DeliverPending s) = []" if h: "lo_handler s" "lo_ready s = []"
  proof -
    have t: "lo_ready (deliver_take s) = lo_deferred s" "lo_deferred (deliver_take s) = []" "given (deliver_take s) = given s"
      using ok h by (auto simp: deliver_take_def log_ok_def Let_def given_def)
    have "lo_deferred ((deliver_next ^^ n) x) = lo_deferred x" for n x by (induction n) (auto simp: deliver_next_def split: list.splits)
    thus ?thesis using deliver_all[of "deliver_take s"] t by (simp add: DeliverPending_def Let_def on_the_way_def)
  qed
  show ?thesis using ok l d subseq_all[of "given s @ on_the_way s" "lo_handed s"] by (auto simp: log_ok_def MaxDeferred_def)
qed

definition busy_log :: Log where
  "busy_log = log_line False Warn ''retry'' (log_line True Info ''frame'' (log_line False LogError ''timeout'' (SetHandler True new_log)))"

theorem log_lines_once_witness:
  "given busy_log @ on_the_way busy_log = [(LogError, ''timeout''), (Warn, ''retry'')] \<and> given (DeliverPending busy_log) = [(LogError, ''timeout''), (Warn, ''retry'')]"
proof -
  have r: "log_run busy_log" unfolding busy_log_def by (intro lr_log lr_handler lr_new) (simp add: new_log_def)
  have c: "lo_lost busy_log = []" "lo_handed busy_log = [(LogError, ''timeout''), (Warn, ''retry'')]" "lo_handler busy_log" "lo_ready busy_log = []" "given busy_log = []"
    "lo_deferred busy_log = [(LogError, ''timeout''), (Warn, ''retry'')]"
    by (simp_all add: busy_log_def log_line_def Wanted_def Emit_def SetHandler_def new_log_def given_def List.map_filter_def MaxDeferred_def)
  show ?thesis using log_lines_once[OF r] c by simp
qed

end
