(* ===== verification/ServerLoader.thy ===== *)
theory ServerLoader
  imports Strings
begin

text \<open>
  The module the engine loads as its game server: it reads where the real server is, forwards to it and starts the host around the server's own start. Source:
  \<^verbatim>\<open>src/Loader/GameSearchPaths.cpp\<close> and \<^verbatim>\<open>src/Loader/Loader.cpp\<close>. Files, modules and the engine's tables are what an
  environment answers; a swapped slot is a flag.
\<close>

section \<open>The search paths of a gameinfo file\<close>

definition is_blank :: "char \<Rightarrow> bool" where
  "is_blank c \<longleftrightarrow> c = CHR 0x20 \<or> c = CHR 0x09 \<or> c = CHR 0x0D"

definition SameKey :: "string \<Rightarrow> string \<Rightarrow> bool" where
  "SameKey left right \<longleftrightarrow> map to_lower left = map to_lower right"

text \<open>The next bare or quoted word of a line, and the rest.\<close>

definition NextWord :: "string \<Rightarrow> string \<times> string" where
  "NextWord line = (case dropWhile is_blank line of
     [] \<Rightarrow> ([], [])
   | c # cs \<Rightarrow>
       if c = CHR 0x22 then (takeWhile (\<lambda>x. x \<noteq> CHR 0x22) cs, drop 1 (dropWhile (\<lambda>x. x \<noteq> CHR 0x22) cs))
       else (takeWhile (\<lambda>x. \<not> is_blank x) (c # cs), dropWhile (\<lambda>x. \<not> is_blank x) (c # cs)))"

definition uncomment :: "string \<Rightarrow> string" where
  "uncomment line = (case find_sub ''//'' line of None \<Rightarrow> line | Some i \<Rightarrow> take i line)"

text \<open>The lines of a text; a newline at its end starts none.\<close>

function text_lines :: "string \<Rightarrow> string list" where
  "text_lines text = (if text = [] then [] else takeWhile (\<lambda>c. c \<noteq> CHR 0x0A) text # text_lines (drop 1 (dropWhile (\<lambda>c. c \<noteq> CHR 0x0A) text)))"
  by pat_completeness auto
termination text_lines
proof (relation "measure length")
  fix s0 :: string assume "s0 \<noteq> []"
  let ?rest = "dropWhile (\<lambda>c. c \<noteq> CHR 0x0A) s0"
  have "length (drop 1 ?rest) < length s0"
  proof (cases "?rest = []")
    case True
    have "drop 1 ?rest = []" unfolding True by simp
    thus ?thesis using \<open>s0 \<noteq> []\<close> by (simp only: list.size length_greater_0_conv simp_thms)
  next
    case False
    hence "0 < length ?rest" by simp
    thus ?thesis using length_dropWhile_le[of "\<lambda>c. c \<noteq> CHR 0x0A" s0] unfolding length_drop by linarith
  qed
  thus "(drop 1 ?rest, s0) \<in> measure length" unfolding in_measure .
qed simp

declare text_lines.simps [simp del]

fun paths_loop :: "bool \<Rightarrow> int \<Rightarrow> string list \<Rightarrow> string list" where
  "paths_loop inSearchPaths depth [] = []"
| "paths_loop inSearchPaths depth (l # ls) =
     (let (key, rest) = NextWord (uncomment l)
      in if key = [] then paths_loop inSearchPaths depth ls
         else if \<not> inSearchPaths then paths_loop (SameKey key ''SearchPaths'') depth ls
         else if key = ''{'' then paths_loop inSearchPaths (depth + 1) ls
         else if key = ''}'' then (if depth - 1 = 0 then [] else paths_loop inSearchPaths (depth - 1) ls)
         else if depth = 1 \<and> SameKey key ''Game'' then fst (NextWord rest) # paths_loop inSearchPaths depth ls
         else paths_loop inSearchPaths depth ls)"

definition GameSearchPaths :: "string \<Rightarrow> string list" where
  "GameSearchPaths gameinfo = paths_loop False 0 (text_lines gameinfo)"

section \<open>Starting and stopping\<close>

text \<open>What the loader meets: the command line, the gameinfo text, which libraries exist and load, and what the host does when started.\<close>

record loader_env =
  le_dedicated :: bool
  le_gameinfo :: string
  le_exists :: "string \<Rightarrow> bool"
  le_loads :: "string \<Rightarrow> bool"
  le_host_opens :: bool
  le_host_exports :: bool
  le_host_starts :: bool

definition LoadNextServer :: "loader_env \<Rightarrow> string option" where
  "LoadNextServer env =
     (if \<not> le_dedicated env \<or> le_gameinfo env = [] then None
      else find (\<lambda>p. le_exists env p \<and> le_loads env p) (GameSearchPaths (le_gameinfo env)))"

record boot_loader =
  ld_next :: "string option option"
  ld_connect :: bool
  ld_init :: bool
  ld_engineFactory :: bool
  ld_serverFactory :: bool
  ld_stopHost :: bool
  ld_khook :: bool
  ld_started :: nat
  ld_stopped :: nat

definition new_loader :: boot_loader where
  "new_loader = \<lparr>ld_next = None, ld_connect = False, ld_init = False, ld_engineFactory = False, ld_serverFactory = False, ld_stopHost = False,
     ld_khook = True, ld_started = 0, ld_stopped = 0\<rparr>"

text \<open>The first request finds the server; without one the hook library is shut down and every request fails.\<close>

definition FindNextFactory :: "loader_env \<Rightarrow> boot_loader \<Rightarrow> string option \<times> boot_loader" where
  "FindNextFactory env s = (case LoadNextServer env of None \<Rightarrow> (None, s\<lparr>ld_khook := False\<rparr>) | Some next \<Rightarrow> (Some next, s))"

datatype interface_name = ServerConfig | ServerGame | OtherInterface string

definition Patch :: "interface_name \<Rightarrow> boot_loader \<Rightarrow> boot_loader" where
  "Patch name s =
     (if name = ServerConfig \<and> \<not> ld_connect s then s\<lparr>ld_connect := True\<rparr>
      else if name = ServerGame \<and> \<not> ld_init s then s\<lparr>ld_serverFactory := True, ld_init := True\<rparr>
      else s)"

definition CreateInterface :: "loader_env \<Rightarrow> (string \<Rightarrow> interface_name \<Rightarrow> bool) \<Rightarrow> interface_name \<Rightarrow> boot_loader \<Rightarrow> bool \<times> boot_loader" where
  "CreateInterface env object name s =
     (let (next, s) = (case ld_next s of Some next \<Rightarrow> (next, s) | None \<Rightarrow> (let (next, s) = FindNextFactory env s in (next, s\<lparr>ld_next := Some next\<rparr>)))
      in case next of None \<Rightarrow> (False, s) | Some server \<Rightarrow> if object server name then (True, Patch name s) else (False, s))"

definition StartHost :: "loader_env \<Rightarrow> boot_loader \<Rightarrow> boot_loader" where
  "StartHost env s =
     (if \<not> ld_engineFactory s \<or> \<not> ld_serverFactory s then s
      else if \<not> le_host_opens env then s
      else if \<not> le_host_exports env then s
      else if \<not> le_host_starts env then s
      else s\<lparr>ld_stopHost := True, ld_started := ld_started s + 1\<rparr>)"

definition StopHost :: "boot_loader \<Rightarrow> boot_loader" where
  "StopHost s = (if ld_stopHost s then s\<lparr>ld_stopHost := False, ld_stopped := ld_stopped s + 1\<rparr> else s)"

definition ld_OnConnect :: "boot_loader \<Rightarrow> boot_loader" where "ld_OnConnect s = s\<lparr>ld_engineFactory := True\<rparr>"
definition ld_OnInit :: "loader_env \<Rightarrow> boot_loader \<Rightarrow> boot_loader" where "ld_OnInit env s = StartHost env s"
definition ld_OnShutdown :: "boot_loader \<Rightarrow> boot_loader" where "ld_OnShutdown s = StopHost s"
definition ld_OnDisconnect :: "boot_loader \<Rightarrow> boot_loader" where "ld_OnDisconnect s = (StopHost s)\<lparr>ld_khook := False\<rparr>"

text \<open>The engine's calls: it reaches the loader's handlers through slots the loader swapped, and starts a server once between stops, while hooks work.\<close>

inductive loader_run :: "boot_loader \<Rightarrow> bool" where
  run_new: "loader_run new_loader"
| run_create: "loader_run s \<Longrightarrow> loader_run (snd (CreateInterface env object name s))"
| run_connect: "loader_run s \<Longrightarrow> ld_connect s \<Longrightarrow> loader_run (ld_OnConnect s)"
| run_init: "loader_run s \<Longrightarrow> ld_init s \<Longrightarrow> ld_khook s \<Longrightarrow> \<not> ld_stopHost s \<Longrightarrow> loader_run (ld_OnInit env s)"
| run_shutdown: "loader_run s \<Longrightarrow> ld_init s \<Longrightarrow> loader_run (ld_OnShutdown s)"
| run_disconnect: "loader_run s \<Longrightarrow> ld_connect s \<Longrightarrow> loader_run (ld_OnDisconnect s)"

definition loader_ok :: "boot_loader \<Rightarrow> bool" where
  "loader_ok s \<longleftrightarrow> ld_started s = ld_stopped s + (if ld_stopHost s then 1 else 0) \<and> (ld_stopHost s \<longrightarrow> ld_khook s) \<and>
     (0 < ld_started s \<longrightarrow> ld_connect s \<and> ld_init s) \<and> (ld_init s \<or> ld_connect s \<longrightarrow> (\<exists>server. ld_next s = Some (Some server))) \<and>
     (ld_engineFactory s \<longrightarrow> ld_connect s) \<and> (ld_serverFactory s \<longrightarrow> ld_init s)"

text \<open>
  The host runs at most once at a time, only behind a server that was found, and only while hooks work; whatever was started is stopped by the engine's shutdown
  or its disconnect, whichever comes first, once.
\<close>

lemma Patch_ok: "loader_ok s \<Longrightarrow> ld_next s = Some (Some server) \<Longrightarrow> loader_ok (Patch name s)"
  by (auto simp: loader_ok_def Patch_def)

lemma CreateInterface_ok:
  assumes "loader_ok s"
  shows "loader_ok (snd (CreateInterface env object name s))"
proof (cases "ld_next s")
  case None
  hence none: "\<not> ld_init s" "\<not> ld_connect s" "ld_started s = 0" using assms by (auto simp: loader_ok_def)
  have ok: "loader_ok (s\<lparr>ld_next := Some (Some server)\<rparr>)" "loader_ok (s\<lparr>ld_khook := False, ld_next := Some None\<rparr>)" for server
    using assms none by (auto simp: loader_ok_def split: if_splits)
  show ?thesis using None ok Patch_ok[OF ok(1)] by (cases "LoadNextServer env") (auto simp: CreateInterface_def FindNextFactory_def)
next
  case (Some found)
  thus ?thesis using assms Patch_ok[OF assms] by (cases found) (auto simp: CreateInterface_def)
qed

lemma StopHost_ok: "loader_ok s \<Longrightarrow> loader_ok (StopHost s) \<and> \<not> ld_stopHost (StopHost s)"
  by (auto simp: loader_ok_def StopHost_def)

lemma loader_run_ok: "loader_run s \<Longrightarrow> loader_ok s"
proof (induction rule: loader_run.induct)
  case run_new show ?case by (simp add: loader_ok_def new_loader_def)
next
  case (run_connect s) thus ?case by (simp add: loader_ok_def ld_OnConnect_def)
next
  case (run_init s env) thus ?case by (auto simp: loader_ok_def ld_OnInit_def StartHost_def)
next
  case (run_disconnect s)
  thus ?case using StopHost_ok[of s] by (simp add: loader_ok_def ld_OnDisconnect_def)
qed (simp_all add: CreateInterface_ok ld_OnShutdown_def StopHost_ok)

lemma shutdown_stops: "loader_run s \<Longrightarrow> ld_started (ld_OnShutdown s) = ld_stopped (ld_OnShutdown s) \<and> ld_OnDisconnect (ld_OnShutdown s) = (ld_OnShutdown s)\<lparr>ld_khook := False\<rparr>"
  using loader_run_ok[of s] by (auto simp: loader_ok_def ld_OnShutdown_def ld_OnDisconnect_def StopHost_def)

section \<open>Reading back a search path block\<close>

definition line_key :: "string \<Rightarrow> string" where "line_key l = fst (NextWord (uncomment l))"
definition line_value :: "string \<Rightarrow> string" where "line_value l = fst (NextWord (snd (NextWord (uncomment l))))"
definition one_line :: "string \<Rightarrow> bool" where "one_line l \<longleftrightarrow> CHR 0x0A \<notin> set l"

definition file_of :: "string list \<Rightarrow> string" where "file_of ls = concat (map (\<lambda>l. l @ [CHR 0x0A]) ls)"

lemma text_lines_file: "\<forall>l \<in> set ls. one_line l \<Longrightarrow> text_lines (file_of ls) = ls"
proof (induction ls)
  case (Cons l ls)
  have "\<forall>c \<in> set l. c \<noteq> CHR 0x0A" using Cons.prems by (auto simp: one_line_def)
  hence "takeWhile (\<lambda>c. c \<noteq> CHR 0x0A) (l @ CHR 0x0A # file_of ls) = l" "dropWhile (\<lambda>c. c \<noteq> CHR 0x0A) (l @ CHR 0x0A # file_of ls) = CHR 0x0A # file_of ls"
    by (simp_all add: takeWhile_append2 dropWhile_append2)
  thus ?case using Cons by (subst text_lines.simps) (simp add: file_of_def)
qed (simp add: file_of_def text_lines.simps)

lemma skip_before: "\<forall>l \<in> set before. \<not> SameKey (line_key l) ''SearchPaths'' \<Longrightarrow> paths_loop False d (before @ ls) = paths_loop False d ls"
  by (induction before) (auto simp: line_key_def case_prod_beta Let_def)

lemma read_body: "\<forall>l \<in> set body. line_key l \<notin> {''{'', ''}''} \<Longrightarrow> line_key close = ''}'' \<Longrightarrow>
    paths_loop True 1 (body @ close # rest) = map line_value (filter (\<lambda>l. SameKey (line_key l) ''Game'') body)"
proof (induction body)
  case Nil thus ?case by (simp add: line_key_def case_prod_beta Let_def)
next
  case (Cons l body)
  have "\<not> SameKey [] ''Game''" by (simp add: SameKey_def)
  thus ?case using Cons by (auto simp: line_key_def line_value_def case_prod_beta Let_def)
qed

text \<open>An entry of a block: a bare key, and a value bare or in quotes.\<close>

definition bare :: "string \<Rightarrow> bool" where
  "bare w \<longleftrightarrow> w \<noteq> [] \<and> (\<forall>c \<in> set w. \<not> is_blank c \<and> c \<noteq> CHR 0x22 \<and> c \<noteq> CHR 0x0A)"

definition entry_line :: "bool \<Rightarrow> string \<Rightarrow> string \<Rightarrow> string" where
  "entry_line quoted_value key v = CHR 0x09 # key @ CHR 0x09 # (if quoted_value then CHR 0x22 # v @ [CHR 0x22] else v)"

lemma NextWord_bare: "bare w \<Longrightarrow> NextWord (CHR 0x09 # w @ CHR 0x09 # rest) = (w, CHR 0x09 # rest)"
  by (cases w) (auto simp: NextWord_def bare_def is_blank_def takeWhile_append2 dropWhile_append2)

lemma NextWord_bare_last: "bare w \<Longrightarrow> fst (NextWord (CHR 0x09 # w)) = w"
  by (cases w) (auto simp: NextWord_def bare_def is_blank_def)

lemma NextWord_quoted: "CHR 0x22 \<notin> set w \<Longrightarrow> fst (NextWord (CHR 0x09 # CHR 0x22 # w @ [CHR 0x22])) = w"
proof -
  assume "CHR 0x22 \<notin> set w"
  hence "takeWhile (\<lambda>x. x \<noteq> CHR 0x22) (w @ [CHR 0x22]) = w" by (subst takeWhile_append2) auto
  thus ?thesis by (simp add: NextWord_def is_blank_def)
qed

lemma entry_read:
  assumes "bare key" "if q then CHR 0x22 \<notin> set v else bare v" "find_sub ''//'' (entry_line q key v) = None"
  shows "line_key (entry_line q key v) = key" "line_value (entry_line q key v) = v"
  using assms NextWord_bare[OF assms(1)] NextWord_bare_last NextWord_quoted
  by (auto simp: line_key_def line_value_def uncomment_def entry_line_def split: if_splits)

definition entry_ok :: "bool \<times> string \<times> string \<Rightarrow> bool" where
  "entry_ok e = (case e of (q, key, v) \<Rightarrow> bare key \<and> key \<noteq> ''{'' \<and> key \<noteq> ''}'' \<and> CHR 0x0A \<notin> set v \<and> (if q then CHR 0x22 \<notin> set v else bare v) \<and> find_sub ''//'' (entry_line q key v) = None)"

definition line_of :: "bool \<times> string \<times> string \<Rightarrow> string" where
  "line_of e = (case e of (q, key, v) \<Rightarrow> entry_line q key v)"

lemma entry_ok_line:
  assumes "entry_ok e"
  shows "line_key (line_of e) = fst (snd e) \<and> line_value (line_of e) = snd (snd e) \<and> one_line (line_of e) \<and> fst (snd e) \<notin> {''{'', ''}''}"
proof -
  obtain q key v where e: "e = (q, key, v)" by (cases e)
  have "one_line (entry_line q key v)" using assms by (auto simp: e entry_ok_def entry_line_def one_line_def bare_def)
  thus ?thesis using assms entry_read[of key q v] by (simp add: e entry_ok_def line_of_def)
qed

text \<open>
  the paths a gameinfo file lists are read back in order. For any lines before the block, any entries in it, values bare or quoted, and anything after it, the
  result is the values of the entries whose key is Game in any case, and no other.
\<close>

theorem search_paths_read:
  assumes "\<forall>l \<in> set before. one_line l \<and> \<not> SameKey (line_key l) ''SearchPaths''" "one_line header" "SameKey (line_key header) ''SearchPaths''"
    and "one_line opening" "line_key opening = ''{''" "\<forall>e \<in> set entries. entry_ok e" "one_line closing" "line_key closing = ''}''" "\<forall>l \<in> set rest. one_line l"
  shows "GameSearchPaths (file_of (before @ [header, opening] @ map line_of entries @ [closing] @ rest)) =
    map (\<lambda>e. snd (snd e)) (filter (\<lambda>e. SameKey (fst (snd e)) ''Game'') entries)"
proof -
  let ?ls = "before @ [header, opening] @ map line_of entries @ [closing] @ rest"
  have e: "line_key (line_of e) = fst (snd e)" "line_value (line_of e) = snd (snd e)" "one_line (line_of e)" "fst (snd e) \<notin> {''{'', ''}''}" if "e \<in> set entries" for e
    using entry_ok_line assms(6) that by blast+
  have "\<forall>l \<in> set ?ls. one_line l" using assms e(3) by auto
  hence "GameSearchPaths (file_of ?ls) = paths_loop False 0 ?ls" by (simp only: GameSearchPaths_def text_lines_file)
  also have "\<dots> = paths_loop False 0 ([header, opening] @ map line_of entries @ [closing] @ rest)" by (rule skip_before) (use assms(1) in blast)
  also have "\<dots> = paths_loop True 0 (opening # map line_of entries @ [closing] @ rest)"
    using assms(3) by (auto simp: line_key_def case_prod_beta Let_def SameKey_def)
  also have "\<dots> = paths_loop True 1 (map line_of entries @ closing # rest)" using assms(5) by (simp add: line_key_def case_prod_beta Let_def)
  also have "\<dots> = map line_value (filter (\<lambda>l. SameKey (line_key l) ''Game'') (map line_of entries))"
    by (rule read_body) (use e(1,4) assms(8) in auto)
  also have "\<dots> = map (\<lambda>e. snd (snd e)) (filter (\<lambda>e. SameKey (fst (snd e)) ''Game'') entries)"
    using e(1,2) by (induction entries) auto
  finally show ?thesis .
qed

theorem search_paths_read_witness:
  "GameSearchPaths (file_of ([''GameInfo'', ''{'', ''// paths''] @ [''SearchPaths'', ''{''] @ map line_of [(False, ''Game'', ''csgo/addons/metamod''), (False, ''Mod'', ''csgo''), (True, ''game'', ''my game'')] @ [''}''] @ [''}''])) =
   [''csgo/addons/metamod'', ''my game'']"
proof -
  have b: "\<forall>l \<in> set [''GameInfo'', ''{'', ''// paths'']. one_line l \<and> \<not> SameKey (line_key l) ''SearchPaths''" by code_simp
  have h: "one_line ''SearchPaths''" "SameKey (line_key ''SearchPaths'') ''SearchPaths''" "one_line ''{''" "line_key ''{'' = ''{''" by code_simp+
  have e: "\<forall>e \<in> set [(False, ''Game'', ''csgo/addons/metamod''), (False, ''Mod'', ''csgo''), (True, ''game'', ''my game'')]. entry_ok e" by code_simp
  have c: "one_line ''}''" "line_key ''}'' = ''}''" "\<forall>l \<in> set [''}'']. one_line l" by code_simp+
  have f: "filter (\<lambda>e. SameKey (fst (snd e)) ''Game'') [(False, ''Game'', ''csgo/addons/metamod''), (False, ''Mod'', ''csgo''), (True, ''game'', ''my game'')] =
    [(False, ''Game'', ''csgo/addons/metamod''), (True, ''game'', ''my game'')]" by code_simp
  show ?thesis using search_paths_read[OF b h e c] unfolding f by simp
qed

text \<open>A block opened on the line of its key is not entered: no path is found.\<close>

lemma brace_on_key_line: "GameSearchPaths (file_of [''SearchPaths {'', entry_line False ''Game'' ''csgo'', ''}'']) = []"
  by code_simp

end
