(* ===== verification/EntityWorld.thy ===== *)
theory EntityWorld
  imports Visibility Strings Result "HOL-Library.Word"
begin

unbundle bit_operations_syntax

text \<open>
  The entity system a runtime reads from the engine, the wrappers over its entities, and what pawns carry and do. Sources: \<^verbatim>\<open>src/Entities/EntitySystem.cpp\<close>,
  \<^verbatim>\<open>EntitySystemSpawn.cpp\<close>, \<^verbatim>\<open>Entity.cpp\<close>, \<^verbatim>\<open>Pawn.cpp\<close>, \<^verbatim>\<open>Controller.cpp\<close>, \<^verbatim>\<open>KeyValues.cpp\<close>,
  \<^verbatim>\<open>src/Hooks/WeaponDrop.cpp\<close> and \<^verbatim>\<open>TextMessages.cpp\<close>. An entity is its handle, which the engine resolves to nothing once the entity is
  gone; fields are those of the engine's memory, and what the engine is asked to do is recorded.
\<close>

section \<open>The entity system\<close>

text \<open>What there is to read: the resource service, the pointer at the offset, whether the class's table is known, and which pointers are instances of it.\<close>

record 'p system_env =
  sy_resources :: bool
  sy_offset :: bool
  sy_read :: "'p option"
  sy_table :: bool
  sy_isInstance :: "'p \<Rightarrow> bool"

text \<open>The pointer kept, the one published for the SDK, and whether a pointer was checked.\<close>

record 'p EntitySystem =
  ey_system :: "'p option"
  ey_published :: "'p option"
  ey_isReal :: "bool option"

definition SetEntitySystem :: "'p option \<Rightarrow> 'p EntitySystem \<Rightarrow> 'p EntitySystem" where
  "SetEntitySystem system s = s\<lparr>ey_system := system, ey_published := system\<rparr>"

definition ReadEntitySystemPointer :: "'p system_env \<Rightarrow> 'p EntitySystem \<Rightarrow> 'p option \<times> 'p EntitySystem" where
  "ReadEntitySystemPointer env s =
     (if \<not> sy_resources env \<or> ey_isReal s = Some False then (None, s)
      else case sy_read env of
        None \<Rightarrow> (None, s)
      | Some system \<Rightarrow>
          if ey_isReal s = None
          then (let real = (\<not> sy_table env \<or> sy_isInstance env system); s = s\<lparr>ey_isReal := Some real\<rparr>
                in if \<not> real then (None, s) else (Some system, s))
          else (Some system, s))"

definition es_Raw :: "'p system_env \<Rightarrow> 'p EntitySystem \<Rightarrow> 'p option \<times> 'p EntitySystem" where
  "es_Raw env s = (let s = (if ey_system s = None then (let (p, s) = ReadEntitySystemPointer env s in SetEntitySystem p s) else s) in (ey_system s, s))"

definition EntitySystem_new :: "'p system_env \<Rightarrow> 'p EntitySystem" where
  "EntitySystem_new env = (let s = \<lparr>ey_system = None, ey_published = None, ey_isReal = None\<rparr> in if sy_resources env \<and> sy_offset env then snd (es_Raw env s) else s)"

definition es_OnServerStartup :: "'p system_env \<Rightarrow> 'p EntitySystem \<Rightarrow> 'p EntitySystem" where
  "es_OnServerStartup env s = snd (es_Raw env (SetEntitySystem None s))"

definition es_destroy :: "'p option \<Rightarrow> 'p EntitySystem \<Rightarrow> 'p option" where
  "es_destroy published s = (if published = ey_system s then None else published)"

definition es_Available :: "'p system_env \<Rightarrow> bool \<Rightarrow> bool \<Rightarrow> status" where
  "es_Available env createEntityByName dispatchSpawn =
     (if \<not> sy_resources env then Inl (Error_NotReady ''IGameResourceService not available'')
      else if \<not> sy_offset env then Inl (Error_Unsupported ''the GameEntitySystem offset did not bind'')
      else if \<not> createEntityByName \<or> \<not> dispatchSpawn then Inl (Error_Unsupported ''CreateEntityByName or DispatchSpawn did not bind'')
      else Inr ())"

text \<open>
  Over time: lookups read the system; within a map the engine's pointer may appear but does not change; a new map has a new one, and the service hears of it
  before any other call.
\<close>

inductive es_run :: "'p system_env \<Rightarrow> 'p EntitySystem \<Rightarrow> bool" where
  es_new: "es_run env (EntitySystem_new env)"
| es_lookup: "es_run env s \<Longrightarrow> es_run env (snd (es_Raw env s))"
| es_appears: "es_run env s \<Longrightarrow> sy_read env = None \<Longrightarrow> es_run (env\<lparr>sy_read := p\<rparr>) s"
| es_map: "es_run env s \<Longrightarrow> es_run (env\<lparr>sy_read := p\<rparr>) (es_OnServerStartup (env\<lparr>sy_read := p\<rparr>) s)"

definition es_ok :: "'p system_env \<Rightarrow> 'p EntitySystem \<Rightarrow> bool" where
  "es_ok env s \<longleftrightarrow> ey_published s = ey_system s \<and> (ey_system s \<noteq> None \<longrightarrow> ey_system s = sy_read env \<and> ey_isReal s = Some True)"

lemma es_Raw_ok: "es_ok env s \<Longrightarrow> es_ok env (snd (es_Raw env s))"
  by (auto simp: es_ok_def es_Raw_def ReadEntitySystemPointer_def SetEntitySystem_def Let_def split: option.splits if_splits)

lemma es_startup_ok: "es_ok env (es_OnServerStartup env s)"
  unfolding es_OnServerStartup_def by (rule es_Raw_ok) (simp add: es_ok_def SetEntitySystem_def)

text \<open>Every lookup goes through the system of the map that runs, and through none once the offset was found to reach something else.\<close>

lemma es_run_ok: "es_run env s \<Longrightarrow> es_ok env s"
proof (induction rule: es_run.induct)
  case (es_new env)
  show ?case using es_Raw_ok[of env "\<lparr>ey_system = None, ey_published = None, ey_isReal = None\<rparr>"] by (simp add: EntitySystem_new_def Let_def es_ok_def)
next
  case (es_lookup env s) thus ?case by (simp add: es_Raw_ok)
next
  case (es_appears env s p) thus ?case by (auto simp: es_ok_def)
next
  case (es_map env s p) show ?case by (rule es_startup_ok)
qed

lemma es_drifted: "ey_isReal s = Some False \<Longrightarrow> ey_system s = None \<Longrightarrow> fst (es_Raw env s) = None \<and> ey_isReal (snd (es_Raw env s)) = Some False"
  by (simp add: es_Raw_def ReadEntitySystemPointer_def SetEntitySystem_def)

section \<open>Entities\<close>

datatype verb = Teleport | DispatchSpawn string | AcceptInput string string | AddKillEvent | SetModel string | EmitSound string | StopSound string |
  RemoveNow | SelectItem nat | RemoveAllItems bool | CommitSuicide | Respawns | ChangesTeam Team

record weapon_fields =
  wf_NextPrimaryAttackTick :: int
  wf_NextSecondaryAttackTick :: int

record entity_fields =
  ef_class :: string
  ef_index :: int
  ef_model :: bool
  ef_health :: int
  ef_maxHealth :: int
  ef_alive :: bool
  ef_team :: Team
  ef_flags :: "32 word"
  ef_velocity :: "int \<times> int \<times> int"
  ef_items :: bool
  ef_weapons :: "nat list option"
  ef_active :: nat
  ef_last :: nat
  ef_weapon :: "weapon_fields option"
  ef_controller :: nat
  ef_observer :: "int option"

text \<open>The world: what each handle resolves to, what bound, and what the engine was asked for.\<close>

record world =
  wd_entities :: "nat \<Rightarrow> entity_fields option"
  wd_bound :: "verb \<Rightarrow> bool"
  wd_asked :: "(nat \<times> verb) list"

definition Unset_ref :: nat where "Unset_ref = 4294967295"

text \<open>An entity is falsy or a handle that resolved.\<close>

definition es_Get :: "nat \<Rightarrow> world \<Rightarrow> nat option" where
  "es_Get ref w = (if ref = Unset_ref then None else if wd_entities w ref = None then None else Some ref)"

definition ask :: "nat option \<Rightarrow> verb \<Rightarrow> world \<Rightarrow> world" where
  "ask e v w = (case e of None \<Rightarrow> w | Some h \<Rightarrow> if wd_bound w v then w\<lparr>wd_asked := wd_asked w @ [(h, v)]\<rparr> else w)"

definition write_field :: "nat option \<Rightarrow> (entity_fields \<Rightarrow> entity_fields) \<Rightarrow> world \<Rightarrow> world" where
  "write_field e f w = (case e of None \<Rightarrow> w | Some h \<Rightarrow> w\<lparr>wd_entities := (wd_entities w)(h := map_option f (wd_entities w h))\<rparr>)"

definition read_field :: "nat option \<Rightarrow> (entity_fields \<Rightarrow> 'a) \<Rightarrow> 'a \<Rightarrow> world \<Rightarrow> 'a" where
  "read_field e f zero w = (case e of None \<Rightarrow> zero | Some h \<Rightarrow> (case wd_entities w h of None \<Rightarrow> zero | Some x \<Rightarrow> f x))"

definition en_Index :: "nat option \<Rightarrow> world \<Rightarrow> int" where "en_Index e w = read_field e ef_index (-1) w"
definition en_ClassName :: "nat option \<Rightarrow> world \<Rightarrow> string" where "en_ClassName e w = read_field e ef_class [] w"
definition AsPawn :: "nat option \<Rightarrow> world \<Rightarrow> nat option" where "AsPawn e w = (if en_ClassName e w = ''player'' then e else None)"

definition en_AcceptInput :: "string \<Rightarrow> string \<Rightarrow> nat option \<Rightarrow> world \<Rightarrow> world" where
  "en_AcceptInput input v e w = (if input = [] then w else ask e (AcceptInput input v) w)"

definition en_RemoveAfter :: "nat option \<Rightarrow> world \<Rightarrow> world" where "en_RemoveAfter e w = ask e AddKillEvent w"

definition en_SetModel :: "string \<Rightarrow> nat option \<Rightarrow> world \<Rightarrow> world" where
  "en_SetModel path e w = (if path \<noteq> [] \<and> read_field e ef_model False w then ask e (SetModel path) w else w)"

definition en_PlayAnimation :: "string \<Rightarrow> string \<Rightarrow> nat option \<Rightarrow> world \<Rightarrow> world" where
  "en_PlayAnimation animation idle e w =
     en_AcceptInput ''SetAnimationNotLooping'' animation e (if idle \<noteq> [] then en_AcceptInput ''SetIdleAnimationLooping'' idle e w else w)"

definition en_EmitSound :: "string \<Rightarrow> nat option \<Rightarrow> world \<Rightarrow> world" where
  "en_EmitSound sound e w = (if sound \<noteq> [] then ask e (EmitSound sound) w else w)"

definition en_StopSound :: "string \<Rightarrow> nat option \<Rightarrow> world \<Rightarrow> world" where
  "en_StopSound sound e w = (if sound \<noteq> [] then ask e (StopSound sound) w else w)"

text \<open>A falsy entity reads zero and ignores writes and verbs, and so does one whose handle resolves to nothing.\<close>

lemma falsy_ignores [simp]: "ask None v w = w" "write_field None f w = w" "read_field None g z w = z" "en_AcceptInput i t None w = w" "en_SetModel p None w = w"
  by (simp_all add: ask_def write_field_def read_field_def en_AcceptInput_def en_SetModel_def)

lemma stale_ref: "wd_entities w ref = None \<Longrightarrow> es_Get ref w = None"
  by (simp add: es_Get_def)

section \<open>Spawn values\<close>

text \<open>An engine object owned here until a spawn takes it. The engine frees what it took; the ghost counts the objects freed.\<close>

record KeyValues =
  kv_held :: "(string \<times> string) list option"
  kv_freed :: nat

definition KeyValues_new :: KeyValues where "KeyValues_new = \<lparr>kv_held = Some [], kv_freed = 0\<rparr>"

definition kv_Set :: "string \<Rightarrow> string \<Rightarrow> KeyValues \<Rightarrow> KeyValues" where
  "kv_Set key v s = (case kv_held s of None \<Rightarrow> s | Some kvs \<Rightarrow> s\<lparr>kv_held := Some (kvs @ [(key, v)])\<rparr>)"

definition kv_Detach :: "KeyValues \<Rightarrow> (string \<times> string) list option \<times> KeyValues" where
  "kv_Detach s = (kv_held s, s\<lparr>kv_held := None\<rparr>)"

definition kv_destroy :: "KeyValues \<Rightarrow> KeyValues" where
  "kv_destroy s = (case kv_held s of None \<Rightarrow> s | Some kvs \<Rightarrow> s\<lparr>kv_held := None, kv_freed := kv_freed s + 1\<rparr>)"

text \<open>The engine frees what a spawn hands it.\<close>

definition en_Spawn :: "nat option \<Rightarrow> KeyValues \<Rightarrow> world \<Rightarrow> KeyValues \<times> world" where
  "en_Spawn e kv w = (case e of None \<Rightarrow> (kv, w) | Some h \<Rightarrow>
     if wd_bound w (DispatchSpawn []) then
       (let (taken, kv) = kv_Detach kv in (kv\<lparr>kv_freed := kv_freed kv + (case taken of None \<Rightarrow> 0 | Some _ \<Rightarrow> 1)\<rparr>, w\<lparr>wd_asked := wd_asked w @ [(h, DispatchSpawn [])]\<rparr>))
     else (kv, w))"

text \<open>However many spawns use the values, they are freed once, by the engine or at the end.\<close>

lemma kv_freed_once:
  assumes "kv_freed kv + (if kv_held kv = None then 0 else 1) = 1"
  shows "kv_freed (fst (en_Spawn e kv w)) + (if kv_held (fst (en_Spawn e kv w)) = None then 0 else 1) = 1 \<and>
    kv_freed (kv_Set k v kv) + (if kv_held (kv_Set k v kv) = None then 0 else 1) = 1 \<and> kv_freed (kv_destroy kv) = 1"
  using assms by (auto simp: en_Spawn_def kv_Detach_def kv_Set_def kv_destroy_def split: option.splits if_splits)

section \<open>Pawns\<close>

text \<open>The flag bits are the engine's and arguments.\<close>

text \<open>The engine's answer to giving an item to the pawn in the world as it is: the item's handle, and what else changed.\<close>

type_synonym give_item = "nat \<Rightarrow> string \<Rightarrow> world \<Rightarrow> nat option \<times> world"

definition IsAlive :: "nat option \<Rightarrow> world \<Rightarrow> bool" where "IsAlive e w = read_field e ef_alive False w"

definition pn_SetGodmode :: "32 word \<Rightarrow> bool \<Rightarrow> nat option \<Rightarrow> world \<Rightarrow> world" where
  "pn_SetGodmode FL_GODMODE enabled e w = write_field e (\<lambda>x. x\<lparr>ef_flags := (if enabled then ef_flags x OR FL_GODMODE else ef_flags x AND NOT FL_GODMODE)\<rparr>) w"

definition pn_SetVelocity :: "32 word \<Rightarrow> int \<times> int \<times> int \<Rightarrow> nat option \<Rightarrow> world \<Rightarrow> world" where
  "pn_SetVelocity FL_ONGROUND velocity e w = write_field e (\<lambda>x. x\<lparr>ef_flags := ef_flags x AND NOT FL_ONGROUND\<rparr>) (write_field e (\<lambda>x. x\<lparr>ef_velocity := velocity\<rparr>) w)"

text \<open>Healing adds in 32 bits; a sum out of range is undefined, \<open>None\<close>.\<close>

definition Heal :: "int \<Rightarrow> nat option \<Rightarrow> world \<Rightarrow> (bool \<times> world) option" where
  "Heal amount e w =
     (let health = read_field e ef_health 0 w; total = health + amount
      in if total < - (2 ^ 31) \<or> 2 ^ 31 \<le> total then None
         else let healed = min total (read_field e ef_maxHealth 0 w)
              in if \<not> IsAlive e w \<or> healed \<le> health then Some (False, w) else Some (True, write_field e (\<lambda>x. x\<lparr>ef_health := healed\<rparr>) w))"

definition Opposite :: "Team \<Rightarrow> Team" where
  "Opposite team = (case team of Team_T \<Rightarrow> Team_CT | Team_CT \<Rightarrow> Team_T | _ \<Rightarrow> Team_None)"

definition SetTeamNum :: "Team \<Rightarrow> nat option \<Rightarrow> world \<Rightarrow> world" where
  "SetTeamNum team e w = write_field e (\<lambda>x. x\<lparr>ef_team := team\<rparr>) w"

definition GiveItem :: "give_item option \<Rightarrow> string \<Rightarrow> nat option \<Rightarrow> world \<Rightarrow> nat option \<times> world" where
  "GiveItem give item e w = (case e of None \<Rightarrow> (None, w) | Some h \<Rightarrow>
     if \<not> read_field e ef_items False w \<or> item = [] then (None, w)
     else (case give of None \<Rightarrow> (None, w) | Some gives \<Rightarrow>
       (case gives h item w of
          (Some given, w) \<Rightarrow> (Some given, w)
        | (None, w) \<Rightarrow>
            (let team = read_field e ef_team Team_None w; other = Opposite team
             in if other = Team_None then (None, w)
                else let (given, w) = gives h item (SetTeamNum other e w) in (given, SetTeamNum team e w)))))"

definition StripWeapons :: "bool \<Rightarrow> nat option \<Rightarrow> world \<Rightarrow> bool \<times> world" where
  "StripWeapons removeSuit e w =
     (if e = None \<or> \<not> read_field e ef_items False w \<or> \<not> wd_bound w (RemoveAllItems removeSuit) then (False, w)
      else (True, ask e (RemoveAllItems removeSuit) w))"

definition Weapons :: "nat option \<Rightarrow> world \<Rightarrow> nat list" where
  "Weapons e w = (case read_field e ef_weapons None w of None \<Rightarrow> [] | Some handles \<Rightarrow> List.map_filter (\<lambda>ref. es_Get ref w) handles)"

definition SelectWeapon :: "nat option \<Rightarrow> nat option \<Rightarrow> world \<Rightarrow> world" where
  "SelectWeapon weapon e w = (case weapon of None \<Rightarrow> w | Some held \<Rightarrow>
     if read_field e ef_weapons None w = None \<or> \<not> wd_bound w (SelectItem held) then w
     else if held \<in> set (Weapons e w) then ask e (SelectItem held) w else w)"

definition RemoveWeapon :: "nat option \<Rightarrow> nat option \<Rightarrow> world \<Rightarrow> world" where
  "RemoveWeapon weapon e w =
     (let inHand = (weapon \<noteq> None \<and> read_field e ef_weapons None w \<noteq> None \<and> read_field e ef_active Unset_ref w = the weapon);
          w = (if inHand \<and> IsAlive e w then SelectWeapon (es_Get (read_field e ef_last Unset_ref w) w) e w else w)
      in en_RemoveAfter weapon w)"

definition HoldFire :: "int \<Rightarrow> nat option \<Rightarrow> world \<Rightarrow> world" where
  "HoldFire tick e w =
     (let active = (if read_field e ef_weapons None w = None then None else es_Get (read_field e ef_active Unset_ref w) w)
      in write_field active (\<lambda>x. x\<lparr>ef_weapon := map_option (\<lambda>f.
           (let f = (if wf_NextPrimaryAttackTick f < tick then f\<lparr>wf_NextPrimaryAttackTick := tick\<rparr> else f)
            in if wf_NextSecondaryAttackTick f < tick then f\<lparr>wf_NextSecondaryAttackTick := tick\<rparr> else f)) (ef_weapon x)\<rparr>) w)"

definition pn_Slay :: "nat option \<Rightarrow> world \<Rightarrow> world" where "pn_Slay e w = ask e CommitSuicide w"

definition pn_ObserverMode :: "nat option \<Rightarrow> world \<Rightarrow> int" where
  "pn_ObserverMode e w = (case read_field e ef_observer None w of None \<Rightarrow> 0 | Some m \<Rightarrow> m)"

definition pn_SetObserverMode :: "int \<Rightarrow> nat option \<Rightarrow> world \<Rightarrow> status \<times> world" where
  "pn_SetObserverMode mode e w = (case read_field e ef_observer None w of
     None \<Rightarrow> (Inl (Error_NotReady ''observer services unavailable''), w)
   | Some _ \<Rightarrow> (Inr (), write_field e (\<lambda>x. x\<lparr>ef_observer := Some mode\<rparr>) w))"

definition pn_Slot :: "nat option \<Rightarrow> world \<Rightarrow> int" where
  "pn_Slot e w =
     (let controller = es_Get (read_field e ef_controller Unset_ref w) w; slot = en_Index controller w - 1
      in if controller \<noteq> None \<and> IsValidSlot slot then slot else -1)"

lemma write_read [simp]: "read_field e g z (write_field e f w) = read_field e (\<lambda>x. g (f x)) z w"
  by (auto simp: read_field_def write_field_def split: option.splits)

text \<open>Healing never lowers health, never passes the maximum, and says true exactly when health rose; without overflow it is always defined.\<close>

lemma Heal_effect:
  assumes "Heal amount e w = Some (healed, w')"
  shows "read_field e ef_health 0 w \<le> read_field e ef_health 0 w' \<and> (healed \<longleftrightarrow> read_field e ef_health 0 w < read_field e ef_health 0 w') \<and>
    (healed \<longrightarrow> IsAlive e w \<and> read_field e ef_health 0 w' \<le> read_field e ef_maxHealth 0 w) \<and> (\<not> healed \<longrightarrow> w' = w)"
proof -
  have r: "read_field e (\<lambda>x. c) 0 w = c" if "IsAlive e w" for c :: int
    using that by (auto simp: IsAlive_def read_field_def split: option.splits)
  show ?thesis using assms r by (auto simp: Heal_def Let_def split: if_splits)
qed

lemma Heal_overflow: "read_field e ef_health 0 w = 1 \<Longrightarrow> Heal (2 ^ 31 - 1) e w = None"
  by (simp add: Heal_def)

text \<open>A pawn ends on the team it was on, whatever the engine answers, as long as giving leaves the team alone.\<close>

lemma GiveItem_team:
  assumes "\<And>h item w. read_field e ef_team Team_None (snd (gives h item w)) = read_field e ef_team Team_None w"
    and "\<And>h item w. e = Some h \<Longrightarrow> (wd_entities (snd (gives h item w)) h = None) = (wd_entities w h = None)"
  shows "read_field e ef_team Team_None (snd (GiveItem (Some gives) item e w)) = read_field e ef_team Team_None w"
proof (cases e)
  case (Some h)
  obtain g1 w1 where g1: "gives h item w = (g1, w1)" by force
  obtain g2 w2 where g2: "gives h item (SetTeamNum (Opposite (read_field e ef_team Team_None w1)) e w1) = (g2, w2)" by force
  have t1: "read_field e ef_team Team_None w1 = read_field e ef_team Team_None w" using assms(1)[of h item w] g1 by simp
  have t2: "read_field e ef_team Team_None (SetTeamNum t e w2) = t" if "wd_entities w2 h \<noteq> None" for t
    using that Some by (auto simp: SetTeamNum_def write_field_def read_field_def)
  have n: "wd_entities w2 h = None \<Longrightarrow> wd_entities w h = None"
    using assms(2)[OF Some, of item "SetTeamNum (Opposite (read_field e ef_team Team_None w1)) e w1"] assms(2)[OF Some, of item w] g1 g2 Some
    by (simp add: SetTeamNum_def write_field_def)
  have z: "wd_entities w2 h = None \<Longrightarrow> read_field e ef_team Team_None (SetTeamNum t e w2) = read_field e ef_team Team_None w" for t
    using n Some by (simp add: SetTeamNum_def write_field_def read_field_def)
  have f: "read_field e ef_team Team_None (SetTeamNum (read_field e ef_team Team_None w1) e w2) = read_field e ef_team Team_None w"
    using t1 t2 z by (cases "wd_entities w2 h = None") auto
  show ?thesis using g1 g2 t1 f Some by (cases g1) (auto simp: GiveItem_def Let_def)
qed (simp add: GiveItem_def)

text \<open>Only carried weapons are drawn, what is carried is alive, and holding fire never brings an attack forward.\<close>

lemma Weapons_alive: "x \<in> set (Weapons e w) \<Longrightarrow> wd_entities w x \<noteq> None"
  by (auto simp: Weapons_def List.map_filter_def es_Get_def split: option.splits if_splits)

lemma SelectWeapon_carried: "SelectWeapon (Some x) e w \<noteq> w \<Longrightarrow> x \<in> set (Weapons e w)"
  by (auto simp: SelectWeapon_def split: if_splits)

lemma pn_Slot_valid: "pn_Slot e w = -1 \<or> IsValidSlot (pn_Slot e w)"
  by (simp add: pn_Slot_def Let_def)

section \<open>Spawning\<close>

definition es_Create :: "bool \<Rightarrow> (string \<Rightarrow> world \<Rightarrow> nat option \<times> world) \<Rightarrow> string \<Rightarrow> world \<Rightarrow> nat option \<times> world" where
  "es_Create available creates className w = (if \<not> available \<or> className = [] then (None, w) else creates className w)"

definition es_Spawn :: "bool \<Rightarrow> (string \<Rightarrow> world \<Rightarrow> nat option \<times> world) \<Rightarrow> string \<Rightarrow> KeyValues \<Rightarrow> world \<Rightarrow> nat option \<times> KeyValues \<times> world" where
  "es_Spawn available creates className kv w =
     (let (e, w) = es_Create available creates className w; (kv, w) = en_Spawn e kv w in (e, kv, w))"

section \<open>Controllers\<close>

definition one_command :: "string \<Rightarrow> bool" where
  "one_command command \<longleftrightarrow> command \<noteq> [] \<and> (\<forall>c \<in> set command. c \<noteq> CHR 0x3B \<and> c \<noteq> CHR 0x0D \<and> c \<noteq> CHR 0x0A)"

definition TokenizeOneCommand :: "(string \<Rightarrow> string list option) \<Rightarrow> string \<Rightarrow> string list option" where
  "TokenizeOneCommand Tokenize command = (if \<not> one_command command then None
     else case Tokenize command of None \<Rightarrow> None | Some args \<Rightarrow> if args = [] then None else Some args)"

datatype client_command = Registered "string list" | ToClientCommand "string list"

definition ct_ExecuteCommand :: "(string \<Rightarrow> string list option) \<Rightarrow> (string \<Rightarrow> bool) \<Rightarrow> bool \<Rightarrow> bool \<Rightarrow> int \<Rightarrow> string \<Rightarrow> client_command option" where
  "ct_ExecuteCommand Tokenize registered there interfaces slot command =
     (if \<not> there \<or> \<not> IsValidSlot slot then None
      else if \<not> interfaces then None
      else case TokenizeOneCommand Tokenize command of None \<Rightarrow> None
        | Some args \<Rightarrow> Some (if registered (hd args) then Registered args else ToClientCommand args))"

definition ct_ChangeTeam :: "Team \<Rightarrow> nat option \<Rightarrow> world \<Rightarrow> world" where
  "ct_ChangeTeam team e w = (if team = Spectator \<or> IsPlaying team then ask e (ChangesTeam team) w else w)"

definition ct_Respawn :: "nat option \<Rightarrow> world \<Rightarrow> status \<times> world" where
  "ct_Respawn e w = (if e = None then (Inl (Error_NotReady ''no controller''), w)
     else if \<not> wd_bound w Respawns then (Inl (Error_Unsupported ''gamedata has no 'CCSPlayerController::Respawn' vtable index''), w)
     else (Inr (), ask e Respawns w))"

text \<open>A command run for a client is one command: no separator reaches the engine.\<close>

lemma ExecuteCommand_one: "ct_ExecuteCommand Tokenize registered there ifs slot command = Some c \<Longrightarrow> one_command command \<and> IsValidSlot slot"
  by (auto simp: ct_ExecuteCommand_def TokenizeOneCommand_def split: if_splits option.splits)

section \<open>Hooks that may block\<close>

record WeaponDropRequest =
  wr_Slot :: int
  wr_Swapping :: bool
  wr_Blocked :: bool

definition OnDrop :: "(WeaponDropRequest \<Rightarrow> WeaponDropRequest) \<Rightarrow> nat option \<Rightarrow> bool \<Rightarrow> world \<Rightarrow> bool option" where
  "OnDrop Before pawn swapping w =
     (let drop = \<lparr>wr_Slot = (if pawn = None then -1 else pn_Slot pawn w), wr_Swapping = swapping, wr_Blocked = False\<rparr>
      in if \<not> IsValidSlot (wr_Slot drop) then None else if wr_Blocked (Before drop) then Some False else None)"

record TextMessage =
  tx_Text :: string
  tx_Blocked :: bool

text \<open>A network message as the filter reads it: its id, and its texts when it converts.\<close>

definition FilterTextMessage :: "(TextMessage \<Rightarrow> TextMessage) \<Rightarrow> nat \<Rightarrow> (nat \<times> string list option) option \<Rightarrow> bool" where
  "FilterTextMessage Before UM_TextMsg data = (case data of None \<Rightarrow> False | Some (messageId, texts) \<Rightarrow>
     if messageId \<noteq> UM_TextMsg then False
     else (case texts of None \<Rightarrow> False | Some [] \<Rightarrow> False | Some (text # _) \<Rightarrow> tx_Blocked (Before \<lparr>tx_Text = text, tx_Blocked = False\<rparr>)))"

end
