(* ===== verification/EngineServices.thy ===== *)
theory EngineServices
  imports PluginHost
begin

text \<open>
  Small services over the engine: a player's command as the handlers see it, panels that are sent again and again, precached resources, fixed character
  arrays, scores that decay, published interfaces, the map, and what the engine's hooks do with a joining or leaving client. Sources:
  \<^verbatim>\<open>src/Hooks/Movement.cpp\<close>, \<^verbatim>\<open>src/Messaging/CenterHtml.cpp\<close>, \<^verbatim>\<open>src/Engine/Server/Precache.cpp\<close>,
  \<^verbatim>\<open>Map.cpp\<close>, \<^verbatim>\<open>include/VoltMod/Core/Text/CharBuf.hpp\<close>, \<^verbatim>\<open>include/VoltMod/Core/Time/DecayingScore.hpp\<close>,
  \<^verbatim>\<open>include/VoltMod/App/ServiceExchange.hpp\<close> and \<^verbatim>\<open>src/Host/EngineHooks.cpp\<close>.
\<close>

section \<open>Movement\<close>

text \<open>The plugin's own copy of the command while it has handlers that rewrite.\<close>

definition mv_Available :: "bool \<Rightarrow> bool \<Rightarrow> status" where
  "mv_Available runCommand userCmdProto =
     (if \<not> runCommand then Inl (Error_Unsupported ''the CPlayer_MovementServices::RunCommand vtable slot did not bind'')
      else if \<not> userCmdProto then Inl (Error_Unsupported ''the CUserCmd::CSGOUserCmdPB offset did not bind'')
      else Inr ())"

text \<open>The input the handlers before the command see, and the copy kept for those after it.\<close>

definition BeforeCommand :: "(int \<Rightarrow> 'input \<Rightarrow> 'input) option \<Rightarrow> int \<Rightarrow> 'input \<Rightarrow> 'input \<times> 'input option" where
  "BeforeCommand Rewrite slot input = (case Rewrite of None \<Rightarrow> (input, None) | Some rewrite \<Rightarrow> (let rewritten = rewrite slot input in (rewritten, Some rewritten)))"

definition AfterCommand :: "'input option \<Rightarrow> 'input \<Rightarrow> 'input" where
  "AfterCommand rewritten input = (case rewritten of Some r \<Rightarrow> r | None \<Rightarrow> input)"

text \<open>The handlers after a command see the input the handlers before it saw, whatever handlers come and go in between.\<close>

lemma same_input: "BeforeCommand Rewrite slot input = (seen, kept) \<Longrightarrow> AfterCommand kept input = seen"
  by (auto simp: BeforeCommand_def AfterCommand_def Let_def split: option.splits)

section \<open>Panels\<close>

text \<open>Each slot's timer, if any, and the panels sent; a render is what the plugin's function answers when it is called.\<close>

record 'r CenterHtmlPanels =
  ch_timers :: "int \<Rightarrow> (int \<times> 'r) option"
  ch_sent :: "(int \<times> string) list"

definition ch_Stop :: "int \<Rightarrow> 'r CenterHtmlPanels \<Rightarrow> 'r CenterHtmlPanels" where
  "ch_Stop slot s = (if \<not> IsValidSlot slot \<or> ch_timers s slot = None then s
     else s\<lparr>ch_timers := (ch_timers s)(slot := None), ch_sent := ch_sent s @ [(slot, '' '')]\<rparr>)"

definition ch_Show :: "('r \<Rightarrow> int \<Rightarrow> string) \<Rightarrow> int \<Rightarrow> int \<Rightarrow> 'r option \<Rightarrow> 'r CenterHtmlPanels \<Rightarrow> 'r CenterHtmlPanels" where
  "ch_Show run slot refreshMs render s = (case render of None \<Rightarrow> s | Some r \<Rightarrow>
     if \<not> IsValidSlot slot \<or> refreshMs \<le> 0 then s
     else (let s = ch_Stop slot s; s = s\<lparr>ch_sent := ch_sent s @ [(slot, run r slot)]\<rparr> in s\<lparr>ch_timers := (ch_timers s)(slot := Some (refreshMs, r))\<rparr>))"

definition ch_StopAll :: "'r CenterHtmlPanels \<Rightarrow> 'r CenterHtmlPanels" where
  "ch_StopAll s = fold ch_Stop all_slots s"

definition ch_tick :: "('r \<Rightarrow> int \<Rightarrow> string) \<Rightarrow> int \<Rightarrow> 'r CenterHtmlPanels \<Rightarrow> 'r CenterHtmlPanels" where
  "ch_tick run slot s = (case ch_timers s slot of None \<Rightarrow> s | Some (ms, r) \<Rightarrow> s\<lparr>ch_sent := ch_sent s @ [(slot, run r slot)]\<rparr>)"

text \<open>A stopped slot's last panel is the blank one, and nothing more is sent to it; other slots keep theirs.\<close>

lemma ch_Stop_blank:
  assumes "IsValidSlot slot" "ch_timers s slot \<noteq> None"
  shows "ch_sent (ch_Stop slot s) = ch_sent s @ [(slot, '' '')] \<and> ch_tick run slot (ch_Stop slot s) = ch_Stop slot s \<and>
    (\<forall>other. other \<noteq> slot \<longrightarrow> ch_timers (ch_Stop slot s) other = ch_timers s other)"
  using assms by (simp add: ch_Stop_def ch_tick_def)

lemma fold_ch_Stop: "ch_timers (fold ch_Stop slots s) slot = (if slot \<in> set slots \<and> IsValidSlot slot then None else ch_timers s slot)"
  by (induction slots arbitrary: s) (auto simp: ch_Stop_def)

lemma ch_StopAll_none: "IsValidSlot slot \<Longrightarrow> ch_timers (ch_StopAll s) slot = None"
  by (simp add: ch_StopAll_def fold_ch_Stop)

section \<open>Precache\<close>

definition Precache_Add :: "string \<Rightarrow> string list \<Rightarrow> string list" where
  "Precache_Add path resources = (if path = [] then resources else if path \<in> set resources then resources else resources @ [path])"

lemma Precache_Add_ok: "distinct rs \<and> [] \<notin> set rs \<Longrightarrow> distinct (Precache_Add p rs) \<and> [] \<notin> set (Precache_Add p rs) \<and> set (Precache_Add p rs) = set rs \<union> ({p} - {[]})"
  by (auto simp: Precache_Add_def)

section \<open>Fixed character arrays\<close>

definition CharBuf_Assign :: "nat \<Rightarrow> string \<Rightarrow> string" where
  "CharBuf_Assign n text = (let len = min (length text) (n - 1) in take len text @ replicate (n - len) (CHR 0x00))"

definition CharBuf_View :: "string \<Rightarrow> string" where
  "CharBuf_View v = takeWhile (\<lambda>c. c \<noteq> CHR 0x00) v"

text \<open>The array keeps its size and ends in NUL; what is read back is the text cut to fit and at its first NUL.\<close>

lemma CharBuf_roundtrip:
  assumes "0 < n"
  shows "length (CharBuf_Assign n text) = n \<and> last (CharBuf_Assign n text) = CHR 0x00 \<and> CharBuf_View (CharBuf_Assign n text) = takeWhile (\<lambda>c. c \<noteq> CHR 0x00) (take (n - 1) text)"
proof -
  have "0 < n - min (length text) (n - 1)" using assms by linarith
  then obtain k where k: "n - min (length text) (n - 1) = Suc k" by (cases "n - min (length text) (n - 1)") auto
  have "take (min (length text) (n - 1)) text = take (n - 1) text" by (simp add: min_def)
  hence e: "CharBuf_Assign n text = take (n - 1) text @ CHR 0x00 # replicate k (CHR 0x00)" unfolding CharBuf_Assign_def Let_def k by simp
  have v: "takeWhile (\<lambda>c. c \<noteq> CHR 0x00) (xs @ CHR 0x00 # ys) = takeWhile (\<lambda>c. c \<noteq> CHR 0x00) xs" for xs ys by (induction xs) auto
  have l: "length (CharBuf_Assign n text) = n" using assms by (simp add: CharBuf_Assign_def Let_def)
  show ?thesis using l v by (simp add: e CharBuf_View_def)
qed

section \<open>Scores that decay\<close>

text \<open>The power of two is an argument; times and weights are rationals, so rounding is not modelled.\<close>

record DecayingScore =
  dc_value :: rat
  dc_stamp :: rat
  dc_halfLifeSec :: rat

definition dc_Value :: "(rat \<Rightarrow> rat) \<Rightarrow> rat \<Rightarrow> DecayingScore \<Rightarrow> rat" where
  "dc_Value exp2 now s = (let elapsed = now - dc_stamp s
     in if dc_halfLifeSec s \<le> 0 \<or> elapsed \<le> 0 then dc_value s else dc_value s * exp2 (- elapsed / dc_halfLifeSec s))"

definition dc_Add :: "(rat \<Rightarrow> rat) \<Rightarrow> rat \<Rightarrow> rat \<Rightarrow> DecayingScore \<Rightarrow> rat \<times> DecayingScore" where
  "dc_Add exp2 now weight s = (let v = dc_Value exp2 now s + weight in (v, s\<lparr>dc_value := v, dc_stamp := now\<rparr>))"

definition dc_Clear :: "DecayingScore \<Rightarrow> DecayingScore" where
  "dc_Clear s = s\<lparr>dc_value := 0, dc_stamp := 0\<rparr>"

text \<open>With no event a score never grows and never turns negative, a clock that goes back included.\<close>

lemma dc_Value_bounds:
  assumes "\<And>x. x \<le> 0 \<Longrightarrow> 0 \<le> exp2 x \<and> exp2 x \<le> 1" "0 \<le> dc_value s"
  shows "0 \<le> dc_Value exp2 now s \<and> dc_Value exp2 now s \<le> dc_value s"
proof (cases "dc_halfLifeSec s \<le> 0 \<or> now - dc_stamp s \<le> 0")
  case False
  have "- (now - dc_stamp s) / dc_halfLifeSec s \<le> 0" using False by (simp add: divide_le_0_iff)
  hence "0 \<le> exp2 (- (now - dc_stamp s) / dc_halfLifeSec s) \<and> exp2 (- (now - dc_stamp s) / dc_halfLifeSec s) \<le> 1" by (rule assms(1))
  thus ?thesis using False assms(2) by (simp add: dc_Value_def Let_def mult_left_le)
qed (use assms(2) in \<open>auto simp: dc_Value_def Let_def\<close>)

section \<open>Published interfaces and the map\<close>

definition KeyedName :: "string \<Rightarrow> string \<Rightarrow> string" where
  "KeyedName iface key = iface @ '':'' @ key"

lemma KeyedName_inj: "KeyedName iface k = KeyedName iface k' \<longleftrightarrow> k = k'"
  by (simp add: KeyedName_def)

definition map_IsValid :: "(string \<Rightarrow> bool) option \<Rightarrow> string \<Rightarrow> bool" where
  "map_IsValid isMapValid name = (if name = [] then False else case isMapValid of None \<Rightarrow> False | Some f \<Rightarrow> f name)"

text \<open>Whether the engine was asked to change, and to what.\<close>

definition ChangeLevel :: "(string \<Rightarrow> bool) option \<Rightarrow> string \<Rightarrow> string option" where
  "ChangeLevel isMapValid name = (if map_IsValid isMapValid name then Some name else None)"

definition ChangeToWorkshop :: "nat \<Rightarrow> string option" where
  "ChangeToWorkshop workshopId = (if workshopId = 0 then None else Some (''host_workshop_map '' @ to_string workshopId))"

definition map_Current :: "string \<Rightarrow> string option \<Rightarrow> string" where
  "map_Current current globals = (if current \<noteq> [] then current else case globals of None \<Rightarrow> [] | Some n \<Rightarrow> n)"

section \<open>The engine's clients\<close>

text \<open>A plugin that consumes a command keeps it from the engine; the first reason refuses a joining client.\<close>

definition hook_RunCommand :: "string \<Rightarrow> string \<Rightarrow> int \<Rightarrow> ('f, 'i) callbacks \<Rightarrow> ('f, 'i) host \<Rightarrow> bool \<times> ('f, 'i) host" where
  "hook_RunCommand name arguments slot call h = RaiseConsoleCommand name arguments slot call h"

definition hook_ClientPutInServer :: "int \<Rightarrow> int \<Rightarrow> string \<Rightarrow> string \<Rightarrow> ('f, 'i) callbacks \<Rightarrow> ('f, 'i) host \<Rightarrow> ('f, 'i) host" where
  "hook_ClientPutInServer slot xuid name address call h =
     (if IsValidSlot slot \<and> \<not> IsConnected slot h then RaiseClientConnected slot xuid name address call h else h)"

definition DisconnectEveryone :: "('f, 'i) callbacks \<Rightarrow> ('f, 'i) host \<Rightarrow> ('f, 'i) host" where
  "DisconnectEveryone call h = fold (\<lambda>slot h. if IsConnected slot h then RaiseClientDisconnected slot call h else h) all_slots h"

text \<open>A client the plugins already have is not announced again when it enters the new map.\<close>

lemma put_in_server_once: "IsConnected slot h \<Longrightarrow> hook_ClientPutInServer slot xuid name address call h = h"
  by (simp add: hook_ClientPutInServer_def)

end
