(* ===== verification/Spec2Isabelle.thy ===== *)
theory Spec2Isabelle
  imports LoaderInvariant SteamId Durations Signals Scheduler CommandRouter MenuRows MenuInvariant Vote ConVarQueries Screens PlayerInputs MenuFlow VtableRtti DatabaseClient HttpClient ConVars Damage Config Messages Logger ServerLoader EntityWorld EngineServices
begin

text \<open>
  A model of VoltMod, a framework that runs C++ plugins inside a game server, and the theorems that make its parts correct.

  \<^bold>\<open>The program.\<close> A host library is loaded by the game server. It finds the plugins that are installed
  (\<^verbatim>\<open>src/Host/Plugins\<close>), orders them by their dependencies, loads each into its own view of the host, and
  forwards the engine's callbacks to the plugins in load order. A plugin is written against a runtime
  (\<^verbatim>\<open>include/VoltMod\<close>): text and time helpers, signals and a scheduler (\<^verbatim>\<open>Core\<close>), the roster of
  players and the permission policy (\<^verbatim>\<open>Players\<close>), chat and console commands (\<^verbatim>\<open>Commands\<close>), menus on
  two kinds of screens (\<^verbatim>\<open>Menu\<close>), and services over engine hooks (\<^verbatim>\<open>Hooks\<close>). Almost everything runs on the game thread; what
  makes it hard is re-entrance: callbacks register, remove, open, close and unload while the code that calls them is still looping. Database and HTTP workers
  and their log lines are the exception, and hand what they have over in queues.

  \<^bold>\<open>How it is modelled.\<close> A class is a record, an operation a function from the state to its result and the new state, in the
  order of the source; an enum is a datatype; an early return is a branch; an error is the left side of a sum
  (\<open>Result\<close>). Integers that wrap are words; other bounded numbers are integers with the bound where the code checks it. Times in
  floating-point seconds are rationals, so rounding is not modelled. Code outside the repository (the engine, the
  Steam interface, JSON and the file system) and plugin code are arguments of the definitions that call it; callbacks are
  functions of the whole state of their component wherever they can reach it, so that re-entrance is part of the theorems. Undefined
  behaviour of the source (a dangling pointer, an empty optional) is a flag of the state that a theorem proves clear, or proves set.

  \<^bold>\<open>Theories.\<close> \<open>Prelude\<close> holds the lists and ordered maps every component uses, with the map contract
  as a locale; \<open>Result\<close> is \<^verbatim>\<open>Core/Result.hpp\<close>.
  \<^item> Plugins (\<^verbatim>\<open>src/Host/Plugins\<close>, \<^verbatim>\<open>src/Host/Workshop\<close>). \<open>Worklist\<close> is the generic search both loops of the dependency
    resolver instantiate; \<open>PluginDependencies\<close> the resolver, shown equal to a closure of refusals; \<open>OwnedNames\<close> the tables whose names have
    one owner; \<open>Dispatch\<close> the contract of a pass over callbacks that may change, met by \<open>CallbackList\<close> and
    \<open>CallbackRegistry\<close>; \<open>PluginHost\<close> and \<open>HostInvariant\<close> the views of all plugins and that a removed plugin leaves nothing behind; \<open>PluginLoader\<close> and
    \<open>LoaderInvariant\<close> loading, unloading, reloading and deferred requests, with the consistency of every reachable state. \<open>DownloadQueue\<close> and
    \<open>WorkshopDownloads\<close> are the addon downloads of connecting clients.
  \<^item> Core (\<^verbatim>\<open>include/VoltMod/Core\<close>, \<^verbatim>\<open>src/Core\<close>). \<open>Strings\<close>, \<open>CommandSyntax\<close> and \<open>Translations\<close> (text), \<open>SteamId\<close> and \<open>Slots\<close>,
    \<open>Durations\<close>, \<open>Signals\<close> (subscriptions, events, hooks installed while used), \<open>Scheduler\<close>, \<open>Logger\<close> (lines of worker threads) and \<open>GameThreadQueue\<close>
    (completions that run on the game thread).
  \<^item> The load of a plugin (\<^verbatim>\<open>src/App\<close>, \<^verbatim>\<open>src/Host/Schema\<close>, \<^verbatim>\<open>src/Loader\<close>). \<open>ServerLoader\<close> finds the real server and starts the
    host; \<open>SchemaCheck\<close> compares the generated layout with the game and dumps a new one; \<open>PluginModule\<close> attaches a plugin or leaves nothing behind; \<open>Config\<close> its
    settings.
  \<^item> Players and commands. \<open>Players\<close> (roster and policy), \<open>Targeting\<close>, \<open>ArgBinding\<close> and \<open>CommandRouter\<close>, from a chat line to the handler; \<open>Messages\<close> (what each
    client is sent).
  \<^item> Menus. \<open>MenuModel\<close> (rows and cursor), \<open>MenuState\<close>, \<open>MenuStack\<close> (the stack and the held commits), \<open>MenuRows\<close>, \<open>MenuFlow\<close>, \<open>MenuServices\<close>
    (chat input, holding players still), \<open>CenterHtmlRender\<close> and \<open>CenterHtmlMenu\<close>, \<open>PanoramaMenuLayout\<close> and \<open>PanoramaMenu\<close>, and \<open>MenuRouter\<close> over both;
    \<open>MenuInvariant\<close> holds the reachable states of all of them. \<open>Screens\<close> are the entities of \<^verbatim>\<open>src/Ui\<close> that show them.
  \<^item> Hooks and events. \<open>Vote\<close> (the F1/F2 panel), \<open>ConVarQueries\<close> (asking clients for their convars), \<open>Visibility\<close> and \<open>GlowVision\<close> (what each client receives),
    \<open>Damage\<close> (hits and the names of deaths), \<open>GameEvents\<close> (the engine's events), \<open>PlayerInputs\<close> (each player's commands in the host), \<open>EntityWorld\<close> (entities, pawns
    and what they carry) and \<open>EngineServices\<close> (the small services).
  \<^item> The engine (\<^verbatim>\<open>src/Engine\<close>, \<^verbatim>\<open>src/Host/GameData\<close>). \<open>SigScanner\<close> (byte patterns), \<open>VtableLookup\<close> and \<open>VtableRtti\<close> (tables of
    virtual functions in an image), \<open>GameData\<close> (the document of signatures and what binds) and \<open>ConVars\<close>.
  \<^item> Databases and HTTP. \<open>Migrations\<close>, \<open>DatabaseClient\<close> and \<open>HttpClient\<close>: the game thread and the workers as interleaved steps, a step being what
    runs under one lock or between two waits.

  \<^bold>\<open>What the theorems show.\<close> Equality with a declarative specification (dependency resolution, translation lookup, permission checks, pattern
  search, the tally of a vote, the weapon a death names); invariants of all reachable states, with callbacks that call back (plugin loader, host, roster, menus,
  convar queries, game events) and with threads that interleave (database, HTTP, log); that operations end and do all their work (unloading, dispatch, downloads
  that are served or kicked, calls that wait for a worker); round trips (command lines, overridden variables, a layout taken from the dump); what is safe to show or
  send (HTML escapes, one console command for any value); that a plugin runs only with a layout the game has, and leaves nothing behind when its load fails; and
  errors on every path of command dispatch. A hypothesis of a theorem is met by its witness. Loops are structural recursions or \<open>function\<close>s with a measure;
  fuel appears only where a callback may call back without end, and there the theorems say what holds at every depth.

  \<^bold>\<open>Not modelled.\<close> Generated code (\<^verbatim>\<open>Events/EventTypes\<close>, \<^verbatim>\<open>Schema/Generated\<close>); the wrappers that read engine memory or
  forward one call to it (\<^verbatim>\<open>Unsafe\<close>, images and script bindings, traces, rounds, positions and rendering of entities); opening libraries and files, sockets and
  database drivers, JSON and random numbers; the declarations of interfaces; and the command line tool in Python. Of the virtual tables, the search is modelled
  for both executable formats as far as the code reads them. Floating-point arithmetic is an argument or rational. The manifest lists each part with its reason.
\<close>

end
